(* ===== verification/Prelude.thy ===== *)
theory Prelude
  imports Main "HOL-Library.Sublist"
begin

text \<open>
  Shared vocabulary of the development: the exceptions the modelled Python code raises,
  results that are either an exception or a value, rows kept in primary-key tables with
  the operations an ORM session offers on them, the fact collections the component
  theories extend, and the generic lemmas on lists and maps they share.
\<close>

section \<open>Fact collections\<close>

named_theorems res_simps \<open>equations for results and their binds\<close>
named_theorems table_simps \<open>equations for primary-key tables\<close>
named_theorems inv_intros \<open>preservation of invariants by operations\<close>

section \<open>Exceptions and results\<close>

text \<open>
  One constructor per exception class the modelled code raises or handles. The text
  carried by an exception is dropped except where a handler inspects it
  (\<open>imaplib.IMAP4.error\<close>, MySQL's operational errors) or where it tells two failures of one function apart
  (\<open>InputError\<close>, \<open>ValueError\<close>).
\<close>

datatype exc =
    KeyError
  | IndexError
  | ValueError string
  | TypeError
  | AttributeError
  | AssertionError
  | NoResultFound
  | MultipleResultsFound
  | IntegrityError
  | OperationalError string
  | SocketError
  | SSLError
  | RedisTimeoutError
  | ParserError
  | UidInvalid
  | FolderMissingError
  | MailsyncDone
  | MailsyncError
  | GreenletExit
  | ValidationError
  | Imap4Error string
  | InputError string
  | NotFoundError
  | ConflictError
  | AccountInvalidError
  | AccountStoppedError
  | AccountDeletionError string
  | HTTPError nat
  | OAuthError
  | AccessNotEnabledError
  | ApiConnectionError
  | MalformedEventError
  | NotImplementedError
  | UnboundLocalError
  | SendMailException
  | UnicodeError
  | OtherException

type_synonym 'a res = "exc + 'a"

abbreviation Ok :: "'a \<Rightarrow> 'a res" where
  "Ok x \<equiv> Inr x"

abbreviation Raise :: "exc \<Rightarrow> 'a res" where
  "Raise e \<equiv> Inl e"

text \<open>Sequencing: the first exception ends the computation.\<close>

definition res_bind :: "'a res \<Rightarrow> ('a \<Rightarrow> 'b res) \<Rightarrow> 'b res" where
  "res_bind r f = (case r of Inl e \<Rightarrow> Inl e | Inr x \<Rightarrow> f x)"

lemma res_bind_simps [simp, res_simps]:
  "res_bind (Inl e) f = Inl e"
  "res_bind (Inr x) f = f x"
  by (simp_all add: res_bind_def)

lemma res_bind_Inr_iff [res_simps]:
  "res_bind r f = Inr y \<longleftrightarrow> (\<exists>x. r = Inr x \<and> f x = Inr y)"
  by (cases r) simp_all

lemma res_bind_Inl_iff [res_simps]:
  "res_bind r f = Inl e \<longleftrightarrow> r = Inl e \<or> (\<exists>x. r = Inr x \<and> f x = Inl e)"
  by (cases r) simp_all

lemma res_bind_assoc: "res_bind (res_bind r f) g = res_bind r (\<lambda>x. res_bind (f x) g)"
  by (cases r) simp_all

text \<open>An \<open>assert\<close> statement, and a loop that runs a fallible body over a list.\<close>

definition py_assert :: "bool \<Rightarrow> unit res" where
  "py_assert b = (if b then Ok () else Raise AssertionError)"

lemma py_assert_simps [simp, res_simps]:
  "py_assert True = Ok ()"
  "py_assert False = Raise AssertionError"
  "py_assert b = Inr u \<longleftrightarrow> b"
  "py_assert b = Inl e \<longleftrightarrow> \<not> b \<and> e = AssertionError"
  by (auto simp: py_assert_def)

fun res_fold :: "('a \<Rightarrow> 's \<Rightarrow> 's res) \<Rightarrow> 'a list \<Rightarrow> 's \<Rightarrow> 's res" where
  "res_fold f [] s = Ok s"
| "res_fold f (x # xs) s = res_bind (f x s) (res_fold f xs)"

lemma res_fold_append:
  "res_fold f (xs @ ys) s = res_bind (res_fold f xs s) (res_fold f ys)"
proof (induction xs arbitrary: s)
  case (Cons x xs)
  have "res_fold f (xs @ ys) = (\<lambda>t. res_bind (res_fold f xs t) (res_fold f ys))"
    by (rule ext) (rule Cons.IH)
  then show ?case by (simp add: res_bind_assoc)
qed simp

lemma res_fold_invariant:
  assumes "\<And>x s s'. x \<in> set xs \<Longrightarrow> P s \<Longrightarrow> f x s = Inr s' \<Longrightarrow> P s'"
  shows "P s \<Longrightarrow> res_fold f xs s = Inr s' \<Longrightarrow> P s'"
  using assms
proof (induction xs arbitrary: s)
  case (Cons x xs)
  from Cons.prems(2) obtain t where t: "f x s = Inr t" "res_fold f xs t = Inr s'"
    by (auto simp: res_simps)
  with Cons.prems have "P t" by auto
  with t Cons.IH Cons.prems(3) show ?case by auto
qed simp

fun res_all :: "('a \<Rightarrow> unit res) \<Rightarrow> 'a list \<Rightarrow> unit res" where
  "res_all f [] = Ok ()"
| "res_all f (x # xs) = res_bind (f x) (\<lambda>_. res_all f xs)"

lemma res_all_Ok_iff: "res_all f xs = Inr u \<longleftrightarrow> (\<forall>x\<in>set xs. f x = Inr ())"
  by (induction xs) (auto simp: res_simps)

text \<open>
  Code that changes a state and may raise: what it changed before the exception stays
  changed. \<open>st_lift\<close> is a transaction on a part of the state: it is rolled back when its
  body raises.
\<close>

type_synonym ('s, 'a) st = "'s \<Rightarrow> 's \<times> 'a res"

definition st_ok :: "'a \<Rightarrow> ('s, 'a) st" where
  "st_ok x s = (s, Ok x)"

definition st_raise :: "exc \<Rightarrow> ('s, 'a) st" where
  "st_raise e s = (s, Raise e)"

definition st_bind :: "('s, 'a) st \<Rightarrow> ('a \<Rightarrow> ('s, 'b) st) \<Rightarrow> ('s, 'b) st" where
  "st_bind f g s = (case f s of (s', Inl e) \<Rightarrow> (s', Inl e) | (s', Inr x) \<Rightarrow> g x s')"

definition st_res :: "'a res \<Rightarrow> ('s, 'a) st" where
  "st_res r s = (s, r)"

definition st_lift :: "('s \<Rightarrow> ('s \<times> 'a) res) \<Rightarrow> ('s, 'a) st" where
  "st_lift f s = (case f s of Inl e \<Rightarrow> (s, Inl e) | Inr (s', x) \<Rightarrow> (s', Inr x))"

lemma st_simps [simp, res_simps]:
  "st_ok x s = (s, Inr x)" "st_raise e s = (s, Inl e)" "st_res r s = (s, r)"
  by (simp_all add: st_ok_def st_raise_def st_res_def)

lemma st_bind_Inr [simp]: "f s = (s', Inr x) \<Longrightarrow> st_bind f g s = g x s'"
  by (simp add: st_bind_def)

lemma st_bind_Inl [simp]: "f s = (s', Inl e) \<Longrightarrow> st_bind f g s = (s', Inl e)"
  by (simp add: st_bind_def)

lemma st_bind_cases:
  assumes "st_bind f g s = (t, r)"
  obtains (raise) e where "f s = (t, Inl e)" "r = Inl e"
  | (step) u x where "f s = (u, Inr x)" "g x u = (t, r)"
  using assms by (auto simp: st_bind_def split: prod.splits sum.splits)

text \<open>A property of states that both parts keep is kept by the sequence.\<close>

definition st_keeps :: "('s \<Rightarrow> bool) \<Rightarrow> ('s, 'a) st \<Rightarrow> bool" where
  "st_keeps P f \<longleftrightarrow> (\<forall>s. P s \<longrightarrow> P (fst (f s)))"

lemma st_keepsI: "(\<And>s. P s \<Longrightarrow> P (fst (f s))) \<Longrightarrow> st_keeps P f"
  by (simp add: st_keeps_def)

lemma st_keepsD: "st_keeps P f \<Longrightarrow> P s \<Longrightarrow> f s = (t, r) \<Longrightarrow> P t"
  by (metis fst_conv st_keeps_def)

lemma st_keeps_pure [inv_intros]:
  "st_keeps P (st_ok x)" "st_keeps P (st_raise e)" "st_keeps P (st_res r)"
  by (simp_all add: st_keeps_def)

lemma st_keeps_bind [inv_intros]:
  "st_keeps P f \<Longrightarrow> (\<And>x. st_keeps P (g x)) \<Longrightarrow> st_keeps P (st_bind f g)"
  by (auto simp: st_keeps_def st_bind_def split: prod.splits sum.splits)

lemma st_keeps_if [inv_intros]:
  "(b \<Longrightarrow> st_keeps P f) \<Longrightarrow> (\<not> b \<Longrightarrow> st_keeps P g) \<Longrightarrow> st_keeps P (if b then f else g)"
  by simp

lemma st_keeps_fst: "st_keeps P f \<Longrightarrow> P s \<Longrightarrow> P (fst (f s))"
  by (simp add: st_keeps_def)

section \<open>Lists and maps\<close>

lemma find_Some_in: "List.find P xs = Some x \<Longrightarrow> x \<in> set xs \<and> P x"
  by (auto simp: find_Some_iff)

lemma set_map_filter: "set (List.map_filter f xs) = {y. \<exists>x\<in>set xs. f x = Some y}"
  by (induction xs) (auto simp: map_filter_simps split: option.splits)

lemma sorted_map_last: "sorted (map f xs) \<Longrightarrow> x \<in> set xs \<Longrightarrow> f x \<le> (f (last xs) :: 'a :: linorder)"
  by (induction xs) auto

lemma distinct_map_eq:
  "distinct (map f xs) \<Longrightarrow> x \<in> set xs \<Longrightarrow> y \<in> set xs \<Longrightarrow> f x = f y \<Longrightarrow> x = y"
  by (auto simp: distinct_map dest: inj_onD)

lemma distinct_map_filter_upd:
  "distinct (map key xs) \<Longrightarrow> distinct (map key (filter P xs))"
  by (auto simp: distinct_map inj_on_def)

text \<open>Every key of an ordered dictionary built by repeated assignment keeps its last value.\<close>

fun dict_of :: "('k \<times> 'v) list \<Rightarrow> 'k \<rightharpoonup> 'v" where
  "dict_of [] = Map.empty"
| "dict_of ((k, v) # kvs) = (\<lambda>x. case dict_of kvs x of Some w \<Rightarrow> Some w | None \<Rightarrow> if x = k then Some v else None)"

lemma dict_of_append: "dict_of (xs @ ys) k = (case dict_of ys k of Some w \<Rightarrow> Some w | None \<Rightarrow> dict_of xs k)"
  by (induction xs rule: dict_of.induct) (auto split: option.splits)

lemma dict_of_map_of_rev: "dict_of kvs = map_of (rev kvs)"
proof (induction kvs rule: dict_of.induct)
  case (2 k v kvs)
  then show ?case by (auto simp: fun_eq_iff map_add_def split: option.splits)
qed simp

section \<open>Primary-key tables\<close>

text \<open>
  A table is the list of its rows in primary-key order, which is the order InnoDB
  returns them in when a query has no \<open>ORDER BY\<close>. The key function of a row type is its
  \<open>id\<close> column. \<open>t_put\<close> is the flush of a changed object, \<open>t_del\<close> of a
  deleted one, \<open>t_add\<close> of a new one, which takes the next auto-increment id.
\<close>

definition t_get :: "('r \<Rightarrow> nat) \<Rightarrow> 'r list \<Rightarrow> nat \<Rightarrow> 'r option" where
  "t_get key t k = List.find (\<lambda>r. key r = k) t"

definition t_put :: "('r \<Rightarrow> nat) \<Rightarrow> 'r list \<Rightarrow> 'r \<Rightarrow> 'r list" where
  "t_put key t r = map (\<lambda>x. if key x = key r then r else x) t"

definition t_del :: "('r \<Rightarrow> nat) \<Rightarrow> 'r list \<Rightarrow> nat \<Rightarrow> 'r list" where
  "t_del key t k = filter (\<lambda>x. key x \<noteq> k) t"

definition t_add :: "'r list \<Rightarrow> 'r \<Rightarrow> 'r list" where
  "t_add t r = t @ [r]"

definition t_next :: "('r \<Rightarrow> nat) \<Rightarrow> 'r list \<Rightarrow> nat" where
  "t_next key t = Suc (fold max (map key t) 0)"

definition t_inv :: "('r \<Rightarrow> nat) \<Rightarrow> 'r list \<Rightarrow> bool" where
  "t_inv key t \<longleftrightarrow> distinct (map key t)"

text \<open>The laws a client of a table relies on.\<close>

locale row_table =
  fixes key :: "'r \<Rightarrow> nat"
    and get :: "'r list \<Rightarrow> nat \<Rightarrow> 'r option"
    and put :: "'r list \<Rightarrow> 'r \<Rightarrow> 'r list"
    and del :: "'r list \<Rightarrow> nat \<Rightarrow> 'r list"
    and add :: "'r list \<Rightarrow> 'r \<Rightarrow> 'r list"
    and inv :: "'r list \<Rightarrow> bool"
  assumes get_key: "get t k = Some r \<Longrightarrow> key r = k \<and> r \<in> set t"
    and get_mem: "inv t \<Longrightarrow> r \<in> set t \<Longrightarrow> get t (key r) = Some r"
    and set_put: "set (put t r) = (set t - {x. key x = key r}) \<union> (if \<exists>x\<in>set t. key x = key r then {r} else {})"
    and set_del: "set (del t k) = set t - {x. key x = k}"
    and set_add: "set (add t r) = insert r (set t)"
    and inv_put: "inv t \<Longrightarrow> inv (put t r)"
    and inv_del: "inv t \<Longrightarrow> inv (del t k)"
    and inv_add: "inv t \<Longrightarrow> (\<forall>x\<in>set t. key x \<noteq> key r) \<Longrightarrow> inv (add t r)"
begin

lemma get_None_iff: "inv t \<Longrightarrow> get t k = None \<longleftrightarrow> (\<forall>r\<in>set t. key r \<noteq> k)"
proof (cases "get t k")
  case None
  moreover assume "inv t"
  ultimately show ?thesis by (metis get_mem option.distinct(1))
next
  case (Some r)
  then show ?thesis using get_key [OF Some] by auto
qed

lemma get_Some_iff: "inv t \<Longrightarrow> get t k = Some r \<longleftrightarrow> r \<in> set t \<and> key r = k"
  using get_key get_mem by blast

lemma get_del: "inv t \<Longrightarrow> get (del t k) j = (if j = k then None else get t j)"
proof -
  assume inv: "inv t"
  then have inv': "inv (del t k)" by (rule inv_del)
  show ?thesis
  proof (cases "j = k")
    case True
    then show ?thesis using get_None_iff [OF inv'] by (auto simp: set_del)
  next
    case False
    have "get (del t k) j = get t j"
    proof (cases "get t j")
      case None
      then have "\<forall>r\<in>set t. key r \<noteq> j" using inv get_None_iff by blast
      then have "get (del t k) j = None" using inv' by (simp add: get_None_iff set_del)
      with None show ?thesis by simp
    next
      case (Some r)
      then have "get (del t k) j = Some r"
        using inv inv' False by (auto simp: get_Some_iff set_del)
      with Some show ?thesis by simp
    qed
    with False show ?thesis by simp
  qed
qed

lemma get_put:
  assumes inv: "inv t"
  shows "get (put t r) j = (if j = key r \<and> get t j \<noteq> None then Some r else get t j)"
proof -
  have inv': "inv (put t r)" using inv by (rule inv_put)
  show ?thesis
  proof (cases "get t j")
    case None
    then have "\<forall>r\<in>set t. key r \<noteq> j" using inv get_None_iff by blast
    then have "get (put t r) j = None" using inv' by (auto simp: get_None_iff set_put)
    with None show ?thesis by simp
  next
    case (Some x)
    with inv have x: "x \<in> set t" "key x = j" by (auto simp: get_Some_iff)
    show ?thesis
    proof (cases "j = key r")
      case True
      with inv' x Some show ?thesis by (auto simp: get_Some_iff set_put)
    next
      case False
      with inv' x Some show ?thesis by (auto simp: get_Some_iff set_put)
    qed
  qed
qed

lemma put_keys: "key ` set (put t r) = key ` set t"
proof (cases "\<exists>x\<in>set t. key x = key r")
  case True
  then show ?thesis by (auto simp: set_put image_iff split: if_splits) (metis+)?
next
  case False
  then show ?thesis by (auto simp: set_put)
qed

end

lemma t_get_SomeD: "t_get key t k = Some r \<Longrightarrow> key r = k \<and> r \<in> set t"
  by (auto simp: t_get_def find_Some_iff)

lemma t_get_mem: "t_inv key t \<Longrightarrow> r \<in> set t \<Longrightarrow> t_get key t (key r) = Some r"
proof -
  assume inv: "t_inv key t" and r: "r \<in> set t"
  then obtain x where x: "t_get key t (key r) = Some x"
    unfolding t_get_def by (metis (mono_tags, lifting) find_None_iff not_None_eq)
  then have "key x = key r" "x \<in> set t" by (auto dest: t_get_SomeD)
  with inv r have "x = r" by (auto simp: t_inv_def distinct_map dest: inj_onD)
  with x show ?thesis by simp
qed

lemma map_key_t_put [table_simps]: "map key (t_put key t r) = map key t"
  by (simp add: t_put_def)

lemma length_t_put [table_simps]: "length (t_put key t r) = length t"
  by (simp add: t_put_def)

lemma fold_max_ge: "(x::nat) \<in> set xs \<Longrightarrow> x \<le> fold max xs a"
proof (induction xs arbitrary: a)
  case (Cons y ys)
  have mono: "b \<le> fold max zs b" for zs and b :: nat
    by (induction zs arbitrary: b) (auto intro: order_trans [OF max.cobounded2])
  show ?case
  proof (cases "x = y")
    case True
    then show ?thesis using mono [of "max y a" ys] by simp
  qed (use Cons in auto)
qed simp

lemma t_next_fresh: "r \<in> set t \<Longrightarrow> key r \<noteq> t_next key t"
  using fold_max_ge [of "key r" "map key t" 0] by (auto simp: t_next_def)

lemma row_table_generic: "row_table key (t_get key) (t_put key) (t_del key) t_add (t_inv key)"
proof unfold_locales
  show "t_get key t k = Some r \<Longrightarrow> key r = k \<and> r \<in> set t" for t k r
    by (rule t_get_SomeD)
  show "t_inv key t \<Longrightarrow> r \<in> set t \<Longrightarrow> t_get key t (key r) = Some r" for t r
    by (rule t_get_mem)
  show "set (t_put key t r) = (set t - {x. key x = key r}) \<union>
      (if \<exists>x\<in>set t. key x = key r then {r} else {})" for t r
    by (auto simp: t_put_def)
  show "set (t_del key t k) = set t - {x. key x = k}" for t k
    by (auto simp: t_del_def)
  show "set (t_add t r) = insert r (set t)" for t r
    by (auto simp: t_add_def)
  show "t_inv key t \<Longrightarrow> t_inv key (t_put key t r)" for t r
    by (simp add: t_inv_def map_key_t_put)
  show "t_inv key t \<Longrightarrow> t_inv key (t_del key t k)" for t k
    by (auto simp: t_inv_def t_del_def distinct_map inj_on_def)
  show "t_inv key t \<Longrightarrow> (\<forall>x\<in>set t. key x \<noteq> key r) \<Longrightarrow> t_inv key (t_add t r)" for t r
    by (auto simp: t_inv_def t_add_def)
qed

section \<open>Transition systems\<close>

text \<open>
  Every stateful component states its invariant once, as an instance of this interface:
  the initial states satisfy it and each step keeps it.
\<close>

locale step_system =
  fixes init :: "'s \<Rightarrow> bool"
    and step :: "'s \<Rightarrow> 's \<Rightarrow> bool"
    and inv :: "'s \<Rightarrow> bool"
  assumes init_inv: "init s \<Longrightarrow> inv s"
    and step_inv: "inv s \<Longrightarrow> step s t \<Longrightarrow> inv t"
begin

lemma steps_inv: "step\<^sup>*\<^sup>* s t \<Longrightarrow> inv s \<Longrightarrow> inv t"
  by (induction rule: rtranclp_induct) (auto intro: step_inv)

lemma reach_inv: "init s \<Longrightarrow> step\<^sup>*\<^sup>* s t \<Longrightarrow> inv t"
proof -
  assume "init s" and steps: "step\<^sup>*\<^sup>* s t"
  then have "inv s" by (blast intro: init_inv)
  with steps show "inv t" by (rule steps_inv)
qed

end

end
