(* ===== verification/Py_Strings.thy ===== *)
theory Py_Strings
  imports Prelude "HOL-Library.Char_ord" "HOL-Library.List_Lexorder"
begin

text \<open>
  The string operations of Python 2 the sources call, over character lists. Text is
  modelled as byte strings; \<open>lower\<close> and the whitespace tests act on the ASCII range,
  as \<open>str.lower\<close> and \<open>str.isspace\<close> do.
\<close>

section \<open>Characters\<close>

definition py_space :: "char \<Rightarrow> bool" where
  "py_space c \<longleftrightarrow> c \<in> {CHR '' '', CHR 0x09, CHR 0x0A, CHR 0x0B, CHR 0x0C, CHR 0x0D}"

definition lower_char :: "char \<Rightarrow> char" where
  "lower_char c = (if (65::nat) \<le> of_char c \<and> of_char c \<le> (90::nat) then char_of (of_char c + (32::nat)) else c)"

definition py_lower :: "string \<Rightarrow> string" where
  "py_lower s = map lower_char s"

lemma py_lower_simps [simp]:
  "py_lower [] = []"
  "py_lower (c # s) = lower_char c # py_lower s"
  "py_lower (s @ t) = py_lower s @ py_lower t"
  "length (py_lower s) = length s"
  "py_lower s = [] \<longleftrightarrow> s = []"
  by (auto simp: py_lower_def)

lemma lower_char_idem [simp]: "lower_char (lower_char c) = lower_char c"
proof (cases "(65::nat) \<le> of_char c \<and> of_char c \<le> (90::nat)")
  case True
  then have "of_char (char_of (of_char c + (32::nat)) :: char) = (of_char c + (32::nat))"
    by (simp add: of_char_of)
  with True show ?thesis by (simp add: lower_char_def)
qed (auto simp: lower_char_def)

lemma py_lower_idem [simp]: "py_lower (py_lower s) = py_lower s"
  by (simp add: py_lower_def)

section \<open>Trimming\<close>

definition py_lstrip :: "string \<Rightarrow> string" where
  "py_lstrip s = dropWhile py_space s"

definition py_rstrip :: "string \<Rightarrow> string" where
  "py_rstrip s = rev (dropWhile py_space (rev s))"

definition py_strip :: "string \<Rightarrow> string" where
  "py_strip s = py_rstrip (py_lstrip s)"

lemma py_rstrip_idem [simp]: "py_rstrip (py_rstrip s) = py_rstrip s"
  by (simp add: py_rstrip_def)

lemma length_py_rstrip: "length (py_rstrip s) \<le> length s"
  using length_dropWhile_le [of py_space "rev s"] by (simp add: py_rstrip_def)

section \<open>Splitting and joining\<close>

text \<open>
  \<open>s.split(sep)\<close> for a non-empty separator. The last argument is scanned from the left
  and a separator found at the scan position ends the current piece.
\<close>

function split_from :: "string \<Rightarrow> string \<Rightarrow> string \<Rightarrow> string list" where
  "split_from sep acc [] = [rev acc]"
| "split_from sep acc (c # cs) =
     (if prefix sep (c # cs)
      then rev acc # split_from sep [] (drop (length sep - 1) cs)
      else split_from sep (c # acc) cs)"
  by pat_completeness auto
termination
  by (relation "measure (\<lambda>(sep, acc, cs). length cs)") auto

text \<open>Python raises \<open>ValueError\<close> on an empty separator.\<close>

definition py_split :: "string \<Rightarrow> string \<Rightarrow> string list res" where
  "py_split sep s = (if sep = [] then Raise (ValueError ''empty separator'') else Ok (split_from sep [] s))"

text \<open>\<open>s.split()\<close>: the maximal runs of non-space characters.\<close>

function py_words :: "string \<Rightarrow> string list" where
  "py_words [] = []"
| "py_words (c # cs) =
     (if py_space c then py_words cs
      else (c # takeWhile (Not \<circ> py_space) cs) # py_words (dropWhile (Not \<circ> py_space) cs))"
  by pat_completeness auto
termination
  by (relation "measure length") (auto simp: le_imp_less_Suc length_dropWhile_le)

fun py_join :: "string \<Rightarrow> string list \<Rightarrow> string" where
  "py_join sep [] = []"
| "py_join sep [x] = x"
| "py_join sep (x # y # ys) = x @ sep @ py_join sep (y # ys)"

lemma split_from_ne [simp]: "split_from sep acc s \<noteq> []"
  by (induction sep acc s rule: split_from.induct) auto

lemma py_join_Cons: "xs \<noteq> [] \<Longrightarrow> py_join sep (x # xs) = x @ sep @ py_join sep xs"
  by (cases xs) auto

text \<open>Joining with the separator undoes splitting.\<close>

lemma join_split_from: "sep \<noteq> [] \<Longrightarrow> py_join sep (split_from sep acc s) = rev acc @ s"
proof (induction sep acc s rule: split_from.induct)
  case (2 sep acc c cs)
  show ?case
  proof (cases "prefix sep (c # cs)")
    case True
    with 2 have "py_join sep (split_from sep acc (c # cs)) = rev acc @ sep @ drop (length sep - 1) cs"
      by (simp add: py_join_Cons)
    also have "sep @ drop (length sep - 1) cs = c # cs"
      using True 2(3) by (auto simp: prefix_def Cons_eq_append_conv)
    finally show ?thesis .
  qed (use 2 in simp)
qed simp

text \<open>
  Splitting undoes joining for a one-character separator that occurs in none of the pieces.
\<close>

lemma split_from_no_sep: "c \<notin> set s \<Longrightarrow> split_from [c] acc s = [rev acc @ s]"
  by (induction s arbitrary: acc) auto

lemma split_from_sep:
  "c \<notin> set x \<Longrightarrow> split_from [c] acc (x @ c # r) = (rev acc @ x) # split_from [c] [] r"
  by (induction x arbitrary: acc) auto

lemma split_join:
  "xs \<noteq> [] \<Longrightarrow> \<forall>x\<in>set xs. c \<notin> set x \<Longrightarrow> split_from [c] [] (py_join [c] xs) = xs"
proof (induction xs)
  case (Cons x xs)
  show ?case
  proof (cases "xs = []")
    case True
    with Cons show ?thesis by (simp add: split_from_no_sep)
  next
    case False
    with Cons show ?thesis by (simp add: py_join_Cons split_from_sep)
  qed
qed simp

lemma split_from_pieces: "x \<in> set (split_from [c] acc s) \<Longrightarrow> c \<notin> set acc \<Longrightarrow> c \<notin> set x"
  by (induction "[c]" acc s rule: split_from.induct) (auto split: if_splits)

lemma py_join_eq_Nil: "py_join sep xs = [] \<Longrightarrow> \<forall>x\<in>set xs. x \<noteq> [] \<Longrightarrow> xs = []"
  by (induction sep xs rule: py_join.induct) auto

section \<open>Replacing, searching\<close>

definition remove_char :: "char \<Rightarrow> string \<Rightarrow> string" where
  "remove_char c s = filter (\<lambda>x. x \<noteq> c) s"

definition str_contains :: "string \<Rightarrow> string \<Rightarrow> bool" where
  "str_contains needle s \<longleftrightarrow> sublist needle s"

text \<open>A Python \<open>or\<close> of a string with a default: the empty string and \<open>None\<close> are falsy.\<close>

definition str_or :: "string option \<Rightarrow> string \<Rightarrow> string" where
  "str_or s d = (case s of None \<Rightarrow> d | Some x \<Rightarrow> if x = [] then d else x)"

definition truthy :: "string option \<Rightarrow> bool" where
  "truthy s \<longleftrightarrow> s \<noteq> None \<and> s \<noteq> Some []"

lemma truthy_simps [simp]: "\<not> truthy None" "truthy (Some s) \<longleftrightarrow> s \<noteq> []"
  by (auto simp: truthy_def)

section \<open>Decimal and base-36 integers\<close>

definition alphabet :: string where
  "alphabet = ''0123456789ABCDEFGHIJKLMNOPQRSTUVWXYZ''"

definition digit_val :: "char \<Rightarrow> nat option" where
  "digit_val c =
     (let n = of_char c :: nat in
      if 48 \<le> n \<and> n \<le> 57 then Some (n - 48)
      else if 65 \<le> n \<and> n \<le> 90 then Some (n - 55)
      else if 97 \<le> n \<and> n \<le> 122 then Some (n - 87) else None)"

fun digits_val :: "nat \<Rightarrow> nat \<Rightarrow> string \<Rightarrow> nat option" where
  "digits_val b acc [] = Some acc"
| "digits_val b acc (c # cs) =
     (case digit_val c of None \<Rightarrow> None
      | Some d \<Rightarrow> if d < b then digits_val b (acc * b + d) cs else None)"

text \<open>
  \<open>int(s, base)\<close>: surrounding whitespace, one sign, whitespace after it (Python 2 skips
  it), then at least one digit.
\<close>

definition py_int :: "nat \<Rightarrow> string \<Rightarrow> int res" where
  "py_int b s =
     (let t = py_strip s;
          (neg, u) = (case t of [] \<Rightarrow> (False, [])
                      | c # cs \<Rightarrow> if c = CHR ''-'' then (True, py_lstrip cs)
                                  else if c = CHR ''+'' then (False, py_lstrip cs) else (False, t))
      in if u = [] then Raise (ValueError ''invalid literal'')
         else case digits_val b 0 u of None \<Rightarrow> Raise (ValueError ''invalid literal'')
              | Some n \<Rightarrow> Ok (if neg then - int n else int n))"

lemma digits_val_append:
  "digits_val b acc (s @ t) = (case digits_val b acc s of None \<Rightarrow> None | Some n \<Rightarrow> digits_val b n t)"
  by (induction s arbitrary: acc) (auto split: option.splits)

end
