(* ===== verification/Py_Util.thy ===== *)
theory Py_Util
  imports Py_Strings
begin

text \<open>
  The helpers of \<open>inbox/util\<close>: iteration (\<open>itert.py\<close>), base-36 ids and truncation
  (\<open>encoding.py\<close>), header and folder-path parsing (\<open>misc.py\<close>) and address
  canonicalisation (\<open>addr.py\<close>). Datetimes are integers, in microseconds since the epoch.
\<close>

section \<open>Datetimes\<close>

type_synonym datetime = int

definition seconds :: "int \<Rightarrow> int" where
  "seconds n = n * 1000000"

text \<open>The \<open>seconds\<close> attribute of a \<open>timedelta\<close>: what is left after its whole days.\<close>

definition td_seconds :: "int \<Rightarrow> int" where
  "td_seconds d = (d div 1000000) mod 86400"

text \<open>\<open>int(x)\<close> of a number of seconds truncates towards zero.\<close>

definition dt_to_timestamp :: "datetime \<Rightarrow> int" where
  "dt_to_timestamp dt = (if 0 \<le> dt then dt div 1000000 else - ((- dt) div 1000000))"

section \<open>Iteration\<close>

function chunk :: "nat \<Rightarrow> 'a list \<Rightarrow> 'a list list" where
  "chunk sz xs =
     (let group = take sz xs in if group = [] then [] else group # chunk sz (drop sz xs))"
  by pat_completeness auto
termination
  by (relation "measure (\<lambda>(sz, xs). length xs)") auto

declare chunk.simps [simp del]

lemma chunk_Nil [simp]: "chunk n [] = []"
  by (simp add: chunk.simps)

lemma concat_chunk: "0 < n \<Longrightarrow> concat (chunk n xs) = xs"
proof (induction n xs rule: chunk.induct)
  case (1 n xs)
  then show ?case by (subst chunk.simps) (auto simp: Let_def)
qed

lemma chunk_bounds: "g \<in> set (chunk n xs) \<Longrightarrow> g \<noteq> [] \<and> length g \<le> n"
proof (induction n xs rule: chunk.induct)
  case (1 n xs)
  from "1.prems" have "take n xs \<noteq> []" and "g = take n xs \<or> g \<in> set (chunk n (drop n xs))"
    by (subst (asm) chunk.simps, auto simp: Let_def split: if_splits)+
  with "1.IH" show ?case by auto
qed

lemma chunk_full: "g \<in> set (butlast (chunk n xs)) \<Longrightarrow> length g = n"
proof (induction n xs rule: chunk.induct)
  case (1 n xs)
  show ?case
  proof (cases "take n xs = [] \<or> chunk n (drop n xs) = []")
    case True
    with "1.prems" show ?thesis by (auto simp: chunk.simps [of n xs] Let_def split: if_splits)
  next
    case False
    then have ne: "drop n xs \<noteq> []" by auto
    from False "1.prems" have "g = take n xs \<or> g \<in> set (butlast (chunk n (drop n xs)))"
      by (auto simp: chunk.simps [of n xs] Let_def split: if_splits)
    with False ne "1.IH" show ?thesis by auto
  qed
qed

text \<open>False entries first, then true ones, each in the order of the iterable.\<close>

definition partition_by :: "('a \<Rightarrow> bool) \<Rightarrow> 'a list \<Rightarrow> 'a list \<times> 'a list" where
  "partition_by pred xs = (filter (\<lambda>x. \<not> pred x) xs, filter pred xs)"

definition flatten :: "'a list list \<Rightarrow> 'a list" where
  "flatten xss = concat xss"

definition or_none :: "'a option \<Rightarrow> ('a \<Rightarrow> 'b) \<Rightarrow> 'b option" where
  "or_none value selector = (case value of None \<Rightarrow> None | Some v \<Rightarrow> Some (selector v))"

section \<open>Base-36 identifiers and truncation\<close>

function base36_loop :: "nat \<Rightarrow> string \<Rightarrow> string" where
  "base36_loop number acc =
     (if number = 0 then acc else base36_loop (number div 36) (alphabet ! (number mod 36) # acc))"
  by pat_completeness auto
termination
  by (relation "measure fst") auto

declare base36_loop.simps [simp del]

definition base36encode :: "int \<Rightarrow> string res" where
  "base36encode number =
     (if number < 0 then Raise (ValueError ''number must be positive'')
      else let s = base36_loop (nat number) [] in Ok (if s = [] then [alphabet ! 0] else s))"

definition base36decode :: "string \<Rightarrow> int res" where
  "base36decode s = py_int 36 s"

text \<open>Every digit of the alphabet denotes its position.\<close>

lemma alphabet_digit_vals: "map digit_val alphabet = map Some [0..<36]"
  by (simp add: alphabet_def digit_val_def upt_conv_Cons Let_def)

lemma alphabet_plain:
  "list_all (\<lambda>c. \<not> py_space c \<and> c \<noteq> CHR ''-'' \<and> c \<noteq> CHR ''+'') alphabet"
  by (simp add: alphabet_def py_space_def)

lemma length_alphabet: "length alphabet = 36"
  by (simp add: alphabet_def)

lemma alphabet_digit:
  assumes "i < 36"
  shows "digit_val (alphabet ! i) = Some i \<and> \<not> py_space (alphabet ! i) \<and>
     alphabet ! i \<noteq> CHR ''-'' \<and> alphabet ! i \<noteq> CHR ''+''"
proof -
  have "map digit_val alphabet ! i = map Some [0..<36] ! i"
    by (simp add: alphabet_digit_vals)
  then have "digit_val (alphabet ! i) = Some i"
    using assms by (simp add: length_alphabet)
  moreover have "alphabet ! i \<in> set alphabet"
    using assms by (simp add: length_alphabet)
  ultimately show ?thesis
    using alphabet_plain by (simp add: list_all_iff)
qed

lemma base36_loop_acc: "base36_loop n acc = base36_loop n [] @ acc"
proof (induction n arbitrary: acc rule: less_induct)
  case (less n)
  show ?case
  proof (cases "n = 0")
    case False
    then have "base36_loop (n div 36) xs = base36_loop (n div 36) [] @ xs" for xs
      by (intro less.IH) simp
    note step = this [of "[alphabet ! (n mod 36)]"] this [of "alphabet ! (n mod 36) # acc"]
    from False show ?thesis
      by (subst (1 2) base36_loop.simps) (simp add: step)
  qed (simp add: base36_loop.simps)
qed

lemma base36_loop_step:
  "0 < n \<Longrightarrow> base36_loop n [] = base36_loop (n div 36) [] @ [alphabet ! (n mod 36)]"
  by (subst base36_loop.simps) (simp, rule base36_loop_acc)

lemma base36_loop_digits: "digits_val 36 0 (base36_loop n []) = Some n"
proof (induction n rule: less_induct)
  case (less n)
  show ?case
  proof (cases "n = 0")
    case False
    then have "digits_val 36 0 (base36_loop (n div 36) []) = Some (n div 36)"
      by (intro less.IH) simp
    with False show ?thesis
      by (simp add: base36_loop_step digits_val_append alphabet_digit)
  qed (simp add: base36_loop.simps)
qed

lemma base36_loop_chars:
  "c \<in> set (base36_loop n []) \<Longrightarrow> \<not> py_space c \<and> c \<noteq> CHR ''-'' \<and> c \<noteq> CHR ''+''"
proof (induction n rule: less_induct)
  case (less n)
  show ?case
  proof (cases "n = 0")
    case False
    with less.prems consider "c \<in> set (base36_loop (n div 36) [])" | "c = alphabet ! (n mod 36)"
      by (auto simp: base36_loop_step)
    then show ?thesis
    proof cases
      case 1
      with False show ?thesis by (intro less.IH) auto
    next
      case 2
      then show ?thesis using alphabet_digit [of "n mod 36"] by simp
    qed
  qed (use less.prems in \<open>simp add: base36_loop.simps\<close>)
qed

lemma py_strip_id: "\<forall>c\<in>set s. \<not> py_space c \<Longrightarrow> py_strip s = s"
proof -
  assume s: "\<forall>c\<in>set s. \<not> py_space c"
  have none: "dropWhile py_space t = t" if "\<forall>c\<in>set t. \<not> py_space c" for t
    using that by (cases t) auto
  show ?thesis using s by (simp add: py_strip_def py_rstrip_def py_lstrip_def none)
qed

lemma py_int_plain:
  assumes "s \<noteq> []" and "\<forall>c\<in>set s. \<not> py_space c" and "hd s \<noteq> CHR ''-''" and "hd s \<noteq> CHR ''+''"
    and "digits_val b 0 s = Some n"
  shows "py_int b s = Ok (int n)"
  using assms by (cases s) (auto simp: py_int_def py_strip_id)

lemma base36_roundtrip_aux:
  "0 \<le> n \<Longrightarrow> \<exists>s. base36encode n = Ok s \<and> base36decode s = Ok n"
proof -
  assume n: "0 \<le> n"
  show ?thesis
  proof (cases "nat n = 0")
    case True
    with n have "n = 0" by simp
    moreover have "py_int 36 [alphabet ! 0] = Ok (int 0)"
      by (rule py_int_plain) (use alphabet_digit [of 0] in auto)
    ultimately show ?thesis by (simp add: base36encode_def base36decode_def base36_loop.simps)
  next
    case False
    let ?s = "base36_loop (nat n) []"
    from False have ne: "?s \<noteq> []" by (simp add: base36_loop_step)
    have "py_int 36 ?s = Ok (int (nat n))"
      using base36_loop_chars [of _ "nat n"] base36_loop_chars [OF hd_in_set [OF ne]]
      by (intro py_int_plain [OF ne]) (auto simp: base36_loop_digits)
    with n ne show ?thesis by (simp add: base36encode_def base36decode_def)
  qed
qed

section \<open>Headers\<close>

text \<open>
  \<open>parse_references\<close>. With a References header and no In-Reply-To, \<open>replyto\<close> is
  the falsy header value itself (\<open>None\<close> or the empty string), which is in no list of
  words, so it is appended.
\<close>

definition parse_references :: "string option \<Rightarrow> string option \<Rightarrow> string option list res" where
  "parse_references references in_reply_to =
     res_bind
       (if truthy in_reply_to
        then (case py_words (the in_reply_to) of [] \<Rightarrow> Raise IndexError | w # _ \<Rightarrow> Ok (Some w))
        else Ok in_reply_to)
       (\<lambda>replyto.
         if \<not> truthy references then Ok (if truthy replyto then [replyto] else [])
         else let refs = map Some (py_words (the references))
              in Ok (if replyto \<notin> set refs then refs @ [replyto] else refs))"

definition parse_ml_headers :: "(string \<rightharpoonup> string) \<Rightarrow> (string \<times> string option) list" where
  "parse_ml_headers headers =
     map (\<lambda>h. (h, headers h))
       [''List-Archive'', ''List-Help'', ''List-Id'', ''List-Owner'', ''List-Post'',
        ''List-Subscribe'', ''List-Unsubscribe'']"

end
