(* ===== verification/Mail_Text.thy ===== *)
theory Mail_Text
  imports Py_Util
begin

text \<open>
  Subject lines, folder paths, name truncation and address canonicalisation:
  \<open>cleanup_subject\<close>, \<open>imap_folder_path\<close>, \<open>strip_prefix\<close> and
  \<open>fs_folder_path\<close> of \<open>inbox/util/misc.py\<close>, \<open>unicode_safe_truncate\<close> of
  \<open>inbox/util/encoding.py\<close>, and \<open>inbox/util/addr.py\<close> with the address parser of
  flanker as a parameter.
\<close>

section \<open>Subjects\<close>

definition subject_prefixes :: "string list" where
  "subject_prefixes = [''re'', ''fw'', ''fwd'', ''aw'', ''wg'', ''undeliverable'', ''undelivered'']"

text \<open>One turn of the regular expression's group: a prefix word in any case, a colon, spaces.\<close>

definition strip_one :: "string \<Rightarrow> string option" where
  "strip_one s =
     (case List.find (\<lambda>w. prefix (w @ '':'') (py_lower s)) subject_prefixes of
        None \<Rightarrow> None
      | Some w \<Rightarrow> Some (dropWhile py_space (drop (length w + 1) s)))"

lemma strip_one_shorter: "strip_one s = Some t \<Longrightarrow> length t < length s"
proof -
  assume "strip_one s = Some t"
  then obtain w where w: "prefix (w @ '':'') (py_lower s)"
    and t: "t = dropWhile py_space (drop (length w + 1) s)"
    by (auto simp: strip_one_def find_Some_iff split: option.splits)
  from w have "length w + 1 \<le> length s" by (auto dest!: prefix_length_le)
  moreover have "length t \<le> length (drop (length w + 1) s)"
    unfolding t by (rule length_dropWhile_le)
  ultimately show ?thesis by simp
qed

function strip_prefixes :: "string \<Rightarrow> string" where
  "strip_prefixes s = (case strip_one s of None \<Rightarrow> s | Some t \<Rightarrow> strip_prefixes t)"
  by pat_completeness auto
termination
  by (relation "measure length") (auto dest: strip_one_shorter)

declare strip_prefixes.simps [simp del]

function collapse_ws :: "string \<Rightarrow> string" where
  "collapse_ws [] = []"
| "collapse_ws (c # cs) =
     (if py_space c then CHR '' '' # collapse_ws (dropWhile py_space cs) else c # collapse_ws cs)"
  by pat_completeness auto
termination
  by (relation "measure length") (auto simp: le_imp_less_Suc length_dropWhile_le)

definition cleanup_subject :: "string option \<Rightarrow> string" where
  "cleanup_subject subject =
     (case subject of None \<Rightarrow> [] | Some s \<Rightarrow> collapse_ws (strip_prefixes s))"

lemma strip_prefixes_none: "strip_one (strip_prefixes s) = None"
proof (induction s rule: strip_prefixes.induct)
  case (1 s)
  then show ?case by (cases "strip_one s") (simp_all add: strip_prefixes.simps [of s])
qed

lemma strip_prefixes_id: "strip_one s = None \<Longrightarrow> strip_prefixes s = s"
  by (simp add: strip_prefixes.simps)

lemma py_space_blank [simp]: "py_space (CHR '' '')" "py_space (CHR 0x20)"
  by (simp_all add: py_space_def)

lemma collapse_ws_hd: "\<not> py_space (hd (dropWhile py_space cs)) \<or> dropWhile py_space cs = []"
  using hd_dropWhile [of py_space cs] by blast

lemma collapse_ws_idem [simp]: "collapse_ws (collapse_ws s) = collapse_ws s"
proof (induction s rule: collapse_ws.induct)
  case (2 c cs)
  show ?case
  proof (cases "py_space c")
    case True
    let ?d = "dropWhile py_space cs"
    have "dropWhile py_space (collapse_ws ?d) = collapse_ws ?d"
    proof (cases ?d)
      case (Cons x xs)
      with collapse_ws_hd [of cs] have "\<not> py_space x" by simp
      with Cons show ?thesis by simp
    next
      case Nil
      then show ?thesis by (simp only: Nil collapse_ws.simps dropWhile.simps)
    qed
    with True 2 show ?thesis by simp
  qed (use 2 in simp)
qed simp

lemma lower_blank: "lower_char (CHR '' '') = CHR '' ''"
  by (simp add: lower_char_def)

lemma lower_space: "py_space c \<Longrightarrow> lower_char c = c"
  by (auto simp: py_space_def lower_char_def)

lemma prefix_lower_collapse:
  "\<forall>c\<in>set w. \<not> py_space c \<Longrightarrow> prefix w (py_lower (collapse_ws s)) \<Longrightarrow> prefix w (py_lower s)"
proof (induction w arbitrary: s)
  case (Cons x w)
  then obtain c cs where s: "s = c # cs" by (cases s) auto
  show ?case
  proof (cases "py_space c")
    case True
    with Cons.prems s have "x = CHR '' ''" by (simp add: lower_blank)
    with Cons.prems(1) show ?thesis by simp
  next
    case False
    with Cons s show ?thesis by auto
  qed
qed simp

lemma subject_prefixes_no_space: "w \<in> set subject_prefixes \<Longrightarrow> c \<in> set (w @ '':'') \<Longrightarrow> \<not> py_space c"
  by (auto simp: subject_prefixes_def py_space_def)

lemma strip_one_None_iff:
  "strip_one s = None \<longleftrightarrow> (\<forall>w\<in>set subject_prefixes. \<not> prefix (w @ '':'') (py_lower s))"
  by (auto simp: strip_one_def find_None_iff find_Some_iff split: option.splits)

lemma strip_one_collapse: "strip_one s = None \<Longrightarrow> strip_one (collapse_ws s) = None"
  unfolding strip_one_None_iff
  using prefix_lower_collapse subject_prefixes_no_space by blast

lemma cleanup_idem: "cleanup_subject (Some (cleanup_subject s)) = cleanup_subject s"
proof (cases s)
  case None
  have "strip_one [] = None" by (simp add: strip_one_None_iff)
  with None show ?thesis by (simp add: cleanup_subject_def strip_prefixes_id)
next
  case (Some u)
  have "strip_one (collapse_ws (strip_prefixes u)) = None"
    by (rule strip_one_collapse [OF strip_prefixes_none])
  with Some show ?thesis by (simp add: cleanup_subject_def strip_prefixes_id)
qed

text \<open>At most one prefix word matches: the colon ends it.\<close>

lemma prefix_word_unique:
  assumes "prefix (w @ '':'') s" and "prefix (v @ '':'') s"
    and "CHR '':'' \<notin> set w" and "CHR '':'' \<notin> set v"
  shows "w = v"
proof -
  have "takeWhile (\<lambda>c. c \<noteq> CHR '':'') s = x" if "prefix (x @ '':'') s" "CHR '':'' \<notin> set x" for x
  proof -
    from that(1) obtain zs where "s = x @ CHR '':'' # zs" by (auto simp: prefix_def)
    with that(2) show ?thesis by (induction x arbitrary: s) auto
  qed
  with assms show ?thesis by blast
qed

lemma subject_prefixes_no_colon: "w \<in> set subject_prefixes \<Longrightarrow> CHR '':'' \<notin> set w"
  by (auto simp: subject_prefixes_def)

lemma strip_one_reply:
  assumes "py_lower w \<in> set subject_prefixes" and "\<forall>c\<in>set sp. py_space c"
    and "s = [] \<or> \<not> py_space (hd s)"
  shows "strip_one (w @ '':'' @ sp @ s) = Some s"
proof -
  let ?t = "w @ '':'' @ sp @ s"
  have lower: "py_lower ?t = py_lower w @ '':'' @ py_lower (sp @ s)"
    by (simp add: lower_char_def)
  then have pre: "prefix (py_lower w @ '':'') (py_lower ?t)" by (simp add: prefix_def)
  obtain v where v: "List.find (\<lambda>w. prefix (w @ '':'') (py_lower ?t)) subject_prefixes = Some v"
    using assms(1) pre by (metis (no_types, lifting) find_None_iff not_None_eq)
  then have "v \<in> set subject_prefixes" and "prefix (v @ '':'') (py_lower ?t)"
    by (auto dest: find_Some_in)
  with pre assms(1) have "v = py_lower w"
    using prefix_word_unique subject_prefixes_no_colon by metis
  moreover have "dropWhile py_space (sp @ s) = s"
    using assms(2,3) by (cases s) (auto simp: dropWhile_append2)
  ultimately show ?thesis using v by (simp add: strip_one_def)
qed

section \<open>Folder paths\<close>

text \<open>
  The separator of an IMAP server is one character. \<open>imap_folder_path\<close> returns
  \<open>None\<close> for a path without components.
\<close>

definition imap_folder_path :: "string \<Rightarrow> char \<Rightarrow> string \<Rightarrow> string option" where
  "imap_folder_path path separator pfx =
     (let folders = filter (\<lambda>f. f \<noteq> []) (split_from ''/'' [] path)
      in if folders = [] then None
         else let res = py_join [separator] folders
              in if pfx \<noteq> [] \<and> \<not> prefix pfx res
                 then (if last pfx \<noteq> separator then Some (pfx @ [separator] @ res) else Some (pfx @ res))
                 else Some res)"

definition strip_prefix :: "string \<Rightarrow> string \<Rightarrow> string" where
  "strip_prefix path pfx = (if prefix pfx path then drop (length pfx) path else path)"

definition fs_folder_path :: "string \<Rightarrow> char \<Rightarrow> string \<Rightarrow> string" where
  "fs_folder_path path separator pfx =
     (let path' = (if pfx \<noteq> [] then strip_prefix path pfx else path);
          folders = split_from [separator] [] path';
          folders' = (if hd folders = [] then tl folders else folders)
      in py_join ''/'' folders')"

lemma split_path_components:
  assumes "comps \<noteq> []" and "\<forall>f\<in>set comps. f \<noteq> [] \<and> CHR ''/'' \<notin> set f"
  shows "filter (\<lambda>f. f \<noteq> []) (split_from ''/'' [] (py_join ''/'' comps)) = comps"
  using assms by (simp add: split_join)

lemma fs_of_joined:
  assumes "comps \<noteq> []" and "\<forall>f\<in>set comps. f \<noteq> [] \<and> c \<notin> set f"
  shows "fs_folder_path (py_join [c] comps) c [] = py_join ''/'' comps"
    and "split_from [c] [] (c # py_join [c] comps) = [] # comps"
proof -
  have split: "split_from [c] [] (py_join [c] comps) = comps"
    using assms by (intro split_join) auto
  moreover have "hd comps \<noteq> []" using assms by (cases comps) auto
  ultimately show "fs_folder_path (py_join [c] comps) c [] = py_join ''/'' comps"
    by (simp add: fs_folder_path_def)
  show "split_from [c] [] (c # py_join [c] comps) = [] # comps"
    using split split_from_sep [of c "[]" "[]" "py_join [c] comps"] by simp
qed

text \<open>The path a client sees survives the translation to the server's name and back.\<close>

lemma folder_path_roundtrip_aux:
  assumes comps: "comps \<noteq> []" "\<forall>f\<in>set comps. f \<noteq> [] \<and> CHR ''/'' \<notin> set f \<and> c \<notin> set f"
    and pfx: "pfx = [] \<or> \<not> prefix pfx (py_join [c] comps)"
  shows "\<exists>name. imap_folder_path (py_join ''/'' comps) c pfx = Some name \<and>
           fs_folder_path name c pfx = py_join ''/'' comps"
proof -
  let ?res = "py_join [c] comps"
  have folders: "filter (\<lambda>f. f \<noteq> []) (split_from ''/'' [] (py_join ''/'' comps)) = comps"
    using comps by (intro split_path_components) auto
  have split: "split_from [c] [] ?res = comps" "split_from [c] [] (c # ?res) = [] # comps"
    using comps fs_of_joined(2) [of comps c] by (auto intro: split_join)
  have hd: "hd comps \<noteq> []" using comps by (cases comps) auto
  consider "pfx = []" | "pfx \<noteq> []" "last pfx = c" | "pfx \<noteq> []" "last pfx \<noteq> c" by blast
  then show ?thesis
  proof cases
    case 1
    with folders comps fs_of_joined(1) [of comps c] show ?thesis
      by (simp add: imap_folder_path_def)
  next
    case 2
    with folders comps pfx have "imap_folder_path (py_join ''/'' comps) c pfx = Some (pfx @ ?res)"
      by (simp add: imap_folder_path_def)
    with 2 split hd show ?thesis by (simp add: fs_folder_path_def strip_prefix_def)
  next
    case 3
    with folders comps pfx have "imap_folder_path (py_join ''/'' comps) c pfx = Some (pfx @ [c] @ ?res)"
      by (simp add: imap_folder_path_def)
    with 3 split hd show ?thesis by (simp add: fs_folder_path_def strip_prefix_def)
  qed
qed

section \<open>Names and addresses\<close>

definition MAX_INDEXABLE_LENGTH :: nat where
  "MAX_INDEXABLE_LENGTH = 191"

definition unicode_safe_truncate :: "string \<Rightarrow> nat \<Rightarrow> string" where
  "unicode_safe_truncate s max_length = take max_length (py_rstrip s)"

definition sanitize_name :: "string \<Rightarrow> string" where
  "sanitize_name name = unicode_safe_truncate name MAX_INDEXABLE_LENGTH"

lemma length_sanitize_name: "length (sanitize_name s) \<le> MAX_INDEXABLE_LENGTH"
  by (simp add: sanitize_name_def unicode_safe_truncate_def)

text \<open>
  The address parser of flanker is a parameter: it gives the mailbox and the host of an
  addr-spec, or nothing when the text is not one.
\<close>

type_synonym addr_parser = "string \<Rightarrow> (string \<times> string) option"

definition valid_email :: "addr_parser \<Rightarrow> string \<Rightarrow> bool" where
  "valid_email parse email_address \<longleftrightarrow> parse email_address \<noteq> None"

definition canonicalize_address :: "addr_parser \<Rightarrow> string \<Rightarrow> string" where
  "canonicalize_address parse addr =
     (case parse addr of
        None \<Rightarrow> addr
      | Some (mailbox, host) \<Rightarrow>
          (let local_part = py_lower mailbox; hostname = py_lower host;
               local' = (if hostname \<in> {''gmail.com'', ''googlemail.com''}
                         then remove_char CHR ''.'' local_part else local_part)
           in py_join ''@'' [local', hostname]))"

end
