(* ===== verification/Mail_Store.thy ===== *)
theory Mail_Store
  imports Mail_Text
begin

text \<open>
  The rows of the tables the sync engine reads and writes, one record per mapped class of
  \<open>inbox/models\<close>, and the store that holds them. A foreign key is the id it refers to;
  a relationship is a lookup by that id. Columns no modelled operation uses are left out.
  JSON columns hold \<open>json\<close> values.
\<close>

section \<open>JSON values\<close>

datatype json =
    JNull
  | JBool bool
  | JNum int
  | JStr string
  | JList "json list"
  | JDict "(string \<times> json) list"

definition jget :: "(string \<times> json) list \<Rightarrow> string \<Rightarrow> json option" where
  "jget d k = map_of d k"

text \<open>\<open>d.get(k)\<close>: a missing key and an explicit null look the same.\<close>

definition jget_or_null :: "(string \<times> json) list \<Rightarrow> string \<Rightarrow> json" where
  "jget_or_null d k = (case map_of d k of None \<Rightarrow> JNull | Some v \<Rightarrow> v)"

section \<open>Accounts\<close>

datatype sync_state = Running | Stopped | Killed | Invalid | Connerror

text \<open>Values of the \<open>_sync_status\<close> dictionary of an account and of folder metrics.\<close>

datatype sval =
    VNull
  | VTime datetime
  | VText string
  | VInt int
  | VError "string \<times> string \<times> string"

type_synonym status_dict = "string \<rightharpoonup> sval"

definition status_get :: "status_dict \<Rightarrow> string \<Rightarrow> sval" where
  "status_get d k = (case d k of None \<Rightarrow> VNull | Some v \<Rightarrow> v)"

record account_row =
  acc_id :: nat
  acc_namespace_id :: nat
  acc_provider :: string
  acc_verbose_provider :: string
  acc_category_type :: string
  acc_email :: string
  acc_throttled :: bool
  acc_sync_email :: bool
  acc_sync_contacts :: bool
  acc_sync_events :: bool
  acc_sync_host :: "string option"
  acc_desired_sync_host :: "string option"
  acc_sync_should_run :: bool
  acc_sync_state :: "sync_state option"
  acc_sync_status :: status_dict
  acc_folder_separator :: char
  acc_folder_prefix :: string
  acc_discriminator :: string
  acc_emailed_calendar_id :: "nat option"

section \<open>Folders, labels, categories\<close>

record category_row =
  cat_id :: nat
  cat_namespace_id :: nat
  cat_name :: string
  cat_display_name :: string
  cat_type :: string
  cat_deleted_at :: datetime

record folder_row =
  fld_id :: nat
  fld_account_id :: nat
  fld_name :: string
  fld_canonical_name :: string
  fld_category_id :: "nat option"
  fld_initial_sync_start :: "datetime option"
  fld_initial_sync_end :: "datetime option"
  fld_deleted_at :: "datetime option"

record label_row =
  lbl_id :: nat
  lbl_account_id :: nat
  lbl_name :: string
  lbl_canonical_name :: string
  lbl_category_id :: "nat option"
  lbl_deleted_at :: "datetime option"

section \<open>Messages and threads\<close>

type_synonym address = "string \<times> string"

record message_row =
  m_id :: nat
  m_namespace_id :: nat
  m_thread_id :: "nat option"
  m_subject :: "string option"
  m_received_date :: datetime
  m_snippet :: string
  m_from :: "address list"
  m_to :: "address list"
  m_cc :: "address list"
  m_bcc :: "address list"
  m_reply_to :: "address list"
  m_in_reply_to :: "string option"
  m_message_id_header :: "string option"
  m_references :: "string option list"
  m_is_read :: bool
  m_is_starred :: bool
  m_is_draft :: bool
  m_is_sent :: bool
  m_is_created :: bool
  m_categories :: "nat option list"
  m_categories_changes :: bool
  m_deleted_at :: "datetime option"
  m_version :: nat
  m_public_id :: string
  m_nylas_uid :: "string option"
  m_data_sha256 :: string
  m_g_msgid :: "nat option"
  m_g_thrid :: "nat option"
  m_updated_at :: datetime

record thread_row =
  th_id :: nat
  th_namespace_id :: nat
  th_subject :: "string option"
  th_cleaned_subject :: string
  th_subjectdate :: datetime
  th_recentdate :: datetime
  th_snippet :: string
  th_version :: nat
  th_deleted_at :: "datetime option"
  th_g_thrid :: "nat option"

section \<open>IMAP bookkeeping\<close>

record imapuid_row =
  u_id :: nat
  u_account_id :: nat
  u_folder_id :: nat
  u_message_id :: nat
  u_msg_uid :: nat
  u_is_draft :: bool
  u_is_seen :: bool
  u_is_flagged :: bool
  u_is_recent :: bool
  u_is_answered :: bool
  u_extra_flags :: "string list"
  u_labels :: "nat list"

record folder_info_row =
  fi_id :: nat
  fi_account_id :: nat
  fi_folder_id :: nat
  fi_uidvalidity :: "nat option"
  fi_highestmodseq :: "nat option"
  fi_uidnext :: "nat option"
  fi_last_slow_refresh :: "datetime option"

record fsync_row =
  fs_id :: nat
  fs_account_id :: nat
  fs_folder_id :: nat
  fs_state :: string
  fs_metrics :: "status_dict option"
  fs_sync_should_run :: bool

section \<open>The action log\<close>

datatype action_status = Pending | Successful | Failed

record actionlog_row =
  al_id :: nat
  al_namespace_id :: nat
  al_action :: string
  al_record_id :: nat
  al_table_name :: string
  al_status :: action_status
  al_retries :: int
  al_extra_args :: "(string \<times> json) list"
  al_created_at :: datetime
  al_updated_at :: datetime
  al_type :: string

section \<open>Contacts\<close>

record contact_row =
  ct_id :: nat
  ct_namespace_id :: nat
  ct_uid :: string
  ct_provider_name :: string
  ct_name :: "string option"
  ct_raw_address :: "string option"
  ct_canonical :: "string option"
  ct_raw_data :: "string option"

text \<open>An association of a message with a contact: message id, contact id, address field.\<close>

type_synonym contact_link = "nat \<times> nat \<times> string"

section \<open>The store\<close>

record store =
  accounts :: "account_row list"
  folders :: "folder_row list"
  labels :: "label_row list"
  categories :: "category_row list"
  messages :: "message_row list"
  threads :: "thread_row list"
  imapuids :: "imapuid_row list"
  folder_infos :: "folder_info_row list"
  fsyncs :: "fsync_row list"
  actionlogs :: "actionlog_row list"
  contacts :: "contact_row list"
  contact_links :: "contact_link list"

definition store_wf :: "store \<Rightarrow> bool" where
  "store_wf db \<longleftrightarrow>
     t_inv acc_id (accounts db) \<and> t_inv fld_id (folders db) \<and> t_inv lbl_id (labels db) \<and>
     t_inv cat_id (categories db) \<and> t_inv m_id (messages db) \<and> t_inv th_id (threads db) \<and>
     t_inv u_id (imapuids db) \<and> t_inv fi_id (folder_infos db) \<and> t_inv fs_id (fsyncs db) \<and>
     t_inv al_id (actionlogs db) \<and> t_inv ct_id (contacts db)"

interpretation accs: row_table acc_id "t_get acc_id" "t_put acc_id" "t_del acc_id" t_add "t_inv acc_id"
  by (rule row_table_generic)

interpretation flds: row_table fld_id "t_get fld_id" "t_put fld_id" "t_del fld_id" t_add "t_inv fld_id"
  by (rule row_table_generic)

interpretation lbls: row_table lbl_id "t_get lbl_id" "t_put lbl_id" "t_del lbl_id" t_add "t_inv lbl_id"
  by (rule row_table_generic)

interpretation cats: row_table cat_id "t_get cat_id" "t_put cat_id" "t_del cat_id" t_add "t_inv cat_id"
  by (rule row_table_generic)

interpretation msgs: row_table m_id "t_get m_id" "t_put m_id" "t_del m_id" t_add "t_inv m_id"
  by (rule row_table_generic)

interpretation thrs: row_table th_id "t_get th_id" "t_put th_id" "t_del th_id" t_add "t_inv th_id"
  by (rule row_table_generic)

interpretation uidt: row_table u_id "t_get u_id" "t_put u_id" "t_del u_id" t_add "t_inv u_id"
  by (rule row_table_generic)

interpretation fiss: row_table fi_id "t_get fi_id" "t_put fi_id" "t_del fi_id" t_add "t_inv fi_id"
  by (rule row_table_generic)

interpretation fsts: row_table fs_id "t_get fs_id" "t_put fs_id" "t_del fs_id" t_add "t_inv fs_id"
  by (rule row_table_generic)

interpretation acts: row_table al_id "t_get al_id" "t_put al_id" "t_del al_id" t_add "t_inv al_id"
  by (rule row_table_generic)

interpretation cons: row_table ct_id "t_get ct_id" "t_put ct_id" "t_del ct_id" t_add "t_inv ct_id"
  by (rule row_table_generic)

section \<open>Relationships\<close>

definition message_uids :: "store \<Rightarrow> nat \<Rightarrow> imapuid_row list" where
  "message_uids db mid = filter (\<lambda>u. u_message_id u = mid) (imapuids db)"

text \<open>\<open>Thread.messages\<close> is ordered by \<open>received_date\<close>, oldest first.\<close>

definition thread_messages :: "store \<Rightarrow> nat \<Rightarrow> message_row list" where
  "thread_messages db tid =
     sort_key m_received_date (filter (\<lambda>m. m_thread_id m = Some tid) (messages db))"

definition message_thread :: "store \<Rightarrow> message_row \<Rightarrow> thread_row option" where
  "message_thread db m = (case m_thread_id m of None \<Rightarrow> None | Some tid \<Rightarrow> t_get th_id (threads db) tid)"

definition account_of_namespace :: "store \<Rightarrow> nat \<Rightarrow> account_row option" where
  "account_of_namespace db nid = List.find (\<lambda>a. acc_namespace_id a = nid) (accounts db)"

text \<open>
  A \<open>one()\<close> query: the row when exactly one matches, else one of two exceptions.
\<close>

definition query_one :: "'r list \<Rightarrow> 'r res" where
  "query_one rows = (case rows of [] \<Rightarrow> Raise NoResultFound | [r] \<Rightarrow> Ok r | _ \<Rightarrow> Raise MultipleResultsFound)"

definition query_first :: "'r list \<Rightarrow> 'r option" where
  "query_first rows = (case rows of [] \<Rightarrow> None | r # _ \<Rightarrow> Some r)"

lemma query_one_Ok: "query_one rows = Inr r \<longleftrightarrow> rows = [r]"
  by (auto simp: query_one_def split: list.splits)

lemma query_one_NoResult: "query_one rows = Inl NoResultFound \<longleftrightarrow> rows = []"
  by (auto simp: query_one_def split: list.splits)

lemma query_first_Some: "query_first rows = Some r \<Longrightarrow> r \<in> set rows"
  by (auto simp: query_first_def split: list.splits)

lemma query_first_None [simp]: "query_first rows = None \<longleftrightarrow> rows = []"
  by (auto simp: query_first_def split: list.splits)

lemma thread_messages_set:
  "set (thread_messages db tid) = {m \<in> set (messages db). m_thread_id m = Some tid}"
  by (auto simp: thread_messages_def)

lemma thread_messages_sorted: "sorted (map m_received_date (thread_messages db tid))"
  by (simp add: thread_messages_def)

text \<open>
  The iteration order of a set of category ids. CPython gives no order; the model takes
  the order as a parameter \<open>iter\<close> and its users assume only that it enumerates the set.
\<close>

type_synonym set_iter = "nat option set \<Rightarrow> nat option list"

definition enumerates :: "set_iter \<Rightarrow> bool" where
  "enumerates iter \<longleftrightarrow> (\<forall>S. finite S \<longrightarrow> set (iter S) = S)"

end
