(* ===== verification/Samples.thy ===== *)
theory Samples
  imports Mail_Store
begin

text \<open>
  Concrete rows and small stores. The witnesses of the properties evaluate the operations on
  them: an empty mail store, rows with every column at its default, and stores built from them.
\<close>

definition empty_store :: store where
  "empty_store = \<lparr>accounts = [], folders = [], labels = [], categories = [], messages = [], threads = [],
     imapuids = [], folder_infos = [], fsyncs = [], actionlogs = [], contacts = [], contact_links = []\<rparr>"

definition sample_account :: account_row where
  "sample_account = \<lparr>acc_id = 1, acc_namespace_id = 1, acc_provider = ''custom'', acc_verbose_provider = ''custom'',
     acc_category_type = ''folder'', acc_email = ''a@b'', acc_throttled = False, acc_sync_email = True,
     acc_sync_contacts = False, acc_sync_events = False, acc_sync_host = None, acc_desired_sync_host = None,
     acc_sync_should_run = True, acc_sync_state = Some Running, acc_sync_status = Map.empty,
     acc_folder_separator = CHR ''/'', acc_folder_prefix = [], acc_discriminator = ''genericaccount'',
     acc_emailed_calendar_id = None\<rparr>"

definition sample_message :: "nat \<Rightarrow> message_row" where
  "sample_message i = \<lparr>m_id = i, m_namespace_id = 1, m_thread_id = None, m_subject = Some ''Hi'',
     m_received_date = 0, m_snippet = [], m_from = [], m_to = [], m_cc = [], m_bcc = [], m_reply_to = [],
     m_in_reply_to = None, m_message_id_header = None, m_references = [], m_is_read = False,
     m_is_starred = False, m_is_draft = False, m_is_sent = False, m_is_created = False, m_categories = [],
     m_categories_changes = False, m_deleted_at = None, m_version = 0, m_public_id = [],
     m_nylas_uid = None, m_data_sha256 = [], m_g_msgid = None, m_g_thrid = None, m_updated_at = 0\<rparr>"

definition sample_thread :: "nat \<Rightarrow> thread_row" where
  "sample_thread i = \<lparr>th_id = i, th_namespace_id = 1, th_subject = Some ''Hi'', th_cleaned_subject = ''Hi'',
     th_subjectdate = 0, th_recentdate = 0, th_snippet = [], th_version = 0, th_deleted_at = None,
     th_g_thrid = None\<rparr>"

definition sample_uid :: "nat \<Rightarrow> nat \<Rightarrow> nat \<Rightarrow> imapuid_row" where
  "sample_uid i mid uid = \<lparr>u_id = i, u_account_id = 1, u_folder_id = 1, u_message_id = mid, u_msg_uid = uid,
     u_is_draft = False, u_is_seen = False, u_is_flagged = False, u_is_recent = False, u_is_answered = False,
     u_extra_flags = [], u_labels = []\<rparr>"

definition sample_folder_info :: folder_info_row where
  "sample_folder_info = \<lparr>fi_id = 1, fi_account_id = 1, fi_folder_id = 1, fi_uidvalidity = Some 1,
     fi_highestmodseq = None, fi_uidnext = None, fi_last_slow_refresh = None\<rparr>"

definition sample_fsync :: fsync_row where
  "sample_fsync = \<lparr>fs_id = 1, fs_account_id = 1, fs_folder_id = 1, fs_state = ''initial'', fs_metrics = None,
     fs_sync_should_run = True\<rparr>"

definition sample_folder :: folder_row where
  "sample_folder = \<lparr>fld_id = 1, fld_account_id = 1, fld_name = ''INBOX'', fld_canonical_name = ''inbox'',
     fld_category_id = None, fld_initial_sync_start = None, fld_initial_sync_end = None,
     fld_deleted_at = None\<rparr>"

definition sample_action :: "nat \<Rightarrow> string \<Rightarrow> nat \<Rightarrow> actionlog_row" where
  "sample_action i action rec = \<lparr>al_id = i, al_namespace_id = 1, al_action = action, al_record_id = rec,
     al_table_name = ''message'', al_status = Pending, al_retries = 0, al_extra_args = [],
     al_created_at = 0, al_updated_at = 0, al_type = ''actionlog''\<rparr>"

lemmas sample_defs = empty_store_def sample_account_def sample_message_def sample_thread_def sample_uid_def
  sample_folder_info_def sample_fsync_def sample_folder_def sample_action_def

text \<open>An evaluated result and a fact about it, from one evaluation.\<close>

lemma evaluatedE: "(case r of Inl e \<Rightarrow> False | Inr x \<Rightarrow> P x) \<Longrightarrow> (\<And>x. r = Inr x \<Longrightarrow> P x \<Longrightarrow> thesis) \<Longrightarrow> thesis"
  by (cases r) simp_all

end
