(* ===== verification/Account_Model.thy ===== *)
theory Account_Model
  imports Mail_Store
begin

text \<open>
  The account life cycle of \<open>inbox/models/account.py\<close>: starting, stopping, disabling and
  invalidating the sync, marking for deletion, the derived sync times, and the migration
  event an account's change sends to the host that should react to it. The clock and the
  \<open>USER\<close> environment variable are arguments.
\<close>

section \<open>Derived sync times\<close>

definition initial_sync_start :: "folder_row list \<Rightarrow> datetime option" where
  "initial_sync_start fs =
     (if length fs = 0 \<or> (\<exists>f\<in>set fs. fld_initial_sync_start f = None) then None
      else Some (Min (set (map (\<lambda>f. the (fld_initial_sync_start f)) fs))))"

definition initial_sync_end :: "folder_row list \<Rightarrow> datetime option" where
  "initial_sync_end fs =
     (if length fs = 0 \<or> (\<exists>f\<in>set fs. fld_initial_sync_end f = None) then None
      else Some (Max (set (map (\<lambda>f. the (fld_initial_sync_end f)) fs))))"

text \<open>The source subtracts the end from itself.\<close>

definition initial_sync_duration :: "folder_row list \<Rightarrow> int option" where
  "initial_sync_duration fs =
     (case (initial_sync_start fs, initial_sync_end fs) of
        (Some s, Some e) \<Rightarrow> Some (e - e)
      | _ \<Rightarrow> None)"

section \<open>State changes\<close>

abbreviation set_status :: "account_row \<Rightarrow> string \<Rightarrow> sval \<Rightarrow> account_row" where
  "set_status a k v \<equiv> a\<lparr>acc_sync_status := (acc_sync_status a)(k \<mapsto> v)\<rparr>"

definition sync_error :: "account_row \<Rightarrow> sval" where
  "sync_error a = status_get (acc_sync_status a) ''sync_error''"

text \<open>An error is its message, its formatted exception line and its traceback.\<close>

definition update_sync_error :: "(string \<times> string \<times> string) option \<Rightarrow> account_row \<Rightarrow> account_row" where
  "update_sync_error err a =
     (case err of
        None \<Rightarrow> set_status a ''sync_error'' VNull
      | Some (msg, exception, traceback) \<Rightarrow>
          set_status a ''sync_error'' (VError (take 3000 msg, take 500 exception, take 3000 traceback)))"

definition sync_started :: "datetime \<Rightarrow> account_row \<Rightarrow> account_row" where
  "sync_started now a =
     (let st = acc_sync_status a;
          st1 = (if acc_sync_state a = None \<and> status_get st ''sync_end_time'' = VNull
                 then st(''original_start_time'' \<mapsto> VTime now) else st);
          st2 = st1(''sync_start_time'' \<mapsto> VTime now, ''sync_end_time'' \<mapsto> VNull,
                    ''sync_error'' \<mapsto> VNull, ''sync_disabled_reason'' \<mapsto> VNull,
                    ''sync_disabled_on'' \<mapsto> VNull, ''sync_disabled_by'' \<mapsto> VNull)
      in a\<lparr>acc_sync_status := st2, acc_sync_state := Some Running\<rparr>)"

definition enable_sync :: "account_row \<Rightarrow> account_row" where
  "enable_sync a = a\<lparr>acc_sync_should_run := True\<rparr>"

definition disable_sync :: "datetime \<Rightarrow> string \<Rightarrow> string \<Rightarrow> account_row \<Rightarrow> account_row" where
  "disable_sync now user reason a =
     a\<lparr>acc_sync_should_run := False,
       acc_sync_status := (acc_sync_status a)
         (''sync_disabled_reason'' \<mapsto> VText reason, ''sync_disabled_on'' \<mapsto> VTime now,
          ''sync_disabled_by'' \<mapsto> VText user)\<rparr>"

definition mark_invalid :: "datetime \<Rightarrow> string \<Rightarrow> string \<Rightarrow> string \<Rightarrow> account_row \<Rightarrow> account_row" where
  "mark_invalid now user reason scope a =
     (if scope = ''calendar'' then a\<lparr>acc_sync_events := False\<rparr>
      else if scope = ''contacts'' then a\<lparr>acc_sync_contacts := False\<rparr>
      else (disable_sync now user reason a)\<lparr>acc_sync_state := Some Invalid\<rparr>)"

definition mark_for_deletion :: "datetime \<Rightarrow> string \<Rightarrow> account_row \<Rightarrow> account_row" where
  "mark_for_deletion now user a =
     (disable_sync now user ''account deleted'' a)\<lparr>acc_sync_state := Some Stopped\<rparr>"

definition unmark_for_deletion :: "account_row \<Rightarrow> account_row" where
  "unmark_for_deletion a =
     (enable_sync a)\<lparr>acc_sync_status := Map.empty, acc_sync_state := Some Running\<rparr>"

text \<open>Stopping is a compare-and-swap on \<open>sync_host\<close>; the result says whether it took place.\<close>

definition sync_stopped :: "datetime \<Rightarrow> string \<Rightarrow> account_row \<Rightarrow> bool \<times> account_row" where
  "sync_stopped now requesting_host a =
     (if Some requesting_host = acc_sync_host a
      then (True, a\<lparr>acc_sync_host := None,
                    acc_sync_state := (if acc_sync_state a = Some Running then Some Stopped else acc_sync_state a),
                    acc_sync_status := (acc_sync_status a)(''sync_end_time'' \<mapsto> VTime now)\<rparr>)
      else (False, a))"

definition is_killed :: "account_row \<Rightarrow> bool" where
  "is_killed a \<longleftrightarrow> acc_sync_state a = Some Killed"

definition is_running :: "account_row \<Rightarrow> bool" where
  "is_running a \<longleftrightarrow> acc_sync_state a = Some Running"

definition is_marked_for_deletion :: "account_row \<Rightarrow> bool" where
  "is_marked_for_deletion a \<longleftrightarrow>
     acc_sync_state a \<in> {Some Stopped, Some Killed, Some Invalid} \<and>
     \<not> acc_sync_should_run a \<and>
     status_get (acc_sync_status a) ''sync_disabled_reason'' = VText ''account deleted''"

section \<open>Migration events\<close>

record listener_state =
  ls_id :: nat
  ls_sync_should_run :: bool
  ls_sync_host :: "string option"
  ls_desired_sync_host :: "string option"
  ls_sent_event :: bool

text \<open>Which queue an event goes to: the private queue of a host, or the zone's shared queue.\<close>

datatype event_target = Private_queue string | Shared_queue

datatype migration_event = Migrate_from nat | Migrate_to nat | Migrate nat

definition update_listener_state :: "account_row \<Rightarrow> listener_state \<Rightarrow> listener_state" where
  "update_listener_state a ls =
     ls\<lparr>ls_sync_should_run := acc_sync_should_run a, ls_sync_host := acc_sync_host a,
        ls_desired_sync_host := acc_desired_sync_host a, ls_sent_event := False\<rparr>"

definition should_send_event :: "account_row \<Rightarrow> account_row \<Rightarrow> bool" where
  "should_send_event old new \<longleftrightarrow>
     acc_sync_host old \<noteq> acc_sync_host new \<or>
     acc_desired_sync_host old \<noteq> acc_desired_sync_host new \<or>
     acc_sync_should_run old \<noteq> acc_sync_should_run new"

definition send_migration_events ::
  "listener_state \<Rightarrow> (event_target \<times> migration_event) option \<times> listener_state" where
  "send_migration_events ls =
     (if ls_sent_event ls then (None, ls)
      else case ls_sync_host ls of
        Some host \<Rightarrow>
          (if \<not> ls_sync_should_run ls \<or>
              (Some host \<noteq> ls_desired_sync_host ls \<and> ls_desired_sync_host ls \<noteq> None)
           then (Some (Private_queue host, Migrate_from (ls_id ls)), ls)
           else (None, ls))
      | None \<Rightarrow>
          (if \<not> ls_sync_should_run ls then (None, ls)
           else case ls_desired_sync_host ls of
             Some host \<Rightarrow> (Some (Private_queue host, Migrate_to (ls_id ls)), ls)
           | None \<Rightarrow> (Some (Shared_queue, Migrate (ls_id ls)), ls\<lparr>ls_sent_event := True\<rparr>)))"

section \<open>Lemmas\<close>

lemma initial_sync_duration_zero: "initial_sync_duration fs = Some d \<Longrightarrow> d = 0"
  by (auto simp: initial_sync_duration_def split: option.splits)

lemma sync_stopped_other:
  "acc_sync_host a \<noteq> Some h \<Longrightarrow> sync_stopped now h a = (False, a)"
  by (auto simp: sync_stopped_def)

lemma sync_stopped_owner:
  "acc_sync_host a = Some h \<Longrightarrow> fst (sync_stopped now h a) \<and> acc_sync_host (snd (sync_stopped now h a)) = None"
  by (simp add: sync_stopped_def)

lemma mark_for_deletion_marks: "is_marked_for_deletion (mark_for_deletion now user a)"
  by (simp add: is_marked_for_deletion_def mark_for_deletion_def disable_sync_def status_get_def)

lemma marked_after_stop:
  "is_marked_for_deletion a \<Longrightarrow> is_marked_for_deletion (snd (sync_stopped now h a))"
  by (auto simp: is_marked_for_deletion_def sync_stopped_def status_get_def)

lemma unmark_unmarks: "\<not> is_marked_for_deletion (unmark_for_deletion a)"
  by (simp add: is_marked_for_deletion_def unmark_for_deletion_def enable_sync_def)

lemma sync_started_keeps:
  "acc_id (sync_started now a) = acc_id a" "acc_sync_host (sync_started now a) = acc_sync_host a"
  "acc_sync_should_run (sync_started now a) = acc_sync_should_run a"
  "acc_sync_state (sync_started now a) = Some Running"
  by (simp_all add: sync_started_def Let_def)

lemma sync_stopped_keeps:
  "acc_id (snd (sync_stopped now h a)) = acc_id a"
  "acc_sync_should_run (snd (sync_stopped now h a)) = acc_sync_should_run a"
  by (simp_all add: sync_stopped_def)

end
