(* ===== verification/Category_Model.thy ===== *)
theory Category_Model
  imports Account_Model
begin

text \<open>
  Categories, folders and labels: \<open>inbox/models/category.py\<close>, \<open>folder.py\<close> and
  \<open>label.py\<close>. A query on a \<open>CategoryNameString\<close> column compares the stored name with
  the sanitised form of its argument. The epoch is time 0.
\<close>

definition EPOCH :: datetime where
  "EPOCH = 0"

section \<open>Categories\<close>

definition category_find_or_create ::
  "store \<Rightarrow> nat \<Rightarrow> string option \<Rightarrow> string \<Rightarrow> string \<Rightarrow> (store \<times> category_row) res" where
  "category_find_or_create db nid name display_name ty =
     (let name' = str_or name [];
          objects = filter (\<lambda>c. cat_namespace_id c = nid \<and> cat_display_name c = sanitize_name display_name)
                      (categories db)
      in case objects of
           [] \<Rightarrow>
             (let obj = \<lparr>cat_id = t_next cat_id (categories db), cat_namespace_id = nid, cat_name = name',
                         cat_display_name = sanitize_name display_name, cat_type = ty, cat_deleted_at = EPOCH\<rparr>
              in Ok (db\<lparr>categories := t_add (categories db) obj\<rparr>, obj))
         | [obj] \<Rightarrow>
             (if cat_name obj = []
              then (let obj' = obj\<lparr>cat_name := name'\<rparr>
                    in Ok (db\<lparr>categories := t_put cat_id (categories db) obj'\<rparr>, obj'))
              else Ok (db, obj))
         | _ \<Rightarrow> Raise MultipleResultsFound)"

definition category_create ::
  "store \<Rightarrow> nat \<Rightarrow> string option \<Rightarrow> string \<Rightarrow> string \<Rightarrow> store \<times> category_row" where
  "category_create db nid name display_name ty =
     (let obj = \<lparr>cat_id = t_next cat_id (categories db), cat_namespace_id = nid, cat_name = str_or name [],
                 cat_display_name = sanitize_name display_name, cat_type = ty, cat_deleted_at = EPOCH\<rparr>
      in (db\<lparr>categories := t_add (categories db) obj\<rparr>, obj))"

definition category_is_deleted :: "category_row \<Rightarrow> bool" where
  "category_is_deleted c \<longleftrightarrow> EPOCH < cat_deleted_at c"

definition lowercase_name :: "category_row \<Rightarrow> string" where
  "lowercase_name c = py_lower (cat_display_name c)"

definition api_display_name :: "account_row \<Rightarrow> category_row \<Rightarrow> string" where
  "api_display_name acc c =
     (let dn = cat_display_name c in
      if acc_provider acc = ''gmail'' \<and> prefix ''[Gmail]/'' dn then drop 8 dn
      else if acc_provider acc = ''gmail'' \<and> prefix ''[Google Mail]/'' dn then drop 14 dn
      else if acc_provider acc \<notin> {''gmail'', ''eas''}
           then fs_folder_path dn (acc_folder_separator acc) (acc_folder_prefix acc)
      else dn)"

section \<open>Folders\<close>

definition set_folder_canonical_name :: "store \<Rightarrow> folder_row \<Rightarrow> string option \<Rightarrow> store" where
  "set_folder_canonical_name db f v =
     (let v' = str_or v [];
          db1 = db\<lparr>folders := t_put fld_id (folders db) (f\<lparr>fld_canonical_name := v'\<rparr>)\<rparr>
      in case fld_category_id f of
           None \<Rightarrow> db1
         | Some cid \<Rightarrow>
             (case t_get cat_id (categories db) cid of
                None \<Rightarrow> db1
              | Some c \<Rightarrow> db1\<lparr>categories := t_put cat_id (categories db) (c\<lparr>cat_name := v'\<rparr>)\<rparr>))"

definition folder_find_or_create ::
  "store \<Rightarrow> account_row \<Rightarrow> string \<Rightarrow> string option \<Rightarrow> (store \<times> folder_row) res" where
  "folder_find_or_create db acc name role =
     (let q = filter (\<lambda>f. fld_account_id f = acc_id acc \<and> fld_name f = sanitize_name name) (folders db);
          role' = str_or role []
      in case q of
           [obj] \<Rightarrow> Ok (db, obj)
         | [] \<Rightarrow>
             res_bind (category_find_or_create db (acc_namespace_id acc) (Some role') name ''folder'')
               (\<lambda>(db1, cat).
                 let obj = \<lparr>fld_id = t_next fld_id (folders db1), fld_account_id = acc_id acc,
                            fld_name = sanitize_name name, fld_canonical_name = role',
                            fld_category_id = Some (cat_id cat),
                            fld_initial_sync_start = None, fld_initial_sync_end = None,
                            fld_deleted_at = None\<rparr>
                 in Ok (db1\<lparr>folders := t_add (folders db1) obj\<rparr>, obj))
         | _ \<Rightarrow> Raise MultipleResultsFound)"

section \<open>Labels\<close>

definition label_find_or_create ::
  "store \<Rightarrow> account_row \<Rightarrow> string \<Rightarrow> string option \<Rightarrow> (store \<times> label_row) res" where
  "label_find_or_create db acc name role =
     (let role' = str_or role [];
          q = filter (\<lambda>l. lbl_account_id l = acc_id acc \<and>
                (if role' \<noteq> [] then lbl_canonical_name l = role' else lbl_name l = sanitize_name name))
                (labels db)
      in case query_first q of
           Some obj \<Rightarrow> Ok (db, obj)
         | None \<Rightarrow>
             res_bind (category_find_or_create db (acc_namespace_id acc) (Some role') name ''label'')
               (\<lambda>(db1, cat).
                 let obj = \<lparr>lbl_id = t_next lbl_id (labels db1), lbl_account_id = acc_id acc,
                            lbl_name = sanitize_name name, lbl_canonical_name = role',
                            lbl_category_id = Some (cat_id cat), lbl_deleted_at = None\<rparr>
                 in Ok (db1\<lparr>labels := t_add (labels db1) obj\<rparr>, obj)))"

section \<open>Deleting a category\<close>

text \<open>
  Its folders and labels go with it, and with a folder its UIDs, its sync state and its status;
  messages and UIDs lose their references.
\<close>

definition category_folders :: "store \<Rightarrow> nat \<Rightarrow> nat set" where
  "category_folders db cid = fld_id ` set (filter (\<lambda>f. fld_category_id f = Some cid) (folders db))"

definition category_labels :: "store \<Rightarrow> nat \<Rightarrow> nat set" where
  "category_labels db cid = lbl_id ` set (filter (\<lambda>l. lbl_category_id l = Some cid) (labels db))"

definition delete_category :: "store \<Rightarrow> nat \<Rightarrow> store" where
  "delete_category db cid =
     (let fids = category_folders db cid; lids = category_labels db cid in
      db\<lparr>categories := t_del cat_id (categories db) cid,
         folders := filter (\<lambda>f. fld_id f \<notin> fids) (folders db),
         labels := filter (\<lambda>l. lbl_id l \<notin> lids) (labels db),
         imapuids := map (\<lambda>u. u\<lparr>u_labels := filter (\<lambda>l. l \<notin> lids) (u_labels u)\<rparr>)
                       (filter (\<lambda>u. u_folder_id u \<notin> fids) (imapuids db)),
         folder_infos := filter (\<lambda>i. fi_folder_id i \<notin> fids) (folder_infos db),
         fsyncs := filter (\<lambda>f. fs_folder_id f \<notin> fids) (fsyncs db),
         messages := map (\<lambda>m. m\<lparr>m_categories := filter (\<lambda>c. c \<noteq> Some cid) (m_categories m)\<rparr>) (messages db)\<rparr>)"

section \<open>Lemmas\<close>

lemma str_or_Some_Nil [simp]: "str_or (Some s) [] = s"
  by (simp add: str_or_def)

lemma category_found_again:
  assumes "filter P (categories db) = [c]" and "t_inv cat_id (categories db)"
    and "P (c\<lparr>cat_name := n\<rparr>)"
  shows "filter P (t_put cat_id (categories db) (c\<lparr>cat_name := n\<rparr>)) = [c\<lparr>cat_name := n\<rparr>]"
proof -
  let ?c = "c\<lparr>cat_name := n\<rparr>"
  obtain xs ys where split: "categories db = xs @ c # ys" "\<forall>x\<in>set xs. \<not> P x" "\<forall>x\<in>set ys. \<not> P x"
    using assms(1) unfolding filter_eq_Cons_iff by (metis filter_empty_conv)
  have "cat_id x \<noteq> cat_id c" if "x \<in> set xs \<union> set ys" for x
    using that assms(2) split(1) by (auto simp: t_inv_def) (metis imageI)+
  then have "map (\<lambda>x. if cat_id x = cat_id ?c then ?c else x) xs = xs"
    "map (\<lambda>x. if cat_id x = cat_id ?c then ?c else x) ys = ys"
    by (auto intro: map_idI)
  with split assms(3) show ?thesis by (simp add: t_put_def filter_empty_conv)
qed

text \<open>A second call finds what the first one found or made, and changes nothing.\<close>

lemma category_find_or_create_stable:
  assumes wf: "t_inv cat_id (categories db)"
    and first: "category_find_or_create db nid name dn ty = Ok (db', c)"
  shows "category_find_or_create db' nid name dn ty = Ok (db', c)"
proof -
  let ?P = "\<lambda>c. cat_namespace_id c = nid \<and> cat_display_name c = sanitize_name dn"
  have put_same: "t_put cat_id t c = t" if "t_inv cat_id t" "c \<in> set t" for t :: "category_row list" and c
    using that by (auto simp: t_put_def t_inv_def distinct_map intro!: map_idI dest: inj_onD)
  consider "filter ?P (categories db) = []" | c0 where "filter ?P (categories db) = [c0]"
    | c1 c2 cs where "filter ?P (categories db) = c1 # c2 # cs"
    by (metis list.exhaust)
  then show ?thesis
  proof cases
    case 1
    with first have db': "categories db' = categories db @ [c]" "?P c" "cat_name c = str_or name []"
        "db' = db\<lparr>categories := categories db @ [c]\<rparr>"
      by (auto simp: category_find_or_create_def t_add_def Let_def)
    with 1 have "filter ?P (categories db') = [c]" by simp
    moreover have "t_put cat_id (categories db') c = categories db'"
    proof (rule put_same)
      show "t_inv cat_id (categories db')"
        using first 1 wf t_next_fresh [of _ "categories db" cat_id]
        by (auto simp: category_find_or_create_def Let_def intro!: cats.inv_add)
      show "c \<in> set (categories db')" using db' by simp
    qed
    moreover have "c\<lparr>cat_name := str_or name []\<rparr> = c" using db'(3) by simp
    ultimately show ?thesis using db'(4)
      by (simp add: category_find_or_create_def Let_def)
  next
    case 2
    show ?thesis
    proof (cases "cat_name c0 = []")
      case True
      let ?c = "c0\<lparr>cat_name := str_or name []\<rparr>"
      from True 2 first have db': "db' = db\<lparr>categories := t_put cat_id (categories db) ?c\<rparr>" "c = ?c"
        by (auto simp: category_find_or_create_def Let_def)
      from 2 have "?P c0" by (metis (mono_tags, lifting) filter_eq_Cons_iff)
      then have "filter ?P (categories db') = [?c]"
        using category_found_again [OF 2 wf] db' by simp
      moreover from this have "?c \<in> set (categories db')" by (metis (mono_tags, lifting) filter_eq_ConsD in_set_conv_decomp)
      moreover have "t_inv cat_id (categories db')" using wf db' by (simp add: cats.inv_put)
      ultimately show ?thesis using put_same [of "categories db'" ?c] db'
        by (cases "str_or name [] = []") (simp_all add: category_find_or_create_def Let_def)
    next
      case False
      with 2 first show ?thesis by (auto simp: category_find_or_create_def Let_def)
    qed
  next
    case 3
    with first show ?thesis by (simp add: category_find_or_create_def Let_def)
  qed
qed

text \<open>Messages that are not in the category stay as they are.\<close>

lemma delete_category_messages:
  assumes "\<forall>m\<in>set (messages db). Some cid \<notin> set (m_categories m)"
  shows "messages (delete_category db cid) = messages db"
proof -
  have "m\<lparr>m_categories := filter (\<lambda>c. c \<noteq> Some cid) (m_categories m)\<rparr> = m" if "m \<in> set (messages db)" for m
  proof -
    have "filter (\<lambda>c. c \<noteq> Some cid) (m_categories m) = m_categories m"
      using assms that by (auto intro!: filter_True)
    then show ?thesis by simp
  qed
  then show ?thesis by (simp add: delete_category_def Let_def map_idI)
qed

lemma delete_category_keeps [simp]:
  "accounts (delete_category db cid) = accounts db" "threads (delete_category db cid) = threads db"
  "m_id ` set (messages (delete_category db cid)) = m_id ` set (messages db)"
  by (simp_all add: delete_category_def Let_def image_image)

end
