(* ===== verification/Imap_Models.thy ===== *)
theory Imap_Models
  imports Category_Model
begin

text \<open>
  The bookkeeping classes of \<open>inbox/models/backends/imap.py\<close>: flags and labels of a UID
  (\<open>ImapUid.update_flags\<close>, \<open>update_labels\<close>, \<open>categories\<close>) and the per-folder
  sync status (\<open>ImapFolderSyncStatus\<close>). A Python set built from a list is enumerated
  in the order of first occurrence; the order only decides the ids new rows get.
\<close>

section \<open>Flags\<close>

text \<open>
  The length of \<open>json.dumps\<close> of a list of strings: quotes around each string, comma and
  space between two, brackets around all, and the escapes of the ASCII encoder.
\<close>

definition json_char_len :: "char \<Rightarrow> nat" where
  "json_char_len c =
     (if c = CHR 0x22 \<or> c = CHR 0x5C then 2
      else if c \<in> {CHR 0x08, CHR 0x09, CHR 0x0A, CHR 0x0C, CHR 0x0D} then 2
      else if (of_char c :: nat) < 32 \<or> (126::nat) < of_char c then 6 else 1)"

definition json_str_len :: "string \<Rightarrow> nat" where
  "json_str_len s = 2 + sum_list (map json_char_len s)"

definition json_dumps_len :: "string list \<Rightarrow> nat" where
  "json_dumps_len xs = 2 + sum_list (map json_str_len xs) + 2 * (length xs - 1)"

text \<open>\<open>while len(json.dumps(xs)) > 255: xs.pop()\<close>\<close>

function trim_flags :: "string list \<Rightarrow> string list" where
  "trim_flags xs = (if 255 < json_dumps_len xs then trim_flags (butlast xs) else xs)"
  by pat_completeness auto
termination
proof (relation "measure length")
  fix xs :: "string list"
  assume "255 < json_dumps_len xs"
  then have "xs \<noteq> []" by (auto simp: json_dumps_len_def)
  then show "(butlast xs, xs) \<in> measure length" by (cases xs) auto
qed simp

declare trim_flags.simps [simp del]

text \<open>IMAP system flags and Gmail's special labels start with a backslash.\<close>

definition bs :: "string \<Rightarrow> string" where
  "bs s = CHR 0x5C # s"

definition known_flags :: "string set" where
  "known_flags = {bs ''Draft'', bs ''Seen'', bs ''Recent'', bs ''Answered'', bs ''Flagged''}"

definition update_flags :: "string list \<Rightarrow> imapuid_row \<Rightarrow> bool \<times> imapuid_row" where
  "update_flags new_flags u =
     (let has = (\<lambda>f. f \<in> set new_flags);
          u1 = u\<lparr>u_is_draft := has (bs ''Draft''), u_is_seen := has (bs ''Seen''),
                 u_is_recent := has (bs ''Recent''), u_is_answered := has (bs ''Answered''),
                 u_is_flagged := has (bs ''Flagged'')\<rparr>;
          extra_flags = sort (remdups (filter (\<lambda>f. f \<notin> known_flags) new_flags));
          changed = (u_is_draft u \<noteq> u_is_draft u1 \<or> u_is_seen u \<noteq> u_is_seen u1 \<or>
                     u_is_recent u \<noteq> u_is_recent u1 \<or> u_is_answered u \<noteq> u_is_answered u1 \<or>
                     u_is_flagged u \<noteq> u_is_flagged u1 \<or> extra_flags \<noteq> u_extra_flags u)
      in (changed, u1\<lparr>u_extra_flags := trim_flags extra_flags\<rparr>))"

section \<open>Labels\<close>

definition category_map :: "string \<rightharpoonup> string" where
  "category_map =
     [bs ''Inbox'' \<mapsto> ''inbox'', bs ''Important'' \<mapsto> ''important'', bs ''Sent'' \<mapsto> ''sent'',
      bs ''Trash'' \<mapsto> ''trash'', bs ''Spam'' \<mapsto> ''spam'', bs ''All'' \<mapsto> ''all'']"

text \<open>The (name, canonical name) pair a remote label stands for; Draft and Starred stand for none.\<close>

definition remote_label :: "string \<Rightarrow> (string \<times> string option) option" where
  "remote_label label =
     (if label = bs ''Draft'' \<or> label = bs ''Starred'' then None
      else case category_map label of
             Some c \<Rightarrow> Some (c, Some c)
           | None \<Rightarrow> Some (label, None))"

definition label_key :: "label_row \<Rightarrow> string \<times> string option" where
  "label_key l = (lbl_name l, Some (lbl_canonical_name l))"

definition local_labels :: "store \<Rightarrow> imapuid_row \<Rightarrow> label_row list" where
  "local_labels db u = List.map_filter (t_get lbl_id (labels db)) (u_labels u)"

text \<open>Adding the labels to be added, one \<open>find_or_create\<close> each.\<close>

fun add_labels ::
  "account_row \<Rightarrow> (string \<times> string option) list \<Rightarrow> store \<times> nat list \<Rightarrow> (store \<times> nat list) res" where
  "add_labels acc [] s = Ok s"
| "add_labels acc ((name, canonical) # rest) (db, ls) =
     res_bind (label_find_or_create db acc name canonical)
       (\<lambda>(db1, l). add_labels acc rest (db1, if lbl_id l \<in> set ls then ls else ls @ [lbl_id l]))"

definition update_labels ::
  "account_row \<Rightarrow> string list \<Rightarrow> store \<Rightarrow> imapuid_row \<Rightarrow> (store \<times> imapuid_row) res" where
  "update_labels acc new_labels db u =
     (let u1 = u\<lparr>u_is_draft := bs ''Draft'' \<in> set new_labels\<rparr>;
          remote = remdups (List.map_filter remote_label new_labels);
          locals = local_labels db u;
          keys = label_key ` set locals;
          removed = map_of (map (\<lambda>l. (label_key l, lbl_id l)) (rev locals)) ` (keys - set remote);
          kept = filter (\<lambda>i. Some i \<notin> removed) (u_labels u);
          added = filter (\<lambda>k. k \<notin> keys) remote
      in res_bind (add_labels acc added (db, kept))
           (\<lambda>(db1, ls). let u2 = u1\<lparr>u_labels := ls\<rparr>
                        in Ok (db1\<lparr>imapuids := t_put u_id (imapuids db1) u2\<rparr>, u2)))"

definition uid_categories :: "store \<Rightarrow> imapuid_row \<Rightarrow> nat option set" where
  "uid_categories db u =
     lbl_category_id ` set (local_labels db u) \<union>
     (case t_get fld_id (folders db) (u_folder_id u) of None \<Rightarrow> {} | Some f \<Rightarrow> {fld_category_id f})"

section \<open>Folder sync status\<close>

definition folder_metrics :: "folder_row \<Rightarrow> fsync_row \<Rightarrow> status_dict" where
  "folder_metrics f s =
     [''name'' \<mapsto> VText (fld_name f), ''state'' \<mapsto> VText (fs_state s)] ++
     (case fs_metrics s of None \<Rightarrow> Map.empty | Some d \<Rightarrow> d)"

definition start_sync :: "datetime \<Rightarrow> fsync_row \<Rightarrow> fsync_row" where
  "start_sync now s =
     s\<lparr>fs_metrics := Some [''run_state'' \<mapsto> VText ''running'', ''sync_start_time'' \<mapsto> VTime now]\<rparr>"

definition stop_sync :: "datetime \<Rightarrow> fsync_row \<Rightarrow> fsync_row res" where
  "stop_sync now s =
     (case fs_metrics s of
        None \<Rightarrow> Raise TypeError
      | Some d \<Rightarrow> Ok (s\<lparr>fs_metrics := Some (d(''run_state'' \<mapsto> VText ''stopped'', ''sync_end_time'' \<mapsto> VTime now))\<rparr>))"

definition sync_status_metrics :: "string list" where
  "sync_status_metrics =
     [''remote_uid_count'', ''delete_uid_count'', ''update_uid_count'', ''download_uid_count'',
      ''uid_checked_timestamp'', ''num_downloaded_since_timestamp'', ''queue_checked_at'', ''percent'']"

definition update_metrics :: "(string \<times> sval) list \<Rightarrow> fsync_row \<Rightarrow> fsync_row res" where
  "update_metrics metrics s =
     (if \<exists>k\<in>set (map fst metrics). k \<notin> set sync_status_metrics then Raise AssertionError
      else Ok (s\<lparr>fs_metrics := Some ((case fs_metrics s of None \<Rightarrow> Map.empty | Some d \<Rightarrow> d) ++ dict_of metrics)\<rparr>))"

definition folder_sync_enabled :: "account_row \<Rightarrow> fsync_row \<Rightarrow> bool" where
  "folder_sync_enabled acc s \<longleftrightarrow> fs_sync_should_run s \<and> acc_sync_should_run acc"

section \<open>Lemmas\<close>

lemma trim_flags_fits: "json_dumps_len (trim_flags xs) \<le> 255"
  by (induction xs rule: trim_flags.induct) (subst trim_flags.simps, auto)

lemma trim_flags_prefix: "prefix (trim_flags xs) xs"
proof (induction xs rule: trim_flags.induct)
  case (1 xs)
  show ?case
  proof (cases "255 < json_dumps_len xs")
    case True
    with 1 show ?thesis
      by (subst trim_flags.simps) (auto intro: prefix_order.trans prefixeq_butlast)
  qed (subst trim_flags.simps, simp)
qed

lemma trim_flags_id: "json_dumps_len xs \<le> 255 \<Longrightarrow> trim_flags xs = xs"
  by (subst trim_flags.simps) simp

text \<open>Applying the same flags again reports no change, as long as the extra flags fit the column.\<close>

lemma update_flags_stable:
  assumes fits: "json_dumps_len (sort (remdups (filter (\<lambda>f. f \<notin> known_flags) fl))) \<le> 255"
  shows "update_flags fl (snd (update_flags fl u)) = (False, snd (update_flags fl u))"
  using trim_flags_id [OF fits] by (simp add: update_flags_def Let_def)

lemma update_flags_keeps:
  "u_id (snd (update_flags fl u)) = u_id u" "u_folder_id (snd (update_flags fl u)) = u_folder_id u"
  "u_msg_uid (snd (update_flags fl u)) = u_msg_uid u" "u_account_id (snd (update_flags fl u)) = u_account_id u"
  "u_message_id (snd (update_flags fl u)) = u_message_id u" "u_labels (snd (update_flags fl u)) = u_labels u"
  by (simp_all add: update_flags_def Let_def)

lemma update_flags_read:
  "u_is_seen (snd (update_flags fl u)) \<longleftrightarrow> bs ''Seen'' \<in> set fl"
  "u_is_flagged (snd (update_flags fl u)) \<longleftrightarrow> bs ''Flagged'' \<in> set fl"
  "u_is_draft (snd (update_flags fl u)) \<longleftrightarrow> bs ''Draft'' \<in> set fl"
  by (simp_all add: update_flags_def Let_def)

end
