(* ===== verification/Props_Data.thy ===== *)
theory Props_Data
  imports Samples Category_Model Imap_Models
begin

text \<open>
  The properties of the data helpers and of the models that no sync loop is needed for:
  identifiers, folder paths, subjects, categories and flags. Each is a short consequence of the
  lemmas of the component's own theory, followed by a witness at concrete values.
\<close>

section \<open>Identifiers\<close>

text \<open>
  Every non-negative integer is encoded, and decoding its base-36 text gives it back:
  \<open>base36decode(base36encode(n)) == n\<close>, through the real digits and Python's \<open>int(s, 36)\<close>.
\<close>

theorem base36_roundtrip:
  assumes "0 \<le> n"
  shows "\<exists>s. base36encode n = Ok s \<and> base36decode s = Ok n"
  using assms by (rule base36_roundtrip_aux)

theorem base36_roundtrip_witness: "\<exists>s. base36encode 123456789 = Ok s \<and> base36decode s = Ok 123456789"
  by (rule base36_roundtrip) simp

section \<open>Folder paths\<close>

text \<open>
  A folder path as API clients see it (components joined by slashes) survives the
  translation into the server's name and back, whatever the server's separator and namespace
  prefix are, as long as no component is empty or contains a slash or the separator and the
  joined name does not already start with the prefix.
\<close>

theorem folder_path_roundtrip:
  assumes "comps \<noteq> []" "\<forall>f\<in>set comps. f \<noteq> [] \<and> CHR ''/'' \<notin> set f \<and> c \<notin> set f"
    and "pfx = [] \<or> \<not> prefix pfx (py_join [c] comps)"
  shows "\<exists>name. imap_folder_path (py_join ''/'' comps) c pfx = Some name \<and>
           fs_folder_path name c pfx = py_join ''/'' comps"
  using assms by (rule folder_path_roundtrip_aux)

theorem folder_path_roundtrip_witness:
  "\<exists>name. imap_folder_path (py_join ''/'' [''Work'', ''Bills'']) (CHR ''.'') ''INBOX.'' = Some name \<and>
     fs_folder_path name (CHR ''.'') ''INBOX.'' = py_join ''/'' [''Work'', ''Bills'']"
  by (rule folder_path_roundtrip) (simp_all add: prefix_def)

section \<open>Subjects\<close>

text \<open>
  A reply or forward is filed under the subject of the message it answers: putting any of the
  recognised prefixes, in any case, with a colon and any white space before a subject does not
  change the cleaned subject threads are matched by, and cleaning a cleaned subject is the identity.
\<close>

theorem reply_subject_same:
  assumes "py_lower w \<in> set subject_prefixes" and "\<forall>c\<in>set sp. py_space c"
    and "s = [] \<or> \<not> py_space (hd s)"
  shows "cleanup_subject (Some (w @ '':'' @ sp @ s)) = cleanup_subject (Some s) \<and>
    cleanup_subject (Some (cleanup_subject (Some s))) = cleanup_subject (Some s)"
  using strip_one_reply [OF assms] strip_prefixes.simps [of "w @ '':'' @ sp @ s"]
  by (simp add: cleanup_idem) (simp add: cleanup_subject_def)

theorem reply_subject_same_witness:
  "cleanup_subject (Some (''RE'' @ '':'' @ '' '' @ ''Fwd: lunch'')) = cleanup_subject (Some ''Fwd: lunch'') \<and>
    cleanup_subject (Some (cleanup_subject (Some ''Fwd: lunch''))) = cleanup_subject (Some ''Fwd: lunch'')"
  by (rule reply_subject_same) (simp_all add: subject_prefixes_def py_space_def lower_char_def char_of_def bit_simps)

section \<open>Categories\<close>

text \<open>
  \<open>Category.find_or_create\<close> is stable: once it has returned a category, the same call
  on the resulting database returns the same category and changes nothing, also when the first
  call created the row or filled in an empty name.
\<close>

theorem category_lookup_stable:
  assumes "t_inv cat_id (categories db)"
    and "category_find_or_create db nid name dn ty = Ok (db', c)"
  shows "category_find_or_create db' nid name dn ty = Ok (db', c)"
  using assms by (rule category_find_or_create_stable)

theorem category_lookup_stable_witness:
  "\<exists>db' c. category_find_or_create empty_store 1 (Some ''inbox'') ''INBOX'' ''folder'' = Ok (db', c) \<and>
     category_find_or_create db' 1 (Some ''inbox'') ''INBOX'' ''folder'' = Ok (db', c)"
proof -
  obtain db' c where first: "category_find_or_create empty_store 1 (Some ''inbox'') ''INBOX'' ''folder'' = Ok (db', c)"
    by (simp add: category_find_or_create_def empty_store_def Let_def)
  then have "category_find_or_create db' 1 (Some ''inbox'') ''INBOX'' ''folder'' = Ok (db', c)"
    by (rule category_lookup_stable [rotated]) (simp add: empty_store_def t_inv_def)
  with first show ?thesis by blast
qed

section \<open>Flags\<close>

text \<open>
  After \<open>ImapUid.update_flags\<close> the row's flags are the ones the server sent, the row's
  identity is untouched, and applying the same flags again changes nothing and reports no
  change, as long as the unrecognised flags fit their column of 255 characters.
\<close>

theorem flags_as_sent:
  assumes "json_dumps_len (sort (remdups (filter (\<lambda>f. f \<notin> known_flags) fl))) \<le> 255"
  shows "update_flags fl (snd (update_flags fl u)) = (False, snd (update_flags fl u)) \<and>
    (u_is_seen (snd (update_flags fl u)) \<longleftrightarrow> bs ''Seen'' \<in> set fl) \<and>
    (u_is_flagged (snd (update_flags fl u)) \<longleftrightarrow> bs ''Flagged'' \<in> set fl) \<and>
    (u_is_draft (snd (update_flags fl u)) \<longleftrightarrow> bs ''Draft'' \<in> set fl) \<and>
    u_id (snd (update_flags fl u)) = u_id u \<and> u_msg_uid (snd (update_flags fl u)) = u_msg_uid u"
  using update_flags_stable [OF assms] by (simp add: update_flags_read update_flags_keeps)

theorem flags_as_sent_witness:
  "u_is_seen (snd (update_flags [bs ''Seen'', ''work''] (sample_uid 1 1 7))) \<and>
   \<not> u_is_draft (snd (update_flags [bs ''Seen'', ''work''] (sample_uid 1 1 7)))"
proof -
  have "json_dumps_len (sort (remdups (filter (\<lambda>f. f \<notin> known_flags) [bs ''Seen'', ''work'']))) \<le> 255"
    by (simp add: known_flags_def bs_def json_dumps_len_def json_str_len_def json_char_len_def)
  from flags_as_sent [OF this, of "sample_uid 1 1 7"] show ?thesis by (simp add: bs_def)
qed

end
