(* ===== verification/Contact_Model.thy ===== *)
theory Contact_Model
  imports Category_Model
begin

text \<open>
  Contacts: the address setter (\<open>HasEmailAddress\<close> of \<open>inbox/models/mixins.py\<close>), merging
  (\<open>inbox/models/contact.py\<close>), the contacts a message brings
  (\<open>inbox/contacts/process_mail.py\<close>) and the sync with a remote address book
  (\<open>ContactSync.sync\<close> of \<open>inbox/contacts/remote_sync.py\<close>). Fresh uids are a parameter.
\<close>

section \<open>The contact row\<close>

definition canonical_opt :: "addr_parser \<Rightarrow> string option \<Rightarrow> string option" where
  "canonical_opt parse a = map_option (canonicalize_address parse) a"

definition set_email_address :: "addr_parser \<Rightarrow> string option \<Rightarrow> contact_row \<Rightarrow> contact_row" where
  "set_email_address parse v c =
     (let v' = map_option (\<lambda>s. unicode_safe_truncate s MAX_INDEXABLE_LENGTH) v
      in c\<lparr>ct_raw_address := v', ct_canonical := canonical_opt parse v'\<rparr>)"

definition merge_from :: "addr_parser \<Rightarrow> contact_row \<Rightarrow> contact_row \<Rightarrow> contact_row" where
  "merge_from parse new_contact c =
     (let c1 = (if ct_name c \<noteq> ct_name new_contact then c\<lparr>ct_name := ct_name new_contact\<rparr> else c);
          c2 = (if ct_raw_address c1 \<noteq> ct_raw_address new_contact
                then set_email_address parse (ct_raw_address new_contact) c1 else c1)
      in if ct_raw_data c2 \<noteq> ct_raw_data new_contact
         then c2\<lparr>ct_raw_data := ct_raw_data new_contact\<rparr> else c2)"

definition INBOX_PROVIDER_NAME :: string where
  "INBOX_PROVIDER_NAME = ''inbox''"

definition new_contact :: "addr_parser \<Rightarrow> nat \<Rightarrow> string \<Rightarrow> string option \<Rightarrow> string \<Rightarrow> contact_row" where
  "new_contact parse nid uid name email =
     set_email_address parse (Some email)
       \<lparr>ct_id = 0, ct_namespace_id = nid, ct_uid = uid, ct_provider_name = INBOX_PROVIDER_NAME,
        ct_name = name, ct_raw_address = None, ct_canonical = None, ct_raw_data = None\<rparr>"

section \<open>Contacts of a message\<close>

text \<open>
  The contact map holds persisted contacts by id (\<open>Inl\<close>) and contacts that enter the
  database only when a message is linked to them (\<open>Inr\<close>).
\<close>

type_synonym contact_map = "string \<rightharpoonup> nat + contact_row"

definition address_fields :: "message_row \<Rightarrow> (string \<times> address list) list" where
  "address_fields m =
     [(''from_addr'', m_from m), (''to_addr'', m_to m), (''cc_addr'', m_cc m),
      (''bcc_addr'', m_bcc m), (''reply_to'', m_reply_to m)]"

definition existing_contact_map :: "store \<Rightarrow> nat \<Rightarrow> string set \<Rightarrow> contact_map" where
  "existing_contact_map db nid addrs =
     dict_of (List.map_filter (\<lambda>c. case ct_canonical c of
                 Some a \<Rightarrow> if a \<in> addrs \<and> ct_namespace_id c = nid then Some (a, Inl (ct_id c)) else None
               | None \<Rightarrow> None) (contacts db))"

fun add_missing_contacts ::
  "addr_parser \<Rightarrow> (string \<Rightarrow> string) \<Rightarrow> nat \<Rightarrow> address list \<Rightarrow> contact_map \<Rightarrow> contact_map" where
  "add_missing_contacts parse fresh nid [] cm = cm"
| "add_missing_contacts parse fresh nid ((name, email) # rest) cm =
     (let a = canonicalize_address parse email
      in add_missing_contacts parse fresh nid rest
           (if cm a = None then cm(a \<mapsto> Inr (new_contact parse nid (fresh a) (Some name) email)) else cm))"

text \<open>Linking one address of a field; the pending contact is flushed with its first link.\<close>

definition link_contact ::
  "addr_parser \<Rightarrow> nat \<Rightarrow> string \<times> address \<Rightarrow> store \<times> contact_map \<Rightarrow> (store \<times> contact_map) res" where
  "link_contact parse mid fa s =
     (case (fa, s) of ((field, name, email), (db, cm)) \<Rightarrow>
        if \<not> valid_email parse email then Ok (db, cm)
        else let a = canonicalize_address parse email;
                 flushed = (case cm a of
                     None \<Rightarrow> None
                   | Some (Inl cid) \<Rightarrow> map_option (\<lambda>c. (db, c)) (t_get ct_id (contacts db) cid)
                   | Some (Inr row) \<Rightarrow>
                       (let c = row\<lparr>ct_id := t_next ct_id (contacts db)\<rparr>
                        in Some (db\<lparr>contacts := t_add (contacts db) c\<rparr>, c)))
             in case flushed of
                  None \<Rightarrow> Raise AttributeError
                | Some (db1, c) \<Rightarrow>
                    (let c' = (if ct_name c \<noteq> Some name \<and> str_contains ''noreply'' a
                               then c\<lparr>ct_name := None\<rparr> else c)
                     in Ok (db1\<lparr>contacts := t_put ct_id (contacts db1) c',
                                contact_links := contact_links db1 @ [(mid, ct_id c, field)]\<rparr>,
                            cm(a \<mapsto> Inl (ct_id c)))))"

definition field_addresses :: "message_row \<Rightarrow> (string \<times> address) list" where
  "field_addresses m = concat (map (\<lambda>(f, as). map (\<lambda>a. (f, a)) as) (address_fields m))"

definition update_contacts_from_message ::
  "addr_parser \<Rightarrow> (string \<Rightarrow> string) \<Rightarrow> store \<Rightarrow> message_row \<Rightarrow> nat \<Rightarrow> store res" where
  "update_contacts_from_message parse fresh db m nid =
     (let all_addresses = concat (map snd (address_fields m));
          canonicalized = set (map (\<lambda>(_, e). canonicalize_address parse e) all_addresses);
          cm = add_missing_contacts parse fresh nid all_addresses (existing_contact_map db nid canonicalized)
      in res_bind (res_fold (link_contact parse (m_id m)) (field_addresses m) (db, cm))
           (\<lambda>(db1, _). Ok db1))"

section \<open>Syncing a remote address book\<close>

text \<open>
  A remote item is a contact row and its \<open>deleted\<close> flag, which no column stores. The
  counters are the added, updated and deleted items.
\<close>

type_synonym change_counts = "nat \<times> nat \<times> nat"

definition sync_contact ::
  "addr_parser \<Rightarrow> nat \<Rightarrow> string \<Rightarrow> contact_row \<times> bool \<Rightarrow> store \<times> change_counts \<Rightarrow> (store \<times> change_counts) res" where
  "sync_contact parse nid provider_name item s =
     (case (item, s) of ((new, deleted), (db, added, updated, removed)) \<Rightarrow>
        let new' = new\<lparr>ct_namespace_id := nid\<rparr> in
        if \<not> deleted \<and> (\<exists>c\<in>set (contacts db). ct_namespace_id c = nid \<and>
              ct_canonical c = canonical_opt parse (ct_raw_address new') \<and> ct_name c = ct_name new')
        then Ok s
        else case filter (\<lambda>c. ct_namespace_id c = nid \<and> ct_provider_name c = provider_name \<and>
                              ct_uid c = ct_uid new') (contacts db) of
               [existing] \<Rightarrow>
                 (if deleted
                  then Ok (db\<lparr>contacts := t_del ct_id (contacts db) (ct_id existing)\<rparr>, added, updated, Suc removed)
                  else Ok (db\<lparr>contacts := t_put ct_id (contacts db) (merge_from parse new' existing)\<rparr>,
                           added, Suc updated, removed))
             | [] \<Rightarrow>
                 Ok (db\<lparr>contacts := t_add (contacts db) (new'\<lparr>ct_id := t_next ct_id (contacts db)\<rparr>)\<rparr>,
                     Suc added, updated, removed)
             | _ \<Rightarrow> Raise MultipleResultsFound)"

definition sync_contacts ::
  "addr_parser \<Rightarrow> nat \<Rightarrow> string \<Rightarrow> (contact_row \<times> bool) list \<Rightarrow> store \<Rightarrow> (store \<times> change_counts) res" where
  "sync_contacts parse nid provider_name items db =
     res_fold (sync_contact parse nid provider_name) items (db, 0, 0, 0)"

section \<open>Lemmas\<close>

lemma set_email_keeps [simp]:
  "ct_id (set_email_address parse v c) = ct_id c"
  "ct_namespace_id (set_email_address parse v c) = ct_namespace_id c"
  "ct_uid (set_email_address parse v c) = ct_uid c"
  "ct_provider_name (set_email_address parse v c) = ct_provider_name c"
  "ct_name (set_email_address parse v c) = ct_name c"
  by (simp_all add: set_email_address_def Let_def)

lemma merge_from_keeps [simp]:
  "ct_id (merge_from parse n c) = ct_id c"
  "ct_namespace_id (merge_from parse n c) = ct_namespace_id c"
  "ct_uid (merge_from parse n c) = ct_uid c"
  "ct_provider_name (merge_from parse n c) = ct_provider_name c"
  by (simp_all add: merge_from_def Let_def)

text \<open>One row per remote uid: the key the sync looks rows up by.\<close>

definition uid_key :: "contact_row \<Rightarrow> nat \<times> string \<times> string" where
  "uid_key c = (ct_namespace_id c, ct_provider_name c, ct_uid c)"

definition contacts_inv :: "store \<Rightarrow> bool" where
  "contacts_inv db \<longleftrightarrow> t_inv ct_id (contacts db) \<and> distinct (map uid_key (contacts db))"

lemma uid_key_put:
  assumes "uid_key r = uid_key c" and "ct_id r = ct_id c" and "c \<in> set t" and "t_inv ct_id t"
  shows "map uid_key (t_put ct_id t r) = map uid_key t"
proof -
  have "uid_key x = uid_key r" if "x \<in> set t" and "ct_id x = ct_id r" for x
    using that assms by (auto simp: t_inv_def distinct_map dest: inj_onD)
  then show ?thesis by (simp add: t_put_def)
qed

lemma sync_contact_inv:
  assumes inv: "contacts_inv db" and prov: "ct_provider_name (fst item) = p"
    and step: "sync_contact parse nid p item (db, cnt) = Ok (db', cnt')"
  shows "contacts_inv db'"
proof -
  obtain new deleted where item: "item = (new, deleted)" by (cases item)
  obtain a u r where cnt: "cnt = (a, u, r)" by (cases cnt)
  let ?new = "new\<lparr>ct_namespace_id := nid\<rparr>"
  let ?same = "filter (\<lambda>c. ct_namespace_id c = nid \<and> ct_provider_name c = p \<and> ct_uid c = ct_uid new) (contacts db)"
  have eq: "sync_contact parse nid p item (db, cnt) =
    (if \<not> deleted \<and> (\<exists>c\<in>set (contacts db). ct_namespace_id c = nid \<and>
          ct_canonical c = canonical_opt parse (ct_raw_address new) \<and> ct_name c = ct_name new)
     then Ok (db, cnt)
     else case ?same of
         [e] \<Rightarrow> (if deleted then Ok (db\<lparr>contacts := t_del ct_id (contacts db) (ct_id e)\<rparr>, a, u, Suc r)
                 else Ok (db\<lparr>contacts := t_put ct_id (contacts db) (merge_from parse ?new e)\<rparr>, a, Suc u, r))
       | [] \<Rightarrow> Ok (db\<lparr>contacts := t_add (contacts db) (?new\<lparr>ct_id := t_next ct_id (contacts db)\<rparr>)\<rparr>, Suc a, u, r)
       | _ \<Rightarrow> Raise MultipleResultsFound)"
    by (simp add: sync_contact_def item cnt Let_def) blast
  have "db' = db \<or> (\<exists>e. ?same = [e] \<and> contacts db' = t_del ct_id (contacts db) (ct_id e))
    \<or> (\<exists>e. ?same = [e] \<and> contacts db' = t_put ct_id (contacts db) (merge_from parse ?new e))
    \<or> ?same = [] \<and> contacts db' = t_add (contacts db) (?new\<lparr>ct_id := t_next ct_id (contacts db)\<rparr>)"
    using step unfolding eq
    by (cases ?same; cases "tl ?same") (auto split: if_split_asm)
  then consider "db' = db"
    | e where "?same = [e]" "contacts db' = t_del ct_id (contacts db) (ct_id e)"
    | e where "?same = [e]" "contacts db' = t_put ct_id (contacts db) (merge_from parse ?new e)"
    | "?same = []" "contacts db' = t_add (contacts db) (?new\<lparr>ct_id := t_next ct_id (contacts db)\<rparr>)"
    by blast
  then show ?thesis
  proof cases
    case 1
    with inv show ?thesis by simp
  next
    case 2
    with inv show ?thesis
      by (auto simp: contacts_inv_def cons.inv_del) (simp add: t_del_def distinct_map_filter_upd)
  next
    case 3
    then have e: "e \<in> set (contacts db)" by (metis (mono_tags, lifting) filter_eq_ConsD in_set_conv_decomp)
    have "map uid_key (contacts db') = map uid_key (contacts db)"
      unfolding 3(2) using inv e
      by (intro uid_key_put [where c = e]) (auto simp: uid_key_def contacts_inv_def)
    with 3 inv show ?thesis by (simp add: contacts_inv_def cons.inv_put)
  next
    case 4
    let ?row = "?new\<lparr>ct_id := t_next ct_id (contacts db)\<rparr>"
    have "uid_key c \<noteq> uid_key ?row" if "c \<in> set (contacts db)" for c
      using that 4(1) prov item by (auto simp: uid_key_def filter_empty_conv)
    then have "uid_key ?row \<notin> uid_key ` set (contacts db)" by (metis imageE)
    then have "distinct (map uid_key (contacts db'))"
      using 4(2) inv by (simp add: contacts_inv_def t_add_def)
    moreover have "t_inv ct_id (contacts db')"
      using inv by (simp add: 4(2) contacts_inv_def cons.inv_add t_next_fresh)
    ultimately show ?thesis by (simp add: contacts_inv_def)
  qed
qed

end
