(* ===== verification/Crispin_Client.thy ===== *)
theory Crispin_Client
  imports Imap_Models Py_Util "HOL-Library.Multiset"
begin

text \<open>
  \<open>inbox/crispin.py\<close>, the client wrapper around one IMAP connection, and the folder name
  table of \<open>inbox/folder_edge_cases.py\<close>. What \<open>imapclient\<close> answers to a command is an
  argument of the operation that sends it. Bytes of a string literal are characters.
\<close>

section \<open>Folder roles\<close>

text \<open>A folder is its display name and, when known, its role.\<close>

type_synonym raw_folder = "string \<times> string option"

text \<open>
  Python joins adjacent literals: the entry before \<open>Elementos enviados\<close> has no comma.
\<close>

definition localized_folder_names :: "(string \<times> string list) list" where
  "localized_folder_names =
     [(''trash'',
       [''Gel'' @ [CHR 0xC3, CHR 0xB6] @ ''scht'', ''Papierkorb'',
        [CHR 0xD0, CHR 0x9A, CHR 0xD0, CHR 0xBE, CHR 0xD1, CHR 0x80, CHR 0xD0, CHR 0xB7, CHR 0xD0, CHR 0xB8,
         CHR 0xD0, CHR 0xBD, CHR 0xD0, CHR 0xB0],
        ''[Imap]/Trash'', ''Papelera'', ''Borradores'',
        ''[Imap]/'' @ [CHR 0xD0, CHR 0x9A, CHR 0xD0, CHR 0xBE, CHR 0xD1, CHR 0x80, CHR 0xD0, CHR 0xB7,
         CHR 0xD0, CHR 0xB8, CHR 0xD0, CHR 0xBD, CHR 0xD0, CHR 0xB0],
        ''Deleted Items'',
        [CHR 0xD0, CHR 0xA1, CHR 0xD0, CHR 0xBC, CHR 0xD1, CHR 0x96, CHR 0xD1, CHR 0x82, CHR 0xD1, CHR 0x82,
         CHR 0xD1, CHR 0x8F],
        ''Papierkorb/Trash'', ''Gel'' @ [CHR 0xC3, CHR 0xB6] @ ''schte Elemente'', ''Deleted Messages'',
        ''[Gmail]/Trash'', ''INBOX/Trash'', ''Trash'', ''mail/TRASH'', ''INBOX.Trash'',
        ''INBOX.'' @ [CHR 0xC9] @ ''l'' @ [CHR 0xE9] @ ''ments supprim'' @ [CHR 0xE9] @ ''s'',
        ''INBOX.INBOX.Trash'']),
      (''spam'',
       [''Roskaposti'', ''INBOX.spam'', ''INBOX.Spam'', ''Skr'' @ [CHR 0xC3, CHR 0xA4] @ ''ppost'',
        ''Spamverdacht'', ''spam'', ''Spam'', ''[Gmail]/Spam'', ''[Imap]/Spam'',
        [CHR 0xE5, CHR 0x9E, CHR 0x83, CHR 0xE5, CHR 0x9C, CHR 0xBE, CHR 0xE9, CHR 0x82, CHR 0xAE, CHR 0xE4,
         CHR 0xBB, CHR 0xB6],
        ''Junk'', ''Junk Mail'', ''Junk E-Mail'']),
      (''inbox'', [''INBOX'']),
      (''sent'',
       [''Postausgang'', ''INBOX.Gesendet'', ''[Gmail]/Sent Mail'',
        [CHR 0xEB, CHR 0xB3, CHR 0xB4, CHR 0xEB, CHR 0x82, CHR 0xBC, CHR 0xED, CHR 0x8E, CHR 0xB8, CHR 0xEC,
         CHR 0xA7, CHR 0x80, CHR 0xED, CHR 0x95, CHR 0xA8] @ ''Elementos enviados'',
        ''Sent'', ''Sent Items'', ''Sent Messages'', ''INBOX.Sent Messages'',
        ''Odeslan'' @ [CHR 0xC3, CHR 0xA9], ''mail/sent-mail'', ''Ko'' @ [CHR 0xC5, CHR 0xA1], ''INBOX.SentMail'',
        ''Gesendet'', ''Ko'' @ [CHR 0xC5, CHR 0xA1] @ ''/Sent Items'', ''Gesendete Elemente'',
        ''INBOX.'' @ [CHR 0xC9] @ ''l'' @ [CHR 0xE9] @ ''ments envoy'' @ [CHR 0xE9] @ ''s'', ''INBOX.INBOX.Sent'',
        ''Objets envoy'' @ [CHR 0xE9] @ ''s''])]"

definition guess_role :: "string \<Rightarrow> string option" where
  "guess_role folder = map_option fst (List.find (\<lambda>(role, names). folder \<in> set names) localized_folder_names)"

definition default_folder_map :: "string \<rightharpoonup> string" where
  "default_folder_map =
     [''inbox'' \<mapsto> ''inbox'', ''drafts'' \<mapsto> ''drafts'', ''draft'' \<mapsto> ''drafts'', ''junk'' \<mapsto> ''spam'',
      ''spam'' \<mapsto> ''spam'', ''archive'' \<mapsto> ''archive'', ''sent'' \<mapsto> ''sent'', ''sent items'' \<mapsto> ''sent'',
      ''trash'' \<mapsto> ''trash'']"

definition flag_map :: "string \<rightharpoonup> string" where
  "flag_map =
     [bs ''Trash'' \<mapsto> ''trash'', bs ''Sent'' \<mapsto> ''sent'', bs ''Drafts'' \<mapsto> ''drafts'', bs ''Junk'' \<mapsto> ''spam'',
      bs ''Inbox'' \<mapsto> ''inbox'', bs ''Spam'' \<mapsto> ''spam'']"

definition gmail_flag_map :: "string \<rightharpoonup> string" where
  "gmail_flag_map =
     [bs ''Drafts'' \<mapsto> ''drafts'', bs ''Important'' \<mapsto> ''important'', bs ''Sent'' \<mapsto> ''sent'',
      bs ''Junk'' \<mapsto> ''spam'', bs ''Flagged'' \<mapsto> ''starred'', bs ''Trash'' \<mapsto> ''trash'']"

fun first_mapped :: "(string \<rightharpoonup> string) \<Rightarrow> string list \<Rightarrow> string option" where
  "first_mapped f [] = None"
| "first_mapped f (x # xs) = (case f x of Some r \<Rightarrow> Some r | None \<Rightarrow> first_mapped f xs)"

text \<open>The provider's own mapping is consulted when the name is not a usual one.\<close>

definition process_folder :: "(string \<rightharpoonup> string) \<Rightarrow> string \<Rightarrow> string list \<Rightarrow> raw_folder" where
  "process_folder folder_map display_name flags =
     (let role = default_folder_map (py_lower display_name);
          role = (if truthy role then role else folder_map display_name);
          role = (if truthy role then role
                  else case first_mapped flag_map flags of Some r \<Rightarrow> Some r | None \<Rightarrow> role)
      in (display_name, role))"

definition gmail_process_folder :: "string \<Rightarrow> string list \<Rightarrow> raw_folder" where
  "gmail_process_folder display_name flags =
     (if bs ''All'' \<in> set flags then (display_name, Some ''all'')
      else if py_lower display_name = ''inbox'' then (''Inbox'', Some ''inbox'')
      else (display_name, first_mapped gmail_flag_map flags))"

definition get_missing_roles :: "raw_folder list \<Rightarrow> string list \<Rightarrow> string list res" where
  "get_missing_roles fs roles =
     (if fs = [] \<or> roles = [] then Raise AssertionError
      else Ok (filter (\<lambda>r. Some r \<notin> snd ` set fs) roles))"

definition system_role_names :: "string list" where
  "system_role_names = [''inbox'', ''sent'', ''trash'', ''spam'']"

definition selectable :: "string list \<Rightarrow> bool" where
  "selectable flags \<longleftrightarrow> bs ''Noselect'' \<notin> set flags \<and> bs ''NoSelect'' \<notin> set flags \<and> bs ''NonExistent'' \<notin> set flags"

text \<open>A missing role goes to the one folder whose name is known to have it, if it is one.\<close>

fun assign_roles :: "string option list \<Rightarrow> string list \<Rightarrow> raw_folder list \<Rightarrow> raw_folder list" where
  "assign_roles guessed [] fs = fs"
| "assign_roles guessed (role # roles) fs =
     assign_roles guessed roles
       (if count_list guessed (Some role) = 1
        then (let i = length (takeWhile (\<lambda>g. g \<noteq> Some role) guessed)
              in fs[i := (fst (fs ! i), Some role)])
        else fs)"

definition remote_folders ::
  "(string \<Rightarrow> string list \<Rightarrow> raw_folder) \<Rightarrow> (string list \<times> string \<times> string) list \<Rightarrow> raw_folder list res" where
  "remote_folders process listing =
     (let raw = map (\<lambda>(flags, _, name). process name flags) (filter (\<lambda>(flags, _). selectable flags) listing)
      in res_bind (get_missing_roles raw system_role_names)
           (\<lambda>missing. Ok (assign_roles (map (guess_role \<circ> fst) raw) missing raw)))"

section \<open>The client\<close>

text \<open>
  \<open>cr_folder_names\<close> is the cached mapping from role to folder names, in the order the
  roles were first seen; the role \<open>None\<close> holds the folders without one.
\<close>

record select_info =
  si_uidvalidity :: nat
  si_uidnext :: "nat option"

type_synonym role_names = "(string option \<times> string list) list"

record crispin =
  cr_account_id :: nat
  cr_gmail :: bool
  cr_folder_map :: "string \<rightharpoonup> string"
  cr_selected :: "(string \<times> select_info) option"
  cr_folder_names :: "role_names option"

fun add_name :: "string option \<Rightarrow> string \<Rightarrow> role_names \<Rightarrow> role_names" where
  "add_name role name [] = [(role, [name])]"
| "add_name role name ((r, names) # rest) =
     (if r = role then (r, names @ [name]) # rest else (r, names) # add_name role name rest)"

definition group_names :: "raw_folder list \<Rightarrow> role_names" where
  "group_names fs = fold (\<lambda>(name, role). add_name role name) fs []"

definition crispin_folders :: "crispin \<Rightarrow> (string list \<times> string \<times> string) list \<Rightarrow> raw_folder list res" where
  "crispin_folders cr listing =
     remote_folders (if cr_gmail cr then gmail_process_folder else process_folder (cr_folder_map cr)) listing"

text \<open>A folder list is the flags, the separator and the name of every folder.\<close>

type_synonym listing = "(string list \<times> string \<times> string) list"

text \<open>The cached mapping is emptied before the folders are fetched, and stays empty when this fails.\<close>

definition folder_names :: "bool \<Rightarrow> listing res \<Rightarrow> (crispin, role_names) st" where
  "folder_names force_resync listing cr =
     (case (force_resync, cr_folder_names cr) of
        (False, Some names) \<Rightarrow> (cr, Ok names)
      | _ \<Rightarrow>
          (case res_bind listing (crispin_folders cr) of
             Inl e \<Rightarrow> (cr\<lparr>cr_folder_names := Some []\<rparr>, Raise e)
           | Inr fs \<Rightarrow> (cr\<lparr>cr_folder_names := Some (group_names fs)\<rparr>, Ok (group_names fs))))"

text \<open>Reading a missing role of the mapping, which is a \<open>defaultdict\<close>, adds it with an empty list.\<close>

definition role_folders :: "string \<Rightarrow> role_names \<Rightarrow> (crispin, string list) st" where
  "role_folders role names cr =
     (case map_of names (Some role) of
        None \<Rightarrow> (cr\<lparr>cr_folder_names := Some (names @ [(Some role, [])])\<rparr>, Ok [])
      | Some ns \<Rightarrow> (cr, Ok ns))"

definition folders_with_role :: "string \<Rightarrow> listing res \<Rightarrow> (crispin, string list) st" where
  "folders_with_role role listing = st_bind (folder_names False listing) (role_folders role)"

definition set_names :: "string option \<Rightarrow> string list \<Rightarrow> role_names \<Rightarrow> role_names" where
  "set_names role names fns = map (\<lambda>(r, ns). if r = role then (r, names) else (r, ns)) fns"

text \<open>
  The list the generic client extends is the cached list of inbox names itself, so the
  cache then holds every folder under the role \<open>inbox\<close>.
\<close>

definition generic_sync_folders :: "listing res \<Rightarrow> (crispin, string list) st" where
  "generic_sync_folders listing =
     st_bind (folder_names False listing) (\<lambda>have_folders cr.
       case map_of have_folders (Some ''inbox'') of
         None \<Rightarrow> (cr, Raise AssertionError)
       | Some inbox \<Rightarrow>
           (let to_sync = inbox @ concat (map snd (filter (\<lambda>(role, _). role \<noteq> Some ''inbox'') have_folders))
            in (cr\<lparr>cr_folder_names := Some (set_names (Some ''inbox'') to_sync have_folders)\<rparr>, Ok to_sync)))"

fun first_of_each :: "string list list \<Rightarrow> string list res" where
  "first_of_each [] = Ok []"
| "first_of_each (ns # rest) =
     (case ns of [] \<Rightarrow> Raise IndexError | n # _ \<Rightarrow> res_bind (first_of_each rest) (\<lambda>r. Ok (n # r)))"

definition gmail_sync_folders :: "listing res \<Rightarrow> (crispin, string list) st" where
  "gmail_sync_folders listing =
     st_bind (folder_names False listing) (\<lambda>present.
       if map_of present (Some ''all'') = None then st_raise ValidationError
       else st_res (first_of_each (List.map_filter (\<lambda>role. map_of present (Some role)) [''all'', ''trash'', ''spam''])))"

fun imap4_message :: "exc \<Rightarrow> string option" where
  "imap4_message (Imap4Error msg) = Some msg"
| "imap4_message e = None"

definition folder_missing_message :: "string \<Rightarrow> bool" where
  "folder_missing_message msg \<longleftrightarrow>
     str_contains ''[NONEXISTENT] Unknown Mailbox:'' msg \<or> str_contains ''does not exist'' msg \<or>
     str_contains (''doesn'' @ [CHR 0x27] @ ''t exist'') msg"

type_synonym validity_cb = "nat \<Rightarrow> string \<Rightarrow> select_info \<Rightarrow> select_info res"

definition select_folder ::
  "select_info res \<Rightarrow> string \<Rightarrow> validity_cb \<Rightarrow> crispin \<Rightarrow> crispin \<times> select_info res" where
  "select_folder reply folder cb cr =
     (case reply of
        Inl e \<Rightarrow> (case imap4_message e of
                    Some msg \<Rightarrow> (cr, Raise (if folder_missing_message msg then FolderMissingError else e))
                  | None \<Rightarrow> (cr, Raise e))
      | Inr info \<Rightarrow>
          (cr\<lparr>cr_selected := Some (folder, info), cr_folder_names := None\<rparr>, cb (cr_account_id cr) folder info))"

definition select_folder_if_necessary ::
  "select_info res \<Rightarrow> string \<Rightarrow> validity_cb \<Rightarrow> crispin \<Rightarrow> crispin \<times> select_info res" where
  "select_folder_if_necessary reply folder cb cr =
     (case cr_selected cr of
        None \<Rightarrow> select_folder reply folder cb cr
      | Some (f, info) \<Rightarrow> if folder \<noteq> f then select_folder reply folder cb cr
                          else (cr, cb (cr_account_id cr) folder info))"

definition condstore_supported :: "string list \<Rightarrow> bool" where
  "condstore_supported capabilities \<longleftrightarrow> ''CONDSTORE'' \<in> set capabilities \<or> ''QRESYNC'' \<in> set capabilities"

section \<open>Fetching\<close>

definition search_uids :: "nat list res \<Rightarrow> nat list res" where
  "search_uids reply = res_bind reply (\<lambda>uids. Ok (sort uids))"

text \<open>The replies to \<open>SEARCH ALL\<close> and to the spelling Mail2World servers accept.\<close>

definition all_uids :: "nat list res \<Rightarrow> nat list res \<Rightarrow> nat list res" where
  "all_uids reply alternative =
     (case reply of
        Inr uids \<Rightarrow> Ok (sort uids)
      | Inl e \<Rightarrow> (case imap4_message e of
                    Some msg \<Rightarrow> if str_contains ''UID SEARCH wrong arguments passed'' msg
                                then search_uids alternative else Raise e
                  | None \<Rightarrow> Raise e))"

text \<open>
  One entry of a FETCH reply; an absent key is \<open>None\<close>. Each reply also has a sequence number.
\<close>

record fetch_data =
  fd_internaldate :: "datetime option"
  fd_flags :: "string list option"
  fd_body :: "string option option"
  fd_thrid :: "nat option"
  fd_msgid :: "nat option"
  fd_labels :: "string list option"
  fd_modseq :: "nat option"

definition seq_only :: "fetch_data \<Rightarrow> bool" where
  "seq_only d \<longleftrightarrow> fd_internaldate d = None \<and> fd_flags d = None \<and> fd_body d = None \<and> fd_thrid d = None \<and>
     fd_msgid d = None \<and> fd_labels d = None \<and> fd_modseq d = None"

record raw_imap =
  ri_uid :: nat
  ri_internaldate :: datetime
  ri_flags :: "string list"
  ri_body :: "string option"
  ri_thrid :: "nat option"
  ri_msgid :: "nat option"
  ri_labels :: "string list option"

type_synonym fetch_reply = "(nat \<times> fetch_data) list"

text \<open>A missing key of a reply raises.\<close>

definition need :: "'a option \<Rightarrow> 'a res" where
  "need x = (case x of Some v \<Rightarrow> Ok v | None \<Rightarrow> Raise KeyError)"

definition fetch_unavailable :: "exc \<Rightarrow> bool" where
  "fetch_unavailable e =
     (case imap4_message e of
        Some msg \<Rightarrow> str_contains ''[UNAVAILABLE] UID FETCH Server error while fetching messages'' msg
      | None \<Rightarrow> False)"

fun fetch_bodies :: "(nat \<Rightarrow> fetch_reply res) \<Rightarrow> nat list \<Rightarrow> fetch_reply \<Rightarrow> fetch_reply res" where
  "fetch_bodies fetch [] acc = Ok acc"
| "fetch_bodies fetch (uid # uids) acc =
     (case fetch uid of
        Inr d \<Rightarrow> fetch_bodies fetch uids (acc @ d)
      | Inl e \<Rightarrow> if fetch_unavailable e then fetch_bodies fetch uids acc else Raise e)"

definition generic_raw :: "nat \<Rightarrow> fetch_data \<Rightarrow> raw_imap res" where
  "generic_raw uid d =
     res_bind (need (fd_internaldate d)) (\<lambda>date. res_bind (need (fd_flags d)) (\<lambda>flags.
       res_bind (need (fd_body d)) (\<lambda>body.
         Ok \<lparr>ri_uid = uid, ri_internaldate = date, ri_flags = flags, ri_body = body, ri_thrid = None,
             ri_msgid = None, ri_labels = None\<rparr>)))"

definition gmail_raw :: "nat \<Rightarrow> fetch_data \<Rightarrow> raw_imap res" where
  "gmail_raw uid d =
     res_bind (need (fd_internaldate d)) (\<lambda>date. res_bind (need (fd_flags d)) (\<lambda>flags.
       res_bind (need (fd_body d)) (\<lambda>body. res_bind (need (fd_thrid d)) (\<lambda>thrid.
         res_bind (need (fd_msgid d)) (\<lambda>msgid. res_bind (need (fd_labels d)) (\<lambda>ls.
           Ok \<lparr>ri_uid = uid, ri_internaldate = date, ri_flags = flags, ri_body = body,
               ri_thrid = Some thrid, ri_msgid = Some msgid, ri_labels = Some ls\<rparr>))))))"

fun raw_messages ::
  "(nat \<Rightarrow> fetch_data \<Rightarrow> raw_imap res) \<Rightarrow> bool \<Rightarrow> nat set \<Rightarrow> (nat \<rightharpoonup> fetch_data) \<Rightarrow> nat list \<Rightarrow> raw_imap list res" where
  "raw_messages mk skip_seq wanted data [] = Ok []"
| "raw_messages mk skip_seq wanted data (uid # uids) =
     (case data uid of
        None \<Rightarrow> raw_messages mk skip_seq wanted data uids
      | Some d \<Rightarrow>
          if uid \<notin> wanted \<or> (skip_seq \<and> seq_only d) then raw_messages mk skip_seq wanted data uids
          else res_bind (mk uid d) (\<lambda>r. res_bind (raw_messages mk skip_seq wanted data uids) (\<lambda>rs. Ok (r # rs))))"

definition sorted_keys :: "(nat \<times> 'v) list \<Rightarrow> nat list" where
  "sorted_keys d = sort (remdups (map fst d))"

definition generic_uids :: "(nat \<Rightarrow> fetch_reply res) \<Rightarrow> nat list \<Rightarrow> raw_imap list res" where
  "generic_uids fetch uids =
     res_bind (fetch_bodies fetch (remdups uids) [])
       (\<lambda>d. raw_messages generic_raw True (set uids) (dict_of d) (sorted_keys d))"

definition gmail_uids :: "(nat list \<Rightarrow> fetch_reply res) \<Rightarrow> nat list \<Rightarrow> raw_imap list res" where
  "gmail_uids fetch uids =
     res_bind (fetch uids) (\<lambda>d. raw_messages gmail_raw False (set uids) (dict_of d) (sorted_keys d))"

text \<open>
  Flags: the sequence set sent, and the UIDs kept. A long generic list is asked for as a range.
\<close>

datatype seqset = SeqFrom nat | SeqUids "nat list"

definition flags_seqset :: "nat list \<Rightarrow> seqset" where
  "flags_seqset uids = (if length uids > 100 then SeqFrom (fold min uids (hd uids)) else SeqUids uids)"

type_synonym uid_flags = "nat \<times> (string list \<times> string list option)"

fun pick_flags :: "bool \<Rightarrow> nat set \<Rightarrow> fetch_reply \<Rightarrow> uid_flags list res" where
  "pick_flags gmail wanted [] = Ok []"
| "pick_flags gmail wanted ((uid, d) # rest) =
     (if uid \<notin> wanted then pick_flags gmail wanted rest
      else res_bind (need (fd_flags d)) (\<lambda>flags.
        res_bind (if gmail then res_bind (need (fd_labels d)) (\<lambda>ls. Ok (Some ls)) else Ok None) (\<lambda>ls.
          res_bind (pick_flags gmail wanted rest) (\<lambda>fs. Ok ((uid, flags, ls) # fs)))))"

definition crispin_flags :: "bool \<Rightarrow> (seqset \<Rightarrow> fetch_reply res) \<Rightarrow> nat list \<Rightarrow> uid_flags list res" where
  "crispin_flags gmail fetch uids =
     res_bind (fetch (if gmail then SeqUids uids else flags_seqset uids)) (pick_flags gmail (set uids))"

text \<open>Changed flags, each with the MODSEQ it was changed at.\<close>

type_synonym changed_flags = "nat \<times> nat option \<times> string list \<times> string list option"

fun generic_changed_flags :: "fetch_reply \<Rightarrow> changed_flags list res" where
  "generic_changed_flags [] = Ok []"
| "generic_changed_flags ((uid, d) # rest) =
     res_bind (need (fd_flags d)) (\<lambda>flags.
       res_bind (generic_changed_flags rest) (\<lambda>fs. Ok ((uid, fd_modseq d, flags, None) # fs)))"

fun gmail_changed_flags :: "(nat \<Rightarrow> fetch_reply res) \<Rightarrow> fetch_reply \<Rightarrow> changed_flags list res" where
  "gmail_changed_flags fetch [] = Ok []"
| "gmail_changed_flags fetch ((uid, d) # rest) =
     res_bind (if fd_flags d = None \<or> fd_labels d = None
               then res_bind (fetch uid) (\<lambda>data.
                      if data = [] then Ok None else res_bind (need (dict_of data uid)) (\<lambda>d'. Ok (Some d')))
               else Ok (Some d)) (\<lambda>found.
       case found of
         None \<Rightarrow> gmail_changed_flags fetch rest
       | Some d' \<Rightarrow>
           res_bind (need (fd_flags d')) (\<lambda>flags. res_bind (need (fd_labels d')) (\<lambda>ls.
             res_bind (need (fd_modseq d')) (\<lambda>modseq.
               res_bind (gmail_changed_flags fetch rest) (\<lambda>fs. Ok ((uid, Some modseq, flags, Some ls) # fs))))))"

section \<open>Deleting messages\<close>

text \<open>The commands sent to the server, in order.\<close>

datatype imap_cmd =
    CmdSelect string
  | CmdRemoveFlags "nat list" "string list"
  | CmdRemoveLabels "nat list" "string list"
  | CmdCopy "nat list" string
  | CmdDelete "nat list"
  | CmdExpunge

text \<open>
  The UIDs whose header has the value. The headers are fetched in chunks of 100; \<open>header\<close>
  is the standard library's header parser.
\<close>

fun fetch_headers :: "(nat list \<Rightarrow> (nat \<times> string) list res) \<Rightarrow> nat list list \<Rightarrow> (nat \<times> string) list res" where
  "fetch_headers fetch [] = Ok []"
| "fetch_headers fetch (c # cs) =
     res_bind (fetch c) (\<lambda>d. res_bind (fetch_headers fetch cs) (\<lambda>ds. Ok (d @ ds)))"

definition find_by_header ::
  "nat list res \<Rightarrow> nat list res \<Rightarrow> (nat list \<Rightarrow> (nat \<times> string) list res) \<Rightarrow> (string \<Rightarrow> string \<Rightarrow> string option)
     \<Rightarrow> string \<Rightarrow> string \<Rightarrow> nat list res" where
  "find_by_header reply alternative fetch header name value =
     res_bind (all_uids reply alternative) (\<lambda>uids. res_bind (fetch_headers fetch (chunk 100 uids)) (\<lambda>ds.
       Ok (filter (\<lambda>uid. \<exists>h. dict_of ds uid = Some h \<and> header h name = Some value) (remdups (map fst ds)))))"

definition delete_message :: "nat list \<Rightarrow> bool \<Rightarrow> imap_cmd list \<times> bool" where
  "delete_message matching_uids delete_multiple =
     (if matching_uids = [] then ([], False)
      else if length matching_uids > 1 \<and> \<not> delete_multiple then ([], False)
      else ([CmdDelete matching_uids, CmdExpunge], True))"

text \<open>
  Deleting from the folder of a role and then from the trash, for drafts (\<open>multiple\<close>
  false) and sent messages. \<open>find\<close> gives the matching UIDs of the folder selected.
\<close>

definition delete_from_role ::
  "role_names \<Rightarrow> string \<Rightarrow> (string \<Rightarrow> nat list) \<Rightarrow> bool \<Rightarrow> imap_cmd list \<times> bool res" where
  "delete_from_role names role finder multiple =
     (case map_of names (Some role) of
        Some (folder # _) \<Rightarrow>
          (let (cmds, deleted) = delete_message (finder folder) multiple
           in if \<not> deleted then (CmdSelect folder # cmds, Ok False)
              else (case map_of names (Some ''trash'') of
                      Some (trash # _) \<Rightarrow>
                        (CmdSelect folder # cmds @ CmdSelect trash # fst (delete_message (finder trash) multiple), Ok True)
                    | _ \<Rightarrow> (CmdSelect folder # cmds, Raise IndexError)))
      | _ \<Rightarrow> ([], Raise IndexError))"

text \<open>
  Gmail drafts: \<open>find\<close> the UIDs of a folder by header, \<open>msgids\<close> the Gmail message ids of
  UIDs of a folder, \<open>uids_of\<close> the UIDs in the trash with a message id.
\<close>

definition gmail_delete_draft ::
  "role_names \<Rightarrow> (string \<Rightarrow> nat list) \<Rightarrow> (string \<Rightarrow> nat list \<Rightarrow> nat list) \<Rightarrow> (nat \<Rightarrow> nat list)
     \<Rightarrow> imap_cmd list \<times> bool res" where
  "gmail_delete_draft names finder msgids uids_of =
     (case (map_of names (Some ''drafts''), map_of names (Some ''trash''), map_of names (Some ''sent'')) of
        (Some (drafts # _), Some (trash # _), Some (sent # _)) \<Rightarrow>
          (let sent_ids = msgids sent (finder sent); cmds1 = [CmdSelect sent];
               uids = finder drafts; cmds2 = cmds1 @ [CmdSelect drafts]
           in if finder sent = [] \<or> length sent_ids \<noteq> 1 then (cmds1, Raise OtherException)
              else if uids = [] then (cmds2, Ok False)
              else (let cmds3 = cmds2 @ [CmdRemoveFlags uids [bs ''Draft''], CmdRemoveLabels uids [bs ''Draft'']];
                        ids = msgids drafts uids
                    in if hd sent_ids \<in> set ids then (cmds3, Raise OtherException)
                       else (cmds3 @ [CmdCopy uids trash, CmdSelect trash] @
                             map (\<lambda>i. CmdDelete (rev (sort (uids_of i)))) ids @ [CmdExpunge], Ok True)))
      | _ \<Rightarrow> ([], Raise IndexError))"

definition gmail_delete_sent ::
  "role_names \<Rightarrow> (string \<Rightarrow> nat list) \<Rightarrow> bool \<Rightarrow> imap_cmd list \<times> bool res" where
  "gmail_delete_sent names finder multiple =
     (case (map_of names (Some ''sent''), map_of names (Some ''trash'')) of
        (Some (sent # _), Some (trash # _)) \<Rightarrow>
          (let uids = finder sent
           in if uids = [] then ([CmdSelect sent], Ok False)
              else ([CmdSelect sent, CmdCopy uids trash, CmdSelect trash] @
                    fst (delete_message (finder trash) multiple), Ok True))
      | _ \<Rightarrow> ([], Raise IndexError))"

section \<open>Lemmas\<close>

lemma add_name_mset: "mset (concat (map snd (add_name role name fns))) = add_mset name (mset (concat (map snd fns)))"
  by (induction role name fns rule: add_name.induct) auto

lemma add_name_roles: "set (map fst (add_name role name fns)) = insert role (set (map fst fns))"
  by (induction role name fns rule: add_name.induct) auto

lemma add_name_distinct: "distinct (map fst fns) \<Longrightarrow> distinct (map fst (add_name role name fns))"
proof (induction role name fns rule: add_name.induct)
  case (2 role name r names rest)
  then show ?case using add_name_roles [of role name rest] by auto
qed simp

lemma add_name_lookup:
  "map_of (add_name role name fns) r =
     (if r = role then Some ((case map_of fns role of None \<Rightarrow> [] | Some ns \<Rightarrow> ns) @ [name]) else map_of fns r)"
  by (induction role name fns rule: add_name.induct) auto

lemma group_names_rev: "group_names (fs @ [f]) = add_name (snd f) (fst f) (group_names fs)"
  by (cases f) (simp add: group_names_def)

lemma group_names_mset: "mset (concat (map snd (group_names fs))) = mset (map fst fs)"
proof (induction fs rule: rev_induct)
  case Nil
  then show ?case by (simp add: group_names_def)
next
  case (snoc f fs)
  then show ?case by (simp add: group_names_rev add_name_mset)
qed

lemma group_names_distinct: "distinct (map fst (group_names fs))"
  by (induction fs rule: rev_induct)
    (simp_all add: group_names_rev add_name_distinct, simp add: group_names_def)

lemma group_names_lookup:
  "map_of (group_names fs) r =
     (let ns = map fst (filter (\<lambda>f. snd f = r) fs) in if ns = [] then None else Some ns)"
proof (induction fs rule: rev_induct)
  case Nil
  then show ?case by (simp add: group_names_def)
next
  case (snoc f fs)
  then show ?case by (auto simp: group_names_rev add_name_lookup Let_def)
qed

text \<open>Splitting one key off a list with distinct keys.\<close>

lemma mset_split_key:
  "distinct (map fst fns) \<Longrightarrow> map_of fns k = Some v \<Longrightarrow>
   mset (concat (map snd fns)) = mset v + mset (concat (map snd (filter (\<lambda>(r, _). r \<noteq> k) fns)))"
proof (induction fns)
  case (Cons x fns)
  obtain r ns where x: "x = (r, ns)" by (cases x)
  show ?case
  proof (cases "r = k")
    case True
    with Cons.prems x have "filter (\<lambda>(r, _). r \<noteq> k) fns = fns"
      by (auto simp: filter_id_conv rev_image_eqI)
    with True Cons.prems x show ?thesis by simp
  next
    case False
    with Cons.prems x have "map_of fns k = Some v" by simp
    with Cons x False show ?thesis by simp
  qed
qed simp

lemma generic_sync_folders_shape:
  assumes "cr_folder_names cr = None" and "crispin_folders cr listing = Ok fs"
    and "generic_sync_folders (Ok listing) cr = (cr', Ok to_sync)"
  obtains inbox where "map_of (group_names fs) (Some ''inbox'') = Some inbox"
    and "to_sync = inbox @ concat (map snd (filter (\<lambda>(role, _). role \<noteq> Some ''inbox'') (group_names fs)))"
    and "cr' = cr\<lparr>cr_folder_names := Some (set_names (Some ''inbox'') to_sync (group_names fs))\<rparr>"
proof -
  have names: "folder_names False (Ok listing) cr =
      (cr\<lparr>cr_folder_names := Some (group_names fs)\<rparr>, Ok (group_names fs))"
    using assms(1,2) by (simp add: folder_names_def)
  show ?thesis
  proof (cases "map_of (group_names fs) (Some ''inbox'')")
    case None
    with names assms(3) show ?thesis by (simp add: generic_sync_folders_def st_bind_def)
  next
    case (Some inbox)
    with names assms(3) show ?thesis by (intro that [of inbox]) (auto simp: generic_sync_folders_def st_bind_def Let_def)
  qed
qed

lemma generic_sync_folders_fresh:
  assumes "cr_folder_names cr = None" and "crispin_folders cr listing = Ok fs"
    and "generic_sync_folders (Ok listing) cr = (cr', Ok to_sync)"
  shows "mset to_sync = mset (map fst fs)"
    and "take (length (filter (\<lambda>f. snd f = Some ''inbox'') fs)) to_sync =
         map fst (filter (\<lambda>f. snd f = Some ''inbox'') fs)"
proof -
  obtain inbox where inbox: "map_of (group_names fs) (Some ''inbox'') = Some inbox"
    and to_sync: "to_sync = inbox @ concat (map snd (filter (\<lambda>(role, _). role \<noteq> Some ''inbox'') (group_names fs)))"
    using assms by (rule generic_sync_folders_shape)
  show "mset to_sync = mset (map fst fs)"
    unfolding to_sync mset_append mset_split_key [OF group_names_distinct inbox, symmetric]
    by (rule group_names_mset)
  from inbox have "inbox = map fst (filter (\<lambda>f. snd f = Some ''inbox'') fs)"
    by (simp add: group_names_lookup Let_def split: if_split_asm)
  then show "take (length (filter (\<lambda>f. snd f = Some ''inbox'') fs)) to_sync =
      map fst (filter (\<lambda>f. snd f = Some ''inbox'') fs)"
    by (simp add: to_sync)
qed

lemma raw_messages_uids:
  assumes "\<And>uid d r. mk uid d = Ok r \<Longrightarrow> ri_uid r = uid"
  shows "raw_messages mk skip wanted data uids = Ok rs \<Longrightarrow>
    map ri_uid rs = filter (\<lambda>u. \<exists>d. data u = Some d \<and> u \<in> wanted \<and> \<not> (skip \<and> seq_only d)) uids"
proof (induction uids arbitrary: rs)
  case (Cons uid uids)
  show ?case
  proof (cases "\<exists>d. data uid = Some d \<and> uid \<in> wanted \<and> \<not> (skip \<and> seq_only d)")
    case True
    then obtain d where d: "data uid = Some d" "uid \<in> wanted" "\<not> (skip \<and> seq_only d)" by blast
    with Cons.prems obtain r rs' where "mk uid d = Ok r" "raw_messages mk skip wanted data uids = Ok rs'"
      "rs = r # rs'" by (auto simp: res_simps)
    with True Cons.IH assms show ?thesis by simp
  next
    case False
    with Cons.prems have "raw_messages mk skip wanted data uids = Ok rs"
      by (auto split: option.splits if_splits)
    with Cons.IH False show ?thesis by simp
  qed
qed simp

lemma generic_raw_uid: "generic_raw uid d = Ok r \<Longrightarrow> ri_uid r = uid"
  by (auto simp: generic_raw_def res_simps)

lemma gmail_raw_uid: "gmail_raw uid d = Ok r \<Longrightarrow> ri_uid r = uid"
  by (auto simp: gmail_raw_def res_simps)

lemma sorted_keys: "sorted (sorted_keys d)" "distinct (sorted_keys d)" "set (sorted_keys d) = fst ` set d"
  by (simp_all add: sorted_keys_def)

lemma sorted_filter_strict:
  "sorted xs \<Longrightarrow> distinct xs \<Longrightarrow> sorted_wrt (<) (filter P xs)" for xs :: "nat list"
  by (simp add: strict_sorted_iff sorted_wrt_filter)

lemma generic_uids_ordered:
  assumes "generic_uids fetch uids = Ok rs"
  shows "sorted_wrt (<) (map ri_uid rs)" and "set (map ri_uid rs) \<subseteq> set uids"
proof -
  from assms obtain d where "raw_messages generic_raw True (set uids) (dict_of d) (sorted_keys d) = Ok rs"
    by (auto simp: generic_uids_def res_simps)
  then have rs: "map ri_uid rs =
      filter (\<lambda>u. \<exists>x. dict_of d u = Some x \<and> u \<in> set uids \<and> \<not> (True \<and> seq_only x)) (sorted_keys d)"
    using raw_messages_uids [of generic_raw, OF generic_raw_uid] by simp
  show "sorted_wrt (<) (map ri_uid rs)" unfolding rs by (rule sorted_filter_strict) (simp_all add: sorted_keys)
  show "set (map ri_uid rs) \<subseteq> set uids" unfolding rs by auto
qed

lemma delete_message_cmds:
  "delete_message uids multiple = (cmds, deleted) \<Longrightarrow> CmdDelete ds \<in> set cmds \<Longrightarrow>
    ds = uids \<and> deleted \<and> uids \<noteq> [] \<and> (length uids = 1 \<or> multiple)"
  by (auto simp: delete_message_def split: if_split_asm) (cases uids; auto)

text \<open>What an operation on a draft may do to the mailbox beyond selecting folders.\<close>

fun destructive :: "imap_cmd \<Rightarrow> bool" where
  "destructive (CmdCopy uids folder) = True"
| "destructive (CmdDelete uids) = True"
| "destructive CmdExpunge = True"
| "destructive cmd = False"

lemma gmail_delete_draft_guard:
  assumes run: "gmail_delete_draft names finder msgids uids_of = (cmds, r)"
    and c: "c \<in> set cmds" "destructive c"
  shows "r = Ok True \<and> (\<exists>drafts sent i. finder sent \<noteq> [] \<and> msgids sent (finder sent) = [i] \<and>
           finder drafts \<noteq> [] \<and> i \<notin> set (msgids drafts (finder drafts)))"
proof -
  from run c obtain drafts ds trash ts sent ss where roles:
    "map_of names (Some ''drafts'') = Some (drafts # ds)" "map_of names (Some ''trash'') = Some (trash # ts)"
    "map_of names (Some ''sent'') = Some (sent # ss)"
    by (auto simp: gmail_delete_draft_def split: option.splits list.splits)
  note run' = run [unfolded gmail_delete_draft_def roles option.case list.case prod.case Let_def]
  have some: "finder sent \<noteq> [] \<and> length (msgids sent (finder sent)) = 1 \<and> finder drafts \<noteq> [] \<and>
      hd (msgids sent (finder sent)) \<notin> set (msgids drafts (finder drafts)) \<and> r = Ok True"
    using run' c by (auto split: if_split_asm)
  then obtain i where "msgids sent (finder sent) = [i]" by (cases "msgids sent (finder sent)") auto
  with some show ?thesis by auto
qed

end
