(* ===== verification/Mail_Threading.thy ===== *)
theory Mail_Threading
  imports Imap_Models
begin

text \<open>
  Threads: the derived attributes of \<open>inbox/models/thread.py\<close>, the choice of the thread
  a message belongs to (\<open>inbox/util/threading.py\<close>, and for Gmail the thread functions of
  \<open>inbox/models/backends/imap.py\<close>), and \<open>add_message_to_thread\<close> of the folder sync
  engine.
\<close>

definition MAX_THREAD_LENGTH :: nat where
  "MAX_THREAD_LENGTH = 500"

section \<open>Thread attributes\<close>

definition set_thread_subject :: "string option \<Rightarrow> thread_row \<Rightarrow> thread_row" where
  "set_thread_subject s th = th\<lparr>th_subject := s, th_cleaned_subject := cleanup_subject s\<rparr>"

text \<open>The validator that runs when a message joins \<open>Thread.messages\<close>.\<close>

definition update_from_message :: "message_row \<Rightarrow> thread_row \<Rightarrow> thread_row" where
  "update_from_message m th =
     (if m_is_draft m then th
      else let th1 = (if th_recentdate th < m_received_date m
                      then th\<lparr>th_recentdate := m_received_date m, th_snippet := m_snippet m\<rparr> else th)
           in if m_received_date m < th_subjectdate th1
              then (set_thread_subject (m_subject m) th1)\<lparr>th_subjectdate := m_received_date m\<rparr>
              else th1)"

definition category_name :: "store \<Rightarrow> nat option \<Rightarrow> string option" where
  "category_name db c = (case c of None \<Rightarrow> None | Some i \<Rightarrow> map_option cat_name (t_get cat_id (categories db) i))"

text \<open>
  The fold keeps the first message that qualifies, and then every later one with a newer
  date. \<open>not received_recent_date\<close> is only true of \<open>None\<close>: a datetime is never falsy.
\<close>

fun most_recent :: "datetime option \<Rightarrow> datetime list \<Rightarrow> datetime option" where
  "most_recent d [] = d"
| "most_recent d (x # xs) =
     most_recent (case d of None \<Rightarrow> Some x | Some y \<Rightarrow> if y < x then Some x else Some y) xs"

definition most_recent_received_date :: "store \<Rightarrow> message_row list \<Rightarrow> datetime option" where
  "most_recent_received_date db ms =
     (let received = filter (\<lambda>m. (\<forall>c\<in>set (m_categories m). c \<noteq> None \<longrightarrow> category_name db c \<noteq> Some ''sent'') \<and>
                                \<not> m_is_draft m \<and> \<not> m_is_sent m) ms
      in case most_recent None (map m_received_date received) of
           Some d \<Rightarrow> Some d
         | None \<Rightarrow> (let sorted_messages = sort_key m_received_date ms
                    in if sorted_messages = [] then None else Some (m_received_date (last sorted_messages))))"

text \<open>
  \<open>sorted(..., reverse=True)\<close> keeps the order of equal keys. A message with a null
  category raises \<open>AttributeError\<close> here.
\<close>

definition sort_desc :: "('a \<Rightarrow> datetime) \<Rightarrow> 'a list \<Rightarrow> 'a list" where
  "sort_desc f xs = sort_key (\<lambda>x. - f x) xs"

fun sent_date_from :: "store \<Rightarrow> message_row list \<Rightarrow> datetime option res" where
  "sent_date_from db [] = Ok None"
| "sent_date_from db (m # ms) =
     (if None \<in> set (m_categories m) then Raise AttributeError
      else if Some ''sent'' \<in> category_name db ` set (m_categories m) \<or> (m_is_draft m \<and> m_is_sent m)
           then Ok (Some (m_received_date m))
           else sent_date_from db ms)"

definition most_recent_sent_date :: "store \<Rightarrow> message_row list \<Rightarrow> datetime option res" where
  "most_recent_sent_date db ms = sent_date_from db (sort_desc m_received_date ms)"

definition thread_unread :: "message_row list \<Rightarrow> bool" where
  "thread_unread ms \<longleftrightarrow> \<not> (\<forall>m\<in>set (filter (\<lambda>m. \<not> m_is_draft m) ms). m_is_read m)"

definition thread_starred :: "message_row list \<Rightarrow> bool" where
  "thread_starred ms \<longleftrightarrow> (\<exists>m\<in>set (filter (\<lambda>m. \<not> m_is_draft m) ms). m_is_starred m)"

definition thread_drafts :: "message_row list \<Rightarrow> message_row list" where
  "thread_drafts ms = filter m_is_draft ms"

definition thread_categories :: "message_row list \<Rightarrow> nat option set" where
  "thread_categories ms = \<Union> (set (map (set \<circ> m_categories) ms))"

text \<open>
  The phrases seen for an address; the empty phrase is dropped when there is another.
\<close>

definition dedupe_participants :: "address list \<Rightarrow> address list" where
  "dedupe_participants as =
     concat (map (\<lambda>a. let phrases = remdups (map (py_strip \<circ> fst) (filter (\<lambda>x. snd x = a) as))
                      in map (\<lambda>p. (p, a)) (filter (\<lambda>p. p \<noteq> [] \<or> length phrases = 1) phrases))
                 (remdups (map snd as)))"

definition message_participants :: "message_row \<Rightarrow> address list" where
  "message_participants m = dedupe_participants (m_from m @ m_to m @ m_cc m @ m_bcc m)"

definition thread_participants :: "message_row list \<Rightarrow> address list" where
  "thread_participants ms =
     dedupe_participants (concat (map (\<lambda>m. m_from m @ m_to m @ m_cc m @ m_bcc m)
                                      (filter (\<lambda>m. \<not> m_is_draft m) ms)))"

section \<open>The thread of a message\<close>

text \<open>
  An address field is loaded from a JSON column, so each of its entries is a Python list;
  \<open>participants\<close> yields tuples. A tuple never equals a list.
\<close>

datatype py_pair = PyTuple string string | PyList string string

definition participant_emails :: "message_row \<Rightarrow> string set" where
  "participant_emails m =
     set (map (\<lambda>(p, a). py_lower a)
       (filter (\<lambda>(p, a). PyTuple p a \<notin> set (map (\<lambda>(q, b). PyList q b) (m_bcc m)))
         (message_participants m)))"

text \<open>What one turn of the inner loop does: go on, leave the inner loop, or return.\<close>

datatype 'a loop = Continue | Break | Return 'a

definition match_step :: "nat \<Rightarrow> thread_row \<Rightarrow> message_row \<Rightarrow> message_row \<Rightarrow> thread_row option loop" where
  "match_step thread_len thread msg mtch =
     (if 2 \<le> card (participant_emails mtch \<inter> participant_emails msg)
      then (if MAX_THREAD_LENGTH \<le> thread_len then Break else Return (Some thread))
      else if m_from msg = [] \<or> m_to msg = [] then Return None
      else let match_from = map snd (m_from mtch);
               match_to = map snd (m_from mtch);
               message_from = map snd (m_from msg);
               message_to = map snd (m_to msg)
           in if length message_to = 1 \<and> message_from = message_to \<and>
                 match_from = match_to \<and> message_to = match_from
              then (if MAX_THREAD_LENGTH \<le> thread_len then Break else Return (Some thread))
              else Continue)"

fun match_messages :: "nat \<Rightarrow> thread_row \<Rightarrow> message_row \<Rightarrow> message_row list \<Rightarrow> thread_row option loop" where
  "match_messages n thread msg [] = Continue"
| "match_messages n thread msg (x # xs) =
     (case match_step n thread msg x of
        Continue \<Rightarrow> match_messages n thread msg xs
      | Break \<Rightarrow> Continue
      | Return r \<Rightarrow> Return r)"

fun match_threads :: "store \<Rightarrow> message_row \<Rightarrow> thread_row list \<Rightarrow> thread_row option" where
  "match_threads db msg [] = None"
| "match_threads db msg (th # ths) =
     (let ms = thread_messages db (th_id th)
      in case match_messages (length ms) th msg ms of
           Return r \<Rightarrow> r
         | _ \<Rightarrow> match_threads db msg ths)"

definition fetch_corresponding_thread :: "store \<Rightarrow> nat \<Rightarrow> message_row \<Rightarrow> thread_row option" where
  "fetch_corresponding_thread db nid msg =
     (let clean_subject = cleanup_subject (m_subject msg);
          ths = rev (sort_key th_id (filter (\<lambda>th. th_namespace_id th = nid \<and>
                                                  th_cleaned_subject th = clean_subject) (threads db)))
      in match_threads db msg ths)"

section \<open>New threads\<close>

definition new_thread :: "store \<Rightarrow> nat \<Rightarrow> string option \<Rightarrow> nat option \<Rightarrow> message_row \<Rightarrow> thread_row" where
  "new_thread db nid subject g_thrid m =
     \<lparr>th_id = t_next th_id (threads db), th_namespace_id = nid, th_subject = subject,
      th_cleaned_subject = cleanup_subject subject, th_subjectdate = m_received_date m,
      th_recentdate = m_received_date m, th_snippet = m_snippet m, th_version = 0,
      th_deleted_at = None, th_g_thrid = g_thrid\<rparr>"

text \<open>An existing thread, or a new one that is not in the store yet.\<close>

datatype thread_choice = Existing thread_row | Fresh thread_row

definition from_imap_message :: "store \<Rightarrow> nat \<Rightarrow> message_row \<Rightarrow> thread_choice" where
  "from_imap_message db nid m =
     (case message_thread db m of
        Some th \<Rightarrow> Existing th
      | None \<Rightarrow> Fresh (new_thread db nid (Some (cleanup_subject (m_subject m))) None m))"

fun thread_with_header :: "store \<Rightarrow> string \<Rightarrow> thread_row list \<Rightarrow> thread_row option" where
  "thread_with_header db h [] = None"
| "thread_with_header db h (th # ths) =
     (if Some h \<in> set (map m_message_id_header (thread_messages db (th_id th)))
      then Some th else thread_with_header db h ths)"

definition choose_existing_thread_for_gmail :: "store \<Rightarrow> message_row \<Rightarrow> thread_row option" where
  "choose_existing_thread_for_gmail db m =
     (let prior_threads = sort_desc th_recentdate
            (filter (\<lambda>th. th_g_thrid th = m_g_thrid m \<and> th_namespace_id th = m_namespace_id m) (threads db))
      in case prior_threads of
           [] \<Rightarrow> None
         | [th] \<Rightarrow> Some th
         | th # _ \<Rightarrow>
             (if \<not> truthy (m_in_reply_to m) then Some th
              else case thread_with_header db (the (m_in_reply_to m)) prior_threads of
                     Some th' \<Rightarrow> Some th'
                   | None \<Rightarrow> Some th))"

text \<open>
  Without a thread and without an X-GM-THRID the local variable is never assigned, and
  Python raises \<open>UnboundLocalError\<close>, here \<open>OtherException\<close>.
\<close>

definition from_gmail_message :: "store \<Rightarrow> nat \<Rightarrow> message_row \<Rightarrow> thread_choice res" where
  "from_gmail_message db nid m =
     (case message_thread db m of
        Some th \<Rightarrow> Ok (Existing (th\<lparr>th_g_thrid := m_g_thrid m\<rparr>))
      | None \<Rightarrow>
          (case m_g_thrid m of
             None \<Rightarrow> Raise OtherException
           | Some g \<Rightarrow>
               (case choose_existing_thread_for_gmail db m of
                  Some th \<Rightarrow> Ok (Existing th)
                | None \<Rightarrow> Ok (Fresh (new_thread db nid (m_subject m) (Some g) m)))))"

section \<open>Adding a message to its thread\<close>

definition count_thread_messages :: "store \<Rightarrow> nat \<Rightarrow> nat" where
  "count_thread_messages db tid = length (filter (\<lambda>m. m_thread_id m = Some tid) (messages db))"

text \<open>
  \<open>message.thread = value\<close>: the setter revives the thread the message already had, and a
  new thread enters the session with the message.
\<close>

definition set_message_thread :: "store \<Rightarrow> message_row \<Rightarrow> thread_choice \<Rightarrow> store" where
  "set_message_thread db m choice =
     (let db1 = (case message_thread db m of
                   None \<Rightarrow> db
                 | Some old \<Rightarrow> db\<lparr>threads := t_put th_id (threads db) (old\<lparr>th_deleted_at := None\<rparr>)\<rparr>)
      in case choice of
           Existing th \<Rightarrow> db1\<lparr>messages := t_put m_id (messages db1) (m\<lparr>m_thread_id := Some (th_id th)\<rparr>)\<rparr>
         | Fresh th \<Rightarrow> db1\<lparr>threads := t_add (threads db1) th,
                           messages := t_put m_id (messages db1) (m\<lparr>m_thread_id := Some (th_id th)\<rparr>)\<rparr>)"

definition append_to_thread :: "store \<Rightarrow> message_row \<Rightarrow> thread_row \<Rightarrow> store" where
  "append_to_thread db m th =
     db\<lparr>threads := t_put th_id (threads db) (update_from_message m th),
        messages := t_put m_id (messages db) (m\<lparr>m_thread_id := Some (th_id th)\<rparr>)\<rparr>"

definition add_message_to_thread :: "store \<Rightarrow> nat \<Rightarrow> message_row \<Rightarrow> store" where
  "add_message_to_thread db nid m =
     (case fetch_corresponding_thread db nid m of
        None \<Rightarrow> set_message_thread db m (from_imap_message db nid m)
      | Some parent \<Rightarrow>
          (if count_thread_messages db (th_id parent) < MAX_THREAD_LENGTH
           then append_to_thread db m parent
           else set_message_thread db m (from_imap_message db nid m)))"

section \<open>Participants\<close>

lemma phrase_kept:
  assumes "ps \<noteq> []" and "distinct ps"
  shows "filter (\<lambda>p. p \<noteq> [] \<or> length ps = 1) ps \<noteq> []"
proof (cases "\<exists>p\<in>set ps. p \<noteq> []")
  case True
  then show ?thesis by (auto simp: filter_empty_conv)
next
  case False
  with assms have "ps = [[]]" by (cases ps; cases "tl ps") auto
  then show ?thesis by simp
qed

lemma dedupe_participants_addresses: "snd ` set (dedupe_participants as) = snd ` set as"
proof -
  define ps where "ps a = remdups (map (py_strip \<circ> fst) (filter (\<lambda>x. snd x = a) as))" for a
  have kept: "filter (\<lambda>p. p \<noteq> [] \<or> length (ps a) = 1) (ps a) \<noteq> []" if "a \<in> snd ` set as" for a
  proof (rule phrase_kept)
    show "ps a \<noteq> []" using that by (auto simp: ps_def filter_empty_conv)
  qed (simp add: ps_def)
  define F where "F a = map (\<lambda>p. (p, a)) (filter (\<lambda>p. p \<noteq> [] \<or> length (ps a) = 1) (ps a))" for a
  have F: "snd ` set (F a) = {a}" if "a \<in> snd ` set as" for a
  proof -
    from kept [OF that] obtain p where "p \<in> set (filter (\<lambda>p. p \<noteq> [] \<or> length (ps a) = 1) (ps a))"
      by (meson list.set_sel(1))
    then have "(p, a) \<in> set (F a)" by (simp add: F_def)
    moreover have "snd x = a" if "x \<in> set (F a)" for x using that by (auto simp: F_def)
    ultimately show ?thesis by force
  qed
  have "dedupe_participants as = concat (map F (remdups (map snd as)))"
    unfolding dedupe_participants_def Let_def F_def ps_def ..
  then have "snd ` set (dedupe_participants as) = (\<Union>a\<in>snd ` set as. snd ` set (F a))"
    by (simp add: image_UN)
  also have "\<dots> = snd ` set as" using F by auto
  finally show ?thesis .
qed

text \<open>No tuple is among the lists, so no address is left out on account of the BCC field.\<close>

lemma participant_emails_eq:
  "participant_emails m = py_lower ` snd ` set (m_from m @ m_to m @ m_cc m @ m_bcc m)"
proof -
  have "filter (\<lambda>(p, a). PyTuple p a \<notin> set (map (\<lambda>(q, b). PyList q b) (m_bcc m))) xs = xs" for xs
    by (auto simp: filter_id_conv)
  then have "participant_emails m = py_lower ` snd ` set (message_participants m)"
    by (force simp: participant_emails_def)
  then show ?thesis
    by (simp add: message_participants_def dedupe_participants_addresses)
qed

section \<open>The thread found for a message\<close>

lemma match_step_Return:
  "match_step n th msg x = Return (Some r) \<Longrightarrow> r = th \<and> n < MAX_THREAD_LENGTH"
  unfolding match_step_def Let_def by (simp split: if_split_asm)

lemma match_messages_Return:
  "match_messages n th msg ms = Return (Some r) \<Longrightarrow> r = th \<and> n < MAX_THREAD_LENGTH"
proof (induction ms)
  case (Cons x xs)
  then show ?case
    by (cases "match_step n th msg x") (auto dest: match_step_Return)
qed simp

lemma match_threads_Some:
  "match_threads db msg ths = Some th \<Longrightarrow>
     th \<in> set ths \<and> length (thread_messages db (th_id th)) < MAX_THREAD_LENGTH"
proof (induction ths)
  case (Cons t ths)
  let ?r = "match_messages (length (thread_messages db (th_id t))) t msg (thread_messages db (th_id t))"
  show ?case
  proof (cases ?r)
    case (Return r)
    with Cons.prems have "?r = Return (Some th)" by (simp add: Let_def)
    from match_messages_Return [OF this] show ?thesis by auto
  qed (use Cons in \<open>auto simp: Let_def\<close>)
qed simp

lemma fetch_corresponding_thread_Some:
  assumes "fetch_corresponding_thread db nid m = Some th"
  shows "th \<in> set (threads db) \<and> th_namespace_id th = nid \<and>
    th_cleaned_subject th = cleanup_subject (m_subject m) \<and>
    length (thread_messages db (th_id th)) < MAX_THREAD_LENGTH"
  using match_threads_Some assms by (fastforce simp: fetch_corresponding_thread_def Let_def)

section \<open>The length bound\<close>

definition threads_bounded :: "store \<Rightarrow> bool" where
  "threads_bounded db \<longleftrightarrow> (\<forall>tid. count_thread_messages db tid \<le> MAX_THREAD_LENGTH)"

definition threads_exist :: "store \<Rightarrow> bool" where
  "threads_exist db \<longleftrightarrow>
     (\<forall>m\<in>set (messages db). \<forall>tid. m_thread_id m = Some tid \<longrightarrow> (\<exists>th\<in>set (threads db). th_id th = tid))"

lemma length_filter_put:
  assumes "t_inv key t"
  shows "length (filter P (t_put key t r)) \<le> length (filter P t) + (if P r then 1 else 0)"
  using assms
proof (induction t)
  case (Cons x t)
  show ?case
  proof (cases "key x = key r")
    case True
    with Cons.prems have "\<forall>y\<in>set t. key y \<noteq> key r" by (auto simp: t_inv_def) (metis imageI)
    then have "t_put key t r = t" by (auto simp: t_put_def intro: map_idI)
    with True show ?thesis by (simp add: t_put_def)
  next
    case False
    with Cons show ?thesis by (cases "P r") (auto simp: t_put_def t_inv_def)
  qed
qed (simp add: t_put_def)

lemma length_filter_put_same:
  assumes "t_inv key t" and "x \<in> set t" and "key x = key r" and "P x"
  shows "length (filter P (t_put key t r)) \<le> length (filter P t)"
  using assms
proof (induction t)
  case (Cons y t)
  show ?case
  proof (cases "key y = key r")
    case True
    with Cons.prems(1) have none: "\<forall>z\<in>set t. key z \<noteq> key r" by (auto simp: t_inv_def) (metis imageI)
    with Cons.prems True have "y = x" by auto
    note none
    then have "t_put key t r = t" by (auto simp: t_put_def intro: map_idI)
    with True \<open>y = x\<close> Cons.prems show ?thesis by (simp add: t_put_def)
  next
    case False
    with Cons show ?thesis by (auto simp: t_put_def t_inv_def)
  qed
qed simp

lemma count_after_put:
  assumes "t_inv m_id (messages db)"
  shows "length (filter (\<lambda>x. m_thread_id x = Some tid) (t_put m_id (messages db) (m\<lparr>m_thread_id := Some t\<rparr>)))
    \<le> count_thread_messages db tid + (if tid = t then 1 else 0)"
  using length_filter_put [OF assms, of "\<lambda>x. m_thread_id x = Some tid" "m\<lparr>m_thread_id := Some t\<rparr>"]
  by (auto simp: count_thread_messages_def split: if_splits)

lemma append_to_thread_bounded:
  assumes "t_inv m_id (messages db)" and "threads_bounded db"
    and "count_thread_messages db (th_id th) < MAX_THREAD_LENGTH"
  shows "threads_bounded (append_to_thread db m th)"
  unfolding threads_bounded_def
proof
  fix tid
  have "count_thread_messages (append_to_thread db m th) tid
      \<le> count_thread_messages db tid + (if tid = th_id th then 1 else 0)"
    using count_after_put [OF assms(1), where tid = tid and m = m and t = "th_id th"]
    by (simp add: append_to_thread_def count_thread_messages_def)
  moreover have "count_thread_messages db tid \<le> MAX_THREAD_LENGTH"
    using assms(2) by (simp add: threads_bounded_def)
  ultimately show "count_thread_messages (append_to_thread db m th) tid \<le> MAX_THREAD_LENGTH"
    using assms(3) by (auto split: if_splits)
qed

lemma count_no_thread:
  assumes "threads_exist db"
  shows "count_thread_messages db (t_next th_id (threads db)) = 0"
proof -
  have "m_thread_id m \<noteq> Some (t_next th_id (threads db))" if "m \<in> set (messages db)" for m
    using assms that t_next_fresh [of _ "threads db" th_id] by (auto simp: threads_exist_def)
  then show ?thesis by (simp add: count_thread_messages_def filter_empty_conv)
qed

lemma set_message_thread_bounded:
  assumes "t_inv m_id (messages db)" and bounded: "threads_bounded db" and "threads_exist db"
    and "m \<in> set (messages db)"
  shows "threads_bounded (set_message_thread db m (from_imap_message db nid m))"
proof (cases "message_thread db m")
  case (Some th)
  then have mt: "m_thread_id m = Some (th_id th)"
    by (auto simp: message_thread_def split: option.splits dest: t_get_SomeD)
  have "length (filter (\<lambda>x. m_thread_id x = Some tid) (t_put m_id (messages db) (m\<lparr>m_thread_id := Some (th_id th)\<rparr>)))
      \<le> count_thread_messages db tid" for tid
  proof (cases "tid = th_id th")
    case True
    with assms(1,4) mt show ?thesis unfolding count_thread_messages_def
      by (intro length_filter_put_same [where x = m]) auto
  next
    case False
    with count_after_put [OF assms(1), where tid = tid and m = m and t = "th_id th"] show ?thesis by simp
  qed
  with Some bounded show ?thesis
    by (auto simp: threads_bounded_def set_message_thread_def from_imap_message_def
        count_thread_messages_def intro: order_trans)
next
  case None
  let ?new = "t_next th_id (threads db)"
  have "length (filter (\<lambda>x. m_thread_id x = Some tid) (t_put m_id (messages db) (m\<lparr>m_thread_id := Some ?new\<rparr>)))
      \<le> MAX_THREAD_LENGTH" for tid
  proof (cases "tid = ?new")
    case True
    with count_after_put [OF assms(1), where tid = tid and m = m and t = ?new] count_no_thread [OF assms(3)]
    show ?thesis by (simp add: MAX_THREAD_LENGTH_def)
  next
    case False
    with count_after_put [OF assms(1), where tid = tid and m = m and t = ?new] bounded show ?thesis
      by (auto simp: threads_bounded_def intro: order_trans)
  qed
  with None show ?thesis
    by (simp add: threads_bounded_def set_message_thread_def from_imap_message_def
        count_thread_messages_def new_thread_def)
qed

lemma add_message_to_thread_bounded_aux:
  assumes "t_inv m_id (messages db)" and "threads_bounded db" and "threads_exist db"
    and "m \<in> set (messages db)"
  shows "threads_bounded (add_message_to_thread db nid m)"
  using assms set_message_thread_bounded [OF assms] append_to_thread_bounded
  by (auto simp: add_message_to_thread_def split: option.splits)

end
