(* ===== verification/Retry_Logic.thy ===== *)
theory Retry_Logic
  imports Account_Model
begin

text \<open>
  \<open>inbox/util/concurrency.py\<close>: the retry loop every sync greenlet runs in, and the callback
  that decides which failures are reported. The loop has no bound of its own; it is run on
  the list of the inputs its successive attempts see, and is still retrying (\<open>None\<close>) when
  they are used up.
\<close>

section \<open>The retry loop\<close>

text \<open>Deliberate kills; \<open>MailsyncDone\<close> is a subclass of \<open>GreenletExit\<close>.\<close>

definition is_greenlet_exit :: "exc \<Rightarrow> bool" where
  "is_greenlet_exit e \<longleftrightarrow> e = GreenletExit \<or> e = MailsyncDone"

definition should_retry_on :: "(exc \<Rightarrow> bool) option \<Rightarrow> (exc \<Rightarrow> bool) option \<Rightarrow> exc \<Rightarrow> bool" where
  "should_retry_on fail_classes retry_classes e =
     (case fail_classes of
        Some f \<Rightarrow> if f e then False else (case retry_classes of None \<Rightarrow> True | Some r \<Rightarrow> r e)
      | None \<Rightarrow> (case retry_classes of None \<Rightarrow> True | Some r \<Rightarrow> r e))"

fun retry_run ::
  "(exc \<Rightarrow> bool) \<Rightarrow> (exc \<Rightarrow> 's \<Rightarrow> 's) \<Rightarrow> ('i \<Rightarrow> ('s, 'a) st) \<Rightarrow> 'i list \<Rightarrow> 's \<Rightarrow> 's \<times> 'a res option" where
  "retry_run should_retry callback f [] s = (s, None)"
| "retry_run should_retry callback f (i # is) s =
     (case f i s of
        (s', Inr x) \<Rightarrow> (s', Some (Inr x))
      | (s', Inl e) \<Rightarrow>
          if is_greenlet_exit e \<or> \<not> should_retry e then (s', Some (Inl e))
          else retry_run should_retry callback f is (callback e s'))"

text \<open>The exceptions \<open>retry_crispin\<close> retries: socket, SSL and IMAP4 errors.\<close>

fun conn_retry_exc :: "exc \<Rightarrow> bool" where
  "conn_retry_exc SocketError = True"
| "conn_retry_exc SSLError = True"
| "conn_retry_exc (Imap4Error msg) = True"
| "conn_retry_exc e = False"

definition retry_crispin :: "('i \<Rightarrow> ('s, 'a) st) \<Rightarrow> 'i list \<Rightarrow> 's \<Rightarrow> 's \<times> 'a res option" where
  "retry_crispin f = retry_run (should_retry_on None (Some conn_retry_exc)) (\<lambda>e s. s) f"

section \<open>Reporting failures\<close>

definition transient_mysql_messages :: "string list" where
  "transient_mysql_messages =
     [''try restarting transaction'', ''Too many connections'', ''Lost connection to MySQL server'',
      ''MySQL server has gone away'', ''Can'' @ [CHR 0x27] @ ''t connect to MySQL server'',
      ''Max connect timeout reached'']"

fun is_transient :: "exc \<Rightarrow> bool" where
  "is_transient SocketError = True"
| "is_transient SSLError = True"
| "is_transient RedisTimeoutError = True"
| "is_transient (OperationalError msg) = (\<exists>m\<in>set transient_mysql_messages. str_contains m msg)"
| "is_transient e = False"

text \<open>
  What the loop remembers: the failure counter it shares between calls, the counts it
  reported, and the account the error is stored on (absent when it cannot be loaded).
\<close>

record retry_log =
  rl_occurrences :: nat
  rl_reports :: "nat list"
  rl_account :: "account_row option"

definition stored_error_replaceable :: "sval \<Rightarrow> bool" where
  "stored_error_replaceable v = (case v of VNull \<Rightarrow> True | VText _ \<Rightarrow> True | _ \<Rightarrow> False)"

definition store_error :: "(string \<times> string \<times> string) \<Rightarrow> account_row \<Rightarrow> account_row" where
  "store_error err a = (if stored_error_replaceable (sync_error a) then update_sync_error (Some err) a else a)"

definition logging_callback :: "(exc \<Rightarrow> string \<times> string \<times> string) \<Rightarrow> exc \<Rightarrow> retry_log \<Rightarrow> retry_log" where
  "logging_callback describe e l =
     (let n = (if is_transient e then Suc (rl_occurrences l) else 1);
          l1 = l\<lparr>rl_occurrences := n\<rparr>
      in if is_transient e \<and> n < 20 then l1
         else l1\<lparr>rl_account := map_option (store_error (describe e)) (rl_account l1),
                 rl_reports := rl_reports l1 @ [n]\<rparr>)"

definition retry_with_logging ::
  "(exc \<Rightarrow> string \<times> string \<times> string) \<Rightarrow> ('i \<Rightarrow> (retry_log, 'a) st) \<Rightarrow> 'i list \<Rightarrow> retry_log
     \<Rightarrow> retry_log \<times> 'a res option" where
  "retry_with_logging describe f =
     retry_run (should_retry_on None None) (logging_callback describe) f"

section \<open>Lemmas\<close>

lemma retry_run_result:
  "retry_run sr cb f is s = (t, Some r) \<Longrightarrow> \<exists>i\<in>set is. \<exists>u. f i u = (t, r)"
proof (induction "is" arbitrary: s)
  case (Cons i "is")
  obtain s' r' where f: "f i s = (s', r')" by (cases "f i s")
  show ?case
  proof (cases r')
    case (Inr x)
    with f Cons.prems show ?thesis by auto
  next
    case (Inl e)
    with f Cons show ?thesis by (cases "is_greenlet_exit e \<or> \<not> sr e") fastforce+
  qed
qed simp

text \<open>The exceptions that leave the loop: deliberate kills, and those it is not to retry.\<close>

lemma retry_run_raises:
  "retry_run sr cb f is s = (t, Some (Inl e)) \<Longrightarrow> is_greenlet_exit e \<or> \<not> sr e"
proof (induction "is" arbitrary: s)
  case (Cons i "is")
  obtain s' r' where f: "f i s = (s', r')" by (cases "f i s")
  with Cons show ?case by (cases r') (auto split: if_split_asm)
qed simp

lemma retry_run_keeps:
  assumes "\<And>i. i \<in> set is \<Longrightarrow> st_keeps P (f i)" and "\<And>e s. P s \<Longrightarrow> P (cb e s)"
  shows "P s \<Longrightarrow> P (fst (retry_run sr cb f is s))"
  using assms(1)
proof (induction "is" arbitrary: s)
  case (Cons i "is")
  obtain s' r' where f: "f i s = (s', r')" by (cases "f i s")
  with Cons.prems have "P s'" by (auto intro: st_keepsD)
  then show ?case using f Cons assms(2) by (cases r') auto
qed simp

lemma logging_callback_silent:
  "is_transient e \<Longrightarrow> rl_occurrences l < 19 \<Longrightarrow>
    logging_callback describe e l = l\<lparr>rl_occurrences := Suc (rl_occurrences l)\<rparr>"
  by (simp add: logging_callback_def)

lemma fold_silent:
  "\<forall>e\<in>set es. is_transient e \<Longrightarrow> rl_occurrences l + length es < 20 \<Longrightarrow>
    fold (logging_callback describe) es l = l\<lparr>rl_occurrences := rl_occurrences l + length es\<rparr>"
  by (induction es arbitrary: l) (simp_all add: logging_callback_silent)

lemma store_error_first:
  "stored_error_replaceable (sync_error a) \<Longrightarrow> store_error e2 (store_error e1 a) = store_error e1 a"
  by (cases e1) (simp add: store_error_def update_sync_error_def sync_error_def status_get_def
      stored_error_replaceable_def)

lemma logging_callback_keeps_error:
  "rl_account l = Some a \<Longrightarrow> \<not> stored_error_replaceable (sync_error a) \<Longrightarrow>
    rl_account (logging_callback describe e l) = Some a"
  by (simp add: logging_callback_def Let_def store_error_def)

end
