(* ===== verification/Props_Mail.thy ===== *)
theory Props_Mail
  imports Samples Contact_Model Crispin_Client Mail_Threading Retry_Logic
begin

text \<open>
  The properties of threading, contacts, the IMAP client and the retry loop.
\<close>

section \<open>Threads\<close>

text \<open>
  Adding a message to a thread keeps every thread at no more than
  \<open>MAX_THREAD_LENGTH\<close> messages: a full thread is not extended, the message starts a new one.
\<close>

theorem threads_stay_bounded:
  assumes "t_inv m_id (messages db)" and "threads_bounded db" and "threads_exist db"
    and "m \<in> set (messages db)"
  shows "threads_bounded (add_message_to_thread db nid m)"
  using assms by (rule add_message_to_thread_bounded_aux)

definition letter :: "nat \<Rightarrow> message_row" where
  "letter i = (sample_message i)\<lparr>m_from := [([], ''a@x'')], m_to := [([], ''b@x'')]\<rparr>"

definition thread_db :: store where
  "thread_db = empty_store\<lparr>messages := [(letter 1)\<lparr>m_thread_id := Some 1\<rparr>, letter 2], threads := [sample_thread 1]\<rparr>"

theorem threads_stay_bounded_witness:
  "threads_bounded (add_message_to_thread thread_db 1 (letter 2))"
proof (rule threads_stay_bounded)
  show "threads_bounded thread_db"
    by (simp add: threads_bounded_def MAX_THREAD_LENGTH_def count_thread_messages_def thread_db_def empty_store_def)
qed (simp_all add: thread_db_def threads_exist_def t_inv_def letter_def sample_message_def sample_thread_def)

text \<open>
  A message is only put into a thread of its own namespace with the same cleaned subject that
  is not full: \<open>fetch_corresponding_thread\<close> never answers another thread.
\<close>

theorem matched_thread_fits:
  assumes "fetch_corresponding_thread db nid m = Some th"
  shows "th \<in> set (threads db) \<and> th_namespace_id th = nid \<and>
    th_cleaned_subject th = cleanup_subject (m_subject m) \<and>
    length (thread_messages db (th_id th)) < MAX_THREAD_LENGTH"
  using assms by (rule fetch_corresponding_thread_Some)

theorem matched_thread_fits_witness:
  "\<exists>th. fetch_corresponding_thread thread_db 1 (letter 2) = Some th \<and>
     th_namespace_id th = 1"
proof -
  let ?f = "fetch_corresponding_thread thread_db 1 (letter 2)"
  have "?f \<noteq> None" by code_simp
  then obtain th where "?f = Some th" by blast
  with matched_thread_fits [OF this] show ?thesis by blast
qed

section \<open>Contacts\<close>

text \<open>
  Syncing a remote address book of a provider never stores two contacts with the same
  namespace, provider and uid, so the lookup of the next sync finds one row or none and its
  \<open>MultipleResultsFound\<close> cannot occur. The items carry the provider's name.
\<close>

theorem contacts_stay_unique:
  assumes "contacts_inv db" and "\<forall>item\<in>set items. ct_provider_name (fst item) = p"
    and "sync_contacts parse nid p items db = Ok (db', counts)"
  shows "contacts_inv db'"
proof -
  have step: "contacts_inv (fst s')"
    if "item \<in> set items" "contacts_inv (fst s)" "sync_contact parse nid p item s = Ok s'" for item s s'
    using sync_contact_inv [of "fst s" item p parse nid "snd s" "fst s'" "snd s'"] that assms(2) by simp
  have "contacts_inv (fst (db, 0, 0, 0))" using assms(1) by simp
  from res_fold_invariant [where P = "\<lambda>s. contacts_inv (fst s)", OF step this assms(3) [unfolded sync_contacts_def]]
  show ?thesis by simp
qed

definition sample_contact :: "string \<Rightarrow> contact_row" where
  "sample_contact uid = \<lparr>ct_id = 0, ct_namespace_id = 1, ct_uid = uid, ct_provider_name = ''google'', ct_name = Some uid,
     ct_raw_address = None, ct_canonical = None, ct_raw_data = None\<rparr>"

theorem contacts_stay_unique_witness:
  "\<exists>db' counts. sync_contacts (\<lambda>s. None) 1 ''google''
       [(sample_contact ''a'', False), (sample_contact ''b'', False), (sample_contact ''a'', True)] empty_store = Ok (db', counts) \<and>
     map ct_uid (contacts db') = [''b''] \<and> contacts_inv db'"
proof -
  let ?items = "[(sample_contact ''a'', False), (sample_contact ''b'', False), (sample_contact ''a'', True)]"
  let ?r = "sync_contacts (\<lambda>s. None) 1 ''google'' ?items empty_store"
  have "case ?r of Inl e \<Rightarrow> False | Inr x \<Rightarrow> map ct_uid (contacts (fst x)) = [''b'']" by code_simp
  then obtain x where x: "?r = Ok x" "map ct_uid (contacts (fst x)) = [''b'']" by (rule evaluatedE)
  obtain db' counts where "x = (db', counts)" by (cases x)
  with x have r: "?r = Ok (db', counts)" "map ct_uid (contacts db') = [''b'']" by (simp_all only: fst_conv)
  have "contacts_inv empty_store" by (simp add: contacts_inv_def t_inv_def empty_store_def)
  then have "contacts_inv db'" by (rule contacts_stay_unique [OF _ _ r(1)]) (simp add: sample_contact_def)
  with r show ?thesis by (intro exI conjI)
qed

section \<open>The IMAP client\<close>

text \<open>
  The folders a generic IMAP account syncs are, right after the folder list was read, exactly
  the folders of the account, each as often as it is listed, with the inbox folders first.
\<close>

theorem folders_to_sync:
  assumes "cr_folder_names cr = None" and "crispin_folders cr listing = Ok fs"
    and "generic_sync_folders (Ok listing) cr = (cr', Ok to_sync)"
  shows "mset to_sync = mset (map fst fs) \<and>
    take (length (filter (\<lambda>f. snd f = Some ''inbox'') fs)) to_sync =
      map fst (filter (\<lambda>f. snd f = Some ''inbox'') fs)"
  using generic_sync_folders_fresh [OF assms] by simp

definition generic_crispin :: crispin where
  "generic_crispin = \<lparr>cr_account_id = 1, cr_gmail = False, cr_folder_map = Map.empty, cr_selected = None,
     cr_folder_names = None\<rparr>"

definition sample_listing :: "(string list \<times> string \<times> string) list" where
  "sample_listing = map (\<lambda>name. ([], ''/'', name)) [''Sent'', ''INBOX'', ''Trash'', ''Spam'', ''Work'']"

lemma sample_folders: "crispin_folders generic_crispin sample_listing =
    Ok [(''Sent'', Some ''sent''), (''INBOX'', Some ''inbox''), (''Trash'', Some ''trash''), (''Spam'', Some ''spam''),
        (''Work'', None)]"
  by (simp add: crispin_folders_def generic_crispin_def sample_listing_def remote_folders_def process_folder_def
      selectable_def default_folder_map_def py_lower_def lower_char_def char_of_def bit_simps get_missing_roles_def
      system_role_names_def bs_def)

theorem folders_to_sync_witness:
  "\<exists>cr' to_sync. generic_sync_folders (Ok sample_listing) generic_crispin = (cr', Ok to_sync) \<and>
     hd to_sync = ''INBOX'' \<and> mset to_sync = {#''Sent'', ''INBOX'', ''Trash'', ''Spam'', ''Work''#}"
proof -
  have none: "cr_folder_names generic_crispin = None" by (simp add: generic_crispin_def)
  then obtain cr' to_sync where r: "generic_sync_folders (Ok sample_listing) generic_crispin = (cr', Ok to_sync)"
      "hd to_sync = ''INBOX''"
    by (simp add: generic_sync_folders_def st_bind_def folder_names_def sample_folders group_names_def Let_def)
  from folders_to_sync [OF none sample_folders r(1)] r show ?thesis by simp
qed

text \<open>
  Downloaded messages come in strictly ascending order of their UIDs, none twice, and only
  UIDs that were asked for, whatever else the server's replies contain.
\<close>

theorem downloads_ordered:
  assumes "generic_uids fetch uids = Ok rs"
  shows "sorted_wrt (<) (map ri_uid rs) \<and> set (map ri_uid rs) \<subseteq> set uids"
  using generic_uids_ordered [OF assms] by simp

definition fetched :: fetch_data where
  "fetched = \<lparr>fd_internaldate = Some 5, fd_flags = Some [], fd_body = Some (Some ''x''), fd_thrid = None,
     fd_msgid = None, fd_labels = None, fd_modseq = None\<rparr>"

theorem downloads_ordered_witness:
  "\<exists>rs. generic_uids (\<lambda>u. Ok [(u, fetched), (3, fetched)]) [9, 7] = Ok rs \<and> map ri_uid rs = [7, 9] \<and>
     sorted_wrt (<) (map ri_uid rs)"
proof -
  let ?r = "generic_uids (\<lambda>u. Ok [(u, fetched), (3, fetched)]) [9, 7]"
  have "case ?r of Inl e \<Rightarrow> False | Inr rs \<Rightarrow> map ri_uid rs = [7, 9]" by code_simp
  then obtain rs where r: "?r = Ok rs" "map ri_uid rs = [7, 9]" by (rule evaluatedE)
  from downloads_ordered [OF r(1)] have "sorted_wrt (<) (map ri_uid rs)" ..
  with r show ?thesis by (intro exI conjI)
qed

text \<open>
  \<open>delete_draft\<close> of a Gmail account issues a command that loses mail (marking deleted or
  expunging) only when the sent folder has exactly one message with the draft's header and the
  draft's own messages do not include that one; the call then succeeds.
\<close>

theorem draft_deletion_guarded:
  assumes "gmail_delete_draft names finder msgids uids_of = (cmds, r)"
    and "c \<in> set cmds" "destructive c"
  shows "r = Ok True \<and> (\<exists>drafts sent i. finder sent \<noteq> [] \<and> msgids sent (finder sent) = [i] \<and>
           finder drafts \<noteq> [] \<and> i \<notin> set (msgids drafts (finder drafts)))"
  using assms by (rule gmail_delete_draft_guard)

theorem draft_deletion_guarded_witness:
  "\<exists>cmds r. gmail_delete_draft [(Some ''drafts'', [''D'']), (Some ''trash'', [''T'']), (Some ''sent'', [''S''])]
       (\<lambda>f. if f = ''D'' then [4] else [5]) (\<lambda>f us. if f = ''D'' then [40] else [50]) (\<lambda>i. [8]) = (cmds, r) \<and>
     CmdExpunge \<in> set cmds \<and> r = Ok True"
proof -
  let ?d = "gmail_delete_draft [(Some ''drafts'', [''D'']), (Some ''trash'', [''T'']), (Some ''sent'', [''S''])]
       (\<lambda>f. if f = ''D'' then [4] else [5]) (\<lambda>f us. if f = ''D'' then [40] else [50]) (\<lambda>i. [8])"
  obtain cmds r where d: "?d = (cmds, r)" by fastforce
  have "CmdExpunge \<in> set (fst ?d)" by (simp add: gmail_delete_draft_def Let_def)
  with d have c: "CmdExpunge \<in> set cmds" by simp
  have "r = Ok True" using draft_deletion_guarded [OF d c] by simp
  with d c show ?thesis by (intro exI conjI)
qed

section \<open>Retrying\<close>

text \<open>
  A sync greenlet run by \<open>retry_with_logging\<close> stops with an exception only when it was
  killed on purpose (\<open>GreenletExit\<close> or its subclass \<open>MailsyncDone\<close>); what it returns
  is what one of the attempts returned.
\<close>

theorem greenlet_survives:
  assumes "retry_with_logging describe f is l = (t, Some r)"
  shows "(\<exists>i\<in>set is. \<exists>u. f i u = (t, r)) \<and>
    (\<forall>e. r = Inl e \<longrightarrow> is_greenlet_exit e)"
proof -
  note run = assms [unfolded retry_with_logging_def]
  have "\<forall>e. r = Inl e \<longrightarrow> is_greenlet_exit e"
    using retry_run_raises [of "should_retry_on None None"] run by (auto simp: should_retry_on_def)
  with retry_run_result [OF run] show ?thesis by blast
qed

theorem greenlet_survives_witness:
  "\<exists>t. retry_with_logging (\<lambda>e. ([], [], []))
       (\<lambda>i s. (s, if i = (0::nat) then Inl SocketError else if i = 1 then Inl KeyError else Ok i)) [0, 1, 2]
       \<lparr>rl_occurrences = 0, rl_reports = [], rl_account = None\<rparr> = (t, Some (Ok 2)) \<and> rl_reports t = [1]"
proof -
  let ?f = "\<lambda>i s. (s, if i = (0::nat) then Inl SocketError else if i = 1 then Inl KeyError else Ok i)"
  let ?r = "retry_with_logging (\<lambda>e. ([], [], [])) ?f [0, 1, 2] \<lparr>rl_occurrences = 0, rl_reports = [], rl_account = None\<rparr>"
  have "rl_reports (fst ?r) = [1] \<and> snd ?r \<noteq> None" by code_simp
  then obtain t r where r: "?r = (t, Some r)" "rl_reports t = [1]" by (cases ?r) auto
  have "snd ?r = Some (Ok 2)" by code_simp
  with r have "r = Ok 2" by simp
  have "r = Inl e \<longrightarrow> is_greenlet_exit e" for e using greenlet_survives [OF r(1)] by blast
  with r \<open>r = Ok 2\<close> show ?thesis by (intro exI conjI) simp_all
qed

text \<open>
  Transient connection failures are not reported and store no error on the account as long as
  fewer than 20 of them follow each other; they are only counted.
\<close>

theorem transient_failures_silent:
  assumes "\<forall>e\<in>set es. is_transient e" and "rl_occurrences l + length es < 20"
  shows "fold (logging_callback describe) es l = l\<lparr>rl_occurrences := rl_occurrences l + length es\<rparr>"
  using assms by (rule fold_silent)

theorem transient_failures_silent_witness:
  "rl_reports (fold (logging_callback (\<lambda>e. ([], [], []))) (replicate 19 SocketError)
     \<lparr>rl_occurrences = 0, rl_reports = [], rl_account = None\<rparr>) = []"
  by (subst transient_failures_silent) simp_all

end
