(* ===== verification/Imap_Common.thy ===== *)
theory Imap_Common
  imports Mail_Threading Contact_Model
begin

text \<open>
  \<open>inbox/mailsync/backends/imap/common.py\<close>: the operations the folder sync engines perform
  on the local store, and \<open>reconcile_message\<close> of \<open>inbox/models/util.py\<close>. The current
  time, the enumeration of a category set and the message parsed from a downloaded body are
  arguments. A function that commits once per item returns the store it reached together
  with its outcome, so that what was committed before an exception stays.
\<close>

section \<open>Queries\<close>

definition folder_uid_rows :: "store \<Rightarrow> nat \<Rightarrow> nat \<Rightarrow> imapuid_row list" where
  "folder_uid_rows db aid fid = filter (\<lambda>u. u_account_id u = aid \<and> u_folder_id u = fid) (imapuids db)"

text \<open>A limit of 0 is falsy, so it is no limit.\<close>

definition local_uids :: "store \<Rightarrow> nat \<Rightarrow> nat \<Rightarrow> nat option \<Rightarrow> nat set" where
  "local_uids db aid fid limit =
     (let uids = map u_msg_uid (folder_uid_rows db aid fid)
      in case limit of
           None \<Rightarrow> set uids
         | Some n \<Rightarrow> if n = 0 then set uids else set (take n (rev (sort uids))))"

definition lastseenuid :: "store \<Rightarrow> nat \<Rightarrow> nat \<Rightarrow> nat" where
  "lastseenuid db aid fid = fold max (map u_msg_uid (folder_uid_rows db aid fid)) 0"

definition get_folder_info :: "store \<Rightarrow> nat \<Rightarrow> string \<Rightarrow> folder_info_row option res" where
  "get_folder_info db aid name =
     (case filter (\<lambda>i. fi_account_id i = aid \<and>
              (\<exists>f\<in>set (folders db). fld_id f = fi_folder_id i \<and> fld_name f = sanitize_name name))
            (folder_infos db) of
        [] \<Rightarrow> Ok None
      | [i] \<Rightarrow> Ok (Some i)
      | _ \<Rightarrow> Raise MultipleResultsFound)"

section \<open>Message metadata\<close>

definition select_category :: "set_iter \<Rightarrow> nat option set \<Rightarrow> nat option" where
  "select_category iter cats = hd (iter cats)"

definition put_message :: "store \<Rightarrow> message_row \<Rightarrow> store" where
  "put_message db m = db\<lparr>messages := t_put m_id (messages db) m\<rparr>"

definition latest_category_action :: "store \<Rightarrow> message_row \<Rightarrow> actionlog_row option" where
  "latest_category_action db m =
     (case filter (\<lambda>a. al_namespace_id a = m_namespace_id m \<and> al_table_name a = ''message'' \<and>
              al_record_id a = m_id m \<and> al_action a \<in> {''change_labels'', ''move''}) (actionlogs db) of
        [] \<Rightarrow> None
      | rows \<Rightarrow> t_get al_id (actionlogs db) (fold max (map al_id rows) 0))"

text \<open>
  The \<open>seconds\<close> attribute of the age leaves out its whole days, as in the source.
\<close>

definition recently_changed :: "datetime \<Rightarrow> actionlog_row \<Rightarrow> bool" where
  "recently_changed now a \<longleftrightarrow> al_status a = Pending \<or> td_seconds (now - al_updated_at a) \<le> 90"

definition update_categories ::
  "store \<Rightarrow> datetime \<Rightarrow> message_row \<Rightarrow> nat option list \<Rightarrow> message_row" where
  "update_categories db now m synced =
     (case latest_category_action db m of
        Some a \<Rightarrow> if recently_changed now a then m
                  else m\<lparr>m_categories := synced, m_categories_changes := False\<rparr>
      | None \<Rightarrow> m\<lparr>m_categories := synced, m_categories_changes := False\<rparr>)"

definition update_message_metadata ::
  "set_iter \<Rightarrow> store \<Rightarrow> datetime \<Rightarrow> account_row \<Rightarrow> message_row \<Rightarrow> bool \<Rightarrow> message_row" where
  "update_message_metadata iter db now acc m is_draft =
     (let uids = message_uids db (m_id m);
          m1 = m\<lparr>m_is_read := (\<exists>u\<in>set uids. u_is_seen u),
                 m_is_starred := (\<exists>u\<in>set uids. u_is_flagged u),
                 m_is_draft := is_draft\<rparr>;
          cats = \<Union> (set (map (uid_categories db) uids));
          cats' = (if acc_category_type acc = ''folder''
                   then (if cats \<noteq> {} then [select_category iter cats] else [])
                   else iter cats)
      in if \<not> m_categories_changes m1 then m1\<lparr>m_categories := cats'\<rparr>
         else update_categories db now m1 cats')"

section \<open>Refreshing flags and labels\<close>

text \<open>What the server reports for a UID: flags, and labels on Gmail.\<close>

type_synonym flags_reply = "string list \<times> string list option"

definition draft_role :: "string \<Rightarrow> bool" where
  "draft_role role \<longleftrightarrow> role = ''drafts'' \<or> role = ''all''"

definition update_uid_metadata ::
  "set_iter \<Rightarrow> datetime \<Rightarrow> account_row \<Rightarrow> string \<Rightarrow> flags_reply \<Rightarrow> imapuid_row \<Rightarrow> store \<Rightarrow> store res" where
  "update_uid_metadata iter now acc role reply item db =
     (let (flag_changed, u1) = update_flags (fst reply) item;
          db1 = db\<lparr>imapuids := t_put u_id (imapuids db) u1\<rparr>
      in res_bind (case snd reply of
                     None \<Rightarrow> Ok (db1, u1)
                   | Some ls \<Rightarrow> update_labels acc ls db1 u1)
           (\<lambda>(db2, u2).
             if flag_changed \<or> snd reply \<noteq> None
             then (case t_get m_id (messages db2) (u_message_id u2) of
                     None \<Rightarrow> Raise AttributeError
                   | Some m \<Rightarrow>
                       Ok (put_message db2
                             (update_message_metadata iter db2 now acc m (u_is_draft u2 \<and> draft_role role))))
             else Ok db2))"

text \<open>
  Each changed item is committed; an exception keeps the items committed before it and
  rolls the current one back.
\<close>

fun update_items ::
  "set_iter \<Rightarrow> datetime \<Rightarrow> account_row \<Rightarrow> string \<Rightarrow> (nat \<rightharpoonup> flags_reply) \<Rightarrow> imapuid_row list \<Rightarrow> store
     \<Rightarrow> store \<times> unit res" where
  "update_items iter now acc role new_flags [] db = (db, Ok ())"
| "update_items iter now acc role new_flags (item # items) db =
     (case new_flags (u_msg_uid item) of
        None \<Rightarrow> update_items iter now acc role new_flags items db
      | Some reply \<Rightarrow>
          (case update_uid_metadata iter now acc role reply item db of
             Inl e \<Rightarrow> (db, Raise e)
           | Inr db1 \<Rightarrow> update_items iter now acc role new_flags items db1))"

text \<open>The dictionary of the new flags is given by its entries, in the order they were set.\<close>

definition update_metadata ::
  "set_iter \<Rightarrow> datetime \<Rightarrow> nat \<Rightarrow> nat \<Rightarrow> string \<Rightarrow> (nat \<times> flags_reply) list \<Rightarrow> store \<Rightarrow> store \<times> unit res" where
  "update_metadata iter now aid fid role new_flags db =
     (if new_flags = [] then (db, Ok ())
      else case t_get acc_id (accounts db) aid of
             None \<Rightarrow> (db, Raise AttributeError)
           | Some acc \<Rightarrow> update_items iter now acc role (dict_of new_flags) (folder_uid_rows db aid fid) db)"

section \<open>Removing expunged UIDs\<close>

text \<open>
  The message of a removed UID: a draft without UIDs is deleted with its emptied thread;
  any other message has its metadata recomputed and is marked when no UID is left.
\<close>

definition settle_message ::
  "set_iter \<Rightarrow> datetime \<Rightarrow> account_row option \<Rightarrow> message_row \<Rightarrow> store \<Rightarrow> store res" where
  "settle_message iter now account m db =
     (if message_uids db (m_id m) = [] \<and> m_is_draft m
      then (let db1 = db\<lparr>messages := t_del m_id (messages db) (m_id m)\<rparr>
            in case message_thread db m of
                 None \<Rightarrow> Ok db1
               | Some th \<Rightarrow> Ok (if thread_messages db1 (th_id th) = []
                                then db1\<lparr>threads := t_del th_id (threads db1) (th_id th)\<rparr> else db1))
      else case account of
             None \<Rightarrow> Raise AttributeError
           | Some acc \<Rightarrow>
               (let m1 = update_message_metadata iter db now acc m (m_is_draft m)
                in Ok (put_message db
                     (if message_uids db (m_id m) = [] then m1\<lparr>m_deleted_at := Some now\<rparr> else m1))))"

definition remove_uid ::
  "set_iter \<Rightarrow> datetime \<Rightarrow> nat \<Rightarrow> nat \<Rightarrow> nat \<Rightarrow> store \<Rightarrow> store res" where
  "remove_uid iter now aid fid uid db =
     (case query_first (filter (\<lambda>u. u_msg_uid u = uid) (folder_uid_rows db aid fid)) of
        None \<Rightarrow> Ok db
      | Some u \<Rightarrow>
          (let db1 = db\<lparr>imapuids := t_del u_id (imapuids db) (u_id u)\<rparr>
           in case t_get m_id (messages db) (u_message_id u) of
                None \<Rightarrow> Ok db1
              | Some m \<Rightarrow> settle_message iter now (t_get acc_id (accounts db) aid) m db1))"

fun remove_deleted_uids ::
  "set_iter \<Rightarrow> datetime \<Rightarrow> nat \<Rightarrow> nat \<Rightarrow> nat list \<Rightarrow> store \<Rightarrow> store \<times> unit res" where
  "remove_deleted_uids iter now aid fid [] db = (db, Ok ())"
| "remove_deleted_uids iter now aid fid (uid # uids) db =
     (case remove_uid iter now aid fid uid db of
        Inl e \<Rightarrow> (db, Raise e)
      | Inr db1 \<Rightarrow> remove_deleted_uids iter now aid fid uids db1)"

section \<open>Creating messages\<close>

text \<open>
  The public id and version of an X-Inbox-Id header. Splitting at a dash must give exactly
  two parts.
\<close>

definition split_uid :: "string \<Rightarrow> (string \<times> string) res" where
  "split_uid s = (case split_from ''-'' [] s of [a, b] \<Rightarrow> Ok (a, b) | _ \<Rightarrow> Raise (ValueError ''unpack''))"

definition adopt_headers :: "message_row \<Rightarrow> message_row \<Rightarrow> message_row" where
  "adopt_headers new_message existing =
     existing\<lparr>m_message_id_header := m_message_id_header new_message, m_references := m_references new_message\<rparr>"

definition reconcile_message :: "store \<Rightarrow> message_row \<Rightarrow> (store \<times> message_row option) res" where
  "reconcile_message db new_message =
     (let in_ns = (\<lambda>P. query_first (filter (\<lambda>m. m_namespace_id m = m_namespace_id new_message \<and> P m) (messages db)))
      in case m_nylas_uid new_message of
           None \<Rightarrow> Ok (db, in_ns (\<lambda>m. m_data_sha256 m = m_data_sha256 new_message))
         | Some uid \<Rightarrow>
             (if CHR ''-'' \<notin> set uid
              then (case in_ns (\<lambda>m. m_nylas_uid m = Some uid \<and> m_is_created m) of
                      None \<Rightarrow> Ok (db, None)
                    | Some m \<Rightarrow> (let m' = adopt_headers new_message m in Ok (put_message db m', Some m')))
              else res_bind (split_uid uid) (\<lambda>(pid, version).
                case in_ns (\<lambda>m. m_public_id m = pid \<and> m_is_created m) of
                  None \<Rightarrow> Ok (db, None)
                | Some m \<Rightarrow> res_bind (py_int 10 version) (\<lambda>v.
                    if v = int (m_version m)
                    then (let m' = adopt_headers new_message m in Ok (put_message db m', Some m'))
                    else Ok (db, Some m)))))"

text \<open>
  A downloaded message. \<open>rm_parsed\<close> is what \<open>Message.create_from_synced\<close> makes of the
  body; its id is assigned when it enters the store.
\<close>

record raw_message =
  rm_uid :: nat
  rm_flags :: "string list"
  rm_has_body :: bool
  rm_g_labels :: "string list option"
  rm_parsed :: message_row

definition create_imap_message ::
  "set_iter \<Rightarrow> addr_parser \<Rightarrow> (string \<Rightarrow> string) \<Rightarrow> datetime \<Rightarrow> account_row \<Rightarrow> folder_row \<Rightarrow> raw_message
     \<Rightarrow> store \<Rightarrow> (store \<times> imapuid_row \<times> message_row) res" where
  "create_imap_message iter parse fresh now acc fld msg db =
     res_bind (reconcile_message db (rm_parsed msg)) (\<lambda>(db0, existing_copy).
       let (db1, m) = (case existing_copy of
               Some m \<Rightarrow> (db0, m)
             | None \<Rightarrow> (let m = (rm_parsed msg)\<lparr>m_id := t_next m_id (messages db0)\<rparr>
                       in (db0\<lparr>messages := t_add (messages db0) m\<rparr>, m)));
           u0 = \<lparr>u_id = t_next u_id (imapuids db1), u_account_id = acc_id acc, u_folder_id = fld_id fld,
                 u_message_id = m_id m, u_msg_uid = rm_uid msg, u_is_draft = False, u_is_seen = False,
                 u_is_flagged = False, u_is_recent = False, u_is_answered = False, u_extra_flags = [],
                 u_labels = []\<rparr>;
           u1 = snd (update_flags (rm_flags msg) u0);
           db2 = db1\<lparr>imapuids := t_add (imapuids db1) u1\<rparr>
       in res_bind (case rm_g_labels msg of None \<Rightarrow> Ok (db2, u1) | Some ls \<Rightarrow> update_labels acc ls db2 u1)
            (\<lambda>(db3, u2).
              let m1 = update_message_metadata iter db3 now acc m (u_is_draft u2 \<and> draft_role (fld_canonical_name fld));
                  db4 = put_message db3 m1
              in res_bind (update_contacts_from_message parse fresh db4 m1 (acc_namespace_id acc))
                   (\<lambda>db5. Ok (db5, u2, m1))))"

section \<open>UIDs after a removal\<close>

text \<open>The table's unique constraint on folder, UID and account.\<close>

definition uid_slot :: "imapuid_row \<Rightarrow> nat \<times> nat \<times> nat" where
  "uid_slot u = (u_account_id u, u_folder_id u, u_msg_uid u)"

definition uids_inv :: "store \<Rightarrow> bool" where
  "uids_inv db \<longleftrightarrow> t_inv u_id (imapuids db) \<and> distinct (map uid_slot (imapuids db))"

lemma uids_inv_filter:
  "uids_inv db \<Longrightarrow> imapuids db' = filter P (imapuids db) \<Longrightarrow> uids_inv db'"
  by (simp add: uids_inv_def t_inv_def distinct_map_filter_upd)

lemma settle_message_imapuids:
  "settle_message iter now acc m db = Ok db' \<Longrightarrow> imapuids db' = imapuids db"
  by (auto simp: settle_message_def put_message_def Let_def split: if_splits option.splits)

lemma remove_uid_imapuids:
  assumes inv: "uids_inv db" and ok: "remove_uid iter now aid fid uid db = Ok db'"
  shows "imapuids db' = filter (\<lambda>u. uid_slot u \<noteq> (aid, fid, uid)) (imapuids db)"
proof (cases "query_first (filter (\<lambda>u. u_msg_uid u = uid) (folder_uid_rows db aid fid))")
  case None
  then have "imapuids db = filter (\<lambda>u. uid_slot u \<noteq> (aid, fid, uid)) (imapuids db)"
    by (auto simp: folder_uid_rows_def filter_empty_conv uid_slot_def filter_id_conv)
  with None ok show ?thesis by (simp add: remove_uid_def query_first_def)
next
  case (Some u)
  then have u: "u \<in> set (imapuids db)" "uid_slot u = (aid, fid, uid)"
    by (auto dest!: query_first_Some simp: folder_uid_rows_def uid_slot_def)
  have "imapuids db' = t_del u_id (imapuids db) (u_id u)"
    using ok Some
    by (auto simp: remove_uid_def Let_def split: option.splits dest!: settle_message_imapuids)
  also have "\<dots> = filter (\<lambda>x. uid_slot x \<noteq> (aid, fid, uid)) (imapuids db)"
  proof -
    have "u_id x = u_id u \<longleftrightarrow> uid_slot x = (aid, fid, uid)" if "x \<in> set (imapuids db)" for x
      using inv that u by (auto simp: uids_inv_def t_inv_def dest: distinct_map_eq)
    then show ?thesis by (auto simp: t_del_def intro: filter_cong)
  qed
  finally show ?thesis .
qed

lemma remove_deleted_uids_imapuids:
  assumes "uids_inv db" and "remove_deleted_uids iter now aid fid uids db = (db', Ok ())"
  shows "imapuids db' =
    filter (\<lambda>u. \<not> (u_account_id u = aid \<and> u_folder_id u = fid \<and> u_msg_uid u \<in> set uids)) (imapuids db)"
  using assms
proof (induction uids arbitrary: db)
  case (Cons uid uids)
  from Cons.prems(2) obtain db1 where db1: "remove_uid iter now aid fid uid db = Ok db1"
    "remove_deleted_uids iter now aid fid uids db1 = (db', Ok ())"
    by (auto split: sum.splits)
  note rows = remove_uid_imapuids [OF Cons.prems(1) db1(1)]
  from Cons.IH [OF uids_inv_filter [OF Cons.prems(1) rows] db1(2)] rows show ?case
    by (auto simp: uid_slot_def intro: filter_cong)
qed simp

lemma update_message_metadata_keeps [simp]:
  "m_id (update_message_metadata iter db now acc m d) = m_id m"
  "m_is_draft (update_message_metadata iter db now acc m d) = d"
  "m_deleted_at (update_message_metadata iter db now acc m d) = m_deleted_at m"
  "m_thread_id (update_message_metadata iter db now acc m d) = m_thread_id m"
  "m_received_date (update_message_metadata iter db now acc m d) = m_received_date m"
  by (simp_all add: update_message_metadata_def update_categories_def Let_def split: option.splits)

text \<open>What one removal may do to a message: nothing, or a change that keeps the rules below.\<close>

definition messages_kept :: "store \<Rightarrow> store \<Rightarrow> bool" where
  "messages_kept db db' \<longleftrightarrow>
     (\<forall>m\<in>set (messages db). \<not> m_is_draft m \<or> message_uids db' (m_id m) \<noteq> [] \<longrightarrow>
        (\<exists>m'\<in>set (messages db'). m_id m' = m_id m \<and> m_is_draft m' = m_is_draft m)) \<and>
     (\<forall>m'\<in>set (messages db'). message_uids db' (m_id m') \<noteq> [] \<longrightarrow>
        (\<exists>m\<in>set (messages db). m_id m = m_id m' \<and> m_deleted_at m = m_deleted_at m'))"

lemma messages_kept_refl: "messages db' = messages db \<Longrightarrow> messages_kept db db'"
  by (auto simp: messages_kept_def)

lemma message_uids_filter:
  "imapuids db' = filter P (imapuids db) \<Longrightarrow> message_uids db' i \<noteq> [] \<Longrightarrow> message_uids db i \<noteq> []"
  by (auto simp: message_uids_def filter_empty_conv)

lemma messages_kept_trans:
  assumes "messages_kept db db1" and "messages_kept db1 db2"
    and "\<And>i. message_uids db2 i \<noteq> [] \<Longrightarrow> message_uids db1 i \<noteq> []"
  shows "messages_kept db db2"
proof -
  note K1 = assms(1) [unfolded messages_kept_def] and K2 = assms(2) [unfolded messages_kept_def]
  have "\<exists>m2\<in>set (messages db2). m_id m2 = m_id m \<and> m_is_draft m2 = m_is_draft m"
    if m: "m \<in> set (messages db)" and c: "\<not> m_is_draft m \<or> message_uids db2 (m_id m) \<noteq> []" for m
  proof -
    from c assms(3) have "\<not> m_is_draft m \<or> message_uids db1 (m_id m) \<noteq> []" by blast
    with conjunct1 [OF K1] m obtain m1 where m1: "m1 \<in> set (messages db1)" "m_id m1 = m_id m"
      "m_is_draft m1 = m_is_draft m" by blast
    with c have "\<not> m_is_draft m1 \<or> message_uids db2 (m_id m1) \<noteq> []" by simp
    with conjunct1 [OF K2] m1 obtain m2 where "m2 \<in> set (messages db2)" "m_id m2 = m_id m1"
      "m_is_draft m2 = m_is_draft m1" by blast
    with m1 show ?thesis by auto
  qed
  moreover have "\<exists>m\<in>set (messages db). m_id m = m_id m2 \<and> m_deleted_at m = m_deleted_at m2"
    if m2: "m2 \<in> set (messages db2)" and c: "message_uids db2 (m_id m2) \<noteq> []" for m2
  proof -
    from conjunct2 [OF K2] m2 c obtain m1 where m1: "m1 \<in> set (messages db1)" "m_id m1 = m_id m2"
      "m_deleted_at m1 = m_deleted_at m2" by blast
    with c assms(3) have "message_uids db1 (m_id m1) \<noteq> []" by simp
    with conjunct2 [OF K1] m1 obtain m where "m \<in> set (messages db)" "m_id m = m_id m1"
      "m_deleted_at m = m_deleted_at m1" by blast
    with m1 show ?thesis by auto
  qed
  ultimately show ?thesis unfolding messages_kept_def by blast
qed

lemma settle_message_kept:
  assumes inv: "t_inv m_id (messages db)" and m: "m \<in> set (messages db)"
    and ok: "settle_message iter now acc m db = Ok db'"
  shows "messages_kept db db'" and "t_inv m_id (messages db')"
proof -
  have same: "x = m" if "x \<in> set (messages db)" "m_id x = m_id m" for x
    using inv m that by (auto simp: t_inv_def dest: distinct_map_eq)
  have uids: "message_uids db' i = message_uids db i" for i
    using settle_message_imapuids [OF ok] by (simp add: message_uids_def)
  show "messages_kept db db'"
  proof (cases "message_uids db (m_id m) = [] \<and> m_is_draft m")
    case True
    with ok have "messages db' = t_del m_id (messages db) (m_id m)"
      by (auto simp: settle_message_def Let_def split: option.splits if_splits)
    with True same uids show ?thesis by (auto simp: messages_kept_def msgs.set_del)
  next
    case False
    with ok obtain a where a: "messages db' = t_put m_id (messages db)
        (if message_uids db (m_id m) = []
         then (update_message_metadata iter db now a m (m_is_draft m))\<lparr>m_deleted_at := Some now\<rparr>
         else update_message_metadata iter db now a m (m_is_draft m))"
      by (auto simp: settle_message_def put_message_def Let_def split: option.splits)
    let ?r = "update_message_metadata iter db now a m (m_is_draft m)"
    have upd: "set (messages db') = set (messages db) - {m} \<union>
        {if message_uids db (m_id m) = [] then ?r\<lparr>m_deleted_at := Some now\<rparr> else ?r}"
      using m same by (auto simp: a msgs.set_put)
    let ?n = "if message_uids db (m_id m) = [] then ?r\<lparr>m_deleted_at := Some now\<rparr> else ?r"
    have n: "m_id ?n = m_id m" "m_is_draft ?n = m_is_draft m"
      "message_uids db (m_id m) \<noteq> [] \<Longrightarrow> m_deleted_at ?n = m_deleted_at m" by simp_all
    have fwd: "\<exists>m'\<in>set (messages db'). m_id m' = m_id x \<and> m_is_draft m' = m_is_draft x"
      if x: "x \<in> set (messages db)" for x
    proof (cases "x = m")
      case True
      have "?n \<in> set (messages db')" using upd by blast
      with n True show ?thesis by blast
    next
      case False
      with x upd have "x \<in> set (messages db')" by blast
      then show ?thesis by blast
    qed
    have bwd: "\<exists>y\<in>set (messages db). m_id y = m_id x \<and> m_deleted_at y = m_deleted_at x"
      if x: "x \<in> set (messages db')" "message_uids db' (m_id x) \<noteq> []" for x
    proof (cases "x = ?n")
      case True
      with x(2) n(1) uids have "message_uids db (m_id m) \<noteq> []" by metis
      with n True m show ?thesis by metis
    next
      case False
      with x upd have "x \<in> set (messages db)" by blast
      then show ?thesis by blast
    qed
    from fwd bwd show ?thesis unfolding messages_kept_def by blast
  qed
  from ok inv show "t_inv m_id (messages db')"
    by (auto simp: settle_message_def put_message_def Let_def msgs.inv_put msgs.inv_del
        split: option.splits if_splits)
qed

lemma remove_uid_kept:
  assumes inv: "t_inv m_id (messages db)" and ok: "remove_uid iter now aid fid uid db = Ok db'"
  shows "messages_kept db db' \<and> t_inv m_id (messages db')"
proof (cases "query_first (filter (\<lambda>u. u_msg_uid u = uid) (folder_uid_rows db aid fid))")
  case None
  with ok inv show ?thesis by (simp add: remove_uid_def messages_kept_refl)
next
  case (Some u)
  let ?db1 = "db\<lparr>imapuids := t_del u_id (imapuids db) (u_id u)\<rparr>"
  show ?thesis
  proof (cases "t_get m_id (messages db) (u_message_id u)")
    case None
    with Some ok have "db' = ?db1" by (simp add: remove_uid_def)
    with inv show ?thesis by (simp add: messages_kept_refl)
  next
    case (Some m)
    with \<open>query_first _ = Some u\<close> ok
    have set: "settle_message iter now (t_get acc_id (accounts db) aid) m ?db1 = Ok db'"
      by (simp add: remove_uid_def)
    from Some have "m \<in> set (messages ?db1)" by (auto dest: t_get_SomeD)
    with settle_message_kept [OF _ _ set] inv have "messages_kept ?db1 db'" "t_inv m_id (messages db')"
      by auto
    then show ?thesis by (auto simp: messages_kept_def)
  qed
qed

lemma remove_deleted_uids_kept:
  assumes "uids_inv db" and "t_inv m_id (messages db)"
    and "remove_deleted_uids iter now aid fid uids db = (db', Ok ())"
  shows "messages_kept db db'"
  using assms
proof (induction uids arbitrary: db)
  case (Cons uid uids)
  from Cons.prems(3) obtain db1 where db1: "remove_uid iter now aid fid uid db = Ok db1"
    "remove_deleted_uids iter now aid fid uids db1 = (db', Ok ())"
    by (auto split: sum.splits)
  have inv1: "uids_inv db1"
    using uids_inv_filter [OF Cons.prems(1) remove_uid_imapuids [OF Cons.prems(1) db1(1)]] .
  note kept = remove_uid_kept [OF Cons.prems(2) db1(1)]
  with Cons.IH [OF inv1 _ db1(2)] have "messages_kept db1 db'" by blast
  with kept show ?case
    using message_uids_filter [OF remove_deleted_uids_imapuids [OF inv1 db1(2)]]
    by (blast intro: messages_kept_trans)
qed (simp add: messages_kept_refl)

lemma local_uids_filter:
  assumes "imapuids db' = filter (\<lambda>u. \<not> (u_account_id u = aid \<and> u_folder_id u = fid \<and> u_msg_uid u \<in> S)) (imapuids db)"
  shows "local_uids db' aid fid None = local_uids db aid fid None - S"
  using assms by (auto simp: local_uids_def folder_uid_rows_def)

end
