(* ===== verification/Folder_Sync.thy ===== *)
theory Folder_Sync
  imports Imap_Common Crispin_Client Retry_Logic "HOL-Library.Option_ord"
begin

text \<open>
  \<open>inbox/mailsync/backends/imap/generic.py\<close>: the sync engine of one folder. Its state is
  the store, the greenlet's own attributes and the IMAP client it holds. What the server
  answers during one call is an argument, and so are the clock readings. An operation
  returns the state it reached together with its outcome: a transaction that raises leaves
  the store as it was, and earlier commits stay. Log lines, metrics, heartbeats and sleeps
  have no effect on this state. Sets the source iterates over are taken in ascending order.
\<close>

section \<open>Engine, environment and server\<close>

definition IDLE_WAIT :: nat where "IDLE_WAIT = 30"
definition FAST_FLAGS_REFRESH_LIMIT :: nat where "FAST_FLAGS_REFRESH_LIMIT = 100"
definition SLOW_FLAGS_REFRESH_LIMIT :: nat where "SLOW_FLAGS_REFRESH_LIMIT = 2000"
definition SLOW_REFRESH_INTERVAL :: int where "SLOW_REFRESH_INTERVAL = seconds 3600"
definition FAST_REFRESH_INTERVAL :: int where "FAST_REFRESH_INTERVAL = seconds 30"
definition MAX_UIDINVALID_RESYNCS :: nat where "MAX_UIDINVALID_RESYNCS = 5"
definition CONDSTORE_FLAGS_REFRESH_BATCH_SIZE :: nat where "CONDSTORE_FLAGS_REFRESH_BATCH_SIZE = 200"

text \<open>
  A column of \<open>ImapFolderInfo\<close> the engine caches: \<open>None\<close> until it is first read. The
  results of earlier flag fetches are kept per limit.
\<close>

record engine =
  en_account_id :: nat
  en_namespace_id :: nat
  en_folder_id :: nat
  en_folder_name :: string
  en_folder_role :: string
  en_state :: "string option"
  en_uidinvalid_count :: nat
  en_uidvalidity :: "nat option option"
  en_uidnext :: "nat option option"
  en_highestmodseq :: "nat option option"
  en_last_slow_refresh :: "datetime option option"
  en_last_fast_refresh :: "datetime option"
  en_flags_fetch_results :: "nat \<rightharpoonup> nat set \<times> uid_flags list"
  en_is_initial_sync :: bool
  en_is_first_sync :: bool
  en_is_first_message :: bool
  en_should_idle :: "bool option"

record sync_sys =
  sy_db :: store
  sy_eng :: engine
  sy_client :: crispin

text \<open>
  The parameters of the code below the engine, the clock at the start and at the end of a
  call, and what a downloaded body is parsed into.
\<close>

record sync_env =
  se_iter :: set_iter
  se_parse :: addr_parser
  se_fresh :: "string \<Rightarrow> string"
  se_parsed :: "raw_imap \<Rightarrow> message_row"
  se_now :: datetime
  se_later :: datetime
  se_user :: string
  se_describe :: "exc \<Rightarrow> string \<times> string \<times> string"

record server =
  sv_client :: crispin
  sv_listing :: "(string list \<times> string \<times> string) list"
  sv_capabilities :: "string list"
  sv_select :: "select_info res"
  sv_uidnext :: "nat option res"
  sv_modseq :: "nat res"
  sv_search :: "nat list res"
  sv_search_alt :: "nat list res"
  sv_fetch_from :: "nat \<Rightarrow> nat list res"
  sv_fetch_bodies :: "nat list \<Rightarrow> fetch_reply res"
  sv_fetch_flags :: "seqset \<Rightarrow> fetch_reply res"
  sv_fetch_changed :: "nat \<Rightarrow> fetch_reply res"
  sv_fetch_one :: "nat \<Rightarrow> fetch_reply res"
  sv_idle_start :: "unit res"
  sv_idle_check :: "unit res"
  sv_idle_done :: "unit res"

type_synonym 'a sync = "(sync_sys, 'a) st"

definition with_db :: "(store \<Rightarrow> (store \<times> 'a) res) \<Rightarrow> 'a sync" where
  "with_db f s =
     (case f (sy_db s) of Inl e \<Rightarrow> (s, Inl e) | Inr (db, x) \<Rightarrow> (s\<lparr>sy_db := db\<rparr>, Inr x))"

definition with_commits :: "(store \<Rightarrow> store \<times> 'a res) \<Rightarrow> 'a sync" where
  "with_commits f s = (let (db, r) = f (sy_db s) in (s\<lparr>sy_db := db\<rparr>, r))"

definition on_engine :: "(engine \<Rightarrow> engine) \<Rightarrow> unit sync" where
  "on_engine f s = (s\<lparr>sy_eng := f (sy_eng s)\<rparr>, Ok ())"

definition on_client :: "(crispin \<Rightarrow> crispin) \<Rightarrow> unit sync" where
  "on_client f s = (s\<lparr>sy_client := f (sy_client s)\<rparr>, Ok ())"

definition st_seq :: "(unit sync) \<Rightarrow> 'b sync \<Rightarrow> 'b sync" where
  "st_seq f g = st_bind f (\<lambda>_. g)"

text \<open>The client answers in the way of its class.\<close>

definition client_uids :: "server \<Rightarrow> crispin \<Rightarrow> nat list \<Rightarrow> raw_imap list res" where
  "client_uids sv cr uids =
     (if cr_gmail cr then gmail_uids (sv_fetch_bodies sv) uids
      else generic_uids (\<lambda>u. sv_fetch_bodies sv [u]) uids)"

definition client_changed_flags :: "server \<Rightarrow> crispin \<Rightarrow> nat \<Rightarrow> changed_flags list res" where
  "client_changed_flags sv cr modseq =
     res_bind (sv_fetch_changed sv modseq) (\<lambda>d.
       if cr_gmail cr then gmail_changed_flags (sv_fetch_one sv) d else generic_changed_flags d)"

section \<open>Folder info\<close>

definition folder_info_rows :: "store \<Rightarrow> nat \<Rightarrow> nat \<Rightarrow> folder_info_row list" where
  "folder_info_rows db aid fid = filter (\<lambda>i. fi_account_id i = aid \<and> fi_folder_id i = fid) (folder_infos db)"

definition load_folder_info :: "sync_sys \<Rightarrow> folder_info_row res" where
  "load_folder_info s =
     query_one (folder_info_rows (sy_db s) (en_account_id (sy_eng s)) (en_folder_id (sy_eng s)))"

definition update_folder_info :: "(folder_info_row \<Rightarrow> folder_info_row) \<Rightarrow> unit sync" where
  "update_folder_info f s =
     (case load_folder_info s of
        Inl e \<Rightarrow> (s, Raise e)
      | Inr i \<Rightarrow> (s\<lparr>sy_db := (sy_db s)\<lparr>folder_infos := t_put fi_id (folder_infos (sy_db s)) (f i)\<rparr>\<rparr>, Ok ()))"

definition uidvalidity :: "nat option sync" where
  "uidvalidity s =
     (case en_uidvalidity (sy_eng s) of
        Some v \<Rightarrow> (s, Ok v)
      | None \<Rightarrow> (case load_folder_info s of
                   Inl e \<Rightarrow> (s, Raise e)
                 | Inr i \<Rightarrow> (s\<lparr>sy_eng := (sy_eng s)\<lparr>en_uidvalidity := Some (fi_uidvalidity i)\<rparr>\<rparr>, Ok (fi_uidvalidity i))))"

definition uidnext :: "nat option sync" where
  "uidnext s =
     (case en_uidnext (sy_eng s) of
        Some v \<Rightarrow> (s, Ok v)
      | None \<Rightarrow> (case load_folder_info s of
                   Inl e \<Rightarrow> (s, Raise e)
                 | Inr i \<Rightarrow> (s\<lparr>sy_eng := (sy_eng s)\<lparr>en_uidnext := Some (fi_uidnext i)\<rparr>\<rparr>, Ok (fi_uidnext i))))"

definition last_slow_refresh :: "datetime option sync" where
  "last_slow_refresh s =
     (case en_last_slow_refresh (sy_eng s) of
        Some v \<Rightarrow> (s, Ok v)
      | None \<Rightarrow> (case load_folder_info s of
                   Inl e \<Rightarrow> (s, Raise e)
                 | Inr i \<Rightarrow> (s\<lparr>sy_eng := (sy_eng s)\<lparr>en_last_slow_refresh := Some (fi_last_slow_refresh i)\<rparr>\<rparr>,
                            Ok (fi_last_slow_refresh i))))"

definition highestmodseq :: "nat option sync" where
  "highestmodseq s =
     (case en_highestmodseq (sy_eng s) of
        Some v \<Rightarrow> (s, Ok v)
      | None \<Rightarrow> (case load_folder_info s of
                   Inl e \<Rightarrow> (s, Raise e)
                 | Inr i \<Rightarrow> (s\<lparr>sy_eng := (sy_eng s)\<lparr>en_highestmodseq := Some (fi_highestmodseq i)\<rparr>\<rparr>,
                            Ok (fi_highestmodseq i))))"

text \<open>Only \<open>highestmodseq\<close> sets the cached value before the row.\<close>

definition set_uidvalidity :: "nat option \<Rightarrow> unit sync" where
  "set_uidvalidity v =
     st_seq (update_folder_info (\<lambda>i. i\<lparr>fi_uidvalidity := v\<rparr>)) (on_engine (\<lambda>e. e\<lparr>en_uidvalidity := Some v\<rparr>))"

definition set_uidnext :: "nat option \<Rightarrow> unit sync" where
  "set_uidnext v =
     st_seq (update_folder_info (\<lambda>i. i\<lparr>fi_uidnext := v\<rparr>)) (on_engine (\<lambda>e. e\<lparr>en_uidnext := Some v\<rparr>))"

definition set_last_slow_refresh :: "datetime option \<Rightarrow> unit sync" where
  "set_last_slow_refresh v =
     st_seq (update_folder_info (\<lambda>i. i\<lparr>fi_last_slow_refresh := v\<rparr>))
       (on_engine (\<lambda>e. e\<lparr>en_last_slow_refresh := Some v\<rparr>))"

definition set_highestmodseq :: "nat option \<Rightarrow> unit sync" where
  "set_highestmodseq v =
     st_seq (on_engine (\<lambda>e. e\<lparr>en_highestmodseq := Some v\<rparr>)) (update_folder_info (\<lambda>i. i\<lparr>fi_highestmodseq := v\<rparr>))"

section \<open>Selecting the folder\<close>

definition uidvalidity_ok :: "nat option \<Rightarrow> nat \<Rightarrow> bool" where
  "uidvalidity_ok saved selected \<longleftrightarrow> (case saved of None \<Rightarrow> True | Some v \<Rightarrow> selected \<le> v)"

definition engine_uidvalidity_cb :: "sync_sys \<Rightarrow> validity_cb" where
  "engine_uidvalidity_cb s aid folder info =
     (if folder \<noteq> en_folder_name (sy_eng s) \<or> aid \<noteq> en_account_id (sy_eng s) then Raise AssertionError
      else res_bind (snd (uidvalidity s)) (\<lambda>saved.
        if uidvalidity_ok saved (si_uidvalidity info) then Ok info else Raise UidInvalid))"

text \<open>The callback of the module, which reads the row by folder name.\<close>

definition module_uidvalidity_cb :: "store \<Rightarrow> validity_cb" where
  "module_uidvalidity_cb db aid folder info =
     res_bind (get_folder_info db aid folder) (\<lambda>row.
       case row of
         None \<Rightarrow> Ok info
       | Some i \<Rightarrow> if uidvalidity_ok (fi_uidvalidity i) (si_uidvalidity info) then Ok info else Raise UidInvalid)"

definition select_with :: "server \<Rightarrow> (sync_sys \<Rightarrow> validity_cb) \<Rightarrow> select_info sync" where
  "select_with sv cb s =
     (let (cr, r) = select_folder (sv_select sv) (en_folder_name (sy_eng s)) (cb s) (sy_client s)
      in (s\<lparr>sy_client := cr\<rparr>, r))"

text \<open>Running the engine's callback may load the saved validity into the cache.\<close>

definition engine_select :: "server \<Rightarrow> select_info sync" where
  "engine_select sv s =
     (let (s1, r) = select_with sv engine_uidvalidity_cb s
      in case sv_select sv of
           Inl _ \<Rightarrow> (s1, r)
         | Inr _ \<Rightarrow> (fst (uidvalidity s1), r))"

section \<open>Downloading\<close>

text \<open>
  How a new message gets its thread differs between the engines. Events attached to the message, which the method imports
  in the end, concern the tables of events only; \<open>Ical_Import\<close> models their import.
\<close>

definition create_message_with ::
  "(store \<Rightarrow> raw_imap \<Rightarrow> message_row \<Rightarrow> store res) \<Rightarrow> sync_env \<Rightarrow> account_row option \<Rightarrow> folder_row option
     \<Rightarrow> raw_imap \<Rightarrow> store \<Rightarrow> (store \<times> imapuid_row option) res" where
  "create_message_with add_to_thread env acct folder msg db =
     (case acct of
        None \<Rightarrow> Raise AssertionError
      | Some acc \<Rightarrow>
        (case folder of
           None \<Rightarrow> Raise AttributeError
         | Some fld \<Rightarrow>
           (if filter (\<lambda>u. u_msg_uid u = ri_uid msg) (folder_uid_rows db (acc_id acc) (fld_id fld)) \<noteq> []
            then Ok (db, None)
            else if ri_body msg = None then Ok (db, None)
            else res_bind (create_imap_message (se_iter env) (se_parse env) (se_fresh env) (se_now env) acc fld
                   \<lparr>rm_uid = ri_uid msg, rm_flags = ri_flags msg, rm_has_body = True, rm_g_labels = ri_labels msg,
                    rm_parsed = se_parsed env msg\<rparr> db)
                 (\<lambda>(db1, u, m). res_bind (add_to_thread db1 msg m) (\<lambda>db2. Ok (db2, Some u))))))"

definition create_message ::
  "sync_env \<Rightarrow> nat \<Rightarrow> account_row option \<Rightarrow> folder_row option \<Rightarrow> raw_imap \<Rightarrow> store
     \<Rightarrow> (store \<times> imapuid_row option) res" where
  "create_message env nid = create_message_with (\<lambda>db msg m. Ok (add_message_to_thread db nid m)) env"

lemmas create_message_defs = create_message_def create_message_with_def

fun create_messages ::
  "sync_env \<Rightarrow> nat \<Rightarrow> account_row option \<Rightarrow> folder_row option \<Rightarrow> raw_imap list \<Rightarrow> store \<Rightarrow> (store \<times> nat) res" where
  "create_messages env nid acct folder [] db = Ok (db, 0)"
| "create_messages env nid acct folder (msg # msgs) db =
     res_bind (create_message env nid acct folder msg db) (\<lambda>(db1, uid).
       res_bind (create_messages env nid acct folder msgs db1) (\<lambda>(db2, n).
         Ok (db2, (if uid = None then n else Suc n))))"

definition download_and_commit_uids :: "sync_env \<Rightarrow> server \<Rightarrow> nat list \<Rightarrow> nat sync" where
  "download_and_commit_uids env sv uids s =
     (case client_uids sv (sy_client s) uids of
        Inl e \<Rightarrow> (s, Raise e)
      | Inr [] \<Rightarrow> (s, Ok 0)
      | Inr msgs \<Rightarrow>
          st_bind (with_db (\<lambda>db. create_messages env (en_namespace_id (sy_eng s))
              (t_get acc_id (accounts db) (en_account_id (sy_eng s)))
              (t_get fld_id (folders db) (en_folder_id (sy_eng s))) msgs db))
            (\<lambda>n. st_bind (on_engine (\<lambda>e. e\<lparr>en_is_first_message := False\<rparr>)) (\<lambda>_. st_ok n)) s)"

fun download_each :: "sync_env \<Rightarrow> server \<Rightarrow> nat list \<Rightarrow> unit sync" where
  "download_each env sv [] = st_ok ()"
| "download_each env sv (uid # uids) =
     st_bind (download_and_commit_uids env sv [uid]) (\<lambda>_. download_each env sv uids)"

section \<open>New UIDs\<close>

fun status_uidnext :: "nat option res \<Rightarrow> nat option res" where
  "status_uidnext (Inr v) = Ok v"
| "status_uidnext (Inl (ValueError msg)) = Ok None"
| "status_uidnext (Inl (Imap4Error msg)) =
     Raise (if str_contains ''[NONEXISTENT]'' msg then FolderMissingError else Imap4Error msg)"
| "status_uidnext (Inl e) = Raise e"

definition engine_lastseenuid :: "sync_sys \<Rightarrow> nat" where
  "engine_lastseenuid s = lastseenuid (sy_db s) (en_account_id (sy_eng s)) (en_folder_id (sy_eng s))"

definition engine_local_uids :: "nat option \<Rightarrow> sync_sys \<Rightarrow> nat set" where
  "engine_local_uids limit s = local_uids (sy_db s) (en_account_id (sy_eng s)) (en_folder_id (sy_eng s)) limit"

definition fetch_new_uids :: "sync_env \<Rightarrow> server \<Rightarrow> nat option \<Rightarrow> unit sync" where
  "fetch_new_uids env sv remote_uidnext =
     st_bind (engine_select sv) (\<lambda>_ s.
       let last = engine_lastseenuid s
       in st_bind (st_res (sv_fetch_from sv (last + 1))) (\<lambda>latest.
            st_seq (download_each env sv (sort (remdups (filter (\<lambda>u. u \<noteq> last) latest))))
              (set_uidnext remote_uidnext)) s)"

definition get_new_uids :: "sync_env \<Rightarrow> server \<Rightarrow> unit sync" where
  "get_new_uids env sv =
     st_bind (st_res (status_uidnext (sv_uidnext sv))) (\<lambda>remote_uidnext.
       if remote_uidnext = None then fetch_new_uids env sv None
       else st_bind uidnext (\<lambda>saved.
         if remote_uidnext = saved then st_ok () else fetch_new_uids env sv remote_uidnext))"

section \<open>Flag changes\<close>

definition engine_remove_deleted_uids :: "sync_env \<Rightarrow> nat set \<Rightarrow> unit sync" where
  "engine_remove_deleted_uids env uids s =
     with_commits (remove_deleted_uids (se_iter env) (se_now env) (en_account_id (sy_eng s))
       (en_folder_id (sy_eng s)) (sorted_list_of_set uids)) s"

definition engine_update_metadata :: "sync_env \<Rightarrow> uid_flags list \<Rightarrow> unit sync" where
  "engine_update_metadata env fl s =
     with_commits (update_metadata (se_iter env) (se_now env) (en_account_id (sy_eng s))
       (en_folder_id (sy_eng s)) (en_folder_role (sy_eng s)) fl) s"

definition batch_flags :: "changed_flags list \<Rightarrow> uid_flags list" where
  "batch_flags = map (\<lambda>(uid, _, flags, ls). (uid, flags, ls))"

text \<open>
  Changes are persisted in ascending order of their modseq, in batches; a full batch is
  followed by a checkpoint at its largest modseq.
\<close>

definition batch_checkpoint :: "changed_flags list \<Rightarrow> nat option" where
  "batch_checkpoint batch = Max (set (map (\<lambda>c. fst (snd c)) batch))"

definition condstore_batches :: "changed_flags list \<Rightarrow> changed_flags list list" where
  "condstore_batches changed = chunk CONDSTORE_FLAGS_REFRESH_BATCH_SIZE (sort_key (\<lambda>c. fst (snd c)) changed)"

fun refresh_batches :: "sync_env \<Rightarrow> changed_flags list list \<Rightarrow> unit sync" where
  "refresh_batches env [] = st_ok ()"
| "refresh_batches env (batch # batches) =
     st_seq (engine_update_metadata env (batch_flags batch))
       (st_seq (if length batch = CONDSTORE_FLAGS_REFRESH_BATCH_SIZE
                then set_highestmodseq (batch_checkpoint batch)
                else st_ok ())
          (refresh_batches env batches))"

definition expunge_missing :: "sync_env \<Rightarrow> server \<Rightarrow> nat list \<Rightarrow> unit sync" where
  "expunge_missing env sv remote_uids s =
     (let expunged = engine_local_uids None s - set remote_uids
      in if expunged = {} then (s, Ok ())
         else st_seq (if remote_uids \<noteq> [] \<and> engine_lastseenuid s < Max (set remote_uids)
                      then get_new_uids env sv else st_ok ())
                (engine_remove_deleted_uids env expunged) s)"

definition condstore_refresh_flags :: "sync_env \<Rightarrow> server \<Rightarrow> server \<Rightarrow> unit sync" where
  "condstore_refresh_flags env sv sv2 =
     st_bind (st_res (sv_modseq sv)) (\<lambda>new.
       st_bind highestmodseq (\<lambda>saved0.
         st_seq (if saved0 = None then set_highestmodseq (Some new) else st_ok ())
           (let saved = (case saved0 of None \<Rightarrow> new | Some h \<Rightarrow> h)
            in if new \<le> saved then st_ok ()
               else st_bind (engine_select sv) (\<lambda>_.
                 st_bind (\<lambda>s. st_res (client_changed_flags sv (sy_client s) saved) s) (\<lambda>changed.
                   st_bind (st_res (all_uids (sv_search sv) (sv_search_alt sv))) (\<lambda>remote_uids.
                     st_seq (refresh_batches env (condstore_batches changed))
                       (st_seq (expunge_missing env sv2 remote_uids)
                          (set_highestmodseq (Some new)))))))))"

text \<open>Two flag dictionaries are compared by their entries in UID order.\<close>

definition canonical_flags :: "uid_flags list \<Rightarrow> uid_flags list" where
  "canonical_flags fl = map (\<lambda>u. (u, the (dict_of fl u))) (sorted_keys fl)"

definition refresh_flags_impl :: "sync_env \<Rightarrow> server \<Rightarrow> nat \<Rightarrow> unit sync" where
  "refresh_flags_impl env sv max_uids =
     st_bind (engine_select sv) (\<lambda>_ s.
       let uids = engine_local_uids (Some max_uids) s
       in st_bind (st_res (crispin_flags (cr_gmail (sy_client s)) (sv_fetch_flags sv) (sorted_list_of_set uids)))
            (\<lambda>flags.
              let result = (uids, canonical_flags flags)
              in if en_flags_fetch_results (sy_eng s) max_uids = Some result then st_ok ()
                 else st_seq (engine_remove_deleted_uids env (uids - fst ` set flags))
                   (st_seq (engine_update_metadata env flags)
                     (on_engine (\<lambda>e. e\<lparr>en_flags_fetch_results := (en_flags_fetch_results e)(max_uids \<mapsto> result)\<rparr>)))) s)"

definition generic_refresh_flags :: "sync_env \<Rightarrow> server \<Rightarrow> unit sync" where
  "generic_refresh_flags env sv =
     st_bind last_slow_refresh (\<lambda>slow s.
       let slow_due = (case slow of None \<Rightarrow> True | Some t \<Rightarrow> se_now env > t + SLOW_REFRESH_INTERVAL);
           fast_due = (case en_last_fast_refresh (sy_eng s) of
                         None \<Rightarrow> True | Some t \<Rightarrow> se_now env > t + FAST_REFRESH_INTERVAL)
       in (if slow_due
           then st_seq (refresh_flags_impl env sv SLOW_FLAGS_REFRESH_LIMIT)
                  (set_last_slow_refresh (Some (se_later env)))
           else if fast_due
           then st_seq (refresh_flags_impl env sv FAST_FLAGS_REFRESH_LIMIT)
                  (on_engine (\<lambda>e. e\<lparr>en_last_fast_refresh := Some (se_later env)\<rparr>))
           else st_ok ()) s)"

text \<open>The three servers answer for new UIDs, for flags, and for UIDs fetched before an expunge.\<close>

record sync_input =
  in_env :: sync_env
  in_sv :: server
  in_sv2 :: server
  in_sv3 :: server

definition check_uid_changes :: "sync_input \<Rightarrow> unit sync" where
  "check_uid_changes i =
     st_seq (get_new_uids (in_env i) (in_sv i))
       (if condstore_supported (sv_capabilities (in_sv i))
        then condstore_refresh_flags (in_env i) (in_sv2 i) (in_sv3 i)
        else generic_refresh_flags (in_env i) (in_sv2 i))"

section \<open>Polling\<close>

definition should_idle :: "server \<Rightarrow> bool sync" where
  "should_idle sv s =
     (case en_should_idle (sy_eng s) of
        Some b \<Rightarrow> (s, Ok b)
      | None \<Rightarrow>
          (if ''IDLE'' \<notin> set (sv_capabilities sv)
           then (s\<lparr>sy_eng := (sy_eng s)\<lparr>en_should_idle := Some False\<rparr>\<rparr>, Ok False)
           else case folders_with_role ''inbox'' (Ok (sv_listing sv)) (sy_client s) of
                  (cr, Inl e) \<Rightarrow> (s\<lparr>sy_client := cr\<rparr>, Raise e)
                | (cr, Inr ns) \<Rightarrow>
                    (let b = en_folder_name (sy_eng s) \<in> set ns
                     in (s\<lparr>sy_client := cr, sy_eng := (sy_eng s)\<lparr>en_should_idle := Some b\<rparr>\<rparr>, Ok b))))"

text \<open>The client leaves IDLE mode again even when waiting fails.\<close>

definition crispin_idle :: "server \<Rightarrow> unit res" where
  "crispin_idle sv =
     res_bind (sv_idle_start sv) (\<lambda>_.
       case sv_idle_check sv of
         Inl e \<Rightarrow> res_bind (sv_idle_done sv) (\<lambda>_. Raise e)
       | Inr _ \<Rightarrow> sv_idle_done sv)"

definition unexpected_idle :: "exc \<Rightarrow> bool" where
  "unexpected_idle e =
     (case imap4_message e of None \<Rightarrow> False | Some msg \<Rightarrow> take 24 msg = ''Unexpected IDLE response'')"

definition idle_or_not :: "server \<Rightarrow> unit res" where
  "idle_or_not sv =
     (case crispin_idle sv of
        Inr u \<Rightarrow> Ok ()
      | Inl e \<Rightarrow>
          (if unexpected_idle e
           then (case sv_idle_done sv of Inr u \<Rightarrow> Ok () | Inl e' \<Rightarrow> if e' = AttributeError then Ok () else Raise e')
           else Raise e))"

definition poll_impl :: "sync_input \<Rightarrow> unit sync" where
  "poll_impl i =
     st_seq (on_client (\<lambda>_. sv_client (in_sv i)))
       (st_seq (check_uid_changes i)
          (st_bind (should_idle (in_sv i)) (\<lambda>b.
             if b then st_bind (engine_select (in_sv i)) (\<lambda>_. st_res (idle_or_not (in_sv i)))
             else st_ok ())))"

definition poll :: "sync_input \<Rightarrow> string sync" where
  "poll i = st_seq (poll_impl i) (st_ok ''poll'')"

section \<open>Initial sync\<close>

definition update_uid_counts :: "datetime \<Rightarrow> nat option \<Rightarrow> (string \<times> sval) list \<Rightarrow> unit sync" where
  "update_uid_counts now remote_uid_count others s =
     with_db (\<lambda>db.
       res_bind (query_one (filter (\<lambda>f. fs_account_id f = en_account_id (sy_eng s) \<and>
                   (\<exists>fld\<in>set (folders db). fld_id fld = fs_folder_id f \<and> fld_name fld = en_folder_name (sy_eng s)))
                   (fsyncs db))) (\<lambda>row.
         res_bind (update_metrics
             ((case remote_uid_count of
                 None \<Rightarrow> []
               | Some n \<Rightarrow> [(''uid_checked_timestamp'', VTime now), (''remote_uid_count'', VInt (int n))]) @ others) row)
           (\<lambda>row'. Ok (db\<lparr>fsyncs := t_put fs_id (fsyncs db) row'\<rparr>, ())))) s"

text \<open>
  While the folder is downloaded, a second greenlet polls it for changes. \<open>polls\<close> is what
  that greenlet does before a download: the inputs of its successive rounds. It retries
  connection errors, and any other exception ends it and nothing else.
\<close>

fun poller_runs :: "sync_input list \<Rightarrow> bool \<times> sync_sys \<Rightarrow> bool \<times> sync_sys" where
  "poller_runs [] st = st"
| "poller_runs (i # is) (alive, s) =
     (if \<not> alive then (False, s)
      else case poll_impl i s of
             (s', Inr _) \<Rightarrow> poller_runs is (True, s')
           | (s', Inl e) \<Rightarrow> poller_runs is (conn_retry_exc e, s'))"

fun download_all :: "sync_env \<Rightarrow> server \<Rightarrow> sync_input list list \<Rightarrow> bool \<Rightarrow> nat list \<Rightarrow> unit sync" where
  "download_all env sv polls alive [] s = (s, Ok ())"
| "download_all env sv polls alive (uid # uids) s =
     (let (alive', s1) = poller_runs (case polls of [] \<Rightarrow> [] | p # _ \<Rightarrow> p) (alive, s);
          s2 = s1\<lparr>sy_client := sy_client s\<rparr>
      in st_bind (download_and_commit_uids env sv [uid])
           (\<lambda>_. download_all env sv (tl polls) alive' uids) s2)"

definition initial_sync_impl :: "sync_input \<Rightarrow> sync_input list list \<Rightarrow> unit sync" where
  "initial_sync_impl i polls =
     st_bind (st_res (all_uids (sv_search (in_sv i)) (sv_search_alt (in_sv i)))) (\<lambda>remote s.
       let locals = engine_local_uids None s; new_uids = set remote - locals
       in st_seq (engine_remove_deleted_uids (in_env i) (locals - set remote))
            (st_seq (\<lambda>t. if t_get acc_id (accounts (sy_db t)) (en_account_id (sy_eng t)) = None
                          then (t, Raise AttributeError) else (t, Ok ()))
              (st_seq (update_uid_counts (se_now (in_env i)) (Some (length remote))
                        [(''download_uid_count'', VInt (int (card new_uids)))])
                (download_all (in_env i) (in_sv i) polls True (rev (sorted_list_of_set new_uids))))) s)"

definition report_initial_sync_start :: "datetime \<Rightarrow> unit sync" where
  "report_initial_sync_start now s =
     with_db (\<lambda>db. case t_get fld_id (folders db) (en_folder_id (sy_eng s)) of
       None \<Rightarrow> Raise AttributeError
     | Some f \<Rightarrow> Ok (db\<lparr>folders := t_put fld_id (folders db) (f\<lparr>fld_initial_sync_start := Some now\<rparr>)\<rparr>, ())) s"

definition report_initial_sync_end :: "datetime \<Rightarrow> unit sync" where
  "report_initial_sync_end now s =
     with_db (\<lambda>db. case t_get fld_id (folders db) (en_folder_id (sy_eng s)) of
       None \<Rightarrow> Raise AttributeError
     | Some f \<Rightarrow> Ok (db\<lparr>folders := t_put fld_id (folders db) (f\<lparr>fld_initial_sync_end := Some now\<rparr>)\<rparr>, ())) s"

definition ensure_folder_info :: "select_info \<Rightarrow> unit sync" where
  "ensure_folder_info info s =
     with_db (\<lambda>db. case folder_info_rows db (en_account_id (sy_eng s)) (en_folder_id (sy_eng s)) of
         [] \<Rightarrow> Ok (db\<lparr>folder_infos := t_add (folder_infos db)
                  \<lparr>fi_id = t_next fi_id (folder_infos db), fi_account_id = en_account_id (sy_eng s),
                   fi_folder_id = en_folder_id (sy_eng s), fi_uidvalidity = Some (si_uidvalidity info),
                   fi_highestmodseq = None, fi_uidnext = si_uidnext info, fi_last_slow_refresh = None\<rparr>\<rparr>, ())
       | [i] \<Rightarrow> Ok (db, ())
       | _ \<Rightarrow> Raise MultipleResultsFound) s"

definition initial_sync :: "sync_input \<times> sync_input list list \<Rightarrow> string sync" where
  "initial_sync ip =
     (let (i, polls) = ip; now = se_now (in_env i)
      in st_seq (\<lambda>s. (if en_is_first_sync (sy_eng s)
                      then st_seq (report_initial_sync_start now) (on_engine (\<lambda>e. e\<lparr>en_is_first_sync := False\<rparr>))
                      else st_ok ()) s)
           (st_seq (on_client (\<lambda>_. sv_client (in_sv i)))
             (st_bind (select_with (in_sv i) (\<lambda>s. module_uidvalidity_cb (sy_db s))) (\<lambda>info.
               st_seq (ensure_folder_info info)
                 (st_seq (initial_sync_impl i polls)
                   (st_seq (\<lambda>s. (if en_is_initial_sync (sy_eng s)
                                 then st_seq (report_initial_sync_end (se_later (in_env i)))
                                        (on_engine (\<lambda>e. e\<lparr>en_is_initial_sync := False\<rparr>))
                                 else st_ok ()) s)
                     (st_ok ''poll'')))))))"

section \<open>Resyncing after a change of UIDVALIDITY\<close>

text \<open>In Python 2 no number is below \<open>None\<close>, so an unset saved validity is never current.\<close>

definition resync_uids_impl :: "sync_input \<Rightarrow> unit sync" where
  "resync_uids_impl i =
     st_seq (on_client (\<lambda>_. sv_client (in_sv i)))
       (st_bind (select_with (in_sv i) (\<lambda>s aid folder info. Ok info)) (\<lambda>info.
          st_bind uidvalidity (\<lambda>saved.
            if (case saved of None \<Rightarrow> False | Some v \<Rightarrow> si_uidvalidity info \<le> v) then st_ok ()
            else st_seq (\<lambda>s. engine_remove_deleted_uids (in_env i) (engine_local_uids None s) s)
                   (st_seq (set_uidvalidity (Some (si_uidvalidity info)))
                     (st_seq (set_highestmodseq None) (set_uidnext (si_uidnext info)))))))"

definition resync_uids :: "sync_input \<Rightarrow> string sync" where
  "resync_uids i = st_seq (resync_uids_impl i) (st_ok ''initial'')"

end
