(* ===== verification/Folder_Engine.thy ===== *)
theory Folder_Engine
  imports Folder_Sync
begin

text \<open>
  The run loop of the folder sync engine (\<open>_run\<close>, \<open>_run_impl\<close> and
  \<open>update_folder_sync_status\<close> of \<open>inbox/mailsync/backends/imap/generic.py\<close>): its states,
  the counter of resyncs, and what each exception of a handler leads to. An iteration of the
  loop is a step of a transition system.
\<close>

section \<open>The folder's sync status\<close>

definition fsync_rows :: "store \<Rightarrow> nat \<Rightarrow> nat \<Rightarrow> fsync_row list" where
  "fsync_rows db aid fid = filter (\<lambda>f. fs_account_id f = aid \<and> fs_folder_id f = fid) (fsyncs db)"

text \<open>
  A new row is in state \<open>initial\<close> with empty metrics, unless the callback sets them;
  inserting it fails when its folder is gone. The engine's state is read back from the row.
\<close>

definition new_status_row :: "store \<Rightarrow> nat \<Rightarrow> nat \<Rightarrow> fsync_row" where
  "new_status_row db aid fid =
     \<lparr>fs_id = t_next fs_id (fsyncs db), fs_account_id = aid, fs_folder_id = fid, fs_state = ''initial'',
      fs_metrics = None, fs_sync_should_run = True\<rparr>"

definition save_status :: "(fsync_row \<Rightarrow> fsync_row res) \<Rightarrow> nat \<Rightarrow> nat \<Rightarrow> store \<Rightarrow> (store \<times> string) res" where
  "save_status cb aid fid db =
     (case fsync_rows db aid fid of
        [] \<Rightarrow> res_bind (cb (new_status_row db aid fid)) (\<lambda>row.
               if t_get fld_id (folders db) fid = None then Raise IntegrityError
               else Ok (db\<lparr>fsyncs := t_add (fsyncs db)
                        (row\<lparr>fs_metrics := Some (case fs_metrics row of None \<Rightarrow> Map.empty | Some d \<Rightarrow> d)\<rparr>)\<rparr>,
                        fs_state row))
      | [old] \<Rightarrow> res_bind (cb old) (\<lambda>row. Ok (db\<lparr>fsyncs := t_put fs_id (fsyncs db) row\<rparr>, fs_state row))
      | _ \<Rightarrow> Raise MultipleResultsFound)"

definition update_folder_sync_status :: "(fsync_row \<Rightarrow> fsync_row res) \<Rightarrow> unit sync" where
  "update_folder_sync_status cb s =
     st_bind (with_db (save_status cb (en_account_id (sy_eng s)) (en_folder_id (sy_eng s))))
       (\<lambda>st. on_engine (\<lambda>e. e\<lparr>en_state := Some st\<rparr>)) s"

definition set_stopped :: "datetime \<Rightarrow> unit sync" where
  "set_stopped now = update_folder_sync_status (stop_sync now)"

section \<open>One iteration\<close>

text \<open>
  The attempts the retrying handler makes, each with what the server then answers, and the
  clock and error text of the handlers of exceptions.
\<close>

record run_input =
  ri_attempts :: "(sync_input \<times> sync_input list list) list"
  ri_now :: datetime
  ri_user :: string
  ri_error :: "string \<times> string \<times> string"

definition state_handler :: "string option \<Rightarrow> (sync_input \<times> sync_input list list \<Rightarrow> string sync) option" where
  "state_handler st =
     (if st = Some ''initial'' then Some initial_sync
      else if st = Some ''initial uidinvalid'' then Some (\<lambda>ip. resync_uids (fst ip))
      else if st = Some ''poll'' then Some (\<lambda>ip. poll (fst ip))
      else if st = Some ''poll uidinvalid'' then Some (\<lambda>ip. resync_uids (fst ip))
      else None)"

definition run_handler :: "run_input \<Rightarrow> sync_sys \<Rightarrow> sync_sys \<times> string res option" where
  "run_handler inp s =
     (case state_handler (en_state (sy_eng s)) of
        None \<Rightarrow> (s, Some (Raise KeyError))
      | Some h \<Rightarrow> retry_crispin h (ri_attempts inp) s)"

definition change_account :: "(account_row \<Rightarrow> account_row) \<Rightarrow> unit sync" where
  "change_account f s =
     with_db (\<lambda>db. case t_get acc_id (accounts db) (en_account_id (sy_eng s)) of
       None \<Rightarrow> Raise AttributeError
     | Some a \<Rightarrow> Ok (db\<lparr>accounts := t_put acc_id (accounts db) (f a)\<rparr>, ())) s"

definition resync_limit_reached :: "run_input \<Rightarrow> unit sync" where
  "resync_limit_reached inp =
     st_seq (change_account (\<lambda>a. (disable_sync (ri_now inp) (ri_user inp) ''Detected endless uidvalidity resync loop'' a)
               \<lparr>acc_sync_state := Some Stopped\<rparr>))
       (st_raise MailsyncDone)"

text \<open>What is done after the handler, unless its exception is passed on.\<close>

definition finish_run :: "string option \<Rightarrow> unit sync" where
  "finish_run old s =
     (let st = en_state (sy_eng s)
      in st_seq (if st \<noteq> old
                 then update_folder_sync_status (\<lambda>row. Ok (row\<lparr>fs_state := the st\<rparr>))
                 else st_ok ())
           (\<lambda>t. (if en_state (sy_eng t) = old \<and> en_state (sy_eng t) \<in> {Some ''initial'', Some ''poll''}
                  then on_engine (\<lambda>e. e\<lparr>en_uidinvalid_count := 0\<rparr>) else st_ok ()) t) s)"

definition enter_uidinvalid :: "engine \<Rightarrow> engine" where
  "enter_uidinvalid e =
     e\<lparr>en_state := Some (the (en_state e) @ '' uidinvalid''), en_uidinvalid_count := Suc (en_uidinvalid_count e)\<rparr>"

definition uidinvalid_run :: "run_input \<Rightarrow> string option \<Rightarrow> unit sync" where
  "uidinvalid_run inp old =
     st_seq (on_engine enter_uidinvalid)
       (\<lambda>s. if en_uidinvalid_count (sy_eng s) > MAX_UIDINVALID_RESYNCS then resync_limit_reached inp s
             else finish_run old s)"

definition invalid_account_run :: "run_input \<Rightarrow> unit sync" where
  "invalid_account_run inp =
     st_seq (change_account (\<lambda>a. update_sync_error (Some (ri_error inp))
               (mark_invalid (ri_now inp) (ri_user inp) ''invalid credentials'' ''mail'' a)))
       (st_raise MailsyncDone)"

definition after_handler :: "run_input \<Rightarrow> string option \<Rightarrow> string res \<Rightarrow> unit sync" where
  "after_handler inp old r =
     (case r of
        Inr st \<Rightarrow> st_seq (on_engine (\<lambda>e. e\<lparr>en_state := Some st\<rparr>)) (finish_run old)
      | Inl e \<Rightarrow>
          (if e = UidInvalid then uidinvalid_run inp old
           else if e = FolderMissingError then st_raise MailsyncDone
           else if e = ValidationError then invalid_account_run inp
           else st_raise e))"

definition run_impl :: "run_input \<Rightarrow> sync_sys \<Rightarrow> sync_sys \<times> unit res option" where
  "run_impl inp s =
     (case run_handler inp s of
        (s1, None) \<Rightarrow> (s1, None)
      | (s1, Some r) \<Rightarrow> (let (s2, r2) = after_handler inp (en_state (sy_eng s)) r s1 in (s2, Some r2)))"

definition start_run :: "datetime \<Rightarrow> unit sync" where
  "start_run now s =
     (case update_folder_sync_status (\<lambda>row. Ok (start_sync now row)) s of
        (s', Inl e) \<Rightarrow> (s', Raise (if e = IntegrityError then MailsyncDone else e))
      | (s', Inr u) \<Rightarrow> (s', Ok ()))"

end
