(* ===== verification/Folder_Facts.thy ===== *)
theory Folder_Facts
  imports Folder_Engine
begin

text \<open>
  Facts about the folder sync engine: what its operations leave alone (its identity, state
  and counter), what a download and a removal do to the UIDs of the folder, and that the
  downloads of an initial sync make the local UIDs those of the server.
\<close>

section \<open>The UIDs one downloaded message adds\<close>

lemma category_find_or_create_imapuids:
  "category_find_or_create db nid name dn ty = Ok (db', c) \<Longrightarrow> imapuids db' = imapuids db"
  by (auto simp: category_find_or_create_def Let_def split: list.splits if_split_asm)

lemma label_find_or_create_imapuids:
  "label_find_or_create db acc name role = Ok (db', l) \<Longrightarrow> imapuids db' = imapuids db"
  by (auto simp: label_find_or_create_def Let_def res_simps split: option.splits
      dest: category_find_or_create_imapuids)

lemma add_labels_imapuids: "add_labels acc ks (db, ls) = Ok (db', ls') \<Longrightarrow> imapuids db' = imapuids db"
proof (induction ks arbitrary: db ls)
  case (Cons k ks)
  obtain name canonical where k: "k = (name, canonical)" by (cases k)
  from Cons.prems obtain db1 l where "label_find_or_create db acc name canonical = Ok (db1, l)"
    "add_labels acc ks (db1, if lbl_id l \<in> set ls then ls else ls @ [lbl_id l]) = Ok (db', ls')"
    by (auto simp: k res_simps)
  with Cons.IH label_find_or_create_imapuids show ?case by metis
qed simp

lemma update_labels_imapuids:
  assumes "update_labels acc new db u = Ok (db', u')"
  shows "u_id u' = u_id u \<and> uid_slot u' = uid_slot u \<and> u_message_id u' = u_message_id u \<and>
    imapuids db' = t_put u_id (imapuids db) u'"
  using assms by (auto simp: update_labels_def Let_def res_simps uid_slot_def dest!: add_labels_imapuids)

lemma reconcile_message_imapuids:
  "reconcile_message db m = Ok (db', c) \<Longrightarrow> imapuids db' = imapuids db"
proof -
  assume ok: "reconcile_message db m = Ok (db', c)"
  show ?thesis
  proof (cases "m_nylas_uid m")
    case None
    with ok show ?thesis by (simp add: reconcile_message_def)
  next
    case (Some uid)
    note ok' = ok [unfolded reconcile_message_def Let_def Some option.case]
    show ?thesis
    proof (cases "CHR ''-'' \<notin> set uid")
      case True
      with ok' show ?thesis
        by (cases "query_first (filter (\<lambda>x. m_namespace_id x = m_namespace_id m \<and> (m_nylas_uid x = Some uid \<and> m_is_created x))
            (messages db))") (auto simp: put_message_def)
    next
      case False
      with ok' obtain pid version where uid: "split_uid uid = Ok (pid, version)"
        and rest: "(case query_first (filter (\<lambda>x. m_namespace_id x = m_namespace_id m \<and> m_public_id x = pid \<and> m_is_created x)
              (messages db)) of
            None \<Rightarrow> Ok (db, None)
          | Some x \<Rightarrow> res_bind (py_int 10 version) (\<lambda>v. if v = int (m_version x)
              then Ok (put_message db (adopt_headers m x), Some (adopt_headers m x)) else Ok (db, Some x))) = Ok (db', c)"
        by (cases "split_uid uid") auto
      show ?thesis
      proof (cases "query_first (filter (\<lambda>x. m_namespace_id x = m_namespace_id m \<and> m_public_id x = pid \<and> m_is_created x)
              (messages db))")
        case None
        with rest show ?thesis by simp
      next
        case (Some x)
        with rest show ?thesis by (cases "py_int 10 version") (auto simp: put_message_def split: if_split_asm)
      qed
    qed
  qed
qed

lemma link_contact_imapuids:
  "link_contact parse mid fa (db, cm) = Ok (db', cm') \<Longrightarrow> imapuids db' = imapuids db"
proof -
  assume ok: "link_contact parse mid fa (db, cm) = Ok (db', cm')"
  obtain field name email where fa: "fa = (field, name, email)" by (cases fa)
  show ?thesis
  proof (cases "valid_email parse email")
    case False
    with ok show ?thesis by (simp add: link_contact_def fa)
  next
    case True
    let ?f = "case cm (canonicalize_address parse email) of
                     None \<Rightarrow> None
                   | Some (Inl cid) \<Rightarrow> map_option (\<lambda>c. (db, c)) (t_get ct_id (contacts db) cid)
                   | Some (Inr row) \<Rightarrow>
                       (let c = row\<lparr>ct_id := t_next ct_id (contacts db)\<rparr>
                        in Some (db\<lparr>contacts := t_add (contacts db) c\<rparr>, c))"
    have f: "imapuids db1 = imapuids db" if "?f = Some (db1, c)" for db1 c
      using that by (auto simp: Let_def split: option.splits sum.splits)
    from ok True obtain db1 c where "?f = Some (db1, c)" "imapuids db' = imapuids db1"
      by (cases "?f") (auto simp: link_contact_def fa Let_def)
    with f show ?thesis by simp
  qed
qed

lemma link_contacts_imapuids:
  "res_fold (link_contact parse mid) fas (db, cm) = Ok (db', cm') \<Longrightarrow> imapuids db' = imapuids db"
proof (induction fas arbitrary: db cm)
  case (Cons fa fas)
  from Cons.prems obtain db1 cm1 where "link_contact parse mid fa (db, cm) = Ok (db1, cm1)"
    "res_fold (link_contact parse mid) fas (db1, cm1) = Ok (db', cm')"
    by (auto simp: res_simps)
  with Cons.IH link_contact_imapuids show ?case by metis
qed simp

lemma update_contacts_imapuids:
  "update_contacts_from_message parse fresh db m nid = Ok db' \<Longrightarrow> imapuids db' = imapuids db"
  by (auto simp: update_contacts_from_message_def Let_def res_simps dest: link_contacts_imapuids)

lemma set_message_thread_imapuids [simp]: "imapuids (set_message_thread db m c) = imapuids db"
  by (simp add: set_message_thread_def Let_def split: option.splits thread_choice.splits)

lemma add_message_to_thread_imapuids [simp]: "imapuids (add_message_to_thread db nid m) = imapuids db"
  by (simp add: add_message_to_thread_def append_to_thread_def split: option.splits)

lemma map_slot_put_fresh:
  assumes "\<forall>x\<in>set us. u_id x \<noteq> u_id u" and "u_id v = u_id u" and "uid_slot v = uid_slot u"
  shows "map uid_slot (t_put u_id (us @ [u]) v) = map uid_slot us @ [uid_slot u]"
    and "map u_id (t_put u_id (us @ [u]) v) = map u_id us @ [u_id u]"
  using assms by (auto simp: t_put_def)

text \<open>A created message adds exactly its UID; the other rows keep their slots.\<close>

lemma create_imap_message_slots:
  assumes "create_imap_message iter parse fresh now acc fld msg db = Ok (db', u, m)"
  shows "map uid_slot (imapuids db') = map uid_slot (imapuids db) @ [(acc_id acc, fld_id fld, rm_uid msg)]"
    and "map u_id (imapuids db') = map u_id (imapuids db) @ [t_next u_id (imapuids db)]"
proof -
  from assms obtain db0 copy where rec: "reconcile_message db (rm_parsed msg) = Ok (db0, copy)"
    by (auto simp: create_imap_message_def res_simps)
  obtain db1 m0 where db1: "(case copy of Some m \<Rightarrow> (db0, m)
       | None \<Rightarrow> (let m = (rm_parsed msg)\<lparr>m_id := t_next m_id (messages db0)\<rparr>
                 in (db0\<lparr>messages := t_add (messages db0) m\<rparr>, m))) = (db1, m0)"
    by (cases "case copy of Some m \<Rightarrow> (db0, m)
       | None \<Rightarrow> (let m = (rm_parsed msg)\<lparr>m_id := t_next m_id (messages db0)\<rparr>
                 in (db0\<lparr>messages := t_add (messages db0) m\<rparr>, m))")
  have uids1: "imapuids db1 = imapuids db"
    using db1 reconcile_message_imapuids [OF rec] by (auto simp: Let_def split: option.splits)
  define u0 where "u0 = \<lparr>u_id = t_next u_id (imapuids db1), u_account_id = acc_id acc, u_folder_id = fld_id fld,
                 u_message_id = m_id m0, u_msg_uid = rm_uid msg, u_is_draft = False, u_is_seen = False,
                 u_is_flagged = False, u_is_recent = False, u_is_answered = False, u_extra_flags = [],
                 u_labels = []\<rparr>"
  define u1 where "u1 = snd (update_flags (rm_flags msg) u0)"
  have u1: "u_id u1 = t_next u_id (imapuids db)" "uid_slot u1 = (acc_id acc, fld_id fld, rm_uid msg)"
    by (simp_all add: u1_def uid_slot_def update_flags_keeps u0_def uids1)
  define db2 where "db2 = db1\<lparr>imapuids := t_add (imapuids db1) u1\<rparr>"
  from assms rec db1 obtain db3 u2 where
    lab: "(case rm_g_labels msg of None \<Rightarrow> Ok (db2, u1) | Some ls \<Rightarrow> update_labels acc ls db2 u1) = Ok (db3, u2)"
    and rest: "imapuids db' = imapuids db3"
    unfolding db2_def u1_def u0_def
    by (auto simp: create_imap_message_def res_simps Let_def put_message_def dest!: update_contacts_imapuids)
  have fresh: "\<forall>x\<in>set (imapuids db). u_id x \<noteq> u_id u1"
    by (simp add: u1 t_next_fresh)
  have db3: "u_id u2 = u_id u1 \<and> uid_slot u2 = uid_slot u1 \<and>
      (imapuids db3 = imapuids db @ [u1] \<or> imapuids db3 = t_put u_id (imapuids db @ [u1]) u2)"
    using lab by (auto simp: db2_def t_add_def uids1 split: option.splits dest!: update_labels_imapuids)
  then show "map uid_slot (imapuids db') = map uid_slot (imapuids db) @ [(acc_id acc, fld_id fld, rm_uid msg)]"
    using map_slot_put_fresh(1) [OF fresh, of u2] u1 by (auto simp: rest)
  from db3 show "map u_id (imapuids db') = map u_id (imapuids db) @ [t_next u_id (imapuids db)]"
    using map_slot_put_fresh(2) [OF fresh, of u2] u1 by (auto simp: rest)
qed

definition slots :: "store \<Rightarrow> nat \<Rightarrow> nat \<Rightarrow> nat set" where
  "slots db aid fid = {uid. (aid, fid, uid) \<in> uid_slot ` set (imapuids db)}"

lemma local_uids_slots: "local_uids db aid fid None = slots db aid fid"
  by (auto simp: local_uids_def folder_uid_rows_def slots_def uid_slot_def image_iff)

lemma uids_inv_distinct: "uids_inv db \<longleftrightarrow> distinct (map u_id (imapuids db)) \<and> distinct (map uid_slot (imapuids db))"
  by (simp add: uids_inv_def t_inv_def)

lemma create_message_slots:
  assumes ok: "create_message env nid (Some acc) (Some fld) msg db = Ok (db', r)" and inv: "uids_inv db"
  shows "uids_inv db'" and "ri_body msg = None \<Longrightarrow> imapuids db' = imapuids db"
    and "ri_body msg \<noteq> None \<Longrightarrow> slots db' (acc_id acc) (fld_id fld) = insert (ri_uid msg) (slots db (acc_id acc) (fld_id fld))"
proof -
  let ?old = "filter (\<lambda>u. u_msg_uid u = ri_uid msg) (folder_uid_rows db (acc_id acc) (fld_id fld))"
  have old: "?old = [] \<longleftrightarrow> ri_uid msg \<notin> slots db (acc_id acc) (fld_id fld)"
    by (auto simp: folder_uid_rows_def slots_def uid_slot_def filter_empty_conv image_iff)
  consider (same) "db' = db" "?old \<noteq> [] \<or> ri_body msg = None"
    | (new) db1 u m where "?old = []" "ri_body msg \<noteq> None" "db' = add_message_to_thread db1 nid m"
      "create_imap_message (se_iter env) (se_parse env) (se_fresh env) (se_now env) acc fld
         \<lparr>rm_uid = ri_uid msg, rm_flags = ri_flags msg, rm_has_body = True, rm_g_labels = ri_labels msg,
          rm_parsed = se_parsed env msg\<rparr> db = Ok (db1, u, m)"
    using ok by (auto simp: create_message_defs res_simps split: if_split_asm)
  then have "uids_inv db' \<and> (ri_body msg = None \<longrightarrow> imapuids db' = imapuids db) \<and>
    (ri_body msg \<noteq> None \<longrightarrow> slots db' (acc_id acc) (fld_id fld) = insert (ri_uid msg) (slots db (acc_id acc) (fld_id fld)))"
  proof cases
    case same
    with inv old show ?thesis by auto
  next
    case new
    note s = create_imap_message_slots [OF new(4)]
    have fresh: "t_next u_id (imapuids db) \<notin> set (map u_id (imapuids db))"
      using t_next_fresh [of _ "imapuids db" u_id] by (metis (no_types, lifting) imageE set_map)
    have notin: "(acc_id acc, fld_id fld, ri_uid msg) \<notin> set (map uid_slot (imapuids db))"
      using new(1) old by (auto simp: slots_def)
    have "set (map uid_slot (imapuids db')) = insert (acc_id acc, fld_id fld, ri_uid msg) (set (map uid_slot (imapuids db)))"
      by (simp add: new(3) s(1) del: set_map)
    then have "slots db' (acc_id acc) (fld_id fld) = insert (ri_uid msg) (slots db (acc_id acc) (fld_id fld))"
      by (auto simp: slots_def)
    with inv fresh notin new show ?thesis
      by (auto simp: uids_inv_distinct s)
  qed
  then show "uids_inv db'" and "ri_body msg = None \<Longrightarrow> imapuids db' = imapuids db"
    and "ri_body msg \<noteq> None \<Longrightarrow> slots db' (acc_id acc) (fld_id fld) = insert (ri_uid msg) (slots db (acc_id acc) (fld_id fld))"
    by blast+
qed

lemma create_message_None:
  "create_message env nid None folder msg db \<noteq> Ok r" "create_message env nid acct None msg db \<noteq> Ok r"
  by (simp_all add: create_message_defs split: option.splits)

definition with_body :: "raw_imap list \<Rightarrow> nat set" where
  "with_body msgs = ri_uid ` {m \<in> set msgs. ri_body m \<noteq> None}"

lemma with_body_Cons:
  "with_body (m # ms) = (if ri_body m = None then with_body ms else insert (ri_uid m) (with_body ms))"
  by (auto simp: with_body_def)

lemma slots_cong: "imapuids db' = imapuids db \<Longrightarrow> slots db' = slots db"
  by (simp add: slots_def fun_eq_iff)

lemma create_messages_slots:
  assumes "create_messages env nid (Some acc) (Some fld) msgs db = Ok (db', n)" and "uids_inv db"
  shows "uids_inv db' \<and> slots db' (acc_id acc) (fld_id fld) = slots db (acc_id acc) (fld_id fld) \<union> with_body msgs"
  using assms
proof (induction msgs arbitrary: db n)
  case Nil
  then show ?case by (simp add: with_body_def)
next
  case (Cons msg msgs)
  from Cons.prems(1) obtain db1 r n' where db1: "create_message env nid (Some acc) (Some fld) msg db = Ok (db1, r)"
    "create_messages env nid (Some acc) (Some fld) msgs db1 = Ok (db', n')"
    by (auto simp: res_simps)
  note c = create_message_slots [OF db1(1) Cons.prems(2)]
  have "uids_inv db' \<and> slots db' (acc_id acc) (fld_id fld) = slots db1 (acc_id acc) (fld_id fld) \<union> with_body msgs"
    using Cons.IH [OF db1(2) c(1)] .
  moreover have "slots db1 (acc_id acc) (fld_id fld) =
      slots db (acc_id acc) (fld_id fld) \<union> (if ri_body msg = None then {} else {ri_uid msg})"
    using c(2,3) slots_cong [of db1 db] by (cases "ri_body msg") simp_all
  ultimately show ?case by (auto simp: with_body_Cons)
qed

section \<open>What the handlers leave alone\<close>

text \<open>The identity, state and resync counter of the engine; only the run loop changes them.\<close>

definition eng_core :: "engine \<Rightarrow> string option \<times> nat \<times> nat \<times> nat \<times> string \<times> nat" where
  "eng_core e = (en_state e, en_uidinvalid_count e, en_account_id e, en_folder_id e, en_folder_name e,
     en_namespace_id e)"

definition core_is :: "string option \<times> nat \<times> nat \<times> nat \<times> string \<times> nat \<Rightarrow> sync_sys \<Rightarrow> bool" where
  "core_is k s \<longleftrightarrow> eng_core (sy_eng s) = k"

lemma keeps_with_db [inv_intros]: "st_keeps (core_is k) (with_db f)"
  by (rule st_keepsI) (simp add: with_db_def core_is_def split: sum.splits prod.splits)

lemma keeps_with_commits [inv_intros]: "st_keeps (core_is k) (with_commits f)"
  by (rule st_keepsI) (simp add: with_commits_def core_is_def split: prod.splits)

lemma keeps_on_engine: "(\<And>e. eng_core (f e) = eng_core e) \<Longrightarrow> st_keeps (core_is k) (on_engine f)"
  by (rule st_keepsI) (simp add: on_engine_def core_is_def)

lemma keeps_on_client [inv_intros]: "st_keeps (core_is k) (on_client f)"
  by (rule st_keepsI) (simp add: on_client_def core_is_def)

lemma keeps_st_seq [inv_intros]: "st_keeps P f \<Longrightarrow> st_keeps P g \<Longrightarrow> st_keeps P (st_seq f g)"
  unfolding st_seq_def by (intro inv_intros)

lemma keeps_update_folder_info [inv_intros]: "st_keeps (core_is k) (update_folder_info f)"
  by (rule st_keepsI) (simp add: update_folder_info_def core_is_def split: sum.splits)

lemma keeps_columns [inv_intros]:
  "st_keeps (core_is k) uidvalidity" "st_keeps (core_is k) uidnext"
  "st_keeps (core_is k) last_slow_refresh" "st_keeps (core_is k) highestmodseq"
  by (rule st_keepsI; simp add: uidvalidity_def uidnext_def last_slow_refresh_def highestmodseq_def
      core_is_def eng_core_def split: sum.splits option.splits)+

lemma keeps_set_columns [inv_intros]:
  "st_keeps (core_is k) (set_uidvalidity v)" "st_keeps (core_is k) (set_uidnext v)"
  "st_keeps (core_is k) (set_last_slow_refresh t)" "st_keeps (core_is k) (set_highestmodseq v)"
  unfolding set_uidvalidity_def set_uidnext_def set_last_slow_refresh_def set_highestmodseq_def
  by (intro inv_intros keeps_on_engine; simp add: eng_core_def)+

lemma keeps_select_with [inv_intros]: "st_keeps (core_is k) (select_with sv cb)"
  by (rule st_keepsI) (simp add: select_with_def core_is_def split: prod.splits)

lemma keeps_engine_select [inv_intros]: "st_keeps (core_is k) (engine_select sv)"
proof (rule st_keepsI)
  fix s assume s: "core_is k s"
  obtain s1 r where sel: "select_with sv engine_uidvalidity_cb s = (s1, r)" by fastforce
  with s have "core_is k s1" by (rule st_keepsD [OF keeps_select_with])
  then have "core_is k (fst (uidvalidity s1))" by (rule st_keeps_fst [OF keeps_columns(1)])
  with sel \<open>core_is k s1\<close> show "core_is k (fst (engine_select sv s))"
    by (simp add: engine_select_def split: sum.splits)
qed

lemma keeps_download [inv_intros]: "st_keeps (core_is k) (download_and_commit_uids env sv uids)"
proof (rule st_keepsI)
  fix s assume s: "core_is k s"
  let ?f = "st_bind (with_db (\<lambda>db. create_messages env (en_namespace_id (sy_eng s))
              (t_get acc_id (accounts db) (en_account_id (sy_eng s)))
              (t_get fld_id (folders db) (en_folder_id (sy_eng s))) (the (case client_uids sv (sy_client s) uids of Inr m \<Rightarrow> Some m | _ \<Rightarrow> None)) db))
            (\<lambda>n. st_bind (on_engine (\<lambda>e. e\<lparr>en_is_first_message := False\<rparr>)) (\<lambda>_. st_ok n))"
  have "st_keeps (core_is k) ?f"
    by (intro inv_intros keeps_on_engine) (simp add: eng_core_def)
  with s show "core_is k (fst (download_and_commit_uids env sv uids s))"
    by (auto simp: download_and_commit_uids_def split: sum.splits list.splits dest: st_keeps_fst)
qed

lemma keeps_download_each [inv_intros]: "st_keeps (core_is k) (download_each env sv uids)"
proof (induction uids)
  case (Cons uid uids)
  show ?case unfolding download_each.simps by (intro inv_intros Cons.IH)
qed (unfold download_each.simps, intro inv_intros)

lemma keeps_fetch_new_uids [inv_intros]: "st_keeps (core_is k) (fetch_new_uids env sv r)"
  unfolding fetch_new_uids_def Let_def
  by (intro inv_intros, rule st_keepsI, rule st_keeps_fst, intro inv_intros)

lemma keeps_get_new_uids [inv_intros]: "st_keeps (core_is k) (get_new_uids env sv)"
  unfolding get_new_uids_def by (intro inv_intros)

lemma keeps_removals [inv_intros]:
  "st_keeps (core_is k) (engine_remove_deleted_uids env uids)"
  "st_keeps (core_is k) (engine_update_metadata env fl)"
  by (rule st_keepsI; simp add: engine_remove_deleted_uids_def engine_update_metadata_def
      st_keeps_fst [OF keeps_with_commits])+

lemma keeps_refresh_batches [inv_intros]: "st_keeps (core_is k) (refresh_batches env batches)"
proof (induction batches)
  case (Cons batch batches)
  show ?case unfolding refresh_batches.simps by (intro inv_intros Cons.IH)
qed (unfold refresh_batches.simps, intro inv_intros)

lemma keeps_expunge_missing [inv_intros]: "st_keeps (core_is k) (expunge_missing env sv r)"
proof (rule st_keepsI)
  fix s assume "core_is k s"
  moreover have "st_keeps (core_is k) (st_seq (if r \<noteq> [] \<and> engine_lastseenuid s < Max (set r)
      then get_new_uids env sv else st_ok ()) (engine_remove_deleted_uids env (engine_local_uids None s - set r)))"
    by (intro inv_intros)
  ultimately show "core_is k (fst (expunge_missing env sv r s))"
    by (auto simp: expunge_missing_def Let_def dest: st_keeps_fst)
qed

lemma keeps_condstore [inv_intros]: "st_keeps (core_is k) (condstore_refresh_flags env sv sv2)"
  unfolding condstore_refresh_flags_def Let_def
  by (intro inv_intros) (rule st_keepsI, simp)

lemma keeps_refresh_flags [inv_intros]: "st_keeps (core_is k) (refresh_flags_impl env sv n)"
  unfolding refresh_flags_impl_def Let_def
  by (intro inv_intros, rule st_keepsI, rule st_keeps_fst, intro inv_intros keeps_on_engine)
    (simp add: eng_core_def)

lemma keeps_generic_refresh [inv_intros]: "st_keeps (core_is k) (generic_refresh_flags env sv)"
  unfolding generic_refresh_flags_def Let_def
  by (intro inv_intros, rule st_keepsI, rule st_keeps_fst, intro inv_intros keeps_on_engine)
    (simp_all add: eng_core_def)

lemma keeps_check_uid_changes [inv_intros]: "st_keeps (core_is k) (check_uid_changes i)"
  unfolding check_uid_changes_def by (intro inv_intros)

lemma keeps_should_idle [inv_intros]: "st_keeps (core_is k) (should_idle sv)"
  by (rule st_keepsI) (simp add: should_idle_def core_is_def eng_core_def Let_def split: sum.splits option.splits prod.splits)

lemma keeps_poll_impl [inv_intros]: "st_keeps (core_is k) (poll_impl i)"
  unfolding poll_impl_def by (intro inv_intros)

lemma keeps_poll [inv_intros]: "st_keeps (core_is k) (poll i)"
  unfolding poll_def by (intro inv_intros)

lemma keeps_update_uid_counts [inv_intros]: "st_keeps (core_is k) (update_uid_counts now n others)"
  by (rule st_keepsI) (simp add: update_uid_counts_def st_keeps_fst [OF keeps_with_db])

lemma keeps_poller: "core_is k s \<Longrightarrow> poller_runs is (alive, s) = (alive', t) \<Longrightarrow> core_is k t"
proof (induction "is" arbitrary: alive s)
  case (Cons i "is")
  obtain s' r where p: "poll_impl i s = (s', r)" by (cases "poll_impl i s")
  then have "core_is k s'" using st_keepsD [OF keeps_poll_impl Cons.prems(1)] by blast
  with p Cons show ?case by (auto split: if_split_asm sum.split_asm)
qed simp

lemma keeps_download_all [inv_intros]: "st_keeps (core_is k) (download_all env sv polls alive uids)"
proof (induction uids arbitrary: polls alive)
  case Nil
  then show ?case by (rule st_keepsI) simp
next
  case (Cons uid uids)
  show ?case
  proof (rule st_keepsI)
    fix s assume s: "core_is k s"
    obtain a s1 where a: "poller_runs (case polls of [] \<Rightarrow> [] | p # _ \<Rightarrow> p) (alive, s) = (a, s1)" by fastforce
    have "core_is k (s1\<lparr>sy_client := sy_client s\<rparr>)"
      using keeps_poller [OF s a] by (simp add: core_is_def)
    moreover have "st_keeps (core_is k) (st_bind (download_and_commit_uids env sv [uid])
        (\<lambda>_. download_all env sv (tl polls) a uids))"
      by (intro inv_intros Cons.IH)
    ultimately show "core_is k (fst (download_all env sv polls alive (uid # uids) s))"
      by (simp add: a st_keeps_fst)
  qed
qed

lemma keeps_report [inv_intros]:
  "st_keeps (core_is k) (report_initial_sync_start now)" "st_keeps (core_is k) (report_initial_sync_end now)"
  "st_keeps (core_is k) (ensure_folder_info info)"
  by (rule st_keepsI; simp add: report_initial_sync_start_def report_initial_sync_end_def
      ensure_folder_info_def st_keeps_fst [OF keeps_with_db])+

lemma keeps_initial_sync_impl [inv_intros]: "st_keeps (core_is k) (initial_sync_impl i polls)"
proof -
  have acc: "st_keeps (core_is k) (\<lambda>t. if t_get acc_id (accounts (sy_db t)) (en_account_id (sy_eng t)) = None
      then (t, Raise AttributeError) else (t, Ok ()))"
    by (rule st_keepsI) simp
  show ?thesis unfolding initial_sync_impl_def Let_def
    by (intro inv_intros, rule st_keepsI, rule st_keeps_fst, intro inv_intros acc)
qed

lemma keeps_initial_sync [inv_intros]: "st_keeps (core_is k) (initial_sync ip)"
proof -
  have "st_keeps (core_is k) (\<lambda>s. (if en_is_first_sync (sy_eng s)
      then st_seq (report_initial_sync_start now) (on_engine (\<lambda>e. e\<lparr>en_is_first_sync := False\<rparr>)) else st_ok ()) s)" for now
    by (rule st_keepsI, rule st_keeps_fst, intro inv_intros keeps_on_engine) (simp_all add: eng_core_def)
  moreover have "st_keeps (core_is k) (\<lambda>s. (if en_is_initial_sync (sy_eng s)
      then st_seq (report_initial_sync_end now) (on_engine (\<lambda>e. e\<lparr>en_is_initial_sync := False\<rparr>)) else st_ok ()) s)" for now
    by (rule st_keepsI, rule st_keeps_fst, intro inv_intros keeps_on_engine) (simp_all add: eng_core_def)
  ultimately show ?thesis unfolding initial_sync_def Let_def
    by (cases ip) (simp, intro inv_intros)
qed

lemma keeps_resync [inv_intros]: "st_keeps (core_is k) (resync_uids i)"
proof -
  have "st_keeps (core_is k) (\<lambda>s. engine_remove_deleted_uids (in_env i) (engine_local_uids None s) s)"
    by (rule st_keepsI, rule st_keeps_fst) (intro inv_intros)
  then show ?thesis unfolding resync_uids_def resync_uids_impl_def by (intro inv_intros)
qed

lemma state_handler_keeps: "state_handler st = Some h \<Longrightarrow> st_keeps (core_is k) (h ip)"
  by (auto simp: state_handler_def split: if_split_asm intro!: inv_intros)

lemma run_handler_core:
  assumes "run_handler inp s = (t, r)"
  shows "eng_core (sy_eng t) = eng_core (sy_eng s)"
proof (cases "state_handler (en_state (sy_eng s))")
  case None
  with assms show ?thesis by (simp add: run_handler_def)
next
  case (Some h)
  have "core_is (eng_core (sy_eng s)) (fst (retry_crispin h (ri_attempts inp) s))"
    unfolding retry_crispin_def
    by (rule retry_run_keeps, rule state_handler_keeps [OF Some]) (simp_all add: core_is_def)
  with Some assms show ?thesis by (simp add: run_handler_def core_is_def)
qed

end
