(* ===== verification/Folder_Proofs.thy ===== *)
theory Folder_Proofs
  imports Folder_Facts
begin

text \<open>
  The state machine of the folder sync engine: its states as an invariant of the run loop,
  what a UIDVALIDITY change does (resync, counter, giving up), what the flag refreshes keep,
  and the convergence of the initial sync.
\<close>

section \<open>Exceptions a computation never raises\<close>

definition st_never :: "exc \<Rightarrow> ('s, 'a) st \<Rightarrow> bool" where
  "st_never e f \<longleftrightarrow> (\<forall>s. snd (f s) \<noteq> Inl e)"

named_theorems never_intros \<open>computations that never raise an exception\<close>

lemma st_neverI: "(\<And>s. snd (f s) \<noteq> Inl e) \<Longrightarrow> st_never e f"
  by (simp add: st_never_def)

lemma st_never_pure [never_intros]: "st_never e (st_ok x)" "r \<noteq> Inl e \<Longrightarrow> st_never e (st_res r)"
  by (simp_all add: st_never_def)

lemma st_never_bind [never_intros]:
  "st_never e f \<Longrightarrow> (\<And>x. st_never e (g x)) \<Longrightarrow> st_never e (st_bind f g)"
  by (auto simp: st_never_def st_bind_def split: prod.splits sum.splits) (metis snd_conv)+

lemma st_never_seq [never_intros]: "st_never e f \<Longrightarrow> st_never e g \<Longrightarrow> st_never e (st_seq f g)"
  unfolding st_seq_def by (intro never_intros)

lemma st_never_if [never_intros]:
  "(b \<Longrightarrow> st_never e f) \<Longrightarrow> (\<not> b \<Longrightarrow> st_never e g) \<Longrightarrow> st_never e (if b then f else g)"
  by simp

lemma st_never_on [never_intros]: "st_never e (on_engine f)" "st_never e (on_client h)"
  by (simp_all add: st_never_def on_engine_def on_client_def)

lemma settle_message_raises: "settle_message iter now acc m db = Inl e \<Longrightarrow> e = AttributeError"
  by (cases acc) (auto simp: settle_message_def Let_def split: if_split_asm option.split_asm)

lemma remove_uid_raises: "remove_uid iter now aid fid uid db = Inl e \<Longrightarrow> e = AttributeError"
  by (auto simp: remove_uid_def Let_def split: option.split_asm dest: settle_message_raises)

lemma remove_deleted_uids_raises:
  "snd (remove_deleted_uids iter now aid fid uids db) = Inl e \<Longrightarrow> e = AttributeError"
  by (induction uids arbitrary: db) (auto split: sum.split_asm dest: remove_uid_raises)

lemma load_folder_info_raises: "load_folder_info s \<noteq> Inl UidInvalid"
  by (simp add: load_folder_info_def query_one_def split: list.split)

lemma never_update_folder_info [never_intros]: "st_never UidInvalid (update_folder_info f)"
  using load_folder_info_raises by (auto simp: st_never_def update_folder_info_def split: sum.splits)

lemma never_columns [never_intros]:
  "st_never UidInvalid (set_uidvalidity v)" "st_never UidInvalid (set_uidnext v)"
  "st_never UidInvalid (set_highestmodseq v)"
  unfolding set_uidvalidity_def set_uidnext_def set_highestmodseq_def by (intro never_intros)+

lemma never_uidvalidity [never_intros]: "st_never UidInvalid uidvalidity"
  using load_folder_info_raises by (auto simp: st_never_def uidvalidity_def split: option.splits sum.splits)

lemma never_removal [never_intros]: "st_never UidInvalid (engine_remove_deleted_uids env uids)"
proof (rule st_neverI)
  fix s
  show "snd (engine_remove_deleted_uids env uids s) \<noteq> Inl UidInvalid"
    using remove_deleted_uids_raises [where e = UidInvalid]
    by (auto simp: engine_remove_deleted_uids_def with_commits_def split: prod.splits) (metis exc.distinct snd_conv)
qed

text \<open>The IMAP library itself does not raise the engine's exception.\<close>

definition plain_input :: "sync_input \<Rightarrow> bool" where
  "plain_input i \<longleftrightarrow> sv_select (in_sv i) \<noteq> Inl UidInvalid"

lemma never_resync:
  assumes "plain_input i"
  shows "st_never UidInvalid (resync_uids i)"
proof -
  have "st_never UidInvalid (select_with (in_sv i) (\<lambda>s aid folder info. Ok info))"
    using assms by (auto simp: st_never_def select_with_def select_folder_def plain_input_def
        split: prod.splits sum.splits option.splits)
  moreover have "st_never UidInvalid (\<lambda>s. engine_remove_deleted_uids (in_env i) (engine_local_uids None s) s)"
    using never_removal by (auto simp: st_never_def)
  ultimately show ?thesis
    unfolding resync_uids_def resync_uids_impl_def by (auto intro!: never_intros)
qed

section \<open>What the handlers return\<close>

definition st_gives :: "'a \<Rightarrow> ('s, 'a) st \<Rightarrow> bool" where
  "st_gives x f \<longleftrightarrow> (\<forall>s t y. f s = (t, Inr y) \<longrightarrow> y = x)"

lemma st_gives_ok: "st_gives x (st_ok x)"
  by (simp add: st_gives_def)

lemma st_gives_bind: "(\<And>y. st_gives x (g y)) \<Longrightarrow> st_gives x (st_bind f g)"
  unfolding st_gives_def by (auto elim!: st_bind_cases)

lemma st_gives_seq: "st_gives x g \<Longrightarrow> st_gives x (st_seq f g)"
  unfolding st_seq_def by (rule st_gives_bind)

lemma handlers_give:
  "st_gives ''poll'' (initial_sync ip)" "st_gives ''poll'' (poll i)" "st_gives ''initial'' (resync_uids i)"
  unfolding initial_sync_def poll_def resync_uids_def Let_def
  by (cases ip; auto intro!: st_gives_seq st_gives_bind st_gives_ok)+

section \<open>One iteration\<close>

definition plain_run :: "run_input \<Rightarrow> bool" where
  "plain_run inp \<longleftrightarrow> (\<forall>(i, _)\<in>set (ri_attempts inp). plain_input i)"

definition sync_states :: "string set" where
  "sync_states = {''initial'', ''initial uidinvalid'', ''poll'', ''poll uidinvalid''}"

lemma run_handler_Ok:
  assumes "run_handler inp s = (t, Some (Inr st))"
  shows "st \<in> {''initial'', ''poll''}"
proof -
  from assms obtain h where h: "state_handler (en_state (sy_eng s)) = Some h"
    "retry_crispin h (ri_attempts inp) s = (t, Some (Inr st))"
    by (auto simp: run_handler_def split: option.splits)
  from retry_run_result [OF h(2) [unfolded retry_crispin_def]] obtain ip u where ip: "h ip u = (t, Inr st)" by blast
  from h(1) consider "h = initial_sync" | "h = (\<lambda>ip. resync_uids (fst ip))" | "h = (\<lambda>ip. poll (fst ip))"
    by (auto simp: state_handler_def split: if_split_asm)
  then show ?thesis using ip handlers_give by cases (auto simp: st_gives_def)
qed

lemma run_handler_uidinvalid:
  assumes "run_handler inp s = (t, Some (Inl UidInvalid))" and "plain_run inp"
  shows "en_state (sy_eng s) \<in> {Some ''initial'', Some ''poll''}"
proof (rule ccontr)
  assume not: "en_state (sy_eng s) \<notin> {Some ''initial'', Some ''poll''}"
  with assms obtain h where h: "state_handler (en_state (sy_eng s)) = Some h"
    "retry_crispin h (ri_attempts inp) s = (t, Some (Inl UidInvalid))"
    by (auto simp: run_handler_def split: option.splits)
  from retry_run_result [OF h(2) [unfolded retry_crispin_def]] obtain ip u where
    ip: "ip \<in> set (ri_attempts inp)" "h ip u = (t, Inl UidInvalid)" by blast
  from h(1) not have "h = (\<lambda>ip. resync_uids (fst ip))"
    by (auto simp: state_handler_def split: if_split_asm)
  moreover from ip(1) assms(2) have "plain_input (fst ip)" by (auto simp: plain_run_def)
  ultimately show False using never_resync [of "fst ip"] ip(2) by (auto simp: st_never_def) (metis snd_conv)
qed

lemma save_status_state:
  "save_status (\<lambda>row. Ok (row\<lparr>fs_state := st\<rparr>)) aid fid db = Ok (db', st') \<Longrightarrow> st' = st"
  by (auto simp: save_status_def split: list.splits if_split_asm)

lemma update_status_core:
  assumes "update_folder_sync_status (\<lambda>row. Ok (row\<lparr>fs_state := st\<rparr>)) s = (t, r)"
  shows "en_uidinvalid_count (sy_eng t) = en_uidinvalid_count (sy_eng s)"
    and "en_state (sy_eng t) = (case r of Inl _ \<Rightarrow> en_state (sy_eng s) | Inr _ \<Rightarrow> Some st)"
proof -
  let ?save = "save_status (\<lambda>row. Ok (row\<lparr>fs_state := st\<rparr>)) (en_account_id (sy_eng s)) (en_folder_id (sy_eng s)) (sy_db s)"
  have "en_uidinvalid_count (sy_eng t) = en_uidinvalid_count (sy_eng s) \<and>
    en_state (sy_eng t) = (case r of Inl _ \<Rightarrow> en_state (sy_eng s) | Inr _ \<Rightarrow> Some st)"
  proof (cases ?save)
    case (Inl e)
    with assms show ?thesis by (auto simp: update_folder_sync_status_def st_bind_def with_db_def)
  next
    case (Inr x)
    obtain db' st' where x: "x = (db', st')" by (cases x)
    with Inr have "st' = st" using save_status_state by blast
    with Inr x assms show ?thesis
      by (auto simp: update_folder_sync_status_def st_bind_def with_db_def on_engine_def)
  qed
  then show "en_uidinvalid_count (sy_eng t) = en_uidinvalid_count (sy_eng s)"
    and "en_state (sy_eng t) = (case r of Inl _ \<Rightarrow> en_state (sy_eng s) | Inr _ \<Rightarrow> Some st)" by auto
qed

lemma finish_run_core:
  assumes "finish_run old s = (t, r)" and "en_state (sy_eng s) = Some st"
  shows "en_state (sy_eng t) = Some st"
    and "r = Ok () \<Longrightarrow> en_uidinvalid_count (sy_eng t) =
      (if Some st = old \<and> st \<in> {''initial'', ''poll''} then 0 else en_uidinvalid_count (sy_eng s))"
proof -
  have "en_state (sy_eng t) = Some st \<and> (r = Ok () \<longrightarrow> en_uidinvalid_count (sy_eng t) =
      (if Some st = old \<and> st \<in> {''initial'', ''poll''} then 0 else en_uidinvalid_count (sy_eng s)))"
  proof (cases "old = Some st")
    case True
    with assms show ?thesis
      by (auto simp: finish_run_def st_seq_def on_engine_def split: if_split_asm)
  next
    case False
    obtain u q where u: "update_folder_sync_status (\<lambda>row. Ok (row\<lparr>fs_state := st\<rparr>)) s = (u, q)" by fastforce
    note c = update_status_core [OF u]
    show ?thesis using False assms u c by (cases q) (auto simp: finish_run_def st_seq_def st_bind_def)
  qed
  then show "en_state (sy_eng t) = Some st" and "r = Ok () \<Longrightarrow> en_uidinvalid_count (sy_eng t) =
      (if Some st = old \<and> st \<in> {''initial'', ''poll''} then 0 else en_uidinvalid_count (sy_eng s))" by auto
qed

text \<open>How an iteration that passes on no exception ends.\<close>

lemma run_impl_Ok:
  assumes ok: "run_impl inp s = (t, Some (Inr ()))" and plain: "plain_run inp"
  obtains (handled) st s1 where "run_handler inp s = (s1, Some (Inr st))" "st \<in> {''initial'', ''poll''}"
      "en_state (sy_eng t) = Some st"
      "en_uidinvalid_count (sy_eng t) =
        (if Some st = en_state (sy_eng s) then 0 else en_uidinvalid_count (sy_eng s))"
  | (uidinvalid) st s1 where "run_handler inp s = (s1, Some (Inl UidInvalid))"
      "en_state (sy_eng s) = Some st" "st \<in> {''initial'', ''poll''}"
      "en_state (sy_eng t) = Some (st @ '' uidinvalid'')"
      "en_uidinvalid_count (sy_eng t) = Suc (en_uidinvalid_count (sy_eng s))"
      "Suc (en_uidinvalid_count (sy_eng s)) \<le> MAX_UIDINVALID_RESYNCS"
proof -
  from ok obtain s1 r where h: "run_handler inp s = (s1, Some r)"
    and after: "after_handler inp (en_state (sy_eng s)) r s1 = (t, Ok ())"
    by (auto simp: run_impl_def split: prod.splits option.splits)
  have core: "eng_core (sy_eng s1) = eng_core (sy_eng s)" using run_handler_core [OF h] .
  show ?thesis
  proof (cases r)
    case (Inr st)
    with h have st: "st \<in> {''initial'', ''poll''}" using run_handler_Ok by blast
    from Inr after have fin: "finish_run (en_state (sy_eng s)) (s1\<lparr>sy_eng := (sy_eng s1)\<lparr>en_state := Some st\<rparr>\<rparr>) = (t, Ok ())"
      by (simp add: after_handler_def st_seq_def on_engine_def st_bind_def)
    note f = finish_run_core [OF fin, of st]
    show ?thesis
      by (rule handled [of s1 st]) (use h Inr st f core in \<open>auto simp: eng_core_def\<close>)
  next
    case (Inl e)
    with after have e: "e = UidInvalid"
      by (auto simp: after_handler_def invalid_account_run_def st_seq_def split: if_split_asm elim!: st_bind_cases)
    with h Inl plain obtain st where st: "en_state (sy_eng s) = Some st" "st \<in> {''initial'', ''poll''}"
      using run_handler_uidinvalid by blast
    let ?s2 = "s1\<lparr>sy_eng := enter_uidinvalid (sy_eng s1)\<rparr>"
    have s2: "en_state (sy_eng ?s2) = Some (st @ '' uidinvalid'')"
      "en_uidinvalid_count (sy_eng ?s2) = Suc (en_uidinvalid_count (sy_eng s))"
      using core st by (simp_all add: enter_uidinvalid_def eng_core_def)
    from after e Inl have run: "uidinvalid_run inp (en_state (sy_eng s)) s1 = (t, Ok ())"
      by (simp add: after_handler_def)
    have le: "Suc (en_uidinvalid_count (sy_eng s)) \<le> MAX_UIDINVALID_RESYNCS"
    proof (rule ccontr)
      assume "\<not> ?thesis"
      with run s2 have "resync_limit_reached inp ?s2 = (t, Ok ())"
        by (simp add: uidinvalid_run_def st_seq_def st_bind_def on_engine_def)
      then show False by (auto simp: resync_limit_reached_def st_seq_def elim!: st_bind_cases)
    qed
    with run s2 have fin: "finish_run (en_state (sy_eng s)) ?s2 = (t, Ok ())"
      by (simp add: uidinvalid_run_def st_seq_def st_bind_def on_engine_def)
    note f = finish_run_core [OF fin s2(1)]
    show ?thesis
      by (rule uidinvalid [of s1 st]) (use h Inl e st f s2 le in auto)
  qed
qed

text \<open>Also an iteration that passes on an exception leaves the engine in one of its states.\<close>

lemma change_account_core: "change_account f s = (t, r) \<Longrightarrow> eng_core (sy_eng t) = eng_core (sy_eng s)"
  using st_keeps_fst [OF keeps_with_db, of "eng_core (sy_eng s)" s]
  by (auto simp: change_account_def core_is_def with_db_def split: sum.splits)

definition valid_state :: "sync_sys \<Rightarrow> bool" where
  "valid_state s \<longleftrightarrow> (\<exists>st\<in>sync_states. en_state (sy_eng s) = Some st)"

lemma valid_stateI: "en_state (sy_eng t) = Some st \<Longrightarrow> st \<in> sync_states \<Longrightarrow> valid_state t"
  by (auto simp: valid_state_def)

lemma finish_run_valid:
  "finish_run old s = (t, r) \<Longrightarrow> valid_state s \<Longrightarrow> valid_state t"
  by (auto simp: valid_state_def dest: finish_run_core(1))

lemma core_valid: "eng_core (sy_eng t) = eng_core (sy_eng s) \<Longrightarrow> valid_state s \<Longrightarrow> valid_state t"
  by (simp add: valid_state_def eng_core_def)

lemma uidinvalid_valid:
  assumes "uidinvalid_run inp old s = (t, r)" and "en_state (sy_eng s) \<in> {Some ''initial'', Some ''poll''}"
  shows "valid_state t"
proof -
  let ?s2 = "s\<lparr>sy_eng := enter_uidinvalid (sy_eng s)\<rparr>"
  have s2: "valid_state ?s2" using assms(2) by (auto simp: valid_state_def enter_uidinvalid_def sync_states_def)
  from assms(1) have "resync_limit_reached inp ?s2 = (t, r) \<or> finish_run old ?s2 = (t, r)"
    by (auto simp: uidinvalid_run_def st_seq_def st_bind_def on_engine_def split: if_split_asm)
  then show ?thesis
  proof
    assume "resync_limit_reached inp ?s2 = (t, r)"
    then have "eng_core (sy_eng t) = eng_core (sy_eng ?s2)"
      by (auto simp: resync_limit_reached_def st_seq_def elim!: st_bind_cases dest: change_account_core)
    with s2 show ?thesis using core_valid by blast
  next
    assume "finish_run old ?s2 = (t, r)"
    with s2 show ?thesis using finish_run_valid by blast
  qed
qed

lemma run_impl_valid:
  assumes run: "run_impl inp s = (t, Some r)" and plain: "plain_run inp" and valid: "valid_state s"
  shows "valid_state t"
proof -
  from run obtain s1 q where h: "run_handler inp s = (s1, Some q)"
    and after: "after_handler inp (en_state (sy_eng s)) q s1 = (t, r)"
    by (auto simp: run_impl_def split: prod.splits option.splits)
  have core: "eng_core (sy_eng s1) = eng_core (sy_eng s)" using run_handler_core [OF h] .
  then have valid1: "valid_state s1" using valid core_valid by blast
  show ?thesis
  proof (cases q)
    case (Inr st)
    with h have st: "st \<in> sync_states" using run_handler_Ok by (auto simp: sync_states_def)
    from Inr after have "finish_run (en_state (sy_eng s)) (s1\<lparr>sy_eng := (sy_eng s1)\<lparr>en_state := Some st\<rparr>\<rparr>) = (t, r)"
      by (simp add: after_handler_def st_seq_def on_engine_def st_bind_def)
    then show ?thesis by (rule finish_run_valid) (use st in \<open>simp add: valid_state_def\<close>)
  next
    case (Inl e)
    show ?thesis
    proof (cases "e = UidInvalid")
      case True
      with Inl h plain have "en_state (sy_eng s) \<in> {Some ''initial'', Some ''poll''}"
        using run_handler_uidinvalid by blast
      with core have "en_state (sy_eng s1) \<in> {Some ''initial'', Some ''poll''}" by (simp add: eng_core_def)
      moreover from True Inl after have "uidinvalid_run inp (en_state (sy_eng s)) s1 = (t, r)"
        by (simp add: after_handler_def)
      ultimately show ?thesis by (blast intro: uidinvalid_valid)
    next
      case False
      with Inl after have "eng_core (sy_eng t) = eng_core (sy_eng s1)"
        by (auto simp: after_handler_def invalid_account_run_def st_seq_def split: if_split_asm
            elim!: st_bind_cases dest: change_account_core)
      with valid1 show ?thesis using core_valid by blast
    qed
  qed
qed

section \<open>The loop as a transition system\<close>

text \<open>
  A run starts from a stored state the column allows other than \<open>finish\<close>, which no code
  enters. An exception that is not a deliberate kill is retried by the enclosing loop.
\<close>

definition stored_states_valid :: "sync_sys \<Rightarrow> bool" where
  "stored_states_valid s \<longleftrightarrow>
     (\<forall>row\<in>set (fsync_rows (sy_db s) (en_account_id (sy_eng s)) (en_folder_id (sy_eng s))). fs_state row \<in> sync_states)"

definition started :: "sync_sys \<Rightarrow> bool" where
  "started t \<longleftrightarrow> (\<exists>s now. stored_states_valid s \<and> start_run now s = (t, Ok ()))"

inductive loop_step :: "sync_sys \<Rightarrow> sync_sys \<Rightarrow> bool" where
  iterate: "plain_run inp \<Longrightarrow> run_impl inp s = (t, Some (Inr ())) \<Longrightarrow> loop_step s t"
| retried: "plain_run inp \<Longrightarrow> run_impl inp s = (t, Some (Inl e)) \<Longrightarrow> \<not> is_greenlet_exit e \<Longrightarrow> loop_step s t"

inductive_cases loop_stepE: "loop_step s t"

lemma save_start_state:
  assumes "save_status (\<lambda>row. Ok (start_sync now row)) aid fid db = Ok (db', st)"
    and "\<forall>row\<in>set (fsync_rows db aid fid). fs_state row \<in> sync_states"
  shows "st \<in> sync_states"
  using assms
  by (auto simp: save_status_def start_sync_def new_status_row_def sync_states_def split: list.splits if_split_asm)

lemma started_valid: "started t \<Longrightarrow> valid_state t"
proof -
  assume "started t"
  then obtain s now where s: "stored_states_valid s" and "start_run now s = (t, Ok ())"
    by (auto simp: started_def)
  then have run: "update_folder_sync_status (\<lambda>row. Ok (start_sync now row)) s = (t, Ok ())"
    by (auto simp: start_run_def split: prod.splits sum.splits)
  let ?save = "save_status (\<lambda>row. Ok (start_sync now row)) (en_account_id (sy_eng s)) (en_folder_id (sy_eng s)) (sy_db s)"
  from run obtain db' st where save: "?save = Ok (db', st)"
    by (cases ?save) (auto simp: update_folder_sync_status_def st_bind_def with_db_def)
  with run have "en_state (sy_eng t) = Some st"
    by (auto simp: update_folder_sync_status_def st_bind_def with_db_def on_engine_def)
  moreover have "st \<in> sync_states"
    using save_start_state [OF save] s by (simp add: stored_states_valid_def)
  ultimately show ?thesis by (rule valid_stateI)
qed

interpretation folder_loop: step_system started loop_step valid_state
proof unfold_locales
  show "started s \<Longrightarrow> valid_state s" for s by (rule started_valid)
  show "valid_state s \<Longrightarrow> loop_step s t \<Longrightarrow> valid_state t" for s t
    by (elim loop_stepE) (blast intro: run_impl_valid)+
qed

section \<open>Counting resyncs\<close>

text \<open>
  How an iteration counts: a UIDVALIDITY error, an iteration that leaves the state as it
  was, or another one. The counter is the number of errors since the last quiet iteration.
\<close>

datatype iteration = Uid_error | Quiet | Other

definition kind_of :: "run_input \<Rightarrow> sync_sys \<Rightarrow> iteration" where
  "kind_of inp s =
     (case run_handler inp s of
        (_, Some (Inr st)) \<Rightarrow> if Some st = en_state (sy_eng s) then Quiet else Other
      | _ \<Rightarrow> Uid_error)"

fun errors_in_a_row :: "nat \<Rightarrow> iteration list \<Rightarrow> nat" where
  "errors_in_a_row n [] = n"
| "errors_in_a_row n (Uid_error # ks) = errors_in_a_row (Suc n) ks"
| "errors_in_a_row n (Quiet # ks) = errors_in_a_row 0 ks"
| "errors_in_a_row n (Other # ks) = errors_in_a_row n ks"

inductive iterations :: "sync_sys \<Rightarrow> iteration list \<Rightarrow> sync_sys \<Rightarrow> bool" where
  none: "iterations s [] s"
| one: "plain_run inp \<Longrightarrow> run_impl inp s = (u, Some (Inr ())) \<Longrightarrow> iterations u ks t \<Longrightarrow>
    iterations s (kind_of inp s # ks) t"

lemma run_impl_count:
  assumes "run_impl inp s = (u, Some (Inr ()))" and "plain_run inp"
  shows "en_uidinvalid_count (sy_eng u) = errors_in_a_row (en_uidinvalid_count (sy_eng s)) [kind_of inp s]"
    and "en_uidinvalid_count (sy_eng s) \<le> MAX_UIDINVALID_RESYNCS \<Longrightarrow>
      en_uidinvalid_count (sy_eng u) \<le> MAX_UIDINVALID_RESYNCS"
  by (cases rule: run_impl_Ok [OF assms]; simp add: kind_of_def)+

lemma errors_in_a_row_Cons: "errors_in_a_row n (k # ks) = errors_in_a_row (errors_in_a_row n [k]) ks"
  by (cases k) simp_all

lemma iterations_count_aux:
  assumes "iterations s ks t"
  shows "en_uidinvalid_count (sy_eng t) = errors_in_a_row (en_uidinvalid_count (sy_eng s)) ks \<and>
    (en_uidinvalid_count (sy_eng s) \<le> MAX_UIDINVALID_RESYNCS \<longrightarrow>
     en_uidinvalid_count (sy_eng t) \<le> MAX_UIDINVALID_RESYNCS)"
  using assms
proof induction
  case (one inp s u ks t)
  note c = run_impl_count [OF one.hyps(2,1)]
  have "en_uidinvalid_count (sy_eng t) = errors_in_a_row (en_uidinvalid_count (sy_eng s)) (kind_of inp s # ks)"
    using one.IH c(1) by (metis errors_in_a_row_Cons)
  with one.IH c(2) show ?case by blast
qed simp

text \<open>The error that exceeds the limit ends the run and stops the account.\<close>

lemma run_impl_gives_up:
  assumes h: "run_handler inp s = (s1, Some (Inl UidInvalid))"
    and count: "en_uidinvalid_count (sy_eng s) = MAX_UIDINVALID_RESYNCS"
    and acc: "t_get acc_id (accounts (sy_db s1)) (en_account_id (sy_eng s)) = Some a"
    and inv: "t_inv acc_id (accounts (sy_db s1))"
  shows "\<exists>t a'. run_impl inp s = (t, Some (Inl MailsyncDone)) \<and>
     t_get acc_id (accounts (sy_db t)) (en_account_id (sy_eng s)) = Some a' \<and>
     \<not> acc_sync_should_run a' \<and> acc_sync_state a' = Some Stopped"
proof -
  let ?a = "(disable_sync (ri_now inp) (ri_user inp) ''Detected endless uidvalidity resync loop'' a)
      \<lparr>acc_sync_state := Some Stopped\<rparr>"
  have core: "eng_core (sy_eng s1) = eng_core (sy_eng s)" using run_handler_core [OF h] .
  let ?t = "s1\<lparr>sy_eng := enter_uidinvalid (sy_eng s1),
      sy_db := (sy_db s1)\<lparr>accounts := t_put acc_id (accounts (sy_db s1)) ?a\<rparr>\<rparr>"
  from core count have n: "en_uidinvalid_count (enter_uidinvalid (sy_eng s1)) > MAX_UIDINVALID_RESYNCS"
    and id: "en_account_id (enter_uidinvalid (sy_eng s1)) = en_account_id (sy_eng s)"
    by (simp_all add: enter_uidinvalid_def eng_core_def)
  have "run_impl inp s = (?t, Some (Inl MailsyncDone))"
    using n acc
    by (simp add: run_impl_def h after_handler_def uidinvalid_run_def st_seq_def st_bind_def on_engine_def
        resync_limit_reached_def change_account_def with_db_def id)
  moreover have "acc_id ?a = en_account_id (sy_eng s)"
    using acc t_get_SomeD by (fastforce simp: disable_sync_def)
  then have "t_get acc_id (accounts (sy_db ?t)) (en_account_id (sy_eng s)) = Some ?a"
    using inv acc by (simp add: accs.get_put)
  ultimately show ?thesis by (auto simp: disable_sync_def)
qed

section \<open>Resyncing\<close>

lemma st_seq_Ok: "st_seq f g s = (t, Ok y) \<Longrightarrow> \<exists>u x. f s = (u, Ok x) \<and> g u = (t, Ok y)"
  unfolding st_seq_def by (auto elim!: st_bind_cases)

lemma update_folder_info_Ok:
  assumes "update_folder_info f s = (t, Ok u)"
  obtains i where "folder_info_rows (sy_db s) (en_account_id (sy_eng s)) (en_folder_id (sy_eng s)) = [i]"
    and "t = s\<lparr>sy_db := (sy_db s)\<lparr>folder_infos := t_put fi_id (folder_infos (sy_db s)) (f i)\<rparr>\<rparr>"
  using assms by (auto simp: update_folder_info_def load_folder_info_def query_one_Ok split: sum.splits)

lemma set_columns_db:
  "set_uidvalidity v s = (t, Ok u) \<Longrightarrow> imapuids (sy_db t) = imapuids (sy_db s) \<and>
     eng_core (sy_eng t) = eng_core (sy_eng s) \<and> en_uidvalidity (sy_eng t) = Some v"
  "set_uidnext v s = (t, Ok u) \<Longrightarrow> imapuids (sy_db t) = imapuids (sy_db s) \<and>
     eng_core (sy_eng t) = eng_core (sy_eng s) \<and> en_uidvalidity (sy_eng t) = en_uidvalidity (sy_eng s)"
  "set_highestmodseq v s = (t, Ok u) \<Longrightarrow> imapuids (sy_db t) = imapuids (sy_db s) \<and>
     eng_core (sy_eng t) = eng_core (sy_eng s) \<and> en_uidvalidity (sy_eng t) = en_uidvalidity (sy_eng s)"
  by (auto simp: set_uidvalidity_def set_uidnext_def set_highestmodseq_def on_engine_def eng_core_def
      elim!: update_folder_info_Ok dest!: st_seq_Ok)

lemma remove_all_local_uids:
  assumes run: "engine_remove_deleted_uids env (engine_local_uids None s) s = (t, Ok u)"
    and inv: "uids_inv (sy_db s)"
  shows "engine_local_uids None t = {}" and "sy_eng t = sy_eng s" and "uids_inv (sy_db t)"
proof -
  let ?aid = "en_account_id (sy_eng s)" and ?fid = "en_folder_id (sy_eng s)"
  let ?uids = "sorted_list_of_set (engine_local_uids None s)"
  have fin: "finite (engine_local_uids None s)"
    by (simp add: engine_local_uids_def local_uids_def)
  from run obtain db' where rm: "remove_deleted_uids (se_iter env) (se_now env) ?aid ?fid ?uids (sy_db s) = (db', Ok ())"
    and t: "t = s\<lparr>sy_db := db'\<rparr>"
    by (auto simp: engine_remove_deleted_uids_def with_commits_def split: prod.splits)
  note rows = remove_deleted_uids_imapuids [OF inv rm]
  show "sy_eng t = sy_eng s" using t by simp
  show "engine_local_uids None t = {}"
    using local_uids_filter [OF rows] fin by (simp add: engine_local_uids_def t)
  show "uids_inv (sy_db t)" using uids_inv_filter [OF inv rows] t by simp
qed

lemma resync_discards_aux:
  assumes run: "resync_uids_impl i s = (t, Ok ())" and inv: "uids_inv (sy_db s)"
    and sel: "sv_select (in_sv i) = Ok info"
    and saved: "snd (uidvalidity s) = Ok saved" and changed: "\<not> (\<exists>v. saved = Some v \<and> si_uidvalidity info \<le> v)"
  shows "engine_local_uids None t = {} \<and> en_uidvalidity (sy_eng t) = Some (Some (si_uidvalidity info)) \<and>
    uids_inv (sy_db t)"
proof -
  let ?s1 = "s\<lparr>sy_client := (sv_client (in_sv i))\<lparr>cr_selected := Some (en_folder_name (sy_eng s), info),
      cr_folder_names := None\<rparr>\<rparr>"
  have s1: "sy_eng ?s1 = sy_eng s" "sy_db ?s1 = sy_db s" by simp_all
  have "snd (uidvalidity ?s1) = Ok saved"
    using saved by (simp add: uidvalidity_def load_folder_info_def split: option.splits sum.splits)
  then obtain s2 where s2: "uidvalidity ?s1 = (s2, Ok saved)" by (cases "uidvalidity ?s1") auto
  then have db2: "sy_db s2 = sy_db s" "eng_core (sy_eng s2) = eng_core (sy_eng s)"
    by (auto simp: uidvalidity_def load_folder_info_def eng_core_def split: option.splits sum.splits)
  have spurious: "(case saved of None \<Rightarrow> False | Some v \<Rightarrow> si_uidvalidity info \<le> v) = False"
    using changed by (auto split: option.split)
  have "st_seq (\<lambda>s. engine_remove_deleted_uids (in_env i) (engine_local_uids None s) s)
      (st_seq (set_uidvalidity (Some (si_uidvalidity info)))
        (st_seq (set_highestmodseq None) (set_uidnext (si_uidnext info)))) s2 = (t, Ok ())"
    using run sel s2 spurious
    by (simp add: resync_uids_impl_def st_seq_def [of "on_client f" for f] st_bind_def [of "on_client f" for f]
        on_client_def st_bind_def [of "select_with sv cb" for sv cb] select_with_def select_folder_def Let_def
        st_bind_def [of uidvalidity])
  then obtain s3 u3 s4 u4 s5 u5 where s3: "engine_remove_deleted_uids (in_env i) (engine_local_uids None s2) s2 = (s3, Ok u3)"
    and s4: "set_uidvalidity (Some (si_uidvalidity info)) s3 = (s4, Ok u4)"
    and s5: "set_highestmodseq None s4 = (s5, Ok u5)" and t: "set_uidnext (si_uidnext info) s5 = (t, Ok ())"
    by (auto dest!: st_seq_Ok)
  from inv db2 have inv2: "uids_inv (sy_db s2)" by simp
  note r = remove_all_local_uids [OF s3 inv2]
  note c = set_columns_db(1) [OF s4] set_columns_db(3) [OF s5] set_columns_db(2) [OF t]
  have uids: "imapuids (sy_db t) = imapuids (sy_db s3)" and core: "eng_core (sy_eng t) = eng_core (sy_eng s3)"
    using c by simp_all
  have "engine_local_uids None t = engine_local_uids None s3"
    using core by (simp add: engine_local_uids_def local_uids_slots slots_def uids eng_core_def)
  with r c show ?thesis by (simp add: uids_inv_distinct)
qed

section \<open>Convergence of the initial sync\<close>

definition sy_slots :: "sync_sys \<Rightarrow> nat set" where
  "sy_slots s = slots (sy_db s) (en_account_id (sy_eng s)) (en_folder_id (sy_eng s))"

lemma engine_local_uids_slots: "engine_local_uids None s = sy_slots s"
  by (simp add: engine_local_uids_def sy_slots_def local_uids_slots)

lemma client_uids_in: "client_uids sv cr uids = Ok msgs \<Longrightarrow> with_body msgs \<subseteq> set uids"
proof -
  assume c: "client_uids sv cr uids = Ok msgs"
  have "set (map ri_uid msgs) \<subseteq> set uids"
  proof (cases "cr_gmail cr")
    case True
    with c obtain d where "raw_messages gmail_raw False (set uids) (dict_of d) (sorted_keys d) = Ok msgs"
      by (auto simp: client_uids_def gmail_uids_def res_simps)
    then have "map ri_uid msgs = filter (\<lambda>u. \<exists>x. dict_of d u = Some x \<and> u \<in> set uids \<and> \<not> (False \<and> seq_only x)) (sorted_keys d)"
      using raw_messages_uids [of gmail_raw, OF gmail_raw_uid] by simp
    then have "set (map ri_uid msgs) = set (filter (\<lambda>u. \<exists>x. dict_of d u = Some x \<and> u \<in> set uids \<and> \<not> (False \<and> seq_only x)) (sorted_keys d))"
      by simp
    then show ?thesis by auto
  next
    case False
    with c show ?thesis using generic_uids_ordered(2) by (auto simp: client_uids_def)
  qed
  then show ?thesis by (auto simp: with_body_def)
qed

text \<open>One download: the UIDs that arrived with a body are added, nothing else changes.\<close>

lemma download_slots:
  assumes ok: "download_and_commit_uids env sv uids s = (t, Ok n)" and inv: "uids_inv (sy_db s)"
    and wf: "\<And>k a. t_get acc_id (accounts (sy_db s)) k = Some a \<Longrightarrow> acc_id a = k"
  shows "uids_inv (sy_db t) \<and> sy_client t = sy_client s \<and> eng_core (sy_eng t) = eng_core (sy_eng s) \<and>
    (\<exists>msgs. client_uids sv (sy_client s) uids = Ok msgs \<and> sy_slots t = sy_slots s \<union> with_body msgs)"
proof (cases "client_uids sv (sy_client s) uids")
  case (Inl e)
  with ok show ?thesis by (simp add: download_and_commit_uids_def)
next
  case (Inr msgs)
  show ?thesis
  proof (cases msgs)
    case Nil
    with ok Inr have "t = s" by (simp add: download_and_commit_uids_def)
    with Inr Nil inv show ?thesis by (simp add: with_body_def)
  next
    case (Cons m ms)
    let ?aid = "en_account_id (sy_eng s)" and ?fid = "en_folder_id (sy_eng s)"
    from ok Inr Cons obtain db' where cm: "create_messages env (en_namespace_id (sy_eng s))
        (t_get acc_id (accounts (sy_db s)) ?aid) (t_get fld_id (folders (sy_db s)) ?fid) msgs (sy_db s) = Ok (db', n)"
      and t: "t = s\<lparr>sy_db := db', sy_eng := (sy_eng s)\<lparr>en_is_first_message := False\<rparr>\<rparr>"
      by (auto simp: download_and_commit_uids_def with_db_def on_engine_def st_bind_def split: sum.splits prod.splits)
    from cm Cons obtain acc fld where acc: "t_get acc_id (accounts (sy_db s)) ?aid = Some acc"
      and fld: "t_get fld_id (folders (sy_db s)) ?fid = Some fld"
      by (cases "t_get acc_id (accounts (sy_db s)) ?aid"; cases "t_get fld_id (folders (sy_db s)) ?fid")
        (auto simp: res_simps create_message_defs)
    have ids: "acc_id acc = ?aid" "fld_id fld = ?fid" using acc fld by (auto dest: t_get_SomeD)
    from cm [unfolded acc fld] have "uids_inv db' \<and> slots db' ?aid ?fid = slots (sy_db s) ?aid ?fid \<union> with_body msgs"
      using create_messages_slots [OF _ inv] ids by metis
    with Inr show ?thesis by (simp add: t sy_slots_def eng_core_def)
  qed
qed

lemma download_all_slots:
  assumes "download_all env sv [] alive uids s = (t, Ok u)" and "uids_inv (sy_db s)"
  shows "uids_inv (sy_db t) \<and> sy_slots s \<subseteq> sy_slots t \<and> sy_slots t \<subseteq> sy_slots s \<union> set uids \<and>
    (\<forall>uid\<in>set uids. (\<exists>m. client_uids sv (sy_client s) [uid] = Ok [m] \<and> ri_uid m = uid \<and> ri_body m \<noteq> None) \<longrightarrow>
       uid \<in> sy_slots t)"
  using assms
proof (induction uids arbitrary: alive s)
  case (Cons uid uids)
  have same: "s\<lparr>sy_client := sy_client s\<rparr> = s" by simp
  from Cons.prems(1) obtain s1 n where d: "download_and_commit_uids env sv [uid] s = (s1, Ok n)"
    and rest: "download_all env sv [] alive uids s1 = (t, Ok u)"
    by (auto elim!: st_bind_cases simp: same)
  have wf: "acc_id a = k" if "t_get acc_id (accounts (sy_db s)) k = Some a" for k a
    using that t_get_SomeD by fastforce
  from download_slots [OF d Cons.prems(2) wf] obtain msgs where s1: "uids_inv (sy_db s1)" "sy_client s1 = sy_client s"
    "client_uids sv (sy_client s) [uid] = Ok msgs" "sy_slots s1 = sy_slots s \<union> with_body msgs" by blast
  have sub: "with_body msgs \<subseteq> {uid}" using client_uids_in [OF s1(3)] by simp
  note IH = Cons.IH [OF rest s1(1)]
  have now: "uid \<in> sy_slots t"
    if "client_uids sv (sy_client s) [uid] = Ok [m]" "ri_uid m = uid" "ri_body m \<noteq> None" for m
  proof -
    from that s1(3) have "with_body msgs = {uid}" by (auto simp: with_body_def)
    with s1(4) IH show ?thesis by blast
  qed
  from IH s1 sub now show ?case by auto
qed simp

lemma engine_remove_slots:
  assumes "engine_remove_deleted_uids env U s = (t, Ok u)" and "uids_inv (sy_db s)" and "finite U"
  shows "uids_inv (sy_db t) \<and> sy_eng t = sy_eng s \<and> sy_client t = sy_client s \<and> sy_slots t = sy_slots s - U"
proof -
  let ?aid = "en_account_id (sy_eng s)" and ?fid = "en_folder_id (sy_eng s)"
  from assms(1) obtain db' where rm: "remove_deleted_uids (se_iter env) (se_now env) ?aid ?fid (sorted_list_of_set U) (sy_db s) = (db', Ok ())"
    and t: "t = s\<lparr>sy_db := db'\<rparr>"
    by (auto simp: engine_remove_deleted_uids_def with_commits_def split: prod.splits)
  note rows = remove_deleted_uids_imapuids [OF assms(2) rm]
  have "slots db' ?aid ?fid = slots (sy_db s) ?aid ?fid - U"
    using local_uids_filter [OF rows] assms(3) by (simp add: local_uids_slots)
  with uids_inv_filter [OF assms(2) rows] t show ?thesis by (simp add: sy_slots_def)
qed

lemma update_uid_counts_db:
  "update_uid_counts now n others s = (t, Ok u) \<Longrightarrow>
    sy_eng t = sy_eng s \<and> sy_client t = sy_client s \<and> imapuids (sy_db t) = imapuids (sy_db s)"
  by (auto simp: update_uid_counts_def with_db_def res_simps split: sum.splits prod.splits)

lemma initial_sync_mirrors_aux:
  assumes run: "initial_sync_impl i [] s = (t, Ok ())" and inv: "uids_inv (sy_db s)"
    and all: "all_uids (sv_search (in_sv i)) (sv_search_alt (in_sv i)) = Ok remote"
  shows "uids_inv (sy_db t)" and "sy_slots s \<inter> set remote \<subseteq> sy_slots t" and "sy_slots t \<subseteq> set remote"
    and "(\<forall>uid\<in>set remote. \<exists>m. client_uids (in_sv i) (sy_client s) [uid] = Ok [m] \<and> ri_uid m = uid \<and>
      ri_body m \<noteq> None) \<Longrightarrow> sy_slots t = set remote"
proof -
  have fin: "finite (sy_slots s)"
    by (simp add: sy_slots_def local_uids_slots [symmetric] local_uids_def)
  let ?new = "set remote - sy_slots s"
  from run [unfolded initial_sync_impl_def all Let_def st_bind_def [of "st_res r" for r] st_simps prod.case sum.case
      engine_local_uids_slots]
  obtain s1 u1 s2 u2 s3 u3 where s1: "engine_remove_deleted_uids (in_env i) (sy_slots s - set remote) s = (s1, Ok u1)"
    and s2: "(if t_get acc_id (accounts (sy_db s1)) (en_account_id (sy_eng s1)) = None
          then (s1, Raise AttributeError) else (s1, Ok ())) = (s2, Ok u2)"
    and s3: "update_uid_counts (se_now (in_env i)) (Some (length remote)) [(''download_uid_count'', VInt (int (card ?new)))] s2 = (s3, Ok u3)"
    and d: "download_all (in_env i) (in_sv i) [] True (rev (sorted_list_of_set ?new)) s3 = (t, Ok ())"
    by (auto dest!: st_seq_Ok)
  from s2 have s2': "s2 = s1" by (auto split: if_split_asm)
  note r = engine_remove_slots [OF s1 inv] and c = update_uid_counts_db [OF s3]
  have slots3: "sy_slots s3 = sy_slots s \<inter> set remote"
    using r fin c by (auto simp: s2' sy_slots_def slots_def)
  have inv3: "uids_inv (sy_db s3)" using r fin c by (simp add: s2' uids_inv_distinct)
  have client3: "sy_client s3 = sy_client s" using r fin c by (simp add: s2')
  note D = download_all_slots [OF d inv3]
  have new: "set (rev (sorted_list_of_set ?new)) = ?new" by simp
  show "uids_inv (sy_db t)" using D by blast
  show "sy_slots s \<inter> set remote \<subseteq> sy_slots t" using D slots3 by blast
  show sub: "sy_slots t \<subseteq> set remote" using D slots3 new by blast
  assume complete: "\<forall>uid\<in>set remote. \<exists>m. client_uids (in_sv i) (sy_client s) [uid] = Ok [m] \<and> ri_uid m = uid \<and>
      ri_body m \<noteq> None"
  have "uid \<in> sy_slots t" if "uid \<in> set remote" for uid
  proof (cases "uid \<in> sy_slots s")
    case True
    with that D slots3 show ?thesis by blast
  next
    case False
    with that new have "uid \<in> set (rev (sorted_list_of_set ?new))" by simp
    with D complete that client3 show ?thesis by metis
  qed
  with sub show "sy_slots t = set remote" by blast
qed

section \<open>Checkpoints of the flag refresh\<close>

text \<open>
  A restarted refresh asks for changes above the checkpoint. With distinct modseqs in
  ascending order every change not yet persisted is above it.
\<close>

lemma checkpoint_safe_aux:
  assumes distinct: "distinct (map (\<lambda>c. fst (snd c)) changed)"
    and split: "condstore_batches changed = pre @ batch # post"
    and c: "c \<in> set (concat post)"
  shows "batch_checkpoint batch < fst (snd c)"
proof -
  let ?f = "\<lambda>c::changed_flags. fst (snd c)"
  have cc: "sort_key ?f changed = concat (pre @ batch # post)"
    using concat_chunk [of CONDSTORE_FLAGS_REFRESH_BATCH_SIZE "sort_key ?f changed"] split
    by (simp add: condstore_batches_def CONDSTORE_FLAGS_REFRESH_BATCH_SIZE_def)
  have "sorted (map ?f (sort_key ?f changed))" by simp
  then have le: "sorted (map ?f (concat pre @ batch @ concat post))" by (simp add: cc)
  have "distinct (map ?f (sort_key ?f changed))"
    using distinct by (simp add: distinct_map distinct_sort)
  then have ne: "distinct (map ?f (concat pre @ batch @ concat post))" by (simp add: cc)
  have batch: "batch \<noteq> []"
    using chunk_bounds [of batch CONDSTORE_FLAGS_REFRESH_BATCH_SIZE "sort_key ?f changed"] split
    by (auto simp: condstore_batches_def)
  have "?f b < ?f c" if "b \<in> set batch" for b
  proof -
    from le that c have "?f b \<le> ?f c" by (auto simp: sorted_append)
    moreover from ne that c have "?f b \<noteq> ?f c" by (force simp: distinct_append)
    ultimately show ?thesis by simp
  qed
  with batch show ?thesis by (simp add: batch_checkpoint_def)
qed

text \<open>Without distinctness a change that is not yet persisted can be at the checkpoint itself.\<close>

lemma checkpoint_tie_aux:
  "\<exists>changed batch post. condstore_batches changed = batch # post \<and>
     length batch = CONDSTORE_FLAGS_REFRESH_BATCH_SIZE \<and>
     (\<exists>c\<in>set (concat post). \<not> batch_checkpoint batch < fst (snd c))"
proof -
  let ?c = "(1::nat, Some (7::nat), [] :: string list, None :: string list option)"
  have sorted: "sort_key (\<lambda>c. fst (snd c)) (replicate 201 ?c) = replicate 201 ?c"
    by (rule sort_key_id_if_sorted) (simp only: map_replicate sorted_replicate)
  have one: "chunk 200 (replicate 1 ?c) = [replicate 1 ?c]"
    by (subst chunk.simps) simp
  have "chunk 200 (replicate 201 ?c) = replicate 200 ?c # chunk 200 (replicate 1 ?c)"
    by (subst chunk.simps) (simp add: take_replicate drop_replicate Let_def)
  with one have batches: "condstore_batches (replicate 201 ?c) = replicate 200 ?c # [replicate 1 ?c]"
    unfolding condstore_batches_def sorted CONDSTORE_FLAGS_REFRESH_BATCH_SIZE_def by simp
  have "batch_checkpoint (replicate 200 ?c) = Some 7"
    by (simp add: batch_checkpoint_def set_replicate_conv_if)
  then have "\<exists>c\<in>set (concat [replicate 1 ?c]). \<not> batch_checkpoint (replicate 200 ?c) < fst (snd c)" by simp
  with batches show ?thesis
    by (intro exI [of _ "replicate 201 ?c"] exI [of _ "replicate 200 ?c"] exI [of _ "[replicate 1 ?c]"])
      (simp add: CONDSTORE_FLAGS_REFRESH_BATCH_SIZE_def)
qed

section \<open>Refreshes that change nothing\<close>

lemma get_new_uids_unchanged_aux:
  assumes "sv_uidnext sv = Ok (Some n)" and "snd (uidnext s) = Ok (Some n)"
  shows "get_new_uids env sv s = (fst (uidnext s), Ok ())" and "sy_db (fst (uidnext s)) = sy_db s"
proof -
  obtain s1 where s1: "uidnext s = (s1, Ok (Some n))" using assms(2) by (cases "uidnext s") auto
  with assms(1) show "get_new_uids env sv s = (fst (uidnext s), Ok ())"
    by (simp add: get_new_uids_def st_bind_def)
  from s1 show "sy_db (fst (uidnext s)) = sy_db s"
    by (auto simp: uidnext_def split: option.splits sum.splits)
qed

end
