(* ===== verification/Sync_Samples.thy ===== *)
theory Sync_Samples
  imports Samples Folder_Proofs
begin

text \<open>
  A concrete folder to sync: one account, one folder, a few messages with their UIDs, and an
  IMAP server whose replies are fixed. The witnesses of the sync properties run the engine on it.
\<close>

definition sample_env :: sync_env where
  "sample_env = \<lparr>se_iter = (\<lambda>S. []), se_parse = (\<lambda>s. None), se_fresh = (\<lambda>s. s),
     se_parsed = (\<lambda>r. (sample_message 0)\<lparr>m_data_sha256 := replicate (ri_uid r) (CHR ''x'')\<rparr>),
     se_now = 1000, se_later = 2000, se_user = ''root'', se_describe = (\<lambda>e. ([], [], []))\<rparr>"

definition sample_client :: crispin where
  "sample_client = \<lparr>cr_account_id = 1, cr_gmail = False, cr_folder_map = Map.empty, cr_selected = None,
     cr_folder_names = None\<rparr>"

text \<open>A server on which the folder has the given UIDVALIDITY and UIDs, each with an empty body.\<close>

definition sample_data :: "nat \<Rightarrow> fetch_data" where
  "sample_data uid = \<lparr>fd_internaldate = Some 5, fd_flags = Some [], fd_body = Some (Some ''x''), fd_thrid = None,
     fd_msgid = None, fd_labels = None, fd_modseq = None\<rparr>"

definition sample_server :: "nat \<Rightarrow> nat list \<Rightarrow> server" where
  "sample_server validity uids = \<lparr>sv_client = sample_client, sv_listing = [], sv_capabilities = [],
     sv_select = Ok \<lparr>si_uidvalidity = validity, si_uidnext = Some 10\<rparr>, sv_uidnext = Ok (Some 10), sv_modseq = Ok 1,
     sv_search = Ok uids, sv_search_alt = Ok uids, sv_fetch_from = (\<lambda>n. Ok (filter (\<lambda>u. n \<le> u) uids)),
     sv_fetch_bodies = (\<lambda>us. Ok (map (\<lambda>u. (u, sample_data u)) (filter (\<lambda>u. u \<in> set uids) us))),
     sv_fetch_flags = (\<lambda>s. Ok []), sv_fetch_changed = (\<lambda>n. Ok []), sv_fetch_one = (\<lambda>n. Ok []),
     sv_idle_start = Ok (), sv_idle_check = Ok (), sv_idle_done = Ok ()\<rparr>"

definition sample_input :: "nat \<Rightarrow> nat list \<Rightarrow> sync_input" where
  "sample_input validity uids = \<lparr>in_env = sample_env, in_sv = sample_server validity uids,
     in_sv2 = sample_server validity uids, in_sv3 = sample_server validity uids\<rparr>"

definition sample_run :: "nat \<Rightarrow> nat list \<Rightarrow> run_input" where
  "sample_run validity uids = \<lparr>ri_attempts = [(sample_input validity uids, [])], ri_now = 1000, ri_user = ''root'',
     ri_error = ([], [], [])\<rparr>"

text \<open>The store has messages 1 and 2 under UIDs 5 and 6, and the folder was last seen with UIDVALIDITY 1.\<close>

definition sample_db :: store where
  "sample_db = empty_store\<lparr>accounts := [sample_account], folders := [sample_folder],
     messages := [sample_message 1, sample_message 2], imapuids := [sample_uid 1 1 5, sample_uid 2 2 6],
     folder_infos := [sample_folder_info], fsyncs := [sample_fsync]\<rparr>"

definition sample_engine :: "string \<Rightarrow> engine" where
  "sample_engine st = \<lparr>en_account_id = 1, en_namespace_id = 1, en_folder_id = 1, en_folder_name = ''INBOX'',
     en_folder_role = ''inbox'', en_state = Some st, en_uidinvalid_count = 0, en_uidvalidity = None,
     en_uidnext = None, en_highestmodseq = None, en_last_slow_refresh = None, en_last_fast_refresh = None,
     en_flags_fetch_results = Map.empty, en_is_initial_sync = True, en_is_first_sync = True,
     en_is_first_message = True, en_should_idle = None\<rparr>"

definition sample_sys :: "string \<Rightarrow> sync_sys" where
  "sample_sys st = \<lparr>sy_db = sample_db\<lparr>fsyncs := [sample_fsync\<lparr>fs_state := st\<rparr>]\<rparr>, sy_eng = sample_engine st,
     sy_client = sample_client\<rparr>"

lemmas sync_samples = sample_env_def sample_client_def sample_data_def sample_server_def sample_input_def
  sample_run_def sample_db_def sample_engine_def sample_sys_def

lemmas resync_defs = resync_uids_def resync_uids_impl_def select_with_def select_folder_def uidvalidity_def
  load_folder_info_def folder_info_rows_def query_one_def engine_remove_deleted_uids_def engine_local_uids_def
  with_commits_def set_uidvalidity_def set_highestmodseq_def set_uidnext_def update_folder_info_def
  on_engine_def on_client_def st_seq_def st_bind_def

lemmas run_defs = run_impl_def run_handler_def state_handler_def retry_crispin_def after_handler_def
  finish_run_def update_folder_sync_status_def with_db_def save_status_def fsync_rows_def t_put_def t_get_def

text \<open>The first start of the engine, and a resync against a server with a higher UIDVALIDITY.\<close>

lemma sample_start: "snd (start_run 1000 (sample_sys ''poll uidinvalid'')) = Ok ()"
  by code_simp

lemma sample_resync_impl:
  "snd (resync_uids_impl (sample_input 2 [5, 7]) (sample_sys ''poll uidinvalid'')) = Ok ()"
  by code_simp

lemma sample_resync_run:
  "snd (run_impl (sample_run 2 [5, 7]) (fst (start_run 1000 (sample_sys ''poll uidinvalid'')))) = Some (Ok ())"
  by code_simp

lemma sample_initial_sync:
  "snd (initial_sync_impl (sample_input 1 [5, 7]) [] (sample_sys ''initial'')) = Ok ()"
  by code_simp

end
