(* ===== verification/Mail_Gc.thy ===== *)
theory Mail_Gc
  imports Folder_Sync
begin

text \<open>
  \<open>inbox/mailsync/gc.py\<close>: the handler that deletes messages whose UIDs are gone, the
  categories and threads deleted on the backend, and the handler that refreshes the labels
  of a folder after a Gmail label was renamed.
\<close>

definition DEFAULT_MESSAGE_TTL :: int where "DEFAULT_MESSAGE_TTL = seconds 120"
definition DEFAULT_THREAD_TTL :: int where "DEFAULT_THREAD_TTL = seconds (60 * 60 * 24 * 7)"
definition MAX_FETCH :: nat where "MAX_FETCH = 1000"

section \<open>Dangling messages\<close>

definition expired :: "datetime \<Rightarrow> int \<Rightarrow> datetime option \<Rightarrow> bool" where
  "expired now ttl deleted_at = (case deleted_at of None \<Rightarrow> False | Some t \<Rightarrow> t \<le> now - ttl)"

definition dangling_messages :: "datetime \<Rightarrow> int \<Rightarrow> nat \<Rightarrow> store \<Rightarrow> message_row list" where
  "dangling_messages now ttl nid db =
     take MAX_FETCH (filter (\<lambda>m. m_namespace_id m = nid \<and> expired now ttl (m_deleted_at m)) (messages db))"

text \<open>The thread's attributes are taken from its oldest and newest message that is no draft.\<close>

definition recompute_thread :: "message_row list \<Rightarrow> thread_row \<Rightarrow> thread_row" where
  "recompute_thread non_drafts th =
     (set_thread_subject (m_subject (hd non_drafts)) th)
       \<lparr>th_subjectdate := m_received_date (hd non_drafts), th_recentdate := m_received_date (last non_drafts),
        th_snippet := m_snippet (last non_drafts)\<rparr>"

definition put_thread :: "store \<Rightarrow> thread_row \<Rightarrow> store" where
  "put_thread db th = db\<lparr>threads := t_put th_id (threads db) th\<rparr>"

text \<open>
  One dangling message: the store, and whether it is committed here. A message without a
  thread is logged with the id of the thread it does not have.
\<close>

definition check_message :: "datetime \<Rightarrow> message_row \<Rightarrow> store \<Rightarrow> (store \<times> bool) res" where
  "check_message later m db =
     (if message_uids db (m_id m) \<noteq> [] then Ok (put_message db (m\<lparr>m_deleted_at := None\<rparr>), False)
      else case message_thread db m of
        None \<Rightarrow> Raise AttributeError
      | Some th \<Rightarrow>
          (let db1 = db\<lparr>messages := t_del m_id (messages db) (m_id m)\<rparr>;
               rest = thread_messages db1 (th_id th);
               non_drafts = filter (\<lambda>x. \<not> m_is_draft x) rest
           in if rest = [] then Ok (put_thread db1 (th\<lparr>th_deleted_at := Some later\<rparr>), True)
              else if non_drafts = [] then Ok (db1, False)
              else Ok (put_thread db1 (recompute_thread non_drafts th), True)))"

text \<open>
  The loop keeps the last committed store beside the session's; leaving it normally
  commits, an exception rolls back.
\<close>

fun check_messages :: "datetime \<Rightarrow> message_row list \<Rightarrow> store \<Rightarrow> store \<Rightarrow> store \<times> unit res" where
  "check_messages later [] committed db = (db, Ok ())"
| "check_messages later (m # ms) committed db =
     (case check_message later m db of
        Inl e \<Rightarrow> (committed, Raise e)
      | Inr (db1, commit) \<Rightarrow> check_messages later ms (if commit then db1 else committed) db1)"

definition gc_check :: "datetime \<Rightarrow> datetime \<Rightarrow> int \<Rightarrow> nat \<Rightarrow> store \<Rightarrow> store \<times> unit res" where
  "gc_check now later ttl nid db = check_messages later (dangling_messages now ttl nid db) db db"

section \<open>Deleted categories and threads\<close>

definition messages_in_category :: "store \<Rightarrow> nat \<Rightarrow> nat" where
  "messages_in_category db cid = length (filter (\<lambda>m. Some cid \<in> set (m_categories m)) (messages db))"

definition gc_category :: "category_row \<Rightarrow> store \<Rightarrow> store" where
  "gc_category c db =
     (if messages_in_category db (cat_id c) = 0
      then delete_category db (cat_id c) else db)"

definition gc_deleted_categories :: "nat \<Rightarrow> store \<Rightarrow> store" where
  "gc_deleted_categories nid db =
     fold gc_category
       (filter (\<lambda>c. cat_namespace_id c = nid \<and> cat_deleted_at c > EPOCH) (categories db)) db"

definition gc_thread :: "thread_row \<Rightarrow> store \<Rightarrow> store" where
  "gc_thread th db =
     (if thread_messages db (th_id th) \<noteq> [] then put_thread db (th\<lparr>th_deleted_at := None\<rparr>)
      else db\<lparr>threads := t_del th_id (threads db) (th_id th)\<rparr>)"

definition gc_deleted_threads :: "datetime \<Rightarrow> int \<Rightarrow> nat \<Rightarrow> store \<Rightarrow> store" where
  "gc_deleted_threads now ttl nid db =
     fold gc_thread
       (take MAX_FETCH (filter (\<lambda>th. th_namespace_id th = nid \<and> expired now ttl (th_deleted_at th)) (threads db))) db"

definition gc_run :: "datetime \<Rightarrow> datetime \<Rightarrow> int \<Rightarrow> int \<Rightarrow> nat \<Rightarrow> store \<Rightarrow> store \<times> unit res" where
  "gc_run now later message_ttl thread_ttl nid db =
     (case gc_check now later message_ttl nid db of
        (db1, Inl e) \<Rightarrow> (db1, Inl e)
      | (db1, Inr u) \<Rightarrow> (gc_deleted_threads now thread_ttl nid (gc_deleted_categories nid db1), Ok ()))"

section \<open>Label renames\<close>

text \<open>What the server answers for one folder: the selection, the search, and the flags of a chunk.\<close>

record rename_reply =
  rn_select :: "select_info res"
  rn_search :: "nat list res"
  rn_flags :: "nat list \<Rightarrow> uid_flags list res"

fun rename_chunks ::
  "set_iter \<Rightarrow> datetime \<Rightarrow> nat \<Rightarrow> string \<Rightarrow> rename_reply \<Rightarrow> nat list list \<Rightarrow> store \<Rightarrow> store \<times> unit res" where
  "rename_chunks iter now aid name reply [] db = (db, Ok ())"
| "rename_chunks iter now aid name reply (uids # rest) db =
     (case rn_flags reply uids of
        Inl e \<Rightarrow> (db, Raise e)
      | Inr flags \<Rightarrow>
          (case query_one (filter (\<lambda>f. fld_account_id f = aid \<and> fld_name f = name) (folders db)) of
             Inl e \<Rightarrow> (db, Raise e)
           | Inr fld \<Rightarrow>
               (case update_metadata iter now aid (fld_id fld) (fld_canonical_name fld) flags db of
                  (db1, Inl e) \<Rightarrow> (db1, Raise e)
                | (db1, Inr u) \<Rightarrow> rename_chunks iter now aid name reply rest db1)))"

definition rename_folder ::
  "set_iter \<Rightarrow> datetime \<Rightarrow> nat \<Rightarrow> string \<Rightarrow> rename_reply \<Rightarrow> crispin \<Rightarrow> store \<Rightarrow> (crispin \<times> store) \<times> unit res" where
  "rename_folder iter now aid name reply cr db =
     (case select_folder (rn_select reply) name (module_uidvalidity_cb db) cr of
        (cr1, Inl e) \<Rightarrow> ((cr1, db), Raise e)
      | (cr1, Inr info) \<Rightarrow>
          (case search_uids (rn_search reply) of
             Inl e \<Rightarrow> ((cr1, db), Raise e)
           | Inr found \<Rightarrow>
               (let (db1, r) = rename_chunks iter now aid name reply (chunk 200 found) db in ((cr1, db1), r))))"

fun rename_folders ::
  "set_iter \<Rightarrow> datetime \<Rightarrow> nat \<Rightarrow> (string \<Rightarrow> rename_reply) \<Rightarrow> string list \<Rightarrow> crispin \<times> store
     \<Rightarrow> (crispin \<times> store) \<times> unit res" where
  "rename_folders iter now aid replies [] s = (s, Ok ())"
| "rename_folders iter now aid replies (name # names) (cr, db) =
     (case rename_folder iter now aid name (replies name) cr db of
        (s, Inl e) \<Rightarrow> (s, Raise e)
      | (s, Inr u) \<Rightarrow> rename_folders iter now aid replies names s)"

definition label_rename ::
  "set_iter \<Rightarrow> datetime \<Rightarrow> nat \<Rightarrow> (string \<Rightarrow> rename_reply) \<Rightarrow> crispin \<times> store \<Rightarrow> (crispin \<times> store) \<times> unit res" where
  "label_rename iter now aid replies s =
     rename_folders iter now aid replies (map fld_name (filter (\<lambda>f. fld_account_id f = aid) (folders (snd s)))) s"

section \<open>What garbage collection keeps\<close>

lemma check_message_imapuids: "check_message later m db = Ok (db', c) \<Longrightarrow> imapuids db' = imapuids db"
  by (auto simp: check_message_def put_message_def put_thread_def Let_def split: if_split_asm option.split_asm)

lemma check_message_messages:
  assumes "check_message later m db = Ok (db', c)"
  shows "messages db' =
    (if message_uids db (m_id m) \<noteq> [] then t_put m_id (messages db) (m\<lparr>m_deleted_at := None\<rparr>)
     else t_del m_id (messages db) (m_id m))"
  using assms
  by (auto simp: check_message_def put_message_def put_thread_def Let_def split: if_split_asm option.split_asm)

lemma check_message_ids:
  assumes "check_message later m db = Ok (db', c)"
  shows "m_id ` set (messages db') = m_id ` set (messages db) - (if message_uids db (m_id m) = [] then {m_id m} else {})"
proof (cases "message_uids db (m_id m) = []")
  case True
  with check_message_messages [OF assms] show ?thesis by (auto simp: msgs.set_del)
next
  case False
  with check_message_messages [OF assms] show ?thesis by (simp add: msgs.put_keys)
qed

lemma check_messages_invariant:
  assumes "\<And>m db db1 c. m \<in> set ms \<Longrightarrow> Q db \<Longrightarrow> check_message later m db = Ok (db1, c) \<Longrightarrow> Q db1"
  shows "Q committed \<Longrightarrow> Q db \<Longrightarrow> Q (fst (check_messages later ms committed db))"
  using assms
proof (induction ms arbitrary: committed db)
  case (Cons m ms)
  show ?case
  proof (cases "check_message later m db")
    case (Inl e)
    with Cons.prems show ?thesis by simp
  next
    case (Inr x)
    obtain db1 c where x: "x = (db1, c)" by (cases x)
    with Inr Cons.prems have Q1: "Q db1" by (metis list.set_intros(1))
    have "Q (fst (check_messages later ms (if c then db1 else committed) db1))"
    proof (rule Cons.IH)
      show "Q (if c then db1 else committed)" "Q db1" using Q1 Cons.prems(1) by simp_all
      show "Q d1" if "x \<in> set ms" "Q d" "check_message later x d = Ok (d1, e)" for x d d1 e
        using that by (intro Cons.prems(3) [of x d d1 e]) simp_all
    qed
    with Inr x show ?thesis by simp
  qed
qed simp

text \<open>A message that has a UID survives, whatever its mark says.\<close>

lemma gc_check_keeps_uids:
  assumes "m \<in> set (messages db)" and "message_uids db (m_id m) \<noteq> []"
  shows "m_id m \<in> m_id ` set (messages (fst (gc_check now later ttl nid db)))"
proof -
  let ?Q = "\<lambda>x. imapuids x = imapuids db \<and> m_id m \<in> m_id ` set (messages x)"
  have "?Q (fst (check_messages later (dangling_messages now ttl nid db) db db))"
  proof (rule check_messages_invariant)
    fix y x x1 c
    assume Q: "?Q x" and step: "check_message later y x = Ok (x1, c)"
    from Q have "message_uids x (m_id m) = message_uids db (m_id m)" by (simp add: message_uids_def)
    with check_message_ids [OF step] Q assms(2) have "m_id m \<in> m_id ` set (messages x1)" by auto
    with check_message_imapuids [OF step] Q show "?Q x1" by simp
  qed (use assms in auto)
  then show ?thesis by (simp add: gc_check_def)
qed

lemma dangling_in: "m \<in> set (dangling_messages now ttl nid db) \<Longrightarrow>
    m \<in> set (messages db) \<and> m_namespace_id m = nid \<and> expired now ttl (m_deleted_at m)"
  unfolding dangling_messages_def by (auto dest: in_set_takeD)

text \<open>A message that is not due stays as it is.\<close>

lemma gc_check_keeps_undue:
  assumes m: "m \<in> set (messages db)" and inv: "t_inv m_id (messages db)"
    and undue: "m_namespace_id m \<noteq> nid \<or> \<not> expired now ttl (m_deleted_at m)"
  shows "m \<in> set (messages (fst (gc_check now later ttl nid db)))"
proof -
  let ?Q = "\<lambda>x. m \<in> set (messages x)"
  have "?Q (fst (check_messages later (dangling_messages now ttl nid db) db db))"
  proof (rule check_messages_invariant)
    fix y x x1 c
    assume y: "y \<in> set (dangling_messages now ttl nid db)" and Q: "?Q x"
      and step: "check_message later y x = Ok (x1, c)"
    have "m_id m \<noteq> m_id y"
      using dangling_in [OF y] m undue inv by (auto simp: t_inv_def dest: distinct_map_eq)
    with check_message_messages [OF step] Q show "?Q x1"
      by (auto simp: msgs.set_put msgs.set_del)
  qed (use m in auto)
  then show ?thesis by (simp add: gc_check_def)
qed

text \<open>What is left of the messages once some ids are done.\<close>

definition settled_ids :: "store \<Rightarrow> nat set \<Rightarrow> store \<Rightarrow> bool" where
  "settled_ids db0 fin db \<longleftrightarrow>
     (\<forall>x\<in>set (messages db). if m_id x \<in> fin then m_deleted_at x = None else x \<in> set (messages db0))"

lemma check_message_settles:
  assumes "settled_ids db0 fin db" and "check_message later m db = Ok (db', c)"
  shows "settled_ids db0 (insert (m_id m) fin) db'"
  using assms(1) check_message_messages [OF assms(2)]
  by (auto simp: settled_ids_def msgs.set_put msgs.set_del split: if_splits)

lemma check_messages_settles:
  assumes "settled_ids db0 fin db" and "check_messages later ms committed db = (db', Ok ())"
  shows "settled_ids db0 (fin \<union> m_id ` set ms) db'"
  using assms
proof (induction ms arbitrary: fin committed db)
  case (Cons m ms)
  from Cons.prems(2) obtain db1 c where step: "check_message later m db = Ok (db1, c)"
    and rest: "check_messages later ms (if c then db1 else committed) db1 = (db', Ok ())"
    by (auto split: sum.splits prod.splits)
  from Cons.IH [OF check_message_settles [OF Cons.prems(1) step] rest] show ?case by simp
qed simp

text \<open>A run over all due messages leaves none of them.\<close>

lemma gc_check_complete_aux:
  assumes ok: "gc_check now later ttl nid db = (db', Ok ())"
    and few: "length (filter (\<lambda>m. m_namespace_id m = nid \<and> expired now ttl (m_deleted_at m)) (messages db)) \<le> MAX_FETCH"
  shows "\<forall>m\<in>set (messages db'). m_namespace_id m = nid \<longrightarrow> \<not> expired now ttl (m_deleted_at m)"
proof
  fix x assume x: "x \<in> set (messages db')"
  have all: "set (dangling_messages now ttl nid db) =
      {m \<in> set (messages db). m_namespace_id m = nid \<and> expired now ttl (m_deleted_at m)}"
    using few by (auto simp: dangling_messages_def)
  have "settled_ids db {} db" by (simp add: settled_ids_def)
  from check_messages_settles [OF this ok [unfolded gc_check_def]]
  have "settled_ids db (m_id ` set (dangling_messages now ttl nid db)) db'" by simp
  with x have "if m_id x \<in> m_id ` set (dangling_messages now ttl nid db) then m_deleted_at x = None
      else x \<in> set (messages db)" by (simp add: settled_ids_def)
  then have "m_deleted_at x = None \<or> x \<in> set (messages db) \<and> x \<notin> set (dangling_messages now ttl nid db)"
    by (metis image_eqI)
  then show "m_namespace_id x = nid \<longrightarrow> \<not> expired now ttl (m_deleted_at x)"
    unfolding all by (auto simp: expired_def)
qed

text \<open>No step leaves a message whose thread is gone.\<close>

lemma threads_exist_iff:
  "threads_exist db \<longleftrightarrow> (\<forall>m\<in>set (messages db). \<forall>tid. m_thread_id m = Some tid \<longrightarrow> tid \<in> th_id ` set (threads db))"
  by (auto simp: threads_exist_def)

lemma check_message_threads_exist:
  assumes ex: "threads_exist db" and step: "check_message later m db = Ok (db', c)" and m: "m \<in> set (messages db)"
  shows "threads_exist db'"
proof -
  have put: "th_id ` set (threads (put_thread x th)) = th_id ` set (threads x)" for x th
    by (simp add: put_thread_def thrs.put_keys)
  have "threads db' = threads db \<or> (\<exists>x th. db' = put_thread x th \<and> threads x = threads db)"
    using step by (auto simp: check_message_def put_message_def Let_def split: if_split_asm option.split_asm)
  then have "th_id ` set (threads db') = th_id ` set (threads db)" using put by metis
  moreover have "m_thread_id x \<in> m_thread_id ` set (messages db)" if "x \<in> set (messages db')" for x
    using that check_message_messages [OF step] m by (auto simp: msgs.set_put msgs.set_del split: if_splits)
  ultimately show ?thesis using ex unfolding threads_exist_iff by (metis imageE)
qed

lemma gc_thread_messages: "messages (gc_thread th db) = messages db"
  by (simp add: gc_thread_def put_thread_def)

lemma gc_thread_exist:
  assumes ex: "threads_exist db"
  shows "threads_exist (gc_thread th db)"
proof (cases "thread_messages db (th_id th) = []")
  case True
  then have "\<forall>m\<in>set (messages db). m_thread_id m \<noteq> Some (th_id th)"
    using thread_messages_set [of db "th_id th"] by auto
  moreover have "th_id ` set (threads (gc_thread th db)) = th_id ` set (threads db) - {th_id th}"
    using True by (auto simp: gc_thread_def thrs.set_del)
  ultimately show ?thesis using ex by (simp add: threads_exist_iff gc_thread_messages) blast
next
  case False
  with ex show ?thesis by (simp add: threads_exist_iff gc_thread_def put_thread_def thrs.put_keys)
qed

lemma gc_deleted_threads_exist: "threads_exist db \<Longrightarrow> threads_exist (gc_deleted_threads now ttl nid db)"
proof -
  have "threads_exist x \<Longrightarrow> threads_exist (fold gc_thread ths x)" for ths x
    by (induction ths arbitrary: x) (simp_all add: gc_thread_exist)
  then show "threads_exist db \<Longrightarrow> threads_exist (gc_deleted_threads now ttl nid db)"
    by (simp add: gc_deleted_threads_def)
qed

lemma gc_deleted_threads_messages [simp]: "messages (gc_deleted_threads now ttl nid db) = messages db"
proof -
  have "messages (fold gc_thread ths x) = messages x" for ths x
    by (induction ths arbitrary: x) (simp_all add: gc_thread_messages)
  then show ?thesis by (simp add: gc_deleted_threads_def)
qed

lemma gc_category_keeps:
  "messages (gc_category c db) = messages db" "threads (gc_category c db) = threads db"
proof -
  have "messages (delete_category db (cat_id c)) = messages db" if "messages_in_category db (cat_id c) = 0"
    using that by (intro delete_category_messages) (auto simp: messages_in_category_def filter_empty_conv)
  then show "messages (gc_category c db) = messages db" "threads (gc_category c db) = threads db"
    by (simp_all add: gc_category_def)
qed

lemma gc_deleted_categories_keeps [simp]:
  "messages (gc_deleted_categories nid db) = messages db" "threads (gc_deleted_categories nid db) = threads db"
proof -
  have "messages (fold gc_category cs x) = messages x \<and> threads (fold gc_category cs x) = threads x" for cs x
    by (induction cs arbitrary: x) (simp_all add: gc_category_keeps)
  then show "messages (gc_deleted_categories nid db) = messages db"
    and "threads (gc_deleted_categories nid db) = threads db"
    by (simp_all add: gc_deleted_categories_def)
qed

lemma messages_ids_kept:
  assumes step: "check_message later y x = Ok (x1, c)" and m: "m_id z \<noteq> m_id y"
  shows "z \<in> set (messages x) \<Longrightarrow> z \<in> set (messages x1)"
  using check_message_messages [OF step] m by (auto simp: msgs.set_put msgs.set_del)

lemma check_messages_exist:
  assumes "threads_exist committed" and "threads_exist db" and "distinct (map m_id ms)"
    and "set ms \<subseteq> set (messages db)"
  shows "threads_exist (fst (check_messages later ms committed db))"
  using assms
proof (induction ms arbitrary: committed db)
  case (Cons m ms)
  show ?case
  proof (cases "check_message later m db")
    case (Inl e)
    with Cons.prems show ?thesis by simp
  next
    case (Inr x)
    obtain db1 c where x: "x = (db1, c)" by (cases x)
    note step = Inr [unfolded x]
    have ex: "threads_exist db1" using check_message_threads_exist [OF Cons.prems(2) step] Cons.prems(4) by simp
    have sub: "z \<in> set (messages db1)" if "z \<in> set ms" for z
    proof (rule messages_ids_kept [OF step])
      show "m_id z \<noteq> m_id m" using Cons.prems(3) that by (metis distinct.simps(2) image_eqI list.map(2) set_map)
      show "z \<in> set (messages db)" using Cons.prems(4) that by auto
    qed
    have "threads_exist (fst (check_messages later ms (if c then db1 else committed) db1))"
      using ex Cons.prems(1,3) sub by (intro Cons.IH) auto
    with step show ?thesis by simp
  qed
qed simp

lemma gc_run_threads_exist_aux:
  assumes ex: "threads_exist db" and inv: "t_inv m_id (messages db)"
  shows "threads_exist (fst (gc_run now later message_ttl thread_ttl nid db))"
proof -
  let ?ms = "dangling_messages now message_ttl nid db"
  have "distinct (map m_id ?ms)"
    unfolding dangling_messages_def take_map [symmetric]
    by (rule distinct_take) (use inv in \<open>simp add: t_inv_def distinct_map_filter_upd\<close>)
  moreover have "set ?ms \<subseteq> set (messages db)" by (auto dest: dangling_in)
  ultimately have chk: "threads_exist (fst (gc_check now later message_ttl nid db))"
    unfolding gc_check_def using ex by (intro check_messages_exist)
  obtain db1 r where c: "gc_check now later message_ttl nid db = (db1, r)" by fastforce
  have "threads_exist (gc_deleted_categories nid db1)"
    using chk c by (simp add: threads_exist_def)
  with c chk show ?thesis
    by (cases r) (simp_all add: gc_run_def gc_deleted_threads_exist)
qed

end
