(* ===== verification/Props_Sync.thy ===== *)
theory Props_Sync
  imports Sync_Samples Mail_Gc
begin

text \<open>
  The properties of the folder sync engine and of the code around it: the states and the resync
  counter of the run loop, what the initial sync, a resync and a removal leave in the store,
  the checkpoints of the flag refresh, and what garbage collection keeps and deletes.
\<close>

section \<open>The run loop\<close>

text \<open>
  C1: From a start in a state the status column holds, the engine is after any number of
  iterations, with any replies of the server and any retried failures, in one of the four states
  \<open>initial\<close>, \<open>initial uidinvalid\<close>, \<open>poll\<close>, \<open>poll uidinvalid\<close>, each of
  which has a handler: the dispatch in \<open>_run_impl\<close> never fails.
\<close>

theorem engine_state_handled:
  assumes "started s" and "loop_step\<^sup>*\<^sup>* s t"
  shows "en_state (sy_eng t) \<in> Some ` sync_states \<and> state_handler (en_state (sy_eng t)) \<noteq> None"
proof -
  have "valid_state t" using assms by (rule folder_loop.reach_inv)
  then show ?thesis by (auto simp: valid_state_def sync_states_def state_handler_def)
qed

theorem engine_state_handled_witness:
  "\<exists>s t. started s \<and> loop_step s t \<and> en_state (sy_eng t) \<in> Some ` sync_states \<and>
     state_handler (en_state (sy_eng t)) \<noteq> None"
proof -
  let ?s = "fst (start_run 1000 (sample_sys ''poll uidinvalid''))"
  let ?t = "fst (run_impl (sample_run 2 [5, 7]) ?s)"
  have "stored_states_valid (sample_sys ''poll uidinvalid'')"
    by (simp add: stored_states_valid_def fsync_rows_def sync_samples sample_defs sync_states_def)
  moreover have "start_run 1000 (sample_sys ''poll uidinvalid'') = (?s, Ok ())"
    by (rule prod_eqI) (simp_all add: sample_start)
  ultimately have s: "started ?s" unfolding started_def by blast
  have "run_impl (sample_run 2 [5, 7]) ?s = (?t, Some (Ok ()))"
    by (rule prod_eqI) (simp_all add: sample_resync_run)
  moreover have "plain_run (sample_run 2 [5, 7])"
    by (simp add: plain_run_def plain_input_def sample_run_def sample_input_def sample_server_def)
  ultimately have t: "loop_step ?s ?t" by (rule loop_step.iterate [rotated])
  from engine_state_handled [OF s r_into_rtranclp [of loop_step, OF t]] s t show ?thesis by blast
qed

text \<open>
  The counter of UIDVALIDITY errors is exactly the number of errors since the last iteration
  that finished in the state it started in, and it never exceeds
  \<open>MAX_UIDINVALID_RESYNCS\<close> while the loop goes on.
\<close>

theorem resync_counter:
  assumes "iterations s ks t"
  shows "en_uidinvalid_count (sy_eng t) = errors_in_a_row (en_uidinvalid_count (sy_eng s)) ks \<and>
    (en_uidinvalid_count (sy_eng s) \<le> MAX_UIDINVALID_RESYNCS \<longrightarrow>
     en_uidinvalid_count (sy_eng t) \<le> MAX_UIDINVALID_RESYNCS)"
  using assms by (rule iterations_count_aux)

theorem resync_counter_witness:
  "\<exists>ks t. iterations (sample_sys ''poll uidinvalid'') ks t \<and> length ks = 1 \<and>
     en_uidinvalid_count (sy_eng t) = errors_in_a_row 0 ks"
proof -
  let ?s = "sample_sys ''poll uidinvalid''" and ?i = "sample_run 2 [5, 7]"
  have "snd (run_impl ?i ?s) = Some (Ok ())" by code_simp
  then have "run_impl ?i ?s = (fst (run_impl ?i ?s), Some (Inr ()))" by (metis prod.collapse)
  moreover have "plain_run ?i"
    by (simp add: plain_run_def plain_input_def sample_run_def sample_input_def sample_server_def)
  ultimately have "iterations ?s [kind_of ?i ?s] (fst (run_impl ?i ?s))"
    by (blast intro: iterations.intros)
  from resync_counter [OF this] this show ?thesis
    by (intro exI [of _ "[kind_of ?i ?s]"] exI [of _ "fst (run_impl ?i ?s)"])
      (simp add: sample_sys_def sample_engine_def)
qed

text \<open>
  The UIDVALIDITY error after \<open>MAX_UIDINVALID_RESYNCS\<close> of them ends the run for good
  (\<open>MailsyncDone\<close>) with the account's sync disabled and its state stopped in the store.
\<close>

theorem resync_limit_stops:
  assumes "run_handler inp s = (s1, Some (Inl UidInvalid))"
    and "en_uidinvalid_count (sy_eng s) = MAX_UIDINVALID_RESYNCS"
    and "t_get acc_id (accounts (sy_db s1)) (en_account_id (sy_eng s)) = Some a"
    and "t_inv acc_id (accounts (sy_db s1))"
  shows "\<exists>t a'. run_impl inp s = (t, Some (Inl MailsyncDone)) \<and>
     t_get acc_id (accounts (sy_db t)) (en_account_id (sy_eng s)) = Some a' \<and>
     \<not> acc_sync_should_run a' \<and> acc_sync_state a' = Some Stopped"
  using assms by (rule run_impl_gives_up)

theorem resync_limit_stops_witness:
  "\<exists>s t a'. run_impl (sample_run 2 [5, 7]) s = (t, Some (Inl MailsyncDone)) \<and>
     t_get acc_id (accounts (sy_db t)) 1 = Some a' \<and> \<not> acc_sync_should_run a'"
proof -
  let ?s = "(sample_sys ''poll'')\<lparr>sy_eng := (sample_engine ''poll'')\<lparr>en_uidinvalid_count := MAX_UIDINVALID_RESYNCS\<rparr>\<rparr>"
  let ?i = "sample_run 2 [5, 7]"
  let ?h = "run_handler ?i ?s"
  have "snd ?h = Some (Inl UidInvalid)" by code_simp
  then have h: "?h = (fst ?h, Some (Inl UidInvalid))" by (metis prod.collapse)
  have "map acc_id (accounts (sy_db (fst ?h))) = [1]" by code_simp
  then obtain a where a: "accounts (sy_db (fst ?h)) = [a]" "acc_id a = 1" by auto
  have id: "en_account_id (sy_eng ?s) = 1" by (simp add: sample_engine_def)
  have "en_uidinvalid_count (sy_eng ?s) = MAX_UIDINVALID_RESYNCS" by simp
  moreover have "t_get acc_id (accounts (sy_db (fst ?h))) (en_account_id (sy_eng ?s)) = Some a"
    unfolding a(1) id by (simp add: t_get_def a(2))
  moreover have "t_inv acc_id (accounts (sy_db (fst ?h)))"
    unfolding a(1) by (simp add: t_inv_def)
  ultimately have "\<exists>t a'. run_impl ?i ?s = (t, Some (Inl MailsyncDone)) \<and>
     t_get acc_id (accounts (sy_db t)) (en_account_id (sy_eng ?s)) = Some a' \<and>
     \<not> acc_sync_should_run a' \<and> acc_sync_state a' = Some Stopped"
    by (rule resync_limit_stops [OF h])
  then show ?thesis unfolding id by blast
qed

section \<open>What the handlers leave in the store\<close>

text \<open>
  A resync that finds a UIDVALIDITY other than the saved one discards every UID of the
  folder, so that the next initial sync downloads it afresh, and remembers the new UIDVALIDITY.
\<close>

theorem resync_discards:
  assumes "resync_uids_impl i s = (t, Ok ())" and "uids_inv (sy_db s)"
    and "sv_select (in_sv i) = Ok info"
    and "snd (uidvalidity s) = Ok saved" and "\<not> (\<exists>v. saved = Some v \<and> si_uidvalidity info \<le> v)"
  shows "engine_local_uids None t = {} \<and> en_uidvalidity (sy_eng t) = Some (Some (si_uidvalidity info)) \<and>
    uids_inv (sy_db t)"
  using assms by (rule resync_discards_aux)

theorem resync_discards_witness:
  "\<exists>t. resync_uids_impl (sample_input 2 [5, 7]) (sample_sys ''poll uidinvalid'') = (t, Ok ()) \<and>
     engine_local_uids None t = {} \<and> en_uidvalidity (sy_eng t) = Some (Some 2)"
proof -
  let ?i = "sample_input 2 [5, 7]" and ?s = "sample_sys ''poll uidinvalid''"
  let ?t = "fst (resync_uids_impl ?i ?s)"
  have run: "resync_uids_impl ?i ?s = (?t, Ok ())"
    by (rule prod_eqI) (simp_all add: sample_resync_impl)
  have saved: "snd (uidvalidity ?s) = Ok (Some 1)" by code_simp
  have "uids_inv (sy_db ?s)"
    by (simp add: uids_inv_def t_inv_def uid_slot_def sync_samples sample_defs)
  moreover have "sv_select (in_sv ?i) = Ok \<lparr>si_uidvalidity = 2, si_uidnext = Some 10\<rparr>"
    by (simp add: sample_input_def sample_server_def)
  ultimately have "engine_local_uids None ?t = {} \<and> en_uidvalidity (sy_eng ?t) = Some (Some 2)"
    using resync_discards [OF run _ _ saved] by simp
  with run show ?thesis by blast
qed

text \<open>
  C2: An initial sync that ends (nothing else changing the folder meanwhile) keeps the UIDs that
  are still on the server, has no UID that is not, and has exactly the server's when every UID
  can be fetched with a body.
\<close>

theorem initial_sync_mirrors:
  assumes "initial_sync_impl i [] s = (t, Ok ())" and "uids_inv (sy_db s)"
    and "all_uids (sv_search (in_sv i)) (sv_search_alt (in_sv i)) = Ok remote"
  shows "uids_inv (sy_db t) \<and> sy_slots s \<inter> set remote \<subseteq> sy_slots t \<and> sy_slots t \<subseteq> set remote \<and>
    ((\<forall>uid\<in>set remote. \<exists>m. client_uids (in_sv i) (sy_client s) [uid] = Ok [m] \<and> ri_uid m = uid \<and>
      ri_body m \<noteq> None) \<longrightarrow> sy_slots t = set remote)"
  using initial_sync_mirrors_aux [OF assms] by blast

theorem initial_sync_mirrors_witness:
  "\<exists>t. initial_sync_impl (sample_input 1 [5, 7]) [] (sample_sys ''initial'') = (t, Ok ()) \<and> sy_slots t = {5, 7}"
proof -
  let ?i = "sample_input 1 [5, 7]" and ?s = "sample_sys ''initial''"
  let ?t = "fst (initial_sync_impl ?i [] ?s)"
  have run: "initial_sync_impl ?i [] ?s = (?t, Ok ())"
    by (metis prod.collapse sample_initial_sync)
  have inv: "uids_inv (sy_db ?s)"
    by (simp add: uids_inv_def t_inv_def uid_slot_def sync_samples sample_defs)
  have all: "all_uids (sv_search (in_sv ?i)) (sv_search_alt (in_sv ?i)) = Ok [5, 7]"
    by (simp add: sample_input_def sample_server_def all_uids_def)
  have "\<exists>m. client_uids (in_sv ?i) (sy_client ?s) [uid] = Ok [m] \<and> ri_uid m = uid \<and> ri_body m \<noteq> None"
    if "uid \<in> {5, 7}" for uid
    using that
    by (auto simp: client_uids_def generic_uids_def raw_messages.simps generic_raw_def sync_samples sorted_keys_def
        seq_only_def need_def)
  with initial_sync_mirrors [OF run inv all] have "sy_slots ?t = {5, 7}" by simp
  with run show ?thesis by blast
qed

text \<open>
  C3: Removing expunged UIDs deletes exactly those UIDs of that folder and account, keeps every
  message that is no draft or still has a UID, and marks for deletion no message that still has one.
\<close>

theorem removal_exact:
  assumes "uids_inv db" and "t_inv m_id (messages db)"
    and "remove_deleted_uids iter now aid fid uids db = (db', Ok ())"
  shows "imapuids db' =
      filter (\<lambda>u. \<not> (u_account_id u = aid \<and> u_folder_id u = fid \<and> u_msg_uid u \<in> set uids)) (imapuids db) \<and>
    local_uids db' aid fid None = local_uids db aid fid None - set uids \<and> messages_kept db db'"
  using remove_deleted_uids_imapuids [OF assms(1,3)] local_uids_filter remove_deleted_uids_kept [OF assms] by blast

theorem removal_exact_witness:
  "\<exists>db'. remove_deleted_uids (\<lambda>S. []) 0 1 1 [5, 9] sample_db = (db', Ok ()) \<and>
     local_uids db' 1 1 None = {6} \<and> messages_kept sample_db db'"
proof -
  let ?r = "remove_deleted_uids (\<lambda>S. []) 0 1 1 [5, 9] sample_db"
  have "snd ?r = Ok ()" by code_simp
  then have r: "?r = (fst ?r, Ok ())" by (metis prod.collapse)
  have "local_uids sample_db 1 1 None = {5, 6}"
    by (simp add: local_uids_def folder_uid_rows_def sample_db_def sample_defs)
  moreover have "uids_inv sample_db" "t_inv m_id (messages sample_db)"
    by (simp_all add: uids_inv_def t_inv_def uid_slot_def sample_db_def sample_defs)
  ultimately show ?thesis using removal_exact [OF _ _ r] r by force
qed

text \<open>
  The checkpoint written after a full batch of flag changes is safe when the server's modseqs
  are distinct: every change of a later batch has a larger modseq, so a refresh that is restarted
  from the checkpoint asks for all changes that were not persisted.
\<close>

theorem checkpoint_safe:
  assumes "distinct (map (\<lambda>c. fst (snd c)) changed)"
    and "condstore_batches changed = pre @ batch # post" and "c \<in> set (concat post)"
  shows "batch_checkpoint batch < fst (snd c)"
  using assms by (rule checkpoint_safe_aux)

theorem checkpoint_safe_witness:
  "\<exists>changed pre batch post c. distinct (map (\<lambda>c. fst (snd c)) changed) \<and>
     condstore_batches changed = pre @ batch # post \<and> c \<in> set (concat post) \<and> batch_checkpoint batch < fst (snd c)"
proof -
  let ?ch = "map (\<lambda>i. (i, Some i, [], None)) [0..<201] :: changed_flags list"
  have sorted: "sort_key (\<lambda>c. fst (snd c)) ?ch = ?ch"
    by (intro sorted_sort_id sort_key_id_if_sorted) (simp add: sorted_iff_nth_mono)
  have dist: "distinct (map (\<lambda>c. fst (snd c)) ?ch)" by (simp add: distinct_map inj_on_def)
  have split: "condstore_batches ?ch = [] @ take 200 ?ch # [drop 200 ?ch]"
    unfolding condstore_batches_def sorted CONDSTORE_FLAGS_REFRESH_BATCH_SIZE_def
    by (subst chunk.simps, subst chunk.simps) (simp add: take_map drop_map)
  have c: "(200, Some 200, [], None) \<in> set (concat [drop 200 ?ch])" by (simp add: drop_map)
  from checkpoint_safe [OF dist split c] dist split c show ?thesis by blast
qed

text \<open>
  Without distinct modseqs the checkpoint is not safe, against the comment at the batches
  (\<open>It's safe to checkpoint because we go in ascending order by modseq\<close>): there are changes,
  two of them with one modseq, for which the checkpoint after the first full batch equals the
  modseq of a change of the next batch. A restart asks for changes above the checkpoint and
  never sees that one.
\<close>

theorem checkpoint_lost_on_ties:
  "\<exists>changed batch post. condstore_batches changed = batch # post \<and>
     length batch = CONDSTORE_FLAGS_REFRESH_BATCH_SIZE \<and>
     (\<exists>c\<in>set (concat post). \<not> batch_checkpoint batch < fst (snd c))"
  by (rule checkpoint_tie_aux)

section \<open>Garbage collection\<close>

text \<open>
  C8: Garbage collection of messages deletes only dangling ones: a message that has a UID in some
  folder survives, and one of another namespace, not marked, or marked for less than the
  time to live is not touched at all. This holds whether or not the check raises.
\<close>

theorem gc_deletes_only_dangling:
  assumes "m \<in> set (messages db)" and "t_inv m_id (messages db)"
  shows "(message_uids db (m_id m) \<noteq> [] \<longrightarrow>
      m_id m \<in> m_id ` set (messages (fst (gc_check now later ttl nid db)))) \<and>
    (m_namespace_id m \<noteq> nid \<or> \<not> expired now ttl (m_deleted_at m) \<longrightarrow>
      m \<in> set (messages (fst (gc_check now later ttl nid db))))"
  using gc_check_keeps_uids [OF assms(1)] gc_check_keeps_undue [OF assms] by blast

text \<open>The store the collector is run on: message 1 is marked without a UID, message 2 has one.\<close>

definition gc_sample :: store where
  "gc_sample = empty_store\<lparr>messages := [(sample_message 1)\<lparr>m_thread_id := Some 1, m_deleted_at := Some 0\<rparr>,
     (sample_message 2)\<lparr>m_thread_id := Some 1, m_deleted_at := Some 0\<rparr>],
     threads := [sample_thread 1], imapuids := [sample_uid 2 2 6]\<rparr>"

theorem gc_deletes_only_dangling_witness:
  "map m_id (messages gc_sample) = [1, 2] \<and>
   2 \<in> m_id ` set (messages (fst (gc_check (seconds 200) (seconds 200) DEFAULT_MESSAGE_TTL 1 gc_sample)))"
proof -
  let ?m = "(sample_message 2)\<lparr>m_thread_id := Some 1, m_deleted_at := Some 0\<rparr>"
  have "?m \<in> set (messages gc_sample)" "t_inv m_id (messages gc_sample)"
    by (simp_all add: gc_sample_def t_inv_def sample_message_def)
  from gc_deletes_only_dangling [OF this] show ?thesis
    by (simp add: gc_sample_def message_uids_def sample_message_def sample_uid_def)
qed

text \<open>
  A check that ends normally with no more than \<open>MAX_FETCH\<close> messages due leaves no
  message of the namespace that was marked for longer than the time to live: each is deleted or,
  when a UID has appeared for it, unmarked.
\<close>

theorem gc_settles_all:
  assumes "gc_check now later ttl nid db = (db', Ok ())"
    and "length (filter (\<lambda>m. m_namespace_id m = nid \<and> expired now ttl (m_deleted_at m)) (messages db)) \<le> MAX_FETCH"
  shows "\<forall>m\<in>set (messages db'). m_namespace_id m = nid \<longrightarrow> \<not> expired now ttl (m_deleted_at m)"
  using assms by (rule gc_check_complete_aux)

theorem gc_settles_all_witness:
  "\<exists>db'. gc_check (seconds 200) (seconds 200) DEFAULT_MESSAGE_TTL 1 gc_sample = (db', Ok ()) \<and>
     (\<forall>m\<in>set (messages db'). m_namespace_id m = 1 \<longrightarrow> \<not> expired (seconds 200) DEFAULT_MESSAGE_TTL (m_deleted_at m))"
proof -
  let ?r = "gc_check (seconds 200) (seconds 200) DEFAULT_MESSAGE_TTL 1 gc_sample"
  have "snd ?r = Ok ()" by code_simp
  then have r: "?r = (fst ?r, Ok ())" by (metis prod.collapse)
  have "length (filter (\<lambda>m. m_namespace_id m = 1 \<and> expired (seconds 200) DEFAULT_MESSAGE_TTL (m_deleted_at m))
      (messages gc_sample)) \<le> MAX_FETCH" by code_simp
  from gc_settles_all [OF r this] r show ?thesis by blast
qed

text \<open>
  Deleting messages, emptied categories and threads never leaves a message behind whose
  thread is gone, in whatever way a run of the collector ends.
\<close>

theorem gc_keeps_threads_of_messages:
  assumes "threads_exist db" and "t_inv m_id (messages db)"
  shows "threads_exist (fst (gc_run now later message_ttl thread_ttl nid db))"
  using assms by (rule gc_run_threads_exist_aux)

theorem gc_keeps_threads_of_messages_witness:
  "threads_exist (fst (gc_run (seconds 200) (seconds 200) DEFAULT_MESSAGE_TTL DEFAULT_THREAD_TTL 1 gc_sample))"
  by (rule gc_keeps_threads_of_messages)
    (simp_all add: threads_exist_def t_inv_def gc_sample_def sample_message_def sample_thread_def)

end
