(* ===== verification/Delta_Sync.thy ===== *)
theory Delta_Sync
  imports Mail_Store
begin

text \<open>
  The transaction log: which revisions a flush writes (\<open>inbox/models/transaction.py\<close>), and
  how a client reads the log from a pointer (\<open>inbox/transactions/delta_sync.py\<close>, with
  \<open>transaction_objects\<close> of \<open>inbox/models/util.py\<close>). The log is in ascending order of its
  auto-increment ids. What an object is encoded to is a parameter.
\<close>

section \<open>Transactions\<close>

datatype command = Insert | Update | Delete

record trx =
  tx_id :: nat
  tx_namespace_id :: nat
  tx_object_type :: string
  tx_record_id :: nat
  tx_object_public_id :: string
  tx_public_id :: string
  tx_command :: command
  tx_created_at :: datetime

section \<open>Writing revisions\<close>

text \<open>
  An object of a session when it is flushed. \<open>so_changed\<close>: it is in \<open>session.dirty\<close> with
  versioned changes; \<open>so_marked\<close>: its \<open>dirty\<close> attribute is set.
\<close>

record session_obj =
  so_type :: string
  so_id :: nat
  so_public_id :: string
  so_namespace_id :: nat
  so_has_revisions :: bool
  so_suppressed :: bool
  so_new :: bool
  so_changed :: bool
  so_marked :: bool
  so_deleted :: bool

definition is_dirty :: "session_obj \<Rightarrow> bool" where
  "is_dirty obj \<longleftrightarrow> so_changed obj \<or> so_marked obj"

definition create_revision :: "datetime \<Rightarrow> (nat \<Rightarrow> string) \<Rightarrow> session_obj \<Rightarrow> command \<Rightarrow> trx list \<times> trx list \<Rightarrow> trx list \<times> trx list" where
  "create_revision now fresh obj cmd logs =
     (let rev = (\<lambda>log. \<lparr>tx_id = t_next tx_id log, tx_namespace_id = so_namespace_id obj, tx_object_type = so_type obj,
                 tx_record_id = so_id obj, tx_object_public_id = so_public_id obj,
                 tx_public_id = fresh (t_next tx_id log), tx_command = cmd, tx_created_at = now\<rparr>)
      in (t_add (fst logs) (rev (fst logs)),
          if so_type obj = ''account'' then t_add (snd logs) (rev (snd logs)) else snd logs))"

text \<open>The revision one object gets, if any; a marked object is unmarked.\<close>

definition revision_command :: "session_obj \<Rightarrow> command option" where
  "revision_command obj =
     (if \<not> so_has_revisions obj \<or> so_suppressed obj then None
      else if so_new obj then Some Insert
      else if is_dirty obj then Some Update
      else if so_deleted obj then Some Delete
      else None)"

fun create_revisions ::
  "datetime \<Rightarrow> (nat \<Rightarrow> string) \<Rightarrow> session_obj list \<Rightarrow> trx list \<times> trx list \<Rightarrow> session_obj list \<times> trx list \<times> trx list" where
  "create_revisions now fresh [] logs = ([], logs)"
| "create_revisions now fresh (obj # objs) logs =
     (let obj' = (if revision_command obj = Some Update then obj\<lparr>so_marked := False\<rparr> else obj);
          logs' = (case revision_command obj of None \<Rightarrow> logs | Some cmd \<Rightarrow> create_revision now fresh obj cmd logs);
          (rest, final) = create_revisions now fresh objs logs'
      in (obj' # rest, final))"

text \<open>
  A message in \<open>session.dirty\<close> whose read or starred flag or categories changed marks its
  thread.
\<close>

definition propagate_changes :: "(session_obj \<Rightarrow> nat option) \<Rightarrow> (session_obj \<Rightarrow> bool) \<Rightarrow> session_obj list \<Rightarrow> session_obj list" where
  "propagate_changes thread_of attrs_changed objs =
     (let marked = {tid. \<exists>m\<in>set objs. so_type m = ''message'' \<and> attrs_changed m \<and> thread_of m = Some tid}
      in map (\<lambda>obj. if so_type obj = ''thread'' \<and> so_id obj \<in> marked then obj\<lparr>so_marked := True\<rparr> else obj) objs)"

definition increment_versions :: "(session_obj \<times> nat) list \<Rightarrow> (session_obj \<times> nat) list" where
  "increment_versions objs =
     map (\<lambda>(obj, v). if so_type obj \<in> {''thread'', ''metadata''} \<and> is_dirty obj then (obj, v + 1) else (obj, v)) objs"

section \<open>Cursors\<close>

definition visible :: "trx list \<Rightarrow> nat \<Rightarrow> trx list" where
  "visible log nid = filter (\<lambda>t. tx_namespace_id t = nid) log"

definition latest_by_id :: "trx list \<Rightarrow> trx option" where
  "latest_by_id ts = (if ts = [] then None else Some (last (sort_key tx_id ts)))"

definition get_transaction_cursor_near_timestamp :: "trx list \<Rightarrow> nat \<Rightarrow> int \<Rightarrow> string" where
  "get_transaction_cursor_near_timestamp log nid timestamp =
     (let dt = seconds timestamp;
          earlier = filter (\<lambda>t. tx_created_at t < dt) (visible log nid)
      in if earlier = [] then ''0''
         else (let latest = Max (set (map tx_created_at earlier))
               in case latest_by_id (filter (\<lambda>t. tx_created_at t = latest) (visible log nid)) of
                    None \<Rightarrow> ''0''
                  | Some t \<Rightarrow> tx_public_id t))"

definition last_trx_id :: "trx list \<Rightarrow> nat \<Rightarrow> nat res" where
  "last_trx_id log nid =
     (case visible log nid of
        [] \<Rightarrow> Raise NoResultFound
      | ts \<Rightarrow> (let latest = Max (set (map tx_created_at ts))
              in case latest_by_id (filter (\<lambda>t. tx_created_at t = latest) ts) of
                   None \<Rightarrow> Raise NoResultFound
                 | Some t \<Rightarrow> Ok (tx_id t)))"

section \<open>Deltas\<close>

definition transaction_objects :: "string set" where
  "transaction_objects =
     {''calendar'', ''contact'', ''draft'', ''event'', ''file'', ''message'', ''thread'', ''label'', ''folder'',
      ''account'', ''metadata''}"

definition event_name :: "command \<Rightarrow> string" where
  "event_name cmd = (case cmd of Insert \<Rightarrow> ''create'' | Update \<Rightarrow> ''modify'' | Delete \<Rightarrow> ''delete'')"

record 'r delta =
  dl_object :: string
  dl_event :: string
  dl_id :: string
  dl_cursor :: string
  dl_attributes :: "'r option"

text \<open>
  The type filters of a request. Folders, labels and accounts are left out on request,
  and metadata cannot be asked for by name.
\<close>

record delta_filter =
  df_exclude_types :: "string set"
  df_include_types :: "string list option"
  df_exclude_folders :: bool
  df_exclude_metadata :: bool
  df_exclude_account :: bool

definition type_wanted :: "delta_filter \<Rightarrow> string \<Rightarrow> bool" where
  "type_wanted df ty \<longleftrightarrow>
     ty \<notin> df_exclude_types df \<and>
     \<not> (df_exclude_folders df \<and> ty \<in> {''folder'', ''label''}) \<and>
     \<not> (df_exclude_account df \<and> ty = ''account'') \<and>
     \<not> (df_exclude_metadata df \<and> ty = ''metadata'') \<and>
     (case df_include_types df of None \<Rightarrow> True | Some tys \<Rightarrow> ty \<in> set (remove1 ''metadata'' tys))"

definition batch_after :: "trx list \<Rightarrow> nat \<Rightarrow> delta_filter \<Rightarrow> nat \<Rightarrow> nat \<Rightarrow> trx list" where
  "batch_after log nid df limit pointer =
     take limit (sort_key tx_id (filter (\<lambda>t. tx_id t > pointer \<and> type_wanted df (tx_object_type t)) (visible log nid)))"

text \<open>The last transaction of each object and command among those of one type.\<close>

definition trx_key :: "trx \<Rightarrow> string \<times> nat \<times> command" where
  "trx_key t = (tx_object_type t, tx_record_id t, tx_command t)"

definition latest_trxs :: "trx list \<Rightarrow> trx list" where
  "latest_trxs ts = filter (\<lambda>t. \<forall>u\<in>set ts. trx_key u = trx_key t \<longrightarrow> tx_id u \<le> tx_id t) ts"

definition delta_of :: "(string \<Rightarrow> nat \<Rightarrow> 'r option) \<Rightarrow> trx \<Rightarrow> (nat \<times> 'r delta) option" where
  "delta_of load t =
     (if tx_command t = Delete
      then Some (tx_id t, \<lparr>dl_object = tx_object_type t, dl_event = event_name Delete, dl_id = tx_object_public_id t,
                           dl_cursor = tx_public_id t, dl_attributes = None\<rparr>)
      else case load (tx_object_type t) (tx_record_id t) of
             None \<Rightarrow> None
           | Some r \<Rightarrow> Some (tx_id t, \<lparr>dl_object = tx_object_type t, dl_event = event_name (tx_command t),
                           dl_id = tx_object_public_id t, dl_cursor = tx_public_id t, dl_attributes = Some r\<rparr>))"

definition batch_results :: "(string \<Rightarrow> nat \<Rightarrow> 'r option) \<Rightarrow> trx list \<Rightarrow> (nat \<times> 'r delta) list" where
  "batch_results load ts = sort_key fst (List.map_filter (delta_of load) (latest_trxs ts))"

lemma batch_after_ids: "t \<in> set (batch_after log nid df limit pointer) \<Longrightarrow>
    pointer < tx_id t \<and> t \<in> set log \<and> tx_namespace_id t = nid \<and> type_wanted df (tx_object_type t)"
  unfolding batch_after_def visible_def by (auto dest: in_set_takeD)

text \<open>
  The loop: a batch whose objects are all gone gives no deltas, and the log is read on
  behind it. An unknown object type has no class. Every turn moves the pointer up the log.
\<close>

function deltas_loop ::
  "(string \<Rightarrow> nat \<Rightarrow> 'r option) \<Rightarrow> trx list \<Rightarrow> nat \<Rightarrow> delta_filter \<Rightarrow> nat \<Rightarrow> nat \<Rightarrow> ('r delta list \<times> nat) res" where
  "deltas_loop load log nid df limit pointer =
     (let batch = batch_after log nid df limit pointer
      in if batch = [] then Ok ([], pointer)
         else if \<exists>t\<in>set batch. tx_object_type t \<notin> transaction_objects then Raise KeyError
         else let results = batch_results load batch
              in if results \<noteq> [] then Ok (map snd results, fst (last results))
                 else deltas_loop load log nid df limit (tx_id (last batch)))"
  by pat_completeness auto
termination
proof (relation "measure (\<lambda>(load, log, nid, df, limit, pointer). length (filter (\<lambda>t. tx_id t > pointer) log))")
  fix load :: "string \<Rightarrow> nat \<Rightarrow> 'r option" and log nid df limit pointer batch and results :: "(nat \<times> 'r delta) list"
  assume b: "batch = batch_after log nid df limit pointer" "batch \<noteq> []"
  then have "last batch \<in> set (batch_after log nid df limit pointer)" by (metis last_in_set)
  from batch_after_ids [OF this] have l: "pointer < tx_id (last batch)" "last batch \<in> set log" by simp_all
  have "filter (\<lambda>t. tx_id t > tx_id (last batch)) log = filter (\<lambda>t. tx_id t > tx_id (last batch)) (filter (\<lambda>t. tx_id t > pointer) log)"
    using l by (auto intro: filter_cong)
  also have "length \<dots> < length (filter (\<lambda>t. tx_id t > pointer) log)"
    using l by (intro length_filter_less [of "last batch"]) auto
  finally show "((load, log, nid, df, limit, tx_id (last batch)), load, log, nid, df, limit, pointer)
      \<in> measure (\<lambda>(load, log, nid, df, limit, pointer). length (filter (\<lambda>t. tx_id t > pointer) log))"
    by simp
qed simp

declare deltas_loop.simps [simp del]

definition format_transactions_after_pointer ::
  "(string \<Rightarrow> nat \<Rightarrow> 'r option) \<Rightarrow> trx list \<Rightarrow> nat \<Rightarrow> delta_filter \<Rightarrow> nat \<Rightarrow> nat \<Rightarrow> ('r delta list \<times> nat) res" where
  "format_transactions_after_pointer load log nid df limit pointer =
     res_bind (last_trx_id log nid) (\<lambda>last_trx.
       if last_trx = pointer then Ok ([], pointer) else deltas_loop load log nid df limit pointer)"

text \<open>
  Objects of the store: a message needs a thread, an account is loaded through its
  namespace, and folders and labels are categories. \<open>others\<close> stands for the tables that
  are not modelled.
\<close>

definition load_object ::
  "store \<Rightarrow> nat \<Rightarrow> (string \<Rightarrow> nat \<Rightarrow> 'r option) \<Rightarrow> (string \<Rightarrow> nat \<Rightarrow> 'r) \<Rightarrow> string \<Rightarrow> nat \<Rightarrow> 'r option" where
  "load_object db nid others enc ty rid =
     (if ty \<in> {''message'', ''draft''}
      then (case t_get m_id (messages db) rid of
              Some m \<Rightarrow> if m_namespace_id m = nid \<and> message_thread db m \<noteq> None then Some (enc ty rid) else None
            | None \<Rightarrow> None)
      else if ty = ''thread''
      then (case t_get th_id (threads db) rid of
              Some th \<Rightarrow> if th_namespace_id th = nid then Some (enc ty rid) else None | None \<Rightarrow> None)
      else if ty = ''contact''
      then (case t_get ct_id (contacts db) rid of
              Some c \<Rightarrow> if ct_namespace_id c = nid then Some (enc ty rid) else None | None \<Rightarrow> None)
      else if ty \<in> {''folder'', ''label''}
      then (case t_get cat_id (categories db) rid of
              Some c \<Rightarrow> if cat_namespace_id c = nid then Some (enc ty rid) else None | None \<Rightarrow> None)
      else if ty = ''account''
      then (case t_get acc_id (accounts db) rid of
              Some a \<Rightarrow> if acc_namespace_id a = nid then Some (enc ty rid) else None | None \<Rightarrow> None)
      else others ty rid)"

text \<open>
  The streaming generator: each poll sees the log as it then is; what is yielded are the
  deltas of a poll that moved the pointer, or one empty line (\<open>None\<close>).
\<close>

fun streaming_change_generator ::
  "(string \<Rightarrow> nat \<Rightarrow> 'r option) \<Rightarrow> nat \<Rightarrow> delta_filter \<Rightarrow> trx list list \<Rightarrow> nat \<Rightarrow> 'r delta option list \<times> nat res" where
  "streaming_change_generator load nid df [] pointer = ([], Ok pointer)"
| "streaming_change_generator load nid df (log # logs) pointer =
     (case format_transactions_after_pointer load log nid df 100 pointer of
        Inl e \<Rightarrow> ([], Raise e)
      | Inr (deltas, new_pointer) \<Rightarrow>
          (if new_pointer \<noteq> pointer
           then (let (out, r) = streaming_change_generator load nid df logs new_pointer in (map Some deltas @ out, r))
           else (let (out, r) = streaming_change_generator load nid df logs pointer in (None # out, r))))"

section \<open>What a client sees\<close>

lemma revision_cleared: "revision_command obj \<noteq> None \<Longrightarrow> \<not> so_new obj \<Longrightarrow> \<not> so_deleted obj \<Longrightarrow>
    \<not> so_changed obj \<Longrightarrow> revision_command (obj\<lparr>so_marked := False\<rparr>) = None"
  by (simp add: revision_command_def is_dirty_def)

lemma create_revision_log:
  "length (fst (create_revision now fresh obj cmd logs)) = Suc (length (fst logs))"
  "t_inv tx_id (fst logs) \<Longrightarrow> t_inv tx_id (fst (create_revision now fresh obj cmd logs))"
proof -
  show "length (fst (create_revision now fresh obj cmd logs)) = Suc (length (fst logs))"
    by (simp add: create_revision_def Let_def t_add_def)
  assume "t_inv tx_id (fst logs)"
  then show "t_inv tx_id (fst (create_revision now fresh obj cmd logs))"
    using t_next_fresh [of _ "fst logs" tx_id]
    by (auto simp: create_revision_def Let_def t_add_def t_inv_def) (metis)
qed

text \<open>One revision for each object that needs one, in the order of the session.\<close>

lemma create_revisions_rows:
  assumes "create_revisions now fresh objs logs = (objs', logs')"
  shows "map (\<lambda>t. (tx_object_type t, tx_record_id t, tx_command t)) (fst logs') =
    map (\<lambda>t. (tx_object_type t, tx_record_id t, tx_command t)) (fst logs) @
    List.map_filter (\<lambda>obj. map_option (\<lambda>cmd. (so_type obj, so_id obj, cmd)) (revision_command obj)) objs"
  using assms
proof (induction objs arbitrary: logs objs')
  case (Cons obj objs)
  obtain rest where "create_revisions now fresh objs
      (case revision_command obj of None \<Rightarrow> logs | Some cmd \<Rightarrow> create_revision now fresh obj cmd logs) = (rest, logs')"
    using Cons.prems by (auto simp: Let_def split: prod.splits)
  from Cons.IH [OF this] show ?case
    by (auto simp: create_revision_def Let_def t_add_def map_filter_simps split: option.splits)
qed (simp add: map_filter_simps)

lemma delta_of_id: "delta_of load t = Some (i, d) \<Longrightarrow> i = tx_id t"
  by (auto simp: delta_of_def split: if_split_asm option.splits)

lemma batch_results_set:
  "set (batch_results load ts) = {x. \<exists>t\<in>set (latest_trxs ts). delta_of load t = Some x}"
  by (simp add: batch_results_def set_map_filter)

lemma latest_trxs_in: "t \<in> set (latest_trxs ts) \<Longrightarrow> t \<in> set ts"
  by (simp add: latest_trxs_def)

lemma latest_exists:
  assumes "t \<in> set ts"
  shows "\<exists>u\<in>set (latest_trxs ts). trx_key u = trx_key t \<and> tx_id t \<le> tx_id u"
proof -
  let ?S = "tx_id ` {u \<in> set ts. trx_key u = trx_key t}"
  have fin: "finite ?S" and ne: "tx_id t \<in> ?S" using assms by auto
  have "Max ?S \<in> ?S" using fin ne by (intro Max_in) auto
  then obtain u where u: "u \<in> set ts" "trx_key u = trx_key t" "tx_id u = Max ?S" by auto
  have "u \<in> set (latest_trxs ts)" using u fin by (auto simp: latest_trxs_def intro: Max_ge)
  moreover have "tx_id t \<le> tx_id u" using u fin ne by simp
  ultimately show ?thesis using u(2) by blast
qed

text \<open>
  What one answer promises. Every delta is of a transaction that is wanted and lies between
  the two pointers, in ascending order; and no wanted transaction in between is lost: a
  delta of the same object and command stands for it, unless the object is gone.
\<close>

definition answered :: "(string \<Rightarrow> nat \<Rightarrow> 'r option) \<Rightarrow> trx list \<Rightarrow> nat \<Rightarrow> delta_filter \<Rightarrow> nat \<Rightarrow> 'r delta list \<Rightarrow> nat \<Rightarrow> bool" where
  "answered load log nid df pointer deltas new_pointer \<longleftrightarrow>
     pointer \<le> new_pointer \<and>
     (\<exists>ids. sorted ids \<and> length ids = length deltas \<and>
        (\<forall>k<length deltas. pointer < ids ! k \<and> ids ! k \<le> new_pointer \<and>
           (\<exists>t\<in>set (visible log nid). type_wanted df (tx_object_type t) \<and> delta_of load t = Some (ids ! k, deltas ! k)))) \<and>
     (\<forall>t\<in>set (visible log nid). type_wanted df (tx_object_type t) \<and> pointer < tx_id t \<and> tx_id t \<le> new_pointer \<longrightarrow>
        tx_command t \<noteq> Delete \<and> load (tx_object_type t) (tx_record_id t) = None \<or>
        (\<exists>u\<in>set (visible log nid). trx_key u = trx_key t \<and> tx_id t \<le> tx_id u \<and> tx_id u \<le> new_pointer \<and>
           (\<exists>d\<in>set deltas. delta_of load u = Some (tx_id u, d))))"

lemma take_sorted_covers:
  assumes "t \<in> set (sort_key tx_id ts)" and "take n (sort_key tx_id ts) = b" and "b \<noteq> []"
    and "tx_id t \<le> tx_id (last b)" and "distinct (map tx_id ts)"
  shows "t \<in> set b"
proof (rule ccontr)
  assume not: "t \<notin> set b"
  let ?l = "sort_key tx_id ts"
  have l: "?l = b @ drop n ?l" using assms(2) by (metis append_take_drop_id)
  with assms(1) not have t: "t \<in> set (drop n ?l)" by (metis Un_iff set_append)
  have "sorted (map tx_id (b @ drop n ?l))" using l by (metis sorted_sort_key)
  with t assms(3) have "tx_id (last b) \<le> tx_id t" by (auto simp: sorted_append)
  moreover have "distinct (map tx_id (b @ drop n ?l))"
    using assms(5) l by (metis distinct_map distinct_sort set_sort)
  then have "tx_id (last b) \<noteq> tx_id t"
    using t assms(3) by (auto simp: distinct_append) (metis disjoint_iff image_eqI last_in_set)
  ultimately show False using assms(4) by simp
qed

lemma batch_after_covers:
  assumes "distinct (map tx_id log)" and "batch_after log nid df limit pointer \<noteq> []"
    and "t \<in> set (visible log nid)" and "type_wanted df (tx_object_type t)" and "pointer < tx_id t"
    and "tx_id t \<le> tx_id (last (batch_after log nid df limit pointer))"
  shows "t \<in> set (batch_after log nid df limit pointer)"
proof (rule take_sorted_covers [OF _ _ assms(2)])
  show "take limit (sort_key tx_id (filter (\<lambda>t. pointer < tx_id t \<and> type_wanted df (tx_object_type t)) (visible log nid))) =
      batch_after log nid df limit pointer" by (simp add: batch_after_def)
  show "t \<in> set (sort_key tx_id (filter (\<lambda>t. pointer < tx_id t \<and> type_wanted df (tx_object_type t)) (visible log nid)))"
    using assms by simp
  show "distinct (map tx_id (filter (\<lambda>t. pointer < tx_id t \<and> type_wanted df (tx_object_type t)) (visible log nid)))"
    using assms(1) by (simp add: visible_def distinct_map_filter_upd)
qed (use assms in simp)

lemma batch_after_last:
  "t \<in> set (batch_after log nid df limit pointer) \<Longrightarrow> tx_id t \<le> tx_id (last (batch_after log nid df limit pointer))"
proof -
  let ?l = "sort_key tx_id (filter (\<lambda>t. pointer < tx_id t \<and> type_wanted df (tx_object_type t)) (visible log nid))"
  assume t: "t \<in> set (batch_after log nid df limit pointer)"
  have "sorted (map tx_id (take limit ?l))" by (simp add: take_map [symmetric] sorted_wrt_take)
  then have "sorted (map tx_id (batch_after log nid df limit pointer))" by (simp add: batch_after_def)
  then show ?thesis using t by (rule sorted_map_last)
qed

lemma delta_of_None: "delta_of load t = None \<longleftrightarrow> tx_command t \<noteq> Delete \<and> load (tx_object_type t) (tx_record_id t) = None"
  by (auto simp: delta_of_def split: option.splits)

lemma batch_results_complete:
  assumes "t \<in> set batch"
  shows "tx_command t \<noteq> Delete \<and> load (tx_object_type t) (tx_record_id t) = None \<or>
    (\<exists>u\<in>set batch. \<exists>d. trx_key u = trx_key t \<and> tx_id t \<le> tx_id u \<and> delta_of load u = Some (tx_id u, d) \<and>
       (tx_id u, d) \<in> set (batch_results load batch))"
proof -
  from latest_exists [OF assms] obtain u where u: "u \<in> set (latest_trxs batch)" "trx_key u = trx_key t" "tx_id t \<le> tx_id u"
    by blast
  show ?thesis
  proof (cases "delta_of load u")
    case None
    with u(2) show ?thesis by (auto simp: delta_of_None trx_key_def)
  next
    case (Some x)
    then have "delta_of load u = Some (tx_id u, snd x)" using delta_of_id by (metis prod.collapse)
    with u show ?thesis using latest_trxs_in batch_results_set by blast
  qed
qed

lemma answered_batch:
  assumes dist: "distinct (map tx_id log)" and ne: "batch_after log nid df limit pointer \<noteq> []"
    and res: "batch_results load (batch_after log nid df limit pointer) = results" "results \<noteq> []"
  shows "answered load log nid df pointer (map snd results) (fst (last results))"
proof -
  let ?batch = "batch_after log nid df limit pointer"
  have sorted: "sorted (map fst results)" using res by (auto simp: batch_results_def)
  have src: "\<exists>t\<in>set ?batch. tx_id t = fst x \<and> delta_of load t = Some x" if "x \<in> set results" for x
  proof -
    from that obtain t where "t \<in> set (latest_trxs ?batch)" "delta_of load t = Some x"
      using batch_results_set [of load ?batch] res(1) by auto
    then show ?thesis using latest_trxs_in delta_of_id [of load t "fst x" "snd x"] by auto
  qed
  have in_log: "t \<in> set (visible log nid) \<and> type_wanted df (tx_object_type t) \<and> pointer < tx_id t" if "t \<in> set ?batch" for t
    using batch_after_ids [OF that] by (simp add: visible_def)
  have le_last: "fst x \<le> fst (last results)" if "x \<in> set results" for x
    using sorted_map_last [OF sorted that] .
  obtain t0 where t0: "t0 \<in> set ?batch" "tx_id t0 = fst (last results)"
    using src [of "last results"] res(2) by auto
  show ?thesis unfolding answered_def
  proof (intro conjI)
    show "pointer \<le> fst (last results)" using in_log [OF t0(1)] t0(2) by simp
    show "\<exists>ids. sorted ids \<and> length ids = length (map snd results) \<and>
        (\<forall>k<length (map snd results). pointer < ids ! k \<and> ids ! k \<le> fst (last results) \<and>
           (\<exists>t\<in>set (visible log nid). type_wanted df (tx_object_type t) \<and> delta_of load t = Some (ids ! k, map snd results ! k)))"
    proof (intro exI [of _ "map fst results"] conjI allI impI)
      fix k assume k: "k < length (map snd results)"
      then have x: "results ! k \<in> set results" by simp
      from src [OF x] obtain t where t: "t \<in> set ?batch" "tx_id t = fst (results ! k)" "delta_of load t = Some (results ! k)" by blast
      show "pointer < map fst results ! k" using t in_log [OF t(1)] k by simp
      show "map fst results ! k \<le> fst (last results)" using le_last [OF x] k by simp
      show "\<exists>t\<in>set (visible log nid). type_wanted df (tx_object_type t) \<and> delta_of load t = Some (map fst results ! k, map snd results ! k)"
        using t in_log [OF t(1)] k by auto
    qed (use sorted in simp_all)
    show "\<forall>t\<in>set (visible log nid). type_wanted df (tx_object_type t) \<and> pointer < tx_id t \<and> tx_id t \<le> fst (last results) \<longrightarrow>
        tx_command t \<noteq> Delete \<and> load (tx_object_type t) (tx_record_id t) = None \<or>
        (\<exists>u\<in>set (visible log nid). trx_key u = trx_key t \<and> tx_id t \<le> tx_id u \<and> tx_id u \<le> fst (last results) \<and>
           (\<exists>d\<in>set (map snd results). delta_of load u = Some (tx_id u, d)))"
    proof (intro ballI impI)
      fix t assume t: "t \<in> set (visible log nid)"
        "type_wanted df (tx_object_type t) \<and> pointer < tx_id t \<and> tx_id t \<le> fst (last results)"
      have "tx_id t \<le> tx_id (last ?batch)" using t(2) t0 batch_after_last [OF t0(1)] by simp
      then have "t \<in> set ?batch" using batch_after_covers [OF dist ne t(1)] t(2) by blast
      from batch_results_complete [OF this, of load]
      show "tx_command t \<noteq> Delete \<and> load (tx_object_type t) (tx_record_id t) = None \<or>
        (\<exists>u\<in>set (visible log nid). trx_key u = trx_key t \<and> tx_id t \<le> tx_id u \<and> tx_id u \<le> fst (last results) \<and>
           (\<exists>d\<in>set (map snd results). delta_of load u = Some (tx_id u, d)))"
      proof
        assume "\<exists>u\<in>set ?batch. \<exists>d. trx_key u = trx_key t \<and> tx_id t \<le> tx_id u \<and> delta_of load u = Some (tx_id u, d) \<and>
          (tx_id u, d) \<in> set (batch_results load ?batch)"
        then obtain u d where u: "u \<in> set ?batch" "trx_key u = trx_key t" "tx_id t \<le> tx_id u"
          "delta_of load u = Some (tx_id u, d)" "(tx_id u, d) \<in> set results" using res(1) by blast
        moreover have "tx_id u \<le> fst (last results)" using le_last [OF u(5)] by simp
        moreover have "d \<in> set (map snd results)" using u(5) by force
        ultimately show ?thesis using in_log [OF u(1)] by blast
      qed blast
    qed
  qed
qed

lemma answered_skip:
  assumes dist: "distinct (map tx_id log)" and ne: "batch_after log nid df limit pointer \<noteq> []"
    and none: "batch_results load (batch_after log nid df limit pointer) = []"
    and rest: "answered load log nid df (tx_id (last (batch_after log nid df limit pointer))) deltas new"
  shows "answered load log nid df pointer deltas new"
proof -
  let ?batch = "batch_after log nid df limit pointer"
  have "pointer < tx_id (last ?batch)" using batch_after_ids last_in_set [OF ne] by metis
  note R = rest [unfolded answered_def]
  from R obtain ids where ids: "sorted ids" "length ids = length deltas"
    "\<forall>k<length deltas. tx_id (last ?batch) < ids ! k \<and> ids ! k \<le> new \<and>
       (\<exists>t\<in>set (visible log nid). type_wanted df (tx_object_type t) \<and> delta_of load t = Some (ids ! k, deltas ! k))" by blast
  have skipped: "tx_command t \<noteq> Delete \<and> load (tx_object_type t) (tx_record_id t) = None"
    if "t \<in> set (visible log nid)" "type_wanted df (tx_object_type t)" "pointer < tx_id t" "tx_id t \<le> tx_id (last ?batch)" for t
    using batch_results_complete [OF batch_after_covers [OF dist ne that], of load] none by auto
  show ?thesis unfolding answered_def
  proof (intro conjI)
    show "pointer \<le> new" using R \<open>pointer < tx_id (last ?batch)\<close> by linarith
    show "\<exists>ids. sorted ids \<and> length ids = length deltas \<and> (\<forall>k<length deltas. pointer < ids ! k \<and> ids ! k \<le> new \<and>
        (\<exists>t\<in>set (visible log nid). type_wanted df (tx_object_type t) \<and> delta_of load t = Some (ids ! k, deltas ! k)))"
      using ids \<open>pointer < tx_id (last ?batch)\<close> by (intro exI [of _ ids]) (meson less_trans)
    show "\<forall>t\<in>set (visible log nid). type_wanted df (tx_object_type t) \<and> pointer < tx_id t \<and> tx_id t \<le> new \<longrightarrow>
        tx_command t \<noteq> Delete \<and> load (tx_object_type t) (tx_record_id t) = None \<or>
        (\<exists>u\<in>set (visible log nid). trx_key u = trx_key t \<and> tx_id t \<le> tx_id u \<and> tx_id u \<le> new \<and>
           (\<exists>d\<in>set deltas. delta_of load u = Some (tx_id u, d)))"
      using R skipped by (meson not_le)
  qed
qed

lemma deltas_loop_answered:
  "distinct (map tx_id log) \<Longrightarrow> deltas_loop load log nid df limit pointer = Ok (deltas, new) \<Longrightarrow>
    answered load log nid df pointer deltas new"
proof (induction load log nid df limit pointer rule: deltas_loop.induct)
  case (1 load log nid df limit pointer)
  let ?batch = "batch_after log nid df limit pointer"
  show ?case
  proof (cases "?batch = []")
    case True
    with 1(3) have "deltas = []" "new = pointer" by (simp_all add: deltas_loop.simps [of load log nid df limit pointer])
    then show ?thesis by (auto simp: answered_def)
  next
    case ne: False
    with 1(3) have known: "\<not> (\<exists>t\<in>set ?batch. tx_object_type t \<notin> transaction_objects)"
      by (auto simp: deltas_loop.simps [of load log nid df limit pointer] Let_def split: if_split_asm)
    show ?thesis
    proof (cases "batch_results load ?batch = []")
      case True
      with ne known 1(3) have "deltas_loop load log nid df limit (tx_id (last ?batch)) = Ok (deltas, new)"
        by (simp add: deltas_loop.simps [of load log nid df limit pointer] Let_def)
      from 1(1) [OF refl ne known refl _ 1(2) this] True
      have "answered load log nid df (tx_id (last ?batch)) deltas new" by simp
      then show ?thesis by (rule answered_skip [OF 1(2) ne True])
    next
      case False
      with ne known 1(3) have "deltas = map snd (batch_results load ?batch)" "new = fst (last (batch_results load ?batch))"
        by (auto simp: deltas_loop.simps [of load log nid df limit pointer] Let_def)
      with answered_batch [OF 1(2) ne refl False] show ?thesis by simp
    qed
  qed
qed

end
