(* ===== verification/Syncback.thy ===== *)
theory Syncback
  imports Account_Model
begin

text \<open>
  The syncback service: scheduling actions (\<open>inbox/models/action_log.py\<close>), and collecting,
  merging and executing them (\<open>inbox/transactions/actions.py\<close>). What an action does at the
  provider is outside the store; whether an attempt of it succeeds is a parameter, and so is
  which events exist.
\<close>

section \<open>Actions\<close>

definition MAIL_ACTIONS :: "string list" where
  "MAIL_ACTIONS =
     [''mark_unread'', ''mark_starred'', ''move'', ''change_labels'', ''save_draft'', ''update_draft'', ''delete_draft'',
      ''save_sent_email'', ''delete_sent_email'', ''create_folder'', ''create_label'', ''update_folder'',
      ''delete_folder'', ''update_label'', ''delete_label'']"

definition EVENT_ACTIONS :: "string list" where
  "EVENT_ACTIONS = [''create_event'', ''delete_event'', ''update_event'']"

definition action_uses_crispin_client :: "string \<Rightarrow> bool" where
  "action_uses_crispin_client action \<longleftrightarrow> action \<in> set MAIL_ACTIONS"

text \<open>The functions are distinct, so a function is its name.\<close>

definition function_for_action :: "string \<Rightarrow> string res" where
  "function_for_action action =
     (if action \<in> set MAIL_ACTIONS \<or> action \<in> set EVENT_ACTIONS then Ok action else Raise KeyError)"

definition can_handle_multiple_records :: "string \<Rightarrow> bool" where
  "can_handle_multiple_records action \<longleftrightarrow> action = ''change_labels''"

definition ACTION_MAX_NR_OF_RETRIES :: nat where "ACTION_MAX_NR_OF_RETRIES = 20"
definition INVALID_ACCOUNT_GRACE_PERIOD :: int where "INVALID_ACCOUNT_GRACE_PERIOD = seconds (60 * 60 * 2)"

definition schedule_action ::
  "datetime \<Rightarrow> string \<Rightarrow> string \<Rightarrow> nat \<Rightarrow> nat \<Rightarrow> (string \<times> json) list \<Rightarrow> store \<Rightarrow> store res" where
  "schedule_action now func_name table_name record_id nid kwargs db =
     (case account_of_namespace db nid of
        None \<Rightarrow> Raise AttributeError
      | Some acc \<Rightarrow>
          Ok (db\<lparr>actionlogs := t_add (actionlogs db)
                \<lparr>al_id = t_next al_id (actionlogs db), al_namespace_id = nid, al_action = func_name,
                 al_record_id = record_id, al_table_name = table_name, al_status = Pending, al_retries = 0,
                 al_extra_args = kwargs, al_created_at = now, al_updated_at = now, al_type = ''actionlog''\<rparr>\<rparr>))"

section \<open>Tasks\<close>

record sb_task =
  tk_action :: string
  tk_ids :: "nat list"
  tk_records :: "nat list"
  tk_account :: nat
  tk_provider :: string
  tk_args :: "(string \<times> json) list"

definition make_task :: "account_row \<Rightarrow> actionlog_row \<Rightarrow> sb_task res" where
  "make_task acc e =
     res_bind (function_for_action (al_action e)) (\<lambda>_.
       Ok \<lparr>tk_action = al_action e, tk_ids = [al_id e], tk_records = [al_record_id e], tk_account = acc_id acc,
           tk_provider = acc_verbose_provider acc, tk_args = al_extra_args e\<rparr>)"

text \<open>\<open>set(args[key])\<close>: the members of a list, the characters of a string.\<close>

definition arg_set :: "(string \<times> json) list \<Rightarrow> string \<Rightarrow> json set res" where
  "arg_set args key =
     (case map_of args key of
        None \<Rightarrow> Raise KeyError
      | Some (JList xs) \<Rightarrow> Ok (set xs)
      | Some (JStr s) \<Rightarrow> Ok (set (map (\<lambda>c. JStr [c]) s))
      | Some (JDict kvs) \<Rightarrow> Ok (set (map (\<lambda>kv. JStr (fst kv)) kvs))
      | Some _ \<Rightarrow> Raise TypeError)"

definition try_merge_with :: "sb_task \<Rightarrow> sb_task \<Rightarrow> sb_task option res" where
  "try_merge_with t other =
     (if tk_action t \<noteq> tk_action other then Ok None
      else if tk_action t \<noteq> ''change_labels'' then Ok None
      else res_bind (arg_set (tk_args t) ''removed_labels'') (\<lambda>my_removed.
        res_bind (arg_set (tk_args other) ''removed_labels'') (\<lambda>other_removed.
          if my_removed \<noteq> other_removed then Ok None
          else res_bind (arg_set (tk_args t) ''added_labels'') (\<lambda>my_added.
            res_bind (arg_set (tk_args other) ''added_labels'') (\<lambda>other_added.
              if my_added \<noteq> other_added then Ok None
              else if tk_provider t \<noteq> tk_provider other \<or> tk_ids t = tk_ids other \<or>
                      tk_records t = tk_records other \<or> tk_account t \<noteq> tk_account other then Ok None
              else Ok (Some (t\<lparr>tk_ids := tk_ids t @ tk_ids other, tk_records := tk_records t @ tk_records other\<rparr>)))))))"

section \<open>Collecting a batch\<close>

definition put_action :: "store \<Rightarrow> actionlog_row \<Rightarrow> store" where
  "put_action db e = db\<lparr>actionlogs := t_put al_id (actionlogs db) e\<rparr>"

text \<open>
  The loop state: the account seen, the finished tasks and the last one. \<open>None\<close> as result
  means that an action of the account is still running, so nothing is queued.
\<close>

type_synonym batch_state = "nat option \<times> sb_task list \<times> sb_task option"

definition push_task :: "sb_task \<Rightarrow> sb_task list \<times> sb_task option \<Rightarrow> (sb_task list \<times> sb_task option) res" where
  "push_task task s =
     (case s of
        (tasks, None) \<Rightarrow> Ok (tasks, Some task)
      | (tasks, Some prev) \<Rightarrow>
          res_bind (try_merge_with prev task) (\<lambda>merged.
            case merged of
              None \<Rightarrow> Ok (tasks @ [prev], Some task)
            | Some m \<Rightarrow> Ok (tasks, Some m)))"

definition account_skipped :: "account_row \<Rightarrow> bool" where
  "account_skipped acc \<longleftrightarrow> acc_sync_state acc = Some Invalid \<or> acc_sync_state acc = Some Stopped"

definition too_old :: "datetime \<Rightarrow> actionlog_row \<Rightarrow> bool" where
  "too_old now e \<longleftrightarrow> now - al_created_at e > INVALID_ACCOUNT_GRACE_PERIOD"

fun batch_entries ::
  "datetime \<Rightarrow> nat set \<Rightarrow> actionlog_row option list \<Rightarrow> store \<Rightarrow> batch_state \<Rightarrow> store \<times> (batch_state option) res" where
  "batch_entries now running [] db s = (db, Ok (Some s))"
| "batch_entries now running (None # es) db s = batch_entries now running es db s"
| "batch_entries now running (Some e # es) db (aid, tasks, prev) =
     (if al_id e \<in> running then (db, Ok None)
      else case account_of_namespace db (al_namespace_id e) of
        None \<Rightarrow> (db, Raise AttributeError)
      | Some acc \<Rightarrow>
          (if aid \<noteq> None \<and> aid \<noteq> Some (acc_id acc) then (db, Raise AssertionError)
           else if account_skipped acc
           then batch_entries now running es
                  (if too_old now e then put_action db (e\<lparr>al_status := Failed\<rparr>) else db)
                  (Some (acc_id acc), tasks, prev)
           else case res_bind (make_task acc e) (\<lambda>task. push_task task (tasks, prev)) of
                  Inl x \<Rightarrow> (db, Raise x)
                | Inr (tasks', prev') \<Rightarrow> batch_entries now running es db (Some (acc_id acc), tasks', prev')))"

definition batch_log_entries ::
  "datetime \<Rightarrow> nat set \<Rightarrow> actionlog_row option list \<Rightarrow> store \<Rightarrow> store \<times> (sb_task list option) res" where
  "batch_log_entries now running es db =
     (case batch_entries now running es db (None, [], None) of
        (db1, Inl x) \<Rightarrow> (db1, Raise x)
      | (db1, Inr None) \<Rightarrow> (db1, Ok None)
      | (db1, Inr (Some (aid, tasks, prev))) \<Rightarrow>
          (let all = tasks @ (case prev of None \<Rightarrow> [] | Some t \<Rightarrow> [t])
           in (db1, Ok (if all = [] then None else Some all))))"

definition batch_ids :: "sb_task list \<Rightarrow> nat list" where
  "batch_ids tasks = concat (map tk_ids tasks)"

definition pending_entries :: "store \<Rightarrow> nat \<Rightarrow> nat \<Rightarrow> actionlog_row list" where
  "pending_entries db nid batch_size =
     take batch_size (sort_key al_id
       (filter (\<lambda>e. al_type e = ''actionlog'' \<and> al_status e = Pending \<and> al_namespace_id e = nid) (actionlogs db)))"

section \<open>Executing a task\<close>

definition records_and_actions :: "store \<Rightarrow> sb_task \<Rightarrow> (nat \<times> nat) list" where
  "records_and_actions db task =
     (let record_map = dict_of (zip (tk_ids task) (tk_records task));
          rows = filter (\<lambda>e. al_id e \<in> set (tk_ids task)) (actionlogs db)
      in map (\<lambda>e. (the (record_map (al_id e)), al_id e)) (filter (\<lambda>e. al_status e = Pending) rows))"

text \<open>
  An attempt: the client must be there for mail actions and only \<open>change_labels\<close> takes
  several records; then the provider decides.
\<close>

definition attempt_succeeds :: "bool \<Rightarrow> sb_task \<Rightarrow> nat list \<Rightarrow> bool \<Rightarrow> bool" where
  "attempt_succeeds has_client task records provider_ok \<longleftrightarrow>
     (can_handle_multiple_records (tk_action task) \<or> length records = 1) \<and>
     (action_uses_crispin_client (tk_action task) \<longrightarrow> has_client) \<and> provider_ok"

definition mark_successful :: "nat list \<Rightarrow> store \<Rightarrow> store" where
  "mark_successful ids db =
     db\<lparr>actionlogs := map (\<lambda>e. if al_id e \<in> set ids then e\<lparr>al_status := Successful\<rparr> else e) (actionlogs db)\<rparr>"

text \<open>
  A failed creation of an event fails the event's pending actions with it, and deletes the
  local event.
\<close>

definition mark_action_as_failed ::
  "(nat \<Rightarrow> bool) \<Rightarrow> actionlog_row \<Rightarrow> store \<times> nat list \<Rightarrow> (store \<times> nat list) res" where
  "mark_action_as_failed event_exists e s =
     (let db1 = put_action (fst s) (e\<lparr>al_status := Failed\<rparr>)
      in if al_action e \<noteq> ''create_event'' then Ok (db1, snd s)
         else if \<not> event_exists (al_record_id e) then Raise AttributeError
         else Ok (db1\<lparr>actionlogs := map (\<lambda>x. if al_record_id x = al_record_id e \<and>
                       al_namespace_id x = al_namespace_id e \<and> al_status x = Pending
                     then x\<lparr>al_status := Failed\<rparr> else x) (actionlogs db1)\<rparr>,
                  snd s @ [al_record_id e]))"

text \<open>
  Counting one failed attempt on every entry, each committed: the state reached, and
  whether an entry was given up.
\<close>

fun count_failure ::
  "(nat \<Rightarrow> bool) \<Rightarrow> nat list \<Rightarrow> bool \<Rightarrow> store \<times> nat list \<Rightarrow> (store \<times> nat list) \<times> bool res" where
  "count_failure event_exists [] marked s = (s, Ok marked)"
| "count_failure event_exists (i # is) marked s =
     (case t_get al_id (actionlogs (fst s)) i of
        None \<Rightarrow> count_failure event_exists is marked s
      | Some e0 \<Rightarrow>
          (let e = e0\<lparr>al_retries := al_retries e0 + 1\<rparr>
           in if al_retries e = int ACTION_MAX_NR_OF_RETRIES
              then (case mark_action_as_failed event_exists e s of
                      Inl x \<Rightarrow> (s, Raise x)
                    | Inr s1 \<Rightarrow> count_failure event_exists is True s1)
              else if marked then (s, Raise AssertionError)
              else count_failure event_exists is marked (put_action (fst s) e, snd s)))"

text \<open>At most \<open>n\<close> attempts; \<open>ok k\<close> says whether attempt \<open>k\<close> succeeds.\<close>

fun attempts ::
  "(nat \<Rightarrow> bool) \<Rightarrow> nat list \<Rightarrow> (nat \<Rightarrow> bool) \<Rightarrow> nat \<Rightarrow> nat \<Rightarrow> store \<times> nat list \<Rightarrow> (store \<times> nat list) \<times> unit res" where
  "attempts event_exists ids ok k 0 s = (s, Ok ())"
| "attempts event_exists ids ok k (Suc n) s =
     (if ok k then ((mark_successful ids (fst s), snd s), Ok ())
      else case count_failure event_exists ids False s of
        (s1, Inl x) \<Rightarrow> (s1, Raise x)
      | (s1, Inr marked) \<Rightarrow> if marked then (s1, Ok ()) else attempts event_exists ids ok (Suc k) n s1)"

definition execute_with_lock ::
  "(nat \<Rightarrow> bool) \<Rightarrow> bool \<Rightarrow> (nat \<Rightarrow> bool) \<Rightarrow> sb_task \<Rightarrow> store \<times> nat list \<Rightarrow> (store \<times> nat list) \<times> unit res" where
  "execute_with_lock event_exists has_client provider_ok task s =
     (let todo = records_and_actions (fst s) task
      in if todo = [] then (s, Ok ())
         else attempts event_exists (map snd todo)
                (\<lambda>k. attempt_succeeds has_client task (map fst todo) (provider_ok k)) 0 ACTION_MAX_NR_OF_RETRIES s)"

text \<open>
  A batch runs its tasks in order; an exception of one ends the batch. It first connects
  when a task needs the IMAP client.
\<close>

fun execute_tasks ::
  "(nat \<Rightarrow> bool) \<Rightarrow> bool \<Rightarrow> (nat \<Rightarrow> bool) list \<Rightarrow> sb_task list \<Rightarrow> store \<times> nat list \<Rightarrow> (store \<times> nat list) \<times> unit res" where
  "execute_tasks event_exists has_client oks [] s = (s, Ok ())"
| "execute_tasks event_exists has_client oks (t # ts) s =
     (case execute_with_lock event_exists has_client (case oks of [] \<Rightarrow> (\<lambda>_. False) | ok # _ \<Rightarrow> ok) t s of
        (s1, Inl x) \<Rightarrow> (s1, Raise x)
      | (s1, Inr u) \<Rightarrow> execute_tasks event_exists has_client (tl oks) ts s1)"

definition batch_execute ::
  "(nat \<Rightarrow> bool) \<Rightarrow> bool \<Rightarrow> (nat \<Rightarrow> bool) list \<Rightarrow> sb_task list \<Rightarrow> store \<times> nat list \<Rightarrow> (store \<times> nat list) \<times> unit res" where
  "batch_execute event_exists connected oks tasks s =
     (let uses = (\<exists>t\<in>set tasks. action_uses_crispin_client (tk_action t))
      in if uses \<and> \<not> connected then (s, Raise OtherException) else execute_tasks event_exists uses oks tasks s)"

section \<open>The service\<close>

text \<open>
  The running action ids, the queued batches and the batches the workers execute. A worker
  reports the ids of its batch when it is through with it, however it ended.
\<close>

record service =
  sv_running :: "nat set"
  sv_queue :: "sb_task list list"
  sv_active :: "sb_task list list"
  sv_idle :: int

definition enqueue_batch :: "sb_task list \<Rightarrow> service \<Rightarrow> service" where
  "enqueue_batch tasks s =
     s\<lparr>sv_running := sv_running s \<union> set (batch_ids tasks), sv_queue := sv_queue s @ [tasks]\<rparr>"

definition process_namespace :: "datetime \<Rightarrow> nat \<Rightarrow> nat \<Rightarrow> store \<times> service \<Rightarrow> (store \<times> service) \<times> unit res" where
  "process_namespace now nid batch_size st =
     (case batch_log_entries now (sv_running (snd st)) (map Some (pending_entries (fst st) nid batch_size)) (fst st) of
        (db1, Inl x) \<Rightarrow> ((db1, snd st), Raise x)
      | (db1, Inr None) \<Rightarrow> ((db1, snd st), Ok ())
      | (db1, Inr (Some tasks)) \<Rightarrow> ((db1, enqueue_batch tasks (snd st)), Ok ()))"

definition take_batch :: "service \<Rightarrow> (sb_task list \<times> service) option" where
  "take_batch s =
     (case sv_queue s of
        [] \<Rightarrow> None
      | b # q \<Rightarrow> Some (b, s\<lparr>sv_queue := q, sv_active := b # sv_active s, sv_idle := sv_idle s - 1\<rparr>))"

text \<open>\<open>set.remove\<close> raises on a missing id.\<close>

fun remove_ids :: "nat list \<Rightarrow> nat set \<Rightarrow> nat set \<times> unit res" where
  "remove_ids [] running = (running, Ok ())"
| "remove_ids (i # is) running =
     (if i \<in> running then remove_ids is (running - {i}) else (running, Raise KeyError))"

definition notify_worker_finished :: "sb_task list \<Rightarrow> service \<Rightarrow> service \<times> unit res" where
  "notify_worker_finished b s =
     (let (running, r) = remove_ids (batch_ids b) (sv_running s)
      in (s\<lparr>sv_idle := sv_idle s + 1, sv_running := running, sv_active := remove1 b (sv_active s)\<rparr>, r))"

end
