(* ===== verification/Syncback_Proofs.thy ===== *)
theory Syncback_Proofs
  imports Syncback "HOL-Library.Multiset"
begin

text \<open>
  What the syncback service promises: a batch keeps every runnable action in order, an
  action is retried a bounded number of times, merged actions end together when they were
  retried equally often, and no action is in two batches at once.
\<close>

section \<open>A batch loses and reorders nothing\<close>

definition all_tasks :: "sb_task list \<times> sb_task option \<Rightarrow> sb_task list" where
  "all_tasks s = fst s @ (case snd s of None \<Rightarrow> [] | Some t \<Rightarrow> [t])"

lemma try_merge_ids:
  "try_merge_with t u = Ok (Some m) \<Longrightarrow> tk_ids m = tk_ids t @ tk_ids u \<and> tk_records m = tk_records t @ tk_records u \<and>
     tk_action t = ''change_labels'' \<and> tk_action u = ''change_labels'' \<and> tk_account m = tk_account u \<and>
     tk_action m = tk_action u"
  by (auto simp: try_merge_with_def res_simps split: if_split_asm)

lemma push_task_ids:
  "push_task task s = Ok s' \<Longrightarrow> batch_ids (all_tasks s') = batch_ids (all_tasks s) @ tk_ids task"
  by (cases s; cases "snd s")
    (auto simp: push_task_def all_tasks_def batch_ids_def res_simps split: option.splits dest!: try_merge_ids)

definition runnable :: "store \<Rightarrow> actionlog_row \<Rightarrow> bool" where
  "runnable db e \<longleftrightarrow> (\<exists>acc. account_of_namespace db (al_namespace_id e) = Some acc \<and> \<not> account_skipped acc)"

lemma runnable_code [code]:
  "runnable db e = (case account_of_namespace db (al_namespace_id e) of None \<Rightarrow> False | Some acc \<Rightarrow> \<not> account_skipped acc)"
  by (simp add: runnable_def split: option.split)

definition runnable_ids :: "store \<Rightarrow> actionlog_row option list \<Rightarrow> nat list" where
  "runnable_ids db es = map al_id (filter (runnable db) (List.map_filter id es))"

lemma runnable_put [simp]: "runnable (put_action db e) = runnable db"
  by (simp add: runnable_def account_of_namespace_def put_action_def fun_eq_iff)

lemma make_task_ids: "make_task acc e = Ok t \<Longrightarrow> tk_ids t = [al_id e]"
  by (auto simp: make_task_def res_simps)

lemma batch_entries_ids:
  "batch_entries now running es db (aid, tasks, prev) = (db', Ok (Some (aid', tasks', prev'))) \<Longrightarrow>
    batch_ids (all_tasks (tasks', prev')) = batch_ids (all_tasks (tasks, prev)) @ runnable_ids db es \<and>
    set (runnable_ids db es) \<inter> running = {}"
proof (induction now running es db "(aid, tasks, prev)" arbitrary: aid tasks prev rule: batch_entries.induct)
  case (1 now running db)
  then show ?case by (simp add: runnable_ids_def map_filter_simps)
next
  case (2 now running es db)
  then show ?case by (simp add: runnable_ids_def map_filter_simps)
next
  case (3 now running e es db aid tasks prev)
  from 3(3) have run: "al_id e \<notin> running" by (auto split: if_split_asm)
  with 3(3) obtain acc where acc: "account_of_namespace db (al_namespace_id e) = Some acc"
    and same: "\<not> (aid \<noteq> None \<and> aid \<noteq> Some (acc_id acc))"
    by (auto split: option.splits if_split_asm)
  show ?case
  proof (cases "account_skipped acc")
    case True
    let ?db = "if too_old now e then put_action db (e\<lparr>al_status := Failed\<rparr>) else db"
    from 3(3) run acc same True have "batch_entries now running es ?db (Some (acc_id acc), tasks, prev) = (db', Ok (Some (aid', tasks', prev')))"
      by (simp split: if_split_asm)
    from 3(1) [OF run acc same True this]
    have "batch_ids (all_tasks (tasks', prev')) = batch_ids (all_tasks (tasks, prev)) @ runnable_ids ?db es \<and>
        set (runnable_ids ?db es) \<inter> running = {}" .
    moreover have same_ids: "runnable_ids ?db es = runnable_ids db es" by (simp add: runnable_ids_def)
    ultimately have "batch_ids (all_tasks (tasks', prev')) = batch_ids (all_tasks (tasks, prev)) @ runnable_ids db es \<and>
        set (runnable_ids db es) \<inter> running = {}" by (simp only: same_ids)
    moreover have "\<not> runnable db e" using acc True by (simp add: runnable_def)
    ultimately show ?thesis by (simp add: runnable_ids_def map_filter_simps)
  next
    case False
    with 3(3) run acc same obtain t2 p2 where push: "res_bind (make_task acc e) (\<lambda>task. push_task task (tasks, prev)) = Ok (t2, p2)"
      and rest: "batch_entries now running es db (Some (acc_id acc), t2, p2) = (db', Ok (Some (aid', tasks', prev')))"
      by (auto split: if_split_asm sum.splits)
    from push have ids: "batch_ids (all_tasks (t2, p2)) = batch_ids (all_tasks (tasks, prev)) @ [al_id e]"
      by (auto simp: res_simps dest!: make_task_ids push_task_ids)
    from 3(2) [OF run acc same False push refl rest]
    have "batch_ids (all_tasks (tasks', prev')) = batch_ids (all_tasks (t2, p2)) @ runnable_ids db es \<and>
        set (runnable_ids db es) \<inter> running = {}" .
    moreover have "runnable db e" using acc False by (simp add: runnable_def)
    ultimately show ?thesis using ids run by (simp add: runnable_ids_def map_filter_simps)
  qed
qed

lemma batch_log_entries_ids:
  assumes "batch_log_entries now running es db = (db', Ok (Some tasks))"
  shows "batch_ids tasks = runnable_ids db es" and "set (runnable_ids db es) \<inter> running = {}"
proof -
  from assms obtain aid ts prev where b: "batch_entries now running es db (None, [], None) = (db', Ok (Some (aid, ts, prev)))"
    and tasks: "tasks = all_tasks (ts, prev)"
    by (auto simp: batch_log_entries_def all_tasks_def Let_def split: prod.splits sum.splits option.splits if_split_asm)
  from batch_entries_ids [OF b] show "batch_ids tasks = runnable_ids db es" and "set (runnable_ids db es) \<inter> running = {}"
    by (simp_all add: tasks all_tasks_def batch_ids_def)
qed

section \<open>Retries\<close>

definition change_rows :: "nat list \<Rightarrow> (actionlog_row \<Rightarrow> actionlog_row) \<Rightarrow> actionlog_row list \<Rightarrow> actionlog_row list" where
  "change_rows ids f rows = map (\<lambda>e. if al_id e \<in> set ids then f e else e) rows"

lemma put_change:
  assumes "t_inv al_id rows" and "t_get al_id rows i = Some e" and "al_id (f e) = i"
  shows "t_put al_id rows (f e) = change_rows [i] f rows"
proof -
  have "x = e" if "x \<in> set rows" "al_id x = i" for x
    using assms that by (metis acts.get_Some_iff distinct_map_eq t_inv_def)
  then show ?thesis using assms(3) by (simp add: t_put_def change_rows_def)
qed

lemma change_rows_missing: "t_inv al_id rows \<Longrightarrow> t_get al_id rows i = None \<Longrightarrow> change_rows (i # is) f rows = change_rows is f rows"
  by (auto simp: change_rows_def acts.get_None_iff)

lemma change_rows_Cons:
  assumes "\<And>e. al_id (f e) = al_id e" and "i \<notin> set is"
  shows "change_rows is f (change_rows [i] f rows) = change_rows (i # is) f rows"
  using assms by (auto simp: change_rows_def)

lemma change_rows_inv: "(\<And>e. al_id (f e) = al_id e) \<Longrightarrow> t_inv al_id rows \<Longrightarrow> t_inv al_id (change_rows ids f rows)"
  by (simp add: t_inv_def change_rows_def comp_def if_distrib cong: if_cong)

definition bump :: "actionlog_row \<Rightarrow> actionlog_row" where
  "bump e = e\<lparr>al_retries := al_retries e + 1\<rparr>"

definition bump_fail :: "actionlog_row \<Rightarrow> actionlog_row" where
  "bump_fail e = e\<lparr>al_retries := al_retries e + 1, al_status := Failed\<rparr>"

text \<open>The rows of a task: their retries agree, and none creates an event.\<close>

definition equal_retries :: "nat list \<Rightarrow> int \<Rightarrow> actionlog_row list \<Rightarrow> bool" where
  "equal_retries ids r rows \<longleftrightarrow> (\<forall>e\<in>set rows. al_id e \<in> set ids \<longrightarrow> al_retries e = r \<and> al_action e \<noteq> ''create_event'')"

lemma equal_retries_tail: "equal_retries (i # is) r rows \<Longrightarrow> i \<notin> set is \<Longrightarrow> (\<And>e. al_id (f e) = al_id e) \<Longrightarrow>
    equal_retries is r (change_rows [i] f rows)"
  by (auto simp: equal_retries_def change_rows_def)

lemma count_failure_bump:
  assumes "t_inv al_id (actionlogs db)" and "distinct ids" and "equal_retries ids r (actionlogs db)"
    and "r + 1 \<noteq> int ACTION_MAX_NR_OF_RETRIES"
  shows "count_failure ev ids False (db, del) = ((db\<lparr>actionlogs := change_rows ids bump (actionlogs db)\<rparr>, del), Ok False)"
  using assms
proof (induction ids arbitrary: db)
  case Nil
  then show ?case by (simp add: change_rows_def)
next
  case (Cons i ids)
  show ?case
  proof (cases "t_get al_id (actionlogs db) i")
    case None
    with Cons show ?thesis by (simp add: change_rows_missing equal_retries_def)
  next
    case (Some e)
    then have e: "e \<in> set (actionlogs db)" "al_id e = i" by (auto dest: t_get_SomeD)
    with Cons.prems(3) have r: "al_retries e = r" by (simp add: equal_retries_def)
    have put: "put_action db (bump e) = db\<lparr>actionlogs := change_rows [i] bump (actionlogs db)\<rparr>"
      using put_change [OF Cons.prems(1) Some, of bump] e by (simp add: put_action_def bump_def)
    have bump_id: "al_id (bump x) = al_id x" for x by (simp add: bump_def)
    let ?db = "db\<lparr>actionlogs := change_rows [i] bump (actionlogs db)\<rparr>"
    have "count_failure ev ids False (?db, del) =
        ((?db\<lparr>actionlogs := change_rows ids bump (actionlogs ?db)\<rparr>, del), Ok False)"
    proof (rule Cons.IH)
      show "t_inv al_id (actionlogs ?db)" using change_rows_inv [OF bump_id Cons.prems(1)] by simp
      show "equal_retries ids r (actionlogs ?db)"
        using equal_retries_tail [OF Cons.prems(3) _ bump_id] Cons.prems(2) by simp
    qed (use Cons.prems in simp_all)
    moreover have "count_failure ev (i # ids) False (db, del) = count_failure ev ids False (put_action db (bump e), del)"
      using Some r Cons.prems(4) by (simp add: bump_def)
    moreover have "change_rows ids bump (change_rows [i] bump (actionlogs db)) = change_rows (i # ids) bump (actionlogs db)"
      using change_rows_Cons [where f = bump, OF bump_id] Cons.prems(2) by simp
    ultimately show ?thesis using put by simp
  qed
qed

lemma count_failure_final:
  assumes "t_inv al_id (actionlogs db)" and "distinct ids" and "equal_retries ids r (actionlogs db)"
    and "r + 1 = int ACTION_MAX_NR_OF_RETRIES" and "\<exists>e\<in>set (actionlogs db). al_id e \<in> set ids \<or> marked"
  shows "count_failure ev ids marked (db, del) =
    ((db\<lparr>actionlogs := change_rows ids bump_fail (actionlogs db)\<rparr>, del), Ok True)"
  using assms
proof (induction ids arbitrary: db marked)
  case Nil
  then show ?case by (auto simp: change_rows_def)
next
  case (Cons i ids)
  show ?case
  proof (cases "t_get al_id (actionlogs db) i")
    case None
    then have "\<forall>e\<in>set (actionlogs db). al_id e \<noteq> i" using Cons.prems(1) acts.get_None_iff by blast
    with None Cons show ?thesis by (simp add: change_rows_missing equal_retries_def)
  next
    case (Some e)
    then have e: "e \<in> set (actionlogs db)" "al_id e = i" by (auto dest: t_get_SomeD)
    with Cons.prems(3) have r: "al_retries e = r" "al_action e \<noteq> ''create_event''" by (simp_all add: equal_retries_def)
    have put: "put_action db (bump_fail e) = db\<lparr>actionlogs := change_rows [i] bump_fail (actionlogs db)\<rparr>"
      using put_change [OF Cons.prems(1) Some, of bump_fail] e by (simp add: put_action_def bump_fail_def)
    have bump_id: "al_id (bump_fail x) = al_id x" for x by (simp add: bump_fail_def)
    let ?db = "db\<lparr>actionlogs := change_rows [i] bump_fail (actionlogs db)\<rparr>"
    have ne: "actionlogs ?db \<noteq> []" using e by (auto simp: change_rows_def)
    have "count_failure ev ids True (?db, del) =
        ((?db\<lparr>actionlogs := change_rows ids bump_fail (actionlogs ?db)\<rparr>, del), Ok True)"
    proof (rule Cons.IH)
      show "t_inv al_id (actionlogs ?db)" using change_rows_inv [OF bump_id Cons.prems(1)] by simp
      show "equal_retries ids r (actionlogs ?db)"
        using equal_retries_tail [OF Cons.prems(3) _ bump_id] Cons.prems(2) by simp
      show "\<exists>x\<in>set (actionlogs ?db). al_id x \<in> set ids \<or> True" using ne by (cases "actionlogs ?db") auto
    qed (use Cons.prems in simp_all)
    moreover have "count_failure ev (i # ids) marked (db, del) = count_failure ev ids True (put_action db (bump_fail e), del)"
      using Some r Cons.prems(4) by (simp add: bump_fail_def mark_action_as_failed_def)
    moreover have "change_rows ids bump_fail (change_rows [i] bump_fail (actionlogs db)) = change_rows (i # ids) bump_fail (actionlogs db)"
      using change_rows_Cons [where f = bump_fail, OF bump_id] Cons.prems(2) by simp
    ultimately show ?thesis using put by simp
  qed
qed

text \<open>All attempts fail: the rows end failed, after exactly the maximal number of retries.\<close>

definition give_up :: "actionlog_row \<Rightarrow> actionlog_row" where
  "give_up e = e\<lparr>al_retries := int ACTION_MAX_NR_OF_RETRIES, al_status := Failed\<rparr>"

definition succeed_after :: "nat \<Rightarrow> actionlog_row \<Rightarrow> actionlog_row" where
  "succeed_after k e = e\<lparr>al_retries := al_retries e + int k, al_status := Successful\<rparr>"

lemma change_rows_comp:
  "(\<And>e. al_id (f e) = al_id e) \<Longrightarrow> change_rows ids g (change_rows ids f rows) = change_rows ids (g \<circ> f) rows"
  by (simp add: change_rows_def)

lemma change_rows_cong:
  "(\<And>e. e \<in> set rows \<Longrightarrow> al_id e \<in> set ids \<Longrightarrow> f e = g e) \<Longrightarrow> change_rows ids f rows = change_rows ids g rows"
  by (simp add: change_rows_def)

lemma equal_retries_bump: "equal_retries ids r rows \<Longrightarrow> equal_retries ids (r + 1) (change_rows ids bump rows)"
  by (auto simp: equal_retries_def change_rows_def bump_def)

lemma bump_id: "al_id (bump e) = al_id e"
  by (simp add: bump_def)

lemma attempts_fail:
  assumes "t_inv al_id (actionlogs db)" and "distinct ids" and "equal_retries ids r (actionlogs db)"
    and "\<exists>e\<in>set (actionlogs db). al_id e \<in> set ids" and "r < int ACTION_MAX_NR_OF_RETRIES"
    and "int ACTION_MAX_NR_OF_RETRIES - r \<le> int n" and "\<And>k. \<not> ok k"
  shows "attempts ev ids ok k n (db, del) = ((db\<lparr>actionlogs := change_rows ids give_up (actionlogs db)\<rparr>, del), Ok ())"
  using assms
proof (induction n arbitrary: k r db)
  case (Suc n)
  show ?case
  proof (cases "r + 1 = int ACTION_MAX_NR_OF_RETRIES")
    case True
    have "count_failure ev ids False (db, del) = ((db\<lparr>actionlogs := change_rows ids bump_fail (actionlogs db)\<rparr>, del), Ok True)"
      using Suc.prems True by (intro count_failure_final) auto
    moreover have "change_rows ids bump_fail (actionlogs db) = change_rows ids give_up (actionlogs db)"
      using Suc.prems(3) True by (intro change_rows_cong) (auto simp: bump_fail_def give_up_def equal_retries_def)
    ultimately show ?thesis using Suc.prems(7) by simp
  next
    case False
    let ?db = "db\<lparr>actionlogs := change_rows ids bump (actionlogs db)\<rparr>"
    have c: "count_failure ev ids False (db, del) = ((?db, del), Ok False)"
      using Suc.prems False by (intro count_failure_bump)
    have "attempts ev ids ok (Suc k) n (?db, del) =
        ((?db\<lparr>actionlogs := change_rows ids give_up (actionlogs ?db)\<rparr>, del), Ok ())"
    proof (rule Suc.IH)
      show "t_inv al_id (actionlogs ?db)" using change_rows_inv [OF bump_id Suc.prems(1)] by simp
      show "equal_retries ids (r + 1) (actionlogs ?db)" using equal_retries_bump [OF Suc.prems(3)] by simp
      show "\<exists>e\<in>set (actionlogs ?db). al_id e \<in> set ids"
      proof -
        from Suc.prems(4) obtain e where e: "e \<in> set (actionlogs db)" "al_id e \<in> set ids" by blast
        then have "bump e \<in> set (actionlogs ?db)" by (force simp: change_rows_def)
        with e(2) show ?thesis by (metis bump_id)
      qed
    qed (use Suc.prems False in auto)
    moreover have "change_rows ids give_up (change_rows ids bump (actionlogs db)) = change_rows ids give_up (actionlogs db)"
      unfolding change_rows_comp [OF bump_id] by (simp add: change_rows_def give_up_def bump_def)
    ultimately show ?thesis using c Suc.prems(7) [of k] by simp
  qed
qed (use assms in auto)

text \<open>An attempt within the bound succeeds: every row is successful after it.\<close>

lemma attempts_succeed:
  assumes "t_inv al_id (actionlogs db)" and "distinct ids" and "equal_retries ids r (actionlogs db)"
    and "ok (k + j)" and "\<And>i. i < j \<Longrightarrow> \<not> ok (k + i)" and "r + int j < int ACTION_MAX_NR_OF_RETRIES" and "j < n"
  shows "attempts ev ids ok k n (db, del) =
    ((db\<lparr>actionlogs := change_rows ids (succeed_after j) (actionlogs db)\<rparr>, del), Ok ())"
  using assms
proof (induction j arbitrary: k n r db)
  case 0
  then obtain n' where "n = Suc n'" by (cases n) auto
  with 0 show ?case
    by (simp add: mark_successful_def change_rows_def succeed_after_def cong: if_cong)
next
  case (Suc j)
  then obtain n' where n: "n = Suc n'" by (cases n) auto
  have no: "\<not> ok k" using Suc.prems(5) [of 0] by simp
  let ?db = "db\<lparr>actionlogs := change_rows ids bump (actionlogs db)\<rparr>"
  have c: "count_failure ev ids False (db, del) = ((?db, del), Ok False)"
    using Suc.prems by (intro count_failure_bump) auto
  have "attempts ev ids ok (Suc k) n' (?db, del) =
      ((?db\<lparr>actionlogs := change_rows ids (succeed_after j) (actionlogs ?db)\<rparr>, del), Ok ())"
  proof (rule Suc.IH)
    show "t_inv al_id (actionlogs ?db)" using change_rows_inv [OF bump_id Suc.prems(1)] by simp
    show "equal_retries ids (r + 1) (actionlogs ?db)" using equal_retries_bump [OF Suc.prems(3)] by simp
    show "ok (Suc k + j)" using Suc.prems(4) by simp
    show "\<not> ok (Suc k + i)" if "i < j" for i using Suc.prems(5) [of "Suc i"] that by simp
  qed (use Suc.prems n in auto)
  moreover have "change_rows ids (succeed_after j) (change_rows ids bump (actionlogs db)) =
      change_rows ids (succeed_after (Suc j)) (actionlogs db)"
    unfolding change_rows_comp [OF bump_id] by (simp add: change_rows_def succeed_after_def bump_def)
  ultimately show ?case using c n no by simp
qed

text \<open>
  Merged actions that were retried a different number of times before: when the first
  reaches the limit, the assertion stops the batch and the others stay pending.
\<close>

lemma unequal_retries_abort:
  assumes "t_inv al_id (actionlogs db)" and "t_get al_id (actionlogs db) i = Some a"
    and "t_get al_id (actionlogs db) j = Some b" and "i \<noteq> j"
    and "al_retries a + 1 = int ACTION_MAX_NR_OF_RETRIES" and "al_retries b + 1 \<noteq> int ACTION_MAX_NR_OF_RETRIES"
    and "al_action a \<noteq> ''create_event''" and "\<not> ok k"
  shows "attempts ev [i, j] ok k (Suc n) (db, del) =
    ((put_action db (a\<lparr>al_retries := int ACTION_MAX_NR_OF_RETRIES, al_status := Failed\<rparr>), del), Raise AssertionError)"
proof -
  let ?a = "a\<lparr>al_retries := int ACTION_MAX_NR_OF_RETRIES, al_status := Failed\<rparr>"
  have ids: "al_id a = i" "al_id b = j" using assms(2,3) by (auto dest: t_get_SomeD)
  have "t_get al_id (actionlogs (put_action db ?a)) j = Some b"
    using assms ids by (simp add: put_action_def acts.get_put)
  with assms show ?thesis by (simp add: mark_action_as_failed_def)
qed

section \<open>The service's bookkeeping\<close>

text \<open>
  The steps: collecting the pending actions of a namespace, a worker taking a batch or
  reporting it finished, and any change of the database that keeps action ids unique.
\<close>

inductive sb_step :: "store \<times> service \<Rightarrow> store \<times> service \<Rightarrow> bool" where
  process: "process_namespace now nid batch_size (db, s) = ((db', s'), r) \<Longrightarrow> sb_step (db, s) (db', s')"
| taken: "take_batch s = Some (b, s') \<Longrightarrow> sb_step (db, s) (db, s')"
| finished: "b \<in> set (sv_active s) \<Longrightarrow> notify_worker_finished b s = (s', r) \<Longrightarrow> sb_step (db, s) (db, s')"
| database: "t_inv al_id (actionlogs db') \<Longrightarrow> sb_step (db, s) (db', s)"

inductive_cases sb_stepE: "sb_step (db, s) (db', s')"

definition in_flight :: "service \<Rightarrow> nat list" where
  "in_flight s = concat (map batch_ids (sv_queue s)) @ concat (map batch_ids (sv_active s))"

definition sb_init :: "store \<times> service \<Rightarrow> bool" where
  "sb_init st \<longleftrightarrow> t_inv al_id (actionlogs (fst st)) \<and> sv_running (snd st) = {} \<and> sv_queue (snd st) = [] \<and>
     sv_active (snd st) = []"

definition sb_inv :: "store \<times> service \<Rightarrow> bool" where
  "sb_inv st \<longleftrightarrow> t_inv al_id (actionlogs (fst st)) \<and> distinct (in_flight (snd st)) \<and>
     sv_running (snd st) = set (in_flight (snd st))"

lemma batch_entries_inv:
  "batch_entries now running es db s = (db', r) \<Longrightarrow> t_inv al_id (actionlogs db) \<Longrightarrow> t_inv al_id (actionlogs db')"
proof (induction now running es db s rule: batch_entries.induct)
  case (3 now running e es db aid tasks prev)
  show ?case
  proof (cases "al_id e \<in> running")
    case True
    with 3 show ?thesis by simp
  next
    case run: False
    show ?thesis
    proof (cases "account_of_namespace db (al_namespace_id e)")
      case None
      with 3 run show ?thesis by simp
    next
      case (Some acc)
      show ?thesis
      proof (cases "(aid \<noteq> None \<and> aid \<noteq> Some (acc_id acc)) \<or> \<not> account_skipped acc")
        case True
        with 3 run Some show ?thesis by (auto split: if_split_asm sum.splits)
      next
        case False
        then have f: "\<not> (aid \<noteq> None \<and> aid \<noteq> Some (acc_id acc))" "account_skipped acc" by auto
        let ?db = "if too_old now e then put_action db (e\<lparr>al_status := Failed\<rparr>) else db"
        have "t_inv al_id (actionlogs ?db)" using 3(4) by (simp add: put_action_def acts.inv_put)
        moreover from 3(3) run Some f have "batch_entries now running es ?db (Some (acc_id acc), tasks, prev) = (db', r)"
          by (cases "too_old now e") auto
        ultimately show ?thesis using 3(1) [OF run Some f] by blast
      qed
    qed
  qed
qed auto

lemma remove_ids_ok:
  "distinct ids \<Longrightarrow> set ids \<subseteq> running \<Longrightarrow> remove_ids ids running = (running - set ids, Ok ())"
proof (induction ids arbitrary: running)
  case (Cons i ids)
  then have "remove_ids ids (running - {i}) = (running - {i} - set ids, Ok ())" by (intro Cons.IH) auto
  moreover have "running - {i} - set ids = running - set (i # ids)" by auto
  ultimately show ?case using Cons.prems by simp
qed simp

lemma remove1_concat:
  assumes "b \<in> set bs" and "distinct (concat (map f bs))"
  shows "set (concat (map f (remove1 b bs))) = set (concat (map f bs)) - set (f b)"
    and "distinct (concat (map f (remove1 b bs)))"
  using assms
proof (induction bs)
  case (Cons c bs)
  {
    case 1
    with Cons show ?case by (cases "c = b") auto
  next
    case 2
    with Cons have "distinct (concat (map f (remove1 b bs)))" if "c \<noteq> b" using that by auto
    moreover have "set (concat (map f (remove1 b bs))) \<subseteq> set (concat (map f bs))"
      using set_remove1_subset [of b bs] by auto
    ultimately show ?case using 2 by (cases "c = b") auto
  }
qed simp_all

lemma finished_ok:
  assumes inv: "sb_inv (db, s)" and b: "b \<in> set (sv_active s)"
  shows "\<exists>s'. notify_worker_finished b s = (s', Ok ()) \<and> sb_inv (db, s')"
proof -
  from inv have d: "distinct (in_flight s)" "sv_running s = set (in_flight s)" by (simp_all add: sb_inv_def)
  from d b have db: "distinct (batch_ids b)" and sub: "set (batch_ids b) \<subseteq> sv_running s"
    by (auto simp: in_flight_def distinct_concat_iff)
  from d have da: "distinct (concat (map batch_ids (sv_active s)))" by (simp add: in_flight_def)
  note r = remove1_concat [OF b da]
  have disj: "set (concat (map batch_ids (sv_queue s))) \<inter> set (batch_ids b) = {}"
    using d(1) b by (auto simp: in_flight_def)
  let ?s = "s\<lparr>sv_idle := sv_idle s + 1, sv_running := sv_running s - set (batch_ids b), sv_active := remove1 b (sv_active s)\<rparr>"
  have "notify_worker_finished b s = (?s, Ok ())"
    by (simp add: notify_worker_finished_def remove_ids_ok [OF db sub])
  moreover have "distinct (in_flight ?s)"
    using d(1) r by (auto simp: in_flight_def simp del: set_concat set_map)
  moreover have "set (in_flight ?s) = set (in_flight s) - set (batch_ids b)"
    using r(1) disj by (auto simp: in_flight_def simp del: set_concat set_map)
  ultimately show ?thesis using inv d(2) by (auto simp: sb_inv_def)
qed

lemma runnable_ids_pending:
  "t_inv al_id (actionlogs db) \<Longrightarrow> distinct (runnable_ids db (map Some (pending_entries db nid n)))"
proof -
  assume inv: "t_inv al_id (actionlogs db)"
  have "distinct (map al_id (sort_key al_id (filter (\<lambda>e. al_type e = ''actionlog'' \<and> al_status e = Pending \<and>
      al_namespace_id e = nid) (actionlogs db))))"
    using inv by (simp add: t_inv_def distinct_map distinct_sort inj_on_def)
  then have "distinct (map al_id (pending_entries db nid n))"
    by (simp add: pending_entries_def take_map [symmetric])
  then show ?thesis
    by (simp add: runnable_ids_def map_filter_def comp_def distinct_map_filter_upd)
qed

lemma enqueue_inv:
  assumes "sb_inv (db, s)" and "distinct (batch_ids tasks)" and "set (batch_ids tasks) \<inter> sv_running s = {}"
  shows "sb_inv (db, enqueue_batch tasks s)"
  using assms by (auto simp: sb_inv_def in_flight_def enqueue_batch_def)

lemma sb_step_inv:
  assumes "sb_inv (db, s)" and "sb_step (db, s) (db', s')"
  shows "sb_inv (db', s')"
proof -
  from assms(2) consider
      (process) now nid batch_size r where "process_namespace now nid batch_size (db, s) = ((db', s'), r)"
    | (taken) b where "db' = db" "take_batch s = Some (b, s')"
    | (finished) b r where "db' = db" "b \<in> set (sv_active s)" "notify_worker_finished b s = (s', r)"
    | (database) "s' = s" "t_inv al_id (actionlogs db')"
    by (elim sb_stepE) blast+
  then show ?thesis
proof cases
  case (process now nid batch_size r)
  let ?es = "map Some (pending_entries db nid batch_size)"
  obtain db1 q where b: "batch_log_entries now (sv_running s) ?es db = (db1, q)" by fastforce
  have inv1: "t_inv al_id (actionlogs db1)"
  proof -
    obtain q' where "batch_entries now (sv_running s) ?es db (None, [], None) = (db1, q')"
      using b by (auto simp: batch_log_entries_def Let_def split: prod.splits sum.splits option.splits)
    then show ?thesis using assms(1) by (auto simp: sb_inv_def intro: batch_entries_inv)
  qed
  consider "db' = db1" "s' = s" | tasks where "q = Ok (Some tasks)" "db' = db1" "s' = enqueue_batch tasks s"
    using process b by (auto simp: process_namespace_def split: sum.splits option.splits)
  then show ?thesis
  proof cases
    case 1
    with assms(1) inv1 show ?thesis by (simp add: sb_inv_def)
  next
    case (2 tasks)
    note ids = batch_log_entries_ids [OF b [unfolded 2(1)]]
    have "distinct (runnable_ids db ?es)" using assms(1) by (intro runnable_ids_pending) (simp add: sb_inv_def)
    moreover have "sb_inv (db1, s)" using assms(1) inv1 by (simp add: sb_inv_def)
    ultimately have "sb_inv (db1, enqueue_batch tasks s)" using ids by (intro enqueue_inv) simp_all
    with 2 show ?thesis by simp
  qed
next
  case (taken b)
  then obtain q where q: "sv_queue s = b # q" and
    s': "s' = s\<lparr>sv_queue := q, sv_active := b # sv_active s, sv_idle := sv_idle s - 1\<rparr>"
    by (auto simp: take_batch_def split: list.splits)
  then have perm: "mset (in_flight s') = mset (in_flight s)" by (simp add: in_flight_def)
  have "distinct (in_flight s')" "set (in_flight s') = set (in_flight s)"
    using assms(1) mset_eq_imp_distinct_iff [OF perm] mset_eq_setD [OF perm] by (simp_all add: sb_inv_def)
  with assms(1) s' taken(1) show ?thesis by (simp add: sb_inv_def)
next
  case (finished b r)
  with finished_ok [OF assms(1) finished(2)] show ?thesis by auto
next
  case database
  with assms(1) show ?thesis by (simp add: sb_inv_def)
qed
qed

interpretation syncback: step_system sb_init sb_step sb_inv
proof unfold_locales
  show "sb_init s \<Longrightarrow> sb_inv s" for s by (simp add: sb_init_def sb_inv_def in_flight_def)
  show "sb_inv s \<Longrightarrow> sb_step s t \<Longrightarrow> sb_inv t" for s t
    by (cases s; cases t) (blast intro: sb_step_inv)
qed

end
