(* ===== verification/Props_Log.thy ===== *)
theory Props_Log
  imports Samples Delta_Sync Syncback_Proofs
begin

text \<open>
  The properties of the two logs: the transaction log that clients follow with deltas, and the
  log of actions that the syncback service carries out at the provider.
\<close>

section \<open>The transaction log\<close>

definition sample_trx :: "nat \<Rightarrow> nat \<Rightarrow> command \<Rightarrow> trx" where
  "sample_trx i rec cmd = \<lparr>tx_id = i, tx_namespace_id = 1, tx_object_type = ''message'', tx_record_id = rec,
     tx_object_public_id = ''m'', tx_public_id = ''c'', tx_command = cmd, tx_created_at = int i\<rparr>"

definition all_types :: delta_filter where
  "all_types = \<lparr>df_exclude_types = {}, df_include_types = None, df_exclude_folders = False,
     df_exclude_metadata = False, df_exclude_account = False\<rparr>"

text \<open>
  C4: A page of deltas is sound and complete. Each delta is of a wanted transaction between the
  pointer of the request and the pointer of the answer, in ascending order; and every wanted
  transaction in between is represented by a delta of the same object and command, unless the
  object no longer exists. A client that follows the pointers therefore misses nothing.
\<close>

theorem deltas_complete:
  assumes "distinct (map tx_id log)"
    and "format_transactions_after_pointer load log nid df limit pointer = Ok (deltas, new)"
  shows "answered load log nid df pointer deltas new"
proof -
  have empty: "answered load log nid df pointer [] pointer" by (auto simp: answered_def)
  from assms(2) have "deltas = [] \<and> new = pointer \<or> deltas_loop load log nid df limit pointer = Ok (deltas, new)"
    by (auto simp: format_transactions_after_pointer_def res_simps split: if_split_asm)
  with empty deltas_loop_answered [OF assms(1)] show ?thesis by blast
qed

theorem deltas_complete_witness:
  "\<exists>deltas new. format_transactions_after_pointer (\<lambda>ty i. Some i)
       [sample_trx 3 7 Insert, sample_trx 5 7 Update, sample_trx 6 7 Update] 1 all_types 10 3 = Ok (deltas, new) \<and>
     new = 6 \<and> length deltas = 1 \<and>
     answered (\<lambda>ty i. Some i) [sample_trx 3 7 Insert, sample_trx 5 7 Update, sample_trx 6 7 Update] 1 all_types 3 deltas new"
proof -
  let ?log = "[sample_trx 3 7 Insert, sample_trx 5 7 Update, sample_trx 6 7 Update]"
  let ?f = "format_transactions_after_pointer (\<lambda>ty i. Some i) ?log 1 all_types 10 3"
  have "case ?f of Inr (deltas, new) \<Rightarrow> new = 6 \<and> length deltas = 1 | Inl e \<Rightarrow> False" by code_simp
  then obtain deltas new where r: "?f = Ok (deltas, new)" "new = 6" "length deltas = 1"
    by (auto split: sum.splits)
  have "distinct (map tx_id ?log)" by (simp add: sample_trx_def)
  from deltas_complete [OF this r(1)] r show ?thesis by blast
qed

text \<open>
  A flush appends to the log exactly one transaction for each new, changed or deleted
  object that has revisions and is not suppressed, with the command of its change, in the order
  the objects are visited, and removes nothing from the log.
\<close>

theorem revisions_logged:
  assumes "create_revisions now fresh objs logs = (objs', logs')"
  shows "map (\<lambda>t. (tx_object_type t, tx_record_id t, tx_command t)) (fst logs') =
    map (\<lambda>t. (tx_object_type t, tx_record_id t, tx_command t)) (fst logs) @
    List.map_filter (\<lambda>obj. map_option (\<lambda>cmd. (so_type obj, so_id obj, cmd)) (revision_command obj)) objs"
  using assms by (rule create_revisions_rows)

definition sample_obj :: "string \<Rightarrow> nat \<Rightarrow> session_obj" where
  "sample_obj ty i = \<lparr>so_type = ty, so_id = i, so_public_id = ''p'', so_namespace_id = 1, so_has_revisions = True,
     so_suppressed = False, so_new = False, so_changed = False, so_marked = False, so_deleted = False\<rparr>"

theorem revisions_logged_witness:
  "\<exists>objs' logs'. create_revisions 0 (\<lambda>n. ''c'') [(sample_obj ''message'' 1)\<lparr>so_new := True\<rparr>, sample_obj ''thread'' 2] ([], [])
       = (objs', logs') \<and>
     map (\<lambda>t. (tx_object_type t, tx_record_id t, tx_command t)) (fst logs') = [(''message'', 1, Insert)]"
proof -
  let ?objs = "[(sample_obj ''message'' 1)\<lparr>so_new := True\<rparr>, sample_obj ''thread'' 2]"
  obtain objs' logs' where r: "create_revisions 0 (\<lambda>n. ''c'') ?objs ([], []) = (objs', logs')"
    by (metis prod.collapse)
  have "map (\<lambda>t. (tx_object_type t, tx_record_id t, tx_command t)) (fst logs') = [(''message'', 1, Insert)]"
    using revisions_logged [OF r] by (simp add: map_filter_simps revision_command_def sample_obj_def is_dirty_def)
  with r show ?thesis by (intro exI conjI)
qed

section \<open>The action log\<close>

text \<open>
  Collecting the pending actions of a namespace keeps their order and loses none: the ids of
  the tasks of the batch, merged or not, are those of the entries whose account is not stopped
  or invalid, in the order of the log, and none of them is already being executed.
\<close>

theorem batch_in_order:
  assumes "batch_log_entries now running es db = (db', Ok (Some tasks))"
  shows "batch_ids tasks = runnable_ids db es \<and> set (batch_ids tasks) \<inter> running = {}"
  using batch_log_entries_ids [OF assms] by simp

definition label_args :: "(string \<times> json) list" where
  "label_args = [(''removed_labels'', JList [JStr ''a'']), (''added_labels'', JList [])]"

definition action_db :: store where
  "action_db = empty_store\<lparr>accounts := [sample_account],
     actionlogs := [(sample_action 1 ''change_labels'' 11)\<lparr>al_extra_args := label_args\<rparr>,
       (sample_action 2 ''change_labels'' 12)\<lparr>al_extra_args := label_args\<rparr>, sample_action 3 ''move'' 13]\<rparr>"

definition move_task :: sb_task where
  "move_task = \<lparr>tk_action = ''move'', tk_ids = [3], tk_records = [13], tk_account = 1, tk_provider = ''custom'',
     tk_args = []\<rparr>"

lemma move_task_rows:
  "records_and_actions action_db move_task = [(13, 3)]" "t_inv al_id (actionlogs action_db)"
  "equal_retries (map snd (records_and_actions action_db move_task)) 0 (actionlogs action_db)"
  by code_simp+

theorem batch_in_order_witness:
  "\<exists>db' tasks. batch_log_entries 0 {} (map Some (pending_entries action_db 1 20)) action_db = (db', Ok (Some tasks)) \<and>
     length tasks = 2 \<and> batch_ids tasks = [1, 2, 3]"
proof -
  let ?es = "map Some (pending_entries action_db 1 20)"
  obtain db' tasks where r: "batch_log_entries 0 {} ?es action_db = (db', Ok (Some tasks))" "length tasks = 2"
    by (simp add: batch_log_entries_def pending_entries_def action_db_def sample_defs account_of_namespace_def
        account_skipped_def make_task_def function_for_action_def MAIL_ACTIONS_def push_task_def try_merge_with_def
        arg_set_def label_args_def)
  have "runnable_ids action_db ?es = [1, 2, 3]" by code_simp
  with batch_in_order [OF r(1)] r show ?thesis by simp
qed

text \<open>
  A task that never succeeds is given up: after at most \<open>ACTION_MAX_NR_OF_RETRIES\<close>
  attempts every pending entry of it, merged or not, is failed with its retries used up, all other
  rows are untouched and nothing is raised. It supposes that its entries were retried
  equally often before and create no events.
\<close>

theorem task_gives_up:
  assumes "t_inv al_id (actionlogs db)" and "\<And>k. \<not> provider_ok k" and "0 \<le> r" "r < int ACTION_MAX_NR_OF_RETRIES"
    and "equal_retries (map snd (records_and_actions db task)) r (actionlogs db)"
  shows "execute_with_lock ev has_client provider_ok task (db, deleted) =
    ((db\<lparr>actionlogs := change_rows (map snd (records_and_actions db task)) give_up (actionlogs db)\<rparr>, deleted), Ok ())"
proof (cases "records_and_actions db task = []")
  case False
  then obtain e where "e \<in> set (actionlogs db)" "al_id e \<in> set (map snd (records_and_actions db task))"
    by (fastforce simp: records_and_actions_def filter_empty_conv)
  moreover have "distinct (map snd (records_and_actions db task))"
    using assms(1) by (simp add: records_and_actions_def t_inv_def distinct_map_filter comp_def)
  ultimately have "attempts ev (map snd (records_and_actions db task)) ok 0 ACTION_MAX_NR_OF_RETRIES (db, deleted) =
      ((db\<lparr>actionlogs := change_rows (map snd (records_and_actions db task)) give_up (actionlogs db)\<rparr>, deleted), Ok ())"
    if "\<And>k. \<not> ok k" for ok
    using that assms by (intro attempts_fail [where r = r]) auto
  with assms(2) False show ?thesis by (simp add: execute_with_lock_def attempt_succeeds_def)
qed (simp add: execute_with_lock_def change_rows_def)

theorem task_gives_up_witness:
  "\<exists>db'. execute_with_lock (\<lambda>i. True) True (\<lambda>k. False) move_task (action_db, []) = ((db', []), Ok ()) \<and>
     map al_status (actionlogs db') = [Pending, Pending, Failed]"
proof -
  have "map al_status (change_rows (map snd (records_and_actions action_db move_task)) give_up (actionlogs action_db))
      = [Pending, Pending, Failed]" by code_simp
  moreover have "execute_with_lock (\<lambda>i. True) True (\<lambda>k. False) move_task (action_db, []) =
      ((action_db\<lparr>actionlogs := change_rows (map snd (records_and_actions action_db move_task)) give_up
          (actionlogs action_db)\<rparr>, []), Ok ())"
    by (rule task_gives_up [OF move_task_rows(2) _ _ _ move_task_rows(3)]) (simp_all add: ACTION_MAX_NR_OF_RETRIES_def)
  ultimately show ?thesis by simp
qed

text \<open>
  A task whose attempt number \<open>j\<close> (from 0) is the first to succeed, within the limit,
  has all its pending entries marked successful, with their retries raised by \<open>j\<close>; all other
  rows are untouched.
\<close>

theorem task_succeeds:
  assumes "t_inv al_id (actionlogs db)" and "0 \<le> r" "r + int j < int ACTION_MAX_NR_OF_RETRIES"
    and "equal_retries (map snd (records_and_actions db task)) r (actionlogs db)"
    and "attempt_succeeds has_client task (map fst (records_and_actions db task)) (provider_ok j)"
    and "\<And>i. i < j \<Longrightarrow> \<not> provider_ok i"
  shows "execute_with_lock ev has_client provider_ok task (db, deleted) =
    ((db\<lparr>actionlogs := change_rows (map snd (records_and_actions db task)) (succeed_after j) (actionlogs db)\<rparr>, deleted), Ok ())"
proof (cases "records_and_actions db task = []")
  case False
  have "distinct (map snd (records_and_actions db task))"
    using assms(1) by (simp add: records_and_actions_def t_inv_def distinct_map_filter comp_def)
  from attempts_succeed [OF assms(1) this assms(4), of _ 0 j] assms False show ?thesis
    by (simp add: execute_with_lock_def attempt_succeeds_def)
qed (simp add: execute_with_lock_def change_rows_def)

theorem task_succeeds_witness:
  "\<exists>db'. execute_with_lock (\<lambda>i. True) True (\<lambda>k. k = 2) move_task (action_db, []) = ((db', []), Ok ()) \<and>
     map al_status (actionlogs db') = [Pending, Pending, Successful] \<and> map al_retries (actionlogs db') = [0, 0, 2]"
proof -
  let ?rows = "change_rows (map snd (records_and_actions action_db move_task)) (succeed_after 2) (actionlogs action_db)"
  have rows: "map al_status ?rows = [Pending, Pending, Successful]" "map al_retries ?rows = [0, 0, 2]" by code_simp+
  have "attempt_succeeds True move_task (map fst (records_and_actions action_db move_task)) True" by code_simp
  then have "execute_with_lock (\<lambda>i. True) True (\<lambda>k. k = 2) move_task (action_db, []) =
      ((action_db\<lparr>actionlogs := ?rows\<rparr>, []), Ok ())"
    by (intro task_succeeds [OF move_task_rows(2) _ _ move_task_rows(3)]) (simp_all add: ACTION_MAX_NR_OF_RETRIES_def)
  with rows show ?thesis by simp
qed

text \<open>
  Merged actions whose retry counts differ break the bookkeeping: the attempt at which the
  first of two entries reaches the limit fails it for good and then raises
  \<open>AssertionError\<close>, so the second stays pending with its retry not counted and the rest of
  the batch is not executed.
\<close>

theorem unequal_retries_abort_task:
  assumes "t_inv al_id (actionlogs db)" and "t_get al_id (actionlogs db) i = Some a"
    and "t_get al_id (actionlogs db) j = Some b" and "i \<noteq> j"
    and "al_retries a + 1 = int ACTION_MAX_NR_OF_RETRIES" and "al_retries b + 1 \<noteq> int ACTION_MAX_NR_OF_RETRIES"
    and "al_action a \<noteq> ''create_event''" and "\<not> ok k"
  shows "attempts ev [i, j] ok k (Suc n) (db, del) =
    ((put_action db (a\<lparr>al_retries := int ACTION_MAX_NR_OF_RETRIES, al_status := Failed\<rparr>), del), Raise AssertionError)"
  using assms by (rule unequal_retries_abort)

definition unequal_db :: store where
  "unequal_db = empty_store\<lparr>actionlogs := [(sample_action 1 ''change_labels'' 11)\<lparr>al_retries := 19\<rparr>,
     sample_action 2 ''change_labels'' 12]\<rparr>"

theorem unequal_retries_abort_task_witness:
  "\<exists>db'. attempts (\<lambda>i. True) [1, 2] (\<lambda>k. False) 0 20 (unequal_db, []) = ((db', []), Raise AssertionError) \<and>
     map al_status (actionlogs db') = [Failed, Pending]"
proof -
  let ?a = "(sample_action 1 ''change_labels'' 11)\<lparr>al_retries := 19\<rparr>" and ?b = "sample_action 2 ''change_labels'' 12"
  have "attempts (\<lambda>i. True) [1, 2] (\<lambda>k. False) 0 (Suc 19) (unequal_db, []) =
      ((put_action unequal_db (?a\<lparr>al_retries := int ACTION_MAX_NR_OF_RETRIES, al_status := Failed\<rparr>), []), Raise AssertionError)"
    by (rule unequal_retries_abort_task [where b = ?b])
      (simp_all add: unequal_db_def t_inv_def t_get_def sample_action_def ACTION_MAX_NR_OF_RETRIES_def)
  moreover have "map al_status (actionlogs (put_action unequal_db
      (?a\<lparr>al_retries := int ACTION_MAX_NR_OF_RETRIES, al_status := Failed\<rparr>))) = [Failed, Pending]" by code_simp
  moreover have "Suc 19 = 20" by simp
  ultimately show ?thesis by metis
qed

text \<open>
  C5: No action is executed twice at a time. In every state the service reaches, through any
  interleaving of its polls with workers that take and finish batches and with changes of the
  log, no action id is in two queued or active batches, and the ids it holds as running are
  exactly those.
\<close>

theorem no_action_twice:
  assumes "sb_init st" and "sb_step\<^sup>*\<^sup>* st st'"
  shows "distinct (in_flight (snd st')) \<and> sv_running (snd st') = set (in_flight (snd st'))"
  using syncback.reach_inv [OF assms] by (simp add: sb_inv_def)

theorem no_action_twice_witness:
  "\<exists>s db' s'. sb_init (action_db, s) \<and> sb_step (action_db, s) (db', s') \<and> in_flight s' = [1, 2, 3] \<and>
     sv_running s' = {1, 2, 3}"
proof -
  let ?s = "\<lparr>sv_running = {}, sv_queue = [], sv_active = [], sv_idle = 5\<rparr>"
  have init: "sb_init (action_db, ?s)" by (simp add: sb_init_def action_db_def t_inv_def sample_action_def)
  let ?p = "process_namespace 0 1 20 (action_db, ?s)"
  have p: "?p = ((fst (fst ?p), snd (fst ?p)), snd ?p)" by simp
  from sb_step.process [OF p] have step: "sb_step (action_db, ?s) (fst (fst ?p), snd (fst ?p))" .
  have fl: "in_flight (snd (fst ?p)) = [1, 2, 3]" by code_simp
  from no_action_twice [OF init r_into_rtranclp [of sb_step, OF step]] fl
  have "sv_running (snd (fst ?p)) = {1, 2, 3}" by simp
  with init step fl show ?thesis by blast
qed

end
