(* ===== verification/Sync_Queue.thy ===== *)
theory Sync_Queue
  imports Account_Model "HOL-Library.List_Lexorder" "HOL-Library.Char_ord"
begin

text \<open>
  The queues kept in Redis: the account queue with its table of owners and its populator
  (\<open>inbox/scheduling/queue.py\<close>), the event queues (\<open>inbox/scheduling/event_queue.py\<close>)
  and the deferred account migrations (\<open>inbox/scheduling/deferred_migration.py\<close>). A Redis
  list has its left end first; a hash is an association list with distinct keys.
\<close>

section \<open>Lists as FIFO queues\<close>

definition lpush :: "'a \<Rightarrow> 'a list \<Rightarrow> 'a list" where
  "lpush x q = x # q"

definition rpush :: "'a \<Rightarrow> 'a list \<Rightarrow> 'a list" where
  "rpush x q = q @ [x]"

definition lpop :: "'a list \<Rightarrow> ('a \<times> 'a list) option" where
  "lpop q = (case q of [] \<Rightarrow> None | x # q' \<Rightarrow> Some (x, q'))"

definition rpop :: "'a list \<Rightarrow> ('a \<times> 'a list) option" where
  "rpop q = (if q = [] then None else Some (last q, butlast q))"

text \<open>
  What both uses rely on: an abstract sequence, pushed at its end and popped at its front.
  Popping until nothing is left gives the sequence.
\<close>

locale fifo =
  fixes elems :: "'q \<Rightarrow> 'a list" and push :: "'a \<Rightarrow> 'q \<Rightarrow> 'q" and pop :: "'q \<Rightarrow> ('a \<times> 'q) option"
  assumes elems_push: "elems (push x q) = elems q @ [x]"
    and pop_None: "pop q = None \<longleftrightarrow> elems q = []"
    and pop_Some: "pop q = Some (x, q') \<Longrightarrow> elems q = x # elems q'"
begin

lemma fifo_elems_fold: "elems (fold push xs q) = elems q @ xs"
  by (induction xs arbitrary: q) (simp_all add: elems_push)

lemma fifo_pop_push:
  assumes "elems q = []"
  shows "\<exists>q'. pop (push x q) = Some (x, q') \<and> elems q' = []"
proof -
  have e: "elems (push x q) = [x]" by (simp add: elems_push assms)
  then obtain y q' where y: "pop (push x q) = Some (y, q')"
    using pop_None [of "push x q"] by (cases "pop (push x q)") auto
  with pop_Some [OF y] e show ?thesis by simp
qed

end

text \<open>A bounded number of pops, as far as they go.\<close>

fun pops :: "('q \<Rightarrow> ('a \<times> 'q) option) \<Rightarrow> nat \<Rightarrow> 'q \<Rightarrow> 'a list \<times> 'q" where
  "pops pop 0 q = ([], q)"
| "pops pop (Suc n) q =
     (case pop q of None \<Rightarrow> ([], q) | Some (x, q') \<Rightarrow> (let (xs, r) = pops pop n q' in (x # xs, r)))"

context fifo begin

lemma fifo_pops: "fst (pops pop n q) = take n (elems q)" "elems (snd (pops pop n q)) = drop n (elems q)"
proof (induction n arbitrary: q)
  case (Suc n)
  {
    case 1
    show ?case
      using Suc.IH(1) pop_None [of q]
      by (cases "pop q") (auto simp: split_def Let_def dest!: pop_Some split: prod.splits)
  next
    case 2
    show ?case
      using Suc.IH(2) pop_None [of q]
      by (cases "pop q") (auto simp: split_def Let_def dest!: pop_Some split: prod.splits)
  }
qed simp_all

end

interpretation account_fifo: fifo rev lpush rpop
  by unfold_locales (auto simp: lpush_def rpop_def rev_eq_Cons_iff split: if_split_asm)

interpretation event_fifo: fifo id rpush lpop
  by unfold_locales (auto simp: rpush_def lpop_def split: list.splits)

section \<open>The account queue\<close>

record account_queue =
  aq_list :: "nat list"
  aq_hash :: "(nat \<times> string) list"

definition hash_keys :: "account_queue \<Rightarrow> nat set" where
  "hash_keys q = fst ` set (aq_hash q)"

definition aq_wf :: "account_queue \<Rightarrow> bool" where
  "aq_wf q \<longleftrightarrow> distinct (map fst (aq_hash q))"

definition queue_all :: "account_queue \<Rightarrow> nat set" where
  "queue_all q = hash_keys q \<union> set (aq_list q)"

definition assigned :: "account_queue \<Rightarrow> (nat \<times> string) list" where
  "assigned q = aq_hash q"

definition enqueue :: "nat \<Rightarrow> account_queue \<Rightarrow> account_queue" where
  "enqueue key q = q\<lparr>aq_list := lpush key (aq_list q)\<rparr>"

text \<open>
  The Lua script: the reply 0 of \<open>HSETNX\<close> for a present key is a number, which Lua takes for
  true, so the popped key is returned also when it is assigned already.
\<close>

definition hsetnx :: "nat \<Rightarrow> string \<Rightarrow> (nat \<times> string) list \<Rightarrow> (nat \<times> string) list" where
  "hsetnx k v h = (if k \<in> fst ` set h then h else h @ [(k, v)])"

definition claim_next :: "string \<Rightarrow> account_queue \<Rightarrow> account_queue \<times> nat option" where
  "claim_next v q =
     (case rpop (aq_list q) of
        None \<Rightarrow> (q, None)
      | Some (k, rest) \<Rightarrow> (q\<lparr>aq_list := rest, aq_hash := hsetnx k v (aq_hash q)\<rparr>, Some k))"

definition unassign :: "nat \<Rightarrow> string \<Rightarrow> account_queue \<Rightarrow> account_queue \<times> nat" where
  "unassign key v q =
     (if map_of (aq_hash q) key = Some v
      then (q\<lparr>aq_hash := filter (\<lambda>(k, _). k \<noteq> key) (aq_hash q)\<rparr>, 1) else (q, 0))"

definition qsize :: "account_queue \<Rightarrow> nat" where
  "qsize q = length (aq_list q)"

section \<open>The queue populator\<close>

text \<open>The accounts of the shards of a zone; \<open>shard_of\<close> is the id's upper bits.\<close>

definition shard_of :: "nat \<Rightarrow> nat" where
  "shard_of i = i div 2 ^ 48"

definition runnable_accounts :: "nat list \<Rightarrow> account_row list \<Rightarrow> nat set" where
  "runnable_accounts shards accs =
     acc_id ` {a \<in> set accs. shard_of (acc_id a) \<in> set shards \<and> acc_sync_should_run a}"

definition enqueue_new_accounts :: "nat list \<Rightarrow> account_row list \<Rightarrow> account_queue \<Rightarrow> account_queue" where
  "enqueue_new_accounts shards accs q =
     fold enqueue (sorted_list_of_set (runnable_accounts shards accs - queue_all q)) q"

text \<open>The owners are read once; \<open>meanwhile\<close> is what happens to the hash before they are removed.\<close>

definition unassign_disabled_accounts ::
  "nat list \<Rightarrow> account_row list \<Rightarrow> (account_queue \<Rightarrow> account_queue) \<Rightarrow> account_queue \<Rightarrow> account_queue" where
  "unassign_disabled_accounts shards accs meanwhile q =
     fold (\<lambda>(k, host) q. fst (unassign k host q))
       (filter (\<lambda>(k, _). k \<notin> runnable_accounts shards accs) (assigned q)) (meanwhile q)"

definition populate :: "nat list \<Rightarrow> account_row list \<Rightarrow> (account_queue \<Rightarrow> account_queue) \<Rightarrow> account_queue \<Rightarrow> account_queue" where
  "populate shards accs meanwhile q =
     unassign_disabled_accounts shards accs meanwhile (enqueue_new_accounts shards accs q)"

section \<open>Lemmas on the account queue\<close>

lemma enqueue_keeps [simp]: "aq_hash (fold enqueue ks q) = aq_hash q"
  by (induction ks arbitrary: q) (simp_all add: enqueue_def)

lemma enqueue_list: "aq_list (fold enqueue ks q) = rev ks @ aq_list q"
  by (induction ks arbitrary: q) (simp_all add: enqueue_def lpush_def)

lemma finite_runnable [simp]: "finite (runnable_accounts shards accs)"
  by (simp add: runnable_accounts_def)

lemma queue_all_enqueued:
  "queue_all (enqueue_new_accounts shards accs q) = queue_all q \<union> runnable_accounts shards accs"
  by (auto simp: enqueue_new_accounts_def queue_all_def hash_keys_def enqueue_list)

text \<open>A claim never changes who owns an account, and owns the account it returns unless someone has it.\<close>

lemma claim_keeps_owner:
  assumes "map_of (aq_hash q) k = Some w"
  shows "map_of (aq_hash (fst (claim_next v q))) k = Some w"
proof -
  have "k \<in> fst ` set (aq_hash q)" using assms map_of_SomeD by (metis fst_conv image_eqI)
  with assms show ?thesis
    by (auto simp: claim_next_def hsetnx_def map_add_def split: option.split)
qed

lemma claim_next_Some:
  assumes "claim_next v q = (q', Some k)"
  shows "aq_list q = aq_list q' @ [k]" and "aq_hash q' = hsetnx k v (aq_hash q)"
  using assms by (auto simp: claim_next_def rpop_def split: if_split_asm)

lemma hsetnx_lookup: "map_of (hsetnx k v h) j = (if j = k \<and> k \<notin> fst ` set h then Some v else map_of h j)"
proof (cases "k \<in> fst ` set h")
  case False
  then have "map_of h k = None" by (simp add: map_of_eq_None_iff)
  with False show ?thesis by (simp add: hsetnx_def map_add_def split: option.split)
qed (simp add: hsetnx_def)

lemma claim_wf: "aq_wf q \<Longrightarrow> aq_wf (fst (claim_next v q))"
  by (auto simp: aq_wf_def claim_next_def hsetnx_def split: option.split)

lemma map_of_drop_key: "map_of (filter (\<lambda>(x, _). x \<noteq> k) h) j = (if j = k then None else map_of h j)"
  by (induction h) auto

lemma unassign_lookup:
  "map_of (aq_hash (fst (unassign k v q))) j =
    (if j = k \<and> map_of (aq_hash q) k = Some v then None else map_of (aq_hash q) j)"
  by (simp add: unassign_def map_of_drop_key)

lemma unassign_hash:
  "map_of (aq_hash q) k = Some v \<Longrightarrow> aq_hash (fst (unassign k v q)) = filter (\<lambda>p. fst p \<noteq> k) (aq_hash q)"
  by (simp add: unassign_def case_prod_beta')

lemma unassign_each:
  assumes "\<forall>(k, v)\<in>set xs. map_of (aq_hash q) k = Some v" and "distinct (map fst xs)"
  shows "aq_hash (fold (\<lambda>(k, host) q. fst (unassign k host q)) xs q) = filter (\<lambda>p. fst p \<notin> fst ` set xs) (aq_hash q)"
  using assms
proof (induction xs arbitrary: q)
  case (Cons x xs)
  obtain k v where x: "x = (k, v)" by (cases x)
  let ?q = "fst (unassign k v q)"
  have "\<forall>(j, w)\<in>set xs. map_of (aq_hash ?q) j = Some w"
    using Cons.prems by (force simp: x unassign_lookup)
  with Cons.IH [of ?q] Cons.prems(2)
  have "aq_hash (fold (\<lambda>(k, host) q. fst (unassign k host q)) xs ?q) = filter (\<lambda>p. fst p \<notin> fst ` set xs) (aq_hash ?q)"
    by simp
  moreover have "aq_hash ?q = filter (\<lambda>p. fst p \<noteq> k) (aq_hash q)"
    using Cons.prems(1) unassign_hash [of q k v] by (simp add: x case_prod_beta)
  ultimately show ?case by (simp add: x)
qed simp

text \<open>With nobody claiming in between, exactly the runnable accounts keep their owner.\<close>

lemma unassign_disabled_hash:
  assumes "aq_wf q"
  shows "aq_hash (unassign_disabled_accounts shards accs id q) =
    filter (\<lambda>(k, _). k \<in> runnable_accounts shards accs) (aq_hash q)"
proof -
  let ?xs = "filter (\<lambda>(k, _). k \<notin> runnable_accounts shards accs) (assigned q)"
  have "\<forall>(k, v)\<in>set ?xs. map_of (aq_hash q) k = Some v"
    using assms by (auto simp: assigned_def aq_wf_def intro: map_of_is_SomeI)
  moreover have "distinct (map fst ?xs)"
    using assms by (simp add: assigned_def aq_wf_def distinct_map_filter)
  ultimately have "aq_hash (unassign_disabled_accounts shards accs id q) =
      filter (\<lambda>p. fst p \<notin> fst ` set ?xs) (aq_hash q)"
    by (simp add: unassign_disabled_accounts_def unassign_each)
  also have "\<dots> = filter (\<lambda>(k, _). k \<in> runnable_accounts shards accs) (aq_hash q)"
    by (rule filter_cong) (auto simp: assigned_def image_iff)
  finally show ?thesis .
qed

lemma unassign_disabled_list: "aq_list (unassign_disabled_accounts shards accs id q) = aq_list q"
proof -
  have "aq_list (fold (\<lambda>(k, host) q. fst (unassign k host q)) xs q) = aq_list q" for xs q
    by (induction xs arbitrary: q) (auto simp: unassign_def)
  then show ?thesis by (simp add: unassign_disabled_accounts_def)
qed

lemma map_of_filter_keys: "map_of (filter (\<lambda>(k, _). P k) h) i = (if P i then map_of h i else None)"
  by (induction h) auto

end
