(* ===== verification/Event_Queues.thy ===== *)
theory Event_Queues
  imports Sync_Queue
begin

text \<open>
  \<open>inbox/scheduling/event_queue.py\<close> and \<open>inbox/scheduling/deferred_migration.py\<close>. What
  lies in a queue is \<open>None\<close> when \<open>json.loads\<close> rejects it. A blocking pop is taken at the
  moment it returns; one that times out finds its queues empty. Times are in microseconds.
\<close>

section \<open>Event queues\<close>

type_synonym queues = "string \<Rightarrow> json option list"

definition dict_set :: "(string \<times> json) list \<Rightarrow> string \<Rightarrow> json \<Rightarrow> (string \<times> json) list" where
  "dict_set d k v = filter (\<lambda>(x, _). x \<noteq> k) d @ [(k, v)]"

definition dict_pop :: "(string \<times> json) list \<Rightarrow> string \<Rightarrow> (string \<times> json) list" where
  "dict_pop d k = filter (\<lambda>(x, _). x \<noteq> k) d"

text \<open>An element that is no dictionary, or no JSON at all, is logged, dropped and gives no event.\<close>

definition load_event :: "string \<Rightarrow> json option \<Rightarrow> (string \<times> json) list option" where
  "load_event queue_name data =
     (case data of
        Some (JDict d) \<Rightarrow> Some (dict_set d ''queue_name'' (JStr queue_name))
      | _ \<Rightarrow> None)"

definition receive_event :: "string \<Rightarrow> queues \<Rightarrow> queues \<times> (string \<times> json) list option" where
  "receive_event name qs =
     (case lpop (qs name) of
        None \<Rightarrow> (qs, None)
      | Some (x, rest) \<Rightarrow> (qs(name := rest), load_event name x))"

definition send_event :: "string \<Rightarrow> (string \<times> json) list \<Rightarrow> queues \<Rightarrow> queues" where
  "send_event name event qs = qs(name := rpush (Some (JDict (dict_pop event ''queue_name''))) (qs name))"

text \<open>A group pops from the first of its queues that has an element.\<close>

fun group_receive_event :: "string list \<Rightarrow> queues \<Rightarrow> queues \<times> (string \<times> json) list option" where
  "group_receive_event [] qs = (qs, None)"
| "group_receive_event (name # names) qs =
     (if qs name = [] then group_receive_event names qs else receive_event name qs)"

lemma received_after_send:
  assumes "qs name = []"
  shows "receive_event name (send_event name event qs) =
    (qs, Some (dict_set (dict_pop event ''queue_name'') ''queue_name'' (JStr name)))"
  using assms by (simp add: send_event_def receive_event_def rpush_def lpop_def load_event_def fun_upd_idem)

section \<open>Deferred account migrations\<close>

definition OBJ_TTL :: int where "OBJ_TTL = seconds (60 * 60 * 24 * 7)"
definition EVENT_SOCKET_TIMEOUT :: int where "EVENT_SOCKET_TIMEOUT = seconds 30"

record deferral =
  dm_deadline :: datetime
  dm_account_id :: nat
  dm_desired_host :: string

text \<open>
  The counter, the saved objects with the time each expires, the priority queue of scores and
  ids, and the event queue. The members of a sorted set are text, so that equal scores are ordered
  by the decimal digits of the ids.
\<close>

record mig_redis =
  mr_counter :: nat
  mr_objs :: "(nat \<times> deferral \<times> datetime) list"
  mr_pqueue :: "(datetime \<times> nat) list"
  mr_events :: "json option list"

function dec_str :: "nat \<Rightarrow> string" where
  "dec_str n = (if n < 10 then [alphabet ! n] else dec_str (n div 10) @ [alphabet ! (n mod 10)])"
  by pat_completeness auto
termination
  by (relation "measure id") auto

declare dec_str.simps [simp del]

definition zsort :: "(datetime \<times> nat) list \<Rightarrow> (datetime \<times> nat) list" where
  "zsort z = sort_key fst (sort_key (dec_str \<circ> snd) z)"

definition zadd :: "datetime \<Rightarrow> nat \<Rightarrow> (datetime \<times> nat) list \<Rightarrow> (datetime \<times> nat) list" where
  "zadd score member z = zsort (filter (\<lambda>e. snd e \<noteq> member) z @ [(score, member)])"

definition zrem :: "nat \<Rightarrow> (datetime \<times> nat) list \<Rightarrow> (datetime \<times> nat) list" where
  "zrem member z = filter (\<lambda>e. snd e \<noteq> member) z"

definition set_obj :: "nat \<Rightarrow> deferral \<times> datetime \<Rightarrow> (nat \<times> deferral \<times> datetime) list \<Rightarrow> (nat \<times> deferral \<times> datetime) list" where
  "set_obj i v objs = filter (\<lambda>e. fst e \<noteq> i) objs @ [(i, v)]"

text \<open>A deferral that was never saved has no id and gets the next number.\<close>

definition mig_save :: "datetime \<Rightarrow> deferral \<Rightarrow> nat option \<Rightarrow> mig_redis \<Rightarrow> mig_redis" where
  "mig_save now d iopt r =
     (let counter = (if iopt = None then Suc (mr_counter r) else mr_counter r);
          i = (case iopt of None \<Rightarrow> counter | Some j \<Rightarrow> j)
      in r\<lparr>mr_counter := counter, mr_objs := set_obj i (d, now + OBJ_TTL) (mr_objs r),
           mr_pqueue := zadd (dm_deadline d) i (mr_pqueue r),
           mr_events := rpush (Some (JDict [(''id'', JNum (int i))])) (mr_events r)\<rparr>)"

definition put_account :: "nat \<Rightarrow> (account_row \<Rightarrow> account_row) \<Rightarrow> account_row list \<Rightarrow> account_row list" where
  "put_account i f accs = map (\<lambda>a. if acc_id a = i then f a else a) accs"

definition mig_execute :: "datetime \<Rightarrow> nat \<Rightarrow> deferral \<Rightarrow> account_row list \<times> mig_redis \<Rightarrow> account_row list \<times> mig_redis" where
  "mig_execute now i d st =
     (case st of (accs, r) \<Rightarrow>
        if t_get acc_id accs (dm_account_id d) = None then (accs, r)
        else (put_account (dm_account_id d) (\<lambda>a. a\<lparr>acc_desired_sync_host := Some (dm_desired_host d)\<rparr>) accs,
              mig_save now d (Some i) r))"

text \<open>
  Loading an object that has expired: \<open>hmget\<close> answers with a list of \<open>None\<close>s, never with
  \<open>None\<close>, and \<open>float(None)\<close> raises.
\<close>

definition try_load :: "datetime \<Rightarrow> mig_redis \<Rightarrow> nat \<Rightarrow> deferral res" where
  "try_load now r i =
     (case map_of (mr_objs r) i of
        None \<Rightarrow> Raise TypeError
      | Some (d, expires) \<Rightarrow> if now < expires then Ok d else Raise TypeError)"

definition next_deferral :: "datetime \<Rightarrow> mig_redis \<Rightarrow> (nat \<times> deferral) option res" where
  "next_deferral now r =
     (case mr_pqueue r of
        [] \<Rightarrow> Ok None
      | (_, i) # _ \<Rightarrow> res_bind (try_load now r i) (\<lambda>d. Ok (Some (i, d))))"

definition sleep_timeout :: "datetime \<Rightarrow> datetime \<Rightarrow> int \<Rightarrow> int" where
  "sleep_timeout now deadline timeout = min (max (deadline - now) 1000000) timeout div 1000000 * 1000000"

lemma set_zsort [simp]: "set (zsort z) = set z"
  by (simp add: zsort_def)

lemma length_zsort [simp]: "length (zsort z) = length z"
  by (simp add: zsort_def)

lemma filter_zsort: "filter P (zsort z) = zsort (filter P z)"
  by (simp add: zsort_def filter_sort)

lemma zrem_zadd: "zsort z = z \<Longrightarrow> zrem i (zadd s i z) = zrem i z"
  by (simp add: zrem_def zadd_def filter_zsort) (metis filter_zsort)

lemma length_zrem_zadd: "length (zrem i (zadd s i z)) = length (zrem i z)"
  by (simp add: zrem_def zadd_def filter_zsort)

lemma executed_pqueue: "mr_pqueue (snd (mig_execute now i d (accs, r))) \<in> {mr_pqueue r, zadd (dm_deadline d) i (mr_pqueue r)}"
  by (simp add: mig_execute_def mig_save_def Let_def)

text \<open>The loop over the due deferrals; each turn takes one element off the priority queue.\<close>

function run_due ::
  "datetime \<Rightarrow> account_row list \<times> mig_redis \<Rightarrow> (account_row list \<times> mig_redis) \<times> int res" where
  "run_due now st =
     (case next_deferral now (snd st) of
        Inl e \<Rightarrow> (st, Raise e)
      | Inr None \<Rightarrow> (st, Ok (EVENT_SOCKET_TIMEOUT - seconds 2))
      | Inr (Some (i, d)) \<Rightarrow>
          if now \<le> dm_deadline d then (st, Ok (sleep_timeout now (dm_deadline d) (EVENT_SOCKET_TIMEOUT - seconds 2)))
          else (let (accs, r) = mig_execute now i d st
                in run_due now (accs, r\<lparr>mr_pqueue := zrem i (mr_pqueue r)\<rparr>)))"
  by pat_completeness auto
termination
proof (relation "measure (\<lambda>(now, st). length (mr_pqueue (snd st)))")
  fix now and st :: "account_row list \<times> mig_redis" and x y i d p accs r
  assume nxt: "next_deferral now (snd st) = Inr x" "x = Some y" "(i, d) = y" and "\<not> now \<le> dm_deadline d"
    and ex: "p = mig_execute now i d st" "(accs, r) = p"
  from nxt obtain s z where z: "mr_pqueue (snd st) = (s, i) # z"
    by (auto simp: next_deferral_def res_simps split: list.splits prod.splits)
  have "length (zrem i (mr_pqueue (snd st))) < length (mr_pqueue (snd st))"
    by (simp add: zrem_def z less_Suc_eq_le)
  moreover have "length (zrem i (mr_pqueue r)) = length (zrem i (mr_pqueue (snd st)))"
  proof -
    have "r = snd (mig_execute now i d (fst st, snd st))" using ex by (metis snd_conv prod.collapse)
    then show ?thesis
      using executed_pqueue [of now i d "fst st" "snd st"] length_zrem_zadd [of i] by auto
  qed
  ultimately show "((now, accs, r\<lparr>mr_pqueue := zrem i (mr_pqueue r)\<rparr>), now, st) \<in> measure (\<lambda>(now, st). length (mr_pqueue (snd st)))"
    by simp
qed simp

declare run_due.simps [simp del]

definition executor_run ::
  "datetime \<Rightarrow> account_row list \<times> mig_redis \<Rightarrow> (account_row list \<times> mig_redis) \<times> unit res" where
  "executor_run now st =
     (case run_due now st of
        (st1, Inl e) \<Rightarrow> (st1, Raise e)
      | ((accs, r), Inr timeout) \<Rightarrow>
          ((accs, case lpop (mr_events r) of None \<Rightarrow> r | Some (_, rest) \<Rightarrow> r\<lparr>mr_events := rest\<rparr>), Ok ()))"

section \<open>What a run of the executor does\<close>

text \<open>
  The queue is sorted, has each id once, and the object of each id is there, not expired, with
  the deadline it is queued under.
\<close>

definition mig_wf :: "datetime \<Rightarrow> mig_redis \<Rightarrow> bool" where
  "mig_wf now r \<longleftrightarrow> zsort (mr_pqueue r) = mr_pqueue r \<and> distinct (map snd (mr_pqueue r)) \<and>
     (\<forall>(s, i)\<in>set (mr_pqueue r). \<exists>d e. map_of (mr_objs r) i = Some (d, e) \<and> now < e \<and> dm_deadline d = s)"

definition due :: "datetime \<Rightarrow> datetime \<times> nat \<Rightarrow> bool" where
  "due now e \<longleftrightarrow> fst e < now"

definition obj_of :: "mig_redis \<Rightarrow> datetime \<times> nat \<Rightarrow> deferral" where
  "obj_of r e = fst (the (map_of (mr_objs r) (snd e)))"

definition set_desired :: "deferral \<Rightarrow> account_row list \<Rightarrow> account_row list" where
  "set_desired d = put_account (dm_account_id d) (\<lambda>a. a\<lparr>acc_desired_sync_host := Some (dm_desired_host d)\<rparr>)"

lemma put_account_missing: "t_get acc_id accs i = None \<Longrightarrow> put_account i f accs = accs"
  by (auto simp: put_account_def t_get_def find_None_iff intro: map_idI)

lemma map_of_set_obj: "j \<noteq> i \<Longrightarrow> map_of (set_obj i v objs) j = map_of objs j"
proof -
  assume "j \<noteq> i"
  then have "map_of (filter (\<lambda>e. fst e \<noteq> i) objs) j = map_of objs j" by (induction objs) auto
  then show ?thesis using \<open>j \<noteq> i\<close> by (simp add: set_obj_def map_add_def split: option.split)
qed

lemma executed:
  assumes "mig_execute now i d (accs, r) = (accs', r')" and "zsort (mr_pqueue r) = mr_pqueue r"
  shows "accs' = set_desired d accs" and "zrem i (mr_pqueue r') = zrem i (mr_pqueue r)"
    and "j \<noteq> i \<Longrightarrow> map_of (mr_objs r') j = map_of (mr_objs r) j"
  using assms
  by (auto simp: mig_execute_def set_desired_def put_account_missing mig_save_def Let_def zrem_zadd map_of_set_obj
      split: if_split_asm)

lemma zsort_tail: "zsort (x # z) = x # z \<Longrightarrow> distinct (map snd (x # z)) \<Longrightarrow> zsort z = z \<and> zrem (snd x) (x # z) = z"
proof -
  assume s: "zsort (x # z) = x # z" and d: "distinct (map snd (x # z))"
  from d have "snd x \<notin> snd ` set z" by simp
  then have "snd e \<noteq> snd x" if "e \<in> set z" for e using imageI [OF that, of snd] by metis
  then have z: "zrem (snd x) (x # z) = z" by (simp add: zrem_def filter_id_conv)
  have "zsort (zrem (snd x) (x # z)) = zrem (snd x) (x # z)"
    unfolding zrem_def using filter_zsort [of "\<lambda>e. snd e \<noteq> snd x" "x # z"] s by simp
  with z show ?thesis by simp
qed

lemma zsort_sorted: "zsort z = z \<Longrightarrow> sorted (map fst z)"
  by (metis sorted_sort_key zsort_def)

lemma run_due_spec:
  assumes "mig_wf now r"
  shows "\<exists>r' n. run_due now (accs, r) =
      ((fold set_desired (map (obj_of r) (filter (due now) (mr_pqueue r))) accs, r'), Ok n) \<and>
    mr_pqueue r' = filter (\<lambda>e. \<not> due now e) (mr_pqueue r) \<and> n \<le> seconds 28 \<and> seconds 1 \<le> n"
  using assms
proof (induction "mr_pqueue r" arbitrary: accs r)
  case Nil
  then have "mr_pqueue r = []" by simp
  then show ?case
    by (intro exI [of _ r])
      (simp add: run_due.simps [of now "(accs, r)"] next_deferral_def EVENT_SOCKET_TIMEOUT_def seconds_def)
next
  case (Cons x z)
  note pq0 = Cons.hyps(2) [symmetric]
  obtain s i where x: "x = (s, i)" by (cases x)
  from Cons.prems have "\<exists>d e. map_of (mr_objs r) i = Some (d, e) \<and> now < e \<and> dm_deadline d = s"
    by (simp add: mig_wf_def pq0 x)
  then obtain d e where obj: "map_of (mr_objs r) i = Some (d, e)" "now < e" "dm_deadline d = s" by blast
  have nxt: "next_deferral now r = Ok (Some (i, d))"
    using x obj by (simp add: next_deferral_def try_load_def pq0)
  have wf: "zsort (x # z) = x # z" "distinct (map snd (x # z))"
    using Cons.prems by (simp_all add: mig_wf_def pq0)
  note tail = zsort_tail [OF wf]
  show ?case
  proof (cases "now \<le> s")
    case True
    have all: "\<not> due now y" if "y \<in> set (x # z)" for y
      using zsort_sorted [OF wf(1)] that True x by (fastforce simp: due_def)
    then have "filter (due now) (x # z) = []" "filter (\<lambda>e. \<not> due now e) (x # z) = x # z"
      by (simp_all add: filter_empty_conv filter_id_conv del: filter.simps)
    moreover have "sleep_timeout now s (seconds 28) \<le> seconds 28" "seconds 1 \<le> sleep_timeout now s (seconds 28)"
      by (simp_all add: sleep_timeout_def seconds_def min_def max_def; linarith)+
    ultimately show ?thesis
      using True nxt obj
      by (simp add: run_due.simps [of now "(accs, r)"] EVENT_SOCKET_TIMEOUT_def seconds_def pq0)
  next
    case False
    obtain accs1 r1 where ex: "mig_execute now i d (accs, r) = (accs1, r1)" by (cases "mig_execute now i d (accs, r)")
    note E = executed [OF ex, unfolded pq0, OF wf(1)]
    let ?r = "r1\<lparr>mr_pqueue := zrem i (mr_pqueue r1)\<rparr>"
    have pq: "mr_pqueue ?r = z" using E(2) tail x by simp
    have same: "map_of (mr_objs ?r) (snd y) = map_of (mr_objs r) (snd y)" if "y \<in> set z" for y
      using E(3) that wf(2) x by force
    have "mig_wf now ?r"
      using Cons.prems same tail by (fastforce simp: mig_wf_def pq pq0)
    from Cons.hyps(1) [OF pq [symmetric] this, of accs1] obtain r' n where
      IH: "run_due now (accs1, ?r) = ((fold set_desired (map (obj_of ?r) (filter (due now) z)) accs1, r'), Ok n)"
      "mr_pqueue r' = filter (\<lambda>e. \<not> due now e) z" "n \<le> seconds 28" "seconds 1 \<le> n"
      unfolding pq by blast
    have m: "map (obj_of ?r) (filter (due now) z) = map (obj_of r) (filter (due now) z)"
      using same by (auto simp: obj_of_def)
    have "run_due now (accs, r) = run_due now (accs1, ?r)"
      using False nxt obj ex by (simp add: run_due.simps [of now "(accs, r)"])
    moreover have "due now x" "obj_of r x = d" using False obj x by (simp_all add: due_def obj_of_def)
    ultimately show ?thesis using IH(1) [unfolded m] IH(2-) E(1) by (simp add: pq0)
  qed
qed

text \<open>A head of the queue whose object has expired stops every run with an exception.\<close>

lemma expired_blocks:
  assumes "mr_pqueue r = (s, i) # z" and "map_of (mr_objs r) i = Some (d, e)" and "e \<le> now"
  shows "executor_run now (accs, r) = ((accs, r), Raise TypeError)"
  using assms by (simp add: executor_run_def run_due.simps [of now "(accs, r)"] next_deferral_def try_load_def)

end
