(* ===== verification/Sync_Service.thy ===== *)
theory Sync_Service
  imports Event_Queues
begin

text \<open>
  \<open>inbox/mailsync/service.py\<close>: the service of one process, which claims accounts and runs
  their monitors, with the migration events that the commits of \<open>inbox/models/account.py\<close>
  send. A monitor is a greenlet with a number; it is live from its start until it is killed.
  The row lock and the semaphore make \<open>start_sync\<close> and \<open>stop_sync\<close> steps of their own.
\<close>

definition MAX_ACCOUNTS_PER_PROCESS :: nat where "MAX_ACCOUNTS_PER_PROCESS = 150"
definition PENDING_AVGS_THRESHOLD :: int where "PENDING_AVGS_THRESHOLD = 10"

section \<open>Events sent by commits\<close>

definition shared_queue_name :: "string \<Rightarrow> string" where
  "shared_queue_name zone = ''sync:shared_event_queue:'' @ zone"

definition private_queue_name :: "string \<Rightarrow> string" where
  "private_queue_name host = ''sync:event_queue:'' @ host"

definition event_payload :: "migration_event \<Rightarrow> (string \<times> json) list" where
  "event_payload e =
     (case e of
        Migrate_from i \<Rightarrow> [(''event'', JStr ''migrate_from''), (''id'', JNum (int i))]
      | Migrate_to i \<Rightarrow> [(''event'', JStr ''migrate_to''), (''id'', JNum (int i))]
      | Migrate i \<Rightarrow> [(''event'', JStr ''migrate''), (''id'', JNum (int i))])"

definition target_name :: "string \<Rightarrow> event_target \<Rightarrow> string" where
  "target_name zone t = (case t of Private_queue host \<Rightarrow> private_queue_name host | Shared_queue \<Rightarrow> shared_queue_name zone)"

definition fire :: "string \<Rightarrow> listener_state \<times> queues \<Rightarrow> listener_state \<times> queues" where
  "fire zone s =
     (case send_migration_events (fst s) of
        (None, ls) \<Rightarrow> (ls, snd s)
      | (Some (t, e), ls) \<Rightarrow> (ls, send_event (target_name zone t) (event_payload e) (snd s)))"

definition listener_of :: "account_row \<Rightarrow> listener_state" where
  "listener_of a = update_listener_state a
     \<lparr>ls_id = acc_id a, ls_sync_should_run = False, ls_sync_host = None, ls_desired_sync_host = None, ls_sent_event = False\<rparr>"

text \<open>A changed account is written, and each of the \<open>n\<close> commits of the session sends its event.\<close>

definition commit_account ::
  "string \<Rightarrow> nat \<Rightarrow> account_row \<Rightarrow> account_row \<Rightarrow> account_row list \<times> queues \<Rightarrow> account_row list \<times> queues" where
  "commit_account zone n old new s =
     (t_put acc_id (fst s) new,
      if should_send_event old new then snd ((fire zone ^^ n) (listener_of new, snd s)) else snd s)"

section \<open>Starting and stopping\<close>

record sync_service =
  ss_id :: string
  ss_zone :: string
  ss_syncing :: "nat set"
  ss_email :: "nat \<rightharpoonup> nat"
  ss_contact :: "nat \<rightharpoonup> nat"
  ss_event :: "nat \<rightharpoonup> nat"
  ss_live :: "(nat \<times> nat) list"
  ss_next :: nat

text \<open>Where starting can raise: making each monitor, the commit, and the commit at the end of the session.\<close>

datatype start_point = Email_monitor | Contact_monitor | Event_monitor | First_commit | Last_commit

record start_env =
  sn_now :: datetime
  sn_info :: "string \<Rightarrow> (bool \<times> bool) option"
  sn_fails :: "start_point \<Rightarrow> bool"

definition spawn :: "((nat \<rightharpoonup> nat) \<Rightarrow> sync_service \<Rightarrow> sync_service) \<Rightarrow> (sync_service \<Rightarrow> nat \<rightharpoonup> nat) \<Rightarrow> nat \<Rightarrow> sync_service \<Rightarrow> sync_service" where
  "spawn set_dict dict aid s =
     (set_dict ((dict s)(aid \<mapsto> ss_next s)) s)\<lparr>ss_live := ss_live s @ [(ss_next s, aid)], ss_next := Suc (ss_next s)\<rparr>"

definition start_email :: "start_env \<Rightarrow> (sync_service \<times> account_row, unit) st" where
  "start_email env s =
     (case s of (svc, acc) \<Rightarrow>
        if \<not> acc_sync_email acc then (s, Ok ())
        else if sn_fails env Email_monitor then (s, Raise OtherException)
        else ((spawn (\<lambda>d s. s\<lparr>ss_email := d\<rparr>) ss_email (acc_id acc) svc, acc), Ok ()))"

definition start_contacts :: "start_env \<Rightarrow> bool \<Rightarrow> (sync_service \<times> account_row, unit) st" where
  "start_contacts env offered s =
     (case s of (svc, acc) \<Rightarrow>
        if \<not> (offered \<and> acc_sync_contacts acc) then (s, Ok ())
        else if sn_fails env Contact_monitor then (s, Raise OtherException)
        else ((spawn (\<lambda>d s. s\<lparr>ss_contact := d\<rparr>) ss_contact (acc_id acc) svc, acc), Ok ()))"

definition start_events :: "start_env \<Rightarrow> bool \<Rightarrow> (sync_service \<times> account_row, unit) st" where
  "start_events env offered s =
     (case s of (svc, acc) \<Rightarrow>
        if \<not> (offered \<and> acc_sync_events acc) then (s, Ok ())
        else if sn_fails env Event_monitor then (s, Raise OtherException)
        else ((spawn (\<lambda>d s. s\<lparr>ss_event := d\<rparr>) ss_event (acc_id acc) svc, acc), Ok ()))"

definition mark_started :: "start_env \<Rightarrow> (sync_service \<times> account_row, unit) st" where
  "mark_started env s =
     (case s of (svc, acc) \<Rightarrow>
        ((svc\<lparr>ss_syncing := insert (acc_id acc) (ss_syncing svc)\<rparr>, sync_started (sn_now env) acc), Ok ()))"

text \<open>The body of the \<open>try\<close> up to its commit. An unknown provider has no information.\<close>

definition begin_sync :: "start_env \<Rightarrow> (sync_service \<times> account_row, unit) st" where
  "begin_sync env s =
     (case s of (svc, acc) \<Rightarrow>
        (st_bind (start_email env) (\<lambda>_.
          (case sn_info env (acc_provider acc) of
             None \<Rightarrow> st_raise OtherException
           | Some (has_contacts, has_events) \<Rightarrow>
               st_bind (start_contacts env has_contacts) (\<lambda>_.
                 st_bind (start_events env has_events) (\<lambda>_. mark_started env)))))
          (svc, acc\<lparr>acc_sync_host := Some (ss_id svc)\<rparr>))"

type_synonym world = "sync_service \<times> account_row list \<times> queues"

definition may_start :: "sync_service \<Rightarrow> account_row \<Rightarrow> bool" where
  "may_start svc acc \<longleftrightarrow>
     acc_sync_should_run acc \<and>
     (acc_desired_sync_host acc = None \<or> acc_desired_sync_host acc = Some (ss_id svc)) \<and>
     (acc_sync_host acc = None \<or> acc_sync_host acc = Some (ss_id svc)) \<and>
     acc_id acc \<notin> ss_syncing svc"

text \<open>
  An exception of the body is swallowed and the session ends normally, so the account keeps the
  host it was given and the monitors that were started stay. A failed commit undoes the account
  but not the service.
\<close>

definition start_sync_account :: "start_env \<Rightarrow> nat \<Rightarrow> world \<Rightarrow> world \<times> bool res" where
  "start_sync_account env aid w =
     (case w of (svc, accs, qs) \<Rightarrow>
        case t_get acc_id accs aid of
          None \<Rightarrow> (w, Ok False)
        | Some acc \<Rightarrow>
            if \<not> may_start svc acc then (w, Ok False)
            else (case begin_sync env (svc, acc) of
                    ((svc1, acc1), Inr _) \<Rightarrow>
                      if sn_fails env First_commit then ((svc1, accs, qs), Ok False)
                      else ((svc1, commit_account (ss_zone svc) 2 acc acc1 (accs, qs)), Ok True)
                  | ((svc1, acc1), Inl e) \<Rightarrow>
                      if sn_fails env Last_commit then ((svc1, accs, qs), Raise (OperationalError []))
                      else ((svc1, commit_account (ss_zone svc) 1 acc acc1 (accs, qs)), Ok False)))"

definition kill_monitors :: "nat \<Rightarrow> sync_service \<Rightarrow> sync_service" where
  "kill_monitors aid s =
     s\<lparr>ss_email := (ss_email s)(aid := None), ss_contact := (ss_contact s)(aid := None),
       ss_event := (ss_event s)(aid := None),
       ss_live := filter (\<lambda>(n, _). Some n \<noteq> ss_email s aid \<and> Some n \<noteq> ss_contact s aid \<and> Some n \<noteq> ss_event s aid)
         (ss_live s)\<rparr>"

definition discard_syncing :: "nat \<Rightarrow> sync_service \<Rightarrow> sync_service" where
  "discard_syncing aid s = s\<lparr>ss_syncing := ss_syncing s - {aid}\<rparr>"

text \<open>A missing account raises, although it is said to be ignored; its monitors are gone by then.\<close>

definition stop_sync_account :: "datetime \<Rightarrow> bool \<Rightarrow> nat \<Rightarrow> world \<Rightarrow> world \<times> bool res" where
  "stop_sync_account now commits aid w =
     (case w of (svc, accs, qs) \<Rightarrow>
        let killed = kill_monitors aid svc
        in case t_get acc_id accs aid of
             None \<Rightarrow> ((killed, accs, qs), Raise AttributeError)
           | Some acc \<Rightarrow>
               (case sync_stopped now (ss_id svc) acc of
                  (False, _) \<Rightarrow> ((discard_syncing aid killed, accs, qs), Ok False)
                | (True, acc1) \<Rightarrow>
                    if \<not> commits then ((killed, accs, qs), Raise (OperationalError []))
                    else ((discard_syncing aid killed, commit_account (ss_zone svc) 2 acc acc1 (accs, qs)), Ok True)))"

section \<open>Polling\<close>

definition account_ids_to_sync :: "string \<Rightarrow> account_row list \<Rightarrow> nat set" where
  "account_ids_to_sync pid accs =
     acc_id ` {a \<in> set accs. acc_sync_should_run a \<and>
       (acc_desired_sync_host a = Some pid \<and> acc_sync_host a = None \<or>
        acc_desired_sync_host a = None \<and> acc_sync_host a = Some pid \<or>
        acc_desired_sync_host a = Some pid \<and> acc_sync_host a = Some pid)}"

definition account_ids_owned :: "string \<Rightarrow> account_row list \<Rightarrow> nat set" where
  "account_ids_owned pid accs = acc_id ` {a \<in> set accs. acc_sync_host a = Some pid}"

text \<open>Database errors of one account are logged; any other exception ends the poll.\<close>

fun each_account :: "(nat \<Rightarrow> world \<Rightarrow> world \<times> bool res) \<Rightarrow> nat list \<Rightarrow> world \<Rightarrow> world \<times> unit res" where
  "each_account f [] w = (w, Ok ())"
| "each_account f (i # is) w =
     (case f i w of
        (w1, Inr _) \<Rightarrow> each_account f is w1
      | (w1, Inl (OperationalError _)) \<Rightarrow> each_account f is w1
      | (w1, Inl e) \<Rightarrow> (w1, Raise e))"

record poll_env =
  pe_start :: "nat \<Rightarrow> start_env"
  pe_now :: datetime
  pe_commits :: "nat \<Rightarrow> bool"

definition start_unless_syncing :: "poll_env \<Rightarrow> nat \<Rightarrow> world \<Rightarrow> world \<times> bool res" where
  "start_unless_syncing env i w =
     (if i \<in> ss_syncing (fst w) then (w, Ok False) else start_sync_account (pe_start env i) i w)"

definition service_poll :: "poll_env \<Rightarrow> world \<Rightarrow> world \<times> unit res" where
  "service_poll env w =
     (let pid = ss_id (fst w);
          start_accounts = account_ids_to_sync pid (fst (snd w))
      in case each_account (start_unless_syncing env) (sorted_list_of_set start_accounts) w of
           (w1, Inl e) \<Rightarrow> (w1, Raise e)
         | (w1, Inr _) \<Rightarrow>
             each_account (\<lambda>i. stop_sync_account (pe_now env) (pe_commits env i) i)
               (sorted_list_of_set (account_ids_owned pid (fst (snd w1)) - start_accounts)) w1)"

text \<open>The pending average over 15 minutes is absent when no provider of it is registered.\<close>

definition over_threshold :: "int option \<Rightarrow> bool" where
  "over_threshold avg = (case avg of None \<Rightarrow> False | Some a \<Rightarrow> a \<ge> PENDING_AVGS_THRESHOLD)"

definition poll_shared_queue :: "poll_env \<Rightarrow> bool \<Rightarrow> int option \<Rightarrow> (string \<times> json) list \<Rightarrow> world \<Rightarrow> world \<times> unit res" where
  "poll_shared_queue env stealing avg event w =
     (case w of (svc, accs, qs) \<Rightarrow>
        if stealing \<and> \<not> over_threshold avg \<and> card (ss_syncing svc) < MAX_ACCOUNTS_PER_PROCESS
        then (case map_of event ''id'' of
                None \<Rightarrow> (w, Raise KeyError)
              | Some (JNum n) \<Rightarrow>
                  if 0 \<le> n
                  then (let (w1, r) = start_sync_account (pe_start env (nat n)) (nat n) w
                        in (w1, res_bind r (\<lambda>_. Ok ())))
                  else (w, Raise KeyError)
              | Some _ \<Rightarrow> (w, Raise TypeError))
        else ((svc, accs, send_event (shared_queue_name (ss_zone svc)) event qs), Ok ()))"

function flush_queue :: "string \<Rightarrow> queues \<Rightarrow> queues" where
  "flush_queue name qs =
     (case receive_event name qs of (qs', None) \<Rightarrow> qs' | (qs', Some _) \<Rightarrow> flush_queue name qs')"
  by pat_completeness auto
termination
  by (relation "measure (\<lambda>(name, qs). length (qs name))")
    (auto simp: receive_event_def lpop_def split: list.splits)

declare flush_queue.simps [simp del]

text \<open>
  One turn of the service. \<open>arrivals\<close> is what the queues hold when the blocking pop returns;
  without an event it goes on waiting, here for the rest of the run (\<open>None\<close>).
\<close>

definition service_run ::
  "poll_env \<Rightarrow> poll_env \<Rightarrow> bool \<Rightarrow> int option \<Rightarrow> (queues \<Rightarrow> queues) \<Rightarrow> world \<Rightarrow> world \<times> unit res option" where
  "service_run env env2 stealing avg arrivals w =
     (case service_poll env w of
        (w1, Inl e) \<Rightarrow> (w1, Some (Raise e))
      | ((svc, accs, qs), Inr _) \<Rightarrow>
          (case group_receive_event [shared_queue_name (ss_zone svc), private_queue_name (ss_id svc)] (arrivals qs) of
             (qs1, None) \<Rightarrow> ((svc, accs, qs1), None)
           | (qs1, Some event) \<Rightarrow>
               (let (w2, r) =
                  (if map_of event ''queue_name'' = Some (JStr (shared_queue_name (ss_zone svc)))
                   then poll_shared_queue env2 stealing avg event (svc, accs, qs1)
                   else service_poll env2 (svc, accs, flush_queue (private_queue_name (ss_id svc)) qs1))
                in (w2, Some r))))"

end
