(* ===== verification/Service_Proofs.thy ===== *)
theory Service_Proofs
  imports Sync_Service
begin

text \<open>
  Several sync services on one database. The steps are the starts and stops of any process for
  any account, changes of the accounts by others, and crashes. An account's monitors run in at most
  one process, as long as no start fails half way; a start that does leaves a monitor nobody owns.
\<close>

section \<open>Hosts\<close>

definition host_of :: "account_row list \<Rightarrow> nat \<Rightarrow> string option" where
  "host_of accs i = (case t_get acc_id accs i of None \<Rightarrow> None | Some a \<Rightarrow> acc_sync_host a)"

lemma host_of_put:
  assumes "t_inv acc_id accs" and "t_get acc_id accs i = Some a" and "acc_id b = i"
  shows "host_of (t_put acc_id accs b) j = (if j = i then acc_sync_host b else host_of accs j)"
  using assms by (simp add: host_of_def accs.get_put)

lemma commit_account_accs [simp]: "fst (commit_account z n old new s) = t_put acc_id (fst s) new"
  by (simp add: commit_account_def)

section \<open>One service\<close>

definition monitors_of :: "sync_service \<Rightarrow> nat \<Rightarrow> nat option set" where
  "monitors_of s i = {ss_email s i, ss_contact s i, ss_event s i}"

text \<open>Every live monitor is of an account that syncs, and the service can find it to kill it.\<close>

definition service_ok :: "sync_service \<Rightarrow> bool" where
  "service_ok s \<longleftrightarrow> (\<forall>(n, i)\<in>set (ss_live s). i \<in> ss_syncing s \<and> Some n \<in> monitors_of s i)"

text \<open>A start that can only fail before anything runs.\<close>

definition clean_start :: "start_env \<Rightarrow> bool" where
  "clean_start env \<longleftrightarrow> \<not> sn_fails env Contact_monitor \<and> \<not> sn_fails env Event_monitor \<and>
     \<not> sn_fails env First_commit \<and> (\<forall>p. sn_info env p \<noteq> None)"

lemmas start_defs = begin_sync_def start_email_def start_contacts_def start_events_def mark_started_def spawn_def
  st_bind_def

text \<open>What every stage of a start keeps.\<close>

definition same_start :: "sync_service \<Rightarrow> account_row \<Rightarrow> sync_service \<times> account_row \<Rightarrow> bool" where
  "same_start svc acc s \<longleftrightarrow> (case s of (s, a) \<Rightarrow>
     acc_id a = acc_id acc \<and> acc_sync_host a = Some (ss_id svc) \<and> ss_id s = ss_id svc \<and> ss_zone s = ss_zone svc \<and>
     acc_sync_should_run a = acc_sync_should_run acc \<and> acc_desired_sync_host a = acc_desired_sync_host acc)"

lemma stages_keep [inv_intros]:
  "st_keeps (same_start svc acc) (start_email env)" "st_keeps (same_start svc acc) (start_contacts env c)"
  "st_keeps (same_start svc acc) (start_events env c)" "st_keeps (same_start svc acc) (mark_started env)"
  by (rule st_keepsI; auto simp: same_start_def start_email_def start_contacts_def start_events_def mark_started_def
      spawn_def sync_started_def Let_def split: prod.splits)+

lemma begin_sync_keeps:
  assumes "begin_sync env (svc, acc) = ((svc1, acc1), r)"
  shows "acc_id acc1 = acc_id acc" "acc_sync_host acc1 = Some (ss_id svc)" "ss_id svc1 = ss_id svc"
    "ss_zone svc1 = ss_zone svc" "acc_sync_should_run acc1 = acc_sync_should_run acc"
    "acc_desired_sync_host acc1 = acc_desired_sync_host acc"
proof -
  let ?rest = "\<lambda>_. case sn_info env (acc_provider acc) of
       None \<Rightarrow> st_raise OtherException
     | Some (has_contacts, has_events) \<Rightarrow>
         st_bind (start_contacts env has_contacts) (\<lambda>_. st_bind (start_events env has_events) (\<lambda>_. mark_started env))"
  have "st_keeps (same_start svc acc) (st_bind (start_email env) ?rest)"
    by (auto intro!: inv_intros split: option.split)
  moreover have "same_start svc acc (svc, acc\<lparr>acc_sync_host := Some (ss_id svc)\<rparr>)" by (simp add: same_start_def)
  ultimately have "same_start svc acc (svc1, acc1)"
    using assms by (auto simp: begin_sync_def dest: st_keepsD)
  then show "acc_id acc1 = acc_id acc" "acc_sync_host acc1 = Some (ss_id svc)" "ss_id svc1 = ss_id svc"
    "ss_zone svc1 = ss_zone svc" "acc_sync_should_run acc1 = acc_sync_should_run acc"
    "acc_desired_sync_host acc1 = acc_desired_sync_host acc"
    by (simp_all add: same_start_def)
qed

lemma begin_sync_failed:
  assumes "begin_sync env (svc, acc) = ((svc1, acc1), Inl e)" and "clean_start env"
  shows "svc1 = svc"
proof -
  obtain x where "sn_info env (acc_provider acc) = Some x"
    using assms(2) unfolding clean_start_def by (meson option.exhaust)
  with assms show ?thesis by (auto simp: start_defs clean_start_def split: if_split_asm prod.splits)
qed

lemma begin_sync_started:
  assumes "begin_sync env (svc, acc) = ((svc1, acc1), Inr u)" and "service_ok svc" and "acc_id acc \<notin> ss_syncing svc"
  shows "ss_syncing svc1 = insert (acc_id acc) (ss_syncing svc)" and "service_ok svc1"
proof -
  let ?i = "acc_id acc"
  have none: "i \<noteq> ?i" if "(n, i) \<in> set (ss_live svc)" for n i
    using assms(2,3) that by (auto simp: service_ok_def)
  have ok: "\<forall>(n, i)\<in>set (ss_live svc). i \<in> ss_syncing svc \<and> Some n \<in> monitors_of svc i"
    using assms(2) by (simp add: service_ok_def)
  show "ss_syncing svc1 = insert ?i (ss_syncing svc)"
    using assms(1) by (auto simp: start_defs split: if_split_asm option.splits prod.splits)
  have dicts: "j \<noteq> ?i \<Longrightarrow> monitors_of svc1 j = monitors_of svc j"
    and live: "(n, j) \<in> set (ss_live svc1) \<Longrightarrow> (n, j) \<in> set (ss_live svc) \<or> j = ?i \<and> Some n \<in> monitors_of svc1 ?i" for n j
    using assms(1)
    by (auto simp: start_defs monitors_of_def split: if_split_asm option.splits prod.splits)
  show "service_ok svc1"
    unfolding service_ok_def \<open>ss_syncing svc1 = insert ?i (ss_syncing svc)\<close>
    using live dicts ok none by (fastforce simp: case_prod_beta)
qed

lemma kill_monitors_ok:
  assumes "service_ok s"
  shows "service_ok (kill_monitors i s)" and "(n, i) \<notin> set (ss_live (kill_monitors i s))"
  using assms by (force simp: service_ok_def kill_monitors_def monitors_of_def)+

lemma discard_ok:
  assumes "service_ok s"
  shows "service_ok (discard_syncing i (kill_monitors i s))"
proof -
  have "j \<noteq> i" if "(n, j) \<in> set (ss_live (kill_monitors i s))" for n j
    using kill_monitors_ok(2) [OF assms, of n i] that by auto
  then show ?thesis
    using kill_monitors_ok(1) [OF assms, of i]
    by (fastforce simp: service_ok_def discard_syncing_def monitors_of_def)
qed

section \<open>The cluster\<close>

type_synonym cluster = "account_row list \<times> queues \<times> (string \<Rightarrow> sync_service)"

definition fresh_service :: "string \<Rightarrow> string \<Rightarrow> sync_service" where
  "fresh_service zone p = \<lparr>ss_id = p, ss_zone = zone, ss_syncing = {}, ss_email = Map.empty, ss_contact = Map.empty,
     ss_event = Map.empty, ss_live = [], ss_next = 0\<rparr>"

inductive cl_step :: "cluster \<Rightarrow> cluster \<Rightarrow> bool" where
  start: "clean_start env \<Longrightarrow> start_sync_account env i (svcs p, accs, qs) = ((svc', accs', qs'), r) \<Longrightarrow>
    cl_step (accs, qs, svcs) (accs', qs', svcs(p := svc'))"
| stop: "stop_sync_account now commits i (svcs p, accs, qs) = ((svc', accs', qs'), r) \<Longrightarrow>
    cl_step (accs, qs, svcs) (accs', qs', svcs(p := svc'))"
| others: "t_inv acc_id accs' \<Longrightarrow> \<forall>i. host_of accs' i = host_of accs i \<Longrightarrow> cl_step (accs, qs, svcs) (accs', qs', svcs)"
| crash: "cl_step (accs, qs, svcs) (accs, qs, svcs(p := fresh_service zone p))"

inductive_cases cl_stepE: "cl_step (accs, qs, svcs) c"

definition cl_init :: "cluster \<Rightarrow> bool" where
  "cl_init c \<longleftrightarrow> (case c of (accs, qs, svcs) \<Rightarrow> t_inv acc_id accs \<and> (\<forall>p. \<exists>z. svcs p = fresh_service z p))"

definition cl_inv :: "cluster \<Rightarrow> bool" where
  "cl_inv c \<longleftrightarrow> (case c of (accs, qs, svcs) \<Rightarrow> t_inv acc_id accs \<and>
     (\<forall>p. ss_id (svcs p) = p \<and> service_ok (svcs p) \<and> (\<forall>i\<in>ss_syncing (svcs p). host_of accs i = Some p)))"

lemma cl_invI:
  assumes "cl_inv (accs, qs, svcs)" and "t_inv acc_id accs'" and "ss_id svc' = p" and "service_ok svc'"
    and "\<And>i. i \<in> ss_syncing svc' \<Longrightarrow> host_of accs' i = Some p"
    and "\<And>q i. q \<noteq> p \<Longrightarrow> i \<in> ss_syncing (svcs q) \<Longrightarrow> host_of accs' i = Some q"
  shows "cl_inv (accs', qs', svcs(p := svc'))"
  using assms by (auto simp: cl_inv_def)

lemma start_sync_inv:
  assumes inv: "cl_inv (accs, qs, svcs)" and clean: "clean_start env"
    and run: "start_sync_account env i (svcs p, accs, qs) = ((svc', accs', qs'), r)"
  shows "cl_inv (accs', qs', svcs(p := svc'))"
proof (cases "\<exists>acc. t_get acc_id accs i = Some acc \<and> may_start (svcs p) acc")
  case False
  with run have "svc' = svcs p" "accs' = accs"
    by (auto simp: start_sync_account_def split: option.splits if_split_asm)
  with inv show ?thesis by (auto simp: cl_inv_def)
next
  case True
  then obtain acc where acc: "t_get acc_id accs i = Some acc" "may_start (svcs p) acc" by blast
  have I: "t_inv acc_id accs" "ss_id (svcs p) = p" "service_ok (svcs p)"
    "\<And>q j. j \<in> ss_syncing (svcs q) \<Longrightarrow> host_of accs j = Some q" "\<And>q. ss_id (svcs q) = q"
    using inv by (auto simp: cl_inv_def)
  have id: "acc_id acc = i" using acc(1) t_get_SomeD by metis
  have host: "host_of accs i = None \<or> host_of accs i = Some p"
    using acc I(2) by (auto simp: host_of_def may_start_def)
  obtain svc1 acc1 r1 where b: "begin_sync env (svcs p, acc) = ((svc1, acc1), r1)" by (metis prod.collapse)
  note keep = begin_sync_keeps [OF b]
  have put: "host_of (t_put acc_id accs acc1) j = (if j = i then Some p else host_of accs j)" for j
    using host_of_put [OF I(1) acc(1)] keep id I(2) by simp
  have inv1: "t_inv acc_id (t_put acc_id accs acc1)" using I(1) by (rule accs.inv_put)
  have others: "host_of (t_put acc_id accs acc1) j = Some q" if "q \<noteq> p" "j \<in> ss_syncing (svcs q)" for q j
    using I(4) [OF that(2)] host that(1) put by auto
  show ?thesis
  proof (cases r1)
    case (Inl e)
    with b clean have same: "svc1 = svcs p" by (blast intro: begin_sync_failed)
    have "svc' = svcs p \<and> (accs' = accs \<or> accs' = t_put acc_id accs acc1)"
      using run acc b Inl same by (auto simp: start_sync_account_def commit_account_def split: if_split_asm)
    then show ?thesis
    proof (elim conjE disjE)
      assume "svc' = svcs p" "accs' = t_put acc_id accs acc1"
      then show ?thesis using inv inv1 I others put by (intro cl_invI [OF inv]) auto
    qed (use inv in \<open>auto simp: cl_inv_def\<close>)
  next
    case (Inr u)
    have new: "acc_id acc \<notin> ss_syncing (svcs p)" using acc(2) by (simp add: may_start_def)
    note st = begin_sync_started [OF b [unfolded Inr] I(3) new]
    have "svc' = svc1" "accs' = t_put acc_id accs acc1"
      using run acc b Inr clean by (auto simp: start_sync_account_def commit_account_def clean_start_def)
    with st keep id put inv1 I others show ?thesis by (intro cl_invI [OF inv]) auto
  qed
qed

lemma stop_sync_inv:
  assumes inv: "cl_inv (accs, qs, svcs)"
    and run: "stop_sync_account now commits i (svcs p, accs, qs) = ((svc', accs', qs'), r)"
  shows "cl_inv (accs', qs', svcs(p := svc'))"
proof -
  have I: "t_inv acc_id accs" "ss_id (svcs p) = p" "service_ok (svcs p)"
    "\<And>q j. j \<in> ss_syncing (svcs q) \<Longrightarrow> host_of accs j = Some q"
    using inv by (auto simp: cl_inv_def)
  let ?killed = "kill_monitors i (svcs p)"
  have K: "ss_id ?killed = p" "ss_syncing ?killed = ss_syncing (svcs p)" "service_ok ?killed"
    "service_ok (discard_syncing i ?killed)" "ss_id (discard_syncing i ?killed) = p"
    "ss_syncing (discard_syncing i ?killed) = ss_syncing (svcs p) - {i}"
    using I(2,3) kill_monitors_ok discard_ok by (simp_all add: kill_monitors_def discard_syncing_def)
  consider (same) "accs' = accs" "svc' = ?killed \<or> svc' = discard_syncing i ?killed"
    | (stopped) acc where "t_get acc_id accs i = Some acc" "acc_sync_host acc = Some p"
        "svc' = discard_syncing i ?killed" "accs' = t_put acc_id accs (snd (sync_stopped now p acc))"
    using run I(2)
    by (auto simp: stop_sync_account_def sync_stopped_def commit_account_def Let_def split: option.splits if_split_asm)
  then show ?thesis
  proof cases
    case same
    then show ?thesis using I K by (intro cl_invI [OF inv]) auto
  next
    case stopped
    let ?acc = "snd (sync_stopped now p acc)"
    have id: "acc_id ?acc = i" using stopped(1) t_get_SomeD sync_stopped_keeps(1) by metis
    have none: "acc_sync_host ?acc = None" using stopped(2) by (simp add: sync_stopped_def)
    have put: "host_of accs' j = (if j = i then None else host_of accs j)" for j
      using host_of_put [OF I(1) stopped(1) id] none stopped(4) by simp
    have here: "host_of accs i = Some p" using stopped(1,2) by (simp add: host_of_def)
    have "t_inv acc_id accs'" using I(1) stopped(4) by (simp add: accs.inv_put)
    moreover have "host_of accs' j = Some q" if "q \<noteq> p" "j \<in> ss_syncing (svcs q)" for q j
      using I(4) [OF that(2)] here that(1) put by auto
    ultimately show ?thesis using I K stopped(3) put by (intro cl_invI [OF inv]) auto
  qed
qed

interpretation cluster: step_system cl_init cl_step cl_inv
proof unfold_locales
  show "cl_inv s" if "cl_init s" for s
  proof -
    obtain accs qs svcs where s: "s = (accs, qs, svcs)" by (metis prod_cases3)
    have "ss_id (svcs p) = p \<and> service_ok (svcs p) \<and> ss_syncing (svcs p) = {}" for p
    proof -
      have "\<exists>z. svcs p = fresh_service z p" using that s by (simp add: cl_init_def)
      then obtain z where "svcs p = fresh_service z p" ..
      then show ?thesis by (simp add: fresh_service_def service_ok_def)
    qed
    with that s show ?thesis by (simp add: cl_inv_def cl_init_def)
  qed
  show "cl_inv t" if "cl_inv s" and step: "cl_step s t" for s t
  proof -
    obtain accs qs svcs where s: "s = (accs, qs, svcs)" by (metis prod_cases3)
    show ?thesis
      using step [unfolded s]
    proof (rule cl_stepE)
      fix env i p svc' accs' qs' r
      assume "t = (accs', qs', svcs(p := svc'))" "clean_start env"
        "start_sync_account env i (svcs p, accs, qs) = ((svc', accs', qs'), r)"
      then show ?thesis using that(1) s by (blast intro: start_sync_inv)
    next
      fix now commits i p svc' accs' qs' r
      assume "t = (accs', qs', svcs(p := svc'))"
        "stop_sync_account now commits i (svcs p, accs, qs) = ((svc', accs', qs'), r)"
      then show ?thesis using that(1) s by (blast intro: stop_sync_inv)
    next
      fix accs' qs'
      assume "t = (accs', qs', svcs)" "t_inv acc_id accs'" "\<forall>i. host_of accs' i = host_of accs i"
      then show ?thesis using that(1) s by (simp add: cl_inv_def)
    next
      fix p zone
      assume "t = (accs, qs, svcs(p := fresh_service zone p))"
      then show ?thesis using that(1) s by (auto simp: cl_inv_def service_ok_def fresh_service_def)
    qed
  qed
qed

text \<open>Monitors of one account run in one process at most.\<close>

lemma one_process:
  assumes "cl_inv (accs, qs, svcs)" and "(m, i) \<in> set (ss_live (svcs p))" and "(n, i) \<in> set (ss_live (svcs q))"
  shows "p = q"
proof -
  have "i \<in> ss_syncing (svcs p)" "i \<in> ss_syncing (svcs q)"
    using assms by (auto simp: cl_inv_def service_ok_def)
  moreover have "host_of accs i = Some r" if "i \<in> ss_syncing (svcs r)" for r
    using assms(1) that by (simp add: cl_inv_def)
  ultimately have "host_of accs i = Some p" "host_of accs i = Some q" by blast+
  then show ?thesis by simp
qed

end
