(* ===== verification/Poll_Proofs.thy ===== *)
theory Poll_Proofs
  imports Service_Proofs
begin

text \<open>
  A poll of a sync service brings the accounts of its process to what their rows ask for, when
  nothing fails: exactly the wanted accounts sync and are owned afterwards.
\<close>

definition no_failure :: "poll_env \<Rightarrow> bool" where
  "no_failure env \<longleftrightarrow> (\<forall>i. pe_commits env i \<and> (\<forall>p. sn_fails (pe_start env i) p = False) \<and>
     (\<forall>p. sn_info (pe_start env i) p \<noteq> None))"

text \<open>What a loop over accounts does to the service and to the owners.\<close>

definition world_to :: "world \<Rightarrow> nat set \<Rightarrow> (nat \<Rightarrow> string option) \<Rightarrow> world \<Rightarrow> bool" where
  "world_to w S h w' \<longleftrightarrow> (case (w, w') of ((svc, accs, qs), (svc', accs', qs')) \<Rightarrow>
     ss_id svc' = ss_id svc \<and> ss_syncing svc' = S \<and> (\<forall>j. host_of accs' j = h j) \<and>
     t_inv acc_id accs' \<and> (\<forall>j. t_get acc_id accs' j = None \<longleftrightarrow> t_get acc_id accs j = None))"

lemma begin_sync_succeeds:
  assumes "\<And>p. \<not> sn_fails env p" and "\<And>p. sn_info env p \<noteq> None"
    and "begin_sync env (svc, acc) = ((svc1, acc1), r)"
  shows "r = Ok ()" and "ss_syncing svc1 = insert (acc_id acc) (ss_syncing svc)"
proof -
  obtain x where "sn_info env (acc_provider acc) = Some x" using assms(2) by (meson option.exhaust)
  with assms(1,3) show "r = Ok ()" "ss_syncing svc1 = insert (acc_id acc) (ss_syncing svc)"
    by (auto simp: start_defs split: if_split_asm prod.splits)
qed

text \<open>An account the service may start, or runs already.\<close>

definition startable :: "sync_service \<Rightarrow> account_row list \<Rightarrow> nat \<Rightarrow> bool" where
  "startable svc accs i \<longleftrightarrow> (\<exists>acc. t_get acc_id accs i = Some acc \<and> acc_sync_should_run acc \<and>
     (acc_desired_sync_host acc = None \<or> acc_desired_sync_host acc = Some (ss_id svc)) \<and>
     (acc_sync_host acc = None \<or> acc_sync_host acc = Some (ss_id svc)) \<and>
     (i \<in> ss_syncing svc \<longrightarrow> acc_sync_host acc = Some (ss_id svc)))"

lemma start_one:
  assumes "no_failure env" and "t_inv acc_id accs" and "startable svc accs i"
    and run: "start_unless_syncing env i (svc, accs, qs) = (w', r)"
  shows "r \<noteq> Inl e" and "world_to (svc, accs, qs) (insert i (ss_syncing svc)) ((host_of accs)(i := Some (ss_id svc))) w'"
    and "startable svc accs j \<Longrightarrow> startable (fst w') (fst (snd w')) j"
proof -
  obtain acc where acc: "t_get acc_id accs i = Some acc" "acc_sync_should_run acc"
      "acc_desired_sync_host acc = None \<or> acc_desired_sync_host acc = Some (ss_id svc)"
      "acc_sync_host acc = None \<or> acc_sync_host acc = Some (ss_id svc)"
      "i \<in> ss_syncing svc \<longrightarrow> acc_sync_host acc = Some (ss_id svc)"
    using assms(3) by (auto simp: startable_def)
  have id: "acc_id acc = i" using acc(1) t_get_SomeD by metis
  have "(\<forall>e. r \<noteq> Inl e) \<and> world_to (svc, accs, qs) (insert i (ss_syncing svc)) ((host_of accs)(i := Some (ss_id svc))) w' \<and>
    (startable svc accs j \<longrightarrow> startable (fst w') (fst (snd w')) j)"
  proof (cases "i \<in> ss_syncing svc")
    case True
    then have "host_of accs i = Some (ss_id svc)" using acc by (simp add: host_of_def)
    with True run assms(2) show ?thesis
      by (auto simp: start_unless_syncing_def world_to_def insert_absorb)
  next
    case False
    obtain svc1 acc1 r1 where b: "begin_sync (pe_start env i) (svc, acc) = ((svc1, acc1), r1)" by (metis prod.collapse)
    note keep = begin_sync_keeps [OF b]
    have ok: "r1 = Ok ()" "ss_syncing svc1 = insert i (ss_syncing svc)"
      using begin_sync_succeeds [OF _ _ b] assms(1) id by (simp_all add: no_failure_def)
    have "may_start svc acc" using acc False id by (simp add: may_start_def)
    with run acc b ok False assms(1) have w: "r = Ok True" "fst w' = svc1" "fst (snd w') = t_put acc_id accs acc1"
      by (auto simp: start_unless_syncing_def start_sync_account_def no_failure_def)
    have put: "t_get acc_id (t_put acc_id accs acc1) k = (if k = i then Some acc1 else t_get acc_id accs k)" for k
      using accs.get_put [OF assms(2)] keep(1) id acc(1) by auto
    have "startable svc1 (t_put acc_id accs acc1) j" if "startable svc accs j"
      using that acc keep ok(2) put by (auto simp: startable_def)
    moreover have "host_of (t_put acc_id accs acc1) k = ((host_of accs)(i := Some (ss_id svc))) k" for k
      using put keep(2) by (simp add: host_of_def)
    moreover have "t_inv acc_id (t_put acc_id accs acc1)" using assms(2) by (rule accs.inv_put)
    ultimately show ?thesis
      using w keep(3) ok(2) put acc(1) by (cases w') (auto simp: world_to_def)
  qed
  then show "r \<noteq> Inl e" "world_to (svc, accs, qs) (insert i (ss_syncing svc)) ((host_of accs)(i := Some (ss_id svc))) w'"
    "startable svc accs j \<Longrightarrow> startable (fst w') (fst (snd w')) j" by blast+
qed

lemma start_all:
  assumes "no_failure env" and "t_inv acc_id accs" and "\<forall>i\<in>set is. startable svc accs i"
  shows "\<exists>w'. each_account (start_unless_syncing env) is (svc, accs, qs) = (w', Ok ()) \<and>
    world_to (svc, accs, qs) (ss_syncing svc \<union> set is)
      (\<lambda>j. if j \<in> set is then Some (ss_id svc) else host_of accs j) w'"
  using assms(2,3)
proof (induction "is" arbitrary: svc accs qs)
  case Nil
  then show ?case by (simp add: world_to_def)
next
  case (Cons i "is")
  obtain svc1 accs1 qs1 r where f: "start_unless_syncing env i (svc, accs, qs) = ((svc1, accs1, qs1), r)"
    by (metis prod.collapse)
  have "startable svc accs i" using Cons.prems(2) by simp
  note one = start_one [OF assms(1) Cons.prems(1) this f]
  then obtain b where r: "r = Inr b" by (cases r) auto
  have W: "ss_id svc1 = ss_id svc" "ss_syncing svc1 = insert i (ss_syncing svc)"
    "\<And>j. host_of accs1 j = ((host_of accs)(i := Some (ss_id svc))) j" "t_inv acc_id accs1"
    "\<And>j. t_get acc_id accs1 j = None \<longleftrightarrow> t_get acc_id accs j = None"
    using one(2) by (auto simp: world_to_def)
  have "\<forall>j\<in>set is. startable svc1 accs1 j" using one(3) Cons.prems(2) by auto
  from Cons.IH [OF W(4) this, of qs1] obtain w' where
    w: "each_account (start_unless_syncing env) is (svc1, accs1, qs1) = (w', Ok ())"
      "world_to (svc1, accs1, qs1) (ss_syncing svc1 \<union> set is)
        (\<lambda>j. if j \<in> set is then Some (ss_id svc1) else host_of accs1 j) w'" by blast
  from w(2) W have "world_to (svc, accs, qs) (ss_syncing svc \<union> set (i # is))
        (\<lambda>j. if j \<in> set (i # is) then Some (ss_id svc) else host_of accs j) w'"
    by (cases w') (auto simp: world_to_def)
  with w(1) f r show ?case by simp
qed

lemma stop_one:
  assumes "t_inv acc_id accs" and "host_of accs i = Some (ss_id svc)"
    and run: "stop_sync_account now True i (svc, accs, qs) = (w', r)"
  shows "r = Ok True" and "world_to (svc, accs, qs) (ss_syncing svc - {i}) ((host_of accs)(i := None)) w'"
proof -
  obtain acc where acc: "t_get acc_id accs i = Some acc" "acc_sync_host acc = Some (ss_id svc)"
    using assms(2) by (auto simp: host_of_def split: option.splits)
  have "acc_id acc = i" using acc(1) t_get_SomeD by metis
  then obtain acc1 where st: "sync_stopped now (ss_id svc) acc = (True, acc1)" "acc_sync_host acc1 = None"
      and id: "acc_id acc1 = i"
    using acc(2) by (simp add: sync_stopped_def)
  obtain qs' where w: "r = Ok True"
      "w' = (discard_syncing i (kill_monitors i svc), t_put acc_id accs acc1, qs')"
    using run acc(1) st(1) by (auto simp: stop_sync_account_def commit_account_def Let_def)
  have "host_of (t_put acc_id accs acc1) j = ((host_of accs)(i := None)) j" for j
    using host_of_put [OF assms(1) acc(1) id] st(2) by simp
  moreover have "t_inv acc_id (t_put acc_id accs acc1)" using assms(1) by (rule accs.inv_put)
  moreover have "t_get acc_id (t_put acc_id accs acc1) j = None \<longleftrightarrow> t_get acc_id accs j = None" for j
    using accs.get_put [OF assms(1)] id acc(1) by simp
  ultimately show "r = Ok True" "world_to (svc, accs, qs) (ss_syncing svc - {i}) ((host_of accs)(i := None)) w'"
    using w by (auto simp: world_to_def discard_syncing_def kill_monitors_def)
qed

lemma stop_all:
  assumes "t_inv acc_id accs" and "\<forall>i\<in>set is. host_of accs i = Some (ss_id svc)" and "distinct is"
    and "\<And>i. pe_commits env i"
  shows "\<exists>w'. each_account (\<lambda>i. stop_sync_account now (pe_commits env i) i) is (svc, accs, qs) = (w', Ok ()) \<and>
    world_to (svc, accs, qs) (ss_syncing svc - set is) (\<lambda>j. if j \<in> set is then None else host_of accs j) w'"
  using assms(1-3)
proof (induction "is" arbitrary: svc accs qs)
  case Nil
  then show ?case by (simp add: world_to_def)
next
  case (Cons i "is")
  obtain svc1 accs1 qs1 r where f: "stop_sync_account now True i (svc, accs, qs) = ((svc1, accs1, qs1), r)"
    by (metis prod.collapse)
  have "host_of accs i = Some (ss_id svc)" using Cons.prems(2) by simp
  note one = stop_one [OF Cons.prems(1) this f]
  have W: "ss_id svc1 = ss_id svc" "ss_syncing svc1 = ss_syncing svc - {i}"
    "\<And>j. host_of accs1 j = ((host_of accs)(i := None)) j" "t_inv acc_id accs1"
    "\<And>j. t_get acc_id accs1 j = None \<longleftrightarrow> t_get acc_id accs j = None"
    using one(2) by (auto simp: world_to_def)
  have hosts: "\<forall>j\<in>set is. host_of accs1 j = Some (ss_id svc1)" using W(1,3) Cons.prems(2,3) by auto
  have dist: "distinct is" using Cons.prems(3) by simp
  from Cons.IH [OF W(4) hosts dist, of qs1] obtain w' where
    w: "each_account (\<lambda>i. stop_sync_account now (pe_commits env i) i) is (svc1, accs1, qs1) = (w', Ok ())"
      "world_to (svc1, accs1, qs1) (ss_syncing svc1 - set is) (\<lambda>j. if j \<in> set is then None else host_of accs1 j) w'"
    by blast
  from w(2) W have "world_to (svc, accs, qs) (ss_syncing svc - set (i # is))
      (\<lambda>j. if j \<in> set (i # is) then None else host_of accs j) w'"
    by (cases w') (auto simp: world_to_def)
  with w(1) f one(1) assms(4) show ?case by simp
qed

section \<open>A poll\<close>

lemma rows_get: "t_inv acc_id accs \<Longrightarrow> a \<in> set accs \<longleftrightarrow> t_get acc_id accs (acc_id a) = Some a"
  by (metis t_get_SomeD t_get_mem)

lemma ids_owned_iff:
  assumes "t_inv acc_id accs"
  shows "i \<in> account_ids_owned pid accs \<longleftrightarrow> host_of accs i = Some pid"
proof
  assume "i \<in> account_ids_owned pid accs"
  then show "host_of accs i = Some pid"
    using t_get_mem [OF assms] by (auto simp: account_ids_owned_def host_of_def)
next
  assume "host_of accs i = Some pid"
  then obtain a where a: "t_get acc_id accs i = Some a" "acc_sync_host a = Some pid"
    by (auto simp: host_of_def split: option.splits)
  from t_get_SomeD [OF a(1)] a(2) show "i \<in> account_ids_owned pid accs" by (auto simp: account_ids_owned_def)
qed

lemma wanted_startable:
  assumes "t_inv acc_id accs" and "i \<in> account_ids_to_sync (ss_id svc) accs"
    and "\<forall>i\<in>ss_syncing svc. host_of accs i = Some (ss_id svc)"
  shows "startable svc accs i"
proof -
  obtain a where a: "a \<in> set accs" "acc_id a = i" "acc_sync_should_run a"
    "acc_desired_sync_host a = Some (ss_id svc) \<and> acc_sync_host a = None \<or>
     acc_desired_sync_host a = None \<and> acc_sync_host a = Some (ss_id svc) \<or>
     acc_desired_sync_host a = Some (ss_id svc) \<and> acc_sync_host a = Some (ss_id svc)"
    using assms(2) by (auto simp: account_ids_to_sync_def)
  have "t_get acc_id accs i = Some a" using rows_get [OF assms(1)] a(1,2) by metis
  with a(3,4) assms(3) show ?thesis by (auto simp: startable_def host_of_def)
qed

lemma poll_result:
  assumes "t_inv acc_id accs" and "no_failure env"
    and "\<forall>i\<in>ss_syncing svc. host_of accs i = Some (ss_id svc)"
    and poll: "service_poll env (svc, accs, qs) = ((svc', accs', qs'), r)"
    and W: "W = account_ids_to_sync (ss_id svc) accs"
  shows "r = Ok ()" and "ss_syncing svc' = W" and "host_of accs' i = Some (ss_id svc) \<longleftrightarrow> i \<in> W"
proof -
  have fin: "finite W" by (simp add: W account_ids_to_sync_def)
  then have "\<forall>i\<in>set (sorted_list_of_set W). startable svc accs i"
    using wanted_startable [OF assms(1) _ assms(3)] W by simp
  from start_all [OF assms(2,1) this, of qs] obtain w1 where
    w1: "each_account (start_unless_syncing env) (sorted_list_of_set W) (svc, accs, qs) = (w1, Ok ())"
      "world_to (svc, accs, qs) (ss_syncing svc \<union> W) (\<lambda>j. if j \<in> W then Some (ss_id svc) else host_of accs j) w1"
    unfolding set_sorted_list_of_set [OF fin] by blast
  obtain svc1 accs1 qs1 where "w1 = (svc1, accs1, qs1)" by (metis prod_cases3)
  note s = w1 [unfolded this]
  have S: "ss_id svc1 = ss_id svc" "ss_syncing svc1 = ss_syncing svc \<union> W" "t_inv acc_id accs1"
    "\<And>j. host_of accs1 j = (if j \<in> W then Some (ss_id svc) else host_of accs j)"
    using s(2) by (auto simp: world_to_def)
  let ?D = "account_ids_owned (ss_id svc) accs1 - W"
  have finD: "finite ?D" by (simp add: account_ids_owned_def)
  have D: "i \<in> ?D \<longleftrightarrow> i \<notin> W \<and> host_of accs i = Some (ss_id svc)" for i
    using ids_owned_iff [OF S(3)] S(4) by simp
  have c: "pe_commits env i" for i using assms(2) by (simp add: no_failure_def)
  have "\<forall>i\<in>set (sorted_list_of_set ?D). host_of accs1 i = Some (ss_id svc1)"
    using finD D S(1,4) by (simp del: Diff_iff)
  from stop_all [where env = env and now = "pe_now env" and qs = qs1, OF S(3) this distinct_sorted_list_of_set c]
  obtain w2 where
    t: "each_account (\<lambda>i. stop_sync_account (pe_now env) (pe_commits env i) i) (sorted_list_of_set ?D) (svc1, accs1, qs1)
          = (w2, Ok ())"
      "world_to (svc1, accs1, qs1) (ss_syncing svc1 - ?D) (\<lambda>j. if j \<in> ?D then None else host_of accs1 j) w2"
    unfolding set_sorted_list_of_set [OF finD] by blast
  have "((svc', accs', qs'), r) = (w2, Ok ())"
    using poll s(1) t(1) by (simp add: service_poll_def Let_def W)
  then have w2: "w2 = (svc', accs', qs')" "r = Ok ()" by simp_all
  have E: "ss_syncing svc' = ss_syncing svc1 - ?D" "\<And>j. host_of accs' j = (if j \<in> ?D then None else host_of accs1 j)"
    using t(2) w2(1) by (auto simp: world_to_def)
  show "r = Ok ()" by (rule w2(2))
  have "x \<in> ss_syncing svc' \<longleftrightarrow> x \<in> W" for x
    using E(1) S(2) D [of x] assms(3) by (auto simp del: Diff_iff simp: Diff_iff [of x "ss_syncing svc1"])
  then show "ss_syncing svc' = W" by blast
  show "host_of accs' i = Some (ss_id svc) \<longleftrightarrow> i \<in> W"
    using E(2) [of i] S(4) [of i] D [of i] by (cases "i \<in> ?D") (auto split: if_split_asm)
qed

section \<open>Events of a handover\<close>

text \<open>The queue whose reader has to act on an account, and the event it finds there.\<close>

definition wanted_event :: "string \<Rightarrow> account_row \<Rightarrow> (string \<times> migration_event) option" where
  "wanted_event zone a =
     (case acc_sync_host a of
        Some h \<Rightarrow>
          if acc_sync_should_run a \<and> (acc_desired_sync_host a = None \<or> acc_desired_sync_host a = Some h) then None
          else Some (private_queue_name h, Migrate_from (acc_id a))
      | None \<Rightarrow>
          if \<not> acc_sync_should_run a then None
          else (case acc_desired_sync_host a of
                  None \<Rightarrow> Some (shared_queue_name zone, Migrate (acc_id a))
                | Some h \<Rightarrow> Some (private_queue_name h, Migrate_to (acc_id a))))"

text \<open>Only the event to the shared queue is remembered as sent.\<close>

definition event_copies :: "nat \<Rightarrow> account_row \<Rightarrow> nat" where
  "event_copies n a = (if acc_sync_host a = None \<and> acc_desired_sync_host a = None then min n 1 else n)"

lemma payload_unqueued: "dict_pop (event_payload e) ''queue_name'' = event_payload e"
  by (cases e) (simp_all add: dict_pop_def event_payload_def)

lemma fire_pow_sent: "ls_sent_event ls \<Longrightarrow> (fire zone ^^ n) (ls, qs) = (ls, qs)"
  by (induction n) (simp_all add: fire_def send_migration_events_def)

lemma fire_listener:
  "fire zone (listener_of a, qs) =
    (case wanted_event zone a of
       None \<Rightarrow> (listener_of a, qs)
     | Some (q, e) \<Rightarrow>
         ((listener_of a)\<lparr>ls_sent_event := acc_sync_host a = None \<and> acc_desired_sync_host a = None\<rparr>,
          qs(q := qs q @ [Some (JDict (event_payload e))])))"
  by (auto simp: fire_def send_migration_events_def wanted_event_def listener_of_def update_listener_state_def
      target_name_def send_event_def payload_unqueued rpush_def split: option.split)

lemma listener_unsent: "ls_sent_event (listener_of a) = False"
  by (simp add: listener_of_def update_listener_state_def)

lemma fire_pow:
  "snd ((fire zone ^^ n) (listener_of a, qs)) =
    (case wanted_event zone a of
       None \<Rightarrow> qs
     | Some (q, e) \<Rightarrow> qs(q := qs q @ replicate (event_copies n a) (Some (JDict (event_payload e)))))"
proof (induction n arbitrary: qs)
  case 0
  have "event_copies 0 a = 0" by (simp add: event_copies_def)
  then show ?case by (auto split: option.split)
next
  case (Suc n)
  show ?case
  proof (cases "wanted_event zone a")
    case None
    then show ?thesis using Suc.IH [of qs] by (simp add: funpow_Suc_right fire_listener del: funpow.simps)
  next
    case (Some qe)
    obtain q e where qe: "qe = (q, e)" by (cases qe)
    show ?thesis
    proof (cases "acc_sync_host a = None \<and> acc_desired_sync_host a = None")
      case True
      then show ?thesis
        using Some qe by (simp add: funpow_Suc_right fire_listener fire_pow_sent event_copies_def del: funpow.simps)
    next
      case False
      then have any: "(acc_sync_host a = None \<and> acc_desired_sync_host a = None) = False" by blast
      have same: "(listener_of a)\<lparr>ls_sent_event := False\<rparr> = listener_of a"
        by (simp add: listener_of_def update_listener_state_def)
      have once: "fire zone (listener_of a, qs) = (listener_of a, qs(q := qs q @ [Some (JDict (event_payload e))]))"
        by (simp only: fire_listener Some qe option.case prod.case any same)
      have n: "event_copies m a = m" for m by (simp only: event_copies_def any if_False)
      let ?x = "Some (JDict (event_payload e))"
      let ?qs = "qs(q := qs q @ [?x])"
      have "snd ((fire zone ^^ Suc n) (listener_of a, qs)) = snd ((fire zone ^^ n) (listener_of a, ?qs))"
        by (simp only: funpow_Suc_right comp_apply once)
      also have "\<dots> = ?qs(q := ?qs q @ replicate n ?x)"
        using Suc.IH [of ?qs] by (simp only: Some qe option.case prod.case n)
      also have "\<dots> = qs(q := qs q @ replicate (Suc n) ?x)" by simp
      finally show ?thesis by (simp only: Some qe option.case prod.case n)
    qed
  qed
qed

end
