(* ===== verification/Props_Service.thy ===== *)
theory Props_Service
  imports Samples Poll_Proofs
begin

text \<open>
  The properties of the sync services that share the accounts, of the queues in Redis between
  them, and of the deferred migrations.
\<close>

section \<open>Samples\<close>

definition clean_env :: start_env where
  "clean_env = \<lparr>sn_now = 0, sn_info = (\<lambda>p. Some (True, True)), sn_fails = (\<lambda>p. False)\<rparr>"

definition sample_poll :: poll_env where
  "sample_poll = \<lparr>pe_start = (\<lambda>i. clean_env), pe_now = 0, pe_commits = (\<lambda>i. True)\<rparr>"

definition svc_a :: sync_service where "svc_a = fresh_service ''z'' ''a''"

definition svc_account :: "nat \<Rightarrow> string option \<Rightarrow> string option \<Rightarrow> account_row" where
  "svc_account i host desired = sample_account\<lparr>acc_id := i, acc_sync_host := host, acc_desired_sync_host := desired,
     acc_sync_contacts := True\<rparr>"

lemma svc_account_simps [simp]:
  "acc_id (svc_account i h d) = i" "acc_sync_host (svc_account i h d) = h" "acc_desired_sync_host (svc_account i h d) = d"
  "acc_sync_should_run (svc_account i h d)" "acc_sync_email (svc_account i h d)" "acc_sync_contacts (svc_account i h d)"
  "acc_sync_events (svc_account i h d) = False"
  by (simp_all add: svc_account_def sample_account_def)

lemmas svc_samples = clean_env_def sample_poll_def svc_a_def fresh_service_def

section \<open>The services\<close>

text \<open>
  C6: The monitors of an account run in one process only. In every state that any number of
  services reach by starting and stopping accounts, by changes of the accounts that leave the owners alone
  and by crashes, two live monitors of an account are of one process, as long as no start fails
  half way.
\<close>

theorem account_in_one_process:
  assumes "cl_init (accs0, qs0, svcs0)" and "cl_step\<^sup>*\<^sup>* (accs0, qs0, svcs0) (accs, qs, svcs)"
    and "(m, i) \<in> set (ss_live (svcs p))" and "(n, i) \<in> set (ss_live (svcs q))"
  shows "p = q"
  using cluster.reach_inv [OF assms(1,2)] assms(3,4) by (rule one_process)

definition no_events :: queues where "no_events = (\<lambda>q. [])"

theorem account_in_one_process_witness:
  "\<exists>accs qs svcs. cl_step\<^sup>*\<^sup>* ([svc_account 1 None None], no_events, fresh_service ''z'') (accs, qs, svcs) \<and>
     (1, 1) \<in> set (ss_live (svcs ''a'')) \<and> (\<forall>q n. (n, 1) \<in> set (ss_live (svcs q)) \<longrightarrow> q = ''a'')"
proof -
  let ?accs = "[svc_account 1 None None]"
  let ?svcs = "fresh_service ''z''"
  obtain svc accs qs r where run: "start_sync_account clean_env 1 (?svcs ''a'', ?accs, no_events) = ((svc, accs, qs), r)"
    by (metis prod.collapse)
  have "(1, 1) \<in> set (ss_live (fst (fst (start_sync_account clean_env 1 (?svcs ''a'', ?accs, no_events)))))"
    by (simp add: start_sync_account_def may_start_def start_defs t_get_def svc_samples)
  with run have live: "(1, 1) \<in> set (ss_live svc)" by simp
  have step: "cl_step\<^sup>*\<^sup>* (?accs, no_events, ?svcs) (accs, qs, ?svcs(''a'' := svc))"
    using cl_step.start [where svcs = ?svcs, OF _ run] by (intro r_into_rtranclp) (simp add: clean_start_def clean_env_def)
  have init: "cl_init (?accs, no_events, ?svcs)" by (auto simp: cl_init_def t_inv_def)
  have "q = ''a''" if "(n, 1) \<in> set (ss_live ((?svcs(''a'' := svc)) q))" for q n
    using account_in_one_process [OF init step that, of 1 "''a''"] live by simp
  moreover have "(1, 1) \<in> set (ss_live ((?svcs(''a'' := svc)) ''a''))" using live by simp
  ultimately show ?thesis using step by (intro exI conjI allI impI)
qed

text \<open>
  A start that fails after its first monitor has been started leaks it: the exception is
  swallowed, the account keeps the host but is not syncing, so the next start makes a second monitor, and
  stopping the account kills only that one. The first goes on syncing an account that no longer
  belongs to the process.
\<close>

theorem failed_start_leaks_monitor:
  "(let failing = clean_env\<lparr>sn_fails := (\<lambda>p. p = Contact_monitor)\<rparr>;
        w0 = (svc_a, [svc_account 1 None None], no_events);
        (w1, r1) = start_sync_account failing 1 w0;
        (w2, r2) = start_sync_account clean_env 1 w1;
        ((svc, accs, qs), r3) = stop_sync_account 0 True 1 w2
    in r1 = Ok False \<and> r2 = Ok True \<and> r3 = Ok True \<and> host_of accs 1 = None \<and> ss_syncing svc = {} \<and>
       ss_live svc = [(0, 1)])"
  by (simp add: start_sync_account_def stop_sync_account_def may_start_def start_defs t_get_def host_of_def Let_def
      sync_started_def sync_stopped_def kill_monitors_def discard_syncing_def commit_account_def t_put_def svc_samples)

text \<open>
  C7: A poll in which nothing fails brings the process to what the accounts ask for: it
  returns, the accounts it syncs are exactly those to sync, and those are exactly the accounts it owns; whatever
  it owned and must give up, it has stopped.
\<close>

theorem poll_converges:
  assumes "t_inv acc_id accs" and "no_failure env"
    and "\<forall>i\<in>ss_syncing svc. host_of accs i = Some (ss_id svc)"
    and "service_poll env (svc, accs, qs) = ((svc', accs', qs'), r)"
  shows "r = Ok () \<and> ss_syncing svc' = account_ids_to_sync (ss_id svc) accs \<and>
    {i. host_of accs' i = Some (ss_id svc)} = account_ids_to_sync (ss_id svc) accs"
  using poll_result [OF assms refl] by blast

theorem poll_converges_witness:
  "\<exists>svc accs qs. service_poll sample_poll
       (svc_a, [svc_account 1 None (Some ''a''), svc_account 2 (Some ''a'') (Some ''b''), svc_account 3 None None], no_events)
     = ((svc, accs, qs), Ok ()) \<and> ss_syncing svc = {1} \<and> {i. host_of accs i = Some ''a''} = {1}"
proof -
  let ?accs = "[svc_account 1 None (Some ''a''), svc_account 2 (Some ''a'') (Some ''b''), svc_account 3 None None]"
  obtain svc accs qs r where run: "service_poll sample_poll (svc_a, ?accs, no_events) = ((svc, accs, qs), r)"
    by (metis prod.collapse)
  have id: "ss_id svc_a = ''a''" by (simp add: svc_samples)
  have to_sync: "account_ids_to_sync ''a'' ?accs = {1}"
    unfolding account_ids_to_sync_def set_filter [symmetric] set_map [symmetric] by simp
  have "t_inv acc_id ?accs" by (simp add: t_inv_def svc_samples)
  moreover have "no_failure sample_poll" by (simp add: no_failure_def svc_samples)
  moreover have "\<forall>i\<in>ss_syncing svc_a. host_of ?accs i = Some (ss_id svc_a)" by (simp add: svc_samples)
  ultimately have "r = Ok ()" "ss_syncing svc = {1}" "{i. host_of accs i = Some ''a''} = {1}"
    using poll_converges [OF _ _ _ run] to_sync id by simp_all
  with run show ?thesis by (intro exI conjI) simp_all
qed

text \<open>
  A commit that changes who may sync an account sends its event to exactly the queue whose
  reader has to act: the owner that must give it up, the host that is wanted, or the shared queue when
  any host will do. No other queue changes. The event to the shared queue is sent once, the others by each commit of
  the session.
\<close>

theorem handover_event:
  assumes "should_send_event old new" and "commit_account zone n old new (accs, qs) = (accs', qs')"
  shows "qs' = (case wanted_event zone new of
      None \<Rightarrow> qs
    | Some (q, e) \<Rightarrow> qs(q := qs q @ replicate (event_copies n new) (Some (JDict (event_payload e)))))"
  using assms fire_pow [where zone = zone and n = n and a = new and qs = qs] by (auto simp: commit_account_def)

theorem handover_event_witness:
  "\<exists>accs qs. commit_account ''z'' 2 (svc_account 1 (Some ''a'') (Some ''b'')) (svc_account 1 None (Some ''b''))
       ([svc_account 1 (Some ''a'') (Some ''b'')], no_events) = (accs, qs) \<and>
     qs (private_queue_name ''b'') = replicate 2 (Some (JDict (event_payload (Migrate_to 1))))"
proof -
  let ?old = "svc_account 1 (Some ''a'') (Some ''b'')"
  let ?new = "svc_account 1 None (Some ''b'')"
  obtain accs qs where run: "commit_account ''z'' 2 ?old ?new ([?old], no_events) = (accs, qs)" by (metis prod.collapse)
  have "should_send_event ?old ?new" by (simp add: should_send_event_def)
  from handover_event [OF this run] have "qs (private_queue_name ''b'') = replicate 2 (Some (JDict (event_payload (Migrate_to 1))))"
    by (simp add: wanted_event_def event_copies_def no_events_def)
  with run show ?thesis by (intro exI conjI)
qed

section \<open>The account queue\<close>

text \<open>
  After a turn of the populator, with nobody claiming meanwhile, every account that should
  run is queued or assigned, no owner of such an account has changed, and exactly the accounts that should not run have
  lost their owner.
\<close>

theorem populate_tracks_runnable:
  assumes "aq_wf q"
  shows "runnable_accounts shards accs \<subseteq> queue_all (populate shards accs id q) \<and>
    map_of (aq_hash (populate shards accs id q)) i =
      (if i \<in> runnable_accounts shards accs then map_of (aq_hash q) i else None)"
proof -
  let ?q = "enqueue_new_accounts shards accs q"
  have hash: "aq_hash (populate shards accs id q) = filter (\<lambda>(k, _). k \<in> runnable_accounts shards accs) (aq_hash q)"
    using unassign_disabled_hash [of ?q shards accs] assms by (simp add: populate_def enqueue_new_accounts_def aq_wf_def)
  have list: "aq_list (populate shards accs id q) = aq_list ?q"
    by (simp add: populate_def unassign_disabled_list)
  have "runnable_accounts shards accs \<subseteq> queue_all (populate shards accs id q)"
  proof
    fix i assume "i \<in> runnable_accounts shards accs"
    moreover from this have "i \<in> queue_all ?q" by (simp add: queue_all_enqueued)
    ultimately show "i \<in> queue_all (populate shards accs id q)"
      by (auto simp: queue_all_def hash_keys_def hash list enqueue_new_accounts_def)
  qed
  moreover have "map_of (aq_hash (populate shards accs id q)) i =
      (if i \<in> runnable_accounts shards accs then map_of (aq_hash q) i else None)"
    by (simp add: hash map_of_filter_keys)
  ultimately show ?thesis by blast
qed

theorem populate_tracks_runnable_witness:
  "runnable_accounts [0] [svc_account 1 None None] = {1} \<and>
   1 \<in> queue_all (populate [0] [svc_account 1 None None] id \<lparr>aq_list = [], aq_hash = [(7, ''h'')]\<rparr>) \<and>
   map_of (aq_hash (populate [0] [svc_account 1 None None] id \<lparr>aq_list = [], aq_hash = [(7, ''h'')]\<rparr>)) 7 = None"
proof -
  let ?q = "\<lparr>aq_list = [], aq_hash = [(7, ''h'')]\<rparr>"
  have "aq_wf ?q" by (simp add: aq_wf_def)
  moreover have "runnable_accounts [0] [svc_account 1 None None] = {1}"
    unfolding runnable_accounts_def set_filter [symmetric] set_map [symmetric] by (simp add: shard_of_def)
  ultimately show ?thesis using populate_tracks_runnable [of ?q "[0]" "[svc_account 1 None None]"] by auto
qed

section \<open>Deferred migrations\<close>

text \<open>
  C11: A run of the executor over a well-formed queue implements its specification: exactly the
  deferrals whose deadline has passed are applied to the accounts, in the order of their deadlines, the
  others stay queued, and it then waits for an event between 1 and 28 seconds.
\<close>

theorem executor_refines:
  assumes "mig_wf now r"
  shows "\<exists>r' n. run_due now (accs, r) =
      ((fold set_desired (map (obj_of r) (filter (due now) (mr_pqueue r))) accs, r'), Ok n) \<and>
    mr_pqueue r' = filter (\<lambda>e. \<not> due now e) (mr_pqueue r) \<and> seconds 1 \<le> n \<and> n \<le> seconds 28"
  using run_due_spec [OF assms] by blast

definition sample_deferral :: "datetime \<Rightarrow> deferral" where
  "sample_deferral t = \<lparr>dm_deadline = t, dm_account_id = 1, dm_desired_host = ''b''\<rparr>"

definition sample_redis :: mig_redis where
  "sample_redis = mig_save 0 (sample_deferral 50) None (mig_save 0 (sample_deferral 5) None
     \<lparr>mr_counter = 0, mr_objs = [], mr_pqueue = [], mr_events = []\<rparr>)"

theorem executor_refines_witness:
  "\<exists>accs r n. run_due 10 ([svc_account 1 None None], sample_redis) = ((accs, r), Ok n) \<and>
     map acc_desired_sync_host accs = [Some ''b''] \<and> mr_pqueue r = [(50, 2)]"
proof -
  have pq: "mr_pqueue sample_redis = [(5, 1), (50, 2)]" by code_simp
  have o: "obj_of sample_redis (5, Suc 0) = sample_deferral 5" by code_simp
  have "mig_wf 10 sample_redis"
    unfolding mig_wf_def pq by (simp add: zsort_def sample_redis_def mig_save_def set_obj_def sample_deferral_def
        OBJ_TTL_def seconds_def Let_def)
  from executor_refines [OF this, of "[svc_account 1 None None]"] show ?thesis
    unfolding pq by (auto simp: due_def o set_desired_def put_account_def sample_deferral_def svc_account_def
        sample_account_def)
qed

text \<open>
  A deferral whose stored object has expired while it is at the head of the queue blocks
  all migrations: each run of the executor raises and changes nothing.
\<close>

theorem expired_deferral_blocks:
  assumes "mr_pqueue r = (s, i) # z" and "map_of (mr_objs r) i = Some (d, e)" and "e \<le> now"
  shows "executor_run now (accs, r) = ((accs, r), Raise TypeError)"
  using assms by (rule expired_blocks)

theorem expired_deferral_blocks_witness:
  "executor_run (seconds 700000) ([svc_account 1 None None], sample_redis) =
    (([svc_account 1 None None], sample_redis), Raise TypeError)"
proof -
  have pq: "mr_pqueue sample_redis = (5, 1) # [(50, 2)]" by code_simp
  have o: "map_of (mr_objs sample_redis) 1 = Some (sample_deferral 5, OBJ_TTL)" by code_simp
  show ?thesis by (rule expired_deferral_blocks [OF pq o]) (simp add: OBJ_TTL_def seconds_def)
qed

end
