(* ===== verification/Gmail_Sync.thy ===== *)
theory Gmail_Sync
  imports Folder_Sync
begin

text \<open>
  \<open>inbox/mailsync/backends/gmail.py\<close>: the sync engine of a Gmail folder, which overrides
  parts of the engine of \<open>generic.py\<close>, with the Gmail requests of the IMAP client. Messages are
  identified by X-GM-MSGID and threads by X-GM-THRID. The module keeps the saved UIDs as rows of
  \<open>ImapUid\<close> and looks numbers up among them, which never succeeds, so that set is left out.
  The cache of \<open>is_all_mail\<close> is the engine's \<open>en_should_idle\<close>.
\<close>

definition MAX_DOWNLOAD_BYTES :: nat where "MAX_DOWNLOAD_BYTES = 2 ^ 20"
definition MAX_DOWNLOAD_COUNT :: nat where "MAX_DOWNLOAD_COUNT = 1"

section \<open>Gmail requests\<close>

text \<open>A metadata reply: X-GM-MSGID, X-GM-THRID and RFC822.SIZE, each possibly absent.\<close>

type_synonym g_reply = "(nat \<times> nat option \<times> nat option \<times> nat option) list"

type_synonym g_meta = "nat \<times> nat \<times> nat"

record gmail_server =
  gs_server :: server
  gs_metadata :: "seqset \<Rightarrow> g_reply res"
  gs_thread :: "nat \<Rightarrow> nat list res"
  gs_msgids :: "nat list \<Rightarrow> g_reply res"
  gs_inbox :: "nat list res"
  gs_recent_inbox :: "nat list res"

fun pick_metadata :: "nat set \<Rightarrow> g_reply \<Rightarrow> (nat \<times> g_meta) list res" where
  "pick_metadata wanted [] = Ok []"
| "pick_metadata wanted ((uid, msgid, thrid, sz) # rest) =
     (if uid \<notin> wanted then pick_metadata wanted rest
      else res_bind (need msgid) (\<lambda>g. res_bind (need thrid) (\<lambda>t. res_bind (need sz) (\<lambda>n.
        res_bind (pick_metadata wanted rest) (\<lambda>ms. Ok ((uid, g, t, n) # ms))))))"

definition g_metadata :: "gmail_server \<Rightarrow> nat list \<Rightarrow> (nat \<times> g_meta) list res" where
  "g_metadata sv uids =
     res_bind (gs_metadata sv (if length uids < 1000000 then SeqUids uids else SeqFrom 1)) (pick_metadata (set uids))"

fun pick_msgids :: "nat set \<Rightarrow> g_reply \<Rightarrow> (nat \<times> nat) list res" where
  "pick_msgids wanted [] = Ok []"
| "pick_msgids wanted ((uid, msgid, _) # rest) =
     (if uid \<notin> wanted then pick_msgids wanted rest
      else res_bind (need msgid) (\<lambda>g. res_bind (pick_msgids wanted rest) (\<lambda>ms. Ok ((uid, g) # ms))))"

definition crispin_g_msgids :: "gmail_server \<Rightarrow> nat list \<Rightarrow> (nat \<times> nat) list res" where
  "crispin_g_msgids sv uids = res_bind (gs_msgids sv uids) (pick_msgids (set uids))"

definition expand_thread :: "gmail_server \<Rightarrow> nat \<Rightarrow> nat list res" where
  "expand_thread sv thrid = res_bind (gs_thread sv thrid) (\<lambda>uids. Ok (rev (sort uids)))"

section \<open>Saving messages\<close>

text \<open>
  The messages of a namespace with one of some X-GM-MSGIDs. A large set is not sent to the
  database: the ids of all messages are read and filtered.
\<close>

definition namespace_msgids :: "store \<Rightarrow> nat \<Rightarrow> nat option list" where
  "namespace_msgids db nid = map m_g_msgid (filter (\<lambda>m. m_namespace_id m = nid) (messages db))"

definition g_msgids :: "store \<Rightarrow> nat \<Rightarrow> nat option set \<Rightarrow> nat option set" where
  "g_msgids db nid wanted =
     (if wanted = {} then {}
      else if card wanted > 1000
      then set (filter (\<lambda>g. g \<in> wanted) (namespace_msgids db nid))
      else m_g_msgid ` {m \<in> set (messages db). m_namespace_id m = nid \<and> m_g_msgid m \<in> wanted})"

text \<open>A known message gets a new UID and no second row; each one is committed.\<close>

definition save_new_uid ::
  "sync_env \<Rightarrow> account_row option \<Rightarrow> folder_row option \<Rightarrow> raw_imap \<Rightarrow> message_row \<Rightarrow> store \<Rightarrow> store res" where
  "save_new_uid env acct folder msg m db =
     (case (acct, folder) of
        (Some acc, Some fld) \<Rightarrow>
          (let u0 = \<lparr>u_id = t_next u_id (imapuids db), u_account_id = acc_id acc, u_folder_id = fld_id fld,
                 u_message_id = m_id m, u_msg_uid = ri_uid msg, u_is_draft = False, u_is_seen = False,
                 u_is_flagged = False, u_is_recent = False, u_is_answered = False, u_extra_flags = [], u_labels = []\<rparr>;
               u1 = snd (update_flags (ri_flags msg) u0)
           in res_bind (update_labels acc (the (ri_labels msg)) (db\<lparr>imapuids := t_add (imapuids db) u1\<rparr>) u1)
                (\<lambda>(db1, u2).
                  Ok (put_message db1 (update_message_metadata (se_iter env) db1 (se_now env) acc m (u_is_draft u2)))))
      | _ \<Rightarrow> Raise AttributeError)"

fun save_known ::
  "sync_env \<Rightarrow> nat \<Rightarrow> nat \<Rightarrow> account_row option \<Rightarrow> folder_row option \<Rightarrow> raw_imap list \<Rightarrow> raw_imap list \<Rightarrow> store
     \<Rightarrow> store \<times> raw_imap list res" where
  "save_known env nid fid acct folder [] brand_new db = (db, Ok brand_new)"
| "save_known env nid fid acct folder (msg # msgs) brand_new db =
     (case query_first (filter (\<lambda>m. m_namespace_id m = nid \<and> m_g_msgid m = ri_msgid msg) (messages db)) of
        None \<Rightarrow> save_known env nid fid acct folder msgs (brand_new @ [msg]) db
      | Some m \<Rightarrow>
          if \<exists>u\<in>set (message_uids db (m_id m)). u_msg_uid u = ri_uid msg \<and> u_folder_id u = fid
          then save_known env nid fid acct folder msgs brand_new db
          else (case save_new_uid env acct folder msg m db of
                  Inl e \<Rightarrow> (db, Raise e)
                | Inr db1 \<Rightarrow> save_known env nid fid acct folder msgs brand_new db1))"

definition deduplicate ::
  "sync_env \<Rightarrow> nat \<Rightarrow> nat \<Rightarrow> nat \<Rightarrow> raw_imap list \<Rightarrow> store \<Rightarrow> store \<times> raw_imap list res" where
  "deduplicate env nid aid fid msgs db =
     (let existing = g_msgids db nid (ri_msgid ` set msgs)
      in save_known env nid fid (t_get acc_id (accounts db) aid) (t_get fld_id (folders db) fid)
           (filter (\<lambda>m. ri_msgid m \<in> existing) msgs) (filter (\<lambda>m. ri_msgid m \<notin> existing) msgs) db)"

text \<open>The thread is Gmail's; a thread that exists may have its X-GM-THRID changed.\<close>

definition gmail_add_to_thread :: "nat \<Rightarrow> store \<Rightarrow> raw_imap \<Rightarrow> message_row \<Rightarrow> store res" where
  "gmail_add_to_thread nid db msg m =
     (let m1 = m\<lparr>m_g_msgid := ri_msgid msg, m_g_thrid := ri_thrid msg\<rparr>; db1 = put_message db m1
      in res_bind (from_gmail_message db1 nid m1) (\<lambda>choice.
           let db2 = (case choice of Existing th \<Rightarrow> db1\<lparr>threads := t_put th_id (threads db1) th\<rparr> | Fresh th \<Rightarrow> db1)
           in Ok (set_message_thread db2 m1 choice)))"

text \<open>Every message is committed by itself.\<close>

fun gmail_create_messages ::
  "sync_env \<Rightarrow> nat \<Rightarrow> account_row option \<Rightarrow> folder_row option \<Rightarrow> raw_imap list \<Rightarrow> store \<Rightarrow> store \<times> unit res" where
  "gmail_create_messages env nid acct folder [] db = (db, Ok ())"
| "gmail_create_messages env nid acct folder (msg # msgs) db =
     (case create_message_with (gmail_add_to_thread nid) env acct folder msg db of
        Inl e \<Rightarrow> (db, Raise e)
      | Inr (db1, _) \<Rightarrow> gmail_create_messages env nid acct folder msgs db1)"

definition gmail_download :: "sync_env \<Rightarrow> gmail_server \<Rightarrow> nat list \<Rightarrow> unit sync" where
  "gmail_download env sv uids s =
     (case gmail_uids (sv_fetch_bodies (gs_server sv)) uids of
        Inl e \<Rightarrow> (s, Raise e)
      | Inr [] \<Rightarrow> (s, Ok ())
      | Inr msgs \<Rightarrow>
          (let nid = en_namespace_id (sy_eng s); aid = en_account_id (sy_eng s); fid = en_folder_id (sy_eng s)
           in st_bind (with_commits (deduplicate env nid aid fid msgs))
                (\<lambda>new s1. if new = [] then (s1, Ok ())
                  else st_seq (with_commits (\<lambda>db. gmail_create_messages env nid
                           (t_get acc_id (accounts (sy_db s)) aid) (t_get fld_id (folders (sy_db s)) fid) new db))
                         (on_engine (\<lambda>e. e\<lparr>en_is_first_message := False\<rparr>)) s1) s))"

section \<open>Expanding threads\<close>

text \<open>The seeds grouped by thread: threads in the order of their newest seed, each newest first.\<close>

fun add_seed :: "nat \<Rightarrow> nat \<Rightarrow> (nat \<times> nat list) list \<Rightarrow> (nat \<times> nat list) list" where
  "add_seed thrid uid [] = [(thrid, [uid])]"
| "add_seed thrid uid ((t, us) # gs) = (if t = thrid then (t, us @ [uid]) # gs else (t, us) # add_seed thrid uid gs)"

type_synonym metadata = "nat \<rightharpoonup> g_meta"

fun group_seeds :: "metadata \<Rightarrow> nat list \<Rightarrow> (nat \<times> nat list) list \<Rightarrow> (nat \<times> nat list) list res" where
  "group_seeds meta [] gs = Ok gs"
| "group_seeds meta (uid # uids) gs =
     (case meta uid of None \<Rightarrow> Raise KeyError | Some (_, thrid, _) \<Rightarrow> group_seeds meta uids (add_seed thrid uid gs))"

definition expand_group :: "gmail_server \<Rightarrow> nat \<times> nat list \<Rightarrow> metadata \<Rightarrow> (nat list \<times> metadata) res" where
  "expand_group sv g meta =
     (case g of (thrid, us) \<Rightarrow>
        (case meta (hd us) of
           None \<Rightarrow> Raise KeyError
         | Some (msgid, _) \<Rightarrow>
             if thrid = msgid then Ok (rev (sort us), meta)
             else res_bind (expand_thread sv thrid) (\<lambda>more.
               let all = sorted_list_of_set (set us \<union> set more)
               in res_bind (g_metadata sv all) (\<lambda>m. Ok (rev all, meta ++ dict_of m)))))"

text \<open>
  The generator, as what it has left: the rest of the current thread and the threads to come.
  It expands a thread when its first UID is asked for.
\<close>

type_synonym pending = "nat list \<times> (nat \<times> nat list) list \<times> metadata"

function next_uid :: "gmail_server \<Rightarrow> pending \<Rightarrow> (pending \<times> nat option) res" where
  "next_uid sv (u # us, gs, meta) = Ok ((us, gs, meta), Some u)"
| "next_uid sv ([], [], meta) = Ok (([], [], meta), None)"
| "next_uid sv ([], g # gs, meta) =
     res_bind (expand_group sv g meta) (\<lambda>(us, meta'). next_uid sv (us, gs, meta'))"
  by pat_completeness auto
termination
  by (relation "measure (\<lambda>(sv, us, gs, meta). length gs + (if us = [] then 1 else 0))")
    (auto split: if_splits)

text \<open>The threads left, and the UIDs left of the current one, go down with every UID taken.\<close>

definition pending_order :: "(pending \<times> pending) set" where
  "pending_order = measures [\<lambda>(us, gs, meta). length gs, \<lambda>(us, gs, meta). length us]"

definition pending_le :: "pending \<Rightarrow> pending \<Rightarrow> bool" where
  "pending_le p' p \<longleftrightarrow> (case (p', p) of ((us', gs', _), (us, gs, _)) \<Rightarrow>
     length gs' < length gs \<or> length gs' = length gs \<and> length us' \<le> length us)"

lemma pending_order_wf: "wf pending_order"
  by (simp add: pending_order_def)

lemma pending_order_iff:
  "(p', p) \<in> pending_order \<longleftrightarrow> (case (p', p) of ((us', gs', _), (us, gs, _)) \<Rightarrow>
     length gs' < length gs \<or> length gs' = length gs \<and> length us' < length us)"
  by (auto simp: pending_order_def)

lemma pending_less_le: "(q, p) \<in> pending_order \<Longrightarrow> pending_le r q \<Longrightarrow> (r, p) \<in> pending_order"
  "(q, p) \<in> pending_order \<Longrightarrow> pending_le q p"
  by (auto simp: pending_order_iff pending_le_def)

lemma next_uid_order:
  "next_uid sv p = Ok (p', x) \<Longrightarrow> pending_le p' p \<and> (x \<noteq> None \<longrightarrow> (p', p) \<in> pending_order)"
proof (induction sv p arbitrary: p' x rule: next_uid.induct)
  case (3 sv g gs meta)
  then obtain us meta' where e: "expand_group sv g meta = Ok (us, meta')" "next_uid sv (us, gs, meta') = Ok (p', x)"
    by (auto simp: res_simps)
  have "pending_le p' (us, gs, meta')" using "3.IH" e by blast
  then show ?case by (cases p') (auto simp: pending_order_iff pending_le_def)
qed (auto simp: pending_order_iff pending_le_def)

section \<open>Downloading in batches\<close>

function fill_batch :: "gmail_server \<Rightarrow> nat \<Rightarrow> nat \<Rightarrow> nat \<Rightarrow> nat list \<Rightarrow> pending \<Rightarrow> (nat list \<times> pending) res" where
  "fill_batch sv max_bytes max_count dl batch p =
     (if dl < max_bytes \<and> length batch < max_count
      then (case next_uid sv p of
              Inl e \<Rightarrow> Raise e
            | Inr (p1, None) \<Rightarrow> Ok (batch, p1)
            | Inr (p1, Some u) \<Rightarrow>
                fill_batch sv max_bytes max_count
                  (dl + (case snd (snd p1) u of None \<Rightarrow> 0 | Some (_, _, sz) \<Rightarrow> sz)) (batch @ [u]) p1)
      else Ok (batch, p))"
  by pat_completeness auto
termination
  by (relation "measure (\<lambda>(sv, max_bytes, max_count, dl, batch, p). max_count - length batch)") auto

declare fill_batch.simps [simp del]

lemma fill_batch_order:
  "fill_batch sv max_bytes max_count dl batch p = Ok (batch', p') \<Longrightarrow>
    pending_le p' p \<and> (batch' \<noteq> batch \<longrightarrow> (p', p) \<in> pending_order)"
proof (induction sv max_bytes max_count dl batch p arbitrary: batch' p' rule: fill_batch.induct)
  case (1 sv max_bytes max_count dl batch p)
  note F = fill_batch.simps [of sv max_bytes max_count dl batch p]
  show ?case
  proof (cases "dl < max_bytes \<and> length batch < max_count")
    case False
    with "1.prems" show ?thesis by (auto simp: F pending_le_def)
  next
    case True
    obtain p1 x where n: "next_uid sv p = Ok (p1, x)" using "1.prems" True by (cases "next_uid sv p") (auto simp: F)
    note order = next_uid_order [OF n]
    show ?thesis
    proof (cases x)
      case None
      with "1.prems" True n order show ?thesis by (simp add: F)
    next
      case (Some u)
      with "1.prems" True n have "fill_batch sv max_bytes max_count
          (dl + (case snd (snd p1) u of None \<Rightarrow> 0 | Some (_, _, sz) \<Rightarrow> sz)) (batch @ [u]) p1 = Ok (batch', p')"
        by (simp add: F)
      with "1.IH" True n Some have "pending_le p' p1" by blast
      with order Some pending_less_le show ?thesis by blast
    qed
  qed
qed

text \<open>
  \<open>meanwhile\<close> is what the change poller does between two downloads. Throttling only sleeps.
\<close>

function batch_loop ::
  "sync_env \<Rightarrow> gmail_server \<Rightarrow> nat \<Rightarrow> nat \<Rightarrow> (sync_sys \<Rightarrow> sync_sys) \<Rightarrow> pending \<Rightarrow> unit sync" where
  "batch_loop env sv max_bytes max_count meanwhile p s =
     (case fill_batch sv max_bytes max_count 0 [] p of
        Inl e \<Rightarrow> (s, Raise e)
      | Inr (batch, p1) \<Rightarrow>
          if batch = [] then (s, Ok ())
          else (case gmail_download env sv batch s of
                  (s1, Inl e) \<Rightarrow> (s1, Raise e)
                | (s1, Inr _) \<Rightarrow> batch_loop env sv max_bytes max_count meanwhile p1 (meanwhile s1)))"
  by pat_completeness auto
termination
  by (relation "inv_image pending_order (\<lambda>(env, sv, max_bytes, max_count, meanwhile, p, s). p)")
    (auto simp: pending_order_def dest: fill_batch_order [unfolded pending_order_def])

declare batch_loop.simps [simp del]

definition batch_download_uids ::
  "sync_env \<Rightarrow> gmail_server \<Rightarrow> nat \<Rightarrow> nat \<Rightarrow> (sync_sys \<Rightarrow> sync_sys) \<Rightarrow> nat list \<Rightarrow> (nat \<times> g_meta) list \<Rightarrow> unit sync" where
  "batch_download_uids env sv max_bytes max_count meanwhile uids meta s =
     (case group_seeds (dict_of meta) (rev (sort uids)) [] of
        Inl e \<Rightarrow> (s, Raise e)
      | Inr gs \<Rightarrow> batch_loop env sv max_bytes max_count meanwhile ([], gs, dict_of meta) s)"

section \<open>Initial sync\<close>

definition is_all_mail :: "server \<Rightarrow> bool sync" where
  "is_all_mail sv s =
     (case en_should_idle (sy_eng s) of
        Some b \<Rightarrow> (s, Ok b)
      | None \<Rightarrow>
          (case folders_with_role ''all'' (Ok (sv_listing sv)) (sy_client s) of
             (cr, Inl e) \<Rightarrow> (s\<lparr>sy_client := cr\<rparr>, Raise e)
           | (cr, Inr ns) \<Rightarrow>
               (let b = en_folder_name (sy_eng s) \<in> set ns
                in (s\<lparr>sy_client := cr, sy_eng := (sy_eng s)\<lparr>en_should_idle := Some b\<rparr>\<rparr>, Ok b))))"

definition gmail_should_idle :: "server \<Rightarrow> bool sync" where
  "gmail_should_idle sv = is_all_mail sv"

text \<open>UIDs in the inbox are put last, as the list is downloaded from its end.\<close>

definition uids_to_download :: "gmail_server \<Rightarrow> nat \<Rightarrow> nat set \<Rightarrow> bool \<Rightarrow> nat list res" where
  "uids_to_download sv remote_count unknown all_mail =
     (if all_mail
      then res_bind (search_uids (if remote_count < 1000000 then gs_inbox sv else gs_recent_inbox sv)) (\<lambda>inbox.
             Ok (sorted_list_of_set (unknown - set inbox) @ sorted_list_of_set (unknown \<inter> set inbox)))
      else Ok (sorted_list_of_set unknown))"

fun download_chunks ::
  "sync_env \<Rightarrow> gmail_server \<Rightarrow> (sync_sys \<Rightarrow> sync_sys) \<Rightarrow> nat list list \<Rightarrow> unit sync" where
  "download_chunks env sv meanwhile [] = st_ok ()"
| "download_chunks env sv meanwhile (uids # chunks) =
     st_bind (st_res (g_metadata sv uids)) (\<lambda>meta.
       st_seq (batch_download_uids env sv MAX_DOWNLOAD_BYTES MAX_DOWNLOAD_COUNT meanwhile
                (filter (\<lambda>u. u \<in> fst ` set meta) uids) meta)
         (download_chunks env sv meanwhile chunks))"

definition gmail_initial_sync_impl :: "sync_env \<Rightarrow> gmail_server \<Rightarrow> (sync_sys \<Rightarrow> sync_sys) \<Rightarrow> unit sync" where
  "gmail_initial_sync_impl env sv meanwhile =
     st_bind (st_res (all_uids (sv_search (gs_server sv)) (sv_search_alt (gs_server sv)))) (\<lambda>remote s.
       let locals = engine_local_uids None s; unknown = set remote - locals
       in st_seq (engine_remove_deleted_uids env (locals - set remote))
            (st_seq (update_uid_counts (se_now env) (Some (length remote))
                      [(''download_uid_count'', VInt (int (card unknown)))])
              (st_bind (is_all_mail (gs_server sv)) (\<lambda>all_mail.
                st_bind (st_res (uids_to_download sv (length remote) unknown all_mail)) (\<lambda>uids.
                  download_chunks env sv meanwhile (chunk 1024 (rev uids)))))) s)"

section \<open>Resyncing after a change of UIDVALIDITY\<close>

text \<open>
  The UIDs of messages the folder still has are renumbered, all others are deleted; a UID without a
  message cannot be handled. The rows are changed in one transaction.
\<close>

fun resync_rows :: "(nat \<rightharpoonup> nat) \<Rightarrow> message_row list \<Rightarrow> nat \<Rightarrow> nat \<Rightarrow> imapuid_row list \<Rightarrow> imapuid_row list res" where
  "resync_rows mapping msgs aid fid [] = Ok []"
| "resync_rows mapping msgs aid fid (u # us) =
     (if u_account_id u \<noteq> aid \<or> u_folder_id u \<noteq> fid
      then res_bind (resync_rows mapping msgs aid fid us) (\<lambda>vs. Ok (u # vs))
      else case t_get m_id msgs (u_message_id u) of
             None \<Rightarrow> Raise AttributeError
           | Some m \<Rightarrow>
               res_bind (resync_rows mapping msgs aid fid us) (\<lambda>vs.
                 Ok (case m_g_msgid m of
                       None \<Rightarrow> vs
                     | Some g \<Rightarrow> (case mapping g of None \<Rightarrow> vs | Some uid \<Rightarrow> u\<lparr>u_msg_uid := uid\<rparr> # vs))))"

definition gmail_resync_impl :: "sync_env \<Rightarrow> gmail_server \<Rightarrow> unit sync" where
  "gmail_resync_impl env sv =
     st_bind (\<lambda>s. st_res (load_folder_info s) s) (\<lambda>info0.
       st_seq (on_client (\<lambda>_. sv_client (gs_server sv)))
         (st_bind (select_with (gs_server sv) (\<lambda>s aid folder info. Ok info)) (\<lambda>sel.
           if (case fi_uidvalidity info0 of None \<Rightarrow> False | Some v \<Rightarrow> si_uidvalidity sel \<le> v) then st_ok ()
           else st_bind (st_res (all_uids (sv_search (gs_server sv)) (sv_search_alt (gs_server sv)))) (\<lambda>uids.
             st_bind (st_res (crispin_g_msgids sv uids)) (\<lambda>ids s.
               with_db (\<lambda>db. res_bind
                   (resync_rows (dict_of (map (\<lambda>(uid, g). (g, uid)) ids)) (messages db)
                     (en_account_id (sy_eng s)) (en_folder_id (sy_eng s)) (imapuids db))
                   (\<lambda>rows. Ok (db\<lparr>imapuids := rows,
                      folder_infos := t_put fi_id (folder_infos db)
                        (info0\<lparr>fi_uidvalidity := Some (si_uidvalidity sel), fi_highestmodseq := None\<rparr>)\<rparr>, ()))) s)))))"

end
