(* ===== verification/Gmail_Proofs.thy ===== *)
theory Gmail_Proofs
  imports Gmail_Sync Folder_Facts
begin

text \<open>
  The Gmail engine. Its lazy download in batches does the same as expanding all threads first;
  a resync keeps the UIDs of the messages the folder still has; and no download makes a second
  message of one X-GM-MSGID.
\<close>

section \<open>The lazy download against the eager one\<close>

fun expand_all :: "gmail_server \<Rightarrow> (nat \<times> nat list) list \<Rightarrow> metadata \<Rightarrow> nat list list res" where
  "expand_all sv [] meta = Ok []"
| "expand_all sv (g # gs) meta =
     res_bind (expand_group sv g meta) (\<lambda>(us, meta'). res_bind (expand_all sv gs meta') (\<lambda>rest. Ok (us # rest)))"

fun download_in_turn :: "sync_env \<Rightarrow> gmail_server \<Rightarrow> (sync_sys \<Rightarrow> sync_sys) \<Rightarrow> nat list \<Rightarrow> unit sync" where
  "download_in_turn env sv meanwhile [] s = (s, Ok ())"
| "download_in_turn env sv meanwhile (u # us) s =
     (case gmail_download env sv [u] s of
        (s1, Inl e) \<Rightarrow> (s1, Raise e)
      | (s1, Inr _) \<Rightarrow> download_in_turn env sv meanwhile us (meanwhile s1))"

lemma next_uid_eager:
  assumes "expand_all sv gs meta = Ok rest"
  shows "case us @ concat rest of
      [] \<Rightarrow> (\<exists>p. next_uid sv (us, gs, meta) = Ok (p, None))
    | u # all \<Rightarrow> (\<exists>us' gs' meta' rest'. next_uid sv (us, gs, meta) = Ok ((us', gs', meta'), Some u) \<and>
        expand_all sv gs' meta' = Ok rest' \<and> us' @ concat rest' = all)"
  using assms
proof (induction gs arbitrary: us meta rest)
  case Nil
  then show ?case by (cases us) auto
next
  case (Cons g gs)
  show ?case
  proof (cases us)
    case Nil
    from Cons.prems obtain vs meta' rest' where g: "expand_group sv g meta = Ok (vs, meta')"
      "expand_all sv gs meta' = Ok rest'" "rest = vs # rest'"
      by (auto simp: res_simps)
    from Cons.IH [OF g(2), of vs] show ?thesis
      by (cases "vs @ concat rest'") (simp_all add: Nil g del: append_is_Nil_conv)
  next
    case (Cons u us')
    with Cons.prems show ?thesis by (simp del: expand_all.simps)
  qed
qed

lemma fill_one:
  assumes "next_uid sv p = Ok (p1, x)" and "0 < max_bytes"
  shows "fill_batch sv max_bytes (Suc 0) 0 [] p = Ok ((case x of None \<Rightarrow> [] | Some u \<Rightarrow> [u]), p1)"
  using assms
  by (cases x) (simp_all add: fill_batch.simps [of sv max_bytes "Suc 0" 0 "[]" p]
      fill_batch.simps [of sv max_bytes "Suc 0" _ "[_]"])

lemma batch_loop_eager:
  assumes "expand_all sv gs meta = Ok rest" and "0 < max_bytes"
  shows "batch_loop env sv max_bytes (Suc 0) meanwhile (us, gs, meta) s = download_in_turn env sv meanwhile (us @ concat rest) s"
  using assms(1)
proof (induction "us @ concat rest" arbitrary: us gs meta rest s)
  case Nil
  then have e: "us = []" "concat rest = []" by simp_all
  from next_uid_eager [OF Nil.prems, of "[]"] obtain p where "next_uid sv ([], gs, meta) = Ok (p, None)"
    unfolding e by auto
  from fill_one [OF this assms(2)] show ?case
    unfolding e by (simp add: batch_loop.simps [of env sv max_bytes "Suc 0" meanwhile "([], gs, meta)"])
next
  case (Cons u all)
  note split = Cons.hyps(2) [symmetric]
  from next_uid_eager [OF Cons.prems, of us] obtain us' gs' meta' rest' where
    n: "next_uid sv (us, gs, meta) = Ok ((us', gs', meta'), Some u)" "expand_all sv gs' meta' = Ok rest'"
      "us' @ concat rest' = all"
    by (auto simp: split)
  obtain s1 r where d: "gmail_download env sv [u] s = (s1, r)" by (cases "gmail_download env sv [u] s")
  from Cons.hyps(1) [OF n(3) [symmetric] n(2)] fill_one [OF n(1) assms(2)] show ?case
    by (simp add: batch_loop.simps [of env sv max_bytes "Suc 0" meanwhile "(us, gs, meta)"] split d n(3) split: sum.split)
qed

lemma add_seed_uids: "set (concat (map snd (add_seed t u gs))) = insert u (set (concat (map snd gs)))"
  by (induction t u gs rule: add_seed.induct) auto

lemma group_seeds_uids:
  "group_seeds meta uids gs = Ok gs' \<Longrightarrow> set (concat (map snd gs')) = set uids \<union> set (concat (map snd gs))"
proof (induction meta uids gs rule: group_seeds.induct)
  case (2 meta uid uids gs)
  then obtain g t n where m: "meta uid = Some (g, t, n)" "group_seeds meta uids (add_seed t uid gs) = Ok gs'"
    by (auto split: option.splits)
  with 2 show ?case by (auto simp: add_seed_uids simp del: set_concat)
qed simp

lemma expand_all_uids:
  "expand_all sv gs meta = Ok rest \<Longrightarrow>
    list_all2 (\<lambda>g us. set (snd g) \<subseteq> set us \<and> sorted (rev us)) gs rest"
proof (induction gs arbitrary: meta rest)
  case (Cons g gs)
  from Cons.prems obtain us meta' rest' where g: "expand_group sv g meta = Ok (us, meta')"
    "expand_all sv gs meta' = Ok rest'" "rest = us # rest'"
    by (auto simp: res_simps)
  have "set (snd g) \<subseteq> set us \<and> sorted (rev us)"
    using g(1) by (auto simp: expand_group_def res_simps Let_def split: prod.splits option.splits if_split_asm)
  with Cons.IH [OF g(2)] g(3) show ?case by simp
qed simp

lemma batch_download_eager:
  assumes "group_seeds (dict_of meta) (rev (sort uids)) [] = Ok gs" and "expand_all sv gs (dict_of meta) = Ok rest"
  shows "batch_download_uids env sv MAX_DOWNLOAD_BYTES MAX_DOWNLOAD_COUNT meanwhile uids meta s =
      download_in_turn env sv meanwhile (concat rest) s"
    and "set uids \<subseteq> set (concat rest)" and "\<forall>us\<in>set rest. sorted (rev us)"
proof -
  show "batch_download_uids env sv MAX_DOWNLOAD_BYTES MAX_DOWNLOAD_COUNT meanwhile uids meta s =
      download_in_turn env sv meanwhile (concat rest) s"
    using batch_loop_eager [OF assms(2)] assms(1)
    by (simp add: batch_download_uids_def MAX_DOWNLOAD_BYTES_def MAX_DOWNLOAD_COUNT_def)
  note l = expand_all_uids [OF assms(2)]
  then have "set (concat (map snd gs)) \<subseteq> set (concat rest)"
    by (induction rule: list_all2_induct) auto
  then show "set uids \<subseteq> set (concat rest)" using group_seeds_uids [OF assms(1)] by simp
  show "\<forall>us\<in>set rest. sorted (rev us)" using l by (auto simp: list_all2_conv_all_nth in_set_conv_nth)
qed

section \<open>Resync\<close>

lemma resync_rows_Cons:
  assumes "resync_rows mapping msgs aid fid (x # us) = Ok vs"
  obtains (other) ws where "u_account_id x \<noteq> aid \<or> u_folder_id x \<noteq> fid" "resync_rows mapping msgs aid fid us = Ok ws"
      "vs = x # ws"
    | (gone) m where "u_account_id x = aid" "u_folder_id x = fid" "t_get m_id msgs (u_message_id x) = Some m"
      "\<And>g. m_g_msgid m = Some g \<Longrightarrow> mapping g = None" "resync_rows mapping msgs aid fid us = Ok vs"
    | (kept) ws m g uid where "u_account_id x = aid" "u_folder_id x = fid" "t_get m_id msgs (u_message_id x) = Some m"
      "m_g_msgid m = Some g" "mapping g = Some uid" "resync_rows mapping msgs aid fid us = Ok ws"
      "vs = x\<lparr>u_msg_uid := uid\<rparr> # ws"
proof (cases "u_account_id x \<noteq> aid \<or> u_folder_id x \<noteq> fid")
  case True
  with assms other show ?thesis by (auto simp: res_simps)
next
  case False
  with assms obtain m ws where m: "t_get m_id msgs (u_message_id x) = Some m"
    "resync_rows mapping msgs aid fid us = Ok ws"
    "vs = (case m_g_msgid m of None \<Rightarrow> ws
       | Some g \<Rightarrow> (case mapping g of None \<Rightarrow> ws | Some uid \<Rightarrow> x\<lparr>u_msg_uid := uid\<rparr> # ws))"
    by (auto simp: res_simps split: option.splits)
  show ?thesis
  proof (cases "m_g_msgid m")
    case None
    with False m gone show ?thesis by simp
  next
    case (Some g)
    with False m gone kept show ?thesis by (cases "mapping g") simp_all
  qed
qed

lemma resync_rows_spec:
  assumes "resync_rows mapping msgs aid fid us = Ok vs"
  shows "filter (\<lambda>u. u_account_id u \<noteq> aid \<or> u_folder_id u \<noteq> fid) vs =
      filter (\<lambda>u. u_account_id u \<noteq> aid \<or> u_folder_id u \<noteq> fid) us"
    and "v \<in> set vs \<Longrightarrow> u_account_id v = aid \<Longrightarrow> u_folder_id v = fid \<Longrightarrow>
      \<exists>u m g. u \<in> set us \<and> v = u\<lparr>u_msg_uid := u_msg_uid v\<rparr> \<and> t_get m_id msgs (u_message_id u) = Some m \<and>
        m_g_msgid m = Some g \<and> mapping g = Some (u_msg_uid v)"
    and "u \<in> set us \<Longrightarrow> u_account_id u = aid \<Longrightarrow> u_folder_id u = fid \<Longrightarrow> t_get m_id msgs (u_message_id u) = Some m \<Longrightarrow>
      m_g_msgid m = Some g \<Longrightarrow> mapping g = Some uid \<Longrightarrow> u\<lparr>u_msg_uid := uid\<rparr> \<in> set vs"
  using assms
proof (induction us arbitrary: vs)
  case (Cons x us)
  {
    case 1
    from 1 show ?case by (cases rule: resync_rows_Cons) (use Cons.IH(1) in auto)
  next
    case 2
    from "2.prems"(4) show ?case
    proof (cases rule: resync_rows_Cons)
      case other
      with "2.prems" Cons.IH(2) show ?thesis by fastforce
    next
      case gone
      with "2.prems" Cons.IH(2) show ?thesis by fastforce
    next
      case (kept ws m g uid)
      show ?thesis
      proof (cases "v \<in> set ws")
        case True
        with "2.prems" kept Cons.IH(2) show ?thesis by fastforce
      next
        case False
        with "2.prems"(1) kept have "v = x\<lparr>u_msg_uid := uid\<rparr>" by simp
        with kept show ?thesis by (intro exI [of _ x] exI [of _ m] exI [of _ g]) simp
      qed
    qed
  next
    case 3
    from "3.prems"(7) show ?case by (cases rule: resync_rows_Cons) (use "3.prems" Cons.IH(3) in auto)
  }
qed simp_all

lemma dict_of_Some: "dict_of kvs k = Some v \<Longrightarrow> (k, v) \<in> set kvs"
  by (induction kvs rule: dict_of.induct) (auto split: option.splits if_split_asm)

lemma dict_of_mem: "(k, v) \<in> set kvs \<Longrightarrow> \<exists>w. dict_of kvs k = Some w"
  by (induction kvs rule: dict_of.induct) (auto split: option.splits)

definition in_folder :: "sync_sys \<Rightarrow> imapuid_row \<Rightarrow> bool" where
  "in_folder s u \<longleftrightarrow> u_account_id u = en_account_id (sy_eng s) \<and> u_folder_id u = en_folder_id (sy_eng s)"

text \<open>What a resync that goes on does, in terms of the pairs of UID and X-GM-MSGID the server has.\<close>

lemma gmail_resync_rows:
  assumes "gmail_resync_impl env sv s = (s', Ok ())" and "load_folder_info s = Ok info"
    and "sv_select (gs_server sv) = Ok sel" and "\<And>v. fi_uidvalidity info = Some v \<Longrightarrow> v < si_uidvalidity sel"
    and "all_uids (sv_search (gs_server sv)) (sv_search_alt (gs_server sv)) = Ok uids"
    and "crispin_g_msgids sv uids = Ok ids"
  obtains rows where "resync_rows (dict_of (map (\<lambda>(uid, g). (g, uid)) ids)) (messages (sy_db s))
        (en_account_id (sy_eng s)) (en_folder_id (sy_eng s)) (imapuids (sy_db s)) = Ok rows"
    and "sy_db s' = (sy_db s)\<lparr>imapuids := rows, folder_infos := t_put fi_id (folder_infos (sy_db s))
        (info\<lparr>fi_uidvalidity := Some (si_uidvalidity sel), fi_highestmodseq := None\<rparr>)\<rparr>"
proof -
  have grown: "(case fi_uidvalidity info of None \<Rightarrow> False | Some v \<Rightarrow> si_uidvalidity sel \<le> v) = False"
    using assms(4) by (auto split: option.split simp: not_le)
  let ?rows = "resync_rows (dict_of (map (\<lambda>(uid, g). (g, uid)) ids)) (messages (sy_db s))
        (en_account_id (sy_eng s)) (en_folder_id (sy_eng s)) (imapuids (sy_db s))"
  show ?thesis
  proof (cases ?rows)
    case (Inl e)
    with assms(1,2,3,5,6) grown show ?thesis
      by (simp add: gmail_resync_impl_def st_bind_def st_seq_def st_res_def on_client_def select_with_def
          select_folder_def with_db_def)
  next
    case (Inr rows)
    with assms(1,2,3,5,6) grown that show ?thesis
      by (auto simp add: gmail_resync_impl_def st_bind_def st_seq_def st_res_def on_client_def select_with_def
          select_folder_def with_db_def)
  qed
qed

end
