(* ===== verification/Gmail_Unique.thy ===== *)
theory Gmail_Unique
  imports Gmail_Proofs
begin

text \<open>
  Deduplication on X-GM-MSGID: what the operations do to the ids, namespaces and X-GM-MSGIDs of
  the messages, which is all the invariant reads.
\<close>

definition gview :: "message_row \<Rightarrow> nat \<times> nat \<times> nat option" where
  "gview m = (m_id m, m_namespace_id m, m_g_msgid m)"

definition mview :: "store \<Rightarrow> (nat \<times> nat \<times> nat option) list" where
  "mview db = map gview (messages db)"

definition view_ok :: "(nat \<times> nat \<times> nat option) list \<Rightarrow> bool" where
  "view_ok vs \<longleftrightarrow> distinct (map fst vs) \<and>
     (\<forall>a\<in>set vs. \<forall>b\<in>set vs. snd a = snd b \<and> snd (snd a) \<noteq> None \<longrightarrow> a = b)"

lemma view_okD: "view_ok vs \<Longrightarrow> a \<in> set vs \<Longrightarrow> b \<in> set vs \<Longrightarrow> snd a = snd b \<Longrightarrow> snd (snd a) \<noteq> None \<Longrightarrow> a = b"
  unfolding view_ok_def by blast

lemma view_okI:
  "distinct (map fst vs) \<Longrightarrow> (\<And>a b. a \<in> set vs \<Longrightarrow> b \<in> set vs \<Longrightarrow> snd a = snd b \<Longrightarrow> snd (snd a) \<noteq> None \<Longrightarrow> a = b) \<Longrightarrow>
   view_ok vs"
  unfolding view_ok_def by blast

lemma view_ok_distinct: "view_ok vs \<Longrightarrow> distinct (map fst vs)"
  by (simp add: view_ok_def)

lemma view_ok_filter: "view_ok vs \<Longrightarrow> view_ok (filter P vs)"
  by (rule view_okI) (auto simp: distinct_map_filter_upd view_ok_distinct simp del: split_paired_All dest: view_okD)

lemma view_ok_append: "view_ok vs \<Longrightarrow> fst v \<notin> fst ` set vs \<Longrightarrow> snd (snd v) = None \<Longrightarrow> view_ok (vs @ [v])"
  by (rule view_okI) (auto simp: view_ok_distinct dest: view_okD)

lemma view_ok_change:
  assumes "view_ok vs" and "(ns, g) \<notin> snd ` set vs"
  shows "view_ok (map (\<lambda>v. if fst v = i then (i, ns, g) else v) vs)"
proof (rule view_okI)
  have "map fst (map (\<lambda>v. if fst v = i then (i, ns, g) else v) vs) = map fst vs" by (induction vs) auto
  with assms(1) show "distinct (map fst (map (\<lambda>v. if fst v = i then (i, ns, g) else v) vs))"
    by (simp only: view_ok_distinct)
next
  fix a b
  assume a: "a \<in> set (map (\<lambda>v. if fst v = i then (i, ns, g) else v) vs)"
    and b: "b \<in> set (map (\<lambda>v. if fst v = i then (i, ns, g) else v) vs)" and eq: "snd a = snd b" "snd (snd a) \<noteq> None"
  obtain x y where x: "x \<in> set vs" "a = (if fst x = i then (i, ns, g) else x)"
    and y: "y \<in> set vs" "b = (if fst y = i then (i, ns, g) else y)" using a b unfolding set_map by blast
  have new: "snd z \<noteq> (ns, g)" if "z \<in> set vs" for z using assms(2) that by force
  show "a = b"
  proof (cases "fst x = i \<or> fst y = i")
    case True
    with x(2) y(2) eq new [OF x(1)] new [OF y(1)] show ?thesis by (cases "fst x = i"; cases "fst y = i") simp_all
  next
    case False
    with x y eq view_okD [OF assms(1) x(1) y(1)] show ?thesis by simp
  qed
qed

lemma view_put: "mview (put_message db m) = map (\<lambda>v. if fst v = m_id m then gview m else v) (mview db)"
  by (simp add: mview_def put_message_def t_put_def gview_def)

lemma view_put_same:
  assumes "view_ok (mview db)" and "gview m \<in> set (mview db)"
  shows "mview (put_message db m) = mview db"
proof -
  have "v = gview m" if "v \<in> set (mview db)" "fst v = m_id m" for v
    using assms that distinct_map_eq [of fst "mview db" v "gview m"] by (simp add: view_ok_def gview_def)
  then show ?thesis unfolding view_put by (intro map_idI) auto
qed

lemma mview_in: "m \<in> set (messages db) \<Longrightarrow> gview m \<in> set (mview db)"
  by (simp add: mview_def)

lemma metadata_gview [simp]: "gview (update_message_metadata iter db now acc m d) = gview m"
  by (simp add: gview_def update_message_metadata_def update_categories_def Let_def split: option.splits)

section \<open>Operations that leave the messages alone\<close>

lemma category_find_or_create_messages:
  "category_find_or_create db nid name dn ty = Ok (db', c) \<Longrightarrow> messages db' = messages db"
  by (auto simp: category_find_or_create_def Let_def split: list.splits if_split_asm)

lemma label_find_or_create_messages:
  "label_find_or_create db acc name role = Ok (db', l) \<Longrightarrow> messages db' = messages db"
  by (auto simp: label_find_or_create_def Let_def res_simps split: option.splits dest: category_find_or_create_messages)

lemma add_labels_messages: "add_labels acc ks (db, ls) = Ok (db', ls') \<Longrightarrow> messages db' = messages db"
proof (induction ks arbitrary: db ls)
  case (Cons k ks)
  obtain name canonical where k: "k = (name, canonical)" by (cases k)
  from Cons.prems obtain db1 l where "label_find_or_create db acc name canonical = Ok (db1, l)"
    "add_labels acc ks (db1, if lbl_id l \<in> set ls then ls else ls @ [lbl_id l]) = Ok (db', ls')"
    by (auto simp: k res_simps)
  with Cons.IH label_find_or_create_messages show ?case by metis
qed simp

lemma update_labels_messages: "update_labels acc new db u = Ok (db', u') \<Longrightarrow> messages db' = messages db"
  by (auto simp: update_labels_def Let_def res_simps dest!: add_labels_messages)

lemma link_contact_messages:
  "link_contact parse mid fa (db, cm) = Ok (db', cm') \<Longrightarrow> messages db' = messages db"
proof -
  assume ok: "link_contact parse mid fa (db, cm) = Ok (db', cm')"
  obtain field name email where fa: "fa = (field, name, email)" by (cases fa)
  let ?f = "case cm (canonicalize_address parse email) of
                     None \<Rightarrow> None
                   | Some (Inl cid) \<Rightarrow> map_option (\<lambda>c. (db, c)) (t_get ct_id (contacts db) cid)
                   | Some (Inr row) \<Rightarrow>
                       (let c = row\<lparr>ct_id := t_next ct_id (contacts db)\<rparr>
                        in Some (db\<lparr>contacts := t_add (contacts db) c\<rparr>, c))"
  have f: "messages db1 = messages db" if "?f = Some (db1, c)" for db1 c
    using that by (auto simp: Let_def split: option.splits sum.splits)
  have "valid_email parse email \<Longrightarrow> ?thesis"
  proof -
    assume "valid_email parse email"
    with ok obtain db1 c where "?f = Some (db1, c)" "messages db' = messages db1"
      by (cases "?f") (auto simp: link_contact_def fa Let_def)
    with f show ?thesis by simp
  qed
  then show ?thesis using ok by (cases "valid_email parse email") (simp_all add: link_contact_def fa)
qed

lemma link_contacts_messages:
  "res_fold (link_contact parse mid) fas (db, cm) = Ok (db', cm') \<Longrightarrow> messages db' = messages db"
proof (induction fas arbitrary: db cm)
  case (Cons fa fas)
  from Cons.prems obtain db1 cm1 where "link_contact parse mid fa (db, cm) = Ok (db1, cm1)"
    "res_fold (link_contact parse mid) fas (db1, cm1) = Ok (db', cm')"
    by (auto simp: res_simps)
  with Cons.IH link_contact_messages show ?case by metis
qed simp

lemma update_contacts_messages:
  "update_contacts_from_message parse fresh db m nid = Ok db' \<Longrightarrow> messages db' = messages db"
  by (auto simp: update_contacts_from_message_def Let_def res_simps dest: link_contacts_messages)

section \<open>Creating a message\<close>

lemma query_first_in: "query_first (filter P xs) = Some x \<Longrightarrow> x \<in> set xs \<and> P x"
  by (auto dest!: query_first_Some)

lemma adopt_gview [simp]: "gview (adopt_headers n m) = gview m"
  by (simp add: gview_def adopt_headers_def)

lemma reconcile_view:
  assumes ok: "reconcile_message db nm = Ok (db', c)" and v: "view_ok (mview db)"
  shows "mview db' = mview db \<and> (\<forall>m. c = Some m \<longrightarrow> gview m \<in> set (mview db) \<and> m_namespace_id m = m_namespace_id nm)"
proof -
  let ?in = "\<lambda>P. query_first (filter (\<lambda>m. m_namespace_id m = m_namespace_id nm \<and> P m) (messages db))"
  have hit: "gview m \<in> set (mview db) \<and> m_namespace_id m = m_namespace_id nm" if "?in P = Some m" for P m
    using query_first_in [OF that] by (auto simp: mview_in)
  have adopt: "mview (put_message db (adopt_headers nm m)) = mview db" "m_namespace_id (adopt_headers nm m) = m_namespace_id m"
    if "?in P = Some m" for P m
  proof -
    show "mview (put_message db (adopt_headers nm m)) = mview db"
      using hit [OF that] by (intro view_put_same [OF v]) simp
    show "m_namespace_id (adopt_headers nm m) = m_namespace_id m" by (simp add: adopt_headers_def)
  qed
  show ?thesis
  proof (cases "m_nylas_uid nm")
    case None
    with ok have "db = db' \<and> ?in (\<lambda>m. m_data_sha256 m = m_data_sha256 nm) = c"
      by (auto simp: reconcile_message_def)
    then have c: "?in (\<lambda>m. m_data_sha256 m = m_data_sha256 nm) = c" "db' = db" by blast+
    have "gview m \<in> set (mview db) \<and> m_namespace_id m = m_namespace_id nm" if "c = Some m" for m
      using hit [OF c(1) [unfolded that]] .
    with c(2) show ?thesis by simp
  next
    case (Some uid)
    note ok' = ok [unfolded reconcile_message_def Let_def Some option.case]
    show ?thesis
    proof (cases "CHR ''-'' \<notin> set uid")
      case True
      show ?thesis
      proof (cases "?in (\<lambda>m. m_nylas_uid m = Some uid \<and> m_is_created m)")
        case None
        with ok' True show ?thesis by simp
      next
        case (Some m)
        with ok' True have "c = Some (adopt_headers nm m)" "db' = put_message db (adopt_headers nm m)" by simp_all
        with hit [OF Some] adopt [OF Some] show ?thesis by simp
      qed
    next
      case False
      with ok' obtain pid version where uid: "split_uid uid = Ok (pid, version)"
        by (cases "split_uid uid") auto
      show ?thesis
      proof (cases "?in (\<lambda>m. m_public_id m = pid \<and> m_is_created m)")
        case None
        with ok' False uid show ?thesis by simp
      next
        case (Some m)
        with ok' False uid have "c = Some (adopt_headers nm m) \<and> db' = put_message db (adopt_headers nm m) \<or>
            c = Some m \<and> db' = db"
          by (auto simp: res_simps split: if_split_asm)
        with hit [OF Some] adopt [OF Some] show ?thesis by auto
      qed
    qed
  qed
qed

text \<open>A created message is an old row, or a new one without an X-GM-MSGID.\<close>

lemma create_imap_message_view:
  assumes ok: "create_imap_message iter parse fresh now acc fld msg db = Ok (db', u, m)" and v: "view_ok (mview db)"
    and none: "m_g_msgid (rm_parsed msg) = None"
  shows "m_namespace_id m = m_namespace_id (rm_parsed msg)"
    and "mview db' = mview db \<and> gview m \<in> set (mview db) \<or>
      mview db' = mview db @ [gview m] \<and> m_id m \<notin> fst ` set (mview db) \<and> m_g_msgid m = None"
proof -
  from ok obtain db0 copy where rec: "reconcile_message db (rm_parsed msg) = Ok (db0, copy)"
    by (auto simp: create_imap_message_def res_simps)
  note R = reconcile_view [OF rec v]
  let ?new = "(rm_parsed msg)\<lparr>m_id := t_next m_id (messages db0)\<rparr>"
  obtain db1 m0 where db1: "(case copy of Some m \<Rightarrow> (db0, m)
       | None \<Rightarrow> (let m = ?new in (db0\<lparr>messages := t_add (messages db0) m\<rparr>, m))) = (db1, m0)"
    by (metis prod.collapse)
  have fresh: "m_id ?new \<notin> fst ` set (mview db)"
  proof -
    have "fst ` set (mview db0) = m_id ` set (messages db0)" by (force simp: mview_def gview_def)
    then show ?thesis using R t_next_fresh [of _ "messages db0" m_id] by force
  qed
  have A: "m_namespace_id m0 = m_namespace_id (rm_parsed msg) \<and> (mview db1 = mview db \<and> gview m0 \<in> set (mview db) \<or>
      mview db1 = mview db @ [gview m0] \<and> m_id m0 \<notin> fst ` set (mview db) \<and> m_g_msgid m0 = None)"
  proof (cases copy)
    case None
    then have "m0 = ?new" "db1 = db0\<lparr>messages := t_add (messages db0) ?new\<rparr>" using db1 by (auto simp: Let_def)
    with R fresh none show ?thesis by (simp add: mview_def t_add_def)
  next
    case (Some c)
    with db1 R show ?thesis by simp
  qed
  obtain db3 x where B: "m = update_message_metadata iter db3 now acc m0 x" "messages db3 = messages db1"
      "messages db' = messages (put_message db3 m)"
  proof -
    define u0 where "u0 = \<lparr>u_id = t_next u_id (imapuids db1), u_account_id = acc_id acc, u_folder_id = fld_id fld,
                 u_message_id = m_id m0, u_msg_uid = rm_uid msg, u_is_draft = False, u_is_seen = False,
                 u_is_flagged = False, u_is_recent = False, u_is_answered = False, u_extra_flags = [], u_labels = []\<rparr>"
    define u1 where "u1 = snd (update_flags (rm_flags msg) u0)"
    define db2 where "db2 = db1\<lparr>imapuids := t_add (imapuids db1) u1\<rparr>"
    from ok rec db1 obtain db3 u2 where
      lab: "(case rm_g_labels msg of None \<Rightarrow> Ok (db2, u1) | Some ls \<Rightarrow> update_labels acc ls db2 u1) = Ok (db3, u2)"
      and m: "m = update_message_metadata iter db3 now acc m0 (u_is_draft u2 \<and> draft_role (fld_canonical_name fld))"
        "messages db' = messages (put_message db3 m)"
      unfolding db2_def u1_def u0_def
      by (auto simp: create_imap_message_def res_simps Let_def dest!: update_contacts_messages)
    have "messages db3 = messages db1"
      using lab by (auto simp: db2_def split: option.splits dest!: update_labels_messages)
    with m that show ?thesis by blast
  qed
  have g: "gview m = gview m0" using B(1) by simp
  have v3: "mview db3 = mview db1" using B(2) by (simp add: mview_def)
  have "gview m \<in> set (mview db1) \<and> view_ok (mview db1)"
    using A v g view_ok_append [OF v, of "gview m0"] by (auto simp: gview_def [of m0])
  then have "mview (put_message db3 m) = mview db1" using view_put_same [of db3 m] v3 by simp
  then have "mview db' = mview db1" using B(3) by (simp add: mview_def)
  moreover have "m_id m = m_id m0" "m_namespace_id m = m_namespace_id m0" "m_g_msgid m = m_g_msgid m0"
    using g by (simp_all add: gview_def)
  ultimately show "m_namespace_id m = m_namespace_id (rm_parsed msg)"
    and "mview db' = mview db \<and> gview m \<in> set (mview db) \<or>
      mview db' = mview db @ [gview m] \<and> m_id m \<notin> fst ` set (mview db) \<and> m_g_msgid m = None"
    using A g by simp_all
qed

section \<open>Saving a download\<close>

lemma put_thread_view [simp]: "mview (db\<lparr>threads := ts\<rparr>) = mview db"
  by (simp add: mview_def)

lemma gmail_add_to_thread_view:
  assumes "gmail_add_to_thread nid db msg m = Ok db'"
  shows "mview db' = map (\<lambda>v. if fst v = m_id m then (m_id m, m_namespace_id m, ri_msgid msg) else v) (mview db)"
proof -
  let ?m = "m\<lparr>m_g_msgid := ri_msgid msg, m_g_thrid := ri_thrid msg\<rparr>"
  let ?v = "(m_id m, m_namespace_id m, ri_msgid msg)"
  have thread: "mview (set_message_thread d ?m c) = map (\<lambda>v. if fst v = m_id m then ?v else v) (mview d)" for d c
    by (cases c) (simp_all add: set_message_thread_def mview_def t_put_def gview_def Let_def split: option.split)
  have first: "mview (put_message db ?m) = map (\<lambda>v. if fst v = m_id m then ?v else v) (mview db)"
    unfolding view_put by (simp add: gview_def)
  have twice: "map (\<lambda>v. if fst v = m_id m then ?v else v) (map (\<lambda>v. if fst v = m_id m then ?v else v) vs) =
      map (\<lambda>v. if fst v = m_id m then ?v else v) vs" for vs by simp
  let ?db = "put_message db ?m"
  from assms obtain choice where "db' = set_message_thread
      (case choice of Existing th \<Rightarrow> ?db\<lparr>threads := t_put th_id (threads ?db) th\<rparr> | Fresh th \<Rightarrow> ?db) ?m choice"
    by (auto simp: gmail_add_to_thread_def Let_def res_simps)
  moreover have "mview (case choice of Existing th \<Rightarrow> ?db\<lparr>threads := t_put th_id (threads ?db) th\<rparr> | Fresh th \<Rightarrow> ?db) =
      mview ?db" by (cases choice) simp_all
  ultimately show ?thesis using thread first twice by simp
qed

text \<open>X-GM-MSGIDs of a namespace, as the view shows them.\<close>

definition known :: "nat \<Rightarrow> store \<Rightarrow> raw_imap \<Rightarrow> bool" where
  "known nid db msg \<longleftrightarrow> (nid, ri_msgid msg) \<in> snd ` set (mview db)"

lemma known_iff: "known nid db msg \<longleftrightarrow> (\<exists>m\<in>set (messages db). m_namespace_id m = nid \<and> m_g_msgid m = ri_msgid msg)"
  by (force simp: known_def mview_def gview_def)

lemma gmail_create_view:
  assumes ok: "create_message_with (gmail_add_to_thread nid) env acct folder msg db = Ok (db', r)"
    and v: "view_ok (mview db)" and new: "\<not> known nid db msg" and id: "ri_msgid msg = Some g"
    and parsed: "\<And>x. m_g_msgid (se_parsed env x) = None \<and> m_namespace_id (se_parsed env x) = nid"
  shows "view_ok (mview db')" and "known nid db' x \<Longrightarrow> ri_msgid x = None \<or> known nid db x \<or> ri_msgid x = ri_msgid msg"
proof -
  consider (same) "db' = db"
    | (new) acc fld db1 u m where "gmail_add_to_thread nid db1 msg m = Ok db'"
      "create_imap_message (se_iter env) (se_parse env) (se_fresh env) (se_now env) acc fld
         \<lparr>rm_uid = ri_uid msg, rm_flags = ri_flags msg, rm_has_body = True, rm_g_labels = ri_labels msg,
          rm_parsed = se_parsed env msg\<rparr> db = Ok (db1, u, m)"
    using ok by (auto simp: create_message_with_def res_simps split: option.splits if_split_asm)
  then have "view_ok (mview db') \<and> (known nid db' x \<longrightarrow> ri_msgid x = None \<or> known nid db x \<or> ri_msgid x = ri_msgid msg)"
  proof cases
    case same
    with v show ?thesis by simp
  next
    case (new acc fld db1 u m)
    have p: "m_g_msgid (rm_parsed \<lparr>rm_uid = ri_uid msg, rm_flags = ri_flags msg, rm_has_body = True,
        rm_g_labels = ri_labels msg, rm_parsed = se_parsed env msg\<rparr>) = None" using parsed by simp
    note c = create_imap_message_view [OF new(2) v p]
    have ns: "m_namespace_id m = nid" using c(1) parsed by simp
    have ok1: "view_ok (mview db1)" using c(2) v view_ok_append [OF v, of "gview m"] by (auto simp: gview_def)
    have sub: "w \<in> set (mview db) \<or> snd w = (nid, None)" if "w \<in> set (mview db1)" for w
      using c(2) that ns by (auto simp: gview_def)
    have "(nid, Some g) \<notin> snd ` set (mview db1)" using assms(3) sub id by (force simp: known_def)
    note change = view_ok_change [OF ok1 this, of "m_id m"]
    have mv: "mview db' = map (\<lambda>v. if fst v = m_id m then (m_id m, nid, Some g) else v) (mview db1)"
      using gmail_add_to_thread_view [OF new(1)] unfolding ns id .
    have "ri_msgid x = None \<or> known nid db x \<or> ri_msgid x = ri_msgid msg" if known: "known nid db' x"
    proof -
      obtain w where w: "w \<in> set (mview db')" "snd w = (nid, ri_msgid x)" using known by (auto simp: known_def)
      then have "w \<in> set (mview db1) \<or> snd w = (nid, Some g)" unfolding mv by (auto split: if_split_asm)
      then consider "snd w = (nid, Some g)" | "snd w = (nid, None)" | "w \<in> set (mview db)" using sub by blast
      then show ?thesis
      proof cases
        case 3
        then have "snd w \<in> snd ` set (mview db)" by blast
        then show ?thesis using w(2) by (simp add: known_def)
      qed (use w(2) id in simp_all)
    qed
    with change mv show ?thesis by simp
  qed
  then show "view_ok (mview db')" "known nid db' x \<Longrightarrow> ri_msgid x = None \<or> known nid db x \<or> ri_msgid x = ri_msgid msg"
    by blast+
qed

lemma gmail_create_messages_view:
  assumes "\<And>x. m_g_msgid (se_parsed env x) = None \<and> m_namespace_id (se_parsed env x) = nid"
  shows "gmail_create_messages env nid acct folder msgs db = (db', r) \<Longrightarrow> view_ok (mview db) \<Longrightarrow>
    \<forall>msg\<in>set msgs. ri_msgid msg \<noteq> None \<and> \<not> known nid db msg \<Longrightarrow> distinct (map ri_msgid msgs) \<Longrightarrow> view_ok (mview db')"
proof (induction msgs arbitrary: db)
  case (Cons msg msgs)
  show ?case
  proof (cases "create_message_with (gmail_add_to_thread nid) env acct folder msg db")
    case (Inl e)
    with Cons.prems show ?thesis by simp
  next
    case (Inr x)
    obtain db1 u where x: "x = (db1, u)" by (cases x)
    obtain g where g: "ri_msgid msg = Some g" "\<not> known nid db msg" using Cons.prems(3) by auto
    note c = gmail_create_view [OF Inr [unfolded x] Cons.prems(2) g(2,1) assms]
    have "\<forall>y\<in>set msgs. ri_msgid y \<noteq> None \<and> \<not> known nid db1 y"
    proof
      fix y assume y: "y \<in> set msgs"
      then have "ri_msgid y \<noteq> ri_msgid msg" using Cons.prems(4) by (metis distinct.simps(2) image_eqI list.simps(9) set_map)
      with y Cons.prems(3) c(2) [of y] show "ri_msgid y \<noteq> None \<and> \<not> known nid db1 y" by auto
    qed
    with Cons.IH [of db1] c(1) Cons.prems Inr x show ?thesis by simp
  qed
qed simp

lemma save_new_uid_view:
  assumes "save_new_uid env acct folder msg m db = Ok db'" and "view_ok (mview db)" and "m \<in> set (messages db)"
  shows "mview db' = mview db"
proof -
  from assms(1) obtain acc fld u0 db1 u2 where l: "update_labels acc (the (ri_labels msg))
      (db\<lparr>imapuids := t_add (imapuids db) u0\<rparr>) u0 = Ok (db1, u2)"
    "db' = put_message db1 (update_message_metadata (se_iter env) db1 (se_now env) acc m (u_is_draft u2))"
    by (auto simp: save_new_uid_def Let_def res_simps split: option.splits)
  have "mview db1 = mview db" using update_labels_messages [OF l(1)] by (simp add: mview_def)
  with assms(2,3) l(2) show ?thesis by (simp add: view_put_same mview_in)
qed

lemma save_known_view:
  "save_known env nid fid acct folder msgs bn db = (db', r) \<Longrightarrow> view_ok (mview db) \<Longrightarrow>
    mview db' = mview db \<and> (\<forall>new. r = Ok new \<longrightarrow> new = bn @ filter (\<lambda>msg. \<not> known nid db msg) msgs)"
proof (induction msgs arbitrary: bn db)
  case (Cons msg msgs)
  let ?q = "query_first (filter (\<lambda>m. m_namespace_id m = nid \<and> m_g_msgid m = ri_msgid msg) (messages db))"
  have q: "?q = None \<longleftrightarrow> \<not> known nid db msg"
  proof -
    have "?q = None \<longleftrightarrow> filter (\<lambda>m. m_namespace_id m = nid \<and> m_g_msgid m = ri_msgid msg) (messages db) = []"
      by (simp add: query_first_def split: list.split)
    then show ?thesis by (auto simp: known_iff filter_empty_conv)
  qed
  show ?case
  proof (cases ?q)
    case None
    with Cons.IH [of "bn @ [msg]" db] Cons.prems q show ?thesis by simp
  next
    case (Some m)
    with query_first_in [OF this] q have m: "m \<in> set (messages db)" "known nid db msg" by simp_all
    show ?thesis
    proof (cases "(\<exists>u\<in>set (message_uids db (m_id m)). u_msg_uid u = ri_uid msg \<and> u_folder_id u = fid)")
      case True
      with Cons.IH [of bn db] Cons.prems Some m show ?thesis by simp
    next
      case False
      show ?thesis
      proof (cases "save_new_uid env acct folder msg m db")
        case (Inl e)
        with Cons.prems Some False show ?thesis by auto
      next
        case (Inr db1)
        have v: "mview db1 = mview db" using save_new_uid_view [OF Inr Cons.prems(2) m(1)] .
        then have "known nid db1 = known nid db" by (simp add: known_def fun_eq_iff)
        with Cons.IH [of bn db1] Cons.prems Some False Inr m v show ?thesis by simp
      qed
    qed
  qed
qed auto

text \<open>The two queries for known X-GM-MSGIDs agree, so exactly the unknown messages are new.\<close>

lemma g_msgids_known: "msg \<in> set msgs \<Longrightarrow> ri_msgid msg \<in> g_msgids db nid (ri_msgid ` set msgs) \<longleftrightarrow> known nid db msg"
  by (auto simp: g_msgids_def namespace_msgids_def known_iff image_iff)

lemma deduplicate_view:
  assumes "deduplicate env nid aid fid msgs db = (db', r)" and "view_ok (mview db)"
  shows "mview db' = mview db" and "r = Ok new \<Longrightarrow> new = filter (\<lambda>msg. \<not> known nid db msg) msgs"
proof -
  let ?ex = "g_msgids db nid (ri_msgid ` set msgs)"
  have f: "filter (\<lambda>m. ri_msgid m \<notin> ?ex) msgs = filter (\<lambda>msg. \<not> known nid db msg) msgs"
    "filter (\<lambda>m. ri_msgid m \<in> ?ex) msgs = filter (known nid db) msgs"
    using g_msgids_known by (auto intro!: filter_cong)
  have none: "filter (\<lambda>msg. \<not> known nid db msg) (filter (known nid db) msgs) = []" by (simp add: filter_empty_conv)
  from save_known_view [OF assms(1) [unfolded deduplicate_def Let_def f] assms(2)]
  show "mview db' = mview db" "r = Ok new \<Longrightarrow> new = filter (\<lambda>msg. \<not> known nid db msg) msgs"
    unfolding none by simp_all
qed

section \<open>The engine\<close>

definition msgids_unique :: "nat \<Rightarrow> sync_sys \<Rightarrow> bool" where
  "msgids_unique nid s \<longleftrightarrow> view_ok (mview (sy_db s)) \<and> en_namespace_id (sy_eng s) = nid"

definition parser_ok :: "sync_env \<Rightarrow> nat \<Rightarrow> bool" where
  "parser_ok env nid \<longleftrightarrow> (\<forall>x. m_g_msgid (se_parsed env x) = None \<and> m_namespace_id (se_parsed env x) = nid)"

lemma raw_messages_made:
  assumes "\<And>uid d r. mk uid d = Ok r \<Longrightarrow> P r"
  shows "raw_messages mk skip wanted data uids = Ok msgs \<Longrightarrow> \<forall>r\<in>set msgs. P r"
proof (induction uids arbitrary: msgs)
  case (Cons uid uids)
  then show ?case using assms by (auto simp: res_simps split: option.splits if_split_asm)
qed simp

lemma gmail_uids_one:
  assumes "gmail_uids fetch uids = Ok msgs" and "length uids \<le> 1"
  shows "distinct (map ri_msgid msgs)" and "\<forall>msg\<in>set msgs. ri_msgid msg \<noteq> None"
proof -
  from assms obtain d where r: "raw_messages gmail_raw False (set uids) (dict_of d) (sorted_keys d) = Ok msgs"
    by (auto simp: gmail_uids_def res_simps)
  have ids: "map ri_uid msgs = filter (\<lambda>u. \<exists>x. dict_of d u = Some x \<and> u \<in> set uids \<and> \<not> (False \<and> seq_only x)) (sorted_keys d)"
    by (rule raw_messages_uids [OF _ r]) (rule gmail_raw_uid)
  have "distinct (map ri_uid msgs)" "set (map ri_uid msgs) \<subseteq> set uids"
    unfolding ids by (auto simp: sorted_keys)
  then have "length msgs \<le> length uids"
    by (metis card_length card_mono distinct_card finite_set length_map order_trans)
  with assms(2) have "length msgs \<le> 1" by simp
  then show "distinct (map ri_msgid msgs)" by (cases msgs) auto
  show "\<forall>msg\<in>set msgs. ri_msgid msg \<noteq> None"
    by (rule raw_messages_made [OF _ r]) (auto simp: gmail_raw_def res_simps)
qed

lemma gmail_download_unique:
  assumes "msgids_unique nid s" and "parser_ok env nid" and "length uids \<le> 1"
  shows "msgids_unique nid (fst (gmail_download env sv uids s))"
proof (cases "gmail_uids (sv_fetch_bodies (gs_server sv)) uids")
  case (Inl e)
  with assms(1) show ?thesis by (simp add: gmail_download_def)
next
  case (Inr msgs)
  show ?thesis
  proof (cases msgs)
    case Nil
    with Inr assms(1) show ?thesis by (simp add: gmail_download_def)
  next
    case (Cons m ms)
    note one = gmail_uids_one [OF Inr assms(3)]
    let ?aid = "en_account_id (sy_eng s)" and ?fid = "en_folder_id (sy_eng s)"
    have v: "view_ok (mview (sy_db s))" "en_namespace_id (sy_eng s) = nid" using assms(1) by (simp_all add: msgids_unique_def)
    obtain db1 r where d: "deduplicate env nid ?aid ?fid msgs (sy_db s) = (db1, r)" by fastforce
    note D = deduplicate_view [OF d v(1)]
    have v1: "view_ok (mview db1)" using D(1) v(1) by simp
    show ?thesis
    proof (cases r)
      case (Inl e)
      with Inr Cons d v v1 show ?thesis
        by (simp add: gmail_download_def with_commits_def msgids_unique_def st_bind_def)
    next
      case (Inr new)
      note new = D(2) [OF this]
      obtain db2 r2 where c: "gmail_create_messages env nid (t_get acc_id (accounts (sy_db s)) ?aid)
          (t_get fld_id (folders (sy_db s)) ?fid) new db1 = (db2, r2)" by fastforce
      have "\<forall>msg\<in>set new. ri_msgid msg \<noteq> None \<and> \<not> known nid db1 msg"
        using one(2) D(1) by (auto simp: new known_def)
      moreover have "distinct (map ri_msgid new)" using one(1) by (simp add: new distinct_map_filter_upd)
      ultimately have v2: "view_ok (mview db2)"
        using gmail_create_messages_view [OF _ c v1] assms(2) by (simp add: parser_ok_def)
      show ?thesis
        using \<open>gmail_uids _ uids = _\<close> Cons d Inr c v v1 v2
        by (cases r2) (simp_all add: gmail_download_def with_commits_def msgids_unique_def st_bind_def st_seq_def
            on_engine_def Let_def)
    qed
  qed
qed

lemma fill_batch_count: "fill_batch sv max_bytes (Suc 0) 0 [] p = Ok (batch, p1) \<Longrightarrow> length batch \<le> 1"
  by (auto simp: fill_batch.simps [of sv max_bytes "Suc 0" 0 "[]" p] fill_batch.simps [of sv max_bytes "Suc 0" _ "[_]"]
      split: if_split_asm sum.splits prod.splits option.splits)

lemma batch_loop_unique:
  assumes "parser_ok env nid" and "\<And>s. msgids_unique nid s \<Longrightarrow> msgids_unique nid (meanwhile s)"
  shows "msgids_unique nid s \<Longrightarrow> msgids_unique nid (fst (batch_loop env sv max_bytes (Suc 0) meanwhile p s))"
proof (induction p arbitrary: s rule: wf_induct_rule [OF pending_order_wf])
  case (1 p)
  show ?case
  proof (cases "fill_batch sv max_bytes (Suc 0) 0 [] p")
    case (Inl e)
    with "1.prems" show ?thesis by (simp add: batch_loop.simps [of env sv max_bytes "Suc 0" meanwhile p])
  next
    case (Inr x)
    obtain batch p1 where x: "x = (batch, p1)" by (cases x)
    obtain s1 r where d: "gmail_download env sv batch s = (s1, r)" by fastforce
    have u: "msgids_unique nid s1"
      using gmail_download_unique [OF "1.prems" assms(1) fill_batch_count [OF Inr [unfolded x]]] d by (metis fst_conv)
    have "msgids_unique nid (fst (batch_loop env sv max_bytes (Suc 0) meanwhile p1 (meanwhile s1)))" if "batch \<noteq> []"
      using "1.IH" fill_batch_order [OF Inr [unfolded x]] that assms(2) [OF u] by blast
    with Inr x d u "1.prems" show ?thesis
      by (simp add: batch_loop.simps [of env sv max_bytes "Suc 0" meanwhile p] split: sum.split)
  qed
qed

lemma download_chunks_unique:
  assumes "parser_ok env nid" and "\<And>s. msgids_unique nid s \<Longrightarrow> msgids_unique nid (meanwhile s)"
  shows "st_keeps (msgids_unique nid) (download_chunks env sv meanwhile chunks)"
proof (induction chunks)
  case (Cons uids chunks)
  have "st_keeps (msgids_unique nid) (batch_download_uids env sv MAX_DOWNLOAD_BYTES MAX_DOWNLOAD_COUNT meanwhile us meta)" for us meta
    by (rule st_keepsI) (simp add: batch_download_uids_def MAX_DOWNLOAD_COUNT_def batch_loop_unique assms split: sum.split)
  with Cons show ?case unfolding download_chunks.simps by (auto intro!: inv_intros)
qed (unfold download_chunks.simps, intro inv_intros)

lemma removal_view:
  assumes "remove_uid iter now aid fid uid db = Ok db'" and "view_ok (mview db)" shows "view_ok (mview db')"
proof -
  have del: "mview (db\<lparr>messages := t_del m_id (messages db) i\<rparr>) = filter (\<lambda>v. fst v \<noteq> i) (mview db)" for db i
    by (simp add: mview_def t_del_def filter_map comp_def gview_def)
  have settled: "view_ok (mview d')"
    if "settle_message iter now acct m d = Ok d'" "m \<in> set (messages d)" "view_ok (mview d)" for acct m d d'
  proof -
    have "mview (put_message d (m'\<lparr>m_deleted_at := t\<rparr>)) = mview d" "mview (put_message d m') = mview d"
      if "gview m' = gview m" for m' t
      using that mview_in [OF \<open>m \<in> set (messages d)\<close>] view_put_same [OF \<open>view_ok (mview d)\<close>]
      by (simp_all add: gview_def)
    then show ?thesis using that view_ok_filter [OF that(3)] del
      by (auto simp: settle_message_def Let_def split: if_split_asm option.splits)
  qed
  have uids: "mview (db\<lparr>imapuids := us\<rparr>) = mview db" for us by (simp add: mview_def)
  show ?thesis
  proof (cases "query_first (filter (\<lambda>u. u_msg_uid u = uid) (folder_uid_rows db aid fid))")
    case None
    with assms show ?thesis by (simp add: remove_uid_def)
  next
    case (Some u)
    let ?db = "db\<lparr>imapuids := t_del u_id (imapuids db) (u_id u)\<rparr>"
    show ?thesis
    proof (cases "t_get m_id (messages db) (u_message_id u)")
      case None
      with assms Some uids show ?thesis by (auto simp: remove_uid_def Let_def)
    next
      case (Some m)
      from t_get_SomeD [OF this] have "m \<in> set (messages ?db)" by simp
      moreover have "settle_message iter now (t_get acc_id (accounts db) aid) m ?db = Ok db'"
        using assms(1) \<open>query_first _ = Some u\<close> Some by (simp add: remove_uid_def Let_def)
      ultimately show ?thesis using settled assms(2) uids by simp
    qed
  qed
qed

lemma removals_view:
  "view_ok (mview db) \<Longrightarrow> view_ok (mview (fst (remove_deleted_uids iter now aid fid uids db)))"
proof (induction uids arbitrary: db)
  case (Cons uid uids)
  then show ?case using removal_view by (cases "remove_uid iter now aid fid uid db") auto
qed simp

lemma engine_steps_unique [inv_intros]:
  "st_keeps (msgids_unique nid) (engine_remove_deleted_uids env uids)"
  "st_keeps (msgids_unique nid) (update_uid_counts now n others)"
  "st_keeps (msgids_unique nid) (is_all_mail sv')"
proof -
  show "st_keeps (msgids_unique nid) (engine_remove_deleted_uids env uids)"
    by (rule st_keepsI) (simp add: engine_remove_deleted_uids_def with_commits_def msgids_unique_def case_prod_beta Let_def
        removals_view)
  show "st_keeps (msgids_unique nid) (update_uid_counts now n others)"
    by (rule st_keepsI)
      (auto simp: update_uid_counts_def with_db_def msgids_unique_def mview_def res_simps split: sum.splits)
  show "st_keeps (msgids_unique nid) (is_all_mail sv')"
    by (rule st_keepsI) (auto simp: is_all_mail_def msgids_unique_def Let_def split: option.splits sum.splits prod.splits)
qed

lemma gmail_initial_sync_unique:
  assumes "parser_ok env nid" and "\<And>s. msgids_unique nid s \<Longrightarrow> msgids_unique nid (meanwhile s)"
  shows "st_keeps (msgids_unique nid) (gmail_initial_sync_impl env sv meanwhile)"
proof -
  have rest: "st_keeps (msgids_unique nid) (st_seq (engine_remove_deleted_uids env gone)
      (st_seq (update_uid_counts (se_now env) (Some n) counts)
        (st_bind (is_all_mail (gs_server sv)) (\<lambda>all_mail.
          st_bind (st_res (uids_to_download sv n unknown all_mail)) (\<lambda>uids.
            download_chunks env sv meanwhile (chunk 1024 (rev uids)))))))" for gone n counts unknown
    by (intro inv_intros download_chunks_unique assms)
  show ?thesis
    unfolding gmail_initial_sync_impl_def Let_def
    by (intro inv_intros, rule st_keepsI, rule st_keeps_fst, rule rest)
qed

end
