(* ===== verification/Props_Gmail.thy ===== *)
theory Props_Gmail
  imports Gmail_Unique Sync_Samples "HOL-Library.Code_Target_Nat"
begin

text \<open>The properties of the Gmail sync engine.\<close>

section \<open>A sample mailbox\<close>

text \<open>
  All Mail with the UIDs 5, 6 and 8. UID 8 is another copy of the message of UID 5, and 6 and 5
  are one thread.
\<close>

definition gm_msgid :: "nat \<Rightarrow> nat" where "gm_msgid uid = (if uid = 8 then 50 else 10 * uid)"
definition gm_thrid :: "nat \<Rightarrow> nat" where "gm_thrid uid = (if uid = 6 then 50 else gm_msgid uid)"

definition gm_reply :: "nat list \<Rightarrow> g_reply" where
  "gm_reply uids = map (\<lambda>u. (u, Some (gm_msgid u), Some (gm_thrid u), Some 100)) (filter (\<lambda>u. u \<in> {5, 6, 8}) uids)"

definition gm_bodies :: "nat list \<Rightarrow> fetch_reply" where
  "gm_bodies uids = map (\<lambda>u. (u, (sample_data u)\<lparr>fd_thrid := Some (gm_thrid u), fd_msgid := Some (gm_msgid u),
     fd_labels := Some []\<rparr>)) (filter (\<lambda>u. u \<in> {5, 6, 8}) uids)"

definition gm_server :: gmail_server where
  "gm_server = \<lparr>gs_server = (sample_server 2 [5, 6, 8])\<lparr>sv_fetch_bodies := (\<lambda>us. Ok (gm_bodies us))\<rparr>,
     gs_metadata = (\<lambda>s. case s of SeqUids us \<Rightarrow> Ok (gm_reply us) | SeqFrom n \<Rightarrow> Ok (gm_reply [5, 6, 8])),
     gs_thread = (\<lambda>t. Ok (filter (\<lambda>u. gm_thrid u = t) [5, 6, 8])), gs_msgids = (\<lambda>us. Ok (gm_reply us)),
     gs_inbox = Ok [], gs_recent_inbox = Ok []\<rparr>"

definition gm_meta :: "(nat \<times> g_meta) list" where
  "gm_meta = [(6, 60, 50, 100)]"

definition gm_db :: store where
  "gm_db = sample_db\<lparr>messages := [(sample_message 1)\<lparr>m_g_msgid := Some 50\<rparr>, (sample_message 2)\<lparr>m_g_msgid := Some 7\<rparr>],
     imapuids := [sample_uid 1 1 3, sample_uid 2 2 4]\<rparr>"

definition gm_sys :: sync_sys where
  "gm_sys = \<lparr>sy_db = gm_db, sy_eng = (sample_engine ''initial'')\<lparr>en_should_idle := Some False\<rparr>,
     sy_client = sample_client\<rparr>"

section \<open>Downloading\<close>

text \<open>
  C10: The download in batches, which expands a thread only when its first message is wanted,
  equals downloading, one by one, the concatenation of the expanded threads. It leaves out none of the UIDs asked
  for, and each thread is downloaded from its newest message to its oldest. It supposes that
  the server answers the expansions.
\<close>

theorem gmail_batches_in_order:
  assumes "group_seeds (dict_of meta) (rev (sort uids)) [] = Ok gs" and "expand_all sv gs (dict_of meta) = Ok parts"
  shows "batch_download_uids env sv MAX_DOWNLOAD_BYTES MAX_DOWNLOAD_COUNT meanwhile uids meta s =
      download_in_turn env sv meanwhile (concat parts) s \<and>
    set uids \<subseteq> set (concat parts) \<and> (\<forall>us\<in>set parts. sorted (rev us))"
  using batch_download_eager [OF assms] by blast

theorem gmail_batches_in_order_witness:
  "batch_download_uids sample_env gm_server MAX_DOWNLOAD_BYTES MAX_DOWNLOAD_COUNT id [6] gm_meta gm_sys =
    download_in_turn sample_env gm_server id [8, 6, 5] gm_sys"
proof -
  have g: "group_seeds (dict_of gm_meta) (rev (sort [6])) [] = Ok [(50, [6])]" by code_simp
  have e: "expand_all gm_server [(50, [6])] (dict_of gm_meta) = Ok [[8, 6, 5]]" by code_simp
  have c: "concat [[8, 6, 5]] = [8, 6, 5 :: nat]" by simp
  from gmail_batches_in_order [OF g e, unfolded c] show ?thesis by blast
qed

text \<open>
  C9: The initial sync of a Gmail folder never makes two messages of one X-GM-MSGID in a
  namespace, also when it ends with an exception. It supposes that the parser sets the namespace and no X-GM-MSGID,
  and that the change poller keeps this, too.
\<close>

theorem gmail_messages_unique:
  assumes "parser_ok env nid" and "\<And>s. msgids_unique nid s \<Longrightarrow> msgids_unique nid (meanwhile s)"
    and "msgids_unique nid s" and "gmail_initial_sync_impl env sv meanwhile s = (s', r)"
    and "m \<in> set (messages (sy_db s'))" and "m' \<in> set (messages (sy_db s'))"
    and "m_namespace_id m = m_namespace_id m'" and "m_g_msgid m = Some g" and "m_g_msgid m' = Some g"
  shows "m_id m = m_id m'"
proof -
  have "msgids_unique nid s'"
    using gmail_initial_sync_unique [OF assms(1,2)] assms(3,4) by (rule st_keepsD)
  then have "gview m = gview m'"
    using assms(5-9) by (intro view_okD [of "mview (sy_db s')"]) (auto simp: msgids_unique_def mview_in, auto simp: gview_def)
  then show ?thesis by (simp add: gview_def)
qed

theorem gmail_messages_unique_witness:
  "\<exists>s r. gmail_initial_sync_impl sample_env gm_server id gm_sys = (s, r) \<and> r = Ok () \<and>
     map m_g_msgid (messages (sy_db s)) = [Some 50, Some 7, Some 60] \<and>
     (\<forall>m\<in>set (messages (sy_db s)). m_g_msgid m = Some 60 \<longrightarrow> m_id m = 3)"
proof -
  obtain s r where run: "gmail_initial_sync_impl sample_env gm_server id gm_sys = (s, r)" by fastforce
  have "(case gmail_initial_sync_impl sample_env gm_server id gm_sys of (s, r) \<Rightarrow>
      r = Ok () \<and> map m_g_msgid (messages (sy_db s)) = [Some 50, Some 7, Some 60] \<and>
      map m_id (messages (sy_db s)) = [1, 2, 3] \<and> map m_namespace_id (messages (sy_db s)) = [1, 1, 1])"
    by code_simp
  with run have v: "r = Ok ()" "map m_g_msgid (messages (sy_db s)) = [Some 50, Some 7, Some 60]"
    "map m_id (messages (sy_db s)) = [1, 2, 3]" "map m_namespace_id (messages (sy_db s)) = [1, 1, 1]" by simp_all
  then obtain a b c where ms: "messages (sy_db s) = [a, b, c]" "m_g_msgid c = Some 60" "m_id c = 3" by auto
  have p: "parser_ok sample_env 1" by (simp add: parser_ok_def sample_env_def sample_message_def)
  have i: "msgids_unique 1 gm_sys" by code_simp
  have "m_id m = m_id c" if "m \<in> set (messages (sy_db s))" "m_g_msgid m = Some 60" for m
  proof (rule gmail_messages_unique [OF p _ i run that(1) _ _ that(2)])
    show "m_namespace_id m = m_namespace_id c" using v(4) that(1) ms(1) by auto
  qed (use ms in simp_all)
  with run v ms(3) show ?thesis by (intro exI conjI ballI impI) auto
qed

section \<open>Resyncing\<close>

text \<open>
  After a change of UIDVALIDITY the Gmail engine, other than the generic one, keeps what it
  has: every UID of the folder is then the one under which the server has the message of the row, every row whose message
  the server still has survives, the other folders and all messages are untouched, and the new
  validity is remembered.
\<close>

theorem gmail_resync_renumbers:
  assumes "gmail_resync_impl env sv s = (s', Ok ())" and "load_folder_info s = Ok info"
    and "sv_select (gs_server sv) = Ok sel" and "\<And>v. fi_uidvalidity info = Some v \<Longrightarrow> v < si_uidvalidity sel"
    and "all_uids (sv_search (gs_server sv)) (sv_search_alt (gs_server sv)) = Ok uids"
    and "crispin_g_msgids sv uids = Ok ids"
  shows "(\<forall>u\<in>set (imapuids (sy_db s')). in_folder s u \<longrightarrow>
        (\<exists>m g. t_get m_id (messages (sy_db s)) (u_message_id u) = Some m \<and> m_g_msgid m = Some g \<and> (u_msg_uid u, g) \<in> set ids)) \<and>
    (\<forall>u\<in>set (imapuids (sy_db s)). \<forall>m g uid. in_folder s u \<and> t_get m_id (messages (sy_db s)) (u_message_id u) = Some m \<and>
        m_g_msgid m = Some g \<and> (uid, g) \<in> set ids \<longrightarrow> u_id u \<in> u_id ` set (imapuids (sy_db s'))) \<and>
    filter (\<lambda>u. \<not> in_folder s u) (imapuids (sy_db s')) = filter (\<lambda>u. \<not> in_folder s u) (imapuids (sy_db s)) \<and>
    messages (sy_db s') = messages (sy_db s) \<and>
    folder_infos (sy_db s') = t_put fi_id (folder_infos (sy_db s))
      (info\<lparr>fi_uidvalidity := Some (si_uidvalidity sel), fi_highestmodseq := None\<rparr>)"
proof -
  obtain rows where R: "resync_rows (dict_of (map (\<lambda>(uid, g). (g, uid)) ids)) (messages (sy_db s))
        (en_account_id (sy_eng s)) (en_folder_id (sy_eng s)) (imapuids (sy_db s)) = Ok rows"
    "sy_db s' = (sy_db s)\<lparr>imapuids := rows, folder_infos := t_put fi_id (folder_infos (sy_db s))
        (info\<lparr>fi_uidvalidity := Some (si_uidvalidity sel), fi_highestmodseq := None\<rparr>)\<rparr>"
    using gmail_resync_rows [OF assms] .
  note spec = resync_rows_spec [OF R(1)]
  have "\<exists>m g. t_get m_id (messages (sy_db s)) (u_message_id u) = Some m \<and> m_g_msgid m = Some g \<and> (u_msg_uid u, g) \<in> set ids"
    if u: "u \<in> set rows" "in_folder s u" for u
  proof -
    obtain x m g where x: "u = x\<lparr>u_msg_uid := u_msg_uid u\<rparr>" "t_get m_id (messages (sy_db s)) (u_message_id x) = Some m"
      "m_g_msgid m = Some g" "dict_of (map (\<lambda>(uid, g). (g, uid)) ids) g = Some (u_msg_uid u)"
      using spec(2) [OF u(1)] u(2) by (auto simp: in_folder_def)
    have "u_message_id u = u_message_id x" by (subst x(1)) simp
    with x(2,3) dict_of_Some [OF x(4)] show ?thesis by auto
  qed
  moreover have "u_id u \<in> u_id ` set rows"
    if "u \<in> set (imapuids (sy_db s))" "in_folder s u" "t_get m_id (messages (sy_db s)) (u_message_id u) = Some m"
      "m_g_msgid m = Some g" "(uid, g) \<in> set ids" for u m g uid
  proof -
    have "(g, uid) \<in> set (map (\<lambda>(uid, g). (g, uid)) ids)" using that(5) by force
    from dict_of_mem [OF this] obtain w where "dict_of (map (\<lambda>(uid, g). (g, uid)) ids) g = Some w" by blast
    with spec(3) that have "u\<lparr>u_msg_uid := w\<rparr> \<in> set rows" by (simp add: in_folder_def)
    from imageI [OF this, of u_id] show ?thesis by simp
  qed
  moreover have "filter (\<lambda>u. \<not> in_folder s u) rows = filter (\<lambda>u. \<not> in_folder s u) (imapuids (sy_db s))"
    using spec(1) by (simp add: in_folder_def)
  ultimately show ?thesis unfolding R(2) by (simp, blast)
qed

theorem gmail_resync_renumbers_witness:
  "\<exists>s. gmail_resync_impl sample_env gm_server gm_sys = (s, Ok ()) \<and> length (imapuids (sy_db s)) = 1 \<and>
     (\<forall>u\<in>set (imapuids (sy_db s)). in_folder gm_sys u \<longrightarrow> u_msg_uid u \<in> {5, 8})"
proof -
  let ?ids = "[(5, 50), (6, 60), (8, 50)]"
  let ?sel = "\<lparr>si_uidvalidity = 2, si_uidnext = Some 10\<rparr>"
  obtain s r where run: "gmail_resync_impl sample_env gm_server gm_sys = (s, r)" by fastforce
  have "(case gmail_resync_impl sample_env gm_server gm_sys of (s, r) \<Rightarrow> r = Ok () \<and> length (imapuids (sy_db s)) = 1)"
    by code_simp
  with run have r: "gmail_resync_impl sample_env gm_server gm_sys = (s, Ok ())" "length (imapuids (sy_db s)) = 1"
    by simp_all
  have h: "load_folder_info gm_sys = Ok sample_folder_info" by code_simp
  have sel: "sv_select (gs_server gm_server) = Ok ?sel" by code_simp
  have all: "all_uids (sv_search (gs_server gm_server)) (sv_search_alt (gs_server gm_server)) = Ok [5, 6, 8]" by code_simp
  have ids: "crispin_g_msgids gm_server [5, 6, 8] = Ok ?ids" by code_simp
  have "v < si_uidvalidity ?sel" if "fi_uidvalidity sample_folder_info = Some v" for v
    using that by (simp add: sample_folder_info_def)
  from gmail_resync_renumbers [OF r(1) h sel this all ids]
  have "\<forall>u\<in>set (imapuids (sy_db s)). in_folder gm_sys u \<longrightarrow>
      (\<exists>m g. t_get m_id (messages (sy_db gm_sys)) (u_message_id u) = Some m \<and> m_g_msgid m = Some g \<and> (u_msg_uid u, g) \<in> set ?ids)"
    by blast
  moreover have "g \<in> {50, 7}" if "t_get m_id (messages (sy_db gm_sys)) i = Some m" "m_g_msgid m = Some g" for i m g
    using t_get_SomeD [OF that(1)] that(2) by (auto simp: gm_sys_def gm_db_def)
  ultimately have "\<forall>u\<in>set (imapuids (sy_db s)). in_folder gm_sys u \<longrightarrow> u_msg_uid u \<in> {5, 8}" by fastforce
  with r show ?thesis by blast
qed

end
