(* ===== verification/Data_Deletion.thy ===== *)
theory Data_Deletion
  imports Account_Model
begin

text \<open>
  The deletion of an account's data and the purging of the transaction log in
  \<open>inbox/models/util.py\<close>. The statements bypass the ORM, so a table is a list of rows with
  integer columns under its SQL name, in primary-key order; only the accounts are records. The foreign keys
  are those that the models declare, and deleting a row deletes the rows that refer to it by a cascading one. Every
  statement may fail; what was executed before stays. Throttling only waits.
\<close>

section \<open>SQL\<close>

type_synonym sql_row = "string \<rightharpoonup> int"

type_synonym tables = "string \<Rightarrow> sql_row list"

record del_db =
  dl_accounts :: "account_row list"
  dl_tables :: tables
  dl_live :: "nat set"

definition hit :: "string \<times> int \<Rightarrow> sql_row \<Rightarrow> bool" where
  "hit f r \<longleftrightarrow> r (fst f) = Some (snd f)"

text \<open>\<open>DELETE ... ORDER BY key LIMIT n\<close>: the first \<open>n\<close> matching rows in that order go.\<close>

definition limit_hits :: "('r \<Rightarrow> int) \<Rightarrow> nat \<Rightarrow> ('r \<Rightarrow> bool) \<Rightarrow> 'r list \<Rightarrow> nat list" where
  "limit_hits key n P rows = take n (sort_key (\<lambda>i. key (rows ! i)) (filter (\<lambda>i. P (rows ! i)) [0..<length rows]))"

definition limit_victims :: "('r \<Rightarrow> int) \<Rightarrow> nat \<Rightarrow> ('r \<Rightarrow> bool) \<Rightarrow> 'r list \<Rightarrow> 'r list" where
  "limit_victims key n P rows = map (\<lambda>i. rows ! i) (limit_hits key n P rows)"

definition delete_limit :: "('r \<Rightarrow> int) \<Rightarrow> nat \<Rightarrow> ('r \<Rightarrow> bool) \<Rightarrow> 'r list \<Rightarrow> 'r list" where
  "delete_limit key n P rows =
     map (\<lambda>i. rows ! i) (filter (\<lambda>i. i \<notin> set (limit_hits key n P rows)) [0..<length rows])"

lemma delete_limit_spec:
  shows "filter (\<lambda>r. \<not> P r) (delete_limit key n P rows) = filter (\<lambda>r. \<not> P r) rows"
    and "length (filter P (delete_limit key n P rows)) = length (filter P rows) - n"
    and "set (delete_limit key n P rows) \<subseteq> set rows"
proof -
  let ?I = "[0..<length rows]"
  let ?hits = "filter (\<lambda>i. P (rows ! i)) ?I"
  define V where "V = set (limit_hits key n P rows)"
  have V: "V \<subseteq> set ?hits" unfolding V_def limit_hits_def by (metis set_sort set_take_subset)
  have d: "delete_limit key n P rows = map (\<lambda>i. rows ! i) (filter (\<lambda>i. i \<notin> V) ?I)"
    by (simp add: delete_limit_def V_def)
  have rows: "rows = map (\<lambda>i. rows ! i) ?I" by (rule map_nth [symmetric])
  have "filter (\<lambda>i. \<not> P (rows ! i)) (filter (\<lambda>i. i \<notin> V) ?I) = filter (\<lambda>i. \<not> P (rows ! i)) ?I"
    using V by (auto intro!: filter_cong)
  then have "filter (\<lambda>r. \<not> P r) (delete_limit key n P rows) = map (\<lambda>i. rows ! i) (filter (\<lambda>i. \<not> P (rows ! i)) ?I)"
    by (simp add: d filter_map comp_def)
  also have "\<dots> = filter (\<lambda>r. \<not> P r) (map (\<lambda>i. rows ! i) ?I)" by (simp add: filter_map comp_def)
  also have "\<dots> = filter (\<lambda>r. \<not> P r) rows" by (subst map_nth) (rule refl)
  finally show "filter (\<lambda>r. \<not> P r) (delete_limit key n P rows) = filter (\<lambda>r. \<not> P r) rows" .
  have "length (filter P (delete_limit key n P rows)) = length (filter (\<lambda>i. P (rows ! i) \<and> i \<notin> V) ?I)"
    by (simp add: d filter_map comp_def conj_commute)
  also have "\<dots> = card (set ?hits - V)"
    by (subst distinct_card [symmetric]) (auto intro!: arg_cong [where f = card])
  also have "\<dots> = length ?hits - min n (length ?hits)"
  proof -
    have "card V = min n (length ?hits)"
      unfolding V_def limit_hits_def by (subst distinct_card) (auto simp: distinct_take min_def)
    moreover have "card (set ?hits) = length ?hits" by (simp only: distinct_card distinct_filter distinct_upt)
    moreover have "card (set ?hits - V) = card (set ?hits) - card V"
      using V by (simp only: card_Diff_subset finite_subset [OF _ finite_set])
    ultimately show ?thesis by presburger
  qed
  also have "length ?hits = length (filter P (map (\<lambda>i. rows ! i) ?I))" by (simp add: filter_map comp_def)
  also have "\<dots> = length (filter P rows)" by (subst map_nth) (rule refl)
  finally show "length (filter P (delete_limit key n P rows)) = length (filter P rows) - n" by simp
  show "set (delete_limit key n P rows) \<subseteq> set rows" by (auto simp: d)
qed

lemma limit_victims_hit: "set (limit_victims key n P rows) \<subseteq> {r \<in> set rows. P r}"
proof -
  have "set (limit_hits key n P rows) \<subseteq> set (filter (\<lambda>i. P (rows ! i)) [0..<length rows])"
    unfolding limit_hits_def by (metis set_sort set_take_subset)
  then show ?thesis by (auto simp: limit_victims_def)
qed

lemma limit_split: "set rows = set (limit_victims key n P rows) \<union> set (delete_limit key n P rows)"
proof
  show "set rows \<subseteq> set (limit_victims key n P rows) \<union> set (delete_limit key n P rows)"
  proof
    fix r
    assume "r \<in> set rows"
    then obtain i where "i < length rows" "r = rows ! i" by (metis in_set_conv_nth)
    then show "r \<in> set (limit_victims key n P rows) \<union> set (delete_limit key n P rows)"
      by (cases "i \<in> set (limit_hits key n P rows)") (auto simp: limit_victims_def delete_limit_def)
  qed
  show "set (limit_victims key n P rows) \<union> set (delete_limit key n P rows) \<subseteq> set rows"
    using limit_victims_hit [of key n P rows] delete_limit_spec(3) [of key n P rows] by blast
qed

lemma delete_limit_length: "length (delete_limit key n P rows) = length rows - min n (length (filter P rows))"
proof -
  let ?d = "delete_limit key n P rows"
  have "length xs = length (filter P xs) + length (filter (\<lambda>r. \<not> P r) xs)" for xs :: "'a list"
    by (rule sum_length_filter_compl [symmetric])
  from this [of ?d] this [of rows] show ?thesis by (simp add: delete_limit_spec(1,2))
qed

lemma delete_limit_shorter: "filter P rows \<noteq> [] \<Longrightarrow> 0 < n \<Longrightarrow> length (delete_limit key n P rows) < length rows"
  by (cases rows) (auto simp: delete_limit_length)

section \<open>Foreign keys\<close>

text \<open>
  A key is the table and the column that have it and the table whose ids it refers to. When such a row is deleted,
  the referring ones are deleted or the statement is refused. The keys stand by the file of their model, and each one
  after those that delete rows of its parent.
\<close>

datatype fk_action = Cascade | Restrict

type_synonym foreign_key = "string \<times> string \<times> string \<times> fk_action"

definition namespace_keys :: "foreign_key list" where
  "namespace_keys = [(''namespace'', ''account_id'', ''account'', Cascade)]"

definition imap_account_keys :: "foreign_key list" where
  "imap_account_keys = [(''imapaccount'', ''id'', ''account'', Cascade)]"

definition gmail_keys :: "foreign_key list" where
  "gmail_keys = [(''gmailaccount'', ''id'', ''imapaccount'', Cascade),
     (''gmailauthcredentials'', ''gmailaccount_id'', ''gmailaccount'', Cascade),
     (''gmailauthcredentials'', ''refresh_token_id'', ''secret'', Cascade)]"

definition generic_keys :: "foreign_key list" where
  "generic_keys = [(''genericaccount'', ''id'', ''imapaccount'', Cascade),
     (''genericaccount'', ''imap_password_id'', ''secret'', Restrict),
     (''genericaccount'', ''smtp_password_id'', ''secret'', Restrict),
     (''genericaccount'', ''password_id'', ''secret'', Cascade)]"

definition outlook_keys :: "foreign_key list" where
  "outlook_keys = [(''outlookaccount'', ''id'', ''imapaccount'', Cascade)]"

definition oauth_keys :: "foreign_key list" where
  "oauth_keys = [(''gmailaccount'', ''refresh_token_id'', ''secret'', Restrict),
     (''outlookaccount'', ''refresh_token_id'', ''secret'', Restrict)]"

definition category_keys :: "foreign_key list" where
  "category_keys = [(''category'', ''namespace_id'', ''namespace'', Cascade)]"

definition folder_keys :: "foreign_key list" where
  "folder_keys = [(''folder'', ''account_id'', ''account'', Cascade), (''folder'', ''category_id'', ''category'', Cascade)]"

definition label_keys :: "foreign_key list" where
  "label_keys = [(''label'', ''account_id'', ''account'', Cascade), (''label'', ''category_id'', ''category'', Cascade)]"

definition thread_keys :: "foreign_key list" where
  "thread_keys = [(''thread'', ''namespace_id'', ''namespace'', Cascade)]"

definition calendar_keys :: "foreign_key list" where
  "calendar_keys = [(''calendar'', ''namespace_id'', ''namespace'', Cascade)]"

definition event_keys :: "foreign_key list" where
  "event_keys = [(''event'', ''namespace_id'', ''namespace'', Cascade), (''event'', ''calendar_id'', ''calendar'', Cascade),
     (''event'', ''message_id'', ''message'', Cascade), (''recurringevent'', ''id'', ''event'', Cascade),
     (''recurringeventoverride'', ''id'', ''event'', Cascade),
     (''recurringeventoverride'', ''master_event_id'', ''event'', Cascade)]"

definition contact_keys :: "foreign_key list" where
  "contact_keys = [(''messagecontactassociation'', ''message_id'', ''message'', Cascade)]"

definition block_keys :: "foreign_key list" where
  "block_keys = [(''block'', ''namespace_id'', ''namespace'', Cascade), (''part'', ''block_id'', ''block'', Cascade),
     (''part'', ''message_id'', ''message'', Cascade)]"

definition metadata_keys :: "foreign_key list" where
  "metadata_keys = [(''metadata'', ''namespace_id'', ''namespace'', Cascade)]"

definition data_processing_keys :: "foreign_key list" where
  "data_processing_keys = [(''dataprocessingcache'', ''namespace_id'', ''namespace'', Cascade)]"

definition action_log_keys :: "foreign_key list" where
  "action_log_keys = [(''actionlog'', ''namespace_id'', ''namespace'', Cascade)]"

definition search_keys :: "foreign_key list" where
  "search_keys = [(''contactsearchindexcursor'', ''transaction_id'', ''transaction'', Restrict)]"

definition imap_keys :: "foreign_key list" where
  "imap_keys =
     [(''imapuid'', ''account_id'', ''imapaccount'', Cascade), (''imapuid'', ''message_id'', ''message'', Cascade),
      (''imapuid'', ''folder_id'', ''folder'', Cascade), (''imapfolderinfo'', ''account_id'', ''imapaccount'', Cascade),
      (''imapfolderinfo'', ''folder_id'', ''folder'', Cascade), (''imapthread'', ''id'', ''thread'', Cascade),
      (''imapfoldersyncstatus'', ''account_id'', ''imapaccount'', Cascade),
      (''imapfoldersyncstatus'', ''folder_id'', ''folder'', Cascade), (''labelitem'', ''imapuid_id'', ''imapuid'', Cascade),
      (''labelitem'', ''label_id'', ''label'', Cascade)]"

definition foreign_keys :: "foreign_key list" where
  "foreign_keys = namespace_keys @ imap_account_keys @ gmail_keys @ generic_keys @ outlook_keys @ oauth_keys @ category_keys @
     folder_keys @ label_keys @ thread_keys @ calendar_keys @ event_keys @ contact_keys @ block_keys @ metadata_keys @
     data_processing_keys @ action_log_keys @ search_keys @ imap_keys"

lemmas foreign_keys_defs = foreign_keys_def namespace_keys_def imap_account_keys_def gmail_keys_def generic_keys_def outlook_keys_def
  oauth_keys_def category_keys_def folder_keys_def label_keys_def thread_keys_def calendar_keys_def event_keys_def contact_keys_def
  block_keys_def metadata_keys_def data_processing_keys_def action_log_keys_def search_keys_def imap_keys_def

definition row_ids :: "sql_row list \<Rightarrow> int list" where
  "row_ids rows = List.map_filter (\<lambda>r. r ''id'') rows"

definition refers :: "string \<Rightarrow> int list \<Rightarrow> sql_row \<Rightarrow> bool" where
  "refers col ids r = (case r col of None \<Rightarrow> False | Some i \<Rightarrow> i \<in> set ids)"

text \<open>\<open>gone\<close> are the ids that the statement has deleted so far, by their table.\<close>

fun cascade :: "foreign_key list \<Rightarrow> (string \<Rightarrow> int list) \<Rightarrow> tables \<Rightarrow> ((string \<Rightarrow> int list) \<times> tables) res" where
  "cascade [] gone ts = Ok (gone, ts)"
| "cascade ((child, col, parent, act) # fks) gone ts =
     (let hits = filter (refers col (gone parent)) (ts child)
      in case act of
           Restrict \<Rightarrow> if hits = [] then cascade fks gone ts else Raise IntegrityError
         | Cascade \<Rightarrow> cascade fks (gone(child := row_ids hits @ gone child))
                        (ts(child := filter (\<lambda>r. \<not> refers col (gone parent) r) (ts child))))"

text \<open>The key of an account's calendar for events that came by mail is the only one that is set to null.\<close>

definition reset_calendar :: "int set \<Rightarrow> account_row \<Rightarrow> account_row" where
  "reset_calendar ids a =
     (case acc_emailed_calendar_id a of
        None \<Rightarrow> a
      | Some c \<Rightarrow> if int c \<in> ids then a\<lparr>acc_emailed_calendar_id := None\<rparr> else a)"

text \<open>One statement, which takes the victims out of a table and leaves the rest; a refused one changes nothing.\<close>

definition sql_delete :: "string \<Rightarrow> sql_row list \<Rightarrow> sql_row list \<Rightarrow> (del_db, unit) st" where
  "sql_delete t victims rest db =
     (case cascade foreign_keys ((\<lambda>_. [])(t := row_ids victims)) ((dl_tables db)(t := rest)) of
        Inl e \<Rightarrow> (db, Raise e)
      | Inr (gone, ts) \<Rightarrow>
          (db\<lparr>dl_accounts := map (reset_calendar (set (gone ''calendar''))) (dl_accounts db), dl_tables := ts\<rparr>, Ok ()))"

section \<open>Deleting in batches\<close>

definition CHUNK_SIZE :: nat where "CHUNK_SIZE = 1000"

definition DELETE_LIMIT :: nat where "DELETE_LIMIT = 2000"

text \<open>The number of batches, rounded up.\<close>

definition batch_count :: "nat \<Rightarrow> nat" where
  "batch_count count = (count + CHUNK_SIZE - 1) div CHUNK_SIZE"

definition batch_key :: "string \<Rightarrow> sql_row \<Rightarrow> int" where
  "batch_key table r =
     (if table = ''message'' then - (case r ''received_date'' of None \<Rightarrow> 0 | Some d \<Rightarrow> d) else 0)"

text \<open>Which statements fail: the number of the statement on its table.\<close>

type_synonym failures = "string \<Rightarrow> nat \<Rightarrow> bool"

fun delete_batches :: "failures \<Rightarrow> bool \<Rightarrow> string \<Rightarrow> string \<times> int \<Rightarrow> nat \<Rightarrow> nat \<Rightarrow> (del_db, unit) st" where
  "delete_batches fails dry table f k 0 db = (db, Ok ())"
| "delete_batches fails dry table f k (Suc n) db =
     (if dry then delete_batches fails dry table f (Suc k) n db
      else if fails table k then (db, Raise (OperationalError []))
      else (let rows = dl_tables db table; key = batch_key table
            in st_bind (sql_delete table (limit_victims key DELETE_LIMIT (hit f) rows) (delete_limit key DELETE_LIMIT (hit f) rows))
                 (\<lambda>_. delete_batches fails dry table f (Suc k) n) db))"

definition batch_delete :: "failures \<Rightarrow> bool \<Rightarrow> string \<times> string \<times> int \<Rightarrow> (del_db, unit) st" where
  "batch_delete fails dry tf db =
     (case tf of (table, f) \<Rightarrow>
        if fails table 0 then (db, Raise (OperationalError []))
        else (let count = length (filter (hit f) (dl_tables db table))
              in if count = 0 then (db, Ok ())
                 else delete_batches fails dry table f 1 (batch_count count) db))"

definition bulk_delete :: "failures \<Rightarrow> bool \<Rightarrow> string \<times> string \<times> int \<Rightarrow> (del_db, unit) st" where
  "bulk_delete fails dry tf db =
     (case tf of (table, f) \<Rightarrow>
        if dry then (db, Ok ())
        else if fails table 0 then (db, Raise (OperationalError []))
        else (let rows = dl_tables db table in sql_delete table (filter (hit f) rows) (filter (\<lambda>r. \<not> hit f r) rows) db))"

fun each_table :: "(string \<times> string \<times> int \<Rightarrow> (del_db, unit) st) \<Rightarrow> (string \<times> string \<times> int) list \<Rightarrow> (del_db, unit) st" where
  "each_table f [] = st_ok ()"
| "each_table f (t # ts) = st_bind (f t) (\<lambda>_. each_table f ts)"

section \<open>Deleting a namespace\<close>

definition batch_tables :: "string \<Rightarrow> int \<Rightarrow> int \<Rightarrow> (string \<times> string \<times> int) list" where
  "batch_tables discriminator nid aid =
     map (\<lambda>t. (t, ''namespace_id'', nid))
       [''message'', ''block'', ''thread'', ''transaction'', ''actionlog'', ''contact'', ''event'', ''dataprocessingcache''] @
     (if discriminator = ''easaccount''
      then [(''easuid'', ''easaccount_id'', aid), (''easfoldersyncstatus'', ''account_id'', aid)]
      else [(''imapuid'', ''account_id'', aid), (''imapfoldersyncstatus'', ''account_id'', aid),
            (''imapfolderinfo'', ''account_id'', aid)])"

definition bulk_tables :: "int \<Rightarrow> int \<Rightarrow> (string \<times> string \<times> int) list" where
  "bulk_tables nid aid =
     [(''category'', ''namespace_id'', nid), (''calendar'', ''namespace_id'', nid), (''folder'', ''account_id'', aid),
      (''label'', ''account_id'', aid), (''namespace'', ''id'', nid)]"

text \<open>The account of a namespace, by the join over the namespace's foreign key.\<close>

definition namespace_account :: "del_db \<Rightarrow> nat \<Rightarrow> account_row res" where
  "namespace_account db nid =
     (case filter (\<lambda>(r, a). r ''id'' = Some (int nid) \<and> r ''account_id'' = Some (int (acc_id a)))
            (List.product (dl_tables db ''namespace'') (dl_accounts db)) of
        [] \<Rightarrow> Raise (AccountDeletionError ''Could not find account in database'')
      | [(r, a)] \<Rightarrow> Ok a
      | _ \<Rightarrow> Raise MultipleResultsFound)"

text \<open>
  The account is deleted by the ORM, with the secrets of its tokens and of its old password, whose relationships
  cascade; those of the passwords for IMAP and SMTP do not. One transaction: it is deleted with all of them or not at all.
\<close>

definition secret_refs :: "tables \<Rightarrow> int \<Rightarrow> string \<Rightarrow> string \<Rightarrow> string \<Rightarrow> int list" where
  "secret_refs ts aid table owner col = List.map_filter (\<lambda>r. r col) (filter (\<lambda>r. r owner = Some aid) (ts table))"

definition account_secrets :: "tables \<Rightarrow> int \<Rightarrow> int list" where
  "account_secrets ts aid =
     secret_refs ts aid ''genericaccount'' ''id'' ''password_id'' @ secret_refs ts aid ''gmailaccount'' ''id'' ''refresh_token_id'' @
     secret_refs ts aid ''outlookaccount'' ''id'' ''refresh_token_id'' @
     secret_refs ts aid ''gmailauthcredentials'' ''gmailaccount_id'' ''refresh_token_id''"

definition delete_account_row :: "failures \<Rightarrow> bool \<Rightarrow> nat \<Rightarrow> (del_db, unit) st" where
  "delete_account_row fails dry aid db =
     (if dry then (db, Ok ())
      else if fails ''account'' 0 then (db, Raise (OperationalError []))
      else (let secrets = account_secrets (dl_tables db) (int aid)
            in case st_bind (sql_delete ''account'' [[''id'' \<mapsto> int aid]] (dl_tables db ''account'')) (\<lambda>_ d.
                      (let rows = dl_tables d ''secret''
                       in sql_delete ''secret'' (filter (refers ''id'' secrets) rows) (filter (\<lambda>r. \<not> refers ''id'' secrets r) rows) d)) db of
                 (d, Inl e) \<Rightarrow> (db, Raise e)
               | (d, Inr _) \<Rightarrow> (d\<lparr>dl_accounts := t_del acc_id (dl_accounts d) aid\<rparr>, Ok ())))"

text \<open>The heartbeats are cleared in a dry run, too.\<close>

definition delete_namespace :: "failures \<Rightarrow> bool \<Rightarrow> nat \<Rightarrow> (del_db, unit) st" where
  "delete_namespace fails dry nid db =
     (case namespace_account db nid of
        Inl e \<Rightarrow> (db, Raise e)
      | Inr a \<Rightarrow>
          if \<not> is_marked_for_deletion a
          then (db, Raise (AccountDeletionError ''Account is_marked_for_deletion is False. Change this to proceed with deletion.''))
          else st_bind (each_table (batch_delete fails dry) (batch_tables (acc_discriminator a) (int nid) (int (acc_id a)))) (\<lambda>_.
                 st_bind (each_table (bulk_delete fails dry) (bulk_tables (int nid) (int (acc_id a)))) (\<lambda>_.
                   st_bind (delete_account_row fails dry (acc_id a)) (\<lambda>_ db.
                     (db\<lparr>dl_live := dl_live db - {acc_id a}\<rparr>, Ok ())))) db)"

text \<open>An account that has lost its namespace ends the whole query.\<close>

fun marked_ids :: "sql_row list \<Rightarrow> account_row list \<Rightarrow> (nat \<times> nat) list res" where
  "marked_ids namespaces [] = Ok []"
| "marked_ids namespaces (a # as) =
     (if \<not> is_marked_for_deletion a then marked_ids namespaces as
      else case List.find (\<lambda>r. r ''account_id'' = Some (int (acc_id a))) namespaces of
             None \<Rightarrow> Raise AttributeError
           | Some r \<Rightarrow> res_bind (marked_ids namespaces as) (\<lambda>ids.
               Ok ((acc_id a, (case r ''id'' of None \<Rightarrow> 0 | Some i \<Rightarrow> nat i)) # ids)))"

definition get_accounts_to_delete :: "del_db \<Rightarrow> (nat \<times> nat) list res" where
  "get_accounts_to_delete db = marked_ids (dl_tables db ''namespace'') (dl_accounts db)"

text \<open>Any exception of one deletion is logged; the count includes the failed ones.\<close>

fun batch_delete_namespaces :: "(nat \<Rightarrow> failures) \<Rightarrow> bool \<Rightarrow> (nat \<times> nat) list \<Rightarrow> del_db \<Rightarrow> del_db \<times> nat" where
  "batch_delete_namespaces fails dry [] db = (db, 0)"
| "batch_delete_namespaces fails dry ((aid, nid) # ids) db =
     (let (db1, n) = batch_delete_namespaces fails dry ids (fst (delete_namespace (fails nid) dry nid db))
      in (db1, Suc n))"

section \<open>Throttling\<close>

text \<open>The replies of the two checks and the hour; the window may wrap around midnight.\<close>

definition backup_window :: "int \<Rightarrow> int \<Rightarrow> int \<Rightarrow> bool" where
  "backup_window start duration hour =
     (let stop = (start + duration) mod 24
      in (hour \<ge> start \<and> hour < min (start + duration) 24) \<or> (stop \<le> start \<and> hour < stop \<and> hour \<ge> stop - duration))"

definition check_throttle :: "int \<Rightarrow> int \<Rightarrow> int \<Rightarrow> bool" where
  "check_throttle lag_status cpu_status hour =
     (if lag_status \<noteq> 200 \<or> cpu_status \<noteq> 200 then True else backup_window 8 9 hour)"

section \<open>Purging the transaction log\<close>

text \<open>
  The rows as their creation times in primary-key order. The kth query deletes what is older than \<open>cutoff k\<close>: without
  a time that was given, each query reads the clock itself. The result has the rows left and the number of queries
  that were executed. A failing query is logged and ends the purge.
\<close>

function purge_loop :: "(nat \<Rightarrow> bool) \<Rightarrow> nat \<Rightarrow> (nat \<Rightarrow> datetime) \<Rightarrow> nat \<Rightarrow> int list \<Rightarrow> int list \<times> nat" where
  "purge_loop fails limit cutoff k rows =
     (if fails k then (rows, k)
      else (let rowcount = min limit (length (filter (\<lambda>t. t < cutoff k) rows));
                rest = delete_limit (\<lambda>_. 0) limit (\<lambda>t. t < cutoff k) rows
            in if rowcount > 0 then purge_loop fails limit cutoff (Suc k) rest else (rest, Suc k)))"
  by pat_completeness auto
termination
  by (relation "measure (\<lambda>(fails, limit, cutoff, k, rows). length rows)")
    (auto simp: delete_limit_length intro!: diff_less dest: length_pos_if_in_set)

declare purge_loop.simps [simp del]

text \<open>In a dry run the rows are selected behind those of the queries before.\<close>

function purge_dry_loop :: "(nat \<Rightarrow> bool) \<Rightarrow> nat \<Rightarrow> (nat \<Rightarrow> datetime) \<Rightarrow> nat \<Rightarrow> nat \<Rightarrow> int list \<Rightarrow> nat" where
  "purge_dry_loop fails limit cutoff k offset rows =
     (if fails k then k
      else (let rowcount = min limit (length (filter (\<lambda>t. t < cutoff k) rows) - offset)
            in if rowcount > 0 then purge_dry_loop fails limit cutoff (Suc k) (offset + rowcount) rows else Suc k))"
  by pat_completeness auto
termination
proof (relation "measure (\<lambda>(fails, limit, cutoff, k, offset, rows). length rows - offset)")
  fix fails :: "nat \<Rightarrow> bool" and limit k offset rowcount :: nat and cutoff :: "nat \<Rightarrow> datetime" and rows :: "int list"
  assume "rowcount = min limit (length (filter (\<lambda>t. t < cutoff k) rows) - offset)" "0 < rowcount"
  moreover have "length rows - (offset + rowcount) < length rows - offset"
    if "n \<le> length rows" "rowcount = min limit (n - offset)" "0 < rowcount" for n
    using that by (simp add: min_def split: if_split_asm)
  ultimately show "((fails, limit, cutoff, Suc k, offset + rowcount, rows), fails, limit, cutoff, k, offset, rows)
      \<in> measure (\<lambda>(fails, limit, cutoff, k, offset, rows). length rows - offset)"
    using length_filter_le by simp
qed simp

declare purge_dry_loop.simps [simp del]

section \<open>What a statement does\<close>

lemma cascade_shrinks:
  "cascade fks gone ts = Ok (gone', ts') \<Longrightarrow>
     set (ts' t) \<subseteq> set (ts t) \<and> length (filter P (ts' t)) \<le> length (filter P (ts t)) \<and> set (gone p) \<subseteq> set (gone' p)"
proof (induction fks gone ts rule: cascade.induct)
  case (2 child col parent act fks gone ts)
  show ?case
  proof (cases act)
    case Cascade
    let ?gone = "gone(child := row_ids (filter (refers col (gone parent)) (ts child)) @ gone child)"
    let ?ts = "ts(child := filter (\<lambda>r. \<not> refers col (gone parent) r) (ts child))"
    have run: "cascade fks ?gone ?ts = Ok (gone', ts')" using 2(3) Cascade by (simp add: Let_def)
    have "set (ts' t) \<subseteq> set (?ts t) \<and> length (filter P (ts' t)) \<le> length (filter P (?ts t)) \<and> set (?gone p) \<subseteq> set (gone' p)"
      using 2(1) [OF refl Cascade run] .
    moreover have "length (filter P (?ts t)) \<le> length (filter P (ts t))"
      using length_filter_le [of "\<lambda>r. \<not> refers col (gone parent) r" "filter P (ts child)"]
      by (simp add: filter_filter conj_commute)
    ultimately show ?thesis by (auto split: if_split_asm)
  next
    case Restrict
    with 2 show ?thesis by (auto simp: Let_def split: if_split_asm)
  qed
qed simp

lemma cascade_gone:
  "cascade fks gone ts = Ok (gone', ts') \<Longrightarrow> r \<in> set (ts t) \<Longrightarrow> r \<notin> set (ts' t) \<Longrightarrow> r ''id'' = Some i \<Longrightarrow> i \<in> set (gone' t)"
proof (induction fks gone ts rule: cascade.induct)
  case (2 child col parent act fks gone ts)
  show ?case
  proof (cases act)
    case Cascade
    let ?hits = "filter (refers col (gone parent)) (ts child)"
    let ?gone = "gone(child := row_ids ?hits @ gone child)"
    let ?ts = "ts(child := filter (\<lambda>r. \<not> refers col (gone parent) r) (ts child))"
    have run: "cascade fks ?gone ?ts = Ok (gone', ts')" using 2(3) Cascade by (simp add: Let_def)
    show ?thesis
    proof (cases "r \<in> set (?ts t)")
      case True
      with 2(1) [OF refl Cascade run] 2(5,6) show ?thesis by blast
    next
      case False
      with 2(4) have "t = child" "r \<in> set ?hits" by (auto split: if_split_asm)
      with 2(6) have "i \<in> set (?gone t)" by (force simp: row_ids_def set_map_filter)
      with cascade_shrinks [OF run, of t _ t] show ?thesis by blast
    qed
  next
    case Restrict
    with 2 show ?thesis by (auto simp: Let_def split: if_split_asm)
  qed
qed simp

text \<open>In an order with the parents first, no row that is left refers to a deleted one.\<close>

fun parents_first :: "foreign_key list \<Rightarrow> bool" where
  "parents_first [] \<longleftrightarrow> True"
| "parents_first ((child, col, parent, act) # fks) \<longleftrightarrow>
     child \<noteq> parent \<and> list_all (\<lambda>(c, _, _, a). a = Cascade \<longrightarrow> c \<noteq> parent) fks \<and> parents_first fks"

lemma foreign_keys_ordered: "parents_first foreign_keys"
  by code_simp

lemma cascade_parent:
  "cascade fks gone ts = Ok (gone', ts') \<Longrightarrow> list_all (\<lambda>(c, _, _, a). a = Cascade \<longrightarrow> c \<noteq> p) fks \<Longrightarrow> gone' p = gone p"
proof (induction fks gone ts rule: cascade.induct)
  case (2 child col parent act fks gone ts)
  show ?case
  proof (cases act)
    case Cascade
    let ?gone = "gone(child := row_ids (filter (refers col (gone parent)) (ts child)) @ gone child)"
    let ?ts = "ts(child := filter (\<lambda>r. \<not> refers col (gone parent) r) (ts child))"
    have run: "cascade fks ?gone ?ts = Ok (gone', ts')" using 2(3) Cascade by (simp add: Let_def)
    have "gone' p = ?gone p" using 2(1) [OF refl Cascade run] 2(4) by simp
    with 2(4) Cascade show ?thesis by auto
  next
    case Restrict
    with 2 show ?thesis by (auto simp: Let_def split: if_split_asm)
  qed
qed simp

lemma cascade_complete:
  "parents_first fks \<Longrightarrow> cascade fks gone ts = Ok (gone', ts') \<Longrightarrow> (c, col, p, Cascade) \<in> set fks \<Longrightarrow>
     r \<in> set (ts' c) \<Longrightarrow> i \<in> set (gone' p) \<Longrightarrow> r col \<noteq> Some i"
proof (induction fks gone ts rule: cascade.induct)
  case (2 child col1 parent act fks gone ts)
  show ?case
  proof (cases act)
    case Cascade
    let ?gone = "gone(child := row_ids (filter (refers col1 (gone parent)) (ts child)) @ gone child)"
    let ?ts = "ts(child := filter (\<lambda>r. \<not> refers col1 (gone parent) r) (ts child))"
    have run: "cascade fks ?gone ?ts = Ok (gone', ts')" using 2(4) Cascade by (simp add: Let_def)
    show ?thesis
    proof (cases "(c, col, p, Cascade) \<in> set fks")
      case True
      with 2(1) [OF refl Cascade _ run] 2(3,6,7) show ?thesis by simp
    next
      case False
      with 2(5) have [simp]: "c = child" "col = col1" "p = parent" by auto
      have "gone' parent = ?gone parent" using cascade_parent [OF run] 2(3) by simp
      then have "gone' parent = gone parent" using 2(3) by auto
      moreover have "r \<in> set (?ts child)" using cascade_shrinks [OF run, of child] 2(6) by auto
      ultimately show ?thesis using 2(7) by (auto simp: refers_def)
    qed
  next
    case Restrict
    with 2 show ?thesis by (auto simp: Let_def split: if_split_asm)
  qed
qed simp

text \<open>The tables a statement can reach.\<close>

fun reached :: "foreign_key list \<Rightarrow> string list \<Rightarrow> string list" where
  "reached [] S = S"
| "reached ((child, col, parent, act) # fks) S =
     reached fks (if parent \<in> set S \<and> act = Cascade then child # S else S)"

lemma reached_more: "set S \<subseteq> set (reached fks S)"
  by (induction fks S rule: reached.induct) auto

lemma cascade_untouched:
  "cascade fks gone ts = Ok (gone', ts') \<Longrightarrow> (\<And>p. p \<notin> set S \<Longrightarrow> gone p = []) \<Longrightarrow> t \<notin> set (reached fks S) \<Longrightarrow> ts' t = ts t"
proof (induction fks gone ts arbitrary: S rule: cascade.induct)
  case (2 child col parent act fks gone ts)
  show ?case
  proof (cases act)
    case Cascade
    let ?hits = "filter (refers col (gone parent)) (ts child)"
    let ?gone = "gone(child := row_ids ?hits @ gone child)"
    let ?ts = "ts(child := filter (\<lambda>r. \<not> refers col (gone parent) r) (ts child))"
    let ?S = "if parent \<in> set S \<and> act = Cascade then child # S else S"
    have run: "cascade fks ?gone ?ts = Ok (gone', ts')" using 2(3) Cascade by (simp add: Let_def)
    have none: "?hits = []" "?ts = ts" if "parent \<notin> set S"
      using 2(4) [OF that] by (auto simp: refers_def fun_eq_iff split: option.splits)
    have t: "t \<notin> set (reached fks ?S)" using 2(5) by simp
    then have "t \<notin> set ?S" using reached_more [of ?S fks] by blast
    moreover have "ts' t = ?ts t"
    proof (rule 2(1) [OF refl Cascade run _ t])
      show "?gone p = []" if "p \<notin> set ?S" for p
        using that none 2(4) Cascade by (cases "parent \<in> set S") (auto simp: row_ids_def split: if_split_asm)
    qed
    ultimately show ?thesis using none Cascade by (cases "parent \<in> set S") (auto split: if_split_asm)
  next
    case Restrict
    with 2 show ?thesis by (auto simp: Let_def split: if_split_asm)
  qed
qed simp

lemma sql_delete_untouched:
  "sql_delete t victims rest db = (db', r) \<Longrightarrow> u \<notin> set (reached foreign_keys [t]) \<Longrightarrow> dl_tables db' u = dl_tables db u"
proof -
  assume run: "sql_delete t victims rest db = (db', r)" and u: "u \<notin> set (reached foreign_keys [t])"
  have "u \<noteq> t" using u reached_more [of "[t]" foreign_keys] by auto
  show ?thesis
  proof (cases "cascade foreign_keys ((\<lambda>_. [])(t := row_ids victims)) ((dl_tables db)(t := rest))")
    case (Inr x)
    obtain gone ts where x: "x = (gone, ts)" by (cases x)
    from cascade_untouched [OF Inr [unfolded x], of "[t]" u] u \<open>u \<noteq> t\<close> run Inr x show ?thesis
      by (auto simp: sql_delete_def)
  qed (use run in \<open>auto simp: sql_delete_def\<close>)
qed
section \<open>What a deletion does\<close>

text \<open>Ids of a table that rows with them have lost, and rows left without the row they refer to: there are none.\<close>

definition lost_ids :: "tables \<Rightarrow> tables \<Rightarrow> string \<Rightarrow> int set" where
  "lost_ids old new t = {i. \<exists>r\<in>set (old t) - set (new t). r ''id'' = Some i}"

definition linked :: "tables \<Rightarrow> tables \<Rightarrow> bool" where
  "linked old new \<longleftrightarrow>
     (\<forall>(child, col, parent, act)\<in>set foreign_keys. act = Cascade \<longrightarrow>
        (\<forall>r\<in>set (new child). \<forall>i\<in>lost_ids old new parent. r col \<noteq> Some i))"

definition smaller :: "tables \<Rightarrow> tables \<Rightarrow> bool" where
  "smaller new old \<longleftrightarrow> (\<forall>t. set (new t) \<subseteq> set (old t))"

text \<open>A step that deletes only rows of D, whose ids are in K, and nothing else.\<close>

definition deletes :: "(string \<Rightarrow> sql_row \<Rightarrow> bool) \<Rightarrow> (string \<Rightarrow> int \<Rightarrow> bool) \<Rightarrow> del_db \<Rightarrow> del_db \<Rightarrow> bool" where
  "deletes D K db db' \<longleftrightarrow> dl_live db' = dl_live db \<and>
     smaller (dl_tables db') (dl_tables db) \<and> linked (dl_tables db) (dl_tables db') \<and>
     (\<forall>t P. (\<forall>r. D t r \<longrightarrow> \<not> P r) \<longrightarrow> filter P (dl_tables db' t) = filter P (dl_tables db t)) \<and>
     (\<exists>ids. dl_accounts db' = map (reset_calendar ids) (dl_accounts db) \<and>
        lost_ids (dl_tables db) (dl_tables db') ''calendar'' \<subseteq> ids \<and> ids \<subseteq> Collect (K ''calendar''))"

lemma reset_calendar_none [simp]: "reset_calendar {} = id"
  by (auto simp: reset_calendar_def fun_eq_iff split: option.split)

lemma reset_calendar_twice: "reset_calendar B (reset_calendar A a) = reset_calendar (A \<union> B) a"
  by (auto simp: reset_calendar_def split: option.splits)

lemma reset_calendar_id [simp]: "acc_id (reset_calendar A a) = acc_id a"
  by (simp add: reset_calendar_def split: option.split)

lemma lost_ids_same [simp]: "lost_ids ts ts t = {}"
  by (simp add: lost_ids_def)

lemma lost_ids_two: "lost_ids a c t \<subseteq> lost_ids a b t \<union> lost_ids b c t"
  by (auto simp: lost_ids_def)

lemma smaller_refl [simp]: "smaller ts ts"
  by (simp add: smaller_def)

lemma smaller_trans: "smaller b a \<Longrightarrow> smaller c b \<Longrightarrow> smaller c a"
  unfolding smaller_def by blast

lemma linked_refl [simp]: "linked ts ts"
  by (simp add: linked_def case_prod_unfold)

lemma linkedD:
  "linked old new \<Longrightarrow> (child, col, parent, Cascade) \<in> set foreign_keys \<Longrightarrow> r \<in> set (new child) \<Longrightarrow> i \<in> lost_ids old new parent \<Longrightarrow>
     r col \<noteq> Some i"
  unfolding linked_def by (drule (1) bspec) simp

lemma linked_trans:
  assumes "linked a b" and "linked b c" and "smaller c b"
  shows "linked a c"
  unfolding linked_def
proof (clarify)
  fix child col parent r i
  assume fk: "(child, col, parent, Cascade) \<in> set foreign_keys" and r: "r \<in> set (c child)"
    and i: "i \<in> lost_ids a c parent" "r col = Some i"
  have "r \<in> set (b child)" using r assms(3) by (auto simp: smaller_def)
  moreover have "i \<in> lost_ids a b parent \<or> i \<in> lost_ids b c parent" using lost_ids_two i(1) by blast
  ultimately show False using linkedD [OF assms(1) fk] linkedD [OF assms(2) fk] r i(2) by blast
qed

lemma deletes_refl: "deletes D K db db"
  unfolding deletes_def by (auto intro!: exI [of _ "{}"])

lemma deletes_accounts:
  assumes "deletes D K db db'"
  obtains ids where "dl_accounts db' = map (reset_calendar ids) (dl_accounts db)"
    "lost_ids (dl_tables db) (dl_tables db') ''calendar'' \<subseteq> ids" "ids \<subseteq> Collect (K ''calendar'')"
  using assms unfolding deletes_def by (elim conjE exE) (rule that)

lemma deletes_tables:
  assumes "deletes D K db db'"
  shows "dl_live db' = dl_live db" and "smaller (dl_tables db') (dl_tables db)" and "linked (dl_tables db) (dl_tables db')"
    and "(\<And>r. D t r \<Longrightarrow> \<not> P r) \<Longrightarrow> filter P (dl_tables db' t) = filter P (dl_tables db t)"
  using assms unfolding deletes_def by simp_all

lemma deletes_trans:
  assumes a: "deletes D K db1 db2" and b: "deletes D K db2 db3"
  shows "deletes D K db1 db3"
proof -
  from deletes_accounts [OF a] obtain A where A: "dl_accounts db2 = map (reset_calendar A) (dl_accounts db1)"
      "lost_ids (dl_tables db1) (dl_tables db2) ''calendar'' \<subseteq> A" "A \<subseteq> Collect (K ''calendar'')" .
  from deletes_accounts [OF b] obtain B where B: "dl_accounts db3 = map (reset_calendar B) (dl_accounts db2)"
      "lost_ids (dl_tables db2) (dl_tables db3) ''calendar'' \<subseteq> B" "B \<subseteq> Collect (K ''calendar'')" .
  have "dl_accounts db3 = map (reset_calendar (A \<union> B)) (dl_accounts db1)"
    using A B by (simp add: reset_calendar_twice)
  moreover have "lost_ids (dl_tables db1) (dl_tables db3) ''calendar'' \<subseteq> A \<union> B"
    using A(2) B(2) lost_ids_two [of "dl_tables db1" "dl_tables db3" "''calendar''" "dl_tables db2"] by blast
  moreover have "A \<union> B \<subseteq> Collect (K ''calendar'')" using A(3) B(3) by blast
  ultimately have "\<exists>ids. dl_accounts db3 = map (reset_calendar ids) (dl_accounts db1) \<and>
      lost_ids (dl_tables db1) (dl_tables db3) ''calendar'' \<subseteq> ids \<and> ids \<subseteq> Collect (K ''calendar'')" by blast
  moreover have "linked (dl_tables db1) (dl_tables db3)"
    by (rule linked_trans [OF deletes_tables(3) [OF a] deletes_tables(3,2) [OF b]])
  moreover have "smaller (dl_tables db3) (dl_tables db1)"
    by (rule smaller_trans [OF deletes_tables(2) [OF a] deletes_tables(2) [OF b]])
  moreover have "filter P (dl_tables db3 t) = filter P (dl_tables db1 t)" if "\<forall>r. D t r \<longrightarrow> \<not> P r" for t P
    using that deletes_tables(4) [OF a, of t P] deletes_tables(4) [OF b, of t P] by simp
  ultimately show ?thesis
    using deletes_tables(1) [OF a] deletes_tables(1) [OF b] unfolding deletes_def by simp
qed

definition cleared :: "string \<times> string \<times> int \<Rightarrow> del_db \<Rightarrow> bool" where
  "cleared tf db \<longleftrightarrow> (\<forall>r\<in>set (dl_tables db (fst tf)). \<not> hit (snd tf) r)"

lemma cleared_later: "cleared tf db1 \<Longrightarrow> deletes D K db1 db2 \<Longrightarrow> cleared tf db2"
  unfolding cleared_def deletes_def smaller_def by blast

text \<open>The contract of the rows that may go: with a row, those that refer to it by a cascading key.\<close>

locale closed_rows =
  fixes D :: "string \<Rightarrow> sql_row \<Rightarrow> bool" and K :: "string \<Rightarrow> int \<Rightarrow> bool" and ts0 :: tables
  assumes child_row: "(child, col, parent, Cascade) \<in> set foreign_keys \<Longrightarrow> K parent i \<Longrightarrow> r \<in> set (ts0 child) \<Longrightarrow> r col = Some i \<Longrightarrow> D child r"
    and row_key: "D t r \<Longrightarrow> r \<in> set (ts0 t) \<Longrightarrow> r ''id'' = Some i \<Longrightarrow> K t i"
begin

lemma cascade_sound:
  "cascade fks gone ts = Ok (gone', ts') \<Longrightarrow> set fks \<subseteq> set foreign_keys \<Longrightarrow> smaller ts ts0 \<Longrightarrow>
     (\<And>p i. i \<in> set (gone p) \<Longrightarrow> K p i) \<Longrightarrow>
     (\<forall>t P. (\<forall>r. D t r \<longrightarrow> \<not> P r) \<longrightarrow> filter P (ts' t) = filter P (ts t)) \<and> (\<forall>p. \<forall>i\<in>set (gone' p). K p i)"
proof (induction fks gone ts rule: cascade.induct)
  case (2 child col parent act fks gone ts)
  show ?case
  proof (cases act)
    case Cascade
    let ?hits = "filter (refers col (gone parent)) (ts child)"
    let ?gone = "gone(child := row_ids ?hits @ gone child)"
    let ?ts = "ts(child := filter (\<lambda>r. \<not> refers col (gone parent) r) (ts child))"
    have run: "cascade fks ?gone ?ts = Ok (gone', ts')" using 2(3) Cascade by (simp add: Let_def)
    have key: "(child, col, parent, Cascade) \<in> set foreign_keys" using 2(4) Cascade by simp
    have old: "r \<in> set (ts0 child)" if "r \<in> set ?hits" for r using that 2(5) by (auto simp: smaller_def)
    have D: "D child r" if "r \<in> set ?hits" for r
    proof -
      from that obtain i where "r col = Some i" "i \<in> set (gone parent)" by (auto simp: refers_def split: option.splits)
      with child_row [OF key 2(6) old [OF that]] show ?thesis by blast
    qed
    have same: "filter P (?ts t) = filter P (ts t)" if "\<forall>r. D t r \<longrightarrow> \<not> P r" for t P
      using that D by (auto intro!: filter_cong)
    have K: "K p i" if "i \<in> set (?gone p)" for p i
      using that 2(6) row_key [OF D old] by (auto simp: row_ids_def set_map_filter split: if_split_asm)
    have "smaller ?ts ts0" using 2(5) by (auto simp: smaller_def)
    moreover have "set fks \<subseteq> set foreign_keys" using 2(4) by simp
    ultimately have IH: "(\<forall>t P. (\<forall>r. D t r \<longrightarrow> \<not> P r) \<longrightarrow> filter P (ts' t) = filter P (?ts t)) \<and>
        (\<forall>p. \<forall>i\<in>set (gone' p). K p i)"
      using 2(1) [OF refl Cascade run _ _ K] by blast
    show ?thesis
    proof (intro conjI allI impI)
      fix t P
      assume P: "\<forall>r. D t r \<longrightarrow> \<not> P r"
      with IH have "filter P (ts' t) = filter P (?ts t)" by blast
      also note same [OF P]
      finally show "filter P (ts' t) = filter P (ts t)" .
    qed (use IH in blast)
  next
    case Restrict
    with 2 show ?thesis by (auto simp: Let_def split: if_split_asm)
  qed
qed simp

lemma sql_delete_deletes:
  assumes run: "sql_delete t victims rest db = (db', r)" and sub: "smaller (dl_tables db) ts0"
    and split: "set (dl_tables db t) \<subseteq> set victims \<union> set rest" "set rest \<subseteq> set (dl_tables db t)"
    and keep: "\<And>P. (\<forall>r. D t r \<longrightarrow> \<not> P r) \<Longrightarrow> filter P rest = filter P (dl_tables db t)"
    and key: "\<And>v i. v \<in> set victims \<Longrightarrow> v ''id'' = Some i \<Longrightarrow> K t i"
  shows "deletes D K db db'"
proof (cases "cascade foreign_keys ((\<lambda>_. [])(t := row_ids victims)) ((dl_tables db)(t := rest))")
  case (Inl e)
  with run show ?thesis by (simp add: sql_delete_def deletes_refl)
next
  case (Inr x)
  obtain gone ts where x: "x = (gone, ts)" by (cases x)
  let ?gone = "(\<lambda>_. [])(t := row_ids victims)" and ?ts = "(dl_tables db)(t := rest)"
  note c = Inr [unfolded x]
  have db': "db' = db\<lparr>dl_accounts := map (reset_calendar (set (gone ''calendar''))) (dl_accounts db), dl_tables := ts\<rparr>"
    using run c by (simp add: sql_delete_def)
  have rest: "smaller ?ts (dl_tables db)" using split(2) by (simp add: smaller_def)
  have "smaller ts ?ts" using cascade_shrinks [OF c] by (simp add: smaller_def)
  with rest have small: "smaller ts (dl_tables db)" by (rule smaller_trans)
  have "K p i" if "i \<in> set (?gone p)" for p i
    using that key by (auto simp: row_ids_def set_map_filter split: if_split_asm)
  then have S: "(\<forall>t P. (\<forall>r. D t r \<longrightarrow> \<not> P r) \<longrightarrow> filter P (ts t) = filter P (?ts t)) \<and> (\<forall>p. \<forall>i\<in>set (gone p). K p i)"
    using cascade_sound [OF c _ smaller_trans [OF sub rest]] by blast
  have lost: "i \<in> set (gone p)" if "i \<in> lost_ids (dl_tables db) ts p" for p i
  proof -
    from that obtain v where v: "v \<in> set (dl_tables db p)" "v \<notin> set (ts p)" "v ''id'' = Some i" by (auto simp: lost_ids_def)
    show ?thesis
    proof (cases "v \<in> set (?ts p)")
      case True
      from cascade_gone [OF c this v(2,3)] show ?thesis .
    next
      case False
      with v(1) split(1) have "p = t" "v \<in> set victims" by (auto split: if_split_asm)
      with v(3) have "i \<in> set (?gone p)" by (force simp: row_ids_def set_map_filter)
      with cascade_shrinks [OF c, of p _ p] show ?thesis by blast
    qed
  qed
  have "linked (dl_tables db) ts"
    unfolding linked_def using cascade_complete [OF foreign_keys_ordered c] lost by fastforce
  moreover have "filter P (ts u) = filter P (dl_tables db u)" if "\<forall>r. D u r \<longrightarrow> \<not> P r" for u P
    using S that keep [of P] by (cases "u = t") auto
  moreover have "set (gone ''calendar'') \<subseteq> Collect (K ''calendar'')" using S by blast
  ultimately show ?thesis
    using small lost unfolding deletes_def db' by (auto intro!: exI [of _ "set (gone ''calendar'')"])
qed

lemma hits_deletes:
  assumes run: "sql_delete t victims rest db = (db', r)" and sub: "smaller (dl_tables db) ts0"
    and vs: "set victims \<subseteq> {v \<in> set (dl_tables db t). Q v}" "set (dl_tables db t) = set victims \<union> set rest"
    and rest: "filter (\<lambda>v. \<not> Q v) rest = filter (\<lambda>v. \<not> Q v) (dl_tables db t)"
    and D: "\<And>v. v \<in> set (dl_tables db t) \<Longrightarrow> Q v \<Longrightarrow> D t v"
  shows "deletes D K db db'"
proof (rule sql_delete_deletes [OF run sub])
  show "filter P rest = filter P (dl_tables db t)" if P: "\<forall>r. D t r \<longrightarrow> \<not> P r" for P
  proof -
    have "filter P zs = filter P (filter (\<lambda>v. \<not> Q v) zs)" if "set zs \<subseteq> set (dl_tables db t)" for zs
      using that P D by (auto intro!: filter_cong)
    with rest vs(2) show ?thesis by (metis Un_upper2 order_refl)
  qed
  show "K t i" if "v \<in> set victims" "v ''id'' = Some i" for v i
    using that vs(1) sub D [of v] row_key [of t v i] by (auto simp: smaller_def)
qed (use vs in auto)

end
text \<open>The batches, the other statements and their sequence.\<close>

lemma sql_delete_left:
  assumes "sql_delete t victims rest db = (db', Ok u)"
  shows "set (dl_tables db' t) \<subseteq> set rest" and "length (filter P (dl_tables db' t)) \<le> length (filter P rest)"
proof -
  obtain gone ts where c: "cascade foreign_keys ((\<lambda>_. [])(t := row_ids victims)) ((dl_tables db)(t := rest)) = Ok (gone, ts)"
    and "dl_tables db' = ts"
    using assms by (auto simp: sql_delete_def split: sum.split_asm)
  with cascade_shrinks [OF c, of t P] show "set (dl_tables db' t) \<subseteq> set rest"
    "length (filter P (dl_tables db' t)) \<le> length (filter P rest)" by simp_all
qed

lemma enough_batches: "count - batch_count count * DELETE_LIMIT = 0"
  by (simp add: batch_count_def CHUNK_SIZE_def DELETE_LIMIT_def)

context closed_rows begin

lemma limit_deletes:
  assumes run: "sql_delete table (limit_victims key n (hit f) (dl_tables db table)) (delete_limit key n (hit f) (dl_tables db table)) db = (db', r)"
    and "smaller (dl_tables db) ts0" and "\<And>v. hit f v \<Longrightarrow> D table v"
  shows "deletes D K db db'"
  by (rule hits_deletes [OF run assms(2) limit_victims_hit limit_split delete_limit_spec(1)]) (rule assms(3))

lemma delete_batches_spec:
  assumes "delete_batches fails dry table f k n db = (db', r)" and "smaller (dl_tables db) ts0" and "\<And>v. hit f v \<Longrightarrow> D table v"
  shows "deletes D K db db' \<and> (r = Ok u \<longrightarrow> \<not> dry \<longrightarrow>
    length (filter (hit f) (dl_tables db' table)) \<le> length (filter (hit f) (dl_tables db table)) - n * DELETE_LIMIT)"
  using assms(1,2)
proof (induction n arbitrary: k db)
  case (Suc n)
  let ?key = "batch_key table" and ?rows = "dl_tables db table"
  show ?case
  proof (cases "dry \<or> fails table k")
    case True
    with Suc show ?thesis by (auto simp: deletes_refl split: if_split_asm)
  next
    case False
    obtain db1 r1 where stmt: "sql_delete table (limit_victims ?key DELETE_LIMIT (hit f) ?rows)
        (delete_limit ?key DELETE_LIMIT (hit f) ?rows) db = (db1, r1)" by fastforce
    note del = limit_deletes [OF stmt Suc.prems(2) assms(3)]
    show ?thesis
    proof (cases r1)
      case (Inl e)
      with False Suc.prems stmt del show ?thesis by (auto simp: st_bind_def Let_def)
    next
      case (Inr w)
      with False Suc.prems stmt have rest: "delete_batches fails dry table f (Suc k) n db1 = (db', r)"
        by (simp add: st_bind_def Let_def)
      have "smaller (dl_tables db1) ts0" using smaller_trans [OF Suc.prems(2) deletes_tables(2) [OF del]] .
      note IH = Suc.IH [OF rest this]
      have "length (filter (hit f) (dl_tables db1 table)) \<le> length (filter (hit f) ?rows) - DELETE_LIMIT"
        using sql_delete_left(2) [OF stmt [unfolded Inr], of "hit f"] by (simp add: delete_limit_spec(2))
      with IH deletes_trans [OF del] show ?thesis by auto
    qed
  qed
qed (auto simp: deletes_refl)

lemma batch_delete_spec:
  assumes run: "batch_delete fails dry (table, f) db = (db', r)" and "smaller (dl_tables db) ts0" and "\<And>v. hit f v \<Longrightarrow> D table v"
  shows "deletes D K db db' \<and> (r = Ok u \<longrightarrow> \<not> dry \<longrightarrow> cleared (table, f) db')"
proof -
  let ?count = "length (filter (hit f) (dl_tables db table))"
  show ?thesis
  proof (cases "fails table 0 \<or> ?count = 0")
    case True
    with run show ?thesis
      by (auto simp: batch_delete_def deletes_refl cleared_def filter_empty_conv split: if_split_asm)
  next
    case False
    with run have "delete_batches fails dry table f 1 (batch_count ?count) db = (db', r)"
      by (simp add: batch_delete_def Let_def)
    from delete_batches_spec [OF this assms(2,3), of u] enough_batches [of ?count] show ?thesis
      by (auto simp: cleared_def filter_empty_conv)
  qed
qed

lemma bulk_delete_spec:
  assumes run: "bulk_delete fails dry (table, f) db = (db', r)" and "smaller (dl_tables db) ts0" and "\<And>v. hit f v \<Longrightarrow> D table v"
  shows "deletes D K db db' \<and> (r = Ok u \<longrightarrow> \<not> dry \<longrightarrow> cleared (table, f) db')"
proof (cases "dry \<or> fails table 0")
  case True
  with run show ?thesis by (auto simp: bulk_delete_def deletes_refl split: if_split_asm)
next
  case False
  let ?rows = "dl_tables db table"
  from run False have stmt: "sql_delete table (filter (hit f) ?rows) (filter (\<lambda>r. \<not> hit f r) ?rows) db = (db', r)"
    by (simp add: bulk_delete_def Let_def)
  have "deletes D K db db'" by (rule hits_deletes [OF stmt assms(2), where Q = "hit f"]) (use assms(3) in auto)
  moreover have "cleared (table, f) db'" if "r = Ok u"
    using sql_delete_left(1) [OF stmt [unfolded that]] by (auto simp: cleared_def)
  ultimately show ?thesis by blast
qed

lemma each_table_spec:
  assumes step: "\<And>tf db db' r. tf \<in> set ts \<Longrightarrow> f tf db = (db', r) \<Longrightarrow> smaller (dl_tables db) ts0 \<Longrightarrow>
      deletes D K db db' \<and> (r = Ok () \<longrightarrow> \<not> dry \<longrightarrow> cleared tf db')"
    and "each_table f ts db = (db', r)" and "smaller (dl_tables db) ts0"
  shows "deletes D K db db' \<and> (r = Ok () \<longrightarrow> \<not> dry \<longrightarrow> (\<forall>tf\<in>set ts. cleared tf db'))"
  using assms
proof (induction ts arbitrary: db)
  case (Cons tf ts)
  obtain db1 r1 where f: "f tf db = (db1, r1)" by fastforce
  have s: "deletes D K db db1" "r1 = Ok () \<longrightarrow> \<not> dry \<longrightarrow> cleared tf db1"
    using Cons.prems(1) [OF _ f Cons.prems(3)] by simp_all
  show ?case
  proof (cases r1)
    case (Inl e)
    with Cons.prems(2) f s show ?thesis by (auto simp: st_bind_def)
  next
    case (Inr u)
    with Cons.prems(2) f have rest: "each_table f ts db1 = (db', r)" by (simp add: st_bind_def)
    have "smaller (dl_tables db1) ts0" using smaller_trans [OF Cons.prems(3) deletes_tables(2) [OF s(1)]] .
    from Cons.IH [OF Cons.prems(1) rest this]
    have IH: "deletes D K db1 db'" "r = Ok () \<longrightarrow> \<not> dry \<longrightarrow> (\<forall>tf\<in>set ts. cleared tf db')" by simp_all
    have "cleared tf db'" if "\<not> dry" using that s(2) Inr IH(1) by (auto intro: cleared_later)
    with IH deletes_trans [OF s(1) IH(1)] show ?thesis by auto
  qed
qed (simp add: st_ok_def deletes_refl)

end

section \<open>The rows of a namespace\<close>

definition all_tables :: "account_row \<Rightarrow> nat \<Rightarrow> (string \<times> string \<times> int) set" where
  "all_tables a nid =
     set (batch_tables (acc_discriminator a) (int nid) (int (acc_id a)) @ bulk_tables (int nid) (int (acc_id a)))"

text \<open>The rows a statement names, those of the account and its secrets, and the rows that refer to them.\<close>

inductive owned :: "account_row \<Rightarrow> nat \<Rightarrow> del_db \<Rightarrow> string \<Rightarrow> sql_row \<Rightarrow> bool" for a nid db where
  direct: "(t, f) \<in> all_tables a nid \<Longrightarrow> hit f r \<Longrightarrow> owned a nid db t r"
| account: "(t, col, ''account'', Cascade) \<in> set foreign_keys \<Longrightarrow> r col = Some (int (acc_id a)) \<Longrightarrow> owned a nid db t r"
| secret: "r ''id'' = Some i \<Longrightarrow> i \<in> set (account_secrets (dl_tables db) (int (acc_id a))) \<Longrightarrow> owned a nid db ''secret'' r"
| child: "owned a nid db p q \<Longrightarrow> q \<in> set (dl_tables db p) \<Longrightarrow> q ''id'' = Some i \<Longrightarrow>
    (t, col, p, Cascade) \<in> set foreign_keys \<Longrightarrow> r col = Some i \<Longrightarrow> owned a nid db t r"

definition owned_id :: "account_row \<Rightarrow> nat \<Rightarrow> del_db \<Rightarrow> string \<Rightarrow> int \<Rightarrow> bool" where
  "owned_id a nid db t i \<longleftrightarrow> t = ''account'' \<and> i = int (acc_id a) \<or>
     (\<exists>r\<in>set (dl_tables db t). owned a nid db t r \<and> r ''id'' = Some i)"

lemma owned_iff:
  "owned a nid db t x \<longleftrightarrow>
     (\<exists>f. (t, f) \<in> all_tables a nid \<and> hit f x) \<or>
     (\<exists>col. (t, col, ''account'', Cascade) \<in> set foreign_keys \<and> x col = Some (int (acc_id a))) \<or>
     t = ''secret'' \<and> refers ''id'' (account_secrets (dl_tables db) (int (acc_id a))) x \<or>
     (\<exists>p q i col. owned a nid db p q \<and> q \<in> set (dl_tables db p) \<and> q ''id'' = Some i \<and>
        (t, col, p, Cascade) \<in> set foreign_keys \<and> x col = Some i)"
  by (subst owned.simps) (auto simp: refers_def split: option.splits)

interpretation own: closed_rows "owned a nid db" "owned_id a nid db" "dl_tables db" for a nid db
  by unfold_locales (auto simp: owned_id_def intro: owned.intros)
text \<open>No statement before that of the account reaches the tables its secrets are read from.\<close>

definition statement_tables :: "string list" where
  "statement_tables = [''message'', ''block'', ''thread'', ''transaction'', ''actionlog'', ''contact'', ''event'',
     ''dataprocessingcache'', ''easuid'', ''easfoldersyncstatus'', ''imapuid'', ''imapfoldersyncstatus'', ''imapfolderinfo'',
     ''category'', ''calendar'', ''folder'', ''label'', ''namespace'']"

definition account_tables :: "string list" where
  "account_tables = [''account'', ''imapaccount'', ''genericaccount'', ''gmailaccount'', ''outlookaccount'', ''gmailauthcredentials'', ''secret'']"

text \<open>The tables that hold data of a namespace and that no statement reaches at all.\<close>

definition forgotten_tables :: "string list" where
  "forgotten_tables = [''messagecategory'', ''phonenumber'', ''accounttransaction'']"

text \<open>Tables with those their rows are deleted with cannot be reached from outside.\<close>

definition upward :: "string list \<Rightarrow> foreign_key list \<Rightarrow> bool" where
  "upward A fks \<longleftrightarrow> list_all (\<lambda>(child, _, parent, act). act = Cascade \<longrightarrow> child \<in> set A \<longrightarrow> parent \<in> set A) fks"

lemma reached_apart: "upward A fks \<Longrightarrow> set S \<inter> set A = {} \<Longrightarrow> set (reached fks S) \<inter> set A = {}"
  unfolding upward_def by (induction fks S rule: reached.induct) auto

lemma account_tables_upward: "upward account_tables foreign_keys"
  by (simp add: upward_def account_tables_def foreign_keys_defs)

lemma forgotten_tables_upward: "upward forgotten_tables foreign_keys"
  by (simp add: upward_def forgotten_tables_def foreign_keys_defs)

lemma statement_tables_apart: "set statement_tables \<inter> set account_tables = {}" "set statement_tables \<inter> set forgotten_tables = {}"
  by (simp_all add: statement_tables_def account_tables_def forgotten_tables_def)

lemma statement_tables_all: "fst ` all_tables a nid \<subseteq> set statement_tables"
  by (auto simp: all_tables_def batch_tables_def bulk_tables_def statement_tables_def)

lemma unreached:
  assumes "tf \<in> all_tables a nid" and "u \<in> set account_tables \<union> set forgotten_tables"
  shows "u \<notin> set (reached foreign_keys [fst tf])"
proof -
  have "fst tf \<in> set statement_tables" using assms(1) statement_tables_all by blast
  then have "set [fst tf] \<inter> set account_tables = {}" "set [fst tf] \<inter> set forgotten_tables = {}"
    using statement_tables_apart by auto
  with assms(2) reached_apart [OF account_tables_upward] reached_apart [OF forgotten_tables_upward] show ?thesis by blast
qed

lemma delete_batches_untouched:
  "delete_batches fails dry table f k n db = (db', r) \<Longrightarrow> u \<notin> set (reached foreign_keys [table]) \<Longrightarrow> dl_tables db' u = dl_tables db u"
proof (induction n arbitrary: k db)
  case (Suc n)
  show ?case
  proof (cases "dry \<or> fails table k")
    case True
    with Suc show ?thesis by (auto split: if_split_asm)
  next
    case False
    let ?key = "batch_key table" and ?rows = "dl_tables db table"
    obtain db1 r1 where stmt: "sql_delete table (limit_victims ?key DELETE_LIMIT (hit f) ?rows)
        (delete_limit ?key DELETE_LIMIT (hit f) ?rows) db = (db1, r1)" by fastforce
    from sql_delete_untouched [OF this Suc.prems(2)] have one: "dl_tables db1 u = dl_tables db u" .
    show ?thesis
    proof (cases r1)
      case (Inl e)
      with False Suc.prems stmt one show ?thesis by (auto simp: st_bind_def Let_def)
    next
      case (Inr w)
      with False Suc.prems stmt have "delete_batches fails dry table f (Suc k) n db1 = (db', r)"
        by (simp add: st_bind_def Let_def)
      with Suc.IH [OF this Suc.prems(2)] one show ?thesis by simp
    qed
  qed
qed simp

lemma statement_untouched:
  assumes "u \<notin> set (reached foreign_keys [fst tf])"
  shows "batch_delete fails dry tf db = (db', r) \<Longrightarrow> dl_tables db' u = dl_tables db u"
    and "bulk_delete fails dry tf db = (db', r) \<Longrightarrow> dl_tables db' u = dl_tables db u"
  using assms delete_batches_untouched [of fails dry "fst tf"] sql_delete_untouched [of "fst tf"]
  by (cases tf; auto simp: batch_delete_def bulk_delete_def Let_def split: if_split_asm)+

lemma each_table_untouched:
  assumes "each_table f ts db = (db', r)" and "\<And>tf db db' r. tf \<in> set ts \<Longrightarrow> f tf db = (db', r) \<Longrightarrow> dl_tables db' u = dl_tables db u"
  shows "dl_tables db' u = dl_tables db u"
  using assms
proof (induction ts arbitrary: db)
  case (Cons tf ts)
  obtain db1 r1 where f: "f tf db = (db1, r1)" by fastforce
  from Cons.prems(2) [OF _ f] have one: "dl_tables db1 u = dl_tables db u" by simp
  show ?case
  proof (cases r1)
    case (Inl e)
    with Cons.prems(1) f one show ?thesis by (auto simp: st_bind_def)
  next
    case (Inr w)
    with Cons.prems(1) f have rest: "each_table f ts db1 = (db', r)" by (simp add: st_bind_def)
    have "dl_tables db' u = dl_tables db1 u" by (rule Cons.IH [OF rest]) (rule Cons.prems(2), auto)
    with one show ?thesis by simp
  qed
qed (simp add: st_ok_def)

section \<open>The row of the account\<close>

lemma sql_delete_complete:
  assumes "sql_delete t victims rest db = (db', Ok u)" and fk: "(child, col, t, Cascade) \<in> set foreign_keys"
    and v: "v \<in> set victims" "v ''id'' = Some i" and r: "r \<in> set (dl_tables db' child)"
  shows "r col \<noteq> Some i"
proof -
  obtain gone ts where c: "cascade foreign_keys ((\<lambda>_. [])(t := row_ids victims)) ((dl_tables db)(t := rest)) = Ok (gone, ts)"
    and ts: "dl_tables db' = ts"
    using assms(1) by (auto simp: sql_delete_def split: sum.split_asm)
  from v have "i \<in> set (((\<lambda>_. [])(t := row_ids victims)) t)" by (force simp: row_ids_def set_map_filter)
  with cascade_shrinks [OF c, of t _ t] have "i \<in> set (gone t)" by blast
  with cascade_complete [OF foreign_keys_ordered c fk] r ts show ?thesis by blast
qed

text \<open>Without the account, no row refers to it and its secrets are gone.\<close>

definition account_cleared :: "int \<Rightarrow> int list \<Rightarrow> tables \<Rightarrow> bool" where
  "account_cleared aid secrets ts \<longleftrightarrow>
     (\<forall>(child, col, parent, act)\<in>set foreign_keys. parent = ''account'' \<and> act = Cascade \<longrightarrow> (\<forall>r\<in>set (ts child). r col \<noteq> Some aid)) \<and>
     (\<forall>r\<in>set (ts ''secret''). \<not> refers ''id'' secrets r)"

lemma delete_account_row_spec:
  assumes run: "delete_account_row fails dry (acc_id a) db1 = (db', r)" and sub: "smaller (dl_tables db1) (dl_tables db)"
    and secrets: "account_secrets (dl_tables db1) (int (acc_id a)) = account_secrets (dl_tables db) (int (acc_id a))"
  obtains d where "deletes (owned a nid db) (owned_id a nid db) db1 d" "dl_tables db' = dl_tables d" "dl_live db' = dl_live d"
    "dl_accounts db' = (if r = Ok () \<and> \<not> dry then t_del acc_id (dl_accounts d) (acc_id a) else dl_accounts d)"
    "r = Ok () \<Longrightarrow> \<not> dry \<Longrightarrow> account_cleared (int (acc_id a)) (account_secrets (dl_tables db) (int (acc_id a))) (dl_tables d)"
proof (cases "dry \<or> fails ''account'' 0")
  case True
  with run show thesis by (intro that [of db1]) (auto simp: delete_account_row_def deletes_refl split: if_split_asm)
next
  case False
  let ?aid = "int (acc_id a)"
  let ?secrets = "account_secrets (dl_tables db) ?aid"
  obtain d1 r1 where one: "sql_delete ''account'' [[''id'' \<mapsto> ?aid]] (dl_tables db1 ''account'') db1 = (d1, r1)" by fastforce
  show thesis
  proof (cases r1)
    case (Inl e)
    with run False one show thesis
      by (intro that [of db1]) (auto simp: delete_account_row_def st_bind_def Let_def deletes_refl)
  next
    case Inr1: (Inr u)
    let ?rows = "dl_tables d1 ''secret''"
    obtain d2 r2 where two: "sql_delete ''secret'' (filter (refers ''id'' ?secrets) ?rows) (filter (\<lambda>r. \<not> refers ''id'' ?secrets r) ?rows) d1 = (d2, r2)"
      by fastforce
    show thesis
    proof (cases r2)
      case (Inl e)
      with run False one two Inr1 secrets show thesis
        by (intro that [of db1]) (auto simp: delete_account_row_def st_bind_def Let_def deletes_refl)
    next
      case Inr2: (Inr w)
      have d1: "deletes (owned a nid db) (owned_id a nid db) db1 d1"
        by (rule own.sql_delete_deletes [OF one sub]) (auto simp: owned_id_def)
      have sub1: "smaller (dl_tables d1) (dl_tables db)" by (rule smaller_trans [OF sub deletes_tables(2) [OF d1]])
      have d2: "deletes (owned a nid db) (owned_id a nid db) d1 d2"
        by (rule own.hits_deletes [OF two sub1, where Q = "refers ''id'' ?secrets"])
          (auto simp: refers_def split: option.splits intro: owned.secret)
      have "r col \<noteq> Some ?aid" if "(child, col, ''account'', Cascade) \<in> set foreign_keys" "r \<in> set (dl_tables d2 child)" for child col r
        using that sql_delete_complete [OF one [unfolded Inr1] that(1), of "[''id'' \<mapsto> ?aid]" ?aid] deletes_tables(2) [OF d2]
        by (auto simp: smaller_def)
      then have "account_cleared ?aid ?secrets (dl_tables d2)"
        using sql_delete_left(1) [OF two [unfolded Inr2]] by (auto simp: account_cleared_def)
      with deletes_trans [OF d1 d2] run False one two Inr1 Inr2 secrets show thesis
        by (intro that [of d2]) (auto simp: delete_account_row_def st_bind_def Let_def)
    qed
  qed
qed
section \<open>The whole deletion\<close>

lemma account_secrets_same:
  "(\<And>u. u \<in> set account_tables \<Longrightarrow> dl_tables db' u = dl_tables db u) \<Longrightarrow>
     account_secrets (dl_tables db') aid = account_secrets (dl_tables db) aid"
  by (simp add: account_secrets_def secret_refs_def account_tables_def)

lemma delete_namespace_steps:
  assumes run: "delete_namespace fails dry nid db = (db', r)" and a: "namespace_account db nid = Ok a"
  obtains d where "deletes (owned a nid db) (owned_id a nid db) db d" "dl_tables db' = dl_tables d"
    "dl_accounts db' = (if r = Ok () \<and> \<not> dry then t_del acc_id (dl_accounts d) (acc_id a) else dl_accounts d)"
    "r = Ok () \<Longrightarrow> \<not> dry \<Longrightarrow> (\<forall>tf\<in>all_tables a nid. cleared tf d) \<and>
       account_cleared (int (acc_id a)) (account_secrets (dl_tables db) (int (acc_id a))) (dl_tables d)"
proof (cases "is_marked_for_deletion a")
  case False
  with run a show thesis by (intro that [of db]) (auto simp: delete_namespace_def deletes_refl)
next
  case True
  let ?D = "owned a nid db" and ?K = "owned_id a nid db"
  let ?A = "batch_tables (acc_discriminator a) (int nid) (int (acc_id a))"
  let ?B = "bulk_tables (int nid) (int (acc_id a))"
  obtain db1 r1 where A: "each_table (batch_delete fails dry) ?A db = (db1, r1)" by fastforce
  obtain db2 r2 where B: "each_table (bulk_delete fails dry) ?B db1 = (db2, r2)" by fastforce
  obtain db3 r3 where C: "delete_account_row fails dry (acc_id a) db2 = (db3, r3)" by fastforce
  have in_all: "tf \<in> all_tables a nid" if "tf \<in> set ?A \<union> set ?B" for tf using that by (auto simp: all_tables_def)
  have hit: "?D t v" if "(t, f) \<in> set ?A \<union> set ?B" "hit f v" for t f v
    using that in_all by (blast intro: owned.direct)
  have SA: "deletes ?D ?K db db1 \<and> (r1 = Ok () \<longrightarrow> \<not> dry \<longrightarrow> (\<forall>tf\<in>set ?A. cleared tf db1))"
  proof (rule own.each_table_spec [OF _ A smaller_refl])
    fix tf e e' r'
    assume tf: "tf \<in> set ?A" and one: "batch_delete fails dry tf e = (e', r')" and sub: "smaller (dl_tables e) (dl_tables db)"
    obtain t f where [simp]: "tf = (t, f)" by (cases tf)
    have "?D t v" if "hit f v" for v using hit [of t f v] tf that by simp
    from own.batch_delete_spec [OF one [simplified] sub this]
    show "deletes ?D ?K e e' \<and> (r' = Ok () \<longrightarrow> \<not> dry \<longrightarrow> cleared tf e')" by simp
  qed
  have sub1: "smaller (dl_tables db1) (dl_tables db)" using SA by (blast dest: deletes_tables(2))
  have SB: "deletes ?D ?K db1 db2 \<and> (r2 = Ok () \<longrightarrow> \<not> dry \<longrightarrow> (\<forall>tf\<in>set ?B. cleared tf db2))"
  proof (rule own.each_table_spec [OF _ B sub1])
    fix tf e e' r'
    assume tf: "tf \<in> set ?B" and one: "bulk_delete fails dry tf e = (e', r')" and sub: "smaller (dl_tables e) (dl_tables db)"
    obtain t f where [simp]: "tf = (t, f)" by (cases tf)
    have "?D t v" if "hit f v" for v using hit [of t f v] tf that by simp
    from own.bulk_delete_spec [OF one [simplified] sub this]
    show "deletes ?D ?K e e' \<and> (r' = Ok () \<longrightarrow> \<not> dry \<longrightarrow> cleared tf e')" by simp
  qed
  have both: "deletes ?D ?K db db2" using SA SB by (blast intro: deletes_trans)
  have same: "dl_tables db2 u = dl_tables db u" if "u \<in> set account_tables" for u
  proof -
    have "dl_tables db1 u = dl_tables db u"
      by (rule each_table_untouched [OF A]) (use that in_all unreached statement_untouched(1) in blast)
    moreover have "dl_tables db2 u = dl_tables db1 u"
      by (rule each_table_untouched [OF B]) (use that in_all unreached statement_untouched(2) in blast)
    ultimately show ?thesis by simp
  qed
  have secrets: "account_secrets (dl_tables db2) (int (acc_id a)) = account_secrets (dl_tables db) (int (acc_id a))"
    by (rule account_secrets_same) (rule same)
  show thesis
  proof (cases r1)
    case (Inl e)
    with run a True A SA show thesis by (intro that [of db1]) (auto simp: delete_namespace_def st_bind_def)
  next
    case Inr1: (Inr u)
    show thesis
    proof (cases r2)
      case (Inl e)
      with run a True A B Inr1 both show thesis by (intro that [of db2]) (auto simp: delete_namespace_def st_bind_def)
    next
      case Inr2: (Inr w)
      obtain d where d: "deletes ?D ?K db2 d" "dl_tables db3 = dl_tables d"
        "dl_accounts db3 = (if r3 = Ok () \<and> \<not> dry then t_del acc_id (dl_accounts d) (acc_id a) else dl_accounts d)"
        "r3 = Ok () \<Longrightarrow> \<not> dry \<Longrightarrow> account_cleared (int (acc_id a)) (account_secrets (dl_tables db) (int (acc_id a))) (dl_tables d)"
        by (rule delete_account_row_spec [where nid = nid, OF C deletes_tables(2) [OF both] secrets]) (rule that)
      have fin: "dl_tables db' = dl_tables db3 \<and> dl_accounts db' = dl_accounts db3 \<and> r = r3"
        using run a True A B C Inr1 Inr2 by (cases r3) (auto simp: delete_namespace_def st_bind_def)
      have "cleared tf d" if "\<not> dry" "tf \<in> all_tables a nid" for tf
        using that SA SB d(1) Inr1 Inr2 cleared_later [of tf db1 ?D ?K db2] cleared_later [of tf db2 ?D ?K d]
        by (auto simp: all_tables_def)
      with fin d deletes_trans [OF both d(1)] show thesis by (intro that [of d]) auto
    qed
  qed
qed

lemma owned_gone:
  assumes all: "\<forall>tf\<in>all_tables a nid. cleared tf d"
    and acc: "account_cleared (int (acc_id a)) (account_secrets (dl_tables db) (int (acc_id a))) (dl_tables d)"
    and link: "linked (dl_tables db) (dl_tables d)"
  shows "owned a nid db t r \<Longrightarrow> r \<notin> set (dl_tables d t)"
proof (induction rule: owned.induct)
  case (direct t f r)
  with all show ?case by (auto simp: cleared_def)
next
  case (account t col r)
  with acc show ?case by (fastforce simp: account_cleared_def)
next
  case (secret r i)
  with acc show ?case by (auto simp: account_cleared_def refers_def)
next
  case (child p q i t col r)
  then have "i \<in> lost_ids (dl_tables db) (dl_tables d) p" by (auto simp: lost_ids_def)
  with linkedD [OF link child.hyps(4)] child.hyps(5) show ?case by blast
qed

lemma delete_namespace_result:
  assumes "delete_namespace fails dry nid db = (db', r)" and "namespace_account db nid = Ok a"
  shows "filter (\<lambda>x. \<not> owned a nid db t x) (dl_tables db' t) = filter (\<lambda>x. \<not> owned a nid db t x) (dl_tables db t)"
    and "linked (dl_tables db) (dl_tables db')" and "smaller (dl_tables db') (dl_tables db)"
    and "r = Ok () \<Longrightarrow> \<not> dry \<Longrightarrow> dl_tables db' t = filter (\<lambda>x. \<not> owned a nid db t x) (dl_tables db t)"
    and "r = Ok () \<Longrightarrow> \<not> dry \<Longrightarrow> (\<forall>tf\<in>all_tables a nid. cleared tf db') \<and>
      dl_accounts db' = map (reset_calendar (Collect (owned_id a nid db ''calendar''))) (t_del acc_id (dl_accounts db) (acc_id a))"
    and "\<not> (r = Ok () \<and> \<not> dry) \<Longrightarrow>
      \<exists>ids. ids \<subseteq> Collect (owned_id a nid db ''calendar'') \<and> dl_accounts db' = map (reset_calendar ids) (dl_accounts db)"
proof -
  obtain d where d: "deletes (owned a nid db) (owned_id a nid db) db d" "dl_tables db' = dl_tables d"
    "dl_accounts db' = (if r = Ok () \<and> \<not> dry then t_del acc_id (dl_accounts d) (acc_id a) else dl_accounts d)"
    "r = Ok () \<Longrightarrow> \<not> dry \<Longrightarrow> (\<forall>tf\<in>all_tables a nid. cleared tf d) \<and>
       account_cleared (int (acc_id a)) (account_secrets (dl_tables db) (int (acc_id a))) (dl_tables d)"
    by (rule delete_namespace_steps [OF assms]) (rule that)
  obtain ids where ids: "dl_accounts d = map (reset_calendar ids) (dl_accounts db)"
    "lost_ids (dl_tables db) (dl_tables d) ''calendar'' \<subseteq> ids" "ids \<subseteq> Collect (owned_id a nid db ''calendar'')"
    using deletes_accounts [OF d(1)] by metis
  show others: "filter (\<lambda>x. \<not> owned a nid db t x) (dl_tables db' t) = filter (\<lambda>x. \<not> owned a nid db t x) (dl_tables db t)" for t
    unfolding d(2) by (rule deletes_tables(4) [OF d(1)]) simp
  show "linked (dl_tables db) (dl_tables db')" "smaller (dl_tables db') (dl_tables db)"
    using deletes_tables(2,3) [OF d(1)] d(2) by simp_all
  have gone: "x \<notin> set (dl_tables d t)" if "r = Ok ()" "\<not> dry" "owned a nid db t x" for t x
    using owned_gone [OF _ _ deletes_tables(3) [OF d(1)]] d(4) that by blast
  show "dl_tables db' t = filter (\<lambda>x. \<not> owned a nid db t x) (dl_tables db t)" if "r = Ok ()" "\<not> dry"
  proof -
    have "filter (\<lambda>x. \<not> owned a nid db t x) (dl_tables db' t) = dl_tables db' t"
      using gone [OF that] d(2) by (auto simp: filter_id_conv)
    with others show ?thesis by simp
  qed
  show "(\<forall>tf\<in>all_tables a nid. cleared tf db') \<and>
      dl_accounts db' = map (reset_calendar (Collect (owned_id a nid db ''calendar''))) (t_del acc_id (dl_accounts db) (acc_id a))"
    if ok: "r = Ok ()" "\<not> dry"
  proof -
    have "Collect (owned_id a nid db ''calendar'') \<subseteq> lost_ids (dl_tables db) (dl_tables d) ''calendar''"
      using gone [OF ok, of "''calendar''"] by (force simp: owned_id_def lost_ids_def)
    with ids(2,3) have "ids = Collect (owned_id a nid db ''calendar'')" by blast
    moreover have "t_del acc_id (map (reset_calendar ids) as) i = map (reset_calendar ids) (t_del acc_id as i)" for as i
      by (induction as) (auto simp: t_del_def)
    ultimately show ?thesis using d(2,3) ids(1) ok d(4) by (simp add: cleared_def)
  qed
  show "\<exists>ids. ids \<subseteq> Collect (owned_id a nid db ''calendar'') \<and> dl_accounts db' = map (reset_calendar ids) (dl_accounts db)"
    if "\<not> (r = Ok () \<and> \<not> dry)"
    using that d(3) ids by auto
qed
section \<open>A deletion in which no statement fails\<close>

lemma cascade_runs:
  assumes "\<And>p. p \<notin> set S \<Longrightarrow> gone p = []"
    and "\<forall>(child, col, parent, act)\<in>set fks. act = Restrict \<longrightarrow> parent \<in> set (reached fks S) \<longrightarrow> ts child = []"
  shows "\<exists>x. cascade fks gone ts = Ok x"
  using assms
proof (induction fks gone ts arbitrary: S rule: cascade.induct)
  case (2 child col parent act fks gone ts)
  have none: "gone p = []" if "p \<notin> set S" for p using 2(3) that .
  show ?case
  proof (cases act)
    case Restrict
    have "filter (refers col (gone parent)) (ts child) = []"
    proof (cases "parent \<in> set S")
      case True
      then have "parent \<in> set (reached ((child, col, parent, act) # fks) S)" using reached_more by blast
      with 2(4) Restrict show ?thesis by simp
    next
      case False
      with none show ?thesis by (auto simp: refers_def filter_empty_conv split: option.splits)
    qed
    with 2(2) [OF refl Restrict this none] 2(4) Restrict show ?thesis by (simp add: Let_def)
  next
    case Cascade
    let ?hits = "filter (refers col (gone parent)) (ts child)"
    let ?gone = "gone(child := row_ids ?hits @ gone child)"
    let ?ts = "ts(child := filter (\<lambda>r. \<not> refers col (gone parent) r) (ts child))"
    let ?S = "if parent \<in> set S \<and> act = Cascade then child # S else S"
    have "?gone p = []" if "p \<notin> set ?S" for p
      using that none [of p] none [of parent] Cascade
      by (cases "parent \<in> set S") (auto simp: row_ids_def refers_def map_filter_def filter_empty_conv split: if_split_asm option.splits)
    moreover have "\<forall>(c, col, q, a)\<in>set fks. a = Restrict \<longrightarrow> q \<in> set (reached fks ?S) \<longrightarrow> ?ts c = []"
      using 2(4) by fastforce
    ultimately have "\<exists>x. cascade fks ?gone ?ts = Ok x" by (rule 2(1) [OF refl Cascade])
    with Cascade show ?thesis by (simp add: Let_def)
  qed
qed simp

text \<open>Only the cursors of the search index can refuse a statement before that of the account: they keep their transactions.\<close>

definition cursors :: string where
  "cursors = ''contactsearchindexcursor''"

lemma cursors_unreached: "tf \<in> all_tables a nid \<Longrightarrow> cursors \<notin> set (reached foreign_keys [fst tf])"
proof -
  assume "tf \<in> all_tables a nid"
  then have "fst tf \<in> set statement_tables" using statement_tables_all by blast
  then have "set [fst tf] \<inter> set [cursors] = {}" by (auto simp: statement_tables_def cursors_def)
  moreover have "upward [cursors] foreign_keys" by (simp add: upward_def cursors_def foreign_keys_defs)
  ultimately show ?thesis using reached_apart [of "[cursors]"] by fastforce
qed

lemma restricting_keys: "(child, col, parent, Restrict) \<in> set foreign_keys \<Longrightarrow> child = cursors \<or> parent = ''secret''"
  by (auto simp: foreign_keys_defs cursors_def)

lemma statement_runs:
  assumes tf: "tf \<in> all_tables a nid" and none: "dl_tables db cursors = []"
  shows "snd (sql_delete (fst tf) victims rest db) = Ok ()"
proof -
  have secret: "''secret'' \<notin> set (reached foreign_keys [fst tf])"
    by (rule unreached [OF tf]) (simp add: account_tables_def)
  have "cursors \<noteq> fst tf" using cursors_unreached [OF tf] reached_more [of "[fst tf]" foreign_keys] by auto
  then have "\<forall>(child, col, parent, act)\<in>set foreign_keys. act = Restrict \<longrightarrow> parent \<in> set (reached foreign_keys [fst tf]) \<longrightarrow>
      ((dl_tables db)(fst tf := rest)) child = []"
    using secret none by (auto dest!: restricting_keys)
  then have "\<exists>x. cascade foreign_keys ((\<lambda>_. [])(fst tf := row_ids victims)) ((dl_tables db)(fst tf := rest)) = Ok x"
    by (rule cascade_runs [rotated]) simp
  then obtain x where "cascade foreign_keys ((\<lambda>_. [])(fst tf := row_ids victims)) ((dl_tables db)(fst tf := rest)) = Ok x" ..
  then show ?thesis by (simp add: sql_delete_def split: prod.split)
qed

lemma delete_batches_ok:
  "(t, f) \<in> all_tables a nid \<Longrightarrow> (\<And>k. \<not> fails t k) \<Longrightarrow> dl_tables db cursors = [] \<Longrightarrow>
     snd (delete_batches fails dry t f k n db) = Ok ()"
proof (induction n arbitrary: k db)
  case (Suc n)
  let ?rows = "dl_tables db t"
  obtain db1 where one: "sql_delete t (limit_victims (batch_key t) DELETE_LIMIT (hit f) ?rows)
      (delete_limit (batch_key t) DELETE_LIMIT (hit f) ?rows) db = (db1, Ok ())"
    using statement_runs [OF Suc.prems(1,3)] by (metis fst_conv prod.collapse)
  have "dl_tables db1 cursors = []"
    using sql_delete_untouched [OF one, of cursors] cursors_unreached [OF Suc.prems(1)] Suc.prems(3) by simp
  with Suc one show ?case by (cases dry) (simp_all add: st_bind_def Let_def)
qed simp

lemma statement_ok:
  assumes "tf \<in> all_tables a nid" and "\<And>k. \<not> fails (fst tf) k" and "dl_tables db cursors = []"
  shows "snd (batch_delete fails dry tf db) = Ok ()" and "snd (bulk_delete fails dry tf db) = Ok ()"
  using assms delete_batches_ok [of "fst tf" "snd tf" a nid fails db] statement_runs [OF assms(1,3)]
  by (cases tf; simp add: batch_delete_def bulk_delete_def Let_def)+

lemma each_table_ok:
  assumes "\<And>tf db. tf \<in> set ts \<Longrightarrow> dl_tables db cursors = [] \<Longrightarrow> snd (f tf db) = Ok ()"
    and "\<And>tf db db' r. tf \<in> set ts \<Longrightarrow> f tf db = (db', r) \<Longrightarrow> dl_tables db' cursors = dl_tables db cursors"
    and "dl_tables db cursors = []"
  shows "snd (each_table f ts db) = Ok () \<and> dl_tables (fst (each_table f ts db)) cursors = []"
  using assms
proof (induction ts arbitrary: db)
  case (Cons t ts)
  from Cons.prems(1,3) have "snd (f t db) = Ok ()" by simp
  then obtain db1 where one: "f t db = (db1, Ok ())" by (metis prod.collapse)
  from Cons.prems(2) [OF _ one] Cons.prems(3) have none: "dl_tables db1 cursors = []" by simp
  have "snd (each_table f ts db1) = Ok () \<and> dl_tables (fst (each_table f ts db1)) cursors = []"
    by (rule Cons.IH [OF _ _ none]) (rule Cons.prems(1), simp, assumption, rule Cons.prems(2), auto)
  with one show ?case by (simp add: st_bind_def)
qed (simp add: st_ok_def)

lemma statements_run:
  assumes fails: "\<And>t k. t \<in> set statement_tables \<Longrightarrow> \<not> fails t k" and none: "dl_tables db cursors = []"
    and ts: "set ts \<subseteq> all_tables a nid"
  shows "snd (each_table (batch_delete fails False) ts db) = Ok () \<and> dl_tables (fst (each_table (batch_delete fails False) ts db)) cursors = []"
    and "snd (each_table (bulk_delete fails False) ts db) = Ok ()"
proof -
  have ok: "\<not> fails (fst tf) k" if "tf \<in> set ts" for tf k using that ts fails statement_tables_all by blast
  have far: "cursors \<notin> set (reached foreign_keys [fst tf])" if "tf \<in> set ts" for tf using that ts cursors_unreached by blast
  show "snd (each_table (batch_delete fails False) ts db) = Ok () \<and> dl_tables (fst (each_table (batch_delete fails False) ts db)) cursors = []"
  proof (rule each_table_ok [OF _ _ none])
    show "snd (batch_delete fails False tf e) = Ok ()" if "tf \<in> set ts" "dl_tables e cursors = []" for tf e
      using statement_ok(1) [of tf a nid fails e] that ts ok by blast
  qed (use far statement_untouched(1) in blast)
  have "snd (each_table (bulk_delete fails False) ts db) = Ok () \<and> dl_tables (fst (each_table (bulk_delete fails False) ts db)) cursors = []"
  proof (rule each_table_ok [OF _ _ none])
    show "snd (bulk_delete fails False tf e) = Ok ()" if "tf \<in> set ts" "dl_tables e cursors = []" for tf e
      using statement_ok(2) [of tf a nid fails e] that ts ok by blast
  qed (use far statement_untouched(2) in blast)
  then show "snd (each_table (bulk_delete fails False) ts db) = Ok ()" ..
qed

lemma until_account:
  assumes fails: "\<And>t k. t \<in> set statement_tables \<Longrightarrow> \<not> fails t k" and none: "dl_tables db cursors = []"
    and a: "namespace_account db nid = Ok a" "is_marked_for_deletion a"
    and run: "delete_namespace fails False nid db = (db', r)"
  obtains db1 db2 where "each_table (bulk_delete fails False) (bulk_tables (int nid) (int (acc_id a))) db1 = (db2, Ok ())"
    "\<And>u. u \<in> set account_tables \<Longrightarrow> dl_tables db2 u = dl_tables db u"
    "(\<exists>db3 r3. delete_account_row fails False (acc_id a) db2 = (db3, r3) \<and> r = r3 \<and> dl_tables db' = dl_tables db3 \<and>
       dl_accounts db' = dl_accounts db3)"
proof -
  let ?A = "batch_tables (acc_discriminator a) (int nid) (int (acc_id a))"
  let ?B = "bulk_tables (int nid) (int (acc_id a))"
  have all: "set ?A \<subseteq> all_tables a nid" "set ?B \<subseteq> all_tables a nid" by (auto simp: all_tables_def)
  obtain db1 where A: "each_table (batch_delete fails False) ?A db = (db1, Ok ())" "dl_tables db1 cursors = []"
    using statements_run(1) [of fails db ?A a nid, OF fails none all(1)] by (metis prod.collapse)
  obtain db2 where B: "each_table (bulk_delete fails False) ?B db1 = (db2, Ok ())"
    using statements_run(2) [of fails db1 ?B a nid, OF fails A(2) all(2)] by (metis prod.collapse)
  obtain db3 r3 where C: "delete_account_row fails False (acc_id a) db2 = (db3, r3)" by fastforce
  have "dl_tables db2 u = dl_tables db u" if "u \<in> set account_tables" for u
  proof -
    have "dl_tables db1 u = dl_tables db u"
      by (rule each_table_untouched [OF A(1)]) (use that all unreached statement_untouched(1) in blast)
    moreover have "dl_tables db2 u = dl_tables db1 u"
      by (rule each_table_untouched [OF B]) (use that all unreached statement_untouched(2) in blast)
    ultimately show ?thesis by simp
  qed
  with C run a A B show thesis
    by (intro that [OF B]) (cases r3; auto simp: delete_namespace_def st_bind_def)+
qed

lemma last_statement_fails:
  assumes fails: "\<And>t k. fails t k \<longleftrightarrow> t = ''account''" and none: "dl_tables db cursors = []"
    and a: "namespace_account db nid = Ok a" "is_marked_for_deletion a"
    and run: "delete_namespace fails False nid db = (db', r)"
  shows "r = Raise (OperationalError []) \<and> dl_tables db' ''namespace'' = filter (\<lambda>r. r ''id'' \<noteq> Some (int nid)) (dl_tables db' ''namespace'')"
proof -
  have quiet: "\<not> fails t k" if "t \<in> set statement_tables" for t k using that fails by (auto simp: statement_tables_def)
  obtain db1 db2 where
    B: "each_table (bulk_delete fails False) (bulk_tables (int nid) (int (acc_id a))) db1 = (db2, Ok ())" and
    C: "\<exists>db3 r3. delete_account_row fails False (acc_id a) db2 = (db3, r3) \<and> r = r3 \<and> dl_tables db' = dl_tables db3 \<and>
       dl_accounts db' = dl_accounts db3"
    by (rule until_account [OF quiet none a run]) (assumption, rule that)
  from C obtain db3 r3 where d: "delete_account_row fails False (acc_id a) db2 = (db3, r3)" "r = r3" "dl_tables db' = dl_tables db3" by blast
  have "r = Raise (OperationalError [])" "dl_tables db' = dl_tables db2" using d fails by (simp_all add: delete_account_row_def)
  moreover obtain db3 where one: "bulk_delete fails False (''namespace'', ''id'', int nid) db3 = (db2, Ok ())"
    using B by (auto simp: bulk_tables_def st_bind_def st_ok_def split: prod.split_asm sum.split_asm)
  then have "set (dl_tables db2 ''namespace'') \<subseteq> {r. r ''id'' \<noteq> Some (int nid)}"
    using sql_delete_left(1) [of "''namespace''"] by (fastforce simp: bulk_delete_def hit_def Let_def split: if_split_asm)
  then have "filter (\<lambda>r. r ''id'' \<noteq> Some (int nid)) (dl_tables db2 ''namespace'') = dl_tables db2 ''namespace''"
    by (auto simp: filter_id_conv)
  ultimately show ?thesis by simp
qed

text \<open>Where no row of an account refers to a secret, nothing refuses its deletion either.\<close>

lemma account_row_deleted:
  assumes "\<And>k. \<not> fails ''account'' k" and none: "\<And>t. t \<in> {''genericaccount'', ''gmailaccount'', ''outlookaccount''} \<Longrightarrow> dl_tables db t = []"
  shows "snd (delete_account_row fails False aid db) = Ok ()"
proof -
  let ?child = "\<lambda>c. c \<in> {''genericaccount'', ''gmailaccount'', ''outlookaccount''}"
  have keys: "?child child \<and> parent = ''secret'' \<or> parent = ''transaction''"
    if "(child, col, parent, Restrict) \<in> set foreign_keys" for child col parent
    using that by (auto simp: foreign_keys_defs)
  have far: "set (reached foreign_keys [''account'', ''secret'']) \<inter> set [''transaction''] = {}"
    by (rule reached_apart) (simp_all add: upward_def foreign_keys_defs)
  have runs: "\<exists>x. cascade foreign_keys ((\<lambda>_. [])(t := ids)) (ts(t := rest)) = Ok x"
    if "t \<in> {''account'', ''secret''}" "\<And>c. ?child c \<Longrightarrow> ts c = []" for t ids ts rest
  proof (rule cascade_runs [where S = "[''account'', ''secret'']"])
    show "((\<lambda>_. [])(t := ids)) p = []" if "p \<notin> set [''account'', ''secret'']" for p
      using that \<open>t \<in> {''account'', ''secret''}\<close> by auto
    show "\<forall>(child, col, parent, act)\<in>set foreign_keys. act = Restrict \<longrightarrow>
        parent \<in> set (reached foreign_keys [''account'', ''secret'']) \<longrightarrow> (ts(t := rest)) child = []"
    proof (clarify)
      fix child col parent
      assume "(child, col, parent, Restrict) \<in> set foreign_keys" "parent \<in> set (reached foreign_keys [''account'', ''secret''])"
      with keys far have child: "?child child" by fastforce
      moreover have "child \<noteq> t" using child \<open>t \<in> {''account'', ''secret''}\<close> by auto
      ultimately show "(ts(t := rest)) child = []" using that(2) by simp
    qed
  qed
  obtain g ts where one: "cascade foreign_keys ((\<lambda>_. [])(''account'' := row_ids [[''id'' \<mapsto> int aid]]))
      ((dl_tables db)(''account'' := dl_tables db ''account'')) = Ok (g, ts)"
    using runs [of "''account''" "dl_tables db"] none by (metis insertI1 prod.collapse)
  have "ts c = []" if "?child c" for c
    using cascade_shrinks [OF one, of c] none [OF that] that by auto
  then have two: "\<exists>x. cascade foreign_keys ((\<lambda>_. [])(''secret'' := ids)) (ts(''secret'' := rest)) = Inr x" for ids rest
    by (intro runs) simp_all
  let ?S = "account_secrets (dl_tables db) (int aid)"
  from two [of "row_ids (filter (refers ''id'' ?S) (ts ''secret''))" "filter (\<lambda>r. \<not> refers ''id'' ?S r) (ts ''secret'')"]
  obtain g2 ts2 where "cascade foreign_keys ((\<lambda>_. [])(''secret'' := row_ids (filter (refers ''id'' ?S) (ts ''secret''))))
      (ts(''secret'' := filter (\<lambda>r. \<not> refers ''id'' ?S r) (ts ''secret''))) = Inr (g2, ts2)" by (metis prod.collapse)
  with one assms(1) show ?thesis by (simp add: delete_account_row_def st_bind_def sql_delete_def Let_def)
qed

lemma deletion_succeeds:
  assumes fails: "\<And>t k. \<not> fails t k" and cursors: "dl_tables db cursors = []"
    and none: "\<And>t. t \<in> {''genericaccount'', ''gmailaccount'', ''outlookaccount''} \<Longrightarrow> dl_tables db t = []"
    and a: "namespace_account db nid = Ok a" "is_marked_for_deletion a"
  shows "snd (delete_namespace fails False nid db) = Ok ()"
proof -
  obtain db' r where run: "delete_namespace fails False nid db = (db', r)" by fastforce
  have quiet: "\<not> fails t k" if "t \<in> set statement_tables" for t k by (rule fails)
  obtain db1 db2 where same: "\<And>u. u \<in> set account_tables \<Longrightarrow> dl_tables db2 u = dl_tables db u"
    and C: "\<exists>db3 r3. delete_account_row fails False (acc_id a) db2 = (db3, r3) \<and> r = r3 \<and> dl_tables db' = dl_tables db3 \<and>
       dl_accounts db' = dl_accounts db3"
    by (rule until_account [OF quiet cursors a run]) (assumption, rule that)
  have "snd (delete_account_row fails False (acc_id a) db2) = Ok ()"
    by (rule account_row_deleted) (use fails none same in \<open>auto simp: account_tables_def\<close>)
  with C run show ?thesis by auto
qed

lemma marked_ids_orphan:
  assumes "a \<in> set as" and "is_marked_for_deletion a" and "\<forall>r\<in>set ns. r ''account_id'' \<noteq> Some (int (acc_id a))"
  shows "marked_ids ns as = Raise AttributeError"
  using assms
proof (induction as)
  case (Cons b as)
  have "List.find (\<lambda>r. r ''account_id'' = Some (int (acc_id a))) ns = None"
    using Cons.prems(3) by (auto simp: find_None_iff)
  with Cons show ?case by (cases "a = b") (auto split: option.split)
qed simp

lemma namespace_accountD:
  assumes "namespace_account db nid = Ok a"
  shows "a \<in> set (dl_accounts db)"
proof -
  let ?rows = "filter (\<lambda>(r, a). r ''id'' = Some (int nid) \<and> r ''account_id'' = Some (int (acc_id a)))
    (List.product (dl_tables db ''namespace'') (dl_accounts db))"
  obtain r where "?rows = [(r, a)]"
    using assms unfolding namespace_account_def by (auto split: list.splits prod.splits)
  then have "(r, a) \<in> set ?rows" by simp
  then show ?thesis by auto
qed

section \<open>What a purge does\<close>

lemma one_query_less: "0 < n \<Longrightarrow> 0 < l \<Longrightarrow> (n - l + l - 1) div l + 1 = (n + l - 1) div (l::nat)"
proof (cases "l \<le> n")
  case True
  assume "0 < l"
  with True have "n + l - 1 = (n - l + l - 1) + l" by simp
  with \<open>0 < l\<close> show ?thesis by (metis Suc_eq_plus1 div_add_self2 less_not_refl)
next
  case False
  assume "0 < n"
  with False have "(n - l + l - 1) div l = 0" "(n + l - 1) div l = 1" by (auto intro!: div_nat_eqI)
  then show ?thesis by simp
qed

lemma purge_loop_spec:
  assumes "\<And>k. \<not> fails k" and "0 < limit" and "mono cutoff"
  shows "\<exists>n. purge_loop fails limit cutoff k rows = (filter (\<lambda>t. \<not> t < cutoff (k + n)) rows, k + n + 1) \<and>
    n \<le> length (filter (\<lambda>t. t < cutoff (k + n)) rows) \<and> length (filter (\<lambda>t. t < cutoff (k + n)) rows) \<le> n * limit"
proof (induction "length rows" arbitrary: k rows rule: less_induct)
  case less
  let ?old = "filter (\<lambda>t. t < cutoff k) rows"
  let ?rest = "delete_limit (\<lambda>_. 0) limit (\<lambda>t. t < cutoff k) rows"
  note one = purge_loop.simps [of fails limit cutoff k rows]
  have kept: "filter (\<lambda>t. \<not> t < cutoff k) ?rest = filter (\<lambda>t. \<not> t < cutoff k) rows" by (rule delete_limit_spec(1))
  show ?case
  proof (cases "?old = []")
    case True
    then have "length (filter (\<lambda>t. t < cutoff k) ?rest) = 0" by (simp add: delete_limit_spec(2))
    then have "filter (\<lambda>t. \<not> t < cutoff k) ?rest = ?rest" by (simp add: filter_id_conv filter_empty_conv)
    with kept True assms(1) one show ?thesis by (intro exI [of _ 0]) simp
  next
    case False
    have "length ?rest < length rows"
      using False assms(2) by (intro delete_limit_shorter) simp_all
    from less [OF this, of "Suc k"] obtain n where
      n: "purge_loop fails limit cutoff (Suc k) ?rest = (filter (\<lambda>t. \<not> t < cutoff (Suc k + n)) ?rest, Suc k + n + 1)"
      "n \<le> length (filter (\<lambda>t. t < cutoff (Suc k + n)) ?rest)" "length (filter (\<lambda>t. t < cutoff (Suc k + n)) ?rest) \<le> n * limit"
      by blast
    let ?c = "cutoff (Suc k + n)"
    have later: "cutoff k \<le> ?c" using assms(3) by (simp add: mono_def)
    have sub: "filter (\<lambda>t. \<not> t < ?c) xs = filter (\<lambda>t. \<not> t < ?c) (filter (\<lambda>t. \<not> t < cutoff k) xs)" for xs
      using later by (auto intro!: filter_cong)
    have same: "filter (\<lambda>t. \<not> t < ?c) ?rest = filter (\<lambda>t. \<not> t < ?c) rows" using sub kept by metis
    have count: "length xs = length (filter (\<lambda>t. t < ?c) xs) + length (filter (\<lambda>t. \<not> t < ?c) xs)" for xs
      by (rule sum_length_filter_compl [symmetric])
    have "length ?old \<le> length rows" by (rule length_filter_le)
    then have "min limit (length ?old) \<le> length rows" by (rule min.coboundedI2)
    then have "length rows = length ?rest + min limit (length ?old)"
      unfolding delete_limit_length by (rule le_add_diff_inverse2 [symmetric])
    with count [of rows] count [of ?rest] same
    have "length (filter (\<lambda>t. t < ?c) rows) = length (filter (\<lambda>t. t < ?c) ?rest) + min limit (length ?old)" by simp
    moreover have "1 \<le> min limit (length ?old)" using False assms(2) by (cases ?old) simp_all
    moreover have "min limit (length ?old) \<le> limit" by (rule min.cobounded1)
    ultimately have "Suc n \<le> length (filter (\<lambda>t. t < ?c) rows) \<and> length (filter (\<lambda>t. t < ?c) rows) \<le> n * limit + limit"
      using n(2,3) by linarith
    then have "Suc n \<le> length (filter (\<lambda>t. t < ?c) rows)" "length (filter (\<lambda>t. t < ?c) rows) \<le> Suc n * limit" by simp_all
    with n(1) same one assms(1,2) False show ?thesis by (intro exI [of _ "Suc n"]) simp
  qed
qed

lemma purge_loop_fixed:
  assumes "\<And>k. \<not> fails k" and "0 < limit"
  shows "purge_loop fails limit (\<lambda>k. cutoff) k rows =
    (filter (\<lambda>t. \<not> t < cutoff) rows, k + (length (filter (\<lambda>t. t < cutoff) rows) + limit - 1) div limit + 1)"
proof (induction "length rows" arbitrary: k rows rule: less_induct)
  case less
  let ?old = "length (filter (\<lambda>t. t < cutoff) rows)"
  let ?rest = "delete_limit (\<lambda>_. 0) limit (\<lambda>t. t < cutoff) rows"
  note one = purge_loop.simps [of fails limit "\<lambda>k. cutoff" k rows]
  have old: "length (filter (\<lambda>t. t < cutoff) ?rest) = ?old - limit" by (rule delete_limit_spec(2))
  have new: "filter (\<lambda>t. \<not> t < cutoff) ?rest = filter (\<lambda>t. \<not> t < cutoff) rows" by (rule delete_limit_spec(1))
  show ?case
  proof (cases "?old = 0")
    case True
    then have "\<forall>t\<in>set ?rest. \<not> t < cutoff" using old by (simp add: filter_empty_conv)
    then have "?rest = filter (\<lambda>t. \<not> t < cutoff) rows" using new by (metis filter_id_conv)
    with True assms one show ?thesis by simp
  next
    case False
    have "(?old - limit + limit - 1) div limit + 1 = (?old + limit - 1) div limit"
      using False assms(2) by (intro one_query_less) simp_all
    moreover have "length ?rest < length rows"
      using False assms(2) by (intro delete_limit_shorter) simp_all
    ultimately show ?thesis using less [of ?rest "Suc k"] old new False assms one by simp
  qed
qed

lemma backup_window_mod:
  assumes "0 \<le> start" "start < 24" "0 \<le> duration" "duration \<le> 24" "0 \<le> hour" "hour < 24"
  shows "backup_window start duration hour \<longleftrightarrow> (hour - start) mod 24 < duration"
proof -
  have wrap: "(x - 24) mod 24 = x mod (24::int)" for x by (metis minus_mod_self2)
  have lap: "(hour - start) mod 24 = (if start \<le> hour then hour - start else hour - start + 24)"
  proof (cases "start \<le> hour")
    case False
    then have "(hour - start + 24) mod 24 = hour - start + 24" using assms by (intro mod_pos_pos_trivial) linarith+
    with False show ?thesis by simp
  qed (use assms in \<open>simp add: mod_pos_pos_trivial\<close>)
  have stop: "(start + duration) mod 24 = (if start + duration < 24 then start + duration else start + duration - 24)"
  proof (cases "start + duration < 24")
    case False
    then have "(start + duration - 24) mod 24 = start + duration - 24" using assms by (intro mod_pos_pos_trivial) linarith+
    with False show ?thesis by (simp add: wrap)
  qed (use assms in \<open>simp add: mod_pos_pos_trivial\<close>)
  show ?thesis
    unfolding backup_window_def Let_def lap stop using assms by (simp add: min_def) linarith
qed


end
