(* ===== verification/Props_Deletion.thy ===== *)
theory Props_Deletion
  imports Samples Data_Deletion
begin

text \<open>
  The properties of the deletion of an account's data and of the purging of old transactions.
\<close>

definition row :: "(string \<times> int) list \<Rightarrow> sql_row" where
  "row cols = map_of cols"

definition doomed :: account_row where
  "doomed = sample_account\<lparr>acc_sync_state := Some Stopped, acc_sync_should_run := False,
     acc_sync_status := [''sync_disabled_reason'' \<mapsto> VText ''account deleted'']\<rparr>"

text \<open>
  Two namespaces with messages, their parts and UIDs, and metadata of the first, whose account is to be deleted; the
  first message is in a category.
\<close>

definition sample_tables :: tables where
  "sample_tables = (\<lambda>t.
     if t = ''namespace'' then [row [(''id'', 1), (''account_id'', 1)], row [(''id'', 2), (''account_id'', 2)]]
     else if t = ''message'' then [row [(''id'', 5), (''namespace_id'', 1), (''received_date'', 5)], row [(''id'', 6), (''namespace_id'', 2)]]
     else if t = ''part'' then [row [(''id'', 7), (''message_id'', 5)], row [(''id'', 8), (''message_id'', 6)]]
     else if t = ''messagecategory'' then [row [(''id'', 9), (''message_id'', 5)]]
     else if t = ''metadata'' then [row [(''id'', 3), (''namespace_id'', 1)]]
     else if t = ''imapuid'' then [row [(''id'', 4), (''account_id'', 1)]] else [])"

definition sample_del :: del_db where
  "sample_del = \<lparr>dl_accounts = [doomed, sample_account\<lparr>acc_id := 2\<rparr>], dl_tables = sample_tables, dl_live = {1, 2}\<rparr>"

lemma sample_del_account: "namespace_account sample_del 1 = Ok doomed"
  by (simp add: namespace_account_def sample_del_def sample_tables_def row_def doomed_def sample_account_def)

lemma doomed_id: "acc_id doomed = Suc 0"
  by (simp add: doomed_def sample_account_def)

lemma doomed_marked: "is_marked_for_deletion doomed"
  by (simp add: is_marked_for_deletion_def status_get_def doomed_def sample_account_def)

section \<open>Deleting a namespace\<close>

text \<open>
  C14: Deleting a namespace touches nothing else: whichever statements fail or are refused, and in a dry run, every table keeps
  its rows that are not the namespace's, in order, and no row is left that refers by a cascading key to one that was deleted.
  The namespace's rows are those the statements name, those of the account and its secrets, and those that
  refer to one of them by a cascading key. If it returns, exactly the others are left and the account is gone; if not, the row of
  the account is still there; other accounts only lose a deleted calendar.
\<close>

theorem namespace_deletion_exact:
  assumes "namespace_account db nid = Ok a" and "delete_namespace fails dry nid db = (db', r)"
  shows "(\<forall>t. filter (\<lambda>x. \<not> owned a nid db t x) (dl_tables db' t) = filter (\<lambda>x. \<not> owned a nid db t x) (dl_tables db t)) \<and>
    linked (dl_tables db) (dl_tables db') \<and>
    (if r = Ok () \<and> \<not> dry
     then dl_accounts db' = map (reset_calendar (Collect (owned_id a nid db ''calendar''))) (t_del acc_id (dl_accounts db) (acc_id a)) \<and>
       (\<forall>t. dl_tables db' t = filter (\<lambda>x. \<not> owned a nid db t x) (dl_tables db t))
     else \<exists>ids. ids \<subseteq> Collect (owned_id a nid db ''calendar'') \<and> dl_accounts db' = map (reset_calendar ids) (dl_accounts db))"
proof -
  note D = delete_namespace_result [OF assms(2,1)]
  show ?thesis
  proof (cases "r = Ok () \<and> \<not> dry")
    case True
    with D(1,2,4,5) show ?thesis by simp
  next
    case False
    with D(1,2) D(6) [OF False] show ?thesis by (simp only: if_False) blast
  qed
qed

lemma sample_keys:
  "(''message'', col, p, act) \<notin> set foreign_keys" "(''secret'', col, p, act) \<notin> set foreign_keys"
  "(''messagecategory'', col, p, act) \<notin> set foreign_keys" "(''phonenumber'', col, p, act) \<notin> set foreign_keys"
  "(''accounttransaction'', col, p, act) \<notin> set foreign_keys"
  "(''part'', col, p, act) \<in> set foreign_keys \<longleftrightarrow>
     act = Cascade \<and> (col = ''block_id'' \<and> p = ''block'' \<or> col = ''message_id'' \<and> p = ''message'')"
  by (auto simp: foreign_keys_defs)

lemma sample_statements:
  "(''message'', f) \<in> all_tables a nid \<longleftrightarrow> f = (''namespace_id'', int nid)"
  "(''part'', f) \<notin> all_tables a nid" "(''secret'', f) \<notin> all_tables a nid" "(''messagecategory'', f) \<notin> all_tables a nid"
  "(''phonenumber'', f) \<notin> all_tables a nid" "(''accounttransaction'', f) \<notin> all_tables a nid"
  by (auto simp: all_tables_def batch_tables_def bulk_tables_def)

lemma owned_message: "owned a nid db ''message'' x \<longleftrightarrow> x ''namespace_id'' = Some (int nid)"
  by (subst owned_iff) (simp add: sample_keys sample_statements hit_def)

theorem namespace_deletion_exact_witness:
  "\<exists>db'. delete_namespace (\<lambda>t k. False) False 1 sample_del = (db', Ok ()) \<and>
     dl_tables db' ''message'' = [row [(''id'', 6), (''namespace_id'', 2)]] \<and>
     dl_tables db' ''part'' = [row [(''id'', 8), (''message_id'', 6)]] \<and> dl_tables db' ''metadata'' = [] \<and>
     map acc_id (dl_accounts db') = [2]"
proof -
  obtain db' r where run: "delete_namespace (\<lambda>t k. False) False 1 sample_del = (db', r)" by fastforce
  have "snd (delete_namespace (\<lambda>t k. False) False 1 sample_del) = Ok ()"
    by (rule deletion_succeeds [OF _ _ _ sample_del_account doomed_marked])
      (auto simp: sample_del_def sample_tables_def cursors_def)
  with run have r: "r = Ok ()" by simp
  let ?own = "owned doomed 1 sample_del"
  note D = namespace_deletion_exact [OF sample_del_account run]
  have left: "dl_tables db' t = filter (\<lambda>x. \<not> ?own t x) (sample_tables t)" for t
    using D r by (simp add: sample_del_def)
  have n: "?own ''namespace'' (row [(''id'', 1), (''account_id'', 1)])"
    by (rule owned.direct [of _ "(''id'', 1)"]) (simp_all add: all_tables_def bulk_tables_def hit_def row_def)
  have meta: "?own ''metadata'' (row [(''id'', 3), (''namespace_id'', 1)])"
    by (rule owned.child [OF n, of 1 _ "''namespace_id''"])
      (simp_all add: sample_del_def sample_tables_def row_def foreign_keys_defs)
  have part: "?own ''part'' (row [(''id'', 7), (''message_id'', 5)])"
    by (rule owned.child [of _ _ _ "''message''" "row [(''id'', 5), (''namespace_id'', 1), (''received_date'', 5)]" 5 _ "''message_id''"])
      (simp_all add: owned_message sample_del_def sample_tables_def row_def foreign_keys_defs)
  have other: "\<not> ?own ''part'' (row [(''id'', 8), (''message_id'', 6)])"
    unfolding owned_iff [of _ _ _ "''part''"]
    by (auto simp: sample_keys sample_statements row_def sample_del_def sample_tables_def owned_message split: if_split_asm)
  have "dl_tables db' ''message'' = [row [(''id'', 6), (''namespace_id'', 2)]]" by (simp add: left owned_message sample_tables_def row_def)
  moreover have "dl_tables db' ''part'' = [row [(''id'', 8), (''message_id'', 6)]]" using part other by (simp add: left sample_tables_def)
  moreover have "dl_tables db' ''metadata'' = []" using meta by (simp add: left sample_tables_def)
  moreover have "map acc_id (dl_accounts db') = [2]"
    using D r by (simp add: sample_del_def t_del_def doomed_id sample_account_def comp_def)
  ultimately show ?thesis using run r by (intro exI [of _ db'] conjI) simp_all
qed

text \<open>
  What a deletion leaves behind: the categories of the messages, the phone numbers of the contacts and the account's
  transactions have no foreign key and no statement, so they all stay; and so do the secrets that no row of the account
  but that of its IMAP and SMTP passwords names.
\<close>

theorem deletion_leaves_rows:
  assumes "namespace_account db nid = Ok a" and "delete_namespace fails dry nid db = (db', r)"
  shows "dl_tables db' ''messagecategory'' = dl_tables db ''messagecategory'' \<and> dl_tables db' ''phonenumber'' = dl_tables db ''phonenumber'' \<and>
    dl_tables db' ''accounttransaction'' = dl_tables db ''accounttransaction'' \<and>
    (\<forall>x\<in>set (dl_tables db ''secret''). refers ''id'' (account_secrets (dl_tables db) (int (acc_id a))) x \<or> x \<in> set (dl_tables db' ''secret''))"
proof -
  have free: "\<not> owned a nid db t x" if "t \<in> {''messagecategory'', ''phonenumber'', ''accounttransaction''}" for t x
    using that by (subst owned_iff) (auto simp: sample_keys sample_statements)
  have secret: "refers ''id'' (account_secrets (dl_tables db) (int (acc_id a))) x" if "owned a nid db ''secret'' x" for x
    using that by (subst (asm) owned_iff) (simp add: sample_keys sample_statements)
  have "dl_tables db' t = dl_tables db t" if "t \<in> {''messagecategory'', ''phonenumber'', ''accounttransaction''}" for t
    using delete_namespace_result(1) [OF assms(2,1), of t] free [OF that] by simp
  moreover have "x \<in> set (dl_tables db' ''secret'')" if "x \<in> set (dl_tables db ''secret'')" "\<not> owned a nid db ''secret'' x" for x
  proof -
    from that have "x \<in> set (filter (\<lambda>x. \<not> owned a nid db ''secret'' x) (dl_tables db ''secret''))" by simp
    then show ?thesis unfolding delete_namespace_result(1) [OF assms(2,1), of "''secret''", symmetric] by simp
  qed
  ultimately show ?thesis using secret by blast
qed

theorem deletion_leaves_rows_witness:
  "\<exists>db'. delete_namespace (\<lambda>t k. False) False 1 sample_del = (db', Ok ()) \<and>
     dl_tables db' ''messagecategory'' = [row [(''id'', 9), (''message_id'', 5)]]"
proof -
  obtain db' r where run: "delete_namespace (\<lambda>t k. False) False 1 sample_del = (db', r)" by fastforce
  have "snd (delete_namespace (\<lambda>t k. False) False 1 sample_del) = Ok ()"
    by (rule deletion_succeeds [OF _ _ _ sample_del_account doomed_marked])
      (auto simp: sample_del_def sample_tables_def cursors_def)
  with run deletion_leaves_rows [OF sample_del_account run] show ?thesis by (simp add: sample_del_def sample_tables_def)
qed

text \<open>
  When the deletion fails at its last statement, that of the account row, the namespace is
  gone already, and from then on the query for the accounts to delete raises AttributeError:
  one such account keeps every other account of the shard from being deleted.
\<close>

theorem orphan_blocks_deletions:
  assumes "namespace_account db nid = Ok a" and "is_marked_for_deletion a"
    and "\<forall>x\<in>set (dl_tables db ''namespace''). x ''account_id'' = Some (int (acc_id a)) \<longrightarrow> x ''id'' = Some (int nid)"
    and "\<And>t k. fails t k \<longleftrightarrow> t = ''account''" and "dl_tables db ''contactsearchindexcursor'' = []"
    and "delete_namespace fails False nid db = (db', r)"
  shows "r = Raise (OperationalError []) \<and> get_accounts_to_delete db' = Raise AttributeError"
proof -
  have F: "r = Raise (OperationalError [])"
      "dl_tables db' ''namespace'' = filter (\<lambda>r. r ''id'' \<noteq> Some (int nid)) (dl_tables db' ''namespace'')"
    using last_statement_fails [of fails, OF assms(4) _ assms(1,2,6)] assms(5) by (simp_all add: cursors_def)
  note R = delete_namespace_result [OF assms(6,1)]
  have "x ''account_id'' \<noteq> Some (int (acc_id a))" if x: "x \<in> set (dl_tables db' ''namespace'')" for x
  proof -
    from x have "x ''id'' \<noteq> Some (int nid)" by (subst (asm) F(2)) simp
    moreover have "x \<in> set (dl_tables db ''namespace'')" using x R(3) by (auto simp: smaller_def)
    ultimately show ?thesis using assms(3) by blast
  qed
  moreover obtain ids where "dl_accounts db' = map (reset_calendar ids) (dl_accounts db)" using R(6) F(1) by auto
  then have "reset_calendar ids a \<in> set (dl_accounts db')" using namespace_accountD [OF assms(1)] by simp
  moreover have "is_marked_for_deletion (reset_calendar ids a)" "acc_id (reset_calendar ids a) = acc_id a"
    using assms(2) by (simp_all add: reset_calendar_def is_marked_for_deletion_def status_get_def split: option.splits)
  ultimately show ?thesis using F(1) marked_ids_orphan [of "reset_calendar ids a"] by (simp add: get_accounts_to_delete_def)
qed

theorem orphan_blocks_deletions_witness:
  "get_accounts_to_delete (fst (delete_namespace (\<lambda>t k. t = ''account'') False 1 sample_del)) = Raise AttributeError"
proof -
  obtain db' r where run: "delete_namespace (\<lambda>t k. t = ''account'') False 1 sample_del = (db', r)" by fastforce
  have "\<forall>x\<in>set (dl_tables sample_del ''namespace''). x ''account_id'' = Some (int (acc_id doomed)) \<longrightarrow> x ''id'' = Some (int 1)"
    "dl_tables sample_del ''contactsearchindexcursor'' = []"
    by (simp_all add: sample_del_def sample_tables_def row_def doomed_def sample_account_def)
  from orphan_blocks_deletions [OF sample_del_account doomed_marked this(1) _ this(2) run] run show ?thesis by simp
qed

section \<open>Purging the transaction log\<close>

text \<open>
  C15: A purge ends, although each of its queries reads the clock again: with a positive limit, no failing query and a clock that
  does not go back, it leaves exactly the transactions that are not older than the cutoff of the last query, in order. This query is one
  more than were needed: each of the others deletes at least one row and at most the limit, and with a time that was given
  their number is that of the old rows by the limit, rounded up.
\<close>

theorem purge_ends:
  assumes "\<And>k. \<not> fails k" and "0 < limit" and "mono cutoff"
  shows "\<exists>n. purge_loop fails limit cutoff 0 rows = (filter (\<lambda>t. \<not> t < cutoff n) rows, n + 1) \<and>
    n \<le> length (filter (\<lambda>t. t < cutoff n) rows) \<and> length (filter (\<lambda>t. t < cutoff n) rows) \<le> n * limit \<and>
    ((\<forall>k. cutoff k = cutoff 0) \<longrightarrow> n = (length (filter (\<lambda>t. t < cutoff 0) rows) + limit - 1) div limit)"
proof -
  obtain n where n: "purge_loop fails limit cutoff 0 rows = (filter (\<lambda>t. \<not> t < cutoff n) rows, n + 1)"
      "n \<le> length (filter (\<lambda>t. t < cutoff n) rows)" "length (filter (\<lambda>t. t < cutoff n) rows) \<le> n * limit"
    using purge_loop_spec [of fails limit cutoff 0 rows] assms by auto
  have "n = (length (filter (\<lambda>t. t < cutoff 0) rows) + limit - 1) div limit" if "\<forall>k. cutoff k = cutoff 0"
  proof -
    have "cutoff = (\<lambda>k. cutoff 0)" using that by auto
    with n(1) purge_loop_fixed [of fails limit "cutoff 0" 0 rows, OF assms(1,2)] show ?thesis by simp
  qed
  with n show ?thesis by blast
qed

text \<open>The second row becomes old while the purge is running.\<close>

theorem purge_ends_witness: "fst (purge_loop (\<lambda>k. False) 2 (\<lambda>k. 10 + int k) 0 [1, 11, 3, 5, 30]) = [30]"
proof -
  have run: "snd (purge_loop (\<lambda>k. False) 2 (\<lambda>k. 10 + int k) 0 [1, 11, 3, 5, 30]) = 4" by code_simp
  have "mono (\<lambda>k. 10 + int k)" by (simp add: mono_def)
  from purge_ends [OF _ _ this, of "\<lambda>k. False" 2 "[1, 11, 3, 5, 30]"] obtain n where
    "purge_loop (\<lambda>k. False) 2 (\<lambda>k. 10 + int k) 0 [1, 11, 3, 5, 30] = (filter (\<lambda>t. \<not> t < 10 + int n) [1, 11, 3, 5, 30], n + 1)" by auto
  moreover from this run have "n = 3" by simp
  ultimately show ?thesis by simp
qed

end
