(* ===== verification/Event_Model.thy ===== *)
theory Event_Model
  imports Event_Queues
begin

text \<open>
  Events and calendars: \<open>inbox/models/when.py\<close>, \<open>inbox/models/event.py\<close> and \<open>inbox/models/calendar.py\<close>.
  A time is an instant in UTC, a date the instant its day begins. What reads a time from
  text is a parameter. A transient event has no namespace and calendar yet.
\<close>

section \<open>When\<close>

datatype event_when = Time datetime | TimeSpan datetime datetime | Date datetime | DateSpan datetime datetime

fun when_start :: "event_when \<Rightarrow> datetime" where
  "when_start (Time t) = t"
| "when_start (TimeSpan s e) = s"
| "when_start (Date t) = t"
| "when_start (DateSpan s e) = s"

fun when_end :: "event_when \<Rightarrow> datetime" where
  "when_end (Time t) = t"
| "when_end (TimeSpan s e) = e"
| "when_end (Date t) = t"
| "when_end (DateSpan s e) = e"

fun when_all_day :: "event_when \<Rightarrow> bool" where
  "when_all_day (Time t) = False"
| "when_all_day (TimeSpan s e) = False"
| "when_all_day (Date t) = True"
| "when_all_day (DateSpan s e) = True"

definition when_delta :: "event_when \<Rightarrow> int" where
  "when_delta w = when_end w - when_start w"

datatype when_class = Time_cls | TimeSpan_cls | Date_cls | DateSpan_cls

fun json_keys :: "when_class \<Rightarrow> string list" where
  "json_keys Time_cls = [''time'']"
| "json_keys TimeSpan_cls = [''start_time'', ''end_time'']"
| "json_keys Date_cls = [''date'']"
| "json_keys DateSpan_cls = [''start_date'', ''end_date'']"

text \<open>\<open>get_time_dict\<close>: the keys of the class with the start and, for a span, the end.\<close>

fun get_time_dict :: "event_when \<Rightarrow> (string \<times> datetime) list" where
  "get_time_dict (Time t) = [(''time'', t)]"
| "get_time_dict (TimeSpan s e) = [(''start_time'', s), (''end_time'', e)]"
| "get_time_dict (Date t) = [(''date'', t)]"
| "get_time_dict (DateSpan s e) = [(''start_date'', s), (''end_date'', e)]"

text \<open>\<open>parse_keys\<close>: three kinds of exceptions of the parser become one, the others pass.\<close>

fun parse_keys :: "('v \<Rightarrow> datetime res) \<Rightarrow> (string \<times> 'v) list \<Rightarrow> string list \<Rightarrow> datetime list res" where
  "parse_keys parse_utc raw [] = Ok []"
| "parse_keys parse_utc raw (key # keys) =
     res_bind
       (case map_of raw key of
          None \<Rightarrow> Raise KeyError
        | Some v \<Rightarrow>
            (case parse_utc v of
               Inr t \<Rightarrow> Ok t
             | Inl e \<Rightarrow>
                 Raise (if e = AttributeError \<or> e = TypeError \<or> (\<exists>m. e = ValueError m)
                        then ValueError (key @ '' parameter invalid.'') else e)))
       (\<lambda>t. res_bind (parse_keys parse_utc raw keys) (\<lambda>ts. Ok (t # ts)))"

definition singular_cls :: "when_class \<Rightarrow> datetime \<Rightarrow> event_when" where
  "singular_cls c = (if c = TimeSpan_cls then Time else Date)"

definition span_of :: "when_class \<Rightarrow> datetime \<Rightarrow> datetime \<Rightarrow> event_when" where
  "span_of c = (if c = TimeSpan_cls then TimeSpan else DateSpan)"

definition spanning :: "when_class \<Rightarrow> bool" where
  "spanning c \<longleftrightarrow> c = TimeSpan_cls \<or> c = DateSpan_cls"

definition when_parse :: "('v \<Rightarrow> datetime res) \<Rightarrow> when_class \<Rightarrow> (string \<times> 'v) list \<Rightarrow> event_when res" where
  "when_parse parse_utc c raw =
     res_bind (parse_keys parse_utc raw (json_keys c)) (\<lambda>times.
       if spanning c
       then (case times of
               [s, e] \<Rightarrow>
                 if s > e then Raise (ValueError '' must be < '')
                 else if s = e then Ok (singular_cls c s) else Ok (span_of c s e)
             | _ \<Rightarrow> Raise (ValueError []))
       else (case times of
               [t] \<Rightarrow> Ok (if c = Time_cls then Time t else Date t)
             | _ \<Rightarrow> Raise TypeError))"

text \<open>
  \<open>parse_as_when\<close>: the class whose keys are the given ones. \<open>set('object')\<close> is the set of the letters of the
  word, so a key \<open>object\<close> is not ignored. In which order a set is iterated is a parameter.
\<close>

definition keys_for_type :: "string list \<Rightarrow> when_class option" where
  "keys_for_type ks = List.find (\<lambda>c. json_keys c = ks) [TimeSpan_cls, Time_cls, DateSpan_cls, Date_cls]"

definition object_letters :: "string set" where
  "object_letters = {''o'', ''b'', ''j'', ''e'', ''c'', ''t''}"

definition parse_as_when ::
  "(string set \<Rightarrow> string list) \<Rightarrow> ('v \<Rightarrow> datetime res) \<Rightarrow> (string \<times> 'v) list \<Rightarrow> event_when res" where
  "parse_as_when order parse_utc raw =
     (case keys_for_type (order (set (map fst raw) - object_letters)) of
        None \<Rightarrow> Raise (ValueError ''When object had invalid keys.'')
      | Some c \<Rightarrow> when_parse parse_utc c raw)"

section \<open>Events\<close>

type_synonym participant = "(string \<times> json) list"

record recur_info =
  ri_rrule :: "string option"
  ri_exdate :: "string option"
  ri_until :: "datetime option"
  ri_start_timezone :: "string option"

record override_info =
  ov_master_id :: "nat option"
  ov_master_uid :: "string option"
  ov_original_start :: "datetime option"

text \<open>The classes \<open>Event\<close>, \<open>RecurringEvent\<close> and \<open>RecurringEventOverride\<close> of one table.\<close>

datatype event_kind = Plain | Recurring recur_info | Override override_info

record event_row =
  ev_id :: nat
  ev_public_id :: string
  ev_namespace_id :: "nat option"
  ev_calendar_id :: "nat option"
  ev_uid :: string
  ev_provider_name :: "string option"
  ev_source :: string
  ev_raw_data :: string
  ev_title :: "string option"
  ev_owner :: "string option"
  ev_description :: "string option"
  ev_location :: "string option"
  ev_busy :: bool
  ev_read_only :: bool
  ev_reminders :: "string option"
  ev_recurrence :: "string option"
  ev_start :: datetime
  ev_end :: datetime
  ev_all_day :: bool
  ev_is_owner :: bool
  ev_last_modified :: "datetime option"
  ev_status :: string
  ev_message_id :: "nat option"
  ev_participants :: "participant list"
  ev_sequence_number :: "int option"
  ev_kind :: event_kind

definition EVENT_STATUSES :: "string list" where
  "EVENT_STATUSES = [''confirmed'', ''tentative'', ''cancelled'']"

definition TITLE_MAX_LEN :: nat where "TITLE_MAX_LEN = 1024"
definition LOCATION_MAX_LEN :: nat where "LOCATION_MAX_LEN = 255"
definition REMINDER_MAX_LEN :: nat where "REMINDER_MAX_LEN = 255"
definition OWNER_MAX_LEN :: nat where "OWNER_MAX_LEN = 1024"

text \<open>The text columns hold 65535 bytes of characters of up to four bytes.\<close>

definition MAX_TEXT_CHARS :: nat where "MAX_TEXT_CHARS = 16383"

definition MAX_LENS :: "string \<Rightarrow> nat option" where
  "MAX_LENS = map_of [(''location'', LOCATION_MAX_LEN), (''owner'', OWNER_MAX_LEN), (''recurrence'', MAX_TEXT_CHARS),
     (''reminders'', REMINDER_MAX_LEN), (''title'', TITLE_MAX_LEN), (''raw_data'', MAX_TEXT_CHARS)]"

definition validate_length :: "string \<Rightarrow> string option \<Rightarrow> string option" where
  "validate_length key v =
     (case v of
        None \<Rightarrow> None
      | Some s \<Rightarrow> (case MAX_LENS key of None \<Rightarrow> Some s | Some n \<Rightarrow> Some (unicode_safe_truncate s n)))"

text \<open>The validators run on every assignment, here on a whole row.\<close>

definition validated :: "event_row \<Rightarrow> event_row" where
  "validated e = e\<lparr>
     ev_title := validate_length ''title'' (ev_title e), ev_owner := validate_length ''owner'' (ev_owner e),
     ev_location := validate_length ''location'' (ev_location e),
     ev_reminders := validate_length ''reminders'' (ev_reminders e),
     ev_recurrence := validate_length ''recurrence'' (ev_recurrence e),
     ev_raw_data := unicode_safe_truncate (ev_raw_data e) MAX_TEXT_CHARS\<rparr>"

definition microday :: int where "microday = 86400000000"

text \<open>The date a time falls on.\<close>

definition day_of :: "datetime \<Rightarrow> datetime" where
  "day_of t = (t div microday) * microday"

definition when_of_event :: "event_row \<Rightarrow> event_when" where
  "when_of_event e =
     (if ev_all_day e
      then (let s = day_of (ev_start e); f = day_of (ev_end e) in if s = f then Date s else DateSpan s f)
      else if ev_start e = ev_end e then Time (ev_start e) else TimeSpan (ev_start e) (ev_end e))"

text \<open>The setter; a dictionary with none of the keys changes nothing.\<close>

definition set_when ::
  "('v \<Rightarrow> datetime res) \<Rightarrow> ('v \<Rightarrow> datetime res) \<Rightarrow> (string \<times> 'v) list \<Rightarrow> event_row \<Rightarrow> event_row res" where
  "set_when time_parse date_parse w e =
     (let get = (\<lambda>parse k. case map_of w k of None \<Rightarrow> Raise KeyError | Some v \<Rightarrow> parse v);
          one = (\<lambda>parse k d. res_bind (get parse k) (\<lambda>t. Ok (e\<lparr>ev_start := t, ev_end := t, ev_all_day := d\<rparr>)));
          two = (\<lambda>parse j k d. res_bind (get parse j) (\<lambda>s. res_bind (get parse k) (\<lambda>t.
            Ok (e\<lparr>ev_start := s, ev_end := t, ev_all_day := d\<rparr>))))
      in if map_of w ''time'' \<noteq> None then one time_parse ''time'' False
         else if map_of w ''start_time'' \<noteq> None then two time_parse ''start_time'' ''end_time'' False
         else if map_of w ''date'' \<noteq> None then one date_parse ''date'' True
         else if map_of w ''start_date'' \<noteq> None then two date_parse ''start_date'' ''end_date'' True
         else Ok e)"

definition event_cancelled :: "event_row \<Rightarrow> bool" where
  "event_cancelled e \<longleftrightarrow> ev_status e = ''cancelled''"

definition set_cancelled :: "bool \<Rightarrow> event_row \<Rightarrow> event_row" where
  "set_cancelled b e = e\<lparr>ev_status := if b then ''cancelled'' else ''confirmed''\<rparr>"

definition event_length :: "event_row \<Rightarrow> int" where
  "event_length e = when_delta (when_of_event e)"

text \<open>\<open>parseaddr\<close> of the standard library gives a pair of texts.\<close>

definition organizer_email :: "(string \<Rightarrow> string \<times> string) \<Rightarrow> event_row \<Rightarrow> string option" where
  "organizer_email parseaddr e =
     (let a = snd (parseaddr (case ev_owner e of None \<Rightarrow> [] | Some w \<Rightarrow> w)) in if a = [] then None else Some a)"

definition organizer_name :: "(string \<Rightarrow> string \<times> string) \<Rightarrow> event_row \<Rightarrow> string option" where
  "organizer_name parseaddr e =
     (let a = fst (parseaddr (case ev_owner e of None \<Rightarrow> [] | Some w \<Rightarrow> w)) in if a = [] then None else Some a)"

section \<open>Updating an event\<close>

definition base_update :: "event_row \<Rightarrow> event_row \<Rightarrow> event_row" where
  "base_update e s = validated (s\<lparr>
     ev_namespace_id := (case ev_namespace_id e of None \<Rightarrow> ev_namespace_id s | Some n \<Rightarrow> Some n),
     ev_calendar_id := (case ev_calendar_id e of None \<Rightarrow> ev_calendar_id s | Some c \<Rightarrow> Some c),
     ev_provider_name := (case ev_provider_name e of None \<Rightarrow> ev_provider_name s | Some p \<Rightarrow> Some p),
     ev_uid := ev_uid e, ev_raw_data := ev_raw_data e, ev_title := ev_title e, ev_description := ev_description e,
     ev_location := ev_location e, ev_start := ev_start e, ev_end := ev_end e, ev_all_day := ev_all_day e,
     ev_owner := ev_owner e, ev_is_owner := ev_is_owner e, ev_read_only := ev_read_only e,
     ev_participants := ev_participants e, ev_busy := ev_busy e, ev_reminders := ev_reminders e,
     ev_recurrence := ev_recurrence e, ev_last_modified := ev_last_modified e, ev_message_id := ev_message_id e,
     ev_status := ev_status e,
     ev_sequence_number := (case ev_sequence_number e of None \<Rightarrow> ev_sequence_number s | Some n \<Rightarrow> Some n)\<rparr>)"

text \<open>The class of the row stays; the fields of a subclass are taken over between equal classes.\<close>

definition event_update :: "event_row \<Rightarrow> event_row \<Rightarrow> event_row" where
  "event_update e s =
     (let s' = base_update e s
      in case ev_kind s of
           Plain \<Rightarrow> s'
         | Recurring r \<Rightarrow> (case ev_kind e of Recurring r' \<Rightarrow> s'\<lparr>ev_kind := Recurring r'\<rparr> | _ \<Rightarrow> s')
         | Override v \<Rightarrow>
             (case ev_kind e of
                Override v' \<Rightarrow> s'\<lparr>ev_kind := Override (v\<lparr>ov_master_uid := ov_master_uid v',
                                  ov_original_start := ov_original_start v'\<rparr>)\<rparr>
              | _ \<Rightarrow> s')\<lparr>ev_recurrence := None\<rparr>)"

section \<open>Merging participants\<close>

text \<open>Attributes of the right side win unless they are empty or the right side has not replied.\<close>

fun merge_attributes :: "participant \<Rightarrow> (string \<times> json) list \<Rightarrow> participant \<Rightarrow> participant res" where
  "merge_attributes right [] left = Ok left"
| "merge_attributes right ((k, v) # kvs) left =
     (if v = JNull \<or> v = JStr [] then merge_attributes right kvs left
      else case map_of right ''status'' of
             None \<Rightarrow> Raise KeyError
           | Some st \<Rightarrow>
               merge_attributes right kvs (if st = JStr ''noreply'' then left else dict_set left k v))"

definition merge_participant_attributes :: "participant \<Rightarrow> participant \<Rightarrow> participant res" where
  "merge_participant_attributes left right = merge_attributes right right left"

text \<open>Only the stored address is put in lower case: the key keeps the case it had.\<close>

definition lower_email :: "participant \<Rightarrow> participant res" where
  "lower_email p =
     (case map_of p ''email'' of
        Some (JStr s) \<Rightarrow> Ok (map (\<lambda>(k, v). if k = ''email'' then (k, JStr (py_lower s)) else (k, v)) p)
      | _ \<Rightarrow> Raise AttributeError)"

definition participant_key :: "participant \<Rightarrow> (json \<times> participant) option res" where
  "participant_key p =
     (let email = jget_or_null p ''email''; name = jget_or_null p ''name''
      in if email \<noteq> JNull then res_bind (lower_email p) (\<lambda>q. Ok (Some (email, q)))
         else if name \<noteq> JNull then Ok (Some (name, p))
         else Ok None)"

text \<open>The dictionary in the order its keys were first stored.\<close>

type_synonym participant_table = "(json \<times> participant) list"

definition table_put :: "participant_table \<Rightarrow> json \<Rightarrow> participant \<Rightarrow> participant_table" where
  "table_put t k p = (if k \<in> fst ` set t then map (\<lambda>(j, q). if j = k then (j, p) else (j, q)) t else t @ [(k, p)])"

definition store_own :: "participant \<Rightarrow> participant_table \<Rightarrow> participant_table res" where
  "store_own p t =
     res_bind (participant_key p) (\<lambda>kp. Ok (case kp of None \<Rightarrow> t | Some (k, q) \<Rightarrow> table_put t k q))"

definition store_other :: "participant \<Rightarrow> participant_table \<Rightarrow> participant_table res" where
  "store_other p t =
     res_bind (participant_key p) (\<lambda>kp.
       case kp of
         None \<Rightarrow> Ok t
       | Some (k, q) \<Rightarrow>
           (case map_of t k of
              None \<Rightarrow> Ok (table_put t k q)
            | Some left \<Rightarrow> res_bind (merge_participant_attributes left q) (\<lambda>m. Ok (table_put t k m))))"

definition partial_participants_merge :: "participant list \<Rightarrow> participant list \<Rightarrow> participant list res" where
  "partial_participants_merge own other =
     res_bind (res_fold store_own own []) (\<lambda>t. res_bind (res_fold store_other other t) (\<lambda>t. Ok (map snd t)))"

section \<open>Calendars\<close>

record calendar_row =
  cal_id :: nat
  cal_namespace_id :: nat
  cal_uid :: string
  cal_name :: string
  cal_description :: "string option"
  cal_read_only :: bool
  cal_last_synced :: "datetime option"
  cal_gpush_last_ping :: "datetime option"
  cal_gpush_expiration :: "datetime option"

text \<open>What a provider says of a calendar.\<close>

record remote_calendar =
  rc_uid :: "string option"
  rc_name :: string
  rc_description :: "string option"
  rc_read_only :: bool

definition calendar_update :: "string \<Rightarrow> remote_calendar \<Rightarrow> calendar_row \<Rightarrow> calendar_row" where
  "calendar_update uid rc c = c\<lparr>cal_uid := uid, cal_name := take MAX_INDEXABLE_LENGTH (rc_name rc),
     cal_read_only := rc_read_only rc, cal_description := rc_description rc\<rparr>"

text \<open>Google's expiration is in milliseconds.\<close>

definition new_event_watch :: "int \<Rightarrow> calendar_row \<Rightarrow> calendar_row" where
  "new_event_watch expiration c = c\<lparr>cal_gpush_expiration := Some (expiration * 1000)\<rparr>"

definition calendar_handle_gpush_notification :: "datetime \<Rightarrow> calendar_row \<Rightarrow> calendar_row" where
  "calendar_handle_gpush_notification now c = c\<lparr>cal_gpush_last_ping := Some now\<rparr>"

definition google_group :: string where "google_group = ''group.v.calendar.google.com''"

definition needs_new_watch :: "datetime \<Rightarrow> calendar_row \<Rightarrow> bool" where
  "needs_new_watch now c =
     (if cal_name c = ''Emailed events'' \<and> cal_uid c = ''inbox'' then False
      else if str_contains google_group (cal_uid c) then False
      else (case cal_gpush_expiration c of None \<Rightarrow> True | Some t \<Rightarrow> t < now))"

definition should_update_events :: "datetime \<Rightarrow> int \<Rightarrow> calendar_row \<Rightarrow> bool" where
  "should_update_events now max_time_between_syncs c =
     (if cal_name c = ''Emailed events'' then False
      else if str_contains google_group (cal_uid c) then False
      else case cal_last_synced c of
             None \<Rightarrow> True
           | Some t \<Rightarrow> needs_new_watch now c \<or> now > t + max_time_between_syncs \<or>
               (case cal_gpush_last_ping c of None \<Rightarrow> False | Some p \<Rightarrow> p > t))"

text \<open>A calendar of the session is versioned only when a field that clients see has changed.\<close>

definition calendar_suppresses_transaction :: "bool \<Rightarrow> bool \<Rightarrow> calendar_row \<Rightarrow> calendar_row \<Rightarrow> bool" where
  "calendar_suppresses_transaction is_new is_deleted old new =
     (if is_new \<or> is_deleted then False
      else \<not> (cal_name old \<noteq> cal_name new \<or> cal_description old \<noteq> cal_description new \<or>
              cal_read_only old \<noteq> cal_read_only new))"

end
