(* ===== verification/Event_Recurrence.thy ===== *)
theory Event_Recurrence
  imports Event_Model
begin

text \<open>
  Recurring events: the constructor and the expansion of \<open>inbox/models/event.py\<close>, and
  \<open>inbox/events/recurring.py\<close>. The recurrence rules (dateutil), the parsing of times in time zones (arrow) and
  Python's literals are parameters.
\<close>

section \<open>What the libraries do\<close>

text \<open>
  \<open>rl_literal\<close> is \<open>ast.literal_eval\<close> of a recurrence column, a text or a list of texts, and \<open>rl_repr\<close> the text of one.
  \<open>rl_rule\<close> parses a rule with its start and zone and \<open>rl_between\<close> lists its times, less the excluded ones,
  between two times inclusively.
\<close>

record 'r rrule_lib =
  rl_literal :: "string \<Rightarrow> (string + string list) option"
  rl_repr :: "string + string list \<Rightarrow> string"
  rl_date :: "string \<Rightarrow> datetime res"
  rl_datetime :: "string \<Rightarrow> datetime res"
  rl_in_zone :: "datetime \<Rightarrow> string \<Rightarrow> datetime res"
  rl_naive :: "datetime \<Rightarrow> string \<Rightarrow> datetime"
  rl_zone :: "string \<Rightarrow> unit res"
  rl_zones_table :: "string \<Rightarrow> string option"
  rl_rule :: "string \<Rightarrow> datetime \<Rightarrow> string option \<Rightarrow> bool \<Rightarrow> 'r res"
  rl_between :: "'r \<Rightarrow> datetime list \<Rightarrow> datetime \<Rightarrow> datetime \<Rightarrow> datetime list"
  rl_next_year :: "datetime \<Rightarrow> datetime"
  rl_stamp :: "datetime \<Rightarrow> string"

section \<open>Parsing the recurrence column\<close>

text \<open>\<open>parse_rrule_datetime\<close>: a date has eight characters; a final Z means UTC.\<close>

definition parse_rrule_datetime :: "'r rrule_lib \<Rightarrow> string \<Rightarrow> string option \<Rightarrow> (datetime \<times> string) res" where
  "parse_rrule_datetime lib s tzinfo =
     (if s = [] then Raise IndexError
      else (let zulu = last s = CHR ''Z'';
                tz = (if zulu then Some ''UTC'' else tzinfo);
                t = (if zulu then butlast s else s)
            in res_bind (if length t = 8 then rl_date lib t else rl_datetime lib t) (\<lambda>dt.
                 case tz of
                   None \<Rightarrow> Ok (dt, ''UTC'')
                 | Some z \<Rightarrow> if z = [] \<or> z = ''UTC'' then Ok (dt, ''UTC'')
                             else res_bind (rl_in_zone lib dt z) (\<lambda>dt'. Ok (dt', z)))))"

definition recurring :: "'r rrule_lib \<Rightarrow> event_row \<Rightarrow> string list" where
  "recurring lib e =
     (case ev_recurrence e of
        None \<Rightarrow> []
      | Some s \<Rightarrow> if s = [] then []
                  else case rl_literal lib s of None \<Rightarrow> [] | Some (Inl r) \<Rightarrow> [r] | Some (Inr rs) \<Rightarrow> rs)"

text \<open>\<open>unwrap_rrule\<close>; the fields assigned before an exception stay.\<close>

fun unwrap_until :: "'r rrule_lib \<Rightarrow> string list \<Rightarrow> (recur_info, unit) st" where
  "unwrap_until lib [] ri = (ri, Ok ())"
| "unwrap_until lib (p # ps) ri =
     (if prefix ''UNTIL'' p
      then (case parse_rrule_datetime lib (drop 6 p) None of
              Inl e \<Rightarrow> (ri, Raise e)
            | Inr (t, z) \<Rightarrow> unwrap_until lib ps (ri\<lparr>ri_until := Some t\<rparr>))
      else unwrap_until lib ps ri)"

fun unwrap_items :: "'r rrule_lib \<Rightarrow> string list \<Rightarrow> (recur_info, unit) st" where
  "unwrap_items lib [] ri = (ri, Ok ())"
| "unwrap_items lib (item # items) ri =
     (if prefix ''RRULE'' item
      then st_bind (if str_contains ''UNTIL'' item then unwrap_until lib (split_from '';'' [] item) else st_ok ())
             (\<lambda>_. unwrap_items lib items) (ri\<lparr>ri_rrule := Some item\<rparr>)
      else if prefix ''EXDATE'' item then unwrap_items lib items (ri\<lparr>ri_exdate := Some item\<rparr>)
      else unwrap_items lib items ri)"

text \<open>The caller logs an exception and goes on with what was assigned.\<close>

definition unwrap_rrule :: "'r rrule_lib \<Rightarrow> event_row \<Rightarrow> event_row" where
  "unwrap_rrule lib e =
     (case ev_kind e of
        Recurring ri \<Rightarrow> e\<lparr>ev_kind := Recurring (fst (unwrap_items lib (recurring lib e) ri))\<rparr>
      | _ \<Rightarrow> e)"

text \<open>
  \<open>Event(...)\<close>: the class is chosen from the arguments. Only a subclass has the master's uid, the original
  start and the zone; \<open>cancelled\<close> is a property whose setter also sets the status, and the arguments
  are assigned in the order of a dictionary.
\<close>

record event_args =
  ea_row :: event_row
  ea_recurrence :: "(string + string list) option"
  ea_master_uid :: "string option"
  ea_original_start :: "datetime option"
  ea_original_start_tz :: "string option"
  ea_cancelled :: "bool option"
  ea_status_last :: bool

definition assign_status :: "event_args \<Rightarrow> event_row \<Rightarrow> event_row" where
  "assign_status a e =
     (case ea_cancelled a of
        None \<Rightarrow> e\<lparr>ev_status := ev_status (ea_row a)\<rparr>
      | Some c \<Rightarrow> if ea_status_last a then e\<lparr>ev_status := ev_status (ea_row a)\<rparr> else set_cancelled c e)"

definition make_event :: "'r rrule_lib \<Rightarrow> event_args \<Rightarrow> event_row res" where
  "make_event lib a =
     (let has_rec = (case ea_recurrence a of None \<Rightarrow> False | Some (Inl s) \<Rightarrow> s \<noteq> [] | Some (Inr l) \<Rightarrow> l \<noteq> []);
          has_master = truthy (ea_master_uid a);
          e = assign_status a (ea_row a)
      in if has_rec \<and> has_master then Raise (ValueError ''recurrence and master UID'')
         else if has_rec
         then Ok (unwrap_rrule lib (validated (e\<lparr>
                ev_recurrence := map_option (rl_repr lib) (ea_recurrence a),
                ev_kind := Recurring \<lparr>ri_rrule = None, ri_exdate = None, ri_until = None,
                  ri_start_timezone = ea_original_start_tz a\<rparr>\<rparr>)))
         else (let plain = validated (e\<lparr>ev_recurrence := 
                     (case ea_recurrence a of None \<Rightarrow> None | Some (Inl s) \<Rightarrow> Some s | Some (Inr l) \<Rightarrow> Some (rl_repr lib (Inr l)))\<rparr>)
               in if has_master
                  then Ok (plain\<lparr>ev_kind := Override \<lparr>ov_master_id = None, ov_master_uid = ea_master_uid a,
                         ov_original_start = ea_original_start a\<rparr>\<rparr>)
                  else Ok (plain\<lparr>ev_kind := Plain\<rparr>)))"

section \<open>Expansion\<close>

definition rrule_of :: "event_row \<Rightarrow> string option" where
  "rrule_of e = (case ev_kind e of Recurring ri \<Rightarrow> ri_rrule ri | _ \<Rightarrow> None)"

definition exdate_of :: "event_row \<Rightarrow> string option" where
  "exdate_of e = (case ev_kind e of Recurring ri \<Rightarrow> ri_exdate ri | _ \<Rightarrow> None)"

text \<open>The zone the event is expanded in: its own through the table, or none.\<close>

definition expansion_zone :: "'r rrule_lib \<Rightarrow> event_row \<Rightarrow> string option" where
  "expansion_zone lib e =
     (case ev_kind e of
        Recurring ri \<Rightarrow>
          (case ri_start_timezone ri of
             None \<Rightarrow> None
           | Some tz \<Rightarrow> if tz = [] then None
                        else Some (case rl_zones_table lib tz of None \<Rightarrow> tz | Some t \<Rightarrow> t))
      | _ \<Rightarrow> None)"

definition parse_rrule :: "'r rrule_lib \<Rightarrow> event_row \<Rightarrow> 'r option" where
  "parse_rrule lib e =
     (case rrule_of e of
        None \<Rightarrow> None
      | Some s \<Rightarrow>
          (case rl_rule lib s (ev_start e) (if ev_all_day e then None else expansion_zone lib e) (ev_all_day e) of
             Inl _ \<Rightarrow> None
           | Inr r \<Rightarrow> Some r))"

fun exdate_zone :: "string list \<Rightarrow> string \<Rightarrow> string" where
  "exdate_zone [] tz = tz"
| "exdate_zone (p # ps) tz = exdate_zone ps (if prefix ''TZID'' p then drop 5 p else tz)"

fun res_map :: "('a \<Rightarrow> 'b res) \<Rightarrow> 'a list \<Rightarrow> 'b list res" where
  "res_map f [] = Ok []"
| "res_map f (x # xs) = res_bind (f x) (\<lambda>y. res_bind (res_map f xs) (\<lambda>ys. Ok (y # ys)))"

text \<open>\<open>name, values = exdate.split(':', 1)\<close>\<close>

definition parse_exdate :: "'r rrule_lib \<Rightarrow> event_row \<Rightarrow> (datetime \<times> string) list res" where
  "parse_exdate lib e =
     (case exdate_of e of
        None \<Rightarrow> Ok []
      | Some s \<Rightarrow>
          if s = [] then Ok []
          else if CHR '':'' \<notin> set s then Raise (ValueError ''need more than 1 value to unpack'')
          else (let name = takeWhile (\<lambda>c. c \<noteq> CHR '':'') s;
                    vals = tl (dropWhile (\<lambda>c. c \<noteq> CHR '':'') s)
                in res_map (\<lambda>v. parse_rrule_datetime lib v (Some (exdate_zone (split_from '';'' [] name) ''UTC'')))
                     (split_from '','' [] vals)))"

definition get_start_times ::
  "'r rrule_lib \<Rightarrow> datetime \<Rightarrow> event_row \<Rightarrow> datetime option \<Rightarrow> datetime option \<Rightarrow> datetime list res" where
  "get_start_times lib now e start_time end_time =
     (case ev_kind e of
        Recurring ri \<Rightarrow>
          res_bind (case expansion_zone lib e of None \<Rightarrow> Ok () | Some tz \<Rightarrow> rl_zone lib tz) (\<lambda>_.
            let s = (case start_time of None \<Rightarrow> ev_start e | Some t \<Rightarrow> t);
                t = (case end_time of None \<Rightarrow> rl_next_year lib now | Some t \<Rightarrow> t)
            in case parse_rrule lib e of
                 None \<Rightarrow> Ok [ev_start e]
               | Some rule \<Rightarrow>
                   res_bind (parse_exdate lib e) (\<lambda>excl.
                     Ok (rl_between lib rule
                          (map (\<lambda>(d, z). if ev_all_day e then rl_naive lib d z else d) excl) s t)))
      | _ \<Rightarrow> Ok [ev_start e])"

text \<open>One occurrence: a transient copy of the master, whose source is not set.\<close>

definition inflated_event :: "'r rrule_lib \<Rightarrow> event_row \<Rightarrow> datetime \<Rightarrow> event_row" where
  "inflated_event lib master t =
     (base_update master (master\<lparr>ev_id := 0, ev_kind := Plain\<rparr>))
       \<lparr>ev_namespace_id := ev_namespace_id master, ev_calendar_id := ev_calendar_id master, ev_message_id := None,
        ev_source := [], ev_read_only := True, ev_uid := ev_uid master @ ''_'' @ rl_stamp lib t,
        ev_public_id := ev_public_id master @ ''_'' @ rl_stamp lib t, ev_start := t, ev_end := t + event_length master\<rparr>"

definition inflate ::
  "'r rrule_lib \<Rightarrow> datetime \<Rightarrow> event_row \<Rightarrow> datetime option \<Rightarrow> datetime option \<Rightarrow> event_row list res" where
  "inflate lib now e start_time end_time =
     res_bind (get_start_times lib now e start_time end_time) (\<lambda>ts. Ok (map (inflated_event lib e) ts))"

definition master_of :: "event_row \<Rightarrow> nat option" where
  "master_of e = (case ev_kind e of Override v \<Rightarrow> ov_master_id v | _ \<Rightarrow> None)"

definition original_start_of :: "event_row \<Rightarrow> datetime option" where
  "original_start_of e = (case ev_kind e of Override v \<Rightarrow> ov_original_start v | _ \<Rightarrow> None)"

definition overrides_of :: "event_row list \<Rightarrow> nat \<Rightarrow> event_row list" where
  "overrides_of events i = filter (\<lambda>o'. master_of o' = Some i) events"

definition overrides_between ::
  "event_row list \<Rightarrow> event_row \<Rightarrow> datetime option \<Rightarrow> datetime option \<Rightarrow> event_row list" where
  "overrides_between events e start_time end_time =
     filter (\<lambda>x. (case start_time of None \<Rightarrow> True | Some t \<Rightarrow> ev_start x > t) \<and>
                 (case end_time of None \<Rightarrow> True | Some t \<Rightarrow> ev_end x < t) \<and> ev_calendar_id x = ev_calendar_id e)
       (overrides_of events (ev_id e))"

definition all_events ::
  "'r rrule_lib \<Rightarrow> datetime \<Rightarrow> event_row list \<Rightarrow> event_row \<Rightarrow> datetime option \<Rightarrow> datetime option \<Rightarrow> event_row list res"
where
  "all_events lib now events e start_time end_time =
     (let overrides = overrides_between events e start_time end_time;
          overridden_starts = map original_start_of overrides
      in res_bind (inflate lib now e start_time end_time) (\<lambda>infl.
           Ok (sort_key ev_start (filter (\<lambda>x. \<not> event_cancelled x) overrides @
             filter (\<lambda>x. Some (ev_start x) \<notin> set overridden_starts) infl))))"

section \<open>Linking overrides and masters\<close>

definition is_recurring_event :: "event_row \<Rightarrow> bool" where
  "is_recurring_event e \<longleftrightarrow> (case ev_kind e of Recurring _ \<Rightarrow> True | _ \<Rightarrow> False)"

definition set_master :: "nat \<Rightarrow> event_row \<Rightarrow> event_row" where
  "set_master i e = (case ev_kind e of Override v \<Rightarrow> e\<lparr>ev_kind := Override (v\<lparr>ov_master_id := Some i\<rparr>)\<rparr> | _ \<Rightarrow> e)"

definition same_place :: "event_row \<Rightarrow> event_row \<Rightarrow> bool" where
  "same_place e x \<longleftrightarrow> ev_namespace_id e \<noteq> None \<and> ev_namespace_id x = ev_namespace_id e \<and>
     ev_calendar_id e \<noteq> None \<and> ev_calendar_id x = ev_calendar_id e \<and> ev_source x = ev_source e"

definition overrides_uid :: "event_row \<Rightarrow> string option" where
  "overrides_uid e = (case ev_kind e of Override v \<Rightarrow> ov_master_uid v | _ \<Rightarrow> None)"

text \<open>A comparison with NULL, as of an event without a namespace, finds no row.\<close>

definition link_overrides :: "event_row \<Rightarrow> event_row list \<Rightarrow> event_row list" where
  "link_overrides e events =
     map (\<lambda>x. if same_place e x \<and> overrides_uid x = Some (ev_uid e) \<and> master_of x = None
              then set_master (ev_id e) x else x) events"

definition find_master :: "event_row \<Rightarrow> event_row list \<Rightarrow> event_row option" where
  "find_master e events =
     (case overrides_uid e of
        None \<Rightarrow> None
      | Some u \<Rightarrow> if u = [] then None
                  else List.find (\<lambda>x. same_place e x \<and> is_recurring_event x \<and> ev_uid x = u) events)"

definition link_master :: "event_row \<Rightarrow> event_row list \<Rightarrow> event_row list" where
  "link_master e events =
     (if master_of e \<noteq> None then events
      else case find_master e events of
             None \<Rightarrow> events
           | Some m \<Rightarrow> t_put ev_id events (set_master (ev_id m) e))"

definition link_events :: "event_row \<Rightarrow> event_row list \<Rightarrow> event_row list" where
  "link_events e events =
     (case ev_kind e of
        Recurring _ \<Rightarrow> link_overrides e events
      | Override _ \<Rightarrow> link_master e events
      | Plain \<Rightarrow> events)"

end
