(* ===== verification/Google_Provider.thy ===== *)
theory Google_Provider
  imports Event_Recurrence
begin

text \<open>
  \<open>inbox/events/google.py\<close> with the helpers of \<open>inbox/events/util.py\<close>: paging through a
  resource list with its retries, calendars and events from Google's JSON and events to it, and the
  push subscriptions. Replies of the HTTP requests are parameters.
\<close>

section \<open>Event times\<close>

text \<open>A dictionary is the list of its items in the order Python iterates them.\<close>

record google_lib =
  gl_time :: "json \<Rightarrow> datetime res"
  gl_datetime :: "json \<Rightarrow> datetime res"
  gl_now :: "nat \<Rightarrow> datetime"
  gl_order :: "string set \<Rightarrow> string list"
  gl_dumps :: "(string \<times> json) list \<Rightarrow> string"
  gl_str :: "json \<Rightarrow> string"
  gl_date_text :: "datetime \<Rightarrow> string"
  gl_iso_text :: "datetime \<Rightarrow> string"

definition parse_google_time :: "google_lib \<Rightarrow> (string \<times> json) list \<Rightarrow> datetime option res" where
  "parse_google_time gl d =
     (case List.find (\<lambda>(k, _). k \<noteq> ''timeZone'') d of
        None \<Rightarrow> Ok None
      | Some (_, v) \<Rightarrow> res_bind (gl_time gl v) (\<lambda>t. Ok (Some t)))"

definition when_to_event_time :: "google_lib \<Rightarrow> ('v \<Rightarrow> datetime res) \<Rightarrow> (string \<times> 'v) list \<Rightarrow> (datetime \<times> datetime \<times> bool) res" where
  "when_to_event_time gl parse_utc raw =
     res_bind (parse_as_when (gl_order gl) parse_utc raw) (\<lambda>w. Ok (when_start w, when_end w, when_all_day w))"

text \<open>
  A comparison of a time with \<open>None\<close> raises TypeError; for a \<open>None\<close>, arrow gives the clock. Reversed times
  are swapped, and Google's end of an all-day event is the day after.
\<close>

definition google_to_event_time ::
  "google_lib \<Rightarrow> (string \<times> json) list \<Rightarrow> (string \<times> json) list \<Rightarrow> (datetime \<times> datetime \<times> bool) res" where
  "google_to_event_time gl start_raw end_raw =
     res_bind (parse_google_time gl start_raw) (\<lambda>s.
     res_bind (parse_google_time gl end_raw) (\<lambda>e.
       case (s, e) of
         (Some s, Some e) \<Rightarrow>
           (let s' = min s e; e' = max s e
            in if ''date'' \<in> fst ` set start_raw
               then when_to_event_time gl Ok [(''start_date'', s'), (''end_date'', max s' (e' - microday))]
               else when_to_event_time gl Ok [(''start_time'', s'), (''end_time'', e')])
       | (None, None) \<Rightarrow>
           when_to_event_time gl (\<lambda>n. Ok (gl_now gl n))
             (if ''date'' \<in> fst ` set start_raw then [(''start_date'', 0), (''end_date'', 1)]
              else [(''start_time'', 0), (''end_time'', 1)])
       | _ \<Rightarrow> Raise TypeError))"

section \<open>Paging\<close>

text \<open>
  The server answers a page token with the items and the token of the next page. Each request
  may fail instead: a fault of the connection or a status with the reason that its body gives.
\<close>

datatype fault = Ssl_fault | Http_fault nat "string option"

text \<open>What is done about a fault: retry, or an exception. A status 401 also needs a fresh token.\<close>

definition handle_fault :: "unit res \<Rightarrow> fault \<Rightarrow> unit res" where
  "handle_fault refresh f =
     (case f of
        Ssl_fault \<Rightarrow> Ok ()
      | Http_fault st reason \<Rightarrow>
          if st = 401 then refresh
          else if st = 500 \<or> st = 503 then Ok ()
          else if st = 403 then
            (case reason of
               None \<Rightarrow> Raise (HTTPError 403)
             | Some r \<Rightarrow> if r = ''userRateLimitExceeded'' then Ok ()
                         else if r = ''accessNotConfigured'' then Raise AccessNotEnabledError
                         else Raise (HTTPError 403))
          else Raise (HTTPError st))"

text \<open>
  \<open>_get_resource_list\<close>: the requests one after the other, with what happens to each; \<open>None\<close> when they are
  used up before the loop ends.
\<close>

type_synonym 'i pages = "string option \<Rightarrow> 'i list \<times> string option"

fun get_resource_list ::
  "unit res \<Rightarrow> 'i pages \<Rightarrow> fault option list \<Rightarrow> string option \<Rightarrow> 'i list \<Rightarrow> 'i list res option" where
  "get_resource_list refresh srv [] tok items = None"
| "get_resource_list refresh srv (None # fs) tok items =
     (let (page, next) = srv tok
      in if next = None then Some (Ok (items @ page))
         else get_resource_list refresh srv fs next (items @ page))"
| "get_resource_list refresh srv (Some f # fs) tok items =
     (case handle_fault refresh f of
        Inl e \<Rightarrow> Some (Raise e)
      | Inr u \<Rightarrow> get_resource_list refresh srv fs tok items)"

text \<open>A time too far in the past is answered with 410; then everything is fetched.\<close>

definition get_raw_events ::
  "unit res \<Rightarrow> 'i pages \<Rightarrow> 'i pages \<Rightarrow> fault option list \<Rightarrow> fault option list \<Rightarrow> 'i list res option" where
  "get_raw_events refresh since everything fs gs =
     (case get_resource_list refresh since fs None [] of
        Some (Inl e) \<Rightarrow> if e = HTTPError 410 then get_resource_list refresh everything gs None []
                        else Some (Raise e)
      | r \<Rightarrow> r)"

section \<open>Calendars from JSON\<close>

definition jtruthy :: "json \<Rightarrow> bool" where
  "jtruthy j \<longleftrightarrow> j \<noteq> JNull \<and> j \<noteq> JBool False \<and> j \<noteq> JNum 0 \<and> j \<noteq> JStr [] \<and> j \<noteq> JList [] \<and> j \<noteq> JDict []"

definition jtext :: "json \<Rightarrow> string option" where
  "jtext j = (case j of JStr s \<Rightarrow> Some s | _ \<Rightarrow> None)"

text \<open>\<open>d[k]\<close>\<close>

definition jitem :: "(string \<times> json) list \<Rightarrow> string \<Rightarrow> json res" where
  "jitem d k = (case map_of d k of None \<Rightarrow> Raise KeyError | Some v \<Rightarrow> Ok v)"

definition parse_calendar_response :: "(string \<times> json) list \<Rightarrow> remote_calendar res" where
  "parse_calendar_response c =
     res_bind (jitem c ''id'') (\<lambda>uid.
     res_bind (jitem c ''summary'') (\<lambda>name.
     res_bind (jitem c ''accessRole'') (\<lambda>role.
       Ok \<lparr>rc_uid = jtext uid, rc_name = str_or (jtext name) [], rc_description = jtext (jget_or_null c ''description''),
           rc_read_only = \<not> (role = JStr ''owner'' \<or> role = JStr ''writer'')\<rparr>)))"

text \<open>The deleted calendars, the others, and the table of which are read only.\<close>

type_synonym read_only_table = "string \<rightharpoonup> bool"

fun sync_calendar_items ::
  "(string \<times> json) list list \<Rightarrow> read_only_table \<Rightarrow> (read_only_table \<times> string list \<times> remote_calendar list) res" where
  "sync_calendar_items [] table = Ok (table, [], [])"
| "sync_calendar_items (item # items) table =
     (if jtruthy (jget_or_null item ''deleted'')
      then res_bind (jitem item ''id'') (\<lambda>i. res_bind (sync_calendar_items items table) (\<lambda>(t, ds, us).
             Ok (t, str_or (jtext i) [] # ds, us)))
      else res_bind (parse_calendar_response item) (\<lambda>cal.
             res_bind (sync_calendar_items items
               (case rc_uid cal of None \<Rightarrow> table | Some u \<Rightarrow> table(u \<mapsto> rc_read_only cal))) (\<lambda>(t, ds, us).
                 Ok (t, ds, cal # us))))"

section \<open>Events from JSON\<close>

definition STATUS_MAP :: "(string \<times> string) list" where
  "STATUS_MAP = [(''accepted'', ''yes''), (''needsAction'', ''noreply''), (''declined'', ''no''), (''tentative'', ''maybe'')]"

definition parse_attendee :: "(string \<times> json) list \<Rightarrow> participant res" where
  "parse_attendee a =
     (case jtext (jget_or_null a ''responseStatus'') of
        None \<Rightarrow> Raise KeyError
      | Some r \<Rightarrow>
          (case map_of STATUS_MAP r of
             None \<Rightarrow> Raise KeyError
           | Some st \<Rightarrow> Ok [(''email'', jget_or_null a ''email''), (''name'', jget_or_null a ''displayName''),
                           (''status'', JStr st), (''notes'', jget_or_null a ''comment'')]))"

definition jdict :: "json \<Rightarrow> (string \<times> json) list res" where
  "jdict j = (case j of JDict d \<Rightarrow> Ok d | _ \<Rightarrow> Raise AttributeError)"

definition jlist :: "json \<Rightarrow> json list res" where
  "jlist j = (case j of JList l \<Rightarrow> Ok l | _ \<Rightarrow> Raise TypeError)"

text \<open>\<open>d.get(k, default)\<close>\<close>

definition jget_default :: "(string \<times> json) list \<Rightarrow> string \<Rightarrow> json \<Rightarrow> json" where
  "jget_default d k v = (case map_of d k of None \<Rightarrow> v | Some w \<Rightarrow> w)"

definition owner_text :: "google_lib \<Rightarrow> (string \<times> json) list \<Rightarrow> string" where
  "owner_text gl c = gl_str gl (jget_default c ''displayName'' (JStr [])) @ '' <'' @
     gl_str gl (jget_default c ''email'' (JStr [])) @ ''>''"

definition recurrence_arg :: "json \<Rightarrow> (string + string list) option" where
  "recurrence_arg j =
     (case j of JStr s \<Rightarrow> Some (Inl s) | JList l \<Rightarrow> Some (Inr (List.map_filter jtext l)) | _ \<Rightarrow> None)"

definition parse_event_args :: "google_lib \<Rightarrow> (string \<times> json) list \<Rightarrow> bool \<Rightarrow> bool \<Rightarrow> event_args res" where
  "parse_event_args gl ev read_only_calendar status_last =
     res_bind (jitem ev ''id'') (\<lambda>uid.
     res_bind (res_bind (jitem ev ''start'') jdict) (\<lambda>s.
     res_bind (res_bind (jitem ev ''end'') jdict) (\<lambda>e.
     res_bind (jdict (jget_default ev ''originalStartTime'' (JDict []))) (\<lambda>orig.
     res_bind (google_to_event_time gl s e) (\<lambda>(t0, t1, all_day).
     res_bind (parse_google_time gl orig) (\<lambda>original_start.
     res_bind (let u = jget_or_null ev ''updated'' in
               if u = JNull then Ok None else res_bind (gl_datetime gl u) (\<lambda>t. Ok (Some t))) (\<lambda>last_modified.
     let status = jget_default ev ''status'' (JStr ''confirmed'');
         creator = jget_or_null ev ''creator'';
         organizer = jget_or_null ev ''organizer''
     in res_bind (py_assert (\<exists>x\<in>set EVENT_STATUSES. status = JStr x)) (\<lambda>_.
        res_bind (if jtruthy creator then res_bind (jdict creator) (\<lambda>c. Ok (owner_text gl c)) else Ok []) (\<lambda>owner.
        res_bind (res_bind (jlist (jget_default ev ''attendees'' (JList [])))
                    (res_map (\<lambda>a. res_bind (jdict a) parse_attendee))) (\<lambda>participants.
        res_bind (if jtruthy organizer then res_bind (jdict organizer) (\<lambda>c. Ok (jtruthy (jget_or_null c ''self'')))
                  else Ok False) (\<lambda>is_owner.
          Ok \<lparr>ea_row = \<lparr>ev_id = 0, ev_public_id = [], ev_namespace_id = None, ev_calendar_id = None,
                 ev_uid = gl_str gl uid, ev_provider_name = None, ev_source = ''local'', ev_raw_data = gl_dumps gl ev,
                 ev_title = jtext (jget_default ev ''summary'' (JStr [])), ev_owner = Some owner,
                 ev_description = jtext (jget_or_null ev ''description''),
                 ev_location = jtext (jget_or_null ev ''location''),
                 ev_busy = (jget_or_null ev ''transparency'' \<noteq> JStr ''transparent''),
                 ev_read_only = read_only_calendar, ev_reminders = None, ev_recurrence = None,
                 ev_start = t0, ev_end = t1, ev_all_day = all_day, ev_is_owner = is_owner,
                 ev_last_modified = last_modified, ev_status = str_or (jtext status) [],
                 ev_message_id = None, ev_participants = participants,
                 ev_sequence_number = (case jget_default ev ''sequence'' (JNum 0) of JNum n \<Rightarrow> Some n | _ \<Rightarrow> None),
                 ev_kind = Plain\<rparr>,
               ea_recurrence = recurrence_arg (jget_or_null ev ''recurrence''),
               ea_master_uid = jtext (jget_or_null ev ''recurringEventId''),
               ea_original_start = original_start, ea_original_start_tz = jtext (jget_or_null s ''timeZone''),
               ea_cancelled = Some (jget_or_null ev ''status'' = JStr ''cancelled''),
               ea_status_last = status_last\<rparr>)))))))))))"

definition parse_event_response ::
  "google_lib \<Rightarrow> 'r rrule_lib \<Rightarrow> bool \<Rightarrow> (string \<times> json) list \<Rightarrow> bool \<Rightarrow> event_row res" where
  "parse_event_response gl lib status_last ev read_only_calendar =
     res_bind (parse_event_args gl ev read_only_calendar status_last) (make_event lib)"

text \<open>An event whose time is no time is skipped; every other exception ends the sync.\<close>

fun parse_events ::
  "google_lib \<Rightarrow> 'r rrule_lib \<Rightarrow> bool \<Rightarrow> bool \<Rightarrow> (string \<times> json) list list \<Rightarrow> event_row list res" where
  "parse_events gl lib status_last ro [] = Ok []"
| "parse_events gl lib status_last ro (item # items) =
     (case parse_event_response gl lib status_last item ro of
        Inl e \<Rightarrow> if e = ParserError then parse_events gl lib status_last ro items else Raise e
      | Inr x \<Rightarrow> res_bind (parse_events gl lib status_last ro items) (\<lambda>xs. Ok (x # xs)))"

text \<open>A calendar this provider object has not listed counts as read only.\<close>

definition provider_sync_events ::
  "google_lib \<Rightarrow> 'r rrule_lib \<Rightarrow> bool \<Rightarrow> read_only_table \<Rightarrow> string \<Rightarrow> (string \<times> json) list list \<Rightarrow> event_row list res" where
  "provider_sync_events gl lib status_last table uid items =
     parse_events gl lib status_last (case table uid of None \<Rightarrow> True | Some b \<Rightarrow> b) items"

section \<open>Events to JSON\<close>

definition inverse_status_map :: "(string \<times> string) list" where
  "inverse_status_map = map (\<lambda>(k, v). (v, k)) STATUS_MAP"

definition dump_attendee :: "participant \<Rightarrow> (string \<times> json) list res" where
  "dump_attendee p =
     res_bind
       (case map_of p ''status'' of
          None \<Rightarrow> Ok []
        | Some st \<Rightarrow>
            (case jtext st of
               None \<Rightarrow> Raise KeyError
             | Some t \<Rightarrow> (case map_of inverse_status_map t of None \<Rightarrow> Raise KeyError
                          | Some r \<Rightarrow> Ok [(''responseStatus'', JStr r)])))
       (\<lambda>status.
         let opt = (\<lambda>k j. case map_of p k of None \<Rightarrow> [] | Some v \<Rightarrow> [(j, v)])
         in Ok (opt ''name'' ''displayName'' @ status @ opt ''email'' ''email'' @ opt ''guests'' ''additionalGuests''))"

definition jopt :: "string option \<Rightarrow> json" where
  "jopt x = (case x of None \<Rightarrow> JNull | Some s \<Rightarrow> JStr s)"

definition dump_event :: "google_lib \<Rightarrow> event_row \<Rightarrow> (string \<times> json) list res" where
  "dump_event gl e =
     res_bind (res_map dump_attendee (ev_participants e)) (\<lambda>attendees.
       Ok ([(''summary'', jopt (ev_title e)), (''description'', jopt (ev_description e)),
            (''location'', jopt (ev_location e)),
            (''transparency'', JStr (if ev_busy e then ''opaque'' else ''transparent''))] @
           (if ev_all_day e
            then [(''start'', JDict [(''date'', JStr (gl_date_text gl (ev_start e)))]),
                  (''end'', JDict [(''date'', JStr (gl_date_text gl (ev_end e)))])]
            else [(''start'', JDict [(''dateTime'', JStr (gl_iso_text gl (ev_start e))), (''timeZone'', JStr ''UTC'')]),
                  (''end'', JDict [(''dateTime'', JStr (gl_iso_text gl (ev_end e))), (''timeZone'', JStr ''UTC'')])]) @
           (if ev_participants e = [] then []
            else [(''attendees'', JList (map JDict (filter (\<lambda>a. a \<noteq> []) attendees)))])))"

text \<open>\<open>raise_for_status\<close>, and the deletion of an event that is gone already.\<close>

definition raise_for_status :: "nat \<Rightarrow> unit res" where
  "raise_for_status st = (if st \<ge> 400 \<and> st < 600 then Raise (HTTPError st) else Ok ())"

definition delete_remote_event :: "nat \<Rightarrow> unit res" where
  "delete_remote_event st = (if st = 410 then Ok () else raise_for_status st)"

definition notify_params :: "json option \<Rightarrow> (string \<times> string) list" where
  "notify_params notify =
     [(''sendNotifications'', if notify = Some (JBool True) then ''true'' else ''false'')]"

section \<open>Push notifications\<close>

text \<open>The reply to a subscription: its expiration, or the status and the reason of an error.\<close>

datatype watch_reply = Watching "int option" | Watch_error nat "string option"

text \<open>With 403 and no reason the name \<open>reason\<close> is not bound.\<close>

definition handle_watch_errors :: "nat \<Rightarrow> string option \<Rightarrow> unit res" where
  "handle_watch_errors st reason =
     (if st = 400 then
        (case reason of None \<Rightarrow> Raise KeyError
         | Some r \<Rightarrow> if r = ''pushNotSupportedForRequestedResource'' then Raise AccessNotEnabledError else Ok ())
      else if st = 401 \<or> st = 500 \<or> st = 503 then Ok ()
      else if st = 403 then
        (case reason of None \<Rightarrow> Raise UnboundLocalError
         | Some r \<Rightarrow> if r = ''accessNotConfigured'' then Raise AccessNotEnabledError else Ok ())
      else if st = 404 then raise_for_status 404
      else Ok ())"

definition watch_result :: "watch_reply \<Rightarrow> int option res" where
  "watch_result r =
     (case r of
        Watching x \<Rightarrow> Ok x
      | Watch_error st reason \<Rightarrow> res_bind (handle_watch_errors st reason) (\<lambda>_. Ok None))"

end
