(* ===== verification/Event_Facts.thy ===== *)
theory Event_Facts
  imports Google_Provider
begin

text \<open>
  Facts about events that need no database: reading the times of an event, merging participants,
  expanding a recurring event, and paging through the replies of the provider.
\<close>

section \<open>Reading a When\<close>

text \<open>What the code relies on of the order of a set: all elements, and the keys of a span in their order.\<close>

definition key_order :: "(string set \<Rightarrow> string list) \<Rightarrow> bool" where
  "key_order order \<longleftrightarrow> (\<forall>S. finite S \<longrightarrow> set (order S) = S) \<and>
     order {''start_time'', ''end_time''} = [''start_time'', ''end_time''] \<and>
     order {''start_date'', ''end_date''} = [''start_date'', ''end_date'']"

lemma object_key_invalid:
  assumes "key_order order" and "''object'' \<in> fst ` set raw"
  shows "parse_as_when order parse_utc raw = Raise (ValueError ''When object had invalid keys.'')"
proof -
  let ?S = "set (map fst raw) - object_letters"
  have "''object'' \<in> ?S" using assms(2) by (auto simp: object_letters_def)
  then have "''object'' \<in> set (order ?S)" using assms(1) by (simp add: key_order_def)
  moreover have "''object'' \<notin> set (json_keys c)" for c by (cases c) simp_all
  ultimately have ks: "json_keys c \<noteq> order ?S" for c by metis
  have "keys_for_type (order ?S) = None" unfolding keys_for_type_def find_None_iff using ks by blast
  then show ?thesis by (simp only: parse_as_when_def option.case)
qed

lemma parse_span:
  assumes "key_order order" and "s \<le> e"
  shows "parse_as_when order Ok [(''start_date'', s), (''end_date'', e)] = Ok (if s = e then Date s else DateSpan s e)"
    and "parse_as_when order Ok [(''start_time'', s), (''end_time'', e)] = Ok (if s = e then Time s else TimeSpan s e)"
proof -
  have k: "set (map fst [(''start_date'', s), (''end_date'', e)]) - object_letters = {''start_date'', ''end_date''}"
    "set (map fst [(''start_time'', s), (''end_time'', e)]) - object_letters = {''start_time'', ''end_time''}"
    by (auto simp: object_letters_def)
  have o: "order {''start_date'', ''end_date''} = [''start_date'', ''end_date'']"
    "order {''start_time'', ''end_time''} = [''start_time'', ''end_time'']"
    using assms(1) by (simp_all add: key_order_def)
  show "parse_as_when order Ok [(''start_date'', s), (''end_date'', e)] = Ok (if s = e then Date s else DateSpan s e)"
    unfolding parse_as_when_def k o using assms(2)
    by (simp add: keys_for_type_def when_parse_def spanning_def singular_cls_def span_of_def)
  show "parse_as_when order Ok [(''start_time'', s), (''end_time'', e)] = Ok (if s = e then Time s else TimeSpan s e)"
    unfolding parse_as_when_def k o using assms(2)
    by (simp add: keys_for_type_def when_parse_def spanning_def singular_cls_def span_of_def)
qed

lemma google_event_time:
  assumes "key_order (gl_order gl)"
    and "parse_google_time gl s_raw = Ok (Some s)" and "parse_google_time gl e_raw = Ok (Some e)"
  shows "google_to_event_time gl s_raw e_raw =
    (if ''date'' \<in> fst ` set s_raw then Ok (min s e, max (min s e) (max s e - microday), True)
     else Ok (min s e, max s e, False))"
proof -
  have "min s e \<le> max s e" "min s e \<le> max (min s e) (max s e - microday)" by simp_all
  note P = parse_span [OF assms(1) this(1)] parse_span [OF assms(1) this(2)]
  show ?thesis
    unfolding google_to_event_time_def
    by (auto simp: assms(2,3) P when_to_event_time_def Let_def)
qed

section \<open>Paging\<close>

lemma faults_are_invisible:
  assumes "\<forall>f. Some f \<in> set fs \<longrightarrow> (\<exists>u. handle_fault refresh f = Ok u)"
  shows "get_resource_list refresh srv fs tok items =
    get_resource_list refresh srv (filter (\<lambda>f. f = None) fs) tok items"
  using assms
proof (induction fs arbitrary: tok items)
  case (Cons f fs)
  show ?case
  proof (cases f)
    case None
    with Cons show ?thesis by (simp split: prod.split)
  next
    case (Some g)
    with Cons.prems obtain u where "handle_fault refresh g = Ok u" by auto
    with Some Cons show ?thesis by simp
  qed
qed simp

text \<open>The items of the first \<open>n\<close> pages from a token on, and whether the last of them was the end.\<close>

fun pages_from :: "'i pages \<Rightarrow> nat \<Rightarrow> string option \<Rightarrow> 'i list \<times> bool" where
  "pages_from srv 0 tok = ([], False)"
| "pages_from srv (Suc n) tok =
     (case srv tok of (page, next) \<Rightarrow>
        if next = None then (page, True)
        else (case pages_from srv n next of (rest, d) \<Rightarrow> (page @ rest, d)))"

lemma resource_list_pages:
  "get_resource_list refresh srv (replicate n None) tok items =
    (case pages_from srv n tok of (its, d) \<Rightarrow> if d then Some (Ok (items @ its)) else None)"
  by (induction n arbitrary: tok items) (auto split: prod.splits)

lemma filter_None_replicate: "filter (\<lambda>f. f = None) fs = replicate (length (filter (\<lambda>f. f = None) fs)) None"
  by (induction fs) simp_all

section \<open>Participants\<close>

text \<open>Participants with an address; \<open>mailed\<close> is what attendees of an invitation are like.\<close>

definition raw_email :: "participant \<Rightarrow> string" where
  "raw_email p = (case map_of p ''email'' of Some (JStr s) \<Rightarrow> s | _ \<Rightarrow> [])"

definition address_of :: "participant \<Rightarrow> string" where
  "address_of p = py_lower (raw_email p)"

definition mailed :: "participant \<Rightarrow> bool" where
  "mailed p \<longleftrightarrow> (\<exists>s. map_of p ''email'' = Some (JStr s)) \<and> distinct (map fst p)"

lemma mailed_email: "mailed p \<Longrightarrow> map_of p ''email'' = Some (JStr (raw_email p))"
  by (auto simp: mailed_def raw_email_def)

definition lowered :: "participant \<Rightarrow> participant" where
  "lowered p = map (\<lambda>(k, v). if k = ''email'' then (k, JStr (address_of p)) else (k, v)) p"

text \<open>An assignment to a key that is there replaces its value.\<close>

lemma map_of_replace:
  "map_of (map (\<lambda>(j, q). if j = k then (j, p) else (j, q)) u) i =
    (if i = k then (if map_of u k = None then None else Some p) else map_of u i)"
  by (induction u) auto

lemma keys_replace: "map fst (map (\<lambda>(j, q). if j = k then (j, p) else (j, q)) u) = map fst u"
  by (induction u) auto

lemma map_of_lowered: "mailed p \<Longrightarrow> map_of (lowered p) k = (if k = ''email'' then Some (JStr (address_of p)) else map_of p k)"
proof -
  assume "mailed p"
  then have "map_of p ''email'' \<noteq> None" using mailed_email by simp
  then show ?thesis
    using map_of_replace [of "''email''" "JStr (address_of p)" p k] by (auto simp: lowered_def cong: if_cong)
qed

lemma lowered_keys: "map fst (lowered p) = map fst p"
  unfolding lowered_def using keys_replace [of "''email''" "JStr (address_of p)" p] by (simp cong: if_cong)

lemma participant_key_mailed:
  "mailed p \<Longrightarrow> participant_key p = Ok (Some (JStr (raw_email p), lowered p))"
proof -
  assume "mailed p"
  then have m: "map_of p ''email'' = Some (JStr (raw_email p))" by (rule mailed_email)
  then have "lower_email p = Ok (lowered p)"
    unfolding lower_email_def lowered_def address_of_def by (simp only: option.case json.case)
  with m show ?thesis by (simp add: participant_key_def jget_or_null_def)
qed

lemma address_lowered: "mailed p \<Longrightarrow> address_of (lowered p) = address_of p"
  by (simp add: address_of_def [of "lowered p"] raw_email_def map_of_lowered)
    (simp add: address_of_def py_lower_idem)

lemma map_of_dict_set: "map_of (dict_set d k v) = (map_of d)(k \<mapsto> v)"
proof -
  have "map_of (filter (\<lambda>(x, _). x \<noteq> k) d) j = (if j = k then None else map_of d j)" for j
    by (induction d) auto
  then show ?thesis by (auto simp: dict_set_def map_add_def fun_eq_iff split: option.split)
qed

definition no_reply :: "participant \<Rightarrow> bool" where
  "no_reply p \<longleftrightarrow> map_of p ''status'' = Some (JStr ''noreply'')"

text \<open>What a merge does to each attribute.\<close>

lemma merge_attributes_lookup:
  assumes "merge_attributes right kvs left = Ok m" and "distinct (map fst kvs)"
  shows "map_of m k =
    (case map_of kvs k of
       None \<Rightarrow> map_of left k
     | Some v \<Rightarrow> if v = JNull \<or> v = JStr [] \<or> no_reply right then map_of left k else Some v)"
  using assms
proof (induction kvs arbitrary: left)
  case (Cons kv kvs)
  obtain j v where kv: "kv = (j, v)" by (cases kv)
  show ?case
  proof (cases "v = JNull \<or> v = JStr []")
    case True
    with kv Cons.prems(1) have r: "merge_attributes right kvs left = Ok m" by simp
    have n: "map_of kvs j = None" using Cons.prems(2) kv by (simp add: map_of_eq_None_iff)
    show ?thesis using Cons.IH [OF r] Cons.prems(2) kv True n by (auto split: option.split)
  next
    case False
    with kv Cons.prems(1) obtain st where st: "map_of right ''status'' = Some st"
      "merge_attributes right kvs (if st = JStr ''noreply'' then left else dict_set left j v) = Ok m"
      by (auto split: option.split_asm)
    have n: "map_of kvs j = None" using Cons.prems(2) kv by (simp add: map_of_eq_None_iff)
    show ?thesis
      using Cons.IH [OF st(2)] Cons.prems(2) kv False n st(1)
      by (auto simp: no_reply_def map_of_dict_set split: option.split)
  qed
qed simp

lemma merge_attributes_total: "map_of right ''status'' \<noteq> None \<Longrightarrow> \<exists>m. merge_attributes right kvs left = Ok m"
  by (induction kvs arbitrary: left) auto

text \<open>The table: a participant under the address it was first seen with.\<close>

definition table_ok :: "participant_table \<Rightarrow> bool" where
  "table_ok t \<longleftrightarrow> distinct (map fst t) \<and>
     (\<forall>k q. map_of t k = Some q \<longrightarrow> (\<exists>s. k = JStr s \<and> map_of q ''email'' = Some (JStr (py_lower s))))"

lemma table_okD: "table_ok t \<Longrightarrow> map_of t (JStr s) = Some q \<Longrightarrow> map_of q ''email'' = Some (JStr (py_lower s))"
  by (auto simp: table_ok_def simp del: map_of_eq_Some_iff)

lemma map_of_table_put: "map_of (table_put t k p) = (map_of t)(k \<mapsto> p)"
proof (cases "map_of t k")
  case None
  then have "k \<notin> fst ` set t" by (simp add: map_of_eq_None_iff)
  with None show ?thesis by (auto simp: table_put_def fun_eq_iff map_add_def split: option.split)
next
  case (Some q)
  then have "k \<in> fst ` set t" by (metis map_of_eq_None_iff option.distinct(1))
  with Some show ?thesis by (auto simp: table_put_def fun_eq_iff map_of_replace)
qed

lemma distinct_table_put: "distinct (map fst t) \<Longrightarrow> distinct (map fst (table_put t k p))"
  by (cases "k \<in> fst ` set t") (simp_all only: table_put_def if_True if_False keys_replace, simp)

lemma table_ok_put:
  "table_ok t \<Longrightarrow> map_of q ''email'' = Some (JStr (py_lower s)) \<Longrightarrow> table_ok (table_put t (JStr s) q)"
  unfolding table_ok_def map_of_table_put by (auto simp: distinct_table_put simp del: map_of_eq_Some_iff)

lemma merged_entry:
  assumes t: "table_ok t" "map_of t (JStr (raw_email p)) = Some l" and p: "mailed p"
    and m: "merge_participant_attributes l (lowered p) = Ok m"
  shows "map_of m ''email'' = Some (JStr (address_of p))"
    and "\<not> no_reply p \<Longrightarrow> map_of p k = Some v \<Longrightarrow> k \<noteq> ''email'' \<Longrightarrow> v \<noteq> JNull \<Longrightarrow> v \<noteq> JStr [] \<Longrightarrow> map_of m k = Some v"
proof -
  have d: "distinct (map fst (lowered p))" using p by (simp add: lowered_keys mailed_def)
  note L = merge_attributes_lookup [OF m [unfolded merge_participant_attributes_def] d]
  have l: "map_of l ''email'' = Some (JStr (address_of p))"
    using table_okD [OF t] by (simp add: address_of_def)
  with L [of "''email''"] p show "map_of m ''email'' = Some (JStr (address_of p))"
    by (auto simp: map_of_lowered split: if_split_asm)
  have "no_reply (lowered p) = no_reply p" using p by (simp add: no_reply_def map_of_lowered)
  with L [of k] p show "map_of m k = Some v"
    if "\<not> no_reply p" "map_of p k = Some v" "k \<noteq> ''email''" "v \<noteq> JNull" "v \<noteq> JStr []"
    using that by (simp add: map_of_lowered)
qed

lemma store_own_step:
  assumes "mailed p" and "store_own p t = Ok t'" and "table_ok t"
  shows "table_ok t'" and "dom (map_of t') = insert (JStr (raw_email p)) (dom (map_of t))"
proof -
  have "t' = table_put t (JStr (raw_email p)) (lowered p)"
    using assms by (simp add: store_own_def participant_key_mailed)
  with assms show "table_ok t'" "dom (map_of t') = insert (JStr (raw_email p)) (dom (map_of t))"
    by (auto intro!: table_ok_put simp: map_of_lowered address_of_def map_of_table_put)
qed

lemma store_other_step:
  assumes p: "mailed p" and run: "store_other p t = Ok t'" and t: "table_ok t"
  shows "table_ok t'" and "dom (map_of t') = insert (JStr (raw_email p)) (dom (map_of t))"
    and "j \<noteq> JStr (raw_email p) \<Longrightarrow> map_of t' j = map_of t j"
    and "\<not> no_reply p \<Longrightarrow> map_of p k = Some v \<Longrightarrow> k \<noteq> ''email'' \<Longrightarrow> v \<noteq> JNull \<Longrightarrow> v \<noteq> JStr [] \<Longrightarrow>
      \<exists>q. map_of t' (JStr (raw_email p)) = Some q \<and> map_of q k = Some v"
proof -
  have "\<exists>q. t' = table_put t (JStr (raw_email p)) q \<and> map_of q ''email'' = Some (JStr (address_of p)) \<and>
      (\<not> no_reply p \<longrightarrow> map_of p k = Some v \<longrightarrow> k \<noteq> ''email'' \<longrightarrow> v \<noteq> JNull \<longrightarrow> v \<noteq> JStr [] \<longrightarrow> map_of q k = Some v)"
  proof (cases "map_of t (JStr (raw_email p))")
    case None
    with p run show ?thesis
      by (intro exI [of _ "lowered p"]) (auto simp: store_other_def participant_key_mailed map_of_lowered)
  next
    case (Some l)
    with p run obtain m where m: "merge_participant_attributes l (lowered p) = Ok m"
      "t' = table_put t (JStr (raw_email p)) m"
      by (auto simp: store_other_def participant_key_mailed res_simps)
    with merged_entry [OF t Some p m(1)] show ?thesis by blast
  qed
  then obtain q where q: "t' = table_put t (JStr (raw_email p)) q" "map_of q ''email'' = Some (JStr (address_of p))"
    "\<not> no_reply p \<longrightarrow> map_of p k = Some v \<longrightarrow> k \<noteq> ''email'' \<longrightarrow> v \<noteq> JNull \<longrightarrow> v \<noteq> JStr [] \<longrightarrow> map_of q k = Some v" by blast
  then show "table_ok t'" using t by (simp add: table_ok_put address_of_def)
  show "dom (map_of t') = insert (JStr (raw_email p)) (dom (map_of t))" using q by (auto simp: map_of_table_put)
  show "map_of t' j = map_of t j" if "j \<noteq> JStr (raw_email p)" using q that by (simp add: map_of_table_put)
  show "\<exists>q. map_of t' (JStr (raw_email p)) = Some q \<and> map_of q k = Some v"
    if "\<not> no_reply p" "map_of p k = Some v" "k \<noteq> ''email''" "v \<noteq> JNull" "v \<noteq> JStr []"
    using q that by (simp add: map_of_table_put)
qed

lemma store_own_fold:
  assumes "\<forall>p\<in>set ps. mailed p" and "res_fold store_own ps t = Ok t'" and "table_ok t"
  shows "table_ok t' \<and> dom (map_of t') = (JStr \<circ> raw_email) ` set ps \<union> dom (map_of t)"
  using assms
proof (induction ps arbitrary: t)
  case (Cons p ps)
  then obtain u where u: "store_own p t = Ok u" "res_fold store_own ps u = Ok t'" by (auto simp: res_simps)
  with Cons store_own_step [OF _ u(1)] show ?case by auto
qed simp

lemma store_other_fold:
  assumes "\<forall>p\<in>set ps. mailed p" and "res_fold store_other ps t = Ok t'" and "table_ok t"
  shows "table_ok t' \<and> dom (map_of t') = (JStr \<circ> raw_email) ` set ps \<union> dom (map_of t) \<and>
    (\<forall>j. j \<notin> (JStr \<circ> raw_email) ` set ps \<longrightarrow> map_of t' j = map_of t j)"
  using assms
proof (induction ps arbitrary: t)
  case (Cons p ps)
  then obtain u where u: "store_other p t = Ok u" "res_fold store_other ps u = Ok t'" by (auto simp: res_simps)
  have p: "mailed p" using Cons.prems by simp
  note S = store_other_step [OF p u(1) Cons.prems(3)]
  have "table_ok t' \<and> dom (map_of t') = (JStr \<circ> raw_email) ` set ps \<union> dom (map_of u) \<and>
      (\<forall>j. j \<notin> (JStr \<circ> raw_email) ` set ps \<longrightarrow> map_of t' j = map_of u j)"
    using Cons.IH [OF _ u(2) S(1)] Cons.prems(1) by simp
  with S(2,3) show ?case by auto
qed simp

lemma store_other_wins:
  assumes "\<forall>p\<in>set ps. mailed p" and "res_fold store_other ps t = Ok t'" and "table_ok t"
    and "distinct (map raw_email ps)" and "p \<in> set ps"
    and "\<not> no_reply p" "map_of p k = Some v" "k \<noteq> ''email''" "v \<noteq> JNull" "v \<noteq> JStr []"
  shows "\<exists>q. map_of t' (JStr (raw_email p)) = Some q \<and> map_of q k = Some v"
  using assms(1-5)
proof (induction ps arbitrary: t)
  case (Cons r ps)
  then obtain u where u: "store_other r t = Ok u" "res_fold store_other ps u = Ok t'" by (auto simp: res_simps)
  have r: "mailed r" using Cons.prems by simp
  note S = store_other_step [OF r u(1) Cons.prems(3)]
  show ?case
  proof (cases "p = r")
    case True
    have "map_of t' (JStr (raw_email r)) = map_of u (JStr (raw_email r))"
      using store_other_fold [OF _ u(2) S(1)] Cons.prems(1,4) by (simp add: image_iff)
    with S(4) [of k v] True assms(6-10) show ?thesis by simp
  next
    case False
    with Cons.prems show ?thesis by (intro Cons.IH [OF _ u(2) S(1)]) auto
  qed
qed simp

lemma merged_addresses:
  assumes "table_ok t"
  shows "address_of ` snd ` set t = {py_lower s | s. JStr s \<in> dom (map_of t)}"
proof -
  have mem: "(k, q) \<in> set t \<longleftrightarrow> map_of t k = Some q" for k q
    using assms by (simp add: table_ok_def map_of_eq_Some_iff)
  have a: "address_of q = py_lower s" if "map_of t (JStr s) = Some q" for s q
  proof -
    from assms that have "map_of q ''email'' = Some (JStr (py_lower s))" by (rule table_okD)
    then show ?thesis by (simp add: address_of_def raw_email_def py_lower_idem)
  qed
  show ?thesis
  proof (intro set_eqI iffI)
    fix x assume "x \<in> address_of ` snd ` set t"
    then obtain k q where kq: "(k, q) \<in> set t" "x = address_of q" by auto
    then have m: "map_of t k = Some q" using mem by simp
    then obtain s where s: "k = JStr s" using assms unfolding table_ok_def by blast
    from m s a kq(2) have "x = py_lower s" "JStr s \<in> dom (map_of t)" by auto
    then show "x \<in> {py_lower s | s. JStr s \<in> dom (map_of t)}" by blast
  next
    fix x assume "x \<in> {py_lower s | s. JStr s \<in> dom (map_of t)}"
    then obtain s q where s: "x = py_lower s" "map_of t (JStr s) = Some q" by auto
    then have "(JStr s, q) \<in> set t" "address_of q = x" using mem a by simp_all
    then show "x \<in> address_of ` snd ` set t" by (metis image_eqI snd_conv)
  qed
qed

lemma merge_keeps_everyone:
  assumes own: "\<forall>p\<in>set own. mailed p" and other: "\<forall>p\<in>set other. mailed p"
    and run: "partial_participants_merge own other = Ok ps"
  shows "address_of ` set ps = address_of ` set own \<union> address_of ` set other"
    and "distinct (map raw_email other) \<Longrightarrow> p \<in> set other \<Longrightarrow> \<not> no_reply p \<Longrightarrow> map_of p k = Some v \<Longrightarrow>
      k \<noteq> ''email'' \<Longrightarrow> v \<noteq> JNull \<Longrightarrow> v \<noteq> JStr [] \<Longrightarrow> \<exists>q\<in>set ps. address_of q = address_of p \<and> map_of q k = Some v"
proof -
  obtain t t' where r: "res_fold store_own own [] = Ok t" "res_fold store_other other t = Ok t'" "ps = map snd t'"
    using run by (auto simp: partial_participants_merge_def res_simps)
  have T: "table_ok t" "dom (map_of t) = (JStr \<circ> raw_email) ` set own"
    using store_own_fold [OF own r(1)] by (simp_all add: table_ok_def)
  note F = store_other_fold [OF other r(2) T(1)]
  have "{py_lower s | s. JStr s \<in> dom (map_of t')} = address_of ` set own \<union> address_of ` set other"
    using F T(2) by (auto simp: address_of_def image_iff)
  with merged_addresses [of t'] F r(3) show "address_of ` set ps = address_of ` set own \<union> address_of ` set other"
    by simp
  show "\<exists>q\<in>set ps. address_of q = address_of p \<and> map_of q k = Some v"
    if "distinct (map raw_email other)" "p \<in> set other" "\<not> no_reply p" "map_of p k = Some v"
      "k \<noteq> ''email''" "v \<noteq> JNull" "v \<noteq> JStr []"
  proof -
    from store_other_wins [OF other r(2) T(1) that] obtain q where
      q: "map_of t' (JStr (raw_email p)) = Some q" "map_of q k = Some v" by blast
    have "map_of q ''email'' = Some (JStr (address_of p))"
      using table_okD [OF _ q(1)] F by (simp add: address_of_def)
    then have "address_of q = address_of p" by (simp add: address_of_def raw_email_def py_lower_idem)
    moreover have "q \<in> set ps" using map_of_SomeD [OF q(1)] r(3) by force
    ultimately show ?thesis using q(2) by blast
  qed
qed

section \<open>Expanding a recurring event\<close>

lemma inflated_event_simps [simp]:
  "ev_start (inflated_event lib e t) = t" "ev_end (inflated_event lib e t) = t + event_length e"
  "ev_status (inflated_event lib e t) = ev_status e" "ev_read_only (inflated_event lib e t)"
  "ev_calendar_id (inflated_event lib e t) = ev_calendar_id e" "ev_message_id (inflated_event lib e t) = None"
  by (simp_all add: inflated_event_def base_update_def validated_def)

lemma all_events_result:
  assumes "all_events lib now events e s t = Ok evs"
  obtains times where "get_start_times lib now e s t = Ok times"
    and "set evs = {x \<in> set (overrides_between events e s t). \<not> event_cancelled x} \<union>
      inflated_event lib e ` {u \<in> set times. Some u \<notin> original_start_of ` set (overrides_between events e s t)}"
    and "sorted (map ev_start evs)"
proof -
  from assms obtain times where times: "get_start_times lib now e s t = Ok times"
    by (auto simp: all_events_def inflate_def res_simps Let_def)
  with assms have evs: "evs = sort_key ev_start (filter (\<lambda>x. \<not> event_cancelled x) (overrides_between events e s t) @
      filter (\<lambda>x. Some (ev_start x) \<notin> set (map original_start_of (overrides_between events e s t)))
        (map (inflated_event lib e) times))"
    by (simp add: all_events_def inflate_def Let_def)
  have "set evs = {x \<in> set (overrides_between events e s t). \<not> event_cancelled x} \<union>
      inflated_event lib e ` {u \<in> set times. Some u \<notin> original_start_of ` set (overrides_between events e s t)}"
    unfolding evs by auto
  moreover have "sorted (map ev_start evs)" unfolding evs by (rule sorted_sort_key)
  ultimately show ?thesis using times that by blast
qed

lemma get_start_times_rule:
  assumes "get_start_times lib now e (Some s) (Some t) = Ok starts" and "is_recurring_event e" and "parse_rrule lib e = Some r" and "parse_exdate lib e = Ok ex"
  shows "starts = rl_between lib r (map (\<lambda>(d, z). if ev_all_day e then rl_naive lib d z else d) ex) s t"
  using assms by (auto simp: get_start_times_def is_recurring_event_def res_bind_def split: event_kind.splits sum.splits)

text \<open>An override of the occurrence at a time, and what lies inside a range.\<close>

definition overrides_at :: "event_row \<Rightarrow> datetime \<Rightarrow> event_row \<Rightarrow> bool" where
  "overrides_at e u x \<longleftrightarrow>
     (\<exists>v. ev_kind x = Override v \<and> ov_master_id v = Some (ev_id e) \<and> ov_original_start v = Some u) \<and> ev_calendar_id x = ev_calendar_id e"

definition in_range :: "datetime \<Rightarrow> datetime \<Rightarrow> event_row \<Rightarrow> bool" where
  "in_range s t x \<longleftrightarrow> s < ev_start x \<and> ev_end x < t"

lemma overrides_between_range:
  "x \<in> set (overrides_between events e (Some s) (Some t)) \<longleftrightarrow>
     x \<in> set events \<and> master_of x = Some (ev_id e) \<and> ev_calendar_id x = ev_calendar_id e \<and> in_range s t x"
  by (auto simp: overrides_between_def overrides_of_def in_range_def)

lemma overrides_at_start:
  "Some u \<in> original_start_of ` set (overrides_between events e (Some s) (Some t)) \<longleftrightarrow>
     (\<exists>x\<in>set events. overrides_at e u x \<and> in_range s t x)"
proof -
  have "original_start_of x = Some u \<and> master_of x = Some (ev_id e) \<and> ev_calendar_id x = ev_calendar_id e \<longleftrightarrow> overrides_at e u x" for x
    by (cases "ev_kind x") (auto simp: overrides_at_def original_start_of_def master_of_def)
  then show ?thesis by (force simp: overrides_between_range image_iff)
qed

text \<open>The expansion in a range, over the occurrences of the rule.\<close>

lemma all_events_window:
  assumes law: "\<And>r ex a b. set (rl_between lib r ex a b) = {u \<in> occ r. a \<le> u \<and> u \<le> b \<and> u \<notin> set ex}"
    and e: "is_recurring_event e" "parse_rrule lib e = Some r" "parse_exdate lib e = Ok ex"
    and run: "all_events lib now events e (Some s) (Some t) = Ok evs"
  shows "x \<in> set evs \<longleftrightarrow>
    (x \<in> set events \<and> master_of x = Some (ev_id e) \<and> ev_calendar_id x = ev_calendar_id e \<and> in_range s t x \<and> \<not> event_cancelled x) \<or>
    (\<exists>u\<in>occ r. s \<le> u \<and> u \<le> t \<and> u \<notin> set (map (\<lambda>(d, z). if ev_all_day e then rl_naive lib d z else d) ex) \<and>
       x = inflated_event lib e u \<and> (\<forall>y\<in>set events. overrides_at e u y \<longrightarrow> \<not> in_range s t y))"
proof -
  obtain starts where times: "get_start_times lib now e (Some s) (Some t) = Ok starts"
    and evs: "set evs = {x \<in> set (overrides_between events e (Some s) (Some t)). \<not> event_cancelled x} \<union>
      inflated_event lib e ` {u \<in> set starts. Some u \<notin> original_start_of ` set (overrides_between events e (Some s) (Some t))}"
    by (rule all_events_result [OF run]) (rule that)
  have "set starts = {u \<in> occ r. s \<le> u \<and> u \<le> t \<and> u \<notin> set (map (\<lambda>(d, z). if ev_all_day e then rl_naive lib d z else d) ex)}"
    unfolding get_start_times_rule [OF times e] law ..
  then show ?thesis unfolding evs overrides_at_start by (auto simp: overrides_between_range)
qed

section \<open>Writing an event and reading it back\<close>

text \<open>What the texts of the time library denote.\<close>

definition reads_back :: "google_lib \<Rightarrow> bool" where
  "reads_back gl \<longleftrightarrow> (\<forall>t. gl_time gl (JStr (gl_iso_text gl t)) = Ok t) \<and>
     (\<forall>t. gl_time gl (JStr (gl_date_text gl t)) = Ok (day_of t))"

text \<open>A dumped dictionary's start and end.\<close>

definition sub_dict :: "(string \<times> json) list \<Rightarrow> string \<Rightarrow> (string \<times> json) list" where
  "sub_dict d k = (case map_of d k of Some (JDict x) \<Rightarrow> x | _ \<Rightarrow> [])"

lemma dump_event_times:
  assumes "dump_event gl e = Ok d"
  shows "sub_dict d ''start'' = (if ev_all_day e then [(''date'', JStr (gl_date_text gl (ev_start e)))]
      else [(''dateTime'', JStr (gl_iso_text gl (ev_start e))), (''timeZone'', JStr ''UTC'')])"
    and "sub_dict d ''end'' = (if ev_all_day e then [(''date'', JStr (gl_date_text gl (ev_end e)))]
      else [(''dateTime'', JStr (gl_iso_text gl (ev_end e))), (''timeZone'', JStr ''UTC'')])"
  using assms by (auto simp: dump_event_def res_simps sub_dict_def)

lemma dump_read_times:
  assumes "key_order (gl_order gl)" and "reads_back gl" and "dump_event gl e = Ok d"
  shows "google_to_event_time gl (sub_dict d ''start'') (sub_dict d ''end'') =
    (if ev_all_day e
     then let s = min (day_of (ev_start e)) (day_of (ev_end e)); t = max (day_of (ev_start e)) (day_of (ev_end e))
          in Ok (s, max s (t - microday), True)
     else Ok (min (ev_start e) (ev_end e), max (ev_start e) (ev_end e), False))"
proof (cases "ev_all_day e")
  case True
  then have "parse_google_time gl (sub_dict d ''start'') = Ok (Some (day_of (ev_start e)))"
    "parse_google_time gl (sub_dict d ''end'') = Ok (Some (day_of (ev_end e)))"
    using assms(2) by (simp_all add: dump_event_times [OF assms(3)] parse_google_time_def reads_back_def)
  from google_event_time [OF assms(1) this] True show ?thesis
    by (simp add: dump_event_times [OF assms(3)] Let_def)
next
  case False
  then have "parse_google_time gl (sub_dict d ''start'') = Ok (Some (ev_start e))"
    "parse_google_time gl (sub_dict d ''end'') = Ok (Some (ev_end e))"
    using assms(2) by (simp_all add: dump_event_times [OF assms(3)] parse_google_time_def reads_back_def)
  from google_event_time [OF assms(1) this] False show ?thesis
    by (simp add: dump_event_times [OF assms(3)])
qed

lemma status_roundtrip:
  assumes "map_of inverse_status_map t = Some r"
  shows "map_of STATUS_MAP r = Some t"
  using assms by (auto simp: inverse_status_map_def STATUS_MAP_def split: if_split_asm)

text \<open>An attendee that is written and read keeps name, status and address.\<close>

lemma attendee_roundtrip:
  assumes "dump_attendee p = Ok a" and "map_of p ''status'' = Some (JStr st)"
  shows "parse_attendee a = Ok [(''email'', jget_or_null p ''email''), (''name'', jget_or_null p ''name''),
    (''status'', JStr st), (''notes'', JNull)]"
proof -
  from assms obtain r where r: "map_of inverse_status_map st = Some r"
    and a: "a = (case map_of p ''name'' of None \<Rightarrow> [] | Some v \<Rightarrow> [(''displayName'', v)]) @ [(''responseStatus'', JStr r)] @
      (case map_of p ''email'' of None \<Rightarrow> [] | Some v \<Rightarrow> [(''email'', v)]) @
      (case map_of p ''guests'' of None \<Rightarrow> [] | Some v \<Rightarrow> [(''additionalGuests'', v)])"
    by (auto simp: dump_attendee_def jtext_def Let_def split: option.split_asm)
  have "map_of a ''responseStatus'' = Some (JStr r)" "map_of a ''comment'' = None"
    "map_of a ''email'' = map_of p ''email''" "map_of a ''displayName'' = map_of p ''name''"
    by (auto simp: a split: option.split)
  then show ?thesis
    by (simp add: parse_attendee_def jget_or_null_def jtext_def status_roundtrip [OF r])
qed

lemma res_map_mem: "res_map f xs = Ok ys \<Longrightarrow> x \<in> set xs \<Longrightarrow> \<exists>y\<in>set ys. f x = Ok y"
  by (induction xs arbitrary: ys) (auto simp: res_simps)

lemma dump_event_attendee:
  assumes "dump_event gl e = Ok d" and "p \<in> set (ev_participants e)" and "map_of p ''status'' = Some (JStr st)"
  obtains as a where "map_of d ''attendees'' = Some (JList as)" and "JDict a \<in> set as" and "dump_attendee p = Ok a"
proof -
  from assms(1) obtain bs where bs: "res_map dump_attendee (ev_participants e) = Ok bs"
    by (auto simp: dump_event_def res_simps)
  obtain a where a: "a \<in> set bs" "dump_attendee p = Ok a" using res_map_mem [OF bs assms(2)] by blast
  have "a \<noteq> []" using a(2) assms(3) by (auto simp: dump_attendee_def jtext_def Let_def split: option.split_asm)
  moreover have "ev_participants e \<noteq> []" using assms(2) by auto
  with assms(1) bs have "map_of d ''attendees'' = Some (JList (map JDict (filter (\<lambda>a. a \<noteq> []) bs)))"
    by (auto simp: dump_event_def)
  ultimately show ?thesis using that [of "map JDict (filter (\<lambda>a. a \<noteq> []) bs)" a] a by auto
qed

text \<open>Days are whole multiples of one.\<close>

lemma days_apart: "day_of s < day_of t \<Longrightarrow> day_of s \<le> day_of t - microday"
proof -
  assume "day_of s < day_of t"
  then have "s div microday < t div microday" by (simp add: day_of_def microday_def)
  then have "s div microday + 1 \<le> t div microday" by simp
  then have "(s div microday + 1) * microday \<le> (t div microday) * microday" by (simp add: microday_def)
  then show ?thesis by (simp add: day_of_def algebra_simps)
qed

end
