(* ===== verification/Ical_Import.thy ===== *)
theory Ical_Import
  imports Event_Recurrence
begin

text \<open>
  \<open>inbox/events/ical.py\<close>: events out of the calendar files attached to messages, what invitations and replies do to
  the stored events, and who is answered. The \<open>icalendar\<close> library is a parameter: a file is the list of its
  components, with the properties the code reads of each.
\<close>

section \<open>Components of a file\<close>

text \<open>A time with its zone, a local time with the zone the parameter names, or a date.\<close>

datatype ics_time = Aware datetime string | Naive datetime "string option" | Day datetime

record ics_attendee =
  at_address :: string
  at_name :: "string option"
  at_partstat :: "string option"
  at_guests :: "string option"

record ics_event =
  ic_dtstart :: "ics_time option"
  ic_dtend :: "ics_time option"
  ic_dtstamp :: "ics_time option"
  ic_last_modified :: "datetime option"
  ic_summaries :: "string list"
  ic_description :: "string option"
  ic_status :: "string option"
  ic_method :: "string option"
  ic_rrule :: "string option"
  ic_organizer :: "(string \<times> string option) option"
  ic_attendees :: "ics_attendee list"
  ic_location :: "string option"
  ic_uid :: "string option"
  ic_sequence :: int
  ic_raw :: string

datatype component = Vcalendar "string option" | Vtimezone string | Vevent ics_event | Other_component

record ics_lib =
  il_components :: "string \<Rightarrow> component list res"
  il_zones :: "string \<Rightarrow> string option"
  il_localize :: "string \<Rightarrow> datetime \<Rightarrow> datetime"
  il_formataddr :: "string option \<Rightarrow> string \<Rightarrow> string"

definition ICS_STATUS_MAP :: "(string \<times> string) list" where
  "ICS_STATUS_MAP = [(''NEEDS-ACTION'', ''noreply''), (''ACCEPTED'', ''yes''), (''DECLINED'', ''no''), (''TENTATIVE'', ''maybe'')]"

definition INVERTED_STATUS_MAP :: "(string \<times> string) list" where
  "INVERTED_STATUS_MAP = map (\<lambda>(k, v). (v, k)) ICS_STATUS_MAP"

section \<open>Reading one event\<close>

text \<open>A local time is taken in the zone its parameter names, which has to be in the table.\<close>

definition to_utc :: "ics_lib \<Rightarrow> ics_time \<Rightarrow> datetime res" where
  "to_utc il t =
     (case t of
        Aware u z \<Rightarrow> Ok u
      | Naive l tz \<Rightarrow>
          (case tz of None \<Rightarrow> Raise AssertionError
           | Some z \<Rightarrow> (case il_zones il z of None \<Rightarrow> Raise AssertionError | Some o' \<Rightarrow> Ok (il_localize il o' l)))
      | Day d \<Rightarrow> Ok d)"

definition is_day :: "ics_time \<Rightarrow> bool" where
  "is_day t \<longleftrightarrow> (\<exists>d. t = Day d)"

definition original_zone :: "ics_lib \<Rightarrow> ics_time \<Rightarrow> string option" where
  "original_zone il t =
     (case t of
        Aware u z \<Rightarrow> il_zones il z
      | Naive l tz \<Rightarrow> (case tz of None \<Rightarrow> None | Some z \<Rightarrow> il_zones il z)
      | Day d \<Rightarrow> None)"

text \<open>Its date or time as arrow reads it: a local time as if it were in UTC.\<close>

definition arrow_of :: "ics_time \<Rightarrow> datetime" where
  "arrow_of t = (case t of Aware u z \<Rightarrow> u | Naive l tz \<Rightarrow> l | Day d \<Rightarrow> d)"

text \<open>A date with a time counts as a date, since a datetime is a date.\<close>

definition ics_times :: "ics_lib \<Rightarrow> ics_event \<Rightarrow> (datetime \<times> datetime \<times> bool \<times> string option) res" where
  "ics_times il c =
     (case (ic_dtstart c, ic_dtend c) of
        (Some s, Some e) \<Rightarrow>
          if \<not> is_day s \<and> \<not> is_day e
          then res_bind (to_utc il s) (\<lambda>s'. res_bind (to_utc il e) (\<lambda>e'. Ok (s', e', False, original_zone il s)))
          else Ok (arrow_of s, arrow_of e, True, None)
      | _ \<Rightarrow> Raise MalformedEventError)"

definition ics_last_modified :: "ics_event \<Rightarrow> datetime option res" where
  "ics_last_modified c =
     (case ic_dtstamp c of
        Some (Aware u z) \<Rightarrow> Ok (Some u)
      | Some (Naive l tz) \<Rightarrow> Raise NotImplementedError
      | Some (Day d) \<Rightarrow> Raise AttributeError
      | None \<Rightarrow> Ok (ic_last_modified c))"

definition ics_title :: "ics_event \<Rightarrow> string option" where
  "ics_title c = (if ic_summaries c = [] then None else Some (py_join '' - '' (ic_summaries c)))"

definition says_cancel :: "string option \<Rightarrow> bool" where
  "says_cancel m \<longleftrightarrow> truthy m \<and> py_lower (the m) = ''cancel''"

definition ics_status :: "string option \<Rightarrow> ics_event \<Rightarrow> string res" where
  "ics_status calendar_method c =
     (let st = (case ic_status c of
                  Some s \<Rightarrow> py_lower s
                | None \<Rightarrow> if says_cancel (ic_method c) \<or> says_cancel calendar_method then ''cancelled'' else ''confirmed'')
      in if st \<in> set EVENT_STATUSES then Ok st else Raise AssertionError)"

definition strip_mailto :: "string \<Rightarrow> string" where
  "strip_mailto a = (if prefix ''mailto:'' (py_lower a) then drop 7 a else a)"

definition ics_owner :: "ics_lib \<Rightarrow> ics_event \<Rightarrow> string option" where
  "ics_owner il c =
     (case ic_organizer c of
        None \<Rightarrow> None
      | Some (a, cn) \<Rightarrow> if a = [] then None else Some (il_formataddr il cn (py_lower (strip_mailto a))))"

definition ics_is_owner :: "addr_parser \<Rightarrow> string \<Rightarrow> ics_event \<Rightarrow> bool" where
  "ics_is_owner parse account_email c =
     (case ic_organizer c of
        None \<Rightarrow> False
      | Some (a, cn) \<Rightarrow> a \<noteq> [] \<and> account_email = canonicalize_address parse (strip_mailto a))"

definition ics_participant :: "ics_attendee \<Rightarrow> participant" where
  "ics_participant a =
     [(''email'', JStr (py_lower (strip_mailto (at_address a)))),
      (''name'', (case at_name a of None \<Rightarrow> JNull | Some n \<Rightarrow> JStr n)),
      (''status'', JStr (case at_partstat a of
                           None \<Rightarrow> ''noreply''
                         | Some s \<Rightarrow> (case map_of ICS_STATUS_MAP s of None \<Rightarrow> ''noreply'' | Some t \<Rightarrow> t))),
      (''notes'', (case at_guests a of None \<Rightarrow> JNull | Some g \<Rightarrow> JStr (''Guests: '' @ g))),
      (''guests'', JList [])]"

definition MAX_SEQUENCE :: int where "MAX_SEQUENCE = 2147483647"

record ics_account =
  ia_namespace_id :: nat
  ia_email :: string
  ia_provider :: string
  ia_emailed_calendar :: nat

definition ics_event_of ::
  "ics_lib \<Rightarrow> 'r rrule_lib \<Rightarrow> addr_parser \<Rightarrow> ics_account \<Rightarrow> string option \<Rightarrow> ics_event \<Rightarrow> event_row res" where
  "ics_event_of il lib parse acc calendar_method c =
     res_bind (ics_times il c) (\<lambda>(t0, t1, all_day, tz).
     res_bind (ics_last_modified c) (\<lambda>modified.
     res_bind (ics_status calendar_method c) (\<lambda>st.
       make_event lib \<lparr>ea_row = \<lparr>ev_id = 0, ev_public_id = [], ev_namespace_id = Some (ia_namespace_id acc),
            ev_calendar_id = Some (ia_emailed_calendar acc),
            ev_uid = (case ic_uid c of None \<Rightarrow> ''None'' | Some u \<Rightarrow> u), ev_provider_name = Some ''ics'', ev_source = ''local'',
            ev_raw_data = ic_raw c, ev_title = ics_title c, ev_owner = ics_owner il c, ev_description = ic_description c,
            ev_location = ic_location c, ev_busy = True, ev_read_only = True, ev_reminders = Some ''[]'',
            ev_recurrence = None, ev_start = t0, ev_end = t1, ev_all_day = all_day,
            ev_is_owner = ics_is_owner parse (ia_email acc) c, ev_last_modified = modified, ev_status = st,
            ev_message_id = None, ev_participants = map ics_participant (ic_attendees c),
            ev_sequence_number = Some (min (ic_sequence c) MAX_SEQUENCE), ev_kind = Plain\<rparr>,
          ea_recurrence = (case ic_rrule c of None \<Rightarrow> None | Some r \<Rightarrow> Some (Inl (''RRULE:'' @ r))),
          ea_master_uid = None, ea_original_start = None, ea_original_start_tz = tz, ea_cancelled = None,
          ea_status_last = True\<rparr>)))"

text \<open>The walk over the components; the invitations and the replies so far.\<close>

fun walk_components ::
  "ics_lib \<Rightarrow> 'r rrule_lib \<Rightarrow> addr_parser \<Rightarrow> ics_account \<Rightarrow> component list \<Rightarrow> string option \<Rightarrow>
    event_row list \<times> event_row list \<Rightarrow> (event_row list \<times> event_row list) res" where
  "walk_components il lib parse acc [] m ev = Ok ev"
| "walk_components il lib parse acc (Vcalendar m' # cs) m ev = walk_components il lib parse acc cs m' ev"
| "walk_components il lib parse acc (Vtimezone tz # cs) m ev =
     (if il_zones il tz = None then Raise AssertionError else walk_components il lib parse acc cs m ev)"
| "walk_components il lib parse acc (Vevent c # cs) m (invites, rsvps) =
     res_bind (ics_event_of il lib parse acc m c) (\<lambda>e.
       walk_components il lib parse acc cs m
         (if m = Some ''REQUEST'' \<or> m = Some ''CANCEL'' then (invites @ [e], rsvps)
          else if m = Some ''REPLY'' then (invites, rsvps @ [e])
          else (invites, rsvps)))"
| "walk_components il lib parse acc (Other_component # cs) m ev = walk_components il lib parse acc cs m ev"

definition events_from_ics ::
  "ics_lib \<Rightarrow> 'r rrule_lib \<Rightarrow> addr_parser \<Rightarrow> ics_account \<Rightarrow> string \<Rightarrow> (event_row list \<times> event_row list) res" where
  "events_from_ics il lib parse acc s =
     (case il_components il s of
        Inl e \<Rightarrow> Raise (if e = IndexError \<or> e = KeyError \<or> (\<exists>m. e = ValueError m) then MalformedEventError else e)
      | Inr cs \<Rightarrow> walk_components il lib parse acc cs None ([], []))"

section \<open>Invitations\<close>

text \<open>A missing sequence number is smaller than any.\<close>

fun seq_le :: "int option \<Rightarrow> int option \<Rightarrow> bool" where
  "seq_le None y = True"
| "seq_le (Some x) None = False"
| "seq_le (Some x) (Some y) = (x \<le> y)"

text \<open>The stored events with a new uid, by uid: the last of several wins. The rows are read before the loop.\<close>

definition emailed_events :: "event_row list \<Rightarrow> ics_account \<Rightarrow> string set \<Rightarrow> event_row list" where
  "emailed_events events acc uids =
     filter (\<lambda>x. ev_calendar_id x = Some (ia_emailed_calendar acc) \<and>
                 ev_namespace_id x = Some (ia_namespace_id acc) \<and> ev_uid x \<in> uids) events"

definition by_uid :: "event_row list \<Rightarrow> string \<rightharpoonup> nat" where
  "by_uid rows = dict_of (map (\<lambda>x. (ev_uid x, ev_id x)) rows)"

definition process_invite ::
  "ics_account \<Rightarrow> nat \<Rightarrow> (string \<rightharpoonup> nat) \<Rightarrow> event_row \<Rightarrow> event_row list \<Rightarrow> event_row list res" where
  "process_invite acc mid table e events =
     (case table (ev_uid e) of
        None \<Rightarrow> Ok (t_add events (e\<lparr>ev_id := t_next ev_id events,
                  ev_calendar_id := Some (ia_emailed_calendar acc), ev_message_id := Some mid\<rparr>))
      | Some i \<Rightarrow>
          (case t_get ev_id events i of
             None \<Rightarrow> Ok events
           | Some x \<Rightarrow>
               if seq_le (ev_sequence_number x) (ev_sequence_number e)
               then res_bind (partial_participants_merge (ev_participants x) (ev_participants e)) (\<lambda>ps.
                      Ok (t_put ev_id events ((event_update e x)\<lparr>ev_message_id := Some mid, ev_participants := ps\<rparr>)))
               else Ok events))"

definition process_invites :: "ics_account \<Rightarrow> nat \<Rightarrow> event_row list \<Rightarrow> event_row list \<Rightarrow> event_row list res" where
  "process_invites acc mid invites events =
     res_fold (process_invite acc mid (by_uid (emailed_events events acc (set (map ev_uid invites))))) invites events"

section \<open>Replies\<close>

definition cleanup_nylas_uid :: "string \<Rightarrow> string" where
  "cleanup_nylas_uid uid =
     (let u = py_lower uid in if str_contains ''@nylas.com'' u then take (length u - 10) u else u)"

definition base36_chars :: string where
  "base36_chars = ''abcdefghijklmnopqrstuvwxyz0123456789''"

definition valid_base36 :: "string \<Rightarrow> bool" where
  "valid_base36 uid \<longleftrightarrow> (\<forall>c\<in>set uid. c \<in> set base36_chars)"

definition rsvp_uids :: "event_row list \<Rightarrow> string list" where
  "rsvp_uids rsvps =
     filter valid_base36 (map (\<lambda>e. cleanup_nylas_uid (ev_uid e)) (filter (\<lambda>e. str_contains ''@nylas.com'' (ev_uid e)) rsvps))"

definition own_events :: "event_row list \<Rightarrow> ics_account \<Rightarrow> string set \<Rightarrow> event_row list" where
  "own_events events acc ids =
     filter (\<lambda>x. ev_namespace_id x = Some (ia_namespace_id acc) \<and> ev_calendar_id x \<noteq> Some (ia_emailed_calendar acc) \<and>
                 ev_public_id x \<in> ids) events"

definition by_public_id :: "event_row list \<Rightarrow> string \<rightharpoonup> nat" where
  "by_public_id rows = dict_of (map (\<lambda>x. (ev_public_id x, ev_id x)) rows)"

text \<open>
  The events and the ids of those whose change is scheduled for the provider. A reply to an unknown event is
  saved with the message.
\<close>

definition process_rsvp ::
  "ics_account \<Rightarrow> nat \<Rightarrow> (string \<rightharpoonup> nat) \<Rightarrow> event_row \<Rightarrow> event_row list \<times> nat list \<Rightarrow> (event_row list \<times> nat list) res" where
  "process_rsvp acc mid table e s =
     (case s of (events, actions) \<Rightarrow>
        (case table (cleanup_nylas_uid (ev_uid e)) of
           None \<Rightarrow> Ok (t_add events (e\<lparr>ev_id := t_next ev_id events, ev_message_id := Some mid\<rparr>), actions)
         | Some i \<Rightarrow>
             (case t_get ev_id events i of
                None \<Rightarrow> Ok (events, actions)
              | Some x \<Rightarrow>
                  if ev_sequence_number x = ev_sequence_number e
                  then res_bind (partial_participants_merge (ev_participants x) (ev_participants e)) (\<lambda>ps.
                         Ok (t_put ev_id events (x\<lparr>ev_participants := ps\<rparr>),
                             if ev_calendar_id x \<noteq> Some (ia_emailed_calendar acc) then actions @ [i] else actions))
                  else Ok (events, actions))))"

definition process_nylas_rsvps ::
  "ics_account \<Rightarrow> nat \<Rightarrow> event_row list \<Rightarrow> event_row list \<Rightarrow> (event_row list \<times> nat list) res" where
  "process_nylas_rsvps acc mid rsvps events =
     res_fold (process_rsvp acc mid (by_public_id (own_events events acc (set (rsvp_uids rsvps))))) rsvps (events, [])"

section \<open>Attached files\<close>

text \<open>The classes of exceptions that a file may raise without ending the import.\<close>

definition derailing :: "exc \<Rightarrow> bool" where
  "derailing e \<longleftrightarrow>
     \<not> (e \<in> {MalformedEventError, AssertionError, TypeError, NotImplementedError, AttributeError, UnicodeError,
             UnboundLocalError, KeyError, IndexError} \<or> (\<exists>m. e = ValueError m))"

text \<open>The files as \<open>part.block.data\<close> gives them.\<close>

fun import_attached_events ::
  "ics_lib \<Rightarrow> 'r rrule_lib \<Rightarrow> addr_parser \<Rightarrow> ics_account \<Rightarrow> nat \<Rightarrow> string res list \<Rightarrow>
    event_row list \<times> nat list \<Rightarrow> (event_row list \<times> nat list) res" where
  "import_attached_events il lib parse acc mid [] s = Ok s"
| "import_attached_events il lib parse acc mid (part # parts) (events, actions) =
     (case res_bind part (\<lambda>d. if d = [] then Ok None else res_bind (events_from_ics il lib parse acc d) (\<lambda>x. Ok (Some x))) of
        Inl e \<Rightarrow> if derailing e then Raise e else import_attached_events il lib parse acc mid parts (events, actions)
      | Inr None \<Rightarrow> import_attached_events il lib parse acc mid parts (events, actions)
      | Inr (Some (invites, rsvps)) \<Rightarrow>
          res_bind (process_invites acc mid invites events) (\<lambda>events1.
            if ia_provider acc = ''gmail'' then import_attached_events il lib parse acc mid parts (events1, actions)
            else res_bind (process_nylas_rsvps acc mid rsvps events1) (\<lambda>(events2, as).
                   import_attached_events il lib parse acc mid parts (events2, actions @ as))))"

section \<open>Invitations and answers to send\<close>

text \<open>Whom an invitation goes to: everyone with an address but the organizer.\<close>

definition invite_recipients :: "string \<Rightarrow> event_row \<Rightarrow> json list" where
  "invite_recipients account_email e =
     filter (\<lambda>j. j \<noteq> JNull \<and> j \<noteq> JStr account_email) (map (\<lambda>p. jget_or_null p ''email'') (ev_participants e))"

record ics_invite =
  iv_method :: string
  iv_sequence :: "int option"
  iv_status :: string
  iv_uid :: string
  iv_description :: string
  iv_summary :: string
  iv_location :: string
  iv_start :: datetime
  iv_end :: datetime
  iv_transp :: string
  iv_attendees :: "(json \<times> json \<times> string option) list"

text \<open>\<open>generate_icalendar_invite\<close>: every participant must have an address.\<close>

definition generate_icalendar_invite :: "event_row \<Rightarrow> string \<Rightarrow> ics_invite res" where
  "generate_icalendar_invite e invite_type =
     res_bind (py_assert (invite_type = ''request'' \<or> invite_type = ''cancel'')) (\<lambda>_.
     res_bind (res_all (\<lambda>p. py_assert (jget_or_null p ''email'' \<noteq> JNull \<and> jget_or_null p ''email'' \<noteq> JStr []))
                 (ev_participants e)) (\<lambda>_.
       Ok \<lparr>iv_method = (if invite_type = ''cancel'' then ''CANCEL'' else ''REQUEST''),
           iv_sequence = ev_sequence_number e,
           iv_status = (if invite_type = ''cancel'' then ''CANCELLED'' else ''CONFIRMED''),
           iv_uid = ev_public_id e @ ''@nylas.com'', iv_description = str_or (ev_description e) [],
           iv_summary = str_or (ev_title e) [], iv_location = str_or (ev_location e) [],
           iv_start = ev_start e, iv_end = ev_end e,
           iv_transp = (if ev_busy e then ''OPAQUE'' else ''TRANSPARENT''),
           iv_attendees = map (\<lambda>p. (jget_or_null p ''email'', jget_or_null p ''name'',
               (case map_of p ''status'' of
                  None \<Rightarrow> map_of INVERTED_STATUS_MAP ''noreply''
                | Some (JStr st) \<Rightarrow> map_of INVERTED_STATUS_MAP st
                | Some _ \<Rightarrow> None))) (ev_participants e)\<rparr>))"

text \<open>\<open>generate_rsvp\<close>: the status of the answer.\<close>

definition rsvp_status :: "participant \<Rightarrow> string option res" where
  "rsvp_status p =
     (case map_of p ''status'' of
        None \<Rightarrow> Raise KeyError
      | Some (JStr st) \<Rightarrow> Ok (map_of INVERTED_STATUS_MAP st)
      | Some _ \<Rightarrow> Ok None)"

text \<open>The organizer, or else the only sender of the message the event came with.\<close>

definition rsvp_recipient :: "(string \<Rightarrow> string \<times> string) \<Rightarrow> (nat \<Rightarrow> address list) \<Rightarrow> event_row option \<Rightarrow> string option" where
  "rsvp_recipient parseaddr from_addr e =
     (case e of
        None \<Rightarrow> None
      | Some e \<Rightarrow>
          (case organizer_email parseaddr e of
             Some a \<Rightarrow> if a \<noteq> ''None'' then Some a else
               (case ev_message_id e of
                  None \<Rightarrow> None
                | Some m \<Rightarrow> (case from_addr m of [(n, f)] \<Rightarrow> if f = [] then None else Some f | _ \<Rightarrow> None))
           | None \<Rightarrow>
               (case ev_message_id e of
                  None \<Rightarrow> None
                | Some m \<Rightarrow> (case from_addr m of [(n, f)] \<Rightarrow> if f = [] then None else Some f | _ \<Rightarrow> None))))"

definition rsvp_subject :: "string \<Rightarrow> string \<Rightarrow> string res" where
  "rsvp_subject status subject =
     res_bind (py_assert (status \<in> {''yes'', ''no'', ''maybe''})) (\<lambda>_.
       Ok ((if status = ''yes'' then ''Accepted: '' else if status = ''maybe'' then ''Tentatively accepted: ''
            else ''Declined: '') @ subject))"

end
