(* ===== verification/Event_Sync.thy ===== *)
theory Event_Sync
  imports Google_Provider
begin

text \<open>
  \<open>inbox/events/remote_sync.py\<close>: persisting what a calendar provider reports, the periodic sync and the one driven
  by push notifications, with the watches of \<open>inbox/models/backends/gmail.py\<close>. The provider's
  replies and the clock are parameters.
\<close>

section \<open>State\<close>

record gmail_watch =
  gw_last_list_sync :: "datetime option"
  gw_list_last_ping :: "datetime option"
  gw_list_expiration :: "datetime option"

record event_db =
  ed_calendars :: "calendar_row list"
  ed_events :: "event_row list"
  ed_watch :: gmail_watch

definition needs_new_calendar_list_watch :: "datetime \<Rightarrow> gmail_watch \<Rightarrow> bool" where
  "needs_new_calendar_list_watch now g = (case gw_list_expiration g of None \<Rightarrow> True | Some t \<Rightarrow> t < now)"

definition should_update_calendars :: "datetime \<Rightarrow> int \<Rightarrow> gmail_watch \<Rightarrow> bool" where
  "should_update_calendars now max_time_between_syncs g =
     (case gw_last_list_sync g of
        None \<Rightarrow> True
      | Some t \<Rightarrow> now > t + max_time_between_syncs \<or> needs_new_calendar_list_watch now g \<or>
          (case gw_list_last_ping g of None \<Rightarrow> False | Some p \<Rightarrow> t < p))"

definition new_calendar_list_watch :: "int \<Rightarrow> gmail_watch \<Rightarrow> gmail_watch" where
  "new_calendar_list_watch expiration g = g\<lparr>gw_list_expiration := Some (expiration * 1000)\<rparr>"

definition gmail_handle_gpush_notification :: "datetime \<Rightarrow> gmail_watch \<Rightarrow> gmail_watch" where
  "gmail_handle_gpush_notification now g = g\<lparr>gw_list_last_ping := Some now\<rparr>"

definition MAX_TIME_WITHOUT_SYNC :: int where "MAX_TIME_WITHOUT_SYNC = 3600000000"

section \<open>Calendars\<close>

text \<open>
  Deleting an event deletes the overrides it is the master of, deleting a calendar all of its
  events.
\<close>

definition delete_event :: "event_row list \<Rightarrow> nat \<Rightarrow> event_row list" where
  "delete_event events i = filter (\<lambda>x. ev_id x \<noteq> i \<and> master_of x \<noteq> Some i) events"

definition calendar_events :: "event_db \<Rightarrow> nat \<Rightarrow> event_row list" where
  "calendar_events db c = filter (\<lambda>x. ev_calendar_id x = Some c) (ed_events db)"

definition delete_calendar :: "nat \<Rightarrow> event_db \<Rightarrow> event_db" where
  "delete_calendar c db = db\<lparr>
     ed_events := fold (\<lambda>x events. delete_event events (ev_id x)) (calendar_events db c) (ed_events db),
     ed_calendars := t_del cal_id (ed_calendars db) c\<rparr>"

text \<open>
  Uids are compared exactly. The collation of their columns ignores case, so a database also finds rows whose uid differs
  in case only; uids are assumed not to differ in this way.
\<close>

definition find_calendar :: "event_db \<Rightarrow> nat \<Rightarrow> string \<Rightarrow> calendar_row option" where
  "find_calendar db nid uid = List.find (\<lambda>c. cal_namespace_id c = nid \<and> cal_uid c = uid) (ed_calendars db)"

fun handle_calendar_deletes :: "nat \<Rightarrow> string list \<Rightarrow> event_db \<Rightarrow> event_db" where
  "handle_calendar_deletes nid [] db = db"
| "handle_calendar_deletes nid (uid # uids) db =
     handle_calendar_deletes nid uids
       (case find_calendar db nid uid of None \<Rightarrow> db | Some c \<Rightarrow> delete_calendar (cal_id c) db)"

definition new_calendar :: "nat \<Rightarrow> nat \<Rightarrow> calendar_row" where
  "new_calendar i nid = \<lparr>cal_id = i, cal_namespace_id = nid, cal_uid = [], cal_name = [], cal_description = None,
     cal_read_only = False, cal_last_synced = None, cal_gpush_last_ping = None, cal_gpush_expiration = None\<rparr>"

text \<open>Each calendar is committed, so those before a failure stay.\<close>

fun handle_calendar_updates :: "nat \<Rightarrow> remote_calendar list \<Rightarrow> (event_db, (string \<times> nat) list) st" where
  "handle_calendar_updates nid [] db = (db, Ok [])"
| "handle_calendar_updates nid (rc # rcs) db =
     (case rc_uid rc of
        None \<Rightarrow> (db, Raise AssertionError)
      | Some uid \<Rightarrow>
          (let (db', c) =
             (case find_calendar db nid uid of
                Some c \<Rightarrow>
                  (let c' = calendar_update uid rc c in (db\<lparr>ed_calendars := t_put cal_id (ed_calendars db) c'\<rparr>, c'))
              | None \<Rightarrow>
                  (let c' = calendar_update uid rc (new_calendar (t_next cal_id (ed_calendars db)) nid)
                   in (db\<lparr>ed_calendars := t_add (ed_calendars db) c'\<rparr>, c')))
           in st_bind (handle_calendar_updates nid rcs) (\<lambda>ids. st_ok ((cal_uid c, cal_id c) # ids)) db'))"

section \<open>Events\<close>

definition find_event :: "event_row list \<Rightarrow> nat \<Rightarrow> nat \<Rightarrow> string \<Rightarrow> event_row option" where
  "find_event events nid c uid =
     List.find (\<lambda>x. ev_namespace_id x = Some nid \<and> ev_calendar_id x = Some c \<and> ev_uid x = uid) events"

definition cancel_overrides :: "event_row \<Rightarrow> event_row list \<Rightarrow> event_row list" where
  "cancel_overrides e events = map (\<lambda>x. if master_of x = Some (ev_id e) then x\<lparr>ev_status := ''cancelled''\<rparr> else x) events"

text \<open>
  A known event takes over what is reported. The link to a master is looked up with the reported event
  itself, which has a namespace only when it has become the row.
\<close>

definition update_local_event :: "event_row \<Rightarrow> event_row \<Rightarrow> event_row list \<Rightarrow> event_row list" where
  "update_local_event e l events =
     (let events1 = (if is_recurring_event l \<and> event_cancelled e \<and> \<not> event_cancelled l
                     then cancel_overrides l events else events)
      in t_put ev_id events1 (event_update e l\<lparr>ev_participants := ev_participants e\<rparr>))"

definition handle_event_update :: "nat \<Rightarrow> nat \<Rightarrow> bool \<Rightarrow> event_row \<Rightarrow> event_row list \<Rightarrow> event_row list" where
  "handle_event_update nid c events_exist e events =
     (case (if events_exist then find_event events nid c (ev_uid e) else None) of
        Some l \<Rightarrow> link_events e (update_local_event e l events)
      | None \<Rightarrow>
          (let e' = e\<lparr>ev_id := t_next ev_id events, ev_namespace_id := Some nid, ev_calendar_id := Some c\<rparr>
           in link_events e' (t_add events e')))"

definition events_exist :: "event_row list \<Rightarrow> nat \<Rightarrow> nat \<Rightarrow> bool" where
  "events_exist events nid c \<longleftrightarrow> (\<exists>x\<in>set events. ev_namespace_id x = Some nid \<and> ev_calendar_id x = Some c)"

definition handle_event_updates :: "nat \<Rightarrow> nat \<Rightarrow> event_row list \<Rightarrow> event_db \<Rightarrow> event_db" where
  "handle_event_updates nid c es db = db\<lparr>ed_events :=
     fold (handle_event_update nid c (events_exist (ed_events db) nid c)) es (ed_events db)\<rparr>"

section \<open>The periodic sync\<close>

text \<open>
  What a round is told: the calendars, per calendar the reply to a request for the changes since a
  time, and the clock before each request.
\<close>

record event_provider =
  pv_calendars :: "(string list \<times> remote_calendar list) res"
  pv_events :: "string \<Rightarrow> datetime option \<Rightarrow> event_row list res"
  pv_clock :: "nat \<Rightarrow> datetime"

definition set_last_synced :: "nat \<Rightarrow> datetime \<Rightarrow> event_db \<Rightarrow> event_db" where
  "set_last_synced c t db = db\<lparr>ed_calendars := map (\<lambda>x. if cal_id x = c then x\<lparr>cal_last_synced := Some t\<rparr> else x) (ed_calendars db)\<rparr>"

definition sync_one_calendar :: "event_provider \<Rightarrow> nat \<Rightarrow> string \<Rightarrow> nat \<Rightarrow> (event_db, unit) st" where
  "sync_one_calendar pv nid uid c db =
     (let last = (case t_get cal_id (ed_calendars db) c of None \<Rightarrow> None | Some x \<Rightarrow> cal_last_synced x)
      in case pv_events pv uid last of
           Inl e \<Rightarrow> (db, Raise e)
         | Inr es \<Rightarrow> (set_last_synced c (pv_clock pv c) (handle_event_updates nid c es db), Ok ()))"

fun sync_each_calendar :: "event_provider \<Rightarrow> nat \<Rightarrow> (string \<times> nat) list \<Rightarrow> (event_db, unit) st" where
  "sync_each_calendar pv nid [] = st_ok ()"
| "sync_each_calendar pv nid ((uid, c) # cs) =
     st_bind (sync_one_calendar pv nid uid c) (\<lambda>_. sync_each_calendar pv nid cs)"

definition event_sync :: "event_provider \<Rightarrow> nat \<Rightarrow> (event_db, unit) st" where
  "event_sync pv nid db =
     (case pv_calendars pv of
        Inl e \<Rightarrow> (db, if e = AccessNotEnabledError then Ok () else Raise e)
      | Inr (deleted, changes) \<Rightarrow>
          st_bind (handle_calendar_updates nid changes) (sync_each_calendar pv nid)
            (handle_calendar_deletes nid deleted db))"

section \<open>The sync driven by notifications\<close>

text \<open>A request that the provider answers with 404 deletes the calendar; other statuses are passed on.\<close>

definition on_http_error :: "exc \<Rightarrow> nat \<Rightarrow> (event_db, unit) st" where
  "on_http_error e c db = (if e = HTTPError 404 then (delete_calendar c db, Ok ()) else (db, Raise e))"

definition sync_stale_calendar :: "event_provider \<Rightarrow> datetime \<Rightarrow> nat \<Rightarrow> calendar_row \<Rightarrow> (event_db, unit) st" where
  "sync_stale_calendar pv now nid cal db =
     (case t_get cal_id (ed_calendars db) (cal_id cal) of
        None \<Rightarrow> (db, Ok ())
      | Some c \<Rightarrow>
          if \<not> should_update_events now MAX_TIME_WITHOUT_SYNC c then (db, Ok ())
          else (case sync_one_calendar pv nid (cal_uid c) (cal_id c) db of
                  (db', Inl e) \<Rightarrow> on_http_error e (cal_id c) db'
                | r \<Rightarrow> r))"

fun sync_stale_calendars :: "event_provider \<Rightarrow> datetime \<Rightarrow> nat \<Rightarrow> calendar_row list \<Rightarrow> (event_db, unit) st" where
  "sync_stale_calendars pv now nid [] = st_ok ()"
| "sync_stale_calendars pv now nid (c # cs) =
     st_bind (sync_stale_calendar pv now nid c) (\<lambda>_. sync_stale_calendars pv now nid cs)"

definition sync_calendar_list :: "event_provider \<Rightarrow> datetime \<Rightarrow> nat \<Rightarrow> (event_db, unit) st" where
  "sync_calendar_list pv now nid db =
     (case pv_calendars pv of
        Inl e \<Rightarrow> (db, Raise e)
      | Inr (deleted, changes) \<Rightarrow>
          st_bind (handle_calendar_updates nid changes) (\<lambda>_ db.
            (db\<lparr>ed_watch := (ed_watch db)\<lparr>gw_last_list_sync := Some now\<rparr>\<rparr>, Ok ()))
            (handle_calendar_deletes nid deleted db))"

definition sync_data :: "event_provider \<Rightarrow> datetime \<Rightarrow> nat \<Rightarrow> (event_db, unit) st" where
  "sync_data pv now nid db =
     st_bind (if should_update_calendars now MAX_TIME_WITHOUT_SYNC (ed_watch db)
              then sync_calendar_list pv now nid else st_ok ())
       (\<lambda>_ db. sync_stale_calendars pv now nid (filter (\<lambda>c. cal_namespace_id c = nid) (ed_calendars db)) db) db"

record watch_replies =
  wt_enabled :: bool
  wt_list :: "int option res"
  wt_calendar :: "nat \<Rightarrow> int option res"

text \<open>
  The subscriptions are of one session: it commits at its end and where a calendar is deleted, and an
  exception rolls back to the last commit. The state is the committed rows and the current ones.
\<close>

definition watch_one :: "watch_replies \<Rightarrow> datetime \<Rightarrow> calendar_row \<Rightarrow> (event_db \<times> event_db, unit) st" where
  "watch_one w now c s =
     (case s of (old, db) \<Rightarrow>
        if \<not> needs_new_watch now c then (s, Ok ())
        else case wt_calendar w (cal_id c) of
               Inr None \<Rightarrow> (s, Ok ())
             | Inr (Some x) \<Rightarrow> ((old, db\<lparr>ed_calendars := t_put cal_id (ed_calendars db) (new_event_watch x c)\<rparr>), Ok ())
             | Inl e \<Rightarrow> if e = HTTPError 404 then (let db' = delete_calendar (cal_id c) db in ((db', db'), Ok ()))
                        else (s, Raise e))"

fun watch_each :: "watch_replies \<Rightarrow> datetime \<Rightarrow> calendar_row list \<Rightarrow> (event_db \<times> event_db, unit) st" where
  "watch_each w now [] = st_ok ()"
| "watch_each w now (c # cs) = st_bind (watch_one w now c) (\<lambda>_. watch_each w now cs)"

definition watch_list :: "watch_replies \<Rightarrow> datetime \<Rightarrow> (event_db \<times> event_db, unit) st" where
  "watch_list w now s =
     (case s of (old, db) \<Rightarrow>
        if needs_new_calendar_list_watch now (ed_watch db)
        then (case wt_list w of
                Inl e \<Rightarrow> (s, Raise e)
              | Inr None \<Rightarrow> (s, Ok ())
              | Inr (Some x) \<Rightarrow> ((old, db\<lparr>ed_watch := new_calendar_list_watch x (ed_watch db)\<rparr>), Ok ()))
        else (s, Ok ()))"

definition refresh_gpush_subscriptions :: "watch_replies \<Rightarrow> datetime \<Rightarrow> nat \<Rightarrow> (event_db, unit) st" where
  "refresh_gpush_subscriptions w now nid db =
     (if \<not> wt_enabled w then (db, Ok ())
      else case st_bind (watch_list w now)
             (\<lambda>_. watch_each w now (filter (\<lambda>c. cal_namespace_id c = nid) (ed_calendars db))) (db, db) of
             ((old, db'), Inl e) \<Rightarrow> (old, Raise e)
           | ((old, db'), Inr u) \<Rightarrow> (db', Ok ()))"

text \<open>The two exceptions that do not end the sync.\<close>

definition google_event_sync :: "watch_replies \<Rightarrow> event_provider \<Rightarrow> datetime \<Rightarrow> nat \<Rightarrow> (event_db, unit) st" where
  "google_event_sync w pv now nid db =
     (case refresh_gpush_subscriptions w now nid db of
        (db1, r) \<Rightarrow>
          if (case r of Inl e \<Rightarrow> e \<noteq> AccessNotEnabledError \<and> e \<noteq> OAuthError | Inr _ \<Rightarrow> False) then (db1, r)
          else (case sync_data pv now nid db1 of
                  (db2, Inl e) \<Rightarrow> (db2, if e = AccessNotEnabledError then Ok () else Raise e)
                | r2 \<Rightarrow> r2))"

end
