(* ===== verification/Event_Proofs.thy ===== *)
theory Event_Proofs
  imports Event_Sync
begin

text \<open>
  What a sync of events keeps and reaches: one row per uid of a calendar, rows that say what the provider
  reported, and no event without its calendar or its master.
\<close>

interpretation calt: row_table cal_id "t_get cal_id" "t_put cal_id" "t_del cal_id" t_add "t_inv cal_id"
  by (rule row_table_generic)

interpretation evt: row_table ev_id "t_get ev_id" "t_put ev_id" "t_del ev_id" t_add "t_inv ev_id"
  by (rule row_table_generic)

section \<open>What an update touches\<close>

definition slot :: "event_row \<Rightarrow> nat option \<times> nat option \<times> string" where
  "slot x = (ev_namespace_id x, ev_calendar_id x, ev_uid x)"

lemma set_master_simps [simp]:
  "ev_id (set_master i x) = ev_id x" "slot (set_master i x) = slot x" "ev_status (set_master i x) = ev_status x"
  "ev_calendar_id (set_master i x) = ev_calendar_id x" "ev_namespace_id (set_master i x) = ev_namespace_id x"
  "ev_uid (set_master i x) = ev_uid x"
  by (simp_all add: set_master_def slot_def split: event_kind.split)

lemma event_update_simps [simp]:
  "ev_id (event_update e l) = ev_id l" "ev_uid (event_update e l) = ev_uid e"
  "ev_start (event_update e l) = ev_start e" "ev_end (event_update e l) = ev_end e"
  "ev_all_day (event_update e l) = ev_all_day e" "ev_description (event_update e l) = ev_description e"
  "ev_busy (event_update e l) = ev_busy e" "ev_status (event_update e l) = ev_status e"
  "ev_namespace_id (event_update e l) = (case ev_namespace_id e of None \<Rightarrow> ev_namespace_id l | Some n \<Rightarrow> Some n)"
  "ev_calendar_id (event_update e l) = (case ev_calendar_id e of None \<Rightarrow> ev_calendar_id l | Some n \<Rightarrow> Some n)"
  by (simp_all add: event_update_def base_update_def validated_def Let_def split: event_kind.split)

lemma master_of_update [simp]: "master_of (event_update e l) = master_of l"
  by (simp add: event_update_def base_update_def validated_def Let_def master_of_def split: event_kind.split)

text \<open>An event that is not in a namespace yet links nothing.\<close>

lemma link_events_transient: "ev_namespace_id e = None \<Longrightarrow> link_events e events = events"
proof -
  assume "ev_namespace_id e = None"
  then have "\<not> same_place e x" for x by (simp add: same_place_def)
  then show ?thesis
    by (auto simp: link_events_def link_overrides_def link_master_def find_master_def find_Some_iff
        split: event_kind.split option.split)
qed

text \<open>
  Linking and cancelling change single rows in place, and of those only the master and the status
  of overrides.
\<close>

definition touched :: "event_row \<Rightarrow> event_row \<Rightarrow> bool" where
  "touched x y \<longleftrightarrow> y = x \<or> (\<exists>i. y = set_master i x) \<or> (master_of x \<noteq> None \<and> y = x\<lparr>ev_status := ''cancelled''\<rparr>)"

lemma touched_refl: "touched x x" by (simp add: touched_def)

lemma touched_simps:
  "touched x y \<Longrightarrow> ev_id y = ev_id x \<and> slot y = slot x"
  by (auto simp: touched_def slot_def)

definition in_place :: "event_row list \<Rightarrow> event_row list \<Rightarrow> bool" where
  "in_place xs ys \<longleftrightarrow> list_all2 touched xs ys"

lemma in_place_map: "(\<And>x. x \<in> set xs \<Longrightarrow> touched x (f x)) \<Longrightarrow> in_place xs (map f xs)"
  by (simp add: in_place_def list_all2_conv_all_nth)

lemma in_place_refl: "in_place xs xs"
  using in_place_map [of xs id] by (simp add: touched_refl)

lemma in_place_keys: "in_place xs ys \<Longrightarrow> map ev_id ys = map ev_id xs \<and> map slot ys = map slot xs"
  unfolding in_place_def by (induction rule: list_all2_induct) (auto dest: touched_simps)

lemma in_place_mem: "in_place xs ys \<Longrightarrow> x \<in> set xs \<Longrightarrow> \<exists>y\<in>set ys. touched x y"
  unfolding in_place_def by (induction rule: list_all2_induct) auto

lemma in_place_cancel: "in_place events (cancel_overrides l events)"
  unfolding cancel_overrides_def by (rule in_place_map) (simp add: touched_def)

lemma in_place_link:
  assumes "e \<in> set events" and "t_inv ev_id events"
  shows "in_place events (link_events e events)"
proof (cases "ev_kind e")
  case Plain
  then show ?thesis by (simp add: link_events_def in_place_refl)
next
  case (Recurring r)
  then show ?thesis
    by (auto simp: link_events_def link_overrides_def touched_def intro!: in_place_map)
next
  case (Override v)
  have same: "x = e" if "x \<in> set events" "ev_id x = ev_id e" for x
    using that assms by (auto simp: t_inv_def dest: distinct_map_eq)
  show ?thesis
  proof (cases "master_of e \<noteq> None \<or> find_master e events = None")
    case True
    with Override show ?thesis by (auto simp: link_events_def link_master_def in_place_refl)
  next
    case False
    then obtain m where "find_master e events = Some m" by blast
    with False Override have "link_events e events = t_put ev_id events (set_master (ev_id m) e)"
      by (simp add: link_events_def link_master_def)
    also have "in_place events \<dots>"
      unfolding t_put_def by (rule in_place_map) (use same in \<open>auto simp: touched_def\<close>)
    finally show ?thesis .
  qed
qed

section \<open>One row per uid\<close>

definition one_row_per_uid :: "event_row list \<Rightarrow> bool" where
  "one_row_per_uid events \<longleftrightarrow> t_inv ev_id events \<and> distinct (map slot events)"

definition reported :: "event_row \<Rightarrow> bool" where
  "reported e \<longleftrightarrow> ev_namespace_id e = None \<and> ev_calendar_id e = None"

lemma find_eventD:
  "find_event events nid c uid = Some l \<Longrightarrow> l \<in> set events \<and> slot l = (Some nid, Some c, uid)"
  using find_Some_in by (fastforce simp: find_event_def slot_def)

lemma find_event_None: "find_event events nid c uid = None \<longleftrightarrow> (Some nid, Some c, uid) \<notin> slot ` set events"
  by (force simp: find_event_def slot_def find_None_iff)

lemma map_id_update_local:
  assumes "l \<in> set events" and "t_inv ev_id events" and "slot l = (Some nid, Some c, ev_uid e)" and "reported e"
  shows "map ev_id (update_local_event e l events) = map ev_id events"
    and "map slot (update_local_event e l events) = map slot events"
proof -
  let ?ev1 = "if is_recurring_event l \<and> event_cancelled e \<and> \<not> event_cancelled l then cancel_overrides l events else events"
  have p: "in_place events ?ev1" using in_place_cancel in_place_refl by simp
  note keys = in_place_keys [OF p]
  let ?u = "event_update e l\<lparr>ev_participants := ev_participants e\<rparr>"
  have u: "ev_id ?u = ev_id l" "slot ?u = slot l"
    using assms(3,4) by (simp_all add: slot_def reported_def)
  have inv1: "distinct (map ev_id ?ev1)" using keys assms(2) by (simp add: t_inv_def)
  have sl: "slot y = slot l" if "y \<in> set ?ev1" "ev_id y = ev_id l" for y
  proof -
    obtain l' where l': "l' \<in> set ?ev1" "touched l l'" using in_place_mem [OF p assms(1)] by blast
    then have "ev_id l' = ev_id y" using that touched_simps by simp
    then have "l' = y" using inv1 l' that(1) by (blast dest: distinct_map_eq)
    with l' touched_simps show ?thesis by simp
  qed
  have "map slot (t_put ev_id ?ev1 ?u) = map slot ?ev1"
    unfolding t_put_def map_map comp_def using sl u by (intro map_cong) auto
  moreover have "map ev_id (t_put ev_id ?ev1 ?u) = map ev_id ?ev1" by (rule map_key_t_put)
  ultimately show "map ev_id (update_local_event e l events) = map ev_id events"
    "map slot (update_local_event e l events) = map slot events"
    using keys by (simp_all add: update_local_event_def Let_def)
qed

text \<open>What one reported event does to the ids and slots of the table.\<close>

lemma handle_event_update_keys:
  assumes inv: "t_inv ev_id events" and rep: "reported e"
  shows "map slot (handle_event_update nid c ex e events) =
      (if ex \<and> find_event events nid c (ev_uid e) \<noteq> None then map slot events
       else map slot events @ [(Some nid, Some c, ev_uid e)])"
    and "t_inv ev_id (handle_event_update nid c ex e events)"
proof -
  have *: "map slot (handle_event_update nid c ex e events) =
      (if ex \<and> find_event events nid c (ev_uid e) \<noteq> None then map slot events
       else map slot events @ [(Some nid, Some c, ev_uid e)]) \<and> t_inv ev_id (handle_event_update nid c ex e events)"
  proof (cases "if ex then find_event events nid c (ev_uid e) else None")
    case (Some l)
    then have ex: ex and f: "find_event events nid c (ev_uid e) = Some l" by (simp_all split: if_split_asm)
    from find_eventD [OF f] have l: "l \<in> set events" "slot l = (Some nid, Some c, ev_uid e)" by auto
    have "handle_event_update nid c ex e events = update_local_event e l events"
      using Some rep by (simp add: handle_event_update_def link_events_transient reported_def)
    with map_id_update_local [OF l(1) inv l(2) rep] inv f ex show ?thesis by (simp add: t_inv_def)
  next
    case None
    let ?e = "e\<lparr>ev_id := t_next ev_id events, ev_namespace_id := Some nid, ev_calendar_id := Some c\<rparr>"
    have inv': "t_inv ev_id (t_add events ?e)"
      by (rule evt.inv_add [OF inv]) (auto dest: t_next_fresh)
    have "?e \<in> set (t_add events ?e)" by (simp add: t_add_def)
    note keys = in_place_keys [OF in_place_link [OF this inv']]
    have "handle_event_update nid c ex e events = link_events ?e (t_add events ?e)"
      using None by (simp add: handle_event_update_def Let_def)
    moreover have "map slot (t_add events ?e) = map slot events @ [(Some nid, Some c, ev_uid e)]"
      by (simp add: t_add_def slot_def)
    ultimately show ?thesis using keys inv' None by (auto simp: t_inv_def split: if_split_asm)
  qed
  then show "map slot (handle_event_update nid c ex e events) =
      (if ex \<and> find_event events nid c (ev_uid e) \<noteq> None then map slot events
       else map slot events @ [(Some nid, Some c, ev_uid e)])"
    and "t_inv ev_id (handle_event_update nid c ex e events)" by blast+
qed

lemma fold_event_updates_inv:
  assumes "t_inv ev_id events" and "\<forall>e\<in>set es. reported e"
  shows "t_inv ev_id (fold (handle_event_update nid c ex) es events)"
  using assms by (induction es arbitrary: events) (simp_all add: handle_event_update_keys(2))

lemma fold_event_updates_unique:
  assumes "one_row_per_uid events" and "\<forall>e\<in>set es. reported e"
    and "ex \<or> (distinct (map ev_uid es) \<and> (\<forall>e\<in>set es. find_event events nid c (ev_uid e) = None))"
  shows "one_row_per_uid (fold (handle_event_update nid c ex) es events)"
  using assms
proof (induction es arbitrary: events)
  case (Cons e es)
  let ?ev = "handle_event_update nid c ex e events"
  have inv: "t_inv ev_id events" and rep: "reported e" using Cons.prems by (simp_all add: one_row_per_uid_def)
  note keys = handle_event_update_keys [OF inv rep, of nid c ex]
  have "one_row_per_uid ?ev"
  proof (cases "find_event events nid c (ev_uid e)")
    case None
    then have "(Some nid, Some c, ev_uid e) \<notin> slot ` set events" by (simp add: find_event_None)
    with None keys Cons.prems(1) show ?thesis by (simp add: one_row_per_uid_def)
  next
    case (Some l)
    with Cons.prems keys show ?thesis by (auto simp: one_row_per_uid_def)
  qed
  moreover have "ex \<or> (distinct (map ev_uid es) \<and> (\<forall>e'\<in>set es. find_event ?ev nid c (ev_uid e') = None))"
  proof (cases ex)
    case False
    then have "slot ` set ?ev = insert (Some nid, Some c, ev_uid e) (slot ` set events)"
      using keys(1) by (metis (no_types, lifting) list.set_map list.simps(15) rotate1.simps(2) set_rotate1)
    moreover have "ev_uid e' \<noteq> ev_uid e" if "e' \<in> set es" for e'
      using False Cons.prems(3) that by (simp, metis imageI)
    ultimately show ?thesis using False Cons.prems(3) by (simp add: find_event_None)
  qed simp
  ultimately show ?case using Cons by simp
qed simp

section \<open>The rows say what was reported\<close>

definition mirrors :: "event_row \<Rightarrow> event_row \<Rightarrow> bool" where
  "mirrors e x \<longleftrightarrow> ev_start x = ev_start e \<and> ev_end x = ev_end e \<and> ev_all_day x = ev_all_day e \<and>
     ev_participants x = ev_participants e \<and> ev_description x = ev_description e \<and> ev_busy x = ev_busy e \<and>
     (master_of x = None \<longrightarrow> ev_status x = ev_status e)"

definition mirrored :: "nat \<Rightarrow> nat \<Rightarrow> event_row list \<Rightarrow> event_row \<Rightarrow> bool" where
  "mirrored nid c events e \<longleftrightarrow> (\<exists>x\<in>set events. slot x = (Some nid, Some c, ev_uid e) \<and> mirrors e x)"

lemma mirrors_touched: "mirrors e x \<Longrightarrow> touched x y \<Longrightarrow> mirrors e y"
  by (auto simp: mirrors_def touched_def set_master_def master_of_def split: event_kind.split_asm)

lemma mirrored_in_place: "mirrored nid c xs e \<Longrightarrow> in_place xs ys \<Longrightarrow> mirrored nid c ys e"
  unfolding mirrored_def by (metis in_place_mem mirrors_touched touched_simps)

lemma handle_event_update_mirrors:
  assumes inv: "t_inv ev_id events" and rep: "reported e"
  shows "mirrored nid c (handle_event_update nid c ex e events) e"
    and "\<lbrakk>ex \<longrightarrow> ev_uid e' \<noteq> ev_uid e; mirrored nid c events e'\<rbrakk>
      \<Longrightarrow> mirrored nid c (handle_event_update nid c ex e events) e'"
proof -
  have add: "mirrored nid c (handle_event_update nid c ex e events) e \<and>
      (\<forall>e'. mirrored nid c events e' \<longrightarrow> mirrored nid c (handle_event_update nid c ex e events) e')"
    if none: "(if ex then find_event events nid c (ev_uid e) else None) = None"
  proof -
    let ?e = "e\<lparr>ev_id := t_next ev_id events, ev_namespace_id := Some nid, ev_calendar_id := Some c\<rparr>"
    have inv': "t_inv ev_id (t_add events ?e)"
      by (rule evt.inv_add [OF inv]) (auto dest: t_next_fresh)
    have "?e \<in> set (t_add events ?e)" by (simp add: t_add_def)
    note p = in_place_link [OF this inv']
    have h: "handle_event_update nid c ex e events = link_events ?e (t_add events ?e)"
      using none by (simp add: handle_event_update_def Let_def)
    have "mirrored nid c (t_add events ?e) e"
      by (auto simp: mirrored_def t_add_def slot_def mirrors_def)
    moreover have "mirrored nid c (t_add events ?e) e'" if "mirrored nid c events e'" for e'
      using that by (auto simp: mirrored_def t_add_def)
    ultimately show ?thesis using mirrored_in_place [OF _ p] h by simp
  qed
  have upd: "mirrored nid c (handle_event_update nid c ex e events) e \<and>
      (\<forall>e'. ev_uid e' \<noteq> ev_uid e \<longrightarrow> mirrored nid c events e' \<longrightarrow> mirrored nid c (handle_event_update nid c ex e events) e')"
    if some: "ex" "find_event events nid c (ev_uid e) = Some l" for l
  proof -
    let ?ev1 = "if is_recurring_event l \<and> event_cancelled e \<and> \<not> event_cancelled l then cancel_overrides l events else events"
    let ?u = "event_update e l\<lparr>ev_participants := ev_participants e\<rparr>"
    from find_eventD [OF some(2)] have l: "l \<in> set events" "slot l = (Some nid, Some c, ev_uid e)" by auto
    have p: "in_place events ?ev1" using in_place_cancel in_place_refl by simp
    have h: "handle_event_update nid c ex e events = t_put ev_id ?ev1 ?u"
      using some rep by (simp add: handle_event_update_def link_events_transient reported_def update_local_event_def Let_def)
    obtain l' where l': "l' \<in> set ?ev1" "touched l l'" using in_place_mem [OF p l(1)] by blast
    then have "ev_id l' = ev_id ?u" by (simp add: touched_simps)
    with l' have "?u \<in> set (t_put ev_id ?ev1 ?u)" by (force simp: t_put_def)
    moreover have "slot ?u = (Some nid, Some c, ev_uid e)" using l(2) rep by (simp add: slot_def reported_def)
    moreover have "mirrors e ?u" by (simp add: mirrors_def)
    ultimately have own: "mirrored nid c (t_put ev_id ?ev1 ?u) e" unfolding mirrored_def by blast
    have "mirrored nid c (t_put ev_id ?ev1 ?u) e'" if "ev_uid e' \<noteq> ev_uid e" "mirrored nid c events e'" for e'
    proof -
      from mirrored_in_place [OF that(2) p] obtain x where
        x: "x \<in> set ?ev1" "slot x = (Some nid, Some c, ev_uid e')" "mirrors e' x" by (auto simp: mirrored_def)
      have "ev_id x \<noteq> ev_id ?u"
      proof
        assume "ev_id x = ev_id ?u"
        then have "ev_id x = ev_id l'" using \<open>ev_id l' = ev_id ?u\<close> by simp
        moreover have "distinct (map ev_id ?ev1)" using in_place_keys [OF p] inv by (simp add: t_inv_def)
        ultimately have "x = l'" using x(1) l'(1) by (blast dest: distinct_map_eq)
        with x(2) l'(2) l(2) that(1) show False by (auto dest: touched_simps)
      qed
      with x(1) have "x \<in> set (t_put ev_id ?ev1 ?u)" by (force simp: t_put_def)
      with x show ?thesis unfolding mirrored_def by blast
    qed
    with own h show ?thesis by simp
  qed
  show "mirrored nid c (handle_event_update nid c ex e events) e"
    using add upd by (cases "find_event events nid c (ev_uid e)"; cases ex) auto
  show "mirrored nid c (handle_event_update nid c ex e events) e'"
    if "ex \<longrightarrow> ev_uid e' \<noteq> ev_uid e" "mirrored nid c events e'"
    using add upd that by (cases "find_event events nid c (ev_uid e)"; cases ex) auto
qed

lemma fold_event_updates_mirror:
  assumes "t_inv ev_id events" and "\<forall>e\<in>set es. reported e" and "distinct (map ev_uid es)"
    and "e \<in> set es \<or> (mirrored nid c events e \<and> ev_uid e \<notin> ev_uid ` set es)"
  shows "mirrored nid c (fold (handle_event_update nid c ex) es events) e"
  using assms
proof (induction es arbitrary: events)
  case (Cons d es)
  let ?ev = "handle_event_update nid c ex d events"
  have rep: "reported d" using Cons.prems by simp
  note M = handle_event_update_mirrors [OF Cons.prems(1) rep, where nid = nid and c = c and ex = ex]
  have inv: "t_inv ev_id ?ev" using handle_event_update_keys(2) [OF Cons.prems(1) rep] .
  have "e \<in> set es \<or> (mirrored nid c ?ev e \<and> ev_uid e \<notin> ev_uid ` set es)"
  proof (cases "e = d")
    case True
    with M(1) Cons.prems(3) show ?thesis by auto
  next
    case False
    with Cons.prems(4) show ?thesis
      using M(2) [of e] by auto
  qed
  with Cons.IH [of ?ev] inv Cons.prems show ?case by simp
qed simp

section \<open>No event without its calendar or its master\<close>

definition masters_ok :: "event_row list \<Rightarrow> bool" where
  "masters_ok events \<longleftrightarrow> (\<forall>x\<in>set events. \<forall>i. master_of x = Some i \<longrightarrow>
     (\<exists>m\<in>set events. ev_id m = i \<and> is_recurring_event m))"

definition in_calendars :: "nat set \<Rightarrow> event_row list \<Rightarrow> bool" where
  "in_calendars cs events \<longleftrightarrow> (\<forall>x\<in>set events. \<exists>c\<in>cs. ev_calendar_id x = Some c)"

definition calendar_ids :: "event_db \<Rightarrow> nat set" where
  "calendar_ids db = cal_id ` set (ed_calendars db)"

definition anchored :: "event_db \<Rightarrow> bool" where
  "anchored db \<longleftrightarrow> t_inv cal_id (ed_calendars db) \<and> t_inv ev_id (ed_events db) \<and>
     in_calendars (calendar_ids db) (ed_events db) \<and> masters_ok (ed_events db)"

lemma recurring_no_master: "is_recurring_event x \<Longrightarrow> master_of x = None"
  by (simp add: is_recurring_event_def master_of_def split: event_kind.split_asm)

lemma is_recurring_simps [simp]:
  "is_recurring_event (set_master i x) = is_recurring_event x"
  "is_recurring_event (event_update e l) = is_recurring_event l"
  "is_recurring_event (x\<lparr>ev_status := st\<rparr>) = is_recurring_event x"
  "is_recurring_event (x\<lparr>ev_participants := ps\<rparr>) = is_recurring_event x"
  "master_of (x\<lparr>ev_status := st\<rparr>) = master_of x" "master_of (x\<lparr>ev_participants := ps\<rparr>) = master_of x"
  by (cases "ev_kind l"; cases "ev_kind e"; cases "ev_kind x";
      simp add: is_recurring_event_def master_of_def set_master_def event_update_def base_update_def validated_def Let_def)+

text \<open>Rows that are changed in place keep all masters when every new link is to a recurring event.\<close>

lemma masters_ok_map:
  assumes ok: "masters_ok xs" and keep: "\<And>x. x \<in> set xs \<Longrightarrow> ev_id (f x) = ev_id x \<and> is_recurring_event (f x) = is_recurring_event x"
    and link: "\<And>x i. x \<in> set xs \<Longrightarrow> master_of (f x) = Some i \<Longrightarrow>
      master_of x = Some i \<or> (\<exists>m\<in>set xs. ev_id m = i \<and> is_recurring_event m)"
  shows "masters_ok (map f xs)"
  unfolding masters_ok_def
proof (intro ballI allI impI)
  fix y i assume "y \<in> set (map f xs)" "master_of y = Some i"
  then obtain x where x: "x \<in> set xs" "y = f x" "master_of (f x) = Some i" by auto
  then have "\<exists>m\<in>set xs. ev_id m = i \<and> is_recurring_event m"
    using link [OF x(1,3)] ok by (auto simp: masters_ok_def)
  then obtain m where "m \<in> set xs" "ev_id m = i" "is_recurring_event m" by blast
  with keep show "\<exists>m\<in>set (map f xs). ev_id m = i \<and> is_recurring_event m" by force
qed

lemma master_of_set_master: "master_of (set_master i x) = Some j \<Longrightarrow> j = i"
  by (auto simp: master_of_def set_master_def split: event_kind.split_asm)

lemma masters_ok_touched:
  assumes ok: "masters_ok xs"
    and f: "\<And>x. x \<in> set xs \<Longrightarrow> f x = x \<or> f x = x\<lparr>ev_status := ''cancelled''\<rparr> \<or>
      (\<exists>m\<in>set xs. is_recurring_event m \<and> f x = set_master (ev_id m) x)"
  shows "masters_ok (map f xs)"
proof (rule masters_ok_map [OF ok])
  fix x assume x: "x \<in> set xs"
  show "ev_id (f x) = ev_id x \<and> is_recurring_event (f x) = is_recurring_event x" using f [OF x] by auto
  fix i assume m: "master_of (f x) = Some i"
  from f [OF x] consider "f x = x" | "f x = x\<lparr>ev_status := ''cancelled''\<rparr>" |
    r where "r \<in> set xs" "is_recurring_event r" "f x = set_master (ev_id r) x" by blast
  then show "master_of x = Some i \<or> (\<exists>m\<in>set xs. ev_id m = i \<and> is_recurring_event m)"
    using m by cases (auto dest: master_of_set_master)
qed

lemma masters_ok_link:
  assumes "masters_ok events" and "e \<in> set events" and "t_inv ev_id events"
  shows "masters_ok (link_events e events)"
proof (cases "ev_kind e")
  case Plain
  with assms show ?thesis by (simp add: link_events_def)
next
  case (Recurring r)
  then have "is_recurring_event e" by (simp add: is_recurring_event_def)
  then have "masters_ok (link_overrides e events)"
    unfolding link_overrides_def using assms by (intro masters_ok_touched) auto
  with Recurring show ?thesis by (simp add: link_events_def)
next
  case (Override v)
  have same: "x = e" if "x \<in> set events" "ev_id x = ev_id e" for x
    using that assms by (auto simp: t_inv_def dest: distinct_map_eq)
  show ?thesis
  proof (cases "master_of e \<noteq> None \<or> find_master e events = None")
    case True
    with Override assms show ?thesis by (auto simp: link_events_def link_master_def)
  next
    case False
    then obtain r where r: "find_master e events = Some r" by blast
    then have "r \<in> set events" "is_recurring_event r"
      by (auto simp: find_master_def find_Some_iff split: option.split_asm if_split_asm)
    then have "masters_ok (t_put ev_id events (set_master (ev_id r) e))"
      unfolding t_put_def using assms same by (intro masters_ok_touched) auto
    with False Override r show ?thesis by (simp add: link_events_def link_master_def)
  qed
qed

lemma in_calendars_slots: "in_calendars cs events \<longleftrightarrow> (\<forall>s\<in>set (map slot events). \<exists>c\<in>cs. fst (snd s) = Some c)"
  by (auto simp: in_calendars_def slot_def)

lemma delete_event_set: "set (delete_event events i) = {x \<in> set events. ev_id x \<noteq> i \<and> master_of x \<noteq> Some i}"
  by (auto simp: delete_event_def)

text \<open>An override that loses its master goes with it, and nothing refers to an override.\<close>

lemma fold_delete_event_set:
  "set (fold (\<lambda>x events. delete_event events (ev_id x)) ds events) =
    {x \<in> set events. ev_id x \<notin> ev_id ` set ds \<and> (\<forall>i. master_of x = Some i \<longrightarrow> i \<notin> ev_id ` set ds)}"
  by (induction ds arbitrary: events) (auto simp: delete_event_set)

lemma fold_delete_event_inv:
  "t_inv ev_id events \<Longrightarrow> t_inv ev_id (fold (\<lambda>x events. delete_event events (ev_id x)) ds events)"
proof (induction ds arbitrary: events)
  case (Cons d ds)
  have "t_inv ev_id (delete_event events (ev_id d))"
    using Cons.prems by (simp add: delete_event_def t_inv_def distinct_map_filter_upd)
  with Cons.IH show ?case by simp
qed simp

lemma delete_calendar_anchored:
  assumes "anchored db"
  shows "anchored (delete_calendar c db)" and "calendar_ids (delete_calendar c db) = calendar_ids db - {c}"
proof -
  let ?ds = "calendar_events db c"
  let ?es = "fold (\<lambda>x events. delete_event events (ev_id x)) ?ds (ed_events db)"
  have es: "set ?es = {x \<in> set (ed_events db). ev_id x \<notin> ev_id ` set ?ds \<and>
      (\<forall>i. master_of x = Some i \<longrightarrow> i \<notin> ev_id ` set ?ds)}"
    by (rule fold_delete_event_set)
  show ids: "calendar_ids (delete_calendar c db) = calendar_ids db - {c}"
    by (auto simp: calendar_ids_def delete_calendar_def t_del_def)
  have "ev_calendar_id x \<noteq> Some c" if "x \<in> set ?es" for x
    using that es by (auto simp: calendar_events_def)
  with assms es ids have "in_calendars (calendar_ids (delete_calendar c db)) ?es"
    by (fastforce simp: anchored_def in_calendars_def)
  moreover have "masters_ok ?es"
    unfolding masters_ok_def
  proof (intro ballI allI impI)
    fix x i assume x: "x \<in> set ?es" "master_of x = Some i"
    then have "x \<in> set (ed_events db)" using es by blast
    with x(2) assms obtain m where m: "m \<in> set (ed_events db)" "ev_id m = i" "is_recurring_event m"
      unfolding anchored_def masters_ok_def by blast
    with x es have "m \<in> set ?es" by (auto simp: recurring_no_master)
    with m show "\<exists>m\<in>set ?es. ev_id m = i \<and> is_recurring_event m" by blast
  qed
  moreover have "t_inv cal_id (t_del cal_id (ed_calendars db) c)"
    using assms by (simp add: anchored_def calt.inv_del)
  ultimately show "anchored (delete_calendar c db)"
    using assms by (simp add: anchored_def delete_calendar_def fold_delete_event_inv)
qed

lemma calendar_deletes_anchored: "anchored db \<Longrightarrow> anchored (handle_calendar_deletes nid uids db)"
  by (induction uids arbitrary: db) (auto intro: delete_calendar_anchored split: option.split)

text \<open>A change of calendars that keeps their ids and the events keeps the anchors.\<close>

lemma anchored_cong:
  "anchored db \<Longrightarrow> map cal_id (ed_calendars db') = map cal_id (ed_calendars db) \<Longrightarrow> ed_events db' = ed_events db \<Longrightarrow>
    anchored db' \<and> calendar_ids db' = calendar_ids db"
proof -
  assume a: "anchored db" and m: "map cal_id (ed_calendars db') = map cal_id (ed_calendars db)" and e: "ed_events db' = ed_events db"
  have "calendar_ids db' = calendar_ids db" unfolding calendar_ids_def using m by (metis set_map)
  with a m e show ?thesis by (simp add: anchored_def t_inv_def)
qed

lemma calendar_update_id [simp]: "cal_id (calendar_update uid rc c) = cal_id c"
  by (simp add: calendar_update_def)

lemma calendar_updates_anchored:
  assumes "anchored db" and "handle_calendar_updates nid rcs db = (db', r)"
  shows "anchored db' \<and> calendar_ids db \<subseteq> calendar_ids db' \<and> (\<forall>ids. r = Ok ids \<longrightarrow> snd ` set ids \<subseteq> calendar_ids db')"
  using assms
proof (induction rcs arbitrary: db r)
  case (Cons rc rcs)
  show ?case
  proof (cases "rc_uid rc")
    case None
    with Cons.prems show ?thesis by auto
  next
    case (Some uid)
    define dc where "dc = (case find_calendar db nid uid of
      Some c \<Rightarrow> (let c' = calendar_update uid rc c in (db\<lparr>ed_calendars := t_put cal_id (ed_calendars db) c'\<rparr>, c'))
    | None \<Rightarrow> (let c' = calendar_update uid rc (new_calendar (t_next cal_id (ed_calendars db)) nid)
         in (db\<lparr>ed_calendars := t_add (ed_calendars db) c'\<rparr>, c')))"
    obtain db1 c where dc: "dc = (db1, c)" by fastforce
    have one: "anchored db1 \<and> calendar_ids db \<subseteq> calendar_ids db1 \<and> cal_id c \<in> calendar_ids db1"
    proof (cases "find_calendar db nid uid")
      case (Some l)
      then have l: "l \<in> set (ed_calendars db)" by (auto simp: find_calendar_def find_Some_iff)
      from Some dc have d: "db1 = db\<lparr>ed_calendars := t_put cal_id (ed_calendars db) (calendar_update uid rc l)\<rparr>"
        "c = calendar_update uid rc l" by (auto simp: dc_def Let_def)
      have "anchored db1 \<and> calendar_ids db1 = calendar_ids db"
        using Cons.prems(1) by (rule anchored_cong) (simp_all add: d map_key_t_put)
      with l d show ?thesis by (auto simp: calendar_ids_def)
    next
      case None
      let ?c = "calendar_update uid rc (new_calendar (t_next cal_id (ed_calendars db)) nid)"
      from None dc have d: "db1 = db\<lparr>ed_calendars := t_add (ed_calendars db) ?c\<rparr>" "c = ?c" by (auto simp: dc_def Let_def)
      have "\<forall>x\<in>set (ed_calendars db). cal_id x \<noteq> cal_id ?c"
        using t_next_fresh [of _ "ed_calendars db" cal_id] by (auto simp: new_calendar_def)
      then have "t_inv cal_id (t_add (ed_calendars db) ?c)"
        using Cons.prems(1) by (auto simp: anchored_def intro: calt.inv_add)
      with Cons.prems(1) d show ?thesis
        by (auto simp: anchored_def in_calendars_def calendar_ids_def t_add_def)
    qed
    have "st_bind (handle_calendar_updates nid rcs) (\<lambda>ids. st_ok ((cal_uid c, cal_id c) # ids)) db1 = (db', r)"
      using Cons.prems(2) Some dc by (simp add: dc_def [symmetric])
    then obtain r1 where r1: "handle_calendar_updates nid rcs db1 = (db', r1)"
      "r = (case r1 of Inl e \<Rightarrow> Inl e | Inr ids \<Rightarrow> Inr ((cal_uid c, cal_id c) # ids))"
      by (auto simp: st_bind_def split: prod.splits sum.splits)
    with Cons.IH [of db1 r1] one show ?thesis by (auto split: sum.splits)
  qed
qed simp

lemma event_updates_anchored:
  assumes a: "anchored db" and c: "c \<in> calendar_ids db" and rep: "\<forall>e\<in>set es. reported e \<and> master_of e = None"
  shows "anchored (handle_event_updates nid c es db)"
proof -
  have "t_inv ev_id events' \<and> in_calendars (calendar_ids db) events' \<and> masters_ok events'"
    if "events' = fold (handle_event_update nid c ex) es events" "t_inv ev_id events" "in_calendars (calendar_ids db) events"
      "masters_ok events" for ex events events'
    using that rep
  proof (induction es arbitrary: events)
    case (Cons e es)
    let ?ev = "handle_event_update nid c ex e events"
    have rep: "reported e" "master_of e = None" using Cons.prems(5) by simp_all
    note keys = handle_event_update_keys [OF Cons.prems(2) rep(1), of nid c ex]
    have "in_calendars (calendar_ids db) ?ev"
      using keys(1) Cons.prems(3) c by (auto simp: in_calendars_slots)
    moreover have "masters_ok ?ev"
    proof (cases "if ex then find_event events nid c (ev_uid e) else None")
      case (Some l)
      then have l: "l \<in> set events" by (auto dest: find_eventD split: if_split_asm)
      have same: "x = l" if "x \<in> set events" "ev_id x = ev_id l" for x
        using that l Cons.prems(2) by (auto simp: t_inv_def dest: distinct_map_eq)
      define ev1 where "ev1 = (if is_recurring_event l \<and> event_cancelled e \<and> \<not> event_cancelled l
        then cancel_overrides l events else events)"
      have "masters_ok ev1"
        using Cons.prems(4) by (auto simp: ev1_def cancel_overrides_def intro!: masters_ok_touched)
      moreover have "x \<in> set ev1 \<Longrightarrow> ev_id x = ev_id l \<Longrightarrow> master_of x = master_of l \<and> is_recurring_event x = is_recurring_event l" for x
        using same by (auto simp: ev1_def cancel_overrides_def dest!: same split: if_split_asm)
      ultimately have "masters_ok (t_put ev_id ev1 (event_update e l\<lparr>ev_participants := ev_participants e\<rparr>))"
        unfolding t_put_def by (intro masters_ok_map) (auto split: if_split_asm)
      moreover have "?ev = t_put ev_id ev1 (event_update e l\<lparr>ev_participants := ev_participants e\<rparr>)"
        using Some rep by (simp add: handle_event_update_def link_events_transient reported_def update_local_event_def
            ev1_def Let_def)
      ultimately show ?thesis by simp
    next
      case None
      let ?e = "e\<lparr>ev_id := t_next ev_id events, ev_namespace_id := Some nid, ev_calendar_id := Some c\<rparr>"
      have inv': "t_inv ev_id (t_add events ?e)"
        by (rule evt.inv_add [OF Cons.prems(2)]) (auto dest: t_next_fresh)
      have "master_of ?e = None" using rep by (simp add: master_of_def)
      then have "masters_ok (t_add events ?e)"
        using Cons.prems(4) by (auto simp: masters_ok_def t_add_def)
      moreover have "?e \<in> set (t_add events ?e)" by (simp add: t_add_def)
      moreover have "?ev = link_events ?e (t_add events ?e)"
        using None by (simp add: handle_event_update_def Let_def)
      ultimately show ?thesis using masters_ok_link inv' by simp
    qed
    ultimately show ?case using Cons.IH [of ?ev] Cons.prems keys(2) by simp
  qed simp
  then show ?thesis using a by (simp add: anchored_def handle_event_updates_def calendar_ids_def)
qed

text \<open>Whatever the provider answers.\<close>

definition reports_events :: "event_provider \<Rightarrow> bool" where
  "reports_events pv \<longleftrightarrow> (\<forall>uid t es. pv_events pv uid t = Ok es \<longrightarrow> (\<forall>e\<in>set es. reported e \<and> master_of e = None))"

lemma sync_one_anchored:
  assumes "anchored db" and "c \<in> calendar_ids db" and "reports_events pv" and "sync_one_calendar pv nid uid c db = (db', r)"
  shows "anchored db' \<and> calendar_ids db' = calendar_ids db"
proof (cases "pv_events pv uid (case t_get cal_id (ed_calendars db) c of None \<Rightarrow> None | Some x \<Rightarrow> cal_last_synced x)")
  case (Inl e)
  with assms show ?thesis by (simp add: sync_one_calendar_def)
next
  case (Inr es)
  let ?db = "handle_event_updates nid c es db"
  from Inr assms(4) have db': "db' = set_last_synced c (pv_clock pv c) ?db" by (simp add: sync_one_calendar_def)
  have "anchored ?db" using Inr assms(1-3) by (auto simp: reports_events_def intro: event_updates_anchored)
  moreover have "map cal_id (ed_calendars db') = map cal_id (ed_calendars ?db)" "ed_events db' = ed_events ?db"
    by (simp_all add: db' set_last_synced_def)
  moreover have "calendar_ids ?db = calendar_ids db" by (simp add: calendar_ids_def handle_event_updates_def)
  ultimately show ?thesis using anchored_cong by metis
qed

lemma sync_each_anchored:
  assumes "anchored db" and "snd ` set cs \<subseteq> calendar_ids db" and "reports_events pv"
  shows "anchored (fst (sync_each_calendar pv nid cs db))"
  using assms(1,2)
proof (induction cs arbitrary: db)
  case (Cons uc cs)
  obtain uid c where uc: "uc = (uid, c)" by (cases uc)
  obtain db1 r1 where one: "sync_one_calendar pv nid uid c db = (db1, r1)" by fastforce
  have "anchored db1 \<and> calendar_ids db1 = calendar_ids db"
    using sync_one_anchored [OF Cons.prems(1) _ assms(3) one] Cons.prems(2) uc by simp
  with Cons uc one show ?case by (cases r1) (auto simp: st_bind_def)
qed simp

lemma event_sync_anchored:
  assumes "anchored db" and "reports_events pv"
  shows "anchored (fst (event_sync pv nid db))"
proof (cases "pv_calendars pv")
  case (Inl e)
  with assms show ?thesis by (simp add: event_sync_def)
next
  case (Inr dc)
  obtain deleted changes where dc: "dc = (deleted, changes)" by (cases dc)
  let ?db = "handle_calendar_deletes nid deleted db"
  obtain db1 r1 where u: "handle_calendar_updates nid changes ?db = (db1, r1)" by fastforce
  note U = calendar_updates_anchored [OF calendar_deletes_anchored [OF assms(1)] u]
  show ?thesis
  proof (cases r1)
    case (Inl e)
    with Inr dc u U show ?thesis by (simp add: event_sync_def st_bind_def)
  next
    case Ids: (Inr ids)
    with U have "anchored (fst (sync_each_calendar pv nid ids db1))"
      using assms(2) by (intro sync_each_anchored) auto
    with Inr dc u Ids show ?thesis by (simp add: event_sync_def st_bind_def)
  qed
qed

section \<open>The sync driven by notifications keeps the anchors\<close>

lemma sync_stale_calendar_anchored:
  assumes "reports_events pv"
  shows "st_keeps anchored (sync_stale_calendar pv now nid cal)"
proof (rule st_keepsI)
  fix db assume a: "anchored db"
  show "anchored (fst (sync_stale_calendar pv now nid cal db))"
  proof (cases "t_get cal_id (ed_calendars db) (cal_id cal)")
    case None
    with a show ?thesis by (simp add: sync_stale_calendar_def)
  next
    case (Some c)
    then have c: "cal_id c \<in> calendar_ids db" using t_get_SomeD by (fastforce simp: calendar_ids_def)
    obtain db1 r where one: "sync_one_calendar pv nid (cal_uid c) (cal_id c) db = (db1, r)" by fastforce
    have "anchored db1" using sync_one_anchored [OF a c assms one] by blast
    with a Some one show ?thesis
      by (auto simp: sync_stale_calendar_def on_http_error_def delete_calendar_anchored split: sum.split)
  qed
qed

lemma sync_stale_calendars_anchored: "reports_events pv \<Longrightarrow> st_keeps anchored (sync_stale_calendars pv now nid cs)"
  by (induction cs) (auto intro!: inv_intros sync_stale_calendar_anchored)

lemma sync_calendar_list_anchored: "st_keeps anchored (sync_calendar_list pv now nid)"
proof (rule st_keepsI)
  fix db assume a: "anchored db"
  show "anchored (fst (sync_calendar_list pv now nid db))"
  proof (cases "pv_calendars pv")
    case (Inr dc)
    obtain deleted changes where dc: "dc = (deleted, changes)" by (cases dc)
    obtain db1 r1 where u: "handle_calendar_updates nid changes (handle_calendar_deletes nid deleted db) = (db1, r1)"
      by fastforce
    have b: "anchored db1"
      using calendar_updates_anchored [OF calendar_deletes_anchored [OF a] u] by blast
    then have "anchored (db1\<lparr>ed_watch := w\<rparr>)" for w
      using anchored_cong [of db1 "db1\<lparr>ed_watch := w\<rparr>"] by simp
    with b Inr dc u show ?thesis by (cases r1) (simp_all add: sync_calendar_list_def st_bind_def)
  qed (use a in \<open>simp add: sync_calendar_list_def\<close>)
qed

lemma sync_data_anchored:
  assumes "reports_events pv"
  shows "st_keeps anchored (sync_data pv now nid)"
proof -
  have "st_keeps anchored (\<lambda>db. sync_stale_calendars pv now nid (filter (\<lambda>c. cal_namespace_id c = nid) (ed_calendars db)) db)"
    using sync_stale_calendars_anchored [OF assms] by (simp add: st_keeps_def)
  then have "st_keeps anchored (st_bind (if b then sync_calendar_list pv now nid else st_ok ())
      (\<lambda>_ db. sync_stale_calendars pv now nid (filter (\<lambda>c. cal_namespace_id c = nid) (ed_calendars db)) db))" for b
    by (intro inv_intros sync_calendar_list_anchored)
  then show ?thesis by (simp add: st_keeps_def sync_data_def)
qed

lemma watch_each_anchored:
  "st_keeps (\<lambda>(old, db). anchored old \<and> anchored db) (watch_each w now cs)"
proof (induction cs)
  case (Cons c cs)
  have "st_keeps (\<lambda>(old, db). anchored old \<and> anchored db) (watch_one w now c)"
  proof (rule st_keepsI)
    fix s :: "event_db \<times> event_db" assume a: "case s of (old, db) \<Rightarrow> anchored old \<and> anchored db"
    obtain old db where s: "s = (old, db)" by (cases s)
    have "anchored (db\<lparr>ed_calendars := t_put cal_id (ed_calendars db) y\<rparr>)" for y
      using anchored_cong [of db "db\<lparr>ed_calendars := t_put cal_id (ed_calendars db) y\<rparr>"] a s by (simp add: map_key_t_put)
    then show "case fst (watch_one w now c s) of (old, db) \<Rightarrow> anchored old \<and> anchored db"
      using a s by (auto simp: watch_one_def delete_calendar_anchored Let_def split: sum.split option.split)
  qed
  with Cons show ?case by (auto intro!: inv_intros)
qed (auto simp: st_keeps_def st_ok_def)

lemma refresh_anchored: "anchored db \<Longrightarrow> anchored (fst (refresh_gpush_subscriptions w now nid db))"
proof -
  assume a: "anchored db"
  let ?P = "\<lambda>(old, db). anchored old \<and> anchored db"
  have "st_keeps ?P (watch_list w now)"
  proof (rule st_keepsI)
    fix s :: "event_db \<times> event_db" assume p: "?P s"
    obtain old db' where s: "s = (old, db')" by (cases s)
    have "anchored (db'\<lparr>ed_watch := g\<rparr>)" for g
      using anchored_cong [of db' "db'\<lparr>ed_watch := g\<rparr>"] p s by simp
    then show "?P (fst (watch_list w now s))" using p s by (auto simp: watch_list_def split: sum.split option.split)
  qed
  then have k: "st_keeps ?P (st_bind (watch_list w now) (\<lambda>_. watch_each w now cs))" for cs
    by (intro inv_intros watch_each_anchored)
  obtain old db' r where run: "st_bind (watch_list w now)
      (\<lambda>_. watch_each w now (filter (\<lambda>c. cal_namespace_id c = nid) (ed_calendars db))) (db, db) = ((old, db'), r)"
    by (metis prod.collapse)
  have "?P (old, db')" using st_keepsD [OF k _ run] a by simp
  with a run show ?thesis by (auto simp: refresh_gpush_subscriptions_def split: sum.split)
qed

lemma google_event_sync_anchored:
  assumes "anchored db" and "reports_events pv"
  shows "anchored (fst (google_event_sync w pv now nid db))"
proof -
  obtain db1 r where r: "refresh_gpush_subscriptions w now nid db = (db1, r)" by fastforce
  have a: "anchored db1" using refresh_anchored [OF assms(1), of w now nid] r by simp
  obtain db2 r2 where d: "sync_data pv now nid db1 = (db2, r2)" by fastforce
  have "anchored db2" using st_keepsD [OF sync_data_anchored [OF assms(2)] a d] .
  with a r d show ?thesis by (auto simp: google_event_sync_def split: sum.split)
qed

end
