(* ===== verification/Ical_Proofs.thy ===== *)
theory Ical_Proofs
  imports Ical_Import Event_Proofs
begin

text \<open>
  What invitations and replies by mail may do to the stored events: an invitation never takes an event back to an
  earlier version, and a reply changes nothing but the participants.
\<close>

section \<open>Versions\<close>

lemma seq_le_refl: "seq_le x x" by (cases x) simp_all

lemma seq_le_trans: "seq_le x y \<Longrightarrow> seq_le y z \<Longrightarrow> seq_le x z"
  by (cases x; cases y; cases z) simp_all

lemma seq_of_update: "seq_le (ev_sequence_number x) (ev_sequence_number e) \<Longrightarrow>
    seq_le (ev_sequence_number x) (ev_sequence_number (event_update e x))"
  by (cases "ev_sequence_number e")
    (simp_all add: event_update_def base_update_def validated_def Let_def seq_le_refl split: event_kind.split)

definition no_older :: "event_row list \<Rightarrow> event_row list \<Rightarrow> bool" where
  "no_older old new \<longleftrightarrow> (\<forall>x\<in>set old. \<exists>y\<in>set new. ev_id y = ev_id x \<and>
     seq_le (ev_sequence_number x) (ev_sequence_number y))"

lemma no_older_refl: "no_older xs xs"
  unfolding no_older_def using seq_le_refl by blast

lemma process_invite_step:
  assumes inv: "t_inv ev_id events" and run: "process_invite acc mid table e events = Ok events'"
  shows "t_inv ev_id events'" and "no_older events events'"
    and "x \<in> set events \<Longrightarrow> ev_uid x = ev_uid e \<longrightarrow> \<not> seq_le (ev_sequence_number x) (ev_sequence_number e) \<Longrightarrow>
      \<forall>y\<in>set events. \<forall>i. table (ev_uid e) = Some i \<longrightarrow> ev_id y = i \<longrightarrow> ev_uid y = ev_uid e \<Longrightarrow> x \<in> set events'"
proof -
  consider (add) "events' = t_add events (e\<lparr>ev_id := t_next ev_id events,
      ev_calendar_id := Some (ia_emailed_calendar acc), ev_message_id := Some mid\<rparr>)"
    | (keep) "events' = events"
    | (put) y ps where "t_get ev_id events (ev_id y) = Some y" "table (ev_uid e) = Some (ev_id y)"
      "seq_le (ev_sequence_number y) (ev_sequence_number e)"
      "events' = t_put ev_id events ((event_update e y)\<lparr>ev_message_id := Some mid, ev_participants := ps\<rparr>)"
  proof (cases "table (ev_uid e)")
    case None
    with run that(1) show ?thesis by (simp add: process_invite_def)
  next
    case (Some i)
    show ?thesis
    proof (cases "t_get ev_id events i")
      case None
      with Some run that(2) show ?thesis by (simp add: process_invite_def)
    next
      case get: (Some y)
      then have i: "ev_id y = i" using t_get_SomeD by fastforce
      show ?thesis
      proof (cases "seq_le (ev_sequence_number y) (ev_sequence_number e)")
        case True
        with Some get run i that(3) show ?thesis by (auto simp: process_invite_def res_simps)
      next
        case False
        with Some get run that(2) show ?thesis by (simp add: process_invite_def)
      qed
    qed
  qed
  note cases = this
  have "t_inv ev_id events' \<and> no_older events events' \<and>
      (x \<in> set events \<longrightarrow> (ev_uid x = ev_uid e \<longrightarrow> \<not> seq_le (ev_sequence_number x) (ev_sequence_number e)) \<longrightarrow>
        (\<forall>y\<in>set events. \<forall>i. table (ev_uid e) = Some i \<longrightarrow> ev_id y = i \<longrightarrow> ev_uid y = ev_uid e) \<longrightarrow> x \<in> set events')"
    using cases
  proof cases
    case add
    with inv show ?thesis
      by (auto simp: evt.inv_add t_next_fresh evt.set_add no_older_def intro: seq_le_refl dest: t_next_fresh)
  next
    case keep
    with inv show ?thesis by (simp add: no_older_refl)
  next
    case put
    let ?y = "(event_update e y)\<lparr>ev_message_id := Some mid, ev_participants := ps\<rparr>"
    have y: "y \<in> set events" using put(1) t_get_SomeD by fastforce
    have same: "z = y" if "z \<in> set events" "ev_id z = ev_id y" for z
      using that y inv by (auto simp: t_inv_def dest: distinct_map_eq)
    have s: "set events' = (set events - {z. ev_id z = ev_id y}) \<union> {?y}"
      unfolding put(4) evt.set_put using y by auto
    have "no_older events events'"
      unfolding no_older_def
    proof
      fix z assume z: "z \<in> set events"
      show "\<exists>u\<in>set events'. ev_id u = ev_id z \<and> seq_le (ev_sequence_number z) (ev_sequence_number u)"
      proof (cases "ev_id z = ev_id y")
        case True
        then have "z = y" using same z by blast
        then show ?thesis using s seq_of_update [OF put(3)] by (intro bexI [of _ ?y]) auto
      next
        case False
        with z s show ?thesis by (intro bexI [of _ z]) (auto intro: seq_le_refl)
      qed
    qed
    moreover have "t_inv ev_id events'" unfolding put(4) by (rule evt.inv_put [OF inv])
    moreover have "x \<in> set events'"
      if "x \<in> set events" "ev_uid x = ev_uid e \<longrightarrow> \<not> seq_le (ev_sequence_number x) (ev_sequence_number e)"
        "\<forall>y\<in>set events. \<forall>i. table (ev_uid e) = Some i \<longrightarrow> ev_id y = i \<longrightarrow> ev_uid y = ev_uid e"
      using that s y put(2,3) same by auto
    ultimately show ?thesis by blast
  qed
  then show "t_inv ev_id events'" "no_older events events'"
    "x \<in> set events \<Longrightarrow> ev_uid x = ev_uid e \<longrightarrow> \<not> seq_le (ev_sequence_number x) (ev_sequence_number e) \<Longrightarrow>
      \<forall>y\<in>set events. \<forall>i. table (ev_uid e) = Some i \<longrightarrow> ev_id y = i \<longrightarrow> ev_uid y = ev_uid e \<Longrightarrow> x \<in> set events'"
    by blast+
qed

lemma no_older_trans: "no_older xs ys \<Longrightarrow> no_older ys zs \<Longrightarrow> no_older xs zs"
  unfolding no_older_def by (metis seq_le_trans)

lemma process_invites_no_older:
  assumes "t_inv ev_id events" and "process_invites acc mid invites events = Ok events'"
  shows "t_inv ev_id events' \<and> no_older events events'"
proof -
  have "t_inv ev_id events' \<and> no_older events events'"
    if "t_inv ev_id xs \<and> no_older events xs" "res_fold (process_invite acc mid table) invites xs = Ok events'" for xs table
    using res_fold_invariant [where P = "\<lambda>s. t_inv ev_id s \<and> no_older events s", OF _ that]
      process_invite_step(1,2) no_older_trans by blast
  then show ?thesis using assms no_older_refl by (auto simp: process_invites_def)
qed

section \<open>Replies\<close>

text \<open>Rows that differ in their participants at most, and in those only when they are no copies of invitations.\<close>

definition only_participants :: "nat \<Rightarrow> event_row list \<Rightarrow> event_row list \<Rightarrow> bool" where
  "only_participants emailed old new \<longleftrightarrow> (\<forall>x\<in>set old. \<exists>ps. x\<lparr>ev_participants := ps\<rparr> \<in> set new \<and>
     (ev_calendar_id x = Some emailed \<longrightarrow> ps = ev_participants x))"

lemma only_participants_refl: "only_participants c xs xs"
  unfolding only_participants_def by (metis event_row.surjective event_row.update_convs(24))

lemma only_participants_trans: "only_participants c xs ys \<Longrightarrow> only_participants c ys zs \<Longrightarrow> only_participants c xs zs"
proof -
  assume a: "only_participants c xs ys" and b: "only_participants c ys zs"
  show ?thesis
    unfolding only_participants_def
  proof
    fix x assume "x \<in> set xs"
    with a obtain ps where ps: "x\<lparr>ev_participants := ps\<rparr> \<in> set ys" "ev_calendar_id x = Some c \<longrightarrow> ps = ev_participants x"
      by (auto simp: only_participants_def)
    from b ps(1) obtain qs where "x\<lparr>ev_participants := ps\<rparr>\<lparr>ev_participants := qs\<rparr> \<in> set zs"
      "ev_calendar_id x = Some c \<longrightarrow> qs = ps" unfolding only_participants_def by fastforce
    with ps(2) show "\<exists>ps. x\<lparr>ev_participants := ps\<rparr> \<in> set zs \<and> (ev_calendar_id x = Some c \<longrightarrow> ps = ev_participants x)"
      by auto
  qed
qed

text \<open>The table names rows outside the calendar of invitations.\<close>

definition outside :: "nat \<Rightarrow> (string \<rightharpoonup> nat) \<Rightarrow> event_row list \<Rightarrow> bool" where
  "outside c table events \<longleftrightarrow> (\<forall>u i. table u = Some i \<longrightarrow> (\<forall>x\<in>set events. ev_id x = i \<longrightarrow> ev_calendar_id x \<noteq> Some c))"

lemma dict_of_SomeD: "dict_of kvs k = Some v \<Longrightarrow> (k, v) \<in> set kvs"
  by (simp add: dict_of_map_of_rev map_of_SomeD [of "rev kvs", simplified])

definition no_row :: "event_row list \<Rightarrow> nat \<Rightarrow> bool" where
  "no_row events i \<longleftrightarrow> (\<forall>x\<in>set events. ev_id x \<noteq> i)"

lemma process_rsvp_step:
  assumes inv: "t_inv ev_id events" and out: "outside (ia_emailed_calendar acc) table events"
    and named: "\<forall>u i. table u = Some i \<longrightarrow> \<not> no_row events i"
    and run: "process_rsvp acc mid table e (events, actions) = Ok (events', actions')"
  shows "t_inv ev_id events' \<and> outside (ia_emailed_calendar acc) table events' \<and>
    (\<forall>u i. table u = Some i \<longrightarrow> \<not> no_row events' i) \<and> only_participants (ia_emailed_calendar acc) events events'"
proof -
  let ?c = "ia_emailed_calendar acc"
  consider (add) y where "ev_id y = t_next ev_id events" "events' = t_add events y"
    | (keep) "events' = events"
    | (put) u x ps where "table u = Some (ev_id x)" "x \<in> set events" "events' = t_put ev_id events (x\<lparr>ev_participants := ps\<rparr>)"
  proof (cases "table (cleanup_nylas_uid (ev_uid e))")
    case None
    with run that(1) [of "e\<lparr>ev_id := t_next ev_id events, ev_message_id := Some mid\<rparr>"] show ?thesis
      by (simp add: process_rsvp_def)
  next
    case (Some i)
    show ?thesis
    proof (cases "t_get ev_id events i")
      case None
      with Some run that(2) show ?thesis by (simp add: process_rsvp_def)
    next
      case get: (Some x)
      then have x: "ev_id x = i" "x \<in> set events" using t_get_SomeD by fastforce+
      show ?thesis
      proof (cases "ev_sequence_number x = ev_sequence_number e")
        case True
        with Some get run obtain ps where "events' = t_put ev_id events (x\<lparr>ev_participants := ps\<rparr>)"
          by (auto simp: process_rsvp_def res_simps)
        with that(3) Some x show ?thesis by blast
      next
        case False
        with Some get run that(2) show ?thesis by (simp add: process_rsvp_def)
      qed
    qed
  qed
  then show ?thesis
  proof cases
    case add
    have fresh: "\<forall>x\<in>set events. ev_id x \<noteq> ev_id y" using add(1) by (auto dest: t_next_fresh)
    have "outside ?c table events'"
      unfolding outside_def
    proof (intro allI impI ballI)
      fix u i x assume a: "table u = Some i" "x \<in> set events'" "ev_id x = i"
      from named a(1) have "\<not> no_row events i" by blast
      then have "i \<noteq> ev_id y" using fresh by (auto simp: no_row_def)
      then have "x \<in> set events" using a(2,3) add(2) by (auto simp: evt.set_add)
      with a out show "ev_calendar_id x \<noteq> Some ?c" unfolding outside_def by blast
    qed
    moreover have "only_participants ?c events events'"
      using only_participants_refl [of ?c events] unfolding add(2) only_participants_def evt.set_add by blast
    moreover have "\<forall>u i. table u = Some i \<longrightarrow> \<not> no_row events' i"
      using named unfolding add(2) no_row_def evt.set_add by blast
    ultimately show ?thesis
      using add evt.inv_add [OF inv fresh] by simp
  next
    case keep
    with assms show ?thesis by (simp add: only_participants_refl)
  next
    case put
    have same: "z = x" if "z \<in> set events" "ev_id z = ev_id x" for z
      using that put(2) inv by (auto simp: t_inv_def dest: distinct_map_eq)
    have s: "set events' = (set events - {z. ev_id z = ev_id x}) \<union> {x\<lparr>ev_participants := ps\<rparr>}"
      unfolding put(3) evt.set_put using put(2) by auto
    have x: "ev_calendar_id x \<noteq> Some ?c" using out put(1,2) by (auto simp: outside_def)
    have "only_participants ?c events events'"
      unfolding only_participants_def
    proof
      fix z assume z: "z \<in> set events"
      show "\<exists>ps. z\<lparr>ev_participants := ps\<rparr> \<in> set events' \<and> (ev_calendar_id z = Some ?c \<longrightarrow> ps = ev_participants z)"
      proof (cases "ev_id z = ev_id x")
        case True
        with same z s x show ?thesis by blast
      next
        case False
        with z s show ?thesis by (intro exI [of _ "ev_participants z"]) simp
      qed
    qed
    moreover have "outside ?c table events'" using out s x by (auto simp: outside_def)
    moreover have "\<forall>u i. table u = Some i \<longrightarrow> \<not> no_row events' i"
      using named evt.put_keys [of events "x\<lparr>ev_participants := ps\<rparr>"] put(3) by (metis image_iff no_row_def)
    ultimately show ?thesis unfolding put(3) using evt.inv_put [OF inv] by blast
  qed
qed

lemma process_nylas_rsvps_only_participants:
  assumes inv: "t_inv ev_id events" and run: "process_nylas_rsvps acc mid rsvps events = Ok (events', actions)"
  shows "only_participants (ia_emailed_calendar acc) events events'"
proof -
  let ?c = "ia_emailed_calendar acc"
  define table where "table = by_public_id (own_events events acc (set (rsvp_uids rsvps)))"
  have t: "\<exists>x\<in>set events. ev_id x = i \<and> ev_calendar_id x \<noteq> Some ?c" if "table u = Some i" for u i
    using dict_of_SomeD [OF that [unfolded table_def by_public_id_def]] by (auto simp: own_events_def)
  have out: "outside ?c table events"
    unfolding outside_def
  proof (intro allI impI ballI)
    fix u i x assume a: "table u = Some i" "x \<in> set events" "ev_id x = i"
    with t obtain y where "y \<in> set events" "ev_id y = i" "ev_calendar_id y \<noteq> Some ?c" by blast
    moreover from this a have "x = y" using inv by (auto simp: t_inv_def dest: distinct_map_eq)
    ultimately show "ev_calendar_id x \<noteq> Some ?c" by simp
  qed
  define P where "P = (\<lambda>s :: event_row list \<times> nat list. t_inv ev_id (fst s) \<and> outside ?c table (fst s) \<and>
    (\<forall>u i. table u = Some i \<longrightarrow> \<not> no_row (fst s) i) \<and> only_participants ?c events (fst s))"
  have "P (events, [])" using inv out t by (fastforce simp: P_def no_row_def only_participants_refl)
  moreover have "P s'" if "P s" "process_rsvp acc mid table e s = Ok s'" for e s s'
  proof -
    from that(1) have p: "t_inv ev_id (fst s)" "outside ?c table (fst s)" "\<forall>u i. table u = Some i \<longrightarrow> \<not> no_row (fst s) i"
      "only_participants ?c events (fst s)" by (simp_all add: P_def)
    have r: "process_rsvp acc mid table e (fst s, snd s) = Ok (fst s', snd s')" using that(2) by simp
    note S = process_rsvp_step [OF p(1-3) r]
    from S have "only_participants ?c events (fst s')" using only_participants_trans [OF p(4)] by blast
    with S show ?thesis by (simp add: P_def)
  qed
  moreover have "res_fold (process_rsvp acc mid table) rsvps (events, []) = Ok (events', actions)"
    using run by (simp add: process_nylas_rsvps_def table_def)
  ultimately have "P (events', actions)"
    using res_fold_invariant [where P = P and f = "process_rsvp acc mid table" and xs = rsvps and s = "(events, [])"] by blast
  then show ?thesis by (simp add: P_def)
qed

end
