(* ===== verification/Props_Events.thy ===== *)
theory Props_Events
  imports Event_Facts Ical_Proofs "HOL-Library.List_Lexorder" "HOL-Library.Char_ord"
begin

text \<open>
  The properties of calendars and events: what a sync keeps and reaches, the expansion of recurring
  events, Google's replies, and invitations by mail.
\<close>

section \<open>Samples\<close>

text \<open>A reported event, and a stored one in namespace 1.\<close>

definition sample_event :: "string \<Rightarrow> datetime \<Rightarrow> event_row" where
  "sample_event uid t = \<lparr>ev_id = 0, ev_public_id = uid, ev_namespace_id = None, ev_calendar_id = None, ev_uid = uid,
     ev_provider_name = None, ev_source = ''local'', ev_raw_data = [], ev_title = None, ev_owner = None,
     ev_description = None, ev_location = None, ev_busy = True, ev_read_only = False, ev_reminders = None,
     ev_recurrence = None, ev_start = t, ev_end = t + 10, ev_all_day = False, ev_is_owner = True,
     ev_last_modified = None, ev_status = ''confirmed'', ev_message_id = None, ev_participants = [],
     ev_sequence_number = Some 0, ev_kind = Plain\<rparr>"

definition stored_event :: "nat \<Rightarrow> nat \<Rightarrow> string \<Rightarrow> datetime \<Rightarrow> event_row" where
  "stored_event i c uid t = (sample_event uid t)\<lparr>ev_id := i, ev_namespace_id := Some 1, ev_calendar_id := Some c\<rparr>"

definition sample_calendar :: "nat \<Rightarrow> string \<Rightarrow> calendar_row" where
  "sample_calendar i uid = (new_calendar i 1)\<lparr>cal_uid := uid\<rparr>"

definition sample_calendars :: event_db where
  "sample_calendars = \<lparr>ed_calendars = [sample_calendar 1 ''work'', sample_calendar 2 ''home''],
     ed_events = [stored_event 1 1 ''a'' 5, stored_event 2 2 ''b'' 7],
     ed_watch = \<lparr>gw_last_list_sync = None, gw_list_last_ping = None, gw_list_expiration = None\<rparr>\<rparr>"

definition person :: "string \<Rightarrow> string \<Rightarrow> participant" where
  "person a st = [(''email'', JStr a), (''name'', JNull), (''status'', JStr st)]"

lemma mailed_person: "mailed (person a st)" "raw_email (person a st) = a"
  by (simp_all add: mailed_def raw_email_def person_def)

text \<open>Work is gone, and home has a changed event and a new one.\<close>

definition sample_provider :: event_provider where
  "sample_provider = \<lparr>
     pv_calendars = Ok ([''work''], [\<lparr>rc_uid = Some ''home'', rc_name = ''Home'', rc_description = None, rc_read_only = False\<rparr>]),
     pv_events = (\<lambda>uid t. Ok [sample_event ''b'' 8, sample_event ''c'' 9]), pv_clock = (\<lambda>c. 100)\<rparr>"

lemmas event_samples = sample_event_def stored_event_def sample_calendar_def sample_calendars_def sample_provider_def
  new_calendar_def

lemma sample_calendars_anchored: "anchored sample_calendars"
  by (simp add: anchored_def t_inv_def in_calendars_def masters_ok_def calendar_ids_def master_of_def event_samples)

lemma sample_provider_reports: "reports_events sample_provider"
  by (simp add: reports_events_def reported_def master_of_def event_samples)

section \<open>Syncing calendars\<close>

text \<open>
  C16: No sync leaves an event without its calendar, or an override without its master: whatever the provider answers,
  and wherever a sync stops, the ids stay unique, every event is in a stored calendar and every override with a
  master has a stored recurring event as its master. This holds for both ways of syncing.
\<close>

theorem events_stay_anchored:
  assumes "anchored db" and "reports_events pv"
  shows "anchored (fst (event_sync pv nid db)) \<and> anchored (fst (google_event_sync w pv now nid db))"
  using event_sync_anchored [OF assms] google_event_sync_anchored [OF assms] by blast

theorem events_stay_anchored_witness:
  "\<exists>db. event_sync sample_provider 1 sample_calendars = (db, Ok ()) \<and> anchored db \<and>
     map (\<lambda>x. (ev_uid x, ev_calendar_id x, ev_start x)) (ed_events db) = [(''b'', Some 2, 8), (''c'', Some 2, 9)]"
proof -
  obtain db r where run: "event_sync sample_provider 1 sample_calendars = (db, r)" by fastforce
  have "anchored db"
    using events_stay_anchored [OF sample_calendars_anchored sample_provider_reports] run by (metis fst_conv)
  moreover have "(case event_sync sample_provider 1 sample_calendars of (db, r) \<Rightarrow> r = Ok () \<and>
      map (\<lambda>x. (ev_uid x, ev_calendar_id x, ev_start x)) (ed_events db) = [(''b'', Some 2, 8), (''c'', Some 2, 9)])"
    by code_simp
  ultimately show ?thesis using run by auto
qed

text \<open>
  A calendar has one row per uid: persisting the events of a calendar keeps ids and the triples of
  namespace, calendar and uid unique, when the calendar has events already or no uid is reported twice.
\<close>

theorem events_one_row_per_uid:
  assumes "one_row_per_uid (ed_events db)" and "\<forall>e\<in>set es. reported e"
    and "events_exist (ed_events db) nid c \<or> distinct (map ev_uid es)"
  shows "one_row_per_uid (ed_events (handle_event_updates nid c es db))"
proof (cases "events_exist (ed_events db) nid c")
  case True
  with assms show ?thesis by (simp add: handle_event_updates_def fold_event_updates_unique)
next
  case False
  then have "find_event (ed_events db) nid c uid = None" for uid
    by (auto simp: find_event_None slot_def events_exist_def)
  with False assms show ?thesis by (simp add: handle_event_updates_def fold_event_updates_unique)
qed

theorem events_one_row_per_uid_witness:
  "one_row_per_uid (ed_events (handle_event_updates 1 2 [sample_event ''b'' 8, sample_event ''c'' 9, sample_event ''c'' 10]
     sample_calendars))"
  by (rule events_one_row_per_uid)
    (simp_all add: one_row_per_uid_def t_inv_def slot_def reported_def events_exist_def event_samples)

text \<open>
  The first sync of a calendar does not look for existing rows, so a uid that is reported twice in it gets two
  rows, which later syncs never join.
\<close>

theorem first_sync_duplicates:
  "map (\<lambda>x. (ev_uid x, ev_start x)) (ed_events (handle_event_updates 1 3 [sample_event ''a'' 1]
     (handle_event_updates 1 3 [sample_event ''a'' 5, sample_event ''a'' 6] (sample_calendars\<lparr>ed_events := []\<rparr>))))
   = [(''a'', 1), (''a'', 6)]"
  by code_simp

text \<open>
  C17: Persisting events makes the rows say what was reported: for every reported event the row of its uid has its
  times, participants, description and busy flag, and its status unless it is an override whose master was
  cancelled.
\<close>

theorem events_mirrored:
  assumes "t_inv ev_id (ed_events db)" and "\<forall>e\<in>set es. reported e" and "distinct (map ev_uid es)" and "e \<in> set es"
  shows "\<exists>x\<in>set (ed_events (handle_event_updates nid c es db)).
    ev_namespace_id x = Some nid \<and> ev_calendar_id x = Some c \<and> ev_uid x = ev_uid e \<and> mirrors e x"
  using fold_event_updates_mirror [OF assms(1-3) disjI1 [OF assms(4)],
      where nid = nid and c = c and ex = "events_exist (ed_events db) nid c"]
  by (auto simp: mirrored_def slot_def handle_event_updates_def)

theorem events_mirrored_witness:
  "\<exists>x\<in>set (ed_events (handle_event_updates 1 2 [sample_event ''b'' 8, sample_event ''c'' 9] sample_calendars)).
     ev_namespace_id x = Some 1 \<and> ev_calendar_id x = Some 2 \<and> ev_uid x = ''b'' \<and> mirrors (sample_event ''b'' 8) x"
  using events_mirrored [of sample_calendars "[sample_event ''b'' 8, sample_event ''c'' 9]" "sample_event ''b'' 8" 1 2]
  by (simp add: t_inv_def reported_def event_samples)

section \<open>Google's replies\<close>

text \<open>
  Faults of the connection are invisible: a resource list that is fetched with any retried faults in between is
  the one that is fetched without, namely the items of the pages from the first to the one without a next page,
  each page once and in order.
\<close>

theorem paging_complete:
  assumes "\<forall>f. Some f \<in> set fs \<longrightarrow> (\<exists>u. handle_fault refresh f = Ok u)"
  shows "get_resource_list refresh srv fs None [] =
    (case pages_from srv (length (filter (\<lambda>f. f = None) fs)) None of
       (items, complete) \<Rightarrow> if complete then Some (Ok items) else None)"
proof -
  have "get_resource_list refresh srv fs None [] = get_resource_list refresh srv (filter (\<lambda>f. f = None) fs) None []"
    by (rule faults_are_invisible [OF assms])
  also have "\<dots> = get_resource_list refresh srv (replicate (length (filter (\<lambda>f. f = None) fs)) None) None []"
    by (subst filter_None_replicate) (rule refl)
  finally show ?thesis unfolding resource_list_pages append_Nil .
qed

definition sample_pages :: "nat pages" where
  "sample_pages tok = (case tok of None \<Rightarrow> ([1, 2], Some ''p2'') | Some t \<Rightarrow> ([3], None))"

theorem paging_complete_witness:
  "get_resource_list (Ok ()) sample_pages [Some Ssl_fault, None, Some (Http_fault 503 None), Some (Http_fault 401 None), None] None []
   = Some (Ok [1, 2, 3])"
  using paging_complete [of "[Some Ssl_fault, None, Some (Http_fault 503 None), Some (Http_fault 401 None), None]" "Ok ()" sample_pages]
  by (simp add: handle_fault_def sample_pages_def eval_nat_numeral)

text \<open>
  The times of a Google event are always in order: whatever the order and the kind of its two times, the event
  starts at the earlier one and does not end before it, and the last day of an all-day event is one day before
  the day Google names, unless that is before the start.
\<close>

theorem google_times_ordered:
  assumes "key_order (gl_order gl)"
    and "parse_google_time gl s_raw = Ok (Some s)" and "parse_google_time gl e_raw = Ok (Some e)"
  shows "\<exists>t1. google_to_event_time gl s_raw e_raw = Ok (min s e, t1, ''date'' \<in> fst ` set s_raw) \<and> min s e \<le> t1 \<and>
    t1 = (if ''date'' \<in> fst ` set s_raw then max (min s e) (max s e - microday) else max s e)"
  using google_event_time [OF assms] by auto

definition sample_order :: "string set \<Rightarrow> string list" where
  "sample_order S = (if S = {''start_time'', ''end_time''} then [''start_time'', ''end_time'']
     else if S = {''start_date'', ''end_date''} then [''start_date'', ''end_date'']
     else sorted_list_of_set S)"

definition sample_google :: google_lib where
  "sample_google = \<lparr>gl_time = (\<lambda>j. case j of JNum n \<Rightarrow> Ok n | _ \<Rightarrow> Raise ParserError),
     gl_datetime = (\<lambda>j. case j of JNum n \<Rightarrow> Ok n | _ \<Rightarrow> Raise ParserError), gl_now = (\<lambda>n. 0), gl_order = sample_order,
     gl_dumps = (\<lambda>d. []), gl_str = (\<lambda>j. case j of JStr s \<Rightarrow> s | _ \<Rightarrow> ''None''),
     gl_date_text = (\<lambda>t. []), gl_iso_text = (\<lambda>t. [])\<rparr>"

lemma sample_key_order: "key_order sample_order"
proof -
  have "set (sample_order S) = S" if "finite S" for S
    using that by (auto simp: sample_order_def)
  then show ?thesis by (simp add: key_order_def) (auto simp: sample_order_def doubleton_eq_iff)
qed

theorem google_times_ordered_witness:
  "google_to_event_time sample_google [(''date'', JNum (3 * microday))] [(''date'', JNum microday)]
   = Ok (microday, 2 * microday, True)"
  using google_times_ordered [of sample_google "[(''date'', JNum (3 * microday))]" "3 * microday" "[(''date'', JNum microday)]" microday]
  by (simp add: sample_google_def sample_key_order parse_google_time_def microday_def)

text \<open>
  An event that is written for Google and read back keeps its times, and each of its attendees the name, status and
  address, when it is no all-day event.
\<close>

theorem dumped_event_roundtrip:
  assumes "key_order (gl_order gl)" and "reads_back gl" and "dump_event gl e = Ok d"
    and "\<not> ev_all_day e" and "ev_start e \<le> ev_end e"
    and "p \<in> set (ev_participants e)" and "map_of p ''status'' = Some (JStr st)"
  shows "google_to_event_time gl (sub_dict d ''start'') (sub_dict d ''end'') = Ok (ev_start e, ev_end e, False) \<and>
    (\<exists>as a. map_of d ''attendees'' = Some (JList as) \<and> JDict a \<in> set as \<and>
       parse_attendee a = Ok [(''email'', jget_or_null p ''email''), (''name'', jget_or_null p ''name''),
         (''status'', JStr st), (''notes'', JNull)])"
proof -
  have "google_to_event_time gl (sub_dict d ''start'') (sub_dict d ''end'') = Ok (ev_start e, ev_end e, False)"
    using dump_read_times [OF assms(1-3)] assms(4,5) by simp
  moreover obtain as a where "map_of d ''attendees'' = Some (JList as)" "JDict a \<in> set as" "dump_attendee p = Ok a"
    using assms(3,6,7) by (rule dump_event_attendee)
  ultimately show ?thesis using attendee_roundtrip [OF _ assms(7)] by blast
qed

text \<open>A library whose texts are as long as the time they stand for.\<close>

definition unary :: "int \<Rightarrow> string" where
  "unary n = (if n \<ge> 0 then CHR ''+'' else CHR ''-'') # replicate (nat \<bar>n\<bar>) CHR ''x''"

definition unary_val :: "string \<Rightarrow> int" where
  "unary_val s = (case s of [] \<Rightarrow> 0 | c # t \<Rightarrow> if c = CHR ''+'' then int (length t) else - int (length t))"

lemma unary_val_unary: "unary_val (unary n) = n"
  by (simp add: unary_def unary_val_def)

definition unary_google :: google_lib where
  "unary_google = sample_google\<lparr>
     gl_time := (\<lambda>j. case j of JStr (c # s) \<Rightarrow> Ok (if c = CHR ''d'' then unary_val s * microday else unary_val s)
                 | _ \<Rightarrow> Raise ParserError),
     gl_iso_text := (\<lambda>t. CHR ''t'' # unary t), gl_date_text := (\<lambda>t. CHR ''d'' # unary (t div microday))\<rparr>"

lemma unary_google_ok: "key_order (gl_order unary_google)" "reads_back unary_google"
  by (simp_all add: unary_google_def sample_google_def sample_key_order reads_back_def unary_val_unary day_of_def)

theorem dumped_event_roundtrip_witness:
  "\<exists>d. dump_event unary_google ((sample_event ''a'' 5)\<lparr>ev_participants := [person ''a@x'' ''maybe'']\<rparr>) = Ok d \<and>
     google_to_event_time unary_google (sub_dict d ''start'') (sub_dict d ''end'') = Ok (5, 15, False)"
proof -
  let ?e = "(sample_event ''a'' 5)\<lparr>ev_participants := [person ''a@x'' ''maybe'']\<rparr>"
  obtain d where d: "dump_event unary_google ?e = Ok d"
    by (simp add: dump_event_def dump_attendee_def person_def jtext_def inverse_status_map_def STATUS_MAP_def
        Let_def event_samples)
  from dumped_event_roundtrip [OF unary_google_ok d, of "person ''a@x'' ''maybe''" "''maybe''"] d show ?thesis
    by (simp add: event_samples person_def)
qed

text \<open>
  An all-day event of several days is one day shorter when it comes back: the day after the last is what Google's end
  means, but the last day is written, and one day is taken off on the way back.
\<close>

theorem all_day_event_shrinks:
  assumes "key_order (gl_order gl)" and "reads_back gl" and "dump_event gl e = Ok d"
    and "ev_all_day e" and "day_of (ev_start e) < day_of (ev_end e)"
  shows "google_to_event_time gl (sub_dict d ''start'') (sub_dict d ''end'') =
    Ok (day_of (ev_start e), day_of (ev_end e) - microday, True)"
  using dump_read_times [OF assms(1-3)] assms(4,5) days_apart [OF assms(5)] by (simp add: Let_def)

theorem all_day_event_shrinks_witness:
  "\<exists>d. dump_event unary_google ((sample_event ''a'' 0)\<lparr>ev_end := microday, ev_all_day := True\<rparr>) = Ok d \<and>
     google_to_event_time unary_google (sub_dict d ''start'') (sub_dict d ''end'') = Ok (0, 0, True)"
proof -
  let ?e = "(sample_event ''a'' 0)\<lparr>ev_end := microday, ev_all_day := True\<rparr>"
  obtain d where d: "dump_event unary_google ?e = Ok d"
    by (simp add: dump_event_def event_samples)
  have "day_of (ev_start ?e) < day_of (ev_end ?e)" by (simp add: day_of_def microday_def event_samples)
  from all_day_event_shrinks [OF unary_google_ok d _ this] d show ?thesis
    by (simp add: event_samples day_of_def microday_def)
qed

text \<open>
  A dictionary with the key \<open>object\<close>, as the API itself writes it, is rejected as a time, although the code means
  to ignore that key: it removes the letters of the word instead.
\<close>

theorem object_key_rejected:
  assumes "key_order order" and "''object'' \<in> fst ` set raw"
  shows "parse_as_when order parse_utc raw = Raise (ValueError ''When object had invalid keys.'')"
  by (rule object_key_invalid [OF assms])

theorem object_key_rejected_witness:
  "parse_as_when sample_order (\<lambda>t. Ok t) [(''object'', 0), (''time'', 5)] = Raise (ValueError ''When object had invalid keys.'')"
  by (rule object_key_rejected [OF sample_key_order]) simp

section \<open>Recurring events\<close>

text \<open>
  C18: What a range shows of a recurring event, compared with a wider one: everything the wider one shows inside of it, and
  beyond that just occurrences at their old times whose override lies in the wider range but not in this one. A time of
  the rule that is not excluded is shown exactly if no override of it lies inside the range, so an occurrence that was moved or
  cancelled out of a range is still shown in it.
\<close>

theorem expansion_windows:
  assumes "\<And>r ex a b. set (rl_between lib r ex a b) = {u \<in> occ r. a \<le> u \<and> u \<le> b \<and> u \<notin> set ex}"
    and "is_recurring_event e" and "parse_rrule lib e = Some r" and "parse_exdate lib e = Ok ex" and "0 \<le> event_length e"
    and "all_events lib now events e (Some s) (Some t) = Ok evs" and "all_events lib now events e (Some s') (Some t') = Ok wide"
    and "s' \<le> s" and "t \<le> t'"
  shows "(\<forall>x\<in>set wide. in_range s t x \<longrightarrow> x \<in> set evs) \<and>
    (\<forall>x\<in>set evs - set wide. \<exists>u y. s \<le> u \<and> u \<le> t \<and> x = inflated_event lib e u \<and>
       y \<in> set events \<and> overrides_at e u y \<and> in_range s' t' y \<and> \<not> in_range s t y) \<and>
    (\<forall>u\<in>occ r. s \<le> u \<and> u \<le> t \<and> u \<notin> set (map (\<lambda>(d, z). if ev_all_day e then rl_naive lib d z else d) ex) \<longrightarrow>
       (inflated_event lib e u \<in> set evs \<longleftrightarrow> (\<forall>y\<in>set events. overrides_at e u y \<longrightarrow> \<not> in_range s t y)))"
proof -
  note N = all_events_window [OF assms(1-4,6)] and W = all_events_window [OF assms(1-4,7)]
  have wider: "in_range s' t' x" if "in_range s t x" for x using that assms(8,9) by (simp add: in_range_def)
  have shape: "ev_start (inflated_event lib e u) = u" "ev_end (inflated_event lib e u) = u + event_length e"
    "master_of (inflated_event lib e u) = None" for u
    by (simp_all add: inflated_event_def base_update_def validated_def master_of_def)
  let ?ex = "set (map (\<lambda>(d, z). if ev_all_day e then rl_naive lib d z else d) ex)"
  have row: "x \<in> set evs"
    if "x \<in> set events" "master_of x = Some (ev_id e)" "ev_calendar_id x = ev_calendar_id e" "in_range s t x" "\<not> event_cancelled x" for x
    unfolding N using that by blast
  have time: "inflated_event lib e u \<in> set evs"
    if "u \<in> occ r" "s \<le> u" "u \<le> t" "u \<notin> ?ex" "\<forall>y\<in>set events. overrides_at e u y \<longrightarrow> \<not> in_range s t y" for u
    unfolding N using that by blast
  have "x \<in> set evs" if "x \<in> set wide" "in_range s t x" for x
    using that(1) unfolding W
  proof (elim disjE bexE conjE)
    fix u
    assume u: "u \<in> occ r" "u \<notin> ?ex" "x = inflated_event lib e u" "\<forall>y\<in>set events. overrides_at e u y \<longrightarrow> \<not> in_range s' t' y"
    with that(2) assms(5) have "s \<le> u" "u \<le> t" by (simp_all add: in_range_def shape)
    with time [of u] u wider show ?thesis by blast
  qed (use row that(2) in blast)
  moreover have "\<exists>u y. s \<le> u \<and> u \<le> t \<and> x = inflated_event lib e u \<and>
       y \<in> set events \<and> overrides_at e u y \<and> in_range s' t' y \<and> \<not> in_range s t y" if "x \<in> set evs" "x \<notin> set wide" for x
    using that(1) unfolding N
  proof (elim disjE bexE conjE)
    fix u
    assume u: "u \<in> occ r" "s \<le> u" "u \<le> t" "u \<notin> ?ex" "x = inflated_event lib e u" "\<forall>y\<in>set events. overrides_at e u y \<longrightarrow> \<not> in_range s t y"
    moreover have "s' \<le> u" "u \<le> t'" using u(2,3) assms(8,9) by simp_all
    ultimately have "\<exists>y. y \<in> set events \<and> overrides_at e u y \<and> in_range s' t' y" using that(2) unfolding W by blast
    with u show ?thesis by blast
  qed (use wider that(2) W in blast)
  moreover have "inflated_event lib e u \<in> set evs \<longleftrightarrow> (\<forall>y\<in>set events. overrides_at e u y \<longrightarrow> \<not> in_range s t y)"
    if "u \<in> occ r" "s \<le> u" "u \<le> t" "u \<notin> ?ex" for u
  proof
    assume "inflated_event lib e u \<in> set evs"
    then show "\<forall>y\<in>set events. overrides_at e u y \<longrightarrow> \<not> in_range s t y"
      unfolding N
    proof (elim disjE bexE conjE)
      fix v
      assume v: "inflated_event lib e u = inflated_event lib e v" "\<forall>y\<in>set events. overrides_at e v y \<longrightarrow> \<not> in_range s t y"
      from v(1) have "u = v" by (metis shape(1))
      with v(2) show ?thesis by simp
    qed (simp add: shape(3))
  qed (use time that in blast)
  ultimately show ?thesis by blast
qed

definition sample_rules :: "datetime list rrule_lib" where
  "sample_rules = \<lparr>rl_literal = (\<lambda>s. Some (Inl s)), rl_repr = (\<lambda>x. case x of Inl s \<Rightarrow> s | Inr l \<Rightarrow> concat l),
     rl_date = (\<lambda>s. Ok 0), rl_datetime = (\<lambda>s. Ok 0), rl_in_zone = (\<lambda>t z. Ok t), rl_naive = (\<lambda>t z. t),
     rl_zone = (\<lambda>z. Ok ()), rl_zones_table = (\<lambda>z. None), rl_rule = (\<lambda>s t z d. Ok [t, t + 100, t + 200]),
     rl_between = (\<lambda>ts ex s e. filter (\<lambda>t. t \<notin> set ex \<and> s \<le> t \<and> t \<le> e) ts), rl_next_year = (\<lambda>t. t + 1000),
     rl_stamp = (\<lambda>t. ''t'')\<rparr>"

definition sample_master :: event_row where
  "sample_master = (stored_event 1 1 ''m'' 50)\<lparr>ev_kind := Recurring \<lparr>ri_rrule = Some ''RRULE:X'', ri_exdate = None,
     ri_until = None, ri_start_timezone = None\<rparr>\<rparr>"

text \<open>The occurrence at 150 was moved to 160.\<close>

definition sample_override :: "string \<Rightarrow> datetime \<Rightarrow> event_row" where
  "sample_override st t = (stored_event 2 1 ''m_1'' t)\<lparr>ev_status := st, ev_kind := Override \<lparr>ov_master_id = Some 1,
     ov_master_uid = Some ''m'', ov_original_start = Some 150\<rparr>\<rparr>"

lemmas recurrence_samples = sample_rules_def sample_master_def sample_override_def event_samples

text \<open>The occurrence at 150 was moved to 400, out of the range from 100 to 200, which still shows it at 150.\<close>

theorem expansion_windows_witness:
  "\<exists>evs wide. all_events sample_rules 0 [sample_master, sample_override ''confirmed'' 400] sample_master (Some 100) (Some 200) = Ok evs \<and>
     all_events sample_rules 0 [sample_master, sample_override ''confirmed'' 400] sample_master (Some 0) (Some 1000) = Ok wide \<and>
     map ev_start evs = [150] \<and> map ev_start wide = [50, 250, 400] \<and> (\<forall>x\<in>set wide. in_range 100 200 x \<longrightarrow> x \<in> set evs)"
proof -
  let ?events = "[sample_master, sample_override ''confirmed'' 400]"
  have "(case all_events sample_rules 0 ?events sample_master (Some 100) (Some 200) of Inl e \<Rightarrow> False | Inr evs \<Rightarrow> map ev_start evs = [150])"
    "(case all_events sample_rules 0 ?events sample_master (Some 0) (Some 1000) of
        Inl e \<Rightarrow> False | Inr evs \<Rightarrow> map ev_start evs = [50, 250, 400])"
    "(case parse_rrule sample_rules sample_master of None \<Rightarrow> False | Some r \<Rightarrow> True)"
    "parse_exdate sample_rules sample_master = Ok []" "is_recurring_event sample_master" "0 \<le> event_length sample_master"
    by code_simp+
  then obtain evs wide r where run: "all_events sample_rules 0 ?events sample_master (Some 100) (Some 200) = Ok evs"
      "all_events sample_rules 0 ?events sample_master (Some 0) (Some 1000) = Ok wide"
    and starts: "map ev_start evs = [150]" "map ev_start wide = [50, 250, 400]"
    and r: "parse_rrule sample_rules sample_master = Some r"
    by (auto split: sum.split_asm option.split_asm)
  have law: "set (rl_between sample_rules r ex a b) = {u \<in> set r. a \<le> u \<and> u \<le> b \<and> u \<notin> set ex}" for r ex a b
    by (auto simp: sample_rules_def)
  from expansion_windows [of sample_rules set, OF law \<open>is_recurring_event sample_master\<close> r
      \<open>parse_exdate sample_rules sample_master = Ok []\<close> \<open>0 \<le> event_length sample_master\<close> run] starts run
  show ?thesis by (intro exI [of _ evs] exI [of _ wide]) simp
qed

text \<open>
  An occurrence that was cancelled reappears when the range begins at its start: the rule's times include the
  bound, the overrides do not.
\<close>

theorem cancelled_occurrence_reappears:
  "(case all_events sample_rules 0 [sample_master, sample_override ''cancelled'' 150] sample_master (Some 100) None of
      Inl e \<Rightarrow> False | Inr evs \<Rightarrow> map ev_start evs = [250]) \<and>
   (case all_events sample_rules 0 [sample_master, sample_override ''cancelled'' 150] sample_master (Some 150) None of
      Inl e \<Rightarrow> False | Inr evs \<Rightarrow> map ev_start evs = [150, 250] \<and> \<not> list_ex event_cancelled evs)"
  by code_simp

section \<open>Invitations and replies\<close>

text \<open>
  Merging the participants of an update loses and invents nobody: the addresses, in lower case, are those of the
  event and of the update together; and what a participant of the update says of itself, unless it has
  not replied, is in the result.
\<close>

theorem participants_merged:
  assumes "\<forall>p\<in>set own. mailed p" and "\<forall>p\<in>set other. mailed p" and "distinct (map raw_email other)"
    and "partial_participants_merge own other = Ok ps"
  shows "address_of ` set ps = address_of ` set own \<union> address_of ` set other \<and>
    (\<forall>p\<in>set other. \<forall>k v. \<not> no_reply p \<and> map_of p k = Some v \<and> k \<noteq> ''email'' \<and> v \<noteq> JNull \<and> v \<noteq> JStr [] \<longrightarrow>
      (\<exists>q\<in>set ps. address_of q = address_of p \<and> map_of q k = Some v))"
proof (intro conjI ballI allI impI)
  show "address_of ` set ps = address_of ` set own \<union> address_of ` set other"
    by (rule merge_keeps_everyone(1) [OF assms(1,2,4)])
  fix p k v
  assume "p \<in> set other"
    and "\<not> no_reply p \<and> map_of p k = Some v \<and> k \<noteq> ''email'' \<and> v \<noteq> JNull \<and> v \<noteq> JStr []"
  then show "\<exists>q\<in>set ps. address_of q = address_of p \<and> map_of q k = Some v"
    using merge_keeps_everyone(2) [OF assms(1,2,4,3)] by blast
qed

theorem participants_merged_witness:
  "\<exists>ps. partial_participants_merge [person ''a@x'' ''noreply'', person ''b@x'' ''yes''] [person ''a@x'' ''no''] = Ok ps \<and>
     address_of ` set ps = address_of ` {person ''a@x'' ''noreply'', person ''b@x'' ''yes''} \<union> {''a@x''} \<and>
     (\<exists>q\<in>set ps. address_of q = ''a@x'' \<and> map_of q ''status'' = Some (JStr ''no''))"
proof -
  let ?own = "[person ''a@x'' ''noreply'', person ''b@x'' ''yes'']"
  let ?other = "[person ''a@x'' ''no'']"
  have "case partial_participants_merge ?own ?other of Inl e \<Rightarrow> False | Inr ps \<Rightarrow> True" by code_simp
  then obtain ps where ps: "partial_participants_merge ?own ?other = Ok ps" by (auto split: sum.split_asm)
  have a: "address_of (person ''a@x'' ''no'') = ''a@x''" by code_simp
  have m: "\<forall>p\<in>set ?own. mailed p" "\<forall>p\<in>set ?other. mailed p" "distinct (map raw_email ?other)"
    by (simp_all add: mailed_person)
  have "\<not> no_reply (person ''a@x'' ''no'')" "map_of (person ''a@x'' ''no'') ''status'' = Some (JStr ''no'')"
    by (simp_all add: no_reply_def person_def)
  with participants_merged [OF m ps] a ps show ?thesis by auto
qed

text \<open>
  The merge looks participants up by the address as it was written but stores it in lower case, so the same person
  written in two ways is listed twice.
\<close>

theorem participant_twice:
  "(case partial_participants_merge [person ''a@x'' ''noreply''] [person ''A@x'' ''yes''] of
      Inl e \<Rightarrow> False
    | Inr ps \<Rightarrow> map (\<lambda>p. (map_of p ''email'', map_of p ''status'')) ps =
        [(Some (JStr ''a@x''), Some (JStr ''noreply'')), (Some (JStr ''a@x''), Some (JStr ''yes''))])"
  by code_simp

text \<open>
  C19: Invitations by mail never take an event back: after any invitations, in any order, every stored event is still
  there with a sequence number at least as high as before.
\<close>

theorem invites_move_forward:
  assumes "t_inv ev_id events" and "process_invites acc mid invites events = Ok events'" and "x \<in> set events"
  shows "\<exists>y\<in>set events'. ev_id y = ev_id x \<and> seq_le (ev_sequence_number x) (ev_sequence_number y)"
  using process_invites_no_older [OF assms(1,2)] assms(3) by (simp add: no_older_def)

definition sample_ics_account :: ics_account where
  "sample_ics_account = \<lparr>ia_namespace_id = 1, ia_email = ''me@x'', ia_provider = ''custom'', ia_emailed_calendar = 7\<rparr>"

theorem invites_move_forward_witness:
  "\<exists>events'. process_invites sample_ics_account 3 [(sample_event ''a'' 9)\<lparr>ev_sequence_number := Some 2\<rparr>,
       (sample_event ''a'' 4)\<lparr>ev_sequence_number := Some 1\<rparr>] [stored_event 1 7 ''a'' 5] = Ok events' \<and>
     map ev_start events' = [9] \<and> (\<exists>y\<in>set events'. ev_id y = 1 \<and> seq_le (Some 0) (ev_sequence_number y))"
proof -
  let ?invites = "[(sample_event ''a'' 9)\<lparr>ev_sequence_number := Some 2\<rparr>, (sample_event ''a'' 4)\<lparr>ev_sequence_number := Some 1\<rparr>]"
  have "case process_invites sample_ics_account 3 ?invites [stored_event 1 7 ''a'' 5] of
      Inl e \<Rightarrow> False | Inr events' \<Rightarrow> map ev_start events' = [9]" by code_simp
  then obtain events' where run: "process_invites sample_ics_account 3 ?invites [stored_event 1 7 ''a'' 5] = Ok events'"
    "map ev_start events' = [9]" by (auto split: sum.split_asm)
  have "\<exists>y\<in>set events'. ev_id y = ev_id (stored_event 1 7 ''a'' 5) \<and>
      seq_le (ev_sequence_number (stored_event 1 7 ''a'' 5)) (ev_sequence_number y)"
    by (rule invites_move_forward [OF _ run(1)]) (simp_all add: t_inv_def)
  with run show ?thesis by (simp add: event_samples)
qed

text \<open>
  A reply changes nothing but who takes part: after any replies every stored event is still there with all its other
  fields, and copies of invitations are not changed at all.
\<close>

theorem replies_change_participants_only:
  assumes "t_inv ev_id events" and "process_nylas_rsvps acc mid rsvps events = Ok (events', actions)" and "x \<in> set events"
  shows "\<exists>ps. x\<lparr>ev_participants := ps\<rparr> \<in> set events' \<and>
    (ev_calendar_id x = Some (ia_emailed_calendar acc) \<longrightarrow> ps = ev_participants x)"
  using process_nylas_rsvps_only_participants [OF assms(1,2)] assms(3) by (simp add: only_participants_def)

theorem replies_change_participants_only_witness:
  "\<exists>events' actions ps. process_nylas_rsvps sample_ics_account 3
       [(sample_event ''abc@nylas.com'' 9)\<lparr>ev_participants := [person ''a@x'' ''yes'']\<rparr>] [stored_event 1 2 ''abc'' 5] = Ok (events', actions) \<and>
     actions = [1] \<and> map (\<lambda>x. length (ev_participants x)) events' = [1] \<and>
     (stored_event 1 2 ''abc'' 5)\<lparr>ev_participants := ps\<rparr> \<in> set events'"
proof -
  let ?run = "process_nylas_rsvps sample_ics_account 3
    [(sample_event ''abc@nylas.com'' 9)\<lparr>ev_participants := [person ''a@x'' ''yes'']\<rparr>] [stored_event 1 2 ''abc'' 5]"
  have "case ?run of Inl e \<Rightarrow> False | Inr (events', actions) \<Rightarrow>
      actions = [1] \<and> map (\<lambda>x. length (ev_participants x)) events' = [1]" by code_simp
  then obtain events' actions where run: "?run = Ok (events', actions)"
    "actions = [1] \<and> map (\<lambda>x. length (ev_participants x)) events' = [1]" by (auto split: sum.split_asm prod.split_asm)
  from replies_change_participants_only [OF _ run(1), of "stored_event 1 2 ''abc'' 5"] run show ?thesis
    by (auto simp: t_inv_def)
qed

end
