(* ===== verification/Sync_Monitor.thy ===== *)
theory Sync_Monitor
  imports Mail_Gc Folder_Engine
begin

text \<open>
  The monitor of an account's mail sync (\<open>inbox/mailsync/backends/imap/monitor.py\<close>,
  \<open>inbox/mailsync/backends/base.py\<close> and the monitor of \<open>inbox/mailsync/backends/gmail.py\<close>):
  it mirrors the folders and labels of the account in the database, starts an engine for every
  folder to sync, one after the other, and stops them all when it is killed.
\<close>

section \<open>Folders of a generic account\<close>

definition account_folders :: "store \<Rightarrow> nat \<Rightarrow> folder_row list" where
  "account_folders db aid = filter (\<lambda>f. fld_account_id f = aid) (folders db)"

text \<open>The dictionary of the local folders by name: of several rows with a name it keeps the last.\<close>

definition local_folders :: "store \<Rightarrow> nat \<Rightarrow> folder_row list" where
  "local_folders db aid =
     (let rows = account_folders db aid
      in filter (\<lambda>f. dict_of (map (\<lambda>g. (fld_name g, g)) rows) (fld_name f) = Some f) rows)"

definition remote_names :: "raw_folder list \<Rightarrow> string set" where
  "remote_names raws = (\<lambda>r. sanitize_name (fst r)) ` set raws"

definition discard_folder :: "folder_row \<Rightarrow> store \<Rightarrow> store" where
  "discard_folder f db =
     (case fld_category_id f of
        None \<Rightarrow> db
      | Some cid \<Rightarrow> (if t_get cat_id (categories db) cid = None then db else delete_category db cid))"

definition discarded :: "store \<Rightarrow> nat \<Rightarrow> raw_folder list \<Rightarrow> folder_row list" where
  "discarded db aid raws = filter (\<lambda>f. fld_name f \<notin> remote_names raws) (local_folders db aid)"

definition save_raw_folder :: "account_row \<Rightarrow> raw_folder \<Rightarrow> store \<Rightarrow> store res" where
  "save_raw_folder acc raw db =
     res_bind (folder_find_or_create db acc (fst raw) (snd raw)) (\<lambda>(db1, f).
       Ok (if Some (fld_canonical_name f) \<noteq> snd raw then set_folder_canonical_name db1 f (snd raw) else db1))"

definition run_folders :: "nat set \<Rightarrow> store \<Rightarrow> store" where
  "run_folders fids db =
     db\<lparr>fsyncs := map (\<lambda>s. if fs_folder_id s \<in> fids then s\<lparr>fs_sync_should_run := True\<rparr> else s) (fsyncs db)\<rparr>"

definition save_folder_names :: "nat \<Rightarrow> raw_folder list \<Rightarrow> store \<Rightarrow> store res" where
  "save_folder_names aid raws db =
     (case t_get acc_id (accounts db) aid of
        None \<Rightarrow> Raise AttributeError
      | Some acc \<Rightarrow>
          res_bind (py_assert (Some ''inbox'' \<in> snd ` set raws)) (\<lambda>_.
            let gone = discarded db aid raws;
                kept = filter (\<lambda>f. fld_name f \<in> remote_names raws) (local_folders db aid)
            in res_bind (res_fold (save_raw_folder acc) raws (fold discard_folder gone db))
                 (\<lambda>db1. Ok (run_folders (fld_id ` set kept) db1))))"

section \<open>Folders and labels of a Gmail account\<close>

definition rename_category :: "store \<Rightarrow> nat \<Rightarrow> string \<Rightarrow> store" where
  "rename_category db cid name =
     (case t_get cat_id (categories db) cid of
        None \<Rightarrow> db
      | Some c \<Rightarrow> db\<lparr>categories := t_put cat_id (categories db) (c\<lparr>cat_display_name := sanitize_name name\<rparr>)\<rparr>)"

definition folder_category :: "store \<Rightarrow> folder_row \<Rightarrow> category_row option" where
  "folder_category db f = Option.bind (fld_category_id f) (t_get cat_id (categories db))"

definition handle_raw_folder_change :: "account_row \<Rightarrow> string \<Rightarrow> string \<Rightarrow> store \<Rightarrow> store res" where
  "handle_raw_folder_change acc name role db =
     (case query_first (filter (\<lambda>f. fld_canonical_name f = role) (account_folders db (acc_id acc))) of
        None \<Rightarrow> res_bind (folder_find_or_create db acc name (Some role)) (\<lambda>(db1, f). Ok db1)
      | Some f \<Rightarrow>
          (let f1 = (if fld_name f \<noteq> name then f\<lparr>fld_name := sanitize_name name\<rparr> else f);
               db1 = db\<lparr>folders := t_put fld_id (folders db) f1\<rparr>
           in case folder_category db1 f1 of
                Some c \<Rightarrow> Ok (if cat_display_name c \<noteq> name then rename_category db1 (cat_id c) name else db1)
              | None \<Rightarrow>
                  res_bind (category_find_or_create db1 (acc_namespace_id acc) (Some role) name ''folder'')
                    (\<lambda>(db2, c). Ok (db2\<lparr>folders := t_put fld_id (folders db2) (f1\<lparr>fld_category_id := Some (cat_id c)\<rparr>)\<rparr>))))"

text \<open>A label that was marked as deleted and is listed again is unmarked, and its category with it.\<close>

definition mark_category :: "store \<Rightarrow> nat option \<Rightarrow> datetime \<Rightarrow> store res" where
  "mark_category db cid t =
     (case Option.bind cid (t_get cat_id (categories db)) of
        None \<Rightarrow> Raise AttributeError
      | Some c \<Rightarrow> Ok (db\<lparr>categories := t_put cat_id (categories db) (c\<lparr>cat_deleted_at := t\<rparr>)\<rparr>))"

definition mark_label :: "label_row \<Rightarrow> datetime option \<Rightarrow> store \<Rightarrow> store res" where
  "mark_label l t db =
     mark_category (db\<lparr>labels := t_put lbl_id (labels db) (l\<lparr>lbl_deleted_at := t\<rparr>)\<rparr>)
       (lbl_category_id l) (case t of None \<Rightarrow> EPOCH | Some now \<Rightarrow> now)"

definition folder_roles :: "string set" where
  "folder_roles = {''all'', ''spam'', ''trash''}"

definition save_raw_label :: "account_row \<Rightarrow> raw_folder \<Rightarrow> store \<times> nat list \<Rightarrow> (store \<times> nat list) res" where
  "save_raw_label acc raw s =
     (case (raw, s) of ((name, role), (db, current)) \<Rightarrow>
        if role = Some ''starred'' then Ok (db, current)
        else res_bind (case role of
                         Some r \<Rightarrow> (if r \<in> folder_roles then handle_raw_folder_change acc name r db else Ok db)
                       | None \<Rightarrow> Ok db) (\<lambda>db1.
             res_bind (label_find_or_create db1 acc name role) (\<lambda>(db2, l).
             res_bind (if lbl_deleted_at l \<noteq> None then mark_label l None db2 else Ok db2) (\<lambda>db3.
               Ok (db3, if lbl_id l \<in> set current then current else current @ [lbl_id l])))))"

definition live_labels :: "store \<Rightarrow> nat \<Rightarrow> label_row list" where
  "live_labels db aid = filter (\<lambda>l. lbl_account_id l = aid \<and> lbl_deleted_at l = None) (labels db)"

definition set_sync_should_run_bit :: "account_row \<Rightarrow> store \<Rightarrow> store" where
  "set_sync_should_run_bit acc db = run_folders (fld_id ` set (account_folders db (acc_id acc))) db"

definition mark_deleted_label :: "datetime \<Rightarrow> nat \<Rightarrow> store \<Rightarrow> store res" where
  "mark_deleted_label now lid db =
     (case t_get lbl_id (labels db) lid of
        None \<Rightarrow> Ok db
      | Some l \<Rightarrow> if lbl_canonical_name l \<noteq> [] then Ok db else mark_label l (Some now) db)"

definition mark_deleted_labels :: "datetime \<Rightarrow> nat list \<Rightarrow> store \<Rightarrow> store res" where
  "mark_deleted_labels now = res_fold (mark_deleted_label now)"

text \<open>
  The result holds the names of the labels a rename handler is started for. New labels are
  committed before labels are marked as deleted: a failure of the second part keeps the first.
\<close>

definition gmail_save_folder_names ::
  "datetime \<Rightarrow> nat \<Rightarrow> raw_folder list \<Rightarrow> store \<Rightarrow> store \<times> string list res" where
  "gmail_save_folder_names now aid raws db =
     (case t_get acc_id (accounts db) aid of
        None \<Rightarrow> (db, Raise AttributeError)
      | Some acc \<Rightarrow>
          (let old = map lbl_id (live_labels db aid)
           in case res_fold (save_raw_label acc) raws (db, []) of
                Inl e \<Rightarrow> (db, Raise e)
              | Inr (db1, current) \<Rightarrow>
                  (let new = filter (\<lambda>i. i \<notin> set old) current;
                       renamed = (if old = [] then []
                                  else map lbl_name (List.map_filter (t_get lbl_id (labels db1)) new))
                   in case mark_deleted_labels now (filter (\<lambda>i. i \<notin> set current) old)
                             (set_sync_should_run_bit acc db1) of
                        Inl e \<Rightarrow> (db1, Raise e)
                      | Inr db2 \<Rightarrow> (db2, Ok renamed))))"

section \<open>The monitor\<close>

text \<open>
  \<open>mn_engines\<close> is the group of the engines that run, each with a handle; the group drops an
  engine when it exits. \<open>mn_started\<close> lists the folder names and handles of all engines ever
  started.
\<close>

record monitor =
  mn_saved :: "raw_folder list option"
  mn_engines :: "(nat \<times> engine) list"
  mn_next :: nat
  mn_started :: "(string \<times> nat) list"
  mn_delete_handler :: bool
  mn_renames :: "string list"

record mon_sys =
  my_account_id :: nat
  my_namespace_id :: nat
  my_gmail :: bool
  my_db :: store
  my_client :: crispin
  my_mon :: monitor

definition on_monitor :: "(monitor \<Rightarrow> monitor) \<Rightarrow> mon_sys \<Rightarrow> mon_sys" where
  "on_monitor f s = s\<lparr>my_mon := f (my_mon s)\<rparr>"

definition client_sync_folders :: "listing res \<Rightarrow> (mon_sys, string list) st" where
  "client_sync_folders listing s =
     (case (if my_gmail s then gmail_sync_folders else generic_sync_folders) listing (my_client s) of
        (cr, r) \<Rightarrow> (s\<lparr>my_client := cr\<rparr>, r))"

definition save_names :: "datetime \<Rightarrow> raw_folder list \<Rightarrow> (mon_sys, unit) st" where
  "save_names now raws s =
     (if my_gmail s
      then case gmail_save_folder_names now (my_account_id s) raws (my_db s) of
             (db, Inl e) \<Rightarrow> (s\<lparr>my_db := db\<rparr>, Raise e)
           | (db, Inr renamed) \<Rightarrow>
               (on_monitor (\<lambda>m. m\<lparr>mn_renames := mn_renames m @ renamed\<rparr>) (s\<lparr>my_db := db\<rparr>), Ok ())
      else case save_folder_names (my_account_id s) raws (my_db s) of
             Inl e \<Rightarrow> (s, Raise e)
           | Inr db \<Rightarrow> (s\<lparr>my_db := db\<rparr>, Ok ()))"

text \<open>
  One attempt: a connection from the pool, which is the one used before, a new one or none, and
  what it answers to the two listings.
\<close>

record prepare_try =
  pt_now :: datetime
  pt_client :: "crispin option res"
  pt_listing :: "listing res"
  pt_sync_listing :: "listing res"

definition pool_client :: "crispin option res \<Rightarrow> (mon_sys, unit) st" where
  "pool_client c s =
     (case c of
        Inl e \<Rightarrow> (s, Raise e)
      | Inr None \<Rightarrow> (s, Ok ())
      | Inr (Some cr) \<Rightarrow> (s\<lparr>my_client := cr\<rparr>, Ok ()))"

definition list_folders :: "listing res \<Rightarrow> (mon_sys, raw_folder list) st" where
  "list_folders listing s = (s, res_bind listing (crispin_folders (my_client s)))"

definition save_if_new :: "datetime \<Rightarrow> raw_folder list \<Rightarrow> (mon_sys, unit) st" where
  "save_if_new now raws s =
     (if mn_saved (my_mon s) = Some raws then (s, Ok ())
      else st_bind (save_names now raws) (\<lambda>_ t. (on_monitor (\<lambda>m. m\<lparr>mn_saved := Some raws\<rparr>) t, Ok ())) s)"

definition prepare_sync_once :: "prepare_try \<Rightarrow> (mon_sys, string list) st" where
  "prepare_sync_once inp s =
     (case pool_client (pt_client inp) s of
        (s1, Inl e) \<Rightarrow> (s1, Raise e)
      | (s1, Inr _) \<Rightarrow>
          (case list_folders (pt_listing inp) s1 of
             (s2, Inl e) \<Rightarrow> (s2, Raise e)
           | (s2, Inr raws) \<Rightarrow>
               (case client_sync_folders (pt_sync_listing inp) s2 of
                  (s3, Inl e) \<Rightarrow> (s3, Raise e)
                | (s3, Inr to_sync) \<Rightarrow>
                    (case save_if_new (pt_now inp) raws s3 of
                       (s4, Inl e) \<Rightarrow> (s4, Raise e)
                     | (s4, Inr _) \<Rightarrow> (s4, Ok to_sync)))))"

lemma prepare_sync_once_binds:
  "prepare_sync_once inp =
     st_bind (pool_client (pt_client inp)) (\<lambda>_.
     st_bind (list_folders (pt_listing inp)) (\<lambda>raws.
     st_bind (client_sync_folders (pt_sync_listing inp)) (\<lambda>to_sync.
     st_bind (save_if_new (pt_now inp) raws) (\<lambda>_. st_ok to_sync))))"
  by (rule ext) (simp add: prepare_sync_once_def st_bind_def split: prod.split sum.split)

definition prepare_sync :: "prepare_try list \<Rightarrow> mon_sys \<Rightarrow> mon_sys \<times> string list res option" where
  "prepare_sync tries = retry_crispin prepare_sync_once tries"

section \<open>Starting the engines\<close>

definition new_engine :: "nat \<Rightarrow> nat \<Rightarrow> string \<Rightarrow> store \<Rightarrow> engine res" where
  "new_engine aid nid name db =
     (case query_one (filter (\<lambda>f. fld_name f = sanitize_name name) (account_folders db aid)) of
        Inl e \<Rightarrow> Raise (if e = NoResultFound then MailsyncError else e)
      | Inr f \<Rightarrow>
          Ok \<lparr>en_account_id = aid, en_namespace_id = nid, en_folder_id = fld_id f, en_folder_name = name,
              en_folder_role = fld_canonical_name f, en_state = None, en_uidinvalid_count = 0,
              en_uidvalidity = None, en_uidnext = None, en_highestmodseq = None, en_last_slow_refresh = None,
              en_last_fast_refresh = None, en_flags_fetch_results = Map.empty,
              en_is_initial_sync = (fld_initial_sync_end f = None),
              en_is_first_sync = (fld_initial_sync_start f = None),
              en_is_first_message = (fld_initial_sync_start f = None), en_should_idle = None\<rparr>)"

definition start_engine :: "engine \<Rightarrow> monitor \<Rightarrow> monitor" where
  "start_engine e m =
     m\<lparr>mn_engines := mn_engines m @ [(mn_next m, e)],
       mn_started := mn_started m @ [(en_folder_name e, mn_next m)], mn_next := Suc (mn_next m)\<rparr>"

definition exit_engines :: "nat set \<Rightarrow> monitor \<Rightarrow> monitor" where
  "exit_engines hs m = m\<lparr>mn_engines := filter (\<lambda>(h, _). h \<notin> hs) (mn_engines m)\<rparr>"

text \<open>
  The wait for an engine ends when it polls or has exited; meanwhile other engines may exit, too.
  A wait is given by the handles that exit and whether the engine reaches the state \<open>poll\<close>;
  one that never ends gives \<open>None\<close>.
\<close>

type_synonym wait = "nat set \<times> bool"

definition wait_for :: "wait \<Rightarrow> nat \<Rightarrow> monitor \<Rightarrow> monitor option" where
  "wait_for w h m =
     (case w of (hs, polls) \<Rightarrow>
        if polls \<or> h \<in> hs \<or> h \<notin> fst ` set (mn_engines m) then Some (exit_engines hs m) else None)"

text \<open>The engines that ran before the folders were listed, by name.\<close>

definition running_engines :: "monitor \<Rightarrow> string \<rightharpoonup> nat" where
  "running_engines m = dict_of (map (\<lambda>(h, e). (en_folder_name e, h)) (mn_engines m))"

fun start_folders ::
  "(string \<Rightarrow> engine res) \<Rightarrow> (string \<rightharpoonup> nat) \<Rightarrow> string list \<Rightarrow> wait list \<Rightarrow> monitor \<Rightarrow> monitor \<times> unit res option" where
  "start_folders mk running [] ws m = (m, Some (Ok ()))"
| "start_folders mk running (name # names) [] m = (m, None)"
| "start_folders mk running (name # names) (w # ws) m =
     (case (case running name of Some h \<Rightarrow> Ok (m, h) | None \<Rightarrow> res_bind (mk name) (\<lambda>e. Ok (start_engine e m, mn_next m))) of
        Inl e \<Rightarrow> (m, Some (Raise e))
      | Inr (m1, h) \<Rightarrow>
          (case wait_for w h m1 of
             None \<Rightarrow> (m1, None)
           | Some m2 \<Rightarrow> start_folders mk running names ws m2))"

record round_input =
  rd_before :: "nat set"
  rd_prepare :: "prepare_try list"
  rd_during :: "nat set"
  rd_waits :: "wait list"

text \<open>
  One call of \<open>start_new_folder_sync_engines\<close>. Engines may exit before it and while the folders
  are listed and saved.
\<close>

definition start_new_folder_sync_engines :: "round_input \<Rightarrow> mon_sys \<Rightarrow> mon_sys \<times> unit res option" where
  "start_new_folder_sync_engines inp s =
     (let s0 = on_monitor (exit_engines (rd_before inp)) s;
          running = running_engines (my_mon s0)
      in case prepare_sync (rd_prepare inp) s0 of
           (s1, None) \<Rightarrow> (s1, None)
         | (s1, Some (Inl e)) \<Rightarrow> (s1, Some (Raise e))
         | (s1, Some (Inr names)) \<Rightarrow>
             (case start_folders (\<lambda>name. new_engine (my_account_id s) (my_namespace_id s) name (my_db s1)) running names
                     (rd_waits inp) (exit_engines (rd_during inp) (my_mon s1)) of
                (m, r) \<Rightarrow> (s1\<lparr>my_mon := m\<rparr>, r)))"

definition start_delete_handler :: "mon_sys \<Rightarrow> mon_sys" where
  "start_delete_handler = on_monitor (\<lambda>m. m\<lparr>mn_delete_handler := True\<rparr>)"

section \<open>The loop\<close>

text \<open>
  Rounds until one raises. A \<open>ValidationError\<close> marks the account and ends the sync
  normally; any other exception is passed on. \<open>None\<close>: the given rounds did not end it.
\<close>

record stop_info =
  sp_now :: datetime
  sp_user :: string
  sp_error :: "string \<times> string \<times> string"

definition invalidate :: "stop_info \<Rightarrow> account_row \<Rightarrow> account_row" where
  "invalidate sp a =
     update_sync_error (Some (sp_error sp)) (mark_invalid (sp_now sp) (sp_user sp) ''invalid credentials'' ''mail'' a)"

definition stop_invalid :: "stop_info \<Rightarrow> (mon_sys, unit) st" where
  "stop_invalid sp s =
     (case t_get acc_id (accounts (my_db s)) (my_account_id s) of
        None \<Rightarrow> (s, Raise AttributeError)
      | Some a \<Rightarrow> (s\<lparr>my_db := (my_db s)\<lparr>accounts := t_put acc_id (accounts (my_db s)) (invalidate sp a)\<rparr>\<rparr>, Ok ()))"

fun sync_rounds :: "stop_info \<Rightarrow> round_input list \<Rightarrow> mon_sys \<Rightarrow> mon_sys \<times> unit res option" where
  "sync_rounds sp [] s = (s, None)"
| "sync_rounds sp (inp # inps) s =
     (case start_new_folder_sync_engines inp s of
        (s1, None) \<Rightarrow> (s1, None)
      | (s1, Some (Inr u)) \<Rightarrow> sync_rounds sp inps s1
      | (s1, Some (Inl e)) \<Rightarrow>
          (if e = ValidationError then (let (s2, r) = stop_invalid sp s1 in (s2, Some r)) else (s1, Some (Raise e))))"

definition monitor_sync :: "stop_info \<Rightarrow> round_input list \<Rightarrow> mon_sys \<Rightarrow> mon_sys \<times> unit res option" where
  "monitor_sync sp inps s = sync_rounds sp inps (start_delete_handler s)"

section \<open>Stopping\<close>

text \<open>
  The status of each engine's folder is set to stopped, each in a transaction of its own, and
  then the engines are killed; an exception of the first part leaves them running.
\<close>

fun stop_statuses :: "datetime \<Rightarrow> engine list \<Rightarrow> store \<Rightarrow> store \<times> unit res" where
  "stop_statuses now [] db = (db, Ok ())"
| "stop_statuses now (e # es) db =
     (case save_status (stop_sync now) (en_account_id e) (en_folder_id e) db of
        Inl x \<Rightarrow> (db, Raise x)
      | Inr (db1, st) \<Rightarrow> stop_statuses now es db1)"

definition monitor_cleanup :: "datetime \<Rightarrow> (mon_sys, unit) st" where
  "monitor_cleanup now s =
     (case stop_statuses now (map snd (mn_engines (my_mon s))) (my_db s) of
        (db, Inl x) \<Rightarrow> (s\<lparr>my_db := db\<rparr>, Raise x)
      | (db, Inr u) \<Rightarrow> (on_monitor (\<lambda>m. m\<lparr>mn_engines := []\<rparr>) (s\<lparr>my_db := db\<rparr>), Ok ()))"

end
