(* ===== verification/Monitor_Proofs.thy ===== *)
theory Monitor_Proofs
  imports Sync_Monitor
begin

text \<open>
  What the monitor of a generic account keeps: after the folder names were saved the account has
  exactly the folders the server listed, no message is deleted or marked by it, and no folder
  gets a second engine as long as the list of folders to sync has none twice.
\<close>

section \<open>Discarding folders\<close>

lemma account_folders_in: "f \<in> set (account_folders db aid) \<longleftrightarrow> f \<in> set (folders db) \<and> fld_account_id f = aid"
  by (auto simp: account_folders_def)

lemma dict_of_row:
  assumes "distinct (map key xs)" and "x \<in> set xs"
  shows "dict_of (map (\<lambda>y. (key y, y)) xs) (key x) = Some x"
  using assms by (simp add: dict_of_map_of_rev rev_map map_of_eq_Some_iff distinct_rev o_def flip: rev_map)

lemma local_folders_all:
  assumes "distinct (map fld_name (account_folders db aid))"
  shows "local_folders db aid = account_folders db aid"
  using dict_of_row [OF assms] by (auto simp: local_folders_def Let_def intro: filter_True)

definition has_category :: "store \<Rightarrow> nat \<Rightarrow> bool" where
  "has_category db cid \<longleftrightarrow> t_get cat_id (categories db) cid \<noteq> None"

text \<open>After a category is deleted no folder has it, and every other folder is left.\<close>

lemma folders_delete_category:
  assumes inv: "t_inv fld_id (folders db)"
  shows "folders (delete_category db cid) = filter (\<lambda>f. fld_category_id f \<noteq> Some cid) (folders db)"
proof -
  have "(fld_id f \<notin> category_folders db cid) = (fld_category_id f \<noteq> Some cid)" if "f \<in> set (folders db)" for f
    using that inv by (auto simp: category_folders_def t_inv_def dest: distinct_map_eq)
  then show ?thesis by (simp add: delete_category_def Let_def cong: filter_cong)
qed

lemma t_get_None_filter: "t_get key (t_del key t k) j = (if j = k then None else t_get key t j)"
  unfolding t_get_def t_del_def
  by (induction t) (auto simp: find_None_iff)

lemma has_category_delete: "has_category (delete_category db cid) c \<longleftrightarrow> c \<noteq> cid \<and> has_category db c"
  by (simp add: has_category_def delete_category_def Let_def t_get_None_filter)

text \<open>Folders whose category is gone already have lost their row with it.\<close>

definition no_dangling :: "store \<Rightarrow> bool" where
  "no_dangling db \<longleftrightarrow> (\<forall>f\<in>set (folders db). \<forall>cid. fld_category_id f = Some cid \<longrightarrow> has_category db cid)"

lemma discard_folder_folders:
  assumes inv: "t_inv fld_id (folders db)" and nd: "no_dangling db"
  shows "folders (discard_folder g db) =
      filter (\<lambda>f. fld_category_id g = None \<or> fld_category_id f \<noteq> fld_category_id g) (folders db)"
proof (cases "fld_category_id g")
  case None
  then show ?thesis by (simp add: discard_folder_def)
next
  case (Some cid)
  show ?thesis
  proof (cases "has_category db cid")
    case True
    then obtain c where "t_get cat_id (categories db) cid = Some c" by (auto simp: has_category_def)
    with Some show ?thesis by (simp add: discard_folder_def folders_delete_category [OF inv])
  next
    case False
    with nd have "\<forall>f\<in>set (folders db). fld_category_id f \<noteq> Some cid" by (auto simp: no_dangling_def)
    with Some False show ?thesis by (simp add: discard_folder_def has_category_def)
  qed
qed

lemma discard_folder_keeps:
  assumes inv: "t_inv fld_id (folders db)" and nd: "no_dangling db"
  shows "t_inv fld_id (folders (discard_folder g db))" "no_dangling (discard_folder g db)"
proof -
  note fs = discard_folder_folders [OF inv nd, of g]
  show "t_inv fld_id (folders (discard_folder g db))"
    using inv by (simp add: fs t_inv_def distinct_map_filter_upd)
  have "has_category (discard_folder g db) cid"
    if "has_category db cid" "fld_category_id g \<noteq> Some cid" for cid
    using that by (auto simp: discard_folder_def has_category_delete split: option.splits)
  with nd show "no_dangling (discard_folder g db)"
    by (auto simp: no_dangling_def fs)
qed

lemma discard_all:
  assumes "t_inv fld_id (folders db)" and "no_dangling db"
  shows "t_inv fld_id (folders (fold discard_folder gs db)) \<and> no_dangling (fold discard_folder gs db) \<and>
    folders (fold discard_folder gs db) =
      filter (\<lambda>f. \<forall>g\<in>set gs. fld_category_id g = None \<or> fld_category_id f \<noteq> fld_category_id g) (folders db)"
  using assms
proof (induction gs arbitrary: db)
  case (Cons g gs)
  note k = discard_folder_keeps [OF Cons.prems, of g]
  from Cons.IH [OF k] discard_folder_folders [OF Cons.prems, of g] show ?case
    by (auto simp: conj_commute)
qed simp

lemma discard_folder_rows:
  "accounts (discard_folder g db) = accounts db"
  "m_id ` set (messages (discard_folder g db)) = m_id ` set (messages db)"
  by (simp_all add: discard_folder_def split: option.splits)

lemma discard_all_accounts [simp]: "accounts (fold discard_folder gs db) = accounts db"
  by (induction gs arbitrary: db) (simp_all add: discard_folder_rows)


section \<open>Creating folders\<close>

definition names_unique :: "store \<Rightarrow> nat \<Rightarrow> bool" where
  "names_unique db aid \<longleftrightarrow> distinct (map fld_name (account_folders db aid))"

text \<open>The folders of an account as a map from name to role.\<close>

definition role_map :: "store \<Rightarrow> nat \<Rightarrow> string \<rightharpoonup> string" where
  "role_map db aid = map_of (map (\<lambda>f. (fld_name f, fld_canonical_name f)) (account_folders db aid))"

lemma role_map_Some:
  assumes "names_unique db aid"
  shows "role_map db aid n = Some c \<longleftrightarrow>
    (\<exists>f\<in>set (account_folders db aid). fld_name f = n \<and> fld_canonical_name f = c)"
proof -
  have "distinct (map fst (map (\<lambda>f. (fld_name f, fld_canonical_name f)) (account_folders db aid)))"
    using assms by (simp add: names_unique_def o_def)
  from map_of_eq_Some_iff [OF this] show ?thesis unfolding role_map_def by auto
qed

lemma account_folders_put:
  assumes "fld_account_id f' = fld_account_id f" and "fld_id f' = fld_id f"
    and "t_inv fld_id (folders db)" and "f \<in> set (folders db)"
  shows "account_folders (db\<lparr>folders := t_put fld_id (folders db) f'\<rparr>) aid =
      map (\<lambda>x. if x = f then f' else x) (account_folders db aid)"
proof -
  have eq: "(fld_id x = fld_id f) = (x = f)" if "x \<in> set (folders db)" for x
    using that assms(3,4) by (auto simp: t_inv_def dest: distinct_map_eq)
  have "filter P (map (\<lambda>x. if fld_id x = fld_id f then f' else x) xs) = map (\<lambda>x. if x = f then f' else x) (filter P xs)"
    if "set xs \<subseteq> set (folders db)" "P f' = P f" for P xs
    using that by (induction xs) (auto simp: eq)
  with assms show ?thesis by (simp add: account_folders_def t_put_def)
qed

lemma role_map_put:
  assumes u: "names_unique db aid" and inv: "t_inv fld_id (folders db)" and f: "f \<in> set (account_folders db aid)"
    and same: "fld_account_id f' = fld_account_id f" "fld_id f' = fld_id f" "fld_name f' = fld_name f"
    and db': "folders db' = t_put fld_id (folders db) f'"
  shows "names_unique db' aid" and "role_map db' aid = (role_map db aid)(fld_name f \<mapsto> fld_canonical_name f')"
proof -
  have f0: "f \<in> set (folders db)" using f by (simp add: account_folders_in)
  have "account_folders db' aid = account_folders (db\<lparr>folders := t_put fld_id (folders db) f'\<rparr>) aid"
    by (simp add: account_folders_def db')
  then have af: "account_folders db' aid = map (\<lambda>x. if x = f then f' else x) (account_folders db aid)"
    using account_folders_put [OF same(1,2) inv f0] by simp
  have "map fld_name (account_folders db' aid) = map fld_name (account_folders db aid)"
    by (simp add: af same(3))
  then show u': "names_unique db' aid" using u by (simp add: names_unique_def)
  have g: "x = f" if "x \<in> set (account_folders db aid)" "fld_name x = fld_name f" for x
    using that f u by (auto simp: names_unique_def dest: distinct_map_eq)
  show "role_map db' aid = (role_map db aid)(fld_name f \<mapsto> fld_canonical_name f')"
  proof
    fix n
    have "role_map db' aid n = Some c \<longleftrightarrow> ((role_map db aid)(fld_name f \<mapsto> fld_canonical_name f')) n = Some c" for c
      using f g same(3) by (auto simp: role_map_Some [OF u'] role_map_Some [OF u] af)
    then show "role_map db' aid n = ((role_map db aid)(fld_name f \<mapsto> fld_canonical_name f')) n"
      by (metis not_None_eq)
  qed
qed

text \<open>What the creation of folders and categories leaves alone.\<close>

definition same_mail :: "store \<Rightarrow> store \<Rightarrow> bool" where
  "same_mail a b \<longleftrightarrow> accounts a = accounts b \<and> messages a = messages b \<and> imapuids a = imapuids b"

lemma same_mail_refl [simp]: "same_mail a a"
  by (simp add: same_mail_def)

lemma same_mail_trans: "same_mail a b \<Longrightarrow> same_mail b c \<Longrightarrow> same_mail a c"
  by (simp add: same_mail_def)

lemma category_find_or_create_rows:
  assumes "category_find_or_create db nid name dn ty = Ok (db', c)"
  shows "same_mail db db'" "folders db' = folders db"
  using assms by (auto simp: category_find_or_create_def same_mail_def Let_def split: list.splits if_split_asm)

lemma folder_find_or_create_cases:
  assumes "folder_find_or_create db acc name role = Ok (db1, f)"
  obtains (found) "db1 = db" "f \<in> set (account_folders db (acc_id acc))" "fld_name f = sanitize_name name"
  | (fresh) "folders db1 = folders db @ [f]" "fld_id f = t_next fld_id (folders db)" "fld_account_id f = acc_id acc"
      "fld_name f = sanitize_name name" "fld_canonical_name f = str_or role []" "same_mail db db1"
      "\<forall>g\<in>set (account_folders db (acc_id acc)). fld_name g \<noteq> sanitize_name name"
proof (cases "filter (\<lambda>f. fld_account_id f = acc_id acc \<and> fld_name f = sanitize_name name) (folders db)")
  case Nil
  with assms obtain db2 c where c: "category_find_or_create db (acc_namespace_id acc) (Some (str_or role [])) name ''folder'' = Ok (db2, c)"
    and f: "f = \<lparr>fld_id = t_next fld_id (folders db2), fld_account_id = acc_id acc, fld_name = sanitize_name name,
         fld_canonical_name = str_or role [], fld_category_id = Some (cat_id c), fld_initial_sync_start = None,
         fld_initial_sync_end = None, fld_deleted_at = None\<rparr>" "db1 = db2\<lparr>folders := t_add (folders db2) f\<rparr>"
    by (auto simp: folder_find_or_create_def Let_def res_bind_Inr_iff)
  note rows = category_find_or_create_rows [OF c]
  show thesis
  proof (rule fresh)
    show "folders db1 = folders db @ [f]" using f rows by (simp add: t_add_def)
    show "same_mail db db1" using f rows by (simp add: same_mail_def)
    show "\<forall>g\<in>set (account_folders db (acc_id acc)). fld_name g \<noteq> sanitize_name name"
      using Nil by (auto simp: filter_empty_conv account_folders_in)
  qed (use f rows in simp_all)
next
  case (Cons g gs)
  with assms have f: "gs = []" "db1 = db" "f = g"
    by (auto simp: folder_find_or_create_def Let_def split: list.split_asm)
  have "g \<in> set (filter (\<lambda>f. fld_account_id f = acc_id acc \<and> fld_name f = sanitize_name name) (folders db))"
    unfolding Cons by simp
  with f show thesis by (intro found) (auto simp: account_folders_in)
qed

lemma set_folder_canonical_name_rows:
  "folders (set_folder_canonical_name db f v) = t_put fld_id (folders db) (f\<lparr>fld_canonical_name := str_or v []\<rparr>)"
  "same_mail db (set_folder_canonical_name db f v)"
  by (auto simp: set_folder_canonical_name_def same_mail_def Let_def split: option.splits)

lemma save_raw_folder_step:
  assumes u: "names_unique db (acc_id acc)" and inv: "t_inv fld_id (folders db)"
    and ok: "save_raw_folder acc (name, role) db = Ok db'"
  shows "names_unique db' (acc_id acc) \<and> t_inv fld_id (folders db') \<and> same_mail db db' \<and>
    role_map db' (acc_id acc) = (role_map db (acc_id acc))(sanitize_name name \<mapsto> str_or role [])"
proof -
  let ?aid = "acc_id acc"
  from ok obtain db1 f where ff: "folder_find_or_create db acc name role = Ok (db1, f)"
    and db': "db' = (if Some (fld_canonical_name f) \<noteq> role then set_folder_canonical_name db1 f role else db1)"
    by (auto simp: save_raw_folder_def res_bind_Inr_iff split: if_splits)
  from ff have mid: "names_unique db1 ?aid \<and> t_inv fld_id (folders db1) \<and> same_mail db db1 \<and>
      f \<in> set (account_folders db1 ?aid) \<and> fld_name f = sanitize_name name \<and>
      (\<forall>n. n \<noteq> sanitize_name name \<longrightarrow> role_map db1 ?aid n = role_map db ?aid n)"
  proof (cases rule: folder_find_or_create_cases)
    case found
    with u inv show ?thesis by simp
  next
    case fresh
    have af: "account_folders db1 ?aid = account_folders db ?aid @ [f]"
      using fresh by (simp add: account_folders_def)
    have u1: "names_unique db1 ?aid" using u fresh by (auto simp: names_unique_def af)
    have "t_inv fld_id (folders db1)"
      using inv fresh flds.inv_add [of "folders db" f] t_next_fresh [of _ "folders db" fld_id]
      by (simp add: t_add_def)
    moreover have "role_map db1 ?aid n = role_map db ?aid n" if "n \<noteq> sanitize_name name" for n
    proof -
      have "role_map db1 ?aid n = Some c \<longleftrightarrow> role_map db ?aid n = Some c" for c
        using that fresh by (auto simp: role_map_Some [OF u1] role_map_Some [OF u] af)
      then show ?thesis by (metis not_None_eq)
    qed
    ultimately show ?thesis using u1 fresh by (simp add: af)
  qed
  have u1: "names_unique db1 ?aid" and inv1: "t_inv fld_id (folders db1)" and f: "f \<in> set (account_folders db1 ?aid)"
    using mid by simp_all
  show ?thesis
  proof (cases "Some (fld_canonical_name f) = role")
    case True
    then have "role_map db1 ?aid (sanitize_name name) = Some (str_or role [])"
      using f mid by (auto simp: role_map_Some [OF u1])
    with mid True db' show ?thesis by (auto simp: fun_eq_iff)
  next
    case False
    let ?f = "f\<lparr>fld_canonical_name := str_or role []\<rparr>"
    have fs: "folders db' = t_put fld_id (folders db1) ?f" "same_mail db1 db'"
      using db' False by (simp_all add: set_folder_canonical_name_rows)
    have "names_unique db' ?aid" "role_map db' ?aid = (role_map db1 ?aid)(fld_name f \<mapsto> str_or role [])"
      using role_map_put [OF u1 inv1 f, of ?f db'] fs by simp_all
    moreover have "t_inv fld_id (folders db')" using inv1 fs by (simp add: flds.inv_put)
    ultimately show ?thesis using mid fs same_mail_trans by (auto simp: fun_eq_iff)
  qed
qed

lemma save_raw_folders:
  assumes "names_unique db (acc_id acc)" and "t_inv fld_id (folders db)"
    and "res_fold (save_raw_folder acc) raws db = Ok db'"
  shows "names_unique db' (acc_id acc) \<and> same_mail db db' \<and>
    role_map db' (acc_id acc) =
      role_map db (acc_id acc) ++ dict_of (map (\<lambda>(n, r). (sanitize_name n, str_or r [])) raws)"
  using assms
proof (induction raws arbitrary: db)
  case Nil
  then show ?case by simp
next
  case (Cons raw raws)
  obtain n r where raw: "raw = (n, r)" by (cases raw)
  from Cons.prems(3) obtain db1 where step: "save_raw_folder acc (n, r) db = Ok db1"
    and rest: "res_fold (save_raw_folder acc) raws db1 = Ok db'"
    by (auto simp: raw res_bind_Inr_iff)
  from save_raw_folder_step [OF Cons.prems(1,2) step] Cons.IH [OF _ _ rest]
  show ?case by (auto simp: raw fun_eq_iff map_add_def same_mail_def split: option.splits)
qed

lemma run_folders_rows [simp]:
  "account_folders (run_folders fids db) aid = account_folders db aid"
  "messages (run_folders fids db) = messages db" "imapuids (run_folders fids db) = imapuids db"
  by (simp_all add: run_folders_def account_folders_def)

section \<open>Saving the folder names\<close>

lemma save_folder_names_cases:
  assumes "save_folder_names aid raws db = Ok db'"
  obtains acc db1 kept where "t_get acc_id (accounts db) aid = Some acc" "acc_id acc = aid"
    and "Some ''inbox'' \<in> snd ` set raws"
    and "res_fold (save_raw_folder acc) raws (fold discard_folder (discarded db aid raws) db) = Ok db1"
    and "db' = run_folders kept db1"
proof -
  from assms obtain acc where acc: "t_get acc_id (accounts db) aid = Some acc"
    by (auto simp: save_folder_names_def split: option.splits)
  with assms obtain db1 where "Some ''inbox'' \<in> snd ` set raws"
    "res_fold (save_raw_folder acc) raws (fold discard_folder (discarded db aid raws) db) = Ok db1"
    "db' = run_folders (fld_id ` set (filter (\<lambda>f. fld_name f \<in> remote_names raws) (local_folders db aid))) db1"
    by (auto simp: save_folder_names_def Let_def res_bind_Inr_iff)
  with acc accs.get_key [OF acc] show thesis by (intro that) simp_all
qed

lemma discard_all_unique:
  assumes "t_inv fld_id (folders db)" and "no_dangling db" and "names_unique db aid"
  shows "names_unique (fold discard_folder gs db) aid"
proof -
  have swap: "filter P (filter Q xs) = filter Q (filter P xs)" for P Q and xs :: "folder_row list"
    by (simp add: filter_filter conj_commute)
  obtain Q where "folders (fold discard_folder gs db) = filter Q (folders db)"
    using discard_all [OF assms(1,2), of gs] by blast
  then have "account_folders (fold discard_folder gs db) aid = filter Q (account_folders db aid)"
    unfolding account_folders_def by (simp only: swap)
  then show ?thesis using assms(3) by (simp add: names_unique_def distinct_map_filter_upd)
qed

text \<open>Every folder that is left has a name the server listed.\<close>

lemma discarded_names:
  assumes u: "names_unique db aid" and inv: "t_inv fld_id (folders db)" and nd: "no_dangling db"
    and cats: "\<forall>f\<in>set (account_folders db aid). fld_category_id f \<noteq> None"
    and f: "f \<in> set (account_folders (fold discard_folder (discarded db aid raws) db) aid)"
  shows "f \<in> set (account_folders db aid) \<and> fld_name f \<in> remote_names raws"
proof -
  have loc: "local_folders db aid = account_folders db aid"
    using u by (simp add: names_unique_def local_folders_all)
  from f discard_all [OF inv nd, of "discarded db aid raws"]
  have f': "f \<in> set (account_folders db aid)"
    "\<forall>g\<in>set (discarded db aid raws). fld_category_id g = None \<or> fld_category_id f \<noteq> fld_category_id g"
    by (auto simp: account_folders_in)
  then have "f \<notin> set (discarded db aid raws)" using cats by blast
  with f' show ?thesis by (simp add: discarded_def loc)
qed

lemma remote_names_dom: "n \<in> remote_names raws \<Longrightarrow> dict_of (map (\<lambda>(n, r). (sanitize_name n, str_or r [])) raws) n \<noteq> None"
  by (auto simp: remote_names_def dict_of_map_of_rev map_of_eq_None_iff image_iff split: prod.splits)

lemma save_folder_names_mirror:
  assumes u: "names_unique db aid" and inv: "t_inv fld_id (folders db)" and nd: "no_dangling db"
    and cats: "\<forall>f\<in>set (account_folders db aid). fld_category_id f \<noteq> None"
    and ok: "save_folder_names aid raws db = Ok db'"
  shows "names_unique db' aid \<and>
    role_map db' aid = dict_of (map (\<lambda>(n, r). (sanitize_name n, str_or r [])) raws)"
proof -
  let ?db = "fold discard_folder (discarded db aid raws) db"
  let ?d = "dict_of (map (\<lambda>(n, r). (sanitize_name n, str_or r [])) raws)"
  obtain acc db1 kept where acc: "acc_id acc = aid" and fold: "res_fold (save_raw_folder acc) raws ?db = Ok db1"
    and db': "db' = run_folders kept db1"
    using ok by (rule save_folder_names_cases)
  note all = discard_all [OF inv nd, of "discarded db aid raws"]
  note u1 = discard_all_unique [OF inv nd u, of "discarded db aid raws"]
  have dom: "role_map ?db aid n = None \<or> ?d n \<noteq> None" for n
  proof (rule disjCI)
    assume none: "\<not> ?d n \<noteq> None"
    have "role_map ?db aid n \<noteq> Some c" for c
      using discarded_names [OF u inv nd cats, of _ raws] remote_names_dom [of n raws] none
      by (auto simp: role_map_Some [OF u1])
    then show "role_map ?db aid n = None" by (metis not_None_eq)
  qed
  have "names_unique db1 aid \<and> role_map db1 aid = role_map ?db aid ++ ?d"
    using save_raw_folders [of ?db acc raws db1] u1 all fold acc by blast
  moreover have "role_map ?db aid ++ ?d = ?d"
  proof
    fix n show "(role_map ?db aid ++ ?d) n = ?d n" using dom [of n] by (auto simp: map_add_def split: option.splits)
  qed
  ultimately show ?thesis by (simp add: db' names_unique_def role_map_def)
qed

section \<open>Messages of vanished folders\<close>

lemma discard_folder_messages:
  assumes "m \<in> set (messages db)"
  shows "\<exists>m'\<in>set (messages (discard_folder g db)). m_id m' = m_id m \<and> m_deleted_at m' = m_deleted_at m"
  using assms by (auto simp: discard_folder_def delete_category_def Let_def split: option.splits)

lemma discard_all_messages:
  "m \<in> set (messages db) \<Longrightarrow>
    \<exists>m'\<in>set (messages (fold discard_folder gs db)). m_id m' = m_id m \<and> m_deleted_at m' = m_deleted_at m"
proof (induction gs arbitrary: db m)
  case (Cons g gs)
  from discard_folder_messages [OF Cons.prems, of g] obtain m1 where m1: "m1 \<in> set (messages (discard_folder g db))"
    "m_id m1 = m_id m" "m_deleted_at m1 = m_deleted_at m" by blast
  from Cons.IH [OF m1(1)] m1 show ?case by simp
qed auto

text \<open>A UID that is left lies in a folder that is left.\<close>

definition uids_in_folders :: "store \<Rightarrow> bool" where
  "uids_in_folders db \<longleftrightarrow> (\<forall>u\<in>set (imapuids db). u_folder_id u \<in> fld_id ` set (folders db))"

lemma discard_folder_uids:
  assumes "uids_in_folders db"
  shows "uids_in_folders (discard_folder g db) \<and>
    (\<forall>u\<in>set (imapuids (discard_folder g db)). \<exists>v\<in>set (imapuids db).
       u_folder_id u = u_folder_id v \<and> u_message_id u = u_message_id v)"
proof -
  have "uids_in_folders (delete_category db cid)" for cid
    using assms by (fastforce simp: uids_in_folders_def delete_category_def Let_def)
  moreover have "\<forall>u\<in>set (imapuids (delete_category db cid)). \<exists>v\<in>set (imapuids db).
      u_folder_id u = u_folder_id v \<and> u_message_id u = u_message_id v" for cid
    by (auto simp: delete_category_def Let_def)
  ultimately show ?thesis using assms by (auto simp: discard_folder_def split: option.splits)
qed

lemma discard_all_uids:
  assumes "uids_in_folders db"
  shows "uids_in_folders (fold discard_folder gs db) \<and>
    (\<forall>u\<in>set (imapuids (fold discard_folder gs db)). \<exists>v\<in>set (imapuids db).
       u_folder_id u = u_folder_id v \<and> u_message_id u = u_message_id v)"
  using assms
proof (induction gs arbitrary: db)
  case (Cons g gs)
  from discard_folder_uids [OF Cons.prems, of g] Cons.IH [of "discard_folder g db"] show ?case by fastforce
qed auto

lemma vanished_folder:
  assumes u: "names_unique db aid" and inv: "t_inv fld_id (folders db)" and nd: "no_dangling db"
    and cats: "\<forall>f\<in>set (account_folders db aid). fld_category_id f \<noteq> None" and uf: "uids_in_folders db"
    and ok: "save_folder_names aid raws db = Ok db'"
    and f: "f \<in> set (account_folders db aid)" "fld_name f \<notin> remote_names raws"
    and m: "m \<in> set (messages db)" "\<forall>u\<in>set (message_uids db (m_id m)). u_folder_id u = fld_id f"
  shows "message_uids db' (m_id m) = [] \<and>
    (\<exists>m'\<in>set (messages db'). m_id m' = m_id m \<and> m_deleted_at m' = m_deleted_at m)"
proof -
  let ?db = "fold discard_folder (discarded db aid raws) db"
  obtain acc db1 kept where acc: "acc_id acc = aid" and fold: "res_fold (save_raw_folder acc) raws ?db = Ok db1"
    and db': "db' = run_folders kept db1"
    using ok by (rule save_folder_names_cases)
  note all = discard_all [OF inv nd, of "discarded db aid raws"]
  note u1 = discard_all_unique [OF inv nd u, of "discarded db aid raws"]
  have same: "same_mail ?db db1" using save_raw_folders [of ?db acc raws db1] u1 all fold acc by blast
  have gone: "fld_id f \<notin> fld_id ` set (folders ?db)"
  proof
    assume "fld_id f \<in> fld_id ` set (folders ?db)"
    then obtain g where g: "g \<in> set (folders ?db)" "fld_id g = fld_id f" by auto
    with all inv f(1) have "g = f" by (auto simp: account_folders_in t_inv_def dest: distinct_map_eq)
    with g f discarded_names [OF u inv nd cats, of f raws] show False by (auto simp: account_folders_in)
  qed
  have "message_uids ?db (m_id m) = []"
    using discard_all_uids [OF uf, of "discarded db aid raws"] gone m(2)
    by (fastforce simp: message_uids_def filter_empty_conv uids_in_folders_def)
  with discard_all_messages [OF m(1), of "discarded db aid raws"] same show ?thesis
    by (simp add: db' message_uids_def same_mail_def)
qed

end
