(* ===== verification/Monitor_Engines.thy ===== *)
theory Monitor_Engines
  imports Monitor_Proofs
begin

text \<open>
  What the monitor does with its engines, and the labels of a Gmail account: no folder gets a second
  engine as long as the list of folders has none twice, the list from the cache of a client does,
  and labels are live exactly while the server lists them.
\<close>

section \<open>Engines\<close>

abbreviation engine_names :: "monitor \<Rightarrow> string list" where
  "engine_names m \<equiv> map (\<lambda>e. en_folder_name (snd e)) (mn_engines m)"

lemma new_engine_name: "new_engine aid nid name db = Ok e \<Longrightarrow> en_folder_name e = name"
  by (auto simp: new_engine_def split: sum.splits)

lemma exit_engines_sub: "set (mn_engines (exit_engines hs m)) \<subseteq> set (mn_engines m)"
  "mn_started (exit_engines hs m) = mn_started m"
  by (auto simp: exit_engines_def)

lemma exit_engines_distinct: "distinct (engine_names m) \<Longrightarrow> distinct (engine_names (exit_engines hs m))"
  by (simp add: exit_engines_def distinct_map_filter_upd)

lemma wait_for_Some: "wait_for w h m = Some m' \<Longrightarrow> \<exists>hs. m' = exit_engines hs m"
  by (auto simp: wait_for_def split: prod.splits if_splits)

text \<open>One turn of the loop over the folders.\<close>

lemma start_folders_turn:
  assumes "start_folders mk running (name # names) ws m = (m', r)"
  obtains (stuck) "m' = m" "r = None"
  | (failed) e where "m' = m" "r = Some (Inl e)"
  | (waiting) e where "running name = None" "mk name = Ok e" "m' = start_engine e m" "r = None"
  | (waiting_old) h where "running name = Some h" "m' = m" "r = None"
  | (old) h hs ws' where "running name = Some h" "start_folders mk running names ws' (exit_engines hs m) = (m', r)"
  | (fresh) e hs ws' where "running name = None" "mk name = Ok e"
      "start_folders mk running names ws' (exit_engines hs (start_engine e m)) = (m', r)"
proof (cases ws)
  case Nil
  with assms stuck show thesis by simp
next
  case (Cons w ws')
  show thesis
  proof (cases "running name")
    case None
    show thesis
    proof (cases "mk name")
      case (Inl e)
      with assms Cons None have "m' = m" "r = Some (Inl e)" by simp_all
      then show thesis by (rule failed)
    next
      case (Inr e)
      show thesis
      proof (cases "wait_for w (mn_next m) (start_engine e m)")
        case None
        with assms Cons Inr \<open>running name = None\<close> waiting show thesis by simp
      next
        case (Some m2)
        with wait_for_Some obtain hs where "m2 = exit_engines hs (start_engine e m)" by blast
        with Some assms Cons Inr \<open>running name = None\<close> fresh show thesis by simp
      qed
    qed
  next
    case (Some h)
    show thesis
    proof (cases "wait_for w h m")
      case None
      with assms Cons Some waiting_old show thesis by simp
    next
      case (Some m2)
      with wait_for_Some obtain hs where "m2 = exit_engines hs m" by blast
      with Some assms Cons \<open>running name = Some h\<close> old show thesis by simp
    qed
  qed
qed

text \<open>Folders whose engine ran before the round are skipped, so each name is started at most once.\<close>

definition may_run :: "(string \<rightharpoonup> nat) \<Rightarrow> string list \<Rightarrow> monitor \<Rightarrow> bool" where
  "may_run running names m \<longleftrightarrow> (\<forall>n\<in>set (engine_names m). running n \<noteq> None \<or> n \<notin> set names)"

lemma start_folders_distinct:
  assumes "distinct names" and "distinct (engine_names m)" and "may_run running names m"
    and "\<And>n e. mk n = Ok e \<Longrightarrow> en_folder_name e = n"
    and "start_folders mk running names ws m = (m', r)"
  shows "distinct (engine_names m')"
  using assms
proof (induction names arbitrary: ws m)
  case (Cons name names)
  have mk: "en_folder_name e = n" if "mk n = Ok e" for n e using Cons.prems(4) that .
  have sub: "may_run running names (exit_engines hs m)" for hs
    using Cons.prems(3) exit_engines_sub(1) [of hs m] by (fastforce simp: may_run_def)
  have started: "distinct (engine_names (start_engine e m)) \<and> may_run running names (start_engine e m)"
    if "mk name = Ok e" "running name = None" for e
    using Cons.prems mk [OF that(1)] that(2) by (auto simp: start_engine_def may_run_def)
  from Cons.prems(5) show ?case
  proof (cases rule: start_folders_turn)
    case (old h hs ws')
    show ?thesis
      using Cons.prems(1,2) sub mk by (intro Cons.IH [OF _ _ _ _ old(2)] exit_engines_distinct) simp_all
  next
    case (fresh e hs ws')
    have "may_run running names (exit_engines hs (start_engine e m))"
      using started [OF fresh(2,1)] exit_engines_sub(1) [of hs "start_engine e m"] by (fastforce simp: may_run_def)
    with started [OF fresh(2,1)] Cons.prems(1) mk show ?thesis
      by (intro Cons.IH [OF _ _ _ _ fresh(3)] exit_engines_distinct) simp_all
  qed (use Cons.prems started in auto)
qed simp

text \<open>A name that occurs several times gets an engine for each of its occurrences.\<close>

lemma start_folders_count:
  assumes "start_folders mk running names ws m = (m', Some (Inr u))" and "running n = None"
    and "\<And>n e. mk n = Ok e \<Longrightarrow> en_folder_name e = n"
  shows "count_list (map fst (mn_started m')) n = count_list (map fst (mn_started m)) n + count_list names n"
  using assms
proof (induction names arbitrary: ws m)
  case (Cons name names)
  have mk: "en_folder_name e = n" if "mk n = Ok e" for n e using Cons.prems(3) that .
  from Cons.prems(1) show ?case
  proof (cases rule: start_folders_turn)
    case (old h hs ws')
    from Cons.IH [OF old(2) Cons.prems(2,3)] old(1) Cons.prems(2) show ?thesis
      by (auto simp: exit_engines_sub)
  next
    case (fresh e hs ws')
    from Cons.IH [OF fresh(3) Cons.prems(2,3)] mk [OF fresh(2)] show ?thesis
      by (simp add: exit_engines_sub start_engine_def count_list_append)
  qed simp_all
qed simp

section \<open>A round\<close>

lemma save_names_engines: "mn_engines (my_mon (fst (save_names now raws s))) = mn_engines (my_mon s)"
  by (auto simp: save_names_def on_monitor_def split: prod.splits sum.splits)

definition engines_are :: "(nat \<times> engine) list \<Rightarrow> mon_sys \<Rightarrow> bool" where
  "engines_are es s \<longleftrightarrow> mn_engines (my_mon s) = es"

lemma prepare_once_engines: "st_keeps (engines_are es) (prepare_sync_once i)"
proof -
  have "st_keeps (engines_are es) (pool_client c)" for c
    by (auto intro!: st_keepsI simp: engines_are_def pool_client_def split: sum.splits option.splits)
  moreover have "st_keeps (engines_are es) (list_folders l)" for l
    by (auto intro!: st_keepsI simp: engines_are_def list_folders_def)
  moreover have "st_keeps (engines_are es) (client_sync_folders l)" for l
    by (rule st_keepsI) (auto simp: engines_are_def client_sync_folders_def split: prod.split)
  moreover have "st_keeps (engines_are es) (save_if_new now raws)" for now raws
    using save_names_engines [of now raws]
    by (auto intro!: st_keepsI simp: engines_are_def save_if_new_def st_bind_def on_monitor_def
        split: prod.splits sum.splits) (metis fst_conv)+
  ultimately show ?thesis unfolding prepare_sync_once_binds by (intro inv_intros)
qed

lemma prepare_sync_engines:
  assumes "prepare_sync tries s = (s1, r)"
  shows "mn_engines (my_mon s1) = mn_engines (my_mon s)"
  using retry_run_keeps [of tries "engines_are (mn_engines (my_mon s))" prepare_sync_once "\<lambda>e s. s" s
      "should_retry_on None (Some conn_retry_exc)"] assms prepare_once_engines
  by (auto simp: prepare_sync_def retry_crispin_def engines_are_def)

lemma running_engines_dom:
  "n \<in> set (engine_names m) \<Longrightarrow> running_engines m n \<noteq> None"
  unfolding running_engines_def dict_of_map_of_rev map_of_eq_None_iff by (force simp: image_iff)

lemma round_distinct:
  assumes d: "distinct (engine_names (my_mon s))"
    and prep: "prepare_sync (rd_prepare inp) (on_monitor (exit_engines (rd_before inp)) s) = (s1, Some (Inr names))"
    and names: "distinct names"
    and round: "start_new_folder_sync_engines inp s = (s', r)"
  shows "distinct (engine_names (my_mon s'))"
proof -
  let ?m0 = "exit_engines (rd_before inp) (my_mon s)"
  let ?m1 = "exit_engines (rd_during inp) (my_mon s1)"
  let ?mk = "\<lambda>name. new_engine (my_account_id s) (my_namespace_id s) name (my_db s1)"
  have m1: "mn_engines (my_mon s1) = mn_engines ?m0"
    using prepare_sync_engines [OF prep] by (simp add: on_monitor_def)
  from round prep have "start_folders ?mk (running_engines ?m0) names (rd_waits inp) ?m1 = (my_mon s', r)"
    by (auto simp: start_new_folder_sync_engines_def Let_def on_monitor_def split: prod.splits)
  moreover have "distinct (engine_names ?m1)"
    using exit_engines_distinct [of "my_mon s1" "rd_during inp"] exit_engines_distinct [OF d, of "rd_before inp"]
    by (simp add: m1)
  moreover have "may_run (running_engines ?m0) names ?m1"
    using running_engines_dom [of _ ?m0] exit_engines_sub(1) [of "rd_during inp" "my_mon s1"] m1
    by (fastforce simp: may_run_def)
  ultimately show ?thesis using start_folders_distinct [OF names, of ?m1 _ ?mk] new_engine_name by simp
qed

section \<open>The cached folder list\<close>

lemma map_of_set_names:
  "map_of (set_names role v names) r = (if r = role then map_option (\<lambda>_. v) (map_of names r) else map_of names r)"
  by (induction names) (auto simp: set_names_def)

lemma filter_set_names: "filter (\<lambda>(r, _). r \<noteq> role) (set_names role v names) = filter (\<lambda>(r, _). r \<noteq> role) names"
  by (induction names) (auto simp: set_names_def)

text \<open>Asked twice for the folders to sync, the generic client answers all but the inbox twice.\<close>

lemma generic_sync_folders_again:
  assumes "generic_sync_folders listing cr = (cr1, Ok to_sync)"
  obtains inbox others cr2 where "to_sync = inbox @ others"
    and "generic_sync_folders listing2 cr1 = (cr2, Ok (inbox @ others @ others))"
    and "\<And>fs n. cr_folder_names cr = None \<Longrightarrow> listing = Ok l \<Longrightarrow> crispin_folders cr l = Ok fs \<Longrightarrow>
      n \<in> fst ` set (filter (\<lambda>f. snd f \<noteq> Some ''inbox'') fs) \<Longrightarrow> n \<in> set others"
proof -
  let ?other = "\<lambda>names. concat (map snd (filter (\<lambda>(role, _). role \<noteq> Some ''inbox'') names))"
  from assms obtain cr0 names inbox where names: "folder_names False listing cr = (cr0, Ok names)"
    and inbox: "map_of names (Some ''inbox'') = Some inbox"
    and res: "to_sync = inbox @ ?other names"
      "cr1 = cr0\<lparr>cr_folder_names := Some (set_names (Some ''inbox'') (inbox @ ?other names) names)\<rparr>"
    by (auto simp: generic_sync_folders_def Let_def split: option.splits elim!: st_bind_cases)
  show thesis
  proof (rule that [of inbox "?other names"])
    show "generic_sync_folders listing2 cr1 = (cr1\<lparr>cr_folder_names := Some (set_names (Some ''inbox'')
        (inbox @ ?other names @ ?other names) (set_names (Some ''inbox'') (inbox @ ?other names) names))\<rparr>,
        Ok (inbox @ ?other names @ ?other names))"
      by (simp add: generic_sync_folders_def st_bind_def folder_names_def res(2) map_of_set_names inbox
          filter_set_names Let_def)
    fix fs n
    assume none: "cr_folder_names cr = None" and l: "listing = Ok l" "crispin_folders cr l = Ok fs"
      and n: "n \<in> fst ` set (filter (\<lambda>f. snd f \<noteq> Some ''inbox'') fs)"
    have g: "names = group_names fs" using names none l by (simp add: folder_names_def)
    from n obtain role where r: "(n, role) \<in> set fs" "role \<noteq> Some ''inbox''" by auto
    then have "n \<in> set (map fst (filter (\<lambda>f. snd f = role) fs))" by force
    moreover from r have "map_of (group_names fs) role = Some (map fst (filter (\<lambda>f. snd f = role) fs))"
      by (force simp: group_names_lookup Let_def filter_empty_conv)
    ultimately have "(role, map fst (filter (\<lambda>f. snd f = role) fs)) \<in>
        set (filter (\<lambda>(role, _). role \<noteq> Some ''inbox'') (group_names fs))"
      "n \<in> set (map fst (filter (\<lambda>f. snd f = role) fs))"
      using r(2) by (auto dest: map_of_SomeD)
    then show "n \<in> set (?other names)" unfolding g by (metis (no_types, lifting) UN_iff image_eqI set_concat set_map snd_conv)
  qed (use res in simp)
qed

end
