(* ===== verification/Monitor_Labels.thy ===== *)
theory Monitor_Labels
  imports Monitor_Proofs
begin

text \<open>
  The labels of a Gmail account follow the server's folder list: a label is found or made for
  every folder but the starred one and is then live, and labels that are not listed are marked
  as deleted unless they have a role.
\<close>

definition label_matches :: "raw_folder \<Rightarrow> label_row \<Rightarrow> bool" where
  "label_matches raw l \<longleftrightarrow>
     (let role = str_or (snd raw) []
      in if role \<noteq> [] then lbl_canonical_name l = role else lbl_name l = sanitize_name (fst raw))"

definition labelled :: "raw_folder list \<Rightarrow> raw_folder set" where
  "labelled raws = {r \<in> set raws. snd r \<noteq> Some ''starred''}"

section \<open>One folder of the list\<close>

lemma rename_category_labels: "labels (rename_category db cid name) = labels db"
  by (simp add: rename_category_def split: option.splits)

lemma category_find_or_create_labels:
  "category_find_or_create db nid name dn ty = Ok (db', c) \<Longrightarrow> labels db' = labels db"
  by (auto simp: category_find_or_create_def Let_def split: list.splits if_split_asm)

lemma folder_find_or_create_labels:
  "folder_find_or_create db acc name role = Ok (db', f) \<Longrightarrow> labels db' = labels db"
  by (auto simp: folder_find_or_create_def Let_def res_bind_Inr_iff split: list.splits
      dest: category_find_or_create_labels)

lemma handle_raw_folder_change_labels:
  "handle_raw_folder_change acc name role db = Ok db' \<Longrightarrow> labels db' = labels db"
  by (auto simp: handle_raw_folder_change_def Let_def res_bind_Inr_iff rename_category_labels
      split: option.splits if_splits dest: category_find_or_create_labels folder_find_or_create_labels)

lemma label_find_or_create_rows:
  assumes "label_find_or_create db acc name role = Ok (db', l)" and "t_inv lbl_id (labels db)"
  shows "label_matches (name, role) l \<and> lbl_account_id l = acc_id acc \<and> t_inv lbl_id (labels db') \<and>
    (labels db' = labels db \<and> l \<in> set (labels db) \<or> labels db' = labels db @ [l] \<and> lbl_deleted_at l = None)"
proof (cases "query_first (filter (\<lambda>l. lbl_account_id l = acc_id acc \<and>
      (if str_or role [] \<noteq> [] then lbl_canonical_name l = str_or role [] else lbl_name l = sanitize_name name)) (labels db))")
  case None
  with assms(1) obtain db1 c where c: "category_find_or_create db (acc_namespace_id acc) (Some (str_or role [])) name ''label'' = Ok (db1, c)"
    and l: "l = \<lparr>lbl_id = t_next lbl_id (labels db1), lbl_account_id = acc_id acc, lbl_name = sanitize_name name,
        lbl_canonical_name = str_or role [], lbl_category_id = Some (cat_id c), lbl_deleted_at = None\<rparr>"
      "db' = db1\<lparr>labels := t_add (labels db1) l\<rparr>"
    by (auto simp: label_find_or_create_def Let_def res_bind_Inr_iff)
  note same = category_find_or_create_labels [OF c]
  have "t_inv lbl_id (labels db')"
    using assms(2) lbls.inv_add [of "labels db" l] t_next_fresh [of _ "labels db" lbl_id] l same by simp
  with l same show ?thesis by (simp add: t_add_def label_matches_def Let_def)
next
  case (Some l0)
  with assms(1) have "db' = db" "l = l0"
    unfolding label_find_or_create_def Let_def by simp_all
  with query_first_Some [OF Some] assms(2) show ?thesis by (auto simp: label_matches_def Let_def split: if_splits)
qed

lemma mark_label_labels:
  "mark_label l t db = Ok db' \<Longrightarrow> labels db' = t_put lbl_id (labels db) (l\<lparr>lbl_deleted_at := t\<rparr>)"
  by (auto simp: mark_label_def mark_category_def split: option.splits)

text \<open>
  The state of the loop: the labels with an id in \<open>current\<close> are live and are those that the
  folders seen so far stand for; all others are as they were.
\<close>

definition labels_at :: "nat \<Rightarrow> store \<Rightarrow> raw_folder set \<Rightarrow> store \<times> nat list \<Rightarrow> bool" where
  "labels_at aid db0 seen s \<longleftrightarrow>
     (case s of (db, current) \<Rightarrow>
        t_inv lbl_id (labels db) \<and> set current \<subseteq> lbl_id ` set (labels db) \<and>
        (\<forall>l\<in>set (labels db). if lbl_id l \<in> set current
           then lbl_deleted_at l = None \<and> lbl_account_id l = aid \<and> (\<exists>r\<in>seen. label_matches r l)
           else l \<in> set (labels db0)) \<and>
        (\<forall>r\<in>seen. \<exists>l\<in>set (labels db). lbl_id l \<in> set current \<and> label_matches r l) \<and>
        lbl_id ` set (labels db0) \<subseteq> lbl_id ` set (labels db) \<and>
        (\<forall>l0\<in>set (labels db0). \<forall>l\<in>set (labels db). lbl_id l = lbl_id l0 \<longrightarrow>
           lbl_canonical_name l = lbl_canonical_name l0 \<and> lbl_name l = lbl_name l0 \<and> lbl_account_id l = lbl_account_id l0))"

lemma labels_atI:
  assumes "t_inv lbl_id (labels db)" and "set current \<subseteq> lbl_id ` set (labels db)"
    and "\<And>l. l \<in> set (labels db) \<Longrightarrow> lbl_id l \<in> set current \<Longrightarrow>
      lbl_deleted_at l = None \<and> lbl_account_id l = aid \<and> (\<exists>r\<in>seen. label_matches r l)"
    and "\<And>l. l \<in> set (labels db) \<Longrightarrow> lbl_id l \<notin> set current \<Longrightarrow> l \<in> set (labels db0)"
    and "\<And>r. r \<in> seen \<Longrightarrow> \<exists>l\<in>set (labels db). lbl_id l \<in> set current \<and> label_matches r l"
    and "lbl_id ` set (labels db0) \<subseteq> lbl_id ` set (labels db)"
    and "\<And>l0 l. l0 \<in> set (labels db0) \<Longrightarrow> l \<in> set (labels db) \<Longrightarrow> lbl_id l = lbl_id l0 \<Longrightarrow>
      lbl_canonical_name l = lbl_canonical_name l0 \<and> lbl_name l = lbl_name l0 \<and> lbl_account_id l = lbl_account_id l0"
  shows "labels_at aid db0 seen (db, current)"
  unfolding labels_at_def prod.case using assms by (intro conjI ballI impI) (simp_all split: if_split)

lemma labels_atD:
  assumes "labels_at aid db0 seen (db, current)"
  shows "t_inv lbl_id (labels db)" and "set current \<subseteq> lbl_id ` set (labels db)"
    and "l \<in> set (labels db) \<Longrightarrow> lbl_id l \<in> set current \<Longrightarrow>
      lbl_deleted_at l = None \<and> lbl_account_id l = aid \<and> (\<exists>r\<in>seen. label_matches r l)"
    and "l \<in> set (labels db) \<Longrightarrow> lbl_id l \<notin> set current \<Longrightarrow> l \<in> set (labels db0)"
    and "r \<in> seen \<Longrightarrow> \<exists>l\<in>set (labels db). lbl_id l \<in> set current \<and> label_matches r l"
    and "lbl_id ` set (labels db0) \<subseteq> lbl_id ` set (labels db)"
    and "l0 \<in> set (labels db0) \<Longrightarrow> l \<in> set (labels db) \<Longrightarrow> lbl_id l = lbl_id l0 \<Longrightarrow>
      lbl_canonical_name l = lbl_canonical_name l0 \<and> lbl_name l = lbl_name l0 \<and> lbl_account_id l = lbl_account_id l0"
  using assms by (simp_all add: labels_at_def split: if_split_asm)

lemma labels_at_found:
  assumes at: "labels_at aid db0 seen (db, current)"
    and l: "l \<in> set (labels db)" "label_matches raw l" "lbl_account_id l = aid"
    and db': "labels db' = t_put lbl_id (labels db) (l\<lparr>lbl_deleted_at := None\<rparr>)"
    and current': "set current' = insert (lbl_id l) (set current)"
  shows "labels_at aid db0 (insert raw seen) (db', current')"
proof -
  let ?l = "l\<lparr>lbl_deleted_at := None\<rparr>"
  note D = labels_atD [OF at]
  have sets: "set (labels db') = insert ?l {x \<in> set (labels db). lbl_id x \<noteq> lbl_id l}"
    using l(1) by (auto simp: db' lbls.set_put)
  have ids: "lbl_id ` set (labels db') = lbl_id ` set (labels db)" by (simp add: db' lbls.put_keys)
  have m: "label_matches r (x\<lparr>lbl_deleted_at := None\<rparr>) = label_matches r x" for r x
    by (simp add: label_matches_def)
  have uniq: "x = l" if "x \<in> set (labels db)" "lbl_id x = lbl_id l" for x
    using that l(1) D(1) by (auto simp: t_inv_def dest: distinct_map_eq)
  show ?thesis
  proof (rule labels_atI)
    show "t_inv lbl_id (labels db')" using D(1) by (simp add: db' lbls.inv_put)
    show "set current' \<subseteq> lbl_id ` set (labels db')" using D(2) l(1) by (auto simp: ids current')
    show "lbl_id ` set (labels db0) \<subseteq> lbl_id ` set (labels db')" using D(6) by (simp add: ids)
  next
    fix x assume "x \<in> set (labels db')" "lbl_id x \<in> set current'"
    then consider "x = ?l" | "x \<in> set (labels db)" "lbl_id x \<in> set current" by (auto simp: sets current')
    then show "lbl_deleted_at x = None \<and> lbl_account_id x = aid \<and> (\<exists>r\<in>insert raw seen. label_matches r x)"
    proof cases
      case 1
      with l m show ?thesis by auto
    next
      case 2
      from D(3) [OF this] show ?thesis by blast
    qed
  next
    fix x assume "x \<in> set (labels db')" "lbl_id x \<notin> set current'"
    then show "x \<in> set (labels db0)" using D(4) [of x] by (auto simp: sets current')
  next
    fix r assume "r \<in> insert raw seen"
    then consider "label_matches r l" | x where "x \<in> set (labels db)" "lbl_id x \<in> set current" "label_matches r x" "x \<noteq> l"
      using l(2) D(5) [of r] by blast
    then show "\<exists>x\<in>set (labels db'). lbl_id x \<in> set current' \<and> label_matches r x"
    proof cases
      case 1
      then show ?thesis by (intro bexI [of _ ?l]) (simp_all add: sets current' m)
    next
      case 2
      then show ?thesis using uniq by (intro bexI [of _ x]) (auto simp: sets current')
    qed
  next
    fix l0 x assume "l0 \<in> set (labels db0)" "x \<in> set (labels db')" "lbl_id x = lbl_id l0"
    with D(7) [of l0 x] D(7) [of l0 l] l(1) show "lbl_canonical_name x = lbl_canonical_name l0 \<and> lbl_name x = lbl_name l0 \<and> lbl_account_id x = lbl_account_id l0"
      by (auto simp: sets)
  qed
qed

lemma labels_at_new:
  assumes at: "labels_at aid db0 seen (db, current)"
    and l: "label_matches raw l" "lbl_account_id l = aid" "lbl_deleted_at l = None"
    and db': "labels db' = labels db @ [l]" and inv: "t_inv lbl_id (labels db')"
  shows "labels_at aid db0 (insert raw seen) (db', current @ [lbl_id l])"
proof -
  note D = labels_atD [OF at]
  have fresh: "lbl_id x \<noteq> lbl_id l" if "x \<in> set (labels db)" for x
    using that inv by (auto simp: db' t_inv_def image_iff)
  show ?thesis
  proof (rule labels_atI)
    show "t_inv lbl_id (labels db')" by (rule inv)
    show "set (current @ [lbl_id l]) \<subseteq> lbl_id ` set (labels db')" using D(2) by (auto simp: db')
    show "lbl_id ` set (labels db0) \<subseteq> lbl_id ` set (labels db')" using D(6) by (auto simp: db')
  next
    fix x assume "x \<in> set (labels db')" "lbl_id x \<in> set (current @ [lbl_id l])"
    then consider "x = l" | "x \<in> set (labels db)" "lbl_id x \<in> set current" using fresh by (auto simp: db')
    then show "lbl_deleted_at x = None \<and> lbl_account_id x = aid \<and> (\<exists>r\<in>insert raw seen. label_matches r x)"
    proof cases
      case 1
      with l show ?thesis by auto
    next
      case 2
      from D(3) [OF this] show ?thesis by blast
    qed
  next
    fix x assume "x \<in> set (labels db')" "lbl_id x \<notin> set (current @ [lbl_id l])"
    then show "x \<in> set (labels db0)" using D(4) [of x] by (auto simp: db')
  next
    fix r assume "r \<in> insert raw seen"
    then show "\<exists>x\<in>set (labels db'). lbl_id x \<in> set (current @ [lbl_id l]) \<and> label_matches r x"
      using l(1) D(5) [of r] by (auto simp: db')
  next
    fix l0 x assume l0: "l0 \<in> set (labels db0)" and x: "x \<in> set (labels db')" "lbl_id x = lbl_id l0"
    from l0 D(6) obtain y where "y \<in> set (labels db)" "lbl_id y = lbl_id l0" by (metis image_iff image_eqI subsetD)
    with fresh [of y] x(2) have "x \<noteq> l" by auto
    with x(1) have "x \<in> set (labels db)" by (simp add: db')
    with D(7) [OF l0] x show "lbl_canonical_name x = lbl_canonical_name l0 \<and> lbl_name x = lbl_name l0 \<and> lbl_account_id x = lbl_account_id l0" by blast
  qed
qed

lemma put_same:
  assumes "t_inv lbl_id t" and "l \<in> set t"
  shows "t_put lbl_id t l = t"
proof -
  have "(if lbl_id x = lbl_id l then l else x) = x" if "x \<in> set t" for x
    using that assms by (metis distinct_map_eq t_inv_def)
  then show ?thesis by (simp add: t_put_def map_idI)
qed

lemma save_raw_label_step:
  assumes at: "labels_at (acc_id acc) db0 seen (db, current)"
    and ok: "save_raw_label acc raw (db, current) = Ok s"
  shows "labels_at (acc_id acc) db0 (if snd raw = Some ''starred'' then seen else insert raw seen) s"
proof (cases "snd raw = Some ''starred''")
  case True
  with ok at show ?thesis by (cases raw) (simp add: save_raw_label_def)
next
  case False
  obtain name role where raw: "raw = (name, role)" by (cases raw)
  from ok False obtain db1 db2 db3 l where
    one: "labels db1 = labels db" "label_find_or_create db1 acc name role = Ok (db2, l)"
      "(if lbl_deleted_at l \<noteq> None then mark_label l None db2 else Ok db2) = Ok db3"
      "s = (db3, if lbl_id l \<in> set current then current else current @ [lbl_id l])"
    by (auto simp: raw save_raw_label_def res_bind_Inr_iff dest: handle_raw_folder_change_labels
        split: option.splits if_split_asm)
  have inv: "t_inv lbl_id (labels db1)" using at one(1) by (simp add: labels_at_def)
  note found = label_find_or_create_rows [OF one(2) inv]
  have same: "labels db3 = t_put lbl_id (labels db2) (l\<lparr>lbl_deleted_at := None\<rparr>)" if "l \<in> set (labels db2)"
  proof (cases "lbl_deleted_at l")
    case None
    then have e: "l\<lparr>lbl_deleted_at := None\<rparr> = l" by simp
    have "t_put lbl_id (labels db2) l = labels db2"
      using that found by (intro put_same) simp_all
    then show ?thesis unfolding e using one(3) None by simp
  next
    case (Some t)
    with one(3) mark_label_labels show ?thesis by simp
  qed
  from found consider "labels db2 = labels db" "l \<in> set (labels db)"
    | "labels db2 = labels db @ [l]" "lbl_deleted_at l = None"
    using one(1) by auto
  then have "labels_at (acc_id acc) db0 (insert raw seen) s"
  proof cases
    case 1
    have "set (if lbl_id l \<in> set current then current else current @ [lbl_id l]) = insert (lbl_id l) (set current)"
      by auto
    with 1 same found one show ?thesis by (simp add: raw labels_at_found [OF at])
  next
    case 2
    have "l \<notin> set (labels db)" using found 2(1) by (auto simp: t_inv_def image_iff)
    moreover have "lbl_id l \<notin> set current"
    proof
      assume "lbl_id l \<in> set current"
      with at have "lbl_id l \<in> lbl_id ` set (labels db)" by (auto simp: labels_at_def)
      with found 2(1) show False by (auto simp: t_inv_def)
    qed
    moreover have "labels_at (acc_id acc) db0 (insert raw seen) (db2, current @ [lbl_id l])"
      using found 2 by (intro labels_at_new [OF at]) (simp_all add: raw)
    ultimately show ?thesis using one 2 by simp
  qed
  with False show ?thesis by simp
qed

lemma save_raw_labels:
  assumes "labels_at (acc_id acc) db0 seen s" and "res_fold (save_raw_label acc) raws s = Ok s'"
  shows "labels_at (acc_id acc) db0 (seen \<union> labelled raws) s'"
  using assms
proof (induction raws arbitrary: seen s)
  case Nil
  then show ?case by (simp add: labelled_def)
next
  case (Cons raw raws)
  obtain db current where s: "s = (db, current)" by (cases s)
  from Cons.prems(2) obtain t where t: "save_raw_label acc raw (db, current) = Ok t"
    and rest: "res_fold (save_raw_label acc) raws t = Ok s'" by (auto simp: s res_bind_Inr_iff)
  have "(if snd raw = Some ''starred'' then seen else insert raw seen) \<union> labelled raws = seen \<union> labelled (raw # raws)"
    by (auto simp: labelled_def)
  with Cons.IH [OF save_raw_label_step [OF Cons.prems(1) [unfolded s] t] rest] show ?case by simp
qed

section \<open>Marking what is gone\<close>

lemma mark_deleted_label_labels:
  assumes "mark_deleted_label now i db = Ok db'" and "t_inv lbl_id (labels db)"
  shows "labels db' = map (\<lambda>l. if lbl_id l = i \<and> lbl_canonical_name l = [] then l\<lparr>lbl_deleted_at := Some now\<rparr> else l) (labels db)"
proof (cases "t_get lbl_id (labels db) i")
  case None
  then have "\<forall>l\<in>set (labels db). lbl_id l \<noteq> i" using assms(2) by (simp add: lbls.get_None_iff)
  with None assms(1) show ?thesis by (simp add: mark_deleted_label_def map_idI)
next
  case (Some l)
  then have l: "l \<in> set (labels db)" "lbl_id l = i" using assms(2) by (simp_all add: lbls.get_Some_iff)
  have uniq: "x = l" if "x \<in> set (labels db)" "lbl_id x = i" for x
    using that l assms(2) by (metis distinct_map_eq t_inv_def)
  show ?thesis
  proof (cases "lbl_canonical_name l = []")
    case True
    with Some assms(1) have "labels db' = t_put lbl_id (labels db) (l\<lparr>lbl_deleted_at := Some now\<rparr>)"
      by (simp add: mark_deleted_label_def mark_label_labels)
    also have "\<dots> = map (\<lambda>x. if lbl_id x = i \<and> lbl_canonical_name x = [] then x\<lparr>lbl_deleted_at := Some now\<rparr> else x) (labels db)"
      unfolding t_put_def using uniq True l(2) by (intro map_cong) auto
    finally show ?thesis .
  next
    case False
    with Some assms(1) uniq show ?thesis by (auto simp: mark_deleted_label_def intro!: map_idI [symmetric])
  qed
qed

lemma mark_deleted_labels_labels:
  assumes "mark_deleted_labels now is db = Ok db'" and "t_inv lbl_id (labels db)"
  shows "labels db' = map (\<lambda>l. if lbl_id l \<in> set is \<and> lbl_canonical_name l = [] then l\<lparr>lbl_deleted_at := Some now\<rparr> else l) (labels db)"
  using assms
proof (induction "is" arbitrary: db)
  case Nil
  then show ?case by (simp add: mark_deleted_labels_def)
next
  case (Cons i "is")
  from Cons.prems(1) obtain db1 where one: "mark_deleted_label now i db = Ok db1"
    and rest: "mark_deleted_labels now is db1 = Ok db'"
    by (auto simp: mark_deleted_labels_def res_bind_Inr_iff)
  note l1 = mark_deleted_label_labels [OF one Cons.prems(2)]
  have "map lbl_id (labels db1) = map lbl_id (labels db)" by (simp add: l1)
  then have "t_inv lbl_id (labels db1)" using Cons.prems(2) by (simp add: t_inv_def)
  from Cons.IH [OF rest this] show ?case by (auto simp: l1)
qed

lemma gmail_labels_follow:
  assumes inv: "t_inv lbl_id (labels db)"
    and ok: "gmail_save_folder_names now aid raws db = (db', Ok renamed)"
    and acc: "t_get acc_id (accounts db) aid = Some acc"
  shows "(\<forall>r\<in>labelled raws. \<exists>l\<in>set (labels db'). lbl_account_id l = aid \<and> lbl_deleted_at l = None \<and> label_matches r l) \<and>
    (\<forall>l\<in>set (labels db'). lbl_account_id l = aid \<and> lbl_deleted_at l = None \<longrightarrow>
       (\<exists>r\<in>labelled raws. label_matches r l) \<or> l \<in> set (labels db) \<and> lbl_canonical_name l \<noteq> []) \<and>
    (\<forall>l\<in>set (labels db). lbl_account_id l \<noteq> aid \<longrightarrow> l \<in> set (labels db')) \<and>
    (live_labels db aid = [] \<longrightarrow> renamed = [])"
proof -
  let ?old = "map lbl_id (live_labels db aid)"
  have aid: "acc_id acc = aid" using accs.get_key [OF acc] by simp
  from ok acc obtain db1 current where loop: "res_fold (save_raw_label acc) raws (db, []) = Ok (db1, current)"
    and marked: "mark_deleted_labels now (filter (\<lambda>i. i \<notin> set current) ?old) (set_sync_should_run_bit acc db1) = Ok db'"
    and renamed: "renamed = (if ?old = [] then [] else
        map lbl_name (List.map_filter (t_get lbl_id (labels db1)) (filter (\<lambda>i. i \<notin> set ?old) current)))"
    unfolding gmail_save_folder_names_def by (auto simp: Let_def split: sum.splits prod.splits)
  have "labels_at aid db {} (db, [])" 
    using inv by (intro labels_atI) (auto dest: distinct_map_eq simp: t_inv_def)
  from save_raw_labels [OF this [folded aid] loop] have at: "labels_at aid db (labelled raws) (db1, current)"
    by (simp add: aid)
  note D = labels_atD [OF at]
  let ?mark = "\<lambda>l. if lbl_id l \<in> set ?old - set current \<and> lbl_canonical_name l = [] then l\<lparr>lbl_deleted_at := Some now\<rparr> else l"
  have "labels (set_sync_should_run_bit acc db1) = labels db1"
    by (simp add: set_sync_should_run_bit_def run_folders_def)
  then have db': "labels db' = map ?mark (labels db1)"
    using mark_deleted_labels_labels [OF marked] D(1) by simp
  have kept: "x \<in> set (labels db')" if "x \<in> set (labels db1)" "lbl_id x \<notin> set ?old \<or> lbl_id x \<in> set current" for x
  proof -
    have "?mark x = x" using that(2) by auto
    moreover have "?mark x \<in> ?mark ` set (labels db1)" using that(1) by (rule imageI)
    ultimately show ?thesis unfolding db' set_map by (rule subst)
  qed
  have one: "\<exists>l\<in>set (labels db'). lbl_account_id l = aid \<and> lbl_deleted_at l = None \<and> label_matches r l"
    if r: "r \<in> labelled raws" for r
  proof -
    from D(5) [OF r] obtain l where l: "l \<in> set (labels db1)" "lbl_id l \<in> set current" "label_matches r l" by blast
    with kept [of l] D(3) [OF l(1,2)] show ?thesis by blast
  qed
  have two: "(\<exists>r\<in>labelled raws. label_matches r l) \<or> l \<in> set (labels db) \<and> lbl_canonical_name l \<noteq> []"
    if l: "l \<in> set (labels db')" "lbl_account_id l = aid" "lbl_deleted_at l = None" for l
  proof -
    from l(1) obtain x where x: "x \<in> set (labels db1)" "l = ?mark x" unfolding db' by auto
    with l(3) have same: "l = x" "\<not> (lbl_id x \<in> set ?old - set current \<and> lbl_canonical_name x = [])"
      by (auto split: if_splits)
    show ?thesis
    proof (cases "lbl_id x \<in> set current")
      case True
      from D(3) [OF x(1) True] same show ?thesis by blast
    next
      case False
      from D(4) [OF x(1) False] have "x \<in> set (labels db)" .
      moreover from this l same have "lbl_id x \<in> set ?old" by (auto simp: live_labels_def)
      ultimately show ?thesis using same False by auto
    qed
  qed
  have three: "l \<in> set (labels db')" if l: "l \<in> set (labels db)" "lbl_account_id l \<noteq> aid" for l
  proof -
    from l(1) D(6) obtain x where x: "x \<in> set (labels db1)" "lbl_id x = lbl_id l" by (metis image_iff image_eqI subsetD)
    have nold: "lbl_id l \<notin> set ?old"
    proof
      assume "lbl_id l \<in> set ?old"
      then obtain y where "y \<in> set (labels db)" "lbl_id y = lbl_id l" "lbl_account_id y = aid"
        by (auto simp: live_labels_def)
      with l inv show False by (metis distinct_map_eq t_inv_def)
    qed
    have "lbl_id x \<notin> set current" using D(3) [OF x(1)] D(7) [OF l(1) x] l(2) by auto
    from D(4) [OF x(1) this] x(2) l(1) inv have "x = l" by (metis distinct_map_eq t_inv_def)
    with x(1) nold kept show ?thesis by blast
  qed
  show ?thesis using one two three renamed by (auto simp: live_labels_def)
qed

end
