(* ===== verification/Props_Monitor.thy ===== *)
theory Props_Monitor
  imports Monitor_Engines Monitor_Labels Samples
begin

text \<open>
  Properties of the mail sync monitor: the folders and labels in the database follow the server's
  list, what happens to the messages of a folder that vanished, and when a folder has one engine.
\<close>

section \<open>Folders and labels\<close>

definition monitor_store :: store where
  "monitor_store = empty_store\<lparr>accounts := [sample_account],
     categories := [\<lparr>cat_id = 1, cat_namespace_id = 1, cat_name = ''inbox'', cat_display_name = ''INBOX'',
        cat_type = ''folder'', cat_deleted_at = 0\<rparr>, \<lparr>cat_id = 2, cat_namespace_id = 1, cat_name = [],
        cat_display_name = ''Work'', cat_type = ''folder'', cat_deleted_at = 0\<rparr>],
     folders := [sample_folder\<lparr>fld_category_id := Some 1\<rparr>,
       sample_folder\<lparr>fld_id := 2, fld_name := ''Work'', fld_canonical_name := [], fld_category_id := Some 2\<rparr>],
     messages := [sample_message 1, sample_message 2],
     imapuids := [sample_uid 1 1 7, (sample_uid 2 2 9)\<lparr>u_folder_id := 2\<rparr>]\<rparr>"

definition monitor_raws :: "raw_folder list" where
  "monitor_raws = [(''INBOX'', Some ''inbox''), (''Sent'', Some ''sent''), (''Trash'', Some ''trash''), (''Spam'', Some ''spam'')]"

lemmas monitor_defs = monitor_store_def monitor_raws_def sample_defs

lemma monitor_store_ok:
  "names_unique monitor_store 1" "t_inv fld_id (folders monitor_store)" "no_dangling monitor_store"
  "\<forall>f\<in>set (account_folders monitor_store 1). fld_category_id f \<noteq> None" "uids_in_folders monitor_store"
  by (simp_all add: monitor_defs names_unique_def account_folders_def t_inv_def no_dangling_def
      has_category_def t_get_def uids_in_folders_def)

text \<open>
  C12: After the folder names of a generic account were saved, its folders are exactly those the
  server listed, each once and with the role of its last entry in the list, whatever folders it
  had before.
\<close>

theorem folders_mirrored:
  assumes "names_unique db aid" and "t_inv fld_id (folders db)" and "no_dangling db"
    and "\<forall>f\<in>set (account_folders db aid). fld_category_id f \<noteq> None"
    and "save_folder_names aid raws db = Ok db'"
  shows "names_unique db' aid \<and>
    role_map db' aid = dict_of (map (\<lambda>(n, r). (sanitize_name n, str_or r [])) raws)"
  using assms by (rule save_folder_names_mirror)

theorem folders_mirrored_witness:
  "\<exists>db'. save_folder_names 1 monitor_raws monitor_store = Ok db' \<and> role_map db' 1 ''Work'' = None \<and>
     role_map db' 1 (sanitize_name ''Sent'') = Some ''sent''"
proof -
  have "case save_folder_names 1 monitor_raws monitor_store of Inl e \<Rightarrow> False | Inr db \<Rightarrow> True" by code_simp
  then obtain db' where ok: "save_folder_names 1 monitor_raws monitor_store = Ok db'"
    by (auto split: sum.splits)
  have "sanitize_name ''INBOX'' \<noteq> ''Work''" "sanitize_name ''Sent'' \<noteq> ''Work''"
    "sanitize_name ''Trash'' \<notin> {''Work'', sanitize_name ''Sent''}" "sanitize_name ''Spam'' \<notin> {''Work'', sanitize_name ''Sent''}"
    by code_simp+
  with folders_mirrored [OF monitor_store_ok(1-4) ok] ok show ?thesis
    by (auto simp: monitor_raws_def str_or_def)
qed

text \<open>
  When a folder has vanished from the server, its UIDs are deleted with it, but a message that
  was only there stays in the database and is not marked as deleted, so that no later garbage
  collection removes it.
\<close>

theorem vanished_folder_leaves_messages:
  assumes "names_unique db aid" and "t_inv fld_id (folders db)" and "no_dangling db"
    and "\<forall>f\<in>set (account_folders db aid). fld_category_id f \<noteq> None" and "uids_in_folders db"
    and "save_folder_names aid raws db = Ok db'"
    and "f \<in> set (account_folders db aid)" and "fld_name f \<notin> remote_names raws"
    and "m \<in> set (messages db)" and "\<forall>u\<in>set (message_uids db (m_id m)). u_folder_id u = fld_id f"
  shows "message_uids db' (m_id m) = [] \<and>
    (\<exists>m'\<in>set (messages db'). m_id m' = m_id m \<and> m_deleted_at m' = m_deleted_at m)"
  using assms by (rule vanished_folder)

theorem vanished_folder_leaves_messages_witness:
  "\<exists>db'. save_folder_names 1 monitor_raws monitor_store = Ok db' \<and> message_uids db' 2 = [] \<and>
     (\<exists>m\<in>set (messages db'). m_id m = 2 \<and> m_deleted_at m = None)"
proof -
  have "case save_folder_names 1 monitor_raws monitor_store of Inl e \<Rightarrow> False | Inr db \<Rightarrow> True" by code_simp
  then obtain db' where ok: "save_folder_names 1 monitor_raws monitor_store = Ok db'"
    by (auto split: sum.splits)
  let ?f = "sample_folder\<lparr>fld_id := 2, fld_name := ''Work'', fld_canonical_name := [], fld_category_id := Some 2\<rparr>"
  have "''Work'' \<notin> remote_names monitor_raws" by code_simp
  then have f: "?f \<in> set (account_folders monitor_store 1)" "fld_name ?f \<notin> remote_names monitor_raws"
    "sample_message 2 \<in> set (messages monitor_store)"
    "\<forall>u\<in>set (message_uids monitor_store (m_id (sample_message 2))). u_folder_id u = fld_id ?f"
    by (simp_all add: monitor_store_def sample_defs account_folders_def message_uids_def)
  from vanished_folder_leaves_messages [OF monitor_store_ok ok f] ok show ?thesis
    by (auto simp: sample_message_def)
qed

text \<open>
  After the labels of a Gmail account were saved there is a live label for every folder the
  server listed, but the starred one; a live label is one of those or has a role; labels of other
  accounts are untouched; and at the first sync no label counts as renamed.
\<close>

theorem labels_follow_remote:
  assumes "t_inv lbl_id (labels db)"
    and "gmail_save_folder_names now aid raws db = (db', Ok renamed)"
    and "t_get acc_id (accounts db) aid = Some acc"
  shows "(\<forall>r\<in>labelled raws. \<exists>l\<in>set (labels db'). lbl_account_id l = aid \<and> lbl_deleted_at l = None \<and> label_matches r l) \<and>
    (\<forall>l\<in>set (labels db'). lbl_account_id l = aid \<and> lbl_deleted_at l = None \<longrightarrow>
       (\<exists>r\<in>labelled raws. label_matches r l) \<or> l \<in> set (labels db) \<and> lbl_canonical_name l \<noteq> []) \<and>
    (\<forall>l\<in>set (labels db). lbl_account_id l \<noteq> aid \<longrightarrow> l \<in> set (labels db')) \<and>
    (live_labels db aid = [] \<longrightarrow> renamed = [])"
  using assms by (rule gmail_labels_follow)

definition gmail_raws :: "raw_folder list" where
  "gmail_raws = [(''[Gmail]/All Mail'', Some ''all''), (''Work'', None), (''[Gmail]/Starred'', Some ''starred'')]"

theorem labels_follow_remote_witness:
  "\<exists>db' renamed. gmail_save_folder_names 5 1 gmail_raws (empty_store\<lparr>accounts := [sample_account]\<rparr>) = (db', Ok renamed) \<and>
     (\<exists>l\<in>set (labels db'). lbl_deleted_at l = None \<and> lbl_name l = sanitize_name ''Work'') \<and> renamed = []"
proof -
  let ?db = "empty_store\<lparr>accounts := [sample_account]\<rparr>"
  have "case snd (gmail_save_folder_names 5 1 gmail_raws ?db) of Inl e \<Rightarrow> False | Inr n \<Rightarrow> True" by code_simp
  then obtain db' renamed where ok: "gmail_save_folder_names 5 1 gmail_raws ?db = (db', Ok renamed)"
    by (cases "gmail_save_folder_names 5 1 gmail_raws ?db") (auto split: sum.splits)
  have inv: "t_inv lbl_id (labels ?db)" "live_labels ?db 1 = []"
    and acc: "t_get acc_id (accounts ?db) 1 = Some sample_account"
    by (simp_all add: sample_defs t_inv_def t_get_def live_labels_def)
  have work: "(''Work'', None) \<in> labelled gmail_raws" by (simp add: labelled_def gmail_raws_def)
  have "\<exists>l\<in>set (labels db'). lbl_deleted_at l = None \<and> label_matches (''Work'', None) l"
    using labels_follow_remote [OF inv(1) ok acc] work by blast
  moreover have "renamed = []" using labels_follow_remote [OF inv(1) ok acc] inv(2) by blast
  ultimately show ?thesis using ok by (auto simp: label_matches_def str_or_def)
qed

section \<open>Engines\<close>

text \<open>
  C13: As long as the folders to sync are listed without repetition, no round of the monitor gives a
  folder a second engine, whichever engines exit before, during and after the listing.
\<close>

theorem one_engine_per_folder:
  assumes "distinct (map (\<lambda>e. en_folder_name (snd e)) (mn_engines (my_mon s)))"
    and "prepare_sync (rd_prepare inp) (on_monitor (exit_engines (rd_before inp)) s) = (s1, Some (Inr names))"
    and "distinct names" and "start_new_folder_sync_engines inp s = (s', r)"
  shows "distinct (map (\<lambda>e. en_folder_name (snd e)) (mn_engines (my_mon s')))"
  using assms by (rule round_distinct)

definition monitor_client :: crispin where
  "monitor_client = \<lparr>cr_account_id = 1, cr_gmail = False, cr_folder_map = Map.empty, cr_selected = None,
     cr_folder_names = None\<rparr>"

definition monitor_mon :: monitor where
  "monitor_mon = \<lparr>mn_saved = None, mn_engines = [], mn_next = 0, mn_started = [], mn_delete_handler = True,
     mn_renames = []\<rparr>"

definition monitor_sys :: mon_sys where
  "monitor_sys = \<lparr>my_account_id = 1, my_namespace_id = 1, my_gmail = False, my_db = monitor_store,
     my_client = monitor_client, my_mon = monitor_mon\<rparr>"

definition monitor_listing :: listing where
  "monitor_listing = [([], ''/'', ''INBOX''), ([], ''/'', ''Sent''), ([], ''/'', ''Trash''), ([], ''/'', ''Spam'')]"

definition monitor_round :: round_input where
  "monitor_round =
     \<lparr>rd_before = {}, rd_prepare = [\<lparr>pt_now = 0, pt_client = Ok None, pt_listing = Ok monitor_listing,
        pt_sync_listing = Ok monitor_listing\<rparr>], rd_during = {}, rd_waits = replicate 4 ({}, True)\<rparr>"

definition monitor_saved :: store where
  "monitor_saved = (case save_folder_names 1 monitor_raws monitor_store of Inl e \<Rightarrow> monitor_store | Inr db \<Rightarrow> db)"

lemma monitor_folders: "crispin_folders monitor_client monitor_listing = Ok monitor_raws"
  by (simp add: crispin_folders_def monitor_client_def monitor_listing_def monitor_raws_def remote_folders_def
      process_folder_def selectable_def default_folder_map_def py_lower_def lower_char_def char_of_def bit_simps
      get_missing_roles_def system_role_names_def bs_def)

lemma monitor_prepare:
  obtains s1 where "prepare_sync (rd_prepare monitor_round) monitor_sys = (s1, Some (Ok [''INBOX'', ''Sent'', ''Trash'', ''Spam'']))"
    and "my_db s1 = monitor_saved" and "my_mon s1 = monitor_mon\<lparr>mn_saved := Some monitor_raws\<rparr>"
proof -
  have "case save_folder_names 1 monitor_raws monitor_store of Inl e \<Rightarrow> False | Inr db \<Rightarrow> True" by code_simp
  then have saved: "save_folder_names 1 monitor_raws monitor_store = Ok monitor_saved"
    by (auto simp: monitor_saved_def split: sum.splits)
  have none: "cr_folder_names monitor_client = None" by (simp add: monitor_client_def)
  let ?names = "[''INBOX'', ''Sent'', ''Trash'', ''Spam'']"
  let ?cr = "monitor_client\<lparr>cr_folder_names := Some (set_names (Some ''inbox'') ?names (group_names monitor_raws))\<rparr>"
  have sync: "generic_sync_folders (Ok monitor_listing) monitor_client = (?cr, Ok ?names)"
    unfolding generic_sync_folders_def st_bind_def folder_names_def
    by (simp add: none monitor_folders group_names_def monitor_raws_def Let_def)
  have client: "client_sync_folders (Ok monitor_listing) monitor_sys = (monitor_sys\<lparr>my_client := ?cr\<rparr>, Ok ?names)"
    by (simp add: client_sync_folders_def monitor_sys_def sync)
  have listed: "list_folders (Ok monitor_listing) monitor_sys = (monitor_sys, Ok monitor_raws)"
    by (simp add: list_folders_def monitor_sys_def monitor_folders)
  let ?s = "monitor_sys\<lparr>my_client := ?cr, my_db := monitor_saved, my_mon := monitor_mon\<lparr>mn_saved := Some monitor_raws\<rparr>\<rparr>"
  have "save_names 0 monitor_raws (monitor_sys\<lparr>my_client := ?cr\<rparr>) =
      (monitor_sys\<lparr>my_client := ?cr, my_db := monitor_saved\<rparr>, Ok ())"
    unfolding save_names_def by (simp add: monitor_sys_def saved [unfolded One_nat_def])
  then have save: "save_if_new 0 monitor_raws (monitor_sys\<lparr>my_client := ?cr\<rparr>) = (?s, Ok ())"
    by (simp add: save_if_new_def st_bind_def on_monitor_def monitor_sys_def monitor_mon_def)
  have "prepare_sync (rd_prepare monitor_round) monitor_sys = (?s, Some (Ok ?names))"
    unfolding prepare_sync_def retry_crispin_def monitor_round_def
    by (simp add: prepare_sync_once_def pool_client_def listed client save)
  then show thesis by (rule that) simp_all
qed

lemma monitor_started:
  "map fst (mn_started (my_mon (fst (start_new_folder_sync_engines monitor_round monitor_sys)))) =
     [''INBOX'', ''Sent'', ''Trash'', ''Spam'']" (is ?names)
  "map (\<lambda>(h, e). length (fsync_rows (my_db (fst (start_new_folder_sync_engines monitor_round monitor_sys)))
      (en_account_id e) (en_folder_id e)))
     (mn_engines (my_mon (fst (start_new_folder_sync_engines monitor_round monitor_sys)))) = [0, 0, 0, 0]" (is ?rows)
proof -
  obtain s1 where s1: "prepare_sync (rd_prepare monitor_round) monitor_sys = (s1, Some (Ok [''INBOX'', ''Sent'', ''Trash'', ''Spam'']))"
    "my_db s1 = monitor_saved" "my_mon s1 = monitor_mon\<lparr>mn_saved := Some monitor_raws\<rparr>"
    by (rule monitor_prepare)
  let ?r = "start_folders (\<lambda>name. new_engine 1 1 name monitor_saved) (running_engines monitor_mon)
      [''INBOX'', ''Sent'', ''Trash'', ''Spam''] (replicate 4 ({}, True)) (monitor_mon\<lparr>mn_saved := Some monitor_raws\<rparr>)"
  have id: "exit_engines {} m = m" for m by (simp add: exit_engines_def)
  have "start_new_folder_sync_engines monitor_round monitor_sys = (s1\<lparr>my_mon := fst ?r\<rparr>, snd ?r)"
    using s1 by (simp add: start_new_folder_sync_engines_def Let_def on_monitor_def id monitor_sys_def monitor_round_def
        split: prod.splits)
  moreover have "map fst (mn_started (fst ?r)) = [''INBOX'', ''Sent'', ''Trash'', ''Spam''] \<and>
      map (\<lambda>(h, e). length (fsync_rows monitor_saved (en_account_id e) (en_folder_id e))) (mn_engines (fst ?r)) = [0, 0, 0, 0]"
    by code_simp
  ultimately show ?names ?rows using s1(2) by simp_all
qed

theorem one_engine_per_folder_witness:
  "distinct (map (\<lambda>e. en_folder_name (snd e)) (mn_engines (my_mon (fst (start_new_folder_sync_engines monitor_round monitor_sys))))) \<and>
   map fst (mn_started (my_mon (fst (start_new_folder_sync_engines monitor_round monitor_sys)))) =
     [''INBOX'', ''Sent'', ''Trash'', ''Spam'']"
proof -
  have id: "on_monitor (exit_engines (rd_before monitor_round)) monitor_sys = monitor_sys"
    by (simp add: monitor_round_def on_monitor_def exit_engines_def)
  obtain s1 where prep: "prepare_sync (rd_prepare monitor_round) (on_monitor (exit_engines (rd_before monitor_round)) monitor_sys) =
      (s1, Some (Ok [''INBOX'', ''Sent'', ''Trash'', ''Spam'']))"
    unfolding id by (rule monitor_prepare)
  have "distinct (map (\<lambda>e. en_folder_name (snd e)) (mn_engines (my_mon monitor_sys)))"
    by (simp add: monitor_sys_def monitor_mon_def)
  from one_engine_per_folder [OF this prep _ prod.collapse [symmetric]] monitor_started(1) show ?thesis by simp
qed

text \<open>
  A generic client that is asked again for the folders to sync before it selects one answers
  every folder but the inbox twice, because it extends its cached list; a round with that answer
  starts two engines for each such folder that has none.
\<close>

theorem cached_names_start_two_engines:
  assumes "cr_folder_names cr = None" and "crispin_folders cr listing = Ok fs"
    and "generic_sync_folders (Ok listing) cr = (cr1, Ok first)"
    and "(n, role) \<in> set fs" and "role \<noteq> Some ''inbox''"
  shows "\<exists>cr2 again. generic_sync_folders other cr1 = (cr2, Ok again) \<and> count_list again n \<ge> 2 \<and>
    (\<forall>mk running ws m m' u. (\<forall>x e. mk x = Ok e \<longrightarrow> en_folder_name e = x) \<and> running n = None \<and>
       start_folders mk running again ws m = (m', Some (Inr u)) \<longrightarrow>
       count_list (map fst (mn_started m')) n \<ge> count_list (map fst (mn_started m)) n + 2)"
proof -
  obtain inbox others cr2 where again: "generic_sync_folders other cr1 = (cr2, Ok (inbox @ others @ others))"
    and n: "\<And>fs n. cr_folder_names cr = None \<Longrightarrow> Ok listing = (Ok listing :: listing res) \<Longrightarrow> crispin_folders cr listing = Ok fs \<Longrightarrow>
      n \<in> fst ` set (filter (\<lambda>f. snd f \<noteq> Some ''inbox'') fs) \<Longrightarrow> n \<in> set others"
    using generic_sync_folders_again [OF assms(3), of other listing] by metis
  have "n \<in> set others" using n [OF assms(1) refl assms(2)] assms(4,5) by force
  then have "count_list others n \<ge> 1" by (metis One_nat_def Suc_leI count_list_0_iff neq0_conv)
  then have two: "count_list (inbox @ others @ others) n \<ge> 2" by (simp add: count_list_append)
  have "count_list (map fst (mn_started m')) n \<ge> count_list (map fst (mn_started m)) n + 2"
    if "(\<forall>x e. mk x = Ok e \<longrightarrow> en_folder_name e = x) \<and> running n = None \<and>
       start_folders mk running (inbox @ others @ others) ws m = (m', Some (Inr u))" for mk running ws m m' u
    using start_folders_count [of mk running "inbox @ others @ others" ws m m' u n] that two by simp
  with again two show ?thesis by blast
qed

theorem cached_names_start_two_engines_witness:
  "\<exists>cr1 first cr2 again. generic_sync_folders (Ok monitor_listing) monitor_client = (cr1, Ok first) \<and>
     generic_sync_folders (Ok []) cr1 = (cr2, Ok again) \<and> count_list again ''Sent'' \<ge> 2"
proof -
  have none: "cr_folder_names monitor_client = None" by (simp add: monitor_client_def)
  then obtain cr1 first where r: "generic_sync_folders (Ok monitor_listing) monitor_client = (cr1, Ok first)"
    by (simp add: generic_sync_folders_def st_bind_def folder_names_def monitor_folders group_names_def monitor_raws_def Let_def)
  from cached_names_start_two_engines [OF none monitor_folders r, of "''Sent''" "Some ''sent''" "Ok []"] r show ?thesis
    by (auto simp: monitor_raws_def)
qed

lemma save_status_stop_rows:
  assumes "save_status (stop_sync now) a f db = Ok (db1, st)" and "fsync_rows db b g = []"
  shows "fsync_rows db1 b g = []"
proof -
  from assms(1) obtain old row where old: "fsync_rows db a f = [old]" and row: "stop_sync now old = Ok row"
    and db1: "db1 = db\<lparr>fsyncs := t_put fs_id (fsyncs db) row\<rparr>"
    by (auto simp: save_status_def stop_sync_def new_status_row_def res_bind_Inr_iff split: list.splits option.splits)
  have "old \<in> set (fsync_rows db a f)" by (simp add: old)
  then have o: "old \<in> set (fsyncs db)" by (simp add: fsync_rows_def)
  have "fs_account_id row = fs_account_id old" "fs_folder_id row = fs_folder_id old"
    using row by (auto simp: stop_sync_def split: option.splits)
  with assms(2) o show ?thesis by (auto simp: fsync_rows_def db1 t_put_def filter_empty_conv)
qed

lemma stop_statuses_fails:
  assumes "e \<in> set es" and "fsync_rows db (en_account_id e) (en_folder_id e) = []"
  shows "\<exists>db' x. stop_statuses now es db = (db', Inl x)"
  using assms
proof (induction es arbitrary: db)
  case (Cons e' es)
  show ?case
  proof (cases "save_status (stop_sync now) (en_account_id e') (en_folder_id e') db")
    case (Inl x)
    then show ?thesis by simp
  next
    case (Inr r)
    obtain db1 st where r: "r = (db1, st)" by (cases r)
    have "e' \<noteq> e" using Cons.prems(2) Inr by (auto simp: save_status_def new_status_row_def stop_sync_def)
    with Cons.prems save_status_stop_rows [OF Inr [unfolded r]] have "e \<in> set es"
      "fsync_rows db1 (en_account_id e) (en_folder_id e) = []" by auto
    with Cons.IH Inr r show ?thesis by simp
  qed
qed simp

text \<open>
  A monitor that is killed while one of its engines has not yet written its status row fails
  to clean up: the exception of that row keeps all engines running.
\<close>

theorem kill_leaves_engines:
  assumes "(h, e) \<in> set (mn_engines (my_mon s))"
    and "fsync_rows (my_db s) (en_account_id e) (en_folder_id e) = []"
  shows "\<exists>s' x. monitor_cleanup now s = (s', Inl x) \<and> mn_engines (my_mon s') = mn_engines (my_mon s)"
proof -
  have "e \<in> set (map snd (mn_engines (my_mon s)))" using assms(1) by force
  from stop_statuses_fails [OF this assms(2), of now] show ?thesis by (auto simp: monitor_cleanup_def)
qed

theorem kill_leaves_engines_witness:
  "\<exists>s' x. monitor_cleanup 9 (fst (start_new_folder_sync_engines monitor_round monitor_sys)) = (s', Inl x) \<and>
     length (mn_engines (my_mon s')) = 4"
proof -
  let ?s = "fst (start_new_folder_sync_engines monitor_round monitor_sys)"
  obtain h e es where e: "mn_engines (my_mon ?s) = (h, e) # es"
    "fsync_rows (my_db ?s) (en_account_id e) (en_folder_id e) = []" "length (mn_engines (my_mon ?s)) = 4"
    using monitor_started(2) by (auto simp: map_eq_Cons_conv)
  then have "(h, e) \<in> set (mn_engines (my_mon ?s))" by simp
  from kill_leaves_engines [OF this e(2), of 9] e(3) show ?thesis by metis
qed

end
