(* ===== verification/Api_Validation.thy ===== *)
theory Api_Validation
  imports Event_Model Category_Model "HOL-Library.Word"
begin

text \<open>
  The arguments of API requests: public ids (\<open>inbox/sqlalchemy_ext/util.py\<close>) and the validators of
  \<open>inbox/api/validation.py\<close>. A validator gives the value the request handler goes on with or the
  exception that becomes the client's error message. A request body is JSON.
\<close>

section \<open>Public ids\<close>

text \<open>A public id is a base-36 number, stored in 128 bits; larger and negative numbers wrap around.\<close>

definition b36_to_bin :: "string \<Rightarrow> 128 word res" where
  "b36_to_bin s = res_bind (base36decode s) (\<lambda>n. Ok (word_of_int n))"

definition int128_to_b36 :: "128 word \<Rightarrow> string res" where
  "int128_to_b36 w = res_bind (base36encode (uint w)) (\<lambda>s. Ok (py_lower s))"

text \<open>Comparing a public-id column with a text; an empty text is NULL and finds nothing.\<close>

definition has_public_id :: "string \<Rightarrow> 128 word \<Rightarrow> bool" where
  "has_public_id s w \<longleftrightarrow> s \<noteq> [] \<and> b36_to_bin s = Ok w"

section \<open>Arguments of a query\<close>

definition MAX_LIMIT :: int where "MAX_LIMIT = 1000"

definition bounded_str :: "string \<Rightarrow> string res" where
  "bounded_str value = (if length value > 255 then Raise (ValueError ''too long'') else Ok value)"

fun parse_addresses :: "addr_parser \<Rightarrow> string list \<Rightarrow> string list res" where
  "parse_addresses parse [] = Ok []"
| "parse_addresses parse (a # as) =
     (case parse a of
        None \<Rightarrow> Raise (InputError ''Invalid recipient address'')
      | Some (mailbox, host) \<Rightarrow>
          res_bind (parse_addresses parse as) (\<lambda>rest. Ok (py_join ''@'' [mailbox, host] # rest)))"

definition comma_separated_email_list :: "addr_parser \<Rightarrow> string \<Rightarrow> string list res" where
  "comma_separated_email_list parse value =
     (let addresses = split_from '','' [] value
      in if length addresses > 25 then Raise (InputError ''Too many emails. The current limit is 25'')
         else parse_addresses parse addresses)"

definition strict_bool :: "string \<Rightarrow> bool res" where
  "strict_bool value =
     (if py_lower value \<notin> {''true'', ''false''} then Raise (ValueError ''Value must be \"true\" or \"false\"'')
      else Ok (py_lower value = ''true''))"

definition view_arg :: "string \<Rightarrow> string res" where
  "view_arg value =
     (if value \<in> {''count'', ''ids'', ''expanded''} then Ok value else Raise (ValueError ''Unknown view type''))"

definition limit_arg :: "string \<Rightarrow> int res" where
  "limit_arg value =
     (case py_int 10 value of
        Inl _ \<Rightarrow> Raise (ValueError ''Limit parameter must be an integer.'')
      | Inr n \<Rightarrow>
          if n < 0 then Raise (ValueError ''Limit parameter must be nonnegative.'')
          else if n > MAX_LIMIT then Raise (ValueError ''Cannot request more than 1000 resources at once.'')
          else Ok n)"

definition offset_arg :: "string \<Rightarrow> int res" where
  "offset_arg value =
     (case py_int 10 value of
        Inl _ \<Rightarrow> Raise (ValueError ''Offset parameter must be an integer.'')
      | Inr n \<Rightarrow> if n < 0 then Raise (ValueError ''Offset parameter must be nonnegative.'') else Ok n)"

text \<open>The time parser of the library raises two kinds of exceptions.\<close>

definition timestamp_arg :: "(string \<Rightarrow> datetime res) \<Rightarrow> string \<Rightarrow> datetime res" where
  "timestamp_arg arrow_get value =
     (case arrow_get value of
        Inr t \<Rightarrow> Ok t
      | Inl (ValueError m) \<Rightarrow> Raise (ValueError ''Invalid timestamp value'')
      | Inl ParserError \<Rightarrow> Raise (ValueError ''Invalid datetime value'')
      | Inl e \<Rightarrow> Raise e)"

definition valid_public_id :: "json \<Rightarrow> string res" where
  "valid_public_id value =
     (case value of
        JStr s \<Rightarrow> (case py_int 36 s of Inr _ \<Rightarrow> Ok s | Inl _ \<Rightarrow> Raise (InputError ''Invalid id''))
      | _ \<Rightarrow> Raise (InputError ''Invalid id''))"

text \<open>Arguments the parser does not know are rejected after the known ones were parsed.\<close>

definition strict_parse_args :: "string list \<Rightarrow> 'a res \<Rightarrow> string list \<Rightarrow> 'a res" where
  "strict_parse_args allowed parsed raw_args =
     res_bind parsed (\<lambda>args.
       if set raw_args - set allowed \<noteq> {} then Raise (InputError ''Unexpected query parameters'') else Ok args)"

definition valid_account :: "account_row \<Rightarrow> unit res" where
  "valid_account acc =
     (if acc_sync_state acc = Some Invalid then Raise AccountInvalidError
      else if acc_sync_state acc = Some Stopped then Raise AccountStoppedError else Ok ())"

text \<open>\<open>in\<close> on the text of the route is a search for a part of it.\<close>

definition valid_category_type :: "string \<Rightarrow> string \<Rightarrow> string res" where
  "valid_category_type category_type rule =
     (if \<not> str_contains category_type rule \<and> category_type \<in> {''label'', ''folder''} then Raise NotFoundError
      else Ok category_type)"

section \<open>Drafts, messages, threads and attachments\<close>

definition MAX_MYSQL_INTEGER :: nat where "MAX_MYSQL_INTEGER = 2147483647"

definition is_sending :: "message_row \<Rightarrow> bool" where
  "is_sending m \<longleftrightarrow> m_version m = MAX_MYSQL_INTEGER \<and> \<not> m_is_draft m"

text \<open>The public id of a row as it is stored; a message keeps its own text.\<close>

definition messages_with_id :: "store \<Rightarrow> nat \<Rightarrow> string \<Rightarrow> message_row list" where
  "messages_with_id db nid s =
     filter (\<lambda>m. m_namespace_id m = nid \<and> s \<noteq> [] \<and> b36_to_bin s = b36_to_bin (m_public_id m)) (messages db)"

definition one_message :: "store \<Rightarrow> nat \<Rightarrow> string \<Rightarrow> exc \<Rightarrow> message_row res" where
  "one_message db nid s missing =
     (case query_one (messages_with_id db nid s) of
        Inr m \<Rightarrow> Ok m
      | Inl e \<Rightarrow> Raise (if e = NoResultFound then missing else e))"

definition get_sending_draft :: "store \<Rightarrow> nat \<Rightarrow> json \<Rightarrow> message_row res" where
  "get_sending_draft db nid draft_public_id =
     res_bind (valid_public_id draft_public_id) (\<lambda>s.
     res_bind (one_message db nid s NotFoundError) (\<lambda>draft.
       if m_is_sent draft \<or> \<not> is_sending draft then Raise (InputError ''not a multi-send draft'') else Ok draft))"

text \<open>\<open>int(version)\<close> of a JSON value: numbers and booleans are numbers, other values raise TypeError.\<close>

definition json_int :: "json \<Rightarrow> int res" where
  "json_int v =
     (case v of
        JNum n \<Rightarrow> Ok n
      | JBool b \<Rightarrow> Ok (if b then 1 else 0)
      | JStr s \<Rightarrow> py_int 10 s
      | _ \<Rightarrow> Raise TypeError)"

definition get_draft :: "store \<Rightarrow> nat \<Rightarrow> json \<Rightarrow> json \<Rightarrow> message_row res" where
  "get_draft db nid draft_public_id version =
     res_bind (valid_public_id draft_public_id) (\<lambda>s.
       if version = JNull then Raise (InputError ''Must specify draft version'')
       else res_bind
         (case json_int version of
            Inr n \<Rightarrow> Ok n
          | Inl (ValueError m) \<Rightarrow> Raise (InputError ''Invalid draft version'')
          | Inl e \<Rightarrow> Raise e)
         (\<lambda>v. res_bind (one_message db nid s NotFoundError) (\<lambda>draft.
           if m_is_sent draft \<or> \<not> m_is_draft draft then Raise (InputError ''not a draft'')
           else if int (m_version draft) \<noteq> v then Raise ConflictError
           else Ok draft)))"

record block_row =
  bl_id :: nat
  bl_namespace_id :: nat
  bl_public_id :: "128 word"
  bl_filename :: "string option"
  bl_content_type_common :: "string option"
  bl_content_type_other :: "string option"

fun find_blocks :: "block_row list \<Rightarrow> nat \<Rightarrow> json list \<Rightarrow> nat list \<Rightarrow> nat list res" where
  "find_blocks blocks nid [] found = Ok found"
| "find_blocks blocks nid (v # vs) found =
     res_bind (valid_public_id v) (\<lambda>s.
       case query_one (filter (\<lambda>b. has_public_id s (bl_public_id b) \<and> bl_namespace_id b = nid) blocks) of
         Inr b \<Rightarrow> find_blocks blocks nid vs (if bl_id b \<in> set found then found else found @ [bl_id b])
       | Inl e \<Rightarrow> Raise (if e = NoResultFound then InputError ''Invalid block public id'' else e))"

definition get_attachments :: "block_row list \<Rightarrow> nat \<Rightarrow> json \<Rightarrow> nat list res" where
  "get_attachments blocks nid block_public_ids =
     (case block_public_ids of
        JNull \<Rightarrow> Ok []
      | JList ids \<Rightarrow> find_blocks blocks nid ids []
      | _ \<Rightarrow> Raise (InputError ''not a list of block ids''))"

definition get_message :: "store \<Rightarrow> nat \<Rightarrow> json \<Rightarrow> message_row option res" where
  "get_message db nid message_public_id =
     (if message_public_id = JNull then Ok None
      else res_bind (valid_public_id message_public_id) (\<lambda>s.
           res_bind (one_message db nid s (InputError ''Invalid message public id'')) (\<lambda>m. Ok (Some m))))"

text \<open>The public id of a thread is a function of its row id.\<close>

definition get_thread :: "(nat \<Rightarrow> 128 word) \<Rightarrow> store \<Rightarrow> nat \<Rightarrow> json \<Rightarrow> thread_row option res" where
  "get_thread pid db nid thread_public_id =
     (if thread_public_id = JNull then Ok None
      else res_bind (valid_public_id thread_public_id) (\<lambda>s.
        case query_one (filter (\<lambda>th. has_public_id s (pid (th_id th)) \<and> th_deleted_at th = None \<and>
               th_namespace_id th = nid) (threads db)) of
          Inr th \<Rightarrow> Ok (Some th)
        | Inl e \<Rightarrow> Raise (if e = NoResultFound then InputError ''Invalid thread public id'' else e)))"

definition get_calendar :: "(nat \<Rightarrow> 128 word) \<Rightarrow> calendar_row list \<Rightarrow> nat \<Rightarrow> json \<Rightarrow> calendar_row res" where
  "get_calendar pid cals nid calendar_public_id =
     res_bind (valid_public_id calendar_public_id) (\<lambda>s.
       case query_one (filter (\<lambda>c. has_public_id s (pid (cal_id c)) \<and> cal_namespace_id c = nid) cals) of
         Inr c \<Rightarrow> Ok c
       | Inl e \<Rightarrow> Raise (if e = NoResultFound then NotFoundError else e))"

section \<open>Recipients\<close>

definition is_jstr :: "json \<Rightarrow> bool" where
  "is_jstr v \<longleftrightarrow> (case v of JStr _ \<Rightarrow> True | _ \<Rightarrow> False)"

definition valid_recipient :: "json \<Rightarrow> bool" where
  "valid_recipient r \<longleftrightarrow>
     (case r of
        JDict d \<Rightarrow>
          (case map_of d ''email'' of None \<Rightarrow> False | Some v \<Rightarrow> is_jstr v) \<and>
          (case map_of d ''name'' of None \<Rightarrow> True | Some v \<Rightarrow> is_jstr v)
      | _ \<Rightarrow> False)"

text \<open>\<open>r.get(key, '')\<close>\<close>

definition text_at :: "json \<Rightarrow> string \<Rightarrow> string" where
  "text_at r key =
     (case r of
        JDict d \<Rightarrow> (case map_of d key of Some (JStr s) \<Rightarrow> s | _ \<Rightarrow> [])
      | _ \<Rightarrow> [])"

definition get_recipients :: "json \<Rightarrow> (string \<times> string) list option res" where
  "get_recipients recipients =
     (case recipients of
        JNull \<Rightarrow> Ok None
      | JList rs \<Rightarrow>
          (if \<forall>r\<in>set rs. valid_recipient r
           then Ok (Some (map (\<lambda>r. (text_at r ''name'', text_at r ''email'')) rs))
           else Raise (InputError ''Invalid field''))
      | _ \<Rightarrow> Raise (InputError ''Invalid field''))"

text \<open>An address field of a draft is a list of pairs.\<close>

definition plausible_field :: "addr_parser \<Rightarrow> (string \<times> string) list \<Rightarrow> bool" where
  "plausible_field parse field \<longleftrightarrow> (\<forall>(name, email)\<in>set field. parse email \<noteq> None)"

definition validate_draft_recipients :: "addr_parser \<Rightarrow> message_row \<Rightarrow> unit res" where
  "validate_draft_recipients parse draft =
     (if m_to draft = [] \<and> m_bcc draft = [] \<and> m_cc draft = [] then Raise (InputError ''No recipients specified'')
      else if \<forall>field\<in>{m_to draft, m_bcc draft, m_cc draft}. plausible_field parse field then Ok ()
      else Raise (InputError ''Invalid recipient address''))"

section \<open>Events\<close>

type_synonym when_parser = "json \<Rightarrow> datetime res"

definition valid_when :: "(string set \<Rightarrow> string list) \<Rightarrow> when_parser \<Rightarrow> json \<Rightarrow> unit res" where
  "valid_when order parse when =
     (case when of
        JDict d \<Rightarrow>
          (case parse_as_when order parse d of
             Inr w \<Rightarrow> Ok ()
           | Inl (ValueError m) \<Rightarrow> Raise (InputError m)
           | Inl ParserError \<Rightarrow> Raise (InputError ''ParserError'')
           | Inl e \<Rightarrow> Raise e)
      | _ \<Rightarrow> Raise AttributeError)"

definition REPLIES :: "json set" where
  "REPLIES = {JStr ''yes'', JStr ''no'', JStr ''maybe'', JStr ''noreply''}"

text \<open>
  \<open>key in p\<close> of a participant: a key of an object, a part of a text, a member of a list; other
  values are not iterable. Indexing a text or a list by a text raises TypeError.
\<close>

definition json_in :: "string \<Rightarrow> json \<Rightarrow> bool res" where
  "json_in key p =
     (case p of
        JDict d \<Rightarrow> Ok (map_of d key \<noteq> None)
      | JStr s \<Rightarrow> Ok (str_contains key s)
      | JList vs \<Rightarrow> Ok (JStr key \<in> set vs)
      | _ \<Rightarrow> Raise TypeError)"

definition json_at :: "json \<Rightarrow> string \<Rightarrow> json res" where
  "json_at p key =
     (case p of
        JDict d \<Rightarrow> (case map_of d key of None \<Rightarrow> Raise KeyError | Some v \<Rightarrow> Ok v)
      | _ \<Rightarrow> Raise TypeError)"

definition check_reply :: "json \<Rightarrow> unit res" where
  "check_reply p =
     res_bind (json_in ''status'' p) (\<lambda>b.
       if b then res_bind (json_at p ''status'') (\<lambda>v.
              if v \<in> REPLIES then Ok () else Raise (InputError ''participants status''))
       else Ok ())"

text \<open>Whether the library takes a value for an address, which may raise on what is no text, is a parameter.\<close>

type_synonym email_check = "json \<Rightarrow> bool res"

definition check_participant :: "email_check option \<Rightarrow> json \<Rightarrow> unit res" where
  "check_participant check p =
     res_bind (json_in ''email'' p) (\<lambda>b.
       if \<not> b then Raise (InputError ''participants must have email'')
       else res_bind
              (case check of
                 None \<Rightarrow> Ok True
               | Some c \<Rightarrow> res_bind (json_at p ''email'') c)
              (\<lambda>ok. if ok then check_reply p else Raise (InputError ''not a valid email'')))"

definition check_participants :: "email_check option \<Rightarrow> json \<Rightarrow> unit res" where
  "check_participants check ps =
     (case ps of
        JList rs \<Rightarrow> res_all (check_participant check) rs
      | JDict d \<Rightarrow> res_all (check_participant check) (map (JStr \<circ> fst) d)
      | JStr s \<Rightarrow> res_all (check_participant check) (map (\<lambda>c. JStr [c]) s)
      | _ \<Rightarrow> Raise TypeError)"

definition is_jbool :: "json \<Rightarrow> bool" where
  "is_jbool v \<longleftrightarrow> (case v of JBool _ \<Rightarrow> True | _ \<Rightarrow> False)"

definition valid_event ::
  "(string set \<Rightarrow> string list) \<Rightarrow> when_parser \<Rightarrow> email_check \<Rightarrow> (string \<times> json) list \<Rightarrow> unit res" where
  "valid_event order parse_time check event =
     (case map_of event ''when'' of
        None \<Rightarrow> Raise (InputError ''Must specify when when creating an event.'')
      | Some w \<Rightarrow>
          res_bind (valid_when order parse_time w) (\<lambda>_.
            if jget_or_null event ''busy'' \<noteq> JNull \<and> \<not> is_jbool (jget_or_null event ''busy'')
            then Raise (InputError ''busy must be true or false'')
            else (let ps = jget_or_null event ''participants''
                  in check_participants (Some check) (if ps = JNull then JList [] else ps))))"

text \<open>An update need not have a time; a given null is not accepted, and addresses are not parsed.\<close>

definition valid_event_update ::
  "(string set \<Rightarrow> string list) \<Rightarrow> when_parser \<Rightarrow> (string \<times> json) list \<Rightarrow> unit res" where
  "valid_event_update order parse_time event =
     res_bind (case map_of event ''when'' of None \<Rightarrow> Ok () | Some w \<Rightarrow> valid_when order parse_time w) (\<lambda>_.
       if (case map_of event ''busy'' of None \<Rightarrow> False | Some v \<Rightarrow> \<not> is_jbool v)
       then Raise (InputError ''busy must be true or false'')
       else check_participants None (case map_of event ''participants'' of None \<Rightarrow> JList [] | Some ps \<Rightarrow> ps))"

text \<open>
  The fields an update may change. A copy of the event is changed and both are compared as they are
  shown: participants by their addresses, in any order.
\<close>

record event_changes =
  cg_title :: "string option option"
  cg_description :: "string option option"
  cg_location :: "string option option"
  cg_when :: "(string \<times> json) list option"
  cg_participants :: "participant list option"
  cg_busy :: "bool option"

definition changed_event :: "when_parser \<Rightarrow> when_parser \<Rightarrow> event_changes \<Rightarrow> event_row \<Rightarrow> event_row res" where
  "changed_event time_parse date_parse c e =
     (let e1 = validated (e\<lparr>ev_title := (case cg_title c of None \<Rightarrow> ev_title e | Some t \<Rightarrow> t),
            ev_description := (case cg_description c of None \<Rightarrow> ev_description e | Some t \<Rightarrow> t),
            ev_location := (case cg_location c of None \<Rightarrow> ev_location e | Some t \<Rightarrow> t)\<rparr>)
      in res_bind (case cg_when c of None \<Rightarrow> Ok e1 | Some w \<Rightarrow> set_when time_parse date_parse w e1) (\<lambda>e2.
           Ok (e2\<lparr>ev_participants := (case cg_participants c of None \<Rightarrow> ev_participants e2 | Some ps \<Rightarrow> ps),
                  ev_busy := (case cg_busy c of None \<Rightarrow> ev_busy e2 | Some b \<Rightarrow> b)\<rparr>)))"

definition by_email :: "participant list \<Rightarrow> (json \<times> participant) list res" where
  "by_email ps =
     res_fold (\<lambda>p t. case map_of p ''email'' of None \<Rightarrow> Raise KeyError | Some e \<Rightarrow> Ok (table_put t e p)) ps []"

definition same_reply :: "participant \<Rightarrow> participant \<Rightarrow> bool" where
  "same_reply p q \<longleftrightarrow>
     jget_or_null p ''status'' = jget_or_null q ''status'' \<and> jget_or_null p ''comment'' = jget_or_null q ''comment''"

definition same_participants :: "(json \<times> participant) list \<Rightarrow> (json \<times> participant) list \<Rightarrow> bool" where
  "same_participants s t \<longleftrightarrow>
     length s = length t \<and>
     (\<forall>(email, p)\<in>set s. case map_of t email of None \<Rightarrow> False | Some q \<Rightarrow> same_reply p q)"

definition shown_fields :: "event_row \<Rightarrow> string option \<times> string option \<times> string option \<times> event_when \<times> bool" where
  "shown_fields e = (ev_title e, ev_description e, ev_location e, when_of_event e, ev_busy e)"

definition noop_event_update :: "when_parser \<Rightarrow> when_parser \<Rightarrow> event_row \<Rightarrow> event_changes \<Rightarrow> bool res" where
  "noop_event_update time_parse date_parse event c =
     res_bind (changed_event time_parse date_parse c event) (\<lambda>e.
       if shown_fields e \<noteq> shown_fields event then Ok False
       else res_bind (by_email (ev_participants e)) (\<lambda>s.
            res_bind (by_email (ev_participants event)) (\<lambda>t. Ok (same_participants s t))))"

section \<open>Deltas and categories\<close>

definition allowed_types :: "string list" where
  "allowed_types =
     [''contact'', ''message'', ''event'', ''file'', ''thread'', ''calendar'', ''draft'', ''folder'', ''label'']"

definition valid_delta_object_types :: "string \<Rightarrow> string list res" where
  "valid_delta_object_types types_arg =
     (let types = map py_strip (split_from '','' [] types_arg)
      in if set types \<subseteq> set allowed_types then Ok types else Raise (InputError ''Invalid object type''))"

text \<open>Names are compared without regard to case.\<close>

definition valid_display_name :: "store \<Rightarrow> nat \<Rightarrow> string \<Rightarrow> json \<Rightarrow> string res" where
  "valid_display_name db nid category_type display_name =
     (case display_name of
        JStr s \<Rightarrow>
          (let name = py_rstrip s
           in if length name > MAX_INDEXABLE_LENGTH then Raise (InputError ''too long'')
              else if \<exists>c\<in>set (categories db). cat_namespace_id c = nid \<and> lowercase_name c = py_lower name \<and>
                        cat_type c = category_type \<and> cat_deleted_at c = EPOCH
              then Raise (InputError ''already exists'')
              else Ok name)
      | _ \<Rightarrow> Raise (InputError ''must be a valid string''))"

end
