(* ===== verification/Api_Update.thy ===== *)
theory Api_Update
  imports Api_Validation Syncback Imap_Models Mail_Threading
begin

text \<open>
  \<open>inbox/api/update.py\<close>: a client changes the flags, the folder or the labels of a message or of all
  messages of a thread. The change is written to the action log for the provider and, when updates
  are optimistic, made in the database at once. A request runs in one transaction, so an
  exception undoes it all. The order in which a set of labels is iterated is that of the
  lists given.
\<close>

section \<open>The request body\<close>

type_synonym request = "(string \<times> json) list"

text \<open>\<open>request_data.pop(key, default)\<close>\<close>

definition request_pop :: "string \<Rightarrow> json \<Rightarrow> request \<Rightarrow> json \<times> request" where
  "request_pop key d req =
     ((case map_of req key of None \<Rightarrow> d | Some v \<Rightarrow> v), filter (\<lambda>(k, _). k \<noteq> key) req)"

fun json_truthy :: "json \<Rightarrow> bool" where
  "json_truthy JNull = False"
| "json_truthy (JBool b) = b"
| "json_truthy (JNum n) = (n \<noteq> 0)"
| "json_truthy (JStr s) = (s \<noteq> [])"
| "json_truthy (JList vs) = (vs \<noteq> [])"
| "json_truthy (JDict d) = (d \<noteq> [])"

definition parse_flag :: "string \<Rightarrow> request \<Rightarrow> (bool option \<times> request) res" where
  "parse_flag key req =
     (let (v, rest) = request_pop key JNull req
      in case v of
           JNull \<Rightarrow> Ok (None, rest)
         | JBool b \<Rightarrow> Ok (Some b, rest)
         | _ \<Rightarrow> Raise (InputError ''must be true or false''))"

definition parse_flags :: "request \<Rightarrow> (bool option \<times> bool option \<times> request) res" where
  "parse_flags req =
     res_bind (parse_flag ''unread'' req) (\<lambda>(unread, req1).
     res_bind (parse_flag ''starred'' req1) (\<lambda>(starred, req2). Ok (unread, starred, req2)))"

text \<open>\<open>pop(first, d) or pop(second, d)\<close>: the second key is only removed when the first gives nothing.\<close>

definition pop_either :: "string \<Rightarrow> string \<Rightarrow> json \<Rightarrow> request \<Rightarrow> json \<times> request" where
  "pop_either first second d req =
     (let (v, req1) = request_pop first d req
      in if json_truthy v then (v, req1) else request_pop second d req1)"

definition category_by_id :: "(nat \<Rightarrow> 128 word) \<Rightarrow> store \<Rightarrow> nat \<Rightarrow> json \<Rightarrow> category_row res" where
  "category_by_id pid db nid v =
     res_bind (valid_public_id v) (\<lambda>s.
       case query_one (filter (\<lambda>c. cat_namespace_id c = nid \<and> has_public_id s (pid (cat_id c))) (categories db)) of
         Inr c \<Rightarrow> Ok c
       | Inl e \<Rightarrow> Raise (if e = NoResultFound then InputError ''does not exist'' else e))"

definition parse_folder ::
  "(nat \<Rightarrow> 128 word) \<Rightarrow> store \<Rightarrow> nat \<Rightarrow> request \<Rightarrow> (category_row option \<times> request) res" where
  "parse_folder pid db nid req =
     (if map_of req ''folder_id'' = None \<and> map_of req ''folder'' = None then Ok (None, req)
      else (let (v, rest) = pop_either ''folder_id'' ''folder'' JNull req
            in if v = JNull then Raise (InputError ''Removing all folders is not allowed.'')
               else res_bind (category_by_id pid db nid v) (\<lambda>c. Ok (Some c, rest))))"

fun find_labels :: "(nat \<Rightarrow> 128 word) \<Rightarrow> store \<Rightarrow> nat \<Rightarrow> json list \<Rightarrow> nat list \<Rightarrow> nat list res" where
  "find_labels pid db nid [] found = Ok found"
| "find_labels pid db nid (v # vs) found =
     res_bind (category_by_id pid db nid v) (\<lambda>c.
       find_labels pid db nid vs (if cat_id c \<in> set found then found else found @ [cat_id c]))"

text \<open>All ids are validated before the first is looked up.\<close>

definition parse_labels ::
  "(nat \<Rightarrow> 128 word) \<Rightarrow> store \<Rightarrow> nat \<Rightarrow> request \<Rightarrow> (nat list option \<times> request) res" where
  "parse_labels pid db nid req =
     (if map_of req ''label_ids'' = None \<and> map_of req ''labels'' = None then Ok (None, req)
      else (let (v, rest) = pop_either ''label_ids'' ''labels'' (JList []) req
            in if \<not> json_truthy v then Raise (InputError ''Removing all labels is not allowed.'')
               else case v of
                 JList ids \<Rightarrow>
                   res_bind (res_all (\<lambda>i. res_bind (valid_public_id i) (\<lambda>_. Ok ())) ids) (\<lambda>_.
                   res_bind (find_labels pid db nid ids []) (\<lambda>ls. Ok (Some ls, rest)))
               | _ \<Rightarrow> Raise (InputError ''labels must be a list'')))"

section \<open>Flags\<close>

definition save_message :: "store \<Rightarrow> message_row \<Rightarrow> store" where
  "save_message db m = db\<lparr>messages := t_put m_id (messages db) m\<rparr>"

definition log_change :: "datetime \<Rightarrow> message_row \<Rightarrow> string \<Rightarrow> (string \<times> json) list \<Rightarrow> store \<Rightarrow> store res" where
  "log_change now m action args db = schedule_action now action ''message'' (m_id m) (m_namespace_id m) args db"

definition update_unread ::
  "datetime \<Rightarrow> bool \<Rightarrow> bool option \<Rightarrow> store \<times> message_row \<Rightarrow> (store \<times> message_row) res" where
  "update_unread now optimistic unread s =
     (case (unread, s) of
        (Some u, (db, m)) \<Rightarrow>
          (if u = m_is_read m
           then (let m1 = (if optimistic then m\<lparr>m_is_read := \<not> u\<rparr> else m)
                 in res_bind (log_change now m1 ''mark_unread'' [(''unread'', JBool u)] (save_message db m1))
                      (\<lambda>db1. Ok (db1, m1)))
           else Ok s)
      | (None, _) \<Rightarrow> Ok s)"

definition update_starred ::
  "datetime \<Rightarrow> bool \<Rightarrow> bool option \<Rightarrow> store \<times> message_row \<Rightarrow> (store \<times> message_row) res" where
  "update_starred now optimistic starred s =
     (case (starred, s) of
        (Some b, (db, m)) \<Rightarrow>
          (if b \<noteq> m_is_starred m
           then (let m1 = (if optimistic then m\<lparr>m_is_starred := b\<rparr> else m)
                 in res_bind (log_change now m1 ''mark_starred'' [(''starred'', JBool b)] (save_message db m1))
                      (\<lambda>db1. Ok (db1, m1)))
           else Ok s)
      | (None, _) \<Rightarrow> Ok s)"

definition update_message_flags ::
  "datetime \<Rightarrow> bool \<Rightarrow> bool option \<Rightarrow> bool option \<Rightarrow> store \<times> message_row \<Rightarrow> (store \<times> message_row) res" where
  "update_message_flags now optimistic unread starred s =
     res_bind (update_unread now optimistic unread s) (update_starred now optimistic starred)"

section \<open>Folders\<close>

definition update_message_folder ::
  "datetime \<Rightarrow> bool \<Rightarrow> category_row \<Rightarrow> store \<times> message_row \<Rightarrow> (store \<times> message_row) res" where
  "update_message_folder now optimistic c s =
     (case s of (db, m) \<Rightarrow>
        if Some (cat_id c) \<in> set (m_categories m) then Ok s
        else (let m1 = (if optimistic then m\<lparr>m_categories := [Some (cat_id c)], m_categories_changes := True\<rparr> else m)
              in res_bind (log_change now m1 ''move'' [(''destination'', JStr (cat_display_name c))] (save_message db m1))
                   (\<lambda>db1. Ok (db1, m1))))"

section \<open>Labels\<close>

text \<open>A category id without a row is the object \<open>None\<close>, which has no name.\<close>

definition cat_of :: "store \<Rightarrow> nat option \<Rightarrow> category_row option" where
  "cat_of db c = Option.bind c (t_get cat_id (categories db))"

definition cat_name_of :: "store \<Rightarrow> nat option \<Rightarrow> string res" where
  "cat_name_of db c = (case cat_of db c of None \<Rightarrow> Raise AttributeError | Some r \<Rightarrow> Ok (cat_name r))"

fun names_of :: "store \<Rightarrow> nat option list \<Rightarrow> string list res" where
  "names_of db [] = Ok []"
| "names_of db (c # cs) = res_bind (cat_name_of db c) (\<lambda>n. res_bind (names_of db cs) (\<lambda>ns. Ok (n # ns)))"

definition validate_labels :: "store \<Rightarrow> nat option list \<Rightarrow> nat option list \<Rightarrow> unit res" where
  "validate_labels db added removed =
     res_bind (names_of db added) (\<lambda>add.
       if (''all'' \<in> set add \<and> (''trash'' \<in> set add \<or> ''spam'' \<in> set add)) \<or> (''trash'' \<in> set add \<and> ''spam'' \<in> set add)
       then Raise (InputError ''Only one of all, trash or spam can be added'')
       else res_bind (names_of db removed) (\<lambda>remove.
         if ''all'' \<in> set remove \<and> ''trash'' \<in> set remove \<and> ''spam'' \<in> set remove
         then Raise (InputError ''all, trash and spam cannot all be removed'') else Ok ()))"

definition special_label_map :: "string \<rightharpoonup> string" where
  "special_label_map =
     [''inbox'' \<mapsto> bs ''Inbox'', ''important'' \<mapsto> bs ''Important'', ''all'' \<mapsto> bs ''All'', ''trash'' \<mapsto> bs ''Trash'',
      ''spam'' \<mapsto> bs ''Spam'']"

fun label_strings :: "store \<Rightarrow> nat option list \<Rightarrow> string list res" where
  "label_strings db [] = Ok []"
| "label_strings db (c # cs) =
     (case cat_of db c of
        None \<Rightarrow> Raise AttributeError
      | Some r \<Rightarrow>
          res_bind
            (case special_label_map (cat_name r) of
               Some l \<Rightarrow> Ok l
             | None \<Rightarrow> if cat_name r \<in> {''drafts'', ''sent''} then Raise (InputError ''label cannot be changed'')
                       else Ok (cat_display_name r))
            (\<lambda>l. res_bind (label_strings db cs) (\<lambda>ls. Ok (l # ls))))"

definition cats_add :: "nat option \<Rightarrow> nat option list \<Rightarrow> nat option list" where
  "cats_add c cs = (if c \<in> set cs then cs else cs @ [c])"

definition cats_discard :: "nat option \<Rightarrow> nat option list \<Rightarrow> nat option list" where
  "cats_discard c cs = filter (\<lambda>x. x \<noteq> c) cs"

definition folder_names_kept :: "string set" where
  "folder_names_kept = {''all'', ''trash'', ''spam''}"

text \<open>The names to add and to discard: each name in the list overwrites what the earlier ones asked for.\<close>

definition label_rule :: "string \<Rightarrow> string set \<times> string set \<Rightarrow> string set \<times> string set" where
  "label_rule name r =
     (case r of (add, discard) \<Rightarrow>
        if name = ''all'' then (add, {''trash'', ''spam''})
        else if name = ''trash'' then (add, {''all'', ''spam'', ''inbox''})
        else if name = ''spam'' then (add, {''all'', ''trash'', ''inbox''})
        else if name = ''inbox'' then ({''all''}, {''trash'', ''spam''})
        else r)"

definition named_categories :: "store \<Rightarrow> nat option list \<Rightarrow> (string \<times> nat) list" where
  "named_categories db cs =
     List.map_filter (\<lambda>c. case cat_of db c of
        Some r \<Rightarrow> if cat_name r = [] then None else Some (cat_name r, cat_id r)
      | None \<Rightarrow> None) cs"

definition add_all_label :: "store \<Rightarrow> nat \<Rightarrow> string set \<Rightarrow> (string \<rightharpoonup> nat) \<Rightarrow> nat option list \<Rightarrow> nat option list res" where
  "add_all_label db nid add named cs =
     (if ''all'' \<in> add \<and> named ''all'' = None
      then res_bind (query_one (filter (\<lambda>c. cat_namespace_id c = nid \<and> cat_name c = ''all'') (categories db)))
             (\<lambda>c. Ok (cats_add (Some (cat_id c)) cs))
      else Ok cs)"

definition discard_named :: "string set \<Rightarrow> (string \<rightharpoonup> nat) \<Rightarrow> nat option list \<Rightarrow> nat option list" where
  "discard_named discard named cs =
     filter (\<lambda>c. case c of None \<Rightarrow> True | Some i \<Rightarrow> \<forall>n\<in>discard. named n \<noteq> Some i) cs"

definition apply_gmail_label_rules ::
  "store \<Rightarrow> nat \<Rightarrow> nat option list \<Rightarrow> nat option list \<Rightarrow> nat option list res" where
  "apply_gmail_label_rules db nid added cs =
     res_bind (names_of db cs) (\<lambda>_.
     res_bind (names_of db added) (\<lambda>names.
     (case fold label_rule names ({}, {}) of (add, discard) \<Rightarrow>
        res_bind (add_all_label db nid add (dict_of (named_categories db cs)) cs)
          (\<lambda>cs1. Ok (discard_named discard (dict_of (named_categories db cs)) cs1)))))"

definition changed_labels :: "store \<Rightarrow> nat \<Rightarrow> nat option list \<Rightarrow> nat option list \<Rightarrow> nat option list \<Rightarrow> nat option list res" where
  "changed_labels db nid added removed cs =
     (let cs1 = fold cats_add added cs;
          gone = filter (\<lambda>c. case cat_of db c of None \<Rightarrow> True | Some r \<Rightarrow> cat_name r \<notin> folder_names_kept) removed
      in apply_gmail_label_rules db nid added (fold cats_discard gone cs1))"

definition relabelled ::
  "store \<Rightarrow> bool \<Rightarrow> nat option list \<Rightarrow> nat option list \<Rightarrow> bool \<Rightarrow> message_row \<Rightarrow> message_row res" where
  "relabelled db optimistic added removed changed m =
     (if optimistic
      then res_bind (changed_labels db (m_namespace_id m) added removed (m_categories m)) (\<lambda>cs.
             Ok (m\<lparr>m_categories := cs, m_categories_changes := m_categories_changes m \<or> changed\<rparr>))
      else Ok m)"

definition log_labels :: "datetime \<Rightarrow> string list \<Rightarrow> string list \<Rightarrow> message_row \<Rightarrow> store \<Rightarrow> store res" where
  "log_labels now removed_labels added_labels m db =
     (if removed_labels \<noteq> [] \<or> added_labels \<noteq> []
      then log_change now m ''change_labels''
             [(''removed_labels'', JList (map JStr removed_labels)), (''added_labels'', JList (map JStr added_labels))] db
      else Ok db)"

definition update_message_labels ::
  "datetime \<Rightarrow> bool \<Rightarrow> nat option list \<Rightarrow> nat option list \<Rightarrow> store \<times> message_row \<Rightarrow> (store \<times> message_row) res" where
  "update_message_labels now optimistic added removed s =
     (case s of (db, m) \<Rightarrow>
        res_bind (validate_labels db added removed) (\<lambda>_.
        res_bind (label_strings db added) (\<lambda>added_labels.
        res_bind (label_strings db removed) (\<lambda>removed_labels.
        res_bind (relabelled db optimistic added removed (removed_labels \<noteq> [] \<or> added_labels \<noteq> []) m) (\<lambda>m1.
        res_bind (log_labels now removed_labels added_labels m1 (save_message db m1)) (\<lambda>db1. Ok (db1, m1)))))))"

section \<open>Messages and threads\<close>

record update_env =
  ue_now :: datetime
  ue_optimistic :: bool
  ue_pid :: "nat \<Rightarrow> 128 word"
  ue_order :: "nat option set \<Rightarrow> nat option list"

definition update_message :: "update_env \<Rightarrow> account_row \<Rightarrow> request \<Rightarrow> message_row \<Rightarrow> store \<Rightarrow> (store \<times> message_row) res" where
  "update_message env acc req m db =
     res_bind (parse_flags req) (\<lambda>(unread, starred, req1).
     res_bind (update_message_flags (ue_now env) (ue_optimistic env) unread starred (db, m)) (\<lambda>(db1, m1).
       if acc_provider acc = ''gmail''
       then res_bind (parse_labels (ue_pid env) db1 (m_namespace_id m1) req1) (\<lambda>(labels, _).
              case labels of
                None \<Rightarrow> Ok (db1, m1)
              | Some ls \<Rightarrow>
                  (let new = Some ` set ls; old = set (m_categories m1)
                   in update_message_labels (ue_now env) (ue_optimistic env) (ue_order env (new - old))
                        (ue_order env (old - new)) (db1, m1)))
       else res_bind (parse_folder (ue_pid env) db1 (m_namespace_id m1) req1) (\<lambda>(folder, _).
              case folder of
                None \<Rightarrow> Ok (db1, m1)
              | Some c \<Rightarrow> update_message_folder (ue_now env) (ue_optimistic env) c (db1, m1))))"

text \<open>A loop over the messages of a thread, each read from the store when its turn comes.\<close>

fun each_message ::
  "(message_row \<Rightarrow> bool res) \<Rightarrow> (store \<times> message_row \<Rightarrow> (store \<times> message_row) res) \<Rightarrow> nat list \<Rightarrow> store \<Rightarrow> store res" where
  "each_message wanted f [] db = Ok db"
| "each_message wanted f (i # is) db =
     (case t_get m_id (messages db) i of
        None \<Rightarrow> each_message wanted f is db
      | Some m \<Rightarrow>
          res_bind (wanted m) (\<lambda>b.
          res_bind (if b then res_bind (f (db, m)) (\<lambda>(db1, _). Ok db1) else Ok db) (each_message wanted f is)))"

text \<open>Drafts and sent messages, and those with a category named sent, do not move with their thread.\<close>

definition moves_with_thread :: "store \<Rightarrow> message_row \<Rightarrow> bool res" where
  "moves_with_thread db m =
     (if m_is_draft m \<or> m_is_sent m then Ok False
      else res_bind (names_of db (m_categories m)) (\<lambda>ns. Ok (''sent'' \<notin> set ns)))"

definition relabel_thread :: "update_env \<Rightarrow> request \<Rightarrow> thread_row \<Rightarrow> store \<Rightarrow> store res" where
  "relabel_thread env req th db =
     res_bind (parse_labels (ue_pid env) db (th_namespace_id th) req) (\<lambda>(labels, rest).
       if rest \<noteq> [] then Raise (InputError ''Unexpected attribute'')
       else case labels of
         None \<Rightarrow> Ok db
       | Some ls \<Rightarrow>
           (let ms = thread_messages db (th_id th); new = Some ` set ls; old = thread_categories ms
            in each_message (\<lambda>m. Ok (\<not> m_is_draft m))
                 (update_message_labels (ue_now env) (ue_optimistic env) (ue_order env (new - old)) (ue_order env (old - new)))
                 (map m_id ms) db))"

definition refile_thread :: "update_env \<Rightarrow> request \<Rightarrow> thread_row \<Rightarrow> store \<Rightarrow> store res" where
  "refile_thread env req th db =
     res_bind (parse_folder (ue_pid env) db (th_namespace_id th) req) (\<lambda>(folder, rest).
       if rest \<noteq> [] then Raise (InputError ''Unexpected attribute'')
       else case folder of
         None \<Rightarrow> Ok db
       | Some c \<Rightarrow>
           each_message (moves_with_thread db) (update_message_folder (ue_now env) (ue_optimistic env) c)
             (map m_id (thread_messages db (th_id th))) db)"

definition update_thread :: "update_env \<Rightarrow> account_row \<Rightarrow> request \<Rightarrow> thread_row \<Rightarrow> store \<Rightarrow> store res" where
  "update_thread env acc req th db =
     res_bind (parse_flags req) (\<lambda>(unread, starred, req1).
     res_bind (if acc_provider acc = ''gmail'' then relabel_thread env req1 th db else refile_thread env req1 th db)
       (each_message (\<lambda>m. Ok (\<not> m_is_draft m)) (update_message_flags (ue_now env) (ue_optimistic env) unread starred)
          (map m_id (thread_messages db (th_id th)))))"

end
