(* ===== verification/Update_Proofs.thy ===== *)
theory Update_Proofs
  imports Api_Update
begin

text \<open>
  What a client's update keeps: the frame of the changes, the categories of a message in its
  namespace, and the folder a Gmail message is in.
\<close>

section \<open>Frame\<close>

lemma log_change_Ok:
  assumes "log_change now m action args db = Inr db'"
  obtains l where "db' = db\<lparr>actionlogs := actionlogs db @ [l]\<rparr>" "al_record_id l = m_id m" "al_action l = action"
    "al_extra_args l = args"
  using assms by (auto simp: log_change_def schedule_action_def t_add_def split: option.splits)

text \<open>The parts of a message an update may change.\<close>

definition fixed_part :: "message_row \<Rightarrow> message_row" where
  "fixed_part m = m\<lparr>m_is_read := False, m_is_starred := False, m_categories := [], m_categories_changes := False\<rparr>"

lemma fixed_part_simps [simp]:
  "fixed_part (m\<lparr>m_is_read := b\<rparr>) = fixed_part m" "fixed_part (m\<lparr>m_is_starred := b\<rparr>) = fixed_part m"
  "fixed_part (m\<lparr>m_categories := cs\<rparr>) = fixed_part m" "fixed_part (m\<lparr>m_categories_changes := b\<rparr>) = fixed_part m"
  by (simp_all add: fixed_part_def)

lemma fixed_part_sels [simp]:
  "m_id (fixed_part m) = m_id m" "m_namespace_id (fixed_part m) = m_namespace_id m" "m_is_draft (fixed_part m) = m_is_draft m"
  "m_is_sent (fixed_part m) = m_is_sent m" "m_thread_id (fixed_part m) = m_thread_id m"
  by (simp_all add: fixed_part_def)

lemma fixed_part_eqD:
  assumes "fixed_part m = fixed_part m'"
  shows "m_id m = m_id m'" "m_namespace_id m = m_namespace_id m'" "m_is_draft m = m_is_draft m'"
    "m_is_sent m = m_is_sent m'" "m_thread_id m = m_thread_id m'"
  using assms by (metis fixed_part_sels)+

text \<open>One change of a message: the row is saved, and entries about it are logged.\<close>

definition changes_one :: "store \<times> message_row \<Rightarrow> store \<times> message_row \<Rightarrow> bool" where
  "changes_one s t \<longleftrightarrow> fixed_part (snd t) = fixed_part (snd s) \<and>
     (\<exists>ls. actionlogs (fst t) = actionlogs (fst s) @ ls \<and> (\<forall>l\<in>set ls. al_record_id l = m_id (snd s))) \<and>
     (messages (fst t) = messages (fst s) \<and> snd t = snd s \<or> messages (fst t) = t_put m_id (messages (fst s)) (snd t)) \<and>
     categories (fst t) = categories (fst s) \<and> threads (fst t) = threads (fst s) \<and> accounts (fst t) = accounts (fst s)"

lemma changes_one_refl [simp]: "changes_one s s"
  by (simp add: changes_one_def)

lemma t_put_put: "key r = key s \<Longrightarrow> t_put key (t_put key t r) s = t_put key t s"
  by (auto simp: t_put_def)

lemma changes_one_trans:
  assumes "changes_one s t" and "changes_one t u"
  shows "changes_one s u"
proof -
  have fixed: "fixed_part (snd u) = fixed_part (snd t)" "fixed_part (snd t) = fixed_part (snd s)"
    using assms unfolding changes_one_def by simp_all
  then have ids: "m_id (snd u) = m_id (snd t)" "m_id (snd t) = m_id (snd s)" by (metis fixed_part_sels(1))+
  obtain ks ls where "actionlogs (fst t) = actionlogs (fst s) @ ks" "\<forall>l\<in>set ks. al_record_id l = m_id (snd s)"
    "actionlogs (fst u) = actionlogs (fst t) @ ls" "\<forall>l\<in>set ls. al_record_id l = m_id (snd t)"
    using assms unfolding changes_one_def by blast
  then have logs: "actionlogs (fst u) = actionlogs (fst s) @ (ks @ ls)" "\<forall>l\<in>set (ks @ ls). al_record_id l = m_id (snd s)"
    using ids by auto
  have rows: "messages (fst u) = messages (fst s) \<and> snd u = snd s \<or> messages (fst u) = t_put m_id (messages (fst s)) (snd u)"
    using assms ids unfolding changes_one_def by (auto simp: t_put_put)
  have "categories (fst u) = categories (fst s) \<and> threads (fst u) = threads (fst s) \<and> accounts (fst u) = accounts (fst s)"
    using assms unfolding changes_one_def by simp
  with fixed logs rows show ?thesis unfolding changes_one_def by (intro conjI exI [of _ "ks @ ls"]) simp_all
qed

lemma changes_one_save: "fixed_part m' = fixed_part m \<Longrightarrow> changes_one (db, m) (save_message db m', m')"
  by (simp add: changes_one_def save_message_def)

lemma changes_one_log:
  assumes "fixed_part m' = fixed_part m" and "log_change now m' action args (save_message db m') = Inr db'"
  shows "changes_one (db, m) (db', m')"
proof -
  from assms(2) obtain l where "db' = (save_message db m')\<lparr>actionlogs := actionlogs (save_message db m') @ [l]\<rparr>"
    "al_record_id l = m_id m'" by (rule log_change_Ok)
  with fixed_part_eqD(1) [OF assms(1)] assms(1) show ?thesis by (simp add: changes_one_def save_message_def)
qed

lemma unread_change_one: "update_unread now opt unread s = Inr t \<Longrightarrow> changes_one s t"
  by (cases s; cases unread) (auto simp: update_unread_def Let_def res_simps intro!: changes_one_log split: if_splits)

lemma starred_change_one: "update_starred now opt starred s = Inr t \<Longrightarrow> changes_one s t"
  by (cases s; cases starred) (auto simp: update_starred_def Let_def res_simps intro!: changes_one_log split: if_splits)

lemma flags_change_one: "update_message_flags now opt unread starred s = Inr t \<Longrightarrow> changes_one s t"
  by (auto simp: update_message_flags_def res_simps intro: changes_one_trans unread_change_one starred_change_one)

lemma folder_change_one: "update_message_folder now opt c s = Inr t \<Longrightarrow> changes_one s t"
  by (cases s) (auto simp: update_message_folder_def Let_def res_simps intro!: changes_one_log split: if_splits)

lemma relabelled_fixed: "relabelled db opt added removed b m = Inr m1 \<Longrightarrow> fixed_part m1 = fixed_part m"
  by (auto simp: relabelled_def res_simps split: if_splits)

lemma labels_change_one:
  assumes "update_message_labels now opt added removed s = Inr t"
  shows "changes_one s t"
proof -
  obtain db m db' m1 where s: "s = (db, m)" and t: "t = (db', m1)" by (cases s, cases t)
  from assms obtain rl al b where m1: "relabelled db opt added removed b m = Inr m1"
    and log: "log_labels now rl al m1 (save_message db m1) = Inr db'"
    by (fastforce simp: update_message_labels_def s t res_simps)
  note fixed = relabelled_fixed [OF m1]
  show ?thesis
  proof (cases "rl \<noteq> [] \<or> al \<noteq> []")
    case True
    with log fixed show ?thesis by (auto simp: s t log_labels_def intro: changes_one_log)
  next
    case False
    with log fixed show ?thesis by (auto simp: s t log_labels_def intro: changes_one_save)
  qed
qed

section \<open>All messages of a thread\<close>

lemma each_message_keeps:
  assumes "each_message wanted f ids db = Inr db'" and "P db"
    and "\<And>s m t m'. m_id m \<in> set ids \<Longrightarrow> wanted m = Inr True \<Longrightarrow> m \<in> set (messages s) \<Longrightarrow> P s \<Longrightarrow>
           f (s, m) = Inr (t, m') \<Longrightarrow> P t"
  shows "P db'"
  using assms
proof (induction ids arbitrary: db)
  case (Cons i ids)
  show ?case
  proof (cases "t_get m_id (messages db) i")
    case None
    with Cons.prems Cons.IH [of db] show ?thesis by auto
  next
    case (Some m)
    then have m: "m_id m = i" "m \<in> set (messages db)" by (auto dest: t_get_SomeD)
    from Some Cons.prems(1) obtain b db1 where b: "wanted m = Inr b"
      and db1: "(if b then res_bind (f (db, m)) (\<lambda>(db1, _). Ok db1) else Ok db) = Inr db1"
      and rest: "each_message wanted f ids db1 = Inr db'"
      by (auto simp: res_simps)
    have "P db1"
    proof (cases b)
      case True
      with db1 obtain m' where "f (db, m) = Inr (db1, m')" by (auto simp: res_simps)
      with True b m Cons.prems(2,3) show ?thesis by auto
    qed (use db1 Cons.prems(2) in simp)
    show ?thesis
    proof (rule Cons.IH [OF rest \<open>P db1\<close>])
      fix m s t m'
      assume "m_id m \<in> set ids" "wanted m = Inr True" "m \<in> set (messages s)" "P s" "f (s, m) = Inr (t, m')"
      then show "P t" using Cons.prems(3) [of m s t m'] by simp
    qed
  qed
qed simp

text \<open>Every message is still there, with the same fixed part.\<close>

definition same_messages :: "store \<Rightarrow> store \<Rightarrow> bool" where
  "same_messages db db' \<longleftrightarrow> map fixed_part (messages db') = map fixed_part (messages db)"

lemma map_t_put: "(\<And>x. x \<in> set t \<Longrightarrow> key x = key r \<Longrightarrow> g x = g r) \<Longrightarrow> map g (t_put key t r) = map g t"
  by (auto simp: t_put_def)

lemma changes_one_same:
  assumes "changes_one (db, m) (db', m')" and "m \<in> set (messages db)" and "t_inv m_id (messages db)"
  shows "same_messages db db' \<and> t_inv m_id (messages db') \<and> categories db' = categories db"
proof -
  from assms(1) have fixed: "fixed_part m' = fixed_part m" and cats: "categories db' = categories db"
    and rows: "messages db' = messages db \<or> messages db' = t_put m_id (messages db) m'"
    by (auto simp: changes_one_def)
  from fixed have id: "m_id m' = m_id m" by (metis fixed_part_sels(1))
  have "map fixed_part (t_put m_id (messages db) m') = map fixed_part (messages db)"
  proof (rule map_t_put)
    fix x assume "x \<in> set (messages db)" "m_id x = m_id m'"
    with assms(2,3) id have "x = m" by (auto simp: t_inv_def dest: distinct_map_eq)
    with fixed show "fixed_part x = fixed_part m'" by simp
  qed
  moreover have "t_inv m_id (t_put m_id (messages db) m')" using assms(3) by (rule msgs.inv_put)
  ultimately show ?thesis using rows cats assms(3) by (auto simp: same_messages_def)
qed

text \<open>A message that is not the changed one keeps its row.\<close>

lemma changes_one_other:
  assumes "changes_one (db, m) (db', m')" and "x \<in> set (messages db)" and "m_id x \<noteq> m_id m"
  shows "x \<in> set (messages db')"
proof -
  from assms(1) have "m_id m' = m_id m" unfolding changes_one_def by (metis fixed_part_sels(1) snd_conv)
  with assms show ?thesis by (auto simp: changes_one_def msgs.set_put)
qed

lemma changes_one_self:
  assumes "changes_one (db, m) (db', m')" and "m \<in> set (messages db)"
  shows "m' \<in> set (messages db')"
proof -
  from assms(1) have "m_id m' = m_id m" unfolding changes_one_def by (metis fixed_part_sels(1) snd_conv)
  with assms show ?thesis by (auto simp: changes_one_def msgs.set_put)
qed

text \<open>What holds before a thread is updated and is kept by every change of a message holds afterwards.\<close>

lemma moves_with_thread_True: "moves_with_thread db m = Inr True \<Longrightarrow> \<not> m_is_draft m \<and> \<not> m_is_sent m"
  by (auto simp: moves_with_thread_def split: if_splits)

lemma update_thread_keeps:
  assumes run: "update_thread env acc req th db = Inr db'" and P: "P db"
    and labels: "\<And>added removed s m t m' ls r rest. acc_provider acc = ''gmail'' \<Longrightarrow>
       parse_labels (ue_pid env) db (th_namespace_id th) r = Inr (Some ls, rest) \<Longrightarrow>
       added = ue_order env (Some ` set ls - thread_categories (thread_messages db (th_id th))) \<Longrightarrow>
       m_id m \<in> m_id ` set (thread_messages db (th_id th)) \<Longrightarrow> \<not> m_is_draft m \<Longrightarrow> m \<in> set (messages s) \<Longrightarrow> P s \<Longrightarrow>
       update_message_labels (ue_now env) (ue_optimistic env) added removed (s, m) = Inr (t, m') \<Longrightarrow> P t"
    and folder: "\<And>s m t m' c r rest. acc_provider acc \<noteq> ''gmail'' \<Longrightarrow>
       parse_folder (ue_pid env) db (th_namespace_id th) r = Inr (Some c, rest) \<Longrightarrow>
       m_id m \<in> m_id ` set (thread_messages db (th_id th)) \<Longrightarrow> \<not> m_is_draft m \<Longrightarrow> \<not> m_is_sent m \<Longrightarrow>
       m \<in> set (messages s) \<Longrightarrow> P s \<Longrightarrow>
       update_message_folder (ue_now env) (ue_optimistic env) c (s, m) = Inr (t, m') \<Longrightarrow> P t"
    and flags: "\<And>s m t m' unread starred. m_id m \<in> m_id ` set (thread_messages db (th_id th)) \<Longrightarrow> \<not> m_is_draft m \<Longrightarrow>
       m \<in> set (messages s) \<Longrightarrow> P s \<Longrightarrow>
       update_message_flags (ue_now env) (ue_optimistic env) unread starred (s, m) = Inr (t, m') \<Longrightarrow> P t"
  shows "P db'"
proof -
  from run obtain unread starred req1 db1 where
    moved: "(if acc_provider acc = ''gmail'' then relabel_thread env req1 th db else refile_thread env req1 th db) = Inr db1"
    and flagged: "each_message (\<lambda>m. Ok (\<not> m_is_draft m))
        (update_message_flags (ue_now env) (ue_optimistic env) unread starred)
        (map m_id (thread_messages db (th_id th))) db1 = Inr db'"
    by (auto simp: update_thread_def res_simps)
  have "P db1"
  proof (cases "acc_provider acc = ''gmail''")
    case True
    with moved have "relabel_thread env req1 th db = Inr db1" by simp
    then obtain lso rest where parsed: "parse_labels (ue_pid env) db (th_namespace_id th) req1 = Inr (lso, rest)"
      and each: "(case lso of None \<Rightarrow> Ok db
         | Some ls \<Rightarrow>
           (let ms = thread_messages db (th_id th); new = Some ` set ls; old = thread_categories ms
            in each_message (\<lambda>m. Ok (\<not> m_is_draft m))
                 (update_message_labels (ue_now env) (ue_optimistic env) (ue_order env (new - old)) (ue_order env (old - new)))
                 (map m_id ms) db)) = Inr db1"
      by (auto simp: relabel_thread_def res_simps split: if_splits)
    show ?thesis
    proof (cases lso)
      case (Some ls)
      note each = each [unfolded Some option.case Let_def]
      show ?thesis
        by (rule each_message_keeps [where P = P, OF each P])
          (rule labels [OF True parsed [unfolded Some] refl], simp_all)
    qed (use each P in simp)
  next
    case False
    with moved have "refile_thread env req1 th db = Inr db1" by simp
    then obtain fo rest where parsed: "parse_folder (ue_pid env) db (th_namespace_id th) req1 = Inr (fo, rest)"
      and each: "(case fo of None \<Rightarrow> Ok db
         | Some c \<Rightarrow>
           each_message (moves_with_thread db) (update_message_folder (ue_now env) (ue_optimistic env) c)
             (map m_id (thread_messages db (th_id th))) db) = Inr db1"
      by (auto simp: refile_thread_def res_simps split: if_splits)
    show ?thesis
    proof (cases fo)
      case (Some c)
      note each = each [unfolded Some option.case]
      show ?thesis
        by (rule each_message_keeps [where P = P, OF each P])
          (rule folder [OF False parsed [unfolded Some]], auto dest: moves_with_thread_True)
    qed (use each P in simp)
  qed
  then show ?thesis
    by (rule each_message_keeps [where P = P, OF flagged]) (rule flags, simp_all)
qed

text \<open>Drafts, and messages of other threads, keep their rows.\<close>

lemma update_thread_spares:
  assumes inv: "t_inv m_id (messages db)" and x: "x \<in> set (messages db)"
    and spared: "m_is_draft x \<or> m_thread_id x \<noteq> Some (th_id th)"
    and run: "update_thread env acc req th db = Inr db'"
  shows "x \<in> set (messages db')"
proof -
  let ?P = "\<lambda>s. t_inv m_id (messages s) \<and> x \<in> set (messages s)"
  let ?ids = "m_id ` set (thread_messages db (th_id th))"
  have other: "m_id x \<noteq> m_id m" if m: "m_id m \<in> ?ids" "\<not> m_is_draft m" "m \<in> set (messages s)" and "?P s" for s m
  proof
    assume eq: "m_id x = m_id m"
    with m that(4) have "x = m" by (auto simp: t_inv_def dest: distinct_map_eq)
    with m(2) spared have thread: "m_thread_id x \<noteq> Some (th_id th)" by simp
    from m(1) eq obtain y where "y \<in> set (messages db)" "m_thread_id y = Some (th_id th)" "m_id y = m_id x"
      by (auto simp: thread_messages_set)
    with inv x have "y = x" by (auto simp: t_inv_def dest: distinct_map_eq)
    with thread \<open>m_thread_id y = Some (th_id th)\<close> show False by simp
  qed
  have step: "?P t" if "m_id m \<in> ?ids" "\<not> m_is_draft m" "m \<in> set (messages s)" "?P s" "changes_one (s, m) (t, m')" for s m t m'
    using changes_one_same [OF that(5,3)] changes_one_other [OF that(5)] other [OF that(1-4)] that(4) by auto
  have "?P db'"
  proof (rule update_thread_keeps [where P = ?P, OF run])
    show "?P db" using inv x by blast
  next
    fix added removed s m t m'
    assume "m_id m \<in> ?ids" "\<not> m_is_draft m" "m \<in> set (messages s)" "?P s"
      "update_message_labels (ue_now env) (ue_optimistic env) added removed (s, m) = Inr (t, m')"
    then show "?P t" by (rule step [OF _ _ _ _ labels_change_one])
  next
    fix s m t m' c
    assume "m_id m \<in> ?ids" "\<not> m_is_draft m" "m \<in> set (messages s)" "?P s"
      "update_message_folder (ue_now env) (ue_optimistic env) c (s, m) = Inr (t, m')"
    then show "?P t" by (rule step [OF _ _ _ _ folder_change_one])
  next
    fix s m t m' unread starred
    assume "m_id m \<in> ?ids" "\<not> m_is_draft m" "m \<in> set (messages s)" "?P s"
      "update_message_flags (ue_now env) (ue_optimistic env) unread starred (s, m) = Inr (t, m')"
    then show "?P t" by (rule step [OF _ _ _ _ flags_change_one])
  qed
  then show ?thesis by simp
qed

lemma unread_keeps_categories: "update_unread now opt unread s = Inr t \<Longrightarrow> m_categories (snd t) = m_categories (snd s)"
  by (cases s; cases unread) (auto simp: update_unread_def Let_def res_simps split: if_splits)

lemma starred_keeps_categories: "update_starred now opt starred s = Inr t \<Longrightarrow> m_categories (snd t) = m_categories (snd s)"
  by (cases s; cases starred) (auto simp: update_starred_def Let_def res_simps split: if_splits)

lemma flags_keep_categories:
  assumes "update_message_flags now opt unread starred s = Inr t"
  shows "m_categories (snd t) = m_categories (snd s)"
proof -
  from assms obtain u where "update_unread now opt unread s = Inr u" "update_starred now opt starred u = Inr t"
    by (auto simp: update_message_flags_def res_simps)
  then show ?thesis using unread_keeps_categories starred_keeps_categories by metis
qed

text \<open>Outside Gmail, sent messages keep their folder.\<close>

lemma update_thread_keeps_sent:
  assumes inv: "t_inv m_id (messages db)" and x: "x \<in> set (messages db)" and sent: "m_is_sent x"
    and provider: "acc_provider acc \<noteq> ''gmail''" and run: "update_thread env acc req th db = Inr db'"
  shows "\<exists>y\<in>set (messages db'). m_id y = m_id x \<and> m_categories y = m_categories x"
proof -
  let ?P = "\<lambda>s. t_inv m_id (messages s) \<and>
    (\<exists>y\<in>set (messages s). m_id y = m_id x \<and> m_is_sent y \<and> m_categories y = m_categories x)"
  have step: "?P t" if "m \<in> set (messages s)" "?P s" "changes_one (s, m) (t, m')"
      "\<not> m_is_sent m \<or> m_categories m' = m_categories m" for s m t m'
  proof -
    from that(2) obtain y where y: "y \<in> set (messages s)" "m_id y = m_id x" "m_is_sent y" "m_categories y = m_categories x"
      by blast
    have inv: "t_inv m_id (messages t)" using changes_one_same [OF that(3,1)] that(2) by simp
    show ?thesis
    proof (cases "m_id y = m_id m")
      case True
      with y(1) that(1,2) have "y = m" by (auto simp: t_inv_def dest: distinct_map_eq)
      with y that(4) have "m_categories m' = m_categories x" by simp
      moreover from that(3) have "fixed_part m' = fixed_part m" by (simp add: changes_one_def)
      ultimately show ?thesis
        using inv changes_one_self [OF that(3,1)] \<open>y = m\<close> y by (metis fixed_part_sels(1,4))
    next
      case False
      with inv y changes_one_other [OF that(3) y(1)] show ?thesis by blast
    qed
  qed
  have "?P db'"
  proof (rule update_thread_keeps [where P = ?P, OF run])
    show "?P db" using inv x sent by blast
  next
    fix s m t m' c
    assume "\<not> m_is_sent m" "m \<in> set (messages s)" "?P s"
      "update_message_folder (ue_now env) (ue_optimistic env) c (s, m) = Inr (t, m')"
    then show "?P t" using step [of m s t m'] folder_change_one by metis
  next
    fix s m t m' unread starred
    assume "m \<in> set (messages s)" "?P s"
      "update_message_flags (ue_now env) (ue_optimistic env) unread starred (s, m) = Inr (t, m')"
    then show "?P t" using step [of m s t m'] flags_change_one flags_keep_categories by (metis snd_conv)
  qed (use provider in simp)
  then show ?thesis by blast
qed

section \<open>Types\<close>

text \<open>The categories of a message are categories of its namespace.\<close>

definition typed_cats :: "store \<Rightarrow> nat \<Rightarrow> nat option set" where
  "typed_cats db nid = (\<lambda>c. Some (cat_id c)) ` {c \<in> set (categories db). cat_namespace_id c = nid}"

lemma typed_cats_rows:
  "typed_cats db nid = set (map (\<lambda>c. Some (cat_id c)) (filter (\<lambda>c. cat_namespace_id c = nid) (categories db)))"
  by (auto simp: typed_cats_def)

definition mail_typed :: "store \<Rightarrow> bool" where
  "mail_typed db \<longleftrightarrow> t_inv m_id (messages db) \<and>
     (\<forall>m\<in>set (messages db). set (m_categories m) \<subseteq> typed_cats db (m_namespace_id m))"

lemma query_one_filter: "query_one (filter P xs) = Inr r \<Longrightarrow> r \<in> set xs \<and> P r"
  unfolding query_one_Ok by (metis filter_eq_ConsD list.set_intros(1) in_set_conv_decomp)

lemma category_by_id_typed:
  assumes "category_by_id pid db nid v = Inr c"
  shows "Some (cat_id c) \<in> typed_cats db nid"
proof -
  let ?q = "\<lambda>s. query_one (filter (\<lambda>c. cat_namespace_id c = nid \<and> has_public_id s (pid (cat_id c))) (categories db))"
  from assms obtain s where
    "(case ?q s of Inr c \<Rightarrow> Ok c | Inl e \<Rightarrow> Raise (if e = NoResultFound then InputError ''does not exist'' else e)) = Inr c"
    unfolding category_by_id_def res_bind_Inr_iff by blast
  then have "?q s = Inr c" by (cases "?q s") auto
  from query_one_filter [OF this] show ?thesis by (auto simp: typed_cats_def)
qed

lemma parse_folder_typed: "parse_folder pid db nid req = Inr (Some c, rest) \<Longrightarrow> Some (cat_id c) \<in> typed_cats db nid"
  by (auto simp: parse_folder_def Let_def res_simps split: if_splits prod.splits intro: category_by_id_typed)

lemma find_labels_typed:
  "find_labels pid db nid vs found = Inr ls \<Longrightarrow> Some ` set found \<subseteq> typed_cats db nid \<Longrightarrow> Some ` set ls \<subseteq> typed_cats db nid"
proof (induction vs arbitrary: found)
  case (Cons v vs)
  from Cons.prems(1) obtain c where c: "category_by_id pid db nid v = Inr c"
    and rest: "find_labels pid db nid vs (if cat_id c \<in> set found then found else found @ [cat_id c]) = Inr ls"
    by (auto simp: res_simps)
  show ?case by (rule Cons.IH [OF rest]) (use category_by_id_typed [OF c] Cons.prems(2) in auto)
qed simp

lemma parse_labels_typed: "parse_labels pid db nid req = Inr (Some ls, rest) \<Longrightarrow> Some ` set ls \<subseteq> typed_cats db nid"
  by (auto simp: parse_labels_def Let_def res_simps split: if_splits prod.splits json.splits
    dest!: find_labels_typed)

lemma set_cats_add: "set (fold cats_add added cs) = set cs \<union> set added"
  by (induction added arbitrary: cs) (auto simp: cats_add_def)

lemma set_cats_discard: "set (fold cats_discard gone cs) = set cs - set gone"
  by (induction gone arbitrary: cs) (auto simp: cats_discard_def)

lemma add_all_label_set:
  assumes "add_all_label db nid add named cs = Inr cs'"
  shows "set cs' = set cs \<or> (''all'' \<in> add \<and> named ''all'' = None \<and>
    (\<exists>c\<in>set (categories db). cat_namespace_id c = nid \<and> cat_name c = ''all'' \<and> set cs' = insert (Some (cat_id c)) (set cs)))"
proof (cases "''all'' \<in> add \<and> named ''all'' = None")
  case True
  with assms obtain c where
    c: "query_one (filter (\<lambda>c. cat_namespace_id c = nid \<and> cat_name c = ''all'') (categories db)) = Inr c"
    and cs': "cs' = cats_add (Some (cat_id c)) cs"
    by (auto simp: add_all_label_def res_simps)
  have "set cs' = insert (Some (cat_id c)) (set cs)" by (auto simp: cs' cats_add_def)
  with query_one_filter [OF c] True show ?thesis by blast
qed (use assms in \<open>auto simp: add_all_label_def\<close>)

lemma label_rules_typed:
  assumes "apply_gmail_label_rules db nid added cs = Inr cs'"
  shows "set cs' \<subseteq> set cs \<union> typed_cats db nid"
proof -
  from assms obtain names add discard cs1 where "add_all_label db nid add (dict_of (named_categories db cs)) cs = Inr cs1"
    "cs' = discard_named discard (dict_of (named_categories db cs)) cs1"
    unfolding apply_gmail_label_rules_def res_bind_Inr_iff case_prod_beta by blast
  then have "set cs' \<subseteq> set cs1" "set cs1 \<subseteq> set cs \<union> typed_cats db nid"
    using add_all_label_set [of db nid add "dict_of (named_categories db cs)" cs cs1]
    by (auto simp: discard_named_def typed_cats_def)
  then show ?thesis by simp
qed

lemma update_message_labels_typed:
  assumes "update_message_labels now opt added removed s = Inr t"
  shows "set (m_categories (snd t)) \<subseteq>
    set (m_categories (snd s)) \<union> set added \<union> typed_cats (fst s) (m_namespace_id (snd s))"
proof -
  obtain db m db' m1 where s: "s = (db, m)" and t: "t = (db', m1)" by (cases s, cases t)
  from assms obtain b where m1: "relabelled db opt added removed b m = Inr m1"
    by (fastforce simp: update_message_labels_def s t res_simps)
  show ?thesis
  proof (cases opt)
    case True
    with m1 obtain cs where "changed_labels db (m_namespace_id m) added removed (m_categories m) = Inr cs" "m_categories m1 = cs"
      by (auto simp: relabelled_def res_simps)
    then show ?thesis
      by (auto simp: s t changed_labels_def Let_def set_cats_add set_cats_discard dest!: label_rules_typed)
  qed (use m1 in \<open>auto simp: s t relabelled_def\<close>)
qed

lemma folder_categories:
  "update_message_folder now opt c s = Inr t \<Longrightarrow>
     set (m_categories (snd t)) \<subseteq> set (m_categories (snd s)) \<union> {Some (cat_id c)}"
  by (cases s) (auto simp: update_message_folder_def Let_def res_simps split: if_splits)

lemma changes_one_typed:
  assumes ch: "changes_one (s, m) (t, m')" and typed: "mail_typed s" and m: "m \<in> set (messages s)"
    and cats: "set (m_categories m') \<subseteq> typed_cats s (m_namespace_id m)"
  shows "mail_typed t"
proof -
  have same: "t_inv m_id (messages t)" "categories t = categories s"
    using changes_one_same [OF ch m] typed by (auto simp: mail_typed_def)
  then have tc: "typed_cats t = typed_cats s" by (simp add: typed_cats_def fun_eq_iff)
  have ns: "m_namespace_id m' = m_namespace_id m"
    using ch unfolding changes_one_def by (metis fixed_part_sels(2) snd_conv)
  have "set (messages t) \<subseteq> insert m' (set (messages s))"
    using ch by (auto simp: changes_one_def msgs.set_put split: if_splits)
  with typed cats ns show ?thesis using same(1) unfolding mail_typed_def tc by fastforce
qed

lemma same_messages_thread:
  assumes same: "same_messages db s" and inv: "t_inv m_id (messages db)" and m: "m \<in> set (messages s)"
    and id: "m_id m \<in> m_id ` set (thread_messages db tid)"
    and ns: "\<forall>m\<in>set (thread_messages db tid). m_namespace_id m = nid"
  shows "m_namespace_id m = nid"
proof -
  have "fixed_part m \<in> fixed_part ` set (messages db)"
    using same m unfolding same_messages_def by (metis image_eqI image_set)
  then obtain y where y: "y \<in> set (messages db)" "fixed_part y = fixed_part m" by auto
  then have ids: "m_id y = m_id m" "m_namespace_id y = m_namespace_id m" by (metis fixed_part_sels(1,2))+
  from id obtain z where z: "z \<in> set (thread_messages db tid)" "m_id z = m_id m" by auto
  then have "z \<in> set (messages db)" by (simp add: thread_messages_set)
  with z y ids inv have "z = y" unfolding t_inv_def by (metis distinct_map_eq)
  with z ns ids show ?thesis by auto
qed

lemma update_thread_typed:
  assumes typed: "mail_typed db" and order: "\<And>S. set (ue_order env S) \<subseteq> S"
    and ns: "\<forall>m\<in>set (thread_messages db (th_id th)). m_namespace_id m = th_namespace_id th"
    and run: "update_thread env acc req th db = Inr db'"
  shows "mail_typed db' \<and> same_messages db db' \<and> categories db' = categories db"
proof (rule update_thread_keeps [OF run, of "\<lambda>s. mail_typed s \<and> same_messages db s \<and> categories s = categories db"])
  let ?P = "\<lambda>s. mail_typed s \<and> same_messages db s \<and> categories s = categories db"
  let ?ids = "m_id ` set (thread_messages db (th_id th))"
  have inv: "t_inv m_id (messages db)" using typed by (simp add: mail_typed_def)
  have step: "?P t" if "m_id m \<in> ?ids" and m: "m \<in> set (messages s)" and P: "?P s" and ch: "changes_one (s, m) (t, m')"
      and cats: "set (m_categories m') \<subseteq> set (m_categories m) \<union> typed_cats db (th_namespace_id th)" for s m t m'
  proof -
    have "m_namespace_id m = th_namespace_id th"
      using P by (intro same_messages_thread [OF _ inv m that(1) ns]) simp
    moreover have "typed_cats s = typed_cats db" using P by (simp add: typed_cats_def fun_eq_iff)
    moreover have "set (m_categories m) \<subseteq> typed_cats s (m_namespace_id m)" using P m by (auto simp: mail_typed_def)
    ultimately have "set (m_categories m') \<subseteq> typed_cats s (m_namespace_id m)" using cats by auto
    then have "mail_typed t" using changes_one_typed [OF ch _ m] P by simp
    moreover have "same_messages s t \<and> categories t = categories s"
      using changes_one_same [OF ch m] P by (simp add: mail_typed_def)
    ultimately show ?thesis using P by (simp add: same_messages_def)
  qed
  show "?P db" using typed by (simp add: same_messages_def)
  show "?P t" if "parse_labels (ue_pid env) db (th_namespace_id th) r = Inr (Some ls, rest)"
    and added: "added = ue_order env (Some ` set ls - thread_categories (thread_messages db (th_id th)))"
    and "m_id m \<in> ?ids" "m \<in> set (messages s)" "?P s"
    and u: "update_message_labels (ue_now env) (ue_optimistic env) added removed (s, m) = Inr (t, m')"
    for added removed s m t m' ls r rest
  proof (rule step [OF that(3-5) labels_change_one [OF u]])
    have "set added \<subseteq> typed_cats db (th_namespace_id th)"
      using order [of "Some ` set ls - thread_categories (thread_messages db (th_id th))"] parse_labels_typed [OF that(1)]
      unfolding added by blast
    moreover have "typed_cats s (m_namespace_id m) \<subseteq> typed_cats db (m_namespace_id m)"
      using that(5) by (simp add: typed_cats_def)
    moreover have "m_namespace_id m = th_namespace_id th"
      using that(5) by (intro same_messages_thread [OF _ inv that(4,3) ns]) simp
    ultimately show "set (m_categories m') \<subseteq> set (m_categories m) \<union> typed_cats db (th_namespace_id th)"
      using update_message_labels_typed [OF u] by auto
  qed
  show "?P t" if "parse_folder (ue_pid env) db (th_namespace_id th) r = Inr (Some c, rest)"
    and "m_id m \<in> ?ids" "m \<in> set (messages s)" "?P s"
    and u: "update_message_folder (ue_now env) (ue_optimistic env) c (s, m) = Inr (t, m')" for s m t m' c r rest
    using parse_folder_typed [OF that(1)] folder_categories [OF u]
    by (intro step [OF that(2-4) folder_change_one [OF u]]) auto
  show "?P t" if "m_id m \<in> ?ids" "m \<in> set (messages s)" "?P s"
    and u: "update_message_flags (ue_now env) (ue_optimistic env) unread starred (s, m) = Inr (t, m')" for s m t m' unread starred
    using flags_keep_categories [OF u] by (intro step [OF that(1-3) flags_change_one [OF u]]) auto
qed

end
