(* ===== verification/Label_Proofs.thy ===== *)
theory Label_Proofs
  imports Update_Proofs
begin

text \<open>
  A Gmail message is in exactly one of the folders all, trash and spam. The label rules of
  \<open>apply_gmail_label_rules\<close> keep this, unless the inbox is added together with trash or spam.
\<close>

section \<open>The rules for the names that are added\<close>

lemma label_rules_other:
  "set names \<inter> {''all'', ''trash'', ''spam'', ''inbox''} = {} \<Longrightarrow> fold label_rule names r = r"
  by (induction names arbitrary: r) (auto simp: label_rule_def split: prod.splits)

lemma label_rules_one:
  assumes "set names \<inter> {''all'', ''trash'', ''spam'', ''inbox''} \<subseteq> {n}" and "n \<in> {''trash'', ''spam''}"
  shows "fold label_rule names (a, d) =
    (a, if n \<in> set names then {''all'', ''trash'', ''spam'', ''inbox''} - {n} else d)"
  using assms
proof (induction names arbitrary: d)
  case (Cons x xs)
  have sub: "set xs \<inter> {''all'', ''trash'', ''spam'', ''inbox''} \<subseteq> {n}"
    by (rule subset_trans [OF Int_mono [OF set_subset_Cons subset_refl] Cons.prems(1)])
  show ?case
  proof (cases "x = n")
    case True
    from Cons.prems(2) consider "n = ''trash''" | "n = ''spam''" by blast
    then have "label_rule x (a, d) = (a, {''all'', ''trash'', ''spam'', ''inbox''} - {n})"
      by cases (auto simp: label_rule_def True)
    then show ?thesis using Cons.IH [OF sub Cons.prems(2)] True by simp
  next
    case False
    then have "x \<notin> {''all'', ''trash'', ''spam'', ''inbox''}"
      using Cons.prems(1) by (meson IntI list.set_intros(1) singletonD subsetD)
    then have "label_rule x (a, d) = (a, d)" by (simp add: label_rule_def)
    then show ?thesis using Cons.IH [OF sub Cons.prems(2)] False by simp
  qed
qed simp

lemma label_rules_all:
  assumes "set names \<inter> {''all'', ''trash'', ''spam'', ''inbox''} \<subseteq> {''all'', ''inbox''}"
  shows "fold label_rule names (a, d) =
    (if ''inbox'' \<in> set names then {''all''} else a,
     if ''inbox'' \<in> set names \<or> ''all'' \<in> set names then {''trash'', ''spam''} else d)"
  using assms
proof (induction names arbitrary: a d)
  case (Cons x xs)
  have sub: "set xs \<inter> {''all'', ''trash'', ''spam'', ''inbox''} \<subseteq> {''all'', ''inbox''}"
    by (rule subset_trans [OF Int_mono [OF set_subset_Cons subset_refl] Cons.prems])
  have rules: "label_rule ''all'' (a, d) = (a, {''trash'', ''spam''})" "label_rule ''inbox'' (a, d) = ({''all''}, {''trash'', ''spam''})"
    by (simp_all add: label_rule_def)
  consider "x = ''all''" | "x = ''inbox''" | "x \<notin> {''all'', ''inbox''}" by blast
  then show ?case
  proof cases
    case 3
    then have "x \<notin> {''all'', ''trash'', ''spam'', ''inbox''}"
      using Cons.prems by (meson IntI list.set_intros(1) subsetD)
    then have "label_rule x (a, d) = (a, d)" by (simp add: label_rule_def)
    moreover have "''all'' \<noteq> x" "''inbox'' \<noteq> x" using 3 by auto
    ultimately show ?thesis by (simp add: Cons.IH [OF sub])
  qed (simp_all add: rules Cons.IH [OF sub])
qed simp

section \<open>Names of categories\<close>

definition name_of :: "store \<Rightarrow> nat option \<Rightarrow> string" where
  "name_of db c = (case cat_of db c of None \<Rightarrow> [] | Some r \<Rightarrow> cat_name r)"

definition folders_of :: "store \<Rightarrow> nat option list \<Rightarrow> string set" where
  "folders_of db cs = folder_names_kept \<inter> name_of db ` set cs"

lemma folders_of_cong: "set cs = set cs' \<Longrightarrow> folders_of db cs = folders_of db cs'"
  by (simp add: folders_of_def)

lemma names_of_set: "names_of db cs = Inr ns \<Longrightarrow> set ns = name_of db ` set cs"
  by (induction cs arbitrary: ns) (auto simp: res_simps cat_name_of_def name_of_def split: option.splits)

text \<open>In a namespace only one category has a given name; the ones of users have none.\<close>

definition category_names_unique :: "store \<Rightarrow> nat \<Rightarrow> bool" where
  "category_names_unique db nid \<longleftrightarrow> t_inv cat_id (categories db) \<and>
     (\<forall>r\<in>set (categories db). \<forall>s\<in>set (categories db).
        cat_namespace_id r = nid \<and> cat_namespace_id s = nid \<and> cat_name r = cat_name s \<and> cat_name r \<noteq> [] \<longrightarrow> r = s)"

lemma typed_cat:
  assumes "category_names_unique db nid" and "c \<in> typed_cats db nid"
  obtains r where "r \<in> set (categories db)" "cat_namespace_id r = nid" "c = Some (cat_id r)" "cat_of db c = Some r"
    "name_of db c = cat_name r"
proof -
  from assms(2) obtain r where r: "r \<in> set (categories db)" "cat_namespace_id r = nid" "c = Some (cat_id r)"
    by (auto simp: typed_cats_def)
  moreover have "t_get cat_id (categories db) (cat_id r) = Some r"
    using assms(1) r(1) by (intro cats.get_mem) (simp_all add: category_names_unique_def)
  ultimately show thesis by (intro that [of r]) (simp_all add: cat_of_def name_of_def)
qed

lemma same_name_same_cat:
  assumes "category_names_unique db nid" and "c \<in> typed_cats db nid" and "d \<in> typed_cats db nid"
    and "name_of db c = name_of db d" and "name_of db c \<noteq> []"
  shows "c = d"
proof -
  from typed_cat [OF assms(1,2)] obtain r where r: "r \<in> set (categories db)" "cat_namespace_id r = nid"
    "c = Some (cat_id r)" "name_of db c = cat_name r" by metis
  from typed_cat [OF assms(1,3)] obtain s where s: "s \<in> set (categories db)" "cat_namespace_id s = nid"
    "d = Some (cat_id s)" "name_of db d = cat_name s" by metis
  with r assms(1,4,5) show ?thesis unfolding category_names_unique_def by metis
qed

lemma named_mem:
  "(n, i) \<in> set (named_categories db cs) \<longleftrightarrow>
     (\<exists>c\<in>set cs. \<exists>r. cat_of db c = Some r \<and> n = cat_name r \<and> n \<noteq> [] \<and> i = cat_id r)"
  by (auto simp: named_categories_def set_map_filter split: option.splits if_splits)

lemma named_Some:
  assumes uniq: "category_names_unique db nid" and typed: "set cs \<subseteq> typed_cats db nid"
  shows "dict_of (named_categories db cs) n = Some i \<longleftrightarrow> n \<noteq> [] \<and> Some i \<in> set cs \<and> name_of db (Some i) = n"
proof
  assume "dict_of (named_categories db cs) n = Some i"
  then have "(n, i) \<in> set (named_categories db cs)"
    unfolding dict_of_map_of_rev by (auto dest: map_of_SomeD)
  then obtain c r where c: "c \<in> set cs" "cat_of db c = Some r" "n = cat_name r" "n \<noteq> []" "i = cat_id r"
    unfolding named_mem by blast
  with typed typed_cat [OF uniq, of c] have "c = Some i" "name_of db c = n" by (metis option.inject subsetD)+
  with c show "n \<noteq> [] \<and> Some i \<in> set cs \<and> name_of db (Some i) = n" by simp
next
  assume i: "n \<noteq> [] \<and> Some i \<in> set cs \<and> name_of db (Some i) = n"
  with typed typed_cat [OF uniq, of "Some i"] obtain r where "cat_of db (Some i) = Some r" "cat_name r = n" "cat_id r = i"
    by (metis option.inject subsetD)
  with i have "(n, i) \<in> set (named_categories db cs)" unfolding named_mem by metis
  then have "dict_of (named_categories db cs) n \<noteq> None"
    unfolding dict_of_map_of_rev by (metis map_of_eq_None_iff fst_conv image_eqI set_rev)
  then obtain j where j: "dict_of (named_categories db cs) n = Some j" by blast
  then have "(n, j) \<in> set (named_categories db cs)"
    unfolding dict_of_map_of_rev by (auto dest: map_of_SomeD)
  then obtain c r where c: "c \<in> set cs" "cat_of db c = Some r" "n = cat_name r" "j = cat_id r"
    unfolding named_mem by blast
  with typed typed_cat [OF uniq, of c] have "c = Some j" "name_of db c = n" by (metis option.inject subsetD)+
  with same_name_same_cat [OF uniq, of c "Some i"] typed i c(1) have "j = i" by auto
  with j show "dict_of (named_categories db cs) n = Some i" by simp
qed

lemma folders_discard:
  assumes uniq: "category_names_unique db nid" and typed: "set cs \<subseteq> typed_cats db nid"
    and old: "\<And>c. c \<in> set cs1 \<Longrightarrow> name_of db c \<in> D \<Longrightarrow> c \<in> set cs"
  shows "folders_of db (discard_named D (dict_of (named_categories db cs)) cs1) = folders_of db cs1 - D"
proof -
  have kept: "(case c of None \<Rightarrow> True | Some i \<Rightarrow> \<forall>n\<in>D. dict_of (named_categories db cs) n \<noteq> Some i) \<longleftrightarrow> name_of db c \<notin> D"
    if c: "c \<in> set cs1" and named: "name_of db c \<noteq> []" for c
  proof -
    from named obtain i where i: "c = Some i" by (cases c) (auto simp: name_of_def cat_of_def)
    show ?thesis
    proof
      assume "case c of None \<Rightarrow> True | Some i \<Rightarrow> \<forall>n\<in>D. dict_of (named_categories db cs) n \<noteq> Some i"
      then show "name_of db c \<notin> D" using old [OF c] named i named_Some [OF uniq typed] by auto
    next
      assume "name_of db c \<notin> D"
      then show "case c of None \<Rightarrow> True | Some i \<Rightarrow> \<forall>n\<in>D. dict_of (named_categories db cs) n \<noteq> Some i"
        using i named_Some [OF uniq typed] by auto
    qed
  qed
  have "folder_names_kept \<subseteq> {n. n \<noteq> []}" by (simp add: folder_names_kept_def)
  then show ?thesis using kept unfolding folders_of_def discard_named_def by auto
qed

section \<open>One folder\<close>

lemma folders_of_added: "folders_of db (fold cats_add added cs) = folders_of db cs \<union> folders_of db added"
  by (auto simp: folders_of_def set_cats_add)

lemma folders_of_removed:
  "folders_of db (fold cats_discard
      (filter (\<lambda>c. case cat_of db c of None \<Rightarrow> True | Some r \<Rightarrow> cat_name r \<notin> folder_names_kept) removed) cs) = folders_of db cs"
proof -
  have "[] \<notin> folder_names_kept" by (simp add: folder_names_kept_def)
  then show ?thesis by (auto simp: folders_of_def set_cats_discard name_of_def split: option.splits)
qed

text \<open>The names added, once \<open>validate_labels\<close> let them pass and the inbox comes alone.\<close>

lemma validate_labels_add:
  assumes "validate_labels db added removed = Inr ()" and "names_of db added = Inr names"
  shows "\<not> (''all'' \<in> set names \<and> (''trash'' \<in> set names \<or> ''spam'' \<in> set names))"
    "\<not> (''trash'' \<in> set names \<and> ''spam'' \<in> set names)"
  using assms by (auto simp: validate_labels_def split: if_splits)

lemma one_folder_rules:
  assumes uniq: "category_names_unique db nid" and typed: "set cs \<subseteq> typed_cats db nid"
    and names: "names_of db added = Inr names"
    and valid: "\<not> (''all'' \<in> set names \<and> (''trash'' \<in> set names \<or> ''spam'' \<in> set names))"
      "\<not> (''trash'' \<in> set names \<and> ''spam'' \<in> set names)"
    and inbox: "\<not> (''inbox'' \<in> set names \<and> (''trash'' \<in> set names \<or> ''spam'' \<in> set names))"
    and run: "apply_gmail_label_rules db nid added cs = Inr cs'"
    and one: "folders_of db cs = {n} \<union> (folder_names_kept \<inter> set names)"
  shows "\<exists>n. folders_of db cs' = {n}"
proof -
  let ?named = "dict_of (named_categories db cs)"
  obtain add D where rules: "fold label_rule names ({}, {}) = (add, D)" by fastforce
  from run names rules obtain cs1 where cs1: "add_all_label db nid add ?named cs = Inr cs1"
    and cs': "cs' = discard_named D ?named cs1"
    unfolding apply_gmail_label_rules_def by (auto simp: res_bind_Inr_iff)
  have names_in: "folder_names_kept \<inter> set names \<subseteq> folders_of db cs"
    using one by blast
  consider (none) "set names \<inter> {''all'', ''trash'', ''spam'', ''inbox''} = {}"
    | (all) "set names \<inter> {''all'', ''trash'', ''spam'', ''inbox''} \<subseteq> {''all'', ''inbox''}"
        "''all'' \<in> set names \<or> ''inbox'' \<in> set names"
    | (bad) m where "m \<in> {''trash'', ''spam''}" "set names \<inter> {''all'', ''trash'', ''spam'', ''inbox''} \<subseteq> {m}" "m \<in> set names"
    using valid inbox by blast
  then show ?thesis
  proof cases
    case none
    then have "add = {}" "D = {}" using rules label_rules_other [OF none, of "({}, {})"] by auto
    then have "cs' = cs" using cs1 cs' by (auto simp: add_all_label_def discard_named_def split: option.splits)
    moreover have "folder_names_kept \<inter> set names = {}" using none by (auto simp: folder_names_kept_def)
    ultimately show ?thesis using one by auto
  next
    case all
    then have D: "D = {''trash'', ''spam''}" and add: "add = (if ''inbox'' \<in> set names then {''all''} else {})"
      using rules label_rules_all [OF all(1), of "{}" "{}"] by auto
    have folders: "folders_of db cs1 - D = {''all''}"
    proof -
      have "folders_of db cs1 \<subseteq> folder_names_kept" "folder_names_kept - D \<subseteq> {''all''}"
        by (auto simp: folders_of_def folder_names_kept_def D)
      moreover have "''all'' \<in> folders_of db cs1"
      proof (cases "''all'' \<in> folders_of db cs")
        case True
        then show ?thesis using add_all_label_set [OF cs1] by (auto simp: folders_of_def)
      next
        case False
        then have "''inbox'' \<in> set names" using all(2) names_in by (auto simp: folder_names_kept_def)
        then have add: "''all'' \<in> add" by (simp add: add)
        have none: "?named ''all'' = None"
        proof (rule ccontr)
          assume "?named ''all'' \<noteq> None"
          then obtain i where "Some i \<in> set cs" "name_of db (Some i) = ''all''" using named_Some [OF uniq typed] by auto
          with False show False by (force simp: folders_of_def folder_names_kept_def)
        qed
        from cs1 add none obtain c where
          c: "query_one (filter (\<lambda>c. cat_namespace_id c = nid \<and> cat_name c = ''all'') (categories db)) = Inr c"
          and set: "cs1 = cats_add (Some (cat_id c)) cs" by (auto simp: add_all_label_def res_simps)
        from query_one_filter [OF c] have "Some (cat_id c) \<in> typed_cats db nid" "c \<in> set (categories db)" "cat_name c = ''all''"
          by (auto simp: typed_cats_def)
        moreover have "cat_of db (Some (cat_id c)) = Some c"
          using uniq \<open>c \<in> set (categories db)\<close> by (simp add: cat_of_def cats.get_mem category_names_unique_def)
        ultimately have "name_of db (Some (cat_id c)) = ''all''" by (simp add: name_of_def)
        then have "''all'' \<in> name_of db ` set cs1" by (force simp: set cats_add_def)
        then show ?thesis by (simp add: folders_of_def folder_names_kept_def)
      qed
      ultimately show ?thesis by (auto simp: D)
    qed
    have "folders_of db cs' = folders_of db cs1 - D"
      unfolding cs'
    proof (rule folders_discard [OF uniq typed])
      fix c
      assume c: "c \<in> set cs1" "name_of db c \<in> D"
      from add_all_label_set [OF cs1] consider "set cs1 = set cs"
        | d where "d \<in> set (categories db)" "cat_name d = ''all''" "set cs1 = insert (Some (cat_id d)) (set cs)" by blast
      then show "c \<in> set cs"
      proof cases
        case 2
        have "cat_of db (Some (cat_id d)) = Some d"
          using uniq 2(1) by (simp add: cat_of_def cats.get_mem category_names_unique_def)
        with 2 c show ?thesis by (auto simp: D name_of_def)
      qed (use c in simp)
    qed
    with folders show ?thesis by blast
  next
    case bad
    then have D: "D = {''all'', ''trash'', ''spam'', ''inbox''} - {m}" and add: "add = {}"
      using rules label_rules_one [OF bad(2,1), of "{}" "{}"] by auto
    then have "cs1 = cs" using cs1 by (simp add: add_all_label_def)
    with folders_discard [OF uniq typed, of cs D] have "folders_of db cs' = folders_of db cs - D" by (simp add: cs')
    moreover have "folders_of db cs - D = {m}"
      using names_in bad(1,3) by (auto simp: D folders_of_def folder_names_kept_def)
    ultimately show ?thesis by blast
  qed
qed

text \<open>An update of labels keeps a message in one folder.\<close>

lemma update_message_labels_one_folder:
  assumes uniq: "category_names_unique db (m_namespace_id m)"
    and typed: "set (m_categories m) \<union> set added \<subseteq> typed_cats db (m_namespace_id m)"
    and one: "folders_of db (m_categories m) = {n}"
    and inbox: "''inbox'' \<in> name_of db ` set added \<Longrightarrow> name_of db ` set added \<inter> {''trash'', ''spam''} = {}"
    and run: "update_message_labels now opt added removed (db, m) = Inr (db', m')"
  shows "\<exists>n. folders_of db (m_categories m') = {n}"
proof -
  let ?nid = "m_namespace_id m"
  from run obtain b where m': "relabelled db opt added removed b m = Inr m'" and valid: "validate_labels db added removed = Inr ()"
    by (fastforce simp: update_message_labels_def res_simps)
  from valid obtain names where names: "names_of db added = Inr names"
    by (auto simp: validate_labels_def res_simps)
  note set_names = names_of_set [OF names]
  show ?thesis
  proof (cases opt)
    case True
    let ?gone = "filter (\<lambda>c. case cat_of db c of None \<Rightarrow> True | Some r \<Rightarrow> cat_name r \<notin> folder_names_kept) removed"
    let ?cs = "fold cats_discard ?gone (fold cats_add added (m_categories m))"
    from True m' obtain cs where run: "apply_gmail_label_rules db ?nid added ?cs = Inr cs" and m': "m_categories m' = cs"
      by (auto simp: relabelled_def changed_labels_def Let_def res_simps)
    have "folders_of db ?cs = {n} \<union> (folder_names_kept \<inter> set names)"
      unfolding folders_of_removed folders_of_added one by (auto simp: folders_of_def set_names)
    moreover have "set ?cs \<subseteq> typed_cats db ?nid" using typed by (auto simp: set_cats_add set_cats_discard)
    moreover have "\<not> (''inbox'' \<in> set names \<and> (''trash'' \<in> set names \<or> ''spam'' \<in> set names))"
      using inbox unfolding set_names by blast
    ultimately show ?thesis
      unfolding m' by (intro one_folder_rules [OF uniq _ names validate_labels_add [OF valid names] _ run])
  qed (use m' one in \<open>auto simp: relabelled_def\<close>)
qed

end
