(* ===== verification/Api_Filtering.thy ===== *)
theory Api_Filtering
  imports Api_Validation Event_Recurrence
begin

text \<open>
  \<open>inbox/api/filtering.py\<close>: the queries behind the listing endpoints. A query is the list of the rows
  the database answers, with a row repeated as often as a join repeats it. The order of rows
  that an \<open>ORDER BY\<close> leaves open is the database's choice and so a parameter. An ORM query
  for objects drops repeated rows of the answer, a query for a column does not.
\<close>

section \<open>Tables and answers\<close>

record part_row =
  pa_id :: nat
  pa_block_id :: nat
  pa_message_id :: "nat option"
  pa_disposition :: "string option"

record metadata_row =
  md_id :: nat
  md_namespace_id :: nat
  md_app_id :: nat
  md_object_public_id :: string
  md_value :: "json option"
  md_queryable :: "int option"

text \<open>
  The rows beside the mail store; an event comes with its column \<open>deleted_at\<close>. \<open>ad_pid\<close> are the
  public ids of threads, categories and calendars.
\<close>

datatype pid_table = Threads | Categories | Calendars

record api_db =
  ad_store :: store
  ad_blocks :: "block_row list"
  ad_parts :: "part_row list"
  ad_events :: "(event_row \<times> datetime option) list"
  ad_calendars :: "calendar_row list"
  ad_metadata :: "metadata_row list"
  ad_pid :: "pid_table \<Rightarrow> nat \<Rightarrow> 128 word"

datatype ('r, 'i) answer = Count nat | Ids "'i list" | Rows "'r list"

definition page :: "nat \<Rightarrow> nat \<Rightarrow> 'a list \<Rightarrow> 'a list" where
  "page limit offset xs = take limit (drop offset xs)"

definition answer_of ::
  "string option \<Rightarrow> ('r list \<Rightarrow> 'r list) \<Rightarrow> ('r \<Rightarrow> 'i) \<Rightarrow> nat \<Rightarrow> nat \<Rightarrow> 'r list \<Rightarrow> ('r, 'i) answer" where
  "answer_of view order ident limit offset rows =
     (if view = Some ''count'' then Count (length rows)
      else if view = Some ''ids'' then Ids (map ident (page limit offset (order rows)))
      else Rows (remdups (page limit offset (order rows))))"

text \<open>A filter that is not given lets every row through.\<close>

definition given :: "'a option \<Rightarrow> ('a \<Rightarrow> bool) \<Rightarrow> bool" where
  "given x P \<longleftrightarrow> (case x of None \<Rightarrow> True | Some v \<Rightarrow> P v)"

record mail_filter =
  mf_subject :: "string option"
  mf_from :: "string option"
  mf_to :: "string option"
  mf_cc :: "string option"
  mf_bcc :: "string option"
  mf_any_email :: "string list option"
  mf_thread :: "string option"
  mf_started_before :: "datetime option"
  mf_started_after :: "datetime option"
  mf_last_before :: "datetime option"
  mf_last_after :: "datetime option"
  mf_received_before :: "datetime option"
  mf_received_after :: "datetime option"
  mf_filename :: "string option"
  mf_in :: "string option"
  mf_unread :: "bool option"
  mf_starred :: "bool option"

section \<open>Subqueries\<close>

text \<open>The messages that name a contact in an address field.\<close>

definition names_contact :: "api_db \<Rightarrow> nat \<Rightarrow> (string \<Rightarrow> bool) \<Rightarrow> (string \<Rightarrow> bool) \<Rightarrow> message_row \<Rightarrow> bool" where
  "names_contact ad nid field_ok address_ok m \<longleftrightarrow>
     (\<exists>(mid, cid, field)\<in>set (contact_links (ad_store ad)).
        mid = m_id m \<and> field_ok field \<and>
        (\<exists>c\<in>set (contacts (ad_store ad)).
           ct_id c = cid \<and> ct_namespace_id c = nid \<and>
           (case ct_canonical c of None \<Rightarrow> False | Some a \<Rightarrow> address_ok a)))"

definition in_field :: "addr_parser \<Rightarrow> api_db \<Rightarrow> nat \<Rightarrow> string \<Rightarrow> string \<Rightarrow> message_row \<Rightarrow> bool" where
  "in_field parse ad nid field addr =
     names_contact ad nid (\<lambda>f. f = field) (\<lambda>a. a = canonicalize_address parse addr)"

definition in_any_field :: "addr_parser \<Rightarrow> api_db \<Rightarrow> nat \<Rightarrow> string list \<Rightarrow> message_row \<Rightarrow> bool" where
  "in_any_field parse ad nid addrs =
     names_contact ad nid (\<lambda>f. True) (\<lambda>a. a \<in> canonicalize_address parse ` set addrs)"

text \<open>The parts with a block of the given name, and the categories a filter \<open>in\<close> means.\<close>

definition named_parts :: "api_db \<Rightarrow> nat \<Rightarrow> string \<Rightarrow> message_row \<Rightarrow> part_row list" where
  "named_parts ad nid name m =
     filter (\<lambda>p. pa_message_id p = Some (m_id m) \<and>
        (\<exists>b\<in>set (ad_blocks ad). bl_id b = pa_block_id p \<and> bl_filename b = Some name \<and> bl_namespace_id b = nid))
       (ad_parts ad)"

definition in_category :: "api_db \<Rightarrow> nat \<Rightarrow> string \<Rightarrow> category_row \<Rightarrow> bool" where
  "in_category ad nid name c \<longleftrightarrow>
     cat_namespace_id c = nid \<and>
     (cat_name c = name \<or> cat_display_name c = sanitize_name name \<or> has_public_id name (ad_pid ad Categories (cat_id c)))"

definition matching_categories :: "api_db \<Rightarrow> nat \<Rightarrow> string \<Rightarrow> message_row \<Rightarrow> category_row list" where
  "matching_categories ad nid name m =
     filter (\<lambda>c. Some (cat_id c) \<in> set (m_categories m) \<and> in_category ad nid name c) (categories (ad_store ad))"

section \<open>Threads\<close>

text \<open>A filter on the messages of a thread asks whether one of them passes it.\<close>

definition thread_with :: "api_db \<Rightarrow> (message_row \<Rightarrow> bool) \<Rightarrow> thread_row \<Rightarrow> bool" where
  "thread_with ad P th \<longleftrightarrow> (\<exists>m\<in>set (messages (ad_store ad)). m_thread_id m = Some (th_id th) \<and> P m)"

definition thread_matches :: "addr_parser \<Rightarrow> api_db \<Rightarrow> nat \<Rightarrow> mail_filter \<Rightarrow> thread_row \<Rightarrow> bool" where
  "thread_matches parse ad nid f th \<longleftrightarrow>
     th_namespace_id th = nid \<and> th_deleted_at th = None \<and>
     given (mf_thread f) (\<lambda>s. has_public_id s (ad_pid ad Threads (th_id th))) \<and>
     given (mf_started_before f) (\<lambda>t. th_subjectdate th < t) \<and>
     given (mf_started_after f) (\<lambda>t. th_subjectdate th > t) \<and>
     given (mf_last_before f) (\<lambda>t. th_recentdate th < t) \<and>
     given (mf_last_after f) (\<lambda>t. th_recentdate th > t) \<and>
     given (mf_subject f) (\<lambda>s. th_subject th = Some s) \<and>
     given (mf_from f) (\<lambda>a. thread_with ad (in_field parse ad nid ''from_addr'' a) th) \<and>
     given (mf_to f) (\<lambda>a. thread_with ad (in_field parse ad nid ''to_addr'' a) th) \<and>
     given (mf_cc f) (\<lambda>a. thread_with ad (in_field parse ad nid ''cc_addr'' a) th) \<and>
     given (mf_bcc f) (\<lambda>a. thread_with ad (in_field parse ad nid ''bcc_addr'' a) th) \<and>
     given (mf_any_email f) (\<lambda>as. thread_with ad (in_any_field parse ad nid as) th) \<and>
     given (mf_filename f) (\<lambda>n. thread_with ad (\<lambda>m. named_parts ad nid n m \<noteq> []) th) \<and>
     given (mf_in f) (\<lambda>n. thread_with ad (\<lambda>m. matching_categories ad nid n m \<noteq> []) th) \<and>
     given (mf_unread f) (\<lambda>b. thread_with ad (\<lambda>m. m_namespace_id m = nid \<and> m_is_read m = (\<not> b)) th) \<and>
     given (mf_starred f) (\<lambda>b. thread_with ad (\<lambda>m. m_namespace_id m = nid \<and> m_is_starred m = b) th)"

definition api_threads ::
  "addr_parser \<Rightarrow> (thread_row list \<Rightarrow> thread_row list) \<Rightarrow> api_db \<Rightarrow> nat \<Rightarrow> mail_filter \<Rightarrow> string option \<Rightarrow> nat \<Rightarrow> nat
     \<Rightarrow> (thread_row, 128 word) answer" where
  "api_threads parse order ad nid f view limit offset =
     answer_of view order (\<lambda>th. ad_pid ad Threads (th_id th)) limit offset
       (filter (thread_matches parse ad nid f) (threads (ad_store ad)))"

section \<open>Messages\<close>

text \<open>The filters that look at a message, or at its thread, without repeating it.\<close>

definition message_matches :: "addr_parser \<Rightarrow> api_db \<Rightarrow> nat \<Rightarrow> bool \<Rightarrow> mail_filter \<Rightarrow> thread_row \<Rightarrow> message_row \<Rightarrow> bool" where
  "message_matches parse ad nid drafts f th m \<longleftrightarrow>
     m_namespace_id m = nid \<and> m_is_draft m = drafts \<and> th_deleted_at th = None \<and>
     given (mf_subject f) (\<lambda>s. m_subject m = Some s) \<and>
     given (mf_unread f) (\<lambda>b. m_is_read m \<noteq> b) \<and>
     given (mf_starred f) (\<lambda>b. m_is_starred m = b) \<and>
     given (mf_thread f) (\<lambda>s. has_public_id s (ad_pid ad Threads (th_id th))) \<and>
     given (mf_started_before f) (\<lambda>t. th_subjectdate th < t \<and> th_namespace_id th = nid) \<and>
     given (mf_started_after f) (\<lambda>t. th_subjectdate th > t \<and> th_namespace_id th = nid) \<and>
     given (mf_last_before f) (\<lambda>t. th_recentdate th < t \<and> th_namespace_id th = nid) \<and>
     given (mf_last_after f) (\<lambda>t. th_recentdate th > t \<and> th_namespace_id th = nid) \<and>
     given (mf_received_before f) (\<lambda>t. m_received_date m \<le> t) \<and>
     given (mf_received_after f) (\<lambda>t. m_received_date m > t) \<and>
     given (mf_to f) (\<lambda>a. in_field parse ad nid ''to_addr'' a m) \<and>
     given (mf_from f) (\<lambda>a. in_field parse ad nid ''from_addr'' a m) \<and>
     given (mf_cc f) (\<lambda>a. in_field parse ad nid ''cc_addr'' a m) \<and>
     given (mf_bcc f) (\<lambda>a. in_field parse ad nid ''bcc_addr'' a m) \<and>
     given (mf_any_email f) (\<lambda>as. in_any_field parse ad nid as m)"

text \<open>How often the joins with parts and with categories repeat a message.\<close>

definition join_count :: "api_db \<Rightarrow> nat \<Rightarrow> mail_filter \<Rightarrow> message_row \<Rightarrow> nat" where
  "join_count ad nid f m =
     (case mf_filename f of None \<Rightarrow> 1 | Some n \<Rightarrow> length (named_parts ad nid n m)) *
     (case mf_in f of None \<Rightarrow> 1 | Some n \<Rightarrow> length (matching_categories ad nid n m))"

definition message_rows :: "addr_parser \<Rightarrow> api_db \<Rightarrow> nat \<Rightarrow> bool \<Rightarrow> mail_filter \<Rightarrow> message_row list" where
  "message_rows parse ad nid drafts f =
     concat (map (\<lambda>m. replicate (join_count ad nid f m) m)
       (filter (\<lambda>m. case message_thread (ad_store ad) m of
                      None \<Rightarrow> False | Some th \<Rightarrow> message_matches parse ad nid drafts f th m) (messages (ad_store ad))))"

definition messages_or_drafts ::
  "addr_parser \<Rightarrow> (message_row list \<Rightarrow> message_row list) \<Rightarrow> api_db \<Rightarrow> nat \<Rightarrow> bool \<Rightarrow> mail_filter \<Rightarrow> string option \<Rightarrow> nat \<Rightarrow> nat
     \<Rightarrow> (message_row, string) answer" where
  "messages_or_drafts parse order ad nid drafts f view limit offset =
     answer_of view order m_public_id limit offset (message_rows parse ad nid drafts f)"

text \<open>The sent messages that contact scores are computed from, once for each of their categories named sent.\<close>

definition messages_for_contact_scores :: "store \<Rightarrow> nat \<Rightarrow> datetime option \<Rightarrow> message_row list" where
  "messages_for_contact_scores db nid starts_after =
     concat (map (\<lambda>m. replicate (length (filter (\<lambda>c. Some (cat_id c) \<in> set (m_categories m) \<and> cat_name c = ''sent'' \<and>
                                   cat_namespace_id c = nid) (categories db))) m)
       (filter (\<lambda>m. m_namespace_id m = nid \<and> \<not> m_is_draft m \<and> given starts_after (\<lambda>t. m_received_date m > t)) (messages db)))"

section \<open>Files\<close>

text \<open>
  A block is joined with its parts, or with none; parts without a disposition are left out. Only a
  query for the rows or ids is made distinct.
\<close>

definition block_parts :: "api_db \<Rightarrow> block_row \<Rightarrow> part_row option list" where
  "block_parts ad b =
     (case filter (\<lambda>p. pa_block_id p = bl_id b) (ad_parts ad) of
        [] \<Rightarrow> [None]
      | ps \<Rightarrow> map Some (filter (\<lambda>p. pa_disposition p \<noteq> None) ps))"

definition part_in_message :: "api_db \<Rightarrow> string \<Rightarrow> part_row option \<Rightarrow> bool" where
  "part_in_message ad s p \<longleftrightarrow>
     (case p of
        None \<Rightarrow> False
      | Some q \<Rightarrow> \<exists>m\<in>set (messages (ad_store ad)). pa_message_id q = Some (m_id m) \<and> s \<noteq> [] \<and>
                    b36_to_bin s = b36_to_bin (m_public_id m))"

definition file_rows :: "api_db \<Rightarrow> nat \<Rightarrow> string option \<Rightarrow> string option \<Rightarrow> string option \<Rightarrow> block_row list" where
  "file_rows ad nid message_public_id filename content_type =
     concat (map (\<lambda>b. map (\<lambda>_. b) (filter (\<lambda>p. given message_public_id (\<lambda>s. part_in_message ad s p)) (block_parts ad b)))
       (filter (\<lambda>b. bl_namespace_id b = nid \<and>
           given content_type (\<lambda>t. bl_content_type_common b = Some t \<or> bl_content_type_other b = Some t) \<and>
           given filename (\<lambda>n. bl_filename b = Some n)) (ad_blocks ad)))"

definition api_files ::
  "api_db \<Rightarrow> nat \<Rightarrow> string option \<Rightarrow> string option \<Rightarrow> string option \<Rightarrow> nat \<Rightarrow> nat \<Rightarrow> string option
     \<Rightarrow> (block_row, 128 word) answer" where
  "api_files ad nid message_public_id filename content_type limit offset view =
     (let rows = file_rows ad nid message_public_id filename content_type
      in if view = Some ''count'' then Count (length rows)
         else (let shown = page limit offset (sort_key bl_id (remdups rows))
               in if view = Some ''ids'' then Ids (map bl_public_id shown) else Rows shown))"

section \<open>Events\<close>

text \<open>\<open>LIKE\<close>, with its wildcards and collation, is the database's.\<close>

record event_filter =
  ef_public_id :: "string option"
  ef_calendar :: "string option"
  ef_title :: "string option"
  ef_description :: "string option"
  ef_location :: "string option"
  ef_busy :: "bool option"

definition like_column :: "(string \<Rightarrow> string \<Rightarrow> bool) \<Rightarrow> string option \<Rightarrow> string \<Rightarrow> bool" where
  "like_column like column text \<longleftrightarrow>
     (case column of None \<Rightarrow> False | Some s \<Rightarrow> like s (CHR ''%'' # text @ [CHR ''%'']))"

definition filter_event_query ::
  "(string \<Rightarrow> string \<Rightarrow> bool) \<Rightarrow> api_db \<Rightarrow> nat \<Rightarrow> event_filter \<Rightarrow> event_row \<times> datetime option \<Rightarrow> bool" where
  "filter_event_query like ad nid f row \<longleftrightarrow>
     (case row of (e, deleted_at) \<Rightarrow>
        ev_namespace_id e = Some nid \<and> deleted_at = None \<and>
        given (ef_public_id f) (\<lambda>s. s = [] \<or> b36_to_bin s = b36_to_bin (ev_public_id e)) \<and>
        given (ef_calendar f) (\<lambda>s. \<exists>c\<in>set (ad_calendars ad). ev_calendar_id e = Some (cal_id c) \<and>
           has_public_id s (ad_pid ad Calendars (cal_id c)) \<and> cal_namespace_id c = nid) \<and>
        given (ef_title f) (like_column like (ev_title e)) \<and>
        given (ef_description f) (like_column like (ev_description e)) \<and>
        given (ef_location f) (like_column like (ev_location e)) \<and>
        given (ef_busy f) (\<lambda>b. ev_busy e = b) \<and>
        ev_source e = ''local'')"

record event_window =
  ew_starts_before :: "datetime option"
  ew_starts_after :: "datetime option"
  ew_ends_before :: "datetime option"
  ew_ends_after :: "datetime option"

definition until_of :: "event_row \<Rightarrow> datetime option" where
  "until_of e = (case ev_kind e of Recurring ri \<Rightarrow> ri_until ri | _ \<Rightarrow> None)"

definition may_recur_in :: "event_window \<Rightarrow> event_row \<Rightarrow> bool" where
  "may_recur_in w e \<longleftrightarrow>
     given (ew_starts_before w) (\<lambda>t. ev_start e < t) \<and> given (ew_ends_before w) (\<lambda>t. ev_start e < t) \<and>
     given (ew_starts_after w) (\<lambda>t. given (until_of e) (\<lambda>u. u > t)) \<and>
     given (ew_ends_after w) (\<lambda>t. given (until_of e) (\<lambda>u. u > t))"

text \<open>
  The expansion. A bound on the end becomes one on the start by the length of the event; the
  bounds computed for the first event are kept in the variables and used for all others.
\<close>

definition start_bounds :: "event_row \<Rightarrow> event_window \<Rightarrow> event_window" where
  "start_bounds r w =
     w\<lparr>ew_starts_before := (case (ew_starts_before w, ew_ends_before w) of
         (None, Some t) \<Rightarrow> Some (t - event_length r) | (b, _) \<Rightarrow> b),
       ew_starts_after := (case (ew_starts_after w, ew_ends_after w) of
         (None, Some t) \<Rightarrow> Some (t - event_length r) | (b, _) \<Rightarrow> b)\<rparr>"

fun expand_each ::
  "(event_row \<Rightarrow> datetime option \<Rightarrow> datetime option \<Rightarrow> event_row list res) \<Rightarrow> event_window \<Rightarrow> event_row list
     \<Rightarrow> event_row list res" where
  "expand_each expand w [] = Ok []"
| "expand_each expand w (r # rs) =
     (let w1 = start_bounds r w
      in res_bind (expand r (ew_starts_after w1) (ew_starts_before w1)) (\<lambda>es.
         res_bind (expand_each expand w1 rs) (\<lambda>rest. Ok (es @ rest))))"

definition recurring_rows ::
  "(string \<Rightarrow> string \<Rightarrow> bool) \<Rightarrow> api_db \<Rightarrow> nat \<Rightarrow> event_filter \<Rightarrow> event_window \<Rightarrow> bool \<Rightarrow> event_row list" where
  "recurring_rows like ad nid f w show_cancelled =
     map fst (filter (\<lambda>row. is_recurring_event (fst row) \<and> filter_event_query like ad nid f row \<and>
         (show_cancelled \<or> \<not> event_cancelled (fst row)) \<and> may_recur_in w (fst row)) (ad_events ad))"

definition recurring_events ::
  "'r rrule_lib \<Rightarrow> datetime \<Rightarrow> (string \<Rightarrow> string \<Rightarrow> bool) \<Rightarrow> api_db \<Rightarrow> nat \<Rightarrow> event_filter \<Rightarrow> event_window \<Rightarrow> bool
     \<Rightarrow> event_row list res" where
  "recurring_events lib now like ad nid f w show_cancelled =
     expand_each (all_events lib now (map fst (ad_events ad))) w (recurring_rows like ad nid f w show_cancelled)"

definition event_in_window :: "event_window \<Rightarrow> event_row \<Rightarrow> bool" where
  "event_in_window w e \<longleftrightarrow>
     given (ew_starts_before w) (\<lambda>t. ev_start e < t) \<and> given (ew_starts_after w) (\<lambda>t. ev_start e > t) \<and>
     given (ew_ends_before w) (\<lambda>t. ev_end e < t) \<and> given (ew_ends_after w) (\<lambda>t. ev_end e > t)"

definition is_plain_event :: "event_row \<Rightarrow> bool" where
  "is_plain_event e \<longleftrightarrow> (case ev_kind e of Plain \<Rightarrow> True | _ \<Rightarrow> False)"

definition is_override_event :: "event_row \<Rightarrow> bool" where
  "is_override_event e \<longleftrightarrow> (case ev_kind e of Override _ \<Rightarrow> True | _ \<Rightarrow> False)"

definition status_shown :: "bool \<Rightarrow> bool \<Rightarrow> event_row \<Rightarrow> bool" where
  "status_shown expand_recurring show_cancelled e \<longleftrightarrow>
     show_cancelled \<or>
     (if expand_recurring then \<not> event_cancelled e
      else is_override_event e \<or> (\<not> event_cancelled e \<and> \<not> is_override_event e))"

definition event_rows ::
  "(string \<Rightarrow> string \<Rightarrow> bool) \<Rightarrow> api_db \<Rightarrow> nat \<Rightarrow> event_filter \<Rightarrow> event_window \<Rightarrow> bool \<Rightarrow> bool \<Rightarrow> event_row list" where
  "event_rows like ad nid f w expand_recurring show_cancelled =
     map fst (filter (\<lambda>row. filter_event_query like ad nid f row \<and> event_in_window w (fst row) \<and>
        status_shown expand_recurring show_cancelled (fst row)) (ad_events ad))"

text \<open>With expansion, a limit of zero is no limit, and the ids are asked of events instead of rows.\<close>

definition api_events ::
  "'r rrule_lib \<Rightarrow> datetime \<Rightarrow> (event_row list \<Rightarrow> event_row list) \<Rightarrow> (string \<Rightarrow> string \<Rightarrow> bool) \<Rightarrow> api_db \<Rightarrow> nat \<Rightarrow>
     event_filter \<Rightarrow> event_window \<Rightarrow> nat \<Rightarrow> nat \<Rightarrow> string option \<Rightarrow> bool \<Rightarrow> bool \<Rightarrow> (event_row, string) answer res" where
  "api_events lib now order like ad nid f w limit offset view expand_recurring show_cancelled =
     (let rows = event_rows like ad nid f w expand_recurring show_cancelled
      in if expand_recurring
         then res_bind (recurring_events lib now like ad nid f w show_cancelled) (\<lambda>expanded.
                let found = filter is_plain_event rows @ expanded;
                    shown = (let es = sort_key ev_start found in if limit = 0 then es else page limit offset es)
                in if view = Some ''count'' then Ok (Count (length found))
                   else if view = Some ''ids'' then (if shown = [] then Ok (Ids []) else Raise TypeError)
                   else Ok (Rows shown))
         else Ok (answer_of view order ev_public_id limit offset rows))"

section \<open>Metadata\<close>

definition api_metadata ::
  "api_db \<Rightarrow> nat \<Rightarrow> nat option \<Rightarrow> string option \<Rightarrow> nat \<Rightarrow> nat \<Rightarrow> (metadata_row, string) answer" where
  "api_metadata ad nid app_id view limit offset =
     answer_of view (\<lambda>rows. rev (sort_key md_id rows)) md_object_public_id limit offset
       (filter (\<lambda>r. md_namespace_id r = nid \<and> md_value r \<noteq> None \<and> given app_id (\<lambda>a. md_app_id r = a)) (ad_metadata ad))"

definition query_operator :: "string \<Rightarrow> (int \<Rightarrow> int \<Rightarrow> bool) option" where
  "query_operator = map_of
     [(''>'', (\<lambda>v x. x > v)), (''>='', (\<lambda>v x. x \<ge> v)), (''<'', (\<lambda>v x. x < v)), (''<='', (\<lambda>v x. x \<le> v)),
      (''=='', (\<lambda>v x. x = v)), (''!='', (\<lambda>v x. x \<noteq> v))]"

text \<open>A comparison with NULL is not true.\<close>

definition metadata_matches :: "nat \<Rightarrow> (int \<Rightarrow> bool) option \<Rightarrow> metadata_row \<Rightarrow> bool" where
  "metadata_matches app_id test r \<longleftrightarrow>
     md_app_id r = app_id \<and> given test (\<lambda>P. case md_queryable r of None \<Rightarrow> False | Some x \<Rightarrow> P x)"

definition metadata_page :: "nat \<Rightarrow> (int \<Rightarrow> bool) option \<Rightarrow> metadata_row list \<Rightarrow> nat \<Rightarrow> nat option \<Rightarrow> metadata_row list" where
  "metadata_page app_id test rows limit after =
     take limit (sort_key md_id (filter (\<lambda>r. metadata_matches app_id test r \<and> given after (\<lambda>i. md_id r > i)) rows))"

definition metadata_for_app ::
  "api_db \<Rightarrow> nat option \<Rightarrow> nat \<Rightarrow> nat option \<Rightarrow> int \<Rightarrow> string option \<Rightarrow> metadata_row list res" where
  "metadata_for_app ad app_id limit after query_value query_type =
     (case app_id of
        None \<Rightarrow> Raise (ValueError ''Must specify an app_id'')
      | Some app \<Rightarrow>
          (case query_type of
             None \<Rightarrow> Ok (metadata_page app None (ad_metadata ad) limit after)
           | Some q \<Rightarrow>
               (case query_operator q of
                  None \<Rightarrow> Raise (ValueError ''Invalid query operator for metadata query_type'')
                | Some test \<Rightarrow> Ok (metadata_page app (Some (test query_value)) (ad_metadata ad) limit after))))"

section \<open>Pages over all shards\<close>

text \<open>
  The high bits of an id are its shard. Shards are given in ascending order with their rows. The
  cursor is a number; the one that is returned when there was no row is the text
  \<open>None\<close>, which is no number.
\<close>

definition shard_key_for_id :: "nat \<Rightarrow> nat" where
  "shard_key_for_id i = i div 2 ^ 48"

definition next_page_cursor :: "('r \<Rightarrow> nat) \<Rightarrow> nat \<Rightarrow> 'r list \<Rightarrow> nat" where
  "next_page_cursor key sid got =
     (let i = key (last got) in if sid \<noteq> 0 \<and> shard_key_for_id i = 0 then i + sid * 2 ^ 48 else i)"

fun shard_loop ::
  "('r \<Rightarrow> nat) \<Rightarrow> nat \<Rightarrow> nat \<Rightarrow> (nat \<times> 'r list) list \<Rightarrow> 'r list \<Rightarrow> nat option \<Rightarrow> 'r list \<times> nat option" where
  "shard_loop key cursor limit [] results next = (results, next)"
| "shard_loop key cursor limit ((sid, rows) # shards) results next =
     (if sid < shard_key_for_id cursor then shard_loop key cursor limit shards results next
      else if length results \<ge> limit then (results, next)
      else (let latest = (if sid = shard_key_for_id cursor then cursor else 0);
                got = take (limit - length results)
                        (sort_key key (filter (\<lambda>r. latest = 0 \<or> key r > latest) rows))
            in if got = [] then shard_loop key cursor limit shards results next
               else shard_loop key cursor limit shards (results @ got) (Some (next_page_cursor key sid got))))"

definition page_over_shards ::
  "('r \<Rightarrow> nat) \<Rightarrow> (nat \<times> 'r list) list \<Rightarrow> nat option \<Rightarrow> nat \<Rightarrow> ('r list \<times> nat option) res" where
  "page_over_shards key shards cursor limit =
     (case cursor of
        None \<Rightarrow> Raise (ValueError ''invalid literal'')
      | Some c \<Rightarrow> Ok (shard_loop key c limit shards [] None))"

end
