(* ===== verification/Api_Pages.thy ===== *)
theory Api_Pages
  imports Api_Filtering
begin

text \<open>
  Clients page through a table with a cursor: they ask for at most \<open>limit\<close> rows after the
  cursor and go on from the cursor they get with the rows. The contract of such a query is stated
  once and met by the metadata query and by the pages over all shards.
\<close>

section \<open>The contract of a page\<close>

text \<open>A client that asks up to \<open>n\<close> times, until it gets no cursor.\<close>

fun fetch_all :: "(nat \<Rightarrow> nat \<Rightarrow> 'r list \<times> nat option) \<Rightarrow> nat \<Rightarrow> nat \<Rightarrow> nat \<Rightarrow> 'r list" where
  "fetch_all get limit 0 c = []"
| "fetch_all get limit (Suc n) c =
     (case get limit c of (got, None) \<Rightarrow> got | (got, Some d) \<Rightarrow> got @ fetch_all get limit n d)"

text \<open>
  \<open>ok\<close> are the databases the contract speaks of, \<open>rows\<close> the rows a client is to see and
  \<open>get\<close> one query.
\<close>

locale cursor_pages =
  fixes key :: "'r \<Rightarrow> nat"
    and ok :: "'d \<Rightarrow> bool"
    and rows :: "'d \<Rightarrow> 'r list"
    and get :: "'d \<Rightarrow> nat \<Rightarrow> nat \<Rightarrow> 'r list \<times> nat option"
  assumes sorted_rows: "ok d \<Longrightarrow> sorted_wrt (\<lambda>r s. key r < key s) (rows d)"
    and get_rows: "ok d \<Longrightarrow> fst (get d limit c) = take limit (filter (\<lambda>r. key r > c) (rows d))"
    and get_cursor: "ok d \<Longrightarrow>
      snd (get d limit c) = (if fst (get d limit c) = [] then None else Some (key (last (fst (get d limit c)))))"
begin

lemma after_last:
  assumes ok: "ok d" and "take k (filter (\<lambda>r. key r > c) (rows d)) = got" and "got \<noteq> []"
  shows "filter (\<lambda>r. key r > key (last got)) (rows d) = drop k (filter (\<lambda>r. key r > c) (rows d))"
proof -
  let ?xs = "filter (\<lambda>r. key r > c) (rows d)"
  have sorted: "sorted_wrt (\<lambda>r s. key r < key s) (take k ?xs @ drop k ?xs)"
    using sorted_wrt_filter [OF sorted_rows [OF ok]] by simp
  have last: "last got \<in> set got" using assms(3) by simp
  have "sorted (map key got)"
    using sorted assms(2)
    by (auto simp: sorted_wrt_append sorted_map intro: sorted_wrt_mono_rel [of _ "\<lambda>r s. key r < key s"])
  then have le: "key r \<le> key (last got)" if "r \<in> set got" for r using that by (rule sorted_map_last)
  have gt: "key (last got) < key r" if "r \<in> set (drop k ?xs)" for r
    using sorted last that assms(2) by (auto simp: sorted_wrt_append)
  have "key (last got) > c" using last assms(2) by (auto dest: in_set_takeD)
  then have "filter (\<lambda>r. key r > key (last got)) (rows d) = filter (\<lambda>r. key r > key (last got)) (take k ?xs @ drop k ?xs)"
    by (simp add: filter_filter) (rule filter_cong, auto)
  also have "\<dots> = drop k ?xs"
    using le gt assms(2) by (auto simp: filter_empty_conv filter_id_conv not_less)
  finally show ?thesis .
qed

text \<open>Enough turns get every row after the cursor, each once and in order.\<close>

lemma fetches_rest:
  assumes ok: "ok d" and limit: "0 < limit"
  shows "length (filter (\<lambda>r. key r > c) (rows d)) < n \<Longrightarrow>
    fetch_all (get d) limit n c = filter (\<lambda>r. key r > c) (rows d)"
proof (induction n arbitrary: c)
  case (Suc n)
  let ?xs = "filter (\<lambda>r. key r > c) (rows d)"
  obtain got nxt where g: "get d limit c = (got, nxt)" by fastforce
  have got: "got = take limit ?xs" using get_rows [OF ok, of limit c] g by simp
  have nxt: "nxt = (if got = [] then None else Some (key (last got)))"
    using get_cursor [OF ok, of limit c] by (simp only: g fst_conv snd_conv)
  show ?case
  proof (cases "got = []")
    case True
    with got limit have "?xs = []" by simp
    with True g nxt show ?thesis by simp
  next
    case False
    from after_last [OF ok got [symmetric] False]
    have rest: "filter (\<lambda>r. key r > key (last got)) (rows d) = drop limit ?xs" .
    have "length (drop limit ?xs) < n" using Suc.prems limit False got by (cases "?xs") auto
    then have "fetch_all (get d) limit n (key (last got)) = drop limit ?xs"
      using Suc.IH [of "key (last got)"] rest by simp
    with False g nxt got show ?thesis by simp
  qed
qed simp

text \<open>A client that starts at zero and may ask once more than there are rows.\<close>

lemma fetches_all:
  assumes "ok d" and "0 < limit" and "\<forall>r\<in>set (rows d). 0 < key r" and "length (rows d) < n"
  shows "fetch_all (get d) limit n 0 = rows d"
proof -
  have all: "filter (\<lambda>r. key r > 0) (rows d) = rows d" using assms(3) by (simp add: filter_id_conv)
  show ?thesis using fetches_rest [OF assms(1,2), of 0 n] assms(4) all by simp
qed

end

section \<open>Metadata\<close>

text \<open>The rows an application's query means, and one turn of its client, who goes on from the last id.\<close>

definition metadata_ok :: "nat \<times> (int \<Rightarrow> bool) option \<times> metadata_row list \<Rightarrow> bool" where
  "metadata_ok d \<longleftrightarrow> (case d of (app, test, rows) \<Rightarrow> t_inv md_id rows)"

definition metadata_rows :: "nat \<times> (int \<Rightarrow> bool) option \<times> metadata_row list \<Rightarrow> metadata_row list" where
  "metadata_rows d = (case d of (app, test, rows) \<Rightarrow> sort_key md_id (filter (metadata_matches app test) rows))"

definition metadata_turn :: "nat \<times> (int \<Rightarrow> bool) option \<times> metadata_row list \<Rightarrow> nat \<Rightarrow> nat \<Rightarrow> metadata_row list \<times> nat option" where
  "metadata_turn d limit c =
     (case d of (app, test, rows) \<Rightarrow>
        let got = metadata_page app test rows limit (Some c)
        in (got, if got = [] then None else Some (md_id (last got))))"

lemma sort_key_strict: "distinct (map f xs) \<Longrightarrow> sorted_wrt (\<lambda>x y. f x < (f y :: nat)) (sort_key f xs)"
proof -
  assume "distinct (map f xs)"
  then have "distinct (map f (sort_key f xs))" by (simp add: distinct_map)
  moreover have "sorted (map f (sort_key f xs))" by simp
  ultimately have "sorted_wrt (<) (map f (sort_key f xs))" using strict_sorted_iff by blast
  then show ?thesis by (simp add: sorted_wrt_map)
qed

lemma filter_sort_key: "filter P (sort_key f xs) = sort_key f (filter P xs)"
  by (rule filter_sort)

interpretation metadata: cursor_pages md_id metadata_ok metadata_rows metadata_turn
proof
  fix d :: "nat \<times> (int \<Rightarrow> bool) option \<times> metadata_row list" and limit c
  obtain app test rows where d [simp]: "d = (app, test, rows)" by (cases d)
  assume "metadata_ok d"
  then have "distinct (map md_id (filter (metadata_matches app test) rows))"
    by (simp add: metadata_ok_def t_inv_def distinct_map_filter_upd)
  then show "sorted_wrt (\<lambda>r s. md_id r < md_id s) (metadata_rows d)"
    by (simp add: metadata_rows_def sort_key_strict)
  show "fst (metadata_turn d limit c) = take limit (filter (\<lambda>r. md_id r > c) (metadata_rows d))"
    by (simp add: metadata_turn_def metadata_page_def metadata_rows_def given_def Let_def filter_sort_key conj_commute)
  show "snd (metadata_turn d limit c) =
     (if fst (metadata_turn d limit c) = [] then None else Some (md_id (last (fst (metadata_turn d limit c)))))"
    by (simp add: metadata_turn_def Let_def)
qed

section \<open>Shards\<close>

text \<open>Ids are unique in their shard, positive, and carry its number; the shards come in ascending order.\<close>

definition shards_ok :: "('r \<Rightarrow> nat) \<Rightarrow> (nat \<times> 'r list) list \<Rightarrow> bool" where
  "shards_ok key shards \<longleftrightarrow>
     sorted_wrt (<) (map fst shards) \<and>
     (\<forall>(sid, rows)\<in>set shards. distinct (map key rows) \<and> (\<forall>r\<in>set rows. 0 < key r \<and> shard_key_for_id (key r) = sid))"

definition shard_rows :: "('r \<Rightarrow> nat) \<Rightarrow> (nat \<times> 'r list) list \<Rightarrow> 'r list" where
  "shard_rows key shards = concat (map (\<lambda>(sid, rows). sort_key key rows) shards)"

definition shard_turn :: "('r \<Rightarrow> nat) \<Rightarrow> (nat \<times> 'r list) list \<Rightarrow> nat \<Rightarrow> nat \<Rightarrow> 'r list \<times> nat option" where
  "shard_turn key shards limit c = shard_loop key c limit shards [] None"

lemma shard_mono: "i \<le> j \<Longrightarrow> shard_key_for_id i \<le> shard_key_for_id j"
  by (simp add: shard_key_for_id_def div_le_mono)

lemma shard_less: "shard_key_for_id i < shard_key_for_id j \<Longrightarrow> i < j"
  using shard_mono [of j i] by (meson not_less)

lemma shards_ok_Cons:
  "shards_ok key ((sid, rows) # shards) \<longleftrightarrow>
     (\<forall>s\<in>fst ` set shards. sid < s) \<and> distinct (map key rows) \<and>
     (\<forall>r\<in>set rows. 0 < key r \<and> shard_key_for_id (key r) = sid) \<and> shards_ok key shards"
  by (auto simp: shards_ok_def)

lemma shard_rows_Cons: "shard_rows key ((sid, rows) # shards) = sort_key key rows @ shard_rows key shards"
  by (simp add: shard_rows_def)

lemma shard_rows_mem: "shards_ok key shards \<Longrightarrow> r \<in> set (shard_rows key shards) \<Longrightarrow> 0 < key r \<and> shard_key_for_id (key r) \<in> fst ` set shards"
  by (force simp: shards_ok_def shard_rows_def)

lemma shard_rows_sorted: "shards_ok key shards \<Longrightarrow> sorted_wrt (\<lambda>r s. key r < key s) (shard_rows key shards)"
proof (induction shards)
  case (Cons s shards)
  obtain sid rows where s: "s = (sid, rows)" by (cases s)
  from Cons.prems s have ok: "shards_ok key shards" and above: "\<forall>s\<in>fst ` set shards. sid < s"
    and rows: "distinct (map key rows)" "\<forall>r\<in>set rows. shard_key_for_id (key r) = sid"
    by (simp_all add: shards_ok_Cons)
  have "key r < key t" if "r \<in> set rows" "t \<in> set (shard_rows key shards)" for r t
  proof (rule shard_less)
    have "shard_key_for_id (key t) \<in> fst ` set shards" using shard_rows_mem [OF ok that(2)] by simp
    with above have "sid < shard_key_for_id (key t)" by blast
    with rows(2) that(1) show "shard_key_for_id (key r) < shard_key_for_id (key t)" by simp
  qed
  with Cons.IH [OF ok] sort_key_strict [OF rows(1)] show ?case
    by (simp add: s shard_rows_Cons sorted_wrt_append)
qed (simp add: shard_rows_def)

lemma next_cursor_last:
  "shard_key_for_id (key (last got)) = sid \<Longrightarrow> next_page_cursor key sid got = key (last got)"
  unfolding next_page_cursor_def Let_def by (metis (full_types))

text \<open>One shard: what it contributes are its rows after the cursor.\<close>

lemma shard_filter:
  assumes "\<forall>r\<in>set rows. 0 < key r \<and> shard_key_for_id (key r) = sid" and "\<not> sid < shard_key_for_id c"
  shows "filter (\<lambda>r. (if sid = shard_key_for_id c then c else 0) = 0 \<or> key r > (if sid = shard_key_for_id c then c else 0)) rows =
         filter (\<lambda>r. key r > c) rows"
proof (rule filter_cong)
  fix r
  assume "r \<in> set rows"
  with assms(1) have r: "0 < key r" "shard_key_for_id (key r) = sid" by auto
  show "((if sid = shard_key_for_id c then c else 0) = 0 \<or> key r > (if sid = shard_key_for_id c then c else 0)) = (key r > c)"
  proof (cases "sid = shard_key_for_id c")
    case False
    with assms(2) r have "shard_key_for_id c < shard_key_for_id (key r)" by simp
    from shard_less [OF this] False show ?thesis by simp
  qed (use r in auto)
qed simp

lemma shard_loop_eq:
  "shards_ok key shards \<Longrightarrow>
   shard_loop key c limit shards results nxt =
     (let got = take (limit - length results) (filter (\<lambda>r. key r > c) (shard_rows key shards))
      in (results @ got, if got = [] then nxt else Some (key (last got))))"
proof (induction shards arbitrary: results nxt)
  case (Cons s shards)
  obtain sid rows where s: "s = (sid, rows)" by (cases s)
  from Cons.prems s have ok: "shards_ok key shards"
    and rows: "\<forall>r\<in>set rows. 0 < key r \<and> shard_key_for_id (key r) = sid" by (simp_all add: shards_ok_Cons)
  note IH = Cons.IH [OF ok]
  let ?here = "filter (\<lambda>r. key r > c) (sort_key key rows)"
  consider "sid < shard_key_for_id c" | "\<not> sid < shard_key_for_id c" "limit \<le> length results"
    | "\<not> sid < shard_key_for_id c" "length results < limit" by linarith
  then show ?case
  proof cases
    case 1
    have "?here = []"
    proof (simp add: filter_empty_conv, intro ballI)
      fix r assume "r \<in> set rows"
      with rows have "shard_key_for_id (key r) = sid" by blast
      with 1 have "key r < c" by (simp add: shard_less)
      then show "\<not> c < key r" by simp
    qed
    with 1 IH show ?thesis by (simp add: s shard_rows_Cons)
  next
    case 2
    then show ?thesis by (simp add: s)
  next
    case 3
    let ?got = "take (limit - length results) ?here"
    have got: "take (limit - length results) (sort_key key (filter (\<lambda>r. (if sid = shard_key_for_id c then c else 0) = 0 \<or>
        key r > (if sid = shard_key_for_id c then c else 0)) rows)) = ?got"
      unfolding shard_filter [OF rows 3(1)] by (simp add: filter_sort_key)
    show ?thesis
    proof (cases "?got = []")
      case True
      with 3 have "?here = []" by simp
      with True 3 IH got show ?thesis by (simp add: s shard_rows_Cons Let_def)
    next
      case False
      have "last ?got \<in> set rows" using last_in_set [OF False] by (auto dest: in_set_takeD)
      with rows have "shard_key_for_id (key (last ?got)) = sid" by blast
      then have nxt: "next_page_cursor key sid ?got = key (last ?got)"
        by (rule next_cursor_last)
      let ?n = "limit - length results"
      let ?rest = "filter (\<lambda>r. key r > c) (shard_rows key shards)"
      have step: "shard_loop key c limit (s # shards) results nxt =
          shard_loop key c limit shards (results @ ?got) (Some (key (last ?got)))"
        using 3 got False nxt by (simp add: s Let_def del: take_eq_Nil)
      have left: "limit - length (results @ ?got) = ?n - length ?here" by simp
      have all: "take ?n (filter (\<lambda>r. key r > c) (shard_rows key (s # shards))) = ?got @ take (?n - length ?here) ?rest"
        by (simp add: s shard_rows_Cons)
      show ?thesis
        unfolding step IH left all Let_def using False by (simp add: last_append del: take_eq_Nil take_eq_Nil2)
    qed
  qed
qed (simp add: shard_rows_def)

interpretation shards: cursor_pages key "shards_ok key" "shard_rows key" "shard_turn key" for key
  by unfold_locales (simp_all add: shard_rows_sorted shard_turn_def shard_loop_eq Let_def)

end
