(* ===== verification/Props_Api.thy ===== *)
theory Props_Api
  imports Label_Proofs Api_Pages Samples
begin

text \<open>
  Properties of the API: public ids, pages over all shards, and what clients change on messages and
  threads.
\<close>

section \<open>Public ids\<close>

lemma lower_char_small: "(of_char (lower_char c) :: nat) < 65 \<Longrightarrow> lower_char c = c"
  by (auto simp: lower_char_def of_char_of split: if_splits)

lemma digit_val_lower: "digit_val (lower_char c) = digit_val c"
  by (auto simp: digit_val_def lower_char_def of_char_of Let_def)

lemma digits_val_lower: "digits_val b acc (py_lower s) = digits_val b acc s"
  by (induction s arbitrary: acc) (auto simp: digit_val_lower split: option.splits)

lemma lower_char_plain:
  assumes "\<not> py_space c \<and> c \<noteq> CHR ''-'' \<and> c \<noteq> CHR ''+''"
  shows "\<not> py_space (lower_char c) \<and> lower_char c \<noteq> CHR ''-'' \<and> lower_char c \<noteq> CHR ''+''"
proof -
  have "d = c" if "d = lower_char c" "(of_char d :: nat) < 65" for d
    using that lower_char_small by simp
  with assms show ?thesis unfolding py_space_def by auto
qed

lemma b36_lower_decode:
  assumes "0 < n"
  shows "base36decode (py_lower (base36_loop n [])) = Ok (int n)"
proof -
  let ?s = "base36_loop n []"
  from assms have ne: "?s \<noteq> []" by (simp add: base36_loop_step)
  have plain: "\<not> py_space c \<and> c \<noteq> CHR ''-'' \<and> c \<noteq> CHR ''+''" if c: "c \<in> set (py_lower ?s)" for c
  proof -
    from c obtain d where "d \<in> set ?s" "c = lower_char d" by (auto simp: py_lower_def)
    with lower_char_plain [OF base36_loop_chars [of d n]] show ?thesis by simp
  qed
  have "hd (py_lower ?s) \<in> set (py_lower ?s)" using ne by simp
  with plain have "py_int 36 (py_lower ?s) = Ok (int n)"
    using ne by (intro py_int_plain) (auto simp: digits_val_lower base36_loop_digits)
  then show ?thesis by (simp add: base36decode_def)
qed

text \<open>
  C24: A public id that is written as text and read back is the same 128-bit number, for every
  number a row can have.
\<close>

theorem public_id_roundtrip: "\<exists>s. int128_to_b36 w = Ok s \<and> b36_to_bin s = Ok w \<and> s \<noteq> [] \<and> has_public_id s w"
proof (cases "uint w = 0")
  case True
  then have w: "w = 0" by (simp add: uint_0_iff)
  have "base36encode 0 = Ok ''0''" "base36decode (py_lower ''0'') = Ok 0" by code_simp+
  then show ?thesis by (simp add: w int128_to_b36_def b36_to_bin_def has_public_id_def)
next
  case False
  then have pos: "0 < nat (uint w)" using uint_ge_0 [of w] by linarith
  let ?s = "py_lower (base36_loop (nat (uint w)) [])"
  have ne: "?s \<noteq> []" using pos by (simp add: base36_loop_step)
  have "int128_to_b36 w = Ok ?s"
    using ne by (simp add: int128_to_b36_def base36encode_def Let_def)
  moreover have "b36_to_bin ?s = Ok w"
    using b36_lower_decode [OF pos] by (simp add: b36_to_bin_def)
  ultimately show ?thesis using ne by (auto simp: has_public_id_def)
qed

section \<open>Pages\<close>

text \<open>
  C23: A client that follows the cursors of the pages over all shards gets every row of every shard
  exactly once, in the order of the ids, when the ids carry the number of their shard, whatever
  the size of a page.
\<close>

theorem shard_pages_complete:
  assumes "shards_ok key shards" and "0 < limit" and "length (shard_rows key shards) < n"
  shows "fetch_all (\<lambda>l c. case page_over_shards key shards (Some c) l of Inr p \<Rightarrow> p | Inl e \<Rightarrow> ([], None)) limit n 0 =
    shard_rows key shards"
proof -
  have "(\<lambda>l c. case page_over_shards key shards (Some c) l of Inr p \<Rightarrow> p | Inl e \<Rightarrow> ([], None)) = shard_turn key shards"
    by (simp add: fun_eq_iff page_over_shards_def shard_turn_def)
  with shards.fetches_all [OF assms(1,2) _ assms(3)] shard_rows_mem [OF assms(1)] show ?thesis by simp
qed

theorem shard_pages_complete_witness:
  "fetch_all (\<lambda>l c. case page_over_shards id [(0, [2, 1]), (1, [2 ^ 48 + 4, 2 ^ 48 + 3])] (Some c) l of
      Inr p \<Rightarrow> p | Inl e \<Rightarrow> ([], None)) 3 5 0 = [1, 2, 2 ^ 48 + 3, 2 ^ 48 + 4]"
proof -
  let ?shards = "[(0, [2, 1]), (1, [2 ^ 48 + 4, 2 ^ 48 + 3])] :: (nat \<times> nat list) list"
  have rows: "shard_rows id ?shards = [1, 2, 2 ^ 48 + 3, 2 ^ 48 + 4]" by (simp add: shard_rows_def insort_key.simps)
  have ok: "shards_ok id ?shards" by (simp add: shards_ok_def shard_key_for_id_def)
  have len: "length (shard_rows id ?shards) < 5" unfolding rows by simp
  have three: "0 < (3 :: nat)" by simp
  show ?thesis using shard_pages_complete [OF ok three len] by (simp only: rows)
qed

text \<open>The same contract gives an application all metadata that matches its query.\<close>

theorem metadata_pages_complete:
  assumes "t_inv md_id rows" and "\<forall>r\<in>set rows. 0 < md_id r" and "0 < limit" and "length rows < n"
  shows "fetch_all (metadata_turn (app, test, rows)) limit n 0 = metadata_rows (app, test, rows)"
proof -
  have "length (metadata_rows (app, test, rows)) \<le> length rows" by (simp add: metadata_rows_def)
  then have "length (metadata_rows (app, test, rows)) < n" using assms(4) by (rule le_less_trans)
  with assms show ?thesis
    by (intro metadata.fetches_all) (simp_all add: metadata_ok_def metadata_rows_def)
qed

text \<open>
  When the ids of a later shard do not carry its number, a page ends with a cursor in the range
  of that shard, beyond all its ids: the rows after the first page are never returned, and the
  cursor of the page that then comes back empty is no valid cursor.
\<close>

theorem unsharded_ids_lose_rows:
  "page_over_shards id [(1, [5, 7, 9])] (Some 0) 2 = Ok ([5, 7], Some (7 + 2 ^ 48)) \<and>
   page_over_shards id [(1, [5, 7, 9])] (Some (7 + 2 ^ 48)) 2 = Ok ([], None) \<and>
   page_over_shards id [(1, [5, 7, 9])] None 2 = Raise (ValueError ''invalid literal'')"
  by (simp add: page_over_shards_def shard_key_for_id_def next_page_cursor_def insort_key.simps)

section \<open>Recurring events in a range\<close>

lemma start_bounds_fixed: "start_bounds q (start_bounds r w) = start_bounds r w"
  by (cases "ew_starts_before w"; cases "ew_ends_before w"; cases "ew_starts_after w"; cases "ew_ends_after w")
    (simp_all add: start_bounds_def)

lemma expand_each_fixed:
  "(\<And>q. start_bounds q w = w) \<Longrightarrow>
   expand_each expand w rs = res_fold (\<lambda>e es. res_bind (expand e (ew_starts_after w) (ew_starts_before w)) (\<lambda>fs. Ok (es @ fs))) rs []"
proof -
  assume fixed: "\<And>q. start_bounds q w = w"
  have "res_bind (expand_each expand w rs) (\<lambda>es. Ok (acc @ es)) =
      res_fold (\<lambda>e es. res_bind (expand e (ew_starts_after w) (ew_starts_before w)) (\<lambda>fs. Ok (es @ fs))) rs acc" for acc
  proof (induction rs arbitrary: acc)
    case (Cons r rs)
    show ?case
    proof (cases "expand r (ew_starts_after w) (ew_starts_before w)")
      case (Inr es)
      have "res_bind (expand_each expand w rs) (\<lambda>rest. Ok (acc @ es @ rest)) =
          res_bind (expand_each expand w rs) (\<lambda>rest. Ok ((acc @ es) @ rest))" by simp
      with Inr show ?thesis by (simp add: fixed Let_def res_bind_assoc Cons.IH [of "acc @ es", symmetric])
    qed (simp add: fixed Let_def)
  qed simp
  from this [of "[]"] show ?thesis by (cases "expand_each expand w rs") simp_all
qed

text \<open>
  When events are asked for by a bound on their end, all recurring events are expanded in the
  range that the length of the first of them gives, not in the range of their own length.
\<close>

theorem recurring_window_of_first:
  assumes "ew_starts_before w = None" and "ew_ends_before w = Some t"
  shows "expand_each expand w (r # rs) =
    res_fold (\<lambda>e es. res_bind (expand e (ew_starts_after (start_bounds r w)) (Some (t - event_length r))) (\<lambda>fs. Ok (es @ fs)))
      (r # rs) []"
proof -
  have before: "ew_starts_before (start_bounds r w) = Some (t - event_length r)"
    using assms by (simp add: start_bounds_def)
  have "expand_each expand w (r # rs) = expand_each expand (start_bounds r w) (r # rs)"
    by (simp add: Let_def start_bounds_fixed)
  then show ?thesis by (simp only: expand_each_fixed [OF start_bounds_fixed] before)
qed


definition meeting :: "string \<Rightarrow> datetime \<Rightarrow> event_row" where
  "meeting uid len = \<lparr>ev_id = 0, ev_public_id = uid, ev_namespace_id = Some 1, ev_calendar_id = Some 1, ev_uid = uid,
     ev_provider_name = None, ev_source = ''local'', ev_raw_data = [], ev_title = None, ev_owner = None,
     ev_description = None, ev_location = None, ev_busy = True, ev_read_only = False, ev_reminders = None,
     ev_recurrence = None, ev_start = 0, ev_end = len, ev_all_day = False, ev_is_owner = True, ev_last_modified = None,
     ev_status = ''confirmed'', ev_message_id = None, ev_participants = [], ev_sequence_number = None, ev_kind = Plain\<rparr>"

text \<open>Two events, one and three hours long, asked for by their end: the second is looked up in the range of the first.\<close>

theorem recurring_window_of_first_witness:
  "\<exists>r q w t. event_length r \<noteq> event_length q \<and>
     expand_each (\<lambda>e s b. Ok (if b = Some (t - event_length e) then [e] else [])) w [r, q] = Ok [r]"
proof -
  let ?w = "\<lparr>ew_starts_before = None, ew_starts_after = None, ew_ends_before = Some 100, ew_ends_after = None\<rparr>"
  have "event_length (meeting ''a'' 10) = 10 \<and> event_length (meeting ''b'' 30) = 30" by code_simp
  moreover have "expand_each (\<lambda>e s b. Ok (if b = Some (100 - event_length e) then [e] else [])) ?w [meeting ''a'' 10, meeting ''b'' 30] = Ok [meeting ''a'' 10]"
    using calculation by (subst recurring_window_of_first [of _ 100]) simp_all
  ultimately show ?thesis
    by (intro exI [of _ "meeting ''a'' 10"] exI [of _ "meeting ''b'' 30"] exI [of _ ?w] exI [of _ "100 :: int"]) simp
qed

section \<open>Flags\<close>

text \<open>
  An update of flags sets exactly the flags that are given, logs one action for each that
  changes and none for the others, and doing it again changes and logs nothing.
\<close>

theorem flag_update_exact:
  assumes "account_of_namespace db (m_namespace_id m) = Some acc"
  shows "\<exists>db' m'. update_message_flags now True unread starred (db, m) = Ok (db', m') \<and>
    m' = m\<lparr>m_is_read := (case unread of None \<Rightarrow> m_is_read m | Some u \<Rightarrow> \<not> u),
           m_is_starred := (case starred of None \<Rightarrow> m_is_starred m | Some b \<Rightarrow> b)\<rparr> \<and>
    map (\<lambda>l. (al_action l, al_record_id l, al_extra_args l)) (actionlogs db') =
      map (\<lambda>l. (al_action l, al_record_id l, al_extra_args l)) (actionlogs db) @
      (if unread = Some (m_is_read m) then [(''mark_unread'', m_id m, [(''unread'', JBool (m_is_read m))])] else []) @
      (if starred = Some (\<not> m_is_starred m) then [(''mark_starred'', m_id m, [(''starred'', JBool (\<not> m_is_starred m))])] else []) \<and>
    messages db' = (if unread = Some (m_is_read m) \<or> starred = Some (\<not> m_is_starred m) then t_put m_id (messages db) m' else messages db) \<and>
    update_message_flags later True unread starred (db', m') = Ok (db', m')"
proof -
  have account: "account_of_namespace (d\<lparr>messages := ms, actionlogs := ls\<rparr>) n = account_of_namespace d n"
    "account_of_namespace (d\<lparr>messages := ms\<rparr>) n = account_of_namespace d n"
    "account_of_namespace (d\<lparr>actionlogs := ls\<rparr>) n = account_of_namespace d n" for d ms ls n
    by (simp_all add: account_of_namespace_def)
  show ?thesis
    using assms
    by (cases unread; cases starred)
      (auto simp: update_message_flags_def update_unread_def update_starred_def log_change_def schedule_action_def
         save_message_def account t_add_def t_put_put Let_def)
qed

text \<open>Two messages in a Gmail account, one of them in spam, and a draft in the same thread.\<close>

definition api_store :: store where
  "api_store = empty_store\<lparr>accounts := [sample_account\<lparr>acc_provider := ''gmail'', acc_category_type := ''label''\<rparr>],
     categories := map (\<lambda>(i, n). \<lparr>cat_id = i, cat_namespace_id = 1, cat_name = n, cat_display_name = n,
        cat_type = ''label'', cat_deleted_at = 0\<rparr>)
       [(1, ''inbox''), (2, ''all''), (3, ''trash''), (4, ''spam'')],
     threads := [sample_thread 1],
     messages := [(sample_message 1)\<lparr>m_thread_id := Some 1, m_categories := [Some 1, Some 2]\<rparr>,
       (sample_message 2)\<lparr>m_thread_id := Some 1, m_categories := [Some 4]\<rparr>,
       (sample_message 3)\<lparr>m_thread_id := Some 1, m_is_draft := True\<rparr>]\<rparr>"

lemmas api_defs = api_store_def sample_defs

theorem flag_update_exact_witness:
  "\<exists>db' m'. update_message_flags 5 True (Some False) (Some False) (api_store, sample_message 1) = Ok (db', m') \<and>
     m' = (sample_message 1)\<lparr>m_is_read := True\<rparr> \<and>
     map (\<lambda>l. (al_action l, al_record_id l, al_extra_args l)) (actionlogs db') = [(''mark_unread'', 1, [(''unread'', JBool False)])]"
proof -
  have "account_of_namespace api_store (m_namespace_id (sample_message 1)) =
      Some (sample_account\<lparr>acc_provider := ''gmail'', acc_category_type := ''label''\<rparr>)"
    by (simp add: api_defs account_of_namespace_def)
  from flag_update_exact [OF this, of 5 "Some False" "Some False" 6] show ?thesis
    by (simp add: api_defs) metis
qed

section \<open>Threads\<close>

definition api_env :: update_env where
  "api_env = \<lparr>ue_now = 5, ue_optimistic = True, ue_pid = of_nat,
     ue_order = (\<lambda>S. filter (\<lambda>c. c \<in> S) [Some 1, Some 2, Some 3, Some 4])\<rparr>"

text \<open>
  C22: An update of a thread leaves every draft and every message of other threads as it is, and for
  providers other than Gmail no sent message changes its folder.
\<close>

theorem thread_update_spares:
  assumes "t_inv m_id (messages db)" and "update_thread env acc req th db = Ok db'" and "x \<in> set (messages db)"
  shows "(m_is_draft x \<or> m_thread_id x \<noteq> Some (th_id th) \<longrightarrow> x \<in> set (messages db')) \<and>
    (m_is_sent x \<and> acc_provider acc \<noteq> ''gmail'' \<longrightarrow>
       (\<exists>y\<in>set (messages db'). m_id y = m_id x \<and> m_categories y = m_categories x))"
  using update_thread_spares [OF assms(1,3) _ assms(2)] update_thread_keeps_sent [OF assms(1,3) _ _ assms(2)] by blast

definition api_account :: account_row where
  "api_account = sample_account\<lparr>acc_provider := ''gmail'', acc_category_type := ''label''\<rparr>"

definition api_request :: request where
  "api_request = [(''unread'', JBool False), (''label_ids'', JList [JStr ''3''])]"

lemma api_run: "\<exists>db'. update_thread api_env api_account api_request (sample_thread 1) api_store = Ok db' \<and>
    map m_categories (messages db') = [[Some 3], [Some 3], []]"
proof -
  have "case update_thread api_env api_account api_request (sample_thread 1) api_store of
      Inl e \<Rightarrow> False | Inr db \<Rightarrow> map m_categories (messages db) = [[Some 3], [Some 3], []]" by code_simp
  then show ?thesis by (auto split: sum.splits)
qed

theorem thread_update_spares_witness:
  "\<exists>db'. update_thread api_env api_account api_request (sample_thread 1) api_store = Ok db' \<and>
     (sample_message 3)\<lparr>m_thread_id := Some 1, m_is_draft := True\<rparr> \<in> set (messages db')"
proof -
  have inv: "t_inv m_id (messages api_store)" by (simp add: api_defs t_inv_def)
  have x: "(sample_message 3)\<lparr>m_thread_id := Some 1, m_is_draft := True\<rparr> \<in> set (messages api_store)"
    by (simp add: api_store_def)
  from api_run obtain db' where "update_thread api_env api_account api_request (sample_thread 1) api_store = Ok db'" by blast
  with thread_update_spares [OF inv this x] show ?thesis by auto
qed

text \<open>
  C21: An update of a thread keeps the types of the store: the messages are the same ones and change
  in nothing but their flags and categories, and the categories of every message are rows of its
  own namespace.
\<close>

theorem thread_update_typed:
  assumes "mail_typed db" and "\<And>S. set (ue_order env S) \<subseteq> S"
    and "\<forall>m\<in>set (thread_messages db (th_id th)). m_namespace_id m = th_namespace_id th"
    and "update_thread env acc req th db = Ok db'"
  shows "mail_typed db' \<and> map fixed_part (messages db') = map fixed_part (messages db) \<and> categories db' = categories db"
  using update_thread_typed [OF assms] by (simp add: same_messages_def)

theorem thread_update_typed_witness:
  "\<exists>db'. update_thread api_env api_account api_request (sample_thread 1) api_store = Ok db' \<and> mail_typed db'"
proof -
  have typed: "mail_typed api_store" by (simp add: api_defs mail_typed_def typed_cats_rows t_inv_def)
  have order: "set (ue_order api_env S) \<subseteq> S" for S by (auto simp: api_env_def)
  have ns: "\<forall>m\<in>set (thread_messages api_store (th_id (sample_thread 1))). m_namespace_id m = th_namespace_id (sample_thread 1)"
    by (auto simp: api_defs thread_messages_set)
  from api_run obtain db' where "update_thread api_env api_account api_request (sample_thread 1) api_store = Ok db'" by blast
  with thread_update_typed [OF typed order ns this] show ?thesis by blast
qed

section \<open>The folder of a Gmail message\<close>

text \<open>
  C20: A message that is in exactly one of the folders all, trash and spam is in exactly one of them
  after any update of its labels, when the inbox is not added together with trash or spam.
\<close>

theorem one_folder_kept:
  assumes "category_names_unique db (m_namespace_id m)"
    and "set (m_categories m) \<union> set added \<subseteq> typed_cats db (m_namespace_id m)"
    and "folders_of db (m_categories m) = {n}"
    and "''inbox'' \<notin> name_of db ` set added \<or> name_of db ` set added \<inter> {''trash'', ''spam''} = {}"
    and "update_message_labels now optimistic added removed (db, m) = Ok (db', m')"
  shows "\<exists>n. folders_of db (m_categories m') = {n}"
  using assms by (intro update_message_labels_one_folder [OF assms(1-3) _ assms(5)]) blast

theorem one_folder_kept_witness:
  "\<exists>db' m' n. update_message_labels 5 True [Some 1] [Some 4]
     (api_store, (sample_message 2)\<lparr>m_categories := [Some 4]\<rparr>) = Ok (db', m') \<and>
     folders_of api_store (m_categories m') = {n}"
proof -
  let ?m = "(sample_message 2)\<lparr>m_categories := [Some 4]\<rparr>"
  have uniq: "category_names_unique api_store (m_namespace_id ?m)"
    by (simp add: api_defs category_names_unique_def t_inv_def)
  have typed: "set (m_categories ?m) \<union> set [Some 1] \<subseteq> typed_cats api_store (m_namespace_id ?m)"
    by (simp add: api_defs typed_cats_rows)
  have one: "folders_of api_store (m_categories ?m) = {''spam''}"
    by (simp add: api_defs folders_of_def folder_names_kept_def name_of_def cat_of_def t_get_def)
  have alone: "''inbox'' \<notin> name_of api_store ` set [Some 1] \<or> name_of api_store ` set [Some 1] \<inter> {''trash'', ''spam''} = {}"
    by (simp add: api_defs name_of_def cat_of_def t_get_def)
  have "case update_message_labels 5 True [Some 1] [Some 4] (api_store, ?m) of Inl e \<Rightarrow> False | Inr t \<Rightarrow> True" by code_simp
  then obtain db' m' where run: "update_message_labels 5 True [Some 1] [Some 4] (api_store, ?m) = Ok (db', m')"
    by (auto split: sum.splits)
  from one_folder_kept [OF uniq typed one alone run] run show ?thesis by blast
qed

text \<open>
  When the inbox and trash are added in this order to a message in spam, it is in two
  folders afterwards: the rule for the inbox adds all, and the one for trash, which should
  discard it, only knows the labels from before.
\<close>

theorem inbox_and_trash_two_folders:
  "(case update_message_labels 5 True [Some 1, Some 3] [Some 4] (api_store, (sample_message 2)\<lparr>m_categories := [Some 4]\<rparr>) of
      Inl e \<Rightarrow> False | Inr (db', m') \<Rightarrow> folders_of db' (m_categories m') = {''all'', ''trash''})"
  by code_simp

end
