(* ===== verification/Heartbeat.thy ===== *)
theory Heartbeat
  imports Event_Queues Py_Util
begin

text \<open>
  \<open>inbox/heartbeat\<close>: every sync greenlet publishes when it last was alive, in sorted sets that Redis
  instances keep for the accounts of their shard. Reads and removals of heartbeats, and the status
  that is derived from them. A command changes the instance at once; an exception does not undo the
  commands before it.
\<close>

section \<open>Keys\<close>

text \<open>Folders are known by their row ids, the two other syncs of an account and patterns by texts.\<close>

datatype folder_ref = Num int | Txt string

instantiation folder_ref :: linorder
begin

fun less_folder_ref :: "folder_ref \<Rightarrow> folder_ref \<Rightarrow> bool" where
  "less_folder_ref (Num i) (Num j) \<longleftrightarrow> i < j"
| "less_folder_ref (Num i) (Txt t) \<longleftrightarrow> True"
| "less_folder_ref (Txt s) (Num j) \<longleftrightarrow> False"
| "less_folder_ref (Txt s) (Txt t) \<longleftrightarrow> s < t"

definition less_eq_folder_ref :: "folder_ref \<Rightarrow> folder_ref \<Rightarrow> bool" where
  "less_eq_folder_ref x y \<longleftrightarrow> x < y \<or> x = y"

instance
proof
  fix x y z :: folder_ref
  show "(x < y) = (x \<le> y \<and> \<not> y \<le> x)"
    by (cases x; cases y) (auto simp: less_eq_folder_ref_def)
  show "x \<le> x" by (simp add: less_eq_folder_ref_def)
  show "x \<le> y \<Longrightarrow> y \<le> z \<Longrightarrow> x \<le> z"
    by (cases x; cases y; cases z) (auto simp: less_eq_folder_ref_def)
  show "x \<le> y \<Longrightarrow> y \<le> x \<Longrightarrow> x = y"
    by (cases x; cases y) (auto simp: less_eq_folder_ref_def)
  show "x \<le> y \<or> y \<le> x"
    by (cases x; cases y) (auto simp: less_eq_folder_ref_def)
qed

end

datatype status_key = HeartbeatStatusKey (key_account: nat) (key_folder: folder_ref)

text \<open>Keys are compared by account and then by folder.\<close>

definition key_less :: "status_key \<Rightarrow> status_key \<Rightarrow> bool" where
  "key_less x y \<longleftrightarrow>
     (if key_account x \<noteq> key_account y then key_account x < key_account y else key_folder x < key_folder y)"

definition key_equal :: "status_key \<Rightarrow> status_key \<Rightarrow> bool" where
  "key_equal x y \<longleftrightarrow> key_account x = key_account y \<and> key_folder x = key_folder y"

lemma key_equal_iff [simp]: "key_equal x y \<longleftrightarrow> x = y"
  by (cases x; cases y) (auto simp: key_equal_def)

instantiation status_key :: linorder
begin

definition less_status_key :: "status_key \<Rightarrow> status_key \<Rightarrow> bool" where
  "less_status_key x y \<longleftrightarrow> key_less x y"

definition less_eq_status_key :: "status_key \<Rightarrow> status_key \<Rightarrow> bool" where
  "less_eq_status_key x y \<longleftrightarrow> x < y \<or> key_equal x y"

instance
proof
  fix x y z :: status_key
  show "(x < y) = (x \<le> y \<and> \<not> y \<le> x)"
    by (cases x; cases y) (auto simp: less_eq_status_key_def less_status_key_def key_less_def)
  show "x \<le> x" by (simp add: less_eq_status_key_def)
  show "x \<le> y \<Longrightarrow> y \<le> z \<Longrightarrow> x \<le> z"
    by (cases x; cases y; cases z) (auto simp: less_eq_status_key_def less_status_key_def key_less_def split: if_splits)
  show "x \<le> y \<Longrightarrow> y \<le> x \<Longrightarrow> x = y"
    by (cases x; cases y) (auto simp: less_eq_status_key_def less_status_key_def key_less_def split: if_splits)
  show "x \<le> y \<or> y \<le> x"
    by (cases x; cases y) (auto simp: less_eq_status_key_def less_status_key_def key_less_def)
qed

end

definition dec_int :: "int \<Rightarrow> string" where
  "dec_int i = (if i < 0 then CHR ''-'' # dec_str (nat (- i)) else dec_str (nat i))"

definition folder_text :: "folder_ref \<Rightarrow> string" where
  "folder_text f = (case f of Num i \<Rightarrow> dec_int i | Txt s \<Rightarrow> s)"

definition key_text :: "status_key \<Rightarrow> string" where
  "key_text k = dec_str (key_account k) @ '':'' @ folder_text (key_folder k)"

definition CONTACTS_FOLDER_ID :: string where "CONTACTS_FOLDER_ID = ''-1''"
definition EVENTS_FOLDER_ID :: string where "EVENTS_FOLDER_ID = ''-2''"

definition contacts_key :: "nat \<Rightarrow> status_key" where
  "contacts_key aid = HeartbeatStatusKey aid (Txt CONTACTS_FOLDER_ID)"

definition events_key :: "nat \<Rightarrow> status_key" where
  "events_key aid = HeartbeatStatusKey aid (Txt EVENTS_FOLDER_ID)"

text \<open>\<open>map(int, string_key.split(':'))\<close>; the account of a key that the store made is not negative.\<close>

definition key_from_string :: "string \<Rightarrow> status_key res" where
  "key_from_string s =
     (case split_from '':'' [] s of
        [a, f] \<Rightarrow>
          res_bind (py_int 10 a) (\<lambda>i. res_bind (py_int 10 f) (\<lambda>j. Ok (HeartbeatStatusKey (nat i) (Num j))))
      | _ \<Rightarrow> Raise (ValueError ''wrong number of values to unpack''))"

section \<open>A Redis instance\<close>

text \<open>
  Its keys with their values. A collection without members is no key. The members of a sorted set
  come by score and then by text. A command on a value of another kind raises.
\<close>

datatype redis_value = Zset "(datetime \<times> string) list" | Hset "(string \<times> string) list"

type_synonym redis_db = "(string \<times> redis_value) list"

definition no_members :: "redis_value \<Rightarrow> bool" where
  "no_members v \<longleftrightarrow> v = Zset [] \<or> v = Hset []"

definition redis_put :: "string \<Rightarrow> redis_value \<Rightarrow> redis_db \<Rightarrow> redis_db" where
  "redis_put k v db =
     (if no_members v then filter (\<lambda>e. fst e \<noteq> k) db
      else if k \<in> fst ` set db then map (\<lambda>e. if fst e = k then (k, v) else e) db
      else db @ [(k, v)])"

definition redis_zset :: "string \<Rightarrow> redis_db \<Rightarrow> (datetime \<times> string) list res" where
  "redis_zset k db =
     (case map_of db k of None \<Rightarrow> Ok [] | Some (Zset z) \<Rightarrow> Ok z | Some (Hset h) \<Rightarrow> Raise OtherException)"

definition redis_hash :: "string \<Rightarrow> redis_db \<Rightarrow> (string \<times> string) list res" where
  "redis_hash k db =
     (case map_of db k of None \<Rightarrow> Ok [] | Some (Hset h) \<Rightarrow> Ok h | Some (Zset z) \<Rightarrow> Raise OtherException)"

definition by_score :: "(datetime \<times> string) list \<Rightarrow> (datetime \<times> string) list" where
  "by_score z = sort_key fst (sort_key snd z)"

definition r_zadd :: "string \<Rightarrow> datetime \<Rightarrow> string \<Rightarrow> (redis_db, unit) st" where
  "r_zadd k score member db =
     (case redis_zset k db of
        Inl e \<Rightarrow> (db, Raise e)
      | Inr z \<Rightarrow> (redis_put k (Zset (by_score (filter (\<lambda>e. snd e \<noteq> member) z @ [(score, member)]))) db, Ok ()))"

definition r_zrem :: "string \<Rightarrow> string \<Rightarrow> (redis_db, unit) st" where
  "r_zrem k member db =
     (case redis_zset k db of
        Inl e \<Rightarrow> (db, Raise e)
      | Inr z \<Rightarrow> (redis_put k (Zset (filter (\<lambda>e. snd e \<noteq> member) z)) db, Ok ()))"

definition r_hdel :: "string \<Rightarrow> string \<Rightarrow> (redis_db, unit) st" where
  "r_hdel k f db =
     (case redis_hash k db of
        Inl e \<Rightarrow> (db, Raise e)
      | Inr h \<Rightarrow> (redis_put k (Hset (filter (\<lambda>e. fst e \<noteq> f) h)) db, Ok ()))"

definition r_delete :: "string \<Rightarrow> (redis_db, unit) st" where
  "r_delete k db = (filter (\<lambda>e. fst e \<noteq> k) db, Ok ())"

text \<open>\<open>scan_iter\<close> for all keys of an account.\<close>

definition scan_keys :: "nat \<Rightarrow> redis_db \<Rightarrow> string list" where
  "scan_keys aid db = filter (prefix (dec_str aid @ '':'')) (map fst db)"

section \<open>The store\<close>

definition update_folder_index :: "status_key \<Rightarrow> datetime \<Rightarrow> (redis_db, unit) st" where
  "update_folder_index key timestamp = r_zadd (dec_str (key_account key)) timestamp (folder_text (key_folder key))"

text \<open>Without a heartbeat of the account the \<open>pop\<close> fails, which is ignored like every other exception here.\<close>

definition update_accounts_index :: "status_key \<Rightarrow> redis_db \<Rightarrow> redis_db" where
  "update_accounts_index key db =
     (case redis_zset (dec_str (key_account key)) db of
        Inr ((oldest, f) # z) \<Rightarrow> fst (r_zadd ''account_index'' oldest (dec_str (key_account key)) db)
      | _ \<Rightarrow> db)"

definition remove_from_folder_index :: "status_key \<Rightarrow> (redis_db, unit) st" where
  "remove_from_folder_index key =
     st_bind (r_zrem ''folder_index'' (key_text key))
       (\<lambda>_. r_zrem (dec_str (key_account key)) (folder_text (key_folder key)))"

definition remove_from_account_index :: "nat \<Rightarrow> (redis_db, unit) st" where
  "remove_from_account_index aid = st_bind (r_delete (dec_str aid)) (\<lambda>_. r_zrem ''account_index'' (dec_str aid))"

text \<open>A device of zero is no device.\<close>

definition remove_key :: "status_key \<Rightarrow> nat \<Rightarrow> (redis_db, unit) st" where
  "remove_key key device =
     (if device \<noteq> 0
      then st_bind (r_hdel (key_text key) (dec_str device)) (\<lambda>_ db.
             case redis_hash (key_text key) db of
               Inl e \<Rightarrow> (db, Raise e)
             | Inr h \<Rightarrow> if map fst h \<in> {[dec_str device], []} then remove_from_folder_index key db else (db, Ok ()))
      else st_bind (r_delete (key_text key)) (\<lambda>_. remove_from_folder_index key))"

definition safe_failure :: "('s, 'a) st \<Rightarrow> 's \<Rightarrow> 's \<times> 'a option" where
  "safe_failure f s = (case f s of (t, Inl e) \<Rightarrow> (t, None) | (t, Inr x) \<Rightarrow> (t, Some x))"

definition hb_publish :: "status_key \<Rightarrow> datetime \<Rightarrow> redis_db \<Rightarrow> redis_db \<times> unit option" where
  "hb_publish key timestamp = safe_failure (update_folder_index key timestamp)"

definition folder_given :: "folder_ref option \<Rightarrow> bool" where
  "folder_given f \<longleftrightarrow> (case f of None \<Rightarrow> False | Some (Num i) \<Rightarrow> i \<noteq> 0 | Some (Txt s) \<Rightarrow> s \<noteq> [])"

text \<open>
  Without a folder, every key the scan finds is given to \<open>remove\<close> with the pipeline as one argument
  more than it takes, which raises TypeError before the pipeline is executed.
\<close>

definition remove_folders_body :: "nat \<Rightarrow> folder_ref option \<Rightarrow> nat \<Rightarrow> (redis_db, nat) st" where
  "remove_folders_body aid folder device =
     (if folder_given folder
      then (let key = HeartbeatStatusKey aid (the folder)
            in st_bind (remove_key key device) (\<lambda>_ db. (update_accounts_index key db, Ok 1)))
      else (\<lambda>db. if scan_keys aid db \<noteq> [] then (db, Raise TypeError)
                 else if device = 0 then st_bind (remove_from_account_index aid) (\<lambda>_. st_ok 0) db
                 else (db, Ok 0)))"

definition remove_folders :: "nat \<Rightarrow> folder_ref option \<Rightarrow> nat \<Rightarrow> redis_db \<Rightarrow> redis_db \<times> nat option" where
  "remove_folders aid folder device = safe_failure (remove_folders_body aid folder device)"

section \<open>Instances and status\<close>

text \<open>The instances of all shards; an account has the one of its id modulo their number.\<close>

definition redis_shard :: "redis_db list \<Rightarrow> nat \<Rightarrow> nat" where
  "redis_shard shards aid = aid mod length shards"

definition redis_client :: "redis_db list \<Rightarrow> nat \<Rightarrow> redis_db" where
  "redis_client shards aid = shards ! redis_shard shards aid"

definition on_client :: "nat \<Rightarrow> (redis_db \<Rightarrow> redis_db \<times> 'a) \<Rightarrow> redis_db list \<Rightarrow> redis_db list \<times> 'a" where
  "on_client aid f shards =
     (case f (redis_client shards aid) of (db, x) \<Rightarrow> (shards[redis_shard shards aid := db], x))"

definition proxy_publish :: "status_key \<Rightarrow> datetime \<Rightarrow> redis_db list \<Rightarrow> redis_db list" where
  "proxy_publish key now shards = fst (on_client (key_account key) (hb_publish key now) shards)"

definition clear_heartbeat_status ::
  "nat \<Rightarrow> folder_ref option \<Rightarrow> nat \<Rightarrow> redis_db list \<Rightarrow> redis_db list \<times> nat option" where
  "clear_heartbeat_status aid folder device = on_client aid (remove_folders aid folder device)"

definition proxy_clear :: "status_key \<Rightarrow> nat \<Rightarrow> redis_db list \<Rightarrow> redis_db list" where
  "proxy_clear key device shards =
     fst (clear_heartbeat_status (key_account key) (Some (key_folder key)) device shards)"

definition get_account_folders :: "redis_db list \<Rightarrow> nat \<Rightarrow> (datetime \<times> string) list res" where
  "get_account_folders shards aid = redis_zset (dec_str aid) (redis_client shards aid)"

fun py_groupby :: "('a \<Rightarrow> 'b) \<Rightarrow> 'a list \<Rightarrow> 'a list list" where
  "py_groupby key [] = []"
| "py_groupby key (x # xs) =
     (case py_groupby key xs of
        [] \<Rightarrow> [[x]]
      | g # gs \<Rightarrow> if key (hd g) = key x then (x # g) # gs else [x] # g # gs)"

text \<open>The accounts of one shard are asked for in chunks, all of the instance of the first of them.\<close>

definition group_folders :: "redis_db list \<Rightarrow> nat list \<Rightarrow> (nat \<times> (datetime \<times> string) list) list res" where
  "group_folders shards grp =
     (let client = redis_client shards (hd grp)
      in res_fold (\<lambda>chnk found.
           res_fold (\<lambda>aid out. res_bind (redis_zset (dec_str aid) client) (\<lambda>z. Ok (out @ [(aid, z)]))) chnk found)
           (chunk 10000 grp) [])"

definition get_accounts_folders :: "redis_db list \<Rightarrow> nat list \<Rightarrow> (nat \<times> (datetime \<times> string) list) list res" where
  "get_accounts_folders shards aids =
     res_fold (\<lambda>grp found. res_bind (group_folders shards grp) (\<lambda>zs. Ok (found @ zs)))
       (py_groupby (redis_shard shards) (sort_key (redis_shard shards) aids)) []"

type_synonym folder_ping = "int \<times> bool \<times> datetime"

definition ALIVE_EXPIRY :: datetime where "ALIVE_EXPIRY = seconds 480"

fun folder_pings :: "datetime \<Rightarrow> (datetime \<times> string) list \<Rightarrow> folder_ping list res" where
  "folder_pings expiry [] = Ok []"
| "folder_pings expiry ((ts, f) # z) =
     res_bind (py_int 10 f) (\<lambda>i. res_bind (folder_pings expiry z) (\<lambda>ps. Ok ((i, ts > expiry, ts) # ps)))"

fun each_ping :: "datetime \<Rightarrow> (nat \<rightharpoonup> (datetime \<times> string) list) \<Rightarrow> nat list \<Rightarrow> (nat \<times> folder_ping list) list res" where
  "each_ping expiry found [] = Ok []"
| "each_ping expiry found (aid # aids) =
     (case found aid of
        None \<Rightarrow> Raise KeyError
      | Some z \<Rightarrow> res_bind (folder_pings expiry z) (\<lambda>ps.
                   res_bind (each_ping expiry found aids) (\<lambda>rest. Ok ((aid, ps) # rest))))"

definition get_ping_status :: "redis_db list \<Rightarrow> datetime \<Rightarrow> datetime \<Rightarrow> nat list \<Rightarrow> (nat \<times> folder_ping list) list res" where
  "get_ping_status shards now threshold aids =
     (let expiry = now - threshold
      in case aids of
           [aid] \<Rightarrow>
             res_bind (get_account_folders shards aid) (\<lambda>z.
             res_bind (folder_pings expiry z) (\<lambda>ps. Ok [(aid, ps)]))
         | _ \<Rightarrow> res_bind (get_accounts_folders shards aids) (\<lambda>found. each_ping expiry (dict_of found) aids))"

end
