(* ===== verification/Heartbeat_Proofs.thy ===== *)
theory Heartbeat_Proofs
  imports Heartbeat
begin

text \<open>
  Sorted sets keep one entry per member, a heartbeat is what the status shows, and asking for many
  accounts at once gives what asking for each of them gives.
\<close>

section \<open>Redis values\<close>

lemma map_of_filter_other: "map_of (filter (\<lambda>e. fst e \<noteq> k) db) j = (if j = k then None else map_of db j)"
  by (induction db) auto

lemma map_of_map_replace: "map_of (map (\<lambda>e. if fst e = k then (k, v) else e) db) j =
    (if j = k \<and> k \<in> fst ` set db then Some v else map_of db j)"
proof (induction db)
  case (Cons e db)
  show ?case
  proof (cases "k \<in> fst ` set db")
    case False
    then have "map_of db k = None" by (simp add: map_of_eq_None_iff)
    with False Cons show ?thesis by (cases e) auto
  qed (use Cons in \<open>cases e; auto\<close>)
qed simp

lemma redis_put_get:
  "map_of (redis_put k v db) j = (if j = k then (if no_members v then None else Some v) else map_of db j)"
  by (auto simp: redis_put_def map_of_filter_other map_of_map_replace map_add_def split: option.splits)
    (metis map_of_eq_None_iff option.distinct(1))

lemma zset_put_same: "redis_zset k (redis_put k (Zset z) db) = Ok z"
  by (simp add: redis_zset_def redis_put_get no_members_def)

lemma zset_put_other: "j \<noteq> k \<Longrightarrow> redis_zset j (redis_put k v db) = redis_zset j db"
  by (simp add: redis_zset_def redis_put_get)

lemma set_by_score [simp]: "set (by_score z) = set z"
  by (simp add: by_score_def)

lemma length_by_score [simp]: "length (by_score z) = length z"
  by (simp add: by_score_def)

lemma distinct_by_score [simp]: "distinct (map f (by_score z)) = distinct (map f z)"
  by (simp add: by_score_def distinct_map)

text \<open>Decimal texts of different numbers differ.\<close>

lemma dec_str_ne [simp]: "dec_str n \<noteq> []"
  by (subst dec_str.simps) simp

lemma alphabet_inj: "i < 36 \<Longrightarrow> j < 36 \<Longrightarrow> alphabet ! i = alphabet ! j \<longleftrightarrow> i = j"
  by (metis alphabet_digit option.inject)

lemma dec_str_inj: "dec_str m = dec_str n \<Longrightarrow> m = n"
proof (induction m arbitrary: n rule: dec_str.induct)
  case (1 m)
  show ?case
  proof (cases "m < 10 \<or> n < 10")
    case True
    have single: "k < 10" if "length (dec_str k) = 1" for k
    proof (rule ccontr)
      assume "\<not> k < 10"
      then have "dec_str k = dec_str (k div 10) @ [alphabet ! (k mod 10)]" by (subst dec_str.simps) simp
      with that show False by simp
    qed
    have "k < 10 \<Longrightarrow> dec_str k = [alphabet ! k]" for k by (subst dec_str.simps) simp
    with True 1(2) single have "m < 10" "n < 10" "[alphabet ! m] = [alphabet ! n]"
      by (metis length_Cons list.size(3) One_nat_def)+
    then show ?thesis by (simp add: alphabet_inj)
  next
    case False
    then have m: "dec_str m = dec_str (m div 10) @ [alphabet ! (m mod 10)]"
      and n: "dec_str n = dec_str (n div 10) @ [alphabet ! (n mod 10)]"
      by (subst dec_str.simps, simp)+
    from 1(2) have "dec_str (m div 10) = dec_str (n div 10)" "alphabet ! (m mod 10) = alphabet ! (n mod 10)"
      unfolding m n by simp_all
    with 1(1) False have "m div 10 = n div 10" "m mod 10 = n mod 10" by (simp_all add: alphabet_inj)
    then show ?thesis by (metis div_mult_mod_eq)
  qed
qed

lemma dec_str_digit: "c \<in> set (dec_str n) \<Longrightarrow> c \<in> set (take 10 alphabet)"
proof (induction n rule: dec_str.induct)
  case (1 n)
  show ?case
  proof (cases "n < 10")
    case True
    then have "dec_str n = [alphabet ! n]" by (subst dec_str.simps) simp
    with 1(2) True show ?thesis by (simp add: in_set_conv_nth length_alphabet) (metis nth_take)
  next
    case False
    then have "dec_str n = dec_str (n div 10) @ [alphabet ! (n mod 10)]" by (subst dec_str.simps) simp
    with 1 False show ?thesis by (auto simp: in_set_conv_nth length_alphabet intro: exI [of _ "n mod 10"])
  qed
qed

lemma take_alphabet_plain: "\<forall>c\<in>set (take 10 alphabet). \<not> py_space c \<and> c \<noteq> CHR ''-'' \<and> c \<noteq> CHR ''+''"
  by (simp add: alphabet_def py_space_def)

lemma digits_dec_str: "digits_val 10 0 (dec_str n) = Some n"
proof (induction n rule: dec_str.induct)
  case (1 n)
  show ?case
  proof (cases "n < 10")
    case True
    then have "dec_str n = [alphabet ! n]" by (subst dec_str.simps) simp
    with True alphabet_digit [of n] show ?thesis by simp
  next
    case False
    then have n: "dec_str n = dec_str (n div 10) @ [alphabet ! (n mod 10)]" by (subst dec_str.simps) simp
    have "digit_val (alphabet ! (n mod 10)) = Some (n mod 10)" using alphabet_digit [of "n mod 10"] by simp
    with 1 False show ?thesis by (simp add: n digits_val_append)
  qed
qed

lemma py_int_dec_str: "py_int 10 (dec_str n) = Ok (int n)"
proof -
  have plain: "\<not> py_space c \<and> c \<noteq> CHR ''-'' \<and> c \<noteq> CHR ''+''" if "c \<in> set (dec_str n)" for c
    using dec_str_digit [OF that] take_alphabet_plain by blast
  then show ?thesis
    using plain [of "hd (dec_str n)"] by (intro py_int_plain) (simp_all add: digits_dec_str)
qed

text \<open>The text of a folder's id is read back as the id.\<close>

lemma py_int_dec_int: "py_int 10 (dec_int i) = Ok i"
proof (cases "i < 0")
  case True
  let ?s = "dec_str (nat (- i))"
  have plain: "\<not> py_space c" if "c \<in> set ?s" for c
    using dec_str_digit [OF that] take_alphabet_plain by blast
  have "py_strip (CHR ''-'' # ?s) = CHR ''-'' # ?s"
    by (rule py_strip_id) (use plain in \<open>auto simp: py_space_def\<close>)
  moreover have "py_lstrip ?s = ?s"
    using plain [of "hd ?s"] by (cases ?s) (auto simp: py_lstrip_def)
  ultimately show ?thesis using True by (simp add: dec_int_def py_int_def digits_dec_str)
qed (simp add: dec_int_def py_int_dec_str)

section \<open>Publishing\<close>

lemma publish_Ok:
  assumes "redis_zset (dec_str aid) db = Ok z"
  shows "hb_publish (HeartbeatStatusKey aid f) now db =
    (redis_put (dec_str aid) (Zset (by_score (filter (\<lambda>e. snd e \<noteq> folder_text f) z @ [(now, folder_text f)]))) db, Some ())"
  using assms by (simp add: hb_publish_def safe_failure_def update_folder_index_def r_zadd_def)

lemma client_update:
  "shards \<noteq> [] \<Longrightarrow> redis_client (shards[redis_shard shards aid := db]) b =
     (if redis_shard shards b = redis_shard shards aid then db else redis_client shards b)"
  by (simp add: redis_client_def redis_shard_def)

lemma proxy_publish_folders:
  assumes ne: "shards \<noteq> []" and z: "get_account_folders shards aid = Ok z"
  shows "get_account_folders (proxy_publish (HeartbeatStatusKey aid f) now shards) b =
    (if b = aid then Ok (by_score (filter (\<lambda>e. snd e \<noteq> folder_text f) z @ [(now, folder_text f)]))
     else get_account_folders shards b)"
proof -
  note publish = publish_Ok [of aid "redis_client shards aid" z f now]
  from z publish have p: "proxy_publish (HeartbeatStatusKey aid f) now shards = shards[redis_shard shards aid :=
      redis_put (dec_str aid) (Zset (by_score (filter (\<lambda>e. snd e \<noteq> folder_text f) z @ [(now, folder_text f)])))
        (redis_client shards aid)]"
    by (simp add: proxy_publish_def on_client_def get_account_folders_def)
  show ?thesis
  proof (cases "b = aid")
    case True
    with ne show ?thesis by (simp add: p get_account_folders_def client_update zset_put_same)
  next
    case False
    then have "dec_str b \<noteq> dec_str aid" by (auto dest: dec_str_inj)
    with False ne show ?thesis
      by (simp add: p get_account_folders_def client_update zset_put_other) (simp add: redis_client_def)
  qed
qed

text \<open>The pings of entries whose members are folder ids.\<close>

lemma folder_pings_ids:
  assumes "\<forall>e\<in>set z. \<exists>i. snd e = dec_int i"
  obtains ps where "folder_pings expiry z = Ok ps" and "map (\<lambda>(i, a, t). (t, dec_int i)) ps = z"
    and "\<forall>(i, a, t)\<in>set ps. a \<longleftrightarrow> t > expiry"
proof -
  have "\<exists>ps. folder_pings expiry z = Ok ps \<and> map (\<lambda>(i, a, t). (t, dec_int i)) ps = z \<and> (\<forall>(i, a, t)\<in>set ps. a \<longleftrightarrow> t > expiry)"
    using assms
  proof (induction z)
    case (Cons e z)
    obtain ts f where e: "e = (ts, f)" by (cases e)
    with Cons.prems obtain i where f: "f = dec_int i" by auto
    from Cons obtain ps where "folder_pings expiry z = Ok ps" "map (\<lambda>(i, a, t). (t, dec_int i)) ps = z"
      "\<forall>(i, a, t)\<in>set ps. a \<longleftrightarrow> t > expiry" by auto
    then show ?case by (intro exI [of _ "(i, ts > expiry, ts) # ps"]) (simp add: e f py_int_dec_int)
  qed simp
  with that show thesis by blast
qed

lemma dec_int_inj: "dec_int i = dec_int j \<Longrightarrow> i = j"
  by (metis py_int_dec_int sum.inject(2))

section \<open>Many accounts\<close>

lemma groupby_concat: "concat (py_groupby key xs) = xs"
  by (induction xs) (auto split: list.splits)

lemma groupby_same: "g \<in> set (py_groupby key xs) \<Longrightarrow> g \<noteq> [] \<and> (\<exists>k. \<forall>x\<in>set g. key x = k)"
proof (induction xs arbitrary: g)
  case outer: (Cons x xs)
  show ?case
  proof (cases "py_groupby key xs")
    case (Cons h gs)
    then obtain k where h: "h \<noteq> []" "\<forall>y\<in>set h. key y = k" using outer.IH [of h] by auto
    from Cons outer.prems consider "g \<in> set (h # gs)" | "g = [x]" | "g = x # h" "key (hd h) = key x"
      by (auto split: if_splits)
    then show ?thesis
    proof cases
      case 1
      with Cons show ?thesis by (intro outer.IH) simp
    next
      case 3
      from h have "key (hd h) = k" by simp
      with 3 h show ?thesis by (intro conjI exI [of _ k]) auto
    qed simp
  qed (use outer.prems in simp)
qed simp

lemma res_fold_map: "(\<And>x. x \<in> set xs \<Longrightarrow> f x = Ok (g x)) \<Longrightarrow>
    res_fold (\<lambda>x out. res_bind (f x) (\<lambda>y. Ok (out @ [(x, y)]))) xs acc = Ok (acc @ map (\<lambda>x. (x, g x)) xs)"
  by (induction xs arbitrary: acc) auto

lemma group_folders_eq:
  assumes "\<And>aid. aid \<in> set grp \<Longrightarrow> redis_zset (dec_str aid) (redis_client shards (hd grp)) = Ok (zs aid)"
  shows "group_folders shards grp = Ok (map (\<lambda>aid. (aid, zs aid)) grp)"
proof -
  let ?f = "\<lambda>aid. redis_zset (dec_str aid) (redis_client shards (hd grp))"
  have "res_fold (\<lambda>chnk found. res_fold (\<lambda>aid out. res_bind (?f aid) (\<lambda>z. Ok (out @ [(aid, z)]))) chnk found) chunks acc =
      Ok (acc @ map (\<lambda>aid. (aid, zs aid)) (concat chunks))" if "set (concat chunks) \<subseteq> set grp" for chunks acc
    using that
  proof (induction chunks arbitrary: acc)
    case (Cons c chunks)
    have "res_fold (\<lambda>aid out. res_bind (?f aid) (\<lambda>z. Ok (out @ [(aid, z)]))) c acc = Ok (acc @ map (\<lambda>x. (x, zs x)) c)"
      by (rule res_fold_map, rule assms) (use Cons.prems in auto)
    with Cons.IH [of "acc @ map (\<lambda>x. (x, zs x)) c"] Cons.prems show ?case by simp
  qed simp
  from this [of "chunk 10000 grp" "[]"] show ?thesis by (simp add: group_folders_def concat_chunk)
qed

lemma get_accounts_folders_eq:
  assumes "\<And>aid. aid \<in> set aids \<Longrightarrow> get_account_folders shards aid = Ok (zs aid)"
  shows "get_accounts_folders shards aids = Ok (map (\<lambda>aid. (aid, zs aid)) (sort_key (redis_shard shards) aids))"
proof -
  let ?groups = "py_groupby (redis_shard shards) (sort_key (redis_shard shards) aids)"
  have grp: "group_folders shards g = Ok (map (\<lambda>aid. (aid, zs aid)) g)" if g: "g \<in> set ?groups" for g
  proof (rule group_folders_eq)
    fix aid
    assume aid: "aid \<in> set g"
    from g have "set g \<subseteq> set (concat ?groups)" by auto
    with aid have "aid \<in> set aids" by (auto simp: groupby_concat)
    moreover have "redis_client shards aid = redis_client shards (hd g)"
    proof -
      from groupby_same [OF g] obtain k where "g \<noteq> []" "\<forall>x\<in>set g. redis_shard shards x = k" by blast
      then have "redis_shard shards aid = k" "redis_shard shards (hd g) = k" using aid by simp_all
      then show ?thesis by (simp add: redis_client_def)
    qed
    ultimately show "redis_zset (dec_str aid) (redis_client shards (hd g)) = Ok (zs aid)"
      using assms [of aid] by (simp add: get_account_folders_def)
  qed
  have "res_fold (\<lambda>grp found. res_bind (group_folders shards grp) (\<lambda>zs. Ok (found @ zs))) gs acc =
      Ok (acc @ map (\<lambda>aid. (aid, zs aid)) (concat gs))" if "set gs \<subseteq> set ?groups" for gs acc
    using that by (induction gs arbitrary: acc) (auto simp: grp)
  from this [of ?groups "[]"] show ?thesis by (simp add: get_accounts_folders_def groupby_concat)
qed

lemma dict_of_pairs: "dict_of (map (\<lambda>x. (x, g x)) xs) y = (if y \<in> set xs then Some (g y) else None)"
  by (induction xs) (auto split: option.splits)

lemma each_ping_eq:
  assumes "\<And>aid. aid \<in> set aids \<Longrightarrow> found aid = Some (zs aid)"
  shows "each_ping expiry found aids =
    res_fold (\<lambda>aid out. res_bind (folder_pings expiry (zs aid)) (\<lambda>ps. Ok (out @ [(aid, ps)]))) aids []"
proof -
  have "res_bind (each_ping expiry found aids) (\<lambda>r. Ok (acc @ r)) =
      res_fold (\<lambda>aid out. res_bind (folder_pings expiry (zs aid)) (\<lambda>ps. Ok (out @ [(aid, ps)]))) aids acc" for acc
    using assms
  proof (induction aids arbitrary: acc)
    case (Cons aid aids)
    show ?case
    proof (cases "folder_pings expiry (zs aid)")
      case (Inr ps)
      have "res_bind (each_ping expiry found aids) (\<lambda>rest. Ok (acc @ (aid, ps) # rest)) =
          res_bind (each_ping expiry found aids) (\<lambda>rest. Ok ((acc @ [(aid, ps)]) @ rest))" by simp
      also have "\<dots> = res_fold (\<lambda>aid out. res_bind (folder_pings expiry (zs aid)) (\<lambda>ps. Ok (out @ [(aid, ps)]))) aids (acc @ [(aid, ps)])"
        using Cons.prems by (intro Cons.IH) simp
      finally show ?thesis using Inr Cons.prems by (simp add: res_bind_assoc)
    qed (use Cons.prems in simp)
  qed simp
  from this [of "[]"] show ?thesis by (cases "each_ping expiry found aids") simp_all
qed

section \<open>Clearing\<close>

lemma dec_str_plain: "dec_str n \<noteq> ''folder_index''" "dec_str n \<noteq> ''account_index''" "dec_str n \<noteq> key_text k"
proof -
  have "CHR ''f'' \<notin> set (take 10 alphabet)" "CHR ''a'' \<notin> set (take 10 alphabet)" "CHR '':'' \<notin> set (take 10 alphabet)"
    by (simp_all add: alphabet_def)
  then have no: "CHR ''f'' \<notin> set (dec_str n)" "CHR ''a'' \<notin> set (dec_str n)" "CHR '':'' \<notin> set (dec_str n)"
    using dec_str_digit by blast+
  show "dec_str n \<noteq> ''folder_index''" "dec_str n \<noteq> ''account_index''" using no by auto
  have "CHR '':'' \<in> set (key_text k)" by (simp add: key_text_def)
  with no(3) show "dec_str n \<noteq> key_text k" by metis
qed

lemma zset_delete: "redis_zset j (filter (\<lambda>e. fst e \<noteq> k) db) = (if j = k then Ok [] else redis_zset j db)"
  by (simp add: redis_zset_def map_of_filter_other)

lemma accounts_index_other: "redis_zset (dec_str b) (update_accounts_index key db) = redis_zset (dec_str b) db"
  by (auto simp: update_accounts_index_def r_zadd_def zset_put_other dec_str_plain split: sum.splits list.splits)

lemma folder_index_key: "key_text k \<noteq> ''folder_index''"
proof -
  have "CHR '':'' \<in> set (key_text k)" by (simp add: key_text_def)
  then show ?thesis by auto
qed

text \<open>Clearing one folder removes its heartbeat and no other.\<close>

lemma remove_folder_entry:
  assumes given: "folder_given (Some f)" and z: "redis_zset (dec_str aid) db = Ok z"
    and index: "redis_zset ''folder_index'' db = Ok w"
  obtains db' where "remove_folders aid (Some f) 0 db = (db', Some 1)"
    and "\<And>b. redis_zset (dec_str b) db' = (if b = aid then Ok (filter (\<lambda>e. snd e \<noteq> folder_text f) z) else redis_zset (dec_str b) db)"
proof -
  let ?key = "HeartbeatStatusKey aid f"
  let ?db1 = "filter (\<lambda>e. fst e \<noteq> key_text ?key) db"
  let ?db2 = "redis_put ''folder_index'' (Zset (filter (\<lambda>e. snd e \<noteq> key_text ?key) w)) ?db1"
  let ?db3 = "redis_put (dec_str aid) (Zset (filter (\<lambda>e. snd e \<noteq> folder_text f) z)) ?db2"
  have 1: "redis_zset ''folder_index'' ?db1 = Ok w"
    using index folder_index_key [of ?key] by (simp add: zset_delete)
  have 2: "redis_zset (dec_str aid) ?db2 = Ok z"
    using z by (simp add: zset_put_other zset_delete dec_str_plain)
  have "remove_key ?key 0 db = (?db3, Ok ())"
    using 1 2 by (simp add: remove_key_def r_delete_def st_bind_def remove_from_folder_index_def r_zrem_def)
  then have run: "remove_folders aid (Some f) 0 db = (update_accounts_index ?key ?db3, Some 1)"
    using given by (simp add: remove_folders_def safe_failure_def remove_folders_body_def Let_def st_bind_def)
  have "redis_zset (dec_str b) (update_accounts_index ?key ?db3) =
      (if b = aid then Ok (filter (\<lambda>e. snd e \<noteq> folder_text f) z) else redis_zset (dec_str b) db)" for b
  proof (cases "b = aid")
    case True
    then show ?thesis by (simp add: accounts_index_other zset_put_same)
  next
    case False
    then have "dec_str b \<noteq> dec_str aid" by (auto dest: dec_str_inj)
    with False show ?thesis by (simp add: accounts_index_other zset_put_other zset_delete dec_str_plain)
  qed
  with run show thesis by (rule that)
qed

text \<open>Clearing an account removes all its heartbeats, but stops at a key of one of its folders.\<close>

lemma remove_account:
  "remove_folders aid None 0 db =
     (if scan_keys aid db \<noteq> [] then (db, None)
      else safe_failure (st_bind (remove_from_account_index aid) (\<lambda>_. st_ok 0)) db)"
  by (simp add: remove_folders_def remove_folders_body_def folder_given_def safe_failure_def)

lemma remove_account_zset:
  assumes "scan_keys aid db = []"
  shows "redis_zset (dec_str aid) (fst (remove_folders aid None 0 db)) = Ok []"
proof -
  let ?db = "filter (\<lambda>e. fst e \<noteq> dec_str aid) db"
  have none: "redis_zset (dec_str aid) ?db = Ok []" by (simp add: zset_delete)
  show ?thesis
  proof (cases "redis_zset ''account_index'' ?db")
    case (Inl e)
    with assms none show ?thesis
      by (simp add: remove_account remove_from_account_index_def st_bind_def r_delete_def safe_failure_def r_zrem_def)
  next
    case (Inr w)
    with assms none show ?thesis
      by (simp add: remove_account remove_from_account_index_def st_bind_def r_delete_def safe_failure_def r_zrem_def
          zset_put_other dec_str_plain)
  qed
qed

end
