(* ===== verification/Props_Heartbeat.thy ===== *)
theory Props_Heartbeat
  imports Heartbeat_Proofs
begin

text \<open>Properties of the heartbeats: what the status shows after a sync published or was cleared.\<close>

definition sample_shards :: "redis_db list" where
  "sample_shards = [[(''2'', Zset [(100, ''7'')])], [(''1'', Zset [(50, ''3''), (900, ''-1'')])]]"

text \<open>
  C25: After a folder's sync published, the status of its account shows the folder alive with this
  time until the threshold has passed and dead from then on, shows every other folder as before,
  and no other account changes.
\<close>

theorem heartbeat_shown:
  assumes "shards \<noteq> []" and "get_account_folders shards aid = Ok z" and "\<forall>e\<in>set z. \<exists>i. snd e = dec_int i"
  shows "(\<exists>ps. get_ping_status (proxy_publish (HeartbeatStatusKey aid (Num f)) now shards) later threshold [aid] = Ok [(aid, ps)] \<and>
      set ps = insert (f, now > later - threshold, now)
        {(i, t > later - threshold, t) | i t. (t, dec_int i) \<in> set z \<and> i \<noteq> f}) \<and>
    (\<forall>b. b \<noteq> aid \<longrightarrow>
       get_account_folders (proxy_publish (HeartbeatStatusKey aid (Num f)) now shards) b = get_account_folders shards b)"
proof -
  let ?z = "by_score (filter (\<lambda>e. snd e \<noteq> dec_int f) z @ [(now, dec_int f)])"
  have z: "get_account_folders (proxy_publish (HeartbeatStatusKey aid (Num f)) now shards) aid = Ok ?z"
    using proxy_publish_folders [OF assms(1,2), of "Num f" now aid] by (simp add: folder_text_def)
  have "\<forall>e\<in>set ?z. \<exists>i. snd e = dec_int i" using assms(3) by auto
  then obtain ps where ps: "folder_pings (later - threshold) ?z = Ok ps" "map (\<lambda>(i, a, t). (t, dec_int i)) ps = ?z"
    "\<forall>(i, a, t)\<in>set ps. a \<longleftrightarrow> t > later - threshold" by (rule folder_pings_ids)
  have mem: "(i, a, t) \<in> set ps \<longleftrightarrow> (t, dec_int i) \<in> set ?z \<and> (a \<longleftrightarrow> t > later - threshold)" for i a t
  proof
    assume "(i, a, t) \<in> set ps"
    moreover from this have "(t, dec_int i) \<in> set (map (\<lambda>(i, a, t). (t, dec_int i)) ps)" by force
    ultimately show "(t, dec_int i) \<in> set ?z \<and> (a \<longleftrightarrow> t > later - threshold)" using ps(2,3) by auto
  next
    assume r: "(t, dec_int i) \<in> set ?z \<and> (a \<longleftrightarrow> t > later - threshold)"
    then have "(t, dec_int i) \<in> set (map (\<lambda>(i, a, t). (t, dec_int i)) ps)" using ps(2) by simp
    then obtain j b where "(j, b, t) \<in> set ps" "dec_int j = dec_int i" by auto
    with r ps(3) show "(i, a, t) \<in> set ps" by (auto dest: dec_int_inj)
  qed
  have "set ps = insert (f, now > later - threshold, now)
      {(i, t > later - threshold, t) | i t. (t, dec_int i) \<in> set z \<and> i \<noteq> f}"
    by (auto simp: mem dest: dec_int_inj)
  moreover have "get_ping_status (proxy_publish (HeartbeatStatusKey aid (Num f)) now shards) later threshold [aid] = Ok [(aid, ps)]"
    by (simp add: get_ping_status_def z ps(1))
  moreover have "get_account_folders (proxy_publish (HeartbeatStatusKey aid (Num f)) now shards) b = get_account_folders shards b"
    if "b \<noteq> aid" for b
    using proxy_publish_folders [OF assms(1,2), of "Num f" now b] that by simp
  ultimately show ?thesis by blast
qed

theorem heartbeat_shown_witness:
  "\<exists>ps. get_ping_status (proxy_publish (HeartbeatStatusKey 1 (Num 3)) 950 sample_shards) 1000 80 [1] = Ok [(1, ps)] \<and>
     (3, True, 950) \<in> set ps"
proof -
  have z: "get_account_folders sample_shards 1 = Ok [(50, ''3''), (900, ''-1'')]" by code_simp
  have "''3'' = dec_int 3" "''-1'' = dec_int (- 1)" by code_simp+
  then have ids: "\<forall>e\<in>set [(50, ''3''), (900, ''-1'')]. \<exists>i. snd e = dec_int i" by auto
  have ne: "sample_shards \<noteq> []" by (simp add: sample_shards_def)
  from heartbeat_shown [OF ne z ids, of 3 950 1000 80] show ?thesis by auto
qed

text \<open>
  Asking for the status of many accounts at once, which groups them by shard and asks each
  shard in chunks, answers what asking for each account on its own answers, in the order asked.
\<close>

theorem batch_pings_equal_single:
  assumes "\<forall>aid\<in>set aids. \<exists>z. get_account_folders shards aid = Ok z" and "length aids \<noteq> 1"
  shows "get_ping_status shards now threshold aids =
    res_fold (\<lambda>aid out. res_bind (get_ping_status shards now threshold [aid]) (\<lambda>ping. Ok (out @ ping))) aids []"
proof -
  let ?zs = "\<lambda>aid. projr (get_account_folders shards aid)"
  have zs: "get_account_folders shards aid = Ok (?zs aid)" if "aid \<in> set aids" for aid
    using assms(1) that by (metis sum.sel(2))
  have single: "get_ping_status shards now threshold [aid] =
      res_bind (folder_pings (now - threshold) (?zs aid)) (\<lambda>ps. Ok [(aid, ps)])" if "aid \<in> set aids" for aid
    using zs [OF that] by (cases "get_account_folders shards aid") (simp_all add: get_ping_status_def)
  have found: "get_accounts_folders shards aids = Ok (map (\<lambda>aid. (aid, ?zs aid)) (sort_key (redis_shard shards) aids))"
    by (rule get_accounts_folders_eq) (rule zs)
  have "get_ping_status shards now threshold aids =
      res_bind (get_accounts_folders shards aids) (\<lambda>found. each_ping (now - threshold) (dict_of found) aids)"
    using assms(2) by (cases aids rule: remdups_adj.cases) (simp_all add: get_ping_status_def Let_def)
  also have "\<dots> = each_ping (now - threshold) (dict_of (map (\<lambda>aid. (aid, ?zs aid)) (sort_key (redis_shard shards) aids))) aids"
    by (simp add: found)
  also have "\<dots> = res_fold (\<lambda>aid out. res_bind (folder_pings (now - threshold) (?zs aid)) (\<lambda>ps. Ok (out @ [(aid, ps)]))) aids []"
    by (rule each_ping_eq) (simp add: dict_of_pairs)
  also have "\<dots> = res_fold (\<lambda>aid out. res_bind (get_ping_status shards now threshold [aid]) (\<lambda>ping. Ok (out @ ping))) aids []"
  proof -
    have "res_fold (\<lambda>aid out. res_bind (folder_pings (now - threshold) (?zs aid)) (\<lambda>ps. Ok (out @ [(aid, ps)]))) xs acc =
        res_fold (\<lambda>aid out. res_bind (get_ping_status shards now threshold [aid]) (\<lambda>ping. Ok (out @ ping))) xs acc"
      if "set xs \<subseteq> set aids" for xs acc
      using that
    proof (induction xs arbitrary: acc)
      case (Cons x xs)
      then show ?case
        by (cases "folder_pings (now - threshold) (?zs x)") (simp_all add: single)
    qed simp
    from this [of aids "[]"] show ?thesis by simp
  qed
  finally show ?thesis .
qed

theorem batch_pings_equal_single_witness:
  "get_ping_status sample_shards 1000 200 [1, 2, 1] =
     Ok [(1, [(3, False, 50), (-1, True, 900)]), (2, [(7, False, 100)]), (1, [(3, False, 50), (-1, True, 900)])]"
proof -
  have z: "get_account_folders sample_shards 1 = Ok [(50, ''3''), (900, ''-1'')]"
    "get_account_folders sample_shards 2 = Ok [(100, ''7'')]" by code_simp+
  have ids: "py_int 10 ''3'' = Ok 3" "py_int 10 ''-1'' = Ok (- 1)" "py_int 10 ''7'' = Ok 7" by code_simp+
  have single: "get_ping_status sample_shards 1000 200 [1] = Ok [(1, [(3, False, 50), (-1, True, 900)])]"
    "get_ping_status sample_shards 1000 200 [2] = Ok [(2, [(7, False, 100)])]"
    by (simp_all add: get_ping_status_def z ids del: One_nat_def)
  have ok: "\<forall>aid\<in>set [1, 2, 1]. \<exists>z. get_account_folders sample_shards aid = Ok z"
    using z by (simp del: One_nat_def)
  have "length [1, 2, 1 :: nat] \<noteq> 1" by simp
  note many = batch_pings_equal_single [OF ok this, of 1000 200]
  show ?thesis unfolding many by (simp add: single del: One_nat_def)
qed

text \<open>
  Clearing a folder removes its heartbeat and no other. Clearing an account removes all of them, unless
  the instance still has a key of one of its folders, on which it stops before it removed anything.
\<close>

theorem clear_exact:
  assumes "shards \<noteq> []" and "get_account_folders shards aid = Ok z" and "f \<noteq> 0"
    and "redis_zset ''folder_index'' (redis_client shards aid) = Ok w"
  shows "snd (clear_heartbeat_status aid (Some (Num f)) 0 shards) = Some 1 \<and>
    get_account_folders (fst (clear_heartbeat_status aid (Some (Num f)) 0 shards)) b =
      (if b = aid then Ok (filter (\<lambda>e. snd e \<noteq> dec_int f) z) else get_account_folders shards b)"
proof -
  have given: "folder_given (Some (Num f))" using assms(3) by (simp add: folder_given_def)
  from assms(2) have z: "redis_zset (dec_str aid) (redis_client shards aid) = Ok z" by (simp add: get_account_folders_def)
  obtain db' where run: "remove_folders aid (Some (Num f)) 0 (redis_client shards aid) = (db', Some 1)"
    and after: "\<And>b. redis_zset (dec_str b) db' = (if b = aid then Ok (filter (\<lambda>e. snd e \<noteq> folder_text (Num f)) z)
        else redis_zset (dec_str b) (redis_client shards aid))"
    using remove_folder_entry [OF given z assms(4)] by blast
  have clear: "clear_heartbeat_status aid (Some (Num f)) 0 shards = (shards[redis_shard shards aid := db'], Some 1)"
    by (simp add: clear_heartbeat_status_def on_client_def run)
  have "redis_zset (dec_str b) (redis_client (shards[redis_shard shards aid := db']) b) =
      (if b = aid then Ok (filter (\<lambda>e. snd e \<noteq> dec_int f) z) else get_account_folders shards b)"
  proof (cases "redis_shard shards b = redis_shard shards aid")
    case True
    then have "redis_client shards b = redis_client shards aid" by (simp add: redis_client_def)
    with True assms(1) after [of b] show ?thesis by (simp add: client_update get_account_folders_def folder_text_def)
  next
    case False
    with assms(1) show ?thesis by (auto simp: client_update get_account_folders_def)
  qed
  then show ?thesis by (simp add: clear get_account_folders_def)
qed

theorem old_keys_stop_clearing:
  "scan_keys aid (redis_client shards aid) \<noteq> [] \<Longrightarrow> clear_heartbeat_status aid None 0 shards = (shards, None)"
  by (simp add: clear_heartbeat_status_def on_client_def remove_account) (simp add: redis_client_def)

end
