(* ===== verification/Smtp_Client.thy ===== *)
theory Smtp_Client
  imports Mail_Store Py_Util
begin

text \<open>
  Sending by SMTP: \<open>inbox/sendmail/smtp/postel.py\<close> with the error table of \<open>smtp/util.py\<close>. What the server
  answers on one connection is a script of replies. The commands that matter, the credentials and the
  submitted messages, are recorded with whether the connection was encrypted.
\<close>

section \<open>Errors\<close>

text \<open>The exceptions of \<open>smtplib\<close>; authentication errors are response errors, too.\<close>

datatype smtp_err =
    ServerDisconnected
  | RecipientsRefused
  | AuthenticationError nat string
  | ResponseError nat string
  | OtherSmtpError string

text \<open>\<open>SendMailException\<close>.\<close>

record send_failure =
  sf_message :: string
  sf_http_code :: nat
  sf_server_error :: "string option"
  sf_failures :: "string list"

datatype smtp_exn = Smtp smtp_err | SendFailed send_failure | EncodeError | Other exc

definition failed :: "string \<Rightarrow> nat \<Rightarrow> smtp_exn" where
  "failed msg code = SendFailed \<lparr>sf_message = msg, sf_http_code = code, sf_server_error = None, sf_failures = []\<rparr>"

definition SMTP_AUTH_SUCCESS :: nat where "SMTP_AUTH_SUCCESS = 235"
definition SMTP_AUTH_CHALLENGE :: nat where "SMTP_AUTH_CHALLENGE = 334"
definition SMTP_TEMP_AUTH_FAIL_CODES :: "nat list" where "SMTP_TEMP_AUTH_FAIL_CODES = [421, 454]"
definition SMTP_MAX_RETRIES :: nat where "SMTP_MAX_RETRIES = 1"
definition SMTP_OVER_SSL_PORT :: nat where "SMTP_OVER_SSL_PORT = 465"
definition SMTP_OVER_SSL_TEST_PORT :: nat where "SMTP_OVER_SSL_TEST_PORT = 64465"

definition transform_ssl_error :: "string option \<Rightarrow> string" where
  "transform_ssl_error strerror =
     (case strerror of
        None \<Rightarrow> ''Unknown connection error''
      | Some s \<Rightarrow> if suffix ''certificate verify failed'' s then ''SMTP server SSL certificate verify failed'' else s)"

text \<open>Codes, stems of the server's text, and what the client is told.\<close>

definition SMTP_ERRORS :: "(nat \<times> (string \<times> nat \<times> string) list) list" where
  "SMTP_ERRORS =
     [(421, [(''4.4.5'', 503, ''Server busy, try again later.''),
             (''4.7.0'', 429, ''Our system has detected an unusual rate of unsolicited mail originating from your IP address. To protect our users from spam, mail sent from your IP address has been temporarily blocked.''),
             (''4.7.2'', 429, ''Server busy, try again later.'')]),
      (450, [(''4.2.1'', 429, ''The user you are trying to contact is receiving mail at a rate that prevents additional messages from being delivered. Please resend your message at a later time.''),
             (''4.3.0'', 429, ''Mail server temporarily rejected message.''),
             (''4.7.1'', 429, ''Mail server temporarily rejected message.'')]),
      (451, [(''4.3.5'', 429, ''Mail server temporarily rejected message.''),
             (''4.7.1'', 429, ''Mail server temporarily rejected message.'')]),
      (452, [(''4.5.3'', 402, ''Your message has too many recipients'')]),
      (454, [(''4.7.0'', 429, ''Cannot authenticate due to temporary system problem. Try again later.'')]),
      (522, [(''5.7.1'', 402, ''Recipient address rejected.'')]),
      (530, [(''5.7.0'', 402, ''Recipient address rejected'')]),
      (535, [(''5.7.1'', 429, ''Please log in to Gmail with your web browser and try again.'')]),
      (550, [(''5.1.1'', 402, ''The email account that you tried to reach does not exist. Please try double-checking the recipient'' @ [CHR 0x27] @ ''s email address for typos or unnecessary spaces.''),
             (''5.2.1'', 402, ''The email account that you tried to reach is disabled.''),
             (''5.3.2'', 429, ''Server busy, try again later.''),
             (''5.4.5'', 429, ''Daily sending quota exceeded''),
             (''5.4.6'', 429, ''Mail server temporarily rejected message.''),
             (''5.7.0'', 402, ''Mail relay denied.''),
             (''5.7.1'', 429, ''Daily sending quota exceeded''),
             (''This message was classified as SPAM and may not be delivered.'', 402, ''Message blocked due to spam content in the message.''),
             (''exceeded recipient rate limit'', 429, ''Daily email quota for this address exceeded.''),
             (''has exceeded its 24-hour sending limit.'', 429, ''Daily email quota for this address exceeded.'')]),
      (552, [(''5.2.3'', 402, ''Message too large''),
             (''5.3.4'', 402, ''Message too large''),
             (''5.7.0'', 402, ''Message content rejected for security reasons''),
             (''5.7.1'', 402, ''Message content rejected for security reasons'')]),
      (553, [(''5.1.2'', 402, ''Unable to find recipient domain. Please check for any spelling errors, and make sure you didn'' @ [CHR 0x27] @ ''t enter any spaces, periods, or other punctuation after the recipient'' @ [CHR 0x27] @ ''s email address.''),
             (''5.7.1'', 402, ''Sender address rejected'')]),
      (554, [(''5.6.0'', 402, ''Mail message is malformed. Not accepted.''),
             (''5.7.1'', 402, ''Message blocked due to spam content in the message.'')])]"

section \<open>The server's replies\<close>

datatype connect_reply = Connected | SocketFault "string option" | ConnectError smtp_err
datatype starttls_reply = TlsReply nat | TlsFault "string option" | TlsError smtp_err
datatype send_reply = Delivered "string list" | SendError smtp_err | SendUnicodeError

text \<open>
  The replies on one connection: to the connection, the greetings before and after the upgrade, the
  upgrade if the server has it, the attempts to authenticate with a token and the command after a
  challenge, the login with a password, the message (with the recipients that were refused), and
  the end.
\<close>

record smtp_script =
  sc_connect :: connect_reply
  sc_ehlo_plain :: "smtp_err option"
  sc_starttls :: "starttls_reply option"
  sc_ehlo :: "smtp_err option"
  sc_auth :: "nat \<Rightarrow> smtp_err + nat \<times> string"
  sc_noop :: "nat \<Rightarrow> smtp_err + nat \<times> string"
  sc_login :: "smtp_err option"
  sc_send :: send_reply
  sc_quit :: "smtp_err option"

text \<open>What goes out: credentials and messages, each with whether it was encrypted.\<close>

datatype smtp_event = EvCredentials bool string | EvMessage bool "string list" string

record smtp_conn =
  co_tls :: bool
  co_token :: string
  co_events :: "smtp_event list"

type_synonym 'a smtp = "smtp_conn \<Rightarrow> smtp_conn \<times> (smtp_exn + 'a)"

definition sm_bind :: "'a smtp \<Rightarrow> ('a \<Rightarrow> 'b smtp) \<Rightarrow> 'b smtp" where
  "sm_bind f g c = (case f c of (d, Inl e) \<Rightarrow> (d, Inl e) | (d, Inr x) \<Rightarrow> g x d)"

definition sm_reply :: "smtp_err option \<Rightarrow> unit smtp" where
  "sm_reply r c = (c, case r of None \<Rightarrow> Inr () | Some e \<Rightarrow> Inl (Smtp e))"

section \<open>A connection\<close>

record smtp_client =
  cl_email :: string
  cl_username :: string
  cl_ssl_required :: bool
  cl_auth_type :: string
  cl_auth_token :: string
  cl_port :: nat

definition over_ssl :: "smtp_client \<Rightarrow> bool" where
  "over_ssl cl \<longleftrightarrow> cl_port cl \<in> {SMTP_OVER_SSL_PORT, SMTP_OVER_SSL_TEST_PORT}"

definition sm_connect :: "smtp_script \<Rightarrow> unit smtp" where
  "sm_connect sc c =
     (c, case sc_connect sc of
           Connected \<Rightarrow> Inr ()
         | SocketFault s \<Rightarrow> Inl (failed (transform_ssl_error s) 503)
         | ConnectError e \<Rightarrow> Inl (Smtp e))"

text \<open>
  The reply code of \<open>starttls\<close> is not looked at; the library encrypts the connection only on 220. With another code
  it returns before Python 2.7.12 (\<open>TlsReply\<close>) and raises from then on (\<open>TlsError\<close>). That the connection
  breaks in the middle of the handshake, which raises an error of the socket and not of SSL, is not modelled.
\<close>

definition upgrade_connection :: "smtp_client \<Rightarrow> smtp_script \<Rightarrow> unit smtp" where
  "upgrade_connection cl sc =
     sm_bind (sm_reply (sc_ehlo_plain sc)) (\<lambda>_ c.
       case sc_starttls sc of
         Some (TlsReply code) \<Rightarrow> (if code = 220 then c\<lparr>co_tls := True\<rparr> else c, Inr ())
       | Some (TlsFault s) \<Rightarrow> (c, if cl_ssl_required cl then Inl (failed (transform_ssl_error s) 503) else Inr ())
       | Some (TlsError e) \<Rightarrow> (c, Inl (Smtp e))
       | None \<Rightarrow> (c, if cl_ssl_required cl then Inl (failed ''Required SMTP STARTTLS not supported.'' 403) else Inr ()))"

definition sm_log :: "(bool \<Rightarrow> smtp_event) \<Rightarrow> unit smtp" where
  "sm_log ev c = (c\<lparr>co_events := co_events c @ [ev (co_tls c)]\<rparr>, Inr ())"

definition try_xoauth2 :: "smtp_script \<Rightarrow> nat \<Rightarrow> (nat \<times> string) smtp" where
  "try_xoauth2 sc n c =
     sm_bind (sm_log (\<lambda>tls. EvCredentials tls (co_token c))) (\<lambda>_ d.
       case sc_auth sc n of
         Inl e \<Rightarrow> (d, Inl (Smtp e))
       | Inr (code, resp) \<Rightarrow>
           if code = SMTP_AUTH_CHALLENGE
           then (d, case sc_noop sc n of Inl e \<Rightarrow> Inl (Smtp e) | Inr r \<Rightarrow> Inr r)
           else (d, Inr (code, resp))) c"

definition set_token :: "exc + string \<Rightarrow> unit smtp" where
  "set_token token c = (case token of Inl e \<Rightarrow> (c, Inl (Other e)) | Inr t \<Rightarrow> (c\<lparr>co_token := t\<rparr>, Inr ()))"

text \<open>\<open>refreshed\<close> is what the token manager gives when it is asked to refresh the token.\<close>

definition smtp_oauth2 :: "exc + string \<Rightarrow> smtp_script \<Rightarrow> unit smtp" where
  "smtp_oauth2 refreshed sc =
     sm_bind (try_xoauth2 sc 0) (\<lambda>(code, resp) c.
       if code \<in> set SMTP_TEMP_AUTH_FAIL_CODES \<and> prefix ''4.7.0'' resp
       then (c, Inl (failed ''Temporary provider send throttling'' 429))
       else if code \<noteq> SMTP_AUTH_SUCCESS
       then sm_bind (set_token refreshed) (\<lambda>_. sm_bind (try_xoauth2 sc 1) (\<lambda>(code2, resp2) d.
              (d, if code2 \<noteq> SMTP_AUTH_SUCCESS then Inl (failed ''Could not authenticate with the SMTP server.'' 403) else Inr ()))) c
       else (c, Inr ()))"

fun err_text :: "smtp_err \<Rightarrow> string" where
  "err_text ServerDisconnected = []"
| "err_text RecipientsRefused = []"
| "err_text (AuthenticationError code s) = s"
| "err_text (ResponseError code s) = s"
| "err_text (OtherSmtpError s) = s"

definition smtp_password :: "smtp_script \<Rightarrow> unit smtp" where
  "smtp_password sc c =
     sm_bind (sm_log (\<lambda>tls. EvCredentials tls (co_token c))) (\<lambda>_ d.
       (d, case sc_login sc of
             None \<Rightarrow> Inr ()
           | Some (AuthenticationError code s) \<Rightarrow> Inl (failed ''Could not authenticate with the SMTP server.'' 403)
           | Some e \<Rightarrow> Inl (failed (err_text e) 403))) c"

text \<open>An unknown kind of authentication has no handler, and \<open>None\<close> cannot be called.\<close>

definition smtp_auth :: "exc + string \<Rightarrow> smtp_client \<Rightarrow> smtp_script \<Rightarrow> unit smtp" where
  "smtp_auth refreshed cl sc =
     (if cl_auth_type cl = ''oauth2'' then smtp_oauth2 refreshed sc
      else if cl_auth_type cl = ''password'' then smtp_password sc
      else (\<lambda>c. (c, Inl (Other TypeError))))"

definition smtp_setup :: "exc + string \<Rightarrow> smtp_client \<Rightarrow> smtp_script \<Rightarrow> unit smtp" where
  "smtp_setup refreshed cl sc =
     sm_bind
       (if over_ssl cl then sm_bind (sm_connect sc) (\<lambda>_ c. (c\<lparr>co_tls := True\<rparr>, Inr ()))
        else sm_bind (sm_connect sc) (\<lambda>_. upgrade_connection cl sc))
       (\<lambda>_. sm_bind (sm_reply (sc_ehlo sc)) (\<lambda>_. smtp_auth refreshed cl sc))"

text \<open>
  What goes out is recorded before the reply, which gives the recipients that were refused; the library raises if
  all of them were, so the message counts as sent when another one was not.
\<close>

definition conn_sendmail :: "smtp_script \<Rightarrow> string list \<Rightarrow> string \<Rightarrow> string list smtp" where
  "conn_sendmail sc recipients msg =
     sm_bind (sm_log (\<lambda>tls. EvMessage tls recipients msg)) (\<lambda>_ c.
       (c, case sc_send sc of
             Delivered refused \<Rightarrow> Inr refused
           | SendError e \<Rightarrow> Inl (Smtp e)
           | SendUnicodeError \<Rightarrow> Inl (failed ''Invalid character in recipient address'' 402)))"

text \<open>The end of a \<open>with\<close> block: an exception of \<open>quit\<close> other than a disconnection takes the place of the outcome.\<close>

definition conn_exit :: "smtp_script \<Rightarrow> smtp_exn + 'a \<Rightarrow> smtp_exn + 'a" where
  "conn_exit sc outcome =
     (case sc_quit sc of
        None \<Rightarrow> outcome
      | Some e \<Rightarrow> if e = ServerDisconnected then outcome else Inl (Smtp e))"

definition new_conn :: "smtp_client \<Rightarrow> smtp_event list \<Rightarrow> smtp_conn" where
  "new_conn cl events = \<lparr>co_tls = False, co_token = cl_auth_token cl, co_events = events\<rparr>"

definition send_once ::
  "exc + string \<Rightarrow> smtp_client \<Rightarrow> string list \<Rightarrow> string \<Rightarrow> smtp_script \<Rightarrow> smtp_event list \<Rightarrow> smtp_event list \<times> (smtp_exn + unit)" where
  "send_once refreshed cl recipients msg sc events =
     (case smtp_setup refreshed cl sc (new_conn cl events) of
        (c, Inl e) \<Rightarrow> (co_events c, Inl e)
      | (c, Inr _) \<Rightarrow>
          (case conn_sendmail sc recipients msg c of
             (d, Inl e) \<Rightarrow> (co_events d, conn_exit sc (Inl e))
           | (d, Inr refused) \<Rightarrow>
               (co_events d, conn_exit sc
                  (if refused = [] then Inr ()
                   else Inl (SendFailed \<lparr>sf_message = ''Sending to at least one recipent failed'', sf_http_code = 200,
                                     sf_server_error = None, sf_failures = refused\<rparr>)))))"

section \<open>Sending\<close>

text \<open>A dictionary is searched in its own order, which is a parameter.\<close>

definition known_error ::
  "((string \<times> nat \<times> string) list \<Rightarrow> (string \<times> nat \<times> string) list) \<Rightarrow> nat \<Rightarrow> string \<Rightarrow> nat \<times> string" where
  "known_error order code text =
     (case map_of SMTP_ERRORS code of
        None \<Rightarrow> (503, ''Sending failed'')
      | Some stems \<Rightarrow>
          (case List.find (\<lambda>e. str_contains (fst e) text) (order stems) of
             None \<Rightarrow> (503, ''Sending failed'')
           | Some e \<Rightarrow> snd e))"

definition server_error :: "(nat \<Rightarrow> string) \<Rightarrow> nat \<Rightarrow> string \<Rightarrow> string" where
  "server_error dec code text = dec code @ '' : '' @ text"

definition response_failure ::
  "(nat \<Rightarrow> string) \<Rightarrow> ((string \<times> nat \<times> string) list \<Rightarrow> (string \<times> nat \<times> string) list) \<Rightarrow> nat \<Rightarrow> string \<Rightarrow> smtp_exn" where
  "response_failure dec order code text =
     (case known_error order code text of (http, message) \<Rightarrow>
        SendFailed \<lparr>sf_message = message, sf_http_code = http, sf_server_error = Some (server_error dec code text), sf_failures = []\<rparr>)"

definition handle_sending_exception ::
  "(nat \<Rightarrow> string) \<Rightarrow> ((string \<times> nat \<times> string) list \<Rightarrow> (string \<times> nat \<times> string) list) \<Rightarrow> smtp_err \<Rightarrow> smtp_exn" where
  "handle_sending_exception dec order e =
     (case e of
        ServerDisconnected \<Rightarrow> failed ''The server unexpectedly closed the connection'' 503
      | RecipientsRefused \<Rightarrow> failed ''Sending to all recipients failed'' 402
      | AuthenticationError code s \<Rightarrow> response_failure dec order code s
      | ResponseError code s \<Rightarrow> response_failure dec order code s
      | OtherSmtpError s \<Rightarrow>
          SendFailed \<lparr>sf_message = ''Sending failed'', sf_http_code = 503, sf_server_error = Some s, sf_failures = []\<rparr>)"

text \<open>
  One connection per attempt; only errors of the SMTP library lead to another one. \<open>scripts\<close> are
  the replies of the server on each of them.
\<close>

fun send_attempts ::
  "exc + string \<Rightarrow> smtp_client \<Rightarrow> string list \<Rightarrow> string \<Rightarrow> (smtp_err \<Rightarrow> smtp_exn) \<Rightarrow> smtp_script list \<Rightarrow> smtp_event list
     \<Rightarrow> smtp_err \<Rightarrow> smtp_event list \<times> (smtp_exn + unit)" where
  "send_attempts refreshed cl recipients msg give_up [] events err = (events, Inl (give_up err))"
| "send_attempts refreshed cl recipients msg give_up (sc # scs) events err =
     (case send_once refreshed cl recipients msg sc events of
        (evs, Inr _) \<Rightarrow> (evs, Inr ())
      | (evs, Inl (Smtp e)) \<Rightarrow> send_attempts refreshed cl recipients msg give_up scs evs e
      | (evs, Inl e) \<Rightarrow> (evs, Inl e))"

record smtp_env =
  se_refreshed :: "exc + string"
  se_dec :: "nat \<Rightarrow> string"
  se_order :: "(string \<times> nat \<times> string) list \<Rightarrow> (string \<times> nat \<times> string) list"
  se_scripts :: "nat \<Rightarrow> smtp_script"

definition smtp_send :: "smtp_env \<Rightarrow> smtp_client \<Rightarrow> string list \<Rightarrow> string \<Rightarrow> smtp_event list \<times> (smtp_exn + unit)" where
  "smtp_send env cl recipients msg =
     send_attempts (se_refreshed env) cl recipients msg (handle_sending_exception (se_dec env) (se_order env))
       (map (se_scripts env) [0..<SMTP_MAX_RETRIES + 1]) [] ServerDisconnected"

section \<open>Clients and messages\<close>

text \<open>The columns of an account that its client reads.\<close>

record smtp_account =
  sa_generic :: bool
  sa_provider :: string
  sa_email :: string
  sa_smtp_username :: string
  sa_ssl_required :: bool
  sa_smtp_password :: string
  sa_password :: string
  sa_port :: nat

definition new_client :: "(string \<Rightarrow> string res) \<Rightarrow> exc + string \<Rightarrow> smtp_account \<Rightarrow> smtp_exn + smtp_client" where
  "new_client auth_of token a =
     (case auth_of (sa_provider a) of
        Inl e \<Rightarrow> Inl (Other e)
      | Inr auth \<Rightarrow>
          (let cl = \<lparr>cl_email = sa_email a, cl_username = (if sa_generic a then sa_smtp_username a else sa_email a),
                     cl_ssl_required = (if sa_generic a then sa_ssl_required a else True), cl_auth_type = auth,
                     cl_auth_token = [], cl_port = sa_port a\<rparr>
           in if auth = ''oauth2''
              then (case token of
                      Inl OAuthError \<Rightarrow> Inl (failed ''Could not authenticate with the SMTP server.'' 403)
                    | Inl e \<Rightarrow> Inl (Other e)
                    | Inr t \<Rightarrow> Inr (cl\<lparr>cl_auth_token := t\<rparr>))
              else if auth \<noteq> ''password'' then Inl (Other AssertionError)
              else Inr (cl\<lparr>cl_auth_token := (if sa_generic a then sa_smtp_password a else sa_password a)\<rparr>)))"

text \<open>What the MIME message is made of; the blind copies are none of it.\<close>

record mail_parts =
  mp_from :: "string \<times> string"
  mp_reply_to :: "(string \<times> string) list"
  mp_nylas_uid :: "string option"
  mp_to :: "(string \<times> string) list"
  mp_cc :: "(string \<times> string) list"
  mp_bcc :: "(string \<times> string) list"
  mp_subject :: "string option"
  mp_html :: string
  mp_in_reply_to :: "string option"
  mp_references :: "string option list"

definition parts_of :: "message_row \<Rightarrow> string \<Rightarrow> mail_parts res" where
  "parts_of draft body =
     (case m_from draft of
        [] \<Rightarrow> Raise IndexError
      | sender # _ \<Rightarrow>
          Ok \<lparr>mp_from = sender, mp_reply_to = m_reply_to draft, mp_nylas_uid = m_nylas_uid draft, mp_to = m_to draft,
              mp_cc = m_cc draft, mp_bcc = [], mp_subject = m_subject draft, mp_html = body,
              mp_in_reply_to = m_in_reply_to draft, mp_references = m_references draft\<rparr>)"

definition send_parts ::
  "smtp_env \<Rightarrow> smtp_client \<Rightarrow> (mail_parts \<Rightarrow> string) \<Rightarrow> message_row \<Rightarrow> string \<Rightarrow> string list \<Rightarrow> smtp_event list \<times> (smtp_exn + unit)" where
  "send_parts env cl create_email draft body recipients =
     (case parts_of draft body of
        Inl e \<Rightarrow> ([], Inl (Other e))
      | Inr parts \<Rightarrow> smtp_send env cl recipients (create_email parts))"

definition send_custom ::
  "smtp_env \<Rightarrow> smtp_client \<Rightarrow> (mail_parts \<Rightarrow> string) \<Rightarrow> message_row \<Rightarrow> string \<Rightarrow> (string \<times> string) list \<Rightarrow> smtp_event list \<times> (smtp_exn + unit)" where
  "send_custom env cl create_email draft body recipients = send_parts env cl create_email draft body (map snd recipients)"

definition send_draft_mail ::
  "smtp_env \<Rightarrow> smtp_client \<Rightarrow> (mail_parts \<Rightarrow> string) \<Rightarrow> message_row \<Rightarrow> string \<Rightarrow> smtp_event list \<times> (smtp_exn + unit)" where
  "send_draft_mail env cl create_email draft body =
     send_parts env cl create_email draft body (map snd (m_to draft @ m_cc draft @ m_bcc draft))"

text \<open>
  \<open>_substitute_bcc\<close>: the regular expression takes a line out that begins with \<open>Bcc: \<close> in any case, anywhere in
  the message, up to the end of this line.
\<close>

definition crlf :: string where "crlf = [CHR 0x0D, CHR 0x0A]"

definition match_bcc :: "string \<Rightarrow> string option" where
  "match_bcc s =
     (if py_lower (take 5 s) = ''bcc: ''
      then (let t = dropWhile (\<lambda>c. c \<noteq> CHR 0x0D \<and> c \<noteq> CHR 0x0A) (drop 5 s)
            in if take 2 t = crlf then Some (drop 2 t) else None)
      else None)"

lemma match_bcc_shorter: "match_bcc s = Some t \<Longrightarrow> length t < length s"
proof -
  assume m: "match_bcc s = Some t"
  let ?u = "dropWhile (\<lambda>c. c \<noteq> CHR 0x0D \<and> c \<noteq> CHR 0x0A) (drop 5 s)"
  from m have t: "t = drop 2 ?u" and u: "take 2 ?u = crlf"
    by (auto simp: match_bcc_def Let_def split: if_splits)
  from u have "2 \<le> length ?u" by (cases ?u; cases "tl ?u") (auto simp: crlf_def)
  with length_dropWhile_le [of _ "drop 5 s"] show ?thesis by (simp add: t)
      (metis (no_types, lifting) diff_less diff_le_self le_trans less_le_trans numeral_2_eq_2 zero_less_Suc length_drop)
qed

function strip_bcc :: "bool \<Rightarrow> string \<Rightarrow> string" where
  "strip_bcc at_start [] = []"
| "strip_bcc at_start (c # cs) =
     (case (if at_start then match_bcc (c # cs) else None) of
        Some rest \<Rightarrow> strip_bcc True rest
      | None \<Rightarrow> c # strip_bcc (c = CHR 0x0A) cs)"
  by pat_completeness auto
termination
  by (relation "measure (length \<circ> snd)") (auto dest: match_bcc_shorter split: if_splits)

definition substitute_bcc :: "string \<Rightarrow> string" where
  "substitute_bcc raw = strip_bcc True raw"

text \<open>The sender is looked at, for the log, after the message was sent.\<close>

definition send_raw :: "smtp_env \<Rightarrow> smtp_client \<Rightarrow> message_row \<Rightarrow> string option \<Rightarrow> smtp_event list \<times> (smtp_exn + unit)" where
  "send_raw env cl msg raw =
     (case raw of
        None \<Rightarrow> ([], Inl (Other TypeError))
      | Some text \<Rightarrow>
          (case smtp_send env cl (map snd (m_bcc msg @ m_cc msg @ m_to msg)) (substitute_bcc text) of
             (evs, Inr _) \<Rightarrow> (evs, if m_from msg = [] then Inl (Other IndexError) else Inr ())
           | r \<Rightarrow> r))"

end
