(* ===== verification/Smtp_Proofs.thy ===== *)
theory Smtp_Proofs
  imports Smtp_Client
begin

text \<open>
  What sending by SMTP guarantees: credentials and messages go out on encrypted connections, how often
  a message is submitted, the codes a client can get, and which lines of a message are taken out.
\<close>

section \<open>Sequences of commands\<close>

lemma sm_bind_cases:
  assumes "sm_bind f g c = (d, r)"
  obtains (raise) e where "f c = (d, Inl e)" "r = Inl e"
  | (step) u x where "f c = (u, Inr x)" "g x u = (d, r)"
  using assms by (auto simp: sm_bind_def split: prod.splits sum.splits)

text \<open>A command goes out with what it adds; \<open>sm_safe P\<close> is the contract that all of it satisfies P.\<close>

definition sm_adds :: "(smtp_event \<Rightarrow> bool) \<Rightarrow> (smtp_conn \<Rightarrow> bool) \<Rightarrow> 'a smtp \<Rightarrow> (smtp_conn \<Rightarrow> bool) \<Rightarrow> bool" where
  "sm_adds P pre f post \<longleftrightarrow>
     (\<forall>c d r. pre c \<longrightarrow> f c = (d, r) \<longrightarrow>
        (\<exists>new. co_events d = co_events c @ new \<and> (\<forall>e\<in>set new. P e)) \<and> (\<forall>x. r = Inr x \<longrightarrow> post d))"

lemma sm_addsI:
  "(\<And>c d r. pre c \<Longrightarrow> f c = (d, r) \<Longrightarrow>
      (\<exists>new. co_events d = co_events c @ new \<and> (\<forall>e\<in>set new. P e)) \<and> (\<forall>x. r = Inr x \<longrightarrow> post d)) \<Longrightarrow> sm_adds P pre f post"
  unfolding sm_adds_def by blast

lemma sm_addsD:
  assumes "sm_adds P pre f post" "pre c" "f c = (d, r)"
  obtains new where "co_events d = co_events c @ new" "\<forall>e\<in>set new. P e" "\<And>x. r = Inr x \<Longrightarrow> post d"
proof -
  from assms(1) have "\<forall>c d r. pre c \<longrightarrow> f c = (d, r) \<longrightarrow>
      (\<exists>new. co_events d = co_events c @ new \<and> (\<forall>e\<in>set new. P e)) \<and> (\<forall>x. r = Inr x \<longrightarrow> post d)"
    unfolding sm_adds_def .
  from this [THEN spec, THEN spec, THEN spec, THEN mp, THEN mp, OF assms(2,3)] that show thesis by (elim conjE exE) simp
qed

lemma sm_adds_bind:
  assumes f: "sm_adds P pre f mid" and g: "\<And>x. sm_adds P mid (g x) post"
  shows "sm_adds P pre (sm_bind f g) post"
proof (rule sm_addsI)
  fix c d r
  assume pre: "pre c" and run: "sm_bind f g c = (d, r)"
  from run show "(\<exists>new. co_events d = co_events c @ new \<and> (\<forall>e\<in>set new. P e)) \<and> (\<forall>x. r = Inr x \<longrightarrow> post d)"
  proof (cases rule: sm_bind_cases)
    case (raise e)
    from sm_addsD [OF f pre raise(1)] obtain new where "co_events d = co_events c @ new" "\<forall>e\<in>set new. P e" .
    with raise(2) show ?thesis by blast
  next
    case (step u x)
    from sm_addsD [OF f pre step(1)] obtain new1 where 1: "co_events u = co_events c @ new1" "\<forall>e\<in>set new1. P e" and mid: "mid u"
      by metis
    from sm_addsD [OF g mid step(2)] obtain new2 where
      2: "co_events d = co_events u @ new2" "\<forall>e\<in>set new2. P e" "\<And>x. r = Inr x \<Longrightarrow> post d" by metis
    from 1 2 have "co_events d = co_events c @ (new1 @ new2)" "\<forall>e\<in>set (new1 @ new2). P e" by auto
    with 2(3) show ?thesis by blast
  qed
qed

lemma sm_adds_silent:
  assumes "\<And>c. pre c \<Longrightarrow> co_events (fst (f c)) = co_events c \<and> (\<forall>x. snd (f c) = Inr x \<longrightarrow> post (fst (f c)))"
  shows "sm_adds P pre f post"
proof (rule sm_addsI)
  fix c d r
  assume "pre c" "f c = (d, r)"
  with assms [of c] have "co_events d = co_events c @ []" "\<forall>x. r = Inr x \<longrightarrow> post d" by simp_all
  then show "(\<exists>new. co_events d = co_events c @ new \<and> (\<forall>e\<in>set new. P e)) \<and> (\<forall>x. r = Inr x \<longrightarrow> post d)"
    by (metis empty_iff list.set(1))
qed

lemma sm_adds_weaken: "sm_adds P pre f post \<Longrightarrow> (\<And>c. pre' c \<Longrightarrow> pre c) \<Longrightarrow> sm_adds P pre' f post"
  unfolding sm_adds_def by blast

lemma sm_adds_log: "(\<And>c. pre c \<Longrightarrow> P (ev (co_tls c)) \<and> pre (c\<lparr>co_events := co_events c @ [ev (co_tls c)]\<rparr>)) \<Longrightarrow> sm_adds P pre (sm_log ev) pre"
  unfolding sm_adds_def by (simp add: sm_log_def)

section \<open>Encryption\<close>

text \<open>
  With \<open>b\<close> the connection has to be encrypted; a command before the message sends credentials only, and these
  encrypted if \<open>b\<close> asks for it.
\<close>

definition encrypted :: "smtp_event \<Rightarrow> bool" where
  "encrypted ev = (case ev of EvCredentials tls t \<Rightarrow> tls | EvMessage tls rs m \<Rightarrow> tls)"

definition is_message :: "smtp_event \<Rightarrow> bool" where
  "is_message ev = (case ev of EvMessage tls rs m \<Rightarrow> True | _ \<Rightarrow> False)"

definition tls_if :: "bool \<Rightarrow> smtp_conn \<Rightarrow> bool" where
  "tls_if b c \<longleftrightarrow> (b \<longrightarrow> co_tls c)"

definition secret :: "bool \<Rightarrow> smtp_event \<Rightarrow> bool" where
  "secret b ev \<longleftrightarrow> \<not> is_message ev \<and> (b \<longrightarrow> encrypted ev)"

lemma secret_credentials: "tls_if b c \<Longrightarrow> secret b (EvCredentials (co_tls c) t)"
  by (simp add: secret_def tls_if_def is_message_def encrypted_def)

lemma tls_if_update [simp]:
  "tls_if b (c\<lparr>co_events := evs\<rparr>) = tls_if b c" "tls_if b (c\<lparr>co_token := t\<rparr>) = tls_if b c" "tls_if b (c\<lparr>co_tls := True\<rparr>)"
  by (simp_all add: tls_if_def)

lemma xoauth2_adds: "sm_adds (secret b) (tls_if b) (try_xoauth2 sc n) (tls_if b)"
proof (rule sm_addsI)
  fix c d r
  assume tls: "tls_if b c" and run: "try_xoauth2 sc n c = (d, r)"
  let ?ev = "EvCredentials (co_tls c) (co_token c)"
  let ?u = "c\<lparr>co_events := co_events c @ [?ev]\<rparr>"
  from run have "d = ?u"
    by (simp add: try_xoauth2_def sm_bind_def sm_log_def split: sum.split_asm prod.split_asm if_split_asm)
  then have "co_events d = co_events c @ [?ev]" "tls_if b d" using tls by simp_all
  with secret_credentials [OF tls]
  show "(\<exists>new. co_events d = co_events c @ new \<and> (\<forall>e\<in>set new. secret b e)) \<and> (\<forall>x. r = Inr x \<longrightarrow> tls_if b d)"
    by (intro conjI exI [of _ "[?ev]"]) simp_all
qed

lemma set_token_adds: "sm_adds P (tls_if b) (set_token t) (tls_if b)"
  by (rule sm_adds_silent) (simp add: set_token_def split: sum.split)

lemma oauth2_adds: "sm_adds (secret b) (tls_if b) (smtp_oauth2 refreshed sc) (tls_if b)"
proof -
  have again: "sm_adds (secret b) (tls_if b) (sm_bind (set_token refreshed) (\<lambda>_. sm_bind (try_xoauth2 sc 1) (\<lambda>(code2, resp2) d.
      (d, if code2 \<noteq> SMTP_AUTH_SUCCESS then Inl (failed ''Could not authenticate with the SMTP server.'' 403) else Inr ())))) (tls_if b)"
    (is "sm_adds _ _ ?again _")
    by (intro sm_adds_bind [OF set_token_adds] sm_adds_bind [OF xoauth2_adds] sm_adds_silent) (simp split: prod.split)
  show ?thesis
    unfolding smtp_oauth2_def
  proof (rule sm_adds_bind [OF xoauth2_adds])
    fix x :: "nat \<times> string"
    obtain code resp where x: "x = (code, resp)" by (cases x)
    show "sm_adds (secret b) (tls_if b)
       (case x of (code, resp) \<Rightarrow> \<lambda>c.
         if code \<in> set SMTP_TEMP_AUTH_FAIL_CODES \<and> prefix ''4.7.0'' resp
         then (c, Inl (failed ''Temporary provider send throttling'' 429))
         else if code \<noteq> SMTP_AUTH_SUCCESS then ?again c
         else (c, Inr ())) (tls_if b)"
      unfolding x prod.case
    proof (rule sm_addsI)
      fix c d r
      assume tls: "tls_if b c" and run:
        "(if code \<in> set SMTP_TEMP_AUTH_FAIL_CODES \<and> prefix ''4.7.0'' resp
          then (c, Inl (failed ''Temporary provider send throttling'' 429))
          else if code \<noteq> SMTP_AUTH_SUCCESS then ?again c else (c, Inr ())) = (d, r)"
      show "(\<exists>new. co_events d = co_events c @ new \<and> (\<forall>e\<in>set new. secret b e)) \<and> (\<forall>x. r = Inr x \<longrightarrow> tls_if b d)"
      proof (cases "?again c = (d, r)")
        case True
        from sm_addsD [OF again tls True] show ?thesis by metis
      next
        case False
        with run have "d = c" by (simp split: if_split_asm)
        with tls show ?thesis by simp
      qed
    qed
  qed
qed

lemma password_adds: "sm_adds (secret b) (tls_if b) (smtp_password sc) (tls_if b)"
proof (rule sm_addsI)
  fix c d r
  assume tls: "tls_if b c" and run: "smtp_password sc c = (d, r)"
  let ?ev = "EvCredentials (co_tls c) (co_token c)"
  let ?u = "c\<lparr>co_events := co_events c @ [?ev]\<rparr>"
  from run have "d = ?u" by (simp add: smtp_password_def sm_bind_def sm_log_def)
  then have "co_events d = co_events c @ [?ev]" "tls_if b d" using tls by simp_all
  with secret_credentials [OF tls]
  show "(\<exists>new. co_events d = co_events c @ new \<and> (\<forall>e\<in>set new. secret b e)) \<and> (\<forall>x. r = Inr x \<longrightarrow> tls_if b d)"
    by (intro conjI exI [of _ "[?ev]"]) simp_all
qed

lemma auth_adds: "sm_adds (secret b) (tls_if b) (smtp_auth refreshed cl sc) (tls_if b)"
proof -
  have "sm_adds (secret b) (tls_if b) (\<lambda>c. (c, Inl (Other TypeError) :: smtp_exn + unit)) (tls_if b)"
    by (rule sm_adds_silent) simp
  then show ?thesis by (simp add: smtp_auth_def oauth2_adds password_adds)
qed

text \<open>The upgrade leaves the connection encrypted unless it is not required or the server answers another code than 220.\<close>

definition starttls_honest :: "smtp_script \<Rightarrow> bool" where
  "starttls_honest sc \<longleftrightarrow> (case sc_starttls sc of Some (TlsReply code) \<Rightarrow> code = 220 | _ \<Rightarrow> True)"

definition protects :: "smtp_client \<Rightarrow> smtp_script \<Rightarrow> bool" where
  "protects cl sc \<longleftrightarrow> over_ssl cl \<or> (cl_ssl_required cl \<and> starttls_honest sc)"

lemma reply_adds: "sm_adds P pre (sm_reply r) pre"
  by (rule sm_adds_silent) (simp add: sm_reply_def)

lemma upgrade_adds:
  assumes "b \<longrightarrow> cl_ssl_required cl \<and> starttls_honest sc"
  shows "sm_adds P (\<lambda>c. True) (upgrade_connection cl sc) (tls_if b)"
proof (rule sm_addsI)
  fix c d :: smtp_conn and r
  assume run: "upgrade_connection cl sc c = (d, r)"
  consider (absent) "sc_starttls sc = None" | (reply) code where "sc_starttls sc = Some (TlsReply code)"
    | (fault) s where "sc_starttls sc = Some (TlsFault s)" | (error) e where "sc_starttls sc = Some (TlsError e)"
    by (cases "sc_starttls sc"; cases "the (sc_starttls sc)") simp_all
  then have "co_events d = co_events c \<and> (\<forall>x. r = Inr x \<longrightarrow> tls_if b d)"
    using run assms
    by cases (auto simp: upgrade_connection_def sm_bind_def sm_reply_def tls_if_def starttls_honest_def
        split: option.split_asm if_split_asm)
  then show "(\<exists>new. co_events d = co_events c @ new \<and> (\<forall>e\<in>set new. P e)) \<and> (\<forall>x. r = Inr x \<longrightarrow> tls_if b d)"
    by simp
qed

lemma setup_adds:
  assumes "b \<longrightarrow> protects cl sc"
  shows "sm_adds (secret b) (\<lambda>c. True) (smtp_setup refreshed cl sc) (tls_if b)"
  unfolding smtp_setup_def
proof (rule sm_adds_bind [where mid = "tls_if b"])
  have connect: "sm_adds (secret b) (\<lambda>c. True) (sm_connect sc) (\<lambda>c. True)"
    by (rule sm_adds_silent) (simp add: sm_connect_def)
  show "sm_adds (secret b) (\<lambda>c. True)
      (if over_ssl cl then sm_bind (sm_connect sc) (\<lambda>_ c. (c\<lparr>co_tls := True\<rparr>, Inr ()))
       else sm_bind (sm_connect sc) (\<lambda>_. upgrade_connection cl sc)) (tls_if b)"
  proof (cases "over_ssl cl")
    case True
    have "sm_adds (secret b) (\<lambda>c. True) (\<lambda>c. (c\<lparr>co_tls := True\<rparr>, Inr () :: smtp_exn + unit)) (tls_if b)"
      by (rule sm_adds_silent) simp
    with True show ?thesis by (simp add: sm_adds_bind [OF connect])
  next
    case False
    with assms show ?thesis by (simp add: sm_adds_bind [OF connect] upgrade_adds protects_def)
  qed
  show "sm_adds (secret b) (tls_if b) (sm_bind (sm_reply (sc_ehlo sc)) (\<lambda>_. smtp_auth refreshed cl sc)) (tls_if b)" for x
    using reply_adds auth_adds by (rule sm_adds_bind)
qed

text \<open>One attempt adds credentials, and the message at most once; all of it is encrypted if the connection is protected.\<close>

definition submissions :: "smtp_event list \<Rightarrow> nat" where
  "submissions evs = length (filter is_message evs)"

lemma submissions_simps [simp]:
  "submissions [] = 0" "submissions (a @ b) = submissions a + submissions b"
  "submissions (e # b) = (if is_message e then Suc (submissions b) else submissions b)"
  by (simp_all add: submissions_def)

lemma submissions_none: "\<forall>e\<in>set new. \<not> is_message e \<Longrightarrow> submissions new = 0"
  by (simp add: submissions_def)

lemma send_once_adds:
  assumes "send_once refreshed cl recipients msg sc events = (evs, r)"
  obtains new where "evs = events @ new" "submissions new \<le> 1" "protects cl sc \<Longrightarrow> \<forall>e\<in>set new. encrypted e"
    "\<And>tls rs m. EvMessage tls rs m \<in> set new \<Longrightarrow> rs = recipients \<and> m = msg"
proof -
  let ?b = "protects cl sc"
  obtain c x where prep: "smtp_setup refreshed cl sc (new_conn cl events) = (c, x)" by fastforce
  from sm_addsD [OF setup_adds [of ?b, OF impI] _ prep]
  obtain cred where cred: "co_events c = events @ cred" "\<forall>e\<in>set cred. secret ?b e" and tls: "\<And>y. x = Inr y \<Longrightarrow> tls_if ?b c"
    by (auto simp: new_conn_def)
  have only: "submissions cred = 0" using cred(2) by (intro submissions_none) (simp add: secret_def)
  show thesis
  proof (cases x)
    case (Inl e)
    with assms prep cred only show ?thesis by (intro that [of cred]) (auto simp: send_once_def secret_def is_message_def)
  next
    case (Inr y)
    let ?ev = "EvMessage (co_tls c) recipients msg"
    from assms prep Inr have "evs = co_events c @ [?ev]"
      by (auto simp: send_once_def conn_sendmail_def sm_bind_def sm_log_def split: sum.split_asm send_reply.split_asm)
    with cred have "evs = events @ (cred @ [?ev])" by simp
    then show ?thesis
    proof (rule that)
      show "submissions (cred @ [?ev]) \<le> 1" by (simp add: only is_message_def)
      show "\<forall>e\<in>set (cred @ [?ev]). encrypted e" if "protects cl sc"
        using cred(2) tls [OF Inr] that by (auto simp: secret_def tls_if_def encrypted_def)
      show "rs = recipients \<and> m = msg" if "EvMessage tls rs m \<in> set (cred @ [?ev])" for tls rs m
        using cred(2) that by (auto simp: secret_def is_message_def)
    qed
  qed
qed

lemma send_attempts_adds:
  assumes "send_attempts refreshed cl recipients msg give_up scs events err = (evs, r)"
  obtains new where "evs = events @ new" "submissions new \<le> length scs"
    "\<forall>sc\<in>set scs. protects cl sc \<Longrightarrow> \<forall>e\<in>set new. encrypted e"
    "\<And>tls rs m. EvMessage tls rs m \<in> set new \<Longrightarrow> rs = recipients \<and> m = msg"
  using assms
proof (induction scs arbitrary: events err thesis)
  case (Cons sc scs)
  obtain evs1 r1 where once: "send_once refreshed cl recipients msg sc events = (evs1, r1)" by fastforce
  from send_once_adds [OF once] obtain new1 where new1: "evs1 = events @ new1" "submissions new1 \<le> 1"
    "protects cl sc \<Longrightarrow> \<forall>e\<in>set new1. encrypted e"
    "\<And>tls rs m. EvMessage tls rs m \<in> set new1 \<Longrightarrow> rs = recipients \<and> m = msg" by metis
  show ?case
  proof (cases "\<exists>e. r1 = Inl (Smtp e)")
    case True
    then obtain e where "r1 = Inl (Smtp e)" by blast
    with once Cons.prems(2) have "send_attempts refreshed cl recipients msg give_up scs evs1 e = (evs, r)" by simp
    from Cons.IH [OF _ this] obtain new2 where new2: "evs = evs1 @ new2" "submissions new2 \<le> length scs"
      "\<forall>sc\<in>set scs. protects cl sc \<Longrightarrow> \<forall>e\<in>set new2. encrypted e"
      "\<And>tls rs m. EvMessage tls rs m \<in> set new2 \<Longrightarrow> rs = recipients \<and> m = msg" by metis
    show ?thesis
    proof (rule Cons.prems(1))
      show "evs = events @ (new1 @ new2)" by (simp add: new1(1) new2(1))
      show "submissions (new1 @ new2) \<le> length (sc # scs)" using new1(2) new2(2) by simp
      show "\<forall>e\<in>set (new1 @ new2). encrypted e" if "\<forall>sc\<in>set (sc # scs). protects cl sc"
        using that new1(3) new2(3) by auto
      show "rs = recipients \<and> m = msg" if "EvMessage tls rs m \<in> set (new1 @ new2)" for tls rs m
        using that new1(4) new2(4) by auto
    qed
  next
    case False
    with once Cons.prems(2) have "evs = evs1" by (auto split: sum.split_asm smtp_exn.split_asm)
    with new1 show ?thesis by (intro Cons.prems(1) [of new1]) auto
  qed
qed simp

section \<open>Outcomes\<close>

text \<open>The codes of a failure that reached no recipient.\<close>

definition failure_codes :: "nat set" where
  "failure_codes = {402, 403, 429, 503}"

definition SMTP_CODES :: "nat set" where
  "SMTP_CODES = {402, 429, 503}"

lemma known_errors_proper:
  "\<forall>p\<in>set SMTP_ERRORS. \<forall>e\<in>set (snd p). fst (snd e) \<in> SMTP_CODES"
  by (simp add: SMTP_ERRORS_def SMTP_CODES_def)

lemma known_error_proper:
  assumes order: "\<And>l. set (order l) = set l"
  shows "fst (known_error order code why) \<in> SMTP_CODES"
proof (cases "map_of SMTP_ERRORS code")
  case None
  then show ?thesis by (simp add: known_error_def SMTP_CODES_def)
next
  case (Some stems)
  then have stems: "(code, stems) \<in> set SMTP_ERRORS" by (rule map_of_SomeD)
  show ?thesis
  proof (cases "List.find (\<lambda>e. str_contains (fst e) why) (order stems)")
    case None
    with Some show ?thesis by (simp add: known_error_def SMTP_CODES_def)
  next
    case (Some e)
    then have "e \<in> set (order stems)" by (metis find_Some_iff nth_mem)
    with order stems known_errors_proper have "fst (snd e) \<in> SMTP_CODES" by fastforce
    with \<open>map_of SMTP_ERRORS code = Some stems\<close> Some show ?thesis by (simp add: known_error_def)
  qed
qed

text \<open>A failure of its own, which names no recipients, and what is raised by something else.\<close>

definition plain_failure :: "smtp_exn \<Rightarrow> bool" where
  "plain_failure e = (case e of SendFailed f \<Rightarrow> sf_http_code f \<in> failure_codes \<and> sf_failures f = [] | _ \<Rightarrow> False)"

definition foreign :: "exc + string \<Rightarrow> smtp_client \<Rightarrow> exc \<Rightarrow> bool" where
  "foreign refreshed cl x \<longleftrightarrow>
     cl_auth_type cl = ''oauth2'' \<and> refreshed = Inl x \<or> cl_auth_type cl \<noteq> ''oauth2'' \<and> cl_auth_type cl \<noteq> ''password'' \<and> x = TypeError"

lemma handle_proper:
  assumes order: "\<And>l. set (order l) = set l"
  shows "plain_failure (handle_sending_exception dec order e)"
proof -
  have "plain_failure (response_failure dec order code why)" for code why
    using known_error_proper [OF order, of code why]
    by (auto simp: response_failure_def plain_failure_def SMTP_CODES_def failure_codes_def split: prod.split)
  then show ?thesis
    by (cases e) (simp_all add: handle_sending_exception_def failed_def plain_failure_def failure_codes_def)
qed

text \<open>The contract of a command: what it can raise before the message is submitted.\<close>

definition raised :: "exc + string \<Rightarrow> smtp_client \<Rightarrow> smtp_exn \<Rightarrow> bool" where
  "raised refreshed cl e \<longleftrightarrow> plain_failure e \<or> (\<exists>x. e = Smtp x) \<or> (\<exists>x. e = Other x \<and> foreign refreshed cl x)"

definition sm_raises :: "(smtp_exn \<Rightarrow> bool) \<Rightarrow> 'a smtp \<Rightarrow> bool" where
  "sm_raises P f \<longleftrightarrow> (\<forall>c e. snd (f c) = Inl e \<longrightarrow> P e)"

lemma sm_raisesD: "sm_raises P f \<Longrightarrow> f c = (d, Inl e) \<Longrightarrow> P e"
  unfolding sm_raises_def by (metis snd_conv)

lemma sm_raises_bind:
  assumes f: "sm_raises P f" and g: "\<And>x. sm_raises P (g x)"
  shows "sm_raises P (sm_bind f g)"
  unfolding sm_raises_def
proof (intro allI impI)
  fix c e
  assume e: "snd (sm_bind f g c) = Inl e"
  obtain d r where run: "sm_bind f g c = (d, r)" by fastforce
  with e have r: "r = Inl e" by simp
  from run show "P e"
  proof (cases rule: sm_bind_cases)
    case (raise e')
    with r sm_raisesD [OF f] show ?thesis by blast
  next
    case (step u x)
    with r sm_raisesD [OF g] show ?thesis by blast
  qed
qed

lemma raised_simps [simp]:
  "raised refreshed cl (Smtp e)" "raised refreshed cl (failed m 402)" "raised refreshed cl (failed m 403)"
  "raised refreshed cl (failed m 429)" "raised refreshed cl (failed m 503)"
  "raised refreshed cl (Other x) \<longleftrightarrow> foreign refreshed cl x"
  by (simp_all add: raised_def plain_failure_def failed_def failure_codes_def)

lemma setup_raises: "sm_raises (raised refreshed cl) (smtp_setup refreshed cl sc)"
proof -
  let ?R = "raised refreshed cl"
  have log: "sm_raises ?R (sm_log ev)" for ev by (simp add: sm_raises_def sm_log_def)
  have reply: "sm_raises ?R (sm_reply r)" for r by (simp add: sm_raises_def sm_reply_def split: option.split)
  have connect: "sm_raises ?R (sm_connect sc)" by (simp add: sm_raises_def sm_connect_def split: connect_reply.split)
  have encrypt: "sm_raises ?R (\<lambda>c. (c\<lparr>co_tls := True\<rparr>, Inr () :: smtp_exn + unit))" by (simp add: sm_raises_def)
  have upgrade: "sm_raises ?R (upgrade_connection cl sc)"
    unfolding upgrade_connection_def
    by (intro sm_raises_bind reply) (simp add: sm_raises_def split: option.split starttls_reply.split)
  have xoauth2: "sm_raises ?R (try_xoauth2 sc n)" for n
    by (simp add: sm_raises_def try_xoauth2_def sm_bind_def sm_log_def split: sum.split)
  have password: "sm_raises ?R (smtp_password sc)"
    by (simp add: sm_raises_def smtp_password_def sm_bind_def sm_log_def split: option.split smtp_err.split)
  have oauth2: "sm_raises ?R (smtp_oauth2 refreshed sc)" if "cl_auth_type cl = ''oauth2''"
  proof -
    have token: "sm_raises ?R (set_token refreshed)"
      using that by (simp add: sm_raises_def set_token_def foreign_def split: sum.split)
    have "sm_raises ?R (sm_bind (set_token refreshed) (\<lambda>_. sm_bind (try_xoauth2 sc 1) (\<lambda>(code2, resp2) d.
        (d, if code2 \<noteq> SMTP_AUTH_SUCCESS then Inl (failed ''Could not authenticate with the SMTP server.'' 403) else Inr ()))))"
      (is "sm_raises _ ?again")
      by (intro sm_raises_bind token xoauth2) (simp add: sm_raises_def split: prod.split)
    then have "snd (?again c) = Inl e \<longrightarrow> ?R e" for c e unfolding sm_raises_def by blast
    then show ?thesis
      unfolding smtp_oauth2_def by (intro sm_raises_bind xoauth2) (simp add: sm_raises_def split: prod.split)
  qed
  have unknown: "sm_raises ?R (\<lambda>c. (c, Inl (Other TypeError) :: smtp_exn + unit))"
    if "cl_auth_type cl \<noteq> ''oauth2''" "cl_auth_type cl \<noteq> ''password''"
    using that by (simp add: sm_raises_def foreign_def)
  have "sm_raises ?R (smtp_auth refreshed cl sc)"
    unfolding smtp_auth_def using oauth2 password unknown by simp
  with connect encrypt upgrade reply show ?thesis unfolding smtp_setup_def by (simp add: sm_raises_bind)
qed

text \<open>What the server accepted: the message, submitted for all recipients, with those it refused.\<close>

definition accepted :: "string list \<Rightarrow> string \<Rightarrow> smtp_script set \<Rightarrow> smtp_event list \<Rightarrow> string list \<Rightarrow> bool" where
  "accepted recipients msg scs evs refused \<longleftrightarrow>
     (\<exists>sc\<in>scs. sc_send sc = Delivered refused) \<and> (\<exists>tls. EvMessage tls recipients msg \<in> set evs)"

definition outcome ::
  "exc + string \<Rightarrow> smtp_client \<Rightarrow> string list \<Rightarrow> string \<Rightarrow> smtp_script set \<Rightarrow> smtp_event list \<Rightarrow> smtp_exn + unit \<Rightarrow> bool" where
  "outcome refreshed cl recipients msg scs evs r =
     (case r of
        Inr _ \<Rightarrow> accepted recipients msg scs evs []
      | Inl (SendFailed f) \<Rightarrow>
          sf_http_code f \<in> failure_codes \<and> sf_failures f = [] \<or>
          sf_http_code f = 200 \<and> sf_failures f \<noteq> [] \<and> accepted recipients msg scs evs (sf_failures f)
      | Inl (Other x) \<Rightarrow> foreign refreshed cl x
      | Inl e \<Rightarrow> False)"

lemma send_once_outcome:
  assumes "send_once refreshed cl recipients msg sc events = (evs, r)"
  shows "(\<exists>e. r = Inl (Smtp e)) \<or> outcome refreshed cl recipients msg {sc} evs r"
proof -
  obtain c x where prep: "smtp_setup refreshed cl sc (new_conn cl events) = (c, x)" by fastforce
  show ?thesis
  proof (cases x)
    case (Inl e)
    with sm_raisesD [OF setup_raises, of refreshed cl sc "new_conn cl events" c e] prep have "raised refreshed cl e" by simp
    moreover have "r = Inl e" using Inl prep assms by (simp add: send_once_def)
    ultimately show ?thesis by (cases e) (auto simp: raised_def plain_failure_def outcome_def)
  next
    case (Inr y)
    with assms prep show ?thesis
      by (auto simp: send_once_def conn_sendmail_def sm_bind_def sm_log_def conn_exit_def outcome_def accepted_def failed_def
          failure_codes_def split: send_reply.split_asm option.split_asm if_split_asm)
  qed
qed

lemma outcome_mono:
  "outcome refreshed cl recipients msg scs evs r \<Longrightarrow> scs \<subseteq> scs' \<Longrightarrow> outcome refreshed cl recipients msg scs' evs r"
  by (auto simp: outcome_def accepted_def split: sum.splits smtp_exn.splits)

lemma send_attempts_outcome:
  assumes give_up: "\<And>e. plain_failure (give_up e)"
    and run: "send_attempts refreshed cl recipients msg give_up scs events err = (evs, r)"
  shows "outcome refreshed cl recipients msg (set scs) evs r"
  using run
proof (induction scs arbitrary: events err)
  case Nil
  with give_up [of err] show ?case by (auto simp: outcome_def plain_failure_def split: smtp_exn.splits)
next
  case (Cons sc scs)
  obtain evs1 r1 where once: "send_once refreshed cl recipients msg sc events = (evs1, r1)" by fastforce
  show ?case
  proof (cases "\<exists>e. r1 = Inl (Smtp e)")
    case True
    then obtain e where "r1 = Inl (Smtp e)" by blast
    with once Cons.prems have "send_attempts refreshed cl recipients msg give_up scs evs1 e = (evs, r)" by simp
    from outcome_mono [OF Cons.IH [OF this]] show ?thesis by auto
  next
    case False
    with once Cons.prems have "evs = evs1" "r = r1" by (auto split: sum.split_asm smtp_exn.split_asm)
    with send_once_outcome [OF once] False show ?thesis by (auto intro: outcome_mono)
  qed
qed

lemma smtp_send_outcome:
  assumes "\<And>l. set (se_order env l) = set l" and "smtp_send env cl recipients msg = (evs, r)"
  shows "outcome (se_refreshed env) cl recipients msg (se_scripts env ` {0, 1}) evs r"
proof -
  from assms(2) have run: "send_attempts (se_refreshed env) cl recipients msg
      (handle_sending_exception (se_dec env) (se_order env)) (map (se_scripts env) [0..<SMTP_MAX_RETRIES + 1]) [] ServerDisconnected = (evs, r)"
    by (simp only: smtp_send_def)
  have "plain_failure (handle_sending_exception (se_dec env) (se_order env) e)" for e by (rule handle_proper [OF assms(1)])
  from send_attempts_outcome [OF this run] show ?thesis by (simp add: SMTP_MAX_RETRIES_def)
qed

text \<open>Running a session on given replies.\<close>

lemmas smtp_run = smtp_send_def send_once_def smtp_setup_def sm_bind_def sm_connect_def upgrade_connection_def sm_reply_def
  smtp_auth_def smtp_password_def sm_log_def conn_sendmail_def conn_exit_def new_conn_def over_ssl_def SMTP_OVER_SSL_PORT_def
  SMTP_OVER_SSL_TEST_PORT_def SMTP_MAX_RETRIES_def

section \<open>Lines of blind copies\<close>

text \<open>A message as its lines, each ended by CR LF.\<close>

definition mail_lines :: "string list \<Rightarrow> string" where
  "mail_lines ls = concat (map (\<lambda>l. l @ crlf) ls)"

definition one_line :: "string \<Rightarrow> bool" where
  "one_line l \<longleftrightarrow> (\<forall>c\<in>set l. c \<noteq> CHR 0x0D \<and> c \<noteq> CHR 0x0A)"

definition bcc_line :: "string \<Rightarrow> bool" where
  "bcc_line l \<longleftrightarrow> py_lower (take 5 l) = ''bcc: ''"

lemma bcc_line_prefix:
  assumes "one_line l"
  shows "py_lower (take 5 (l @ crlf @ rest)) = ''bcc: '' \<longleftrightarrow> bcc_line l"
proof (cases "5 \<le> length l")
  case True
  then show ?thesis by (simp add: bcc_line_def)
next
  case False
  have "py_lower (take 5 (l @ crlf @ rest)) \<noteq> ''bcc: ''"
  proof
    assume eq: "py_lower (take 5 (l @ crlf @ rest)) = ''bcc: ''"
    from False have "CHR 0x0D \<in> set (take 5 (l @ crlf @ rest))"
      by (cases "5 - length l") (simp_all add: crlf_def)
    then have "CHR 0x0D \<in> set (py_lower (take 5 (l @ crlf @ rest)))"
      unfolding py_lower_def set_map by (rule image_eqI [rotated]) (simp add: lower_char_def)
    with eq show False by simp
  qed
  moreover have "\<not> bcc_line l"
  proof
    assume "bcc_line l"
    then have "length (py_lower (take 5 l)) = 5" by (simp add: bcc_line_def)
    with False show False by (simp add: py_lower_def)
  qed
  ultimately show ?thesis by simp
qed

lemma match_bcc_line:
  assumes "one_line l"
  shows "match_bcc (l @ crlf @ rest) = (if bcc_line l then Some rest else None)"
proof (cases "bcc_line l")
  case True
  then have len: "5 \<le> length l" by (cases "5 \<le> length l") (auto simp: bcc_line_def py_lower_def dest: arg_cong [of _ _ length])
  have "dropWhile (\<lambda>c. c \<noteq> CHR 0x0D \<and> c \<noteq> CHR 0x0A) (drop 5 l @ crlf @ rest) = crlf @ rest"
    using assms by (subst dropWhile_append2) (auto simp: one_line_def crlf_def dest: in_set_dropD)
  with len have cut: "dropWhile (\<lambda>c. c \<noteq> CHR 0x0D \<and> c \<noteq> CHR 0x0A) (drop 5 (l @ crlf @ rest)) = crlf @ rest" by simp
  have "take 2 (crlf @ rest) = crlf" "drop 2 (crlf @ rest) = rest" by (simp_all add: crlf_def)
  with True show ?thesis
    unfolding match_bcc_def Let_def cut bcc_line_prefix [OF assms] by simp
next
  case False
  then show ?thesis unfolding match_bcc_def bcc_line_prefix [OF assms] by simp
qed

lemma strip_inside:
  assumes "one_line l"
  shows "strip_bcc False (l @ crlf @ rest) = l @ crlf @ strip_bcc True rest"
  using assms by (induction l) (auto simp: one_line_def crlf_def)

lemma strip_line:
  assumes "one_line l"
  shows "strip_bcc True (l @ crlf @ rest) = (if bcc_line l then strip_bcc True rest else l @ crlf @ strip_bcc True rest)"
proof (cases l)
  case Nil
  with match_bcc_line [of "[]" rest] show ?thesis by (simp add: one_line_def bcc_line_def py_lower_def crlf_def)
next
  case (Cons c cs)
  with assms have cs: "one_line cs" and c: "c \<noteq> CHR 0x0A" by (simp_all add: one_line_def)
  from match_bcc_line [OF assms, of rest] Cons c strip_inside [OF cs, of rest] show ?thesis by simp
qed

lemma strip_lines:
  assumes "\<forall>l\<in>set ls. one_line l"
  shows "strip_bcc True (mail_lines ls) = mail_lines (filter (\<lambda>l. \<not> bcc_line l) ls)"
  using assms
proof (induction ls)
  case (Cons l ls)
  have "mail_lines (l # ls) = l @ crlf @ mail_lines ls" for l ls by (simp add: mail_lines_def)
  with Cons show ?case by (simp add: strip_line)
qed (simp add: mail_lines_def)

end
