(* ===== verification/Props_Smtp.thy ===== *)
theory Props_Smtp
  imports Smtp_Proofs
begin

text \<open>
  Properties of sending by SMTP: credentials and messages only on encrypted connections and what breaks it,
  how often a message is submitted and how sending ends, and the blind copies of a raw message.
\<close>

section \<open>What goes over the wire\<close>

text \<open>
  C26: Whatever the server answers, neither the credentials nor the message go out in plain text if
  the connection is made over SSL, or if SSL is required and the server accepts the upgrade that it
  offers.
\<close>

theorem credentials_encrypted:
  assumes "\<And>n. over_ssl cl \<or> (cl_ssl_required cl \<and> starttls_honest (se_scripts env n))"
    and "e \<in> set (fst (smtp_send env cl recipients msg))"
  shows "encrypted e"
proof -
  obtain evs r where run: "smtp_send env cl recipients msg = (evs, r)" by fastforce
  then obtain new where new: "evs = [] @ new"
    "\<forall>sc\<in>set (map (se_scripts env) [0..<SMTP_MAX_RETRIES + 1]). protects cl sc \<Longrightarrow> \<forall>e\<in>set new. encrypted e"
    unfolding smtp_send_def by (elim send_attempts_adds) blast
  from assms(1) new run assms(2) show ?thesis by (auto simp: protects_def)
qed

definition plain_client :: smtp_client where
  "plain_client =
     \<lparr>cl_email = ''me@example.com'', cl_username = ''me'', cl_ssl_required = True, cl_auth_type = ''password'',
      cl_auth_token = ''secret'', cl_port = 587\<rparr>"

text \<open>A server that answers the upgrade with a code, takes the message and answers the end as given.\<close>

definition server :: "nat \<Rightarrow> smtp_err option \<Rightarrow> smtp_script" where
  "server code quit =
     \<lparr>sc_connect = Connected, sc_ehlo_plain = None, sc_starttls = Some (TlsReply code), sc_ehlo = None,
      sc_auth = (\<lambda>n. Inr (235, [])), sc_noop = (\<lambda>n. Inr (250, [])), sc_login = None, sc_send = Delivered [], sc_quit = quit\<rparr>"

definition server_env :: "smtp_script \<Rightarrow> smtp_env" where
  "server_env sc = \<lparr>se_refreshed = Inr [], se_dec = (\<lambda>n. []), se_order = (\<lambda>l. l), se_scripts = (\<lambda>n. sc)\<rparr>"

theorem credentials_encrypted_witness:
  "EvCredentials True ''secret'' \<in> set (fst (smtp_send (server_env (server 220 None)) plain_client [''a@x''] ''hello'')) \<and>
   encrypted (EvCredentials True ''secret'')"
proof
  show sent: "EvCredentials True ''secret'' \<in> set (fst (smtp_send (server_env (server 220 None)) plain_client [''a@x''] ''hello''))"
    by (simp add: smtp_run server_env_def server_def plain_client_def)
  show "encrypted (EvCredentials True ''secret'')"
    by (rule credentials_encrypted [OF _ sent])
      (simp add: plain_client_def server_env_def server_def starttls_honest_def)
qed

text \<open>
  The code with which the server answers the request for the upgrade is not looked at: where the
  library returns it (before Python 2.7.12), with any code but 220 the connection stays as it is, and although SSL is required the password and the
  message go out in plain text, and sending succeeds.
\<close>

theorem refused_starttls_leaks:
  assumes "cl_auth_type cl = ''password''" and "\<not> over_ssl cl" and "cl_ssl_required cl" and "code \<noteq> 220"
  shows "smtp_send (server_env (server code None)) cl recipients msg =
     ([EvCredentials False (cl_auth_token cl), EvMessage False recipients msg], Inr ())"
  using assms by (simp add: smtp_run server_env_def server_def)

theorem refused_starttls_leaks_witness:
  "smtp_send (server_env (server 454 None)) plain_client [''a@x''] ''hello'' =
     ([EvCredentials False ''secret'', EvMessage False [''a@x''] ''hello''], Inr ())"
  using refused_starttls_leaks [of plain_client 454 "[''a@x'']" "''hello''"]
  by (simp add: plain_client_def over_ssl_def SMTP_OVER_SSL_PORT_def SMTP_OVER_SSL_TEST_PORT_def)

section \<open>Attempts and outcomes\<close>

text \<open>
  C27: Sending submits the message at most twice, to the given recipients and unchanged, and an error of the SMTP library
  never gets through. It succeeds only if the server accepted the message for all recipients on one of the connections; a
  failure has code 200 exactly if it names refused recipients, and then the server accepted the message with just these
  refused; every other failure has one of four codes and names none. Other exceptions are only those of the token's refresh
  with OAuth, and that of an account with an unknown kind of authentication.
\<close>

theorem send_outcome:
  assumes "\<And>l. set (se_order env l) = set l"
    and "smtp_send env cl recipients msg = (evs, r)"
  shows "submissions evs \<le> 2 \<and> (\<forall>tls rs m. EvMessage tls rs m \<in> set evs \<longrightarrow> rs = recipients \<and> m = msg) \<and>
     (case r of
        Inr _ \<Rightarrow> \<exists>n<2. sc_send (se_scripts env n) = Delivered []
      | Inl (SendFailed f) \<Rightarrow>
          sf_http_code f \<in> {402, 403, 429, 503} \<and> sf_failures f = [] \<or>
          sf_http_code f = 200 \<and> sf_failures f \<noteq> [] \<and> (\<exists>n<2. sc_send (se_scripts env n) = Delivered (sf_failures f))
      | Inl (Other x) \<Rightarrow>
          cl_auth_type cl = ''oauth2'' \<and> se_refreshed env = Inl x \<or>
          cl_auth_type cl \<noteq> ''oauth2'' \<and> cl_auth_type cl \<noteq> ''password'' \<and> x = TypeError
      | Inl e \<Rightarrow> False)"
proof -
  let ?scs = "map (se_scripts env) [0..<SMTP_MAX_RETRIES + 1]"
  from assms(2) have run: "send_attempts (se_refreshed env) cl recipients msg
      (handle_sending_exception (se_dec env) (se_order env)) ?scs [] ServerDisconnected = (evs, r)"
    by (simp only: smtp_send_def)
  from send_attempts_adds [OF run] obtain new where new: "evs = [] @ new" "submissions new \<le> length ?scs"
    "\<And>tls rs m. EvMessage tls rs m \<in> set new \<Longrightarrow> rs = recipients \<and> m = msg" by metis
  have "submissions evs \<le> 2" using new by (simp add: SMTP_MAX_RETRIES_def)
  moreover have taken: "\<exists>n<2. sc_send (se_scripts env n) = Delivered refused"
    if "accepted recipients msg (se_scripts env ` {0, 1}) evs refused" for refused
    using that by (force simp: accepted_def)
  moreover have "outcome (se_refreshed env) cl recipients msg (se_scripts env ` {0, 1}) evs r" by (rule smtp_send_outcome [OF assms])
  ultimately show ?thesis
    using new by (auto simp: outcome_def failure_codes_def foreign_def split: sum.splits smtp_exn.splits)
qed

text \<open>A server that refuses one of two recipients.\<close>

theorem send_outcome_witness:
  "\<exists>evs f. smtp_send (server_env ((server 220 None)\<lparr>sc_send := Delivered [''b@x'']\<rparr>)) plain_client [''a@x'', ''b@x''] ''hello'' =
       (evs, Inl (SendFailed f)) \<and> submissions evs \<le> 2 \<and> sf_http_code f = 200 \<and>
     (\<exists>n<2. sc_send (se_scripts (server_env ((server 220 None)\<lparr>sc_send := Delivered [''b@x'']\<rparr>)) n) = Delivered (sf_failures f))"
proof -
  let ?env = "server_env ((server 220 None)\<lparr>sc_send := Delivered [''b@x'']\<rparr>)"
  obtain evs f where run: "smtp_send ?env plain_client [''a@x'', ''b@x''] ''hello'' = (evs, Inl (SendFailed f))" "sf_http_code f = 200"
    by (simp add: smtp_run server_env_def server_def plain_client_def)
  have "set (se_order ?env l) = set l" for l by (simp add: server_env_def)
  from send_outcome [OF this run(1)] run show ?thesis by auto
qed

text \<open>
  The end of a connection is inside the retried block: when the server has taken the message and
  answers the end with an error, the message is sent again on a new connection, and the client is
  told that sending failed although the recipients got it twice.
\<close>

theorem quit_error_sends_twice:
  "smtp_send (server_env (server 220 (Some (ResponseError 500 [])))) plain_client recipients msg =
     ([EvCredentials True ''secret'', EvMessage True recipients msg, EvCredentials True ''secret'', EvMessage True recipients msg],
      Inl (SendFailed \<lparr>sf_message = ''Sending failed'', sf_http_code = 503, sf_server_error = Some '' : '', sf_failures = []\<rparr>))"
  by (simp add: smtp_run server_env_def server_def plain_client_def handle_sending_exception_def response_failure_def
      known_error_def SMTP_ERRORS_def server_error_def)

section \<open>Blind copies in raw messages\<close>

text \<open>
  In a message made of lines, exactly the lines that begin with \<open>Bcc: \<close>, in any case, are taken
  out; everything else stays as it was.
\<close>

theorem bcc_lines_removed:
  assumes "\<forall>l\<in>set ls. one_line l"
  shows "substitute_bcc (mail_lines ls) = mail_lines (filter (\<lambda>l. \<not> bcc_line l) ls)"
  using strip_lines [OF assms] by (simp add: substitute_bcc_def)

theorem bcc_lines_removed_witness:
  "substitute_bcc (mail_lines [''To: a@x'', ''BCC: b@x'', '''', ''Hi'']) = mail_lines [''To: a@x'', '''', ''Hi'']"
proof -
  have "\<forall>l\<in>set [''To: a@x'', ''BCC: b@x'', '''', ''Hi'']. one_line l" by (simp add: one_line_def)
  from bcc_lines_removed [OF this]
  have "substitute_bcc (mail_lines [''To: a@x'', ''BCC: b@x'', '''', ''Hi'']) =
    mail_lines (filter (\<lambda>l. \<not> bcc_line l) [''To: a@x'', ''BCC: b@x'', '''', ''Hi''])" .
  moreover have "filter (\<lambda>l. \<not> bcc_line l) [''To: a@x'', ''BCC: b@x'', '''', ''Hi''] = [''To: a@x'', '''', ''Hi'']"
    by code_simp
  ultimately show ?thesis by (simp only:)
qed

text \<open>
  A header folded over two lines keeps its second one, so that all recipients see the rest of the
  blind copies, at the end of the header before; a line of the body that begins like the header is lost.
\<close>

theorem folded_bcc_leaks:
  "substitute_bcc (mail_lines [''To: a@x,'', ''Bcc: b@x,'', '' c@x'', '''', ''bcc: see below'']) =
   mail_lines [''To: a@x,'', '' c@x'', '''']"
proof -
  have "\<forall>l\<in>set [''To: a@x,'', ''Bcc: b@x,'', '' c@x'', '''', ''bcc: see below'']. one_line l" by (simp add: one_line_def)
  note stripped = strip_lines [OF this]
  have "filter (\<lambda>l. \<not> bcc_line l) [''To: a@x,'', ''Bcc: b@x,'', '' c@x'', '''', ''bcc: see below''] = [''To: a@x,'', '' c@x'', '''']"
    by code_simp
  with stripped show ?thesis by (simp only: substitute_bcc_def)
qed

end
