(* ===== verification/Remote_Actions.thy ===== *)
theory Remote_Actions
  imports Smtp_Client Folder_Sync Mail_Text
begin

text \<open>
  Carrying changes to the account's mail server: \<open>inbox/actions/base.py\<close>, \<open>backends/generic.py\<close> and
  \<open>backends/gmail.py\<close> with the writing operations of \<open>inbox/crispin.py\<close>. The server's answers are parameters; every
  command is logged with the folder the connection has selected, which is not always the one the
  client believes to be selected.
\<close>

section \<open>Connection\<close>

datatype remote_cmd =
    Imap imap_cmd
  | CmdAddFlags "nat list" "string list"
  | CmdAddLabels "nat list" "string list"
  | CmdAppend string string "string list"
  | CmdCreateFolder string
  | CmdRenameFolder string "string option"
  | CmdDeleteFolder string

text \<open>
  \<open>rm_selected\<close> is the folder of the last selection that the server carried out, \<open>rm_sent\<close> counts the
  commands, and \<open>rm_log\<close> has each of them with the folder it was sent in and whether it was carried out.
\<close>

record remote =
  rm_db :: store
  rm_client :: crispin
  rm_selected :: "string option"
  rm_sent :: nat
  rm_log :: "(string option \<times> remote_cmd \<times> bool) list"

text \<open>
  The server: what the nth command raises, the answer to a selection, the list of folders, and the UIDs
  of a folder with a Message-Id after n commands; for Gmail the message ids of UIDs and the UIDs of a
  message id in the trash. Then the MIME library, the bodies, and the order of a dictionary's items.
\<close>

record remote_env =
  re_fault :: "nat \<Rightarrow> exc option"
  re_info :: "string \<Rightarrow> select_info"
  re_listing :: "listing res"
  re_find :: "nat \<Rightarrow> string \<Rightarrow> string option \<Rightarrow> nat list"
  re_msgids :: "string \<Rightarrow> nat list \<Rightarrow> nat list"
  re_uids_of :: "nat \<Rightarrow> nat list"
  re_separator :: char
  re_prefix :: string
  re_body :: "nat \<Rightarrow> string"
  re_mime :: "mail_parts \<Rightarrow> string"
  re_items :: "(string \<times> nat list) list \<Rightarrow> (string \<times> nat list) list"
  re_utf7 :: "string \<Rightarrow> string"

type_synonym 'a remote_st = "(remote, 'a) st"

text \<open>A command on the messages of a folder is refused by the IMAP library when no folder is selected.\<close>

fun needs_folder :: "remote_cmd \<Rightarrow> bool" where
  "needs_folder (Imap (CmdSelect f)) = False"
| "needs_folder (Imap c) = True"
| "needs_folder (CmdAddFlags uids flags) = True"
| "needs_folder (CmdAddLabels uids ls) = True"
| "needs_folder c = False"

definition remote_send :: "remote_env \<Rightarrow> remote_cmd \<Rightarrow> unit remote_st" where
  "remote_send env cmd s =
     (let e = (if needs_folder cmd \<and> rm_selected s = None then Some (Imap4Error ''command illegal in state AUTH'')
               else re_fault env (rm_sent s))
      in (s\<lparr>rm_sent := Suc (rm_sent s), rm_log := rm_log s @ [(rm_selected s, cmd, e = None)]\<rparr>,
          case e of None \<Rightarrow> Ok () | Some e \<Rightarrow> Raise e))"

text \<open>The connection's own selection, which the client does not note; a failed one leaves no folder selected.\<close>

definition conn_select :: "remote_env \<Rightarrow> string \<Rightarrow> select_info remote_st" where
  "conn_select env folder s =
     (case remote_send env (Imap (CmdSelect folder)) s of
        (s1, Inl e) \<Rightarrow> (s1\<lparr>rm_selected := None\<rparr>, Raise e)
      | (s1, Inr _) \<Rightarrow> (s1\<lparr>rm_selected := Some folder\<rparr>, Ok (re_info env folder)))"

text \<open>The client's selection with the callback of the module, only when it believes another folder to be selected.\<close>

definition remote_select :: "remote_env \<Rightarrow> string \<Rightarrow> unit remote_st" where
  "remote_select env folder s =
     (let cb = module_uidvalidity_cb (rm_db s)
      in if map_option fst (cr_selected (rm_client s)) = Some folder
         then (case select_folder_if_necessary (Ok (re_info env folder)) folder cb (rm_client s) of
                 (cr, r) \<Rightarrow> (s\<lparr>rm_client := cr\<rparr>, res_bind r (\<lambda>_. Ok ())))
         else (case conn_select env folder s of
                 (s1, reply) \<Rightarrow>
                   (case select_folder_if_necessary reply folder cb (rm_client s1) of
                      (cr, r) \<Rightarrow> (s1\<lparr>rm_client := cr\<rparr>, res_bind r (\<lambda>_. Ok ())))))"

definition through_client :: "(crispin, 'a) st \<Rightarrow> 'a remote_st" where
  "through_client f s = (case f (rm_client s) of (cr, r) \<Rightarrow> (s\<lparr>rm_client := cr\<rparr>, r))"

definition remote_names_of :: "remote_env \<Rightarrow> role_names remote_st" where
  "remote_names_of env = through_client (folder_names False (re_listing env))"

definition remote_role :: "remote_env \<Rightarrow> string \<Rightarrow> string list remote_st" where
  "remote_role env role = through_client (folders_with_role role (re_listing env))"

definition first_folder :: "string list \<Rightarrow> string remote_st" where
  "first_folder ns = (case ns of [] \<Rightarrow> st_raise IndexError | n # _ \<Rightarrow> st_ok n)"

section \<open>Writing with the client\<close>

definition delete_uids :: "remote_env \<Rightarrow> nat list \<Rightarrow> unit remote_st" where
  "delete_uids env uids = st_bind (remote_send env (Imap (CmdDelete uids))) (\<lambda>_. remote_send env (Imap CmdExpunge))"

text \<open>A message goes to the folder the client believes to be selected, which has to have the role.\<close>

definition append_as :: "remote_env \<Rightarrow> string \<Rightarrow> string list \<Rightarrow> string \<Rightarrow> unit remote_st" where
  "append_as env role flags msg =
     st_bind (remote_role env role) (\<lambda>names s.
       case cr_selected (rm_client s) of
         Some (folder, _) \<Rightarrow> if folder \<in> set names then remote_send env (CmdAppend folder msg flags) s else (s, Raise AssertionError)
       | None \<Rightarrow> (s, Raise AssertionError))"

definition cr_save_draft :: "remote_env \<Rightarrow> string \<Rightarrow> unit remote_st" where
  "cr_save_draft env msg = append_as env ''drafts'' [bs ''Draft'', bs ''Seen''] msg"

definition cr_create_message :: "remote_env \<Rightarrow> string \<Rightarrow> unit remote_st" where
  "cr_create_message env msg = append_as env ''sent'' [bs ''Seen''] msg"

fun run_commands :: "remote_env \<Rightarrow> imap_cmd list \<Rightarrow> unit remote_st" where
  "run_commands env [] = st_ok ()"
| "run_commands env (CmdSelect f # cs) = st_bind (conn_select env f) (\<lambda>_. run_commands env cs)"
| "run_commands env (c # cs) = st_bind (remote_send env (Imap c)) (\<lambda>_. run_commands env cs)"

text \<open>The commands of a deletion in their order, up to the first that fails; then what the deletion returns.\<close>

definition run_deletion :: "remote_env \<Rightarrow> imap_cmd list \<times> bool res \<Rightarrow> bool remote_st" where
  "run_deletion env p = (case p of (cmds, r) \<Rightarrow> st_bind (run_commands env cmds) (\<lambda>_. st_res r))"

definition cr_delete_draft :: "remote_env \<Rightarrow> string option \<Rightarrow> bool remote_st" where
  "cr_delete_draft env header =
     st_bind (remote_names_of env) (\<lambda>names s.
       let finder = (\<lambda>folder. re_find env (rm_sent s) folder header)
       in run_deletion env
            (if cr_gmail (rm_client s) then gmail_delete_draft names finder (re_msgids env) (re_uids_of env)
             else delete_from_role names ''drafts'' finder False) s)"

definition cr_delete_sent :: "remote_env \<Rightarrow> string option \<Rightarrow> bool \<Rightarrow> bool remote_st" where
  "cr_delete_sent env header multiple =
     st_bind (remote_names_of env) (\<lambda>names s.
       let finder = (\<lambda>folder. re_find env (rm_sent s) folder header)
       in run_deletion env
            (if cr_gmail (rm_client s) then gmail_delete_sent names finder multiple
             else delete_from_role names ''sent'' finder multiple) s)"

section \<open>Messages\<close>

fun add_uid :: "string \<Rightarrow> nat list \<Rightarrow> (string \<times> nat list) list \<Rightarrow> (string \<times> nat list) list" where
  "add_uid folder uids [] = [(folder, uids)]"
| "add_uid folder uids ((f, us) # rest) =
     (if f = folder then (f, us @ uids) # rest else (f, us) # add_uid folder uids rest)"

text \<open>The rows of a message joined with their folders.\<close>

definition uid_rows :: "store \<Rightarrow> nat \<Rightarrow> (string \<times> nat) list" where
  "uid_rows db mid =
     List.map_filter (\<lambda>u. map_option (\<lambda>f. (fld_name f, u_msg_uid u)) (t_get fld_id (folders db) (u_folder_id u)))
       (filter (\<lambda>u. u_message_id u = mid) (imapuids db))"

definition uids_by_folder :: "store \<Rightarrow> nat \<Rightarrow> (string \<times> nat list) list" where
  "uids_by_folder db mid = fold (\<lambda>(f, u). add_uid f [u]) (uid_rows db mid) []"

text \<open>What is done in each folder of a message, after it is selected.\<close>

fun each_folder :: "remote_env \<Rightarrow> (nat list \<Rightarrow> unit remote_st) \<Rightarrow> (string \<times> nat list) list \<Rightarrow> unit remote_st" where
  "each_folder env f [] = st_ok ()"
| "each_folder env f ((folder, uids) # rest) =
     st_bind (remote_select env folder) (\<lambda>_. st_bind (f uids) (\<lambda>_. each_folder env f rest))"

definition set_flag :: "remote_env \<Rightarrow> nat \<Rightarrow> string \<Rightarrow> bool \<Rightarrow> unit remote_st" where
  "set_flag env mid flag is_add s =
     each_folder env
       (\<lambda>uids. remote_send env (if is_add then CmdAddFlags uids [flag] else Imap (CmdRemoveFlags uids [flag])))
       (re_items env (uids_by_folder (rm_db s) mid)) s"

definition set_remote_starred :: "remote_env \<Rightarrow> nat \<Rightarrow> bool \<Rightarrow> unit remote_st" where
  "set_remote_starred env mid starred = set_flag env mid (bs ''Flagged'') starred"

definition set_remote_unread :: "remote_env \<Rightarrow> nat \<Rightarrow> bool \<Rightarrow> unit remote_st" where
  "set_remote_unread env mid unread = set_flag env mid (bs ''Seen'') (\<not> unread)"

definition move_uids :: "remote_env \<Rightarrow> string \<Rightarrow> nat list \<Rightarrow> unit remote_st" where
  "move_uids env destination uids =
     st_bind (remote_send env (Imap (CmdCopy uids destination))) (\<lambda>_. delete_uids env uids)"

definition remote_move :: "remote_env \<Rightarrow> nat \<Rightarrow> string \<Rightarrow> unit remote_st" where
  "remote_move env mid destination s =
     each_folder env (move_uids env destination) (re_items env (uids_by_folder (rm_db s) mid)) s"

definition merged_uids :: "remote_env \<Rightarrow> store \<Rightarrow> nat list \<Rightarrow> (string \<times> nat list) list" where
  "merged_uids env db mids =
     fold (\<lambda>mid acc. fold (\<lambda>(f, us). add_uid f us) (re_items env (uids_by_folder db mid)) acc) mids []"

definition change_uid_labels :: "remote_env \<Rightarrow> string list \<Rightarrow> string list \<Rightarrow> nat list \<Rightarrow> unit remote_st" where
  "change_uid_labels env removed added uids =
     st_bind (if added \<noteq> [] then remote_send env (CmdAddLabels uids (map (re_utf7 env) added)) else st_ok ())
       (\<lambda>_. if removed \<noteq> [] then remote_send env (Imap (CmdRemoveLabels uids (map (re_utf7 env) removed))) else st_ok ())"

definition remote_change_labels :: "remote_env \<Rightarrow> nat list \<Rightarrow> string list \<Rightarrow> string list \<Rightarrow> unit remote_st" where
  "remote_change_labels env mids removed added s =
     each_folder env (change_uid_labels env removed added) (re_items env (merged_uids env (rm_db s) mids)) s"

section \<open>Drafts and sent messages\<close>

text \<open>The blind copies are in what is saved, unlike in what is sent.\<close>

definition remote_mail :: "remote_env \<Rightarrow> message_row \<Rightarrow> string res" where
  "remote_mail env m =
     res_bind (parts_of m (re_body env (m_id m))) (\<lambda>parts. Ok (re_mime env (parts\<lparr>mp_bcc := m_bcc m\<rparr>)))"

definition message_mail :: "remote_env \<Rightarrow> nat \<Rightarrow> string remote_st" where
  "message_mail env mid s =
     (s, case t_get m_id (messages (rm_db s)) mid of None \<Rightarrow> Raise AttributeError | Some m \<Rightarrow> remote_mail env m)"

text \<open>Continue with the first folder of a role, if the account has the role; selecting it may fail.\<close>

definition in_role :: "remote_env \<Rightarrow> string \<Rightarrow> unit remote_st \<Rightarrow> unit remote_st" where
  "in_role env role f =
     st_bind (remote_names_of env) (\<lambda>names.
       case map_of names (Some role) of
         None \<Rightarrow> st_ok ()
       | Some ns \<Rightarrow> st_bind (first_folder ns) (\<lambda>folder. st_bind (remote_select env folder) (\<lambda>_. f)))"

definition remote_save_draft :: "remote_env \<Rightarrow> nat \<Rightarrow> unit remote_st" where
  "remote_save_draft env mid =
     st_bind (message_mail env mid) (\<lambda>mail. in_role env ''drafts'' (cr_save_draft env mail))"

text \<open>The search is in the folder that the connection has selected.\<close>

definition find_selected :: "remote_env \<Rightarrow> string option \<Rightarrow> nat list remote_st" where
  "find_selected env header s =
     (s, case rm_selected s of None \<Rightarrow> Raise (Imap4Error ''command illegal in state AUTH'')
         | Some folder \<Rightarrow> Ok (re_find env (rm_sent s) folder header))"

definition replace_draft :: "remote_env \<Rightarrow> string option \<Rightarrow> string \<Rightarrow> string option \<Rightarrow> unit remote_st" where
  "replace_draft env header mail old_header =
     st_bind (find_selected env header) (\<lambda>existing.
       st_bind (if existing = [] then cr_save_draft env mail else st_ok ()) (\<lambda>_.
         if truthy old_header then st_bind (cr_delete_draft env old_header) (\<lambda>_. st_ok ()) else st_ok ()))"

definition remote_update_draft :: "remote_env \<Rightarrow> nat \<Rightarrow> string option \<Rightarrow> unit remote_st" where
  "remote_update_draft env mid old_header s =
     st_bind (message_mail env mid) (\<lambda>mail.
       in_role env ''drafts''
         (replace_draft env (Option.bind (t_get m_id (messages (rm_db s)) mid) m_message_id_header) mail old_header)) s"

definition if_role :: "remote_env \<Rightarrow> string \<Rightarrow> bool remote_st \<Rightarrow> unit remote_st" where
  "if_role env role f =
     st_bind (remote_names_of env) (\<lambda>names. if map_of names (Some role) = None then st_ok () else st_bind f (\<lambda>_. st_ok ()))"

definition remote_delete_draft :: "remote_env \<Rightarrow> string option \<Rightarrow> unit remote_st" where
  "remote_delete_draft env header = if_role env ''drafts'' (cr_delete_draft env header)"

definition remote_delete_sent :: "remote_env \<Rightarrow> string option \<Rightarrow> bool \<Rightarrow> unit remote_st" where
  "remote_delete_sent env header multiple = if_role env ''sent'' (cr_delete_sent env header multiple)"

definition remote_save_sent :: "remote_env \<Rightarrow> nat \<Rightarrow> unit remote_st" where
  "remote_save_sent env mid s =
     (case t_get m_id (messages (rm_db s)) mid of
        None \<Rightarrow> (s, Ok ())
      | Some m \<Rightarrow> st_bind (st_res (remote_mail env m)) (\<lambda>mail. in_role env ''sent'' (cr_create_message env mail)) s)"

section \<open>Folders and labels\<close>

definition with_category :: "nat \<Rightarrow> (category_row \<Rightarrow> unit remote_st) \<Rightarrow> unit remote_st" where
  "with_category cid f s = (case t_get cat_id (categories (rm_db s)) cid of None \<Rightarrow> (s, Ok ()) | Some c \<Rightarrow> f c s)"

definition remote_create_folder :: "remote_env \<Rightarrow> nat \<Rightarrow> unit remote_st" where
  "remote_create_folder env cid = with_category cid (\<lambda>c. remote_send env (CmdCreateFolder (cat_display_name c)))"

definition rename_rows :: "nat \<Rightarrow> string \<Rightarrow> string \<Rightarrow> store \<Rightarrow> store res" where
  "rename_rows cid old_name new_name db =
     (case t_get cat_id (categories db) cid of
        None \<Rightarrow> Raise AttributeError
      | Some c \<Rightarrow>
          Ok (db\<lparr>categories := t_put cat_id (categories db) (c\<lparr>cat_display_name := sanitize_name new_name\<rparr>),
                 folders := map (\<lambda>f. if fld_category_id f = Some cid \<and> fld_name f = old_name
                                     then f\<lparr>fld_name := sanitize_name new_name\<rparr> else f) (folders db)\<rparr>))"

text \<open>A name without a component has no path.\<close>

definition remote_update_folder :: "remote_env \<Rightarrow> nat \<Rightarrow> nat \<Rightarrow> string \<Rightarrow> string \<Rightarrow> unit remote_st" where
  "remote_update_folder env aid cid old_name new_name s =
     (case t_get acc_id (accounts (rm_db s)) aid of
        None \<Rightarrow> (s, Raise AttributeError)
      | Some acc \<Rightarrow>
          (let path = (if acc_provider acc \<in> {''gmail'', ''eas''} then Some new_name
                       else imap_folder_path new_name (re_separator env) (re_prefix env))
           in st_bind (remote_send env (CmdRenameFolder old_name path)) (\<lambda>_ s1.
                case path of
                  None \<Rightarrow> (s1, Raise TypeError)
                | Some p \<Rightarrow>
                    if p = old_name then (s1, Ok ())
                    else (case rename_rows cid old_name p (rm_db s1) of
                            Inl e \<Rightarrow> (s1, Raise e)
                          | Inr db \<Rightarrow> (s1\<lparr>rm_db := db\<rparr>, Ok ()))) s))"

text \<open>An error of the server is taken to say that the folder is gone already.\<close>

definition is_imap4 :: "exc \<Rightarrow> bool" where
  "is_imap4 e \<longleftrightarrow> imap4_message e \<noteq> None"

definition delete_folder_and_row :: "remote_env \<Rightarrow> nat \<Rightarrow> unit remote_st" where
  "delete_folder_and_row env cid =
     with_category cid (\<lambda>c s.
       case remote_send env (CmdDeleteFolder (cat_display_name c)) s of
         (s1, Inl e) \<Rightarrow>
           if is_imap4 e then (s1\<lparr>rm_db := delete_category (rm_db s1) cid\<rparr>, Ok ()) else (s1, Raise e)
       | (s1, Inr _) \<Rightarrow> (s1\<lparr>rm_db := delete_category (rm_db s1) cid\<rparr>, Ok ()))"

definition remote_delete_folder :: "remote_env \<Rightarrow> nat \<Rightarrow> unit remote_st" where
  "remote_delete_folder env cid = delete_folder_and_row env cid"

definition remote_create_label :: "remote_env \<Rightarrow> nat \<Rightarrow> unit remote_st" where
  "remote_create_label env cid = with_category cid (\<lambda>c. remote_send env (CmdCreateFolder (cat_display_name c)))"

definition remote_update_label :: "remote_env \<Rightarrow> string \<Rightarrow> string \<Rightarrow> unit remote_st" where
  "remote_update_label env old_name new_name = remote_send env (CmdRenameFolder old_name (Some new_name))"

definition remote_delete_label :: "remote_env \<Rightarrow> nat \<Rightarrow> unit remote_st" where
  "remote_delete_label env cid = delete_folder_and_row env cid"

section \<open>Actions\<close>

text \<open>An action with the arguments it was scheduled with; \<open>version\<close> may be missing.\<close>

datatype remote_action =
    MarkUnread nat bool
  | MarkStarred nat bool
  | Move nat string
  | ChangeLabels "nat list" "string list" "string list"
  | CreateFolder nat
  | UpdateFolder nat string string
  | DeleteFolder nat
  | CreateLabel nat
  | UpdateLabel nat string string
  | DeleteLabel nat
  | SaveDraft nat "nat option"
  | UpdateDraft nat "nat option" "string option"
  | DeleteDraft "string option" "string option"
  | SaveSent nat
  | DeleteSent "string option"

text \<open>The guard of both draft actions: the message is there, a draft, and of the version that was scheduled.\<close>

definition draft_current :: "store \<Rightarrow> nat \<Rightarrow> nat option \<Rightarrow> bool" where
  "draft_current db mid version =
     (case t_get m_id (messages db) mid of
        None \<Rightarrow> False
      | Some m \<Rightarrow> m_is_draft m \<and> version = Some (m_version m))"

definition save_draft :: "remote_env \<Rightarrow> nat \<Rightarrow> nat option \<Rightarrow> unit remote_st" where
  "save_draft env mid version s =
     (if draft_current (rm_db s) mid version then remote_save_draft env mid s else (s, Ok ()))"

definition update_draft :: "remote_env \<Rightarrow> nat \<Rightarrow> nat option \<Rightarrow> string option \<Rightarrow> unit remote_st" where
  "update_draft env mid version old_header s =
     (if draft_current (rm_db s) mid version then remote_update_draft env mid old_header s else (s, Ok ()))"

definition delete_draft :: "remote_env \<Rightarrow> string option \<Rightarrow> string option \<Rightarrow> unit remote_st" where
  "delete_draft env nylas_uid header =
     (if truthy nylas_uid \<or> truthy header then remote_delete_draft env header else st_raise AssertionError)"

definition delete_sent_email :: "remote_env \<Rightarrow> string option \<Rightarrow> unit remote_st" where
  "delete_sent_email env header =
     (if truthy header then remote_delete_sent env header False else st_raise AssertionError)"

fun run_action :: "remote_env \<Rightarrow> nat \<Rightarrow> remote_action \<Rightarrow> unit remote_st" where
  "run_action env aid (MarkUnread mid unread) = set_remote_unread env mid unread"
| "run_action env aid (MarkStarred mid starred) = set_remote_starred env mid starred"
| "run_action env aid (Move mid destination) = remote_move env mid destination"
| "run_action env aid (ChangeLabels mids removed added) = remote_change_labels env mids removed added"
| "run_action env aid (CreateFolder cid) = remote_create_folder env cid"
| "run_action env aid (UpdateFolder cid old_name new_name) = remote_update_folder env aid cid old_name new_name"
| "run_action env aid (DeleteFolder cid) = remote_delete_folder env cid"
| "run_action env aid (CreateLabel cid) = remote_create_label env cid"
| "run_action env aid (UpdateLabel cid old_name new_name) = remote_update_label env old_name new_name"
| "run_action env aid (DeleteLabel cid) = remote_delete_label env cid"
| "run_action env aid (SaveDraft mid version) = save_draft env mid version"
| "run_action env aid (UpdateDraft mid version old_header) = update_draft env mid version old_header"
| "run_action env aid (DeleteDraft nylas_uid header) = delete_draft env nylas_uid header"
| "run_action env aid (SaveSent mid) = remote_save_sent env mid"
| "run_action env aid (DeleteSent header) = delete_sent_email env header"

text \<open>
  The tasks of a batch share one connection. Each is tried again on it until it succeeds or its attempts are
  used up; then the batch goes on with the next one.
\<close>

fun run_attempts :: "remote_env \<Rightarrow> nat \<Rightarrow> nat \<Rightarrow> remote_action \<Rightarrow> remote \<Rightarrow> remote" where
  "run_attempts env aid 0 a s = s"
| "run_attempts env aid (Suc n) a s =
     (case run_action env aid a s of
        (s1, Inr _) \<Rightarrow> s1
      | (s1, Inl e) \<Rightarrow> run_attempts env aid n a s1)"

definition run_actions :: "remote_env \<Rightarrow> nat \<Rightarrow> nat \<Rightarrow> remote_action list \<Rightarrow> remote \<Rightarrow> remote" where
  "run_actions env aid attempts as s = fold (run_attempts env aid attempts) as s"

end
