(* ===== verification/Remote_Proofs.thy ===== *)
theory Remote_Proofs
  imports Remote_Actions
begin

text \<open>
  What carrying changes to the server keeps: the client's belief about the selected folder, copies before
  deletions, and the old draft until the new one is there.
\<close>

section \<open>Logs\<close>

text \<open>
  The contract of an operation: it keeps I, what it adds to the log satisfies P, and the database
  stays as it is.
\<close>

type_synonym log_entry = "string option \<times> remote_cmd \<times> bool"

definition logs :: "(remote \<Rightarrow> bool) \<Rightarrow> (log_entry list \<Rightarrow> bool) \<Rightarrow> 'a remote_st \<Rightarrow> bool" where
  "logs I P f \<longleftrightarrow>
     (\<forall>s s' r. I s \<longrightarrow> f s = (s', r) \<longrightarrow> I s' \<and> rm_db s' = rm_db s \<and> (\<exists>new. rm_log s' = rm_log s @ new \<and> P new))"

lemma logsI:
  assumes "\<And>s s' r. I s \<Longrightarrow> f s = (s', r) \<Longrightarrow> I s' \<and> rm_db s' = rm_db s \<and> (\<exists>new. rm_log s' = rm_log s @ new \<and> P new)"
  shows "logs I P f"
  unfolding logs_def by (intro allI impI) (rule assms)

lemma logsD:
  assumes "logs I P f" "I s" "f s = (s', r)"
  obtains new where "I s'" "rm_db s' = rm_db s" "rm_log s' = rm_log s @ new" "P new"
proof -
  from assms(1) have "\<forall>s s' r. I s \<longrightarrow> f s = (s', r) \<longrightarrow> I s' \<and> rm_db s' = rm_db s \<and> (\<exists>new. rm_log s' = rm_log s @ new \<and> P new)"
    unfolding logs_def .
  from this [THEN spec, THEN spec, THEN spec, THEN mp, THEN mp, OF assms(2,3)] that show thesis by (elim conjE exE) simp
qed

lemma logs_bind:
  assumes f: "logs I P f" and g: "\<And>x. logs I Q (g x)"
    and early: "\<And>a. P a \<Longrightarrow> R a" and both: "\<And>a b. P a \<Longrightarrow> Q b \<Longrightarrow> R (a @ b)"
  shows "logs I R (st_bind f g)"
proof (rule logsI)
  fix s s' r
  assume s: "I s" and run: "st_bind f g s = (s', r)"
  from run show "I s' \<and> rm_db s' = rm_db s \<and> (\<exists>new. rm_log s' = rm_log s @ new \<and> R new)"
  proof (cases rule: st_bind_cases)
    case (raise e)
    from logsD [OF f s raise(1)] obtain new where "I s'" "rm_db s' = rm_db s" "rm_log s' = rm_log s @ new" "P new" .
    with early show ?thesis by blast
  next
    case (step u x)
    from logsD [OF f s step(1)] obtain new1 where 1: "I u" "rm_db u = rm_db s" "rm_log u = rm_log s @ new1" "P new1" .
    from logsD [OF g 1(1) step(2)] obtain new2 where n2: "I s'" "rm_db s' = rm_db u" "rm_log s' = rm_log u @ new2" "Q new2" .
    from 1 n2 both have "R (new1 @ new2)" "rm_log s' = rm_log s @ (new1 @ new2)" by simp_all
    with 1 n2 show ?thesis by auto
  qed
qed

lemma logs_weaken: "logs I P f \<Longrightarrow> (\<And>a. P a \<Longrightarrow> Q a) \<Longrightarrow> logs I Q f"
  unfolding logs_def by blast

lemma logs_silent: "(\<And>s. I s \<Longrightarrow> I (fst (f s)) \<and> rm_db (fst (f s)) = rm_db s \<and> rm_log (fst (f s)) = rm_log s) \<Longrightarrow> logs I (\<lambda>a. a = []) f"
proof (rule logsI)
  fix s s' r
  assume keep: "\<And>s. I s \<Longrightarrow> I (fst (f s)) \<and> rm_db (fst (f s)) = rm_db s \<and> rm_log (fst (f s)) = rm_log s"
    and "I s" "f s = (s', r)"
  with keep [of s] show "I s' \<and> rm_db s' = rm_db s \<and> (\<exists>new. rm_log s' = rm_log s @ new \<and> new = [])" by simp
qed

section \<open>The selected folder\<close>

text \<open>The folder the client believes to be selected is selected, or none is.\<close>

definition in_step :: "remote \<Rightarrow> bool" where
  "in_step s \<longleftrightarrow> (\<forall>f info. cr_selected (rm_client s) = Some (f, info) \<longrightarrow> rm_selected s = None \<or> rm_selected s = Some f)"

lemma remote_send_state:
  "remote_send env cmd s = (s', r) \<Longrightarrow>
     s' = s\<lparr>rm_sent := Suc (rm_sent s), rm_log := rm_log s @ [(rm_selected s, cmd, r = Inr ())]\<rparr> \<and>
     (needs_folder cmd \<and> rm_selected s = None \<longrightarrow> r \<noteq> Inr ())"
  by (auto simp: remote_send_def Let_def split: option.split_asm if_split_asm)

lemma in_step_update [simp]:
  "in_step (s\<lparr>rm_sent := n, rm_log := l\<rparr>) = in_step s" "in_step (s\<lparr>rm_db := d\<rparr>) = in_step s"
  by (simp_all add: in_step_def)

lemma through_client_state: "through_client f s = (s', r) \<Longrightarrow> s' = s\<lparr>rm_client := fst (f (rm_client s))\<rparr>"
  by (auto simp: through_client_def split: prod.split_asm)

lemma folder_names_selected: "cr_selected (fst (folder_names force listing cr)) = cr_selected cr"
  by (simp add: folder_names_def split: bool.split option.split sum.split)

lemma folders_with_role_selected: "cr_selected (fst (folders_with_role role listing cr)) = cr_selected cr"
proof -
  obtain cr1 r where n: "folder_names False listing cr = (cr1, r)" by fastforce
  then have "cr_selected cr1 = cr_selected cr" using folder_names_selected [of False listing cr] by simp
  with n show ?thesis
    by (cases r) (simp_all add: folders_with_role_def st_bind_def role_folders_def split: option.split)
qed

lemma names_silent: "logs in_step (\<lambda>a. a = []) (remote_names_of env)"
proof (rule logs_silent)
  fix s assume "in_step s"
  moreover obtain s' r where run: "remote_names_of env s = (s', r)" by fastforce
  moreover from run have "s' = s\<lparr>rm_client := fst (folder_names False (re_listing env) (rm_client s))\<rparr>"
    unfolding remote_names_of_def by (rule through_client_state)
  ultimately show "in_step (fst (remote_names_of env s)) \<and> rm_db (fst (remote_names_of env s)) = rm_db s \<and>
      rm_log (fst (remote_names_of env s)) = rm_log s"
    by (simp add: in_step_def folder_names_selected)
qed

lemma role_silent: "logs in_step (\<lambda>a. a = []) (remote_role env role)"
proof (rule logs_silent)
  fix s assume "in_step s"
  moreover obtain s' r where run: "remote_role env role s = (s', r)" by fastforce
  moreover from run have "s' = s\<lparr>rm_client := fst (folders_with_role role (re_listing env) (rm_client s))\<rparr>"
    unfolding remote_role_def by (rule through_client_state)
  ultimately show "in_step (fst (remote_role env role s)) \<and> rm_db (fst (remote_role env role s)) = rm_db s \<and>
      rm_log (fst (remote_role env role s)) = rm_log s"
    by (simp add: in_step_def folders_with_role_selected)
qed

text \<open>After a selection that succeeds the folder is selected, or none was all along.\<close>

lemma remote_select_state:
  assumes "in_step s" and run: "remote_select env folder s = (s', r)"
  shows "in_step s' \<and> rm_db s' = rm_db s \<and> (\<exists>new. rm_log s' = rm_log s @ new \<and> (\<forall>e\<in>set new. \<exists>ok. snd e = (Imap (CmdSelect folder), ok))) \<and>
     (r = Inr () \<longrightarrow> rm_selected s' = None \<or> rm_selected s' = Some folder)"
proof (cases "map_option fst (cr_selected (rm_client s)) = Some folder")
  case True
  then obtain info where sel: "cr_selected (rm_client s) = Some (folder, info)" by auto
  with True run have "s' = s\<lparr>rm_client := rm_client s\<rparr>"
    by (simp add: remote_select_def select_folder_if_necessary_def Let_def)
  with assms(1) sel show ?thesis by (simp add: in_step_def)
next
  case False
  obtain s1 reply where conn: "conn_select env folder s = (s1, reply)" by fastforce
  obtain t e where send: "remote_send env (Imap (CmdSelect folder)) s = (t, e)" by fastforce
  note t = remote_send_state [OF send]
  have client: "rm_client s1 = rm_client s"
    using conn send t by (auto simp: conn_select_def split: sum.split_asm)
  have other: "select_folder_if_necessary reply folder cb (rm_client s) = select_folder reply folder cb (rm_client s)" for cb
    using False by (cases "cr_selected (rm_client s)") (auto simp: select_folder_if_necessary_def)
  from run False conn have run': "(case select_folder reply folder (module_uidvalidity_cb (rm_db s)) (rm_client s) of
      (cr, r) \<Rightarrow> (s1\<lparr>rm_client := cr\<rparr>, res_bind r (\<lambda>_. Ok ()))) = (s', r)"
    by (simp add: remote_select_def Let_def client other)
  show ?thesis
  proof (cases e)
    case (Inl x)
    with conn send have s1: "s1 = t\<lparr>rm_selected := None\<rparr>" "reply = Raise x" by (simp_all add: conn_select_def)
    have "s' = s1\<lparr>rm_client := rm_client s\<rparr> \<and> r \<noteq> Inr ()"
      using run' s1 by (auto simp: select_folder_def split: option.split_asm)
    then show ?thesis using s1 t by (auto simp: in_step_def)
  next
    case (Inr u)
    with conn send have s1: "s1 = t\<lparr>rm_selected := Some folder\<rparr>" "reply = Ok (re_info env folder)" by (simp_all add: conn_select_def)
    have "s' = s1\<lparr>rm_client := (rm_client s)\<lparr>cr_selected := Some (folder, re_info env folder), cr_folder_names := None\<rparr>\<rparr>"
      using run' s1 by (simp add: select_folder_def)
    then show ?thesis using s1 t by (auto simp: in_step_def)
  qed
qed

section \<open>One folder after the other\<close>

text \<open>What a block does in a folder is shown where the folder is selected or none is.\<close>

definition at_folder :: "string \<Rightarrow> remote \<Rightarrow> bool" where
  "at_folder folder s \<longleftrightarrow> in_step s \<and> (rm_selected s = None \<or> rm_selected s = Some folder)"

definition block :: "(log_entry list \<Rightarrow> bool) \<Rightarrow> string \<Rightarrow> unit remote_st \<Rightarrow> bool" where
  "block P folder f \<longleftrightarrow>
     (\<forall>s s' r. at_folder folder s \<longrightarrow> f s = (s', r) \<longrightarrow> at_folder folder s' \<and> rm_db s' = rm_db s \<and> (\<exists>new. rm_log s' = rm_log s @ new \<and> P new))"

lemma blockD:
  assumes "block P folder f" "at_folder folder s" "f s = (s', r)"
  obtains new where "at_folder folder s'" "rm_db s' = rm_db s" "rm_log s' = rm_log s @ new" "P new"
proof -
  from assms(1) have "\<forall>s s' r. at_folder folder s \<longrightarrow> f s = (s', r) \<longrightarrow> at_folder folder s' \<and> rm_db s' = rm_db s \<and>
      (\<exists>new. rm_log s' = rm_log s @ new \<and> P new)" unfolding block_def .
  from this [THEN spec, THEN spec, THEN spec, THEN mp, THEN mp, OF assms(2,3)] that show thesis by (elim conjE exE) simp
qed

definition only_selects :: "log_entry list \<Rightarrow> bool" where
  "only_selects new \<longleftrightarrow> (\<forall>e\<in>set new. \<exists>f ok. snd e = (Imap (CmdSelect f), ok))"

lemma each_folder_logs:
  assumes block: "\<And>folder uids. (folder, uids) \<in> set l \<Longrightarrow> block P folder (f uids)"
    and sel: "\<And>a. only_selects a \<Longrightarrow> P a" and app: "\<And>a b. P a \<Longrightarrow> P b \<Longrightarrow> P (a @ b)"
  shows "logs in_step P (each_folder env f l)"
  using block
proof (induction l)
  case Nil
  have "P []" by (rule sel) (simp add: only_selects_def)
  then show ?case by (intro logsI) (simp add: st_ok_def)
next
  case (Cons x l)
  obtain folder uids where x: "x = (folder, uids)" by (cases x)
  show ?case
  proof (rule logsI)
    fix s s' r
    assume s: "in_step s" and run: "each_folder env f (x # l) s = (s', r)"
    obtain s1 r1 where sel1: "remote_select env folder s = (s1, r1)" by fastforce
    from remote_select_state [OF s sel1] obtain new1 where
      s1: "in_step s1" "rm_db s1 = rm_db s" "rm_log s1 = rm_log s @ new1" "only_selects new1"
      and at: "r1 = Inr () \<Longrightarrow> at_folder folder s1"
      unfolding only_selects_def at_folder_def by metis
    show "in_step s' \<and> rm_db s' = rm_db s \<and> (\<exists>new. rm_log s' = rm_log s @ new \<and> P new)"
    proof (cases r1)
      case (Inl e)
      with run sel1 x have "s' = s1" by simp
      with s1 sel show ?thesis by blast
    next
      case (Inr u)
      obtain s2 r2 where b: "f uids s1 = (s2, r2)" by fastforce
      from Cons.prems x have bl: "block P folder (f uids)" by simp
      have "at_folder folder s1" using at Inr by simp
      from blockD [OF bl this b] obtain new2 where
        s2: "at_folder folder s2" "rm_db s2 = rm_db s1" "rm_log s2 = rm_log s1 @ new2" "P new2" .
      show ?thesis
      proof (cases r2)
        case (Inl e)
        with run sel1 Inr b x have "s' = s2" by simp
        moreover have "P (new1 @ new2)" using sel [OF s1(4)] s2(4) by (rule app)
        moreover have "rm_log s2 = rm_log s @ (new1 @ new2)" using s1 s2 by simp
        ultimately show ?thesis using s1 s2 unfolding at_folder_def by auto
      next
        case r2: (Inr v)
        with run sel1 Inr b x have rest: "each_folder env f l s2 = (s', r)" by simp
        have "logs in_step P (each_folder env f l)" using Cons by simp
        moreover have "in_step s2" using s2(1) by (simp add: at_folder_def)
        ultimately obtain new3 where s3: "in_step s'" "rm_db s' = rm_db s2" "rm_log s' = rm_log s2 @ new3" "P new3"
          using rest by (rule logsD)
        have "P (new1 @ (new2 @ new3))" using sel [OF s1(4)] s2(4) s3(4) by (intro app)
        moreover have "rm_log s' = rm_log s @ (new1 @ (new2 @ new3))" using s1 s2 s3 by simp
        ultimately show ?thesis using s1 s2 s3 by metis
      qed
    qed
  qed
qed

lemma send_block:
  assumes "\<And>sel ok. (ok \<Longrightarrow> needs_folder cmd \<Longrightarrow> sel = Some folder) \<Longrightarrow> P [(sel, cmd, ok)]"
  shows "block P folder (remote_send env cmd)"
  unfolding block_def
proof (intro allI impI)
  fix s s' and r :: "unit res"
  assume at: "at_folder folder s" and run: "remote_send env cmd s = (s', r)"
  note st = remote_send_state [OF run]
  have "P [(rm_selected s, cmd, r = Inr ())]" using at st by (intro assms) (auto simp: at_folder_def)
  with at st show "at_folder folder s' \<and> rm_db s' = rm_db s \<and> (\<exists>new. rm_log s' = rm_log s @ new \<and> P new)"
    by (auto simp: at_folder_def)
qed

lemma bind_block:
  assumes f: "block P folder f" and g: "\<And>x. block Q folder (g x)"
    and early: "\<And>a. P a \<Longrightarrow> R a" and both: "\<And>a b. P a \<Longrightarrow> Q b \<Longrightarrow> R (a @ b)"
  shows "block R folder (st_bind f g)"
  unfolding block_def
proof (intro allI impI)
  fix s s' and r :: "unit res"
  assume at: "at_folder folder s" and run: "st_bind f g s = (s', r)"
  from run show "at_folder folder s' \<and> rm_db s' = rm_db s \<and> (\<exists>new. rm_log s' = rm_log s @ new \<and> R new)"
  proof (cases rule: st_bind_cases)
    case (raise e)
    from blockD [OF f at raise(1)] show ?thesis using early by metis
  next
    case (step u x)
    from blockD [OF f at step(1)] obtain new1 where
      1: "at_folder folder u" "rm_db u = rm_db s" "rm_log u = rm_log s @ new1" "P new1" .
    from blockD [OF g 1(1) step(2)] obtain new2 where
      2: "at_folder folder s'" "rm_db s' = rm_db u" "rm_log s' = rm_log u @ new2" "Q new2" .
    have "R (new1 @ new2)" using 1(4) 2(4) by (rule both)
    moreover have "rm_log s' = rm_log s @ (new1 @ new2)" using 1 2 by simp
    ultimately show ?thesis using 1 2 by metis
  qed
qed

lemma ok_block: "P [] \<Longrightarrow> block P folder (st_ok x)"
  by (simp add: block_def st_ok_def)

section \<open>Own UIDs\<close>

fun cmd_uids :: "remote_cmd \<Rightarrow> nat list option" where
  "cmd_uids (Imap (CmdRemoveFlags us fl)) = Some us"
| "cmd_uids (Imap (CmdRemoveLabels us ls)) = Some us"
| "cmd_uids (Imap (CmdCopy us d)) = Some us"
| "cmd_uids (Imap (CmdDelete us)) = Some us"
| "cmd_uids (CmdAddFlags us fl) = Some us"
| "cmd_uids (CmdAddLabels us ls) = Some us"
| "cmd_uids c = None"

lemma cmd_uids_needs: "cmd_uids c = Some us \<Longrightarrow> needs_folder c"
  by (cases c rule: cmd_uids.cases) simp_all

text \<open>Every command on messages that was carried out is on UIDs that the folder it was sent in has of the message.\<close>

definition on_own :: "(string \<Rightarrow> nat list \<Rightarrow> bool) \<Rightarrow> log_entry list \<Rightarrow> bool" where
  "on_own own new \<longleftrightarrow> (\<forall>(sel, cmd, ok)\<in>set new. ok \<longrightarrow> (\<forall>us. cmd_uids cmd = Some us \<longrightarrow> (\<exists>f. sel = Some f \<and> own f us)))"

lemma on_own_simps [simp]:
  "on_own own []" "on_own own (a @ b) = (on_own own a \<and> on_own own b)"
  by (simp_all add: on_own_def ball_Un)

lemma only_selects_on_own: "only_selects a \<Longrightarrow> on_own own a"
  by (force simp: only_selects_def on_own_def)

lemma send_on_own:
  assumes "\<And>us. cmd_uids cmd = Some us \<Longrightarrow> own folder us"
  shows "block (on_own own) folder (remote_send env cmd)"
  by (rule send_block) (use assms in \<open>auto simp: on_own_def dest: cmd_uids_needs\<close>)

lemma bind_on_own: "block (on_own own) folder f \<Longrightarrow> (\<And>x. block (on_own own) folder (g x)) \<Longrightarrow> block (on_own own) folder (st_bind f g)"
  using bind_block [of "on_own own" folder f "on_own own" g "on_own own"] by simp

lemma each_folder_on_own:
  assumes "\<And>folder uids. (folder, uids) \<in> set l \<Longrightarrow> block (on_own own) folder (f uids)"
  shows "logs in_step (on_own own) (each_folder env f l)"
  using assms by (rule each_folder_logs) (simp_all add: only_selects_on_own)

lemma ok_on_own: "block (on_own own) folder (st_ok x)"
  by (rule ok_block) simp

text \<open>The actions on flags, folders and labels of messages.\<close>

lemma set_flag_logs:
  assumes items: "\<And>l. set (re_items env l) = set l" and "in_step s" "set_flag env mid flag add s = (s', r)"
  obtains new where "in_step s'" "rm_log s' = rm_log s @ new"
    "on_own (\<lambda>f us. (f, us) \<in> set (uids_by_folder (rm_db s) mid)) new"
proof -
  have "logs in_step (on_own (\<lambda>f us. (f, us) \<in> set (uids_by_folder (rm_db s) mid)))
      (each_folder env (\<lambda>uids. remote_send env (if add then CmdAddFlags uids [flag] else Imap (CmdRemoveFlags uids [flag])))
        (re_items env (uids_by_folder (rm_db s) mid)))"
    by (rule each_folder_on_own, rule send_on_own) (auto simp: items split: if_split_asm)
  from logsD [OF this assms(2) assms(3) [unfolded set_flag_def]] that show thesis by metis
qed

lemma move_on_own:
  assumes items: "\<And>l. set (re_items env l) = set l" and "in_step s" "remote_move env mid destination s = (s', r)"
  obtains new where "in_step s'" "rm_log s' = rm_log s @ new"
    "on_own (\<lambda>f us. (f, us) \<in> set (uids_by_folder (rm_db s) mid)) new"
proof -
  have "logs in_step (on_own (\<lambda>f us. (f, us) \<in> set (uids_by_folder (rm_db s) mid)))
      (each_folder env (move_uids env destination) (re_items env (uids_by_folder (rm_db s) mid)))"
    by (rule each_folder_on_own) (auto simp: items move_uids_def delete_uids_def intro!: bind_on_own send_on_own)
  from logsD [OF this assms(2) assms(3) [unfolded remote_move_def]] that show thesis by metis
qed

lemma labels_on_own:
  assumes items: "\<And>l. set (re_items env l) = set l" and "in_step s" "remote_change_labels env mids removed added s = (s', r)"
  obtains new where "in_step s'" "rm_log s' = rm_log s @ new"
    "on_own (\<lambda>f us. (f, us) \<in> set (merged_uids env (rm_db s) mids)) new"
proof -
  have "logs in_step (on_own (\<lambda>f us. (f, us) \<in> set (merged_uids env (rm_db s) mids)))
      (each_folder env (change_uid_labels env removed added) (re_items env (merged_uids env (rm_db s) mids)))"
    by (rule each_folder_on_own) (auto simp: items change_uid_labels_def intro!: bind_on_own send_on_own ok_on_own)
  from logsD [OF this assms(2) assms(3) [unfolded remote_change_labels_def]] that show thesis by metis
qed

section \<open>Copies before deletions\<close>

text \<open>A deletion is on UIDs the folder has of the message, right after these were copied from the same folder.\<close>

fun copied_first :: "(string \<Rightarrow> nat list \<Rightarrow> bool) \<Rightarrow> string \<Rightarrow> log_entry option \<Rightarrow> log_entry list \<Rightarrow> bool" where
  "copied_first own dest prev [] = True"
| "copied_first own dest prev ((sel, cmd, ok) # es) =
     ((case cmd of
         Imap (CmdDelete us) \<Rightarrow> (\<exists>f. sel = Some f \<and> own f us \<and> prev = Some (Some f, Imap (CmdCopy us dest), True))
       | Imap CmdExpunge \<Rightarrow> (\<exists>f us. sel = Some f \<and> own f us \<and> prev = Some (Some f, Imap (CmdDelete us), True))
       | _ \<Rightarrow> True) \<and> copied_first own dest (Some (sel, cmd, ok)) es)"

lemma copied_first_append:
  "copied_first own dest prev a \<Longrightarrow> (\<And>p. copied_first own dest p b) \<Longrightarrow> copied_first own dest prev (a @ b)"
  by (induction own dest prev a rule: copied_first.induct) simp_all

lemma copied_first_selects: "only_selects a \<Longrightarrow> copied_first own dest prev a"
  by (induction own dest prev a rule: copied_first.induct) (auto simp: only_selects_def)

lemma move_block:
  assumes own: "own folder uids"
  shows "block (\<lambda>new. \<forall>prev. copied_first own dest prev new) folder (move_uids env dest uids)"
  unfolding block_def
proof (intro allI impI)
  fix s s' and r :: "unit res"
  assume at: "at_folder folder s" and run: "move_uids env dest uids s = (s', r)"
  let ?P = "\<lambda>new. \<forall>prev. copied_first own dest prev new"
  obtain s1 r1 where copy: "remote_send env (Imap (CmdCopy uids dest)) s = (s1, r1)" by fastforce
  note c = remote_send_state [OF copy]
  show "at_folder folder s' \<and> rm_db s' = rm_db s \<and> (\<exists>new. rm_log s' = rm_log s @ new \<and> ?P new)"
  proof (cases r1)
    case (Inl e)
    with run copy have "s' = s1" by (simp add: move_uids_def)
    with c at show ?thesis by (simp add: at_folder_def)
  next
    case (Inr u)
    with c at have sel: "rm_selected s = Some folder" by (auto simp: at_folder_def)
    obtain s2 r2 where del: "remote_send env (Imap (CmdDelete uids)) s1 = (s2, r2)" by fastforce
    note d = remote_send_state [OF del]
    show ?thesis
    proof (cases r2)
      case Inl2: (Inl e)
      with run copy del Inr have "s' = s2" by (simp add: move_uids_def delete_uids_def)
      with c d at sel own Inr show ?thesis by (simp add: at_folder_def)
    next
      case Inr2: (Inr v)
      with run copy del Inr have ex: "remote_send env (Imap CmdExpunge) s2 = (s', r)" by (simp add: move_uids_def delete_uids_def)
      note x = remote_send_state [OF ex]
      from x c d at sel own Inr Inr2 show ?thesis by (simp add: at_folder_def)
    qed
  qed
qed

lemma move_copied_first:
  assumes items: "\<And>l. set (re_items env l) = set l" and "in_step s" "remote_move env mid destination s = (s', r)"
  obtains new where "rm_log s' = rm_log s @ new"
    "copied_first (\<lambda>f us. (f, us) \<in> set (uids_by_folder (rm_db s) mid)) destination None new"
proof -
  let ?own = "\<lambda>f us. (f, us) \<in> set (uids_by_folder (rm_db s) mid)"
  have "logs in_step (\<lambda>new. \<forall>prev. copied_first ?own destination prev new)
      (each_folder env (move_uids env destination) (re_items env (uids_by_folder (rm_db s) mid)))"
    by (rule each_folder_logs) (auto simp: items intro: move_block copied_first_selects copied_first_append)
  from logsD [OF this assms(2) assms(3) [unfolded remote_move_def]] that show thesis by metis
qed

section \<open>Drafts\<close>

definition extends_log :: "remote \<Rightarrow> remote \<Rightarrow> bool" where
  "extends_log s s' \<longleftrightarrow> (\<exists>new. rm_log s' = rm_log s @ new)"

lemma extends_refl [simp]: "extends_log s s"
  by (simp add: extends_log_def)

lemma extends_trans: "extends_log s t \<Longrightarrow> extends_log t u \<Longrightarrow> extends_log s u"
  unfolding extends_log_def by (metis append_assoc)

lemma extends_same: "rm_log t = rm_log s \<Longrightarrow> extends_log s t"
  by (simp add: extends_log_def)

lemma extends_send: "remote_send env cmd s = (s', r) \<Longrightarrow> extends_log s s'"
  by (drule remote_send_state) (simp add: extends_log_def)

lemma extends_conn_select: "conn_select env f s = (s', r) \<Longrightarrow> extends_log s s'"
proof -
  obtain t e where send: "remote_send env (Imap (CmdSelect f)) s = (t, e)" by fastforce
  from extends_send [OF send] send show "conn_select env f s = (s', r) \<Longrightarrow> extends_log s s'"
    by (cases e) (auto simp: conn_select_def extends_log_def)
qed

definition extending :: "'a remote_st \<Rightarrow> bool" where
  "extending f \<longleftrightarrow> (\<forall>s. extends_log s (fst (f s)))"

lemma extendingD: "extending f \<Longrightarrow> f s = (s', r) \<Longrightarrow> extends_log s s'"
  unfolding extending_def by (drule spec [of _ s]) simp

lemma extending_bind: "extending f \<Longrightarrow> (\<And>x. extending (g x)) \<Longrightarrow> extending (st_bind f g)"
proof -
  assume f: "extending f" and g: "\<And>x. extending (g x)"
  have "extends_log s s'" if "st_bind f g s = (s', r)" for s s' r
    using that
  proof (cases rule: st_bind_cases)
    case (raise e)
    from extendingD [OF f raise(1)] show ?thesis .
  next
    case (step u x)
    from extendingD [OF f step(1)] extendingD [OF g step(2)] show ?thesis by (rule extends_trans)
  qed
  then show ?thesis unfolding extending_def by (metis prod.collapse)
qed

lemma extending_result: "extending (st_ok x)" "extending (st_res r)" "extending (st_raise e)"
  by (simp_all add: extending_def st_ok_def st_res_def st_raise_def)

lemma extending_send: "extending (remote_send env cmd)"
  unfolding extending_def using extends_send by (metis prod.collapse)

lemma extending_conn_select: "extending (conn_select env f)"
  unfolding extending_def using extends_conn_select by (metis prod.collapse)

lemma extending_commands: "extending (run_commands env cs)"
proof (induction env cs rule: run_commands.induct)
  case (1 env)
  show ?case unfolding run_commands.simps by (rule extending_result)
qed (simp_all add: extending_bind extending_conn_select extending_send)

lemma extending_names: "extending (remote_names_of env)"
  unfolding extending_def remote_names_of_def by (simp add: through_client_def extends_same split: prod.split)

lemma extending_deletion: "extending (run_deletion env p)"
  unfolding run_deletion_def case_prod_beta by (intro extending_bind extending_commands extending_result)

lemma extending_delete_draft: "extending (cr_delete_draft env header)"
  unfolding cr_delete_draft_def
proof (rule extending_bind [OF extending_names])
  show "extending (\<lambda>s. let finder = (\<lambda>folder. re_find env (rm_sent s) folder header)
       in run_deletion env
            (if cr_gmail (rm_client s) then gmail_delete_draft names finder (re_msgids env) (re_uids_of env)
             else delete_from_role names ''drafts'' finder False) s)" for names
    using extending_deletion by (simp add: extending_def Let_def)
qed

lemma remote_select_sent: "remote_select env folder s = (s', r) \<Longrightarrow> rm_sent s' \<le> Suc (rm_sent s)"
proof -
  assume run: "remote_select env folder s = (s', r)"
  obtain t e where send: "remote_send env (Imap (CmdSelect folder)) s = (t, e)" by fastforce
  from remote_send_state [OF send] run send show ?thesis
    by (cases e) (auto simp: remote_select_def conn_select_def Let_def split: if_split_asm prod.split_asm)
qed

text \<open>Saving a draft appends it once or leaves the log as it is; it succeeds only after the append was carried out.\<close>

lemma save_draft_log:
  assumes "cr_save_draft env mail s = (s', r)"
  shows "rm_log s' = rm_log s \<and> r \<noteq> Inr () \<or>
    (\<exists>sel folder flags. rm_log s' = rm_log s @ [(sel, CmdAppend folder mail flags, r = Inr ())])"
proof -
  obtain s1 q where role: "remote_role env ''drafts'' s = (s1, q)" by fastforce
  then have "s1 = s\<lparr>rm_client := fst (folders_with_role ''drafts'' (re_listing env) (rm_client s))\<rparr>"
    unfolding remote_role_def by (rule through_client_state)
  then have log: "rm_log s1 = rm_log s" by simp
  show ?thesis
  proof (cases q)
    case (Inl e)
    with assms role log show ?thesis by (auto simp: cr_save_draft_def append_as_def)
  next
    case (Inr names)
    with assms role log show ?thesis
      by (auto simp: cr_save_draft_def append_as_def split: option.split_asm if_split_asm dest!: remote_send_state)
  qed
qed

text \<open>Appended first: what follows the append, and nothing before it.\<close>

lemma replace_draft_log:
  assumes fresh: "\<forall>f. re_find env (rm_sent s) f header = []"
    and run: "replace_draft env header mail old_header s = (s', r)"
  obtains "rm_log s' = rm_log s"
  | sel folder flags ok post where "rm_log s' = rm_log s @ (sel, CmdAppend folder mail flags, ok) # post" "ok \<or> post = []"
proof (cases "rm_selected s")
  case None
  with run have "s' = s" by (simp add: replace_draft_def find_selected_def)
  with that(1) show thesis by simp
next
  case (Some f0)
  obtain s1 q where save: "cr_save_draft env mail s = (s1, q)" by fastforce
  from run Some fresh have run': "st_bind (cr_save_draft env mail) (\<lambda>_.
      if truthy old_header then st_bind (cr_delete_draft env old_header) (\<lambda>_. st_ok ()) else st_ok ()) s = (s', r)"
    by (simp add: replace_draft_def find_selected_def)
  show thesis
  proof (cases q)
    case (Inl e)
    with run' save have "s' = s1" by simp
    with save_draft_log [OF save] that show thesis by auto
  next
    case (Inr u)
    with save_draft_log [OF save] obtain sel folder flags where
      1: "rm_log s1 = rm_log s @ [(sel, CmdAppend folder mail flags, True)]" by auto
    from run' save Inr have rest:
      "(if truthy old_header then st_bind (cr_delete_draft env old_header) (\<lambda>_. st_ok ()) else st_ok ()) s1 = (s', r)" by simp
    have "extends_log s1 s'"
    proof (cases "truthy old_header")
      case True
      with rest have "st_bind (cr_delete_draft env old_header) (\<lambda>_. st_ok ()) s1 = (s', r)" by simp
      moreover have "extending (st_bind (cr_delete_draft env old_header) (\<lambda>_. st_ok () :: unit remote_st))"
        by (intro extending_bind extending_delete_draft extending_result)
      ultimately show ?thesis by (metis extendingD)
    next
      case False
      with rest show ?thesis by (simp add: st_ok_def)
    qed
    then obtain post where "rm_log s' = rm_log s1 @ post" by (auto simp: extends_log_def)
    with 1 have "rm_log s' = rm_log s @ (sel, CmdAppend folder mail flags, True) # post" by simp
    then show thesis by (rule that(2)) simp
  qed
qed

lemma update_draft_log:
  assumes "in_step s" and msg: "t_get m_id (messages (rm_db s)) mid = Some m"
    and fresh: "\<forall>n f. n \<le> Suc (rm_sent s) \<longrightarrow> re_find env n f (m_message_id_header m) = []"
    and run: "remote_update_draft env mid old_header s = (s', r)"
  obtains sels where "rm_log s' = rm_log s @ sels" "only_selects sels"
  | sels sel folder mail flags ok post where
      "rm_log s' = rm_log s @ sels @ (sel, CmdAppend folder mail flags, ok) # post" "only_selects sels"
      "ok \<or> post = []" "remote_mail env m = Ok mail"
proof (cases "remote_mail env m")
  case (Inl e)
  with run msg have "s' = s" by (simp add: remote_update_draft_def message_mail_def)
  with that(1) [of "[]"] show thesis by (simp add: only_selects_def)
next
  case (Inr mail)
  let ?f = "replace_draft env (m_message_id_header m) mail old_header"
  from run msg Inr have run1: "in_role env ''drafts'' ?f s = (s', r)"
    by (simp add: remote_update_draft_def message_mail_def)
  obtain s1 q where names: "remote_names_of env s = (s1, q)" by fastforce
  from names have s1: "s1 = s\<lparr>rm_client := fst (folder_names False (re_listing env) (rm_client s))\<rparr>"
    unfolding remote_names_of_def by (rule through_client_state)
  then have step1: "in_step s1" "rm_log s1 = rm_log s" "rm_sent s1 = rm_sent s"
    using assms(1) by (simp_all add: in_step_def folder_names_selected)
  consider (stop) "s' = s1" | (go) folder where "st_bind (remote_select env folder) (\<lambda>_. ?f) s1 = (s', r)"
  proof (cases q)
    case Inl2: (Inl e)
    with run1 names that(1) show thesis by (simp add: in_role_def)
  next
    case Inr2: (Inr ns)
    with run1 names that show thesis
      by (auto simp: in_role_def first_folder_def st_ok_def st_bind_def split: option.split_asm list.split_asm)
  qed
  then show thesis
  proof cases
    case stop
    with step1 that(1) [of "[]"] show thesis by (simp add: only_selects_def)
  next
    case (go folder)
    obtain s2 q2 where sel: "remote_select env folder s1 = (s2, q2)" by fastforce
    from remote_select_state [OF step1(1) sel] obtain sels where
      s2: "rm_log s2 = rm_log s @ sels" "only_selects sels"
      unfolding only_selects_def using step1(2) by metis
    show thesis
    proof (cases q2)
      case Inl2: (Inl e)
      with go sel have "s' = s2" by simp
      with s2 that(1) show thesis by blast
    next
      case Inr2: (Inr u)
      with go sel have rest: "?f s2 = (s', r)" by simp
      have "\<forall>f. re_find env (rm_sent s2) f (m_message_id_header m) = []"
        using fresh remote_select_sent [OF sel] step1(3) by simp
      from this rest show thesis
      proof (cases rule: replace_draft_log)
        case 1
        with s2 that(1) show thesis by simp
      next
        case (2 sel' folder' flags ok post)
        with s2 Inr that(2) [of sels sel' folder' mail flags ok post] show thesis by simp
      qed
    qed
  qed
qed

section \<open>Actions that keep the selection in step\<close>

text \<open>The deletions select on the connection itself.\<close>

fun deletes_by_header :: "remote_action \<Rightarrow> bool" where
  "deletes_by_header (UpdateDraft mid version old_header) = True"
| "deletes_by_header (DeleteDraft nylas_uid header) = True"
| "deletes_by_header (DeleteSent header) = True"
| "deletes_by_header a = False"

lemma logs_keeps: "logs I P f \<Longrightarrow> st_keeps I f"
  unfolding st_keeps_def by (metis logsD prod.collapse)

lemma send_keeps [inv_intros]: "st_keeps in_step (remote_send env cmd)"
proof (rule st_keepsI)
  fix s assume "in_step s"
  moreover obtain s' r where run: "remote_send env cmd s = (s', r)" by fastforce
  ultimately show "in_step (fst (remote_send env cmd s))" using remote_send_state [OF run] by simp
qed

lemma select_keeps [inv_intros]: "st_keeps in_step (remote_select env folder)"
proof (rule st_keepsI)
  fix s assume s: "in_step s"
  obtain s' r where run: "remote_select env folder s = (s', r)" by fastforce
  from remote_select_state [OF s run] run show "in_step (fst (remote_select env folder s))" by simp
qed

lemma names_keeps [inv_intros]: "st_keeps in_step (remote_names_of env)" "st_keeps in_step (remote_role env role)"
  by (rule logs_keeps, rule names_silent) (rule logs_keeps, rule role_silent)

lemma first_folder_keeps [inv_intros]: "st_keeps in_step (first_folder ns)"
  unfolding first_folder_def by (cases ns) (simp_all add: st_keeps_pure del: st_ok_def)

lemma option_keeps [inv_intros]:
  "(x = None \<Longrightarrow> st_keeps P f) \<Longrightarrow> (\<And>y. x = Some y \<Longrightarrow> st_keeps P (g y)) \<Longrightarrow> st_keeps P (case x of None \<Rightarrow> f | Some y \<Rightarrow> g y)"
  by (cases x) simp_all

lemma each_folder_keeps:
  assumes "\<And>uids. st_keeps in_step (f uids)"
  shows "st_keeps in_step (each_folder env f l)"
proof (induction l)
  case (Cons x l)
  obtain folder uids where x: "x = (folder, uids)" by (cases x)
  show ?case unfolding x each_folder.simps by (intro inv_intros assms Cons.IH)
qed (unfold each_folder.simps, intro inv_intros)

lemma in_role_keeps:
  assumes "st_keeps in_step f"
  shows "st_keeps in_step (in_role env role f)"
  unfolding in_role_def by (intro inv_intros assms)

lemma append_keeps: "st_keeps in_step (append_as env role flags msg)"
  unfolding append_as_def
proof (intro inv_intros)
  show "st_keeps in_step (\<lambda>s. case cr_selected (rm_client s) of
         Some (folder, _) \<Rightarrow> if folder \<in> set names then remote_send env (CmdAppend folder msg flags) s else (s, Raise AssertionError)
       | None \<Rightarrow> (s, Raise AssertionError))" for names
    by (rule st_keepsI) (auto simp: st_keeps_fst [OF send_keeps] split: option.split)
qed

lemma message_keeps: "st_keeps in_step (message_mail env mid)"
  by (rule st_keepsI) (simp add: message_mail_def)

lemma with_category_keeps:
  assumes "\<And>c. st_keeps in_step (f c)"
  shows "st_keeps in_step (with_category cid f)"
  by (rule st_keepsI) (auto simp: with_category_def st_keeps_fst [OF assms] split: option.split)

lemma delete_folder_keeps: "st_keeps in_step (delete_folder_and_row env cid)"
  unfolding delete_folder_and_row_def
proof (rule with_category_keeps, rule st_keepsI)
  fix c s assume s: "in_step s"
  obtain s1 r where run: "remote_send env (CmdDeleteFolder (cat_display_name c)) s = (s1, r)" by fastforce
  with s have "in_step s1" by (metis send_keeps st_keepsD)
  then show "in_step (fst (case remote_send env (CmdDeleteFolder (cat_display_name c)) s of
         (s1, Inl e) \<Rightarrow>
           if is_imap4 e then (s1\<lparr>rm_db := delete_category (rm_db s1) cid\<rparr>, Ok ()) else (s1, Raise e)
       | (s1, Inr _) \<Rightarrow> (s1\<lparr>rm_db := delete_category (rm_db s1) cid\<rparr>, Ok ())))"
    using run by (simp split: sum.split)
qed

lemma update_folder_keeps: "st_keeps in_step (remote_update_folder env aid cid old_name new_name)"
proof (rule st_keepsI)
  fix s assume s: "in_step s"
  let ?g = "\<lambda>path s1. case path of
                  None \<Rightarrow> (s1, Raise TypeError)
                | Some p \<Rightarrow>
                    if p = old_name then (s1, Ok ())
                    else (case rename_rows cid old_name p (rm_db s1) of
                            Inl e \<Rightarrow> (s1, Raise e)
                          | Inr db \<Rightarrow> (s1\<lparr>rm_db := db\<rparr>, Ok ()))"
  have g: "st_keeps in_step (?g path)" for path
    by (rule st_keepsI) (simp split: option.split sum.split)
  have "st_keeps in_step (st_bind (remote_send env (CmdRenameFolder old_name path)) (\<lambda>_. ?g path))" for path
    by (intro inv_intros g)
  with s show "in_step (fst (remote_update_folder env aid cid old_name new_name s))"
    by (auto simp: remote_update_folder_def Let_def st_keeps_def split: option.split)
qed

lemma message_actions_keep:
  "st_keeps in_step (set_flag env mid flag add)" "st_keeps in_step (remote_move env mid dest)"
  "st_keeps in_step (remote_change_labels env mids removed added)"
proof -
  have flag: "st_keeps in_step (each_folder env
      (\<lambda>uids. remote_send env (if add then CmdAddFlags uids [flag] else Imap (CmdRemoveFlags uids [flag]))) l)" for l
    by (intro each_folder_keeps inv_intros)
  then show "st_keeps in_step (set_flag env mid flag add)" by (simp add: st_keeps_def set_flag_def)
  have move: "st_keeps in_step (each_folder env (move_uids env dest) l)" for l
    unfolding move_uids_def delete_uids_def by (intro each_folder_keeps inv_intros)
  then show "st_keeps in_step (remote_move env mid dest)" by (simp add: st_keeps_def remote_move_def)
  have "st_keeps in_step (each_folder env (change_uid_labels env removed added) l)" for l
    unfolding change_uid_labels_def by (intro each_folder_keeps inv_intros)
  then show "st_keeps in_step (remote_change_labels env mids removed added)" by (simp add: st_keeps_def remote_change_labels_def)
qed

lemma run_action_keeps:
  assumes "\<not> deletes_by_header a"
  shows "st_keeps in_step (run_action env aid a)"
proof (cases a)
  case (SaveDraft mid version)
  have "st_keeps in_step (remote_save_draft env mid)"
    unfolding remote_save_draft_def cr_save_draft_def by (intro inv_intros message_keeps in_role_keeps append_keeps)
  with SaveDraft show ?thesis by (simp add: st_keeps_def save_draft_def)
next
  case (SaveSent mid)
  have "st_keeps in_step (st_bind (st_res (remote_mail env m)) (\<lambda>mail. in_role env ''sent'' (cr_create_message env mail)))" for m
    unfolding cr_create_message_def by (intro inv_intros in_role_keeps append_keeps)
  with SaveSent show ?thesis by (simp add: st_keeps_def remote_save_sent_def split: option.split)
next
  case (CreateFolder cid)
  then show ?thesis by (simp add: remote_create_folder_def with_category_keeps send_keeps)
next
  case (CreateLabel cid)
  then show ?thesis by (simp add: remote_create_label_def with_category_keeps send_keeps)
next
  case (UpdateLabel cid old_name new_name)
  then show ?thesis by (simp add: remote_update_label_def send_keeps)
qed (use assms in \<open>simp_all add: set_remote_unread_def set_remote_starred_def message_actions_keep update_folder_keeps
    remote_delete_folder_def remote_delete_label_def delete_folder_keeps\<close>)

lemma run_attempts_in_step:
  assumes "\<not> deletes_by_header a" and "in_step s"
  shows "in_step (run_attempts env aid n a s)"
  using assms(2)
proof (induction n arbitrary: s)
  case (Suc n)
  obtain s1 r where run: "run_action env aid a s = (s1, r)" by fastforce
  with Suc.prems have "in_step s1" by (metis run_action_keeps [OF assms(1)] st_keepsD)
  with run Suc.IH show ?case by (simp split: sum.split)
qed simp

end
