(* ===== verification/Props_Remote.thy ===== *)
theory Props_Remote
  imports Remote_Proofs Samples
begin

text \<open>
  Properties of the actions on the mail server: which messages they touch, what they copy and save before
  they delete, and what happens when the client and the connection disagree on the selected folder.
\<close>

definition quiet_env :: remote_env where
  "quiet_env = \<lparr>re_fault = (\<lambda>n. None), re_info = (\<lambda>f. \<lparr>si_uidvalidity = 1, si_uidnext = None\<rparr>), re_listing = Ok (map (\<lambda>n. ([], ''/'', n)) [''INBOX'', ''Drafts'', ''Trash'']),
     re_find = (\<lambda>n f h. []), re_msgids = (\<lambda>f us. []), re_uids_of = (\<lambda>i. []), re_separator = CHR ''/'', re_prefix = [],
     re_body = (\<lambda>i. []), re_mime = (\<lambda>p. ''mail''), re_items = (\<lambda>l. l), re_utf7 = (\<lambda>l. l)\<rparr>"

definition mail_db :: store where
  "mail_db = empty_store\<lparr>folders := [sample_folder], imapuids := [sample_uid 1 5 7, sample_uid 2 5 8],
     messages := [(sample_message 5)\<lparr>m_is_draft := True, m_from := [('''', ''a@b'')], m_message_id_header := Some ''new''\<rparr>]\<rparr>"

definition fresh_remote :: remote where
  "fresh_remote = \<lparr>rm_db = mail_db,
     rm_client = \<lparr>cr_account_id = 1, cr_gmail = False, cr_folder_map = Map.empty, cr_selected = None,
       cr_folder_names = Some [(Some ''drafts'', [''Drafts'']), (Some ''trash'', [''Trash''])]\<rparr>,
     rm_selected = None, rm_sent = 0, rm_log = []\<rparr>"

text \<open>The same with the folder of the sample as the drafts, selected.\<close>

definition drafts_remote :: remote where
  "drafts_remote = fresh_remote\<lparr>rm_client := (rm_client fresh_remote)\<lparr>cr_selected := Some (''INBOX'', \<lparr>si_uidvalidity = 1, si_uidnext = None\<rparr>),
     cr_folder_names := Some [(Some ''drafts'', [''INBOX'']), (Some ''trash'', [''Trash''])]\<rparr>, rm_selected := Some ''INBOX''\<rparr>"

section \<open>The right messages\<close>

text \<open>
  As long as the tasks of a batch delete nothing by its header, the folder that the client believes to be
  selected is the one the connection has selected, or none is: whatever commands fail, and however
  often tasks are tried again.
\<close>

theorem selection_in_step:
  assumes "in_step s" and "\<forall>a\<in>set as. \<not> deletes_by_header a"
  shows "in_step (run_actions env aid attempts as s)"
  using assms
proof (induction as arbitrary: s)
  case (Cons a as)
  from Cons.prems have "in_step (run_attempts env aid attempts a s)" by (simp add: run_attempts_in_step)
  from Cons.IH [OF this] Cons.prems(2) show ?case by (simp add: run_actions_def)
qed (simp add: run_actions_def)

theorem selection_in_step_witness:
  "in_step (run_actions quiet_env 1 2 [MarkUnread 5 True, Move 5 ''Archive''] fresh_remote)"
  by (rule selection_in_step) (simp_all add: in_step_def fresh_remote_def)

fun message_of :: "remote_action \<Rightarrow> nat option" where
  "message_of (MarkUnread mid unread) = Some mid"
| "message_of (MarkStarred mid starred) = Some mid"
| "message_of (Move mid destination) = Some mid"
| "message_of a = None"

text \<open>
  C29: When the client and the connection agree on the folder, an action on a message touches only this
  message: every command on UIDs that the server carries out is sent in a folder the message is in,
  with the UIDs it has there.
\<close>

theorem actions_on_own_uids:
  assumes "\<And>l. set (re_items env l) = set l" and "in_step s" and "message_of a = Some mid"
    and "run_action env aid a s = (s', r)"
  shows "\<exists>new. rm_log s' = rm_log s @ new \<and>
     (\<forall>(sel, cmd, ok)\<in>set new. ok \<longrightarrow> (\<forall>us. cmd_uids cmd = Some us \<longrightarrow>
        (\<exists>f. sel = Some f \<and> (f, us) \<in> set (uids_by_folder (rm_db s) mid))))"
proof -
  obtain new where "rm_log s' = rm_log s @ new" "on_own (\<lambda>f us. (f, us) \<in> set (uids_by_folder (rm_db s) mid)) new"
  proof (cases a)
    case (MarkUnread m unread)
    with assms(3,4) have "set_flag env mid (bs ''Seen'') (\<not> unread) s = (s', r)" by (simp add: set_remote_unread_def)
    from set_flag_logs [OF assms(1,2) this] that show thesis by metis
  next
    case (MarkStarred m starred)
    with assms(3,4) have "set_flag env mid (bs ''Flagged'') starred s = (s', r)" by (simp add: set_remote_starred_def)
    from set_flag_logs [OF assms(1,2) this] that show thesis by metis
  next
    case (Move m destination)
    with assms(3,4) have "remote_move env mid destination s = (s', r)" by simp
    from move_on_own [OF assms(1,2) this] that show thesis by metis
  qed (use assms(3) in simp_all)
  then show ?thesis unfolding on_own_def by blast
qed

theorem actions_on_own_uids_witness:
  "\<exists>new. rm_log (fst (run_action quiet_env 1 (MarkUnread 5 True) fresh_remote)) = rm_log fresh_remote @ new \<and>
     (\<forall>(sel, cmd, ok)\<in>set new. ok \<longrightarrow> (\<forall>us. cmd_uids cmd = Some us \<longrightarrow>
        (\<exists>f. sel = Some f \<and> (f, us) \<in> set (uids_by_folder mail_db 5))))"
proof -
  obtain s' r where run: "run_action quiet_env 1 (MarkUnread 5 True) fresh_remote = (s', r)" by fastforce
  have items: "set (re_items quiet_env l) = set l" for l by (simp add: quiet_env_def)
  have step: "in_step fresh_remote" by (simp add: in_step_def fresh_remote_def)
  have mid: "message_of (MarkUnread 5 True) = Some 5" by simp
  have "rm_db fresh_remote = mail_db" "fst (run_action quiet_env 1 (MarkUnread 5 True) fresh_remote) = s'"
    using run by (simp_all add: fresh_remote_def)
  with actions_on_own_uids [OF items step mid run] show ?thesis by (simp only:)
qed

text \<open>
  C28: When the client and the connection agree on the selected folder, moving a message flags as deleted only its
  own UIDs in the folder they are in, each time directly after the server has copied just these UIDs from
  this folder to the destination, and expunges directly after that, wherever a command fails. What an expunge
  removes is up to the server: it takes the messages of the folder that others flagged as deleted as well.
\<close>

theorem move_copies_first:
  assumes "\<And>l. set (re_items env l) = set l" and "in_step s" and "remote_move env mid destination s = (s', r)"
  shows "\<exists>new. rm_log s' = rm_log s @ new \<and>
     copied_first (\<lambda>f us. (f, us) \<in> set (uids_by_folder (rm_db s) mid)) destination None new"
  using move_copied_first [OF assms] by metis

theorem move_copies_first_witness:
  "\<exists>new. rm_log (fst (remote_move quiet_env 5 ''Archive'' fresh_remote)) = rm_log fresh_remote @ new \<and>
     copied_first (\<lambda>f us. (f, us) \<in> set (uids_by_folder mail_db 5)) ''Archive'' None new \<and>
     (Some ''INBOX'', Imap (CmdDelete [7, 8]), True) \<in> set new"
proof -
  obtain s' r where run: "remote_move quiet_env 5 ''Archive'' fresh_remote = (s', r)" by fastforce
  have items: "set (re_items quiet_env l) = set l" for l by (simp add: quiet_env_def)
  have step: "in_step fresh_remote" by (simp add: in_step_def fresh_remote_def)
  have "rm_db fresh_remote = mail_db" "fst (remote_move quiet_env 5 ''Archive'' fresh_remote) = s'"
    using run by (simp_all add: fresh_remote_def)
  moreover have "rm_log fresh_remote = []" by (simp add: fresh_remote_def)
  moreover have "(Some ''INBOX'', Imap (CmdDelete [7, 8]), True) \<in> set (rm_log (fst (remote_move quiet_env 5 ''Archive'' fresh_remote)))"
    by code_simp
  ultimately show ?thesis using move_copies_first [OF items step run] by auto
qed

text \<open>
  A move that is tried again after the deletion failed copies the message again, although actions are to be idempotent.
\<close>

theorem retried_move_copies_twice:
  "let env = quiet_env\<lparr>re_fault := (\<lambda>n. if n = 2 then Some (Imap4Error ''BAD'') else None)\<rparr>;
       s = run_attempts env 1 2 (Move 5 ''Archive'') fresh_remote
   in filter (\<lambda>(sel, cmd, ok). ok \<and> cmd = Imap (CmdCopy [7, 8] ''Archive'')) (rm_log s) =
      replicate 2 (Some ''INBOX'', Imap (CmdCopy [7, 8] ''Archive''), True)"
  by code_simp

section \<open>Drafts\<close>

text \<open>
  Replacing a draft loses nothing: when the server does not have the new version yet, everything but selecting
  the folder comes after the new version was appended, and if the append fails nothing follows. So
  the old draft is only deleted once the new one is saved.
\<close>

theorem old_draft_deleted_last:
  assumes "in_step s" and "t_get m_id (messages (rm_db s)) mid = Some m"
    and "\<forall>n f. n \<le> Suc (rm_sent s) \<longrightarrow> re_find env n f (m_message_id_header m) = []"
    and "update_draft env mid version old_header s = (s', r)"
    and "(sel, Imap (CmdDelete us), ok) \<in> set (drop (length (rm_log s)) (rm_log s'))"
  shows "\<exists>pre place folder mail flags post. drop (length (rm_log s)) (rm_log s') = pre @ (place, CmdAppend folder mail flags, True) # post \<and>
     (sel, Imap (CmdDelete us), ok) \<in> set post \<and> remote_mail env m = Ok mail"
proof (cases "draft_current (rm_db s) mid version")
  case True
  with assms(4) have "remote_update_draft env mid old_header s = (s', r)" by (simp add: update_draft_def)
  from assms(1-3) this show ?thesis
  proof (cases rule: update_draft_log)
    case (1 sels)
    with assms(5) show ?thesis by (force simp: only_selects_def)
  next
    case (2 sels place folder mail flags done_ok post)
    have "(sel, Imap (CmdDelete us), ok) \<notin> set sels" using 2(2) by (force simp: only_selects_def)
    with assms(5) 2(1) have "(sel, Imap (CmdDelete us), ok) \<in> set post" by auto
    with 2 have "done_ok" by auto
    with 2 have "drop (length (rm_log s)) (rm_log s') = sels @ (place, CmdAppend folder mail flags, True) # post" by simp
    with \<open>(sel, Imap (CmdDelete us), ok) \<in> set post\<close> 2(4) show ?thesis by blast
  qed
next
  case False
  with assms(4,5) show ?thesis by (simp add: update_draft_def)
qed

definition old_env :: remote_env where
  "old_env = quiet_env\<lparr>re_find := (\<lambda>n f h. if h = Some ''old'' \<and> f = ''INBOX'' then [3] else [])\<rparr>"

theorem old_draft_deleted_last_witness:
  "\<exists>pre place folder mail flags post.
     rm_log (fst (update_draft old_env 5 (Some 0) (Some ''old'') drafts_remote)) = pre @ (place, CmdAppend folder mail flags, True) # post \<and>
     (Some ''INBOX'', Imap (CmdDelete [3]), True) \<in> set post"
proof -
  let ?run = "update_draft old_env 5 (Some 0) (Some ''old'') drafts_remote"
  obtain s' r where run: "?run = (s', r)" by fastforce
  have step: "in_step drafts_remote" by (simp add: in_step_def drafts_remote_def fresh_remote_def)
  obtain m where m: "t_get m_id (messages (rm_db drafts_remote)) 5 = Some m" "m_message_id_header m = Some ''new''"
    by (simp add: drafts_remote_def fresh_remote_def mail_db_def sample_defs t_get_def)
  have find: "\<forall>n f. n \<le> Suc (rm_sent drafts_remote) \<longrightarrow> re_find old_env n f (m_message_id_header m) = []"
    by (simp add: old_env_def m(2))
  have "(Some ''INBOX'', Imap (CmdDelete [3]), True) \<in> set (drop (length (rm_log drafts_remote)) (rm_log (fst ?run)))"
    by code_simp
  with run have "(Some ''INBOX'', Imap (CmdDelete [3]), True) \<in> set (drop (length (rm_log drafts_remote)) (rm_log s'))" by simp
  from old_draft_deleted_last [OF step m(1) find run this]
  obtain pre place folder mail flags post where
    "drop (length (rm_log drafts_remote)) (rm_log s') = pre @ (place, CmdAppend folder mail flags, True) # post"
    "(Some ''INBOX'', Imap (CmdDelete [3]), True) \<in> set post" by blast
  moreover have "rm_log drafts_remote = []" by (simp add: drafts_remote_def fresh_remote_def)
  moreover have "fst ?run = s'" using run by simp
  ultimately have "rm_log (fst ?run) = pre @ (place, CmdAppend folder mail flags, True) # post" by simp
  with \<open>(Some ''INBOX'', Imap (CmdDelete [3]), True) \<in> set post\<close> show ?thesis by blast
qed

section \<open>A folder selected behind the client's back\<close>

text \<open>
  C30: A deletion by header selects the folders on the connection, and the client goes on believing the
  folder from before to be selected. A move in the same batch, of a message in this folder, then copies
  the UIDs of the message out of the trash and deletes them there: other messages are lost.
\<close>

theorem stale_selection_moves_others:
  assumes "re_fault env = (\<lambda>n. None)"
    and "\<not> cr_gmail (rm_client s)" and "cr_folder_names (rm_client s) = Some names"
    and "map_of names (Some ''drafts'') = Some (d # ds)" and "map_of names (Some ''trash'') = Some (t # ts)"
    and "cr_selected (rm_client s) = Some (d, info)"
    and "module_uidvalidity_cb (rm_db s) (cr_account_id (rm_client s)) d info = Ok info"
    and "\<And>n. re_find env n d (Some header) = [u]" and "header \<noteq> []"
    and "re_items env (uids_by_folder (rm_db s) mid) = [(d, us)]"
  shows "\<exists>pre. rm_log (run_actions env aid (Suc n) [DeleteDraft None (Some header), Move mid destination] s) =
     pre @ [(Some t, Imap (CmdCopy us destination), True), (Some t, Imap (CmdDelete us), True), (Some t, Imap CmdExpunge, True)]"
proof -
  let ?s1 = "fst (run_action env aid (DeleteDraft None (Some header)) s)"
  have cached: "folder_names False (re_listing env) (rm_client s) = (rm_client s, Ok names)"
    using assms(3) by (simp add: folder_names_def)
  obtain cmds where cmds: "delete_from_role names ''drafts'' (\<lambda>folder. re_find env (rm_sent s) folder (Some header)) False =
      (CmdSelect d # CmdDelete [u] # CmdExpunge # CmdSelect t # cmds, Ok True)" and
    rest: "cmds = [] \<or> (\<exists>v. cmds = [CmdDelete [v], CmdExpunge])"
    using assms(4,5,8)
    by (cases "re_find env (rm_sent s) t (Some header)"; cases "tl (re_find env (rm_sent s) t (Some header))")
      (auto simp: delete_from_role_def delete_message_def)
  have s1: "run_action env aid (DeleteDraft None (Some header)) s = (?s1, Ok ()) \<and> rm_client ?s1 = rm_client s \<and>
      rm_selected ?s1 = Some t \<and> rm_db ?s1 = rm_db s"
    using rest assms(1,2,4,5,9) cached cmds
    by (auto simp: delete_draft_def remote_delete_draft_def if_role_def cr_delete_draft_def remote_names_of_def
        through_client_def run_deletion_def conn_select_def remote_send_def st_bind_def Let_def)
  let ?s2 = "fst (run_action env aid (Move mid destination) ?s1)"
  have "run_action env aid (Move mid destination) ?s1 = (?s2, Ok ()) \<and> rm_log ?s2 = rm_log ?s1 @
     [(Some t, Imap (CmdCopy us destination), True), (Some t, Imap (CmdDelete us), True), (Some t, Imap CmdExpunge, True)]"
    using s1 assms(1,6,7,10)
    by (simp add: remote_move_def remote_select_def select_folder_if_necessary_def move_uids_def delete_uids_def remote_send_def
        st_bind_def Let_def)
  with s1 show ?thesis by (cases "run_action env aid (Move mid destination) ?s1") (auto simp: run_actions_def split: prod.splits)
qed

theorem stale_selection_moves_others_witness:
  "\<exists>pre. rm_log (run_actions (quiet_env\<lparr>re_find := (\<lambda>n f h. if f = ''INBOX'' then [3] else [])\<rparr>) 1 1
        [DeleteDraft None (Some ''old''), Move 5 ''Archive''] drafts_remote) =
     pre @ [(Some ''Trash'', Imap (CmdCopy [7, 8] ''Archive''), True), (Some ''Trash'', Imap (CmdDelete [7, 8]), True),
            (Some ''Trash'', Imap CmdExpunge, True)]"
proof -
  have "module_uidvalidity_cb (rm_db drafts_remote) 1 ''INBOX'' \<lparr>si_uidvalidity = 1, si_uidnext = None\<rparr> = Ok \<lparr>si_uidvalidity = 1, si_uidnext = None\<rparr>"
    by (simp add: drafts_remote_def fresh_remote_def mail_db_def sample_defs module_uidvalidity_cb_def get_folder_info_def)
  moreover have "uids_by_folder (rm_db drafts_remote) 5 = [(''INBOX'', [7, 8])]"
    by (simp add: drafts_remote_def fresh_remote_def mail_db_def sample_defs uids_by_folder_def uid_rows_def t_get_def map_filter_simps)
  ultimately show ?thesis
    using stale_selection_moves_others [of "quiet_env\<lparr>re_find := (\<lambda>n f h. if f = ''INBOX'' then [3] else [])\<rparr>" drafts_remote _
      "''INBOX''" "[]" "''Trash''" "[]" _ "''old''" 3 5 "[7, 8]" 1 0 "''Archive''"]
    by (simp add: quiet_env_def drafts_remote_def fresh_remote_def)
qed

end
