(* ===== verification/Api_Drafts.thy ===== *)
theory Api_Drafts
  imports Remote_Actions Api_Update Syncback Mail_Threading Mail_Gc Contact_Model
begin

text \<open>
  Drafts and sending over the API: \<open>inbox/sendmail/base.py\<close>, \<open>inbox/api/sending.py\<close>, the handlers for
  drafts and sending of \<open>inbox/api/ns_api.py\<close>, and how a scheduled action is read by \<open>inbox/actions/base.py\<close>.
\<close>

section \<open>Messages with their parts\<close>

text \<open>
  \<open>pt_inline\<close> is the content disposition \<open>inline\<close>, with the public id of the block as the content id. Bodies, the size of
  which is the size of the message, and the message a draft replies to are kept by message id.
\<close>

record draft_part =
  pt_message :: nat
  pt_block :: nat
  pt_inline :: bool

record mail_sys =
  ms_db :: store
  ms_blocks :: "block_row list"
  ms_parts :: "draft_part list"
  ms_bodies :: "nat \<rightharpoonup> string"
  ms_reply_to :: "nat \<rightharpoonup> nat"

text \<open>
  The clock, a fresh public id, the name of the account, the address parser and fresh contact uids, the
  text of HTML, public ids of threads and blocks as numbers and texts, what a MIME text is parsed
  into, and the SMTP side: tokens, the client's account and the MIME library.
\<close>

record draft_env =
  de_now :: datetime
  de_uid :: string
  de_name :: string
  de_parse :: addr_parser
  de_fresh :: "string \<Rightarrow> string"
  de_snippet :: "string \<Rightarrow> string"
  de_thread_pid :: "nat \<Rightarrow> 128 word"
  de_block_pid :: "nat \<Rightarrow> string"
  de_parsed :: "string \<Rightarrow> message_row \<times> string"
  de_generic :: bool
  de_discriminator :: string
  de_timed_out :: bool
  de_client :: "smtp_exn + smtp_client"
  de_smtp :: smtp_env
  de_mime :: "mail_parts \<Rightarrow> string"

function str_nat :: "nat \<Rightarrow> string" where
  "str_nat n = (if n < 10 then [char_of (48 + n)] else str_nat (n div 10) @ [char_of (48 + n mod 10)])"
  by pat_completeness auto
termination by (relation "measure id") auto

declare str_nat.simps [simp del]

definition generate_message_id_header :: "string \<Rightarrow> string" where
  "generate_message_id_header uid = ''<'' @ uid @ ''@mailer.nylas.com>''"

definition regenerate_nylas_uid :: "message_row \<Rightarrow> message_row" where
  "regenerate_nylas_uid m =
     (let uid = m_public_id m @ ''-'' @ str_nat (m_version m)
      in m\<lparr>m_nylas_uid := Some uid, m_message_id_header := Some (generate_message_id_header uid)\<rparr>)"

definition mark_as_sending :: "message_row \<Rightarrow> message_row res" where
  "mark_as_sending m =
     (if m_is_sent m then Raise (ValueError ''Cannot mark a sent message as sending'')
      else Ok (regenerate_nylas_uid (m\<lparr>m_version := MAX_MYSQL_INTEGER, m_is_draft := False\<rparr>)))"

definition sanitize_subject :: "string option \<Rightarrow> string option" where
  "sanitize_subject v = map_option (\<lambda>s. filter (\<lambda>c. c \<noteq> CHR 0x00) (unicode_safe_truncate s 255)) v"

definition block_to_part :: "draft_env \<Rightarrow> nat \<Rightarrow> string \<Rightarrow> nat \<Rightarrow> draft_part" where
  "block_to_part env mid body bid =
     \<lparr>pt_message = mid, pt_block = bid, pt_inline = str_contains (''cid:'' @ de_block_pid env bid) body\<rparr>"

definition set_reply_headers :: "message_row \<Rightarrow> message_row \<Rightarrow> message_row" where
  "set_reply_headers previous m =
     (if truthy (m_message_id_header previous)
      then m\<lparr>m_in_reply_to := m_message_id_header previous,
             m_references := (if m_references previous \<noteq> [] then m_references previous @ [m_message_id_header previous]
                              else [m_message_id_header previous])\<rparr>
      else m)"

section \<open>Creating a message\<close>

text \<open>The validated input: addresses by field, the subject, the body, attachments, thread and message replied to.\<close>

record message_input =
  mi_to :: "address list"
  mi_cc :: "address list"
  mi_bcc :: "address list"
  mi_from :: "address list"
  mi_reply_to :: "address list"
  mi_subject :: "string option"
  mi_body :: string
  mi_blocks :: "nat list"
  mi_thread :: "thread_row option"
  mi_message :: "message_row option"

definition at_most_one :: "string \<Rightarrow> address list option \<Rightarrow> unit res" where
  "at_most_one field as =
     (case as of None \<Rightarrow> Ok () | Some l \<Rightarrow>
        if length l > 1 then Raise (InputError (field @ '' field can have at most one item'')) else Ok ())"

definition or_empty :: "'a list option \<Rightarrow> 'a list" where
  "or_empty x = (case x of None \<Rightarrow> [] | Some l \<Rightarrow> l)"

definition parse_message :: "draft_env \<Rightarrow> mail_sys \<Rightarrow> nat \<Rightarrow> (string \<times> json) list \<Rightarrow> message_input res" where
  "parse_message env sys nid data =
     res_bind (get_recipients (jget_or_null data ''to'')) (\<lambda>to_addr.
     res_bind (get_recipients (jget_or_null data ''cc'')) (\<lambda>cc_addr.
     res_bind (get_recipients (jget_or_null data ''bcc'')) (\<lambda>bcc_addr.
     res_bind (get_recipients (jget_or_null data ''from'')) (\<lambda>from_addr.
     res_bind (get_recipients (jget_or_null data ''reply_to'')) (\<lambda>reply_to.
     res_bind (at_most_one ''from_addr'' from_addr) (\<lambda>_.
     res_bind (at_most_one ''reply_to'' reply_to) (\<lambda>_.
     res_bind (case jget_or_null data ''subject'' of
                 JNull \<Rightarrow> Ok None | JStr s \<Rightarrow> Ok (Some s) | _ \<Rightarrow> Raise (InputError ''\"subject\" should be a string'')) (\<lambda>subject.
     res_bind (case map_of data ''body'' of
                 None \<Rightarrow> Ok [] | Some (JStr s) \<Rightarrow> Ok s | _ \<Rightarrow> Raise (InputError ''\"body\" should be a string'')) (\<lambda>body.
     res_bind (get_attachments (ms_blocks sys) nid (jget_or_null data ''file_ids'')) (\<lambda>blocks.
     res_bind (get_thread (de_thread_pid env) (ms_db sys) nid (jget_or_null data ''thread_id'')) (\<lambda>thread.
     res_bind (get_message (ms_db sys) nid (jget_or_null data ''reply_to_message_id'')) (\<lambda>msg.
       if (case (msg, thread) of (Some m, Some th) \<Rightarrow> m_thread_id m \<noteq> Some (th_id th) | _ \<Rightarrow> False)
       then Raise (InputError ''Message is not in thread'')
       else Ok \<lparr>mi_to = or_empty to_addr, mi_cc = or_empty cc_addr, mi_bcc = or_empty bcc_addr, mi_from = or_empty from_addr,
                mi_reply_to = or_empty reply_to, mi_subject = subject, mi_body = body, mi_blocks = blocks,
                mi_thread = thread, mi_message = msg\<rparr>))))))))))))"

definition default_subject :: "message_input \<Rightarrow> string" where
  "default_subject i =
     (let inherited = (case mi_message i of
                         Some m \<Rightarrow> m_subject m
                       | None \<Rightarrow> (case mi_thread i of Some th \<Rightarrow> th_subject th | None \<Rightarrow> None));
          subject = (case mi_subject i of Some s \<Rightarrow> Some s | None \<Rightarrow> inherited)
      in (case subject of None \<Rightarrow> [] | Some s \<Rightarrow> s))"

definition new_message :: "draft_env \<Rightarrow> store \<Rightarrow> account_row \<Rightarrow> bool \<Rightarrow> message_input \<Rightarrow> message_row" where
  "new_message env db acc is_draft i =
     regenerate_nylas_uid
       \<lparr>m_id = t_next m_id (messages db), m_namespace_id = acc_namespace_id acc, m_thread_id = None,
        m_subject = sanitize_subject (Some (default_subject i)), m_received_date = de_now env, m_snippet = de_snippet env (mi_body i),
        m_from = (if mi_from i \<noteq> [] then mi_from i else [(de_name env, acc_email acc)]),
        m_to = mi_to i, m_cc = mi_cc i, m_bcc = mi_bcc i, m_reply_to = mi_reply_to i, m_in_reply_to = None,
        m_message_id_header = None, m_references = [], m_is_read = True, m_is_starred = False, m_is_draft = is_draft,
        m_is_sent = False, m_is_created = True, m_categories = [], m_categories_changes = False, m_deleted_at = None,
        m_version = 0, m_public_id = de_uid env, m_nylas_uid = None, m_data_sha256 = [], m_g_msgid = None, m_g_thrid = None,
        m_updated_at = de_now env\<rparr>"

text \<open>The thread, the message replied to, and the message with its headers.\<close>

definition place_reply :: "store \<Rightarrow> message_input \<Rightarrow> message_row \<Rightarrow> (thread_row \<times> nat option \<times> message_row) res" where
  "place_reply db i m =
     (case mi_message i of
        Some prev \<Rightarrow>
          (case message_thread db prev of
             None \<Rightarrow> Raise AttributeError
           | Some th \<Rightarrow> Ok (th, Some (m_id prev), set_reply_headers prev m))
      | None \<Rightarrow>
          (case mi_thread i of
             Some th \<Rightarrow>
               (let previous = filter (\<lambda>x. \<not> m_is_draft x) (thread_messages db (th_id th))
                in if previous = [] then Ok (th, None, m)
                   else Ok (th, Some (m_id (last previous)), set_reply_headers (last previous) m))
           | None \<Rightarrow> Ok (new_thread db (m_namespace_id m) (m_subject m) None m, None, m)))"

text \<open>Joining the thread runs the thread's validator.\<close>

definition store_in_thread :: "thread_row \<Rightarrow> message_row \<Rightarrow> store \<Rightarrow> store" where
  "store_in_thread th m db =
     db\<lparr>threads := (if t_get th_id (threads db) (th_id th) = None then t_add (threads db) (update_from_message m th)
                    else t_put th_id (threads db) (update_from_message m th)),
        messages := t_add (messages db) (m\<lparr>m_thread_id := Some (th_id th)\<rparr>)\<rparr>"

definition version_args :: "nat \<Rightarrow> (string \<times> json) list" where
  "version_args v = [(''version'', JNum (int v))]"

definition create_api_message :: "draft_env \<Rightarrow> mail_sys \<Rightarrow> account_row \<Rightarrow> bool \<Rightarrow> message_input \<Rightarrow> (mail_sys \<times> message_row) res" where
  "create_api_message env sys acc is_draft i =
     (let m = new_message env (ms_db sys) acc is_draft i; mid = m_id m
      in res_bind (update_contacts_from_message (de_parse env) (de_fresh env) (ms_db sys) m (m_namespace_id m)) (\<lambda>db1.
         res_bind (place_reply db1 i m) (\<lambda>(th, replied, m1).
           let m2 = m1\<lparr>m_thread_id := Some (th_id th)\<rparr>; db2 = store_in_thread th m1 db1
           in res_bind (if is_draft then schedule_action (de_now env) ''save_draft'' ''message'' mid (m_namespace_id m)
                                           (version_args (m_version m2)) db2
                        else Ok db2) (\<lambda>db3.
              Ok (sys\<lparr>ms_db := db3, ms_parts := ms_parts sys @ map (block_to_part env mid (mi_body i)) (mi_blocks i),
                      ms_bodies := (ms_bodies sys)(mid \<mapsto> mi_body i), ms_reply_to := (ms_reply_to sys)(mid := replied)\<rparr>, m2)))))"

definition create_message_from_json ::
  "draft_env \<Rightarrow> account_row \<Rightarrow> bool \<Rightarrow> (string \<times> json) list \<Rightarrow> mail_sys \<Rightarrow> (mail_sys \<times> message_row) res" where
  "create_message_from_json env acc is_draft data sys =
     res_bind (parse_message env sys (acc_namespace_id acc) data) (create_api_message env sys acc is_draft)"

text \<open>A raw MIME message gets its headers in front and is parsed like a synced one.\<close>

definition create_draft_from_mime :: "draft_env \<Rightarrow> account_row \<Rightarrow> string \<Rightarrow> mail_sys \<Rightarrow> (mail_sys \<times> message_row) res" where
  "create_draft_from_mime env acc raw sys =
     (let header = ''X-INBOX-ID: '' @ de_uid env @ ''-0'' @ crlf @ ''Message-Id: <'' @ de_uid env @ ''-0@mailer.nylas.com>'' @ crlf;
          (parsed, body) = de_parsed env (header @ raw); db = ms_db sys; mid = t_next m_id (messages db)
      in res_bind (at_most_one ''from_addr'' (Some (m_from parsed))) (\<lambda>_.
         res_bind (at_most_one ''reply_to'' (Some (m_reply_to parsed))) (\<lambda>_.
           let m = parsed\<lparr>m_id := mid, m_namespace_id := acc_namespace_id acc, m_is_created := True, m_is_sent := True,
                          m_is_draft := False, m_is_read := True\<rparr>;
               th = new_thread db (acc_namespace_id acc) (m_subject m) None m
           in Ok (sys\<lparr>ms_db := store_in_thread th m db, ms_bodies := (ms_bodies sys)(mid \<mapsto> body)\<rparr>,
                  m\<lparr>m_thread_id := Some (th_id th)\<rparr>))))"

section \<open>Updating and deleting a draft\<close>

text \<open>What an update may give; an absent field is \<open>None\<close>, and an empty subject or body counts as absent.\<close>

record draft_changes =
  dc_to :: "address list option"
  dc_cc :: "address list option"
  dc_bcc :: "address list option"
  dc_from :: "address list option"
  dc_reply_to :: "address list option"
  dc_subject :: "string option"
  dc_body :: "string option"
  dc_blocks :: "nat list"

definition given :: "'a option \<Rightarrow> 'a \<Rightarrow> 'a" where
  "given x old = (case x of None \<Rightarrow> old | Some v \<Rightarrow> v)"

definition changed_draft :: "draft_env \<Rightarrow> draft_changes \<Rightarrow> message_row \<Rightarrow> message_row" where
  "changed_draft env c m =
     m\<lparr>m_to := given (dc_to c) (m_to m), m_cc := given (dc_cc c) (m_cc m), m_bcc := given (dc_bcc c) (m_bcc m),
       m_reply_to := given (dc_reply_to c) (m_reply_to m), m_from := given (dc_from c) (m_from m),
       m_subject := (if truthy (dc_subject c) then sanitize_subject (dc_subject c) else m_subject m),
       m_snippet := (if truthy (dc_body c) then de_snippet env (the (dc_body c)) else m_snippet m),
       m_received_date := de_now env\<rparr>"

definition update_parts :: "draft_env \<Rightarrow> nat \<Rightarrow> string \<Rightarrow> nat list \<Rightarrow> draft_part list \<Rightarrow> draft_part list" where
  "update_parts env mid body blocks ps =
     (let kept = filter (\<lambda>p. pt_message p = mid \<longrightarrow> pt_block p \<in> set blocks) ps;
          have_blocks = pt_block ` set (filter (\<lambda>p. pt_message p = mid) kept)
      in kept @ map (block_to_part env mid body) (filter (\<lambda>b. b \<notin> have_blocks) blocks))"

text \<open>A thread with no other message takes subject and dates from its draft.\<close>

definition sync_thread :: "message_row \<Rightarrow> store \<Rightarrow> store res" where
  "sync_thread m db =
     (case message_thread db m of
        None \<Rightarrow> Raise AttributeError
      | Some th \<Rightarrow>
          (if length (thread_messages db (th_id th)) = 1
           then Ok (db\<lparr>threads := t_put th_id (threads db)
                       ((set_thread_subject (m_subject m) th)\<lparr>th_subjectdate := m_received_date m, th_recentdate := m_received_date m\<rparr>)\<rparr>)
           else Ok db))"

definition jopt :: "string option \<Rightarrow> json" where
  "jopt x = (case x of None \<Rightarrow> JNull | Some s \<Rightarrow> JStr s)"

definition sm_update_draft :: "draft_env \<Rightarrow> draft_changes \<Rightarrow> message_row \<Rightarrow> mail_sys \<Rightarrow> (mail_sys \<times> message_row) res" where
  "sm_update_draft env c draft sys =
     (let m = changed_draft env c draft; mid = m_id draft;
          body = (if truthy (dc_body c) then the (dc_body c) else or_empty (ms_bodies sys mid));
          db = save_message (ms_db sys) m
      in res_bind (sync_thread m db) (\<lambda>db1.
         let db2 = db1\<lparr>contact_links := filter (\<lambda>l. fst l \<noteq> mid) (contact_links db1)\<rparr>
         in res_bind (update_contacts_from_message (de_parse env) (de_fresh env) db2 m (m_namespace_id m)) (\<lambda>db3.
            let m2 = regenerate_nylas_uid (m\<lparr>m_is_created := True, m_version := Suc (m_version m)\<rparr>)
            in res_bind (schedule_action (de_now env) ''update_draft'' ''message'' mid (m_namespace_id m)
                           (version_args (m_version m2) @ [(''old_message_id_header'', jopt (m_message_id_header draft))])
                           (save_message db3 m2)) (\<lambda>db4.
               Ok (sys\<lparr>ms_db := db4, ms_parts := update_parts env mid body (dc_blocks c) (ms_parts sys),
                       ms_bodies := (ms_bodies sys)(mid \<mapsto> body)\<rparr>, m2)))))"

definition delete_args :: "message_row \<Rightarrow> (string \<times> json) list" where
  "delete_args m = [(''nylas_uid'', jopt (m_nylas_uid m)), (''message_id_header'', jopt (m_message_id_header m))]"

text \<open>Deleting the row takes its parts, links and UIDs with it.\<close>

definition delete_message_row :: "nat \<Rightarrow> mail_sys \<Rightarrow> mail_sys" where
  "delete_message_row mid sys =
     (let db = ms_db sys
      in sys\<lparr>ms_db := db\<lparr>messages := t_del m_id (messages db) mid, imapuids := filter (\<lambda>u. u_message_id u \<noteq> mid) (imapuids db),
                         contact_links := filter (\<lambda>l. fst l \<noteq> mid) (contact_links db)\<rparr>,
             ms_parts := filter (\<lambda>p. pt_message p \<noteq> mid) (ms_parts sys)\<rparr>)"

definition sm_delete_draft :: "draft_env \<Rightarrow> message_row \<Rightarrow> mail_sys \<Rightarrow> mail_sys res" where
  "sm_delete_draft env draft sys =
     (if \<not> m_is_draft draft then Raise AssertionError
      else res_bind (schedule_action (de_now env) ''delete_draft'' ''message'' (m_id draft) (m_namespace_id draft)
                       (delete_args draft) (ms_db sys)) (\<lambda>db1.
        let sys2 = delete_message_row (m_id draft) (sys\<lparr>ms_db := db1\<rparr>); db2 = ms_db sys2
        in case message_thread (ms_db sys) draft of
             None \<Rightarrow> Raise AttributeError
           | Some th \<Rightarrow>
               (if thread_messages db2 (th_id th) = []
                then Ok (sys2\<lparr>ms_db := db2\<lparr>threads := t_del th_id (threads db2) (th_id th)\<rparr>\<rparr>)
                else Ok sys2)))"

section \<open>Sending\<close>

definition update_draft_on_send :: "draft_env \<Rightarrow> message_row \<Rightarrow> store \<Rightarrow> (store \<times> message_row) res" where
  "update_draft_on_send env draft db =
     (let m = draft\<lparr>m_is_sent := True, m_is_draft := False, m_received_date := de_now env\<rparr>
      in case message_thread db draft of
           None \<Rightarrow> Raise AttributeError
         | Some th \<Rightarrow> Ok (put_thread (save_message db m) (update_from_message m th), m))"

text \<open>The code of the response: a failure to send has its own, everything else is raised.\<close>

definition response_code :: "smtp_exn + unit \<Rightarrow> nat res" where
  "response_code r =
     (case r of
        Inr _ \<Rightarrow> Ok 200
      | Inl (SendFailed f) \<Rightarrow> Ok (sf_http_code f)
      | Inl (Other e) \<Rightarrow> Raise e
      | Inl e \<Rightarrow> Raise SendMailException)"

definition with_client :: "draft_env \<Rightarrow> (smtp_client \<Rightarrow> smtp_event list \<times> (smtp_exn + unit)) \<Rightarrow> smtp_event list \<times> nat res" where
  "with_client env f =
     (case de_client env of
        Inl e \<Rightarrow> ([], response_code (Inl e))
      | Inr cl \<Rightarrow> (case f cl of (evs, r) \<Rightarrow> (evs, response_code r)))"

type_synonym api_reply = "smtp_event list \<times> mail_sys \<times> nat res"

definition api_send_draft :: "draft_env \<Rightarrow> message_row \<Rightarrow> mail_sys \<Rightarrow> api_reply" where
  "api_send_draft env draft sys =
     (case update_draft_on_send env draft (ms_db sys) of
        Inl e \<Rightarrow> ([], sys, Raise e)
      | Inr (db, m) \<Rightarrow>
          (case with_client env (\<lambda>cl. send_draft_mail (de_smtp env) cl (de_mime env) m (or_empty (ms_bodies sys (m_id m)))) of
             (evs, r) \<Rightarrow> (evs, sys\<lparr>ms_db := db\<rparr>, r)))"

definition send_draft_copy :: "draft_env \<Rightarrow> message_row \<Rightarrow> string \<Rightarrow> address \<Rightarrow> smtp_event list \<times> nat res" where
  "send_draft_copy env draft custom_body recipient =
     with_client env (\<lambda>cl. send_custom (de_smtp env) cl (de_mime env) draft custom_body [recipient])"

definition send_raw_mime :: "draft_env \<Rightarrow> message_row \<Rightarrow> string option \<Rightarrow> smtp_event list \<times> nat res" where
  "send_raw_mime env msg raw = with_client env (\<lambda>cl. send_raw (de_smtp env) cl msg raw)"

section \<open>Request handlers\<close>

text \<open>The status codes of the exceptions that carry one; others are an internal error.\<close>

fun status_code :: "exc \<Rightarrow> nat" where
  "status_code (InputError m) = 400"
| "status_code NotFoundError = 404"
| "status_code ConflictError = 409"
| "status_code AccountInvalidError = 403"
| "status_code AccountStoppedError = 403"
| "status_code (OperationalError m) = 503"
| "status_code NotImplementedError = 501"
| "status_code e = 500"

text \<open>After the request the session is committed only on 200; otherwise all is as before.\<close>

definition finish :: "mail_sys \<Rightarrow> api_reply \<Rightarrow> smtp_event list \<times> mail_sys \<times> nat" where
  "finish before reply =
     (case reply of (evs, sys, r) \<Rightarrow>
        let code = (case r of Inr c \<Rightarrow> c | Inl e \<Rightarrow> status_code e)
        in (evs, if code = 200 then sys else before, code))"

definition handled :: "mail_sys \<Rightarrow> mail_sys res \<Rightarrow> api_reply" where
  "handled sys r = (case r of Inl e \<Rightarrow> ([], sys, Raise e) | Inr sys1 \<Rightarrow> ([], sys1, Ok 200))"

definition draft_create_api :: "draft_env \<Rightarrow> account_row \<Rightarrow> (string \<times> json) list \<Rightarrow> mail_sys \<Rightarrow> api_reply" where
  "draft_create_api env acc data sys =
     handled sys (res_bind (create_message_from_json env acc True data sys) (\<lambda>(sys1, _). Ok sys1))"

text \<open>Texts of other types would only fail when they are stored.\<close>

definition text_field :: "json \<Rightarrow> string option res" where
  "text_field v = (case v of JNull \<Rightarrow> Ok None | JStr s \<Rightarrow> Ok (Some s) | _ \<Rightarrow> Raise TypeError)"

definition draft_update_api :: "draft_env \<Rightarrow> account_row \<Rightarrow> json \<Rightarrow> (string \<times> json) list \<Rightarrow> mail_sys \<Rightarrow> api_reply" where
  "draft_update_api env acc public_id data sys =
     (let nid = acc_namespace_id acc
      in handled sys
        (res_bind (get_draft (ms_db sys) nid public_id (jget_or_null data ''version'')) (\<lambda>original.
         res_bind (get_recipients (jget_or_null data ''to'')) (\<lambda>to_addr.
         res_bind (get_recipients (jget_or_null data ''cc'')) (\<lambda>cc_addr.
         res_bind (get_recipients (jget_or_null data ''bcc'')) (\<lambda>bcc_addr.
         res_bind (get_recipients (jget_or_null data ''from_addr'')) (\<lambda>from_addr.
         res_bind (get_recipients (jget_or_null data ''reply_to'')) (\<lambda>reply_to.
         res_bind (at_most_one ''from_addr'' from_addr) (\<lambda>_.
         res_bind (at_most_one ''reply_to'' reply_to) (\<lambda>_.
         res_bind (get_attachments (ms_blocks sys) nid (jget_or_null data ''file_ids'')) (\<lambda>blocks.
         res_bind (text_field (jget_or_null data ''subject'')) (\<lambda>subject.
         res_bind (text_field (jget_or_null data ''body'')) (\<lambda>body.
         res_bind (sm_update_draft env
             \<lparr>dc_to = to_addr, dc_cc = cc_addr, dc_bcc = bcc_addr, dc_from = from_addr, dc_reply_to = reply_to,
              dc_subject = subject, dc_body = body, dc_blocks = blocks\<rparr> original sys) (\<lambda>(sys1, _). Ok sys1))))))))))))))"

definition draft_delete_api :: "draft_env \<Rightarrow> account_row \<Rightarrow> json \<Rightarrow> (string \<times> json) list \<Rightarrow> mail_sys \<Rightarrow> api_reply" where
  "draft_delete_api env acc public_id data sys =
     handled sys
       (res_bind (get_draft (ms_db sys) (acc_namespace_id acc) public_id (jget_or_null data ''version'')) (\<lambda>draft.
          sm_delete_draft env draft sys))"

definition save_sent_if :: "bool \<Rightarrow> draft_env \<Rightarrow> message_row \<Rightarrow> store \<Rightarrow> store res" where
  "save_sent_if b env m db =
     (if b then schedule_action (de_now env) ''save_sent_email'' ''message'' (m_id m) (m_namespace_id m) [] db else Ok db)"

definition raw_send_api :: "draft_env \<Rightarrow> account_row \<Rightarrow> string \<Rightarrow> mail_sys \<Rightarrow> api_reply" where
  "raw_send_api env acc raw sys =
     (case res_bind (create_draft_from_mime env acc raw sys) (\<lambda>(sys1, draft).
             res_bind (validate_draft_recipients (de_parse env) draft) (\<lambda>_.
             res_bind (save_sent_if (de_generic env) env draft (ms_db sys1)) (\<lambda>db. Ok (sys1\<lparr>ms_db := db\<rparr>, draft)))) of
        Inl e \<Rightarrow> ([], sys, Raise e)
      | Inr (sys2, draft) \<Rightarrow> (case send_raw_mime env draft (Some raw) of (evs, r) \<Rightarrow> (evs, sys2, r)))"

text \<open>The message to send: a draft of the given version, or one made from the request.\<close>

definition draft_to_send :: "draft_env \<Rightarrow> account_row \<Rightarrow> (string \<times> json) list \<Rightarrow> mail_sys \<Rightarrow> (mail_sys \<times> message_row) res" where
  "draft_to_send env acc data sys =
     (if jget_or_null data ''draft_id'' \<noteq> JNull
      then res_bind (get_draft (ms_db sys) (acc_namespace_id acc) (jget_or_null data ''draft_id'') (jget_or_null data ''version''))
             (\<lambda>draft. Ok (sys, draft))
      else create_message_from_json env acc False data sys)"

text \<open>Tracking is not in the repository: with it, the answer is 501 before anything is sent.\<close>

definition draft_send_api :: "draft_env \<Rightarrow> account_row \<Rightarrow> (string \<times> json) list \<Rightarrow> mail_sys \<Rightarrow> api_reply" where
  "draft_send_api env acc data sys =
     (case res_bind (draft_to_send env acc data sys) (\<lambda>(sys1, draft).
             res_bind (validate_draft_recipients (de_parse env) draft) (\<lambda>_. Ok (sys1, draft))) of
        Inl e \<Rightarrow> ([], sys, Raise e)
      | Inr (sys1, draft) \<Rightarrow>
          if json_truthy (jget_or_null data ''tracking'') then ([], sys1, Ok 501)
          else case save_sent_if (de_generic env) env draft (ms_db sys1) of
            Inl e \<Rightarrow> ([], sys1, Raise e)
          | Inr db \<Rightarrow>
              if de_timed_out env then ([], sys1\<lparr>ms_db := db\<rparr>, Ok 504)
              else (case api_send_draft env draft (sys1\<lparr>ms_db := db\<rparr>) of
                      (evs, sys2, r) \<Rightarrow>
                        if jget_or_null data ''draft_id'' \<noteq> JNull \<and> r = Ok 200
                        then (case schedule_action (de_now env) ''delete_draft'' ''message'' (m_id draft) (m_namespace_id draft)
                                     (delete_args draft) (ms_db sys2) of
                                Inl e \<Rightarrow> (evs, sys2, Raise e)
                              | Inr db3 \<Rightarrow> (evs, sys2\<lparr>ms_db := db3\<rparr>, r))
                        else (evs, sys2, r)))"

section \<open>Sending one message to each recipient\<close>

definition not_eas :: "draft_env \<Rightarrow> unit res" where
  "not_eas env =
     (if de_discriminator env = ''easaccount''
      then Raise (InputError ''Multiple send is not supported for this provider.'') else Ok ())"

definition multi_send_create :: "draft_env \<Rightarrow> account_row \<Rightarrow> (string \<times> json) list \<Rightarrow> mail_sys \<Rightarrow> api_reply" where
  "multi_send_create env acc data sys =
     handled sys
       (res_bind (not_eas env) (\<lambda>_.
        res_bind (create_message_from_json env acc False data sys) (\<lambda>(sys1, draft).
        res_bind (validate_draft_recipients (de_parse env) draft) (\<lambda>_.
        res_bind (mark_as_sending draft) (\<lambda>m. Ok (sys1\<lparr>ms_db := save_message (ms_db sys1) m\<rparr>))))))"

definition recipient_emails :: "message_row \<Rightarrow> string set" where
  "recipient_emails m = snd ` set (m_to m @ m_cc m @ m_bcc m)"

definition the_recipient :: "json \<Rightarrow> address res" where
  "the_recipient v =
     res_bind (get_recipients (JList [v])) (\<lambda>r. case or_empty r of [] \<Rightarrow> Raise IndexError | a # _ \<Rightarrow> Ok a)"

definition sending_copy :: "draft_env \<Rightarrow> account_row \<Rightarrow> json \<Rightarrow> (string \<times> json) list \<Rightarrow> mail_sys \<Rightarrow> (message_row \<times> address) res" where
  "sending_copy env acc draft_id data sys =
     res_bind (not_eas env) (\<lambda>_.
     res_bind (valid_public_id draft_id) (\<lambda>_.
     res_bind (the_recipient (jget_or_null data ''send_to'')) (\<lambda>send_to.
     res_bind (get_sending_draft (ms_db sys) (acc_namespace_id acc) draft_id) (\<lambda>draft.
       if snd send_to \<notin> recipient_emails draft
       then Raise (InputError ''Invalid send_to, not present in message recipients'')
       else Ok (draft, send_to)))))"

text \<open>A body of null has no text to encode.\<close>

definition multi_send :: "draft_env \<Rightarrow> account_row \<Rightarrow> json \<Rightarrow> (string \<times> json) list \<Rightarrow> mail_sys \<Rightarrow> api_reply" where
  "multi_send env acc draft_id data sys =
     (case sending_copy env acc draft_id data sys of
        Inl e \<Rightarrow> ([], sys, Raise e)
      | Inr (draft, send_to) \<Rightarrow>
          if de_timed_out env then ([], sys, Ok 504)
          else (case jget_or_null data ''body'' of
                  JStr body \<Rightarrow> (case send_draft_copy env draft body send_to of (evs, r) \<Rightarrow> (evs, sys, r))
                | _ \<Rightarrow> ([], sys, Raise AttributeError)))"

text \<open>On Gmail the copies are taken out of the sent folder first; a failure of this is only logged.\<close>

definition multi_send_finish :: "draft_env \<Rightarrow> account_row \<Rightarrow> json \<Rightarrow> mail_sys \<Rightarrow> api_reply" where
  "multi_send_finish env acc draft_id sys =
     handled sys
       (res_bind (not_eas env) (\<lambda>_.
        res_bind (valid_public_id draft_id) (\<lambda>_.
        res_bind (get_sending_draft (ms_db sys) (acc_namespace_id acc) draft_id) (\<lambda>draft.
        res_bind (update_draft_on_send env draft (ms_db sys)) (\<lambda>(db, m).
        res_bind (save_sent_if True env m db) (\<lambda>db1. Ok (sys\<lparr>ms_db := db1\<rparr>)))))))"

section \<open>Reading a scheduled action\<close>

definition arg_text :: "(string \<times> json) list \<Rightarrow> string \<Rightarrow> string option" where
  "arg_text args key = (case map_of args key of Some (JStr s) \<Rightarrow> Some s | _ \<Rightarrow> None)"

definition arg_version :: "(string \<times> json) list \<Rightarrow> nat option" where
  "arg_version args = (case map_of args ''version'' of Some (JNum n) \<Rightarrow> if 0 \<le> n then Some (nat n) else None | _ \<Rightarrow> None)"

definition need_text :: "(string \<times> json) list \<Rightarrow> string \<Rightarrow> string res" where
  "need_text args key =
     (case map_of args key of None \<Rightarrow> Raise KeyError | Some (JStr s) \<Rightarrow> Ok s | Some _ \<Rightarrow> Raise TypeError)"

definition need_flag :: "(string \<times> json) list \<Rightarrow> string \<Rightarrow> bool res" where
  "need_flag args key = (case map_of args key of None \<Rightarrow> Raise KeyError | Some v \<Rightarrow> Ok (json_truthy v))"

fun text_items :: "json list \<Rightarrow> string list res" where
  "text_items [] = Ok []"
| "text_items (JStr s # vs) = res_bind (text_items vs) (\<lambda>ss. Ok (s # ss))"
| "text_items (v # vs) = Raise TypeError"

definition text_list :: "(string \<times> json) list \<Rightarrow> string \<Rightarrow> string list res" where
  "text_list args key =
     (case map_of args key of
        None \<Rightarrow> Raise KeyError
      | Some (JList vs) \<Rightarrow> text_items vs
      | Some _ \<Rightarrow> Raise TypeError)"

text \<open>Without arguments the function is called with one argument less, which only some have.\<close>

definition takes_args :: "string \<Rightarrow> bool" where
  "takes_args action \<longleftrightarrow> action \<notin> {''create_folder'', ''delete_folder'', ''create_label'', ''delete_label'', ''save_sent_email''}"

definition decode_action :: "string \<Rightarrow> nat list \<Rightarrow> (string \<times> json) list \<Rightarrow> remote_action res" where
  "decode_action action rids args =
     (case rids of
        [] \<Rightarrow> Raise AssertionError
      | rid # _ \<Rightarrow>
          if takes_args action \<noteq> (args \<noteq> []) then Raise TypeError
          else if action = ''mark_unread'' then res_bind (need_flag args ''unread'') (\<lambda>b. Ok (MarkUnread rid b))
          else if action = ''mark_starred'' then res_bind (need_flag args ''starred'') (\<lambda>b. Ok (MarkStarred rid b))
          else if action = ''move'' then res_bind (need_text args ''destination'') (\<lambda>d. Ok (Move rid d))
          else if action = ''change_labels''
          then res_bind (text_list args ''added_labels'') (\<lambda>added.
               res_bind (text_list args ''removed_labels'') (\<lambda>removed. Ok (ChangeLabels rids removed added)))
          else if action = ''create_folder'' then Ok (CreateFolder rid)
          else if action = ''update_folder''
          then res_bind (need_text args ''old_name'') (\<lambda>old_name.
               res_bind (need_text args ''new_name'') (\<lambda>new_name. Ok (UpdateFolder rid old_name new_name)))
          else if action = ''delete_folder'' then Ok (DeleteFolder rid)
          else if action = ''create_label'' then Ok (CreateLabel rid)
          else if action = ''update_label''
          then res_bind (need_text args ''old_name'') (\<lambda>old_name.
               res_bind (need_text args ''new_name'') (\<lambda>new_name. Ok (UpdateLabel rid old_name new_name)))
          else if action = ''delete_label'' then Ok (DeleteLabel rid)
          else if action = ''save_draft'' then Ok (SaveDraft rid (arg_version args))
          else if action = ''update_draft'' then Ok (UpdateDraft rid (arg_version args) (arg_text args ''old_message_id_header''))
          else if action = ''delete_draft'' then Ok (DeleteDraft (arg_text args ''nylas_uid'') (arg_text args ''message_id_header''))
          else if action = ''save_sent_email'' then Ok (SaveSent rid)
          else if action = ''delete_sent_email'' then Ok (DeleteSent (arg_text args ''message_id_header''))
          else Raise KeyError)"

end
