(* ===== verification/Draft_Proofs.thy ===== *)
theory Draft_Proofs
  imports Api_Drafts Smtp_Proofs Remote_Proofs Gmail_Unique
begin

text \<open>
  What the handlers of drafts and sending keep: which messages a request of a client changes, what was sent
  when it succeeds, and which of the scheduled actions is still current.
\<close>

section \<open>What was sent\<close>

text \<open>
  What a code of 200 means: the server has accepted the message, which was submitted for all recipients, at most
  some of them refused; the library raises when all of them are.
\<close>

definition got :: "smtp_exn + unit \<Rightarrow> bool" where
  "got r \<longleftrightarrow> (case r of Inr _ \<Rightarrow> True | Inl (SendFailed f) \<Rightarrow> sf_http_code f = 200 | Inl e \<Rightarrow> False)"

lemma smtp_send_got:
  assumes "\<And>l. set (se_order env l) = set l" and "smtp_send env cl recipients msg = (evs, r)" and "got r"
  obtains n refused tls where "n < 2" "sc_send (se_scripts env n) = Delivered refused" "EvMessage tls recipients msg \<in> set evs"
proof -
  have "outcome (se_refreshed env) cl recipients msg (se_scripts env ` {0, 1}) evs r" by (rule smtp_send_outcome [OF assms(1,2)])
  with assms(3) obtain refused where "accepted recipients msg (se_scripts env ` {0, 1}) evs refused"
    by (auto simp: outcome_def got_def failure_codes_def split: sum.splits smtp_exn.splits)
  then obtain n tls where "n \<in> {0, 1}" "sc_send (se_scripts env n) = Delivered refused" "EvMessage tls recipients msg \<in> set evs"
    unfolding accepted_def by blast
  then show thesis by (intro that [of n refused tls]) auto
qed

lemma smtp_send_recipients:
  assumes "smtp_send env cl recipients msg = (evs, r)" and "EvMessage tls rs m \<in> set evs"
  shows "rs = recipients"
proof -
  obtain new where "evs = [] @ new" "\<And>tls rs m. EvMessage tls rs m \<in> set new \<Longrightarrow> rs = recipients \<and> m = msg"
    using send_attempts_adds [OF assms(1) [unfolded smtp_send_def]] by metis
  with assms(2) show ?thesis by (metis append_Nil)
qed

lemma response_got: "response_code r = Ok 200 \<Longrightarrow> got r"
  by (auto simp: response_code_def got_def split: sum.splits smtp_exn.splits)

lemma draft_mail_got:
  assumes order: "\<And>l. set (se_order env l) = set l"
    and run: "send_draft_mail env cl mime draft body = (evs, r)" and "got r"
  shows "\<exists>n<2. \<exists>refused tls msg. sc_send (se_scripts env n) = Delivered refused \<and>
    EvMessage tls (map snd (m_to draft @ m_cc draft @ m_bcc draft)) msg \<in> set evs"
proof -
  obtain parts where "smtp_send env cl (map snd (m_to draft @ m_cc draft @ m_bcc draft)) (mime parts) = (evs, r)"
    using run \<open>got r\<close> by (auto simp: send_draft_mail_def send_parts_def got_def split: sum.split_asm)
  from smtp_send_got [OF order this \<open>got r\<close>] show ?thesis by metis
qed

lemma custom_recipients:
  assumes "send_custom env cl mime draft body rs = (evs, r)" and "EvMessage tls to_addrs m \<in> set evs"
  shows "to_addrs = map snd rs"
  using assms smtp_send_recipients [of env cl "map snd rs"]
  by (fastforce simp: send_custom_def send_parts_def split: sum.split_asm)

section \<open>Rows\<close>

lemma link_contact_actionlogs: "link_contact parse mid fa (db, cm) = Ok (db', cm') \<Longrightarrow> actionlogs db' = actionlogs db"
  by (auto simp: link_contact_def Let_def split: prod.split_asm if_split_asm option.split_asm sum.split_asm)

lemma link_contacts_actionlogs:
  "res_fold (link_contact parse mid) fas (db, cm) = Ok (db', cm') \<Longrightarrow> actionlogs db' = actionlogs db"
proof (induction fas arbitrary: db cm)
  case (Cons fa fas)
  from Cons.prems obtain db1 cm1 where "link_contact parse mid fa (db, cm) = Ok (db1, cm1)"
    "res_fold (link_contact parse mid) fas (db1, cm1) = Ok (db', cm')"
    by (auto simp: res_simps)
  with Cons.IH link_contact_actionlogs show ?case by metis
qed simp

lemma update_contacts_actionlogs:
  "update_contacts_from_message parse fresh db m nid = Ok db' \<Longrightarrow> actionlogs db' = actionlogs db"
  by (auto simp: update_contacts_from_message_def Let_def res_simps dest: link_contacts_actionlogs)

lemma schedule_action_effect:
  "schedule_action now act table rid nid args db = Ok db' \<Longrightarrow>
     messages db' = messages db \<and> threads db' = threads db \<and>
     (\<exists>e. actionlogs db' = actionlogs db @ [e] \<and> al_action e = act \<and> al_record_id e = rid \<and> al_extra_args e = args)"
  by (auto simp: schedule_action_def t_add_def split: option.split_asm)

lemma get_draft_row:
  assumes "get_draft db nid pid v = Ok m"
  shows "m \<in> set (messages db)" and "m_is_draft m" and "\<not> m_is_sent m" and "json_int v = Ok (int (m_version m))"
proof -
  from assms obtain s where one: "one_message db nid s NotFoundError = Ok m"
    and ok: "m_is_draft m" "\<not> m_is_sent m" "json_int v = Ok (int (m_version m))"
    by (auto simp: get_draft_def res_simps split: if_split_asm sum.split_asm exc.split_asm)
  from one have "messages_with_id db nid s = [m]"
    by (auto simp: one_message_def query_one_Ok split: sum.split_asm)
  then have "m \<in> set (messages_with_id db nid s)" by simp
  then show "m \<in> set (messages db)" by (simp add: messages_with_id_def)
  show "m_is_draft m" "\<not> m_is_sent m" "json_int v = Ok (int (m_version m))" by (fact ok)+
qed

lemma get_sending_row:
  assumes "get_sending_draft db nid pid = Ok m"
  shows "m \<in> set (messages db)" and "\<not> m_is_draft m" and "\<not> m_is_sent m" and "m_version m = MAX_MYSQL_INTEGER"
proof -
  from assms obtain s where one: "one_message db nid s NotFoundError = Ok m" and ok: "\<not> m_is_sent m" "is_sending m"
    by (auto simp: get_sending_draft_def res_simps split: if_split_asm)
  from one have "messages_with_id db nid s = [m]"
    by (auto simp: one_message_def query_one_Ok split: sum.split_asm)
  then have "m \<in> set (messages_with_id db nid s)" by simp
  then show "m \<in> set (messages db)" by (simp add: messages_with_id_def)
  show "\<not> m_is_draft m" "\<not> m_is_sent m" "m_version m = MAX_MYSQL_INTEGER" using ok by (simp_all add: is_sending_def)
qed

lemma set_reply_headers_id [simp]:
  "m_id (set_reply_headers p m) = m_id m" "m_is_draft (set_reply_headers p m) = m_is_draft m"
  "m_version (set_reply_headers p m) = m_version m" "m_namespace_id (set_reply_headers p m) = m_namespace_id m"
  by (simp_all add: set_reply_headers_def)

lemma place_reply_row:
  "place_reply db i m = Ok (th, replied, m1) \<Longrightarrow> m_id m1 = m_id m \<and> m_is_draft m1 = m_is_draft m \<and> m_version m1 = m_version m"
  by (auto simp: place_reply_def Let_def split: option.split_asm if_split_asm)

lemma regenerate_row [simp]:
  "m_id (regenerate_nylas_uid m) = m_id m" "m_is_draft (regenerate_nylas_uid m) = m_is_draft m"
  "m_version (regenerate_nylas_uid m) = m_version m" "m_is_sent (regenerate_nylas_uid m) = m_is_sent m"
  "m_to (regenerate_nylas_uid m) = m_to m" "m_cc (regenerate_nylas_uid m) = m_cc m" "m_bcc (regenerate_nylas_uid m) = m_bcc m"
  by (simp_all add: regenerate_nylas_uid_def Let_def)

lemma create_api_message_row:
  assumes "create_api_message env sys acc is_draft i = Ok (sys', m)"
  shows "messages (ms_db sys') = t_add (messages (ms_db sys)) m" and "m_id m = t_next m_id (messages (ms_db sys))"
    and "m_is_draft m = is_draft" and "m_version m = 0"
proof -
  let ?m = "new_message env (ms_db sys) acc is_draft i"
  from assms obtain db1 th replied m1 db3 where
    1: "update_contacts_from_message (de_parse env) (de_fresh env) (ms_db sys) ?m (m_namespace_id ?m) = Ok db1"
    and 2: "place_reply db1 i ?m = Ok (th, replied, m1)" and m: "m = m1\<lparr>m_thread_id := Some (th_id th)\<rparr>"
    and 3: "(if is_draft then schedule_action (de_now env) ''save_draft'' ''message'' (m_id ?m) (m_namespace_id ?m)
          (version_args (m_version m)) (store_in_thread th m1 db1) else Ok (store_in_thread th m1 db1)) = Ok db3"
    and sys': "ms_db sys' = db3"
    by (auto simp: create_api_message_def Let_def res_simps)
  have "messages db3 = messages (store_in_thread th m1 db1)"
    using 3 by (auto split: if_split_asm dest: schedule_action_effect)
  then have "messages db3 = t_add (messages db1) m" by (simp add: store_in_thread_def m)
  with sys' update_contacts_messages [OF 1] show "messages (ms_db sys') = t_add (messages (ms_db sys)) m" by simp
  from place_reply_row [OF 2] m show "m_id m = t_next m_id (messages (ms_db sys))" "m_is_draft m = is_draft" "m_version m = 0"
    by (simp_all add: new_message_def)
qed

lemma t_add_fresh:
  assumes "t_inv key t" and "key r = t_next key t"
  shows "t_inv key (t_add t r)" and "t_get key (t_add t r) (key r) = Some r"
proof -
  have fresh: "\<forall>x\<in>set t. key x \<noteq> key r" using assms(2) t_next_fresh [of _ t key] by auto
  show inv: "t_inv key (t_add t r)" by (rule row_table.inv_add [OF row_table_generic assms(1) fresh])
  show "t_get key (t_add t r) (key r) = Some r"
    by (rule row_table.get_mem [OF row_table_generic inv]) (simp add: row_table.set_add [OF row_table_generic])
qed

lemma draft_to_send_row:
  assumes inv: "t_inv m_id (messages (ms_db sys))" and "draft_to_send env acc data sys = Ok (sys1, draft)"
  shows "t_inv m_id (messages (ms_db sys1)) \<and> t_get m_id (messages (ms_db sys1)) (m_id draft) = Some draft"
proof (cases "jget_or_null data ''draft_id'' = JNull")
  case True
  with assms(2) obtain i where c: "create_api_message env sys acc False i = Ok (sys1, draft)"
    by (auto simp: draft_to_send_def create_message_from_json_def res_simps)
  from t_add_fresh [OF inv, of draft] create_api_message_row [OF c] show ?thesis by simp
next
  case False
  with assms(2) have "sys1 = sys" "get_draft (ms_db sys) (acc_namespace_id acc) (jget_or_null data ''draft_id'') (jget_or_null data ''version'') = Ok draft"
    by (auto simp: draft_to_send_def res_simps)
  with inv get_draft_row(1) show ?thesis by (simp add: msgs.get_mem)
qed

lemma save_sent_messages: "save_sent_if b env m db = Ok db' \<Longrightarrow> messages db' = messages db"
  by (auto simp: save_sent_if_def split: if_split_asm dest: schedule_action_effect)

lemma on_send_row:
  assumes "update_draft_on_send env draft db = Ok (db', m)" and "t_inv m_id (messages db)"
    and "t_get m_id (messages db) (m_id draft) = Some draft"
  shows "m = draft\<lparr>m_is_sent := True, m_is_draft := False, m_received_date := de_now env\<rparr>"
    and "t_get m_id (messages db') (m_id draft) = Some m" and "t_inv m_id (messages db')"
proof -
  from assms(1) show m: "m = draft\<lparr>m_is_sent := True, m_is_draft := False, m_received_date := de_now env\<rparr>"
    by (auto simp: update_draft_on_send_def Let_def split: option.split_asm)
  from assms(1) m have "messages db' = t_put m_id (messages db) m"
    by (auto simp: update_draft_on_send_def Let_def put_thread_def save_message_def split: option.split_asm)
  with assms(2,3) m show "t_get m_id (messages db') (m_id draft) = Some m" "t_inv m_id (messages db')"
    by (simp_all add: msgs.get_put msgs.inv_put)
qed

text \<open>A sent message is no draft of any version, so no action of the syncback saves it as one.\<close>

lemma sent_not_current: "t_get m_id (messages db) mid = Some m \<Longrightarrow> \<not> m_is_draft m \<Longrightarrow> \<not> draft_current db mid v"
  by (simp add: draft_current_def)

lemma api_send_row:
  assumes run: "api_send_draft env draft sys = (evs, sys', Ok 200)" and inv: "t_inv m_id (messages (ms_db sys))"
    and row: "t_get m_id (messages (ms_db sys)) (m_id draft) = Some draft"
    and order: "\<And>l. set (se_order (de_smtp env) l) = set l"
    and cl: "\<And>f. de_client env = Inl (SendFailed f) \<Longrightarrow> sf_http_code f \<noteq> 200"
  shows "\<exists>m. t_get m_id (messages (ms_db sys')) (m_id draft) = Some m \<and> m_is_sent m \<and> \<not> m_is_draft m \<and>
     m_id m = m_id draft \<and> (\<exists>n<2. \<exists>refused tls msg. sc_send (se_scripts (de_smtp env) n) = Delivered refused \<and>
       EvMessage tls (map snd (m_to m @ m_cc m @ m_bcc m)) msg \<in> set evs)"
proof -
  from run obtain db m where on: "update_draft_on_send env draft (ms_db sys) = Ok (db, m)"
    by (auto simp: api_send_draft_def split: sum.split_asm)
  note m = on_send_row [OF on inv row]
  from run on have sys': "sys' = sys\<lparr>ms_db := db\<rparr>" by (auto simp: api_send_draft_def split: prod.split_asm)
  have "\<exists>n<2. \<exists>refused tls msg. sc_send (se_scripts (de_smtp env) n) = Delivered refused \<and>
      EvMessage tls (map snd (m_to m @ m_cc m @ m_bcc m)) msg \<in> set evs"
  proof (cases "de_client env")
    case (Inl e)
    with run on have "got (Inl e)" by (auto simp: api_send_draft_def with_client_def intro: response_got)
    with Inl cl show ?thesis by (auto simp: got_def split: smtp_exn.split_asm)
  next
    case (Inr c)
    with run on obtain r where send: "send_draft_mail (de_smtp env) c (de_mime env) m (or_empty (ms_bodies sys (m_id m))) = (evs, r)"
      and "response_code r = Ok 200"
      by (auto simp: api_send_draft_def with_client_def split: prod.split_asm)
    from draft_mail_got [OF order send response_got [OF this(2)]] show ?thesis .
  qed
  with m sys' show ?thesis by simp
qed

section \<open>Updates\<close>

lemma changed_draft_id [simp]: "m_id (changed_draft env c m) = m_id m" "m_version (changed_draft env c m) = m_version m"
  "m_is_draft (changed_draft env c m) = m_is_draft m" "m_namespace_id (changed_draft env c m) = m_namespace_id m"
  by (simp_all add: changed_draft_def)

lemma update_draft_row:
  assumes run: "sm_update_draft env c draft sys = Ok (sys', m)" and inv: "t_inv m_id (messages (ms_db sys))"
    and row: "t_get m_id (messages (ms_db sys)) (m_id draft) = Some draft"
  shows "t_get m_id (messages (ms_db sys')) (m_id draft) = Some m" and "t_inv m_id (messages (ms_db sys'))"
    and "m_version m = Suc (m_version draft)" and "m_is_draft m = m_is_draft draft" and "m_id m = m_id draft"
    and "\<exists>e. actionlogs (ms_db sys') = actionlogs (ms_db sys) @ [e] \<and> al_action e = ''update_draft'' \<and> al_record_id e = m_id draft \<and>
       al_extra_args e = version_args (Suc (m_version draft)) @ [(''old_message_id_header'', jopt (m_message_id_header draft))]"
proof -
  let ?m = "changed_draft env c draft"
  let ?m2 = "regenerate_nylas_uid (?m\<lparr>m_is_created := True, m_version := Suc (m_version ?m)\<rparr>)"
  from run obtain db1 db3 db4 where
    1: "sync_thread ?m (save_message (ms_db sys) ?m) = Ok db1"
    and 3: "update_contacts_from_message (de_parse env) (de_fresh env)
        (db1\<lparr>contact_links := filter (\<lambda>l. fst l \<noteq> m_id draft) (contact_links db1)\<rparr>) ?m (m_namespace_id ?m) = Ok db3"
    and 4: "schedule_action (de_now env) ''update_draft'' ''message'' (m_id draft) (m_namespace_id ?m)
        (version_args (m_version ?m2) @ [(''old_message_id_header'', jopt (m_message_id_header draft))]) (save_message db3 ?m2) = Ok db4"
    and out: "ms_db sys' = db4" "m = ?m2"
    by (auto simp: sm_update_draft_def Let_def res_simps)
  have logs1: "actionlogs db1 = actionlogs (ms_db sys)" "messages db1 = t_put m_id (messages (ms_db sys)) ?m"
    using 1 by (auto simp: sync_thread_def save_message_def split: option.split_asm if_split_asm)
  have logs3: "actionlogs db3 = actionlogs db1" "messages db3 = messages db1"
    using 3 update_contacts_messages [OF 3] by (auto dest: update_contacts_actionlogs)
  from schedule_action_effect [OF 4] logs1 logs3 out
  show "\<exists>e. actionlogs (ms_db sys') = actionlogs (ms_db sys) @ [e] \<and> al_action e = ''update_draft'' \<and> al_record_id e = m_id draft \<and>
       al_extra_args e = version_args (Suc (m_version draft)) @ [(''old_message_id_header'', jopt (m_message_id_header draft))]"
    by (auto simp: save_message_def)
  have "messages db4 = t_put m_id (t_put m_id (messages (ms_db sys)) ?m) ?m2"
    using schedule_action_effect [OF 4] logs1 logs3 by (simp add: save_message_def)
  with inv row out show "t_get m_id (messages (ms_db sys')) (m_id draft) = Some m" "t_inv m_id (messages (ms_db sys'))"
    by (simp_all add: msgs.get_put msgs.inv_put)
  from out show "m_version m = Suc (m_version draft)" "m_is_draft m = m_is_draft draft" "m_id m = m_id draft" by simp_all
qed

section \<open>A message that is never deleted\<close>

text \<open>On a generic account, no command of the log deletes the UID.\<close>

definition spares :: "nat \<Rightarrow> remote \<Rightarrow> bool" where
  "spares u s \<longleftrightarrow> \<not> cr_gmail (rm_client s) \<and> (\<forall>(sel, cmd, ok)\<in>set (rm_log s). \<forall>us. cmd = Imap (CmdDelete us) \<longrightarrow> u \<notin> set us)"

lemma spares_send:
  assumes "\<And>us. cmd = Imap (CmdDelete us) \<Longrightarrow> u \<notin> set us"
  shows "st_keeps (spares u) (remote_send env cmd)"
proof (rule st_keepsI)
  fix s assume s: "spares u s"
  obtain s' r where run: "remote_send env cmd s = (s', r)" by fastforce
  with remote_send_state [OF run] s assms show "spares u (fst (remote_send env cmd s))"
    by (auto simp: spares_def)
qed

lemma spares_update:
  "cr_gmail cr = cr_gmail (rm_client s) \<Longrightarrow> spares u (s\<lparr>rm_client := cr\<rparr>) = spares u s"
  "spares u (s\<lparr>rm_selected := x\<rparr>) = spares u s"
  by (simp_all add: spares_def)

lemma select_gmail: "cr_gmail (fst (select_folder_if_necessary reply folder cb cr)) = cr_gmail cr"
  by (simp add: select_folder_if_necessary_def select_folder_def split: option.split sum.split prod.split)

lemma names_gmail: "cr_gmail (fst (folder_names force listing cr)) = cr_gmail cr"
  by (simp add: folder_names_def split: bool.split option.split sum.split)

lemma role_gmail: "cr_gmail (fst (folders_with_role role listing cr)) = cr_gmail cr"
proof -
  obtain cr1 r where n: "folder_names False listing cr = (cr1, r)" by fastforce
  then have "cr_gmail cr1 = cr_gmail cr" using names_gmail [of False listing cr] by simp
  with n show ?thesis
    by (cases r) (simp_all add: folders_with_role_def st_bind_def role_folders_def split: option.split)
qed

lemma spares_client: "(\<And>cr. cr_gmail (fst (f cr)) = cr_gmail cr) \<Longrightarrow> st_keeps (spares u) (through_client f)"
  by (rule st_keepsI) (simp add: through_client_def spares_update split: prod.split, metis fst_conv spares_update(1))

lemma spares_names: "st_keeps (spares u) (remote_names_of env)" "st_keeps (spares u) (remote_role env role)"
  unfolding remote_names_of_def remote_role_def by (rule spares_client, rule names_gmail) (rule spares_client, rule role_gmail)

lemma spares_conn_select: "st_keeps (spares u) (conn_select env folder)"
proof (rule st_keepsI)
  fix s assume s: "spares u s"
  obtain s1 r where run: "remote_send env (Imap (CmdSelect folder)) s = (s1, r)" by fastforce
  have "st_keeps (spares u) (remote_send env (Imap (CmdSelect folder)))" by (rule spares_send) simp
  with s run have "spares u s1" by (metis st_keepsD)
  with run show "spares u (fst (conn_select env folder s))" by (cases r) (simp_all add: conn_select_def spares_update)
qed

lemma spares_select: "st_keeps (spares u) (remote_select env folder)"
proof (rule st_keepsI)
  fix s assume s: "spares u s"
  obtain s1 reply where run: "conn_select env folder s = (s1, reply)" by fastforce
  with s have s1: "spares u s1" by (metis spares_conn_select st_keepsD)
  have upd: "spares u (t\<lparr>rm_client := fst (select_folder_if_necessary q folder cb (rm_client t))\<rparr>) = spares u t" for t q cb
    by (rule spares_update) (rule select_gmail)
  show "spares u (fst (remote_select env folder s))"
    using s s1 upd run by (simp add: remote_select_def Let_def split: prod.split) (metis fst_conv)
qed

lemma spares_commands:
  assumes "\<forall>us. CmdDelete us \<in> set cs \<longrightarrow> u \<notin> set us"
  shows "st_keeps (spares u) (run_commands env cs)"
  using assms
proof (induction env cs rule: run_commands.induct)
  case (1 env)
  show ?case unfolding run_commands.simps by (intro inv_intros)
next
  case (2 env f cs)
  then show ?case by (auto intro!: inv_intros spares_conn_select)
qed (auto intro!: inv_intros spares_send)

lemma role_deletes:
  assumes "CmdDelete us \<in> set (fst (delete_from_role names role finder multiple))"
  shows "\<exists>f. us = finder f"
  using assms by (auto simp: delete_from_role_def delete_message_def Let_def split: option.split_asm list.split_asm if_split_asm)

lemma spares_delete_draft:
  assumes "\<And>n f. u \<notin> set (re_find env n f header)"
  shows "st_keeps (spares u) (cr_delete_draft env header)"
  unfolding cr_delete_draft_def
proof (rule st_keeps_bind [OF spares_names(1)], rule st_keepsI)
  fix names s assume s: "spares u s"
  let ?p = "delete_from_role names ''drafts'' (\<lambda>folder. re_find env (rm_sent s) folder header) False"
  have "\<forall>us. CmdDelete us \<in> set (fst ?p) \<longrightarrow> u \<notin> set us" using role_deletes assms by metis
  then have "st_keeps (spares u) (run_deletion env ?p)"
    unfolding run_deletion_def case_prod_beta by (intro inv_intros spares_commands)
  with s show "spares u (fst (let finder = \<lambda>folder. re_find env (rm_sent s) folder header
      in run_deletion env (if cr_gmail (rm_client s) then gmail_delete_draft names finder (re_msgids env) (re_uids_of env)
                           else delete_from_role names ''drafts'' finder False) s))"
    by (simp add: spares_def [of u s] st_keeps_fst Let_def)
qed

lemma spares_append: "st_keeps (spares u) (append_as env role flags msg)"
  unfolding append_as_def
proof (rule st_keeps_bind [OF spares_names(2)], rule st_keepsI)
  fix names s assume s: "spares u s"
  have "st_keeps (spares u) (remote_send env (CmdAppend folder msg flags))" for folder by (rule spares_send) simp
  with s show "spares u (fst (case cr_selected (rm_client s) of
         Some (folder, _) \<Rightarrow> if folder \<in> set names then remote_send env (CmdAppend folder msg flags) s else (s, Raise AssertionError)
       | None \<Rightarrow> (s, Raise AssertionError)))"
    by (auto simp: st_keeps_fst split: option.split)
qed

lemma spares_update_draft:
  assumes "\<And>n f. u \<notin> set (re_find env n f old_header)"
  shows "st_keeps (spares u) (update_draft env mid version old_header)"
proof -
  have find: "st_keeps (spares u) (find_selected env h)" for h
    by (rule st_keepsI) (simp add: find_selected_def)
  have mail: "st_keeps (spares u) (message_mail env mid)" by (rule st_keepsI) (simp add: message_mail_def)
  have first: "st_keeps (spares u) (first_folder ns)" for ns
    unfolding first_folder_def by (cases ns) (simp_all add: st_keeps_pure del: st_ok_def)
  have "st_keeps (spares u) (replace_draft env h mail old_header)" for h mail
    unfolding replace_draft_def cr_save_draft_def
    by (intro inv_intros find spares_append spares_delete_draft assms)
  then have "st_keeps (spares u) (st_bind (message_mail env mid) (\<lambda>mail. in_role env ''drafts'' (replace_draft env h mail old_header)))" for h
    unfolding in_role_def by (intro inv_intros mail spares_names first spares_select)
  then show ?thesis by (simp add: st_keeps_def update_draft_def remote_update_draft_def)
qed

lemma spares_attempts:
  assumes "st_keeps (spares u) (run_action env aid a)" and "spares u s"
  shows "spares u (run_attempts env aid n a s)"
  using assms(2)
proof (induction n arbitrary: s)
  case (Suc n)
  obtain s1 r where run: "run_action env aid a s = (s1, r)" by fastforce
  with Suc.prems have "spares u s1" by (metis assms(1) st_keepsD)
  with run Suc.IH show ?case by (simp split: sum.split)
qed simp

end
