(* ===== verification/Props_Drafts.thy ===== *)
theory Props_Drafts
  imports Draft_Proofs Samples
begin

text \<open>
  Properties of drafts and sending over the API: what a client can rely on when the answer is 200, which
  scheduled action carries a draft to the server, and sending one message to each recipient.
\<close>

definition sample_smtp :: smtp_script where
  "sample_smtp = \<lparr>sc_connect = Connected, sc_ehlo_plain = None, sc_starttls = None, sc_ehlo = None,
     sc_auth = (\<lambda>n. Inr (235, [])), sc_noop = (\<lambda>n. Inr (250, [])), sc_login = None, sc_send = Delivered [], sc_quit = None\<rparr>"

definition sample_draft_env :: draft_env where
  "sample_draft_env = \<lparr>de_now = 100, de_uid = ''abc'', de_name = ''Me'', de_parse = (\<lambda>s. Some (s, ''x'')), de_fresh = (\<lambda>s. s),
     de_snippet = (\<lambda>s. s), de_thread_pid = of_nat, de_block_pid = (\<lambda>n. ''b''), de_parsed = (\<lambda>s. (sample_message 0, s)),
     de_generic = True, de_discriminator = ''genericaccount'', de_timed_out = False,
     de_client = Inr \<lparr>cl_email = ''me@x'', cl_username = ''me'', cl_ssl_required = True, cl_auth_type = ''password'',
       cl_auth_token = ''secret'', cl_port = 465\<rparr>,
     de_smtp = \<lparr>se_refreshed = Inr [], se_dec = (\<lambda>n. []), se_order = (\<lambda>l. l), se_scripts = (\<lambda>n. sample_smtp)\<rparr>,
     de_mime = (\<lambda>p. ''mail'')\<rparr>"

text \<open>An account with a draft of version 0, in a thread of its own, for two recipients.\<close>

definition first_draft :: message_row where
  "first_draft = (sample_message 5)\<lparr>m_is_draft := True, m_from := [('''', ''me@x'')], m_to := [('''', ''a@x'')], m_cc := [('''', ''b@x'')],
     m_thread_id := Some 1, m_public_id := ''abc'', m_message_id_header := Some ''<abc-0@mailer.nylas.com>''\<rparr>"

definition draft_db :: store where
  "draft_db = empty_store\<lparr>accounts := [sample_account], threads := [sample_thread 1], messages := [first_draft]\<rparr>"

definition draft_sys :: mail_sys where
  "draft_sys = \<lparr>ms_db = draft_db, ms_blocks = [], ms_parts = [], ms_bodies = Map.empty, ms_reply_to = Map.empty\<rparr>"

text \<open>This server takes every message over an encrypted connection.\<close>

lemma sample_send:
  "smtp_send (de_smtp sample_draft_env) cl rs msg =
     (if cl_port cl = 465 \<and> cl_auth_type cl = ''password'' then ([EvCredentials True (cl_auth_token cl), EvMessage True rs msg], Inr ())
      else smtp_send (de_smtp sample_draft_env) cl rs msg)"
  by (simp add: smtp_run sample_draft_env_def sample_smtp_def)

lemma sample_client:
  obtains cl where "de_client sample_draft_env = Inr cl"
    "\<forall>rs msg. smtp_send (de_smtp sample_draft_env) cl rs msg = ([EvCredentials True ''secret'', EvMessage True rs msg], Inr ())"
proof -
  obtain cl where "de_client sample_draft_env = Inr cl" "cl_port cl = 465" "cl_auth_type cl = ''password''" "cl_auth_token cl = ''secret''"
    by (simp add: sample_draft_env_def)
  with sample_send [of cl] that show thesis by simp
qed

section \<open>Sending\<close>

text \<open>
  C31: When the answer to a request to send is 200, the message is stored as sent, it was submitted for all its
  recipients, blind copies included, and on one of the two connections the server accepted it for all but those it refused by name;
  and it is no draft any more: no action that was scheduled for any of its versions saves it as one. A partial refusal
  is answered with 200, too.
\<close>

theorem sent_when_ok:
  assumes "finish sys (draft_send_api env acc data sys) = (evs, sys', 200)"
    and "t_inv m_id (messages (ms_db sys))" and "\<And>l. set (se_order (de_smtp env) l) = set l"
    and "\<And>f. de_client env = Inl (SendFailed f) \<Longrightarrow> sf_http_code f \<noteq> 200"
  shows "\<exists>m. t_get m_id (messages (ms_db sys')) (m_id m) = Some m \<and> m_is_sent m \<and>
     (\<forall>v. \<not> draft_current (ms_db sys') (m_id m) v) \<and>
     (\<exists>n<2. \<exists>refused tls msg. sc_send (se_scripts (de_smtp env) n) = Delivered refused \<and>
        EvMessage tls (map snd (m_to m @ m_cc m @ m_bcc m)) msg \<in> set evs)"
proof -
  obtain evs1 sys1 r where api: "draft_send_api env acc data sys = (evs1, sys1, r)" by (metis prod_cases3)
  have "status_code e \<noteq> 200" for e by (cases e) simp_all
  with assms(1) api have r: "r = Ok 200" "evs1 = evs" "sys1 = sys'" by (auto simp: finish_def Let_def split: sum.split_asm)
  with api obtain sys2 draft where prep: "draft_to_send env acc data sys = Ok (sys2, draft)"
    by (auto simp: draft_send_api_def res_simps split: sum.split_asm)
  note row = draft_to_send_row [OF assms(2) prep]
  from api r prep obtain db sys3 where save: "save_sent_if (de_generic env) env draft (ms_db sys2) = Ok db"
    and send: "api_send_draft env draft (sys2\<lparr>ms_db := db\<rparr>) = (evs, sys3, Ok 200)"
    and later: "sys' = sys3 \<or> (\<exists>args db3. schedule_action (de_now env) ''delete_draft'' ''message'' (m_id draft) (m_namespace_id draft)
        args (ms_db sys3) = Ok db3 \<and> sys' = sys3\<lparr>ms_db := db3\<rparr>)"
    by (auto simp: draft_send_api_def res_simps split: sum.split_asm if_split_asm prod.split_asm)
  have db: "messages db = messages (ms_db sys2)" using save by (rule save_sent_messages)
  from api_send_row [OF send _ _ assms(3,4)] row db obtain m where
    m: "t_get m_id (messages (ms_db sys3)) (m_id draft) = Some m" "m_is_sent m" "\<not> m_is_draft m" "m_id m = m_id draft"
    and got: "\<exists>n<2. \<exists>refused tls msg. sc_send (se_scripts (de_smtp env) n) = Delivered refused \<and>
      EvMessage tls (map snd (m_to m @ m_cc m @ m_bcc m)) msg \<in> set evs" by auto
  have "messages (ms_db sys') = messages (ms_db sys3)" using later by (auto dest: schedule_action_effect)
  with m have "t_get m_id (messages (ms_db sys')) (m_id m) = Some m" by simp
  with m got sent_not_current [OF this m(3)] show ?thesis by blast
qed

definition to_one :: "(string \<times> json) list" where
  "to_one = [(''to'', JList [JDict [(''email'', JStr ''a@x'')]])]"

theorem sent_when_ok_witness:
  "\<exists>m. t_get m_id (messages (ms_db (fst (snd (finish draft_sys (draft_send_api sample_draft_env sample_account to_one draft_sys))))))
       (m_id m) = Some m \<and> m_is_sent m"
proof -
  let ?run = "finish draft_sys (draft_send_api sample_draft_env sample_account to_one draft_sys)"
  obtain evs sys' code where run: "?run = (evs, sys', code)" by (metis prod_cases3)
  have "res_bind (draft_to_send sample_draft_env sample_account to_one draft_sys) (\<lambda>(s, d).
      res_bind (validate_draft_recipients (de_parse sample_draft_env) d) (\<lambda>_.
      res_bind (save_sent_if (de_generic sample_draft_env) sample_draft_env d (ms_db s)) (\<lambda>db.
      res_bind (update_draft_on_send sample_draft_env d db) (\<lambda>(db', m). Ok (m_from m \<noteq> []))))) = Ok True"
    by code_simp
  then obtain s d db db' m where steps: "draft_to_send sample_draft_env sample_account to_one draft_sys = Ok (s, d)"
    "validate_draft_recipients (de_parse sample_draft_env) d = Ok ()"
    "save_sent_if (de_generic sample_draft_env) sample_draft_env d (ms_db s) = Ok db"
    "update_draft_on_send sample_draft_env d db = Ok (db', m)" and sender: "m_from m \<noteq> []"
    by (auto simp: res_simps)
  obtain cl where cl: "de_client sample_draft_env = Inr cl"
    "\<forall>rs msg. smtp_send (de_smtp sample_draft_env) cl rs msg = ([EvCredentials True ''secret'', EvMessage True rs msg], Inr ())"
    by (rule sample_client)
  from sender obtain a as where "m_from m = a # as" by (cases "m_from m") auto
  then have "snd (api_send_draft sample_draft_env d (s\<lparr>ms_db := db\<rparr>)) = (s\<lparr>ms_db := db'\<rparr>, Ok 200)"
    using steps(4) cl
    by (simp add: api_send_draft_def with_client_def send_draft_mail_def send_parts_def response_code_def parts_of_def)
  then obtain evs1 where "api_send_draft sample_draft_env d (s\<lparr>ms_db := db\<rparr>) = (evs1, s\<lparr>ms_db := db'\<rparr>, Ok 200)"
    by (metis prod.collapse)
  moreover have "jget_or_null to_one ''draft_id'' = JNull" "\<not> json_truthy (jget_or_null to_one ''tracking'')" "\<not> de_timed_out sample_draft_env"
    by (simp_all add: to_one_def jget_or_null_def jget_def sample_draft_env_def)
  ultimately have "snd (snd ?run) = 200" using steps(1-3) by (simp add: draft_send_api_def finish_def Let_def)
  with run have run': "?run = (evs, sys', 200)" by simp
  have "t_inv m_id (messages (ms_db draft_sys))" by (simp add: draft_sys_def draft_db_def t_inv_def empty_store_def)
  from sent_when_ok [OF run' this] run show ?thesis by (auto simp: sample_draft_env_def)
qed

text \<open>
  Sending one message to each recipient stays inside the draft: what goes out is for one address that is
  among the recipients of a message that is being sent, and once that message is sent or is a draft
  nothing goes out.
\<close>

theorem multi_send_confined:
  assumes "multi_send env acc draft_id data sys = (evs, sys', r)" and "EvMessage tls rs msg \<in> set evs"
  shows "sys' = sys \<and> (\<exists>draft\<in>set (messages (ms_db sys)). \<not> m_is_sent draft \<and> \<not> m_is_draft draft \<and>
     m_version draft = MAX_MYSQL_INTEGER \<and> (\<exists>email\<in>recipient_emails draft. rs = [email]))"
proof -
  from assms obtain draft send_to body where copy: "sending_copy env acc draft_id data sys = Ok (draft, send_to)"
    and sent: "send_draft_copy env draft body send_to = (evs, r)" and sys: "sys' = sys"
    by (auto simp: multi_send_def split: sum.split_asm if_split_asm json.split_asm prod.split_asm)
  from copy have "get_sending_draft (ms_db sys) (acc_namespace_id acc) draft_id = Ok draft" and mail: "snd send_to \<in> recipient_emails draft"
    by (auto simp: sending_copy_def res_simps split: if_split_asm)
  note draft = get_sending_row [OF this(1)]
  from sent assms(2) have "rs = [snd send_to]"
    by (auto simp: send_draft_copy_def with_client_def split: sum.split_asm prod.split_asm dest: custom_recipients)
  with draft mail sys show ?thesis by blast
qed

definition sending_sys :: mail_sys where
  "sending_sys = draft_sys\<lparr>ms_db := draft_db\<lparr>messages := [first_draft\<lparr>m_is_draft := False, m_version := MAX_MYSQL_INTEGER\<rparr>]\<rparr>\<rparr>"

definition copy_to_b :: "(string \<times> json) list" where
  "copy_to_b = [(''send_to'', JDict [(''email'', JStr ''b@x'')]), (''body'', JStr ''Hi b'')]"

theorem multi_send_confined_witness:
  "EvMessage True [''b@x''] ''mail'' \<in> set (fst (multi_send sample_draft_env sample_account (JStr ''abc'') copy_to_b sending_sys)) \<and>
   (\<exists>draft\<in>set (messages (ms_db sending_sys)). m_version draft = MAX_MYSQL_INTEGER)"
proof -
  obtain evs sys' r where run: "multi_send sample_draft_env sample_account (JStr ''abc'') copy_to_b sending_sys = (evs, sys', r)"
    by (metis prod_cases3)
  let ?draft = "first_draft\<lparr>m_is_draft := False, m_version := MAX_MYSQL_INTEGER\<rparr>"
  have "sending_copy sample_draft_env sample_account (JStr ''abc'') copy_to_b sending_sys = Ok (?draft, ('''', ''b@x''))"
  proof -
    have "valid_public_id (JStr ''abc'') = Ok ''abc''" by code_simp
    moreover have "the_recipient (jget_or_null copy_to_b ''send_to'') = Ok ('''', ''b@x'')" by code_simp
    ultimately show ?thesis
      by (simp add: sending_copy_def not_eas_def get_sending_draft_def one_message_def messages_with_id_def query_one_def
          sending_sys_def draft_sys_def draft_db_def empty_store_def sample_draft_env_def sample_account_def first_draft_def
          sample_message_def is_sending_def recipient_emails_def)
  qed
  moreover have "jget_or_null copy_to_b ''body'' = JStr ''Hi b''" "\<not> de_timed_out sample_draft_env"
    by (simp_all add: copy_to_b_def jget_or_null_def jget_def sample_draft_env_def)
  moreover obtain cl where "de_client sample_draft_env = Inr cl"
    "\<forall>rs msg. smtp_send (de_smtp sample_draft_env) cl rs msg = ([EvCredentials True ''secret'', EvMessage True rs msg], Inr ())"
    by (rule sample_client)
  moreover have "de_mime sample_draft_env parts = ''mail''" for parts by (simp add: sample_draft_env_def)
  ultimately have "fst (multi_send sample_draft_env sample_account (JStr ''abc'') copy_to_b sending_sys) =
      [EvCredentials True ''secret'', EvMessage True [''b@x''] ''mail'']"
    by (simp add: multi_send_def send_draft_copy_def with_client_def send_custom_def send_parts_def parts_of_def first_draft_def)
  with run have ev: "EvMessage True [''b@x''] ''mail'' \<in> set evs" by simp
  from multi_send_confined [OF run ev] ev run show ?thesis by auto
qed

section \<open>Updates\<close>

text \<open>
  C32: An update of a draft schedules one action, which carries the new version, and with it every action that was
  scheduled for another version of this draft becomes void; so at most the last one saves the draft.
\<close>

theorem update_supersedes:
  assumes "sm_update_draft env c draft sys = Ok (sys', m)" and "t_inv m_id (messages (ms_db sys))"
    and "t_get m_id (messages (ms_db sys)) (m_id draft) = Some draft" and "m_is_draft draft"
  shows "(\<forall>v. draft_current (ms_db sys') (m_id draft) v \<longleftrightarrow> v = Some (Suc (m_version draft))) \<and>
     (\<exists>e. actionlogs (ms_db sys') = actionlogs (ms_db sys) @ [e] \<and>
        decode_action (al_action e) [al_record_id e] (al_extra_args e) =
          Ok (UpdateDraft (m_id draft) (Some (Suc (m_version draft))) (m_message_id_header draft)))"
proof -
  note row = update_draft_row [OF assms(1-3)]
  have "draft_current (ms_db sys') (m_id draft) v \<longleftrightarrow> v = Some (Suc (m_version draft))" for v
    using row(1,3,4) assms(4) by (simp add: draft_current_def)
  moreover from row(6) obtain e where e: "actionlogs (ms_db sys') = actionlogs (ms_db sys) @ [e]" "al_action e = ''update_draft''"
    "al_record_id e = m_id draft"
    "al_extra_args e = version_args (Suc (m_version draft)) @ [(''old_message_id_header'', jopt (m_message_id_header draft))]"
    by blast
  moreover have "decode_action (al_action e) [al_record_id e] (al_extra_args e) =
      Ok (UpdateDraft (m_id draft) (Some (Suc (m_version draft))) (m_message_id_header draft))"
    using e(2-4)
    by (cases "m_message_id_header draft")
      (simp_all add: decode_action_def takes_args_def version_args_def arg_version_def arg_text_def jopt_def)
  ultimately show ?thesis by blast
qed

definition no_change :: draft_changes where
  "no_change = \<lparr>dc_to = None, dc_cc = None, dc_bcc = None, dc_from = None, dc_reply_to = None, dc_subject = None, dc_body = None, dc_blocks = []\<rparr>"

lemma first_update:
  obtains sys' m where "sm_update_draft sample_draft_env no_change first_draft draft_sys = Ok (sys', m)"
    "m_message_id_header m = Some ''<abc-1@mailer.nylas.com>''"
    "case sm_update_draft sample_draft_env no_change m sys' of Inl e \<Rightarrow> False | Inr p \<Rightarrow> True"
proof -
  have "case sm_update_draft sample_draft_env no_change first_draft draft_sys of
      Inl e \<Rightarrow> False
    | Inr (sys', m) \<Rightarrow> m_message_id_header m = Some ''<abc-1@mailer.nylas.com>'' \<and>
        (case sm_update_draft sample_draft_env no_change m sys' of Inl e \<Rightarrow> False | Inr p \<Rightarrow> True)" by code_simp
  then obtain sys' m where "sm_update_draft sample_draft_env no_change first_draft draft_sys = Ok (sys', m)"
    "m_message_id_header m = Some ''<abc-1@mailer.nylas.com>''"
    "case sm_update_draft sample_draft_env no_change m sys' of Inl e \<Rightarrow> False | Inr p \<Rightarrow> True"
    by (cases "sm_update_draft sample_draft_env no_change first_draft draft_sys") (simp_all, blast)
  then show thesis by (rule that)
qed

lemma draft_sys_rows:
  "t_inv m_id (messages (ms_db draft_sys))" "t_get m_id (messages (ms_db draft_sys)) (m_id first_draft) = Some first_draft"
  "m_is_draft first_draft"
  by (simp_all add: draft_sys_def draft_db_def t_inv_def empty_store_def t_get_def first_draft_def sample_message_def)

theorem update_supersedes_witness:
  "\<exists>sys' :: mail_sys. draft_current (ms_db sys') 5 (Some 1) \<and> \<not> draft_current (ms_db sys') 5 (Some 0)"
proof -
  obtain sys' m where u: "sm_update_draft sample_draft_env no_change first_draft draft_sys = Ok (sys', m)" by (rule first_update)
  have "m_id first_draft = 5" "m_version first_draft = 0" by (simp_all add: first_draft_def sample_message_def)
  with update_supersedes [OF u draft_sys_rows] have "draft_current (ms_db sys') 5 (Some 1) \<and> \<not> draft_current (ms_db sys') 5 (Some 0)"
    by simp
  then show ?thesis by blast
qed

text \<open>
  C33: Each action deletes only the version before its own. When a draft of an account that is not a Gmail account
  (so with the client for any IMAP server) is updated twice before the first action runs, this action is void and
  the version that is on the server is never deleted: a UID that only the search for its header finds survives
  both actions, beside the new version.
\<close>

theorem overtaken_update_keeps_old:
  assumes "sm_update_draft env c draft sys = Ok (sys1, m1)" and "sm_update_draft env c' m1 sys1 = Ok (sys2, m2)"
    and "t_inv m_id (messages (ms_db sys))" and "t_get m_id (messages (ms_db sys)) (m_id draft) = Some draft" and "m_is_draft draft"
    and "m_message_id_header m1 \<noteq> m_message_id_header draft"
    and "\<And>n f h. h \<noteq> m_message_id_header draft \<Longrightarrow> u \<notin> set (re_find renv n f h)"
    and "rm_db s = ms_db sys2" and "\<not> cr_gmail (rm_client s)" and "rm_log s = []"
    and "s' = run_actions renv aid tries
       [UpdateDraft (m_id draft) (Some (Suc (m_version draft))) (m_message_id_header draft),
        UpdateDraft (m_id draft) (Some (Suc (Suc (m_version draft)))) (m_message_id_header m1)] s"
  shows "\<forall>(sel, cmd, ok)\<in>set (rm_log s'). \<forall>us. cmd = Imap (CmdDelete us) \<longrightarrow> u \<notin> set us"
proof -
  note row1 = update_draft_row [OF assms(1,3,4)]
  have row1': "t_get m_id (messages (ms_db sys1)) (m_id m1) = Some m1" using row1(1,5) by simp
  note row2 = update_draft_row [OF assms(2) row1(2) row1']
  have "\<not> draft_current (rm_db s) (m_id draft) (Some (Suc (m_version draft)))"
    using row2(1,3) row1(3,5) assms(8) by (simp add: draft_current_def)
  then have "run_action renv aid (UpdateDraft (m_id draft) (Some (Suc (m_version draft))) (m_message_id_header draft)) s = (s, Ok ())"
    by (simp add: update_draft_def)
  then have first: "run_attempts renv aid tries (UpdateDraft (m_id draft) (Some (Suc (m_version draft))) (m_message_id_header draft)) s = s"
    by (cases tries) simp_all
  have "spares u s" using assms(9,10) by (simp add: spares_def)
  moreover have "u \<notin> set (re_find renv n f (m_message_id_header m1))" for n f using assms(6,7) by simp
  then have "st_keeps (spares u) (run_action renv aid
      (UpdateDraft (m_id draft) (Some (Suc (Suc (m_version draft)))) (m_message_id_header m1)))"
    by (simp add: spares_update_draft)
  ultimately have "spares u (run_attempts renv aid tries
      (UpdateDraft (m_id draft) (Some (Suc (Suc (m_version draft)))) (m_message_id_header m1)) s)"
    by (intro spares_attempts)
  with first assms(11) show ?thesis by (simp add: run_actions_def spares_def)
qed

definition one_draft_env :: remote_env where
  "one_draft_env = \<lparr>re_fault = (\<lambda>n. None), re_info = (\<lambda>f. \<lparr>si_uidvalidity = 1, si_uidnext = None\<rparr>),
     re_listing = Ok [([], ''/'', ''Drafts''), ([], ''/'', ''Trash'')],
     re_find = (\<lambda>n f h. if f = ''Drafts'' \<and> h = Some ''<abc-0@mailer.nylas.com>'' then [3] else []),
     re_msgids = (\<lambda>f us. []), re_uids_of = (\<lambda>i. []), re_separator = CHR ''/'', re_prefix = [],
     re_body = (\<lambda>i. []), re_mime = (\<lambda>p. ''mail''), re_items = (\<lambda>l. l), re_utf7 = (\<lambda>l. l)\<rparr>"

definition one_remote :: "store \<Rightarrow> remote" where
  "one_remote db = \<lparr>rm_db = db,
     rm_client = \<lparr>cr_account_id = 1, cr_gmail = False, cr_folder_map = Map.empty, cr_selected = None, cr_folder_names = None\<rparr>,
     rm_selected = None, rm_sent = 0, rm_log = []\<rparr>"

theorem overtaken_update_keeps_old_witness:
  "\<exists>sys2 :: mail_sys. \<forall>(sel, cmd, ok)\<in>set (rm_log (run_actions one_draft_env 1 1
        [UpdateDraft 5 (Some 1) (Some ''<abc-0@mailer.nylas.com>''), UpdateDraft 5 (Some 2) (Some ''<abc-1@mailer.nylas.com>'')]
        (one_remote (ms_db sys2)))).
     \<forall>us. cmd = Imap (CmdDelete us) \<longrightarrow> 3 \<notin> set us"
proof -
  obtain sys1 m1 where u1: "sm_update_draft sample_draft_env no_change first_draft draft_sys = Ok (sys1, m1)"
    and h: "m_message_id_header m1 = Some ''<abc-1@mailer.nylas.com>''"
    and again: "case sm_update_draft sample_draft_env no_change m1 sys1 of Inl e \<Rightarrow> False | Inr p \<Rightarrow> True" by (rule first_update)
  from again obtain sys2 m2 where u2: "sm_update_draft sample_draft_env no_change m1 sys1 = Ok (sys2, m2)"
    by (auto split: sum.split_asm)
  have id: "m_id first_draft = 5" "m_version first_draft = 0" "m_message_id_header first_draft = Some ''<abc-0@mailer.nylas.com>''"
    by (simp_all add: first_draft_def sample_message_def)
  have ne: "m_message_id_header m1 \<noteq> m_message_id_header first_draft" using h id(3) by simp
  have find: "3 \<notin> set (re_find one_draft_env n f h)" if "h \<noteq> m_message_id_header first_draft" for n f h
    using that id(3) by (simp add: one_draft_env_def)
  have "\<forall>(sel, cmd, ok)\<in>set (rm_log (run_actions one_draft_env 1 1
      [UpdateDraft (m_id first_draft) (Some (Suc (m_version first_draft))) (m_message_id_header first_draft),
       UpdateDraft (m_id first_draft) (Some (Suc (Suc (m_version first_draft)))) (m_message_id_header m1)] (one_remote (ms_db sys2)))).
      \<forall>us. cmd = Imap (CmdDelete us) \<longrightarrow> 3 \<notin> set us"
    by (rule overtaken_update_keeps_old [OF u1 u2 draft_sys_rows ne _ _ _ _ refl]) (simp_all add: find one_remote_def)
  then have "\<forall>(sel, cmd, ok)\<in>set (rm_log (run_actions one_draft_env 1 1
      [UpdateDraft 5 (Some 1) (Some ''<abc-0@mailer.nylas.com>''), UpdateDraft 5 (Some 2) (Some ''<abc-1@mailer.nylas.com>'')]
      (one_remote (ms_db sys2)))). \<forall>us. cmd = Imap (CmdDelete us) \<longrightarrow> 3 \<notin> set us"
    by (simp only: id h One_nat_def numeral_2_eq_2)
  then show ?thesis by blast
qed

lemma update_parts_blocks:
  "pt_block ` {p \<in> set (update_parts env mid body blocks ps). pt_message p = mid} = set blocks"
proof -
  let ?kept = "filter (\<lambda>p. pt_message p = mid \<longrightarrow> pt_block p \<in> set blocks) ps"
  let ?have = "pt_block ` set (filter (\<lambda>p. pt_message p = mid) ?kept)"
  have "{p \<in> set (update_parts env mid body blocks ps). pt_message p = mid} =
      set (filter (\<lambda>p. pt_message p = mid) ?kept) \<union> block_to_part env mid body ` {b \<in> set blocks. b \<notin> ?have}"
    by (auto simp: update_parts_def Let_def block_to_part_def)
  then have "pt_block ` {p \<in> set (update_parts env mid body blocks ps). pt_message p = mid} =
      ?have \<union> pt_block ` block_to_part env mid body ` {b \<in> set blocks. b \<notin> ?have}" by (simp only: image_Un)
  also have "pt_block ` block_to_part env mid body ` {b \<in> set blocks. b \<notin> ?have} = {b \<in> set blocks. b \<notin> ?have}"
    by (simp add: image_image block_to_part_def)
  also have "?have \<subseteq> set blocks" by auto
  then have "?have \<union> {b \<in> set blocks. b \<notin> ?have} = set blocks" by blast
  finally show ?thesis .
qed

text \<open>
  After an update the attachments of a draft are exactly the files that the update names, and other messages
  keep theirs; so an update that names none removes them all.
\<close>

theorem update_sets_attachments:
  assumes "sm_update_draft env c draft sys = Ok (sys', m)"
  shows "pt_block ` {p \<in> set (ms_parts sys'). pt_message p = m_id draft} = set (dc_blocks c) \<and>
     filter (\<lambda>p. pt_message p \<noteq> m_id draft) (ms_parts sys') = filter (\<lambda>p. pt_message p \<noteq> m_id draft) (ms_parts sys)"
proof -
  from assms obtain body where parts: "ms_parts sys' = update_parts env (m_id draft) body (dc_blocks c) (ms_parts sys)"
    by (auto simp: sm_update_draft_def Let_def res_simps)
  have "filter (\<lambda>p. pt_message p \<noteq> m_id draft) (ms_parts sys') = filter (\<lambda>p. pt_message p \<noteq> m_id draft) (ms_parts sys)"
    unfolding parts update_parts_def Let_def
    by (simp add: filter_map o_def block_to_part_def) (metis (mono_tags, lifting) filter_cong)
  moreover have "pt_block ` {p \<in> set (ms_parts sys'). pt_message p = m_id draft} = set (dc_blocks c)"
    unfolding parts by (rule update_parts_blocks)
  ultimately show ?thesis by blast
qed

theorem update_sets_attachments_witness:
  "\<exists>sys' :: mail_sys. pt_block ` {p \<in> set (ms_parts sys'). pt_message p = 5} = {}"
proof -
  obtain sys' m where u: "sm_update_draft sample_draft_env no_change first_draft draft_sys = Ok (sys', m)" by (rule first_update)
  from update_sets_attachments [OF u] show ?thesis
    by (auto simp: first_draft_def sample_message_def no_change_def)
qed

end
