(* ===== verification/Api_Folders.thy ===== *)
theory Api_Folders
  imports Api_Drafts Api_Filtering
begin

text \<open>
  Folders and labels over the API: their handlers in \<open>inbox/api/ns_api.py\<close>. The session is committed only when a handler
  returns, so a raised error leaves the store as it was.
\<close>

text \<open>The request: the clock, the rule of the route, whether updates are made at once, and the public ids of the categories.\<close>

record folder_req =
  fr_now :: datetime
  fr_rule :: string
  fr_optimistic :: bool
  fr_pid :: "nat \<Rightarrow> 128 word"

definition category_listing ::
  "folder_req \<Rightarrow> account_row \<Rightarrow> string option \<Rightarrow> nat \<Rightarrow> nat \<Rightarrow> store \<Rightarrow> (category_row, 128 word) answer res" where
  "category_listing req acc view limit offset db =
     res_bind (valid_category_type (acc_category_type acc) (fr_rule req)) (\<lambda>_.
       Ok (answer_of view (sort_key cat_id) (\<lambda>c. fr_pid req (cat_id c)) limit offset
             (filter (\<lambda>c. cat_namespace_id c = acc_namespace_id acc \<and> cat_deleted_at c = EPOCH) (categories db))))"

definition live_category :: "folder_req \<Rightarrow> account_row \<Rightarrow> json \<Rightarrow> exc \<Rightarrow> store \<Rightarrow> category_row res" where
  "live_category req acc public_id missing db =
     res_bind (valid_category_type (acc_category_type acc) (fr_rule req)) (\<lambda>_.
     res_bind (valid_public_id public_id) (\<lambda>s.
       case query_one (filter (\<lambda>c. cat_namespace_id c = acc_namespace_id acc \<and> has_public_id s (fr_pid req (cat_id c)) \<and>
                                cat_deleted_at c = EPOCH) (categories db)) of
         Inr c \<Rightarrow> Ok c
       | Inl e \<Rightarrow> Raise (if e = NoResultFound then missing else e)))"

definition folders_labels_api_impl :: "folder_req \<Rightarrow> account_row \<Rightarrow> json \<Rightarrow> store \<Rightarrow> category_row res" where
  "folders_labels_api_impl req acc public_id db = live_category req acc public_id NotFoundError db"

section \<open>Names\<close>

text \<open>
  The name on the server: none, if nothing is left between the slashes. As a name of a category that becomes
  the text None.
\<close>

definition server_name :: "account_row \<Rightarrow> string \<Rightarrow> string option" where
  "server_name acc name =
     (if acc_provider acc \<notin> {''gmail'', ''eas''}
      then imap_folder_path name (acc_folder_separator acc) (acc_folder_prefix acc) else Some name)"

definition name_text :: "string option \<Rightarrow> string" where
  "name_text n = (case n of None \<Rightarrow> ''None'' | Some s \<Rightarrow> s)"

definition given_name :: "account_row \<Rightarrow> (string \<times> json) list \<Rightarrow> store \<Rightarrow> string res" where
  "given_name acc data db =
     (let v = jget_or_null data ''display_name''
      in res_bind (valid_display_name db (acc_namespace_id acc) (acc_category_type acc) v) (\<lambda>_.
           case v of JStr s \<Rightarrow> Ok s | _ \<Rightarrow> Raise TypeError))"

text \<open>Two rows of a namespace may not agree in both names and the time of their deletion.\<close>

definition same_category_key :: "category_row \<Rightarrow> category_row \<Rightarrow> bool" where
  "same_category_key c d \<longleftrightarrow> cat_namespace_id c = cat_namespace_id d \<and> cat_name c = cat_name d \<and>
     cat_display_name c = cat_display_name d \<and> cat_deleted_at c = cat_deleted_at d"

definition flush_category :: "category_row \<Rightarrow> store \<Rightarrow> store res" where
  "flush_category c db =
     (if \<exists>d\<in>set (categories db). cat_id d \<noteq> cat_id c \<and> same_category_key c d then Raise IntegrityError
      else Ok (db\<lparr>categories := t_put cat_id (categories db) c\<rparr>))"

section \<open>Creating, renaming and deleting\<close>

definition schedule_category ::
  "folder_req \<Rightarrow> account_row \<Rightarrow> string \<Rightarrow> string \<Rightarrow> category_row \<Rightarrow> (string \<times> json) list \<Rightarrow> store \<Rightarrow> store res" where
  "schedule_category req acc verb ty c args db =
     schedule_action (fr_now req) (verb @ (if ty = ''folder'' then ''folder'' else ''label'')) ''category'' (cat_id c)
       (acc_namespace_id acc) args db"

definition folders_labels_create_api ::
  "folder_req \<Rightarrow> account_row \<Rightarrow> (string \<times> json) list \<Rightarrow> store \<Rightarrow> (store \<times> category_row) res" where
  "folders_labels_create_api req acc data db =
     (let nid = acc_namespace_id acc; ty = acc_category_type acc
      in res_bind (valid_category_type ty (fr_rule req)) (\<lambda>_.
         res_bind (given_name acc data db) (\<lambda>s.
         (let name = name_text (server_name acc s)
          in res_bind (category_find_or_create db nid None name ty) (\<lambda>(db1, c).
             (let (db2, c2) = (if category_is_deleted c then category_create db1 nid None name ty else (db1, c))
              in res_bind (schedule_category req acc ''create_'' ty c2 [] db2) (\<lambda>db3. Ok (db3, c2))))))))"

definition custom_category :: "folder_req \<Rightarrow> account_row \<Rightarrow> json \<Rightarrow> store \<Rightarrow> category_row res" where
  "custom_category req acc public_id db =
     res_bind (live_category req acc public_id (InputError ''not found'') db) (\<lambda>c.
       if cat_name c \<noteq> [] then Raise (InputError ''Cannot modify a standard category'') else Ok c)"

definition folder_label_update_api ::
  "folder_req \<Rightarrow> account_row \<Rightarrow> json \<Rightarrow> (string \<times> json) list \<Rightarrow> store \<Rightarrow> (store \<times> category_row) res" where
  "folder_label_update_api req acc public_id data db =
     res_bind (custom_category req acc public_id db) (\<lambda>c.
     res_bind (given_name acc data db) (\<lambda>s.
       (let name = server_name acc s;
            c1 = (if fr_optimistic req then c\<lparr>cat_display_name := sanitize_name (name_text name)\<rparr> else c)
        in res_bind (if fr_optimistic req then flush_category c1 db else Ok db) (\<lambda>db1.
           res_bind (schedule_category req acc ''update_'' (acc_category_type acc) c1
               [(''old_name'', JStr (cat_display_name c)), (''new_name'', jopt name)] db1) (\<lambda>db2.
             Ok (db2, c1))))))"

text \<open>The rows of the server's folders or labels of the category are marked with it.\<close>

definition mark_category_deleted :: "datetime \<Rightarrow> category_row \<Rightarrow> store \<Rightarrow> store res" where
  "mark_category_deleted now c db =
     res_bind (flush_category (c\<lparr>cat_deleted_at := now\<rparr>) db) (\<lambda>db1.
       Ok (if cat_type c = ''folder''
           then db1\<lparr>folders := map (\<lambda>f. if fld_category_id f = Some (cat_id c) then f\<lparr>fld_deleted_at := Some now\<rparr> else f) (folders db1)\<rparr>
           else db1\<lparr>labels := map (\<lambda>l. if lbl_category_id l = Some (cat_id c) then l\<lparr>lbl_deleted_at := Some now\<rparr> else l) (labels db1)\<rparr>))"

definition folder_label_delete_api :: "folder_req \<Rightarrow> account_row \<Rightarrow> json \<Rightarrow> store \<Rightarrow> store res" where
  "folder_label_delete_api req acc public_id db =
     res_bind (custom_category req acc public_id db) (\<lambda>c.
       if cat_type c = ''folder'' \<and> messages_in_category db (cat_id c) \<noteq> 0
       then Raise (InputError ''cannot be deleted because it contains messages'')
       else res_bind (if fr_optimistic req then mark_category_deleted (fr_now req) c db else Ok db) (\<lambda>db1.
              schedule_category req acc ''delete_'' (cat_type c) c [] db1))"

end
