(* ===== verification/Folder_Api_Proofs.thy ===== *)
theory Folder_Api_Proofs
  imports Api_Folders Remote_Proofs
begin

text \<open>Facts on the handlers of folders and labels: names that are translated twice, and what each handler changes.\<close>

section \<open>Names\<close>

lemma imap_folder_path_cases:
  assumes "imap_folder_path path c pfx = Some p"
  obtains comps where "comps \<noteq> []" "\<forall>f\<in>set comps. f \<noteq> [] \<and> CHR ''/'' \<notin> set f"
    "p = (if pfx \<noteq> [] \<and> \<not> prefix pfx (py_join [c] comps)
          then (if last pfx \<noteq> c then pfx @ [c] @ py_join [c] comps else pfx @ py_join [c] comps) else py_join [c] comps)"
proof
  let ?comps = "filter (\<lambda>f. f \<noteq> []) (split_from ''/'' [] path)"
  show "?comps \<noteq> []" using assms by (auto simp: imap_folder_path_def Let_def)
  show "\<forall>f\<in>set ?comps. f \<noteq> [] \<and> CHR ''/'' \<notin> set f" by (auto dest: split_from_pieces)
  show "p = (if pfx \<noteq> [] \<and> \<not> prefix pfx (py_join [c] ?comps)
          then (if last pfx \<noteq> c then pfx @ [c] @ py_join [c] ?comps else pfx @ py_join [c] ?comps) else py_join [c] ?comps)"
    using assms by (auto simp: imap_folder_path_def Let_def split: if_splits)
qed

lemma imap_folder_path_joined:
  assumes "comps \<noteq> []" and "\<forall>f\<in>set comps. f \<noteq> [] \<and> CHR ''/'' \<notin> set f"
    and "p = py_join [c] comps" and "c = CHR ''/''" and "pfx = [] \<or> prefix pfx p"
  shows "imap_folder_path p c pfx = Some p"
  using assms split_path_components [of comps] by (auto simp: imap_folder_path_def Let_def)

lemma imap_folder_path_single:
  assumes "p \<noteq> []" and "CHR ''/'' \<notin> set p" and "pfx = [] \<or> prefix pfx p"
  shows "imap_folder_path p c pfx = Some p"
  using assms by (auto simp: imap_folder_path_def Let_def split_from_no_sep)

lemma set_py_join: "set (py_join [c] xs) \<subseteq> \<Union> (set ` set xs) \<union> {c}"
  by (induction "[c]" xs rule: py_join.induct) auto

text \<open>The name on the server is its own translation, as the prefix is there already.\<close>

lemma imap_folder_path_again:
  assumes "imap_folder_path path c pfx = Some p" and "CHR ''/'' \<notin> set pfx"
  shows "imap_folder_path p c pfx = Some p"
proof -
  from imap_folder_path_cases [OF assms(1)] obtain comps where
    comps: "comps \<noteq> []" "\<forall>f\<in>set comps. f \<noteq> [] \<and> CHR ''/'' \<notin> set f"
    and p: "p = (if pfx \<noteq> [] \<and> \<not> prefix pfx (py_join [c] comps)
          then (if last pfx \<noteq> c then pfx @ [c] @ py_join [c] comps else pfx @ py_join [c] comps) else py_join [c] comps)"
    by blast
  have pre: "pfx = [] \<or> prefix pfx p" using p by auto
  have ne: "py_join [c] comps \<noteq> []" using py_join_eq_Nil [of "[c]" comps] comps by blast
  show ?thesis
  proof (cases "c = CHR ''/''")
    case True
    define all where "all = (if pfx \<noteq> [] \<and> \<not> prefix pfx (py_join [c] comps) then pfx # comps else comps)"
    have "last pfx \<noteq> c" if "pfx \<noteq> []" using that True assms(2) last_in_set by metis
    then have "p = py_join [c] all" using p comps(1) by (auto simp: all_def py_join_Cons)
    moreover have "all \<noteq> []" "\<forall>f\<in>set all. f \<noteq> [] \<and> CHR ''/'' \<notin> set f" using comps assms(2) by (auto simp: all_def)
    ultimately show ?thesis using True pre imap_folder_path_joined by blast
  next
    case False
    then have "CHR ''/'' \<notin> set (py_join [c] comps)" using set_py_join [of c comps] comps(2) by auto
    then have "CHR ''/'' \<notin> set p" "p \<noteq> []" using p ne False assms(2) by (auto split: if_splits)
    with pre show ?thesis using imap_folder_path_single by blast
  qed
qed

section \<open>What the handlers change\<close>

lemma schedule_category_Ok:
  assumes "schedule_category req acc verb ty c args db = Inr db1"
  obtains e where "db1 = db\<lparr>actionlogs := t_add (actionlogs db) e\<rparr>"
    "al_action e = verb @ (if ty = ''folder'' then ''folder'' else ''label'')" "al_record_id e = cat_id c" "al_extra_args e = args"
    "al_status e = Pending" "al_namespace_id e = acc_namespace_id acc"
  using assms that by (auto simp: schedule_category_def schedule_action_def split: option.splits)

lemma live_category_Ok:
  assumes "live_category req acc public_id missing db = Inr c"
  shows "c \<in> set (categories db)" "cat_namespace_id c = acc_namespace_id acc" "cat_deleted_at c = EPOCH"
    "\<exists>s. public_id = JStr s \<and> has_public_id s (fr_pid req (cat_id c))"
  using assms unfolding live_category_def valid_public_id_def valid_category_type_def
  by (auto simp: res_bind_def query_one_Ok filter_eq_Cons_iff split: if_splits sum.splits json.splits)

lemma custom_category_Ok:
  assumes "custom_category req acc public_id db = Inr c"
  shows "c \<in> set (categories db)" "cat_namespace_id c = acc_namespace_id acc" "cat_deleted_at c = EPOCH" "cat_name c = []"
    "\<exists>s. public_id = JStr s \<and> has_public_id s (fr_pid req (cat_id c))"
proof -
  have "live_category req acc public_id (InputError ''not found'') db = Inr c" and name: "cat_name c = []"
    using assms by (auto simp: custom_category_def res_bind_def split: if_splits sum.splits)
  from live_category_Ok [OF this(1)] name
  show "c \<in> set (categories db)" "cat_namespace_id c = acc_namespace_id acc" "cat_deleted_at c = EPOCH" "cat_name c = []"
    "\<exists>s. public_id = JStr s \<and> has_public_id s (fr_pid req (cat_id c))" by auto
qed

lemma given_name_Ok:
  assumes "given_name acc data db = Inr s"
  shows "jget_or_null data ''display_name'' = JStr s" "length (py_rstrip s) \<le> MAX_INDEXABLE_LENGTH"
    "\<not> (\<exists>c\<in>set (categories db). cat_namespace_id c = acc_namespace_id acc \<and> lowercase_name c = py_lower (py_rstrip s) \<and>
        cat_type c = acc_category_type acc \<and> cat_deleted_at c = EPOCH)"
  using assms by (auto simp: given_name_def valid_display_name_def res_bind_def Let_def split: if_splits json.splits)

lemma flush_category_Ok:
  "flush_category c db = Inr db1 \<Longrightarrow> db1 = db\<lparr>categories := t_put cat_id (categories db) c\<rparr>"
  by (auto simp: flush_category_def split: if_splits)

text \<open>What an accepted update has done.\<close>

lemma folder_label_update_Ok:
  assumes "folder_label_update_api req acc public_id data db = Inr (db2, c1)"
  obtains c s db1 e where "custom_category req acc public_id db = Inr c" "given_name acc data db = Inr s"
    "c1 = (if fr_optimistic req then c\<lparr>cat_display_name := sanitize_name (name_text (server_name acc s))\<rparr> else c)"
    "db1 = (if fr_optimistic req then db\<lparr>categories := t_put cat_id (categories db) c1\<rparr> else db)"
    "db2 = db1\<lparr>actionlogs := t_add (actionlogs db) e\<rparr>"
    "al_action e = ''update_'' @ (if acc_category_type acc = ''folder'' then ''folder'' else ''label'')"
    "al_record_id e = cat_id c"
    "al_extra_args e = [(''old_name'', JStr (cat_display_name c)), (''new_name'', jopt (server_name acc s))]"
proof -
  from assms obtain c s db1 where c: "custom_category req acc public_id db = Inr c" and s: "given_name acc data db = Inr s"
    and c1: "c1 = (if fr_optimistic req then c\<lparr>cat_display_name := sanitize_name (name_text (server_name acc s))\<rparr> else c)"
    and fl: "(if fr_optimistic req then flush_category c1 db else Inr db) = Inr db1"
    and sch: "schedule_category req acc ''update_'' (acc_category_type acc) c1
               [(''old_name'', JStr (cat_display_name c)), (''new_name'', jopt (server_name acc s))] db1 = Inr db2"
    unfolding folder_label_update_api_def by (auto simp: Let_def res_bind_def split: sum.splits)
  have db1: "db1 = (if fr_optimistic req then db\<lparr>categories := t_put cat_id (categories db) c1\<rparr> else db)"
    using fl by (auto split: if_splits dest: flush_category_Ok)
  have id: "cat_id c1 = cat_id c" and logs: "actionlogs db1 = actionlogs db" using c1 db1 by auto
  obtain e where "db2 = db1\<lparr>actionlogs := t_add (actionlogs db1) e\<rparr>"
    "al_action e = ''update_'' @ (if acc_category_type acc = ''folder'' then ''folder'' else ''label'')"
    "al_record_id e = cat_id c1" "al_extra_args e = [(''old_name'', JStr (cat_display_name c)), (''new_name'', jopt (server_name acc s))]"
    using schedule_category_Ok [OF sch] by blast
  with id logs c s c1 db1 that show thesis by metis
qed

lemma server_name_again:
  assumes "server_name acc s = Some p" and "acc_provider acc \<in> {''gmail'', ''eas''} \<or> CHR ''/'' \<notin> set (acc_folder_prefix acc)"
  shows "server_name acc p = Some p"
  using assms imap_folder_path_again by (auto simp: server_name_def split: if_splits)

text \<open>The same rename, whether the row was changed by the request already or not.\<close>

lemma rename_rows_after:
  assumes "t_inv cat_id (categories db)" and "c \<in> set (categories db)"
    and "cats = categories db \<or> cats = t_put cat_id (categories db) (c\<lparr>cat_display_name := sanitize_name p\<rparr>)"
  shows "rename_rows (cat_id c) old p (db\<lparr>categories := cats, actionlogs := ls\<rparr>) =
     Inr (db\<lparr>categories := t_put cat_id (categories db) (c\<lparr>cat_display_name := sanitize_name p\<rparr>), actionlogs := ls,
        folders := map (\<lambda>f. if fld_category_id f = Some (cat_id c) \<and> fld_name f = old
                            then f\<lparr>fld_name := sanitize_name p\<rparr> else f) (folders db)\<rparr>)"
proof -
  have get: "t_get cat_id (categories db) (cat_id c) = Some c" using t_get_mem [OF assms(1,2)] by simp
  show ?thesis
  proof (cases "cats = categories db")
    case True
    with get show ?thesis by (simp add: rename_rows_def)
  next
    case False
    with assms(3) have cats: "cats = t_put cat_id (categories db) (c\<lparr>cat_display_name := sanitize_name p\<rparr>)" by blast
    have "t_get cat_id cats (cat_id c) = Some (c\<lparr>cat_display_name := sanitize_name p\<rparr>)"
      using get assms(1) unfolding cats by (simp add: cats.get_put)
    moreover have "t_put cat_id cats (c\<lparr>cat_display_name := sanitize_name p\<rparr>) = cats"
      unfolding cats by (simp add: t_put_def)
    ultimately show ?thesis using cats by (simp add: rename_rows_def)
  qed
qed

section \<open>Deletion\<close>

lemma mark_category_deleted_Ok:
  assumes "mark_category_deleted now c db = Inr db1" and "cat_type c = ''folder''"
  shows "db1 = db\<lparr>categories := t_put cat_id (categories db) (c\<lparr>cat_deleted_at := now\<rparr>),
    folders := map (\<lambda>f. if fld_category_id f = Some (cat_id c) then f\<lparr>fld_deleted_at := Some now\<rparr> else f) (folders db)\<rparr>"
  using assms by (auto simp: mark_category_deleted_def res_bind_def split: sum.splits dest!: flush_category_Ok)

lemma folder_label_delete_Ok:
  assumes "folder_label_delete_api req acc public_id db = Inr db2"
  obtains c db1 e where "custom_category req acc public_id db = Inr c"
    "cat_type c = ''folder'' \<Longrightarrow> messages_in_category db (cat_id c) = 0"
    "(if fr_optimistic req then mark_category_deleted (fr_now req) c db else Inr db) = Inr db1"
    "db2 = db1\<lparr>actionlogs := t_add (actionlogs db1) e\<rparr>"
    "al_action e = ''delete_'' @ (if cat_type c = ''folder'' then ''folder'' else ''label'')" "al_record_id e = cat_id c" "al_extra_args e = []"
proof -
  from assms obtain c db1 where c: "custom_category req acc public_id db = Inr c"
    and n: "cat_type c = ''folder'' \<Longrightarrow> messages_in_category db (cat_id c) = 0"
    and m: "(if fr_optimistic req then mark_category_deleted (fr_now req) c db else Inr db) = Inr db1"
    and s: "schedule_category req acc ''delete_'' (cat_type c) c [] db1 = Inr db2"
    unfolding folder_label_delete_api_def by (auto simp: res_bind_def split: sum.splits if_splits)
  from schedule_category_Ok [OF s] that [OF c n m] show thesis by blast
qed

lemma delete_folder_keeps_messages:
  assumes "\<forall>m\<in>set (messages (rm_db r)). Some cid \<notin> set (m_categories m)"
  shows "messages (rm_db (fst (delete_folder_and_row env cid r))) = messages (rm_db r)"
proof (cases "t_get cat_id (categories (rm_db r)) cid")
  case (Some c)
  obtain r1 x where send: "remote_send env (CmdDeleteFolder (cat_display_name c)) r = (r1, x)" by fastforce
  then have "rm_db r1 = rm_db r" by (auto simp: remote_send_def Let_def)
  with send Some delete_category_messages [of "rm_db r" cid] assms show ?thesis
    by (cases x) (auto simp: delete_folder_and_row_def with_category_def)
qed (simp add: delete_folder_and_row_def with_category_def)

section \<open>Names used again\<close>

lemma two_rows_stop:
  assumes "c \<in> set (categories db)" and "d \<in> set (categories db)" and "c \<noteq> d"
    and "cat_namespace_id c = nid" "cat_namespace_id d = nid"
    and "cat_display_name c = sanitize_name name" "cat_display_name d = sanitize_name name"
  shows "category_find_or_create db nid role name ty = Raise MultipleResultsFound"
proof -
  let ?found = "filter (\<lambda>c. cat_namespace_id c = nid \<and> cat_display_name c = sanitize_name name) (categories db)"
  have "c \<in> set ?found" "d \<in> set ?found" using assms by auto
  then obtain x y zs where "?found = x # y # zs" using assms(3) by (cases ?found rule: list.exhaust; cases "tl ?found") auto
  then show ?thesis by (simp add: category_find_or_create_def)
qed

lemma category_find_or_create_found:
  assumes "category_find_or_create db nid None name ty = Inr (db1, c1)" and "c \<in> set (categories db)"
    and "cat_namespace_id c = nid" and "cat_display_name c = sanitize_name name"
  shows "db1 = db \<or> db1 = db\<lparr>categories := t_put cat_id (categories db) c1\<rparr>" "c1 = c"
proof -
  let ?found = "filter (\<lambda>c. cat_namespace_id c = nid \<and> cat_display_name c = sanitize_name name) (categories db)"
  have mem: "c \<in> set ?found" using assms by auto
  have "\<exists>x. ?found = [x]" using mem assms(1)
    by (cases ?found rule: list.exhaust; cases "tl ?found") (auto simp: category_find_or_create_def)
  with mem have found: "?found = [c]" by (metis empty_iff set_ConsD empty_set)
  have same: "c\<lparr>cat_name := []\<rparr> = c" if "cat_name c = []" using that by (cases c) simp
  from assms(1) found have "(if cat_name c = [] then Inr (db\<lparr>categories := t_put cat_id (categories db) (c\<lparr>cat_name := []\<rparr>)\<rparr>, c\<lparr>cat_name := []\<rparr>)
      else Inr (db, c)) = (Inr (db1, c1) :: (store \<times> category_row) res)"
    unfolding category_find_or_create_def Let_def by (auto simp: str_or_def split: if_splits)
  then show "db1 = db \<or> db1 = db\<lparr>categories := t_put cat_id (categories db) c1\<rparr>" "c1 = c"
    by (auto simp: same split: if_splits)
qed

end
