(* ===== verification/Props_Folders.thy ===== *)
theory Props_Folders
  imports Folder_Api_Proofs Samples
begin

text \<open>
  Properties of folders and labels over the API, together with the actions that carry the changes to the server
  and with the sync that finds them there.
\<close>

definition folder_req :: folder_req where
  "folder_req = \<lparr>fr_now = 9, fr_rule = ''/folders'', fr_optimistic = True, fr_pid = (\<lambda>i. 11)\<rparr>"

definition dot_account :: account_row where
  "dot_account = sample_account\<lparr>acc_folder_separator := CHR ''.'', acc_folder_prefix := ''INBOX''\<rparr>"

definition work_category :: category_row where
  "work_category = \<lparr>cat_id = 1, cat_namespace_id = 1, cat_name = [], cat_display_name = ''INBOX.work'', cat_type = ''folder'',
     cat_deleted_at = 0\<rparr>"

definition folder_db :: store where
  "folder_db = empty_store\<lparr>accounts := [dot_account], categories := [work_category],
     folders := [sample_folder\<lparr>fld_name := ''INBOX.work'', fld_canonical_name := [], fld_category_id := Some 1\<rparr>]\<rparr>"

definition named :: "string \<Rightarrow> (string \<times> json) list" where
  "named s = [(''display_name'', JStr s)]"

lemmas folder_samples = folder_req_def dot_account_def work_category_def folder_db_def named_def sample_defs

lemma sample_id: "valid_public_id (JStr ''b'') = Ok ''b''" "has_public_id ''b'' 11"
proof -
  have "base36decode ''b'' = Ok 11" by code_simp
  then show "has_public_id ''b'' 11" by (simp add: has_public_id_def b36_to_bin_def)
  show "valid_public_id (JStr ''b'') = Ok ''b''" by code_simp
qed

lemma sample_category: "custom_category folder_req dot_account (JStr ''b'') folder_db = Ok work_category"
proof -
  have "valid_category_type ''folder'' ''/folders'' = Ok ''folder''" by code_simp
  then show ?thesis
    using sample_id by (simp add: custom_category_def live_category_def query_one_def EPOCH_def folder_samples)
qed

lemma sample_rename: "\<exists>db1 c1. folder_label_update_api folder_req dot_account (JStr ''b'') (named ''home/bills'') folder_db = Ok (db1, c1)"
proof -
  have "given_name dot_account (named ''home/bills'') folder_db = Ok ''home/bills''" by code_simp
  then show ?thesis
    using sample_category
    by (simp add: folder_label_update_api_def schedule_category_def schedule_action_def flush_category_def folder_samples
        account_of_namespace_def Let_def)
qed

section \<open>Renaming\<close>

text \<open>
  C34: A rename of a folder by the API is one action, and this action renames the folder on the server from the
  name it had to the translation of the new name; afterwards its category and its row have this name,
  whether the request had renamed the category already or not. Translating the name a second time
  does no harm.
\<close>

theorem folder_rename_carried_out:
  assumes "folder_label_update_api req acc public_id data db = Ok (db1, c1)"
    and inv: "t_inv cat_id (categories db)" and acc: "t_get acc_id (accounts db) (acc_id acc) = Some acc"
    and folder: "acc_category_type acc = ''folder''"
    and pfx: "acc_provider acc \<in> {''gmail'', ''eas''} \<or> CHR ''/'' \<notin> set (acc_folder_prefix acc)"
    and data: "jget_or_null data ''display_name'' = JStr s" and name: "server_name acc s = Some p"
    and env: "re_separator env = acc_folder_separator acc" "re_prefix env = acc_folder_prefix acc"
    and r: "rm_db r = db1" and quiet: "re_fault env (rm_sent r) = None"
  shows "\<exists>c e a r'. c \<in> set (categories db) \<and> cat_name c = [] \<and> cat_namespace_id c = acc_namespace_id acc \<and>
     actionlogs db1 = t_add (actionlogs db) e \<and> decode_action (al_action e) [al_record_id e] (al_extra_args e) = Ok a \<and>
     run_action env (acc_id acc) a r = (r', Ok ()) \<and>
     rm_log r' = rm_log r @ [(rm_selected r, CmdRenameFolder (cat_display_name c) (Some p), True)] \<and>
     (p \<noteq> cat_display_name c \<longrightarrow>
        categories (rm_db r') = t_put cat_id (categories db) (c\<lparr>cat_display_name := sanitize_name p\<rparr>) \<and>
        folders (rm_db r') = map (\<lambda>f. if fld_category_id f = Some (cat_id c) \<and> fld_name f = cat_display_name c
                                       then f\<lparr>fld_name := sanitize_name p\<rparr> else f) (folders db))"
proof -
  from folder_label_update_Ok [OF assms(1)] obtain c s' db0 e where
    c: "custom_category req acc public_id db = Inr c" and s': "given_name acc data db = Inr s'"
    and c1: "c1 = (if fr_optimistic req then c\<lparr>cat_display_name := sanitize_name (name_text (server_name acc s'))\<rparr> else c)"
    and db0: "db0 = (if fr_optimistic req then db\<lparr>categories := t_put cat_id (categories db) c1\<rparr> else db)"
    and db1: "db1 = db0\<lparr>actionlogs := t_add (actionlogs db) e\<rparr>"
    and e: "al_action e = ''update_'' @ (if acc_category_type acc = ''folder'' then ''folder'' else ''label'')" "al_record_id e = cat_id c"
      "al_extra_args e = [(''old_name'', JStr (cat_display_name c)), (''new_name'', jopt (server_name acc s'))]"
    by blast
  note cs = custom_category_Ok [OF c]
  have [simp]: "s' = s" using given_name_Ok(1) [OF s'] data by simp
  let ?old = "cat_display_name c" and ?a = "UpdateFolder (cat_id c) (cat_display_name c) p"
  have dec: "decode_action (al_action e) [al_record_id e] (al_extra_args e) = Inr ?a"
    using e folder name by (simp add: decode_action_def takes_args_def need_text_def jopt_def res_bind_def)
  have path: "(if acc_provider acc \<in> {''gmail'', ''eas''} then Some p else imap_folder_path p (re_separator env) (re_prefix env)) = Some p"
    using server_name_again [OF name pfx] env by (auto simp: server_name_def split: if_splits)
  have accs: "t_get acc_id (accounts (rm_db r)) (acc_id acc) = Some acc" using acc r db1 db0 by simp
  let ?r1 = "r\<lparr>rm_sent := Suc (rm_sent r), rm_log := rm_log r @ [(rm_selected r, CmdRenameFolder ?old (Some p), True)]\<rparr>"
  have run: "run_action env (acc_id acc) ?a r =
      (if p = ?old then (?r1, Inr ())
       else case rename_rows (cat_id c) ?old p (rm_db r) of Inl e \<Rightarrow> (?r1, Inl e) | Inr d \<Rightarrow> (?r1\<lparr>rm_db := d\<rparr>, Inr ()))"
    using accs path quiet by (simp add: remote_update_folder_def remote_send_def st_bind_def split: sum.split)
  have shape: "rm_db r = db\<lparr>categories := categories db1, actionlogs := t_add (actionlogs db) e\<rparr>"
    using r db1 db0 by simp
  have "categories db1 = categories db \<or> categories db1 = t_put cat_id (categories db) (c\<lparr>cat_display_name := sanitize_name p\<rparr>)"
    using db1 db0 c1 name by (simp add: name_text_def)
  from rename_rows_after [OF inv cs(1) this, of ?old "t_add (actionlogs db) e"]
  show ?thesis
    using cs(1,2,4) dec run db1 db0 unfolding shape [symmetric]
    by (intro exI [of _ c] exI [of _ e] exI [of _ ?a] exI [of _ "fst (run_action env (acc_id acc) ?a r)"]) auto
qed

definition quiet_server :: remote_env where
  "quiet_server = \<lparr>re_fault = (\<lambda>n. None), re_info = (\<lambda>f. \<lparr>si_uidvalidity = 1, si_uidnext = None\<rparr>), re_listing = Ok [],
     re_find = (\<lambda>n f h. []), re_msgids = (\<lambda>f us. []), re_uids_of = (\<lambda>i. []), re_separator = CHR ''.'', re_prefix = ''INBOX'',
     re_body = (\<lambda>i. []), re_mime = (\<lambda>p. ''mail''), re_items = (\<lambda>l. l), re_utf7 = (\<lambda>l. l)\<rparr>"

definition connection :: "store \<Rightarrow> remote" where
  "connection db = \<lparr>rm_db = db, rm_client = \<lparr>cr_account_id = 1, cr_gmail = False, cr_folder_map = Map.empty, cr_selected = None,
       cr_folder_names = None\<rparr>, rm_selected = None, rm_sent = 0, rm_log = []\<rparr>"

theorem folder_rename_carried_out_witness:
  "\<exists>db1 c1 c e a r'. folder_label_update_api folder_req dot_account (JStr ''b'') (named ''home/bills'') folder_db = Ok (db1, c1) \<and>
     c \<in> set (categories folder_db) \<and> actionlogs db1 = t_add [] e \<and>
     decode_action (al_action e) [al_record_id e] (al_extra_args e) = Ok a \<and>
     run_action quiet_server 1 a (connection db1) = (r', Ok ()) \<and>
     rm_log r' = [(None, CmdRenameFolder ''INBOX.work'' (Some ''INBOX.home.bills''), True)]"
proof -
  obtain db1 c1 where run: "folder_label_update_api folder_req dot_account (JStr ''b'') (named ''home/bills'') folder_db = Ok (db1, c1)"
    using sample_rename by blast
  have name: "server_name dot_account ''home/bills'' = Some ''INBOX.home.bills''" by code_simp
  have "\<exists>c e a r'. c \<in> set (categories folder_db) \<and> cat_name c = [] \<and> cat_namespace_id c = acc_namespace_id dot_account \<and>
     actionlogs db1 = t_add (actionlogs folder_db) e \<and> decode_action (al_action e) [al_record_id e] (al_extra_args e) = Ok a \<and>
     run_action quiet_server (acc_id dot_account) a (connection db1) = (r', Ok ()) \<and>
     rm_log r' = rm_log (connection db1) @
       [(rm_selected (connection db1), CmdRenameFolder (cat_display_name c) (Some ''INBOX.home.bills''), True)] \<and>
     (''INBOX.home.bills'' \<noteq> cat_display_name c \<longrightarrow>
        categories (rm_db r') = t_put cat_id (categories folder_db) (c\<lparr>cat_display_name := sanitize_name ''INBOX.home.bills''\<rparr>) \<and>
        folders (rm_db r') = map (\<lambda>f. if fld_category_id f = Some (cat_id c) \<and> fld_name f = cat_display_name c
                                       then f\<lparr>fld_name := sanitize_name ''INBOX.home.bills''\<rparr> else f) (folders folder_db))"
    by (rule folder_rename_carried_out [OF run _ _ _ _ _ name])
      (simp_all add: folder_samples t_inv_def t_get_def quiet_server_def connection_def jget_or_null_def)
  with run show ?thesis by (auto simp: connection_def folder_samples)
qed

section \<open>Deleting\<close>

text \<open>
  C35: The API deletes no standard category and no folder that has a message: what it accepts is one scheduled
  deletion of a live category of the account without a role, the time of deletion is set at most on this category and on its
  folders, which are otherwise as before, and when the action runs before anything else happens, no message of the store is
  changed, whatever the server answers.
\<close>

theorem folder_delete_safe:
  assumes "folder_label_delete_api req acc public_id db = Ok db1" and "t_inv cat_id (categories db)"
    and "acc_category_type acc = ''folder''" and "\<forall>c\<in>set (categories db). cat_namespace_id c = acc_namespace_id acc \<longrightarrow> cat_type c = ''folder''"
    and r: "rm_db r = db1"
  shows "\<exists>c e a. c \<in> set (categories db) \<and> cat_namespace_id c = acc_namespace_id acc \<and> cat_name c = [] \<and> cat_deleted_at c = EPOCH \<and>
     (\<forall>i. t_get cat_id (categories db1) i =
        (if i = cat_id c \<and> fr_optimistic req then Some (c\<lparr>cat_deleted_at := fr_now req\<rparr>) else t_get cat_id (categories db) i)) \<and>
     messages db1 = messages db \<and>
     folders db1 = (if fr_optimistic req
       then map (\<lambda>f. if fld_category_id f = Some (cat_id c) then f\<lparr>fld_deleted_at := Some (fr_now req)\<rparr> else f) (folders db)
       else folders db) \<and>
     actionlogs db1 = t_add (actionlogs db) e \<and>
     decode_action (al_action e) [al_record_id e] (al_extra_args e) = Ok a \<and>
     messages (rm_db (fst (run_action env (acc_id acc) a r))) = messages db"
proof -
  from folder_label_delete_Ok [OF assms(1)] obtain c db0 e where c: "custom_category req acc public_id db = Inr c"
    and n: "cat_type c = ''folder'' \<Longrightarrow> messages_in_category db (cat_id c) = 0"
    and m: "(if fr_optimistic req then mark_category_deleted (fr_now req) c db else Inr db) = Inr db0"
    and db1: "db1 = db0\<lparr>actionlogs := t_add (actionlogs db0) e\<rparr>"
    and e: "al_action e = ''delete_'' @ (if cat_type c = ''folder'' then ''folder'' else ''label'')" "al_record_id e = cat_id c" "al_extra_args e = []"
    by blast
  note cs = custom_category_Ok [OF c]
  have type: "cat_type c = ''folder''" using assms(4) cs by blast
  have none: "Some (cat_id c) \<notin> set (m_categories m)" if "m \<in> set (messages db)" for m
    using n [OF type] that by (auto simp: messages_in_category_def filter_empty_conv)
  have db0: "db0 = (if fr_optimistic req then db\<lparr>categories := t_put cat_id (categories db) (c\<lparr>cat_deleted_at := fr_now req\<rparr>),
      folders := map (\<lambda>f. if fld_category_id f = Some (cat_id c) then f\<lparr>fld_deleted_at := Some (fr_now req)\<rparr> else f) (folders db)\<rparr> else db)"
    using m mark_category_deleted_Ok [OF _ type, of "fr_now req" db db0] by (simp split: if_splits)
  have get: "t_get cat_id (categories db) (cat_id c) = Some c" using t_get_mem [OF assms(2) cs(1)] .
  let ?a = "DeleteFolder (cat_id c)"
  have dec: "decode_action (al_action e) [al_record_id e] (al_extra_args e) = Inr ?a"
    using e type by (simp add: decode_action_def takes_args_def)
  have msgs: "messages db1 = messages db" using db1 db0 by simp
  have "messages (rm_db (fst (run_action env (acc_id acc) ?a r))) = messages (rm_db r)"
    using none msgs r by (simp add: remote_delete_folder_def delete_folder_keeps_messages)
  moreover have "t_get cat_id (categories db1) i =
        (if i = cat_id c \<and> fr_optimistic req then Some (c\<lparr>cat_deleted_at := fr_now req\<rparr>) else t_get cat_id (categories db) i)" for i
    using db1 db0 get assms(2) by (simp add: cats.get_put)
  ultimately show ?thesis
    using cs(1-4) dec msgs db1 db0 r by (intro exI [of _ c] exI [of _ e] exI [of _ ?a]) auto
qed

theorem folder_delete_safe_witness:
  "\<exists>db1 c (e :: actionlog_row) a. folder_label_delete_api folder_req dot_account (JStr ''b'') folder_db = Ok db1 \<and> c \<in> set (categories folder_db) \<and>
     messages db1 = [] \<and> decode_action (al_action e) [al_record_id e] (al_extra_args e) = Ok a \<and>
     messages (rm_db (fst (run_action quiet_server 1 a (connection db1)))) = []"
proof -
  have "\<exists>db1. folder_label_delete_api folder_req dot_account (JStr ''b'') folder_db = Ok db1"
    using sample_category by (simp add: folder_label_delete_api_def messages_in_category_def mark_category_deleted_def
        flush_category_def schedule_category_def schedule_action_def account_of_namespace_def folder_samples)
  then obtain db1 where run: "folder_label_delete_api folder_req dot_account (JStr ''b'') folder_db = Ok db1" ..
  have facts: "t_inv cat_id (categories folder_db)" "acc_category_type dot_account = ''folder''"
    "\<forall>c\<in>set (categories folder_db). cat_namespace_id c = acc_namespace_id dot_account \<longrightarrow> cat_type c = ''folder''"
    "rm_db (connection db1) = db1" "acc_id dot_account = 1" "messages folder_db = []"
    by (simp_all add: folder_samples t_inv_def connection_def)
  from folder_delete_safe [OF run facts(1-4), of quiet_server] obtain c and e :: actionlog_row and a where
    "c \<in> set (categories folder_db)" "messages db1 = []" "decode_action (al_action e) [al_record_id e] (al_extra_args e) = Ok a"
    "messages (rm_db (fst (run_action quiet_server 1 a (connection db1)))) = []"
    unfolding facts(5,6) by blast
  with run show ?thesis by blast
qed

section \<open>Names used again\<close>

text \<open>
  C36: A category whose row is only marked as deleted stays in the way of its name: when the API makes a category
  of this name again, there are two rows, and the sync of a folder of this name that has no row yet fails,
  as does every further request for the name that passes validation, until the first row is gone.
\<close>

theorem name_used_again_stops_sync:
  assumes "folders_labels_create_api req acc data db = Ok (db1, c1)"
    and data: "jget_or_null data ''display_name'' = JStr s"
    and c: "c \<in> set (categories db)" "cat_namespace_id c = acc_namespace_id acc" "EPOCH < cat_deleted_at c"
      "cat_display_name c = sanitize_name (name_text (server_name acc s))"
    and name: "sanitize_name name = sanitize_name (name_text (server_name acc s))"
    and new: "\<forall>f\<in>set (folders db1). fld_account_id f = acc_id acc \<longrightarrow> fld_name f \<noteq> sanitize_name name"
  shows "folder_find_or_create db1 acc name role = Raise MultipleResultsFound \<and>
     category_find_or_create db1 (acc_namespace_id acc) role' name ty = Raise MultipleResultsFound"
proof -
  let ?n = "name_text (server_name acc s)"
  from assms(1) data obtain db2 c2 where
    found: "category_find_or_create db (acc_namespace_id acc) None ?n (acc_category_type acc) = Inr (db2, c2)"
    and rest: "\<exists>db3. (if category_is_deleted c2 then category_create db2 (acc_namespace_id acc) None ?n (acc_category_type acc) else (db2, c2)) = (db3, c1) \<and>
       schedule_category req acc ''create_'' (acc_category_type acc) c1 [] db3 = Inr db1"
    unfolding folders_labels_create_api_def
    by (auto simp: Let_def res_bind_def split: sum.splits prod.splits dest!: given_name_Ok(1))
  note same = category_find_or_create_found [OF found c(1,2,4)]
  have cats2: "c \<in> set (categories db2)" using same c(1) by (auto simp: cats.set_put)
  from rest same(2) c(3) obtain db3 where "category_create db2 (acc_namespace_id acc) None ?n (acc_category_type acc) = (db3, c1)"
    and "schedule_category req acc ''create_'' (acc_category_type acc) c1 [] db3 = Inr db1"
    by (auto simp: category_is_deleted_def)
  then have "categories db1 = t_add (categories db2) c1" and c1: "cat_namespace_id c1 = acc_namespace_id acc"
    "cat_display_name c1 = sanitize_name ?n" "cat_deleted_at c1 = EPOCH"
    by (auto simp: category_create_def Let_def elim!: schedule_category_Ok)
  then have mem: "c \<in> set (categories db1)" "c1 \<in> set (categories db1)" using cats2 by (auto simp: cats.set_add)
  have "c \<noteq> c1" using c(3) c1(3) by auto
  from two_rows_stop [OF mem this c(2) c1(1), of name] c(4) c1(2) name
  have stop: "category_find_or_create db1 (acc_namespace_id acc) r name t = Raise MultipleResultsFound" for r t by simp
  have "filter (\<lambda>f. fld_account_id f = acc_id acc \<and> fld_name f = sanitize_name name) (folders db1) = []"
    using new by (auto simp: filter_empty_conv)
  with stop show ?thesis
    by (simp add: folder_find_or_create_def res_bind_def)
qed

theorem name_used_again_stops_sync_witness:
  "\<exists>db1 c1. folders_labels_create_api folder_req dot_account (named ''work'') (folder_db\<lparr>folders := [], categories := [work_category\<lparr>cat_deleted_at := 5\<rparr>]\<rparr>) = Ok (db1, c1) \<and>
     folder_find_or_create db1 dot_account ''INBOX.work'' None = Raise MultipleResultsFound"
proof -
  let ?db = "folder_db\<lparr>folders := [], categories := [work_category\<lparr>cat_deleted_at := 5\<rparr>]\<rparr>"
  have name: "server_name dot_account ''work'' = Some ''INBOX.work''" "sanitize_name ''INBOX.work'' = ''INBOX.work''"
    "given_name dot_account (named ''work'') ?db = Ok ''work''" "valid_category_type ''folder'' ''/folders'' = Ok ''folder''"
    by code_simp+
  then have "case folders_labels_create_api folder_req dot_account (named ''work'') ?db of Inl e \<Rightarrow> False | Inr x \<Rightarrow> folders (fst x) = []"
    by (simp add: Let_def folders_labels_create_api_def name_text_def category_find_or_create_def category_is_deleted_def category_create_def
        schedule_category_def schedule_action_def account_of_namespace_def EPOCH_def str_or_def t_put_def folder_samples)
  then obtain db1 c1 where run: "folders_labels_create_api folder_req dot_account (named ''work'') ?db = Ok (db1, c1)" "folders db1 = []"
    by (rule evaluatedE) (metis prod.collapse)
  have "folder_find_or_create db1 dot_account ''INBOX.work'' None = Raise MultipleResultsFound \<and>
      category_find_or_create db1 (acc_namespace_id dot_account) None ''INBOX.work'' [] = Raise MultipleResultsFound"
    by (rule name_used_again_stops_sync [OF run(1), of "''work''" "work_category\<lparr>cat_deleted_at := 5\<rparr>"])
      (use run(2) name in \<open>simp_all add: folder_samples name_text_def jget_or_null_def EPOCH_def\<close>)
  with run show ?thesis by blast
qed

end
