(* ===== verification/Event_Actions.thy ===== *)
theory Event_Actions
  imports Google_Provider Ical_Import Syncback Api_Update
begin

text \<open>
  Carrying changes of events to the calendar provider: \<open>inbox/events/actions/base.py\<close> and \<open>backends/gmail.py\<close>, the requests
  of \<open>inbox/events/google.py\<close> for one event, the mails of \<open>inbox/events/ical.py\<close>, and the attempts of a task in
  \<open>inbox/transactions/actions.py\<close>, which share one
  dictionary of arguments, and of the tasks that follow when its worker runs out of time.
\<close>

section \<open>The provider and the mail service\<close>

text \<open>\<open>cs_deleted\<close> are the ids of the events with a time of deletion.\<close>

record cal_sys =
  cs_db :: store
  cs_calendars :: "calendar_row list"
  cs_events :: "event_row list"
  cs_deleted :: "nat list"

datatype cal_call =
    Insert_event string "(string \<times> json) list"
  | Put_event string string "(string \<times> json) list"
  | Remove_event string string

datatype cal_entry =
    Called cal_call "(string \<times> string) list" "nat res"
  | Mailed json string

record cal_world =
  cw_sys :: cal_sys
  cw_steps :: nat
  cw_log :: "cal_entry list"

text \<open>
  What the nth exchange with the outside gives: an exception of the token or the connection, or the status of the
  answer; the id in its body; what a backend from outside the repository or a post to the mail service raises.
  \<open>ce_emailed\<close> is the calendar of events that came by mail, whose parsed times are parameters too.
\<close>

record cal_env =
  ce_google :: google_lib
  ce_time :: when_parser
  ce_date :: when_parser
  ce_reply :: "nat \<Rightarrow> nat res"
  ce_new_uid :: "nat \<Rightarrow> string res"
  ce_backend :: "string \<Rightarrow> bool"
  ce_other :: "nat \<Rightarrow> unit res"
  ce_mailgun :: bool
  ce_post :: "nat \<Rightarrow> unit res"
  ce_emailed :: nat

definition make_event_request :: "cal_env \<Rightarrow> cal_call \<Rightarrow> (string \<times> string) list \<Rightarrow> (cal_world, nat) st" where
  "make_event_request env call params s =
     (let r = ce_reply env (cw_steps s)
      in (s\<lparr>cw_steps := Suc (cw_steps s), cw_log := cw_log s @ [Called call params r]\<rparr>, r))"

definition other_backend :: "cal_env \<Rightarrow> (cal_world, unit) st" where
  "other_backend env s = (s\<lparr>cw_steps := Suc (cw_steps s)\<rparr>, ce_other env (cw_steps s))"

definition registered :: "cal_env \<Rightarrow> account_row \<Rightarrow> (cal_world, unit) st" where
  "registered env acc = (if acc_provider acc = ''gmail'' \<or> ce_backend env (acc_provider acc) then st_ok () else st_raise KeyError)"

definition the_event :: "nat \<Rightarrow> (cal_world, event_row) st" where
  "the_event eid s = (s, case t_get ev_id (cs_events (cw_sys s)) eid of None \<Rightarrow> Raise AttributeError | Some e \<Rightarrow> Ok e)"

definition event_calendar :: "event_row \<Rightarrow> cal_sys \<Rightarrow> calendar_row res" where
  "event_calendar e sys =
     (case ev_calendar_id e of
        None \<Rightarrow> Raise AttributeError
      | Some c \<Rightarrow> (case t_get cal_id (cs_calendars sys) c of None \<Rightarrow> Raise AttributeError | Some cal \<Rightarrow> Ok cal))"

definition save_event :: "event_row \<Rightarrow> cal_world \<Rightarrow> cal_world" where
  "save_event e s = s\<lparr>cw_sys := (cw_sys s)\<lparr>cs_events := t_put ev_id (cs_events (cw_sys s)) e\<rparr>\<rparr>"

section \<open>Google\<close>

definition ok_status :: "nat \<Rightarrow> (cal_world, unit) st" where
  "ok_status st = st_res (raise_for_status st)"

definition remote_create_event ::
  "cal_env \<Rightarrow> account_row \<Rightarrow> event_row \<Rightarrow> (string \<times> json) list \<Rightarrow> (cal_world, event_row) st" where
  "remote_create_event env acc e args =
     (if acc_provider acc \<noteq> ''gmail'' then st_bind (other_backend env) (\<lambda>_. st_ok e)
      else st_bind (st_res (dump_event (ce_google env) e)) (\<lambda>data.
           st_bind (\<lambda>s. (s, event_calendar e (cw_sys s))) (\<lambda>cal.
           st_bind (\<lambda>s. (s, Ok (cw_steps s))) (\<lambda>n.
           st_bind (make_event_request env (Insert_event (cal_uid cal) data) (notify_params (map_of args ''notify_participants''))) (\<lambda>st.
           st_bind (ok_status st) (\<lambda>_.
           st_bind (st_res (ce_new_uid env n)) (\<lambda>uid s.
             let e1 = e\<lparr>ev_uid := uid\<rparr> in (save_event e1 s, Ok e1))))))))"

definition remote_update_event ::
  "cal_env \<Rightarrow> account_row \<Rightarrow> event_row \<Rightarrow> (string \<times> json) list \<Rightarrow> (cal_world, unit) st" where
  "remote_update_event env acc e args =
     (if acc_provider acc \<noteq> ''gmail'' then other_backend env
      else st_bind (st_res (dump_event (ce_google env) e)) (\<lambda>data.
           st_bind (\<lambda>s. (s, event_calendar e (cw_sys s))) (\<lambda>cal.
           st_bind (make_event_request env (Put_event (cal_uid cal) (ev_uid e) data) (notify_params (map_of args ''notify_participants'')))
             ok_status)))"

text \<open>A missing uid of the event is the empty text in the address; a missing one of the calendar cannot be quoted.\<close>

definition remote_delete_event ::
  "cal_env \<Rightarrow> account_row \<Rightarrow> string option \<Rightarrow> string option \<Rightarrow> (string \<times> json) list \<Rightarrow> (cal_world, unit) st" where
  "remote_delete_event env acc event_uid calendar_uid args =
     (if acc_provider acc \<noteq> ''gmail'' then other_backend env
      else (case calendar_uid of
              None \<Rightarrow> st_raise TypeError
            | Some c \<Rightarrow>
                st_bind (make_event_request env (Remove_event c (str_or event_uid [])) (notify_params (map_of args ''notify_participants'')))
                  (\<lambda>st. st_res (delete_remote_event st))))"

section \<open>Mails\<close>

fun mail_each :: "cal_env \<Rightarrow> string \<Rightarrow> json list \<Rightarrow> (cal_world, unit) st" where
  "mail_each env ty [] = st_ok ()"
| "mail_each env ty (j # js) =
     st_bind (\<lambda>s. (s\<lparr>cw_steps := Suc (cw_steps s)\<rparr>, ce_post env (cw_steps s))) (\<lambda>_.
     st_bind (\<lambda>s. (s\<lparr>cw_log := cw_log s @ [Mailed j ty]\<rparr>, Ok ())) (\<lambda>_. mail_each env ty js))"

definition send_invite :: "cal_env \<Rightarrow> account_row \<Rightarrow> event_row \<Rightarrow> string \<Rightarrow> (cal_world, unit) st" where
  "send_invite env acc e ty =
     st_bind (st_res (py_assert (ce_mailgun env))) (\<lambda>_. mail_each env ty (invite_recipients (acc_email acc) e))"

definition notifies :: "account_row \<Rightarrow> (string \<times> json) list \<Rightarrow> bool" where
  "notifies acc args \<longleftrightarrow>
     json_truthy (jget_or_null args ''notify_participants'') \<and> acc_provider acc \<noteq> ''gmail''"

definition invite :: "cal_env \<Rightarrow> account_row \<Rightarrow> event_row \<Rightarrow> string \<Rightarrow> string \<Rightarrow> (cal_world, unit) st" where
  "invite env acc e file_type mail_type =
     st_bind (st_res (generate_icalendar_invite e file_type)) (\<lambda>_. send_invite env acc e mail_type)"

section \<open>Actions\<close>

fun dicts :: "json list \<Rightarrow> participant list res" where
  "dicts [] = Ok []"
| "dicts (JDict d # vs) = res_bind (dicts vs) (\<lambda>ds. Ok (d # ds))"
| "dicts (v # vs) = Raise TypeError"

definition dict_list :: "json \<Rightarrow> participant list res" where
  "dict_list v = (case v of JList vs \<Rightarrow> dicts vs | _ \<Rightarrow> Raise TypeError)"

definition text_change :: "(string \<times> json) list \<Rightarrow> string \<Rightarrow> string option option res" where
  "text_change data key =
     (case map_of data key of
        None \<Rightarrow> Ok None
      | Some JNull \<Rightarrow> Ok (Some None)
      | Some (JStr s) \<Rightarrow> Ok (Some (Some s))
      | Some _ \<Rightarrow> Raise TypeError)"

text \<open>The fields of the data that may be changed; values of other types are stored by no column.\<close>

definition changes_of :: "(string \<times> json) list \<Rightarrow> event_changes res" where
  "changes_of data =
     res_bind (text_change data ''title'') (\<lambda>title.
     res_bind (text_change data ''description'') (\<lambda>description.
     res_bind (text_change data ''location'') (\<lambda>location.
     res_bind (case map_of data ''when'' of None \<Rightarrow> Ok None | Some (JDict w) \<Rightarrow> Ok (Some w) | Some _ \<Rightarrow> Raise TypeError) (\<lambda>when.
     res_bind (case map_of data ''participants'' of None \<Rightarrow> Ok None | Some v \<Rightarrow> res_bind (dict_list v) (\<lambda>ps. Ok (Some ps))) (\<lambda>ps.
     res_bind (case map_of data ''busy'' of None \<Rightarrow> Ok None | Some (JBool b) \<Rightarrow> Ok (Some b) | Some _ \<Rightarrow> Raise TypeError) (\<lambda>busy.
       Ok \<lparr>cg_title = title, cg_description = description, cg_location = location, cg_when = when, cg_participants = ps,
           cg_busy = busy\<rparr>))))))"

definition next_sequence :: "event_row \<Rightarrow> event_row res" where
  "next_sequence e =
     (case ev_sequence_number e of None \<Rightarrow> Raise TypeError | Some n \<Rightarrow> Ok (e\<lparr>ev_sequence_number := Some (n + 1)\<rparr>))"

definition create_event :: "cal_env \<Rightarrow> account_row \<Rightarrow> nat \<Rightarrow> (string \<times> json) list \<Rightarrow> (cal_world, unit) st" where
  "create_event env acc eid args =
     st_bind (registered env acc) (\<lambda>_.
     st_bind (the_event eid) (\<lambda>e.
     st_bind (remote_create_event env acc e args) (\<lambda>e1.
       if notifies acc args
       then st_bind (invite env acc e1 ''request'' ''request'') (\<lambda>_.
            st_bind (st_res (case map_of args ''cancelled_participants'' of None \<Rightarrow> Ok [] | Some v \<Rightarrow> dict_list v)) (\<lambda>cancelled.
              if cancelled = [] then st_ok ()
              else (let e2 = e1\<lparr>ev_status := ''cancelled'', ev_participants := cancelled\<rparr>
                    in st_bind (invite env acc e2 ''cancel'' ''cancel'') (\<lambda>_ s. (save_event e2 s, Ok ())))))
       else st_ok ())))"

definition with_event_data :: "cal_env \<Rightarrow> (string \<times> json) list \<Rightarrow> event_row \<Rightarrow> event_row res" where
  "with_event_data env args e =
     (case map_of args ''event_data'' of
        None \<Rightarrow> Ok e
      | Some (JDict data) \<Rightarrow>
          res_bind (changes_of data) (\<lambda>c. res_bind (changed_event (ce_time env) (ce_date env) c e) next_sequence)
      | Some _ \<Rightarrow> Raise TypeError)"

definition update_event :: "cal_env \<Rightarrow> account_row \<Rightarrow> nat \<Rightarrow> (string \<times> json) list \<Rightarrow> (cal_world, unit) st" where
  "update_event env acc eid args =
     st_bind (the_event eid) (\<lambda>e.
     st_bind (st_res (with_event_data env args e)) (\<lambda>e1.
       if ev_calendar_id e1 = Some (ce_emailed env) then (\<lambda>s. (save_event e1 s, Ok ()))
       else st_bind (registered env acc) (\<lambda>_.
            st_bind (remote_update_event env acc e1 args) (\<lambda>_.
            st_bind (if notifies acc args then invite env acc e1 ''request'' ''update'' else st_ok ()) (\<lambda>_ s.
              (save_event e1 s, Ok ()))))))"

definition text_arg :: "(string \<times> json) list \<Rightarrow> string \<Rightarrow> string option" where
  "text_arg args key = (case map_of args key of Some (JStr s) \<Rightarrow> Some s | _ \<Rightarrow> None)"

definition popped :: "(string \<times> json) list \<Rightarrow> (string \<times> json) list" where
  "popped args = filter (\<lambda>(k, v). k \<notin> {''event_uid'', ''calendar_name'', ''calendar_uid''}) args"

text \<open>The deletion takes three of the arguments out of the dictionary that it was given.\<close>

definition delete_event_action ::
  "cal_env \<Rightarrow> account_row \<Rightarrow> nat \<Rightarrow> (string \<times> json) list \<Rightarrow> cal_world \<Rightarrow> (string \<times> json) list \<times> cal_world \<times> unit res" where
  "delete_event_action env acc eid args s =
     (case registered env acc s of
        (s1, Inl x) \<Rightarrow> (args, s1, Raise x)
      | (s1, Inr _) \<Rightarrow>
          (popped args,
           st_bind (the_event eid) (\<lambda>e.
             if ev_calendar_id e = Some (ce_emailed env) then st_ok ()
             else st_bind (remote_delete_event env acc (text_arg args ''event_uid'') (text_arg args ''calendar_uid'') (popped args)) (\<lambda>_.
                  st_bind (st_res (next_sequence e)) (\<lambda>e1.
                  let e2 = e1\<lparr>ev_status := ''cancelled''\<rparr>
                  in st_bind (\<lambda>s. (save_event e2 s, Ok ())) (\<lambda>_.
                       if notifies acc args then invite env acc e2 ''cancel'' ''cancel'' else st_ok ())))) s1))"

section \<open>Attempts\<close>

definition run_event_action ::
  "cal_env \<Rightarrow> account_row \<Rightarrow> string \<Rightarrow> nat \<Rightarrow> (string \<times> json) list \<Rightarrow> cal_world \<Rightarrow> (string \<times> json) list \<times> cal_world \<times> unit res" where
  "run_event_action env acc action eid args s =
     (if args = [] then (args, s, Raise TypeError)
      else if action = ''create_event'' then (args, create_event env acc eid args s)
      else if action = ''update_event'' then (args, update_event env acc eid args s)
      else if action = ''delete_event'' then delete_event_action env acc eid args s
      else (args, s, Raise KeyError))"

fun event_attempts ::
  "cal_env \<Rightarrow> account_row \<Rightarrow> string \<Rightarrow> nat \<Rightarrow> nat \<Rightarrow> (string \<times> json) list \<Rightarrow> cal_world \<Rightarrow> cal_world \<times> bool" where
  "event_attempts env acc action eid 0 args s = (s, False)"
| "event_attempts env acc action eid (Suc n) args s =
     (case run_event_action env acc action eid args s of
        (args1, s1, Inr _) \<Rightarrow> (s1, True)
      | (args1, s1, Inl e) \<Rightarrow> event_attempts env acc action eid n args1 s1)"

text \<open>
  The attempts of one task share the dictionary that it was given. The worker ends a task when its time is over (60
  seconds for each task of a batch, while an attempt that failed is followed by a pause of 30), and the entry of the
  log stays pending: the service makes another task for it, with the arguments read afresh from the log. The list
  says how many attempts each of the tasks gets to; they are counted in the log's entry over all tasks, which fails
  at \<open>ACTION_MAX_NR_OF_RETRIES\<close>. Time that runs out during an attempt is an exception of the attempt.
\<close>

fun event_tasks ::
  "cal_env \<Rightarrow> account_row \<Rightarrow> string \<Rightarrow> nat \<Rightarrow> nat list \<Rightarrow> (string \<times> json) list \<Rightarrow> cal_world \<Rightarrow> cal_world \<times> bool" where
  "event_tasks env acc action eid [] args s = (s, False)"
| "event_tasks env acc action eid (n # ns) args s =
     (case event_attempts env acc action eid n args s of
        (s1, True) \<Rightarrow> (s1, True)
      | (s1, False) \<Rightarrow> event_tasks env acc action eid ns args s1)"

end
