(* ===== verification/Api_Events.thy ===== *)
theory Api_Events
  imports Event_Actions Smtp_Client
begin

text \<open>
  Events over the API: their handlers in \<open>inbox/api/ns_api.py\<close> with \<open>removed_participants\<close> of \<open>inbox/events/util.py\<close> and
  \<open>send_rsvp\<close> of \<open>inbox/events/ical.py\<close>. A handler that raises leaves the store as it was.
\<close>

section \<open>Requests\<close>

text \<open>
  The clock, fresh ids, how sets and dictionaries are enumerated, the parsers of times and addresses, the lengths of
  JSON texts, and for replies the connection for sending and the text of the mail.
\<close>

record event_req =
  eq_now :: datetime
  eq_optimistic :: bool
  eq_uid :: string
  eq_pid :: string
  eq_cal_pid :: "nat \<Rightarrow> 128 word"
  eq_order :: "string set \<Rightarrow> string list"
  eq_check :: email_check
  eq_cal :: cal_env
  eq_dict :: "participant list \<Rightarrow> participant list"
  eq_list_size :: "participant list \<Rightarrow> nat"
  eq_args_size :: "(string \<times> json) list \<Rightarrow> nat"
  eq_parseaddr :: "string \<Rightarrow> string \<times> string"
  eq_client :: "smtp_exn + smtp_client"
  eq_smtp :: smtp_env
  eq_mime :: "string \<Rightarrow> event_row \<Rightarrow> string \<Rightarrow> string"

definition events_with_id :: "account_row \<Rightarrow> string \<Rightarrow> cal_sys \<Rightarrow> event_row list" where
  "events_with_id acc s sys =
     filter (\<lambda>e. ev_namespace_id e = Some (acc_namespace_id acc) \<and> s \<noteq> [] \<and> b36_to_bin s = b36_to_bin (ev_public_id e)) (cs_events sys)"

definition one_event :: "event_row list \<Rightarrow> event_row res" where
  "one_event es = (case query_one es of Inr e \<Rightarrow> Ok e | Inl x \<Rightarrow> Raise (if x = NoResultFound then NotFoundError else x))"

definition event_read_api :: "account_row \<Rightarrow> json \<Rightarrow> cal_sys \<Rightarrow> event_row res" where
  "event_read_api acc public_id sys =
     res_bind (valid_public_id public_id) (\<lambda>s.
       one_event (filter (\<lambda>e. ev_id e \<notin> set (cs_deleted sys)) (events_with_id acc s sys)))"

definition put_event :: "event_row \<Rightarrow> cal_sys \<Rightarrow> cal_sys" where
  "put_event e sys = sys\<lparr>cs_events := t_put ev_id (cs_events sys) e\<rparr>"

definition schedule_event :: "event_req \<Rightarrow> account_row \<Rightarrow> string \<Rightarrow> event_row \<Rightarrow> (string \<times> json) list \<Rightarrow> cal_sys \<Rightarrow> cal_sys res" where
  "schedule_event req acc action e args sys =
     res_bind (schedule_action (eq_now req) action ''event'' (ev_id e) (acc_namespace_id acc) args (cs_db sys)) (\<lambda>db.
       Ok (sys\<lparr>cs_db := db\<rparr>))"

definition clean_participant :: "participant \<Rightarrow> participant res" where
  "clean_participant p =
     res_bind (lower_email p) (\<lambda>q. Ok (if map_of q ''status'' = None then q @ [(''status'', JStr ''noreply'')] else q))"

definition clean_participants :: "json \<Rightarrow> participant list res" where
  "clean_participants v = res_bind (dict_list v) (res_map clean_participant)"

section \<open>Creating\<close>

definition given_text :: "json \<Rightarrow> string option res" where
  "given_text v = (case v of JNull \<Rightarrow> Ok None | JStr s \<Rightarrow> Ok (Some s) | _ \<Rightarrow> Raise TypeError)"

definition given_when :: "json \<Rightarrow> (string \<times> json) list res" where
  "given_when v = (case v of JDict w \<Rightarrow> Ok w | _ \<Rightarrow> Raise TypeError)"

definition new_event ::
  "event_req \<Rightarrow> account_row \<Rightarrow> calendar_row \<Rightarrow> string option \<Rightarrow> string option \<Rightarrow> string option \<Rightarrow> bool \<Rightarrow> participant list \<Rightarrow> event_row list \<Rightarrow> event_row" where
  "new_event req acc cal title description location busy participants es =
     validated \<lparr>ev_id = t_next ev_id es, ev_public_id = eq_pid req, ev_namespace_id = Some (acc_namespace_id acc),
       ev_calendar_id = Some (cal_id cal), ev_uid = eq_uid req, ev_provider_name = Some (acc_provider acc), ev_source = ''local'',
       ev_raw_data = [], ev_title = title, ev_owner = None, ev_description = description, ev_location = location,
       ev_busy = busy, ev_read_only = False, ev_reminders = None, ev_recurrence = None, ev_start = 0, ev_end = 0,
       ev_all_day = False, ev_is_owner = True, ev_last_modified = None, ev_status = ''confirmed'', ev_message_id = None,
       ev_participants = participants, ev_sequence_number = Some 0, ev_kind = Plain\<rparr>"

definition event_create_api ::
  "event_req \<Rightarrow> account_row \<Rightarrow> json \<Rightarrow> (string \<times> json) list \<Rightarrow> cal_sys \<Rightarrow> (cal_sys \<times> event_row) res" where
  "event_create_api req acc notify data sys =
     res_bind (get_calendar (eq_cal_pid req) (cs_calendars sys) (acc_namespace_id acc) (jget_or_null data ''calendar_id'')) (\<lambda>cal.
     if cal_read_only cal then Raise (InputError ''read_only calendar'')
     else res_bind (valid_event (eq_order req) (ce_time (eq_cal req)) (eq_check req) data) (\<lambda>_.
     res_bind (case map_of data ''title'' of None \<Rightarrow> Ok (Some []) | Some v \<Rightarrow> given_text v) (\<lambda>title.
     res_bind (given_text (jget_or_null data ''description'')) (\<lambda>description.
     res_bind (given_text (jget_or_null data ''location'')) (\<lambda>location.
     res_bind (given_when (jget_or_null data ''when'')) (\<lambda>when.
     (let busy = (jget_or_null data ''busy'' \<noteq> JBool False); ps = jget_or_null data ''participants''
      in res_bind (if ps = JNull then Ok [] else clean_participants ps) (\<lambda>participants.
         res_bind (set_when (ce_time (eq_cal req)) (ce_date (eq_cal req)) when
             (new_event req acc cal title description location busy participants (cs_events sys))) (\<lambda>e.
         res_bind (schedule_event req acc ''create_event'' e
             [(''calendar_uid'', JStr (cal_uid cal)), (''notify_participants'', notify)]
             (sys\<lparr>cs_events := t_add (cs_events sys) e\<rparr>)) (\<lambda>sys1. Ok (sys1, e)))))))))))"

section \<open>Updating\<close>

text \<open>The names and addresses of the participants who are no longer there, by their addresses in lower case.\<close>

definition by_lower_email :: "participant list \<Rightarrow> participant_table res" where
  "by_lower_email ps =
     res_fold (\<lambda>p t. case map_of p ''email'' of
                 None \<Rightarrow> Ok t
               | Some (JStr s) \<Rightarrow> Ok (table_put t (JStr (py_lower s)) p)
               | Some _ \<Rightarrow> Raise AttributeError) ps []"

definition removed_participants :: "participant list \<Rightarrow> participant list \<Rightarrow> participant list res" where
  "removed_participants original update =
     res_bind (by_lower_email original) (\<lambda>old.
     res_bind (by_lower_email update) (\<lambda>new.
       Ok (map (\<lambda>(email, p). [(''email'', email), (''name'', jget_or_null p ''name'')])
             (filter (\<lambda>(email, p). email \<notin> fst ` set new) old))))"

text \<open>The last ones are dropped until the list fits into its column; \<open>pop\<close> raises on an empty list.\<close>

fun fitting :: "(participant list \<Rightarrow> nat) \<Rightarrow> participant list \<Rightarrow> participant list res" where
  "fitting len [] = (if len [] > 63000 then Raise IndexError else Ok [])"
| "fitting len (p # ps) = (if len (rev (p # ps)) > 63000 then fitting len ps else Ok (rev (p # ps)))"

definition cancelled_by :: "event_req \<Rightarrow> event_row \<Rightarrow> participant list \<Rightarrow> participant list res" where
  "cancelled_by req e ps =
     res_bind (removed_participants (ev_participants e) ps) (\<lambda>gone. fitting (eq_list_size req) (rev (eq_dict req gone)))"

definition put_key :: "string \<Rightarrow> json \<Rightarrow> (string \<times> json) list \<Rightarrow> (string \<times> json) list" where
  "put_key key v data = map (\<lambda>(k, w). if k = key then (k, v) else (k, w)) data"

definition updatable_event :: "event_req \<Rightarrow> account_row \<Rightarrow> json \<Rightarrow> cal_sys \<Rightarrow> event_row res" where
  "updatable_event req acc public_id sys =
     res_bind (event_read_api acc public_id sys) (\<lambda>e.
       if ev_calendar_id e = Some (ce_emailed (eq_cal req)) then Raise (InputError ''imported from an iCalendar file'')
       else if ev_read_only e then Raise (InputError ''read_only event'')
       else if ev_kind e \<noteq> Plain then Raise (InputError ''recurring event'')
       else Ok e)"

definition prepared_data ::
  "event_req \<Rightarrow> event_row \<Rightarrow> (string \<times> json) list \<Rightarrow> ((string \<times> json) list \<times> participant list) res" where
  "prepared_data req e data =
     (case map_of data ''participants'' of
        None \<Rightarrow> Ok (data, [])
      | Some v \<Rightarrow>
          res_bind (clean_participants v) (\<lambda>ps.
          res_bind (cancelled_by req e ps) (\<lambda>gone.
            Ok (put_key ''participants'' (JList (map JDict ps)) data, gone))))"

definition event_update_api ::
  "event_req \<Rightarrow> account_row \<Rightarrow> json \<Rightarrow> json \<Rightarrow> (string \<times> json) list \<Rightarrow> cal_sys \<Rightarrow> (cal_sys \<times> event_row) res" where
  "event_update_api req acc public_id notify data sys =
     (let env = eq_cal req in
      res_bind (updatable_event req acc public_id sys) (\<lambda>e.
      res_bind (valid_event_update (eq_order req) (ce_time env) data) (\<lambda>_.
      res_bind (prepared_data req e data) (\<lambda>(data1, gone).
      res_bind (changes_of data1) (\<lambda>c.
      res_bind (noop_event_update (ce_time env) (ce_date env) e c) (\<lambda>noop.
        if noop then Ok (sys, e)
        else if eq_optimistic req
        then res_bind (res_bind (changed_event (ce_time env) (ce_date env) c e) next_sequence) (\<lambda>e1.
             res_bind (event_calendar e1 sys) (\<lambda>cal.
             res_bind (schedule_event req acc ''update_event'' e1
                 [(''calendar_uid'', JStr (cal_uid cal)), (''cancelled_participants'', JList (map JDict gone)),
                  (''notify_participants'', notify)] (put_event e1 sys)) (\<lambda>sys1. Ok (sys1, e1))))
        else res_bind (event_calendar e sys) (\<lambda>cal.
             (let args = [(''calendar_uid'', JStr (cal_uid cal)), (''event_data'', JDict data1),
                          (''cancelled_participants'', JList (map JDict gone)), (''notify_participants'', notify)]
              in if eq_args_size req args > 2 ^ 16 - 12 then Raise (InputError ''Event update too big'')
                 else res_bind (schedule_event req acc ''update_event'' e args sys) (\<lambda>sys1. Ok (sys1, e))))))))))"

section \<open>Deleting\<close>

definition event_delete_api ::
  "event_req \<Rightarrow> account_row \<Rightarrow> json \<Rightarrow> json \<Rightarrow> cal_sys \<Rightarrow> cal_sys res" where
  "event_delete_api req acc public_id notify sys =
     res_bind (event_read_api acc public_id sys) (\<lambda>e.
     if ev_calendar_id e = Some (ce_emailed (eq_cal req)) then Raise (InputError ''imported from an iCalendar file'')
     else res_bind (event_calendar e sys) (\<lambda>cal.
     if cal_read_only cal then Raise (InputError ''read_only calendar'')
     else res_bind (if eq_optimistic req then res_bind (next_sequence e) (\<lambda>e1. Ok (e1\<lparr>ev_status := ''cancelled''\<rparr>)) else Ok e) (\<lambda>e1.
          schedule_event req acc ''delete_event'' e1
            [(''event_uid'', JStr (ev_uid e)), (''calendar_name'', JStr (cal_name cal)), (''calendar_uid'', JStr (cal_uid cal)),
             (''notify_participants'', notify)] (put_event e1 sys))))"

section \<open>Replies\<close>

text \<open>A request for the reply a participant has given already is answered at once.\<close>

definition replied_already :: "participant \<Rightarrow> string \<Rightarrow> (string \<times> json) list \<Rightarrow> bool res" where
  "replied_already p status data =
     (case map_of p ''status'' of
        None \<Rightarrow> Raise KeyError
      | Some v \<Rightarrow>
          Ok (v = JStr status \<and>
              (case (map_of p ''comment'', map_of data ''comment'') of
                 (None, None) \<Rightarrow> True
               | (Some c, Some d) \<Rightarrow> c = d
               | _ \<Rightarrow> False)))"

definition rsvp_target :: "account_row \<Rightarrow> (string \<times> json) list \<Rightarrow> cal_sys \<Rightarrow> (event_row \<times> string \<times> bool) res" where
  "rsvp_target acc data sys =
     res_bind (valid_public_id (jget_or_null data ''event_id'')) (\<lambda>s.
     res_bind (one_event (events_with_id acc s sys)) (\<lambda>e.
     if ev_message_id e = None then Raise (InputError ''not imported from an iCalendar invite'')
     else if \<not> json_truthy (jget_or_null data ''status'') then Raise (InputError ''must define a status'')
     else (case jget_or_null data ''status'' of
             JStr status \<Rightarrow>
               if status \<notin> {''yes'', ''no'', ''maybe''} then Raise (InputError ''Invalid status'')
               else res_bind (by_email (ev_participants e)) (\<lambda>table.
                    case map_of table (JStr (acc_email acc)) of
                      None \<Rightarrow> Raise (InputError ''not among the participants'')
                    | Some p \<Rightarrow> res_bind (replied_already p status data) (\<lambda>b. Ok (e, status, b)))
           | _ \<Rightarrow> Raise (InputError ''Invalid status''))))"

text \<open>
  Without a recipient the exception is made without its code, which is a \<open>TypeError\<close>. The exceptions of the client
  and of the sending go to the handler as they are.
\<close>

definition send_rsvp :: "event_req \<Rightarrow> event_row \<Rightarrow> string \<Rightarrow> cal_sys \<Rightarrow> smtp_event list \<times> (smtp_exn + unit)" where
  "send_rsvp req e status sys =
     (case rsvp_recipient (eq_parseaddr req) (\<lambda>m. case t_get m_id (messages (cs_db sys)) m of None \<Rightarrow> [] | Some r \<Rightarrow> m_from r) (Some e) of
        None \<Rightarrow> ([], Inl (Other TypeError))
      | Some to \<Rightarrow>
          (case eq_client req of
             Inl x \<Rightarrow> ([], Inl x)
           | Inr cl \<Rightarrow> smtp_send (eq_smtp req) cl [to] (eq_mime req status e to)))"

definition put_or_add :: "string \<Rightarrow> json \<Rightarrow> participant \<Rightarrow> participant" where
  "put_or_add key v p = (if map_of p key = None then p @ [(key, v)] else put_key key v p)"

definition reply_of :: "string \<Rightarrow> string \<Rightarrow> json \<Rightarrow> participant \<Rightarrow> participant" where
  "reply_of account_email status comment p =
     (if jget_or_null p ''email'' = JStr account_email
      then (let q = put_or_add ''status'' (JStr status) p in if comment \<noteq> JStr [] then put_or_add ''comment'' comment q else q)
      else p)"

text \<open>
  The handler answers with the event, or with the error of a failed sending, whose code may be 200 too: then some
  of the recipients were refused. Such an answer leaves the participants as they are; other exceptions are not caught.
\<close>

datatype rsvp_answer = Answer_event event_row | Answer_error nat

definition event_rsvp_api ::
  "event_req \<Rightarrow> account_row \<Rightarrow> (string \<times> json) list \<Rightarrow> cal_sys \<Rightarrow> smtp_event list \<times> cal_sys \<times> rsvp_answer res" where
  "event_rsvp_api req acc data sys =
     (case rsvp_target acc data sys of
        Inl x \<Rightarrow> ([], sys, Raise x)
      | Inr (e, status, True) \<Rightarrow> ([], sys, Ok (Answer_event e))
      | Inr (e, status, False) \<Rightarrow>
          (case send_rsvp req e status sys of
             (evs, Inl (SendFailed f)) \<Rightarrow> (evs, sys, Ok (Answer_error (sf_http_code f)))
           | (evs, Inl (Other x)) \<Rightarrow> (evs, sys, Raise x)
           | (evs, Inl _) \<Rightarrow> (evs, sys, Raise SendMailException)
           | (evs, Inr _) \<Rightarrow>
               (let comment = (case map_of data ''comment'' of None \<Rightarrow> JStr [] | Some v \<Rightarrow> v);
                    e1 = e\<lparr>ev_participants := map (reply_of (acc_email acc) status comment) (ev_participants e)\<rparr>
                in (evs, put_event e1 sys, Ok (Answer_event e1)))))"

end
