(* ===== verification/Event_Api_Proofs.thy ===== *)
theory Event_Api_Proofs
  imports Api_Events Smtp_Proofs
begin

text \<open>Facts on the handlers of events and the actions they schedule: what each of them changes, asks the provider for and mails.\<close>

section \<open>Attempts\<close>

lemma popped_args [simp]: "text_arg (popped args) ''event_uid'' = None" "text_arg (popped args) ''calendar_uid'' = None"
  by (auto simp: text_arg_def popped_def split: option.splits json.splits dest!: map_of_SomeD)

lemma popped_again [simp]: "popped (popped args) = popped args"
  by (simp add: popped_def)

text \<open>With the arguments gone no request is made any more.\<close>

lemma delete_without_args:
  assumes "acc_provider acc = ''gmail''" and "t_get ev_id (cs_events (cw_sys s)) eid = Some e"
    and "ev_calendar_id e \<noteq> Some (ce_emailed env)" and "args = popped args"
  shows "event_attempts env acc ''delete_event'' eid n args s = (s, False)"
proof (induction n)
  case (Suc n)
  have "text_arg args ''calendar_uid'' = None" using assms(4) popped_args(2) by metis
  then have "snd (snd (run_event_action env acc ''delete_event'' eid args s)) \<noteq> Inr ()"
    "fst (run_event_action env acc ''delete_event'' eid args s) = args" "fst (snd (run_event_action env acc ''delete_event'' eid args s)) = s"
    using assms(1-3) assms(4) [symmetric]
    by (simp_all add: run_event_action_def delete_event_action_def registered_def the_event_def remote_delete_event_def st_bind_def)
  with Suc show ?case by (auto split: prod.split sum.split)
qed simp

lemma delete_attempt:
  assumes "acc_provider acc = ''gmail''" and "t_get ev_id (cs_events (cw_sys s)) eid = Some e"
    and "ev_calendar_id e \<noteq> Some (ce_emailed env)"
    and "text_arg args ''event_uid'' = Some u" and "text_arg args ''calendar_uid'' = Some c"
  shows "\<exists>s1 r. run_event_action env acc ''delete_event'' eid args s = (popped args, s1, r) \<and>
     cw_log s1 = cw_log s @ [Called (Remove_event c u) (notify_params (map_of (popped args) ''notify_participants'')) (ce_reply env (cw_steps s))] \<and>
     (\<forall>x. res_bind (ce_reply env (cw_steps s)) delete_remote_event = Inl x \<longrightarrow> r = Inl x \<and>
        s1 = s\<lparr>cw_steps := Suc (cw_steps s), cw_log := cw_log s @
               [Called (Remove_event c u) (notify_params (map_of (popped args) ''notify_participants'')) (ce_reply env (cw_steps s))]\<rparr>)"
proof -
  have "args \<noteq> []" using assms(4) by (auto simp: text_arg_def)
  moreover have "str_or (Some u) [] = u" by (simp add: str_or_def)
  moreover have "\<not> notifies acc args" using assms(1) by (simp add: notifies_def)
  ultimately show ?thesis
    using assms by (auto simp: run_event_action_def delete_event_action_def registered_def the_event_def remote_delete_event_def
        make_event_request_def st_bind_def Let_def save_event_def next_sequence_def res_bind_def split: sum.splits option.splits)
qed

text \<open>A task whose first request fails has made its only one.\<close>

lemma delete_task:
  assumes "acc_provider acc = ''gmail''" and "t_get ev_id (cs_events (cw_sys s)) eid = Some e"
    and "ev_calendar_id e \<noteq> Some (ce_emailed env)"
    and "text_arg args ''event_uid'' = Some u" and "text_arg args ''calendar_uid'' = Some c"
    and "res_bind (ce_reply env (cw_steps s)) delete_remote_event = Raise x" and "0 < n"
  shows "event_attempts env acc ''delete_event'' eid n args s =
     (s\<lparr>cw_steps := Suc (cw_steps s), cw_log := cw_log s @
        [Called (Remove_event c u) (notify_params (map_of (popped args) ''notify_participants'')) (ce_reply env (cw_steps s))]\<rparr>, False)"
proof -
  obtain m where n: "n = Suc m" using assms(7) by (cases n) simp_all
  from delete_attempt [OF assms(1-5)] assms(6) obtain s1 where
    run: "run_event_action env acc ''delete_event'' eid args s = (popped args, s1, Inl x)"
    and s1: "s1 = s\<lparr>cw_steps := Suc (cw_steps s), cw_log := cw_log s @
        [Called (Remove_event c u) (notify_params (map_of (popped args) ''notify_participants'')) (ce_reply env (cw_steps s))]\<rparr>"
    by metis
  have "t_get ev_id (cs_events (cw_sys s1)) eid = Some e" using assms(2) s1 by simp
  from delete_without_args [OF assms(1) this assms(3), of "popped args"] run s1 n show ?thesis by simp
qed

section \<open>Handlers\<close>

lemma schedule_event_Ok:
  assumes "schedule_event req acc action e args sys = Inr sys1"
  obtains entry where "sys1 = sys\<lparr>cs_db := (cs_db sys)\<lparr>actionlogs := t_add (actionlogs (cs_db sys)) entry\<rparr>\<rparr>"
    "al_action entry = action" "al_record_id entry = ev_id e" "al_extra_args entry = args"
  using assms that by (auto simp: schedule_event_def schedule_action_def res_bind_def split: option.splits)

lemma event_read_Ok:
  assumes "event_read_api acc public_id sys = Inr e"
  shows "e \<in> set (cs_events sys)" "ev_namespace_id e = Some (acc_namespace_id acc)" "ev_id e \<notin> set (cs_deleted sys)"
  using assms unfolding event_read_api_def one_event_def events_with_id_def
  by (auto simp: res_bind_def query_one_Ok filter_eq_Cons_iff split: sum.splits if_splits)

interpretation evs: row_table ev_id "t_get ev_id" "t_put ev_id" "t_del ev_id" t_add "t_inv ev_id"
  by (rule row_table_generic)

lemma next_sequence_Ok:
  assumes "next_sequence e = Inr e1"
  shows "\<exists>n. ev_sequence_number e = Some n \<and> e1 = e\<lparr>ev_sequence_number := Some (n + 1)\<rparr>"
  using assms by (auto simp: next_sequence_def split: option.splits)

lemma event_calendar_same:
  assumes "ev_calendar_id e = ev_calendar_id e'" and "cs_calendars s = cs_calendars s'"
  shows "event_calendar e s = event_calendar e' s'"
  by (simp only: event_calendar_def assms)

lemma event_delete_Ok:
  assumes "event_delete_api req acc public_id notify sys = Inr sys1"
  obtains e cal e1 entry where "event_read_api acc public_id sys = Inr e" "ev_calendar_id e \<noteq> Some (ce_emailed (eq_cal req))"
    "event_calendar e sys = Inr cal" "\<not> cal_read_only cal" "ev_id e1 = ev_id e" "ev_uid e1 = ev_uid e" "ev_calendar_id e1 = ev_calendar_id e"
    "sys1 = (put_event e1 sys)\<lparr>cs_db := (cs_db sys)\<lparr>actionlogs := t_add (actionlogs (cs_db sys)) entry\<rparr>\<rparr>"
    "al_action entry = ''delete_event''" "al_record_id entry = ev_id e"
    "al_extra_args entry = [(''event_uid'', JStr (ev_uid e)), (''calendar_name'', JStr (cal_name cal)), (''calendar_uid'', JStr (cal_uid cal)),
             (''notify_participants'', notify)]"
proof -
  from assms obtain e cal e1 where e: "event_read_api acc public_id sys = Inr e" "ev_calendar_id e \<noteq> Some (ce_emailed (eq_cal req))"
    and cal: "event_calendar e sys = Inr cal" "\<not> cal_read_only cal"
    and e1: "(if eq_optimistic req then res_bind (next_sequence e) (\<lambda>e1. Ok (e1\<lparr>ev_status := ''cancelled''\<rparr>)) else Inr e) = Inr e1"
    and s: "schedule_event req acc ''delete_event'' e1
            [(''event_uid'', JStr (ev_uid e)), (''calendar_name'', JStr (cal_name cal)), (''calendar_uid'', JStr (cal_uid cal)),
             (''notify_participants'', notify)] (put_event e1 sys) = Inr sys1"
    unfolding event_delete_api_def by (auto simp: res_bind_def split: sum.splits if_splits)
  have same: "ev_id e1 = ev_id e" "ev_uid e1 = ev_uid e" "ev_calendar_id e1 = ev_calendar_id e"
    using e1 by (auto simp: res_bind_def split: if_splits sum.splits dest!: next_sequence_Ok)
  have "cs_db (put_event e1 sys) = cs_db sys" by (simp add: put_event_def)
  with schedule_event_Ok [OF s] same that [OF e cal same] show thesis by metis
qed

section \<open>Creating and updating at the provider\<close>

lemma create_event_gmail:
  assumes "create_event env acc eid args w = (w1, Inr ())" and "acc_provider acc = ''gmail''"
    and "t_get ev_id (cs_events (cw_sys w)) eid = Some e" and "event_calendar e (cw_sys w) = Inr cal"
  obtains d uid where "dump_event (ce_google env) e = Inr d" "ce_new_uid env (cw_steps w) = Inr uid"
    "cw_log w1 = cw_log w @ [Called (Insert_event (cal_uid cal) d) (notify_params (map_of args ''notify_participants'')) (ce_reply env (cw_steps w))]"
    "cw_sys w1 = (cw_sys w)\<lparr>cs_events := t_put ev_id (cs_events (cw_sys w)) (e\<lparr>ev_uid := uid\<rparr>)\<rparr>"
  using assms that
  by (auto simp: create_event_def registered_def the_event_def remote_create_event_def make_event_request_def ok_status_def
      st_bind_def Let_def save_event_def notifies_def split: sum.splits)

lemma update_event_gmail:
  assumes "update_event env acc eid args w = (w1, Inr ())" and "acc_provider acc = ''gmail''"
    and "t_get ev_id (cs_events (cw_sys w)) eid = Some e" and "with_event_data env args e = Inr e1"
    and "ev_calendar_id e1 \<noteq> Some (ce_emailed env)" and "event_calendar e1 (cw_sys w) = Inr cal"
  obtains d where "dump_event (ce_google env) e1 = Inr d"
    "cw_log w1 = cw_log w @ [Called (Put_event (cal_uid cal) (ev_uid e1) d) (notify_params (map_of args ''notify_participants'')) (ce_reply env (cw_steps w))]"
    "cw_sys w1 = (cw_sys w)\<lparr>cs_events := t_put ev_id (cs_events (cw_sys w)) e1\<rparr>"
  using assms that
  by (auto simp: update_event_def registered_def the_event_def remote_update_event_def make_event_request_def ok_status_def
      st_bind_def Let_def save_event_def notifies_def split: sum.splits)

section \<open>Changes keep who an event is\<close>

lemma validated_keeps [simp]:
  "ev_id (validated e) = ev_id e" "ev_uid (validated e) = ev_uid e" "ev_calendar_id (validated e) = ev_calendar_id e"
  by (simp_all add: validated_def)

text \<open>The row, its uid and its calendar.\<close>

definition identity :: "event_row \<Rightarrow> nat \<times> string \<times> nat option" where
  "identity e = (ev_id e, ev_uid e, ev_calendar_id e)"

lemma set_when_keeps:
  assumes "set_when tp dp w e = Inr e1"
  shows "identity e1 = identity e"
  using assms unfolding set_when_def Let_def by (auto simp: identity_def res_bind_Inr_iff split: if_split_asm)

lemma changed_event_keeps:
  assumes "changed_event tp dp c e = Inr e1"
  shows "identity e1 = identity e"
proof -
  define e0 where "e0 = validated (e\<lparr>ev_title := (case cg_title c of None \<Rightarrow> ev_title e | Some t \<Rightarrow> t),
            ev_description := (case cg_description c of None \<Rightarrow> ev_description e | Some t \<Rightarrow> t),
            ev_location := (case cg_location c of None \<Rightarrow> ev_location e | Some t \<Rightarrow> t)\<rparr>)"
  from assms obtain e2 where "(case cg_when c of None \<Rightarrow> Inr e0 | Some w \<Rightarrow> set_when tp dp w e0) = Inr e2" and "identity e1 = identity e2"
    unfolding changed_event_def Let_def e0_def [symmetric] by (auto simp: res_bind_Inr_iff identity_def)
  moreover have "identity e0 = identity e" by (simp add: e0_def identity_def)
  ultimately show ?thesis using set_when_keeps by (metis (no_types, lifting) option.case_eq_if sum.inject(2))
qed

lemma next_sequence_keeps: "next_sequence e = Inr e1 \<Longrightarrow> identity e1 = identity e"
  using next_sequence_Ok by (fastforce simp: identity_def)

lemma next_change_keeps:
  assumes "res_bind (changed_event tp dp c e) next_sequence = Inr e1"
  shows "ev_id e1 = ev_id e" "ev_uid e1 = ev_uid e" "ev_calendar_id e1 = ev_calendar_id e"
proof -
  have "identity e1 = identity e"
    using assms by (auto simp: res_bind_Inr_iff dest!: changed_event_keeps next_sequence_keeps)
  then show "ev_id e1 = ev_id e" "ev_uid e1 = ev_uid e" "ev_calendar_id e1 = ev_calendar_id e" by (simp_all add: identity_def)
qed

text \<open>An accepted update that changes something: the event was changed already, or its data are with the action.\<close>

lemma event_update_Ok:
  assumes "event_update_api req acc public_id notify data sys = Inr (sys1, shown)" and "sys1 \<noteq> sys"
  obtains e data1 gone c cal entry where "event_read_api acc public_id sys = Inr e" "ev_calendar_id e \<noteq> Some (ce_emailed (eq_cal req))"
    "\<not> ev_read_only e" "prepared_data req e data = Inr (data1, gone)" "changes_of data1 = Inr c"
    "event_calendar e sys = Inr cal" "actionlogs (cs_db sys1) = t_add (actionlogs (cs_db sys)) entry"
    "cs_calendars sys1 = cs_calendars sys" "al_action entry = ''update_event''" "al_record_id entry = ev_id e"
    "al_extra_args entry \<noteq> []" "map_of (al_extra_args entry) ''notify_participants'' = Some notify"
    "(map_of (al_extra_args entry) ''event_data'' = None \<and>
       (\<exists>e1. res_bind (changed_event (ce_time (eq_cal req)) (ce_date (eq_cal req)) c e) next_sequence = Inr e1 \<and>
          cs_events sys1 = t_put ev_id (cs_events sys) e1)) \<or>
     (map_of (al_extra_args entry) ''event_data'' = Some (JDict data1) \<and> cs_events sys1 = cs_events sys)"
proof -
  let ?env = "eq_cal req"
  let ?next = "\<lambda>c e. res_bind (changed_event (ce_time ?env) (ce_date ?env) c e) next_sequence"
  from assms(1) obtain e data1 gone c noop where e: "updatable_event req acc public_id sys = Inr e"
    and p: "prepared_data req e data = Inr (data1, gone)" and c: "changes_of data1 = Inr c"
    and noop: "noop_event_update (ce_time ?env) (ce_date ?env) e c = Inr noop"
    unfolding event_update_api_def by (auto simp: Let_def res_bind_def split: sum.splits prod.splits)
  have e': "event_read_api acc public_id sys = Inr e" "ev_calendar_id e \<noteq> Some (ce_emailed ?env)" "\<not> ev_read_only e"
    using e by (auto simp: updatable_event_def res_bind_def split: sum.splits if_splits)
  have "\<not> noop" using assms e p c noop
    unfolding event_update_api_def by (auto simp: Let_def res_bind_def split: sum.splits)
  show thesis
  proof (cases "eq_optimistic req")
    case True
    with assms(1) e p c noop \<open>\<not> noop\<close> obtain e1 cal where e1: "?next c e = Inr e1" and cal: "event_calendar e1 sys = Inr cal"
      and s: "schedule_event req acc ''update_event'' e1 [(''calendar_uid'', JStr (cal_uid cal)),
        (''cancelled_participants'', JList (map JDict gone)), (''notify_participants'', notify)] (put_event e1 sys) = Inr sys1"
      unfolding event_update_api_def by (simp add: Let_def res_bind_def split: sum.splits)
    note keep = next_change_keeps [OF e1]
    have cal': "event_calendar e sys = Inr cal" using cal keep(3) by (simp add: event_calendar_def)
    from schedule_event_Ok [OF s] obtain entry where
      sys1: "sys1 = (put_event e1 sys)\<lparr>cs_db := (cs_db (put_event e1 sys))\<lparr>actionlogs := t_add (actionlogs (cs_db (put_event e1 sys))) entry\<rparr>\<rparr>"
      and entry: "al_action entry = ''update_event''" "al_record_id entry = ev_id e1" "al_extra_args entry = [(''calendar_uid'', JStr (cal_uid cal)),
        (''cancelled_participants'', JList (map JDict gone)), (''notify_participants'', notify)]"
      by blast
    show thesis
      by (rule that [OF e' p c cal', of entry]) (use sys1 entry keep e1 in \<open>auto simp: put_event_def\<close>)
  next
    case False
    with assms(1) e p c noop \<open>\<not> noop\<close> obtain cal where cal: "event_calendar e sys = Inr cal"
      and s: "schedule_event req acc ''update_event'' e [(''calendar_uid'', JStr (cal_uid cal)), (''event_data'', JDict data1),
        (''cancelled_participants'', JList (map JDict gone)), (''notify_participants'', notify)] sys = Inr sys1"
      unfolding event_update_api_def by (auto simp: Let_def res_bind_def split: sum.splits if_splits)
    from schedule_event_Ok [OF s] obtain entry where sys1: "sys1 = sys\<lparr>cs_db := (cs_db sys)\<lparr>actionlogs := t_add (actionlogs (cs_db sys)) entry\<rparr>\<rparr>"
      and entry: "al_action entry = ''update_event''" "al_record_id entry = ev_id e" "al_extra_args entry = [(''calendar_uid'', JStr (cal_uid cal)),
        (''event_data'', JDict data1), (''cancelled_participants'', JList (map JDict gone)), (''notify_participants'', notify)]"
      by blast
    show thesis
      by (rule that [OF e' p c cal, of entry]) (use sys1 entry in auto)
  qed
qed

section \<open>Mails\<close>

definition mails_only :: "string \<Rightarrow> event_row \<Rightarrow> cal_world \<Rightarrow> cal_world \<Rightarrow> bool" where
  "mails_only ty e s s1 \<longleftrightarrow> (\<exists>new. cw_log s1 = cw_log s @ new \<and>
     (\<forall>j t. Mailed j t \<in> set new \<longrightarrow> t = ty \<and> j \<in> (\<lambda>p. jget_or_null p ''email'') ` set (ev_participants e)))"

lemma mail_each_log:
  assumes "mail_each env ty js s = (s1, r)"
  shows "\<exists>new. cw_log s1 = cw_log s @ new \<and> (\<forall>x\<in>set new. \<exists>j\<in>set js. x = Mailed j ty)"
  using assms
proof (induction js arbitrary: s)
  case (Cons j js)
  show ?case
  proof (cases "ce_post env (cw_steps s)")
    case (Inl x)
    with Cons.prems show ?thesis by (auto simp: st_bind_def)
  next
    case (Inr u)
    with Cons.prems have "mail_each env ty js (s\<lparr>cw_steps := Suc (cw_steps s), cw_log := cw_log s @ [Mailed j ty]\<rparr>) = (s1, r)"
      by (simp add: st_bind_def)
    from Cons.IH [OF this] show ?thesis by fastforce
  qed
qed simp

lemma invite_log:
  assumes "invite env acc e ft ty s = (s1, r)"
  shows "mails_only ty e s s1"
proof (cases "generate_icalendar_invite e ft")
  case (Inr v)
  then consider "cw_log s1 = cw_log s" | "mail_each env ty (invite_recipients (acc_email acc) e) s = (s1, r)"
    using assms by (cases "ce_mailgun env") (auto simp: invite_def send_invite_def st_bind_def py_assert_def)
  then show ?thesis
  proof cases
    case 2
    from mail_each_log [OF this] show ?thesis by (fastforce simp: mails_only_def invite_recipients_def)
  qed (simp add: mails_only_def)
qed (use assms in \<open>simp add: invite_def st_bind_def mails_only_def\<close>)

section \<open>Replies\<close>

lemma map_of_put_key: "map_of (put_key key v d) j = (if j = key \<and> map_of d key \<noteq> None then Some v else map_of d j)"
  by (induction d) (auto simp: put_key_def)

lemma map_of_put_or_add: "map_of (put_or_add key v p) j = (if j = key then Some v else map_of p j)"
  by (auto simp: put_or_add_def map_of_put_key map_add_def split: option.splits)

lemma reply_of_email [simp]: "map_of (reply_of a status comment p) ''email'' = map_of p ''email''"
  by (simp add: reply_of_def Let_def map_of_put_or_add)

lemma reply_of_own:
  assumes "map_of p ''email'' = Some (JStr a)"
  shows "map_of (reply_of a status comment p) ''status'' = Some (JStr status)"
    "map_of (reply_of a status comment p) ''comment'' = (if comment \<noteq> JStr [] then Some comment else map_of p ''comment'')"
  using assms by (simp_all add: reply_of_def Let_def map_of_put_or_add jget_or_null_def)

text \<open>The table by address, and the same after a change that keeps the addresses.\<close>

lemma table_put_map: "table_put (map (\<lambda>(k, q). (k, f q)) t) k (f p) = map (\<lambda>(k, q). (k, f q)) (table_put t k p)"
  by (force simp: table_put_def image_image case_prod_unfold)

lemma by_email_map:
  assumes "\<And>p. map_of (f p) ''email'' = map_of p ''email''"
  shows "by_email (map f ps) = res_bind (by_email ps) (\<lambda>t. Ok (map (\<lambda>(k, q). (k, f q)) t))"
proof -
  let ?step = "\<lambda>p t. case map_of p ''email'' of None \<Rightarrow> Raise KeyError | Some e \<Rightarrow> Ok (table_put t e p)"
  have "res_fold ?step (map f ps) (map (\<lambda>(k, q). (k, f q)) t) = res_bind (res_fold ?step ps t) (\<lambda>t. Ok (map (\<lambda>(k, q). (k, f q)) t))" for t
    by (induction ps arbitrary: t) (auto simp: assms table_put_map split: option.split)
  from this [of "[]"] show ?thesis by (simp add: by_email_def)
qed

lemma by_email_entries:
  assumes "by_email ps = Inr t" and "map_of t k = Some p"
  shows "p \<in> set ps \<and> map_of p ''email'' = Some k"
proof -
  let ?step = "\<lambda>p t. case map_of p ''email'' of None \<Rightarrow> Raise KeyError | Some e \<Rightarrow> Ok (table_put t e p)"
  have "\<forall>(k, q)\<in>set t. (k, q) \<in> set t0 \<or> (q \<in> set ps \<and> map_of q ''email'' = Some k)"
    if "res_fold ?step ps t0 = Inr t" for t0
    using that
  proof (induction ps arbitrary: t0)
    case (Cons p ps)
    then obtain e where e: "map_of p ''email'' = Some e" "res_fold ?step ps (table_put t0 e p) = Inr t"
      by (auto split: option.splits)
    from Cons.IH [OF e(2)] e(1) show ?case by (fastforce simp: table_put_def split: if_splits)
  qed auto
  from this [of "[]"] assms show ?thesis by (fastforce simp: by_email_def dest: map_of_SomeD)
qed

lemma filter_t_put:
  assumes "filter P xs = [c]" and "t_inv key xs" and "P c'" and "key c' = key c"
  shows "filter P (t_put key xs c') = [c']"
proof -
  obtain ys zs where split: "xs = ys @ c # zs" "\<forall>x\<in>set ys. \<not> P x" "\<forall>x\<in>set zs. \<not> P x"
    using assms(1) unfolding filter_eq_Cons_iff by (metis filter_empty_conv)
  have "key x \<noteq> key c" if "x \<in> set ys \<union> set zs" for x
    using that assms(2) split(1) by (auto simp: t_inv_def) (metis imageI)+
  then have "map (\<lambda>x. if key x = key c' then c' else x) ys = ys" "map (\<lambda>x. if key x = key c' then c' else x) zs = zs"
    using assms(4) by (auto intro: map_idI)
  with split assms(3,4) show ?thesis by (simp add: t_put_def filter_empty_conv)
qed

lemma one_event_Ok: "one_event es = Inr e \<longleftrightarrow> es = [e]"
  by (auto simp: one_event_def query_one_def split: list.splits if_splits)

lemma rsvp_target_Ok:
  assumes "rsvp_target acc data sys = Inr (e, status, b)"
  obtains s table p where "valid_public_id (jget_or_null data ''event_id'') = Inr s" "events_with_id acc s sys = [e]" "ev_message_id e \<noteq> None"
    "jget_or_null data ''status'' = JStr status" "status \<in> {''yes'', ''no'', ''maybe''}" "by_email (ev_participants e) = Inr table"
    "map_of table (JStr (acc_email acc)) = Some p" "replied_already p status data = Inr b"
  using assms that unfolding rsvp_target_def
  by (auto simp: res_bind_Inr_iff one_event_Ok split: if_split_asm json.splits option.splits)

lemma rsvp_targetI:
  assumes "valid_public_id (jget_or_null data ''event_id'') = Inr s" and "events_with_id acc s sys = [e]" and "ev_message_id e \<noteq> None"
    and "jget_or_null data ''status'' = JStr status" and "status \<in> {''yes'', ''no'', ''maybe''}" and "by_email (ev_participants e) = Inr table"
    and "map_of table (JStr (acc_email acc)) = Some p" and "replied_already p status data = Inr b"
  shows "rsvp_target acc data sys = Inr (e, status, b)"
proof -
  have one: "one_event [e] = Inr e" by (simp add: one_event_Ok)
  have "status \<noteq> []" using assms(5) by auto
  then have truthy: "json_truthy (JStr status)" by simp
  from one truthy assms show ?thesis by (simp only: rsvp_target_def res_bind_simps if_False simp_thms option.case json.case)
qed

end
