(* ===== verification/Props_Event_Api.thy ===== *)
theory Props_Event_Api
  imports Event_Api_Proofs Samples
begin

text \<open>
  Properties of events changed over the API: what reaches the calendar provider and the participants by the actions the
  handlers schedule, and what gets lost on the way.
\<close>

section \<open>Deletion\<close>

text \<open>
  C39: A task that deletes an event asks the calendar provider once, however many attempts it gets to: its first
  attempt takes the uids out of the arguments that its other attempts share, and these end before any
  request. So while the provider answers with errors, the requests are as many as the tasks, one when the worker's
  time never ends the task, and a provider that would carry out the deletion at the next attempt is not asked.
\<close>

theorem deletion_asks_once_per_task:
  assumes "acc_provider acc = ''gmail''" and "t_get ev_id (cs_events (cw_sys s)) eid = Some e"
    and "ev_calendar_id e \<noteq> Some (ce_emailed env)"
    and "text_arg args ''event_uid'' = Some u" and "text_arg args ''calendar_uid'' = Some c"
    and "\<forall>n\<in>set ns. 0 < n"
    and "\<forall>i<length ns. \<exists>x. res_bind (ce_reply env (cw_steps s + i)) delete_remote_event = Raise x"
  shows "event_tasks env acc ''delete_event'' eid ns args s =
     (s\<lparr>cw_steps := cw_steps s + length ns, cw_log := cw_log s @
        map (\<lambda>i. Called (Remove_event c u) (notify_params (map_of (popped args) ''notify_participants'')) (ce_reply env i))
          [cw_steps s ..< cw_steps s + length ns]\<rparr>, False)"
  using assms(2,6,7)
proof (induction ns arbitrary: s)
  case (Cons n ns)
  let ?call = "\<lambda>i. Called (Remove_event c u) (notify_params (map_of (popped args) ''notify_participants'')) (ce_reply env i)"
  let ?s1 = "s\<lparr>cw_steps := Suc (cw_steps s), cw_log := cw_log s @ [?call (cw_steps s)]\<rparr>"
  from Cons.prems(3) obtain x where "res_bind (ce_reply env (cw_steps s)) delete_remote_event = Raise x" by fastforce
  then have "event_attempts env acc ''delete_event'' eid n args s = (?s1, False)"
    using delete_task [OF assms(1) Cons.prems(1) assms(3-5)] Cons.prems(2) by simp
  moreover have "event_tasks env acc ''delete_event'' eid ns args ?s1 =
     (?s1\<lparr>cw_steps := cw_steps ?s1 + length ns, cw_log := cw_log ?s1 @ map ?call [cw_steps ?s1 ..< cw_steps ?s1 + length ns]\<rparr>, False)"
    using Cons.prems by (intro Cons.IH) auto
  moreover have "[cw_steps s ..< cw_steps s + length (n # ns)] = cw_steps s # [Suc (cw_steps s) ..< Suc (cw_steps s) + length ns]"
    by (simp add: upt_conv_Cons del: upt_Suc)
  ultimately show ?case by (simp del: upt_Suc)
qed simp

definition sample_cal :: calendar_row where
  "sample_cal = \<lparr>cal_id = 1, cal_namespace_id = 1, cal_uid = ''c'', cal_name = ''work'', cal_description = None,
     cal_read_only = False, cal_last_synced = None, cal_gpush_last_ping = None, cal_gpush_expiration = None\<rparr>"

definition sample_event :: event_row where
  "sample_event = \<lparr>ev_id = 1, ev_public_id = ''b'', ev_namespace_id = Some 1, ev_calendar_id = Some 1, ev_uid = ''local'',
     ev_provider_name = Some ''gmail'', ev_source = ''local'', ev_raw_data = [], ev_title = Some ''Tea'', ev_owner = None,
     ev_description = None, ev_location = None, ev_busy = True, ev_read_only = False, ev_reminders = None,
     ev_recurrence = None, ev_start = 0, ev_end = 1, ev_all_day = False, ev_is_owner = True, ev_last_modified = None,
     ev_status = ''confirmed'', ev_message_id = None, ev_participants = [], ev_sequence_number = Some 0, ev_kind = Plain\<rparr>"

definition gmail_account :: account_row where
  "gmail_account = sample_account\<lparr>acc_provider := ''gmail''\<rparr>"

definition sample_sys :: cal_sys where
  "sample_sys = \<lparr>cs_db = empty_store\<lparr>accounts := [gmail_account]\<rparr>, cs_calendars = [sample_cal], cs_events = [sample_event],
     cs_deleted = []\<rparr>"

text \<open>A provider that first answers with an error of its own, and then accepts everything.\<close>

definition sample_google :: google_lib where
  "sample_google = \<lparr>gl_time = (\<lambda>j. Ok 0), gl_datetime = (\<lambda>j. Ok 0), gl_now = (\<lambda>n. 0), gl_order = (\<lambda>S. []),
     gl_dumps = (\<lambda>d. []), gl_str = (\<lambda>j. []), gl_date_text = (\<lambda>t. []), gl_iso_text = (\<lambda>t. [])\<rparr>"

definition cal_env_with :: "(nat \<Rightarrow> nat res) \<Rightarrow> cal_env" where
  "cal_env_with reply = \<lparr>ce_google = sample_google, ce_time = (\<lambda>j. Ok 5), ce_date = (\<lambda>j. Ok 5), ce_reply = reply,
     ce_new_uid = (\<lambda>n. Ok ''remote''), ce_backend = (\<lambda>p. False), ce_other = (\<lambda>n. Ok ()), ce_mailgun = True,
     ce_post = (\<lambda>n. Ok ()), ce_emailed = 9\<rparr>"

definition fresh_world :: "cal_sys \<Rightarrow> cal_world" where
  "fresh_world sys = \<lparr>cw_sys = sys, cw_steps = 0, cw_log = []\<rparr>"

lemmas event_samples = sample_cal_def sample_event_def gmail_account_def sample_sys_def sample_google_def cal_env_with_def
  fresh_world_def sample_defs

text \<open>Four tasks have two attempts each. The provider fails four requests and would carry out the fifth.\<close>

theorem deletion_asks_once_per_task_witness:
  "\<exists>s1. event_tasks (cal_env_with (\<lambda>n. if n < 4 then Ok 500 else Ok 204)) gmail_account ''delete_event'' 1 [2, 2, 2, 2]
     [(''event_uid'', JStr ''u''), (''calendar_uid'', JStr ''c''), (''notify_participants'', JNull)] (fresh_world sample_sys) = (s1, False) \<and>
     length (cw_log s1) = 4 \<and> cw_sys s1 = sample_sys"
proof -
  let ?env = "cal_env_with (\<lambda>n. if n < 4 then Ok 500 else Ok 204)"
  let ?args = "[(''event_uid'', JStr ''u''), (''calendar_uid'', JStr ''c''), (''notify_participants'', JNull)]"
  show ?thesis
    by (subst deletion_asks_once_per_task [where e = sample_event and u = "''u''" and c = "''c''"])
      (simp_all add: event_samples t_get_def text_arg_def delete_remote_event_def raise_for_status_def)
qed

definition sample_req :: "bool \<Rightarrow> event_req" where
  "sample_req optimistic = \<lparr>eq_now = 7, eq_optimistic = optimistic, eq_uid = ''x'', eq_pid = ''c'', eq_cal_pid = (\<lambda>i. 11), eq_order = (\<lambda>S. []),
     eq_check = (\<lambda>j. Ok True), eq_cal = cal_env_with (\<lambda>n. Ok 200), eq_dict = (\<lambda>l. l), eq_list_size = (\<lambda>l. 0), eq_args_size = (\<lambda>l. 0),
     eq_parseaddr = (\<lambda>s. ([], s)),
     eq_client = Inr \<lparr>cl_email = ''a@b'', cl_username = ''a'', cl_ssl_required = True, cl_auth_type = ''password'', cl_auth_token = ''secret'',
       cl_port = 465\<rparr>,
     eq_smtp = \<lparr>se_refreshed = Inr [], se_dec = (\<lambda>n. []), se_order = (\<lambda>l. l), se_scripts = (\<lambda>n. \<lparr>sc_connect = Connected,
       sc_ehlo_plain = None, sc_starttls = None, sc_ehlo = None, sc_auth = (\<lambda>n. Inr (235, [])), sc_noop = (\<lambda>n. Inr (250, [])),
       sc_login = None, sc_send = Delivered [], sc_quit = None\<rparr>)\<rparr>,
     eq_mime = (\<lambda>status e a. ''reply'')\<rparr>"

lemma sample_event_read:
  assumes "cs_events sys = [sample_event\<lparr>ev_participants := ps, ev_message_id := m, ev_owner := w\<rparr>]" and "cs_deleted sys = []"
  shows "event_read_api gmail_account (JStr ''b'') sys = Ok (sample_event\<lparr>ev_participants := ps, ev_message_id := m, ev_owner := w\<rparr>)"
    and "events_with_id gmail_account ''b'' sys = [sample_event\<lparr>ev_participants := ps, ev_message_id := m, ev_owner := w\<rparr>]"
    and "valid_public_id (JStr ''b'') = Ok ''b''"
proof -
  show "valid_public_id (JStr ''b'') = Ok ''b''" by code_simp
  then show "event_read_api gmail_account (JStr ''b'') sys = Ok (sample_event\<lparr>ev_participants := ps, ev_message_id := m, ev_owner := w\<rparr>)"
    and "events_with_id gmail_account ''b'' sys = [sample_event\<lparr>ev_participants := ps, ev_message_id := m, ev_owner := w\<rparr>]"
    using assms by (simp_all add: event_read_api_def events_with_id_def one_event_def query_one_def sample_event_def gmail_account_def
        sample_account_def)
qed

lemma sample_read: "event_read_api gmail_account (JStr ''b'') sample_sys = Ok sample_event"
  using sample_event_read(1) [of sample_sys, where ps = "[]" and m = None and w = None] by (simp add: sample_sys_def sample_event_def)

text \<open>
  C40: An event that is deleted by the API before the action of its creation has run stays in the calendar of the
  provider: the creation stores the uid that the provider gives it, but the deletion asks to remove the uid
  that the event had at the request.
\<close>

theorem pending_event_stays:
  assumes del: "event_delete_api req acc public_id notify sys = Ok sys1" and read: "event_read_api acc public_id sys = Ok e"
    and gmail: "acc_provider acc = ''gmail''" and inv: "t_inv ev_id (cs_events sys)" and w: "cw_sys w = sys1"
    and run: "create_event (eq_cal req) acc (ev_id e) args w = (w1, Ok ())"
  shows "\<exists>entry (cal :: calendar_row) d p q args2 w2 r. actionlogs (cs_db sys1) = t_add (actionlogs (cs_db sys)) entry \<and>
     run_event_action (eq_cal req) acc (al_action entry) (al_record_id entry) (al_extra_args entry) w1 = (args2, w2, r) \<and>
     cw_log w2 = cw_log w @ [Called (Insert_event (cal_uid cal) d) p (ce_reply (eq_cal req) (cw_steps w)),
                             Called (Remove_event (cal_uid cal) (ev_uid e)) q (ce_reply (eq_cal req) (cw_steps w1))] \<and>
     map_option ev_uid (t_get ev_id (cs_events (cw_sys w1)) (ev_id e)) = (case ce_new_uid (eq_cal req) (cw_steps w) of Inl x \<Rightarrow> None | Inr u \<Rightarrow> Some u)"
proof -
  let ?env = "eq_cal req"
  obtain e' cal e1 entry where e': "event_read_api acc public_id sys = Inr e'"
    and nm': "ev_calendar_id e' \<noteq> Some (ce_emailed ?env)" and cal': "event_calendar e' sys = Inr cal" and "\<not> cal_read_only cal"
    and e1': "ev_id e1 = ev_id e'" "ev_uid e1 = ev_uid e'" "ev_calendar_id e1 = ev_calendar_id e'"
    and sys1: "sys1 = (put_event e1 sys)\<lparr>cs_db := (cs_db sys)\<lparr>actionlogs := t_add (actionlogs (cs_db sys)) entry\<rparr>\<rparr>"
    and entry': "al_action entry = ''delete_event''" "al_record_id entry = ev_id e'"
      "al_extra_args entry = [(''event_uid'', JStr (ev_uid e')), (''calendar_name'', JStr (cal_name cal)), (''calendar_uid'', JStr (cal_uid cal)),
             (''notify_participants'', notify)]"
    by (rule event_delete_Ok [OF del]) (rule that)
  have "e' = e" using e' read by simp
  note nm = nm' [unfolded this] and cal = cal' [unfolded this] and e1 = e1' [unfolded this] and entry = entry' [unfolded this]
  have get: "t_get ev_id (cs_events sys) (ev_id e) = Some e" using t_get_mem [OF inv event_read_Ok(1) [OF read]] .
  have getw: "t_get ev_id (cs_events (cw_sys w)) (ev_id e) = Some e1"
    using get inv e1(1) w sys1 by (simp add: put_event_def evs.get_put)
  have "cs_calendars (cw_sys w) = cs_calendars sys" using w sys1 by (simp add: put_event_def)
  then have calw: "event_calendar e1 (cw_sys w) = Inr cal" using event_calendar_same [OF e1(3)] cal by simp
  from create_event_gmail [OF run gmail getw calw] obtain d uid where uid: "ce_new_uid ?env (cw_steps w) = Inr uid"
    and log: "cw_log w1 = cw_log w @ [Called (Insert_event (cal_uid cal) d) (notify_params (map_of args ''notify_participants'')) (ce_reply ?env (cw_steps w))]"
    and sys2: "cw_sys w1 = (cw_sys w)\<lparr>cs_events := t_put ev_id (cs_events (cw_sys w)) (e1\<lparr>ev_uid := uid\<rparr>)\<rparr>" by blast
  have inv2: "t_inv ev_id (cs_events (cw_sys w))" using inv w sys1 by (simp add: put_event_def evs.inv_put)
  have get2: "t_get ev_id (cs_events (cw_sys w1)) (ev_id e) = Some (e1\<lparr>ev_uid := uid\<rparr>)"
    using sys2 getw e1(1) inv2 by (simp add: evs.get_put)
  have "text_arg (al_extra_args entry) ''event_uid'' = Some (ev_uid e)" "text_arg (al_extra_args entry) ''calendar_uid'' = Some (cal_uid cal)"
    by (simp_all add: entry text_arg_def)
  moreover have "ev_calendar_id (e1\<lparr>ev_uid := uid\<rparr>) \<noteq> Some (ce_emailed ?env)" using nm e1(3) by simp
  ultimately obtain w2 r q where
    "run_event_action ?env acc ''delete_event'' (ev_id e) (al_extra_args entry) w1 = (popped (al_extra_args entry), w2, r)"
    and "cw_log w2 = cw_log w1 @ [Called (Remove_event (cal_uid cal) (ev_uid e)) q (ce_reply ?env (cw_steps w1))]"
    using delete_attempt [OF gmail get2, of ?env] by metis
  with entry(1,2) log get2 uid sys1 show ?thesis
    by (intro exI [of _ entry] exI [of _ cal] exI [of _ d] exI [of _ "notify_params (map_of args ''notify_participants'')"] exI [of _ q]
        exI [of _ "popped (al_extra_args entry)"] exI [of _ w2] exI [of _ r]) (simp add: put_event_def)
qed

theorem pending_event_stays_witness:
  "\<exists>sys1 entry args2 w1 w2 r. event_delete_api (sample_req True) gmail_account (JStr ''b'') JNull sample_sys = Ok sys1 \<and>
     create_event (eq_cal (sample_req True)) gmail_account 1 [(''calendar_uid'', JStr ''c'')] (fresh_world sys1) = (w1, Ok ()) \<and>
     actionlogs (cs_db sys1) = t_add [] entry \<and>
     run_event_action (eq_cal (sample_req True)) gmail_account (al_action entry) (al_record_id entry) (al_extra_args entry) w1 = (args2, w2, r) \<and>
     map_option ev_uid (t_get ev_id (cs_events (cw_sys w1)) 1) = Some ''remote'' \<and>
     (\<exists>cal d p q st1 st2. cw_log w2 = [Called (Insert_event cal d) p st1, Called (Remove_event cal ''local'') q st2])"
proof -
  let ?req = "sample_req True"
  obtain sys1 where del: "event_delete_api ?req gmail_account (JStr ''b'') JNull sample_sys = Ok sys1"
    and sys1: "cs_events sys1 = [sample_event\<lparr>ev_sequence_number := Some 1, ev_status := ''cancelled''\<rparr>]" "cs_calendars sys1 = [sample_cal]"
    using sample_read
    by (simp add: event_delete_api_def next_sequence_def schedule_event_def schedule_action_def account_of_namespace_def put_event_def
        event_calendar_def t_get_def t_put_def sample_req_def event_samples)
  obtain w1 where run: "create_event (eq_cal ?req) gmail_account (ev_id sample_event) [(''calendar_uid'', JStr ''c'')] (fresh_world sys1) = (w1, Ok ())"
    using sys1 by (simp add: create_event_def registered_def the_event_def remote_create_event_def make_event_request_def ok_status_def
        raise_for_status_def st_bind_def Let_def notifies_def dump_event_def event_calendar_def t_get_def sample_req_def event_samples)
  have "t_inv ev_id (cs_events sample_sys)" "acc_provider gmail_account = ''gmail''" "cw_sys (fresh_world sys1) = sys1"
    by (simp_all add: event_samples t_inv_def)
  from pending_event_stays [OF del sample_read this(2,1,3) run] obtain entry and cal :: calendar_row and d p q args2 w2 r where
    "actionlogs (cs_db sys1) = t_add (actionlogs (cs_db sample_sys)) entry"
    "run_event_action (eq_cal ?req) gmail_account (al_action entry) (al_record_id entry) (al_extra_args entry) w1 = (args2, w2, r)"
    "cw_log w2 = cw_log (fresh_world sys1) @ [Called (Insert_event (cal_uid cal) d) p (ce_reply (eq_cal ?req) (cw_steps (fresh_world sys1))),
        Called (Remove_event (cal_uid cal) (ev_uid sample_event)) q (ce_reply (eq_cal ?req) (cw_steps w1))]"
    "map_option ev_uid (t_get ev_id (cs_events (cw_sys w1)) (ev_id sample_event)) =
      (case ce_new_uid (eq_cal ?req) (cw_steps (fresh_world sys1)) of Inl x \<Rightarrow> None | Inr u \<Rightarrow> Some u)"
    by blast
  with del run show ?thesis
    by (intro exI [of _ sys1] exI [of _ entry] exI [of _ args2] exI [of _ w1] exI [of _ w2] exI [of _ r] conjI exI)
      (auto simp: sample_req_def event_samples)
qed

section \<open>Updates\<close>

text \<open>
  C37: An update by the API that changes something, whether the event is changed at once or only by the action,
  ends the same way: when the action succeeds, the provider got exactly one request to put the changed event
  under its uid, and this event with the next sequence number is the one stored.
\<close>

theorem event_update_carried_out:
  assumes upd: "event_update_api req acc public_id notify data sys = Ok (sys1, shown)" and changed: "sys1 \<noteq> sys"
    and gmail: "acc_provider acc = ''gmail''" and inv: "t_inv ev_id (cs_events sys)" and w: "cw_sys w = sys1"
    and entry: "actionlogs (cs_db sys1) = t_add (actionlogs (cs_db sys)) entry"
    and run: "run_event_action (eq_cal req) acc (al_action entry) (al_record_id entry) (al_extra_args entry) w = (args, w1, Ok ())"
  shows "\<exists>e data1 gone c e1 cal d p q. event_read_api acc public_id sys = Ok e \<and> \<not> ev_read_only e \<and>
     prepared_data req e data = Ok (data1, gone) \<and> changes_of data1 = Ok c \<and> event_calendar e sys = Ok cal \<and>
     res_bind (changed_event (ce_time (eq_cal req)) (ce_date (eq_cal req)) c e) next_sequence = Ok e1 \<and>
     dump_event (ce_google (eq_cal req)) e1 = Ok d \<and> cw_log w1 = cw_log w @ [Called (Put_event (cal_uid cal) (ev_uid e) d) p q] \<and>
     t_get ev_id (cs_events (cw_sys w1)) (ev_id e) = Some e1"
proof -
  let ?env = "eq_cal req"
  let ?next = "\<lambda>c e. res_bind (changed_event (ce_time ?env) (ce_date ?env) c e) next_sequence"
  obtain e data1 gone c cal entry' where e: "event_read_api acc public_id sys = Inr e"
    "ev_calendar_id e \<noteq> Some (ce_emailed ?env)" "\<not> ev_read_only e" and p: "prepared_data req e data = Inr (data1, gone)" "changes_of data1 = Inr c"
    and cal: "event_calendar e sys = Inr cal" and logs: "actionlogs (cs_db sys1) = t_add (actionlogs (cs_db sys)) entry'"
    and cals: "cs_calendars sys1 = cs_calendars sys"
    and en: "al_action entry' = ''update_event''" "al_record_id entry' = ev_id e" "al_extra_args entry' \<noteq> []"
    and "map_of (al_extra_args entry') ''notify_participants'' = Some notify"
    and mode: "(map_of (al_extra_args entry') ''event_data'' = None \<and> (\<exists>e1. ?next c e = Inr e1 \<and> cs_events sys1 = t_put ev_id (cs_events sys) e1)) \<or>
     (map_of (al_extra_args entry') ''event_data'' = Some (JDict data1) \<and> cs_events sys1 = cs_events sys)"
    by (rule event_update_Ok [OF upd changed]) (rule that)
  have [simp]: "entry' = entry" using logs entry by (simp add: t_add_def)
  have run': "update_event ?env acc (ev_id e) (al_extra_args entry) w = (w1, Inr ())"
    using run en by (auto simp: run_event_action_def)
  have get: "t_get ev_id (cs_events sys) (ev_id e) = Some e" using t_get_mem [OF inv event_read_Ok(1) [OF e(1)]] .
  obtain e0 e1 where e0: "t_get ev_id (cs_events (cw_sys w)) (ev_id e) = Some e0" and e1: "?next c e = Inr e1"
    and data: "with_event_data ?env (al_extra_args entry) e0 = Inr e1"
  proof (cases "map_of (al_extra_args entry) ''event_data''")
    case None
    with mode obtain e1 where e1: "?next c e = Inr e1" "cs_events sys1 = t_put ev_id (cs_events sys) e1" by auto
    from next_change_keeps(1) [OF e1(1)] get inv e1(2) w have "t_get ev_id (cs_events (cw_sys w)) (ev_id e) = Some e1"
      by (simp add: evs.get_put)
    moreover have "with_event_data ?env (al_extra_args entry) e1 = Inr e1" using None by (simp add: with_event_data_def)
    ultimately show thesis using that e1(1) by blast
  next
    case (Some v)
    with mode have v: "v = JDict data1" and "cs_events sys1 = cs_events sys" by auto
    then have at: "t_get ev_id (cs_events (cw_sys w)) (ev_id e) = Some e" using get w by simp
    with run' Some v p(2) obtain e1 where "?next c e = Inr e1"
      by (cases "?next c e") (auto simp: update_event_def the_event_def st_bind_def with_event_data_def)
    with at Some v p(2) that show thesis by (simp add: with_event_data_def)
  qed
  note keep = next_change_keeps [OF e1]
  have calw: "event_calendar e1 (cw_sys w) = Inr cal" using event_calendar_same [OF keep(3)] cal cals w by simp
  have "ev_calendar_id e1 \<noteq> Some (ce_emailed ?env)" using e(2) keep(3) by simp
  from update_event_gmail [OF run' gmail e0 data this calw] obtain d q where "dump_event (ce_google ?env) e1 = Inr d"
    "cw_log w1 = cw_log w @ [Called (Put_event (cal_uid cal) (ev_uid e1) d) q (ce_reply ?env (cw_steps w))]"
    and sys2: "cw_sys w1 = (cw_sys w)\<lparr>cs_events := t_put ev_id (cs_events (cw_sys w)) e1\<rparr>" by blast
  moreover have "t_inv ev_id (cs_events (cw_sys w))" using mode inv w by (auto simp: evs.inv_put)
  then have "t_get ev_id (cs_events (cw_sys w1)) (ev_id e) = Some e1" using sys2 e0 keep(1) by (simp add: evs.get_put)
  ultimately show ?thesis using e p cal e1 keep(2) by auto
qed

definition coffee :: event_row where
  "coffee = sample_event\<lparr>ev_title := Some ''Coffee'', ev_sequence_number := Some 1\<rparr>"

theorem event_update_carried_out_witness:
  "\<exists>sys1 entry args w1 cal d p q. event_update_api (sample_req False) gmail_account (JStr ''b'') JNull [(''title'', JStr ''Coffee'')] sample_sys = Ok (sys1, sample_event) \<and>
     actionlogs (cs_db sys1) = t_add [] entry \<and>
     run_event_action (eq_cal (sample_req False)) gmail_account (al_action entry) (al_record_id entry) (al_extra_args entry) (fresh_world sys1) = (args, w1, Ok ()) \<and>
     cw_log w1 = [Called (Put_event cal ''local'' d) p q] \<and> t_get ev_id (cs_events (cw_sys w1)) 1 = Some coffee"
proof -
  let ?req = "sample_req False" and ?data = "[(''title'', JStr ''Coffee'')]"
  let ?c = "\<lparr>cg_title = Some (Some ''Coffee''), cg_description = None, cg_location = None, cg_when = None, cg_participants = None, cg_busy = None\<rparr>"
  have ch: "changes_of ?data = Ok ?c" by code_simp
  have ev: "changed_event (ce_time (eq_cal ?req)) (ce_date (eq_cal ?req)) ?c sample_event = Ok (coffee\<lparr>ev_sequence_number := Some 0\<rparr>)"
  proof -
    have strip: "py_rstrip ''Coffee'' = ''Coffee''" "py_rstrip [] = []" by code_simp+
    show ?thesis
      by (simp add: changed_event_def validated_def validate_length_def MAX_LENS_def unicode_safe_truncate_def strip coffee_def
          sample_event_def TITLE_MAX_LEN_def)
  qed
  have noop: "noop_event_update (ce_time (eq_cal ?req)) (ce_date (eq_cal ?req)) sample_event ?c = Ok False"
  proof -
    have "shown_fields (coffee\<lparr>ev_sequence_number := Some 0\<rparr>) \<noteq> shown_fields sample_event"
      by (simp add: shown_fields_def coffee_def sample_event_def)
    with ev show ?thesis by (simp add: noop_event_update_def)
  qed
  have ok: "updatable_event ?req gmail_account (JStr ''b'') sample_sys = Ok sample_event"
    using sample_read by (simp add: updatable_event_def sample_req_def event_samples)
  have valid: "valid_event_update (eq_order ?req) (ce_time (eq_cal ?req)) ?data = Ok ()" by (simp add: valid_event_update_def check_participants_def)
  obtain sys1 entry where upd: "event_update_api ?req gmail_account (JStr ''b'') JNull ?data sample_sys = Ok (sys1, sample_event)"
    and logs: "actionlogs (cs_db sys1) = t_add (actionlogs (cs_db sample_sys)) entry" and same: "cs_events sys1 = [sample_event]" "cs_calendars sys1 = [sample_cal]"
    and entry: "al_action entry = ''update_event''" "al_record_id entry = 1" "map_of (al_extra_args entry) ''event_data'' = Some (JDict ?data)"
      "al_extra_args entry \<noteq> []"
    using ok valid ch noop
    by (simp add: event_update_api_def prepared_data_def schedule_event_def schedule_action_def account_of_namespace_def
        event_calendar_def t_get_def sample_req_def event_samples)
  have "actionlogs (cs_db sample_sys) = []" by (simp add: event_samples)
  then have "sys1 \<noteq> sample_sys" using logs by (auto simp: t_add_def)
  have "with_event_data (eq_cal ?req) (al_extra_args entry) sample_event = Ok coffee"
    using entry(3) ch ev by (simp add: with_event_data_def next_sequence_def coffee_def sample_event_def)
  then obtain args w1 where run: "run_event_action (eq_cal ?req) gmail_account (al_action entry) (al_record_id entry) (al_extra_args entry) (fresh_world sys1) = (args, w1, Ok ())"
    using same entry(1,2,4)
    by (simp add: run_event_action_def update_event_def the_event_def st_bind_def registered_def remote_update_event_def make_event_request_def
        ok_status_def raise_for_status_def notifies_def dump_event_def event_calendar_def t_get_def Let_def coffee_def sample_req_def event_samples)
  have "t_inv ev_id (cs_events sample_sys)" "acc_provider gmail_account = ''gmail''" "cw_sys (fresh_world sys1) = sys1"
    by (simp_all add: event_samples t_inv_def)
  from event_update_carried_out [OF upd \<open>sys1 \<noteq> sample_sys\<close> this(2,1,3) logs run] sample_read ch ev obtain cal :: calendar_row and d p q where
    "cw_log w1 = cw_log (fresh_world sys1) @ [Called (Put_event (cal_uid cal) (ev_uid sample_event) d) p q]"
    "t_get ev_id (cs_events (cw_sys w1)) (ev_id sample_event) = Some coffee"
    by (auto simp: prepared_data_def next_sequence_def coffee_def sample_event_def)
  then have "cw_log w1 = [Called (Put_event (cal_uid cal) ''local'' d) p q]" "t_get ev_id (cs_events (cw_sys w1)) 1 = Some coffee"
    by (simp_all add: fresh_world_def sample_event_def)
  with upd logs run \<open>actionlogs (cs_db sample_sys) = []\<close> show ?thesis by auto
qed

text \<open>
  Who is taken off the participants by an update is never told: all mails of an update announce the update, and
  go to participants of the event as it is then.
\<close>

theorem update_mails_no_cancellation:
  assumes "update_event env acc eid args w = (w1, r)" and "t_get ev_id (cs_events (cw_sys w)) eid = Some e"
    and "with_event_data env args e = Ok e1"
  shows "\<exists>new. cw_log w1 = cw_log w @ new \<and>
     (\<forall>j ty. Mailed j ty \<in> set new \<longrightarrow> ty = ''update'' \<and> j \<in> (\<lambda>p. jget_or_null p ''email'') ` set (ev_participants e1))"
proof (cases "ev_calendar_id e1 = Some (ce_emailed env) \<or> (acc_provider acc \<noteq> ''gmail'' \<and> \<not> ce_backend env (acc_provider acc))")
  case True
  with assms have "cw_log w1 = cw_log w"
    by (auto simp: update_event_def the_event_def st_bind_def registered_def save_event_def split: if_splits)
  then show ?thesis by simp
next
  case False
  obtain w2 r2 where remote: "remote_update_event env acc e1 args w = (w2, r2)" by fastforce
  have new2: "\<exists>new. cw_log w2 = cw_log w @ new \<and> (\<forall>x\<in>set new. \<exists>c p q. x = Called c p q)"
    using remote by (auto simp: remote_update_event_def other_backend_def make_event_request_def ok_status_def st_bind_def Let_def
        split: if_splits sum.splits)
  show ?thesis
  proof (cases "\<exists>u. r2 = Inr u \<and> notifies acc args")
    case True
    obtain w3 r3 where inv: "invite env acc e1 ''request'' ''update'' w2 = (w3, r3)" by fastforce
    have "cw_log w1 = cw_log w3"
      using assms False True remote inv by (cases r3)
        (auto simp: update_event_def the_event_def st_bind_def registered_def save_event_def split: if_splits)
    with invite_log [OF inv] new2 show ?thesis unfolding mails_only_def by fastforce
  next
    case False2: False
    have "cw_log w1 = cw_log w2"
      using assms False False2 remote by (cases r2)
        (auto simp: update_event_def the_event_def st_bind_def registered_def save_event_def split: if_splits)
    with new2 show ?thesis by fastforce
  qed
qed

section \<open>Replies\<close>




end
