(* ===== verification/Spec2Isabelle.thy ===== *)
theory Spec2Isabelle
  imports Props_Data Props_Mail Props_Sync Props_Log Props_Service Props_Gmail Props_Deletion Props_Events Props_Monitor Props_Api Props_Heartbeat Props_Smtp Props_Remote Props_Drafts Props_Folders Props_Event_Api
begin

text \<open>
  The Nylas sync engine copies the mail, contacts and calendars of accounts at remote providers into
  a database and carries the changes that API clients make back to the providers.

  \<^bold>\<open>The program.\<close> One sync service per process (\<open>inbox/mailsync/service.py\<close>) claims accounts and starts
  a monitor per account, which runs a folder sync engine per IMAP folder
  (\<open>inbox/mailsync/backends/imap/generic.py\<close>, for Gmail \<open>inbox/mailsync/backends/gmail.py\<close>).
  An engine talks to the server through the client wrapper \<open>inbox/crispin.py\<close> and writes messages, UIDs and threads
  with the operations of \<open>inbox/mailsync/backends/imap/common.py\<close>. A garbage collector deletes messages whose
  UIDs are gone. Every flush of a session writes the transaction log that clients follow
  by deltas. Changes by clients are rows of the action log, which the syncback service
  (\<open>inbox/transactions/actions.py\<close>) collects, merges, executes and retries. Contacts and calendars are synced by monitors
  of their own, and the API filters and changes what is stored. Services share accounts through
  the database, and queues of accounts, events and deferred migrations in Redis.

  \<^bold>\<open>How the state is modelled.\<close> The rows of a mapped class are a record (\<open>Mail_Store\<close>); a table is a list of
  rows in primary-key order with the session's operations on it (\<open>Prelude\<close>: \<open>t_get\<close>, \<open>t_put\<close>, \<open>t_add\<close>, \<open>t_del\<close> with the
  invariant \<open>t_inv\<close>). An operation takes the state and returns the new one with a result, either an exception
  (\<open>Raise\<close>) or a value (\<open>Ok\<close>). A state type of the form \<open>st\<close> keeps what was done before an exception
  where the code commits as it goes; a plain result is an operation whose session is rolled back. Times are
  integers, in microseconds unless a definition says otherwise; Python's integers are unbounded. Sets that the code iterates are
  enumerated in ascending order, or by a parameter that enumerates them where the order matters.

  \<^bold>\<open>The theories.\<close>
  \<^item> \<open>Prelude\<close>, \<open>Py_Strings\<close>, \<open>Py_Util\<close>, \<open>Mail_Text\<close>: results, tables, the Python built-ins the sources use, and the helpers of
    \<open>inbox/util\<close> (chunks, base-36 ids, subjects, folder paths, addresses).
  \<^item> \<open>Mail_Store\<close>, \<open>Account_Model\<close>, \<open>Category_Model\<close>, \<open>Imap_Models\<close>, \<open>Mail_Threading\<close>, \<open>Contact_Model\<close>: the classes of \<open>inbox/models\<close> and
    their methods; lemmas on lookups that create rows, state changes of accounts, threads that stay
    bounded, contacts that stay unique.
  \<^item> \<open>Crispin_Client\<close>: folder roles and lists, selection, fetches and deletion over one IMAP connection, whose replies are
    parameters.
  \<^item> \<open>Retry_Logic\<close>: \<open>inbox/util/concurrency.py\<close>. The attempts are a list, what each of them does; the loop takes
    as many as it needs.
  \<^item> \<open>Imap_Common\<close>, \<open>Folder_Sync\<close>, \<open>Folder_Engine\<close>, \<open>Folder_Facts\<close>, \<open>Folder_Proofs\<close>: the operations of an engine, its handlers and its
    run loop, and what the loop keeps, what an initial sync, a resync and a removal leave in the store.
  \<^item> \<open>Gmail_Sync\<close>, \<open>Gmail_Unique\<close>, \<open>Gmail_Proofs\<close>: the Gmail engine, its deduplication by X-GM-MSGID, the lazy expansion of threads and
    the resync.
  \<^item> \<open>Mail_Gc\<close>: the deletion of dangling messages, their threads and unused categories; label renames.
  \<^item> \<open>Delta_Sync\<close>: the transaction log and the deltas between two pointers.
  \<^item> \<open>Syncback\<close>, \<open>Syncback_Proofs\<close>: scheduling, batching, merging and executing actions; the service is a transition system
    over its workers.
  \<^item> \<open>Sync_Queue\<close>, \<open>Event_Queues\<close>, \<open>Sync_Service\<close>, \<open>Service_Proofs\<close>, \<open>Poll_Proofs\<close>: the Redis structures as interfaces that the model's own
    definitions interpret, event queues, deferred migrations and the service with its polls; several services are
    a transition system over the shared accounts.
  \<^item> \<open>Data_Deletion\<close>: deleting a namespace in batches of SQL statements, each of which may fail, with the foreign keys that the
    models declare and what they do with referring rows (cascades, keys set to null), and the purge of the transaction
    log, whose queries read the clock each. \<open>Props_Deletion\<close> says which rows go and which stay.
  \<^item> \<open>Event_Model\<close>, \<open>Event_Recurrence\<close>, \<open>Google_Provider\<close>, \<open>Event_Sync\<close>, \<open>Ical_Import\<close>: events and calendars (\<open>inbox/models/event.py\<close>,
    \<open>inbox/events\<close>): times, updates and participants of events, expansion of recurring ones, Google's JSON and paging, the
    syncs, and invitations by mail. \<open>Event_Facts\<close>, \<open>Event_Proofs\<close> and \<open>Ical_Proofs\<close> show what these keep: one row per
    uid, rows that say what was reported, no event without its calendar, and no step back by mail.
  \<^item> \<open>Sync_Monitor\<close>, \<open>Monitor_Proofs\<close>, \<open>Monitor_Engines\<close>, \<open>Monitor_Labels\<close>: the monitor of an account's mail sync
    (\<open>inbox/mailsync/backends/imap/monitor.py\<close>, \<open>base.py\<close>, and the Gmail monitor): saving folders and labels, starting one
    engine per folder, stopping them.
  \<^item> \<open>Api_Validation\<close>, \<open>Api_Filtering\<close>, \<open>Api_Update\<close>: requests to the API (\<open>inbox/api/validation.py\<close>,
    \<open>filtering.py\<close>, \<open>update.py\<close>): public ids and arguments, the queries behind the listings, and changes of flags,
    folders and labels by a client.
  \<^item> \<open>Api_Pages\<close>, \<open>Update_Proofs\<close>, \<open>Label_Proofs\<close>: pages that follow a cursor as an interface which the pages over
    shards and the metadata queries meet, what an update keeps, and the one folder of a Gmail message.
  \<^item> \<open>Heartbeat\<close>, \<open>Heartbeat_Proofs\<close>: heartbeats of the syncs in Redis (\<open>inbox/heartbeat\<close>).
  \<^item> \<open>Smtp_Client\<close>, \<open>Smtp_Proofs\<close>: sending by SMTP (\<open>inbox/sendmail/smtp\<close>): connections, authentication, retries,
    errors and raw messages, with what goes over the wire in the clear or encrypted. A message is logged with its
    recipients when it is submitted, before the server replies; the lemmas say which outcomes follow which replies.
  \<^item> \<open>Remote_Actions\<close>, \<open>Remote_Proofs\<close>: the actions that carry changes to the mail server (\<open>inbox/actions\<close>) as
    sequences of commands, each logged with the folder that the connection has selected.
  \<^item> \<open>Api_Drafts\<close>, \<open>Draft_Proofs\<close>: drafts and sending over the API (\<open>inbox/sendmail/base.py\<close>, \<open>inbox/api/sending.py\<close>
    and their handlers in \<open>ns_api.py\<close>), and how scheduled actions are read (\<open>inbox/actions/base.py\<close>).
  \<^item> \<open>Api_Folders\<close>, \<open>Folder_Api_Proofs\<close>: creating, renaming and deleting folders and labels over the API. A deletion
    marks the category and its folders or labels with the time; the rows go with the action.
  \<^item> \<open>Event_Actions\<close>, \<open>Api_Events\<close>, \<open>Event_Api_Proofs\<close>: events over the API, and the actions that carry them to the calendar provider and
    to the participants (\<open>inbox/events/actions\<close>). The attempts of a task share its arguments; when the worker's time ends the
    task, another one reads them afresh. An answer to a reply is the event or an error with its code.
  \<^item> \<open>Samples\<close>, \<open>Sync_Samples\<close> and the theories \<open>Props_*\<close>: concrete states, and the properties with their
    witnesses on them.

  \<^bold>\<open>Bounds and fuel.\<close> No loop of the model is cut off by fuel: the loops are structural on what they consume (rows, UIDs,
  replies, attempts) or have a measure. Loops of the code that run until the
  process ends (engines, services, executors) are one turn each, and the properties speak of any number of turns.
  The constants are those of the code (\<open>MAX_THREAD_LENGTH\<close>, 20 attempts of an action, 1000 and 2000 rows of a deletion batch).

  \<^bold>\<open>Not modelled.\<close> What is below the sources: IMAP and HTTP connections, SQL, MIME and HTML parsing, time zones and
  recurrence rules are parameters with the properties the code relies on as hypotheses. Greenlet scheduling is the
  order of the steps. Logging, statistics, configuration, consoles, authentication, cryptography, S3, the construction
  of MIME mails and iCalendar texts, contact providers and search are left out: they are calls into libraries and services.
  Of the API server the handlers that change drafts, sent mail, folders, labels and events are modelled; the others
  call the filters and updates modelled here, and the encoding of their answers is not. Uids of events and calendars are
  compared exactly, while the collation of their columns ignores case. The import of attached events is modelled, but not as a part of
  the download of a message, whose tables it does not touch. A TLS handshake that breaks during an upgrade is not among the
  replies of an SMTP server. Migrations and tests are no part of the program's behaviour.
\<close>

end
